(* ===== verification/Prelude.thy ===== *)
theory Prelude
  imports "HOL-Library.Word"
begin

text \<open>Vocabulary and generic facts shared by the component theories: the machine
  integers of the code, fallible results (Rust's \<open>Result\<close>) as a sum, the
  saturating operations of \<open>u32\<close>/\<open>u64\<close>, and tables of rows with a key (the
  SQLite tables of the runtime store and the keyed vectors of the in-memory
  components), with the laws of their upsert, lookup and delete.  The
  collection \<open>table_simps\<close> holds those laws; component proofs add it to
  \<open>simp\<close>.\<close>

named_theorems table_simps
named_theorems result_simps

section \<open>Machine integers and results\<close>

type_synonym u8 = "8 word"
type_synonym u32 = "32 word"
type_synonym u64 = "64 word"

text \<open>\<open>Result<T, E>\<close>: \<open>Inl\<close> is \<open>Err\<close>, \<open>Inr\<close> is \<open>Ok\<close>.\<close>

type_synonym ('e, 'a) result = "'e + 'a"

abbreviation Err :: "'e \<Rightarrow> ('e, 'a) result" where "Err \<equiv> Inl"
abbreviation Ok :: "'a \<Rightarrow> ('e, 'a) result" where "Ok \<equiv> Inr"

text \<open>The \<open>?\<close> operator and \<open>map_err\<close>.\<close>

fun and_then :: "('e, 'a) result \<Rightarrow> ('a \<Rightarrow> ('e, 'b) result) \<Rightarrow> ('e, 'b) result" where
  "and_then (Inl e) f = Inl e"
| "and_then (Inr a) f = f a"

fun map_err :: "('e \<Rightarrow> 'f) \<Rightarrow> ('e, 'a) result \<Rightarrow> ('f, 'a) result" where
  "map_err g (Inl e) = Inl (g e)"
| "map_err g (Inr a) = Inr a"

fun map_ok :: "('a \<Rightarrow> 'b) \<Rightarrow> ('e, 'a) result \<Rightarrow> ('e, 'b) result" where
  "map_ok g (Inl e) = Inl e"
| "map_ok g (Inr a) = Inr (g a)"

fun ok_or :: "'e \<Rightarrow> 'a option \<Rightarrow> ('e, 'a) result" where
  "ok_or e None = Inl e"
| "ok_or e (Some a) = Inr a"

lemma and_then_Ok_iff [result_simps]:
  "and_then r f = Inr b \<longleftrightarrow> (\<exists>a. r = Inr a \<and> f a = Inr b)"
  by (cases r) auto

lemma and_then_Err_iff [result_simps]:
  "and_then r f = Inl e \<longleftrightarrow> r = Inl e \<or> (\<exists>a. r = Inr a \<and> f a = Inl e)"
  by (cases r) auto

lemma map_err_Ok_iff [result_simps]: "map_err g r = Inr a \<longleftrightarrow> r = Inr a"
  by (cases r) auto

lemma map_err_Err_iff [result_simps]: "map_err g r = Inl e \<longleftrightarrow> (\<exists>x. r = Inl x \<and> e = g x)"
  by (cases r) auto

lemma map_ok_Ok_iff [result_simps]: "map_ok g r = Inr b \<longleftrightarrow> (\<exists>a. r = Inr a \<and> b = g a)"
  by (cases r) auto

lemma map_ok_Err_iff [result_simps]: "map_ok g r = Inl e \<longleftrightarrow> r = Inl e"
  by (cases r) auto

lemma ok_or_Ok_iff [result_simps]: "ok_or e x = Inr a \<longleftrightarrow> x = Some a"
  by (cases x) auto

lemma ok_or_Err_iff [result_simps]: "ok_or e x = Inl e' \<longleftrightarrow> x = None \<and> e' = e"
  by (cases x) auto

text \<open>Saturating arithmetic of the unsigned types.\<close>

definition saturating_add :: "'a::len word \<Rightarrow> 'a word \<Rightarrow> 'a word" where
  "saturating_add x y = (if x \<le> x + y then x + y else - 1)"

definition saturating_sub :: "'a::len word \<Rightarrow> 'a word \<Rightarrow> 'a word" where
  "saturating_sub x y = (if y \<le> x then x - y else 0)"

lemma unat_bound: "unat (x :: 'a::len word) < 2 ^ LENGTH('a)"
  by (rule unsigned_less)

lemma unat_saturating_sub:
  fixes x y :: "'a::len word"
  shows "unat (saturating_sub x y) = unat x - unat y"
  by (simp add: saturating_sub_def unat_sub word_le_nat_alt)

lemma saturating_sub_le: "saturating_sub x y \<le> (x :: 'a::len word)"
  by (simp add: word_le_nat_alt unat_saturating_sub)

lemma unat_saturating_add:
  fixes x y :: "'a::len word"
  shows "unat (saturating_add x y) = min (unat x + unat y) (2 ^ LENGTH('a) - 1)"
proof (cases "unat x + unat y < 2 ^ LENGTH('a)")
  case True
  then have "unat (x + y) = unat x + unat y"
    by (simp add: unat_add_lem)
  with True show ?thesis
    by (simp add: saturating_add_def word_le_nat_alt)
next
  case False
  have eq: "unat (x + y) = unat x + unat y - 2 ^ LENGTH('a)"
    using False unat_bound [of x] unat_bound [of y]
    by (simp only: unat_word_ariths(1) le_mod_geq not_less mod_less)
  have "unat (x + y) < unat x"
    using False eq unat_bound [of y] by linarith
  then have "\<not> x \<le> x + y"
    by (simp only: word_le_nat_alt not_le)
  then have "saturating_add x y = - 1"
    by (simp only: saturating_add_def if_False)
  with False show ?thesis
    by (simp add: unsigned_minus_1_eq_mask mask_eq_exp_minus_1)
qed

lemma saturating_add_ge: "x \<le> saturating_add x (y :: 'a::len word)"
proof -
  have "unat x \<le> min (unat x + unat y) (2 ^ LENGTH('a) - 1)"
    using unat_bound [of x] by linarith
  then show ?thesis
    by (simp only: word_le_nat_alt unat_saturating_add)
qed

section \<open>Tables of keyed rows\<close>

text \<open>A table is the list of its rows in insertion order.  \<open>upsert_by\<close> is
  \<open>INSERT ... ON CONFLICT(key) DO UPDATE\<close> of a whole row, \<open>update_by\<close> and
  \<open>delete_by\<close> are \<open>UPDATE ... WHERE key = k\<close> and \<open>DELETE ... WHERE key = k\<close>,
  \<open>find_by\<close> is the \<open>query_row\<close> on the key.\<close>

definition find_by :: "('r \<Rightarrow> 'k) \<Rightarrow> 'k \<Rightarrow> 'r list \<Rightarrow> 'r option" where
  "find_by key k t = find (\<lambda>r. key r = k) t"

definition has_key :: "('r \<Rightarrow> 'k) \<Rightarrow> 'k \<Rightarrow> 'r list \<Rightarrow> bool" where
  "has_key key k t = list_ex (\<lambda>r. key r = k) t"

definition update_by :: "('r \<Rightarrow> 'k) \<Rightarrow> 'k \<Rightarrow> ('r \<Rightarrow> 'r) \<Rightarrow> 'r list \<Rightarrow> 'r list" where
  "update_by key k f t = map (\<lambda>r. if key r = k then f r else r) t"

definition delete_by :: "('r \<Rightarrow> 'k) \<Rightarrow> 'k \<Rightarrow> 'r list \<Rightarrow> 'r list" where
  "delete_by key k t = filter (\<lambda>r. key r \<noteq> k) t"

definition upsert_by :: "('r \<Rightarrow> 'k) \<Rightarrow> 'r \<Rightarrow> 'r list \<Rightarrow> 'r list" where
  "upsert_by key r t =
     (if has_key key (key r) t then update_by key (key r) (\<lambda>_. r) t else t @ [r])"

abbreviation keys_of :: "('r \<Rightarrow> 'k) \<Rightarrow> 'r list \<Rightarrow> 'k set" where
  "keys_of key t \<equiv> key ` set t"

abbreviation unique_keys :: "('r \<Rightarrow> 'k) \<Rightarrow> 'r list \<Rightarrow> bool" where
  "unique_keys key t \<equiv> distinct (map key t)"

lemma has_key_iff [table_simps]: "has_key key k t \<longleftrightarrow> k \<in> keys_of key t"
  by (auto simp: has_key_def list_ex_iff)

lemma find_by_None_iff: "find_by key k t = None \<longleftrightarrow> k \<notin> keys_of key t"
  by (auto simp: find_by_def find_None_iff)

lemma find_by_SomeD: "find_by key k t = Some r \<Longrightarrow> r \<in> set t \<and> key r = k"
  by (auto simp: find_by_def find_Some_iff)

lemma find_by_Nil [simp]: "find_by key k [] = None"
  by (simp add: find_by_def)

lemma find_by_Cons [simp]:
  "find_by key k (r # t) = (if key r = k then Some r else find_by key k t)"
  by (simp add: find_by_def)

lemma find_by_append [table_simps]:
  "find_by key k (t @ u) = (case find_by key k t of Some r \<Rightarrow> Some r | None \<Rightarrow> find_by key k u)"
  by (induction t) auto

lemma find_by_unique:
  "unique_keys key t \<Longrightarrow> r \<in> set t \<Longrightarrow> find_by key (key r) t = Some r"
  by (induction t) (auto simp: image_iff)

lemma find_by_update_by [table_simps]:
  assumes "\<And>r. key (f r) = key r"
  shows "find_by key k' (update_by key k f t) =
    (if k' = k then map_option f (find_by key k' t) else find_by key k' t)"
  by (induction t) (auto simp: update_by_def assms)

lemma map_key_update_by [table_simps]:
  assumes "\<And>r. key (f r) = key r"
  shows "map key (update_by key k f t) = map key t"
  by (induction t) (auto simp: update_by_def assms)

lemma length_update_by [simp]: "length (update_by key k f t) = length t"
  by (simp add: update_by_def)

lemma find_by_delete_by [table_simps]:
  "find_by key k' (delete_by key k t) = (if k' = k then None else find_by key k' t)"
  by (induction t) (auto simp: delete_by_def)

lemma keys_delete_by [table_simps]: "keys_of key (delete_by key k t) = keys_of key t - {k}"
  by (auto simp: delete_by_def)

lemma unique_delete_by [intro]:
  "unique_keys key t \<Longrightarrow> unique_keys key (delete_by key k t)"
  by (auto simp: delete_by_def distinct_map_filter)

lemma find_by_upsert_by [table_simps]:
  "find_by key k (upsert_by key r t) = (if k = key r then Some r else find_by key k t)"
proof (cases "has_key key (key r) t")
  case True
  have "find_by key k (update_by key (key r) (\<lambda>_. r) t) =
      (if k = key r then map_option (\<lambda>_. r) (find_by key k t) else find_by key k t)"
    by (induction t) (auto simp: update_by_def)
  moreover from True obtain r' where "find_by key (key r) t = Some r'"
    by (cases "find_by key (key r) t") (auto simp: has_key_iff find_by_None_iff)
  ultimately show ?thesis using True by (auto simp: upsert_by_def)
next
  case False
  then have "find_by key (key r) t = None" by (simp add: has_key_iff find_by_None_iff)
  with False show ?thesis
    by (auto simp: upsert_by_def find_by_append split: option.splits)
qed

lemma map_key_replace [table_simps]:
  "map key (update_by key (key r) (\<lambda>_. r) t) = map key t"
  by (induction t) (auto simp: update_by_def)

lemma keys_upsert_by [table_simps]: "keys_of key (upsert_by key r t) = insert (key r) (keys_of key t)"
proof (cases "has_key key (key r) t")
  case True
  have "keys_of key (update_by key (key r) (\<lambda>_. r) t) = keys_of key t"
    by (metis map_key_replace list.set_map)
  with True show ?thesis by (auto simp: upsert_by_def has_key_iff)
qed (auto simp: upsert_by_def)

lemma unique_upsert_by [intro]:
  "unique_keys key t \<Longrightarrow> unique_keys key (upsert_by key r t)"
  by (auto simp: upsert_by_def table_simps)

lemma length_upsert_by:
  "length (upsert_by key r t) = (if key r \<in> keys_of key t then length t else Suc (length t))"
  by (auto simp: upsert_by_def has_key_iff)

text \<open>\<open>ORDER BY f ASC LIMIT 1\<close>: a row with the least value; SQL leaves ties
  open, the model takes the earliest row.\<close>

fun first_min :: "('r \<Rightarrow> 'o::linorder) \<Rightarrow> 'r list \<Rightarrow> 'r option" where
  "first_min f [] = None"
| "first_min f (x # xs) = (case first_min f xs of
      None \<Rightarrow> Some x
    | Some y \<Rightarrow> if f x \<le> f y then Some x else Some y)"

lemma first_min_None_iff [table_simps]: "first_min f t = None \<longleftrightarrow> t = []"
  by (cases t) (auto split: option.splits)

lemma first_min_SomeD:
  "first_min f t = Some r \<Longrightarrow> r \<in> set t \<and> (\<forall>r'\<in>set t. f r \<le> f r')"
proof (induction t arbitrary: r)
  case (Cons x xs)
  show ?case
  proof (cases "first_min f xs")
    case None
    with Cons.prems show ?thesis by (auto simp: table_simps)
  next
    case (Some y)
    with Cons.IH [OF Some] Cons.prems show ?thesis by (auto split: if_splits)
  qed
qed simp

lemma first_min_Some_ex: "t \<noteq> [] \<Longrightarrow> \<exists>r. first_min f t = Some r"
  by (metis first_min_None_iff not_None_eq)

text \<open>\<open>UPDATE ... WHERE P\<close> with a condition that is not only on the key.\<close>

definition update_where :: "('r \<Rightarrow> bool) \<Rightarrow> ('r \<Rightarrow> 'r) \<Rightarrow> 'r list \<Rightarrow> 'r list" where
  "update_where P f t = map (\<lambda>r. if P r then f r else r) t"

lemma set_update_where: "set (update_where P f t) = (\<lambda>r. if P r then f r else r) ` set t"
  by (simp add: update_where_def)

lemma map_key_update_where [table_simps]:
  "(\<And>r. key (f r) = key r) \<Longrightarrow> map key (update_where P f t) = map key t"
  by (simp add: update_where_def)

lemma length_update_where [simp]: "length (update_where P f t) = length t"
  by (simp add: update_where_def)

lemma find_by_update_where [table_simps]:
  assumes "\<And>r. key (f r) = key r"
  shows "find_by key k (update_where P f t) =
    map_option (\<lambda>r. if P r then f r else r) (find_by key k t)"
  by (induction t) (auto simp: update_where_def assms)

lemma update_by_where: "update_by key k f t = update_where (\<lambda>r. key r = k) f t"
  by (simp add: update_by_def update_where_def)

lemma unique_keys_eq:
  "unique_keys key t \<Longrightarrow> r \<in> set t \<Longrightarrow> r' \<in> set t \<Longrightarrow> key r = key r' \<Longrightarrow> r = r'"
  by (metis find_by_unique option.inject)

section \<open>Strings\<close>

definition trim_start :: "char \<Rightarrow> string \<Rightarrow> string" where
  "trim_start c s = dropWhile (\<lambda>x. x = c) s"

definition trim_both :: "char \<Rightarrow> string \<Rightarrow> string" where
  "trim_both c s = rev (trim_start c (rev (trim_start c s)))"

fun join_with :: "string \<Rightarrow> string list \<Rightarrow> string" where
  "join_with sep [] = []"
| "join_with sep [s] = s"
| "join_with sep (s # t # ss) = s @ sep @ join_with sep (t # ss)"


text \<open>Decimal rendering of a natural number, as \<open>format!("{}", n)\<close> prints it.\<close>

definition digit_char :: "nat \<Rightarrow> char" where
  "digit_char d = char_of (48 + d)"

fun show_nat :: "nat \<Rightarrow> string" where
  "show_nat n = (if n < 10 then [digit_char n] else show_nat (n div 10) @ [digit_char (n mod 10)])"

declare show_nat.simps [simp del]

lemma digit_char_inject:
  assumes "a < 10" "b < 10" "digit_char a = digit_char b"
  shows "a = b"
proof -
  have "of_char (digit_char a) = (of_char (digit_char b) :: nat)" using assms(3) by simp
  with assms(1,2) show ?thesis by (simp add: digit_char_def)
qed

lemma show_nat_nonempty: "show_nat n \<noteq> []"
  by (subst show_nat.simps) simp

lemma show_nat_inject: "show_nat m = show_nat n \<Longrightarrow> m = n"
proof (induction m arbitrary: n rule: show_nat.induct)
  case (1 m)
  show ?case
  proof (cases "m < 10")
    case True
    then have m: "show_nat m = [digit_char m]" by (simp add: show_nat.simps [of m])
    have "n < 10"
    proof (rule ccontr)
      assume "\<not> n < 10"
      with 1(2) m have "show_nat (n div 10) = []" by (subst (asm) (2) show_nat.simps) simp
      then show False by (simp add: show_nat_nonempty)
    qed
    then have "show_nat n = [digit_char n]" by (simp add: show_nat.simps [of n])
    with m 1(2) True \<open>n < 10\<close> show ?thesis using digit_char_inject by simp
  next
    case False
    then have m: "show_nat m = show_nat (m div 10) @ [digit_char (m mod 10)]"
      by (simp add: show_nat.simps [of m])
    show ?thesis
    proof (cases "n < 10")
      case True
      with 1(2) m have "show_nat (m div 10) = []" by (subst (asm) (2) show_nat.simps) simp
      then show ?thesis by (simp add: show_nat_nonempty)
    next
      case n: False
      then have "show_nat n = show_nat (n div 10) @ [digit_char (n mod 10)]"
        by (simp add: show_nat.simps [of n])
      with m 1(2) have "show_nat (m div 10) = show_nat (n div 10)" "digit_char (m mod 10) = digit_char (n mod 10)"
        by auto
      with 1(1) [OF False] digit_char_inject [of "m mod 10" "n mod 10"]
      have "m div 10 = n div 10" "m mod 10 = n mod 10" by auto
      then show ?thesis by (metis div_mult_mod_eq)
    qed
  qed
qed


text \<open>ASCII character classes and case, as \<open>char::is_alphanumeric\<close>, \<open>is_whitespace\<close>
  and \<open>to_ascii_lowercase\<close> have them on ASCII text.\<close>

definition char_code :: "char \<Rightarrow> nat" where
  "char_code c = of_char c"

definition is_digit :: "char \<Rightarrow> bool" where
  "is_digit c = (48 \<le> char_code c \<and> char_code c \<le> 57)"

definition is_upper :: "char \<Rightarrow> bool" where
  "is_upper c = (65 \<le> char_code c \<and> char_code c \<le> 90)"

definition is_lower :: "char \<Rightarrow> bool" where
  "is_lower c = (97 \<le> char_code c \<and> char_code c \<le> 122)"

definition is_alphanumeric :: "char \<Rightarrow> bool" where
  "is_alphanumeric c = (is_digit c \<or> is_upper c \<or> is_lower c)"

definition is_whitespace :: "char \<Rightarrow> bool" where
  "is_whitespace c = (char_code c = 32 \<or> 9 \<le> char_code c \<and> char_code c \<le> 13)"

definition lower_char :: "char \<Rightarrow> char" where
  "lower_char c = (if is_upper c then char_of (char_code c + 32) else c)"

definition to_lower :: "string \<Rightarrow> string" where
  "to_lower = map lower_char"

definition trim_ws :: "string \<Rightarrow> string" where
  "trim_ws s = rev (dropWhile is_whitespace (rev (dropWhile is_whitespace s)))"

fun split_on :: "(char \<Rightarrow> bool) \<Rightarrow> string \<Rightarrow> string list" where
  "split_on p [] = [[]]"
| "split_on p (c # cs) = (if p c then [] # split_on p cs
     else (case split_on p cs of [] \<Rightarrow> [[c]] | w # ws \<Rightarrow> (c # w) # ws))"

text \<open>\<open>str::starts_with\<close>, \<open>ends_with\<close>, \<open>contains\<close> and \<open>strip_prefix\<close>.\<close>

fun starts_with :: "string \<Rightarrow> string \<Rightarrow> bool" where
  "starts_with [] s = True"
| "starts_with (c # p) [] = False"
| "starts_with (c # p) (d # s) = (c = d \<and> starts_with p s)"

definition ends_with :: "string \<Rightarrow> string \<Rightarrow> bool" where
  "ends_with p s = starts_with (rev p) (rev s)"

fun contains_str :: "string \<Rightarrow> string \<Rightarrow> bool" where
  "contains_str n [] = (n = [])"
| "contains_str n (c # s) = (starts_with n (c # s) \<or> contains_str n s)"

definition strip_prefix :: "string \<Rightarrow> string \<Rightarrow> string option" where
  "strip_prefix p s = (if starts_with p s then Some (drop (length p) s) else None)"

lemma starts_with_iff: "starts_with p s \<longleftrightarrow> (\<exists>r. s = p @ r)"
  by (induction p s rule: starts_with.induct) auto

lemma ends_with_iff: "ends_with p s \<longleftrightarrow> (\<exists>r. s = r @ p)"
  unfolding ends_with_def starts_with_iff by (metis rev_append rev_rev_ident)

lemma contains_str_iff: "contains_str n s \<longleftrightarrow> (\<exists>a b. s = a @ n @ b)"
proof (induction s)
  case (Cons c s)
  have "(\<exists>a b. c # s = a @ n @ b) \<longleftrightarrow> starts_with n (c # s) \<or> (\<exists>a b. s = a @ n @ b)"
    unfolding starts_with_iff by (metis append_Cons append_Nil list.inject neq_Nil_conv)
  with Cons show ?case by simp
qed simp

lemma strip_prefix_Some: "strip_prefix p s = Some r \<longleftrightarrow> s = p @ r"
  by (auto simp: strip_prefix_def starts_with_iff)

end
