(* ===== verification/Float32.thy ===== *)
theory Float32
  imports Complex_Main Prelude
begin

text \<open>The \<open>f32\<close> operations the code uses on safety limits: \<open>abs\<close>, the
  comparison \<open>>\<close> and the literal \<open>0.0\<close>, on IEEE 754 single bit patterns.  A
  comparison with a NaN is false, as in Rust.  \<open>f32_gt_real\<close> ties the bit-level
  comparison to the order of the denoted reals.\<close>

type_synonym f32 = "32 word"

definition f32_sign :: "f32 \<Rightarrow> bool" where
  "f32_sign w = bit w 31"

definition f32_abs :: "f32 \<Rightarrow> f32" where
  "f32_abs w = take_bit 31 w"

definition f32_mag :: "f32 \<Rightarrow> int" where
  "f32_mag w = uint (f32_abs w)"

definition f32_is_nan :: "f32 \<Rightarrow> bool" where
  "f32_is_nan w = (0x7F800000 < f32_mag w)"

definition f32_finite :: "f32 \<Rightarrow> bool" where
  "f32_finite w = (f32_mag w < 0x7F800000)"

definition f32_key :: "f32 \<Rightarrow> int" where
  "f32_key w = (if f32_sign w then - f32_mag w else f32_mag w)"

definition f32_gt :: "f32 \<Rightarrow> f32 \<Rightarrow> bool" where
  "f32_gt a b = (\<not> f32_is_nan a \<and> \<not> f32_is_nan b \<and> f32_key b < f32_key a)"

definition f32_le :: "f32 \<Rightarrow> f32 \<Rightarrow> bool" where
  "f32_le a b = (\<not> f32_is_nan a \<and> \<not> f32_is_nan b \<and> f32_key a \<le> f32_key b)"

definition f32_zero :: f32 where "f32_zero = 0"

section \<open>Facts of the bit-level comparison\<close>

lemma f32_mag_abs [simp]: "f32_mag (f32_abs w) = f32_mag w"
  by (simp add: f32_mag_def f32_abs_def)

lemma f32_sign_abs [simp]: "\<not> f32_sign (f32_abs w)"
  by (simp add: f32_sign_def f32_abs_def bit_take_bit_iff)

lemma f32_is_nan_abs [simp]: "f32_is_nan (f32_abs w) = f32_is_nan w"
  by (simp add: f32_is_nan_def)

lemma f32_key_abs [simp]: "f32_key (f32_abs w) = f32_mag w"
  by (simp add: f32_key_def)

lemma f32_mag_zero [simp]: "f32_mag f32_zero = 0"
  by (simp add: f32_mag_def f32_abs_def f32_zero_def)

lemma f32_mag_nonneg [simp]: "0 \<le> f32_mag w"
  by (simp add: f32_mag_def)

lemma f32_not_nan_zero [simp]: "\<not> f32_is_nan f32_zero"
  by (simp add: f32_is_nan_def)

lemma f32_key_zero [simp]: "f32_key f32_zero = 0"
  by (simp add: f32_key_def)

lemma f32_not_gt_iff: "\<not> f32_gt a b \<longleftrightarrow> f32_is_nan a \<or> f32_is_nan b \<or> f32_le a b"
  by (auto simp: f32_gt_def f32_le_def)

text \<open>A velocity outside \<open>[-limit, limit]\<close> that is a number fails the test; a NaN
  on either side passes it.\<close>

lemma f32_abs_not_gt_iff:
  "\<not> f32_gt (f32_abs v) lmt \<longleftrightarrow>
     f32_is_nan v \<or> f32_is_nan lmt \<or> f32_mag v \<le> f32_key lmt"
  by (auto simp: f32_gt_def)

section \<open>The denoted real\<close>

text \<open>\<open>f32_scaled m\<close> is the denoted magnitude times \<open>2 ^ 149\<close>: an integer, for
  subnormal and normal numbers alike.\<close>

definition f32_scaled :: "nat \<Rightarrow> nat" where
  "f32_scaled m = (if m div 2 ^ 23 = 0 then m mod 2 ^ 23
     else (2 ^ 23 + m mod 2 ^ 23) * 2 ^ (m div 2 ^ 23 - 1))"

definition f32_real :: "f32 \<Rightarrow> real" where
  "f32_real w = (if f32_sign w then - 1 else 1) * real (f32_scaled (nat (f32_mag w))) / 2 ^ 149"

lemma f32_scaled_upper: "f32_scaled m < 2 ^ (23 + m div 2 ^ 23)"
proof (cases "m div 2 ^ 23")
  case 0
  then show ?thesis by (simp add: f32_scaled_def)
next
  case (Suc e)
  have "(2 ^ 23 + m mod 2 ^ 23) * 2 ^ e < 2 ^ 24 * (2 ^ e :: nat)"
    by simp
  with Suc show ?thesis by (simp add: f32_scaled_def power_add)
qed

lemma f32_scaled_lower: "0 < m div 2 ^ 23 \<Longrightarrow> 2 ^ (22 + m div 2 ^ 23) \<le> f32_scaled m"
  by (cases "m div 2 ^ 23") (auto simp: f32_scaled_def power_add)

lemma f32_scaled_mono: "m < m' \<Longrightarrow> f32_scaled m < f32_scaled m'"
proof -
  assume less: "m < m'"
  show ?thesis
  proof (cases "m div 2 ^ 23 = m' div 2 ^ 23")
    case True
    with less have "m mod 2 ^ 23 < m' mod 2 ^ 23"
      by (metis div_mult_mod_eq nat_add_left_cancel_less)
    with True less show ?thesis by (simp add: f32_scaled_def)
  next
    case False
    have "m div 2 ^ 23 \<le> m' div 2 ^ 23" using less by (simp add: div_le_mono)
    with False have e: "Suc (m div 2 ^ 23) \<le> m' div 2 ^ 23" by simp
    have "f32_scaled m < 2 ^ (23 + m div 2 ^ 23)" by (rule f32_scaled_upper)
    also have "\<dots> \<le> 2 ^ (22 + m' div 2 ^ 23)" using e by (intro power_increasing) auto
    also have "\<dots> \<le> f32_scaled m'" using e by (intro f32_scaled_lower) auto
    finally show ?thesis .
  qed
qed

lemma f32_scaled_less_iff: "f32_scaled m < f32_scaled m' \<longleftrightarrow> m < m'"
  by (metis f32_scaled_mono less_asym linorder_neqE_nat)

lemma f32_scaled_0: "f32_scaled 0 = 0"
  by (simp add: f32_scaled_def)

lemma f32_scaled_pos_iff: "0 < f32_scaled m \<longleftrightarrow> 0 < m"
  using f32_scaled_less_iff [of 0 m] by (simp add: f32_scaled_0)

lemma f32_gt_real:
  assumes "f32_finite a" "f32_finite b"
  shows "f32_gt a b \<longleftrightarrow> f32_real b < f32_real a"
proof -
  have less: "real (f32_scaled x) < real (f32_scaled y) \<longleftrightarrow> x < y" for x y
    by (simp add: f32_scaled_less_iff)
  have neg: "- real (f32_scaled x) < real (f32_scaled y) \<longleftrightarrow> 0 < x \<or> 0 < y" for x y
    using f32_scaled_pos_iff [of x] f32_scaled_pos_iff [of y] by linarith
  have nn: "\<not> real (f32_scaled x) < - real (f32_scaled y)" for x y
    by linarith
  from assms have "\<not> f32_is_nan a" "\<not> f32_is_nan b"
    by (auto simp: f32_is_nan_def f32_finite_def)
  moreover obtain x where "f32_mag a = int x" using f32_mag_nonneg nonneg_int_cases by blast
  moreover obtain y where "f32_mag b = int y" using f32_mag_nonneg nonneg_int_cases by blast
  ultimately show ?thesis
    using less neg nn
    by (auto simp: f32_gt_def f32_key_def f32_real_def divide_less_cancel)
qed

lemma f32_real_abs: "f32_real (f32_abs w) = \<bar>f32_real w\<bar>"
  by (simp add: f32_real_def abs_mult)

end
