(* ===== verification/Robotics.thy ===== *)
theory Robotics
  imports Float32
begin

text \<open>The robotics control plane: the planning contract and its validation
  (\<open>aria-core/src/robotics.rs\<close>), the deterministic bridge to actuator commands
  (\<open>aria-x/src/robotics_bridge.rs\<close>), the ROS 2 topic bridge
  (\<open>aria-x/src/ros2_bridge.rs\<close>), the evaluation and simulation runtime
  (\<open>aria-x/src/robotics_runtime.rs\<close>) and its tables
  (\<open>aria-x/src/runtime_store/robotics.rs\<close>).\<close>

section \<open>Data\<close>

type_synonym uuid = "u8 list"

datatype RoboticsExecutionMode = Simulation | Hardware | DegradedLocal

datatype RoboticsIntentKind =
  Halt | InspectActuator | MoveActuator | CaptureImage | ReportState

record RoboticsCommandContract =
  rc_intent_id :: uuid
  rc_robot_id :: string
  rc_requested_by_agent :: string
  rc_kind :: RoboticsIntentKind
  rc_actuator_id :: "u8 option"
  rc_target_velocity :: "f32 option"
  rc_reason :: string
  rc_execution_mode :: RoboticsExecutionMode
  rc_timestamp_us :: u64

record RobotStateSnapshot =
  rs_robot_id :: string
  rs_battery_percent :: u8
  rs_active_faults :: "string list"
  rs_degraded_local_mode :: bool
  rs_last_heartbeat_us :: u64

record RoboticsSafetyEnvelope =
  se_max_abs_velocity :: f32
  se_allowed_actuator_ids :: "u8 list"
  se_motion_requires_approval :: bool
  se_allow_capture :: bool

record Ros2BridgeProfile =
  rp_profile_id :: string
  rp_display_name :: string
  rp_namespace :: string
  rp_command_topic :: string
  rp_telemetry_topic :: string
  rp_image_topic :: "string option"
  rp_service_prefix :: "string option"
  rp_requires_approval :: bool
  rp_simulation_only :: bool

record Ros2BridgeTarget =
  rt_profile_id :: string
  rt_robot_id :: string
  rt_namespace_override :: "string option"

text \<open>\<open>serde_json::Value\<close> is the type parameter \<open>'j\<close>.\<close>

record 'j Ros2BridgeDirective =
  rd_target :: Ros2BridgeTarget
  rd_command_topic :: string
  rd_telemetry_topic :: string
  rd_image_topic :: "string option"
  rd_service_prefix :: "string option"
  rd_payload :: 'j

record RobotRuntimeRecord =
  rr_robot_id :: string
  rr_state :: RobotStateSnapshot
  rr_safety_envelope :: RoboticsSafetyEnvelope
  rr_execution_mode :: RoboticsExecutionMode
  rr_connection_kind :: string
  rr_bridge_profile_id :: "string option"
  rr_updated_at_us :: u64

datatype RoboticsSimulationOutcome = Simulated | SimApprovalRequired | Rejected

record ConstraintViolation =
  cv_node_id :: string
  cv_motor_id :: u8
  cv_requested_velocity :: f32
  cv_envelope_max :: f32
  cv_timestamp_us :: u64

datatype RoboticsSafetyEvent =
    ConstraintViolationEvent ConstraintViolation
  | ApprovalRequired string string u64
  | DegradedLocalModeEntered string string u64
  | CoastModeActivated string string u64

record 'j RoboticsSimulationRecord =
  sr_simulation_id :: string
  sr_session_id :: "uuid option"
  sr_agent_id :: string
  sr_robot_id :: string
  sr_contract :: RoboticsCommandContract
  sr_state :: RobotStateSnapshot
  sr_safety_envelope :: RoboticsSafetyEnvelope
  sr_outcome :: RoboticsSimulationOutcome
  sr_safety_events :: "RoboticsSafetyEvent list"
  sr_ros2_profile_id :: "string option"
  sr_directive_json :: "'j option"
  sr_rejection_reason :: "string option"
  sr_created_at_us :: u64

record HardwareIntent =
  hi_intent_id :: u32
  hi_motor_id :: u8
  hi_target_velocity :: f32

datatype AriaError = SerializationError string | ValidationError string

fun aria_error_to_string :: "AriaError \<Rightarrow> string" where
  "aria_error_to_string (SerializationError msg) = ''serialization error: '' @ msg"
| "aria_error_to_string (ValidationError msg) = ''validation error: '' @ msg"

datatype RoboticsBridgeDirective =
    HardwareCommands "HardwareIntent list"
  | Observe string "u8 option" string
  | Report string

section \<open>Contract validation and the deterministic bridge\<close>

definition validate :: "RoboticsCommandContract \<Rightarrow> (AriaError, unit) result" where
  "validate c =
    and_then
      (case rc_kind c of
        Halt \<Rightarrow>
          if rc_target_velocity c \<noteq> None
          then Err (ValidationError ''halt intent must not include target_velocity'') else Ok ()
      | InspectActuator \<Rightarrow>
          if rc_actuator_id c = None
          then Err (ValidationError ''inspect_actuator intent requires actuator_id'')
          else if rc_target_velocity c \<noteq> None
          then Err (ValidationError ''inspect_actuator intent must not include target_velocity'')
          else Ok ()
      | MoveActuator \<Rightarrow>
          if rc_actuator_id c = None
          then Err (ValidationError ''move_actuator intent requires actuator_id'')
          else if rc_target_velocity c = None
          then Err (ValidationError ''move_actuator intent requires target_velocity'')
          else Ok ()
      | _ \<Rightarrow>
          if rc_actuator_id c \<noteq> None \<or> rc_target_velocity c \<noteq> None
          then Err (ValidationError ''observe/report intents must not include actuator motion fields'')
          else Ok ())
      (\<lambda>_. if rc_robot_id c = [] then Err (ValidationError ''robot_id must not be empty'')
           else if rc_requested_by_agent c = []
           then Err (ValidationError ''requested_by_agent must not be empty'')
           else Ok ())"

definition halt_intent :: "u8 \<Rightarrow> HardwareIntent" where
  "halt_intent m = \<lparr>hi_intent_id = 0, hi_motor_id = m, hi_target_velocity = f32_zero\<rparr>"

definition compile_move ::
  "RoboticsCommandContract \<Rightarrow> RobotStateSnapshot \<Rightarrow> RoboticsSafetyEnvelope
    \<Rightarrow> (string, RoboticsBridgeDirective) result" where
  "compile_move c s e =
    (if se_motion_requires_approval e then Err ''motion intent requires human approval''
     else and_then (ok_or ''move_actuator missing actuator_id'' (rc_actuator_id c)) (\<lambda>aid.
       if aid \<notin> set (se_allowed_actuator_ids e) then Err ''actuator is outside the safety envelope''
       else and_then (ok_or ''move_actuator missing target_velocity'' (rc_target_velocity c)) (\<lambda>v.
         if f32_gt (f32_abs v) (se_max_abs_velocity e)
         then Err ''target velocity exceeds the safety envelope''
         else if rs_active_faults s \<noteq> [] then Err ''robot has active faults; motion is blocked''
         else Ok (HardwareCommands
           [\<lparr>hi_intent_id = 0, hi_motor_id = aid, hi_target_velocity = v\<rparr>]))))"

definition compile_robotics_contract ::
  "RoboticsCommandContract \<Rightarrow> RobotStateSnapshot \<Rightarrow> RoboticsSafetyEnvelope
    \<Rightarrow> (string, RoboticsBridgeDirective) result" where
  "compile_robotics_contract c s e =
    and_then (map_err aria_error_to_string (validate c)) (\<lambda>_.
      if rc_robot_id c \<noteq> rs_robot_id s
      then Err ''robotics contract robot_id does not match robot state''
      else if rs_degraded_local_mode s \<and> rc_kind c = MoveActuator
      then Err ''robot is in degraded local mode; motion intents are blocked''
      else (case rc_kind c of
          Halt \<Rightarrow> Ok (HardwareCommands (map halt_intent (se_allowed_actuator_ids e)))
        | InspectActuator \<Rightarrow>
            Ok (Observe (rc_robot_id c) (rc_actuator_id c) ''inspect_actuator'')
        | CaptureImage \<Rightarrow>
            if \<not> se_allow_capture e then Err ''capture is not permitted by the safety envelope''
            else Ok (Observe (rc_robot_id c) None ''capture_image'')
        | ReportState \<Rightarrow> Ok (Report (rc_robot_id c))
        | MoveActuator \<Rightarrow> compile_move c s e))"


section \<open>The ROS 2 topic bridge\<close>

definition render_topic :: "string \<Rightarrow> string \<Rightarrow> string" where
  "render_topic namespace topic =
    (let ns = trim_both (CHR ''/'') namespace; leaf = trim_start (CHR ''/'') topic in
     if ns = [] then ''/'' @ leaf else ''/'' @ ns @ ''/'' @ leaf)"

text \<open>\<open>serde_json::to_value\<close> is the parameter \<open>to_value\<close> (\<open>None\<close> for an error)
  and \<open>json!({})\<close> the parameter \<open>empty_obj\<close>.\<close>

definition directive_to_json ::
  "('d \<Rightarrow> 'j option) \<Rightarrow> 'j \<Rightarrow> 'd \<Rightarrow> 'j" where
  "directive_to_json to_value empty_obj d =
    (case to_value d of Some j \<Rightarrow> j | None \<Rightarrow> empty_obj)"

definition compile_ros2_bridge_directive ::
  "(RoboticsBridgeDirective \<Rightarrow> 'j option) \<Rightarrow> 'j \<Rightarrow> RoboticsCommandContract \<Rightarrow> RobotStateSnapshot
    \<Rightarrow> RoboticsSafetyEnvelope \<Rightarrow> Ros2BridgeProfile \<Rightarrow> Ros2BridgeTarget
    \<Rightarrow> (string, 'j Ros2BridgeDirective) result" where
  "compile_ros2_bridge_directive to_value empty_obj c s e profile target =
    and_then (compile_robotics_contract c s e) (\<lambda>directive.
      let namespace = (case rt_namespace_override target of Some n \<Rightarrow> n | None \<Rightarrow> rp_namespace profile)
      in Ok \<lparr>rd_target = target,
             rd_command_topic = render_topic namespace (rp_command_topic profile),
             rd_telemetry_topic = render_topic namespace (rp_telemetry_topic profile),
             rd_image_topic = map_option (render_topic namespace) (rp_image_topic profile),
             rd_service_prefix = map_option (render_topic namespace) (rp_service_prefix profile),
             rd_payload = directive_to_json to_value empty_obj directive\<rparr>)"

section \<open>Evaluation with safety events\<close>

type_synonym evaluation_error = "RoboticsSafetyEvent list \<times> string \<times> RoboticsSimulationOutcome"

definition violation :: "RoboticsCommandContract \<Rightarrow> RoboticsSafetyEnvelope \<Rightarrow> u8 \<Rightarrow> f32 \<Rightarrow> RoboticsSafetyEvent" where
  "violation c e aid v = ConstraintViolationEvent
     \<lparr>cv_node_id = rc_robot_id c, cv_motor_id = aid, cv_requested_velocity = v,
      cv_envelope_max = se_max_abs_velocity e, cv_timestamp_us = rc_timestamp_us c\<rparr>"

text \<open>The two envelope checks of a motion intent: \<open>None\<close> falls through to the
  compilation.\<close>

definition envelope_check ::
  "RoboticsCommandContract \<Rightarrow> RoboticsSafetyEnvelope \<Rightarrow> evaluation_error option" where
  "envelope_check c e =
    (case rc_actuator_id c of
       None \<Rightarrow> None
     | Some aid \<Rightarrow>
         if aid \<notin> set (se_allowed_actuator_ids e)
         then Some ([violation c e aid (case rc_target_velocity c of Some v \<Rightarrow> v | None \<Rightarrow> f32_zero)],
                    ''actuator is outside the safety envelope'', Rejected)
         else (case rc_target_velocity c of
             None \<Rightarrow> None
           | Some v \<Rightarrow>
               if f32_gt (f32_abs v) (se_max_abs_velocity e)
               then Some ([violation c e aid v], ''target velocity exceeds the safety envelope'', Rejected)
               else None))"

definition evaluate_robotics_execution ::
  "RoboticsCommandContract \<Rightarrow> RobotStateSnapshot \<Rightarrow> RoboticsSafetyEnvelope
    \<Rightarrow> (evaluation_error, RoboticsBridgeDirective \<times> RoboticsSafetyEvent list) result" where
  "evaluate_robotics_execution c s e =
    (let ts = rc_timestamp_us c; moving = (rc_kind c = MoveActuator);
         compiled = map_ok (\<lambda>d. (d, []))
           (map_err (\<lambda>reason. ([], reason, Rejected)) (compile_robotics_contract c s e)) in
     if rc_robot_id c \<noteq> rs_robot_id s
     then Err ([], ''robotics contract robot_id does not match robot state'', Rejected)
     else if rs_degraded_local_mode s \<and> moving
     then Err ([DegradedLocalModeEntered (rc_robot_id c)
                 ''robot is in degraded local mode; motion intents are blocked'' ts],
               ''robot is in degraded local mode; motion intents are blocked'', Rejected)
     else if moving \<and> se_motion_requires_approval e
     then Err ([ApprovalRequired (rc_robot_id c) ''motion intent requires human approval'' ts],
               ''motion intent requires human approval'', SimApprovalRequired)
     else if moving \<and> rs_active_faults s \<noteq> []
     then Err ([CoastModeActivated (rc_robot_id c)
                 (''robot has active faults; motion is blocked ('' @
                  join_with '', '' (rs_active_faults s) @ '')'') ts],
               ''robot has active faults; motion is blocked'', Rejected)
     else if moving
     then (case envelope_check c e of Some err \<Rightarrow> Err err | None \<Rightarrow> compiled)
     else compiled)"

section \<open>The robotics tables of the runtime store\<close>

record 'j robotics_store =
  ros2_profiles :: "(Ros2BridgeProfile \<times> u64) list"
  robot_states :: "(RobotRuntimeRecord \<times> u64) list"
  simulations :: "'j RoboticsSimulationRecord list"

abbreviation profile_key :: "Ros2BridgeProfile \<times> u64 \<Rightarrow> string" where
  "profile_key row \<equiv> rp_profile_id (fst row)"

abbreviation robot_key :: "RobotRuntimeRecord \<times> u64 \<Rightarrow> string" where
  "robot_key row \<equiv> rr_robot_id (fst row)"

definition upsert_ros2_bridge_profile ::
  "Ros2BridgeProfile \<Rightarrow> u64 \<Rightarrow> 'j robotics_store \<Rightarrow> 'j robotics_store" where
  "upsert_ros2_bridge_profile p now st =
    st\<lparr>ros2_profiles := upsert_by profile_key (p, now) (ros2_profiles st)\<rparr>"

definition upsert_robot_runtime_state ::
  "RobotRuntimeRecord \<Rightarrow> u64 \<Rightarrow> 'j robotics_store \<Rightarrow> 'j robotics_store" where
  "upsert_robot_runtime_state r now st =
    st\<lparr>robot_states := upsert_by robot_key (r, now) (robot_states st)\<rparr>"

definition append_robotics_simulation ::
  "'j RoboticsSimulationRecord \<Rightarrow> 'j robotics_store \<Rightarrow> (string, 'j robotics_store) result" where
  "append_robotics_simulation r st =
    (if has_key sr_simulation_id (sr_simulation_id r) (simulations st)
     then Err ''append robotics simulation failed: UNIQUE constraint failed''
     else Ok (st\<lparr>simulations := simulations st @ [r]\<rparr>))"

text \<open>The listings filter on the optional key and sort newest first; the column
  is the \<open>i64\<close> reading of the \<open>u64\<close> timestamp.\<close>

definition list_ros2_bridge_profiles ::
  "string option \<Rightarrow> 'j robotics_store \<Rightarrow> Ros2BridgeProfile list" where
  "list_ros2_bridge_profiles k st = map fst (sort_key (\<lambda>row. - sint (snd row))
     (filter (\<lambda>row. k = None \<or> k = Some (profile_key row)) (ros2_profiles st)))"

definition list_robot_runtime_states ::
  "string option \<Rightarrow> 'j robotics_store \<Rightarrow> RobotRuntimeRecord list" where
  "list_robot_runtime_states k st = map fst (sort_key (\<lambda>row. - sint (snd row))
     (filter (\<lambda>row. k = None \<or> k = Some (robot_key row)) (robot_states st)))"

definition list_robotics_simulations ::
  "string option \<Rightarrow> 'j robotics_store \<Rightarrow> 'j RoboticsSimulationRecord list" where
  "list_robotics_simulations k st = sort_key (\<lambda>r. - sint (sr_created_at_us r))
     (filter (\<lambda>r. k = None \<or> k = Some (sr_robot_id r)) (simulations st))"


section \<open>Simulation\<close>

record RoboticsSimulationFixture =
  fx_session_id :: "string option"
  fx_agent_id :: string
  fx_connection_kind :: string
  fx_contract :: RoboticsCommandContract
  fx_state :: RobotStateSnapshot
  fx_safety_envelope :: RoboticsSafetyEnvelope

record Ros2SimulationFixture =
  fx_robotics :: RoboticsSimulationFixture
  fx_ros2_profile :: Ros2BridgeProfile
  fx_namespace_override :: "string option"

text \<open>The values the code draws from outside: the clock, a new UUID as text, the
  UUID parser and the JSON serialiser.\<close>

record 'j simulation_env =
  env_now :: u64
  env_new_uuid :: string
  env_parse_uuid :: "string \<Rightarrow> (string, uuid) result"
  env_to_value :: "RoboticsBridgeDirective \<Rightarrow> 'j option"
  env_ros2_to_value :: "'j Ros2BridgeDirective \<Rightarrow> 'j option"
  env_empty_obj :: 'j

definition parse_session_id ::
  "(string \<Rightarrow> (string, uuid) result) \<Rightarrow> string option \<Rightarrow> (string, uuid option) result" where
  "parse_session_id parse s = (case s of
      None \<Rightarrow> Ok None
    | Some v \<Rightarrow> map_ok Some (map_err (\<lambda>e. ''invalid session_id: '' @ e) (parse v)))"

definition runtime_record ::
  "RoboticsSimulationFixture \<Rightarrow> string \<Rightarrow> string option \<Rightarrow> u64 \<Rightarrow> RobotRuntimeRecord" where
  "runtime_record fx kind profile now =
    \<lparr>rr_robot_id = rs_robot_id (fx_state fx), rr_state = fx_state fx,
     rr_safety_envelope = fx_safety_envelope fx, rr_execution_mode = Simulation,
     rr_connection_kind = kind, rr_bridge_profile_id = profile, rr_updated_at_us = now\<rparr>"

definition simulation_record ::
  "RoboticsSimulationFixture \<Rightarrow> string \<Rightarrow> uuid option \<Rightarrow> u64 \<Rightarrow> string option
    \<Rightarrow> RoboticsSimulationOutcome \<Rightarrow> RoboticsSafetyEvent list \<Rightarrow> 'j option \<Rightarrow> string option
    \<Rightarrow> 'j RoboticsSimulationRecord" where
  "simulation_record fx sid session now profile outcome events json reason =
    \<lparr>sr_simulation_id = sid, sr_session_id = session, sr_agent_id = fx_agent_id fx,
     sr_robot_id = rs_robot_id (fx_state fx), sr_contract = fx_contract fx,
     sr_state = fx_state fx, sr_safety_envelope = fx_safety_envelope fx,
     sr_outcome = outcome, sr_safety_events = events, sr_ros2_profile_id = profile,
     sr_directive_json = json, sr_rejection_reason = reason, sr_created_at_us = now\<rparr>"

text \<open>A run returns the store it leaves behind also when it fails: what was
  upserted before the error stays.\<close>

definition append_and_return ::
  "'j RoboticsSimulationRecord \<Rightarrow> 'j robotics_store
    \<Rightarrow> 'j robotics_store \<times> (string, 'j RoboticsSimulationRecord) result" where
  "append_and_return r st = (case append_robotics_simulation r st of
      Inl err \<Rightarrow> (st, Err err)
    | Inr st' \<Rightarrow> (st', Ok r))"

definition execute_robotics_simulation ::
  "'j simulation_env \<Rightarrow> 'j robotics_store \<Rightarrow> RoboticsSimulationFixture
    \<Rightarrow> 'j robotics_store \<times> (string, 'j RoboticsSimulationRecord) result" where
  "execute_robotics_simulation env st fx =
    (case parse_session_id (env_parse_uuid env) (fx_session_id fx) of
       Inl err \<Rightarrow> (st, Err err)
     | Inr session \<Rightarrow>
        (let now = env_now env;
             st1 = upsert_robot_runtime_state (runtime_record fx (fx_connection_kind fx) None now) now st;
             sid = ''robot-sim-'' @ env_new_uuid env in
         case evaluate_robotics_execution (fx_contract fx) (fx_state fx) (fx_safety_envelope fx) of
           Inr (directive, events) \<Rightarrow>
             append_and_return (simulation_record fx sid session now None Simulated events
               (Some (directive_to_json (env_to_value env) (env_empty_obj env) directive)) None) st1
         | Inl (events, reason, outcome) \<Rightarrow>
             append_and_return (simulation_record fx sid session now None outcome events
               None (Some reason)) st1))"

definition execute_ros2_simulation ::
  "'j simulation_env \<Rightarrow> 'j robotics_store \<Rightarrow> Ros2SimulationFixture
    \<Rightarrow> 'j robotics_store \<times> (string, 'j RoboticsSimulationRecord) result" where
  "execute_ros2_simulation env st fixture =
    (let now = env_now env; profile = fx_ros2_profile fixture; fx = fx_robotics fixture;
         st0 = upsert_ros2_bridge_profile profile now st in
     case parse_session_id (env_parse_uuid env) (fx_session_id fx) of
       Inl err \<Rightarrow> (st0, Err err)
     | Inr session \<Rightarrow>
        (let pid = Some (rp_profile_id profile);
             st1 = upsert_robot_runtime_state (runtime_record fx ''ros2_simulation'' pid now) now st0;
             sid = ''robot-sim-'' @ env_new_uuid env;
             target = \<lparr>rt_profile_id = rp_profile_id profile, rt_robot_id = rs_robot_id (fx_state fx),
                       rt_namespace_override = fx_namespace_override fixture\<rparr> in
         case evaluate_robotics_execution (fx_contract fx) (fx_state fx) (fx_safety_envelope fx) of
           Inr (_, events) \<Rightarrow>
             (case compile_ros2_bridge_directive (env_to_value env) (env_empty_obj env)
                     (fx_contract fx) (fx_state fx) (fx_safety_envelope fx) profile target of
                Inl err \<Rightarrow> (st1, Err err)
              | Inr d \<Rightarrow>
                 append_and_return (simulation_record fx sid session now pid Simulated events
                   (Some (directive_to_json (env_ros2_to_value env) (env_empty_obj env) d)) None) st1)
         | Inl (events, reason, outcome) \<Rightarrow>
             append_and_return (simulation_record fx sid session now pid outcome events
               None (Some reason)) st1))"

section \<open>Lemmas\<close>

lemmas bridge_defs = compile_robotics_contract_def compile_move_def validate_def

fun directive_commands :: "RoboticsBridgeDirective \<Rightarrow> HardwareIntent list" where
  "directive_commands (HardwareCommands hs) = hs"
| "directive_commands _ = []"

lemma validate_fields:
  "validate c = Inr () \<Longrightarrow> rc_robot_id c \<noteq> [] \<and> rc_requested_by_agent c \<noteq> []"
  by (auto simp: validate_def result_simps split: if_splits)

lemma validate_move:
  "validate c = Inr () \<Longrightarrow> rc_kind c = MoveActuator \<Longrightarrow>
    (\<exists>a v. rc_actuator_id c = Some a \<and> rc_target_velocity c = Some v)"
  by (auto simp: validate_def result_simps split: if_splits)

lemma compile_move_Ok_iff:
  "compile_move c s e = Inr d \<longleftrightarrow>
    (\<exists>a v. rc_actuator_id c = Some a \<and> rc_target_velocity c = Some v \<and>
       \<not> se_motion_requires_approval e \<and> a \<in> set (se_allowed_actuator_ids e) \<and>
       \<not> f32_gt (f32_abs v) (se_max_abs_velocity e) \<and> rs_active_faults s = [] \<and>
       d = HardwareCommands [\<lparr>hi_intent_id = 0, hi_motor_id = a, hi_target_velocity = v\<rparr>])"
  by (auto simp: compile_move_def result_simps split: if_splits)

lemma compile_Ok_iff:
  "compile_robotics_contract c s e = Inr d \<longleftrightarrow>
    validate c = Inr () \<and> rc_robot_id c = rs_robot_id s \<and>
    (case rc_kind c of
       Halt \<Rightarrow> d = HardwareCommands (map halt_intent (se_allowed_actuator_ids e))
     | InspectActuator \<Rightarrow> d = Observe (rc_robot_id c) (rc_actuator_id c) ''inspect_actuator''
     | CaptureImage \<Rightarrow> se_allow_capture e \<and> d = Observe (rc_robot_id c) None ''capture_image''
     | ReportState \<Rightarrow> d = Report (rc_robot_id c)
     | MoveActuator \<Rightarrow> \<not> rs_degraded_local_mode s \<and> compile_move c s e = Inr d)"
  by (cases "rc_kind c") (auto simp: compile_robotics_contract_def result_simps split: if_splits)


lemma evaluate_Ok_iff:
  "evaluate_robotics_execution c s e = Inr r \<longleftrightarrow>
    (\<exists>d. compile_robotics_contract c s e = Inr d \<and> r = (d, []))"
proof
  assume "evaluate_robotics_execution c s e = Inr r"
  then show "\<exists>d. compile_robotics_contract c s e = Inr d \<and> r = (d, [])"
    by (auto simp: evaluate_robotics_execution_def Let_def result_simps
        split: if_splits option.splits)
next
  assume "\<exists>d. compile_robotics_contract c s e = Inr d \<and> r = (d, [])"
  then obtain d where d: "compile_robotics_contract c s e = Inr d" and r: "r = (d, [])"
    by blast
  show "evaluate_robotics_execution c s e = Inr r"
  proof (cases "rc_kind c = MoveActuator")
    case True
    with d have "compile_move c s e = Inr d" "\<not> rs_degraded_local_mode s"
      "rc_robot_id c = rs_robot_id s"
      by (auto simp: compile_Ok_iff)
    with True d r show ?thesis
      by (auto simp: evaluate_robotics_execution_def compile_move_Ok_iff envelope_check_def Let_def)
  next
    case False
    moreover from d have "rc_robot_id c = rs_robot_id s" by (simp add: compile_Ok_iff)
    ultimately show ?thesis
      using d r by (simp add: evaluate_robotics_execution_def)
  qed
qed

section \<open>The contract of a motion gate\<close>

text \<open>What an actuation layer may assume of any gate in front of the motors.  The
  bridge and the evaluation both provide it.\<close>

locale motion_gate =
  fixes gate :: "RoboticsCommandContract \<Rightarrow> RobotStateSnapshot \<Rightarrow> RoboticsSafetyEnvelope
      \<Rightarrow> ('e, 'd) result"
    and commands :: "'d \<Rightarrow> HardwareIntent list"
  assumes robot_matches: "gate c s e = Inr d \<Longrightarrow> rc_robot_id c = rs_robot_id s"
    and motor_allowed: "gate c s e = Inr d \<Longrightarrow> h \<in> set (commands d)
      \<Longrightarrow> hi_motor_id h \<in> set (se_allowed_actuator_ids e)"
    and only_moves_move: "gate c s e = Inr d \<Longrightarrow> h \<in> set (commands d)
      \<Longrightarrow> hi_target_velocity h \<noteq> f32_zero \<Longrightarrow> rc_kind c = MoveActuator"
    and move_permitted: "gate c s e = Inr d \<Longrightarrow> rc_kind c = MoveActuator
      \<Longrightarrow> \<not> rs_degraded_local_mode s \<and> rs_active_faults s = [] \<and> \<not> se_motion_requires_approval e"
    and move_limited: "gate c s e = Inr d \<Longrightarrow> rc_kind c = MoveActuator \<Longrightarrow> h \<in> set (commands d)
      \<Longrightarrow> \<not> f32_gt (f32_abs (hi_target_velocity h)) (se_max_abs_velocity e)"
begin

lemma real_limit:
  assumes "gate c s e = Inr d" "rc_kind c = MoveActuator" "h \<in> set (commands d)"
    and fin: "f32_finite (hi_target_velocity h)" "f32_finite (se_max_abs_velocity e)"
  shows "\<bar>f32_real (hi_target_velocity h)\<bar> \<le> f32_real (se_max_abs_velocity e)"
proof -
  have "f32_finite (f32_abs (hi_target_velocity h))"
    using fin by (simp add: f32_finite_def)
  then show ?thesis
    using move_limited [OF assms(1,2,3)] fin(2) f32_gt_real f32_real_abs by fastforce
qed

lemma safe_command:
  assumes "gate c s e = Inr d" "h \<in> set (commands d)"
  shows "rc_robot_id c = rs_robot_id s \<and> hi_motor_id h \<in> set (se_allowed_actuator_ids e) \<and>
    (hi_target_velocity h = f32_zero \<or>
      rc_kind c = MoveActuator \<and> \<not> rs_degraded_local_mode s \<and> rs_active_faults s = [] \<and>
      \<not> se_motion_requires_approval e \<and>
      (f32_finite (hi_target_velocity h) \<and> f32_finite (se_max_abs_velocity e) \<longrightarrow>
        \<bar>f32_real (hi_target_velocity h)\<bar> \<le> f32_real (se_max_abs_velocity e)))"
  using robot_matches motor_allowed only_moves_move move_permitted real_limit assms by metis

lemma blocked_is_still:
  assumes "gate c s e = Inr d" "h \<in> set (commands d)"
    and "rs_degraded_local_mode s \<or> rs_active_faults s \<noteq> [] \<or> se_motion_requires_approval e"
  shows "hi_target_velocity h = f32_zero"
  using only_moves_move move_permitted assms by blast

end

interpretation bridge: motion_gate compile_robotics_contract directive_commands
proof unfold_locales
  fix c s e d h
  assume *: "compile_robotics_contract c s e = Inr d"
  show "rc_robot_id c = rs_robot_id s"
    using * by (simp add: compile_Ok_iff)
  show "hi_motor_id h \<in> set (se_allowed_actuator_ids e)" if "h \<in> set (directive_commands d)"
    using * that
    by (cases "rc_kind c") (auto simp: compile_Ok_iff compile_move_Ok_iff halt_intent_def)
  show "rc_kind c = MoveActuator"
    if "h \<in> set (directive_commands d)" "hi_target_velocity h \<noteq> f32_zero"
    using * that by (cases "rc_kind c") (auto simp: compile_Ok_iff halt_intent_def)
  show "\<not> rs_degraded_local_mode s \<and> rs_active_faults s = [] \<and> \<not> se_motion_requires_approval e"
    if "rc_kind c = MoveActuator"
    using * that by (auto simp: compile_Ok_iff compile_move_Ok_iff)
  show "\<not> f32_gt (f32_abs (hi_target_velocity h)) (se_max_abs_velocity e)"
    if "rc_kind c = MoveActuator" "h \<in> set (directive_commands d)"
    using * that by (auto simp: compile_Ok_iff compile_move_Ok_iff)
qed

interpretation evaluation: motion_gate evaluate_robotics_execution "\<lambda>r. directive_commands (fst r)"
  by unfold_locales
    (auto simp: evaluate_Ok_iff dest: bridge.robot_matches bridge.motor_allowed
      bridge.only_moves_move bridge.move_permitted bridge.move_limited)


section \<open>Properties\<close>

text \<open>C1: every actuator command the runtime produces addresses an allowed motor of
  the right robot, and is either a stop (velocity 0.0) or the single command of a
  motion intent for a robot that is not degraded, has no active fault and needs
  no approval; its velocity, when it and the limit are finite numbers, is within
  the limit as a real number.\<close>

theorem hardware_commands_safe:
  assumes "evaluate_robotics_execution c s e = Inr (d, events)"
    and "h \<in> set (directive_commands d)"
  shows "rc_robot_id c = rs_robot_id s \<and> hi_motor_id h \<in> set (se_allowed_actuator_ids e) \<and>
    (hi_target_velocity h = f32_zero \<or>
      rc_kind c = MoveActuator \<and> \<not> rs_degraded_local_mode s \<and> rs_active_faults s = [] \<and>
      \<not> se_motion_requires_approval e \<and>
      (f32_finite (hi_target_velocity h) \<and> f32_finite (se_max_abs_velocity e) \<longrightarrow>
        \<bar>f32_real (hi_target_velocity h)\<bar> \<le> f32_real (se_max_abs_velocity e)))"
  using evaluation.safe_command [OF assms(1)] assms(2) by simp

definition ex_contract :: "RoboticsIntentKind \<Rightarrow> f32 \<Rightarrow> RoboticsCommandContract" where
  "ex_contract k v = \<lparr>rc_intent_id = replicate 16 7, rc_robot_id = ''rover-1'',
     rc_requested_by_agent = ''robotics_ctrl'', rc_kind = k,
     rc_actuator_id = (if k = MoveActuator then Some 4 else None),
     rc_target_velocity = (if k = MoveActuator then Some v else None),
     rc_reason = ''demo'', rc_execution_mode = Simulation, rc_timestamp_us = 5\<rparr>"

definition ex_state :: RobotStateSnapshot where
  "ex_state = \<lparr>rs_robot_id = ''rover-1'', rs_battery_percent = 80, rs_active_faults = [],
     rs_degraded_local_mode = False, rs_last_heartbeat_us = 1\<rparr>"

definition ex_envelope :: RoboticsSafetyEnvelope where
  "ex_envelope = \<lparr>se_max_abs_velocity = 0x3F000000, se_allowed_actuator_ids = [4, 5],
     se_motion_requires_approval = False, se_allow_capture = True\<rparr>"

lemmas ex_robot_defs = ex_contract_def ex_state_def ex_envelope_def

lemma ex_move_compiles:
  "compile_robotics_contract (ex_contract MoveActuator 0x3E800000) ex_state ex_envelope =
     Inr (HardwareCommands [\<lparr>hi_intent_id = 0, hi_motor_id = 4, hi_target_velocity = 0x3E800000\<rparr>])"
  by code_simp

theorem hardware_commands_safe_witness:
  "hi_motor_id \<lparr>hi_intent_id = 0, hi_motor_id = 4, hi_target_velocity = 0x3E800000\<rparr>
     \<in> set (se_allowed_actuator_ids ex_envelope)"
  using hardware_commands_safe [of "ex_contract MoveActuator 0x3E800000" ex_state ex_envelope]
    ex_move_compiles by (simp add: evaluate_Ok_iff)

text \<open>A stop always gets through: for a valid halt contract that names the
  robot, whatever its faults, degraded mode, approval flag or velocity limit, the
  runtime commands velocity 0.0 on exactly the allowed actuators, in order.\<close>

lemma halt_always_available:
  assumes "rc_kind c = Halt" "validate c = Inr ()" "rc_robot_id c = rs_robot_id s"
  shows "evaluate_robotics_execution c s e =
    Inr (HardwareCommands (map halt_intent (se_allowed_actuator_ids e)), [])"
  using assms by (simp add: evaluate_Ok_iff compile_Ok_iff)

lemma halt_always_available_example:
  "evaluate_robotics_execution (ex_contract Halt 0)
     (ex_state\<lparr>rs_degraded_local_mode := True, rs_active_faults := [''overheat'']\<rparr>) ex_envelope =
   Inr (HardwareCommands [halt_intent 4, halt_intent 5], [])"
proof -
  have "validate (ex_contract Halt 0) = Inr ()" by code_simp
  then show ?thesis
    using halt_always_available [of "ex_contract Halt 0"
        "ex_state\<lparr>rs_degraded_local_mode := True, rs_active_faults := [''overheat'']\<rparr>" ex_envelope]
    by (simp add: ex_robot_defs)
qed

text \<open>Exactly which motion contracts reach an actuator.  The velocity test
  compares with \<open>>\<close>, so a NaN velocity, or any velocity under a NaN limit, passes
  it: the disjuncts on NaN are the hole in the envelope.\<close>

lemma motion_reaches_actuator_iff:
  "rc_kind c = MoveActuator \<Longrightarrow>
   compile_robotics_contract c s e = Inr d \<longleftrightarrow>
    (\<exists>a v. rc_actuator_id c = Some a \<and> rc_target_velocity c = Some v \<and>
       rc_robot_id c \<noteq> [] \<and> rc_requested_by_agent c \<noteq> [] \<and> rc_robot_id c = rs_robot_id s \<and>
       \<not> rs_degraded_local_mode s \<and> rs_active_faults s = [] \<and> \<not> se_motion_requires_approval e \<and>
       a \<in> set (se_allowed_actuator_ids e) \<and>
       (f32_is_nan v \<or> f32_is_nan (se_max_abs_velocity e) \<or>
          f32_mag v \<le> f32_key (se_max_abs_velocity e)) \<and>
       d = HardwareCommands [\<lparr>hi_intent_id = 0, hi_motor_id = a, hi_target_velocity = v\<rparr>])"
  by (auto simp: compile_Ok_iff compile_move_Ok_iff f32_abs_not_gt_iff validate_def result_simps
      split: if_splits)

lemma motion_reaches_actuator_iff_example:
  "compile_robotics_contract (ex_contract MoveActuator 0x7FC00000) ex_state ex_envelope =
     Inr (HardwareCommands [\<lparr>hi_intent_id = 0, hi_motor_id = 4, hi_target_velocity = 0x7FC00000\<rparr>])"
proof -
  have "f32_is_nan 0x7FC00000" by code_simp
  then show ?thesis
    by (subst motion_reaches_actuator_iff) (auto simp: ex_robot_defs)
qed


text \<open>A motion contract that is well formed and addresses the robot is never
  refused silently: when the runtime refuses it, it emits exactly one safety event,
  and the outcome is approval-required exactly when the robot is not degraded and
  the envelope asks for approval.\<close>

lemma blocked_motion_emits_one_event:
  assumes "rc_kind c = MoveActuator" "validate c = Inr ()" "rc_robot_id c = rs_robot_id s"
    and "evaluate_robotics_execution c s e = Inl (events, reason, outcome)"
  shows "length events = 1 \<and> outcome \<noteq> Simulated \<and>
    (outcome = SimApprovalRequired \<longleftrightarrow>
       \<not> rs_degraded_local_mode s \<and> se_motion_requires_approval e)"
proof -
  obtain a v where av: "rc_actuator_id c = Some a" "rc_target_velocity c = Some v"
    using validate_move assms(1,2) by blast
  have "evaluate_robotics_execution c s e \<noteq> Inl ([], reason', outcome')" for reason' outcome'
    using assms(1,2,3) av
    by (auto simp: evaluate_robotics_execution_def envelope_check_def compile_robotics_contract_def
        compile_move_def Let_def)
  with assms av show ?thesis
    by (auto simp: evaluate_robotics_execution_def envelope_check_def result_simps Let_def
        split: if_splits)
qed

lemma blocked_motion_emits_one_event_example:
  "length [ApprovalRequired ''rover-1'' ''motion intent requires human approval'' 5] = 1"
proof -
  let ?e = "ex_envelope\<lparr>se_motion_requires_approval := True\<rparr>"
  have "validate (ex_contract MoveActuator 0) = Inr ()" by code_simp
  moreover have "evaluate_robotics_execution (ex_contract MoveActuator 0) ex_state ?e =
    Inl ([ApprovalRequired ''rover-1'' ''motion intent requires human approval'' 5],
      ''motion intent requires human approval'', SimApprovalRequired)" by code_simp
  ultimately show ?thesis
    using blocked_motion_emits_one_event [of "ex_contract MoveActuator 0" ex_state ?e]
    by (simp add: ex_robot_defs)
qed

lemma append_and_return_fresh:
  "\<not> has_key sr_simulation_id (sr_simulation_id r) (simulations st) \<Longrightarrow>
    append_and_return r st = (st\<lparr>simulations := simulations st @ [r]\<rparr>, Ok r)"
  by (simp add: append_and_return_def append_robotics_simulation_def)

lemma simulations_upserts [simp]:
  "simulations (upsert_robot_runtime_state r now st) = simulations st"
  "simulations (upsert_ros2_bridge_profile p now st) = simulations st"
  "ros2_profiles (upsert_robot_runtime_state r now st) = ros2_profiles st"
  "robot_states (upsert_ros2_bridge_profile p now st) = robot_states st"
  by (simp_all add: upsert_robot_runtime_state_def upsert_ros2_bridge_profile_def)

lemma simulation_record_fields [simp]:
  "sr_simulation_id (simulation_record fx sid ss now p oc ev j r) = sid"
  "sr_outcome (simulation_record fx sid ss now p oc ev j r) = oc"
  "sr_directive_json (simulation_record fx sid ss now p oc ev j r) = j"
  "sr_rejection_reason (simulation_record fx sid ss now p oc ev j r) = r"
  "sr_ros2_profile_id (simulation_record fx sid ss now p oc ev j r) = p"
  "sr_safety_events (simulation_record fx sid ss now p oc ev j r) = ev"
  by (simp_all add: simulation_record_def)

lemma evaluate_outcome:
  "evaluate_robotics_execution c s e = Inl (events, reason, outcome) \<Longrightarrow> outcome \<noteq> Simulated"
  by (auto simp: evaluate_robotics_execution_def envelope_check_def result_simps Let_def
      split: if_splits option.splits)

text \<open>A simulation run with a well-formed session id and a fresh simulation id
  always succeeds: it appends exactly one record, stores the robot's state under its
  id and touches no ROS 2 profile; the record says Simulated, with a directive and no
  rejection reason, exactly when the bridge compiles the contract, and otherwise
  carries a reason and no directive.\<close>

lemma robotics_simulation_appends_one:
  assumes "parse_session_id (env_parse_uuid env) (fx_session_id fx) = Inr session"
    and "''robot-sim-'' @ env_new_uuid env \<notin> sr_simulation_id ` set (simulations st)"
  shows "\<exists>st' r. execute_robotics_simulation env st fx = (st', Ok r) \<and>
    simulations st' = simulations st @ [r] \<and> ros2_profiles st' = ros2_profiles st \<and>
    find_by robot_key (rs_robot_id (fx_state fx)) (robot_states st') =
      Some (runtime_record fx (fx_connection_kind fx) None (env_now env), env_now env) \<and>
    (sr_outcome r = Simulated \<longleftrightarrow>
       (\<exists>d. compile_robotics_contract (fx_contract fx) (fx_state fx) (fx_safety_envelope fx) = Inr d)) \<and>
    (sr_outcome r = Simulated \<longleftrightarrow> sr_directive_json r \<noteq> None) \<and>
    (sr_outcome r = Simulated \<longleftrightarrow> sr_rejection_reason r = None)"
proof (cases "evaluate_robotics_execution (fx_contract fx) (fx_state fx) (fx_safety_envelope fx)")
  case (Inl err)
  obtain events reason outcome where err: "err = (events, reason, outcome)" by (cases err)
  have "\<not> (\<exists>d. compile_robotics_contract (fx_contract fx) (fx_state fx) (fx_safety_envelope fx) = Inr d)"
    using Inl by (metis evaluate_Ok_iff sum.distinct(1))
  with assms Inl err evaluate_outcome [of _ _ _ events reason outcome] show ?thesis
    by (auto simp: execute_robotics_simulation_def append_and_return_fresh Let_def table_simps
        upsert_robot_runtime_state_def runtime_record_def)
next
  case (Inr res)
  then obtain d where "compile_robotics_contract (fx_contract fx) (fx_state fx)
      (fx_safety_envelope fx) = Inr d" "res = (d, [])"
    by (auto simp: evaluate_Ok_iff)
  then show ?thesis
    using assms Inr
    by (auto simp: execute_robotics_simulation_def append_and_return_fresh Let_def
        table_simps upsert_robot_runtime_state_def runtime_record_def)
qed

definition ex_fixture :: RoboticsSimulationFixture where
  "ex_fixture = \<lparr>fx_session_id = None, fx_agent_id = ''robotics_ctrl'',
     fx_connection_kind = ''simulation'', fx_contract = ex_contract MoveActuator 0x3E800000,
     fx_state = ex_state, fx_safety_envelope = ex_envelope\<rparr>"

definition ex_env :: "nat simulation_env" where
  "ex_env = \<lparr>env_now = 9, env_new_uuid = ''u1'', env_parse_uuid = (\<lambda>_. Inl ''bad''),
     env_to_value = (\<lambda>_. Some 1), env_ros2_to_value = (\<lambda>_. Some 2), env_empty_obj = 0\<rparr>"

definition ex_profile :: Ros2BridgeProfile where
  "ex_profile = \<lparr>rp_profile_id = ''p1'', rp_display_name = ''demo'', rp_namespace = ''/lab/'',
     rp_command_topic = ''/cmd'', rp_telemetry_topic = ''tele'', rp_image_topic = None,
     rp_service_prefix = None, rp_requires_approval = False, rp_simulation_only = True\<rparr>"

definition ex_empty_store :: "nat robotics_store" where
  "ex_empty_store = \<lparr>ros2_profiles = [], robot_states = [], simulations = []\<rparr>"

lemma robotics_simulation_appends_one_example:
  "\<exists>st' r. execute_robotics_simulation ex_env ex_empty_store ex_fixture = (st', Ok r) \<and>
     simulations st' = [r]"
  using robotics_simulation_appends_one [of ex_env ex_fixture None ex_empty_store]
  by (auto simp: ex_env_def ex_fixture_def ex_empty_store_def parse_session_id_def)

text \<open>The ROS 2 run stores its profile first, so the profile stays even when the
  session id is malformed; with a well-formed session id and a fresh simulation id
  the run always succeeds (the second compilation cannot fail after a successful
  evaluation), appends exactly one record that names the profile, and says Simulated
  exactly when the bridge compiles the contract.\<close>

lemma ros2_simulation_outcome:
  assumes "''robot-sim-'' @ env_new_uuid env \<notin> sr_simulation_id ` set (simulations st)"
  shows "(case parse_session_id (env_parse_uuid env) (fx_session_id (fx_robotics fx)) of
      Inl err \<Rightarrow> execute_ros2_simulation env st fx =
        (upsert_ros2_bridge_profile (fx_ros2_profile fx) (env_now env) st, Inl err)
    | Inr session \<Rightarrow> (\<exists>st' r. execute_ros2_simulation env st fx = (st', Ok r) \<and>
        simulations st' = simulations st @ [r] \<and>
        find_by profile_key (rp_profile_id (fx_ros2_profile fx)) (ros2_profiles st') =
          Some (fx_ros2_profile fx, env_now env) \<and>
        sr_ros2_profile_id r = Some (rp_profile_id (fx_ros2_profile fx)) \<and>
        (sr_outcome r = Simulated \<longleftrightarrow> (\<exists>d. compile_robotics_contract (fx_contract (fx_robotics fx))
           (fx_state (fx_robotics fx)) (fx_safety_envelope (fx_robotics fx)) = Inr d))))"
proof (cases "parse_session_id (env_parse_uuid env) (fx_session_id (fx_robotics fx))")
  case (Inl err)
  then show ?thesis by (simp add: execute_ros2_simulation_def Let_def)
next
  case session: (Inr session)
  let ?f = "fx_robotics fx"
  show ?thesis
  proof (cases "evaluate_robotics_execution (fx_contract ?f) (fx_state ?f) (fx_safety_envelope ?f)")
    case (Inl err)
    obtain events reason outcome where err: "err = (events, reason, outcome)" by (cases err)
    have "\<not> (\<exists>d. compile_robotics_contract (fx_contract ?f) (fx_state ?f) (fx_safety_envelope ?f) = Inr d)"
      using Inl by (metis evaluate_Ok_iff sum.distinct(1))
    with assms session Inl err evaluate_outcome [of _ _ _ events reason outcome] show ?thesis
      by (auto simp: execute_ros2_simulation_def append_and_return_fresh Let_def table_simps
          upsert_ros2_bridge_profile_def)
  next
    case (Inr res)
    then obtain d where d: "compile_robotics_contract (fx_contract ?f) (fx_state ?f)
        (fx_safety_envelope ?f) = Inr d" "res = (d, [])"
      by (auto simp: evaluate_Ok_iff)
    then show ?thesis
      using assms session Inr
      by (auto simp: execute_ros2_simulation_def compile_ros2_bridge_directive_def
          append_and_return_fresh Let_def table_simps upsert_ros2_bridge_profile_def)
  qed
qed

lemma ros2_simulation_outcome_example:
  "\<exists>st' r. execute_ros2_simulation ex_env ex_empty_store
      \<lparr>fx_robotics = ex_fixture, fx_ros2_profile = ex_profile, fx_namespace_override = None\<rparr> = (st', Ok r) \<and>
     simulations st' = [r]"
  using ros2_simulation_outcome [of ex_env ex_empty_store
      "\<lparr>fx_robotics = ex_fixture, fx_ros2_profile = ex_profile, fx_namespace_override = None\<rparr>"]
  by (auto simp: ex_env_def ex_fixture_def ex_empty_store_def parse_session_id_def)

lemma trim_start_Cons [simp]: "trim_start c (c # s) = trim_start c s"
  by (simp add: trim_start_def)

lemma trim_start_hd: "trim_start c s = [] \<or> hd (trim_start c s) \<noteq> c"
  by (induction s) (auto simp: trim_start_def)

lemma trim_both_Cons [simp]: "trim_both c (c # s) = trim_both c s"
  by (simp add: trim_both_def)

lemma trim_start_snoc: "trim_start c (s @ [c]) = (if trim_start c s = [] then [] else trim_start c s @ [c])"
  by (induction s) (auto simp: trim_start_def)

lemma trim_both_snoc [simp]: "trim_both c (s @ [c]) = trim_both c s"
  by (simp add: trim_both_def trim_start_snoc)

lemma trim_both_hd: "trim_both c s = [] \<or> hd (trim_both c s) \<noteq> c"
proof -
  let ?t = "trim_start c s"
  have "?t = trim_both c s @ rev (takeWhile (\<lambda>x. x = c) (rev ?t))"
    by (metis trim_both_def trim_start_def rev_append rev_rev_ident takeWhile_dropWhile_id)
  then obtain post where "?t = trim_both c s @ post" by blast
  with trim_start_hd [of c s] show ?thesis
    by (cases "trim_both c s") auto
qed

text \<open>A rendered topic is absolute with exactly one leading slash, and depends on
  the namespace and topic only up to the slashes around the namespace and in front
  of the topic.\<close>

lemma render_topic_normal:
  "(\<exists>rest. render_topic ns topic = CHR ''/'' # rest \<and> (rest = [] \<or> hd rest \<noteq> CHR ''/'')) \<and>
   render_topic (CHR ''/'' # ns) topic = render_topic ns topic \<and>
   render_topic (ns @ ''/'') topic = render_topic ns topic \<and>
   render_topic ns (CHR ''/'' # topic) = render_topic ns topic"
  using trim_both_hd [of "CHR ''/''" ns] trim_start_hd [of "CHR ''/''" topic]
  by (auto simp: render_topic_def Let_def)


lemma render_topic_normal_example:
  "render_topic ''/lab'' ''/cmd'' = render_topic ''lab'' ''cmd'' \<and> render_topic ''lab'' ''cmd'' = ''/lab/cmd''"
proof -
  have "render_topic ''lab'' ''cmd'' = ''/lab/cmd''" by code_simp
  moreover have "render_topic ''/lab'' ''/cmd'' = render_topic ''lab'' ''cmd''"
    using render_topic_normal [of "''lab''" "''/cmd''"] render_topic_normal [of "''lab''" "''cmd''"]
    by simp
  ultimately show ?thesis by simp
qed

end
