(* ===== verification/Contracts.thy ===== *)
theory Contracts
  imports Prelude
begin

text \<open>Interfaces that several components provide.  \<open>claim_service\<close>: a store from
  which workers claim the ready items oldest first (the durable queue, the queued
  agent runs).  \<open>lease_service\<close>: a table of leases on resources with an expiry (job
  leases, resource leases).  Each provider interprets the locale on its own
  operations; the lemmas proved here are what its clients rely on.\<close>

section \<open>Claiming the oldest ready item\<close>

fun claim_times :: "('s \<Rightarrow> 's \<times> 'k option) \<Rightarrow> nat \<Rightarrow> 's \<Rightarrow> 's \<times> 'k list" where
  "claim_times claim 0 s = (s, [])"
| "claim_times claim (Suc n) s = (case claim s of
      (s', None) \<Rightarrow> (s', [])
    | (s', Some k) \<Rightarrow> (let (s'', ks) = claim_times claim n s' in (s'', k # ks)))"

locale claim_service =
  fixes inv :: "'s \<Rightarrow> bool"
    and ready :: "'s \<Rightarrow> 'k set"
    and age :: "'s \<Rightarrow> 'k \<Rightarrow> int"
    and claim :: "'s \<Rightarrow> 's \<times> 'k option"
  assumes inv_claim: "inv s \<Longrightarrow> inv (fst (claim s))"
    and ready_finite: "finite (ready s)"
    and claim_None: "inv s \<Longrightarrow> claim s = (s', None) \<Longrightarrow> ready s = {}"
    and claim_Some: "inv s \<Longrightarrow> claim s = (s', Some k) \<Longrightarrow>
      k \<in> ready s \<and> ready s' = ready s - {k} \<and> (\<forall>j\<in>ready s. age s k \<le> age s j)"
    and age_kept: "inv s \<Longrightarrow> claim s = (s', Some k) \<Longrightarrow> j \<in> ready s' \<Longrightarrow> age s' j = age s j"
begin

lemma inv_claim': "inv s \<Longrightarrow> claim s = (s', r) \<Longrightarrow> inv s'"
  using inv_claim [of s] by simp

lemma claims_ready:
  "inv s \<Longrightarrow> claim_times claim n s = (s', ks) \<Longrightarrow> set ks \<subseteq> ready s \<and> distinct ks"
proof (induction n arbitrary: s s' ks)
  case (Suc n)
  show ?case
  proof (cases "claim s")
    case (Pair s1 r)
    show ?thesis
    proof (cases r)
      case None
      with Suc.prems Pair show ?thesis by simp
    next
      case (Some k)
      obtain s2 js where js: "claim_times claim n s1 = (s2, js)" by fastforce
      then have "ks = k # js" using Suc.prems Pair Some by simp
      with Suc.IH [OF inv_claim' [OF Suc.prems(1) Pair] js] claim_Some [OF Suc.prems(1)] Pair Some
      show ?thesis by auto
    qed
  qed
qed simp

text \<open>Enough claims in a row hand out every ready item once, oldest first.\<close>

lemma claims_drain:
  "inv s \<Longrightarrow> card (ready s) \<le> n \<Longrightarrow> claim_times claim n s = (s', ks) \<Longrightarrow>
    set ks = ready s \<and> distinct ks \<and> sorted (map (age s) ks)"
proof (induction n arbitrary: s s' ks)
  case 0
  then show ?case using ready_finite by simp
next
  case (Suc n)
  show ?case
  proof (cases "claim s")
    case (Pair s1 r)
    show ?thesis
    proof (cases r)
      case None
      with Suc.prems Pair claim_None [of s s1] show ?thesis by simp
    next
      case (Some k)
      obtain s2 js where js: "claim_times claim n s1 = (s2, js)" by fastforce
      have ks: "ks = k # js" using Suc.prems Pair Some js by simp
      have k: "k \<in> ready s" "ready s1 = ready s - {k}" "\<forall>j\<in>ready s. age s k \<le> age s j"
        using claim_Some [OF Suc.prems(1)] Pair Some by auto
      have "card (ready s1) \<le> n"
        using Suc.prems(2) k(1,2) ready_finite by (simp add: card_Diff_singleton)
      then have IH: "set js = ready s1" "distinct js" "sorted (map (age s1) js)"
        using Suc.IH [OF inv_claim' [OF Suc.prems(1) Pair] _ js] by auto
      have "map (age s1) js = map (age s) js"
        using age_kept [OF Suc.prems(1)] Pair Some IH(1) by auto
      with IH k ks show ?thesis by auto
    qed
  qed
qed

end


section \<open>Leases with expiry\<close>

text \<open>\<open>holder s k\<close> is the lease on \<open>k\<close>: the holder and the time until which it runs.
  A request names the resource, the requester, the time and the requested end.\<close>

type_synonym 'k lease_request = "'k \<times> string \<times> u64 \<times> u64"

text \<open>A request for \<open>k\<close> by somebody else than \<open>w\<close>, made before \<open>e\<close> (or a request for
  another resource).\<close>

definition rival_before :: "'k \<Rightarrow> string \<Rightarrow> int \<Rightarrow> 'k lease_request \<Rightarrow> bool" where
  "rival_before k w e r = (case r of (k', w', now, until) \<Rightarrow> k' = k \<longrightarrow> w' \<noteq> w \<and> sint now < e)"

definition serve ::
  "('k \<Rightarrow> string \<Rightarrow> u64 \<Rightarrow> u64 \<Rightarrow> 's \<Rightarrow> 's \<times> bool) \<Rightarrow> 'k lease_request \<Rightarrow> 's \<Rightarrow> 's" where
  "serve acq r s = (case r of (k, w, now, until) \<Rightarrow> fst (acq k w now until s))"

locale lease_service =
  fixes holder :: "'s \<Rightarrow> 'k \<Rightarrow> (string \<times> int) option"
    and acquire :: "'k \<Rightarrow> string \<Rightarrow> u64 \<Rightarrow> u64 \<Rightarrow> 's \<Rightarrow> 's \<times> bool"
  assumes granted_iff: "snd (acquire k w now until s) \<longleftrightarrow>
      (case holder s k of None \<Rightarrow> True | Some (h, e) \<Rightarrow> h = w \<or> e \<le> sint now)"
    and granted: "acquire k w now until s = (s', True) \<Longrightarrow>
      holder s' j = (if j = k then Some (w, sint until) else holder s j)"
    and refused: "acquire k w now until s = (s', False) \<Longrightarrow> s' = s"
begin

lemma acquire_cases:
  obtains "snd (acquire k w now until s)" "acquire k w now until s = (fst (acquire k w now until s), True)"
  | "\<not> snd (acquire k w now until s)" "acquire k w now until s = (s, False)"
proof (cases "snd (acquire k w now until s)")
  case False
  then have "acquire k w now until s = (fst (acquire k w now until s), False)"
    by (metis prod.collapse)
  with refused [OF this] False show ?thesis using that(2) by metis
qed (metis prod.collapse that(1))

lemma serve_keeps:
  assumes "holder s k = Some (w, e)"
    and "rival_before k w e r"
  shows "holder (serve acquire r s) k = Some (w, e)"
proof -
  obtain k' w' now until where r: "r = (k', w', now, until)" by (cases r)
  show ?thesis
  proof (cases rule: acquire_cases [of k' w' now until s])
    case 1
    with assms r have "k' \<noteq> k"
      using granted_iff [of k' w' now until s] by (auto simp: rival_before_def)
    with granted [OF 1(2), of k] assms(1) r show ?thesis by (simp add: serve_def)
  next
    case 2
    with assms(1) r show ?thesis by (simp add: serve_def)
  qed
qed

text \<open>Nobody else gets a lease before it ends, however the requests of the other
  workers on this and on other resources are ordered.\<close>

lemma exclusive_until_expiry:
  assumes "holder s k = Some (w, e)"
    and "list_all (rival_before k w e) rs"
  shows "holder (fold (serve acquire) rs s) k = Some (w, e)"
  using assms
proof (induction rs arbitrary: s)
  case (Cons r rs)
  have "holder (serve acquire r s) k = Some (w, e)"
    using Cons.prems by (intro serve_keeps) auto
  with Cons show ?case by simp
qed simp

lemma other_refused:
  "holder s k = Some (w, e) \<Longrightarrow> w' \<noteq> w \<Longrightarrow> sint now < e \<Longrightarrow> acquire k w' now until s = (s, False)"
  using granted_iff [of k w' now until s]
  by (cases rule: acquire_cases [of k w' now until s]) auto

lemma expired_granted:
  "holder s k = Some (w, e) \<Longrightarrow> e \<le> sint now \<Longrightarrow>
    holder (fst (acquire k w' now until s)) k = Some (w', sint until)"
  using granted_iff [of k w' now until s]
  by (cases rule: acquire_cases [of k w' now until s]) (auto simp: granted)

lemma free_granted:
  "holder s k = None \<Longrightarrow> holder (fst (acquire k w' now until s)) k = Some (w', sint until)"
  using granted_iff [of k w' now until s]
  by (cases rule: acquire_cases [of k w' now until s]) (auto simp: granted)

end

text \<open>With releases: a release by somebody else leaves a lease alone.\<close>

datatype ('k, 't) lease_op = AcquireOp "'k lease_request" | ReleaseOp 'k string 't

fun run_lease_op ::
  "('k \<Rightarrow> string \<Rightarrow> u64 \<Rightarrow> u64 \<Rightarrow> 's \<Rightarrow> 's \<times> bool) \<Rightarrow> ('k \<Rightarrow> string \<Rightarrow> 't \<Rightarrow> 's \<Rightarrow> 's)
    \<Rightarrow> ('k, 't) lease_op \<Rightarrow> 's \<Rightarrow> 's" where
  "run_lease_op acq rel (AcquireOp r) s = serve acq r s"
| "run_lease_op acq rel (ReleaseOp k w t) s = rel k w t s"

fun rival_op :: "'k \<Rightarrow> string \<Rightarrow> int \<Rightarrow> ('k, 't) lease_op \<Rightarrow> bool" where
  "rival_op k w e (AcquireOp r) = rival_before k w e r"
| "rival_op k w e (ReleaseOp k' w' t) = (k' = k \<longrightarrow> w' \<noteq> w)"

locale releasable_lease_service = lease_service holder acquire
  for holder :: "'s \<Rightarrow> 'k \<Rightarrow> (string \<times> int) option"
    and acquire :: "'k \<Rightarrow> string \<Rightarrow> u64 \<Rightarrow> u64 \<Rightarrow> 's \<Rightarrow> 's \<times> bool" +
  fixes release :: "'k \<Rightarrow> string \<Rightarrow> 't \<Rightarrow> 's \<Rightarrow> 's"
  assumes release_other: "holder s j = Some (w', e) \<Longrightarrow> k \<noteq> j \<or> w \<noteq> w' \<Longrightarrow>
      holder (release k w t s) j = Some (w', e)"
begin

lemma lease_survives:
  assumes "holder s k = Some (w, e)" "list_all (rival_op k w e) ops"
  shows "holder (fold (run_lease_op acquire release) ops s) k = Some (w, e)"
  using assms
proof (induction ops arbitrary: s)
  case (Cons op ops)
  have "holder (run_lease_op acquire release op s) k = Some (w, e)"
  proof (cases op)
    case (AcquireOp r)
    with Cons.prems show ?thesis by (auto intro: serve_keeps)
  next
    case (ReleaseOp k' w' t)
    with Cons.prems show ?thesis by (auto intro: release_other)
  qed
  with Cons show ?case by simp
qed simp

lemma rivals_refused:
  assumes "holder s k = Some (w, e)" "list_all (rival_op k w e) ops" "w' \<noteq> w" "sint now < e"
  shows "snd (acquire k w' now until (fold (run_lease_op acquire release) ops s)) = False"
  using other_refused [OF lease_survives [OF assms(1,2)] assms(3,4)] by simp

end


section \<open>Event logs with optimistic versions\<close>

text \<open>\<open>append k v e s\<close> appends event \<open>e\<close> to the log of \<open>k\<close> if \<open>v\<close> is its current
  version, and is refused otherwise.  An attempt names the log, the version the writer
  has seen and the event.\<close>

fun run_appends ::
  "('k \<Rightarrow> nat \<Rightarrow> 'e \<Rightarrow> 's \<Rightarrow> ('x, 's \<times> nat) result) \<Rightarrow> ('k \<times> nat \<times> 'e) list \<Rightarrow> 's
    \<Rightarrow> 's \<times> ('k \<times> nat \<times> 'e) list" where
  "run_appends app [] s = (s, [])"
| "run_appends app ((k, v, e) # as) s = (case app k v e s of
      Inl _ \<Rightarrow> run_appends app as s
    | Inr (s', _) \<Rightarrow> (let (s'', acc) = run_appends app as s' in (s'', (k, v, e) # acc)))"

locale versioned_log =
  fixes inv :: "'s \<Rightarrow> bool"
    and log :: "'s \<Rightarrow> 'k \<Rightarrow> 'e list"
    and append :: "'k \<Rightarrow> nat \<Rightarrow> 'e \<Rightarrow> 's \<Rightarrow> ('x, 's \<times> nat) result"
  assumes append_inv: "inv s \<Longrightarrow> append k v e s = Inr (s', v') \<Longrightarrow> inv s'"
    and append_log: "inv s \<Longrightarrow> append k v e s = Inr (s', v') \<Longrightarrow>
      log s' j = (if j = k then log s k @ [e] else log s j)"
    and append_version: "inv s \<Longrightarrow> append k v e s = Inr (s', v') \<Longrightarrow> v' = Suc v"
    and append_iff: "inv s \<Longrightarrow> (\<exists>r. append k v e s = Inr r) \<longleftrightarrow> v = length (log s k)"
begin

text \<open>However writers interleave, each log grows by exactly the accepted events in
  order, and the accepted versions of a log are consecutive: of the writers that have
  seen the same version only the first is accepted.\<close>

lemma appends_in_order:
  assumes "inv s" "run_appends append as s = (s', acc)"
  shows "inv s' \<and> log s' k = log s k @ map (\<lambda>a. snd (snd a)) (filter (\<lambda>a. fst a = k) acc) \<and>
    map (\<lambda>a. fst (snd a)) (filter (\<lambda>a. fst a = k) acc) =
      [length (log s k)..<length (log s k) + length (filter (\<lambda>a. fst a = k) acc)]"
  using assms
proof (induction as arbitrary: s s' acc)
  case (Cons a as)
  obtain j v e where a: "a = (j, v, e)" by (cases a)
  show ?case
  proof (cases "append j v e s")
    case (Inl x)
    with Cons a show ?thesis by simp
  next
    case (Inr r)
    obtain s1 v1 where r: "r = (s1, v1)" by (cases r)
    obtain s2 acc2 where rest: "run_appends append as s1 = (s2, acc2)" by fastforce
    have acc: "s' = s2" "acc = (j, v, e) # acc2"
      using Cons.prems(2) a Inr r rest by auto
    have i1: "inv s1" using append_inv [OF Cons.prems(1)] Inr r by blast
    have l1: "log s1 k = (if k = j then log s j @ [e] else log s k)"
      using append_log [OF Cons.prems(1)] Inr r by blast
    have v: "v = length (log s j)" using append_iff [OF Cons.prems(1)] Inr by blast
    from Cons.IH [OF i1 rest] acc l1 v show ?thesis
      by (auto simp: upt_conv_Cons simp del: upt_Suc)
  qed
qed simp

end


section \<open>Least-recently-used caches\<close>

text \<open>\<open>keys s\<close> lists the cached keys from the least to the most recently used.  A use of
  a cached key moves it to the end; a use of another key puts it at the end, after evicting
  the first key when the cache is full.  A cache of capacity 0 holds one entry.\<close>

definition lru_step :: "nat \<Rightarrow> 'k \<Rightarrow> 'k list \<Rightarrow> 'k list" where
  "lru_step c k ks = (if k \<in> set ks then remove1 k ks @ [k]
     else (if c \<le> length ks then tl ks else ks) @ [k])"

definition last_n :: "nat \<Rightarrow> 'a list \<Rightarrow> 'a list" where
  "last_n n xs = drop (length xs - n) xs"

lemma last_n_append: "length ys = n \<Longrightarrow> last_n n (xs @ ys) = ys"
  by (simp add: last_n_def)

lemma last_n_short: "length xs \<le> n \<Longrightarrow> last_n n xs = xs"
  by (simp add: last_n_def)

lemma length_last_n: "length (last_n n xs) = min n (length xs)"
  by (simp add: last_n_def)

lemma last_n_split:
  obtains ps where "xs = ps @ last_n n xs" "ps = [] \<or> length (last_n n xs) = n"
proof
  show "xs = take (length xs - n) xs @ last_n n xs" by (simp add: last_n_def)
  show "take (length xs - n) xs = [] \<or> length (last_n n xs) = n" by (auto simp: last_n_def)
qed

lemma remdups_snoc: "remdups (us @ [k]) = removeAll k (remdups us) @ [k]"
  by (induction us) auto

lemma removeAll_distinct_mem: "distinct (ps @ ks) \<Longrightarrow> k \<in> set ks \<Longrightarrow> removeAll k (ps @ ks) = ps @ remove1 k ks"
  by (induction ps) (auto simp: distinct_remove1_removeAll)

lemma lru_step_last_n:
  assumes d: "distinct d"
  shows "lru_step c k (last_n (max 1 c) d) = last_n (max 1 c) (removeAll k d @ [k])"
proof -
  let ?n = "max 1 c" let ?ks = "last_n ?n d"
  obtain ps where ps: "d = ps @ ?ks" "ps = [] \<or> length ?ks = ?n" by (rule last_n_split)
  have short: "length ?ks \<le> ?n" by (simp add: length_last_n)
  show ?thesis
  proof (cases "k \<in> set ?ks")
    case True
    then have rm: "removeAll k d @ [k] = ps @ (remove1 k ?ks @ [k])"
      using ps(1) d removeAll_distinct_mem [of ps ?ks k] by (metis append.assoc)
    have len: "length (remove1 k ?ks @ [k]) = length ?ks"
      using True length_pos_if_in_set [OF True] by (simp add: length_remove1)
    show ?thesis
    proof (cases "ps = []")
      case True
      with rm len short have "last_n ?n (removeAll k d @ [k]) = remove1 k ?ks @ [k]"
        using last_n_short [of "remove1 k ?ks @ [k]" ?n] by simp
      with \<open>k \<in> set ?ks\<close> show ?thesis by (simp add: lru_step_def)
    next
      case False
      with ps(2) len have "length (remove1 k ?ks @ [k]) = ?n" by simp
      with \<open>k \<in> set ?ks\<close> show ?thesis unfolding rm by (simp only: last_n_append lru_step_def if_True)
    qed
  next
    case False
    then have rm: "removeAll k d @ [k] = removeAll k ps @ ?ks @ [k]"
      using ps(1) by (metis append.assoc removeAll_append removeAll_id)
    show ?thesis
    proof (cases "c \<le> length ?ks")
      case True
      show ?thesis
      proof (cases ?ks)
        case Nil
        then have "d = []" using ps by auto
        with Nil show ?thesis by (auto simp: lru_step_def last_n_def)
      next
        case (Cons a as)
        with True short have "length ?ks = ?n" by auto
        then have "length (tl ?ks @ [k]) = ?n" using Cons by simp
        moreover have "removeAll k d @ [k] = (removeAll k ps @ [a]) @ (tl ?ks @ [k])"
          unfolding rm using Cons by simp
        ultimately have "last_n ?n (removeAll k d @ [k]) = tl ?ks @ [k]"
          by (simp only: last_n_append)
        with True False show ?thesis by (simp add: lru_step_def)
      qed
    next
      case c: False
      then have "ps = []" using ps(2) by auto
      then have "removeAll k d @ [k] = ?ks @ [k]" using rm by simp
      moreover have "last_n ?n (?ks @ [k]) = ?ks @ [k]"
        using c by (intro last_n_short) auto
      ultimately show ?thesis using c False by (simp only: lru_step_def if_False)
    qed
  qed
qed

fun use_all :: "('u \<Rightarrow> 's \<Rightarrow> 's option) \<Rightarrow> 'u list \<Rightarrow> 's \<Rightarrow> 's option" where
  "use_all use [] s = Some s"
| "use_all use (u # us) s = (case use u s of None \<Rightarrow> None | Some s' \<Rightarrow> use_all use us s')"

lemma use_all_snoc:
  "use_all use (us @ [u]) s = (case use_all use us s of None \<Rightarrow> None | Some s' \<Rightarrow> use u s')"
  by (induction us arbitrary: s) (auto split: option.splits)

text \<open>A run that skips the uses that are refused, with the accepted ones.\<close>

fun run_uses :: "('u \<Rightarrow> 's \<Rightarrow> 's option) \<Rightarrow> 'u list \<Rightarrow> 's \<Rightarrow> 's \<times> 'u list" where
  "run_uses use [] s = (s, [])"
| "run_uses use (u # us) s = (case use u s of
      None \<Rightarrow> run_uses use us s
    | Some s' \<Rightarrow> (let (s'', acc) = run_uses use us s' in (s'', u # acc)))"

lemma run_uses_all: "use_all use (snd (run_uses use us s)) s = Some (fst (run_uses use us s))"
proof (induction us arbitrary: s)
  case (Cons u us)
  show ?case
  proof (cases "use u s")
    case (Some s')
    with Cons.IH [of s'] show ?thesis by (simp add: case_prod_beta)
  qed (use Cons in simp)
qed simp

locale lru_cache =
  fixes inv :: "'s \<Rightarrow> bool"
    and keys :: "'s \<Rightarrow> 'k list"
    and cap :: "'s \<Rightarrow> nat"
    and ukey :: "'u \<Rightarrow> 'k"
    and use :: "'u \<Rightarrow> 's \<Rightarrow> 's option"
  assumes use_inv: "inv s \<Longrightarrow> use u s = Some s' \<Longrightarrow> inv s'"
    and use_keys: "inv s \<Longrightarrow> use u s = Some s' \<Longrightarrow> keys s' = lru_step (cap s) (ukey u) (keys s)"
    and use_cap: "inv s \<Longrightarrow> use u s = Some s' \<Longrightarrow> cap s' = cap s"
begin

text \<open>After any accepted uses the cache holds exactly the most recently used distinct
  keys, as many as it has room for, in the order of their last use.\<close>

lemma holds_most_recent:
  assumes "inv s" "keys s = []" "use_all use us s = Some s'"
  shows "inv s' \<and> cap s' = cap s \<and> keys s' = last_n (max 1 (cap s)) (remdups (map ukey us))"
  using assms(3)
proof (induction us arbitrary: s' rule: rev_induct)
  case Nil
  with assms show ?case by (simp add: last_n_def)
next
  case (snoc u us)
  then obtain s1 where s1: "use_all use us s = Some s1" "use u s1 = Some s'"
    by (auto simp: use_all_snoc split: option.splits)
  from snoc.IH [OF s1(1)] have IH: "inv s1" "cap s1 = cap s"
    "keys s1 = last_n (max 1 (cap s)) (remdups (map ukey us))" by auto
  have "keys s' = lru_step (cap s) (ukey u) (keys s1)"
    using use_keys [OF IH(1) s1(2)] IH(2) by simp
  also have "\<dots> = last_n (max 1 (cap s)) (remdups (map ukey (us @ [u])))"
    using lru_step_last_n [of "remdups (map ukey us)"] by (simp add: IH(3) remdups_snoc)
  finally show ?case using use_inv [OF IH(1) s1(2)] use_cap [OF IH(1) s1(2)] IH(2) by simp
qed

lemma run_holds_most_recent:
  assumes "inv s" "keys s = []"
  shows "inv (fst (run_uses use us s)) \<and> cap (fst (run_uses use us s)) = cap s \<and>
    keys (fst (run_uses use us s)) = last_n (max 1 (cap s)) (remdups (map ukey (snd (run_uses use us s))))"
  by (rule holds_most_recent [OF assms run_uses_all])

lemma within_capacity:
  "inv s \<Longrightarrow> keys s = [] \<Longrightarrow> use_all use us s = Some s' \<Longrightarrow>
    distinct (keys s') \<and> length (keys s') \<le> max 1 (cap s)"
  using holds_most_recent [of s us s'] by (simp add: length_last_n) (simp add: last_n_def)

end

end
