(* ===== verification/DurableQueue.thy ===== *)
theory DurableQueue
  imports Contracts
begin

text \<open>The durable message queue of the runtime store
  (\<open>aria-x/src/runtime_store/queues.rs\<close>, data in \<open>aria-x/src/runtime_store.rs\<close>,
  indexes in \<open>aria-x/src/runtime_store/schema.rs\<close>): enqueue with deduplication,
  claim, ack, fail with bounded attempts and dead-lettering, replay.  A \<open>u64\<close> time
  is stored in an \<open>i64\<close> column, so SQL compares the signed readings.\<close>

section \<open>Data\<close>

datatype DurableQueueKind = Ingress | Run | Outbox

datatype DurableQueueStatus = Pending | Claimed | Acked | DeadLetter

record DurableQueueMessage =
  mq_message_id :: string
  mq_queue :: DurableQueueKind
  mq_tenant_id :: string
  mq_workspace_scope :: string
  mq_dedupe_key :: "string option"
  mq_payload_json :: string
  mq_attempt_count :: u32
  mq_last_error :: "string option"
  mq_status :: DurableQueueStatus
  mq_visible_at_us :: u64
  mq_claimed_by :: "string option"
  mq_claimed_until_us :: "u64 option"
  mq_created_at_us :: u64
  mq_updated_at_us :: u64

record DurableQueueDlqRecord =
  dl_dlq_id :: string
  dl_message_id :: string
  dl_queue :: DurableQueueKind
  dl_tenant_id :: string
  dl_workspace_scope :: string
  dl_payload_json :: string
  dl_final_error :: string
  dl_attempt_count :: u32
  dl_created_at_us :: u64

record queue_store =
  messages :: "DurableQueueMessage list"
  dlq :: "DurableQueueDlqRecord list"

fun queue_kind_name :: "DurableQueueKind \<Rightarrow> string" where
  "queue_kind_name Ingress = ''ingress''"
| "queue_kind_name Run = ''run''"
| "queue_kind_name Outbox = ''outbox''"

fun queue_status_name :: "DurableQueueStatus \<Rightarrow> string" where
  "queue_status_name Pending = ''pending''"
| "queue_status_name Claimed = ''claimed''"
| "queue_status_name Acked = ''acked''"
| "queue_status_name DeadLetter = ''dead_letter''"

definition parse_queue_kind :: "string \<Rightarrow> (string, DurableQueueKind) result" where
  "parse_queue_kind value =
    (if value = ''ingress'' then Ok Ingress
     else if value = ''run'' then Ok Run
     else if value = ''outbox'' then Ok Outbox
     else Err (''unknown durable queue kind '' @ [CHR 0x27] @ value @ [CHR 0x27]))"

definition parse_queue_status :: "string \<Rightarrow> (string, DurableQueueStatus) result" where
  "parse_queue_status value =
    (if value = ''pending'' then Ok Pending
     else if value = ''claimed'' then Ok Claimed
     else if value = ''acked'' then Ok Acked
     else if value = ''dead_letter'' then Ok DeadLetter
     else Err (''unknown durable queue status '' @ [CHR 0x27] @ value @ [CHR 0x27]))"

section \<open>Operations\<close>

text \<open>\<open>INSERT OR IGNORE\<close>: ignored on a clash with the primary key or with the
  partial unique index over queue, tenant, scope and a non-null dedupe key.\<close>

definition dedupe_clash :: "DurableQueueMessage \<Rightarrow> DurableQueueMessage \<Rightarrow> bool" where
  "dedupe_clash m r =
    (mq_dedupe_key m \<noteq> None \<and> mq_dedupe_key r = mq_dedupe_key m \<and> mq_queue r = mq_queue m \<and>
     mq_tenant_id r = mq_tenant_id m \<and> mq_workspace_scope r = mq_workspace_scope m)"

definition enqueue_durable_message ::
  "DurableQueueMessage \<Rightarrow> queue_store \<Rightarrow> queue_store \<times> bool" where
  "enqueue_durable_message m st =
    (if has_key mq_message_id (mq_message_id m) (messages st) \<or> list_ex (dedupe_clash m) (messages st)
     then (st, False)
     else (st\<lparr>messages := messages st @ [m]\<rparr>, True))"

definition claimable ::
  "DurableQueueKind \<Rightarrow> string \<Rightarrow> string \<Rightarrow> u64 \<Rightarrow> DurableQueueMessage \<Rightarrow> bool" where
  "claimable q tenant scope now m =
    (mq_queue m = q \<and> mq_tenant_id m = tenant \<and> mq_workspace_scope m = scope \<and>
     mq_status m = Pending \<and> sint (mq_visible_at_us m) \<le> sint now)"

definition mark_claimed :: "string \<Rightarrow> u64 \<Rightarrow> u64 \<Rightarrow> DurableQueueMessage \<Rightarrow> DurableQueueMessage" where
  "mark_claimed worker now until m =
    m\<lparr>mq_status := Claimed, mq_claimed_by := Some worker, mq_claimed_until_us := Some until,
      mq_updated_at_us := now\<rparr>"

definition claim_durable_message ::
  "DurableQueueKind \<Rightarrow> string \<Rightarrow> string \<Rightarrow> string \<Rightarrow> u64 \<Rightarrow> u64 \<Rightarrow> queue_store
    \<Rightarrow> queue_store \<times> DurableQueueMessage option" where
  "claim_durable_message q tenant scope worker now until st =
    (case first_min (\<lambda>m. sint (mq_updated_at_us m)) (filter (claimable q tenant scope now) (messages st)) of
       None \<Rightarrow> (st, None)
     | Some m \<Rightarrow>
         (let hit = (\<lambda>r. mq_message_id r = mq_message_id m \<and> mq_status r = Pending);
              st' = st\<lparr>messages := update_where hit (mark_claimed worker now until) (messages st)\<rparr> in
          if list_ex hit (messages st) then (st', Some (mark_claimed worker now until m))
          else (st', None)))"

definition mark_acked :: "u64 \<Rightarrow> DurableQueueMessage \<Rightarrow> DurableQueueMessage" where
  "mark_acked at m = m\<lparr>mq_status := Acked, mq_updated_at_us := at, mq_claimed_by := None,
     mq_claimed_until_us := None\<rparr>"

definition ack_durable_message :: "string \<Rightarrow> u64 \<Rightarrow> queue_store \<Rightarrow> queue_store" where
  "ack_durable_message mid at st =
    st\<lparr>messages := update_by mq_message_id mid (mark_acked at) (messages st)\<rparr>"

definition mark_dead :: "string \<Rightarrow> u32 \<Rightarrow> u64 \<Rightarrow> DurableQueueMessage \<Rightarrow> DurableQueueMessage" where
  "mark_dead err attempts at m = m\<lparr>mq_status := DeadLetter, mq_last_error := Some err,
     mq_attempt_count := attempts, mq_updated_at_us := at, mq_claimed_by := None,
     mq_claimed_until_us := None\<rparr>"

definition mark_retry ::
  "string \<Rightarrow> u32 \<Rightarrow> u64 \<Rightarrow> u64 \<Rightarrow> DurableQueueMessage \<Rightarrow> DurableQueueMessage" where
  "mark_retry err attempts retry_at at m = m\<lparr>mq_status := Pending, mq_last_error := Some err,
     mq_attempt_count := attempts, mq_visible_at_us := retry_at, mq_updated_at_us := at,
     mq_claimed_by := None, mq_claimed_until_us := None\<rparr>"

definition dlq_record :: "string \<Rightarrow> string \<Rightarrow> u32 \<Rightarrow> u64 \<Rightarrow> DurableQueueMessage \<Rightarrow> DurableQueueDlqRecord" where
  "dlq_record did err attempts at m =
    \<lparr>dl_dlq_id = did, dl_message_id = mq_message_id m, dl_queue = mq_queue m,
     dl_tenant_id = mq_tenant_id m, dl_workspace_scope = mq_workspace_scope m,
     dl_payload_json = mq_payload_json m, dl_final_error = err, dl_attempt_count = attempts,
     dl_created_at_us = at\<rparr>"

text \<open>\<open>uuid\<close> is the text of the fresh UUID; a clash with a stored id fails the insert
  and the transaction rolls back.\<close>

definition fail_durable_message ::
  "string \<Rightarrow> string \<Rightarrow> string \<Rightarrow> u64 \<Rightarrow> u64 \<Rightarrow> u32 \<Rightarrow> queue_store
    \<Rightarrow> queue_store \<times> (string, DurableQueueStatus) result" where
  "fail_durable_message uuid mid err failed_at retry_at max_attempts st =
    (case find_by mq_message_id mid (messages st) of
       None \<Rightarrow> (st, Err ''read durable message failed: Query returned no rows'')
     | Some m \<Rightarrow>
         (let attempts = saturating_add (mq_attempt_count m) 1; did = ''dlq-'' @ uuid in
          if max_attempts \<le> attempts
          then if has_key dl_dlq_id did (dlq st)
               then (st, Err ''insert durable DLQ record failed: UNIQUE constraint failed'')
               else (st\<lparr>messages := update_by mq_message_id mid (mark_dead err attempts failed_at) (messages st),
                        dlq := dlq st @ [dlq_record did err attempts failed_at m]\<rparr>, Ok DeadLetter)
          else (st\<lparr>messages := update_by mq_message_id mid
                     (mark_retry err attempts retry_at failed_at) (messages st)\<rparr>, Ok Pending)))"

definition list_durable_messages ::
  "DurableQueueKind \<Rightarrow> string \<Rightarrow> string \<Rightarrow> queue_store \<Rightarrow> DurableQueueMessage list" where
  "list_durable_messages q tenant scope st = sort_key (\<lambda>m. sint (mq_created_at_us m))
    (filter (\<lambda>m. mq_queue m = q \<and> mq_tenant_id m = tenant \<and> mq_workspace_scope m = scope) (messages st))"

definition list_durable_dlq ::
  "DurableQueueKind \<Rightarrow> string \<Rightarrow> string \<Rightarrow> queue_store \<Rightarrow> DurableQueueDlqRecord list" where
  "list_durable_dlq q tenant scope st = sort_key (\<lambda>d. sint (dl_created_at_us d))
    (filter (\<lambda>d. dl_queue d = q \<and> dl_tenant_id d = tenant \<and> dl_workspace_scope d = scope) (dlq st))"

definition mark_replayed :: "u64 \<Rightarrow> DurableQueueMessage \<Rightarrow> DurableQueueMessage" where
  "mark_replayed at m = m\<lparr>mq_status := Pending, mq_last_error := None, mq_visible_at_us := at,
     mq_updated_at_us := at, mq_claimed_by := None, mq_claimed_until_us := None\<rparr>"

definition replay_durable_dlq ::
  "string \<Rightarrow> u64 \<Rightarrow> queue_store \<Rightarrow> queue_store \<times> DurableQueueMessage option" where
  "replay_durable_dlq did at st =
    (case find_by dl_dlq_id did (dlq st) of
       None \<Rightarrow> (st, None)
     | Some d \<Rightarrow>
         (st\<lparr>messages := update_by mq_message_id (dl_message_id d) (mark_replayed at) (messages st),
             dlq := delete_by dl_dlq_id did (dlq st)\<rparr>,
          Some \<lparr>mq_message_id = dl_message_id d, mq_queue = dl_queue d, mq_tenant_id = dl_tenant_id d,
                mq_workspace_scope = dl_workspace_scope d, mq_dedupe_key = None,
                mq_payload_json = dl_payload_json d, mq_attempt_count = 0, mq_last_error = None,
                mq_status = Pending, mq_visible_at_us = at, mq_claimed_by = None,
                mq_claimed_until_us = None, mq_created_at_us = at, mq_updated_at_us = at\<rparr>))"


section \<open>The invariant of the queue\<close>

definition dedupe_ok :: "DurableQueueMessage list \<Rightarrow> bool" where
  "dedupe_ok ms = (\<forall>m\<in>set ms. \<forall>r\<in>set ms. dedupe_clash m r \<longrightarrow> mq_message_id m = mq_message_id r)"

definition claim_marked :: "DurableQueueMessage \<Rightarrow> bool" where
  "claim_marked m = (mq_status m = Claimed \<longleftrightarrow> mq_claimed_by m \<noteq> None)"

definition is_dead :: "DurableQueueMessage list \<Rightarrow> string \<Rightarrow> bool" where
  "is_dead ms k = (case find_by mq_message_id k ms of
     None \<Rightarrow> False | Some m \<Rightarrow> mq_status m = DeadLetter)"

definition queue_inv :: "queue_store \<Rightarrow> bool" where
  "queue_inv st =
    (unique_keys mq_message_id (messages st) \<and> dedupe_ok (messages st) \<and>
     unique_keys dl_dlq_id (dlq st) \<and> unique_keys dl_message_id (dlq st) \<and>
     (\<forall>k. k \<in> dl_message_id ` set (dlq st) \<longleftrightarrow> is_dead (messages st) k) \<and>
     (\<forall>k m. find_by mq_message_id k (messages st) = Some m \<longrightarrow>
        claim_marked m))"

text \<open>The steps of the queue under its callers' discipline: producers enqueue pending
  messages, and a worker acks or fails only a message it has claimed.\<close>

inductive queue_step :: "queue_store \<Rightarrow> queue_store \<Rightarrow> bool" where
  step_enqueue: "mq_status m = Pending \<Longrightarrow> mq_claimed_by m = None \<Longrightarrow>
    queue_step st (fst (enqueue_durable_message m st))"
| step_claim: "queue_step st (fst (claim_durable_message q tenant scope worker now until st))"
| step_ack: "find_by mq_message_id mid (messages st) = Some m \<Longrightarrow> mq_status m = Claimed \<Longrightarrow>
    queue_step st (ack_durable_message mid at st)"
| step_fail: "find_by mq_message_id mid (messages st) = Some m \<Longrightarrow> mq_status m = Claimed \<Longrightarrow>
    queue_step st (fst (fail_durable_message uuid mid err at retry_at max_attempts st))"
| step_replay: "queue_step st (fst (replay_durable_dlq did at st))"

inductive queue_reachable :: "queue_store \<Rightarrow> bool" where
  reach_empty: "queue_reachable \<lparr>messages = [], dlq = []\<rparr>"
| reach_step: "queue_reachable st \<Longrightarrow> queue_step st st' \<Longrightarrow> queue_reachable st'"

lemmas mark_defs = mark_claimed_def mark_acked_def mark_dead_def mark_retry_def mark_replayed_def

definition identity :: "DurableQueueMessage \<Rightarrow> string \<times> DurableQueueKind \<times> string \<times> string \<times> string option" where
  "identity m = (mq_message_id m, mq_queue m, mq_tenant_id m, mq_workspace_scope m, mq_dedupe_key m)"

lemma identity_marks [simp]:
  "identity (mark_claimed w n u m) = identity m" "identity (mark_acked t m) = identity m"
  "identity (mark_dead e a t m) = identity m" "identity (mark_retry e a r t m) = identity m"
  "identity (mark_replayed t m) = identity m"
  by (simp_all add: identity_def mark_defs)

lemma id_marks [simp]:
  "mq_message_id (mark_claimed w n u m) = mq_message_id m"
  "mq_message_id (mark_acked t m) = mq_message_id m"
  "mq_message_id (mark_dead e a t m) = mq_message_id m"
  "mq_message_id (mark_retry e a r t m) = mq_message_id m"
  "mq_message_id (mark_replayed t m) = mq_message_id m"
  by (simp_all add: mark_defs)

lemma status_marks [simp]:
  "mq_status (mark_claimed w n u m) = Claimed" "mq_claimed_by (mark_claimed w n u m) = Some w"
  "mq_status (mark_acked t m) = Acked" "mq_claimed_by (mark_acked t m) = None"
  "mq_status (mark_dead e a t m) = DeadLetter" "mq_claimed_by (mark_dead e a t m) = None"
  "mq_status (mark_retry e a r t m) = Pending" "mq_claimed_by (mark_retry e a r t m) = None"
  "mq_status (mark_replayed t m) = Pending" "mq_claimed_by (mark_replayed t m) = None"
  by (simp_all add: mark_defs)

lemma claim_marked_marks [simp]:
  "claim_marked (mark_claimed w n u m)" "claim_marked (mark_acked t m)"
  "claim_marked (mark_dead e a t m)" "claim_marked (mark_retry e a r t m)"
  "claim_marked (mark_replayed t m)"
  by (simp_all add: claim_marked_def)

lemma dedupe_clash_identity:
  "identity m = identity m' \<Longrightarrow> identity r = identity r' \<Longrightarrow> dedupe_clash m r = dedupe_clash m' r'"
  by (auto simp: identity_def dedupe_clash_def)

lemma dedupe_ok_update_where:
  assumes f: "\<And>m. identity (f m) = identity m" and ok: "dedupe_ok ms"
  shows "dedupe_ok (update_where P f ms)"
proof -
  let ?g = "\<lambda>m. if P m then f m else m"
  have g: "identity (?g m) = identity m" for m by (simp add: f)
  have gid: "mq_message_id (?g m) = mq_message_id m" for m
    using g [of m] by (simp add: identity_def split: if_splits)
  have clash: "dedupe_clash (?g m) (?g r) = dedupe_clash m r" for m r
    by (rule dedupe_clash_identity) (rule g)+
  show ?thesis
    using ok by (simp only: dedupe_ok_def set_update_where ball_simps(9) clash gid)
qed

lemma dedupe_ok_update_by:
  "(\<And>m. identity (f m) = identity m) \<Longrightarrow> dedupe_ok ms \<Longrightarrow> dedupe_ok (update_by mq_message_id k f ms)"
  unfolding update_by_where by (rule dedupe_ok_update_where)

text \<open>A message is found by its id with the status the invariant speaks of.\<close>

lemma claim_cases:
  assumes "claim_durable_message q t sc w now until st = (st', r)"
  obtains (empty) "filter (claimable q t sc now) (messages st) = []" "st' = st" "r = None"
  | (claimed) m where "m \<in> set (messages st)" "claimable q t sc now m"
      "\<And>m'. m' \<in> set (messages st) \<Longrightarrow> claimable q t sc now m' \<Longrightarrow>
         sint (mq_updated_at_us m) \<le> sint (mq_updated_at_us m')"
      "st' = st\<lparr>messages := update_where (\<lambda>r. mq_message_id r = mq_message_id m \<and> mq_status r = Pending)
         (mark_claimed w now until) (messages st)\<rparr>"
      "r = Some (mark_claimed w now until m)"
proof (cases "first_min (\<lambda>m. sint (mq_updated_at_us m)) (filter (claimable q t sc now) (messages st))")
  case None
  with assms show ?thesis
    by (auto simp: claim_durable_message_def table_simps intro: that(1))
next
  case (Some m)
  from first_min_SomeD [OF Some] have m: "m \<in> set (messages st)" "claimable q t sc now m"
    "\<And>m'. m' \<in> set (messages st) \<Longrightarrow> claimable q t sc now m' \<Longrightarrow>
         sint (mq_updated_at_us m) \<le> sint (mq_updated_at_us m')" by auto
  moreover from m have "list_ex (\<lambda>r. mq_message_id r = mq_message_id m \<and> mq_status r = Pending) (messages st)"
    by (auto simp: list_ex_iff claimable_def)
  ultimately show ?thesis
    using assms Some by (auto simp: claim_durable_message_def Let_def intro!: that(2))
qed

lemma is_dead_update_by [simp]:
  "(\<And>m. mq_message_id (f m) = mq_message_id m) \<Longrightarrow>
   is_dead (update_by mq_message_id k f ms) k' =
     (if k' = k then (case find_by mq_message_id k ms of
        None \<Rightarrow> False | Some m \<Rightarrow> mq_status (f m) = DeadLetter) else is_dead ms k')"
  by (auto simp: is_dead_def table_simps split: option.splits)

lemma is_dead_claim [simp]:
  "is_dead (update_where (\<lambda>r. mq_message_id r = i \<and> mq_status r = Pending) (mark_claimed w n u) ms) k
     = is_dead ms k"
  by (auto simp: is_dead_def table_simps split: option.splits)

lemma is_dead_snoc [simp]:
  "mq_message_id m \<notin> keys_of mq_message_id ms \<Longrightarrow>
   is_dead (ms @ [m]) k = (if k = mq_message_id m then mq_status m = DeadLetter else is_dead ms k)"
  using find_by_None_iff [of mq_message_id "mq_message_id m" ms]
  by (auto simp: is_dead_def table_simps split: option.splits)

lemma is_dead_found:
  "find_by mq_message_id k ms = Some m \<Longrightarrow> is_dead ms k = (mq_status m = DeadLetter)"
  by (simp add: is_dead_def)

lemma claim_marked_snoc:
  "(\<forall>k m. find_by mq_message_id k ms = Some m \<longrightarrow> claim_marked m) \<Longrightarrow> claim_marked m' \<Longrightarrow>
   find_by mq_message_id k (ms @ [m']) = Some m \<Longrightarrow> claim_marked m"
  by (auto simp: table_simps split: option.splits if_splits)

lemma dedupe_ok_snoc:
  assumes ok: "dedupe_ok ms" and no: "\<not> list_ex (dedupe_clash m) ms"
  shows "dedupe_ok (ms @ [m])"
proof -
  have "\<not> dedupe_clash m r \<and> \<not> dedupe_clash r m" if "r \<in> set ms" for r
    using no that by (auto simp: list_ex_iff dedupe_clash_def)
  with ok show ?thesis by (auto simp: dedupe_ok_def)
qed

text \<open>Every operation keeps the invariant.\<close>

lemma inv_enqueue:
  assumes "queue_inv st" "mq_status m = Pending" "mq_claimed_by m = None"
  shows "queue_inv (fst (enqueue_durable_message m st))"
proof (cases "snd (enqueue_durable_message m st)")
  case False
  then show ?thesis using assms by (auto simp: enqueue_durable_message_def split: if_splits)
next
  case True
  then have new: "mq_message_id m \<notin> keys_of mq_message_id (messages st)"
    "\<not> list_ex (dedupe_clash m) (messages st)"
    "fst (enqueue_durable_message m st) = st\<lparr>messages := messages st @ [m]\<rparr>"
    by (auto simp: enqueue_durable_message_def has_key_iff split: if_splits)
  have "\<not> is_dead (messages st) (mq_message_id m)"
    using new(1) find_by_None_iff [of mq_message_id "mq_message_id m" "messages st"]
    by (simp add: is_dead_def)
  moreover have "claim_marked m" using assms(2,3) by (simp add: claim_marked_def)
  moreover have "dedupe_ok (messages st @ [m])"
    using assms(1) new(2) by (auto simp: queue_inv_def intro: dedupe_ok_snoc)
  ultimately show ?thesis
    using assms new(1,3) claim_marked_snoc [of "messages st" m]
    by (simp add: queue_inv_def)
qed

lemma inv_claim:
  assumes inv: "queue_inv st"
  shows "queue_inv (fst (claim_durable_message q t sc w now until st))"
proof -
  obtain st' r where c: "claim_durable_message q t sc w now until st = (st', r)" by fastforce
  from c show ?thesis
  proof (cases rule: claim_cases)
    case (claimed m)
    with inv c show ?thesis
      by (auto simp: queue_inv_def table_simps intro!: dedupe_ok_update_where split: if_splits)
  qed (use inv c in simp)
qed

lemma inv_ack:
  assumes "queue_inv st" "find_by mq_message_id mid (messages st) = Some m" "mq_status m = Claimed"
  shows "queue_inv (ack_durable_message mid at st)"
  using assms
  by (auto simp: queue_inv_def ack_durable_message_def table_simps is_dead_found
      intro!: dedupe_ok_update_by)

lemma inv_fail:
  assumes "queue_inv st" "find_by mq_message_id mid (messages st) = Some m" "mq_status m = Claimed"
  shows "queue_inv (fst (fail_durable_message uuid mid err at retry_at mx st))"
proof -
  have "mid \<notin> dl_message_id ` set (dlq st)"
    using assms by (auto simp: queue_inv_def is_dead_found)
  moreover have "mq_message_id m = mid"
    using find_by_SomeD [OF assms(2)] by simp
  ultimately show ?thesis
    using assms
    by (auto simp: queue_inv_def fail_durable_message_def table_simps dlq_record_def is_dead_found
        Let_def intro!: dedupe_ok_update_by)
qed

lemma inv_replay:
  assumes "queue_inv st"
  shows "queue_inv (fst (replay_durable_dlq did at st))"
proof (cases "find_by dl_dlq_id did (dlq st)")
  case None
  with assms show ?thesis by (simp add: replay_durable_dlq_def)
next
  case (Some d)
  from find_by_SomeD [OF this] have d: "d \<in> set (dlq st)" "dl_dlq_id d = did" by auto
  have "dl_message_id ` set (delete_by dl_dlq_id did (dlq st)) = dl_message_id ` set (dlq st) - {dl_message_id d}"
    using assms d by (auto simp: queue_inv_def delete_by_def dest: unique_keys_eq)
  moreover have "unique_keys dl_message_id (delete_by dl_dlq_id did (dlq st))"
    using assms by (simp add: queue_inv_def delete_by_def distinct_map_filter)
  ultimately show ?thesis
    using assms Some
    by (auto simp: queue_inv_def replay_durable_dlq_def table_simps
        intro!: dedupe_ok_update_by split: option.splits)
qed

lemma inv_step: "queue_step st st' \<Longrightarrow> queue_inv st \<Longrightarrow> queue_inv st'"
  by (induction rule: queue_step.induct) (auto intro: inv_enqueue inv_claim inv_ack inv_fail inv_replay)

lemma inv_empty: "queue_inv \<lparr>messages = [], dlq = []\<rparr>"
  by (simp add: queue_inv_def dedupe_ok_def is_dead_def)

lemma inv_reachable: "queue_reachable st \<Longrightarrow> queue_inv st"
  by (induction rule: queue_reachable.induct) (auto intro: inv_step inv_empty)


section \<open>The queue as a claim service\<close>

definition ready_messages :: "DurableQueueKind \<Rightarrow> string \<Rightarrow> string \<Rightarrow> u64 \<Rightarrow> queue_store \<Rightarrow> string set" where
  "ready_messages q t sc now st = mq_message_id ` set (filter (claimable q t sc now) (messages st))"

definition message_age :: "queue_store \<Rightarrow> string \<Rightarrow> int" where
  "message_age st k = (case find_by mq_message_id k (messages st) of
     None \<Rightarrow> 0 | Some m \<Rightarrow> sint (mq_updated_at_us m))"

definition claim_id ::
  "DurableQueueKind \<Rightarrow> string \<Rightarrow> string \<Rightarrow> string \<Rightarrow> u64 \<Rightarrow> u64 \<Rightarrow> queue_store
    \<Rightarrow> queue_store \<times> string option" where
  "claim_id q t sc w now until st = (case claim_durable_message q t sc w now until st of
     (st', r) \<Rightarrow> (st', map_option mq_message_id r))"

lemma ready_iff:
  "queue_inv st \<Longrightarrow> k \<in> ready_messages q t sc now st \<longleftrightarrow>
    (\<exists>m. find_by mq_message_id k (messages st) = Some m \<and> claimable q t sc now m)"
  by (auto simp: ready_messages_def queue_inv_def dest: find_by_SomeD find_by_unique)

lemma not_claimable_claimed: "\<not> claimable q t sc now (mark_claimed w n u m)"
  by (simp add: claimable_def)

interpretation queue: claim_service queue_inv "ready_messages q t sc now" message_age
    "claim_id q t sc w now until"
  for q t sc w now until
proof unfold_locales
  fix st st' :: queue_store and k j
  let ?claim = "claim_id q t sc w now until"
  show "finite (ready_messages q t sc now st)"
    by (simp add: ready_messages_def)
  assume inv: "queue_inv st"
  show "queue_inv (fst (?claim st))"
    using inv_claim [OF inv, of q t sc w now until] by (auto simp: claim_id_def split: prod.splits)
  show "ready_messages q t sc now st = {}" if "?claim st = (st', None)"
  proof -
    from that have "claim_durable_message q t sc w now until st = (st', None)"
      by (auto simp: claim_id_def split: prod.splits)
    then show ?thesis by (cases rule: claim_cases) (auto simp: ready_messages_def)
  qed
  assume c: "?claim st = (st', Some k)"
  then obtain m' where m': "claim_durable_message q t sc w now until st = (st', Some m')"
    and k: "k = mq_message_id m'"
    by (auto simp: claim_id_def split: prod.splits)
  have inv': "queue_inv st'" using inv_claim [OF inv] m' by (metis fst_conv)
  from m' show "k \<in> ready_messages q t sc now st \<and>
      ready_messages q t sc now st' = ready_messages q t sc now st - {k} \<and>
      (\<forall>j\<in>ready_messages q t sc now st. message_age st k \<le> message_age st j)"
  proof (cases rule: claim_cases)
    case (claimed m)
    have km: "k = mq_message_id m" using claimed k by simp
    have found: "find_by mq_message_id k (messages st) = Some m"
      using inv claimed(1) km by (simp add: queue_inv_def find_by_unique)
    have found': "find_by mq_message_id j (messages st') = map_option
        (\<lambda>r. if mq_message_id r = mq_message_id m \<and> mq_status r = Pending
             then mark_claimed w now until r else r) (find_by mq_message_id j (messages st))" for j
      using claimed(4) by (simp add: table_simps)
    have "j \<in> ready_messages q t sc now st' \<longleftrightarrow> j \<in> ready_messages q t sc now st \<and> j \<noteq> k" for j
      using found km claimed(2)
      by (auto simp: ready_iff [OF inv] ready_iff [OF inv'] found' claimable_def
          split: if_splits dest: find_by_SomeD)
    moreover have "message_age st k \<le> message_age st j" if "j \<in> ready_messages q t sc now st" for j
    proof -
      from that obtain r where r: "find_by mq_message_id j (messages st) = Some r" "claimable q t sc now r"
        by (auto simp: ready_iff [OF inv])
      then show ?thesis
        using claimed(3) [of r] found by (auto simp: message_age_def dest: find_by_SomeD)
    qed
    moreover have "k \<in> ready_messages q t sc now st"
      using found claimed(2) by (auto simp: ready_iff [OF inv])
    ultimately show ?thesis by blast
  qed simp
  assume j: "j \<in> ready_messages q t sc now st'"
  from m' show "message_age st' j = message_age st j"
  proof (cases rule: claim_cases)
    case (claimed m)
    have "find_by mq_message_id j (messages st') = map_option
        (\<lambda>r. if mq_message_id r = mq_message_id m \<and> mq_status r = Pending
             then mark_claimed w now until r else r) (find_by mq_message_id j (messages st))"
      using claimed(4) by (simp add: table_simps)
    then show ?thesis
      using j by (auto simp: message_age_def ready_iff [OF inv'] not_claimable_claimed
          split: if_splits)
  qed simp
qed

section \<open>Properties\<close>

text \<open>C4: in every state the queue can reach when workers ack or fail only what they
  claimed, message ids are unique, a message is dead-lettered exactly when one DLQ
  record names it, that record is unique, no DLQ record is an orphan, and a message
  has a claimant exactly while it is claimed.\<close>

theorem dead_letters_match_dlq:
  assumes "queue_reachable st"
  shows "unique_keys mq_message_id (messages st) \<and> unique_keys dl_message_id (dlq st) \<and>
    dl_message_id ` set (dlq st) = mq_message_id ` {m \<in> set (messages st). mq_status m = DeadLetter} \<and>
    (\<forall>m\<in>set (messages st). mq_status m = Claimed \<longleftrightarrow> mq_claimed_by m \<noteq> None)"
proof -
  have inv: "queue_inv st" using inv_reachable [OF assms] .
  then have found: "find_by mq_message_id (mq_message_id m) (messages st) = Some m"
    if "m \<in> set (messages st)" for m
    using that by (simp add: queue_inv_def find_by_unique)
  have "k \<in> dl_message_id ` set (dlq st) \<longleftrightarrow>
      k \<in> mq_message_id ` {m \<in> set (messages st). mq_status m = DeadLetter}" for k
    using inv found
    by (auto simp: queue_inv_def is_dead_def split: option.splits dest: find_by_SomeD)
  then have "dl_message_id ` set (dlq st) =
      mq_message_id ` {m \<in> set (messages st). mq_status m = DeadLetter}"
    by blast
  moreover have "\<forall>m\<in>set (messages st). mq_status m = Claimed \<longleftrightarrow> mq_claimed_by m \<noteq> None"
    using inv found by (metis queue_inv_def claim_marked_def)
  ultimately show ?thesis using inv by (simp add: queue_inv_def)
qed

definition ex_message :: "string \<Rightarrow> u64 \<Rightarrow> DurableQueueMessage" where
  "ex_message mid t = \<lparr>mq_message_id = mid, mq_queue = Outbox, mq_tenant_id = ''t'',
     mq_workspace_scope = ''w'', mq_dedupe_key = Some mid, mq_payload_json = ''{}'',
     mq_attempt_count = 0, mq_last_error = None, mq_status = Pending, mq_visible_at_us = t,
     mq_claimed_by = None, mq_claimed_until_us = None, mq_created_at_us = t, mq_updated_at_us = t\<rparr>"

definition ex_queue :: queue_store where
  "ex_queue = \<lparr>messages = [ex_message ''m1'' 5, ex_message ''m2'' 3], dlq = []\<rparr>"

lemmas ex_queue_defs = ex_queue_def ex_message_def claim_id_def claim_durable_message_def
  claimable_def mark_claimed_def update_where_def

lemma ex_queue_reachable: "queue_reachable ex_queue"
proof -
  have e: "ex_queue = fst (enqueue_durable_message (ex_message ''m2'' 3)
      (fst (enqueue_durable_message (ex_message ''m1'' 5) \<lparr>messages = [], dlq = []\<rparr>)))"
    by (simp add: ex_queue_def enqueue_durable_message_def ex_message_def has_key_def dedupe_clash_def)
  show ?thesis
    unfolding e
    by (rule reach_step [OF reach_step [OF reach_empty step_enqueue] step_enqueue])
      (simp_all add: ex_message_def)
qed

theorem dead_letters_match_dlq_witness: "unique_keys mq_message_id (messages ex_queue)"
  using dead_letters_match_dlq [OF ex_queue_reachable] by simp

text \<open>C17: repeated claims on a queue partition hand out every message that is pending
  and visible at that time exactly once, oldest update first, and nothing else; no
  message is lost or given to two workers.\<close>

theorem claims_drain_queue:
  assumes "queue_reachable st"
    and "card (ready_messages q t sc now st) \<le> n"
    and "claim_times (claim_id q t sc w now until) n st = (st', ids)"
  shows "set ids = ready_messages q t sc now st \<and> distinct ids \<and> sorted (map (message_age st) ids)"
  using queue.claims_drain [OF inv_reachable [OF assms(1)] assms(2,3)] .

theorem claims_drain_queue_witness:
  "set [''m2'', ''m1''] = ready_messages Outbox ''t'' ''w'' 9 ex_queue"
proof -
  have c: "claim_times (claim_id Outbox ''t'' ''w'' ''wk'' 9 20) 2 ex_queue =
      (fst (claim_times (claim_id Outbox ''t'' ''w'' ''wk'' 9 20) 2 ex_queue), [''m2'', ''m1''])"
    by (simp add: numeral_2_eq_2 ex_queue_defs)
  have "card (ready_messages Outbox ''t'' ''w'' 9 ex_queue) \<le> 2"
    by (simp add: ready_messages_def ex_queue_defs)
  then show ?thesis
    using claims_drain_queue [OF ex_queue_reachable _ c] by simp
qed


lemma enqueue_True_iff:
  "enqueue_durable_message m st = (st', True) \<longleftrightarrow>
    mq_message_id m \<notin> keys_of mq_message_id (messages st) \<and>
    \<not> list_ex (dedupe_clash m) (messages st) \<and> st' = st\<lparr>messages := messages st @ [m]\<rparr>"
  by (auto simp: enqueue_durable_message_def has_key_iff)

text \<open>Enqueueing is idempotent per message id and per dedupe key of a partition:
  once a message is stored, enqueueing any message with its id, or with its non-null
  dedupe key in the same partition, is ignored and leaves the queue as it is, also
  after the stored message was claimed or acknowledged.\<close>

lemma enqueue_deduplicates:
  assumes "enqueue_durable_message m st = (st1, True)"
    and "messages st2 = update_where P f (messages st1)" "\<And>r. identity (f r) = identity r"
    and "mq_message_id m' = mq_message_id m \<or>
      dedupe_clash m m'"
  shows "enqueue_durable_message m' st2 = (st2, False)"
proof -
  let ?r = "if P m then f m else m"
  have m: "?r \<in> set (messages st2)"
    using assms(1,2) by (auto simp: enqueue_True_iff set_update_where)
  have i: "identity ?r = identity m" using assms(3) by simp
  show ?thesis
  proof (cases "mq_message_id m' = mq_message_id m")
    case True
    with i have "mq_message_id ?r = mq_message_id m'" by (auto simp: identity_def split: if_splits)
    with m have "has_key mq_message_id (mq_message_id m') (messages st2)"
      by (metis has_key_iff image_eqI)
    then show ?thesis by (simp add: enqueue_durable_message_def)
  next
    case False
    then have "dedupe_clash m' m" using assms(4) by (auto simp: dedupe_clash_def)
    then have "dedupe_clash m' ?r" using dedupe_clash_identity [OF refl i [symmetric]] by metis
    with m show ?thesis by (auto simp: enqueue_durable_message_def list_ex_iff)
  qed
qed

lemma enqueue_deduplicates_example:
  "enqueue_durable_message (ex_message ''m1'' 8)
     \<lparr>messages = [mark_acked 7 (ex_message ''m1'' 5)], dlq = []\<rparr>
   = (\<lparr>messages = [mark_acked 7 (ex_message ''m1'' 5)], dlq = []\<rparr>, False)"
  by (rule enqueue_deduplicates [of "ex_message ''m1'' 5" "\<lparr>messages = [], dlq = []\<rparr>"
        "\<lparr>messages = [ex_message ''m1'' 5], dlq = []\<rparr>" _ "\<lambda>_. True" "mark_acked 7"])
    (simp_all add: enqueue_True_iff update_where_def ex_message_def)

text \<open>A claim never touches a message that is already claimed, whatever the time:
  the row stays as it is and is not handed out.  Since the code consults no claim's
  \<open>claimed_until_us\<close>, a message whose worker died stays claimed by it for ever.\<close>

lemma claimed_message_never_reclaimed:
  assumes "queue_reachable st"
    and "find_by mq_message_id mid (messages st) = Some m" "mq_status m = Claimed"
    and "claim_durable_message q t sc w now until st = (st', r)"
  shows "find_by mq_message_id mid (messages st') = Some m \<and>
    map_option mq_message_id r \<noteq> Some mid"
  using assms(4)
proof (cases rule: claim_cases)
  case empty
  with assms show ?thesis by simp
next
  case (claimed m')
  have "mid \<noteq> mq_message_id m'"
    using claimed(1,2) assms(2,3) inv_reachable [OF assms(1)]
      find_by_unique [of mq_message_id "messages st" m']
    by (auto simp: claimable_def queue_inv_def)
  with claimed assms(2) show ?thesis
    by (auto simp: table_simps dest: find_by_SomeD)
qed

lemma claimed_message_never_reclaimed_example:
  "find_by mq_message_id ''m2'' (messages (fst (claim_durable_message Outbox ''t'' ''w'' ''w2'' 1000 2000
      (fst (claim_durable_message Outbox ''t'' ''w'' ''w1'' 9 20 ex_queue))))) =
   Some (mark_claimed ''w1'' 9 20 (ex_message ''m2'' 3))"
proof -
  let ?s = "fst (claim_durable_message Outbox ''t'' ''w'' ''w1'' 9 20 ex_queue)"
  have "queue_reachable ?s"
    by (rule reach_step [OF ex_queue_reachable step_claim])
  moreover have "find_by mq_message_id ''m2'' (messages ?s) =
      Some (mark_claimed ''w1'' 9 20 (ex_message ''m2'' 3))"
    by (simp add: ex_queue_defs)
  ultimately show ?thesis
    using claimed_message_never_reclaimed [of ?s "''m2''" _ Outbox "''t''" "''w''" "''w2''" 1000 2000]
    by (metis status_marks(1) prod.collapse)
qed

text \<open>A failure counts one attempt (saturating at the u32 maximum) and clears the
  claim; the message is dead-lettered, with exactly one new DLQ record that carries its
  payload and attempt count, exactly when the count reaches the limit, and otherwise
  becomes pending again at the retry time.\<close>

lemma fail_bounds_attempts:
  assumes "find_by mq_message_id mid (messages st) = Some m"
    and "''dlq-'' @ uuid \<notin> dl_dlq_id ` set (dlq st)"
    and "fail_durable_message uuid mid err at retry_at mx st = (st', res)"
  shows "\<exists>m'. find_by mq_message_id mid (messages st') = Some m' \<and>
    unat (mq_attempt_count m') = min (unat (mq_attempt_count m) + 1) (2 ^ 32 - 1) \<and>
    mq_claimed_by m' = None \<and> mq_last_error m' = Some err \<and> mq_payload_json m' = mq_payload_json m \<and>
    (if unat mx \<le> min (unat (mq_attempt_count m) + 1) (2 ^ 32 - 1)
     then res = Ok DeadLetter \<and> mq_status m' = DeadLetter \<and>
       (\<exists>d. dlq st' = dlq st @ [d] \<and> dl_message_id d = mid \<and>
          dl_payload_json d = mq_payload_json m \<and> dl_attempt_count d = mq_attempt_count m')
     else res = Ok Pending \<and> mq_status m' = Pending \<and> mq_visible_at_us m' = retry_at \<and> dlq st' = dlq st)"
proof -
  have a: "unat (saturating_add (mq_attempt_count m) 1) = min (unat (mq_attempt_count m) + 1) (2 ^ 32 - 1)"
    by (simp add: unat_saturating_add)
  have "mq_message_id m = mid" using find_by_SomeD [OF assms(1)] by simp
  then show ?thesis
    using assms
    by (auto simp: fail_durable_message_def Let_def table_simps word_le_nat_alt a mark_defs
        dlq_record_def split: if_splits)
qed

lemma fail_bounds_attempts_example:
  "\<exists>m'. find_by mq_message_id ''m1'' (messages (fst (fail_durable_message ''u'' ''m1'' ''boom'' 10 15 3 ex_queue)))
      = Some m' \<and> unat (mq_attempt_count m') = 1"
proof -
  have "find_by mq_message_id ''m1'' (messages ex_queue) = Some (ex_message ''m1'' 5)"
    "''dlq-'' @ ''u'' \<notin> dl_dlq_id ` set (dlq ex_queue)" "unat (mq_attempt_count (ex_message ''m1'' 5)) = 0"
    by (simp_all add: ex_queue_def ex_message_def)
  then show ?thesis
    using fail_bounds_attempts [of "''m1''" ex_queue "ex_message ''m1'' 5" "''u''" "''boom''" 10 15 3, OF _ _ surjective_pairing]
    by auto
qed

text \<open>Replaying a DLQ record makes its message pending and removes the record; the
  message handed back claims zero attempts, but the stored row keeps its old count, so
  with the same limit the very next failure dead-letters it again.\<close>

lemma replay_keeps_attempt_count:
  assumes "find_by dl_dlq_id did (dlq st) = Some d"
    and "find_by mq_message_id (dl_message_id d) (messages st) = Some m"
    and "mx \<le> mq_attempt_count m"
    and "replay_durable_dlq did at st = (st', r)"
    and "''dlq-'' @ uuid \<notin> dl_dlq_id ` set (dlq st')"
  shows "map_option mq_attempt_count r = Some 0 \<and> did \<notin> dl_dlq_id ` set (dlq st') \<and>
    find_by mq_message_id (dl_message_id d) (messages st') = Some (mark_replayed at m) \<and>
    mq_attempt_count (mark_replayed at m) = mq_attempt_count m \<and>
    snd (fail_durable_message uuid (dl_message_id d) err failed_at retry_at mx st') = Ok DeadLetter"
proof -
  have "mx \<le> saturating_add (mq_attempt_count m) 1"
    using assms(3) saturating_add_ge order_trans by blast
  moreover have "st' = st\<lparr>messages := update_by mq_message_id (dl_message_id d) (mark_replayed at) (messages st),
      dlq := delete_by dl_dlq_id did (dlq st)\<rparr>" "map_option mq_attempt_count r = Some 0"
    using assms(1,4) by (auto simp: replay_durable_dlq_def)
  moreover have "find_by mq_message_id (dl_message_id d) (messages st') = Some (mark_replayed at m)"
    using assms(2) calculation(2) by (simp add: table_simps)
  moreover have "did \<notin> dl_dlq_id ` set (dlq st')"
    using calculation(2) by (simp add: keys_delete_by)
  ultimately show ?thesis
    using assms(5) by (simp add: fail_durable_message_def mark_replayed_def has_key_iff Let_def)
qed

lemma replay_keeps_attempt_count_example:
  "snd (fail_durable_message ''u2'' ''m1'' ''boom'' 30 40 1 (fst (replay_durable_dlq ''dlq-u'' 20
      (fst (fail_durable_message ''u'' ''m1'' ''boom'' 10 15 1 ex_queue))))) = Ok DeadLetter"
proof -
  let ?s = "fst (fail_durable_message ''u'' ''m1'' ''boom'' 10 15 1 ex_queue)"
  have a: "saturating_add 0 (1 :: u32) = 1" by (simp add: saturating_add_def)
  have s: "?s = \<lparr>messages = [mark_dead ''boom'' 1 10 (ex_message ''m1'' 5), ex_message ''m2'' 3],
      dlq = [dlq_record ''dlq-u'' ''boom'' 1 10 (ex_message ''m1'' 5)]\<rparr>"
    by (simp add: fail_durable_message_def ex_queue_def ex_message_def has_key_def a update_by_def
        mark_dead_def dlq_record_def)
  have "find_by dl_dlq_id ''dlq-u'' (dlq ?s) = Some (dlq_record ''dlq-u'' ''boom'' 1 10 (ex_message ''m1'' 5))"
    "find_by mq_message_id (dl_message_id (dlq_record ''dlq-u'' ''boom'' 1 10 (ex_message ''m1'' 5))) (messages ?s)
      = Some (mark_dead ''boom'' 1 10 (ex_message ''m1'' 5))"
    "(1 :: u32) \<le> mq_attempt_count (mark_dead ''boom'' 1 10 (ex_message ''m1'' 5))"
    "''dlq-'' @ ''u2'' \<notin> dl_dlq_id ` set (dlq (fst (replay_durable_dlq ''dlq-u'' 20 ?s)))"
    by (simp_all add: s dlq_record_def mark_dead_def ex_message_def replay_durable_dlq_def delete_by_def)
  from replay_keeps_attempt_count [OF this(1,2,3) surjective_pairing this(4)]
  show ?thesis by (simp add: dlq_record_def ex_message_def)
qed

text \<open>The names stored for queue kinds and statuses parse back to the value, and
  only those names parse.\<close>

lemma queue_names_roundtrip:
  "(parse_queue_kind v = Ok k \<longleftrightarrow> v = queue_kind_name k) \<and>
   (parse_queue_status v = Ok s \<longleftrightarrow> v = queue_status_name s)"
  by (cases k; cases s) (auto simp: parse_queue_kind_def parse_queue_status_def)

end
