(* ===== verification/Leases.thy ===== *)
theory Leases
  imports Contracts
begin

text \<open>Leases of the runtime store (\<open>aria-x/src/runtime_store/outbound.rs\<close>): job leases
  and resource leases with fencing tokens; their clients: scheduler leadership and job
  claims (\<open>aria-x/src/scheduler.rs\<close>), the retry loop, the shared quota slots and the
  compaction guard (\<open>aria-x/src/tools.rs\<close>).  Every acquisition is one transaction.\<close>

section \<open>State\<close>

record JobLease =
  jl_job_id :: string
  jl_worker_id :: string
  jl_lease_until_us :: int
  jl_updated_at_us :: int

record ResourceLease =
  rl_resource_key :: string
  rl_lock_mode :: string
  rl_holder_id :: string
  rl_fencing_token :: int
  rl_lease_until_us :: int
  rl_updated_at_us :: int

record lease_store =
  job_leases :: "JobLease list"
  resource_leases :: "ResourceLease list"

section \<open>Operations of the store\<close>

definition try_acquire_job_lease ::
  "string \<Rightarrow> string \<Rightarrow> u64 \<Rightarrow> u64 \<Rightarrow> lease_store \<Rightarrow> lease_store \<times> bool" where
  "try_acquire_job_lease job worker now until st =
    (let can_acquire = (case find_by jl_job_id job (job_leases st) of
           None \<Rightarrow> True
         | Some l \<Rightarrow> jl_worker_id l = worker \<or> jl_lease_until_us l \<le> sint now) in
     if \<not> can_acquire then (st, False)
     else (st\<lparr>job_leases := upsert_by jl_job_id
             \<lparr>jl_job_id = job, jl_worker_id = worker, jl_lease_until_us = sint until,
              jl_updated_at_us = sint now\<rparr> (job_leases st)\<rparr>, True))"

definition release_job_lease :: "string \<Rightarrow> string \<Rightarrow> lease_store \<Rightarrow> lease_store" where
  "release_job_lease job worker st =
    st\<lparr>job_leases := filter (\<lambda>l. \<not> (jl_job_id l = job \<and> jl_worker_id l = worker)) (job_leases st)\<rparr>"

definition clear_job_lease :: "string \<Rightarrow> lease_store \<Rightarrow> lease_store" where
  "clear_job_lease job st = st\<lparr>job_leases := delete_by jl_job_id job (job_leases st)\<rparr>"

text \<open>\<open>(existing_token.max(0) as u64).saturating_add(1)\<close>, stored back as an \<open>i64\<close>.\<close>

definition next_token :: "int \<Rightarrow> u64" where
  "next_token existing = saturating_add (of_int (max existing 0)) 1"

definition try_acquire_resource_lease ::
  "string \<Rightarrow> string \<Rightarrow> string \<Rightarrow> u64 \<Rightarrow> u64 \<Rightarrow> lease_store \<Rightarrow> lease_store \<times> u64 option" where
  "try_acquire_resource_lease key mode holder now until st =
    (let (can_acquire, token) = (case find_by rl_resource_key key (resource_leases st) of
           None \<Rightarrow> (True, 1)
         | Some l \<Rightarrow> if rl_holder_id l = holder \<or> rl_lease_until_us l \<le> sint now
                    then (True, next_token (rl_fencing_token l)) else (False, 0)) in
     if \<not> can_acquire then (st, None)
     else (st\<lparr>resource_leases := upsert_by rl_resource_key
             \<lparr>rl_resource_key = key, rl_lock_mode = mode, rl_holder_id = holder,
              rl_fencing_token = sint token, rl_lease_until_us = sint until,
              rl_updated_at_us = sint now\<rparr> (resource_leases st)\<rparr>, Some token))"

definition release_resource_lease :: "string \<Rightarrow> string \<Rightarrow> u64 \<Rightarrow> lease_store \<Rightarrow> lease_store" where
  "release_resource_lease key holder token st =
    st\<lparr>resource_leases := filter (\<lambda>l. \<not> (rl_resource_key l = key \<and> rl_holder_id l = holder \<and>
         rl_fencing_token l = sint token)) (resource_leases st)\<rparr>"

section \<open>Clients\<close>

datatype AgentClass = Generalist | Specialist | Restricted | Notifier | RoboticsPlanner

text \<open>\<open>OrchestratorError\<close> as far as these clients raise it.\<close>

datatype LeaseError = ToolError string | BackendOverloaded string

record ResourceLeaseClaim =
  lc_resource_key :: string
  lc_holder_id :: string
  lc_fencing_token :: u64

text \<open>\<open>Drop for ResourceLeaseClaim\<close>.\<close>

definition drop_claim :: "ResourceLeaseClaim \<Rightarrow> lease_store \<Rightarrow> lease_store" where
  "drop_claim c = release_resource_lease (lc_resource_key c) (lc_holder_id c) (lc_fencing_token c)"

text \<open>The end of a lease of \<open>ttl\<close> seconds; the release build's u64 arithmetic wraps.\<close>

definition lease_end :: "u64 \<Rightarrow> u64 \<Rightarrow> u64" where
  "lease_end now ttl = now + max ttl 1 * 1000000"

definition try_acquire_scheduler_leadership ::
  "string \<Rightarrow> nat \<Rightarrow> u64 \<Rightarrow> u64 \<Rightarrow> lease_store \<Rightarrow> lease_store \<times> bool" where
  "try_acquire_scheduler_leadership worker shard ttl now st =
    (case try_acquire_resource_lease (''scheduler:leader:'' @ show_nat shard) ''exclusive'' worker now
            (lease_end now ttl) st of
       (st', r) \<Rightarrow> (st', r \<noteq> None))"

definition try_claim_scheduler_job_execution ::
  "string \<Rightarrow> string \<Rightarrow> u64 \<Rightarrow> u64 \<Rightarrow> lease_store \<Rightarrow> lease_store \<times> bool" where
  "try_claim_scheduler_job_execution worker job ttl now st =
    try_acquire_job_lease job worker now (lease_end now ttl) st"

text \<open>The retry loop: \<open>clock i\<close> is the time read in attempt \<open>i\<close>, \<open>others i\<close> what the
  other processes do to the store while attempt \<open>i\<close>'s sleep lasts.\<close>

fun retry_loop ::
  "(nat \<Rightarrow> u64) \<Rightarrow> (nat \<Rightarrow> lease_store \<Rightarrow> lease_store) \<Rightarrow> string \<Rightarrow> string \<Rightarrow> u64 \<Rightarrow> string
    \<Rightarrow> nat \<Rightarrow> nat \<Rightarrow> lease_store \<Rightarrow> lease_store \<times> (LeaseError, ResourceLeaseClaim) result" where
  "retry_loop clock others key holder ttl busy attempt 0 st = (st, Err (ToolError busy))"
| "retry_loop clock others key holder ttl busy attempt (Suc left) st =
    (case try_acquire_resource_lease key ''exclusive'' holder (clock attempt)
            (lease_end (clock attempt) ttl) st of
       (st', Some token) \<Rightarrow> (st', Ok \<lparr>lc_resource_key = key, lc_holder_id = holder, lc_fencing_token = token\<rparr>)
     | (st', None) \<Rightarrow>
         if 0 < left then retry_loop clock others key holder ttl busy (Suc attempt) left (others attempt st')
         else (st', Err (ToolError busy)))"

definition acquire_resource_lease_with_retry ::
  "(nat \<Rightarrow> u64) \<Rightarrow> (nat \<Rightarrow> lease_store \<Rightarrow> lease_store) \<Rightarrow> string \<Rightarrow> string \<Rightarrow> u64 \<Rightarrow> u32 \<Rightarrow> string
    \<Rightarrow> lease_store \<Rightarrow> lease_store \<times> (LeaseError, ResourceLeaseClaim) result" where
  "acquire_resource_lease_with_retry clock others key holder ttl attempts busy st =
    retry_loop clock others key holder ttl busy 0 (unat (max attempts 1)) st"

definition quota_key :: "string \<Rightarrow> nat \<Rightarrow> string" where
  "quota_key scope slot = ''quota:'' @ scope @ '':slot:'' @ show_nat slot"

fun quota_loop ::
  "(nat \<Rightarrow> u64) \<Rightarrow> string \<Rightarrow> string \<Rightarrow> u64 \<Rightarrow> nat \<Rightarrow> nat \<Rightarrow> lease_store
    \<Rightarrow> lease_store \<times> (LeaseError, ResourceLeaseClaim) result" where
  "quota_loop clock scope holder ttl slot 0 st =
    (st, Err (BackendOverloaded (''system busy: shared quota exhausted for '' @ scope)))"
| "quota_loop clock scope holder ttl slot (Suc left) st =
    (case acquire_resource_lease_with_retry (\<lambda>_. clock slot) (\<lambda>_ s. s) (quota_key scope slot) holder ttl 1
            (''shared quota busy for '' @ scope) st of
       (st', Inr claim) \<Rightarrow> (st', Ok claim)
     | (st', Inl _) \<Rightarrow> quota_loop clock scope holder ttl (Suc slot) left st')"

definition acquire_shared_quota_claim ::
  "(nat \<Rightarrow> u64) \<Rightarrow> string \<Rightarrow> nat \<Rightarrow> string \<Rightarrow> u64 \<Rightarrow> lease_store
    \<Rightarrow> lease_store \<times> (LeaseError, ResourceLeaseClaim) result" where
  "acquire_shared_quota_claim clock scope limit holder ttl st =
    quota_loop clock scope holder ttl 0 (max limit 1) st"

definition shared_channel_quota_limit :: "nat \<Rightarrow> nat" where
  "shared_channel_quota_limit global_limit = min (max global_limit 1) 4"

fun shared_agent_class_quota_limit :: "nat \<Rightarrow> AgentClass \<Rightarrow> nat" where
  "shared_agent_class_quota_limit g Restricted = 1"
| "shared_agent_class_quota_limit g Notifier = 1"
| "shared_agent_class_quota_limit g Specialist = min (max g 1) 2"
| "shared_agent_class_quota_limit g RoboticsPlanner = min (max g 1) 2"
| "shared_agent_class_quota_limit g Generalist = min (max g 1) 3"

definition shared_user_quota_limit :: "nat \<Rightarrow> nat" where
  "shared_user_quota_limit global_limit = min (max global_limit 1) 2"

text \<open>The compaction guard: a per-process set of sessions under compaction in front of
  the lease.  \<open>instance\<close> is the runtime instance id.\<close>

record compaction_state =
  in_flight :: "string list"
  leases :: lease_store

definition try_mark_compaction_inflight ::
  "string \<Rightarrow> string \<Rightarrow> u64 \<Rightarrow> compaction_state \<Rightarrow> compaction_state \<times> ResourceLeaseClaim option" where
  "try_mark_compaction_inflight instance session now cs =
    (if session \<in> set (in_flight cs) then (cs, None)
     else let key = ''compaction:'' @ session; holder = ''compaction-worker:'' @ instance in
       case try_acquire_resource_lease key ''exclusive'' holder now (now + 15 * 60 * 1000000) (leases cs) of
         (st', Some token) \<Rightarrow> (\<lparr>in_flight = session # in_flight cs, leases = st'\<rparr>,
             Some \<lparr>lc_resource_key = key, lc_holder_id = holder, lc_fencing_token = token\<rparr>)
       | (st', None) \<Rightarrow> (\<lparr>in_flight = removeAll session (session # in_flight cs), leases = st'\<rparr>, None))"

definition clear_compaction_inflight ::
  "string \<Rightarrow> ResourceLeaseClaim \<Rightarrow> compaction_state \<Rightarrow> compaction_state" where
  "clear_compaction_inflight session claim cs =
    \<lparr>in_flight = removeAll session (in_flight cs), leases = drop_claim claim (leases cs)\<rparr>"

section \<open>Both tables as lease services\<close>

definition job_holder :: "lease_store \<Rightarrow> string \<Rightarrow> (string \<times> int) option" where
  "job_holder st k = map_option (\<lambda>l. (jl_worker_id l, jl_lease_until_us l)) (find_by jl_job_id k (job_leases st))"

definition resource_holder :: "lease_store \<Rightarrow> string \<Rightarrow> (string \<times> int) option" where
  "resource_holder st k =
    map_option (\<lambda>l. (rl_holder_id l, rl_lease_until_us l)) (find_by rl_resource_key k (resource_leases st))"

definition acquire_resource :: "string \<Rightarrow> string \<Rightarrow> u64 \<Rightarrow> u64 \<Rightarrow> lease_store \<Rightarrow> lease_store \<times> bool" where
  "acquire_resource k w now until st =
    (case try_acquire_resource_lease k ''exclusive'' w now until st of (st', r) \<Rightarrow> (st', r \<noteq> None))"

lemma find_by_filter_other:
  "find_by key k ls = Some l \<Longrightarrow> P l \<Longrightarrow> find_by key k (filter P ls) = Some l"
  by (induction ls) (auto split: if_splits)

lemma job_release_other:
  assumes "job_holder st j = Some (w', e)" "k \<noteq> j \<or> w \<noteq> w'"
  shows "job_holder (release_job_lease k w st) j = Some (w', e)"
proof -
  from assms(1) obtain l where l: "find_by jl_job_id j (job_leases st) = Some l"
    "jl_worker_id l = w'" "jl_lease_until_us l = e"
    by (auto simp: job_holder_def)
  with assms(2) have "find_by jl_job_id j (job_leases (release_job_lease k w st)) = Some l"
    by (auto simp: release_job_lease_def intro!: find_by_filter_other dest: find_by_SomeD)
  with l show ?thesis by (simp add: job_holder_def)
qed

lemma resource_release_keeps:
  assumes "find_by rl_resource_key j (resource_leases st) = Some l"
    and "k \<noteq> j \<or> w \<noteq> rl_holder_id l \<or> rl_fencing_token l \<noteq> sint t"
  shows "find_by rl_resource_key j (resource_leases (release_resource_lease k w t st)) = Some l"
  using assms find_by_SomeD [OF assms(1)]
  by (auto simp: release_resource_lease_def intro!: find_by_filter_other)

lemma resource_release_other:
  assumes "resource_holder st j = Some (w', e)" "k \<noteq> j \<or> w \<noteq> w'"
  shows "resource_holder (release_resource_lease k w t st) j = Some (w', e)"
proof -
  from assms(1) obtain l where l: "find_by rl_resource_key j (resource_leases st) = Some l"
    "rl_holder_id l = w'" "rl_lease_until_us l = e"
    by (auto simp: resource_holder_def)
  with assms(2) resource_release_keeps [OF l(1), of k w t] show ?thesis
    by (auto simp: resource_holder_def)
qed

interpretation job: releasable_lease_service job_holder try_acquire_job_lease
    "\<lambda>k w (_ :: unit). release_job_lease k w"
proof unfold_locales
  fix k w now until st st' j w' e t
  show "snd (try_acquire_job_lease k w now until st) \<longleftrightarrow>
      (case job_holder st k of None \<Rightarrow> True | Some (h, e) \<Rightarrow> h = w \<or> e \<le> sint now)"
    by (auto simp: job_holder_def try_acquire_job_lease_def Let_def split: option.splits)
  show "job_holder st' j = (if j = k then Some (w, sint until) else job_holder st j)"
    if "try_acquire_job_lease k w now until st = (st', True)"
    using that
    by (auto simp: job_holder_def try_acquire_job_lease_def Let_def table_simps split: if_splits)
  show "st' = st" if "try_acquire_job_lease k w now until st = (st', False)"
    using that by (auto simp: try_acquire_job_lease_def Let_def split: if_splits)
qed (rule job_release_other)

interpretation resource: releasable_lease_service resource_holder acquire_resource release_resource_lease
proof unfold_locales
  fix k w now until st st' j w' e t
  show "snd (acquire_resource k w now until st) \<longleftrightarrow>
      (case resource_holder st k of None \<Rightarrow> True | Some (h, e) \<Rightarrow> h = w \<or> e \<le> sint now)"
    by (auto simp: resource_holder_def acquire_resource_def try_acquire_resource_lease_def Let_def
        split: option.splits)
  show "resource_holder st' j = (if j = k then Some (w, sint until) else resource_holder st j)"
    if "acquire_resource k w now until st = (st', True)"
    using that
    by (auto simp: resource_holder_def acquire_resource_def try_acquire_resource_lease_def Let_def
        table_simps split: if_splits option.splits)
  show "st' = st" if "acquire_resource k w now until st = (st', False)"
    using that
    by (auto simp: acquire_resource_def try_acquire_resource_lease_def Let_def split: if_splits option.splits)
qed (rule resource_release_other)

section \<open>Fencing tokens\<close>

definition token_of :: "lease_store \<Rightarrow> string \<Rightarrow> int" where
  "token_of st k = (case find_by rl_resource_key k (resource_leases st) of
     None \<Rightarrow> 0 | Some l \<Rightarrow> rl_fencing_token l)"

lemma next_token_Suc:
  assumes "0 \<le> t" "t < 2 ^ 63 - 1"
  shows "sint (next_token t) = t + 1" "uint (next_token t) = t + 1"
proof -
  have u: "uint (of_int t :: u64) = t"
    using assms by (simp add: uint_word_of_int)
  have un: "unat (of_int t :: u64) = nat t"
    by (simp only: unat_eq_nat_uint u)
  have "unat (next_token t) = min (nat t + 1) (2 ^ 64 - 1)"
    using assms(1) by (simp add: next_token_def unat_saturating_add un max_def)
  moreover have "nat t + 1 \<le> 2 ^ 64 - 1"
    using assms by simp
  ultimately have "unat (next_token t) = nat t + 1" by simp
  then show U: "uint (next_token t) = t + 1"
    using assms(1) by (simp add: uint_nat)
  have "signed_take_bit 63 (t + 1) = t + 1"
    using assms by (intro signed_take_bit_int_eq_self) auto
  then show "sint (next_token t) = t + 1"
    using U by (simp add: sint_uint)
qed

lemma acquire_token:
  assumes "try_acquire_resource_lease k m w now until st = (st', Some t)"
    and "0 \<le> token_of st k" "token_of st k < 2 ^ 63 - 1"
  shows "uint t = token_of st k + 1" "token_of st' k = token_of st k + 1"
proof -
  have one: "sint (1 :: u64) = 1" by simp
  show "uint t = token_of st k + 1" "token_of st' k = token_of st k + 1"
    using assms next_token_Suc [of "token_of st k"] one
    by (auto simp: try_acquire_resource_lease_def token_of_def Let_def table_simps
        split: option.splits if_splits)
qed

lemma acquire_token_le:
  assumes "0 \<le> token_of st j" "token_of st j < 2 ^ 63 - 1"
  shows "token_of st j \<le> token_of (fst (acquire_resource k w now until st)) j"
    and "token_of (fst (acquire_resource k w now until st)) j \<le> token_of st j + 1"
proof -
  obtain st' r where r: "try_acquire_resource_lease k ''exclusive'' w now until st = (st', r)" by fastforce
  have a: "fst (acquire_resource k w now until st) = st'"
    using r by (simp add: acquire_resource_def)
  have "token_of st' j = token_of st j" if "j \<noteq> k \<or> r = None"
    using r that
    by (auto simp: try_acquire_resource_lease_def token_of_def Let_def table_simps
        split: option.splits if_splits)
  moreover have "token_of st' j = token_of st j + 1" if "j = k" "r \<noteq> None"
    using r that assms acquire_token by blast
  ultimately show "token_of st j \<le> token_of (fst (acquire_resource k w now until st)) j"
    "token_of (fst (acquire_resource k w now until st)) j \<le> token_of st j + 1"
    unfolding a by (cases "j = k \<and> r \<noteq> None"; simp)+
qed

lemma tokens_along:
  assumes "0 \<le> token_of st k" "token_of st k + int (length rs) < 2 ^ 63"
  shows "token_of st k \<le> token_of (fold (serve acquire_resource) rs st) k \<and>
    token_of (fold (serve acquire_resource) rs st) k \<le> token_of st k + int (length rs)"
  using assms
proof (induction rs arbitrary: st)
  case (Cons r rs)
  obtain k' w now until where r: "r = (k', w, now, until)" by (cases r)
  let ?s = "serve acquire_resource r st"
  have "token_of st k \<le> token_of ?s k" "token_of ?s k \<le> token_of st k + 1"
    using acquire_token_le [of st k k' w now until] Cons.prems r by (auto simp: serve_def)
  with Cons.IH [of ?s] Cons.prems show ?case by auto
qed simp

section \<open>Properties\<close>

text \<open>C18: a resource lease is exclusive until it ends: whatever sequence of acquisitions
  of any keys and of releases the other holders issue before that time, the lease stays
  with its holder, and a request by anybody else for it is refused and changes nothing.
  Scheduler leadership per shard is this lease.\<close>

theorem resource_lease_exclusive:
  assumes "acquire_resource k w now until st = (st1, True)"
    and "list_all (rival_op k w (sint until)) ops"
    and "w' \<noteq> w" "sint now' < sint until"
  shows "let st2 = fold (run_lease_op acquire_resource release_resource_lease) ops st1 in
    resource_holder st2 k = Some (w, sint until) \<and> acquire_resource k w' now' until' st2 = (st2, False)"
proof -
  have "resource_holder st1 k = Some (w, sint until)"
    using resource.granted [OF assms(1)] by simp
  from resource.lease_survives [OF this assms(2)] resource.other_refused [OF _ assms(3,4)]
  show ?thesis by (simp add: Let_def)
qed

definition ex_leases :: lease_store where
  "ex_leases = \<lparr>job_leases = [], resource_leases = []\<rparr>"

lemmas ex_lease_defs = ex_leases_def acquire_resource_def try_acquire_resource_lease_def
  upsert_by_def has_key_def update_by_def next_token_def saturating_add_def

theorem resource_lease_exclusive_witness:
  "acquire_resource ''r'' ''b'' 4 30
     (fst (acquire_resource ''r'' ''a'' 1 9 ex_leases)) = (fst (acquire_resource ''r'' ''a'' 1 9 ex_leases), False)"
proof -
  have "acquire_resource ''r'' ''a'' 1 9 ex_leases = (fst (acquire_resource ''r'' ''a'' 1 9 ex_leases), True)"
    by (simp add: ex_lease_defs)
  from resource_lease_exclusive [OF this, of "[ReleaseOp ''r'' ''b'' 1]" "''b''" 4 30]
  show ?thesis by (simp add: release_resource_lease_def ex_lease_defs)
qed

text \<open>The same for job leases: while a worker's lease runs, no other worker claims the
  job, whatever acquisitions and releases the others issue; once it has ended, anybody
  may take it over.\<close>

lemma job_lease_exclusive:
  assumes "try_acquire_job_lease k w now until st = (st1, True)"
    and "list_all (rival_op k w (sint until)) ops" "w' \<noteq> w"
  shows "let st2 = fold (run_lease_op try_acquire_job_lease (\<lambda>k w (_ :: unit). release_job_lease k w)) ops st1 in
    snd (try_acquire_job_lease k w' now' until' st2) = (sint until \<le> sint now')"
proof -
  have "job_holder st1 k = Some (w, sint until)"
    using job.granted [OF assms(1)] by simp
  from job.lease_survives [OF this assms(2)] assms(3) show ?thesis
    by (simp add: Let_def job.granted_iff)
qed

lemma job_lease_exclusive_example:
  "snd (try_acquire_job_lease ''j'' ''b'' 4 30 (fst (try_acquire_job_lease ''j'' ''a'' 1 9 ex_leases))) = False"
proof -
  have "try_acquire_job_lease ''j'' ''a'' 1 9 ex_leases =
      (fst (try_acquire_job_lease ''j'' ''a'' 1 9 ex_leases), True)"
    by (simp add: try_acquire_job_lease_def ex_leases_def)
  from job_lease_exclusive [OF this, of "[]" "''b''" 4 30] show ?thesis by simp
qed

text \<open>As long as nobody releases, fencing tokens only grow: a later grant of the
  resource, after any acquisitions by anybody, carries a strictly larger token (below the
  i64 limit).\<close>

lemma fencing_tokens_increase:
  assumes "try_acquire_resource_lease k m w now until st = (st1, Some t1)"
    and "try_acquire_resource_lease k m' w' now' until' (fold (serve acquire_resource) rs st1) = (st2, Some t2)"
    and "0 \<le> token_of st k" "token_of st k + int (length rs) + 2 < 2 ^ 63"
  shows "t1 < t2"
proof -
  have t1: "uint t1 = token_of st k + 1" "token_of st1 k = token_of st k + 1"
    using acquire_token [OF assms(1,3)] assms(4) by auto
  have m: "token_of st1 k \<le> token_of (fold (serve acquire_resource) rs st1) k"
    "token_of (fold (serve acquire_resource) rs st1) k \<le> token_of st1 k + int (length rs)"
    using tokens_along [of st1 k rs] t1 assms(3,4) by auto
  have "uint t2 = token_of (fold (serve acquire_resource) rs st1) k + 1"
    using acquire_token(1) [OF assms(2)] m t1 assms(3,4) by auto
  with m t1 show ?thesis by (simp add: word_less_def)
qed

lemma fencing_tokens_increase_example:
  "\<exists>t2. snd (try_acquire_resource_lease ''r'' ''exclusive'' ''b'' 12 19
      (fst (try_acquire_resource_lease ''r'' ''exclusive'' ''a'' 1 9 ex_leases))) = Some t2 \<and> 1 < t2"
proof -
  have a: "try_acquire_resource_lease ''r'' ''exclusive'' ''a'' 1 9 ex_leases =
      (fst (try_acquire_resource_lease ''r'' ''exclusive'' ''a'' 1 9 ex_leases), Some 1)"
    by (simp add: ex_lease_defs)
  have b: "try_acquire_resource_lease ''r'' ''exclusive'' ''b'' 12 19
      (fold (serve acquire_resource) [] (fst (try_acquire_resource_lease ''r'' ''exclusive'' ''a'' 1 9 ex_leases))) =
      (fst (try_acquire_resource_lease ''r'' ''exclusive'' ''b'' 12 19
        (fst (try_acquire_resource_lease ''r'' ''exclusive'' ''a'' 1 9 ex_leases))), Some 2)"
    by (simp add: ex_lease_defs)
  have "snd (try_acquire_resource_lease ''r'' ''exclusive'' ''b'' 12 19
      (fst (try_acquire_resource_lease ''r'' ''exclusive'' ''a'' 1 9 ex_leases))) = Some 2"
    by (simp add: ex_lease_defs)
  moreover have "(1 :: u64) < 2"
    using fencing_tokens_increase [OF a b] by (simp add: token_of_def ex_leases_def)
  ultimately show ?thesis by blast
qed


lemma acquire_free_token:
  assumes "resource_holder st k = None"
  shows "snd (try_acquire_resource_lease k m w now until st) = Some 1"
    and "find_by rl_resource_key k (resource_leases (fst (try_acquire_resource_lease k m w now until st))) =
      Some \<lparr>rl_resource_key = k, rl_lock_mode = m, rl_holder_id = w, rl_fencing_token = 1,
        rl_lease_until_us = sint until, rl_updated_at_us = sint now\<rparr>"
  using assms by (auto simp: resource_holder_def try_acquire_resource_lease_def table_simps)

lemma release_matching:
  assumes "unique_keys rl_resource_key (resource_leases st)"
    and "find_by rl_resource_key k (resource_leases st) = Some l"
    and "rl_holder_id l = w" "rl_fencing_token l = sint t"
  shows "find_by rl_resource_key k (resource_leases (release_resource_lease k w t st)) = None"
proof -
  have "r = l" if "r \<in> set (resource_leases st)" "rl_resource_key r = k" for r
    using unique_keys_eq [OF assms(1) that(1)] find_by_SomeD [OF assms(2)] that(2) by blast
  then show ?thesis
    using assms(3,4) by (auto simp: find_by_None_iff release_resource_lease_def)
qed

lemma unique_resource_acquire:
  "unique_keys rl_resource_key (resource_leases st) \<Longrightarrow>
    unique_keys rl_resource_key (resource_leases (fst (try_acquire_resource_lease k m w now until st)))"
  by (auto simp: try_acquire_resource_lease_def Let_def intro: unique_upsert_by split: option.splits)

lemma unique_resource_release:
  "unique_keys rl_resource_key (resource_leases st) \<Longrightarrow>
    unique_keys rl_resource_key (resource_leases (release_resource_lease k w t st))"
  by (simp add: release_resource_lease_def distinct_map_filter)

text \<open>Releasing deletes the row, so tokens start again at 1: when a lease was released
  and its former holder leases the resource anew, the new claim carries token 1 again,
  and dropping a stale first claim of that holder (holder and token 1) deletes the live
  lease, which then no longer protects the resource.\<close>

lemma stale_drop_frees_live_lease:
  assumes "unique_keys rl_resource_key (resource_leases st)" "resource_holder st k = None"
    and "try_acquire_resource_lease k m w now until st = (st1, Some token)"
    and "stale = \<lparr>lc_resource_key = k, lc_holder_id = w, lc_fencing_token = 1\<rparr>"
  shows "token = 1 \<and> resource_holder st1 k = Some (w, sint until) \<and>
    resource_holder (drop_claim stale st1) k = None"
proof -
  have st1: "st1 = fst (try_acquire_resource_lease k m w now until st)" using assms(3) by simp
  have "token = 1" using acquire_free_token(1) [OF assms(2), of m w now until] assms(3) by simp
  moreover have f: "find_by rl_resource_key k (resource_leases st1) =
      Some \<lparr>rl_resource_key = k, rl_lock_mode = m, rl_holder_id = w, rl_fencing_token = 1,
        rl_lease_until_us = sint until, rl_updated_at_us = sint now\<rparr>"
    unfolding st1 by (rule acquire_free_token(2) [OF assms(2)])
  moreover have "unique_keys rl_resource_key (resource_leases st1)"
    unfolding st1 by (rule unique_resource_acquire [OF assms(1)])
  ultimately show ?thesis
    using release_matching [of st1 k _ w 1] assms(4) by (simp add: resource_holder_def drop_claim_def)
qed

text \<open>The scenario from an empty table: \<open>a\<close> leases until 9, \<open>b\<close> takes over at 12 and
  releases, \<open>a\<close> leases again at 20, and only then the first claim of \<open>a\<close> is dropped.\<close>

lemma stale_drop_frees_live_lease_example:
  "let s1 = fst (try_acquire_resource_lease ''r'' ''exclusive'' ''a'' 1 9 ex_leases);
       s2 = fst (try_acquire_resource_lease ''r'' ''exclusive'' ''b'' 12 30 s1);
       s3 = release_resource_lease ''r'' ''b'' 2 s2;
       s4 = fst (try_acquire_resource_lease ''r'' ''exclusive'' ''a'' 20 90 s3) in
   resource_holder s4 ''r'' = Some (''a'', 90) \<and>
   resource_holder (drop_claim \<lparr>lc_resource_key = ''r'', lc_holder_id = ''a'', lc_fencing_token = 1\<rparr> s4) ''r'' = None"
proof -
  let ?s3 = "release_resource_lease ''r'' ''b'' 2 (fst (try_acquire_resource_lease ''r'' ''exclusive'' ''b'' 12 30
      (fst (try_acquire_resource_lease ''r'' ''exclusive'' ''a'' 1 9 ex_leases))))"
  have "resource_holder ?s3 ''r'' = None" "unique_keys rl_resource_key (resource_leases ?s3)"
    "try_acquire_resource_lease ''r'' ''exclusive'' ''a'' 20 90 ?s3 =
      (fst (try_acquire_resource_lease ''r'' ''exclusive'' ''a'' 20 90 ?s3), Some 1)"
    by (simp_all add: ex_lease_defs release_resource_lease_def resource_holder_def)
  from stale_drop_frees_live_lease [OF this(2,1,3) refl] show ?thesis by (simp add: Let_def)
qed

section \<open>The clients\<close>

lemma single_attempt:
  "acquire_resource_lease_with_retry clock others k w ttl 1 busy st =
    (case try_acquire_resource_lease k ''exclusive'' w (clock 0) (lease_end (clock 0) ttl) st of
       (st', Some t) \<Rightarrow> (st', Ok \<lparr>lc_resource_key = k, lc_holder_id = w, lc_fencing_token = t\<rparr>)
     | (st', None) \<Rightarrow> (st', Err (ToolError busy)))"
  by (simp add: acquire_resource_lease_with_retry_def split: prod.splits option.splits)

lemma acquire_resource_grant:
  "try_acquire_resource_lease k ''exclusive'' w now until st = (st', r) \<Longrightarrow>
    (r \<noteq> None) = (case resource_holder st k of None \<Rightarrow> True | Some (h, e) \<Rightarrow> h = w \<or> e \<le> sint now) \<and>
    (r = None \<longrightarrow> st' = st)"
  using resource.granted_iff [of k w now until st] resource.refused [of k w now until st st']
  by (auto simp: acquire_resource_def)

text \<open>A retried acquisition ends after at most the given number of attempts, at least
  one; when nobody else changes the store meanwhile it succeeds exactly when the lease is
  free, the holder's own or expired at one of the attempts, and it changes nothing when it
  fails.\<close>

definition grantable :: "lease_store \<Rightarrow> string \<Rightarrow> string \<Rightarrow> u64 \<Rightarrow> bool" where
  "grantable st k w now = (case resource_holder st k of None \<Rightarrow> True | Some (h, e) \<Rightarrow> h = w \<or> e \<le> sint now)"

lemma retry_loop_iff:
  "0 < left \<Longrightarrow> retry_loop clock (\<lambda>_ s. s) k w ttl busy a left st = (st', r) \<Longrightarrow>
    ((\<exists>c. r = Ok c) \<longleftrightarrow> (\<exists>i<left. grantable st k w (clock (a + i)))) \<and>
    ((\<exists>c. r = Ok c) \<or> st' = st \<and> r = Err (ToolError busy))"
proof (induction left arbitrary: a)
  case (Suc left)
  obtain s1 q where q: "try_acquire_resource_lease k ''exclusive'' w (clock a) (lease_end (clock a) ttl) st = (s1, q)"
    by fastforce
  have g: "(q \<noteq> None) = grantable st k w (clock a)" "q = None \<longrightarrow> s1 = st"
    using acquire_resource_grant [OF q] by (auto simp: grantable_def)
  have ex: "(\<exists>i<Suc left. grantable st k w (clock (a + i))) \<longleftrightarrow>
      grantable st k w (clock a) \<or> (\<exists>i<left. grantable st k w (clock (Suc a + i)))"
    using less_Suc_eq_0_disj by auto
  show ?case
  proof (cases q)
    case None
    show ?thesis
    proof (cases "left = 0")
      case True
      with None q g Suc.prems ex show ?thesis by auto
    next
      case False
      with Suc.IH [of "Suc a"] None q g Suc.prems ex show ?thesis by auto
    qed
  next
    case (Some t)
    with q g Suc.prems ex show ?thesis by auto
  qed
qed simp

lemma quota_key_inject: "quota_key scope i = quota_key scope j \<Longrightarrow> i = j"
  by (simp add: quota_key_def show_nat_inject)

lemma quota_loop_spec:
  "quota_loop clock scope w ttl slot left st = (st', r) \<Longrightarrow>
    (case r of
       Inr c \<Rightarrow> \<exists>i<left. lc_resource_key c = quota_key scope (slot + i) \<and> lc_holder_id c = w \<and>
         grantable st (quota_key scope (slot + i)) w (clock (slot + i)) \<and>
         (\<forall>j<i. \<not> grantable st (quota_key scope (slot + j)) w (clock (slot + j))) \<and>
         resource_holder st' (quota_key scope (slot + i)) = Some (w, sint (lease_end (clock (slot + i)) ttl))
     | Inl e \<Rightarrow> st' = st \<and> (\<forall>i<left. \<not> grantable st (quota_key scope (slot + i)) w (clock (slot + i))))"
proof (induction left arbitrary: slot)
  case 0
  then show ?case by auto
next
  case (Suc left)
  let ?k = "quota_key scope slot" and ?now = "clock slot"
  obtain s1 q where q: "try_acquire_resource_lease ?k ''exclusive'' w ?now (lease_end ?now ttl) st = (s1, q)"
    by fastforce
  have g: "(q \<noteq> None) = grantable st ?k w ?now" "q = None \<longrightarrow> s1 = st"
    using acquire_resource_grant [OF q] by (auto simp: grantable_def)
  show ?case
  proof (cases q)
    case None
    with q g Suc.prems have rest: "quota_loop clock scope w ttl (Suc slot) left st = (st', r)"
      and no: "\<not> grantable st ?k w ?now"
      by (auto simp: single_attempt)
    show ?thesis
    proof (cases r)
      case (Inl e)
      with Suc.IH [OF rest] no show ?thesis by (auto simp: less_Suc_eq_0_disj)
    next
      case (Inr c)
      with Suc.IH [OF rest] obtain i where i: "i < left" "lc_resource_key c = quota_key scope (Suc slot + i)"
        "lc_holder_id c = w" "grantable st (quota_key scope (Suc slot + i)) w (clock (Suc slot + i))"
        "\<forall>j<i. \<not> grantable st (quota_key scope (Suc slot + j)) w (clock (Suc slot + j))"
        "resource_holder st' (quota_key scope (Suc slot + i)) = Some (w, sint (lease_end (clock (Suc slot + i)) ttl))"
        by auto
      have "\<forall>j<Suc i. \<not> grantable st (quota_key scope (slot + j)) w (clock (slot + j))"
        using no i(5) by (auto simp: less_Suc_eq_0_disj)
      with Inr i show ?thesis by (auto intro!: exI [of _ "Suc i"])
    qed
  next
    case (Some t)
    have "resource_holder s1 ?k = Some (w, sint (lease_end ?now ttl))"
      using resource.granted [of ?k w ?now "lease_end ?now ttl" st s1 ?k] q Some
      by (simp add: acquire_resource_def)
    with Some q g Suc.prems show ?thesis
      by (auto simp: single_attempt intro!: exI [of _ 0])
  qed
qed

text \<open>A shared quota hands out the first slot, of at most \<open>max limit 1\<close> distinct ones,
  that is free, expired or the requester's own, and leases it to the requester; it refuses,
  changing nothing, exactly when every slot is held by somebody else whose lease still runs,
  so at most that many other holders are ever admitted at once.\<close>

lemma quota_admits_up_to_limit:
  assumes "acquire_shared_quota_claim clock scope limit w ttl st = (st', r)"
  shows "inj (quota_key scope) \<and>
    (case r of
       Inr c \<Rightarrow> \<exists>i<max limit 1. lc_resource_key c = quota_key scope i \<and> lc_holder_id c = w \<and>
         grantable st (quota_key scope i) w (clock i) \<and>
         (\<forall>j<i. \<not> grantable st (quota_key scope j) w (clock j)) \<and>
         resource_holder st' (quota_key scope i) = Some (w, sint (lease_end (clock i) ttl))
     | Inl e \<Rightarrow> st' = st \<and> (\<forall>i<max limit 1. \<not> grantable st (quota_key scope i) w (clock i)))"
  using quota_loop_spec [of clock scope w ttl 0 "max limit 1" st st' r] assms quota_key_inject
  by (cases r) (auto simp: acquire_shared_quota_claim_def intro: injI)

lemma quota_admits_up_to_limit_example:
  "\<exists>c. snd (acquire_shared_quota_claim (\<lambda>_. 5) ''user:u'' 2 ''h'' 60 ex_leases) = Inr c \<and>
     lc_resource_key c = quota_key ''user:u'' 0"
proof -
  obtain st' r where q: "acquire_shared_quota_claim (\<lambda>_. 5) ''user:u'' 2 ''h'' 60 ex_leases = (st', r)"
    by fastforce
  have "grantable ex_leases k w now" for k w now
    by (simp add: grantable_def resource_holder_def ex_leases_def)
  with quota_admits_up_to_limit [OF q] q show ?thesis
    by (auto split: sum.splits)
qed

section \<open>The compaction guard\<close>

lemma compaction_refused_unchanged:
  "try_mark_compaction_inflight inst sess now cs = (cs', None) \<Longrightarrow> cs' = cs"
  using acquire_resource_grant
  by (cases cs) (auto simp: try_mark_compaction_inflight_def Let_def removeAll_id split: if_splits prod.splits option.splits)

lemma compaction_once_per_process:
  "try_mark_compaction_inflight inst sess now cs = (cs1, Some c) \<Longrightarrow>
    try_mark_compaction_inflight inst sess now' cs1 = (cs1, None)"
  by (auto simp: try_mark_compaction_inflight_def Let_def split: if_splits prod.splits option.splits)

lemma acquire_resource_False:
  "acquire_resource k w now until st = (st', False) \<Longrightarrow>
    try_acquire_resource_lease k ''exclusive'' w now until st = (st', None)"
  by (auto simp: acquire_resource_def split: prod.splits)

lemma compaction_exclusive_across_processes:
  assumes "try_mark_compaction_inflight inst sess now cs = (cs1, Some c)"
    and "inst' \<noteq> inst" "sint now' < sint (now + 15 * 60 * 1000000)"
  shows "snd (try_mark_compaction_inflight inst' sess now' \<lparr>in_flight = fl, leases = leases cs1\<rparr>) = None"
proof -
  let ?k = "''compaction:'' @ sess" and ?u = "now + 15 * 60 * 1000000 :: u64"
  from assms(1) have "acquire_resource ?k (''compaction-worker:'' @ inst) now ?u (leases cs) = (leases cs1, True)"
    by (auto simp: try_mark_compaction_inflight_def acquire_resource_def Let_def
        split: if_splits prod.splits option.splits)
  then have h: "resource_holder (leases cs1) ?k = Some (''compaction-worker:'' @ inst, sint ?u)"
    using resource.granted by fastforce
  have "acquire_resource ?k (''compaction-worker:'' @ inst') now' u (leases cs1) = (leases cs1, False)" for u
    by (rule resource.other_refused [OF h]) (use assms(2,3) in auto)
  then have T: "try_acquire_resource_lease ?k ''exclusive'' (''compaction-worker:'' @ inst') now' u (leases cs1)
      = (leases cs1, None)" for u
    by (rule acquire_resource_False)
  show ?thesis
    by (simp only: try_mark_compaction_inflight_def Let_def T compaction_state.select_convs
        prod.case option.case snd_conv if_cancel split: if_split) simp
qed

end
