(* ===== verification/SessionMemory.thy ===== *)
theory SessionMemory
  imports Contracts
begin

text \<open>Session memory (\<open>aria-ssmu/src/lib.rs\<close>): the per-process cache of session
  states with its sliding window, in front of the event-sourced SQLite persistence
  (\<open>aria-ssmu/src/persistence.rs\<close>): versioned sessions, an append-only event log, replay,
  optimistic concurrency with one retry.  Versions are natural numbers here (the
  code's u64 would need 2 to the 63 mutations to overflow its column); the JSON of
  events and constraints is kept as the typed value.\<close>

section \<open>Data\<close>

record Message =
  msg_role :: string
  msg_content :: string
  msg_timestamp_us :: u64

record PersistedSessionState =
  ps_history :: "Message list"
  ps_durable_constraints :: "string list"
  ps_current_agent :: "string option"
  ps_current_model :: "string option"

record SessionState =
  ss_history :: "Message list"
  ss_durable_constraints :: "string list"
  ss_current_agent :: "string option"
  ss_current_model :: "string option"
  ss_version :: nat

datatype SessionEvent =
    AppendMessage Message
  | AddConstraint string
  | ClearHistory
  | UpdateOverrides "string option" "string option"
  | ReplaceHistory nat Message
  | SnapshotReplace PersistedSessionState

datatype PersistenceError = VersionConflict nat nat

definition empty_persisted :: PersistedSessionState where
  "empty_persisted = \<lparr>ps_history = [], ps_durable_constraints = [], ps_current_agent = None,
     ps_current_model = None\<rparr>"

definition default_session :: SessionState where
  "default_session = \<lparr>ss_history = [], ss_durable_constraints = [], ss_current_agent = None,
     ss_current_model = None, ss_version = 0\<rparr>"

section \<open>The event log\<close>

fun apply_event_to_state :: "SessionEvent \<Rightarrow> PersistedSessionState \<Rightarrow> PersistedSessionState" where
  "apply_event_to_state (AppendMessage m) st = st\<lparr>ps_history := ps_history st @ [m]\<rparr>"
| "apply_event_to_state (AddConstraint c) st =
     st\<lparr>ps_durable_constraints := ps_durable_constraints st @ [c]\<rparr>"
| "apply_event_to_state ClearHistory st = st\<lparr>ps_history := []\<rparr>"
| "apply_event_to_state (UpdateOverrides a m) st =
     st\<lparr>ps_current_agent := (case a of Some x \<Rightarrow> Some x | None \<Rightarrow> ps_current_agent st),
        ps_current_model := (case m of Some x \<Rightarrow> Some x | None \<Rightarrow> ps_current_model st)\<rparr>"
| "apply_event_to_state (ReplaceHistory n summary) st =
     st\<lparr>ps_history := summary # drop (min n (length (ps_history st))) (ps_history st)\<rparr>"
| "apply_event_to_state (SnapshotReplace snap) st = snap"

definition replay :: "SessionEvent list \<Rightarrow> PersistedSessionState" where
  "replay es = fold apply_event_to_state es empty_persisted"

fun event_kind :: "SessionEvent \<Rightarrow> string" where
  "event_kind (AppendMessage _) = ''append_message''"
| "event_kind (AddConstraint _) = ''add_constraint''"
| "event_kind ClearHistory = ''clear_history''"
| "event_kind (UpdateOverrides _ _) = ''update_overrides''"
| "event_kind (ReplaceHistory _ _) = ''replace_history''"
| "event_kind (SnapshotReplace _) = ''snapshot_replace''"

text \<open>\<open>now\<close> is the clock reading for events that carry no time.\<close>

fun event_timestamp_us :: "u64 \<Rightarrow> SessionEvent \<Rightarrow> u64" where
  "event_timestamp_us now (AppendMessage m) = msg_timestamp_us m"
| "event_timestamp_us now (ReplaceHistory _ m) = msg_timestamp_us m"
| "event_timestamp_us now _ = now"

fun snapshot_timestamp_us :: "u64 \<Rightarrow> SessionEvent \<Rightarrow> u64" where
  "snapshot_timestamp_us now (SnapshotReplace st) =
     (if ps_history st = [] then now else msg_timestamp_us (last (ps_history st)))"
| "snapshot_timestamp_us now _ = now"

record SessionRow =
  row_id :: string
  row_current_agent :: "string option"
  row_current_model :: "string option"
  row_durable_constraints :: "string list"
  row_version :: nat

record EventRow =
  ev_session_id :: string
  ev_expected_version :: nat
  ev_applied_version :: nat
  ev_kind :: string
  ev_payload :: SessionEvent
  ev_created_at_us :: u64

record session_db =
  sessions :: "SessionRow list"
  session_events :: "EventRow list"

definition fresh_row :: "string \<Rightarrow> SessionRow" where
  "fresh_row sid = \<lparr>row_id = sid, row_current_agent = None, row_current_model = None,
     row_durable_constraints = [], row_version = 0\<rparr>"

text \<open>The session's row after \<open>INSERT OR IGNORE\<close>, and the events of a session in
  \<open>event_id\<close> order.\<close>

definition insert_or_ignore :: "string \<Rightarrow> SessionRow list \<Rightarrow> SessionRow list" where
  "insert_or_ignore sid rows = (if has_key row_id sid rows then rows else rows @ [fresh_row sid])"

definition events_of :: "session_db \<Rightarrow> string \<Rightarrow> SessionEvent list" where
  "events_of db sid = map ev_payload (filter (\<lambda>e. ev_session_id e = sid) (session_events db))"

definition replay_session_events :: "session_db \<Rightarrow> string \<Rightarrow> Message list" where
  "replay_session_events db sid = ps_history (replay (events_of db sid))"

definition write_row :: "PersistedSessionState \<Rightarrow> nat \<Rightarrow> SessionRow \<Rightarrow> SessionRow" where
  "write_row st v row = row\<lparr>row_current_agent := ps_current_agent st, row_current_model := ps_current_model st,
     row_durable_constraints := ps_durable_constraints st, row_version := v\<rparr>"

text \<open>One transaction: a conflict rolls everything back, the inserted row included.\<close>

definition append_event ::
  "u64 \<Rightarrow> string \<Rightarrow> nat \<Rightarrow> SessionEvent \<Rightarrow> session_db \<Rightarrow> (PersistenceError, session_db \<times> nat) result" where
  "append_event now sid expected event db =
    (let rows = insert_or_ignore sid (sessions db);
         row = (case find_by row_id sid rows of Some r \<Rightarrow> r | None \<Rightarrow> fresh_row sid);
         st = \<lparr>ps_history = replay_session_events db sid, ps_durable_constraints = row_durable_constraints row,
               ps_current_agent = row_current_agent row, ps_current_model = row_current_model row\<rparr>;
         actual = row_version row in
     if actual \<noteq> expected then Err (VersionConflict expected actual)
     else let st' = apply_event_to_state event st; v = actual + 1 in
       Ok (\<lparr>sessions = update_by row_id sid (write_row st' v) rows,
            session_events = session_events db @
              [\<lparr>ev_session_id = sid, ev_expected_version = expected, ev_applied_version = v,
                ev_kind = event_kind event, ev_payload = event,
                ev_created_at_us = event_timestamp_us now event\<rparr>]\<rparr>, v))"

definition load_session :: "session_db \<Rightarrow> string \<Rightarrow> SessionState option" where
  "load_session db sid = (case find_by row_id sid (sessions db) of
      None \<Rightarrow> None
    | Some row \<Rightarrow> Some \<lparr>ss_history = replay_session_events db sid,
        ss_durable_constraints = row_durable_constraints row, ss_current_agent = row_current_agent row,
        ss_current_model = row_current_model row, ss_version = row_version row\<rparr>)"

definition to_persisted :: "SessionState \<Rightarrow> PersistedSessionState" where
  "to_persisted s = \<lparr>ps_history = ss_history s, ps_durable_constraints = ss_durable_constraints s,
     ps_current_agent = ss_current_agent s, ps_current_model = ss_current_model s\<rparr>"

definition current_version :: "session_db \<Rightarrow> string \<Rightarrow> nat" where
  "current_version db sid = (case find_by row_id sid (sessions db) of None \<Rightarrow> 0 | Some r \<Rightarrow> row_version r)"

text \<open>\<open>others\<close> is what other processes write between the version read and the append.\<close>

definition save_session ::
  "u64 \<Rightarrow> (session_db \<Rightarrow> session_db) \<Rightarrow> string \<Rightarrow> SessionState \<Rightarrow> session_db
    \<Rightarrow> (PersistenceError, session_db) result" where
  "save_session now others sid s db =
    map_ok fst (append_event now sid (current_version db sid) (SnapshotReplace (to_persisted s)) (others db))"

definition session_has_events :: "session_db \<Rightarrow> string \<Rightarrow> bool" where
  "session_has_events db sid = list_ex (\<lambda>e. ev_session_id e = sid) (session_events db)"

text \<open>The import of a legacy history as one snapshot event.\<close>

definition import_snapshot_event :: "u64 \<Rightarrow> string \<Rightarrow> Message list \<Rightarrow> session_db \<Rightarrow> session_db" where
  "import_snapshot_event now sid msgs db =
    (let rows = insert_or_ignore sid (sessions db);
         row = (case find_by row_id sid rows of Some r \<Rightarrow> r | None \<Rightarrow> fresh_row sid);
         v = row_version row;
         snap = SnapshotReplace \<lparr>ps_history = msgs, ps_durable_constraints = row_durable_constraints row,
            ps_current_agent = row_current_agent row, ps_current_model = row_current_model row\<rparr> in
     \<lparr>sessions = update_by row_id sid (\<lambda>r. r\<lparr>row_version := v + 1\<rparr>) rows,
      session_events = session_events db @
        [\<lparr>ev_session_id = sid, ev_expected_version = v, ev_applied_version = v + 1,
          ev_kind = ''snapshot_replace'', ev_payload = snap,
          ev_created_at_us = snapshot_timestamp_us now snap\<rparr>]\<rparr>)"

text \<open>The legacy sources: for each listed session without events and with messages, an
  import; the messages of a JSONL file are sorted by time first.\<close>

fun import_legacy :: "u64 \<Rightarrow> (string \<times> Message list) list \<Rightarrow> session_db \<Rightarrow> session_db" where
  "import_legacy now [] db = db"
| "import_legacy now ((sid, msgs) # rest) db =
     import_legacy now rest
       (if session_has_events db sid \<or> msgs = [] then db else import_snapshot_event now sid msgs db)"

definition load_messages_from_jsonl :: "Message list \<Rightarrow> Message list" where
  "load_messages_from_jsonl parsed = sort_key (\<lambda>m. unat (msg_timestamp_us m)) parsed"


section \<open>The in-memory cache\<close>

type_synonym session_cache = "(string \<times> SessionState) list"

abbreviation cached :: "session_cache \<Rightarrow> string \<Rightarrow> SessionState option" where
  "cached c sid \<equiv> map_option snd (find_by fst sid c)"

abbreviation cache_insert :: "string \<Rightarrow> SessionState \<Rightarrow> session_cache \<Rightarrow> session_cache" where
  "cache_insert sid s c \<equiv> upsert_by fst (sid, s) c"

text \<open>\<open>while history.len() > window { history.pop_front() }\<close>.\<close>

definition trim :: "nat \<Rightarrow> 'a list \<Rightarrow> 'a list" where
  "trim w h = drop (length h - w) h"

text \<open>The closures the public operations pass to \<open>apply_session_mutation\<close>, by the event
  they go with.\<close>

fun mutate :: "nat \<Rightarrow> SessionEvent \<Rightarrow> SessionState \<Rightarrow> SessionState" where
  "mutate w (AppendMessage m) s = s\<lparr>ss_history := trim w (ss_history s @ [m])\<rparr>"
| "mutate w (AddConstraint c) s = s\<lparr>ss_durable_constraints := ss_durable_constraints s @ [c]\<rparr>"
| "mutate w ClearHistory s = s\<lparr>ss_history := []\<rparr>"
| "mutate w (UpdateOverrides a m) s =
     s\<lparr>ss_current_agent := (case a of Some x \<Rightarrow> Some x | None \<Rightarrow> ss_current_agent s),
       ss_current_model := (case m of Some x \<Rightarrow> Some x | None \<Rightarrow> ss_current_model s)\<rparr>"
| "mutate w (ReplaceHistory n summary) s =
     s\<lparr>ss_history := trim w (summary # drop (min n (length (ss_history s))) (ss_history s))\<rparr>"
| "mutate w (SnapshotReplace snap) s = s"

text \<open>A process: its window, its cache, and whether it is SQLite backed.\<close>

record session_memory =
  window_size :: nat
  sqlite_backed :: bool
  cache :: session_cache

definition base_state :: "session_memory \<Rightarrow> session_db \<Rightarrow> string \<Rightarrow> SessionState" where
  "base_state mem db sid = (case cached (cache mem) sid of
      Some s \<Rightarrow> s
    | None \<Rightarrow> (case load_session db sid of Some s \<Rightarrow> s | None \<Rightarrow> default_session))"

text \<open>The retry loop of a mutation; \<open>others i\<close> is what the other processes commit between
  the read and the append of attempt \<open>i\<close>.\<close>

fun mutation_loop ::
  "u64 \<Rightarrow> (nat \<Rightarrow> session_db \<Rightarrow> session_db) \<Rightarrow> string \<Rightarrow> SessionEvent \<Rightarrow> nat \<Rightarrow> nat \<Rightarrow> session_memory
    \<Rightarrow> session_db \<Rightarrow> session_memory \<times> session_db \<times> (string, unit) result" where
  "mutation_loop now others sid event i 0 mem db =
    (mem, db, Err (''sqlite append failed for '' @ sid @ '': version conflict after retry''))"
| "mutation_loop now others sid event i (Suc left) mem db =
    (let base = base_state mem db sid;
         next = mutate (window_size mem) event base;
         db1 = others i db in
     case append_event now sid (ss_version base) event db1 of
       Inr (db2, v) \<Rightarrow> (mem\<lparr>cache := cache_insert sid (next\<lparr>ss_version := v\<rparr>) (cache mem)\<rparr>, db2, Ok ())
     | Inl (VersionConflict _ _) \<Rightarrow>
         mutation_loop now others sid event (Suc i) left
           (case load_session db1 sid of
              Some latest \<Rightarrow> mem\<lparr>cache := cache_insert sid latest (cache mem)\<rparr>
            | None \<Rightarrow> mem) db1)"

definition apply_session_mutation ::
  "u64 \<Rightarrow> (nat \<Rightarrow> session_db \<Rightarrow> session_db) \<Rightarrow> string \<Rightarrow> SessionEvent \<Rightarrow> session_memory
    \<Rightarrow> session_db \<Rightarrow> session_memory \<times> session_db \<times> (string, unit) result" where
  "apply_session_mutation now others sid event mem db =
    (if \<not> sqlite_backed mem
     then (mem\<lparr>cache := cache_insert sid (mutate (window_size mem) event
              (case cached (cache mem) sid of Some s \<Rightarrow> s | None \<Rightarrow> default_session)) (cache mem)\<rparr>, db, Ok ())
     else mutation_loop now others sid event 0 2 mem db)"

text \<open>The public mutations.\<close>

definition append_message ::
  "u64 \<Rightarrow> (nat \<Rightarrow> session_db \<Rightarrow> session_db) \<Rightarrow> string \<Rightarrow> Message \<Rightarrow> session_memory \<Rightarrow> session_db \<Rightarrow> 
    session_memory \<times> session_db \<times> (string, unit) result" where
  "append_message now others sid m = apply_session_mutation now others sid (AppendMessage m)"

definition add_durable_constraint ::
  "u64 \<Rightarrow> (nat \<Rightarrow> session_db \<Rightarrow> session_db) \<Rightarrow> string \<Rightarrow> string \<Rightarrow> session_memory \<Rightarrow> session_db \<Rightarrow> 
    session_memory \<times> session_db \<times> (string, unit) result" where
  "add_durable_constraint now others sid c = apply_session_mutation now others sid (AddConstraint c)"

definition clear_history ::
  "u64 \<Rightarrow> (nat \<Rightarrow> session_db \<Rightarrow> session_db) \<Rightarrow> string \<Rightarrow> session_memory \<Rightarrow> session_db \<Rightarrow> 
    session_memory \<times> session_db \<times> (string, unit) result" where
  "clear_history now others sid = apply_session_mutation now others sid ClearHistory"

definition update_overrides ::
  "u64 \<Rightarrow> (nat \<Rightarrow> session_db \<Rightarrow> session_db) \<Rightarrow> string \<Rightarrow> string option \<Rightarrow> string option \<Rightarrow> session_memory \<Rightarrow> session_db \<Rightarrow> 
    session_memory \<times> session_db \<times> (string, unit) result" where
  "update_overrides now others sid a m = apply_session_mutation now others sid (UpdateOverrides a m)"

definition replace_old_history ::
  "u64 \<Rightarrow> (nat \<Rightarrow> session_db \<Rightarrow> session_db) \<Rightarrow> string \<Rightarrow> nat \<Rightarrow> Message \<Rightarrow> session_memory \<Rightarrow> session_db \<Rightarrow> 
    session_memory \<times> session_db \<times> (string, unit) result" where
  "replace_old_history now others sid n m = apply_session_mutation now others sid (ReplaceHistory n m)"

definition refresh_session_from_sqlite_if_newer ::
  "string \<Rightarrow> session_db \<Rightarrow> session_memory \<Rightarrow> session_memory" where
  "refresh_session_from_sqlite_if_newer sid db mem =
    (if \<not> sqlite_backed mem then mem
     else case load_session db sid of
         None \<Rightarrow> mem
       | Some latest \<Rightarrow>
          (let current = map_option ss_version (cached (cache mem) sid) in
           if ss_version latest \<le> (case current of Some v \<Rightarrow> v | None \<Rightarrow> 0) \<and> current \<noteq> None then mem
           else mem\<lparr>cache := cache_insert sid latest (cache mem)\<rparr>))"

definition get_history :: "string \<Rightarrow> session_db \<Rightarrow> session_memory \<Rightarrow> session_memory \<times> Message list" where
  "get_history sid db mem =
    (let mem' = refresh_session_from_sqlite_if_newer sid db mem in
     (mem', case cached (cache mem') sid of Some s \<Rightarrow> ss_history s | None \<Rightarrow> []))"

definition get_durable_constraints ::
  "string \<Rightarrow> session_db \<Rightarrow> session_memory \<Rightarrow> session_memory \<times> string list" where
  "get_durable_constraints sid db mem =
    (let mem' = refresh_session_from_sqlite_if_newer sid db mem in
     (mem', case cached (cache mem') sid of Some s \<Rightarrow> ss_durable_constraints s | None \<Rightarrow> []))"

definition get_overrides ::
  "string \<Rightarrow> session_db \<Rightarrow> session_memory \<Rightarrow> session_memory \<times> string option \<times> string option" where
  "get_overrides sid db mem =
    (let mem' = refresh_session_from_sqlite_if_newer sid db mem in
     (mem', case cached (cache mem') sid of
        Some s \<Rightarrow> (ss_current_agent s, ss_current_model s) | None \<Rightarrow> (None, None)))"

text \<open>Summarising replaces the cached history by one message and then saves a snapshot;
  the cached version is not advanced.\<close>

definition summarize_if_over_threshold ::
  "u64 \<Rightarrow> (session_db \<Rightarrow> session_db) \<Rightarrow> string \<Rightarrow> nat \<Rightarrow> u64 \<Rightarrow> (Message list \<Rightarrow> string)
    \<Rightarrow> session_memory \<Rightarrow> session_db \<Rightarrow> session_memory \<times> session_db \<times> (string, bool) result" where
  "summarize_if_over_threshold now others sid threshold ts summarizer mem db =
    (case cached (cache mem) sid of
       None \<Rightarrow> (mem, db, Ok False)
     | Some s \<Rightarrow>
        if length (ss_history s) \<le> threshold then (mem, db, Ok False)
        else let s' = s\<lparr>ss_history := [\<lparr>msg_role = ''summary'', msg_content = summarizer (ss_history s),
                     msg_timestamp_us = ts\<rparr>]\<rparr>;
                 mem' = mem\<lparr>cache := cache_insert sid s' (cache mem)\<rparr> in
          if \<not> sqlite_backed mem then (mem', db, Ok True)
          else case save_session now others sid s' db of
              Inr db' \<Rightarrow> (mem', db', Ok True)
            | Inl _ \<Rightarrow> (mem', others db, Err (''sqlite save failed for '' @ sid)))"

text \<open>Saving every cached session; no other writer interferes in this model of it.\<close>

fun save_all :: "u64 \<Rightarrow> session_cache \<Rightarrow> nat \<Rightarrow> session_db \<Rightarrow> session_db \<times> (string, nat) result" where
  "save_all now [] n db = (db, Ok n)"
| "save_all now ((sid, s) # rest) n db = (case save_session now (\<lambda>d. d) sid s db of
      Inr db' \<Rightarrow> save_all now rest (n + 1) db'
    | Inl _ \<Rightarrow> (db, Err (''sqlite save failed for '' @ sid)))"

definition save_to_sqlite :: "u64 \<Rightarrow> session_memory \<Rightarrow> session_db \<Rightarrow> session_db \<times> (string, nat) result" where
  "save_to_sqlite now mem db = save_all now (cache mem) 0 db"

fun load_all :: "nat \<Rightarrow> session_db \<Rightarrow> string list \<Rightarrow> session_cache \<Rightarrow> nat \<Rightarrow> session_cache \<times> nat" where
  "load_all w db [] c n = (c, n)"
| "load_all w db (sid # rest) c n = (case load_session db sid of
      Some s \<Rightarrow> load_all w db rest (cache_insert sid (s\<lparr>ss_history := trim w (ss_history s)\<rparr>) c) (n + 1)
    | None \<Rightarrow> load_all w db rest c n)"

definition load_from_sqlite :: "session_db \<Rightarrow> session_memory \<Rightarrow> session_memory \<times> nat" where
  "load_from_sqlite db mem =
    (case load_all (window_size mem) db (map row_id (sessions db)) (cache mem) 0 of
       (c, n) \<Rightarrow> (mem\<lparr>cache := c\<rparr>, n))"

text \<open>The JSON session files: \<open>None\<close> is an entry that cannot be read or parsed, and is
  counted as skipped.\<close>

fun load_files :: "nat \<Rightarrow> (string \<times> PersistedSessionState) option list \<Rightarrow> session_cache \<Rightarrow> nat \<Rightarrow> nat
    \<Rightarrow> session_cache \<times> nat \<times> nat" where
  "load_files w [] c n k = (c, n, k)"
| "load_files w (None # rest) c n k = load_files w rest c n (k + 1)"
| "load_files w (Some (sid, p) # rest) c n k = load_files w rest
     (cache_insert sid \<lparr>ss_history = trim w (ps_history p), ss_durable_constraints = ps_durable_constraints p,
        ss_current_agent = ps_current_agent p, ss_current_model = ps_current_model p, ss_version = 0\<rparr> c)
     (n + 1) k"

definition load_from_dir ::
  "(string \<times> PersistedSessionState) option list \<Rightarrow> session_memory \<Rightarrow> session_memory \<times> nat \<times> nat" where
  "load_from_dir files mem = (case load_files (window_size mem) files (cache mem) 0 0 of
     (c, n, k) \<Rightarrow> (mem\<lparr>cache := c\<rparr>, n, k))"

section \<open>User preferences\<close>

type_synonym preferences = "(string \<times> string) list"

definition pref_set :: "string \<Rightarrow> string \<Rightarrow> preferences \<Rightarrow> preferences" where
  "pref_set k v p = upsert_by fst (k, v) p"

definition pref_get :: "string \<Rightarrow> preferences \<Rightarrow> string option" where
  "pref_get k p = map_option snd (find_by fst k p)"

definition pref_remove :: "string \<Rightarrow> preferences \<Rightarrow> preferences" where
  "pref_remove k p = delete_by fst k p"

text \<open>The file is missing (\<open>None\<close>), corrupt (\<open>Some None\<close>) or parsed.\<close>

definition pref_load :: "preferences option option \<Rightarrow> preferences \<Rightarrow> preferences \<times> bool" where
  "pref_load file p = (case file of
      None \<Rightarrow> (p, False)
    | Some parsed \<Rightarrow> (case parsed of Some q \<Rightarrow> q | None \<Rightarrow> [], True))"


section \<open>The log is the truth\<close>

definition row_matches :: "SessionRow \<Rightarrow> SessionEvent list \<Rightarrow> bool" where
  "row_matches row es = (row_version row = length es \<and>
     row_durable_constraints row = ps_durable_constraints (replay es) \<and>
     row_current_agent row = ps_current_agent (replay es) \<and>
     row_current_model row = ps_current_model (replay es))"

definition db_inv :: "session_db \<Rightarrow> bool" where
  "db_inv db = (unique_keys row_id (sessions db) \<and>
     (\<forall>sid. case find_by row_id sid (sessions db) of
        None \<Rightarrow> events_of db sid = [] | Some row \<Rightarrow> row_matches row (events_of db sid)))"

definition empty_db :: session_db where
  "empty_db = \<lparr>sessions = [], session_events = []\<rparr>"

lemma db_inv_empty: "db_inv empty_db"
  by (simp add: db_inv_def empty_db_def events_of_def)

lemma replay_Nil [simp]: "replay [] = empty_persisted"
  by (simp add: replay_def)

lemma replay_snoc [simp]: "replay (es @ [e]) = apply_event_to_state e (replay es)"
  by (simp add: replay_def)

lemma row_matches_fresh [simp]: "row_matches (fresh_row sid) []"
  by (simp add: row_matches_def fresh_row_def empty_persisted_def)

lemma row_id_fresh [simp]: "row_id (fresh_row sid) = sid"
  by (simp add: fresh_row_def)

text \<open>The row an append works on, whether it existed or was just inserted.\<close>

definition row_of :: "session_db \<Rightarrow> string \<Rightarrow> SessionRow" where
  "row_of db sid = (case find_by row_id sid (sessions db) of Some r \<Rightarrow> r | None \<Rightarrow> fresh_row sid)"

lemma find_insert_or_ignore:
  "find_by row_id j (insert_or_ignore sid (sessions db)) =
    (if j = sid then Some (row_of db sid) else find_by row_id j (sessions db))"
proof (cases "find_by row_id sid (sessions db)")
  case None
  then have "sid \<notin> keys_of row_id (sessions db)" by (simp add: find_by_None_iff)
  with None show ?thesis
    by (auto simp: insert_or_ignore_def row_of_def has_key_iff find_by_append split: option.splits)
next
  case (Some r)
  then have "sid \<in> keys_of row_id (sessions db)" by (auto dest: find_by_SomeD)
  with Some show ?thesis by (auto simp: insert_or_ignore_def row_of_def has_key_iff)
qed

lemma unique_insert_or_ignore:
  "unique_keys row_id rows \<Longrightarrow> unique_keys row_id (insert_or_ignore sid rows)"
  by (auto simp: insert_or_ignore_def has_key_iff)

lemma db_invD:
  "db_inv db \<Longrightarrow> (case find_by row_id sid (sessions db) of
     None \<Rightarrow> events_of db sid = [] | Some row \<Rightarrow> row_matches row (events_of db sid))"
  by (simp only: db_inv_def)

lemma row_of_matches: "db_inv db \<Longrightarrow> row_matches (row_of db sid) (events_of db sid)"
  using db_invD [of db sid] by (auto simp: row_of_def split: option.splits)

lemma current_version_row: "current_version db sid = row_version (row_of db sid)"
  by (auto simp: current_version_def row_of_def fresh_row_def split: option.splits)

lemma current_version_events: "db_inv db \<Longrightarrow> current_version db sid = length (events_of db sid)"
  using row_of_matches [of db sid] by (simp add: current_version_row row_matches_def)

lemma append_event_cases:
  "append_event now sid expected event db =
    (if row_version (row_of db sid) \<noteq> expected
     then Inl (VersionConflict expected (row_version (row_of db sid)))
     else Inr (\<lparr>sessions = update_by row_id sid
          (write_row (apply_event_to_state event
             \<lparr>ps_history = replay_session_events db sid,
              ps_durable_constraints = row_durable_constraints (row_of db sid),
              ps_current_agent = row_current_agent (row_of db sid),
              ps_current_model = row_current_model (row_of db sid)\<rparr>) (Suc expected))
          (insert_or_ignore sid (sessions db)),
        session_events = session_events db @
          [\<lparr>ev_session_id = sid, ev_expected_version = expected, ev_applied_version = Suc expected,
            ev_kind = event_kind event, ev_payload = event,
            ev_created_at_us = event_timestamp_us now event\<rparr>]\<rparr>, Suc expected))"
  by (simp add: append_event_def find_insert_or_ignore Let_def)

lemma row_id_write_row [simp]: "row_id (write_row st v row) = row_id row"
  by (simp add: write_row_def)

lemma persisted_of_row:
  "row_matches row es \<Longrightarrow>
    \<lparr>ps_history = ps_history (replay es), ps_durable_constraints = row_durable_constraints row,
     ps_current_agent = row_current_agent row, ps_current_model = row_current_model row\<rparr> = replay es"
  by (simp add: row_matches_def)

lemma append_event_Ok:
  assumes inv: "db_inv db" and ok: "append_event now sid v e db = Inr (db', v')"
  shows "db_inv db'" "events_of db' j = (if j = sid then events_of db sid @ [e] else events_of db j)"
    "v' = Suc v" "v = length (events_of db sid)"
proof -
  let ?row = "row_of db sid"
  have m: "row_matches ?row (events_of db sid)" by (rule row_of_matches [OF inv])
  have v: "row_version ?row = v" and v': "v' = Suc v"
    and sess: "sessions db' = update_by row_id sid
       (write_row (apply_event_to_state e (replay (events_of db sid))) (Suc v)) (insert_or_ignore sid (sessions db))"
    and evs: "events_of db' j = (if j = sid then events_of db sid @ [e] else events_of db j)" for j
    using ok persisted_of_row [OF m]
    by (auto simp: append_event_cases replay_session_events_def events_of_def split: if_splits)
  have find: "find_by row_id j (sessions db') = (if j = sid
      then Some (write_row (apply_event_to_state e (replay (events_of db sid))) (Suc v) ?row)
      else find_by row_id j (sessions db))" for j
    unfolding sess by (simp add: table_simps find_insert_or_ignore)
  have "unique_keys row_id (sessions db')"
    using inv unfolding sess by (simp add: db_inv_def table_simps unique_insert_or_ignore)
  then show "db_inv db'"
    using inv m v unfolding db_inv_def find evs
    by (auto simp: row_matches_def write_row_def split: option.splits)
  show "events_of db' j = (if j = sid then events_of db sid @ [e] else events_of db j)" by (rule evs)
  show "v' = Suc v" by (rule v')
  show "v = length (events_of db sid)" using m v by (simp add: row_matches_def)
qed

lemma append_event_iff:
  assumes "db_inv db"
  shows "(\<exists>r. append_event now sid v e db = Inr r) \<longleftrightarrow> v = length (events_of db sid)"
  using row_of_matches [OF assms, of sid] by (auto simp: append_event_cases row_matches_def)

interpretation session_log: versioned_log db_inv events_of "append_event now" for now
  using append_event_Ok append_event_iff by unfold_locales blast+

lemma load_session_replay:
  assumes "db_inv db"
  shows "load_session db sid = (if find_by row_id sid (sessions db) = None then None
    else Some \<lparr>ss_history = ps_history (replay (events_of db sid)),
      ss_durable_constraints = ps_durable_constraints (replay (events_of db sid)),
      ss_current_agent = ps_current_agent (replay (events_of db sid)),
      ss_current_model = ps_current_model (replay (events_of db sid)),
      ss_version = length (events_of db sid)\<rparr>)"
  using db_invD [OF assms, of sid]
  by (auto simp: load_session_def replay_session_events_def row_matches_def split: option.splits)


lemma find_after_append:
  "append_event now sid v e db = Inr (db', v') \<Longrightarrow> find_by row_id sid (sessions db') \<noteq> None"
  by (auto simp: append_event_cases table_simps find_insert_or_ignore split: if_splits)

lemma load_session_None_iff: "load_session db sid = None \<longleftrightarrow> find_by row_id sid (sessions db) = None"
  by (simp add: load_session_def split: option.splits)

lemma load_session_version:
  "db_inv db \<Longrightarrow> load_session db sid = Some s \<Longrightarrow> ss_version s = length (events_of db sid)"
  by (auto simp: load_session_replay split: if_splits)

lemma import_snapshot_inv:
  assumes "db_inv db"
  shows "db_inv (import_snapshot_event now sid msgs db) \<and>
    ps_history (replay (events_of (import_snapshot_event now sid msgs db) sid)) = msgs"
proof -
  let ?db' = "import_snapshot_event now sid msgs db" and ?row = "row_of db sid"
  have m: "row_matches ?row (events_of db sid)" by (rule row_of_matches [OF assms])
  have sess: "sessions ?db' = update_by row_id sid (\<lambda>r. r\<lparr>row_version := row_version ?row + 1\<rparr>)
      (insert_or_ignore sid (sessions db))"
    by (simp add: import_snapshot_event_def find_insert_or_ignore Let_def)
  have evs: "events_of ?db' j = (if j = sid then events_of db sid @ [SnapshotReplace \<lparr>ps_history = msgs,
      ps_durable_constraints = row_durable_constraints ?row, ps_current_agent = row_current_agent ?row,
      ps_current_model = row_current_model ?row\<rparr>] else events_of db j)" for j
    by (simp add: import_snapshot_event_def events_of_def find_insert_or_ignore Let_def)
  have find: "find_by row_id j (sessions ?db') = (if j = sid
      then Some (?row\<lparr>row_version := row_version ?row + 1\<rparr>) else find_by row_id j (sessions db))" for j
    unfolding sess by (simp add: table_simps find_insert_or_ignore)
  have "unique_keys row_id (sessions ?db')"
    using assms unfolding sess by (simp add: db_inv_def table_simps unique_insert_or_ignore)
  then have "db_inv ?db'"
    using assms m unfolding db_inv_def find evs by (auto simp: row_matches_def split: option.splits)
  then show ?thesis by (simp add: evs)
qed

section \<open>The cache against the log\<close>

text \<open>A cached state agrees with the log up to the window.\<close>

definition windowed :: "nat \<Rightarrow> SessionState \<Rightarrow> SessionEvent list \<Rightarrow> bool" where
  "windowed w s es = (ss_history s = trim w (ps_history (replay es)) \<and>
     ss_durable_constraints s = ps_durable_constraints (replay es) \<and>
     ss_current_agent s = ps_current_agent (replay es) \<and> ss_current_model s = ps_current_model (replay es))"

lemma trim_snoc: "trim w (trim w h @ [m]) = trim w (h @ [m])"
proof (cases "length h \<le> w")
  case False
  then have "drop 1 (drop (length h - w) h @ [m]) = drop (length h + 1 - w) (h @ [m])"
    by (cases w) (auto simp: Suc_diff_le drop_Suc tl_drop Suc_diff_Suc)
  with False show ?thesis by (cases w) (auto simp: trim_def Suc_diff_le)
qed (simp add: trim_def)

lemma trim_short: "length h \<le> w \<Longrightarrow> trim w h = h"
  by (simp add: trim_def)

lemma length_trim: "length (trim w h) = min w (length h)"
  by (simp add: trim_def)

text \<open>Every cached mutation follows its event on the log, as long as a history is only
  replaced while the whole history fits the window.\<close>

lemma mutate_windowed:
  assumes "windowed w s es"
    and "\<forall>p. e \<noteq> SnapshotReplace p"
    and "\<forall>n m. e = ReplaceHistory n m \<longrightarrow> length (ps_history (replay es)) \<le> w"
  shows "windowed w (mutate w e s) (es @ [e])"
proof (cases e)
  case (ReplaceHistory n m)
  with assms show ?thesis by (simp add: windowed_def trim_short)
next
  case (UpdateOverrides a m)
  with assms(1) show ?thesis by (simp add: windowed_def split: option.splits)
qed (use assms in \<open>simp_all add: windowed_def trim_snoc\<close>, simp_all add: trim_def)

section \<open>Mutations under concurrency\<close>

lemma base_version:
  assumes "db_inv db" "\<And>s. cached (cache mem) sid = Some s \<Longrightarrow> ss_version s \<le> length (events_of db sid)"
  shows "ss_version (base_state mem db sid) \<le> length (events_of db sid)"
  using assms load_session_version [OF assms(1), of sid]
  by (auto simp: base_state_def default_session_def split: option.splits)

lemma loop_step_Ok:
  assumes "db_inv db1" "ss_version (base_state mem db sid) = length (events_of db1 sid)" "db1 = others i db"
  obtains db2 where "mutation_loop now others sid e i (Suc left) mem db =
      (mem\<lparr>cache := cache_insert sid ((mutate (window_size mem) e (base_state mem db sid))
         \<lparr>ss_version := Suc (length (events_of db1 sid))\<rparr>) (cache mem)\<rparr>, db2, Ok ())"
    and "db_inv db2" "events_of db2 sid = events_of db1 sid @ [e]"
proof -
  obtain db2 v where r: "append_event now sid (ss_version (base_state mem db sid)) e db1 = Inr (db2, v)"
    using append_event_iff [OF assms(1)] assms(2) by (metis prod.collapse)
  from append_event_Ok [OF assms(1) r] have "db_inv db2" "events_of db2 sid = events_of db1 sid @ [e]"
    "v = Suc (length (events_of db1 sid))"
    using assms(2) by auto
  with r assms(3) that show thesis by (simp add: Let_def)
qed

lemma loop_step_conflict:
  assumes "db_inv db1" "ss_version (base_state mem db sid) \<noteq> length (events_of db1 sid)" "db1 = others i db"
  shows "mutation_loop now others sid e i (Suc left) mem db =
    mutation_loop now others sid e (Suc i) left
      (case load_session db1 sid of Some l \<Rightarrow> mem\<lparr>cache := cache_insert sid l (cache mem)\<rparr> | None \<Rightarrow> mem) db1"
proof -
  have "\<nexists>r. append_event now sid (ss_version (base_state mem db sid)) e db1 = Inr r"
    using append_event_iff [OF assms(1)] assms(2) by blast
  then obtain x y where "append_event now sid (ss_version (base_state mem db sid)) e db1 = Inl (VersionConflict x y)"
    by (metis (full_types) PersistenceError.exhaust sum.exhaust)
  with assms(3) show ?thesis by (simp add: Let_def)
qed

lemma base_after_reload:
  "load_session db sid = Some l \<Longrightarrow>
   base_state (mem\<lparr>cache := cache_insert sid l (cache mem)\<rparr>) db sid = l"
  by (simp add: base_state_def table_simps)

text \<open>An event whose first attempt lost the race to other writers goes on top of what
  they wrote.\<close>

lemma mutation_one_race:
  assumes "db_inv db" "db_inv db1" "db1 = others 0 db"
    and grow: "length (events_of db sid) \<le> length (events_of db1 sid)"
    and "\<And>d. others 1 d = d"
    and cached: "\<And>s. cached (cache mem) sid = Some s \<Longrightarrow> ss_version s \<le> length (events_of db sid)"
  obtains mem' db' s where "mutation_loop now others sid e 0 2 mem db = (mem', db', Ok ())"
    "db_inv db'" "events_of db' sid = events_of db1 sid @ [e]"
    "cached (cache mem') sid = Some s" "ss_version s = length (events_of db' sid)"
proof (cases "ss_version (base_state mem db sid) = length (events_of db1 sid)")
  case True
  from loop_step_Ok [where others = others and i = 0 and now = now and e = e and left = 1, OF assms(2) True assms(3)] obtain db2 where
    "mutation_loop now others sid e 0 2 mem db = (mem\<lparr>cache := cache_insert sid ((mutate (window_size mem) e
       (base_state mem db sid))\<lparr>ss_version := Suc (length (events_of db1 sid))\<rparr>) (cache mem)\<rparr>, db2, Ok ())"
    "db_inv db2" "events_of db2 sid = events_of db1 sid @ [e]"
    by (metis numeral_2_eq_2 One_nat_def)
  then show thesis by (intro that) (auto simp: table_simps)
next
  case False
  then have "ss_version (base_state mem db sid) < length (events_of db1 sid)"
    using base_version [OF assms(1) cached] grow by fastforce
  then have "events_of db1 sid \<noteq> []" by auto
  then have "find_by row_id sid (sessions db1) \<noteq> None"
    using db_invD [OF assms(2), of sid] by (auto split: option.splits)
  then obtain l where l: "load_session db1 sid = Some l"
    using load_session_None_iff by fastforce
  let ?mem = "mem\<lparr>cache := cache_insert sid l (cache mem)\<rparr>"
  have "mutation_loop now others sid e 0 2 mem db = mutation_loop now others sid e 1 1 ?mem db1"
    using loop_step_conflict [where others = others and i = 0 and now = now and e = e and left = 1, OF assms(2) False assms(3)] l by (simp add: numeral_2_eq_2)
  moreover have "ss_version (base_state ?mem db1 sid) = length (events_of db1 sid)"
    using base_after_reload [OF l] load_session_version [OF assms(2) l] by simp
  from loop_step_Ok [where others = others and i = 1 and now = now and e = e and left = 0, OF assms(2) this] assms(5)
  obtain db2 where
    "mutation_loop now others sid e 1 1 ?mem db1 = (?mem\<lparr>cache := cache_insert sid ((mutate (window_size ?mem) e
       (base_state ?mem db1 sid))\<lparr>ss_version := Suc (length (events_of db1 sid))\<rparr>) (cache ?mem)\<rparr>, db2, Ok ())"
    "db_inv db2" "events_of db2 sid = events_of db1 sid @ [e]"
    by (metis One_nat_def)
  ultimately show thesis by (intro that) (auto simp: table_simps)
qed


definition fits_event :: "nat \<Rightarrow> SessionEvent list \<Rightarrow> SessionEvent \<Rightarrow> bool" where
  "fits_event w es e = (case e of
      ReplaceHistory _ _ \<Rightarrow> length (ps_history (replay es)) \<le> w
    | SnapshotReplace _ \<Rightarrow> False
    | _ \<Rightarrow> True)"

definition replace_fits :: "nat \<Rightarrow> SessionEvent list \<Rightarrow> bool" where
  "replace_fits w es = (\<forall>i<length es. fits_event w (take i es) (es ! i))"

lemma replace_fits_snoc: "replace_fits w (es @ [e]) \<longleftrightarrow> replace_fits w es \<and> fits_event w es e"
  by (auto simp: replace_fits_def nth_append less_Suc_eq)

lemma windowed_default: "windowed w default_session []"
  by (simp add: windowed_def default_session_def empty_persisted_def trim_def)

section \<open>Properties\<close>

text \<open>C8: whatever appends the processes attempt on a fresh database, in whatever order
  and with whatever expected versions, the log of each session consists of exactly the
  accepted events in order, accepted with the consecutive versions 0, 1, 2, ... (of the
  writers that saw one version only the first gets through), and loading a session that
  has events yields the replay of its log with the log's length as version.\<close>

theorem session_log_is_truth:
  assumes "run_appends (append_event now) as empty_db = (db, acc)"
    and "mine = filter (\<lambda>a. fst a = sid) acc"
  shows "events_of db sid = map (\<lambda>a. snd (snd a)) mine \<and>
    map (\<lambda>a. fst (snd a)) mine = [0..<length mine] \<and>
    (mine \<noteq> [] \<longrightarrow> map_option to_persisted (load_session db sid) = Some (replay (events_of db sid)) \<and>
       map_option ss_version (load_session db sid) = Some (length mine))"
proof -
  from session_log.appends_in_order [OF db_inv_empty assms(1), of sid]
  have inv: "db_inv db" and log: "events_of db sid = map (\<lambda>a. snd (snd a)) mine"
    and ver: "map (\<lambda>a. fst (snd a)) mine = [0..<length mine]"
    using assms(2) by (simp_all add: events_of_def empty_db_def)
  have "find_by row_id sid (sessions db) \<noteq> None" if "mine \<noteq> []"
    using that db_invD [OF inv, of sid] log by (auto split: option.splits)
  then show ?thesis
    using log ver by (cases "mine = []") (auto simp: load_session_replay [OF inv] to_persisted_def)
qed

definition ex_msg :: "string \<Rightarrow> Message" where
  "ex_msg c = \<lparr>msg_role = ''user'', msg_content = c, msg_timestamp_us = 1\<rparr>"

definition ex_attempts :: "(string \<times> nat \<times> SessionEvent) list" where
  "ex_attempts = [(''s'', 0, AppendMessage (ex_msg ''a'')), (''s'', 0, AppendMessage (ex_msg ''lost'')),
     (''s'', 1, AddConstraint ''c'')]"

lemmas ex_db_defs = append_event_cases row_of_def insert_or_ignore_def fresh_row_def empty_db_def
  has_key_def update_by_def write_row_def replay_session_events_def events_of_def empty_persisted_def replay_def

theorem session_log_is_truth_witness:
  "events_of (fst (run_appends (append_event 7) ex_attempts empty_db)) ''s'' =
     [AppendMessage (ex_msg ''a''), AddConstraint ''c'']"
proof -
  have "snd (run_appends (append_event 7) ex_attempts empty_db) =
      [(''s'', 0, AppendMessage (ex_msg ''a'')), (''s'', 1, AddConstraint ''c'')]"
    by (simp add: ex_attempts_def ex_db_defs)
  then show ?thesis
    using session_log_is_truth [OF surjective_pairing refl, of 7 ex_attempts "''s''"] by simp
qed

text \<open>C27: a SQLite-backed mutation survives losing one race: whatever the other processes
  committed between its first read and its first append, the mutation succeeds when nobody
  interferes with the second attempt, its event is appended after everything the others
  wrote, nothing of theirs is lost, and the cache then holds the new version.\<close>

theorem mutation_survives_one_race:
  assumes "sqlite_backed mem" "db_inv db" "db_inv (others 0 db)" "others 1 = (\<lambda>d. d)"
    and "length (events_of db sid) \<le> length (events_of (others 0 db) sid)"
    and "\<forall>s. cached (cache mem) sid = Some s \<longrightarrow> ss_version s \<le> length (events_of db sid)"
  shows "\<exists>mem' db'. apply_session_mutation now others sid e mem db = (mem', db', Ok ()) \<and> db_inv db' \<and>
    events_of db' sid = events_of (others 0 db) sid @ [e] \<and>
    map_option ss_version (cached (cache mem') sid) = Some (length (events_of db' sid))"
proof -
  obtain mem' db' s where "mutation_loop now others sid e 0 2 mem db = (mem', db', Ok ())"
    "db_inv db'" "events_of db' sid = events_of (others 0 db) sid @ [e]"
    "cached (cache mem') sid = Some s" "ss_version s = length (events_of db' sid)"
    by (rule mutation_one_race [of db "others 0 db" others sid mem now e]) (use assms in auto)
  with assms(1) show ?thesis by (auto simp: apply_session_mutation_def)
qed

theorem mutation_survives_one_race_witness:
  "\<exists>mem' db'. apply_session_mutation 7 (\<lambda>i d. if i = 0 then fst (run_appends (append_event 7) ex_attempts d) else d)
      ''s'' (AddConstraint ''mine'') \<lparr>window_size = 3, sqlite_backed = True, cache = []\<rparr> empty_db = (mem', db', Ok ()) \<and>
    events_of db' ''s'' = [AppendMessage (ex_msg ''a''), AddConstraint ''c'', AddConstraint ''mine'']"
proof -
  let ?o = "\<lambda>i d. if i = (0 :: nat) then fst (run_appends (append_event 7) ex_attempts d) else d"
  have inv: "db_inv (fst (run_appends (append_event 7) ex_attempts empty_db))"
    using session_log.appends_in_order [OF db_inv_empty surjective_pairing] by blast
  have log: "events_of (fst (run_appends (append_event 7) ex_attempts empty_db)) ''s'' =
      [AppendMessage (ex_msg ''a''), AddConstraint ''c'']"
    by (simp add: ex_attempts_def ex_db_defs)
  from mutation_survives_one_race [of "\<lparr>window_size = 3, sqlite_backed = True, cache = []\<rparr>" empty_db ?o "''s''" 7
      "AddConstraint ''mine''"] inv log db_inv_empty
  show ?thesis by (auto simp: events_of_def empty_db_def)
qed

text \<open>The cache refines the log: the state a process builds by its windowed updates
  is the replay of the same events with the history cut to the last window-size messages,
  as long as histories are replaced only while the whole history fits the window.\<close>

lemma cache_refines_log:
  assumes "replace_fits w es"
  shows "windowed w (fold (mutate w) es default_session) es"
  using assms
proof (induction es rule: rev_induct)
  case Nil
  show ?case by (simp add: windowed_default)
next
  case (snoc e es)
  from snoc.prems have fits: "replace_fits w es" and e: "\<forall>p. e \<noteq> SnapshotReplace p"
    "\<forall>n m. e = ReplaceHistory n m \<longrightarrow> length (ps_history (replay es)) \<le> w"
    by (auto simp: replace_fits_snoc fits_event_def)
  show ?case using mutate_windowed [OF snoc.IH [OF fits] e] by simp
qed

lemma cache_refines_log_example:
  "ss_history (fold (mutate 2) [AppendMessage (ex_msg ''a''), AppendMessage (ex_msg ''b''), AppendMessage (ex_msg ''c'')]
     default_session) = [ex_msg ''b'', ex_msg ''c'']"
proof -
  let ?es = "[AppendMessage (ex_msg ''a''), AppendMessage (ex_msg ''b''), AppendMessage (ex_msg ''c'')]"
  have "replace_fits 2 ?es" by (simp add: replace_fits_def fits_event_def nth_Cons split: nat.splits)
  from cache_refines_log [OF this] show ?thesis
    by (simp add: windowed_def replay_def empty_persisted_def trim_def)
qed

text \<open>Past the window the refinement breaks: once the log holds more messages than the
  window, replacing two or more (at most window-many) messages leaves the cache in a state
  the log's replay does not give, since the two drop different messages; and replacing none
  while the cached window is full drops the new summary itself.\<close>

lemma replace_history_past_window:
  assumes "windowed w s es" "2 \<le> n" "n \<le> w" "w < length (ps_history (replay es))"
  shows "\<not> windowed w (mutate w (ReplaceHistory n m) s) (es @ [ReplaceHistory n m]) \<and>
    mutate w (ReplaceHistory 0 m) s = s"
proof -
  let ?h = "ps_history (replay es)"
  have l: "length (ss_history s) = w"
    using assms(1,4) by (simp add: windowed_def length_trim)
  have "length (ss_history (mutate w (ReplaceHistory n m) s)) = Suc (w - n)"
    using l assms(2,3) by (simp add: length_trim)
  moreover have "length (trim w (ps_history (replay (es @ [ReplaceHistory n m])))) = min w (Suc (length ?h - n))"
    using assms(3,4) by (simp add: length_trim)
  moreover have "Suc (w - n) < min w (Suc (length ?h - n))" using assms(2,3,4) by auto
  ultimately have "ss_history (mutate w (ReplaceHistory n m) s) \<noteq>
      trim w (ps_history (replay (es @ [ReplaceHistory n m])))"
    by (metis less_irrefl)
  moreover have "mutate w (ReplaceHistory 0 m) s = s"
    using l by (simp add: trim_def)
  ultimately show ?thesis by (simp add: windowed_def)
qed

lemma replace_history_past_window_example:
  "\<not> windowed 2 (mutate 2 (ReplaceHistory 2 (ex_msg ''sum'')) (default_session\<lparr>ss_history := [ex_msg ''b'', ex_msg ''c'']\<rparr>))
     [AppendMessage (ex_msg ''a''), AppendMessage (ex_msg ''b''), AppendMessage (ex_msg ''c''),
      ReplaceHistory 2 (ex_msg ''sum'')]"
  using replace_history_past_window [of 2 "default_session\<lparr>ss_history := [ex_msg ''b'', ex_msg ''c'']\<rparr>"
      "[AppendMessage (ex_msg ''a''), AppendMessage (ex_msg ''b''), AppendMessage (ex_msg ''c'')]" 2 "ex_msg ''sum''"]
  by (simp add: windowed_def replay_def empty_persisted_def default_session_def trim_def)

text \<open>Loading preferences replaces the store instead of merging into it.\<close>

lemma pref_load_replaces:
  "fst (pref_load (Some (Some q)) p) = q" "fst (pref_load (Some None) p) = []"
  by (simp_all add: pref_load_def)

lemma pref_get_set: "pref_get k (pref_set k' v p) = (if k = k' then Some v else pref_get k p)"
  by (simp add: pref_get_def pref_set_def table_simps)

lemma pref_get_remove: "pref_get k (pref_remove k' p) = (if k = k' then None else pref_get k p)"
  by (simp add: pref_get_def pref_remove_def table_simps)

end
