(* ===== verification/IndexTree.thy ===== *)
theory IndexTree
  imports Contracts "HOL-Library.Multiset"
begin

text \<open>The document index of \<open>aria-ssmu/src/lib.rs\<close>: a bounded tree of page nodes with
  least-recently-used eviction, child lookup, lexical retrieval, and its serialised form.
  The hash map of nodes is a list of nodes with distinct ids; where the code iterates over
  the map, the iteration order is a parameter.\<close>

section \<open>State\<close>

record PageNode =
  pn_node_id :: string
  pn_title :: string
  pn_summary :: string
  pn_start_index :: u32
  pn_end_index :: u32
  pn_children :: "string list"

datatype TreeError = DuplicateNode string | NodeNotFound string | TreeSerializationError string

record IndexTree =
  it_capacity :: nat
  it_nodes :: "PageNode list"
  it_lru_order :: "string list"
  it_evicted :: "PageNode list"

definition new_tree :: "nat \<Rightarrow> IndexTree" where
  "new_tree capacity = \<lparr>it_capacity = capacity, it_nodes = [], it_lru_order = [], it_evicted = []\<rparr>"

section \<open>Operations\<close>

definition touch :: "string \<Rightarrow> IndexTree \<Rightarrow> IndexTree" where
  "touch k t = (if k \<in> set (it_lru_order t)
     then t\<lparr>it_lru_order := remove1 k (it_lru_order t) @ [k]\<rparr> else t)"

definition evict_oldest :: "IndexTree \<Rightarrow> IndexTree \<times> PageNode option" where
  "evict_oldest t = (case it_lru_order t of
      [] \<Rightarrow> (t, None)
    | oldest # rest \<Rightarrow>
       (case find_by pn_node_id oldest (it_nodes t) of
          Some n \<Rightarrow> (t\<lparr>it_lru_order := rest, it_nodes := delete_by pn_node_id oldest (it_nodes t),
                     it_evicted := it_evicted t @ [n]\<rparr>, Some n)
        | None \<Rightarrow> (t\<lparr>it_lru_order := rest\<rparr>, None)))"

definition insert_node :: "PageNode \<Rightarrow> IndexTree \<Rightarrow> (TreeError, IndexTree \<times> PageNode option) result" where
  "insert_node n t =
    (if has_key pn_node_id (pn_node_id n) (it_nodes t) then Err (DuplicateNode (pn_node_id n))
     else let (t1, evicted) = (if it_capacity t \<le> length (it_nodes t) then evict_oldest t else (t, None)) in
       Ok (t1\<lparr>it_lru_order := it_lru_order t1 @ [pn_node_id n], it_nodes := it_nodes t1 @ [n]\<rparr>, evicted))"

definition get_node :: "string \<Rightarrow> IndexTree \<Rightarrow> IndexTree \<times> PageNode option" where
  "get_node k t = (if has_key pn_node_id k (it_nodes t)
     then (touch k t, find_by pn_node_id k (it_nodes (touch k t))) else (t, None))"

definition peek :: "string \<Rightarrow> IndexTree \<Rightarrow> PageNode option" where
  "peek k t = find_by pn_node_id k (it_nodes t)"

definition get_children :: "string \<Rightarrow> IndexTree \<Rightarrow> (TreeError, PageNode list) result" where
  "get_children k t = and_then (ok_or (NodeNotFound k) (peek k t))
     (\<lambda>parent. Ok (List.map_filter (\<lambda>c. peek c t) (pn_children parent)))"

text \<open>\<open>trim\<close> of an alphanumeric token changes nothing.\<close>

definition tokenize :: "string \<Rightarrow> string list" where
  "tokenize input = filter (\<lambda>t. t \<noteq> []) (map to_lower (split_on (\<lambda>c. \<not> is_alphanumeric c) input))"

definition overlap_score :: "string list \<Rightarrow> string list \<Rightarrow> nat" where
  "overlap_score haystack needles = length (filter (\<lambda>t. t \<in> set haystack) needles)"

definition node_score :: "string \<Rightarrow> PageNode \<Rightarrow> nat" where
  "node_score query n = overlap_score (tokenize (pn_title n @ '' '' @ pn_summary n)) (tokenize query)"

text \<open>\<open>vals\<close> is the order in which the hash map yields its nodes; the sort is stable.\<close>

definition retrieve_relevant :: "PageNode list \<Rightarrow> string \<Rightarrow> nat \<Rightarrow> PageNode list" where
  "retrieve_relevant vals query top_k =
    (if top_k = 0 \<or> trim_ws query = [] then []
     else if tokenize query = [] then []
     else take top_k (sort_key (\<lambda>n. - int (node_score query n)) (filter (\<lambda>n. 0 < node_score query n) vals)))"

text \<open>The list of nodes that \<open>to_json\<close> serialises, and the loop of \<open>from_json\<close> over the
  parsed list.\<close>

definition to_json_nodes :: "IndexTree \<Rightarrow> PageNode list" where
  "to_json_nodes t = List.map_filter (\<lambda>k. peek k t) (it_lru_order t)"

definition insert_ignore :: "PageNode \<Rightarrow> IndexTree \<Rightarrow> IndexTree" where
  "insert_ignore n t = (case insert_node n t of Inl _ \<Rightarrow> t | Inr (t', _) \<Rightarrow> t')"

definition from_json_nodes :: "nat \<Rightarrow> PageNode list \<Rightarrow> IndexTree" where
  "from_json_nodes capacity ns = fold insert_ignore ns (new_tree capacity)"

text \<open>The two public wrappers of the tree, \<open>CapabilityIndex\<close> and \<open>DocumentIndex\<close>.\<close>

record CapabilityIndex = ci_tree :: IndexTree
record DocumentIndex = di_tree :: IndexTree

definition capability_insert ::
  "PageNode \<Rightarrow> CapabilityIndex \<Rightarrow> (TreeError, CapabilityIndex \<times> PageNode option) result" where
  "capability_insert n ix = map_ok (\<lambda>(t, ev). (\<lparr>ci_tree = t\<rparr>, ev)) (insert_node n (ci_tree ix))"

definition document_insert ::
  "PageNode \<Rightarrow> DocumentIndex \<Rightarrow> (TreeError, DocumentIndex \<times> PageNode option) result" where
  "document_insert n ix = map_ok (\<lambda>(t, ev). (\<lparr>di_tree = t\<rparr>, ev)) (insert_node n (di_tree ix))"

section \<open>The invariant\<close>

definition tree_inv :: "IndexTree \<Rightarrow> bool" where
  "tree_inv t = (distinct (it_lru_order t) \<and> unique_keys pn_node_id (it_nodes t) \<and>
     set (it_lru_order t) = keys_of pn_node_id (it_nodes t))"

lemma tree_inv_new [simp]: "tree_inv (new_tree c)"
  by (simp add: tree_inv_def new_tree_def)

lemma tree_inv_length: "tree_inv t \<Longrightarrow> length (it_lru_order t) = length (it_nodes t)"
  unfolding tree_inv_def by (metis distinct_card length_map list.set_map)

lemma touch_inv: "tree_inv t \<Longrightarrow> tree_inv (touch k t)"
  by (auto simp: tree_inv_def touch_def)

lemma get_inv: "tree_inv t \<Longrightarrow> tree_inv (fst (get_node k t))"
  by (simp add: get_node_def touch_inv)

lemma evict_cases:
  assumes "tree_inv t"
  obtains "it_lru_order t = []" "it_nodes t = []" "evict_oldest t = (t, None)"
  | n where "it_lru_order t = pn_node_id n # tl (it_lru_order t)" "n \<in> set (it_nodes t)"
    "evict_oldest t = (t\<lparr>it_lru_order := tl (it_lru_order t),
       it_nodes := delete_by pn_node_id (pn_node_id n) (it_nodes t), it_evicted := it_evicted t @ [n]\<rparr>, Some n)"
proof (cases "it_lru_order t")
  case Nil
  with assms that(1) show ?thesis by (simp add: tree_inv_def evict_oldest_def)
next
  case (Cons k ks)
  with assms have "k \<in> keys_of pn_node_id (it_nodes t)" by (auto simp: tree_inv_def)
  then obtain n where n: "find_by pn_node_id k (it_nodes t) = Some n"
    by (metis find_by_None_iff not_None_eq)
  with find_by_SomeD [OF n] Cons that(2) [of n] show ?thesis by (simp add: evict_oldest_def)
qed

lemma evict_inv: "tree_inv t \<Longrightarrow> tree_inv (fst (evict_oldest t))"
proof -
  assume inv: "tree_inv t"
  then show ?thesis
  proof (cases rule: evict_cases)
    case (2 n)
    from inv have "distinct (pn_node_id n # tl (it_lru_order t))"
      "set (pn_node_id n # tl (it_lru_order t)) = keys_of pn_node_id (it_nodes t)"
      unfolding tree_inv_def by (metis 2(1))+
    with inv 2(3) show ?thesis by (auto simp: tree_inv_def table_simps)
  qed (use inv in simp)
qed

lemma mset_delete_by:
  "unique_keys key t \<Longrightarrow> n \<in> set t \<Longrightarrow> add_mset n (mset (delete_by key (key n) t)) = mset t"
proof (induction t)
  case (Cons r t)
  show ?case
  proof (cases "r = n")
    case True
    with Cons.prems(1) have "delete_by key (key n) t = t"
      by (auto simp: delete_by_def filter_id_conv image_iff)
    with True show ?thesis by (simp add: delete_by_def)
  next
    case False
    with Cons show ?thesis by (auto simp: delete_by_def)
  qed
qed simp

lemma insert_node_Ok:
  assumes inv: "tree_inv t" and ok: "insert_node n t = Inr (t', ev)"
  shows "tree_inv t'" "it_capacity t' = it_capacity t"
    "it_lru_order t' = lru_step (it_capacity t) (pn_node_id n) (it_lru_order t)"
    "mset (it_nodes t') + mset (it_evicted t') = add_mset n (mset (it_nodes t) + mset (it_evicted t))"
proof -
  from ok have new: "pn_node_id n \<notin> keys_of pn_node_id (it_nodes t)"
    by (auto simp: insert_node_def has_key_iff split: if_splits)
  then have fresh: "pn_node_id n \<notin> set (it_lru_order t)" using inv by (simp add: tree_inv_def)
  define t1 where "t1 = (if it_capacity t \<le> length (it_nodes t) then fst (evict_oldest t) else t)"
  have t': "t' = t1\<lparr>it_lru_order := it_lru_order t1 @ [pn_node_id n], it_nodes := it_nodes t1 @ [n]\<rparr>"
    using ok by (auto simp: insert_node_def t1_def split: if_splits prod.splits)
  have inv1: "tree_inv t1" using evict_inv [OF inv] inv by (simp add: t1_def)
  have len: "length (it_lru_order t) = length (it_nodes t)" by (rule tree_inv_length [OF inv])
  have t1: "it_capacity t1 = it_capacity t \<and>
    it_lru_order t1 = (if it_capacity t \<le> length (it_lru_order t) then tl (it_lru_order t) else it_lru_order t) \<and>
    mset (it_nodes t1) + mset (it_evicted t1) = mset (it_nodes t) + mset (it_evicted t) \<and>
    keys_of pn_node_id (it_nodes t1) \<subseteq> keys_of pn_node_id (it_nodes t)"
    using inv
  proof (cases rule: evict_cases)
    case 1
    then show ?thesis by (simp add: t1_def)
  next
    case (2 m)
    have "add_mset m (mset (delete_by pn_node_id (pn_node_id m) (it_nodes t))) = mset (it_nodes t)"
      using inv 2(2) by (simp add: tree_inv_def mset_delete_by)
    then have "mset (delete_by pn_node_id (pn_node_id m) (it_nodes t)) + add_mset m (mset (it_evicted t)) =
        mset (it_nodes t) + mset (it_evicted t)"
      by (metis add_mset_add_single union_assoc union_commute)
    with 2(3) len show ?thesis by (auto simp: t1_def keys_delete_by)
  qed
  show "tree_inv t'" using inv1 t1 new fresh by (auto simp: t' tree_inv_def)
  show "it_capacity t' = it_capacity t" by (simp add: t' t1)
  show "it_lru_order t' = lru_step (it_capacity t) (pn_node_id n) (it_lru_order t)"
    using fresh by (simp add: t' t1 lru_step_def)
  show "mset (it_nodes t') + mset (it_evicted t') = add_mset n (mset (it_nodes t) + mset (it_evicted t))"
    using t1 by (simp add: t')
qed


section \<open>The tree as an LRU cache\<close>

text \<open>A use of a node: read it if it is in memory, insert it otherwise.\<close>

definition use_node :: "PageNode \<Rightarrow> IndexTree \<Rightarrow> IndexTree option" where
  "use_node n t =
    (if has_key pn_node_id (pn_node_id n) (it_nodes t) then Some (fst (get_node (pn_node_id n) t))
     else case insert_node n t of Inr (t', _) \<Rightarrow> Some t' | Inl _ \<Rightarrow> None)"

lemma use_node_cases:
  assumes "tree_inv t" "use_node n t = Some t'"
  shows "tree_inv t' \<and> it_lru_order t' = lru_step (it_capacity t) (pn_node_id n) (it_lru_order t) \<and>
    it_capacity t' = it_capacity t"
proof (cases "has_key pn_node_id (pn_node_id n) (it_nodes t)")
  case True
  with assms have "t' = touch (pn_node_id n) t" "pn_node_id n \<in> set (it_lru_order t)"
    by (auto simp: use_node_def get_node_def tree_inv_def has_key_iff)
  with touch_inv [OF assms(1), of "pn_node_id n"] show ?thesis by (simp add: touch_def lru_step_def)
next
  case False
  with assms obtain ev where "insert_node n t = Inr (t', ev)"
    by (auto simp: use_node_def split: sum.splits)
  with insert_node_Ok [OF assms(1) this] show ?thesis by simp
qed

lemma use_node_total: "\<exists>t'. use_node n t = Some t'"
  by (auto simp: use_node_def insert_node_def split: prod.splits)

interpretation index: lru_cache tree_inv it_lru_order it_capacity pn_node_id use_node
  using use_node_cases by unfold_locales blast+

lemma use_all_total: "\<exists>t'. use_all use_node ns t = Some t'"
  by (induction ns arbitrary: t) (use use_node_total in \<open>auto split: option.splits\<close>)

section \<open>Retrieval\<close>

lemma sort_key_take_best:
  fixes score :: "'a \<Rightarrow> nat"
  assumes "x \<in> set (take k (sort_key (\<lambda>n. - int (score n)) xs))"
    and "y \<in> set (drop k (sort_key (\<lambda>n. - int (score n)) xs))"
  shows "score y \<le> score x"
proof -
  let ?s = "sort_key (\<lambda>n. - int (score n)) xs"
  have "sorted (map (\<lambda>n. - int (score n)) (take k ?s @ drop k ?s))"
    by (simp only: append_take_drop_id sorted_sort_key)
  then show ?thesis using assms by (simp only: map_append sorted_append set_map) fastforce
qed

lemma sort_key_set_take: "set (take k (sort_key f xs)) \<union> set (drop k (sort_key f xs)) = set xs"
  by (metis append_take_drop_id set_append set_sort)

section \<open>The serialised form\<close>

lemma insert_fits:
  assumes "pn_node_id n \<notin> keys_of pn_node_id (it_nodes t)" "length (it_nodes t) < it_capacity t"
  shows "insert_ignore n t = t\<lparr>it_lru_order := it_lru_order t @ [pn_node_id n], it_nodes := it_nodes t @ [n]\<rparr>"
  using assms by (simp add: insert_ignore_def insert_node_def has_key_iff)

lemma fold_insert_fits:
  assumes "unique_keys pn_node_id (it_nodes t @ ns)" "length (it_nodes t) + length ns \<le> it_capacity t"
  shows "fold insert_ignore ns t =
    t\<lparr>it_lru_order := it_lru_order t @ map pn_node_id ns, it_nodes := it_nodes t @ ns\<rparr>"
  using assms
proof (induction ns arbitrary: t)
  case (Cons n ns)
  then have "insert_ignore n t = t\<lparr>it_lru_order := it_lru_order t @ [pn_node_id n], it_nodes := it_nodes t @ [n]\<rparr>"
    by (intro insert_fits) auto
  with Cons show ?case by simp
qed simp

lemma map_filter_peek:
  assumes "\<forall>k\<in>set ks. peek k t \<noteq> None"
  shows "map pn_node_id (List.map_filter (\<lambda>k. peek k t) ks) = ks"
  using assms
  by (induction ks) (auto simp: List.map_filter_simps peek_def dest: find_by_SomeD split: option.splits)

lemma to_json_nodes_spec:
  assumes "tree_inv t"
  shows "map pn_node_id (to_json_nodes t) = it_lru_order t" "set (to_json_nodes t) = set (it_nodes t)"
proof -
  have "\<forall>k\<in>set (it_lru_order t). peek k t \<noteq> None"
    using assms by (auto simp: tree_inv_def peek_def find_by_None_iff)
  then show "map pn_node_id (to_json_nodes t) = it_lru_order t"
    by (simp add: to_json_nodes_def map_filter_peek)
  have mem: "n \<in> set (to_json_nodes t) \<longleftrightarrow> (\<exists>k\<in>set (it_lru_order t). find_by pn_node_id k (it_nodes t) = Some n)" for n
    by (force simp: to_json_nodes_def List.map_filter_def peek_def image_iff)
  have d: "unique_keys pn_node_id (it_nodes t)" "set (it_lru_order t) = keys_of pn_node_id (it_nodes t)"
    using assms by (simp_all add: tree_inv_def)
  have "n \<in> set (to_json_nodes t) \<longleftrightarrow> n \<in> set (it_nodes t)" for n
  proof
    assume "n \<in> set (to_json_nodes t)"
    then show "n \<in> set (it_nodes t)" using mem find_by_SomeD by metis
  next
    assume n: "n \<in> set (it_nodes t)"
    then have "pn_node_id n \<in> set (it_lru_order t)" using d(2) by simp
    with find_by_unique [OF d(1) n] show "n \<in> set (to_json_nodes t)" using mem by blast
  qed
  then show "set (to_json_nodes t) = set (it_nodes t)" by blast
qed

section \<open>Properties\<close>

text \<open>C40: the tree is an LRU cache: after using any sequence of nodes on a new tree it
  holds exactly the most recently used distinct ids, as many as its capacity allows (one if
  the capacity is 0), in the order of their last use, and no other node is in memory.\<close>

theorem index_holds_most_recent:
  "\<exists>t. use_all use_node ns (new_tree c) = Some t \<and>
     it_lru_order t = last_n (max 1 c) (remdups (map pn_node_id ns)) \<and>
     keys_of pn_node_id (it_nodes t) = set (last_n (max 1 c) (remdups (map pn_node_id ns))) \<and>
     length (it_nodes t) \<le> max 1 c"
proof -
  obtain t where t: "use_all use_node ns (new_tree c) = Some t" using use_all_total by blast
  have "it_capacity (new_tree c) = c" "it_lru_order (new_tree c) = []" by (simp_all add: new_tree_def)
  with index.holds_most_recent [OF tree_inv_new _ t]
  have inv: "tree_inv t" and lru: "it_lru_order t = last_n (max 1 c) (remdups (map pn_node_id ns))"
    by auto
  have "length (it_nodes t) \<le> max 1 c"
    using tree_inv_length [OF inv] by (simp add: lru length_last_n)
  moreover have "keys_of pn_node_id (it_nodes t) = set (it_lru_order t)"
    using inv by (simp add: tree_inv_def)
  ultimately show ?thesis using t lru by simp
qed

text \<open>Inserting never loses a node: a new node joins the tree, whatever leaves memory
  is in the evicted buffer, so memory and buffer together gain exactly the new node; and
  the tree's invariant (LRU order and node map hold the same distinct ids) is kept.\<close>

lemma insert_conserves_nodes:
  assumes "tree_inv t" "insert_node n t = Inr (t', ev)"
  shows "tree_inv t' \<and> mset (it_nodes t') + mset (it_evicted t') =
    add_mset n (mset (it_nodes t) + mset (it_evicted t))"
  using insert_node_Ok [OF assms] by simp

definition ex_node :: "string \<Rightarrow> string \<Rightarrow> PageNode" where
  "ex_node k title = \<lparr>pn_node_id = k, pn_title = title, pn_summary = ''about it'', pn_start_index = 0,
     pn_end_index = 1, pn_children = []\<rparr>"

lemma insert_conserves_nodes_example:
  "\<exists>t'. insert_node (ex_node ''b'' ''two'') (insert_ignore (ex_node ''a'' ''one'') (new_tree 1)) =
      Inr (t', Some (ex_node ''a'' ''one'')) \<and> mset (it_nodes t') + mset (it_evicted t') =
      {#ex_node ''a'' ''one'', ex_node ''b'' ''two''#}"
proof -
  let ?t = "insert_ignore (ex_node ''a'' ''one'') (new_tree 1)"
  have "insert_node (ex_node ''b'' ''two'') ?t = Inr (fst (projr (insert_node (ex_node ''b'' ''two'') ?t)), Some (ex_node ''a'' ''one''))"
    "tree_inv ?t" "it_nodes ?t = [ex_node ''a'' ''one'']" "it_evicted ?t = []"
    by (simp_all add: insert_ignore_def insert_node_def new_tree_def evict_oldest_def has_key_def ex_node_def
        tree_inv_def)
  with insert_conserves_nodes [OF this(2,1)] show ?thesis
    by (intro exI conjI) (assumption, simp add: add_mset_commute)
qed

text \<open>Retrieval returns, whatever the order in which the hash map yields its nodes, at
  most the requested number of nodes of the tree, each sharing a term with the query, best
  score first, and leaves out no node that scores higher than one it returns.\<close>

lemma retrieve_relevant_best:
  assumes "mset vals = mset (it_nodes t)"
    and "res = retrieve_relevant vals query k"
  shows "length res \<le> k \<and> set res \<subseteq> set (it_nodes t) \<and>
    (\<forall>n\<in>set res. 0 < node_score query n) \<and> sorted (map (\<lambda>n. - int (node_score query n)) res) \<and>
    (\<forall>n\<in>set res. \<forall>m\<in>set (it_nodes t). m \<notin> set res \<longrightarrow> node_score query m \<le> node_score query n)"
proof (cases "k = 0 \<or> trim_ws query = [] \<or> tokenize query = []")
  case True
  then show ?thesis by (auto simp: assms(2) retrieve_relevant_def)
next
  case False
  let ?xs = "filter (\<lambda>n. 0 < node_score query n) vals"
  let ?s = "sort_key (\<lambda>n. - int (node_score query n)) ?xs"
  have res: "res = take k ?s" using False by (simp add: assms(2) retrieve_relevant_def)
  have vals: "set vals = set (it_nodes t)" using assms(1) by (metis set_mset_mset)
  have sub: "set res \<subseteq> set ?xs" using sort_key_set_take [of k _ ?xs] res by blast
  have "node_score query m \<le> node_score query n"
    if "n \<in> set res" "m \<in> set (it_nodes t)" "m \<notin> set res" for n m
  proof (cases "node_score query m = 0")
    case m: False
    then have "m \<in> set (drop k ?s)"
      using that sort_key_set_take [of k "\<lambda>n. - int (node_score query n)" ?xs] res vals by auto
    then show ?thesis using that(1) res sort_key_take_best by metis
  qed simp
  moreover have "sorted (map (\<lambda>n. - int (node_score query n)) res)"
    unfolding res take_map [symmetric] by (intro sorted_wrt_take) (rule sorted_sort_key)
  ultimately show ?thesis using sub vals by (auto simp: res)
qed

lemma retrieve_relevant_best_example:
  "length (retrieve_relevant [ex_node ''a'' ''one'', ex_node ''b'' ''two''] ''Two?'' 5) \<le> 5"
  using retrieve_relevant_best [of "[ex_node ''a'' ''one'', ex_node ''b'' ''two'']"
      "(new_tree 4)\<lparr>it_nodes := [ex_node ''a'' ''one'', ex_node ''b'' ''two'']\<rparr>" _ "''Two?''" 5, OF _ refl] by simp

text \<open>Serialising a tree and reading it back with enough capacity gives a tree with the
  same nodes under the same ids, the same LRU order, and nothing evicted.\<close>

lemma index_json_roundtrip:
  assumes "tree_inv t" "length (it_nodes t) \<le> c"
  defines "t' \<equiv> from_json_nodes c (to_json_nodes t)"
  shows "it_lru_order t' = it_lru_order t \<and> (\<forall>k. peek k t' = peek k t) \<and> it_evicted t' = [] \<and> tree_inv t'"
proof -
  let ?ns = "to_json_nodes t"
  note ns = to_json_nodes_spec [OF assms(1)]
  have d: "unique_keys pn_node_id ?ns" using ns(1) assms(1) by (simp add: tree_inv_def)
  have "length ?ns \<le> c"
    using ns(1) tree_inv_length [OF assms(1)] assms(2) by (metis length_map)
  then have t': "t' = (new_tree c)\<lparr>it_lru_order := it_lru_order t, it_nodes := ?ns\<rparr>"
    using fold_insert_fits [of "new_tree c" ?ns] d ns(1) by (simp add: t'_def from_json_nodes_def new_tree_def)
  have "find_by pn_node_id k ?ns = find_by pn_node_id k (it_nodes t)" for k
  proof (cases "find_by pn_node_id k (it_nodes t)")
    case None
    then have "find_by pn_node_id k ?ns = None" using ns(2) by (simp add: find_by_None_iff)
    with None show ?thesis by simp
  next
    case (Some n)
    with find_by_SomeD [OF Some] ns(2) find_by_unique [OF d] show ?thesis by auto
  qed
  with assms(1) d ns show ?thesis by (auto simp: t' peek_def tree_inv_def new_tree_def)
qed

lemma index_json_roundtrip_example:
  "it_lru_order (from_json_nodes 4 (to_json_nodes (insert_ignore (ex_node ''a'' ''one'') (new_tree 2)))) = [''a'']"
proof -
  have "tree_inv (insert_ignore (ex_node ''a'' ''one'') (new_tree 2))"
    "length (it_nodes (insert_ignore (ex_node ''a'' ''one'') (new_tree 2))) \<le> 4"
    "it_lru_order (insert_ignore (ex_node ''a'' ''one'') (new_tree 2)) = [''a'']"
    by (simp_all add: insert_ignore_def insert_node_def new_tree_def has_key_def ex_node_def tree_inv_def)
  with index_json_roundtrip [OF this(1,2)] show ?thesis by simp
qed

end
