(* ===== verification/ToolSchema.thy ===== *)
theory ToolSchema
  imports Float32 "HOL-Library.List_Lexorder" "HOL-Library.Char_ord"
begin

text \<open>Tool schemas and their visibility to a model (\<open>aria-intelligence/src/tools.rs\<close>,
  types of \<open>aria-core/src/model.rs\<close>): the normal form of a tool's parameter schema, the
  reduced form, and the decision whether a tool is offered to a model.  The JSON parser,
  printer and schema validator are serde's and jsonschema's: they are the parameters
  \<open>parse\<close>, \<open>print\<close> and \<open>valid\<close>.  A JSON object is the list of its members in insertion
  order, as \<open>serde_json\<close> keeps it when built with \<open>indexmap\<close>.\<close>

section \<open>JSON values\<close>

datatype json = JNull | JBool bool | JNumber string | JString string | JArray "json list"
  | JObject "(string \<times> json) list"

definition jhas :: "string \<Rightarrow> (string \<times> json) list \<Rightarrow> bool" where
  "jhas k m = (map_of m k \<noteq> None)"

definition jput :: "string \<Rightarrow> json \<Rightarrow> (string \<times> json) list \<Rightarrow> (string \<times> json) list" where
  "jput k v m = (if jhas k m then map (\<lambda>(a, b). (a, if a = k then v else b)) m else m @ [(k, v)])"

text \<open>\<open>Map::remove\<close> puts the last member in the place of the removed one.\<close>

fun jremove :: "string \<Rightarrow> (string \<times> json) list \<Rightarrow> (string \<times> json) list" where
  "jremove k [] = []"
| "jremove k ((a, b) # m) = (if a = k then (if m = [] then [] else last m # butlast m) else (a, b) # jremove k m)"

fun as_object :: "json \<Rightarrow> (string \<times> json) list option" where
  "as_object (JObject m) = Some m"
| "as_object _ = None"

lemma map_of_map_snd:
  "map_of (map (\<lambda>(a, b). (a, if a = k then v else b)) m) j =
     (if j = k then map_option (\<lambda>_. v) (map_of m j) else map_of m j)"
  by (induction m) auto

lemma map_of_jput [simp]: "map_of (jput k v m) j = (if j = k then Some v else map_of m j)"
  by (auto simp: jput_def jhas_def map_of_map_snd map_add_def split: option.splits)

lemma jput_nonempty [simp]: "jput k v m \<noteq> []"
  by (auto simp: jput_def jhas_def)

lemma distinct_jput: "distinct (map fst m) \<Longrightarrow> distinct (map fst (jput k v m))"
  by (auto simp: jput_def jhas_def map_of_eq_None_iff o_def case_prod_beta)

lemma set_jremove: "distinct (map fst m) \<Longrightarrow> set (jremove k m) = {p \<in> set m. fst p \<noteq> k}"
proof (induction m)
  case (Cons p m)
  obtain a b where p: "p = (a, b)" by (cases p)
  show ?case
  proof (cases "a = k")
    case True
    have "set (last m # butlast m) = set m" if "m \<noteq> []"
      using that by (metis append_butlast_last_id list.simps(15) rotate1.simps(2) set_append set_rotate1
          Un_insert_right sup_bot.right_neutral list.set(1))
    with True p Cons.prems show ?thesis by force
  qed (use Cons p in auto)
qed simp

section \<open>The normal form of a parameter schema\<close>

definition empty_schema :: "(string \<times> json) list" where
  "empty_schema = [(''type'', JString ''object''), (''properties'', JObject []), (''required'', JArray []),
     (''additionalProperties'', JBool False)]"

definition sorted_names :: "(string \<times> json) list \<Rightarrow> json" where
  "sorted_names m = JArray (map JString (sort (map fst m)))"

definition with_type :: "(string \<times> json) list \<Rightarrow> (string \<times> json) list" where
  "with_type m = (if map_of m ''type'' = Some (JString ''object'') then m else jput ''type'' (JString ''object'') m)"

definition with_properties :: "(string \<times> json) list \<Rightarrow> (string \<times> json) list" where
  "with_properties m = (if jhas ''properties'' m then m else jput ''properties'' (JObject []) m)"

definition with_required :: "(string \<times> json) list \<Rightarrow> (string \<times> json) list" where
  "with_required m = (if jhas ''required'' m then m else
     jput ''required'' (case Option.bind (map_of m ''properties'') as_object of
       Some props \<Rightarrow> sorted_names props | None \<Rightarrow> JArray []) m)"

definition with_additional :: "(string \<times> json) list \<Rightarrow> (string \<times> json) list" where
  "with_additional m = (if jhas ''additionalProperties'' m then m
     else jput ''additionalProperties'' (JBool False) m)"

definition normalize_object :: "(string \<times> json) list \<Rightarrow> (string \<times> json) list" where
  "normalize_object m =
    (if m = [] then empty_schema
     else if jhas ''type'' m \<or> jhas ''properties'' m then with_additional (with_required (with_properties (with_type m)))
     else [(''type'', JString ''object''), (''properties'', JObject m), (''required'', sorted_names m),
           (''additionalProperties'', JBool False)])"

definition normalize_tool_schema ::
  "(string \<Rightarrow> (string, json) result) \<Rightarrow> (json \<Rightarrow> (string, unit) result) \<Rightarrow> (json \<Rightarrow> (string, string) result)
    \<Rightarrow> string \<Rightarrow> (string, string) result" where
  "normalize_tool_schema parse valid print schema =
    and_then (if trim_ws schema = [] then Ok (JObject [])
       else map_err (\<lambda>e. ''tool schema is not valid JSON: '' @ e) (parse (trim_ws schema))) (\<lambda>value.
    and_then (ok_or ''tool schema must be a JSON object'' (as_object value)) (\<lambda>m.
    and_then (map_err (\<lambda>e. ''tool schema is not a valid JSON schema: '' @ e)
       (valid (JObject (normalize_object m)))) (\<lambda>_.
    map_err (\<lambda>e. ''serialize normalized schema failed: '' @ e) (print (JObject (normalize_object m))))))"

text \<open>The reduced form for models without strict schemas: no \<open>additionalProperties\<close>, no
  descriptions and examples on the properties.\<close>

fun reduce_property :: "json \<Rightarrow> json" where
  "reduce_property (JObject m) = JObject (jremove ''examples'' (jremove ''description'' m))"
| "reduce_property v = v"

definition reduce_object :: "(string \<times> json) list \<Rightarrow> (string \<times> json) list" where
  "reduce_object m = (let m' = jremove ''additionalProperties'' m in
     case Option.bind (map_of m' ''properties'') as_object of
       Some props \<Rightarrow> jput ''properties'' (JObject (map (\<lambda>(k, v). (k, reduce_property v)) props)) m'
     | None \<Rightarrow> m')"

definition reduce_tool_schema_for_compat ::
  "(string \<Rightarrow> (string, json) result) \<Rightarrow> (json \<Rightarrow> (string, unit) result) \<Rightarrow> (json \<Rightarrow> (string, string) result)
    \<Rightarrow> string \<Rightarrow> (string, string) result" where
  "reduce_tool_schema_for_compat parse valid print schema =
    and_then (normalize_tool_schema parse valid print schema) (\<lambda>normalized.
    and_then (map_err (\<lambda>e. ''parse normalized schema failed: '' @ e) (parse normalized)) (\<lambda>value.
    and_then (ok_or ''normalized tool schema must be an object'' (as_object value)) (\<lambda>m.
    map_err (\<lambda>e. ''serialize reduced schema failed: '' @ e) (print (JObject (reduce_object m))))))"

section \<open>Models and tools\<close>

datatype CapabilitySupport = Supported | Unsupported | UnknownSupport | DegradedSupport
datatype ToolSchemaMode = StrictJsonSchema | ReducedJsonSchema | SchemaUnsupported
datatype ToolResultMode = NativeStructured | TextBlock | ResultUnsupported
datatype ToolModality = TextModality | ImageModality | AudioModality
datatype AdapterFamily = OpenAiCompatible | Anthropic | GoogleGemini | OllamaNative | TextOnlyCli
datatype CapabilitySourceKind = LocalOverride | RuntimeProbe | ProviderCatalog

record ModelRef =
  mr_provider_id :: string
  mr_model_id :: string

record ModelCapabilityProfile =
  mc_model_ref :: ModelRef
  mc_adapter_family :: AdapterFamily
  mc_tool_calling :: CapabilitySupport
  mc_parallel_tool_calling :: CapabilitySupport
  mc_streaming :: CapabilitySupport
  mc_vision :: CapabilitySupport
  mc_json_mode :: CapabilitySupport
  mc_max_context_tokens :: "u32 option"
  mc_tool_schema_mode :: ToolSchemaMode
  mc_tool_result_mode :: ToolResultMode
  mc_supports_images :: CapabilitySupport
  mc_supports_audio :: CapabilitySupport
  mc_source :: CapabilitySourceKind
  mc_source_detail :: "string option"
  mc_observed_at_us :: u64
  mc_expires_at_us :: "u64 option"

record CachedTool =
  ct_name :: string
  ct_description :: string
  ct_parameters_schema :: string
  ct_embedding :: "f32 list"
  ct_requires_strict_schema :: bool
  ct_streaming_safe :: bool
  ct_parallel_safe :: bool
  ct_modalities :: "ToolModality list"

definition tool_requires_image_support :: "CachedTool \<Rightarrow> bool" where
  "tool_requires_image_support t = (ImageModality \<in> set (ct_modalities t))"

definition tool_requires_audio_support :: "CachedTool \<Rightarrow> bool" where
  "tool_requires_audio_support t = (AudioModality \<in> set (ct_modalities t))"

text \<open>\<open>nrm\<close> is \<open>normalize_tool_schema\<close> for some parser, printer and validator.\<close>

fun is_ok :: "('e, 'a) result \<Rightarrow> bool" where
  "is_ok (Inl _) = False"
| "is_ok (Inr _) = True"

definition tool_is_compatible_with_model ::
  "(string \<Rightarrow> (string, string) result) \<Rightarrow> CachedTool \<Rightarrow> ModelCapabilityProfile option \<Rightarrow> bool" where
  "tool_is_compatible_with_model nrm t profile = (case profile of
      None \<Rightarrow> True
    | Some p \<Rightarrow>
       if mc_tool_schema_mode p = SchemaUnsupported then False
       else if ct_requires_strict_schema t \<and> mc_tool_schema_mode p \<noteq> StrictJsonSchema then False
       else if tool_requires_image_support t \<and> mc_supports_images p \<noteq> Supported then False
       else if tool_requires_audio_support t \<and> mc_supports_audio p \<noteq> Supported then False
       else is_ok (nrm (ct_parameters_schema t)))"

datatype ToolVisibilityReason = Available | ToolSchemasUnsupported | StrictSchemaRequired
  | ImageModalityUnsupported | AudioModalityUnsupported | InvalidSchema string

fun as_message :: "ToolVisibilityReason \<Rightarrow> string \<Rightarrow> string" where
  "as_message Available n = ''tool '' @ [CHR 0x27] @ n @ [CHR 0x27] @ '' is compatible with the active model''"
| "as_message ToolSchemasUnsupported n = ''tool '' @ [CHR 0x27] @ n @ [CHR 0x27] @
     '' is hidden because the active model does not support tool schemas''"
| "as_message StrictSchemaRequired n = ''tool '' @ [CHR 0x27] @ n @ [CHR 0x27] @
     '' is hidden because it requires strict JSON schema support''"
| "as_message ImageModalityUnsupported n = ''tool '' @ [CHR 0x27] @ n @ [CHR 0x27] @
     '' is hidden because the active model does not support image inputs''"
| "as_message AudioModalityUnsupported n = ''tool '' @ [CHR 0x27] @ n @ [CHR 0x27] @
     '' is hidden because the active model does not support audio inputs''"
| "as_message (InvalidSchema err) n = ''tool '' @ [CHR 0x27] @ n @ [CHR 0x27] @
     '' is hidden because its schema is invalid: '' @ err"

record ToolVisibilityDecision =
  vd_tool_name :: string
  vd_available :: bool
  vd_reason :: ToolVisibilityReason

definition hidden :: "CachedTool \<Rightarrow> ToolVisibilityReason \<Rightarrow> ToolVisibilityDecision" where
  "hidden t r = \<lparr>vd_tool_name = ct_name t, vd_available = False, vd_reason = r\<rparr>"

definition schema_decision ::
  "(string \<Rightarrow> (string, string) result) \<Rightarrow> CachedTool \<Rightarrow> ToolVisibilityDecision" where
  "schema_decision nrm t = (case nrm (ct_parameters_schema t) of
      Inr _ \<Rightarrow> \<lparr>vd_tool_name = ct_name t, vd_available = True, vd_reason = Available\<rparr>
    | Inl e \<Rightarrow> hidden t (InvalidSchema e))"

definition explain_tool_visibility ::
  "(string \<Rightarrow> (string, string) result) \<Rightarrow> CachedTool \<Rightarrow> ModelCapabilityProfile option
    \<Rightarrow> ToolVisibilityDecision" where
  "explain_tool_visibility nrm t profile = (case profile of
      None \<Rightarrow> schema_decision nrm t
    | Some p \<Rightarrow>
       if mc_tool_schema_mode p = SchemaUnsupported then hidden t ToolSchemasUnsupported
       else if ct_requires_strict_schema t \<and> mc_tool_schema_mode p \<noteq> StrictJsonSchema
         then hidden t StrictSchemaRequired
       else if tool_requires_image_support t \<and> mc_supports_images p \<noteq> Supported
         then hidden t ImageModalityUnsupported
       else if tool_requires_audio_support t \<and> mc_supports_audio p \<noteq> Supported
         then hidden t AudioModalityUnsupported
       else schema_decision nrm t)"

section \<open>Facts\<close>

lemma is_ok_iff: "is_ok r \<longleftrightarrow> (\<exists>a. r = Inr a)"
  by (cases r) auto

text \<open>A closed object schema: an object type with its properties, its required list and
  its policy on further members.\<close>

definition closed_schema :: "(string \<times> json) list \<Rightarrow> bool" where
  "closed_schema m = (map_of m ''type'' = Some (JString ''object'') \<and> jhas ''properties'' m \<and>
     jhas ''required'' m \<and> jhas ''additionalProperties'' m)"

lemma map_of_with_type [simp]:
  "map_of (with_type m) k = (if k = ''type'' then Some (JString ''object'') else map_of m k)"
  by (simp add: with_type_def)

lemma map_of_with_properties [simp]:
  "map_of (with_properties m) k = (if k = ''properties'' \<and> map_of m k = None then Some (JObject []) else map_of m k)"
  by (auto simp: with_properties_def jhas_def)

lemma map_of_with_required [simp]:
  "k \<noteq> ''required'' \<Longrightarrow> map_of (with_required m) k = map_of m k"
  "map_of (with_required m) ''required'' \<noteq> None"
  by (simp_all add: with_required_def jhas_def)

lemma map_of_with_additional [simp]:
  "k \<noteq> ''additionalProperties'' \<Longrightarrow> map_of (with_additional m) k = map_of m k"
  "map_of (with_additional m) ''additionalProperties'' \<noteq> None"
  by (simp_all add: with_additional_def jhas_def)

lemma steps_closed: "closed_schema (with_additional (with_required (with_properties (with_type m))))"
  by (simp add: closed_schema_def jhas_def)

lemma normalize_object_closed: "closed_schema (normalize_object m)"
proof -
  have "closed_schema [(''type'', JString ''object''), (''properties'', p), (''required'', r),
      (''additionalProperties'', a)]" for p r a
    by (simp add: closed_schema_def jhas_def)
  then show ?thesis by (simp add: normalize_object_def empty_schema_def steps_closed)
qed

lemma closed_schema_normal:
  assumes "closed_schema m"
  shows "normalize_object m = m"
proof -
  have c: "map_of m ''type'' = Some (JString ''object'')" "jhas ''properties'' m" "jhas ''required'' m"
    "jhas ''additionalProperties'' m" "jhas ''type'' m" "m \<noteq> []"
    using assms by (auto simp: closed_schema_def jhas_def)
  show ?thesis
    by (simp add: c normalize_object_def with_type_def with_properties_def with_required_def with_additional_def)
qed

lemma normalize_Ok:
  "normalize_tool_schema parse valid print s = Inr s' \<longleftrightarrow>
    (\<exists>m. (if trim_ws s = [] then m = [] else parse (trim_ws s) = Inr (JObject m)) \<and>
       valid (JObject (normalize_object m)) = Inr () \<and> print (JObject (normalize_object m)) = Inr s')"
proof -
  have obj: "as_object v = Some m \<longleftrightarrow> v = JObject m" for v m by (cases v) auto
  show ?thesis by (auto simp: normalize_tool_schema_def result_simps obj)
qed

section \<open>Properties\<close>

text \<open>A normalised schema is a closed object schema, and normalising it again changes
  nothing.  The JSON library is only assumed to read back what it prints.\<close>

lemma normalize_idempotent:
  assumes "normalize_tool_schema parse valid print s = Inr s'"
    and "\<And>v p. print v = Inr p \<Longrightarrow> trim_ws p \<noteq> [] \<and> parse (trim_ws p) = Inr v"
  shows "normalize_tool_schema parse valid print s' = Inr s' \<and>
    (\<exists>m. parse (trim_ws s') = Inr (JObject m) \<and> closed_schema m)"
proof -
  from assms(1) obtain m where m: "valid (JObject (normalize_object m)) = Inr ()"
    "print (JObject (normalize_object m)) = Inr s'" by (auto simp: normalize_Ok)
  have "normalize_object (normalize_object m) = normalize_object m"
    by (rule closed_schema_normal [OF normalize_object_closed])
  with m assms(2) [OF m(2)] show ?thesis
    by (auto simp: normalize_Ok normalize_object_closed)
qed

definition ex_schema :: json where
  "ex_schema = JObject (normalize_object [(''path'', JString ''string''), (''mode'', JString ''string'')])"

definition ex_print :: "json \<Rightarrow> (string, string) result" where
  "ex_print v = (if v = ex_schema then Ok ''normal'' else Err ''unknown'')"

definition ex_parse :: "string \<Rightarrow> (string, json) result" where
  "ex_parse s = (if s = ''normal'' then Ok ex_schema
     else Ok (JObject [(''path'', JString ''string''), (''mode'', JString ''string'')]))"

lemma normalize_idempotent_example:
  "normalize_tool_schema ex_parse (\<lambda>_. Inr ()) ex_print ''raw'' = Inr ''normal'' \<and>
    normalize_tool_schema ex_parse (\<lambda>_. Inr ()) ex_print ''normal'' = Inr ''normal''"
proof -
  have trim: "trim_ws ''raw'' = ''raw''" "trim_ws ''normal'' = ''normal''" by code_simp+
  have raw: "normalize_tool_schema ex_parse (\<lambda>_. Inr ()) ex_print ''raw'' = Inr ''normal''"
    by (simp add: normalize_tool_schema_def trim ex_parse_def ex_print_def ex_schema_def)
  have "trim_ws p \<noteq> [] \<and> ex_parse (trim_ws p) = Inr v" if "ex_print v = Inr p" for v p
    using that by (auto simp: ex_print_def ex_parse_def trim split: if_splits)
  from normalize_idempotent [OF raw this] raw show ?thesis by blast
qed

text \<open>The explanation of a tool's visibility agrees with the decision: with a model
  profile a tool is explained as available exactly when the search offers it, without one
  exactly when its schema is valid (the search then offers it in any case); and the reason is
  "available" exactly when the decision is.\<close>

lemma visibility_agrees:
  "vd_available (explain_tool_visibility nrm t (Some p)) = tool_is_compatible_with_model nrm t (Some p) \<and>
   vd_available (explain_tool_visibility nrm t None) = is_ok (nrm (ct_parameters_schema t)) \<and>
   tool_is_compatible_with_model nrm t None \<and>
   (vd_reason (explain_tool_visibility nrm t profile) = Available \<longleftrightarrow>
      vd_available (explain_tool_visibility nrm t profile))"
  by (auto simp: explain_tool_visibility_def tool_is_compatible_with_model_def schema_decision_def hidden_def
      is_ok_iff split: option.splits sum.splits)

text \<open>The reduced form keeps every property and drops only what it should.\<close>

lemma reduce_object_properties:
  assumes "distinct (map fst m)" "map_of m ''properties'' = Some (JObject props)"
  shows "map_of (reduce_object m) ''properties'' = Some (JObject (map (\<lambda>(k, v). (k, reduce_property v)) props)) \<and>
    \<not> jhas ''additionalProperties'' (jremove ''additionalProperties'' m)"
proof -
  have d: "distinct (map fst (jremove k m))" if "distinct (map fst m)" for k m
    using that
  proof (induction m)
    case (Cons p m)
    obtain a b where p: "p = (a, b)" by (cases p)
    show ?case
    proof (cases "a = k")
      case True
      have "distinct (map fst (last m # butlast m))" if "m \<noteq> []"
      proof -
        have "distinct (map fst (butlast m @ [last m]))" using Cons.prems that by simp
        then show ?thesis by simp
      qed
      with True p show ?thesis by (auto simp del: list.map distinct.simps) (simp add: p)+
    next
      case False
      with Cons p set_jremove [of m k] show ?thesis by auto
    qed
  qed simp
  have mem: "(k, v) \<in> set m \<Longrightarrow> map_of m k = Some v" if "distinct (map fst m)" for k v m
    using that by simp
  let ?m = "jremove ''additionalProperties'' m"
  have "(''properties'', JObject props) \<in> set ?m"
    using set_jremove [OF assms(1)] map_of_SomeD [OF assms(2)] by auto
  then have "map_of ?m ''properties'' = Some (JObject props)" using mem [OF d [OF assms(1)]] by simp
  moreover have "\<not> jhas ''additionalProperties'' ?m"
    using set_jremove [OF assms(1), of "''additionalProperties''"] by (auto simp: jhas_def map_of_eq_None_iff)
  ultimately show ?thesis by (simp add: reduce_object_def)
qed

end
