(* ===== verification/ToolCatalog.thy ===== *)
theory ToolCatalog
  imports ToolSchema "HOL-Library.Multiset"
begin

text \<open>The registry of native tools and the catalogue that merges the tools of all providers
  (\<open>ToolManifestStore\<close> and \<open>ToolProviderCatalog\<close> of \<open>aria-intelligence/src/tools.rs\<close>,
  types of \<open>aria-core/src/model.rs\<close>).  Two tools with the same public name are kept apart:
  the provider with the better precedence keeps the name, the other gets an alias.\<close>

section \<open>Data\<close>

datatype ToolExecutionKind = NativeExec | SkillExec | McpImportedExec | ProviderBuiltInExec
datatype ToolProviderKind = NativeKind | WasmSkillKind | McpKind | ExternalCompatKind | RemoteKind
datatype ToolRunnerClass = NativeRunner | WasmRunner | McpRunner | ExternalCompatRunner | RemoteRunner
datatype ToolApprovalClass = NoApproval | LowRisk | HighRisk
datatype ToolSideEffectLevel = ReadOnly | StateChanging | Irreversible
datatype ToolProviderHealthStatus = ProviderReady | ProviderDegraded | ProviderUnavailable

record ToolOrigin =
  og_provider_kind :: ToolProviderKind
  og_provider_id :: string
  og_origin_id :: "string option"
  og_display_name :: "string option"

record ToolCatalogEntry =
  tc_tool_id :: string
  tc_public_name :: string
  tc_description :: string
  tc_parameters_json_schema :: string
  tc_execution_kind :: ToolExecutionKind
  tc_provider_kind :: ToolProviderKind
  tc_runner_class :: ToolRunnerClass
  tc_origin :: ToolOrigin
  tc_artifact_kind :: "string option"
  tc_requires_approval :: ToolApprovalClass
  tc_side_effect_level :: ToolSideEffectLevel
  tc_streaming_safe :: bool
  tc_parallel_safe :: bool
  tc_modalities :: "ToolModality list"
  tc_capability_requirements :: "string list"

record ToolProviderReadiness =
  tr_provider_kind :: ToolProviderKind
  tr_provider_id :: string
  tr_status :: ToolProviderHealthStatus
  tr_installed :: bool
  tr_imported :: bool
  tr_bound :: bool
  tr_auth_ready :: bool
  tr_last_error :: "string option"
  tr_latency_ms :: "u64 option"

record PromptAssetEntry =
  pa_asset_id :: string
  pa_public_name :: string
  pa_description :: string
  pa_origin :: ToolOrigin
  pa_arguments_json_schema :: "string option"

record ResourceContextEntry =
  rc_resource_id :: string
  rc_public_name :: string
  rc_description :: string
  rc_origin :: ToolOrigin
  rc_mime_type :: "string option"

record ToolProviderCatalog =
  pc_tools :: "ToolCatalogEntry list"
  pc_prompt_assets :: "PromptAssetEntry list"
  pc_resource_entries :: "ResourceContextEntry list"
  pc_provider_readiness :: "ToolProviderReadiness list"

type_synonym ToolManifestStore = "CachedTool list"

section \<open>The native store\<close>

definition catalog_entry :: "CachedTool \<Rightarrow> ToolCatalogEntry" where
  "catalog_entry t = \<lparr>tc_tool_id = ''tool.'' @ ct_name t, tc_public_name = ct_name t,
     tc_description = ct_description t, tc_parameters_json_schema = ct_parameters_schema t,
     tc_execution_kind = NativeExec, tc_provider_kind = NativeKind, tc_runner_class = NativeRunner,
     tc_origin = \<lparr>og_provider_kind = NativeKind, og_provider_id = ''native'',
        og_origin_id = Some (''tool:'' @ ct_name t), og_display_name = None\<rparr>,
     tc_artifact_kind = None, tc_requires_approval = NoApproval, tc_side_effect_level = ReadOnly,
     tc_streaming_safe = ct_streaming_safe t, tc_parallel_safe = ct_parallel_safe t,
     tc_modalities = ct_modalities t, tc_capability_requirements = []\<rparr>"

definition register :: "CachedTool \<Rightarrow> ToolManifestStore \<Rightarrow> ToolManifestStore" where
  "register t s = s @ [t]"

text \<open>\<open>embedder\<close> is the embedding model.\<close>

definition register_with_embedding ::
  "(string \<Rightarrow> (string, string) result) \<Rightarrow> (string \<Rightarrow> f32 list) \<Rightarrow> CachedTool \<Rightarrow> ToolManifestStore
    \<Rightarrow> (string, ToolManifestStore) result" where
  "register_with_embedding nrm embedder t s = map_ok (\<lambda>schema.
     register (t\<lparr>ct_parameters_schema := schema,
       ct_embedding := (if ct_embedding t = [] then embedder (ct_name t @ '' '' @ ct_description t) else ct_embedding t)\<rparr>) s)
     (nrm (ct_parameters_schema t))"

definition get_by_name :: "string \<Rightarrow> ToolManifestStore \<Rightarrow> CachedTool option" where
  "get_by_name name s = find (\<lambda>t. ct_name t = name) s"

definition list_catalog_entries :: "ToolManifestStore \<Rightarrow> ToolCatalogEntry list" where
  "list_catalog_entries s = map catalog_entry s"

fun validate_strict_startup_contract ::
  "(string \<Rightarrow> (string, string) result) \<Rightarrow> ToolManifestStore \<Rightarrow> (string, unit) result" where
  "validate_strict_startup_contract nrm [] = Ok ()"
| "validate_strict_startup_contract nrm (t # ts) =
     and_then (map_err (\<lambda>err. ''tool '' @ [CHR 0x27] @ ct_name t @ [CHR 0x27] @ '' failed schema validation: '' @ err)
       (nrm (ct_parameters_schema t))) (\<lambda>_. validate_strict_startup_contract nrm ts)"

section \<open>Merging\<close>

fun tool_provider_precedence :: "ToolProviderKind \<Rightarrow> nat" where
  "tool_provider_precedence NativeKind = 0"
| "tool_provider_precedence WasmSkillKind = 1"
| "tool_provider_precedence McpKind = 2"
| "tool_provider_precedence ExternalCompatKind = 3"
| "tool_provider_precedence RemoteKind = 4"

text \<open>The lower-case \<open>Debug\<close> name of a provider kind.\<close>

fun kind_prefix :: "ToolProviderKind \<Rightarrow> string" where
  "kind_prefix NativeKind = ''native''"
| "kind_prefix WasmSkillKind = ''wasmskill''"
| "kind_prefix McpKind = ''mcp''"
| "kind_prefix ExternalCompatKind = ''externalcompat''"
| "kind_prefix RemoteKind = ''remote''"

definition name_taken :: "string \<Rightarrow> ToolCatalogEntry list \<Rightarrow> bool" where
  "name_taken n es = list_ex (\<lambda>e. tc_public_name e = n) es"

definition alias_base :: "ToolCatalogEntry \<Rightarrow> string" where
  "alias_base e = kind_prefix (tc_provider_kind e) @ ''__'' @ tc_public_name e"

definition alias_suffixes :: "nat list" where
  "alias_suffixes = [2..<1000]"

definition collision_alias_for_entry :: "ToolCatalogEntry \<Rightarrow> ToolCatalogEntry list \<Rightarrow> string" where
  "collision_alias_for_entry e es =
    (if \<not> name_taken (alias_base e) es then alias_base e
     else case find (\<lambda>c. \<not> name_taken c es) (map (\<lambda>i. alias_base e @ ''__'' @ show_nat i) alias_suffixes) of
       Some c \<Rightarrow> c
     | None \<Rightarrow> alias_base e @ ''__fallback'')"

text \<open>The position of the first tool with a name.\<close>

fun position_of :: "string \<Rightarrow> ToolCatalogEntry list \<Rightarrow> nat option" where
  "position_of n [] = None"
| "position_of n (e # es) = (if tc_public_name e = n then Some 0 else map_option Suc (position_of n es))"

definition merge_entry :: "ToolCatalogEntry list \<Rightarrow> ToolCatalogEntry \<Rightarrow> ToolCatalogEntry list" where
  "merge_entry tools entry = (case position_of (tc_public_name entry) tools of
      None \<Rightarrow> tools @ [entry]
    | Some idx \<Rightarrow>
       if tool_provider_precedence (tc_provider_kind (tools ! idx)) \<le> tool_provider_precedence (tc_provider_kind entry)
       then tools @ [entry\<lparr>tc_public_name := collision_alias_for_entry entry tools\<rparr>]
       else tools[idx := (tools ! idx)\<lparr>tc_public_name := collision_alias_for_entry (tools ! idx) tools\<rparr>] @ [entry])"

definition merge_tools :: "ToolCatalogEntry list \<Rightarrow> ToolProviderCatalog \<Rightarrow> ToolProviderCatalog" where
  "merge_tools entries c = c\<lparr>pc_tools := foldl merge_entry (pc_tools c) entries\<rparr>"

definition add_native_store :: "ToolManifestStore \<Rightarrow> ToolProviderCatalog \<Rightarrow> ToolProviderCatalog" where
  "add_native_store s c = merge_tools (list_catalog_entries s) c"

definition add_tool_entries :: "ToolCatalogEntry list \<Rightarrow> ToolProviderCatalog \<Rightarrow> ToolProviderCatalog" where
  "add_tool_entries es c = merge_tools es c"

definition add_prompt_assets :: "PromptAssetEntry list \<Rightarrow> ToolProviderCatalog \<Rightarrow> ToolProviderCatalog" where
  "add_prompt_assets es c = c\<lparr>pc_prompt_assets := pc_prompt_assets c @ es\<rparr>"

definition add_resource_entries :: "ResourceContextEntry list \<Rightarrow> ToolProviderCatalog \<Rightarrow> ToolProviderCatalog" where
  "add_resource_entries es c = c\<lparr>pc_resource_entries := pc_resource_entries c @ es\<rparr>"

definition add_provider_readiness :: "ToolProviderReadiness \<Rightarrow> ToolProviderCatalog \<Rightarrow> ToolProviderCatalog" where
  "add_provider_readiness r c = c\<lparr>pc_provider_readiness := pc_provider_readiness c @ [r]\<rparr>"

text \<open>A provider, by what its trait methods return.\<close>

record ToolProvider =
  tp_readiness :: ToolProviderReadiness
  tp_list_tools :: "ToolCatalogEntry list"
  tp_list_prompt_assets :: "PromptAssetEntry list"
  tp_list_resource_entries :: "ResourceContextEntry list"

definition empty_catalog :: ToolProviderCatalog where
  "empty_catalog = \<lparr>pc_tools = [], pc_prompt_assets = [], pc_resource_entries = [], pc_provider_readiness = []\<rparr>"

definition add_provider :: "ToolProviderCatalog \<Rightarrow> ToolProvider \<Rightarrow> ToolProviderCatalog" where
  "add_provider c p = add_resource_entries (tp_list_resource_entries p)
     (add_prompt_assets (tp_list_prompt_assets p)
     (add_tool_entries (tp_list_tools p)
     (add_provider_readiness (tp_readiness p) c)))"

definition build_tool_provider_catalog :: "ToolProvider list \<Rightarrow> ToolProviderCatalog" where
  "build_tool_provider_catalog ps = foldl add_provider empty_catalog ps"

section \<open>Names stay apart\<close>

abbreviation names :: "ToolCatalogEntry list \<Rightarrow> string list" where
  "names es \<equiv> map tc_public_name es"

lemma name_taken_iff: "name_taken n es \<longleftrightarrow> n \<in> set (names es)"
  by (auto simp: name_taken_def list_ex_iff)

lemma position_of_None_iff: "position_of n es = None \<longleftrightarrow> n \<notin> set (names es)"
  by (induction es) auto

lemma position_of_SomeD:
  "position_of n es = Some i \<Longrightarrow> i < length es \<and> tc_public_name (es ! i) = n"
  by (induction es arbitrary: i) (auto split: if_splits)

text \<open>There are 999 candidate aliases, so one is free while fewer tools are registered.\<close>

definition candidates :: "ToolCatalogEntry \<Rightarrow> string list" where
  "candidates e = alias_base e # map (\<lambda>i. alias_base e @ ''__'' @ show_nat i) alias_suffixes"

lemma alias_suffixes: "distinct alias_suffixes" "length alias_suffixes = 998"
  unfolding alias_suffixes_def by (rule distinct_upt) (subst length_upt, simp)

lemma candidates_distinct: "distinct (candidates e)"
  by (auto simp: candidates_def distinct_map inj_on_def alias_suffixes(1) dest: show_nat_inject)

lemma alias_fresh:
  assumes "length es < 999"
  shows "collision_alias_for_entry e es \<notin> set (names es)"
proof -
  have "card (set (candidates e)) = 999"
    using distinct_card [OF candidates_distinct] by (simp add: candidates_def alias_suffixes(2))
  moreover have "card (set (names es)) \<le> length es" by (metis card_length length_map)
  ultimately have "\<not> set (candidates e) \<subseteq> set (names es)"
    using assms card_mono [of "set (names es)" "set (candidates e)"] by force
  then have free: "\<exists>c\<in>set (candidates e). \<not> name_taken c es" by (auto simp: name_taken_iff)
  show ?thesis
  proof (cases "name_taken (alias_base e) es")
    case False
    then show ?thesis by (simp add: collision_alias_for_entry_def name_taken_iff)
  next
    case True
    let ?xs = "map (\<lambda>i. alias_base e @ ''__'' @ show_nat i) alias_suffixes"
    from free True have "\<exists>c\<in>set ?xs. \<not> name_taken c es"
      by (simp only: candidates_def list.set(2)) blast
    then obtain c where c: "find (\<lambda>c. \<not> name_taken c es) ?xs = Some c"
      by (metis (mono_tags, lifting) find_None_iff not_None_eq)
    with True have "collision_alias_for_entry e es = c"
      by (simp only: collision_alias_for_entry_def not_True_eq_False if_False option.case)
    moreover have "\<not> name_taken c es" using c unfolding find_Some_iff by blast
    ultimately show ?thesis by (simp add: name_taken_iff)
  qed
qed

lemma merge_entry_cases:
  obtains "tc_public_name e \<notin> set (names es)" "merge_entry es e = es @ [e]"
  | i where "i < length es" "tc_public_name (es ! i) = tc_public_name e"
    "tool_provider_precedence (tc_provider_kind (es ! i)) \<le> tool_provider_precedence (tc_provider_kind e)"
    "merge_entry es e = es @ [e\<lparr>tc_public_name := collision_alias_for_entry e es\<rparr>]"
  | i where "i < length es" "tc_public_name (es ! i) = tc_public_name e"
    "tool_provider_precedence (tc_provider_kind e) < tool_provider_precedence (tc_provider_kind (es ! i))"
    "merge_entry es e = es[i := (es ! i)\<lparr>tc_public_name := collision_alias_for_entry (es ! i) es\<rparr>] @ [e]"
proof (cases "position_of (tc_public_name e) es")
  case None
  then show ?thesis using that(1) by (simp add: merge_entry_def) (metis position_of_None_iff list.set_map)
next
  case (Some i)
  note p = position_of_SomeD [OF Some]
  show ?thesis
  proof (cases "tool_provider_precedence (tc_provider_kind (es ! i)) \<le> tool_provider_precedence (tc_provider_kind e)")
    case True
    with that(2) [of i] p Some show ?thesis by (simp add: merge_entry_def)
  next
    case False
    with that(3) [of i] p Some show ?thesis by (simp add: merge_entry_def)
  qed
qed

lemma length_merge_entry [simp]: "length (merge_entry es e) = Suc (length es)"
  by (auto simp: merge_entry_def split: option.splits)

lemma distinct_list_update:
  "distinct xs \<Longrightarrow> x \<notin> set xs \<Longrightarrow> distinct (xs[i := x])"
  by (simp add: distinct_list_update)

lemma merge_entry_distinct:
  assumes "distinct (names es)" "length es < 999"
  shows "distinct (names (merge_entry es e))"
proof (cases rule: merge_entry_cases [where e = e and es = es])
  case 1
  with assms show ?thesis by simp
next
  case (2 i)
  with assms alias_fresh [of es e] show ?thesis by simp
next
  case (3 i)
  let ?a = "collision_alias_for_entry (es ! i) es"
  have a: "?a \<notin> set (names es)" by (rule alias_fresh [OF assms(2)])
  have n: "names (merge_entry es e) = (names es)[i := ?a] @ [tc_public_name e]"
    by (simp add: 3(4) map_update)
  have "tc_public_name e \<notin> set ((names es)[i := ?a])"
  proof
    assume "tc_public_name e \<in> set ((names es)[i := ?a])"
    then obtain j where j: "j < length es" "(names es)[i := ?a] ! j = tc_public_name e"
      by (auto simp: in_set_conv_nth)
    then have "j \<noteq> i" using a 3(1,2) by (metis length_map nth_list_update_eq nth_map nth_mem)
    with j have "names es ! j = names es ! i" using 3(1,2) by simp
    with \<open>j \<noteq> i\<close> j(1) 3(1) assms(1) show False by (metis length_map nth_eq_iff_index_eq)
  qed
  with assms(1) a show ?thesis by (simp only: n) (simp add: distinct_list_update)
qed

text \<open>A name once taken stays taken, by the same entry or by one of better precedence.\<close>

definition held_by :: "string \<Rightarrow> ToolCatalogEntry \<Rightarrow> ToolCatalogEntry list \<Rightarrow> bool" where
  "held_by n e es = (e \<in> set es \<and> tc_public_name e = n)"

lemma merge_entry_holder:
  assumes d: "distinct (names es)" and len: "length es < 999" and h: "held_by n x es"
  shows "\<exists>y. held_by n y (merge_entry es e) \<and> (y = x \<or>
    tool_provider_precedence (tc_provider_kind y) < tool_provider_precedence (tc_provider_kind x))"
proof (cases rule: merge_entry_cases [where e = e and es = es])
  case 1
  with h show ?thesis by (auto simp: held_by_def)
next
  case (2 i)
  with h show ?thesis by (auto simp: held_by_def)
next
  case (3 i)
  obtain j where j: "j < length es" "es ! j = x" using h by (auto simp: held_by_def in_set_conv_nth)
  show ?thesis
  proof (cases "j = i")
    case True
    then have "held_by n e (merge_entry es e)" using h 3(2,4) j by (auto simp: held_by_def)
    moreover have "tool_provider_precedence (tc_provider_kind e) < tool_provider_precedence (tc_provider_kind x)"
      using 3(3) True j by simp
    ultimately show ?thesis by blast
  next
    case False
    then have "merge_entry es e ! j = x" using j by (simp add: 3(4) nth_append)
    then have "x \<in> set (merge_entry es e)" using j(1) by (metis length_merge_entry less_SucI nth_mem)
    with h show ?thesis by (auto simp: held_by_def)
  qed
qed

lemma foldl_merge_distinct:
  "distinct (names es) \<Longrightarrow> length es + length new \<le> 999 \<Longrightarrow> distinct (names (foldl merge_entry es new))"
  by (induction new arbitrary: es) (auto simp: merge_entry_distinct)

lemma length_foldl_merge [simp]: "length (foldl merge_entry es new) = length es + length new"
  by (induction new arbitrary: es) auto

lemma foldl_merge_holder:
  assumes "distinct (names es)" "length es + length new \<le> 999" "held_by n x es"
  shows "\<exists>y. held_by n y (foldl merge_entry es new) \<and> (y = x \<or>
    tool_provider_precedence (tc_provider_kind y) < tool_provider_precedence (tc_provider_kind x))"
  using assms
proof (induction new arbitrary: es x)
  case (Cons e new)
  have len: "length es < 999" using Cons.prems(2) by simp
  from merge_entry_holder [OF Cons.prems(1) len Cons.prems(3)]
  obtain y where y: "held_by n y (merge_entry es e)" "y = x \<or>
    tool_provider_precedence (tc_provider_kind y) < tool_provider_precedence (tc_provider_kind x)" by blast
  have "length (merge_entry es e) + length new \<le> 999" using Cons.prems(2) by simp
  from Cons.IH [OF merge_entry_distinct [OF Cons.prems(1) len] this y(1)] y(2)
  show ?case by fastforce
qed auto

lemma build_tools:
  "pc_tools (foldl add_provider c ps) = foldl merge_entry (pc_tools c) (concat (map tp_list_tools ps))"
  by (induction ps arbitrary: c) (simp_all add: add_provider_def add_resource_entries_def add_prompt_assets_def
      add_tool_entries_def merge_tools_def add_provider_readiness_def)

section \<open>Properties\<close>

text \<open>The catalogue built from any providers lists every tool they offer, each under a
  public name of its own, as long as they offer at most 999 tools.\<close>

lemma catalog_names_distinct:
  assumes "length (concat (map tp_list_tools ps)) \<le> 999"
  shows "distinct (names (pc_tools (build_tool_provider_catalog ps))) \<and>
    length (pc_tools (build_tool_provider_catalog ps)) = length (concat (map tp_list_tools ps))"
  using foldl_merge_distinct [of "[]" "concat (map tp_list_tools ps)"] assms
  by (simp add: build_tool_provider_catalog_def build_tools empty_catalog_def)

definition ex_entry :: "ToolProviderKind \<Rightarrow> string \<Rightarrow> ToolCatalogEntry" where
  "ex_entry k n = (catalog_entry \<lparr>ct_name = n, ct_description = [], ct_parameters_schema = [], ct_embedding = [],
     ct_requires_strict_schema = False, ct_streaming_safe = True, ct_parallel_safe = True,
     ct_modalities = []\<rparr>)\<lparr>tc_provider_kind := k\<rparr>"

lemma ex_entry_simps [simp]: "tc_public_name (ex_entry k n) = n" "tc_provider_kind (ex_entry k n) = k"
  by (simp_all add: ex_entry_def catalog_entry_def)

definition ex_provider :: "ToolCatalogEntry list \<Rightarrow> ToolProvider" where
  "ex_provider es = \<lparr>tp_readiness = \<lparr>tr_provider_kind = McpKind, tr_provider_id = ''p'', tr_status = ProviderReady,
     tr_installed = True, tr_imported = True, tr_bound = True, tr_auth_ready = True, tr_last_error = None,
     tr_latency_ms = None\<rparr>, tp_list_tools = es, tp_list_prompt_assets = [], tp_list_resource_entries = []\<rparr>"

lemma catalog_names_distinct_example:
  "distinct (names (pc_tools (build_tool_provider_catalog
     [ex_provider [ex_entry McpKind ''read''], ex_provider [ex_entry NativeKind ''read'']])))"
  using catalog_names_distinct [of "[ex_provider [ex_entry McpKind ''read''], ex_provider [ex_entry NativeKind ''read'']]"]
  by (simp add: ex_provider_def)

text \<open>C26: no provider can take the name of a native tool: whatever entries are merged into a
  catalogue, a native tool registered under a name stays registered under it, unchanged, and is the only tool of that
  name.\<close>

theorem native_name_kept:
  assumes "distinct (names (pc_tools c))" "length (pc_tools c) + length new \<le> 999"
    and "t \<in> set (pc_tools c)" "tc_provider_kind t = NativeKind"
  shows "t \<in> set (pc_tools (merge_tools new c)) \<and>
    (\<forall>u\<in>set (pc_tools (merge_tools new c)). tc_public_name u = tc_public_name t \<longrightarrow> u = t)"
proof -
  have h: "held_by (tc_public_name t) t (pc_tools c)" using assms(3) by (simp add: held_by_def)
  from foldl_merge_holder [OF assms(1,2) h] assms(4)
  have t: "t \<in> set (pc_tools (merge_tools new c))" by (auto simp: held_by_def merge_tools_def)
  have "distinct (names (pc_tools (merge_tools new c)))"
    using foldl_merge_distinct [OF assms(1,2)] by (simp add: merge_tools_def)
  with t show ?thesis by (auto dest: unique_keys_eq)
qed

theorem native_name_kept_witness:
  "ex_entry NativeKind ''exec'' \<in> set (pc_tools (merge_tools [ex_entry RemoteKind ''exec'', ex_entry McpKind ''exec'']
      (empty_catalog\<lparr>pc_tools := [ex_entry NativeKind ''exec'']\<rparr>)))"
proof -
  have c: "distinct (names (pc_tools (empty_catalog\<lparr>pc_tools := [ex_entry NativeKind ''exec'']\<rparr>)))"
    "length (pc_tools (empty_catalog\<lparr>pc_tools := [ex_entry NativeKind ''exec'']\<rparr>)) +
      length [ex_entry RemoteKind ''exec'', ex_entry McpKind ''exec''] \<le> 999"
    "ex_entry NativeKind ''exec'' \<in> set (pc_tools (empty_catalog\<lparr>pc_tools := [ex_entry NativeKind ''exec'']\<rparr>))"
    by simp_all
  with native_name_kept [OF c] show ?thesis by simp
qed

end
