(* ===== verification/ToolCache.thy ===== *)
theory ToolCache
  imports Contracts ToolSchema
begin

text \<open>The tool cache of a session (\<open>DynamicToolCache\<close> of \<open>aria-intelligence/src/tools.rs\<close>):
  the active tools in the order of their last use, capped by \<open>context_cap\<close>, and the names of
  all tools ever admitted, capped by \<open>session_ceiling\<close>.\<close>

section \<open>The cache\<close>

datatype CacheError = CeilingReached nat nat

record DynamicToolCache =
  context_cap :: nat
  session_ceiling :: nat
  active :: "CachedTool list"
  seen :: "string list"

definition new_cache :: "nat \<Rightarrow> nat \<Rightarrow> DynamicToolCache" where
  "new_cache cap ceil = \<lparr>context_cap = cap, session_ceiling = ceil, active = [], seen = []\<rparr>"

text \<open>\<open>VecDeque::remove\<close> at the position of the first tool with the name.\<close>

fun remove_named :: "string \<Rightarrow> CachedTool list \<Rightarrow> CachedTool list" where
  "remove_named n [] = []"
| "remove_named n (t # ts) = (if ct_name t = n then ts else t # remove_named n ts)"

definition insert_tool ::
  "CachedTool \<Rightarrow> DynamicToolCache \<Rightarrow> (CacheError, DynamicToolCache \<times> CachedTool option) result" where
  "insert_tool t c =
    (if has_key ct_name (ct_name t) (active c)
     then Ok (c\<lparr>active := remove_named (ct_name t) (active c) @ [t]\<rparr>, None)
     else if ct_name t \<notin> set (seen c) \<and> session_ceiling c \<le> length (seen c)
     then Err (CeilingReached (session_ceiling c) (length (seen c) + 1))
     else
       let c1 = (if ct_name t \<notin> set (seen c) then c\<lparr>seen := seen c @ [ct_name t]\<rparr> else c);
           (rest, evicted) = (if context_cap c1 \<le> length (active c1)
              then (tl (active c1), (case active c1 of [] \<Rightarrow> None | a # _ \<Rightarrow> Some a)) else (active c1, None))
       in Ok (c1\<lparr>active := rest @ [t]\<rparr>, evicted))"

definition get_tool :: "string \<Rightarrow> DynamicToolCache \<Rightarrow> DynamicToolCache \<times> CachedTool option" where
  "get_tool n c = (case find_by ct_name n (active c) of
      Some t \<Rightarrow> (c\<lparr>active := remove_named n (active c) @ [t]\<rparr>, Some t)
    | None \<Rightarrow> (c, None))"

definition total_seen :: "DynamicToolCache \<Rightarrow> nat" where
  "total_seen c = length (seen c)"

section \<open>Use of the cache\<close>

datatype tool_use = UseInsert CachedTool | UseGet string

fun use_name :: "tool_use \<Rightarrow> string" where
  "use_name (UseInsert t) = ct_name t"
| "use_name (UseGet n) = n"

fun use_tool :: "tool_use \<Rightarrow> DynamicToolCache \<Rightarrow> DynamicToolCache option" where
  "use_tool (UseInsert t) c = (case insert_tool t c of Inl _ \<Rightarrow> None | Inr (c', _) \<Rightarrow> Some c')"
| "use_tool (UseGet n) c = (case get_tool n c of (_, None) \<Rightarrow> None | (c', Some _) \<Rightarrow> Some c')"

abbreviation active_names :: "DynamicToolCache \<Rightarrow> string list" where
  "active_names c \<equiv> map ct_name (active c)"

definition cache_inv :: "DynamicToolCache \<Rightarrow> bool" where
  "cache_inv c = (distinct (active_names c) \<and> distinct (seen c) \<and> set (active_names c) \<subseteq> set (seen c) \<and>
     length (seen c) \<le> session_ceiling c)"

lemma new_cache_simps [simp]: "session_ceiling (new_cache cap ceil) = ceil" "seen (new_cache cap ceil) = []"
  "active (new_cache cap ceil) = []" "context_cap (new_cache cap ceil) = cap"
  by (simp_all add: new_cache_def)

lemma cache_inv_new [simp]: "cache_inv (new_cache cap ceil)"
  by (simp add: cache_inv_def new_cache_def)

lemma names_remove_named [simp]: "map ct_name (remove_named n ts) = remove1 n (map ct_name ts)"
  by (induction ts) auto

lemma promote_inv:
  "cache_inv c \<Longrightarrow> ct_name t \<in> set (active_names c) \<Longrightarrow>
    cache_inv (c\<lparr>active := remove_named (ct_name t) (active c) @ [t]\<rparr>)"
  by (auto simp: cache_inv_def dest: notin_set_remove1)

text \<open>What an accepted insertion does: promote a tool in memory, or admit another one.\<close>

lemma insert_tool_cases:
  assumes "insert_tool t c = Inr (c', ev)"
  obtains "ct_name t \<in> set (active_names c)" "c' = c\<lparr>active := remove_named (ct_name t) (active c) @ [t]\<rparr>"
  | "ct_name t \<notin> set (active_names c)" "ct_name t \<in> set (seen c) \<or> length (seen c) < session_ceiling c"
    "c' = c\<lparr>seen := (if ct_name t \<in> set (seen c) then seen c else seen c @ [ct_name t]),
       active := (if context_cap c \<le> length (active c) then tl (active c) else active c) @ [t]\<rparr>"
proof (cases "has_key ct_name (ct_name t) (active c)")
  case True
  with assms that(1) show ?thesis by (simp add: insert_tool_def has_key_iff)
next
  case False
  with assms have "ct_name t \<in> set (seen c) \<or> length (seen c) < session_ceiling c"
    by (auto simp: insert_tool_def split: if_splits)
  moreover have "c' = c\<lparr>seen := (if ct_name t \<in> set (seen c) then seen c else seen c @ [ct_name t]),
       active := (if context_cap c \<le> length (active c) then tl (active c) else active c) @ [t]\<rparr>"
    using assms False by (auto simp: insert_tool_def Let_def split: if_splits)
  moreover have "ct_name t \<notin> set (active_names c)" using False by (simp add: has_key_iff)
  ultimately show ?thesis by (intro that(2))
qed

lemma insert_tool_total_iff:
  "(\<exists>r. insert_tool t c = Inr r) \<longleftrightarrow>
    ct_name t \<in> set (active_names c) \<or> ct_name t \<in> set (seen c) \<or> length (seen c) < session_ceiling c"
  by (auto simp: insert_tool_def Let_def has_key_iff split: prod.splits)

lemma insert_tool_step:
  assumes "cache_inv c" "insert_tool t c = Inr (c', ev)"
  shows "cache_inv c' \<and> active_names c' = lru_step (context_cap c) (ct_name t) (active_names c) \<and>
    context_cap c' = context_cap c \<and> session_ceiling c' = session_ceiling c \<and>
    set (seen c') = insert (ct_name t) (set (seen c))"
  using assms(2)
proof (cases rule: insert_tool_cases)
  case 1
  with promote_inv [OF assms(1) 1(1)] assms(1) show ?thesis
    by (auto simp: lru_step_def cache_inv_def)
next
  case 2
  have tl: "distinct (tl xs)" "set (tl xs) \<subseteq> set xs" if "distinct xs" for xs :: "string list"
    using that by (auto simp: distinct_tl dest: list.set_sel(2) [rotated]) (cases xs; auto)
  from assms(1) have i: "distinct (active_names c)" "distinct (seen c)"
    "set (active_names c) \<subseteq> set (seen c)" "length (seen c) \<le> session_ceiling c"
    by (simp_all add: cache_inv_def)
  have names: "active_names c' = lru_step (context_cap c) (ct_name t) (active_names c)"
    using 2 by (simp add: lru_step_def map_tl)
  have "distinct (active_names c') \<and> set (active_names c') \<subseteq> insert (ct_name t) (set (seen c))"
    unfolding names using i(1,3) tl [OF i(1)] 2(1)
    by (auto simp: lru_step_def simp del: set_map list.set_map)
  with 2 i names show ?thesis by (auto simp: cache_inv_def)
qed

lemma get_tool_step:
  assumes "cache_inv c" "get_tool n c = (c', Some t)"
  shows "cache_inv c' \<and> active_names c' = lru_step (context_cap c) n (active_names c) \<and>
    context_cap c' = context_cap c \<and> session_ceiling c' = session_ceiling c \<and> seen c' = seen c \<and>
    n \<in> set (active_names c)"
proof -
  from assms(2) have t: "find_by ct_name n (active c) = Some t"
    and c': "c' = c\<lparr>active := remove_named n (active c) @ [t]\<rparr>"
    by (auto simp: get_tool_def split: option.splits)
  from find_by_SomeD [OF t] have m: "ct_name t \<in> set (active_names c)" "ct_name t = n" by auto
  with promote_inv [OF assms(1) m(1)] c' show ?thesis by (auto simp: lru_step_def)
qed

lemma use_tool_step:
  assumes "cache_inv c" "use_tool u c = Some c'"
  shows "cache_inv c' \<and> active_names c' = lru_step (context_cap c) (use_name u) (active_names c) \<and>
    context_cap c' = context_cap c \<and> session_ceiling c' = session_ceiling c \<and>
    set (seen c') = insert (use_name u) (set (seen c))"
proof (cases u)
  case (UseInsert t)
  with assms(2) obtain ev where "insert_tool t c = Inr (c', ev)"
    by (auto split: sum.splits)
  with insert_tool_step [OF assms(1) this] UseInsert show ?thesis by simp
next
  case (UseGet n)
  with assms(2) obtain t where "get_tool n c = (c', Some t)"
    by (auto split: prod.splits option.splits)
  note step = get_tool_step [OF assms(1) this]
  then have "n \<in> set (seen c)" using assms(1) by (auto simp: cache_inv_def)
  with step UseGet show ?thesis by (simp add: insert_absorb)
qed

interpretation tool_cache: lru_cache cache_inv active_names context_cap use_name use_tool
  using use_tool_step by unfold_locales blast+

lemma run_seen:
  "cache_inv c \<Longrightarrow>
    session_ceiling (fst (run_uses use_tool us c)) = session_ceiling c \<and>
    set (seen (fst (run_uses use_tool us c))) = set (seen c) \<union> set (map use_name (snd (run_uses use_tool us c)))"
proof (induction us arbitrary: c)
  case (Cons u us)
  show ?case
  proof (cases "use_tool u c")
    case None
    with Cons show ?thesis by simp
  next
    case (Some c')
    note step = use_tool_step [OF Cons.prems Some]
    obtain c'' acc where rest: "run_uses use_tool us c' = (c'', acc)" by fastforce
    with Cons.IH [of c'] step Some show ?thesis by simp
  qed
qed simp

section \<open>Properties\<close>

text \<open>However insertions and lookups follow each other on a new cache (those refused or
  missed change nothing), the active tools are exactly the most recently used distinct ones,
  as many as the context cap allows (one if it is 0), in the order of their last use.\<close>

lemma active_tools_most_recent:
  "active_names (fst (run_uses use_tool us (new_cache cap ceil))) =
     last_n (max 1 cap) (remdups (map use_name (snd (run_uses use_tool us (new_cache cap ceil)))))"
  using tool_cache.run_holds_most_recent [of "new_cache cap ceil" us]
  by simp

text \<open>The session ceiling is hard: the tools ever admitted are never more than the ceiling,
  they are exactly those of the accepted uses, and an insertion is refused exactly when its
  tool was never admitted and the ceiling is reached, so an evicted tool can always return.\<close>

lemma session_ceiling_hard:
  "total_seen (fst (run_uses use_tool us (new_cache cap ceil))) \<le> ceil \<and>
   total_seen (fst (run_uses use_tool us (new_cache cap ceil))) =
     card (set (map use_name (snd (run_uses use_tool us (new_cache cap ceil))))) \<and>
   ((\<exists>r. insert_tool t (fst (run_uses use_tool us (new_cache cap ceil))) = Inr r) \<longleftrightarrow>
     ct_name t \<in> set (map use_name (snd (run_uses use_tool us (new_cache cap ceil)))) \<or>
     total_seen (fst (run_uses use_tool us (new_cache cap ceil))) < ceil)"
proof -
  let ?c = "fst (run_uses use_tool us (new_cache cap ceil))"
  let ?acc = "snd (run_uses use_tool us (new_cache cap ceil))"
  have inv: "cache_inv ?c"
    using tool_cache.run_holds_most_recent [of "new_cache cap ceil" us] by simp
  have seen: "session_ceiling ?c = ceil" "set (seen ?c) = set (map use_name ?acc)"
    using run_seen [of "new_cache cap ceil" us] by auto
  have "length (seen ?c) = card (set (seen ?c))" "length (seen ?c) \<le> ceil"
    "set (active_names ?c) \<subseteq> set (seen ?c)"
    using inv seen(1) by (simp_all add: cache_inv_def distinct_card)
  with seen insert_tool_total_iff [of t ?c] show ?thesis by (auto simp: total_seen_def)
qed

end
