(* ===== verification/AgentRuns.thy ===== *)
theory AgentRuns
  imports Contracts "HOL-Library.List_Lexorder" "HOL-Library.Char_ord"
begin

text \<open>The sub-agent runs of the runtime store (\<open>aria-x/src/runtime_store/runs.rs\<close>, types of
  \<open>aria-core/src/runtime.rs\<close>): the run table and its claims, the presence of the agents
  derived from it, cancellation of a run and of a tree of runs, retry, takeover, and the
  tree snapshot.  A run row is the record with its update time: the other columns of the
  table are copies of fields of the record.  SQLite and JSON failures are outside the model.
  \<open>uid n\<close> is the text of the \<open>n\<close>-th UUID the program draws, \<open>drawn\<close> the number drawn so far.\<close>

section \<open>Data\<close>

datatype AgentRunStatus = Queued | Running | Completed | Failed | Cancelled | TimedOut
datatype AgentAvailabilityState = AgentAvailable | AgentBusy | AgentDegraded | AgentPaused | AgentBlocked
datatype AgentRunOriginKind = Spawned | Retry | Takeover
datatype AgentRunEventKind = QueuedEvent | StartedEvent | RetriedEvent | TakeoverQueuedEvent | CompletedEvent
  | FailedEvent | CancelledEvent | TimedOutEvent | InboxNotification

record AgentPresenceRecord =
  ap_agent_id :: string
  ap_availability :: AgentAvailabilityState
  ap_active_run_count :: u32
  ap_status_summary :: "string option"
  ap_updated_at_us :: u64

record AgentRunResult =
  rs_response_summary :: "string option"
  rs_error :: "string option"
  rs_completed_at_us :: "u64 option"

record AgentRunRecord =
  ar_run_id :: string
  ar_parent_run_id :: "string option"
  ar_origin_kind :: "AgentRunOriginKind option"
  ar_lineage_run_id :: "string option"
  ar_session_id :: string
  ar_user_id :: string
  ar_requested_by_agent :: "string option"
  ar_agent_id :: string
  ar_status :: AgentRunStatus
  ar_request_text :: string
  ar_inbox_on_completion :: bool
  ar_max_runtime_seconds :: "u32 option"
  ar_created_at_us :: u64
  ar_started_at_us :: "u64 option"
  ar_finished_at_us :: "u64 option"
  ar_result :: "AgentRunResult option"

record AgentRunEvent =
  ae_event_id :: string
  ae_run_id :: string
  ae_kind :: AgentRunEventKind
  ae_summary :: string
  ae_created_at_us :: u64
  ae_related_run_id :: "string option"
  ae_actor_agent_id :: "string option"

record AgentMailboxMessage =
  mb_message_id :: string
  mb_run_id :: string
  mb_session_id :: string
  mb_from_agent_id :: "string option"
  mb_to_agent_id :: "string option"
  mb_body :: string
  mb_created_at_us :: u64
  mb_delivered :: bool

record run_row =
  rr_run :: AgentRunRecord
  rr_updated_at_us :: u64

record run_store =
  agent_runs :: "run_row list"
  agent_presence :: "AgentPresenceRecord list"
  run_events :: "AgentRunEvent list"
  mailbox :: "AgentMailboxMessage list"
  drawn :: nat

definition row_id :: "run_row \<Rightarrow> string" where
  "row_id r = ar_run_id (rr_run r)"

section \<open>Runs and presence\<close>

definition is_active :: "AgentRunStatus \<Rightarrow> bool" where
  "is_active st = (st = Queued \<or> st = Running)"

definition upsert_agent_presence_record :: "AgentPresenceRecord \<Rightarrow> run_store \<Rightarrow> run_store" where
  "upsert_agent_presence_record p s = s\<lparr>agent_presence := upsert_by ap_agent_id p (agent_presence s)\<rparr>"

definition count_active_agent_runs_for_agent :: "string \<Rightarrow> run_store \<Rightarrow> nat" where
  "count_active_agent_runs_for_agent a s =
    length (filter (\<lambda>r. ar_agent_id (rr_run r) = a \<and> is_active (ar_status (rr_run r))) (agent_runs s))"

definition presence_record :: "string \<Rightarrow> u32 \<Rightarrow> u64 \<Rightarrow> AgentPresenceRecord" where
  "presence_record a n t = \<lparr>ap_agent_id = a, ap_availability = (if n = 0 then AgentAvailable else AgentBusy),
     ap_active_run_count = n,
     ap_status_summary = Some (if n = 0 then ''idle'' else show_nat (unat n) @ '' active run(s)''),
     ap_updated_at_us = t\<rparr>"

definition refresh_agent_presence :: "string \<Rightarrow> u64 \<Rightarrow> run_store \<Rightarrow> run_store" where
  "refresh_agent_presence a t s =
    upsert_agent_presence_record (presence_record a (of_nat (count_active_agent_runs_for_agent a s)) t) s"

definition upsert_agent_run :: "AgentRunRecord \<Rightarrow> u64 \<Rightarrow> run_store \<Rightarrow> run_store" where
  "upsert_agent_run run t s = refresh_agent_presence (ar_agent_id run) t
     (s\<lparr>agent_runs := upsert_by row_id \<lparr>rr_run = run, rr_updated_at_us = t\<rparr> (agent_runs s)\<rparr>)"

definition list_agent_presence :: "run_store \<Rightarrow> AgentPresenceRecord list" where
  "list_agent_presence s = sort_key (\<lambda>p. - sint (ap_updated_at_us p)) (sort_key ap_agent_id (agent_presence s))"

definition read_agent_run :: "string \<Rightarrow> run_store \<Rightarrow> AgentRunRecord option" where
  "read_agent_run k s = map_option rr_run (find_by row_id k (agent_runs s))"

definition list_agent_runs_for_session :: "string \<Rightarrow> run_store \<Rightarrow> AgentRunRecord list" where
  "list_agent_runs_for_session sid s = map rr_run (sort_key (\<lambda>r. sint (rr_updated_at_us r))
     (filter (\<lambda>r. ar_session_id (rr_run r) = sid) (agent_runs s)))"

definition count_active_agent_runs_for_parent :: "string \<Rightarrow> run_store \<Rightarrow> nat" where
  "count_active_agent_runs_for_parent p s = length (filter (\<lambda>r. is_active (ar_status (rr_run r)) \<and>
     ar_parent_run_id (rr_run r) = Some p) (agent_runs s))"

definition is_queued :: "run_row \<Rightarrow> bool" where
  "is_queued r = (ar_status (rr_run r) = Queued)"

definition started :: "u64 \<Rightarrow> AgentRunRecord \<Rightarrow> AgentRunRecord" where
  "started t r = r\<lparr>ar_status := Running, ar_started_at_us := Some t\<rparr>"

definition claim_next_queued_agent_run :: "u64 \<Rightarrow> run_store \<Rightarrow> run_store \<times> AgentRunRecord option" where
  "claim_next_queued_agent_run t s =
    (case first_min (\<lambda>r. sint (rr_updated_at_us r)) (filter is_queued (agent_runs s)) of
       None \<Rightarrow> (s, None)
     | Some q \<Rightarrow>
        (let hit = (\<lambda>r. row_id r = row_id q \<and> is_queued r);
             run = started t (rr_run q);
             s' = s\<lparr>agent_runs := update_where hit (\<lambda>_. \<lparr>rr_run = run, rr_updated_at_us = t\<rparr>) (agent_runs s)\<rparr> in
         if list_ex hit (agent_runs s) then (s', Some run) else (s', None)))"

section \<open>Events and mailbox\<close>

definition append_agent_run_event :: "AgentRunEvent \<Rightarrow> run_store \<Rightarrow> run_store" where
  "append_agent_run_event e s = s\<lparr>run_events := run_events s @ [e]\<rparr>"

definition append_agent_mailbox_message :: "AgentMailboxMessage \<Rightarrow> run_store \<Rightarrow> run_store" where
  "append_agent_mailbox_message m s = s\<lparr>mailbox := mailbox s @ [m]\<rparr>"

definition list_agent_run_events :: "string \<Rightarrow> run_store \<Rightarrow> AgentRunEvent list" where
  "list_agent_run_events k s =
    sort_key (\<lambda>e. sint (ae_created_at_us e)) (filter (\<lambda>e. ae_run_id e = k) (run_events s))"

definition list_agent_mailbox_messages :: "string \<Rightarrow> run_store \<Rightarrow> AgentMailboxMessage list" where
  "list_agent_mailbox_messages k s =
    sort_key (\<lambda>m. sint (mb_created_at_us m)) (filter (\<lambda>m. mb_run_id m = k) (mailbox s))"

text \<open>An event and a message with a newly drawn id.\<close>

definition log_event :: "(nat \<Rightarrow> string) \<Rightarrow> string \<Rightarrow> AgentRunEventKind \<Rightarrow> string \<Rightarrow> u64 \<Rightarrow> string option
    \<Rightarrow> string option \<Rightarrow> run_store \<Rightarrow> run_store" where
  "log_event uid k kind summary t related actor s = append_agent_run_event
     \<lparr>ae_event_id = ''evt-'' @ uid (drawn s), ae_run_id = k, ae_kind = kind, ae_summary = summary,
      ae_created_at_us = t, ae_related_run_id = related, ae_actor_agent_id = actor\<rparr>
     (s\<lparr>drawn := Suc (drawn s)\<rparr>)"

definition post_message :: "(nat \<Rightarrow> string) \<Rightarrow> AgentRunRecord \<Rightarrow> string option \<Rightarrow> string \<Rightarrow> u64
    \<Rightarrow> run_store \<Rightarrow> run_store" where
  "post_message uid run sender body t s = append_agent_mailbox_message
     \<lparr>mb_message_id = ''msg-'' @ uid (drawn s), mb_run_id = ar_run_id run, mb_session_id = ar_session_id run,
      mb_from_agent_id = sender, mb_to_agent_id = ar_requested_by_agent run, mb_body = body,
      mb_created_at_us = t, mb_delivered = False\<rparr>
     (s\<lparr>drawn := Suc (drawn s)\<rparr>)"

definition quoted :: "string \<Rightarrow> string" where
  "quoted x = [CHR 0x27] @ x @ [CHR 0x27]"

section \<open>Cancel, retry, take over\<close>

definition cancelled :: "string \<Rightarrow> u64 \<Rightarrow> AgentRunRecord \<Rightarrow> AgentRunRecord" where
  "cancelled summary t r = r\<lparr>ar_status := Cancelled, ar_finished_at_us := Some t,
     ar_result := Some \<lparr>rs_response_summary = None, rs_error = Some summary, rs_completed_at_us = Some t\<rparr>\<rparr>"

definition cancel_agent_run ::
  "(nat \<Rightarrow> string) \<Rightarrow> string \<Rightarrow> string \<Rightarrow> u64 \<Rightarrow> run_store \<Rightarrow> run_store \<times> AgentRunRecord option" where
  "cancel_agent_run uid k summary t s = (case read_agent_run k s of
      None \<Rightarrow> (s, None)
    | Some run0 \<Rightarrow>
       if ar_status run0 \<in> {Completed, Failed, Cancelled, TimedOut} then (s, Some run0)
       else
         let run = cancelled summary t run0;
             s1 = log_event uid (ar_run_id run) CancelledEvent summary t None None (upsert_agent_run run t s);
             s2 = (if ar_inbox_on_completion run \<and> ar_requested_by_agent run \<noteq> None
                   then log_event uid (ar_run_id run) InboxNotification
                          ''queued inbox notification for parent run'' t None None
                        (post_message uid run (Some (ar_agent_id run))
                          (''Sub-agent '' @ quoted (ar_agent_id run) @ '' cancelled: '' @ summary) t s1)
                   else s1)
         in (s2, Some run))"

text \<open>A new queued run for the work of an existing one.\<close>

definition successor_run ::
  "string \<Rightarrow> AgentRunOriginKind \<Rightarrow> string \<Rightarrow> string option \<Rightarrow> u64 \<Rightarrow> AgentRunRecord \<Rightarrow> AgentRunRecord" where
  "successor_run k origin agent requested t e =
    \<lparr>ar_run_id = k,
     ar_parent_run_id = (case ar_parent_run_id e of Some p \<Rightarrow> Some p | None \<Rightarrow> Some (ar_run_id e)),
     ar_origin_kind = Some origin, ar_lineage_run_id = Some (ar_run_id e), ar_session_id = ar_session_id e,
     ar_user_id = ar_user_id e,
     ar_requested_by_agent = (case requested of Some a \<Rightarrow> Some a | None \<Rightarrow> ar_requested_by_agent e),
     ar_agent_id = agent, ar_status = Queued, ar_request_text = ar_request_text e,
     ar_inbox_on_completion = ar_inbox_on_completion e, ar_max_runtime_seconds = ar_max_runtime_seconds e,
     ar_created_at_us = t, ar_started_at_us = None, ar_finished_at_us = None, ar_result = None\<rparr>"

definition retry_agent_run ::
  "(nat \<Rightarrow> string) \<Rightarrow> string \<Rightarrow> string option \<Rightarrow> u64 \<Rightarrow> run_store \<Rightarrow> run_store \<times> AgentRunRecord option" where
  "retry_agent_run uid k requested t s = (case read_agent_run k s of
      None \<Rightarrow> (s, None)
    | Some existing \<Rightarrow>
       let retried = successor_run (''run-'' @ uid (drawn s)) Retry (ar_agent_id existing) requested t existing;
           s1 = upsert_agent_run retried t (s\<lparr>drawn := Suc (drawn s)\<rparr>);
           s2 = log_event uid (ar_run_id existing) RetriedEvent (''Run retried as '' @ quoted (ar_run_id retried)) t
                  (Some (ar_run_id retried)) requested s1;
           s3 = log_event uid (ar_run_id retried) QueuedEvent (''Run retried from '' @ quoted (ar_run_id existing)) t
                  (Some (ar_run_id existing)) requested s2
       in (s3, Some retried))"

text \<open>The children of a run in the snapshot of its session, and the traversal with an explicit
  stack, whose top is the head of the list.  \<open>None\<close> means that the loop never ends.\<close>

definition children_of :: "AgentRunRecord list \<Rightarrow> string \<Rightarrow> string list" where
  "children_of rs p = map ar_run_id (filter (\<lambda>r. ar_parent_run_id r = Some p) rs)"

partial_function (option) collect :: "(string \<Rightarrow> string list) \<Rightarrow> string list \<Rightarrow> string list \<Rightarrow> string list option" where
  "collect ch stack acc = (case stack of
      [] \<Rightarrow> Some acc
    | x # rest \<Rightarrow> collect ch (rev (ch x) @ rest) (acc @ ch x))"

fun cancel_each :: "(nat \<Rightarrow> string) \<Rightarrow> string \<Rightarrow> u64 \<Rightarrow> string list \<Rightarrow> run_store
    \<Rightarrow> run_store \<times> AgentRunRecord list" where
  "cancel_each uid summary t [] s = (s, [])"
| "cancel_each uid summary t (k # ks) s = (case cancel_agent_run uid k summary t s of (s1, r) \<Rightarrow>
     (case cancel_each uid summary t ks s1 of (s2, rs) \<Rightarrow>
       (s2, (case r of Some run \<Rightarrow> run # rs | None \<Rightarrow> rs))))"

definition cancel_agent_run_tree ::
  "(nat \<Rightarrow> string) \<Rightarrow> string \<Rightarrow> string \<Rightarrow> u64 \<Rightarrow> run_store \<Rightarrow> (run_store \<times> AgentRunRecord list) option" where
  "cancel_agent_run_tree uid k summary t s = (case read_agent_run k s of
      None \<Rightarrow> Some (s, [])
    | Some root \<Rightarrow>
       (case collect (children_of (list_agent_runs_for_session (ar_session_id root) s)) [k] [] of
          None \<Rightarrow> None
        | Some ids \<Rightarrow>
           (let (s1, rs) = cancel_each uid
                  (''cancelled because ancestor '' @ quoted k @ '' was cancelled'') t (rev ids) s;
                (s2, r) = cancel_agent_run uid k summary t s1
            in Some (s2, rs @ (case r of Some run \<Rightarrow> [run] | None \<Rightarrow> [])))))"

text \<open>The events and the message of a takeover, and the takeover.  After the cancellation the run
  is read again; no operation deletes a row, so it is there.\<close>

definition log_takeover ::
  "(nat \<Rightarrow> string) \<Rightarrow> AgentRunRecord \<Rightarrow> AgentRunRecord \<Rightarrow> string \<Rightarrow> u64 \<Rightarrow> run_store \<Rightarrow> run_store" where
  "log_takeover uid existing new agent t s2 =
    (let s3 = log_event uid (ar_run_id existing) TakeoverQueuedEvent
           (''Run taken over by '' @ quoted agent @ '' as '' @ quoted (ar_run_id new)) t
           (Some (ar_run_id new)) (Some agent) s2;
         s4 = log_event uid (ar_run_id new) QueuedEvent
           (''Run taken over from '' @ quoted (ar_run_id existing) @ '' by '' @ quoted agent) t
           (Some (ar_run_id existing)) (Some agent) s3;
         s5 = post_message uid existing (Some agent)
           (''Run '' @ quoted (ar_run_id existing) @ '' was taken over by '' @ quoted agent @
            '' as '' @ quoted (ar_run_id new) @ ''.'') t s4
     in log_event uid (ar_run_id existing) InboxNotification
          ''queued inbox notification for takeover'' t (Some (ar_run_id new)) (Some agent) s5)"

definition cancel_for_takeover ::
  "(nat \<Rightarrow> string) \<Rightarrow> AgentRunRecord \<Rightarrow> string \<Rightarrow> string \<Rightarrow> u64 \<Rightarrow> run_store \<Rightarrow> (run_store \<times> AgentRunRecord) option" where
  "cancel_for_takeover uid existing agent new_id t s =
    (if is_active (ar_status existing)
     then (case cancel_agent_run_tree uid (ar_run_id existing)
              (''taken over by '' @ quoted agent @ '' as '' @ quoted new_id) t s of
             None \<Rightarrow> None
           | Some (s1, _) \<Rightarrow> Some (s1, (case read_agent_run (ar_run_id existing) s1 of
                 Some r \<Rightarrow> r | None \<Rightarrow> existing)))
     else Some (s, existing))"

definition take_over_agent_run ::
  "(nat \<Rightarrow> string) \<Rightarrow> string \<Rightarrow> string \<Rightarrow> string option \<Rightarrow> u64 \<Rightarrow> run_store
    \<Rightarrow> (run_store \<times> AgentRunRecord option) option" where
  "take_over_agent_run uid k agent requested t s = (case read_agent_run k s of
      None \<Rightarrow> Some (s, None)
    | Some existing0 \<Rightarrow>
       let new = successor_run (''run-'' @ uid (drawn s)) Takeover agent requested t existing0 in
       case cancel_for_takeover uid existing0 agent (ar_run_id new) t (s\<lparr>drawn := Suc (drawn s)\<rparr>) of
         None \<Rightarrow> None
       | Some (s1, existing) \<Rightarrow>
          Some (log_takeover uid existing new agent t (upsert_agent_run new t s1), Some new))"

section \<open>Spawning and executing runs\<close>

text \<open>\<open>spawn_agent\<close> and \<open>process_next_queued_agent_run\<close> of \<open>aria-x/src/tools.rs\<close>.  A worker claims the next queued
  run, lets its handler run, and writes its own copy back with the outcome unless the run has been cancelled
  meanwhile.\<close>

definition spawn_agent_run :: "(nat \<Rightarrow> string) \<Rightarrow> string \<Rightarrow> string \<Rightarrow> string option \<Rightarrow> string \<Rightarrow> string \<Rightarrow> string option \<Rightarrow>
    u32 option \<Rightarrow> u64 \<Rightarrow> run_store \<Rightarrow> run_store \<times> AgentRunRecord" where
  "spawn_agent_run uid session user invoking agent prompt parent limit t s =
    (let run = \<lparr>ar_run_id = ''run-'' @ uid (drawn s),
           ar_parent_run_id = (case parent of Some p \<Rightarrow> Some p | None \<Rightarrow> Some (''session:'' @ session)),
           ar_origin_kind = Some Spawned, ar_lineage_run_id = None, ar_session_id = session, ar_user_id = user,
           ar_requested_by_agent = invoking, ar_agent_id = agent, ar_status = Queued, ar_request_text = prompt,
           ar_inbox_on_completion = True,
           ar_max_runtime_seconds = (case limit of Some n \<Rightarrow> Some n | None \<Rightarrow> Some 600),
           ar_created_at_us = t, ar_started_at_us = None, ar_finished_at_us = None, ar_result = None\<rparr>
     in (log_event uid (ar_run_id run) QueuedEvent
           (''queued child agent '' @ quoted agent @ '' for async execution'') t parent invoking
           (upsert_agent_run run t (s\<lparr>drawn := Suc (drawn s)\<rparr>)), run))"

definition begin_queued_run :: "(nat \<Rightarrow> string) \<Rightarrow> u64 \<Rightarrow> run_store \<Rightarrow> run_store \<times> AgentRunRecord option" where
  "begin_queued_run uid t s = (case claim_next_queued_agent_run t s of
      (s1, None) \<Rightarrow> (s1, None)
    | (s1, Some run) \<Rightarrow> (log_event uid (ar_run_id run) StartedEvent (''started child agent '' @ quoted (ar_agent_id run)) t
         (ar_lineage_run_id run) (ar_requested_by_agent run) s1, Some run))"

text \<open>What the handler of a run comes to: an answer, an error, or nothing within the time limit.  With a limit of zero
  seconds the handler is not started.\<close>

datatype run_outcome = Answered string | Errored string | Expired

definition runtime_limit :: "AgentRunRecord \<Rightarrow> u32" where
  "runtime_limit run = (case ar_max_runtime_seconds run of Some n \<Rightarrow> n | None \<Rightarrow> 600)"

definition limit_error :: "AgentRunRecord \<Rightarrow> string" where
  "limit_error run = ''child agent '' @ quoted (ar_agent_id run) @ '' exceeded runtime limit of '' @
     show_nat (unat (runtime_limit run)) @ ''s''"

fun finished :: "run_outcome \<Rightarrow> u64 \<Rightarrow> AgentRunRecord \<Rightarrow> AgentRunRecord" where
  "finished (Answered answer) t run = run\<lparr>ar_status := Completed, ar_finished_at_us := Some t, ar_result := Some
     \<lparr>rs_response_summary = Some answer, rs_error = None, rs_completed_at_us = Some t\<rparr>\<rparr>"
| "finished (Errored e) t run = run\<lparr>ar_status := Failed, ar_finished_at_us := Some t, ar_result := Some
     \<lparr>rs_response_summary = None, rs_error = Some e, rs_completed_at_us = Some t\<rparr>\<rparr>"
| "finished Expired t run = run\<lparr>ar_status := TimedOut, ar_finished_at_us := Some t, ar_result := Some
     \<lparr>rs_response_summary = None, rs_error = Some (limit_error run), rs_completed_at_us = Some t\<rparr>\<rparr>"

fun outcome_event :: "run_outcome \<Rightarrow> AgentRunEventKind" where
  "outcome_event (Answered _) = CompletedEvent"
| "outcome_event (Errored _) = FailedEvent"
| "outcome_event Expired = TimedOutEvent"

fun outcome_summary :: "run_outcome \<Rightarrow> string \<Rightarrow> string" where
  "outcome_summary (Answered _) agent = ''child agent '' @ quoted agent @ '' completed''"
| "outcome_summary (Errored _) agent = ''child agent '' @ quoted agent @ '' failed''"
| "outcome_summary Expired agent = ''child agent '' @ quoted agent @ '' timed out''"

fun outcome_body :: "run_outcome \<Rightarrow> AgentRunRecord \<Rightarrow> string" where
  "outcome_body (Answered answer) run = ''Sub-agent '' @ quoted (ar_agent_id run) @ '' completed: '' @ answer"
| "outcome_body (Errored e) run = ''Sub-agent '' @ quoted (ar_agent_id run) @ '' failed: '' @ e"
| "outcome_body Expired run = ''Sub-agent '' @ quoted (ar_agent_id run) @ '' timed out: '' @ limit_error run"

definition write_finished :: "(nat \<Rightarrow> string) \<Rightarrow> AgentRunRecord \<Rightarrow> run_outcome \<Rightarrow> u64 \<Rightarrow> run_store \<Rightarrow>
    run_store \<times> AgentRunRecord" where
  "write_finished uid claimed outcome t s =
    (let run = finished outcome t claimed;
         s1 = log_event uid (ar_run_id run) (outcome_event outcome) (outcome_summary outcome (ar_agent_id run)) t
                (ar_lineage_run_id run) (ar_requested_by_agent run) (upsert_agent_run run t s);
         s2 = (if ar_inbox_on_completion run
               then log_event uid (ar_run_id run) InboxNotification ''queued inbox notification for parent run'' t
                      (ar_lineage_run_id run) (ar_requested_by_agent run)
                      (post_message uid run (Some (ar_agent_id run)) (outcome_body outcome run) t s1)
               else s1)
     in (s2, run))"

definition finish_queued_run :: "(nat \<Rightarrow> string) \<Rightarrow> AgentRunRecord \<Rightarrow> run_outcome \<Rightarrow> u64 \<Rightarrow> run_store \<Rightarrow>
    run_store \<times> AgentRunRecord" where
  "finish_queued_run uid claimed outcome t s =
    (let outcome = (if runtime_limit claimed = 0 then Expired else outcome);
         otherwise = write_finished uid claimed outcome t s in
     case read_agent_run (ar_run_id claimed) s of
       Some current \<Rightarrow> if ar_status current = Cancelled then (s, current) else otherwise
     | None \<Rightarrow> otherwise)"

section \<open>The tree snapshot\<close>

record AgentRunTreeNode =
  tn_run :: AgentRunRecord
  tn_child_run_ids :: "string list"
  tn_mailbox_count :: u32
  tn_last_event_kind :: "AgentRunEventKind option"
  tn_last_event_summary :: "string option"

record AgentRunTransition =
  tx_kind :: AgentRunEventKind
  tx_source_run_id :: string
  tx_target_run_id :: string
  tx_summary :: string
  tx_created_at_us :: u64
  tx_actor_agent_id :: "string option"

record AgentRunTreeSnapshot =
  sn_session_id :: string
  sn_root_run_ids :: "string list"
  sn_orphan_parent_refs :: "string list"
  sn_nodes :: "AgentRunTreeNode list"
  sn_transitions :: "AgentRunTransition list"

definition last_option :: "'a list \<Rightarrow> 'a option" where
  "last_option xs = (if xs = [] then None else Some (last xs))"

text \<open>The parent of a run that is among the given ids.\<close>

definition known_parent :: "AgentRunRecord list \<Rightarrow> AgentRunRecord \<Rightarrow> string option" where
  "known_parent rs r = (case ar_parent_run_id r of
      Some p \<Rightarrow> if p \<in> set (map ar_run_id rs) then Some p else None
    | None \<Rightarrow> None)"

definition run_transitions :: "run_store \<Rightarrow> AgentRunRecord \<Rightarrow> AgentRunTransition list" where
  "run_transitions s r = List.map_filter (\<lambda>e.
     if ae_kind e = RetriedEvent \<or> ae_kind e = TakeoverQueuedEvent
     then map_option (\<lambda>target. \<lparr>tx_kind = ae_kind e, tx_source_run_id = ar_run_id r, tx_target_run_id = target,
            tx_summary = ae_summary e, tx_created_at_us = ae_created_at_us e,
            tx_actor_agent_id = ae_actor_agent_id e\<rparr>) (ae_related_run_id e)
     else None) (list_agent_run_events (ar_run_id r) s)"

definition tree_node :: "run_store \<Rightarrow> AgentRunRecord list \<Rightarrow> AgentRunRecord \<Rightarrow> AgentRunTreeNode" where
  "tree_node s rs r =
    (let events = list_agent_run_events (ar_run_id r) s in
     \<lparr>tn_run = r,
      tn_child_run_ids = map ar_run_id (filter (\<lambda>c. known_parent rs c = Some (ar_run_id r)) rs),
      tn_mailbox_count = of_nat (length (list_agent_mailbox_messages (ar_run_id r) s)),
      tn_last_event_kind = map_option ae_kind (last_option events),
      tn_last_event_summary = map_option ae_summary (last_option events)\<rparr>)"

definition build_agent_run_tree_snapshot :: "string \<Rightarrow> run_store \<Rightarrow> AgentRunTreeSnapshot" where
  "build_agent_run_tree_snapshot sid s =
    (let rs = list_agent_runs_for_session sid s in
     \<lparr>sn_session_id = sid,
      sn_root_run_ids = remdups_adj (sort (map ar_run_id (filter (\<lambda>r. known_parent rs r = None) rs))),
      sn_orphan_parent_refs = sorted_list_of_set (set (List.map_filter ar_parent_run_id
         (filter (\<lambda>r. known_parent rs r = None) rs))),
      sn_nodes = sort_key (\<lambda>n. ar_created_at_us (tn_run n)) (map (tree_node s rs) rs),
      sn_transitions = sort_key tx_created_at_us (concat (map (run_transitions s) rs))\<rparr>)"

section \<open>The invariant\<close>

text \<open>Run ids are unique, none of them is a run id that is still to be drawn, and the presence
  of every agent tells the number of its active runs.\<close>

definition presence_ok :: "run_store \<Rightarrow> bool" where
  "presence_ok s = ((\<forall>p\<in>set (agent_presence s). \<exists>t. p = presence_record (ap_agent_id p)
       (of_nat (count_active_agent_runs_for_agent (ap_agent_id p) s)) t) \<and>
     (\<forall>r\<in>set (agent_runs s). ar_agent_id (rr_run r) \<in> keys_of ap_agent_id (agent_presence s)))"

definition runs_inv :: "(nat \<Rightarrow> string) \<Rightarrow> run_store \<Rightarrow> bool" where
  "runs_inv uid s = (unique_keys row_id (agent_runs s) \<and> unique_keys ap_agent_id (agent_presence s) \<and>
     presence_ok s \<and> (\<forall>r\<in>set (agent_runs s). \<forall>n\<ge>drawn s. row_id r \<noteq> ''run-'' @ uid n))"

lemma is_active_iff: "is_active st \<longleftrightarrow> st \<notin> {Completed, Failed, Cancelled, TimedOut}"
  by (cases st) (simp_all add: is_active_def)

lemma length_filter_update_by:
  assumes "\<And>r. r \<in> set xs \<Longrightarrow> key r = key x \<Longrightarrow> P r = P x"
  shows "length (filter P (update_by key (key x) (\<lambda>_. x) xs)) = length (filter P xs)"
  using assms by (induction xs) (auto simp: update_by_def)

lemma length_filter_upsert_by:
  assumes "\<And>r. r \<in> set xs \<Longrightarrow> key r = key x \<Longrightarrow> P r = P x"
  shows "length (filter P (upsert_by key x xs)) =
    length (filter P xs) + (if key x \<notin> keys_of key xs \<and> P x then 1 else 0)"
  using length_filter_update_by [of xs key x P] assms by (auto simp: upsert_by_def has_key_iff)

lemma set_upsert_by: "r \<in> set (upsert_by key x xs) \<Longrightarrow> r = x \<or> r \<in> set xs"
  by (auto simp: upsert_by_def update_by_def split: if_splits)

text \<open>Logging touches neither runs nor presence.\<close>

lemma log_event_simps [simp]:
  "agent_runs (log_event uid k kind sm t rl ac s) = agent_runs s"
  "agent_presence (log_event uid k kind sm t rl ac s) = agent_presence s"
  "drawn (log_event uid k kind sm t rl ac s) = Suc (drawn s)"
  by (simp_all add: log_event_def append_agent_run_event_def)

lemma post_message_simps [simp]:
  "agent_runs (post_message uid run sn bd t s) = agent_runs s"
  "agent_presence (post_message uid run sn bd t s) = agent_presence s"
  "drawn (post_message uid run sn bd t s) = Suc (drawn s)"
  by (simp_all add: post_message_def append_agent_mailbox_message_def)

lemma read_cong: "agent_runs s' = agent_runs s \<Longrightarrow> read_agent_run k s' = read_agent_run k s"
  by (simp add: read_agent_run_def)

lemma runs_inv_grow:
  assumes "runs_inv uid s" "agent_runs s' = agent_runs s" "agent_presence s' = agent_presence s"
    "drawn s \<le> drawn s'"
  shows "runs_inv uid s'"
  using assms by (auto simp: runs_inv_def presence_ok_def count_active_agent_runs_for_agent_def)

text \<open>Writing a row, without and with the refresh of the presence.\<close>

definition set_run :: "AgentRunRecord \<Rightarrow> u64 \<Rightarrow> run_store \<Rightarrow> run_store" where
  "set_run run t s = s\<lparr>agent_runs := upsert_by row_id \<lparr>rr_run = run, rr_updated_at_us = t\<rparr> (agent_runs s)\<rparr>"

lemma row_id_make [simp]: "row_id \<lparr>rr_run = run, rr_updated_at_us = t\<rparr> = ar_run_id run"
  by (simp add: row_id_def)

lemma upsert_agent_run_set: "upsert_agent_run run t s = refresh_agent_presence (ar_agent_id run) t (set_run run t s)"
  by (simp add: upsert_agent_run_def set_run_def)

lemma refresh_simps [simp]:
  "agent_runs (refresh_agent_presence a t s) = agent_runs s"
  "drawn (refresh_agent_presence a t s) = drawn s"
  by (simp_all add: refresh_agent_presence_def upsert_agent_presence_record_def)

lemma read_set_run: "read_agent_run k (set_run run t s) = (if k = ar_run_id run then Some run else read_agent_run k s)"
  by (simp add: read_agent_run_def set_run_def find_by_upsert_by)

lemma read_upsert: "read_agent_run k (upsert_agent_run run t s) =
    (if k = ar_run_id run then Some run else read_agent_run k s)"
  by (simp add: upsert_agent_run_set read_cong [of "refresh_agent_presence _ _ _"] read_set_run)

lemma drawn_upsert [simp]: "drawn (upsert_agent_run run t s) = drawn s"
  by (simp add: upsert_agent_run_set set_run_def)

lemma read_row:
  assumes "unique_keys row_id (agent_runs s)"
  shows "read_agent_run k s = Some r \<longleftrightarrow> (\<exists>x\<in>set (agent_runs s). row_id x = k \<and> rr_run x = r)"
  using assms by (auto simp: read_agent_run_def dest: find_by_SomeD find_by_unique)

lemma count_set_run:
  assumes "\<And>r. r \<in> set (agent_runs s) \<Longrightarrow> row_id r = ar_run_id run \<Longrightarrow>
      ar_agent_id (rr_run r) = ar_agent_id run" "a \<noteq> ar_agent_id run"
  shows "count_active_agent_runs_for_agent a (set_run run t s) = count_active_agent_runs_for_agent a s"
  using assms length_filter_upsert_by [of "agent_runs s" row_id "\<lparr>rr_run = run, rr_updated_at_us = t\<rparr>"
      "\<lambda>r. ar_agent_id (rr_run r) = a \<and> is_active (ar_status (rr_run r))"]
  by (auto simp: count_active_agent_runs_for_agent_def set_run_def)

text \<open>A run may be written anew under its agent, or added under an id that is not reserved.\<close>

definition writable :: "(nat \<Rightarrow> string) \<Rightarrow> AgentRunRecord \<Rightarrow> run_store \<Rightarrow> bool" where
  "writable uid run s = ((\<forall>r. read_agent_run (ar_run_id run) s = Some r \<longrightarrow> ar_agent_id r = ar_agent_id run) \<and>
     (\<forall>n\<ge>drawn s. ar_run_id run \<noteq> ''run-'' @ uid n))"

lemma upsert_inv:
  assumes inv: "runs_inv uid s" and w: "writable uid run s"
  shows "runs_inv uid (upsert_agent_run run t s)"
proof -
  have u: "unique_keys row_id (agent_runs s)" using inv by (simp add: runs_inv_def)
  have same: "\<And>r. r \<in> set (agent_runs s) \<Longrightarrow> row_id r = ar_run_id run \<Longrightarrow> ar_agent_id (rr_run r) = ar_agent_id run"
    using w read_row [OF u] by (auto simp: writable_def)
  let ?s = "set_run run t s" let ?s' = "upsert_agent_run run t s"
  have pres: "agent_presence ?s' = upsert_by ap_agent_id
      (presence_record (ar_agent_id run) (of_nat (count_active_agent_runs_for_agent (ar_agent_id run) ?s)) t)
      (agent_presence s)"
    by (simp add: upsert_agent_run_set refresh_agent_presence_def upsert_agent_presence_record_def set_run_def)
  have cnt: "count_active_agent_runs_for_agent a ?s' = count_active_agent_runs_for_agent a ?s" for a
    by (simp add: count_active_agent_runs_for_agent_def upsert_agent_run_set)
  have id: "ap_agent_id (presence_record a n t) = a" for a n t by (simp add: presence_record_def)
  have "presence_ok ?s'"
    unfolding presence_ok_def
  proof (intro conjI ballI)
    fix p assume p: "p \<in> set (agent_presence ?s')"
    show "\<exists>t. p = presence_record (ap_agent_id p) (of_nat (count_active_agent_runs_for_agent (ap_agent_id p) ?s')) t"
    proof (cases "ap_agent_id p = ar_agent_id run")
      case True
      have "unique_keys ap_agent_id (agent_presence ?s')"
        using inv by (auto simp: pres runs_inv_def intro: unique_upsert_by)
      from find_by_unique [OF this p] True
      have "p = presence_record (ar_agent_id run) (of_nat (count_active_agent_runs_for_agent (ar_agent_id run) ?s)) t"
        by (simp add: pres find_by_upsert_by id)
      then show ?thesis by (metis cnt id)
    next
      case False
      then have "p \<in> set (agent_presence s)" using p by (auto simp: pres id dest!: set_upsert_by)
      then obtain t' where "p = presence_record (ap_agent_id p)
          (of_nat (count_active_agent_runs_for_agent (ap_agent_id p) s)) t'"
        using inv by (auto simp: runs_inv_def presence_ok_def)
      then show ?thesis using count_set_run [OF same False] by (metis cnt)
    qed
  next
    fix r assume "r \<in> set (agent_runs ?s')"
    then have "r = \<lparr>rr_run = run, rr_updated_at_us = t\<rparr> \<or> r \<in> set (agent_runs s)"
      using set_upsert_by [of r] by (auto simp: upsert_agent_run_set set_run_def)
    then show "ar_agent_id (rr_run r) \<in> keys_of ap_agent_id (agent_presence ?s')"
      using inv by (auto simp: pres keys_upsert_by id runs_inv_def presence_ok_def)
  qed
  moreover have "\<forall>r\<in>set (agent_runs ?s'). \<forall>n\<ge>drawn ?s'. row_id r \<noteq> ''run-'' @ uid n"
    using inv w set_upsert_by [of _ row_id "\<lparr>rr_run = run, rr_updated_at_us = t\<rparr>" "agent_runs s"]
    by (fastforce simp: upsert_agent_run_set set_run_def runs_inv_def writable_def)
  moreover have "unique_keys row_id (agent_runs ?s')"
    using unique_upsert_by [OF u] by (simp add: upsert_agent_run_set set_run_def)
  moreover have "unique_keys ap_agent_id (agent_presence ?s')"
    using inv by (auto simp: pres runs_inv_def intro: unique_upsert_by)
  ultimately show ?thesis by (simp add: runs_inv_def)
qed

text \<open>A claim writes one queued row.\<close>

lemma claim_None: "claim_next_queued_agent_run t s = (s', None) \<Longrightarrow> s' = s \<and> filter is_queued (agent_runs s) = []"
proof -
  assume c: "claim_next_queued_agent_run t s = (s', None)"
  show ?thesis
  proof (cases "first_min (\<lambda>r. sint (rr_updated_at_us r)) (filter is_queued (agent_runs s))")
    case None
    with c show ?thesis by (simp add: claim_next_queued_agent_run_def first_min_None_iff)
  next
    case (Some q)
    from first_min_SomeD [OF this] have "list_ex (\<lambda>r. row_id r = row_id q \<and> is_queued r) (agent_runs s)"
      by (auto simp: list_ex_iff)
    with c Some show ?thesis by (simp add: claim_next_queued_agent_run_def Let_def)
  qed
qed

lemma claim_Some:
  assumes inv: "unique_keys row_id (agent_runs s)" and c: "claim_next_queued_agent_run t s = (s', Some run)"
  obtains q where "q \<in> set (agent_runs s)" "is_queued q" "run = started t (rr_run q)" "s' = set_run run t s"
    "\<And>r. r \<in> set (agent_runs s) \<Longrightarrow> is_queued r \<Longrightarrow> sint (rr_updated_at_us q) \<le> sint (rr_updated_at_us r)"
proof (cases "first_min (\<lambda>r. sint (rr_updated_at_us r)) (filter is_queued (agent_runs s))")
  case None
  with c show ?thesis by (simp add: claim_next_queued_agent_run_def)
next
  case (Some q)
  let ?x = "\<lparr>rr_run = started t (rr_run q), rr_updated_at_us = t\<rparr>"
  let ?hit = "\<lambda>r. row_id r = row_id q \<and> is_queued r"
  from first_min_SomeD [OF Some] have q: "q \<in> set (agent_runs s)" "is_queued q"
    and least: "\<forall>r\<in>set (agent_runs s). is_queued r \<longrightarrow> sint (rr_updated_at_us q) \<le> sint (rr_updated_at_us r)"
    by auto
  have ex: "list_ex ?hit (agent_runs s)" using q by (auto simp: list_ex_iff)
  have id: "row_id ?x = row_id q" by (simp add: row_id_def started_def)
  have "r = q" if "r \<in> set (agent_runs s)" "row_id r = row_id q" for r
    using unique_keys_eq [OF inv that(1) q(1) that(2)] .
  then have "update_where ?hit (\<lambda>_. ?x) (agent_runs s) = update_by row_id (row_id q) (\<lambda>_. ?x) (agent_runs s)"
    using q(2) by (auto simp: update_where_def update_by_def)
  moreover have "has_key row_id (row_id q) (agent_runs s)" using q(1) by (simp add: has_key_iff)
  ultimately have "s' = set_run run t s" "run = started t (rr_run q)"
    using c Some ex id by (auto simp: claim_next_queued_agent_run_def Let_def set_run_def upsert_by_def)
  with q least that show ?thesis by blast
qed

lemma set_run_inv:
  assumes inv: "runs_inv uid s" and q: "read_agent_run (ar_run_id run) s = Some old"
    and same: "ar_agent_id old = ar_agent_id run" "is_active (ar_status old) = is_active (ar_status run)"
  shows "runs_inv uid (set_run run t s)"
proof -
  let ?x = "\<lparr>rr_run = run, rr_updated_at_us = t\<rparr>"
  have u: "unique_keys row_id (agent_runs s)" using inv by (simp add: runs_inv_def)
  from q have old: "rr_run r = old" if "r \<in> set (agent_runs s)" "row_id r = ar_run_id run" for r
    using that read_row [OF u] unique_keys_eq [OF u] by metis
  from q have key: "ar_run_id run \<in> keys_of row_id (agent_runs s)" using read_row [OF u] by force
  have cnt: "count_active_agent_runs_for_agent a (set_run run t s) = count_active_agent_runs_for_agent a s" for a
    using length_filter_upsert_by [of "agent_runs s" row_id ?x
        "\<lambda>r. ar_agent_id (rr_run r) = a \<and> is_active (ar_status (rr_run r))"] old same key
    by (auto simp: count_active_agent_runs_for_agent_def set_run_def)
  obtain y where y: "y \<in> set (agent_runs s)" "row_id y = ar_run_id run" "rr_run y = old"
    using q read_row [OF u] by blast
  have "ar_agent_id (rr_run r) \<in> keys_of ap_agent_id (agent_presence s) \<and> (\<forall>n\<ge>drawn s. row_id r \<noteq> ''run-'' @ uid n)"
    if "r \<in> set (agent_runs (set_run run t s))" for r
  proof (cases "r = ?x")
    case True
    with y inv same show ?thesis by (auto simp: runs_inv_def presence_ok_def) metis+
  next
    case False
    with that have "r \<in> set (agent_runs s)" by (auto simp: set_run_def dest!: set_upsert_by)
    with inv show ?thesis by (auto simp: runs_inv_def presence_ok_def)
  qed
  moreover have "agent_presence (set_run run t s) = agent_presence s" "drawn (set_run run t s) = drawn s"
    "unique_keys row_id (agent_runs (set_run run t s))"
    using unique_upsert_by [OF u] by (simp_all add: set_run_def)
  ultimately show ?thesis using inv cnt by (simp add: runs_inv_def presence_ok_def)
qed

lemma started_simps [simp]: "ar_run_id (started t r) = ar_run_id r" "ar_agent_id (started t r) = ar_agent_id r"
  "ar_status (started t r) = Running"
  by (simp_all add: started_def)

lemma cancelled_simps [simp]: "ar_run_id (cancelled sm t r) = ar_run_id r"
  "ar_agent_id (cancelled sm t r) = ar_agent_id r" "ar_status (cancelled sm t r) = Cancelled"
  by (simp_all add: cancelled_def)

lemma read_id: "unique_keys row_id (agent_runs s) \<Longrightarrow> read_agent_run k s = Some r \<Longrightarrow> ar_run_id r = k"
  by (auto simp: read_row row_id_def)

lemma claim_inv:
  assumes "runs_inv uid s"
  shows "runs_inv uid (fst (claim_next_queued_agent_run t s))"
proof -
  have u: "unique_keys row_id (agent_runs s)" using assms by (simp add: runs_inv_def)
  obtain s' r where c: "claim_next_queued_agent_run t s = (s', r)" by fastforce
  show ?thesis
  proof (cases r)
    case None
    with c claim_None assms show ?thesis by fastforce
  next
    case (Some run)
    with c have c': "claim_next_queued_agent_run t s = (s', Some run)" by simp
    obtain q where q: "q \<in> set (agent_runs s)" "is_queued q" "run = started t (rr_run q)" "s' = set_run run t s"
      by (rule claim_Some [OF u c'])
    then have "read_agent_run (ar_run_id run) s = Some (rr_run q)"
      using read_row [OF u] by (auto simp: row_id_def)
    moreover have "is_active (ar_status (rr_run q)) = is_active (ar_status run)"
      using q by (simp add: is_queued_def is_active_def)
    ultimately show ?thesis using set_run_inv [OF assms] q c' by simp
  qed
qed

text \<open>What a cancellation does to the runs.\<close>

definition cancel_if_active :: "string \<Rightarrow> u64 \<Rightarrow> AgentRunRecord \<Rightarrow> AgentRunRecord" where
  "cancel_if_active sm t r = (if is_active (ar_status r) then cancelled sm t r else r)"

lemma cancel_effect:
  assumes "unique_keys row_id (agent_runs s)"
  shows "read_agent_run j (fst (cancel_agent_run uid k sm t s)) =
      (if j = k then map_option (cancel_if_active sm t) (read_agent_run k s) else read_agent_run j s) \<and>
    snd (cancel_agent_run uid k sm t s) = map_option (cancel_if_active sm t) (read_agent_run k s) \<and>
    drawn s \<le> drawn (fst (cancel_agent_run uid k sm t s))"
proof (cases "read_agent_run k s")
  case (Some r)
  have k: "ar_run_id r = k" by (rule read_id [OF assms Some])
  show ?thesis
  proof (cases "is_active (ar_status r)")
    case True
    with Some k show ?thesis
      by (simp add: cancel_agent_run_def is_active_iff cancel_if_active_def Let_def read_upsert
          read_cong [of "log_event _ _ _ _ _ _ _ _"] read_cong [of "post_message _ _ _ _ _ _"])
  next
    case False
    with Some k show ?thesis by (simp add: cancel_agent_run_def is_active_iff cancel_if_active_def)
  qed
qed (simp add: cancel_agent_run_def)

lemma cancel_inv:
  assumes inv: "runs_inv uid s"
  shows "runs_inv uid (fst (cancel_agent_run uid k sm t s))"
proof (cases "read_agent_run k s")
  case (Some r)
  have u: "unique_keys row_id (agent_runs s)" using inv by (simp add: runs_inv_def)
  have k: "ar_run_id r = k" by (rule read_id [OF u Some])
  obtain y where "y \<in> set (agent_runs s)" "row_id y = k" using Some read_row [OF u] by blast
  then have w: "writable uid (cancelled sm t r) s"
    using inv Some k by (auto simp: writable_def runs_inv_def)
  let ?s1 = "upsert_agent_run (cancelled sm t r) t s"
  have i: "runs_inv uid ?s1" by (rule upsert_inv [OF inv w])
  have l: "runs_inv uid (log_event uid a b c d e f s')" if "runs_inv uid s'" for a b c d e f s'
    by (rule runs_inv_grow [OF that]) simp_all
  have p: "runs_inv uid (post_message uid a b c d s')" if "runs_inv uid s'" for a b c d s'
    by (rule runs_inv_grow [OF that]) simp_all
  from inv i show ?thesis by (simp add: cancel_agent_run_def Some Let_def l p)
qed (simp add: cancel_agent_run_def inv)

lemma runs_inv_unique: "runs_inv uid s \<Longrightarrow> unique_keys row_id (agent_runs s)"
  by (simp add: runs_inv_def)

lemma cancel_if_active_idem [simp]: "cancel_if_active a t (cancel_if_active b u r) = cancel_if_active b u r"
  by (simp add: cancel_if_active_def is_active_def)

lemma cancel_each_effect:
  assumes "runs_inv uid s"
  shows "runs_inv uid (fst (cancel_each uid sm t ks s)) \<and>
    read_agent_run j (fst (cancel_each uid sm t ks s)) =
      (if j \<in> set ks then map_option (cancel_if_active sm t) (read_agent_run j s) else read_agent_run j s) \<and>
    drawn s \<le> drawn (fst (cancel_each uid sm t ks s))"
  using assms
proof (induction ks arbitrary: s)
  case (Cons k ks)
  let ?s1 = "fst (cancel_agent_run uid k sm t s)"
  have e: "fst (cancel_each uid sm t (k # ks) s) = fst (cancel_each uid sm t ks ?s1)"
    by (simp add: case_prod_beta)
  note c = cancel_effect [OF runs_inv_unique [OF Cons.prems], of j uid k sm t]
  note IH = Cons.IH [OF cancel_inv [OF Cons.prems, of k sm t]]
  show ?case
  proof (cases "j = k")
    case True
    with c have "read_agent_run j ?s1 = map_option (cancel_if_active sm t) (read_agent_run j s)" by simp
    with IH c True show ?thesis unfolding e by (simp add: option.map_comp o_def)
  next
    case False
    with IH c show ?thesis unfolding e by simp
  qed
qed simp

section \<open>The traversal\<close>

lemma collect_Nil [simp]: "collect ch [] acc = Some acc"
  by (subst collect.simps) simp

lemma collect_Cons: "collect ch (x # rest) acc = collect ch (rev (ch x) @ rest) (acc @ ch x)"
  by (subst collect.simps) simp

abbreviation links :: "(string \<Rightarrow> string list) \<Rightarrow> (string \<times> string) set" where
  "links ch \<equiv> {(c, p). c \<in> set (ch p)}"

lemma trancl_links: "(d, x) \<in> (links ch)\<^sup>+ \<longleftrightarrow> (\<exists>c\<in>set (ch x). d = c \<or> (d, c) \<in> (links ch)\<^sup>+)"
proof
  assume "(d, x) \<in> (links ch)\<^sup>+"
  then show "\<exists>c\<in>set (ch x). d = c \<or> (d, c) \<in> (links ch)\<^sup>+"
  proof (cases rule: trancl.cases)
    case (trancl_into_trancl c)
    then show ?thesis by blast
  qed auto
next
  assume "\<exists>c\<in>set (ch x). d = c \<or> (d, c) \<in> (links ch)\<^sup>+"
  then obtain c where c: "(c, x) \<in> links ch" "d = c \<or> (d, c) \<in> (links ch)\<^sup>+" by auto
  from c(2) show "(d, x) \<in> (links ch)\<^sup>+"
    using r_into_trancl [OF c(1)] trancl_into_trancl [OF _ c(1)] by (elim disjE) simp_all
qed

text \<open>Without cycles a run is popped, all its descendants are listed, and the traversal goes
  on with the rest of the stack.\<close>

lemma collect_descendants:
  assumes "wf (links ch)"
  shows "\<exists>ds. set ds = {d. (d, x) \<in> (links ch)\<^sup>+} \<and> (\<forall>rest acc. \<exists>perm. set perm = set ds \<and>
    collect ch (x # rest) acc = collect ch rest (acc @ perm))"
  using assms
proof (induction x rule: wf_induct_rule)
  case (less x)
  have stack: "\<exists>ds. (\<forall>d. d \<in> set ds \<longleftrightarrow> (\<exists>c\<in>set cs. (d, c) \<in> (links ch)\<^sup>+)) \<and>
      (\<forall>rest acc. \<exists>perm. set perm = set ds \<and> collect ch (cs @ rest) acc = collect ch rest (acc @ perm))"
    if "set cs \<subseteq> set (ch x)" for cs
    using that
  proof (induction cs)
    case Nil
    show ?case by (intro exI [of _ "[]"]) auto
  next
    case (Cons c cs)
    then have "(c, x) \<in> links ch" by simp
    from less.IH [OF this] obtain ds1 where 1: "set ds1 = {d. (d, c) \<in> (links ch)\<^sup>+}"
      "\<And>rest acc. \<exists>perm. set perm = set ds1 \<and> collect ch (c # rest) acc = collect ch rest (acc @ perm)" by blast
    from Cons obtain ds2 where 2: "\<And>d. d \<in> set ds2 \<longleftrightarrow> (\<exists>c\<in>set cs. (d, c) \<in> (links ch)\<^sup>+)"
      "\<And>rest acc. \<exists>perm. set perm = set ds2 \<and> collect ch (cs @ rest) acc = collect ch rest (acc @ perm)" by auto
    have "\<exists>perm. set perm = set (ds1 @ ds2) \<and> collect ch ((c # cs) @ rest) acc = collect ch rest (acc @ perm)"
      for rest acc
    proof -
      obtain p1 where p1: "set p1 = set ds1" "collect ch (c # (cs @ rest)) acc = collect ch (cs @ rest) (acc @ p1)"
        using 1(2) by blast
      obtain p2 where p2: "set p2 = set ds2" "collect ch (cs @ rest) (acc @ p1) = collect ch rest ((acc @ p1) @ p2)"
        using 2(2) by blast
      from p1 p2 show ?thesis by (intro exI [of _ "p1 @ p2"]) simp
    qed
    moreover have "\<And>d. d \<in> set (ds1 @ ds2) \<longleftrightarrow> (\<exists>c\<in>set (c # cs). (d, c) \<in> (links ch)\<^sup>+)"
      using 1(1) 2(1) by auto
    ultimately show ?case by blast
  qed
  obtain ds where ds: "\<And>d. d \<in> set ds \<longleftrightarrow> (\<exists>c\<in>set (rev (ch x)). (d, c) \<in> (links ch)\<^sup>+)"
    "\<And>rest acc. \<exists>perm. set perm = set ds \<and> collect ch (rev (ch x) @ rest) acc = collect ch rest (acc @ perm)"
    using stack [of "rev (ch x)"] by auto
  have "\<exists>perm. set perm = set (ch x @ ds) \<and> collect ch (x # rest) acc = collect ch rest (acc @ perm)" for rest acc
  proof -
    obtain p where "set p = set ds" "collect ch (rev (ch x) @ rest) (acc @ ch x) = collect ch rest ((acc @ ch x) @ p)"
      using ds(2) by blast
    then show ?thesis by (intro exI [of _ "ch x @ p"]) (simp add: collect_Cons)
  qed
  moreover have "set (ch x @ ds) = {d. (d, x) \<in> (links ch)\<^sup>+}"
    using ds(1) by (auto simp: trancl_links [of _ x])
  ultimately show ?case by blast
qed

lemma collect_total:
  assumes "wf (links ch)"
  obtains ds where "collect ch [x] [] = Some ds" "set ds = {d. (d, x) \<in> (links ch)\<^sup>+}"
  using collect_descendants [OF assms, of x] by (metis append_Nil collect_Nil)

text \<open>On a cycle the loop never ends.\<close>

lemma collect_closed_diverges:
  assumes "collect ch st acc = Some r" "\<forall>x\<in>C. \<exists>c\<in>set (ch x). c \<in> C"
  shows "set st \<inter> C = {}"
proof -
  let ?P = "\<lambda>ch st (acc :: string list) (r :: string list).
    (\<forall>x\<in>C. \<exists>c\<in>set (ch x). c \<in> C) \<longrightarrow> set st \<inter> C = {}"
  have "?P ch st acc r"
  proof (rule collect.raw_induct [where P = ?P, OF _ assms(1)])
    fix f ch st acc r
    assume IH: "\<And>ch st acc r. f ch st acc = Some r \<Longrightarrow> ?P ch st acc r"
      and eq: "(case st of [] \<Rightarrow> Some acc | x # rest \<Rightarrow> f ch (rev (ch x) @ rest) (acc @ ch x)) = Some r"
    show "?P ch st acc r"
    proof (cases st)
      case (Cons x rest)
      with eq IH [of ch "rev (ch x) @ rest" "acc @ ch x" r]
      have "?P ch (rev (ch x) @ rest) (acc @ ch x) r" by simp
      then show ?thesis unfolding Cons by auto
    qed simp
  qed
  with assms(2) show ?thesis by blast
qed

section \<open>What the operations do to the runs\<close>

text \<open>Cancellations only turn active runs into cancelled ones; the other operations keep every
  run that has ended.\<close>

definition only_cancels :: "run_store \<Rightarrow> run_store \<Rightarrow> bool" where
  "only_cancels s s' = (\<forall>j. read_agent_run j s' = read_agent_run j s \<or>
     (\<exists>sm t. read_agent_run j s' = map_option (cancel_if_active sm t) (read_agent_run j s)))"

definition run_grows :: "run_store \<Rightarrow> run_store \<Rightarrow> bool" where
  "run_grows s s' = (\<forall>j r. read_agent_run j s = Some r \<longrightarrow> read_agent_run j s' = Some r \<or>
     is_active (ar_status r) \<and> (\<exists>sm t. read_agent_run j s' = Some (cancelled sm t r)))"

definition keeps_ended :: "run_store \<Rightarrow> run_store \<Rightarrow> bool" where
  "keeps_ended s s' = (\<forall>j r. read_agent_run j s = Some r \<longrightarrow> \<not> is_active (ar_status r) \<longrightarrow>
     read_agent_run j s' = Some r)"

lemma only_cancels_grows: "only_cancels s s' \<Longrightarrow> run_grows s s'"
  unfolding only_cancels_def run_grows_def by (metis (no_types, lifting) cancel_if_active_def option.simps(9))

lemma run_grows_keeps: "run_grows s s' \<Longrightarrow> keeps_ended s s'"
  by (auto simp: run_grows_def keeps_ended_def)

lemma run_grows_trans: "run_grows s s1 \<Longrightarrow> run_grows s1 s2 \<Longrightarrow> run_grows s s2"
  unfolding run_grows_def
proof (intro allI impI)
  fix j r
  assume 1: "\<forall>j r. read_agent_run j s = Some r \<longrightarrow> read_agent_run j s1 = Some r \<or>
      is_active (ar_status r) \<and> (\<exists>sm t. read_agent_run j s1 = Some (cancelled sm t r))"
    and 2: "\<forall>j r. read_agent_run j s1 = Some r \<longrightarrow> read_agent_run j s2 = Some r \<or>
      is_active (ar_status r) \<and> (\<exists>sm t. read_agent_run j s2 = Some (cancelled sm t r))"
    and r: "read_agent_run j s = Some r"
  have dead: "\<not> is_active (ar_status (cancelled sm t r))" for sm t by (simp add: is_active_def cancelled_def)
  from 1 r show "read_agent_run j s2 = Some r \<or> is_active (ar_status r) \<and> (\<exists>sm t. read_agent_run j s2 = Some (cancelled sm t r))"
    using 2 dead by metis
qed

lemma run_grows_cong: "agent_runs s' = agent_runs s \<Longrightarrow> run_grows s s'"
  by (simp add: run_grows_def read_agent_run_def)

lemma only_cancels_None: "only_cancels s s' \<Longrightarrow> read_agent_run j s = None \<Longrightarrow> read_agent_run j s' = None"
  by (metis only_cancels_def option.map_disc_iff)

lemma keeps_ended_trans: "keeps_ended s s1 \<Longrightarrow> keeps_ended s1 s2 \<Longrightarrow> keeps_ended s s2"
  by (auto simp: keeps_ended_def)

lemma cancel_only: "runs_inv uid s \<Longrightarrow> only_cancels s (fst (cancel_agent_run uid k sm t s))"
  unfolding only_cancels_def using cancel_effect [OF runs_inv_unique] by metis

definition session_children :: "AgentRunRecord \<Rightarrow> run_store \<Rightarrow> string \<Rightarrow> string list" where
  "session_children root s = children_of (list_agent_runs_for_session (ar_session_id root) s)"

text \<open>What a tree cancellation that returns has done, and when it returns.\<close>

lemma tree_Some:
  assumes inv: "runs_inv uid s" and r: "read_agent_run k s = Some root"
    and c: "collect (session_children root s) [k] [] = Some ids"
  shows "\<exists>s' rs. cancel_agent_run_tree uid k sm t s = Some (s', rs) \<and> runs_inv uid s' \<and> drawn s \<le> drawn s' \<and>
    (\<forall>j. read_agent_run j s' = (if j \<in> set ids
       then map_option (cancel_if_active (''cancelled because ancestor '' @ quoted k @ '' was cancelled'') t) (read_agent_run j s)
       else if j = k then map_option (cancel_if_active sm t) (read_agent_run j s) else read_agent_run j s))"
proof -
  let ?sm = "''cancelled because ancestor '' @ quoted k @ '' was cancelled''"
  let ?s1 = "fst (cancel_each uid ?sm t (rev ids) s)"
  let ?s2 = "fst (cancel_agent_run uid k sm t ?s1)"
  note e = cancel_each_effect [OF inv, of ?sm t "rev ids"]
  have i1: "runs_inv uid ?s1" using e by blast
  note f = cancel_effect [OF runs_inv_unique [OF i1], of _ uid k sm t]
  have "\<exists>rs. cancel_agent_run_tree uid k sm t s = Some (?s2, rs)"
    using r c by (simp add: cancel_agent_run_tree_def session_children_def case_prod_beta Let_def)
  moreover have "runs_inv uid ?s2" by (rule cancel_inv [OF i1])
  moreover have "drawn s \<le> drawn ?s2" using e f by (meson order_trans)
  moreover have "read_agent_run j ?s2 = (if j \<in> set ids
       then map_option (cancel_if_active ?sm t) (read_agent_run j s)
       else if j = k then map_option (cancel_if_active sm t) (read_agent_run j s) else read_agent_run j s)" for j
    using e f by (simp add: option.map_comp o_def)
  ultimately show ?thesis by blast
qed

lemma tree_returned:
  assumes inv: "runs_inv uid s" and c: "cancel_agent_run_tree uid k sm t s = Some (s', rs)"
  shows "runs_inv uid s' \<and> only_cancels s s' \<and> drawn s \<le> drawn s'"
proof (cases "read_agent_run k s")
  case None
  with c inv show ?thesis by (simp add: cancel_agent_run_tree_def only_cancels_def)
next
  case (Some root)
  with c obtain ids where ids: "collect (session_children root s) [k] [] = Some ids"
    by (auto simp: cancel_agent_run_tree_def session_children_def split: option.splits)
  from tree_Some [OF inv Some ids, of sm t] c show ?thesis
    unfolding only_cancels_def by (smt (verit, best) Pair_inject option.inject)
qed

lemma links_wf:
  assumes "acyclic (links (children_of rs))"
  shows "wf (links (children_of rs))"
proof -
  have "links (children_of rs) \<subseteq> (\<lambda>r. (ar_run_id r, the (ar_parent_run_id r))) ` set rs"
    by (auto simp: children_of_def image_iff)
  then have "finite (links (children_of rs))" by (rule finite_subset) simp
  with assms show ?thesis by (rule finite_acyclic_wf [rotated])
qed

text \<open>A new run under a newly drawn id.\<close>

lemma successor_simps [simp]:
  "ar_run_id (successor_run k og a rq t e) = k" "ar_status (successor_run k og a rq t e) = Queued"
  "ar_agent_id (successor_run k og a rq t e) = a" "ar_session_id (successor_run k og a rq t e) = ar_session_id e"
  by (simp_all add: successor_run_def)

lemma fresh_run_id:
  assumes "runs_inv uid s"
  shows "read_agent_run (''run-'' @ uid (drawn s)) s = None"
proof -
  have "''run-'' @ uid (drawn s) \<notin> keys_of row_id (agent_runs s)"
    using assms unfolding runs_inv_def by (metis imageE order_refl)
  then show ?thesis by (simp add: read_agent_run_def find_by_None_iff del: append.simps append_Cons)
qed

lemma fresh_writable:
  assumes "inj uid" "n < drawn s" "read_agent_run (''run-'' @ uid n) s = None" "ar_run_id run = ''run-'' @ uid n"
  shows "writable uid run s"
  using assms by (auto simp: writable_def dest: injD)

lemma log_inv: "runs_inv uid s \<Longrightarrow> runs_inv uid (log_event uid k kind sm t rl ac s)"
  by (erule runs_inv_grow) simp_all

lemma post_inv: "runs_inv uid s \<Longrightarrow> runs_inv uid (post_message uid run sn bd t s)"
  by (erule runs_inv_grow) simp_all

lemma draw_inv: "runs_inv uid s \<Longrightarrow> runs_inv uid (s\<lparr>drawn := Suc (drawn s)\<rparr>)"
  by (erule runs_inv_grow) simp_all

lemma upsert_fresh:
  assumes "inj uid" "runs_inv uid s" "n < drawn s" "read_agent_run (''run-'' @ uid n) s = None"
    "ar_run_id run = ''run-'' @ uid n"
  shows "runs_inv uid (upsert_agent_run run t s) \<and> run_grows s (upsert_agent_run run t s)"
  using upsert_inv [OF assms(2) fresh_writable [OF assms(1,3,4,5)]] assms(4,5) by (auto simp: run_grows_def read_upsert)

lemma retry_ok:
  assumes "inj uid" "runs_inv uid s"
  shows "runs_inv uid (fst (retry_agent_run uid k rq t s)) \<and> run_grows s (fst (retry_agent_run uid k rq t s))"
proof (cases "read_agent_run k s")
  case None
  with assms show ?thesis by (simp add: retry_agent_run_def run_grows_def)
next
  case (Some e)
  let ?s0 = "s\<lparr>drawn := Suc (drawn s)\<rparr>"
  let ?run = "successor_run (''run-'' @ uid (drawn s)) Retry (ar_agent_id e) rq t e"
  have "read_agent_run (''run-'' @ uid (drawn s)) ?s0 = None"
    using fresh_run_id [OF assms(2)] read_cong [of ?s0 s] by simp
  with upsert_fresh [OF assms(1) draw_inv [OF assms(2)], of "drawn s" ?run t]
  have u: "runs_inv uid (upsert_agent_run ?run t ?s0)" "run_grows ?s0 (upsert_agent_run ?run t ?s0)" by simp_all
  have 1: "run_grows s ?s0" by (rule run_grows_cong) simp
  have 2: "run_grows (upsert_agent_run ?run t ?s0) (fst (retry_agent_run uid k rq t s))"
    using Some by (intro run_grows_cong) (simp add: retry_agent_run_def Let_def)
  have "runs_inv uid (fst (retry_agent_run uid k rq t s))"
    using Some u(1) by (simp add: retry_agent_run_def Let_def log_inv)
  with run_grows_trans [OF run_grows_trans [OF 1 u(2)] 2] show ?thesis by simp
qed

lemma takeover_ok:
  assumes inj: "inj uid" and inv: "runs_inv uid s" and c: "take_over_agent_run uid k a rq t s = Some (s', r)"
  shows "runs_inv uid s' \<and> run_grows s s'"
proof (cases "read_agent_run k s")
  case None
  with assms show ?thesis by (simp add: take_over_agent_run_def run_grows_def)
next
  case (Some e)
  let ?k = "''run-'' @ uid (drawn s)"
  let ?s0 = "s\<lparr>drawn := Suc (drawn s)\<rparr>"
  let ?new = "successor_run ?k Takeover a rq t e"
  have i0: "runs_inv uid ?s0" by (rule draw_inv [OF inv])
  have f0: "read_agent_run ?k ?s0 = None" using fresh_run_id [OF inv] read_cong [of ?s0 s] by simp
  from c Some obtain s1 ex where s1: "cancel_for_takeover uid e a ?k t ?s0 = Some (s1, ex)"
    and s': "s' = log_takeover uid ex ?new a t (upsert_agent_run ?new t s1)"
    by (auto simp: take_over_agent_run_def Let_def split: option.splits)
  have 1: "runs_inv uid s1 \<and> only_cancels ?s0 s1 \<and> drawn ?s0 \<le> drawn s1"
  proof (cases "is_active (ar_status e)")
    case True
    with s1 obtain sm rs where "cancel_agent_run_tree uid (ar_run_id e) sm t ?s0 = Some (s1, rs)"
      by (auto simp: cancel_for_takeover_def split: option.splits)
    from tree_returned [OF i0 this] show ?thesis .
  next
    case False
    with s1 i0 show ?thesis by (auto simp: only_cancels_def cancel_for_takeover_def)
  qed
  have f1: "read_agent_run ?k s1 = None" using only_cancels_None f0 1 by blast
  have 2: "runs_inv uid (upsert_agent_run ?new t s1)" "run_grows s1 (upsert_agent_run ?new t s1)"
    using upsert_fresh [OF inj, of s1 "drawn s" ?new t] 1 f1 by simp_all
  have "run_grows s ?s0" by (rule run_grows_cong) simp
  moreover have "run_grows ?s0 s1" using only_cancels_grows 1 by blast
  ultimately have "run_grows s (upsert_agent_run ?new t s1)" using 2(2) run_grows_trans by blast
  moreover have "run_grows (upsert_agent_run ?new t s1) s'"
    by (rule run_grows_cong) (simp add: s' log_takeover_def Let_def)
  ultimately have "run_grows s s'" by (rule run_grows_trans)
  moreover have "runs_inv uid s'" using 2(1) by (simp add: s' log_takeover_def Let_def log_inv post_inv)
  ultimately show ?thesis by blast
qed

lemma spawn_ok:
  assumes "inj uid" "runs_inv uid s"
  shows "runs_inv uid (fst (spawn_agent_run uid se us iv a pr pa l t s)) \<and>
    run_grows s (fst (spawn_agent_run uid se us iv a pr pa l t s))"
proof -
  let ?s0 = "s\<lparr>drawn := Suc (drawn s)\<rparr>"
  define run where "run = snd (spawn_agent_run uid se us iv a pr pa l t s)"
  have k: "ar_run_id run = ''run-'' @ uid (drawn s)" by (simp add: run_def spawn_agent_run_def Let_def)
  have "read_agent_run (''run-'' @ uid (drawn s)) ?s0 = None"
    using fresh_run_id [OF assms(2)] read_cong [of ?s0 s] by simp
  with upsert_fresh [OF assms(1) draw_inv [OF assms(2)], of "drawn s" run t] k
  have u: "runs_inv uid (upsert_agent_run run t ?s0)" "run_grows ?s0 (upsert_agent_run run t ?s0)" by simp_all
  have 1: "run_grows s ?s0" by (rule run_grows_cong) simp
  obtain x y z where logged: " fst (spawn_agent_run uid se us iv a pr pa l t s) =
      log_event uid (ar_run_id run) QueuedEvent x t y z (upsert_agent_run run t ?s0)"
    by (simp add: run_def spawn_agent_run_def Let_def)
  have 2: "run_grows (upsert_agent_run run t ?s0) (fst (spawn_agent_run uid se us iv a pr pa l t s))"
    unfolding logged by (rule run_grows_cong) simp
  have "runs_inv uid (fst (spawn_agent_run uid se us iv a pr pa l t s))" unfolding logged by (rule log_inv [OF u(1)])
  with run_grows_trans [OF run_grows_trans [OF 1 u(2)] 2] show ?thesis by blast
qed

section \<open>Runs of the store\<close>

text \<open>The operations of the store.  The table accepts any write of a run that stays with its agent and whose id is not
  reserved, also one over a run that has ended.\<close>

inductive run_step :: "(nat \<Rightarrow> string) \<Rightarrow> run_store \<Rightarrow> run_store \<Rightarrow> bool" for uid where
  write_step: "writable uid run s \<Longrightarrow> run_step uid s (upsert_agent_run run t s)"
| claim_step: "run_step uid s (fst (claim_next_queued_agent_run t s))"
| cancel_step: "run_step uid s (fst (cancel_agent_run uid k sm t s))"
| tree_step: "cancel_agent_run_tree uid k sm t s = Some (s', rs) \<Longrightarrow> run_step uid s s'"
| retry_step: "run_step uid s (fst (retry_agent_run uid k rq t s))"
| takeover_step: "take_over_agent_run uid k a rq t s = Some (s', r) \<Longrightarrow> run_step uid s s'"
| event_step: "run_step uid s (append_agent_run_event e s)"
| message_step: "run_step uid s (append_agent_mailbox_message m s)"

text \<open>What the program does with them: nobody writes a run but \<open>spawn_agent\<close> and the workers.  The state is the store
  and the runs the workers have claimed and are executing.  Each operation of the store is one step, and so are
  the check and the write at the end of a run.\<close>

inductive work_step :: "(nat \<Rightarrow> string) \<Rightarrow> run_store \<times> AgentRunRecord list \<Rightarrow> run_store \<times> AgentRunRecord list \<Rightarrow> bool"
  for uid where
  spawn_work: "work_step uid (s, w) (fst (spawn_agent_run uid se us iv a pr pa l t s), w)"
| begin_work: "begin_queued_run uid t s = (s', r) \<Longrightarrow> work_step uid (s, w) (s', (case r of Some run \<Rightarrow> run # w | None \<Rightarrow> w))"
| finish_work: "run \<in> set w \<Longrightarrow> work_step uid (s, w) (fst (finish_queued_run uid run outcome t s), remove1 run w)"
| cancel_work: "work_step uid (s, w) (fst (cancel_agent_run uid k sm t s), w)"
| tree_work: "cancel_agent_run_tree uid k sm t s = Some (s', rs) \<Longrightarrow> work_step uid (s, w) (s', w)"
| retry_work: "work_step uid (s, w) (fst (retry_agent_run uid k rq t s), w)"
| takeover_work: "take_over_agent_run uid k a rq t s = Some (s', r) \<Longrightarrow> work_step uid (s, w) (s', w)"
| event_work: "work_step uid (s, w) (append_agent_run_event e s, w)"
| message_work: "work_step uid (s, w) (append_agent_mailbox_message m s, w)"

definition empty_runs :: run_store where
  "empty_runs = \<lparr>agent_runs = [], agent_presence = [], run_events = [], mailbox = [], drawn = 0\<rparr>"

lemma runs_inv_empty [simp]: "runs_inv uid empty_runs"
  by (simp add: runs_inv_def presence_ok_def empty_runs_def)

lemma step_ok:
  assumes "inj uid" "run_step uid s s'" "runs_inv uid s"
  shows "runs_inv uid s'"
  using assms(2,3)
proof (cases rule: run_step.cases)
  case (write_step run t)
  then show ?thesis using assms(3) upsert_inv by blast
next
  case (claim_step t)
  then show ?thesis using assms(3) claim_inv by blast
next
  case (cancel_step k sm t)
  then show ?thesis using assms(3) cancel_inv by blast
next
  case (tree_step k sm t rs)
  then show ?thesis using assms(3) tree_returned by blast
next
  case (retry_step k rq t)
  then show ?thesis using retry_ok [OF assms(1,3)] by simp
next
  case (takeover_step k a rq t r)
  then show ?thesis using takeover_ok [OF assms(1,3)] by simp
next
  case (event_step e)
  then show ?thesis using runs_inv_grow [OF assms(3), of s'] by (simp add: append_agent_run_event_def)
next
  case (message_step m)
  then show ?thesis using runs_inv_grow [OF assms(3), of s'] by (simp add: append_agent_mailbox_message_def)
qed

lemma steps_ok:
  assumes "inj uid" "(run_step uid)\<^sup>*\<^sup>* s s'" "runs_inv uid s"
  shows "runs_inv uid s'"
  using assms(2,3) by (induction rule: rtranclp_induct) (auto intro: step_ok [OF assms(1)])

section \<open>Runs under execution\<close>

text \<open>A run a worker executes is in the store under its agent, and is running or has been cancelled: nobody else ends it
  or claims it.\<close>

definition executing :: "run_store \<Rightarrow> AgentRunRecord \<Rightarrow> bool" where
  "executing s run = (\<exists>r. read_agent_run (ar_run_id run) s = Some r \<and> ar_agent_id r = ar_agent_id run \<and>
     ar_status r \<in> {Running, Cancelled})"

definition work_inv :: "(nat \<Rightarrow> string) \<Rightarrow> run_store \<times> AgentRunRecord list \<Rightarrow> bool" where
  "work_inv uid x = (runs_inv uid (fst x) \<and> distinct (map ar_run_id (snd x)) \<and> list_all (executing (fst x)) (snd x))"

lemma executing_grows: "run_grows s s' \<Longrightarrow> executing s run \<Longrightarrow> executing s' run"
  unfolding executing_def run_grows_def by (metis cancelled_simps(2,3) insertCI)

lemma work_inv_grows: "run_grows s s' \<Longrightarrow> runs_inv uid s' \<Longrightarrow> work_inv uid (s, w) \<Longrightarrow> work_inv uid (s', w)"
  by (auto simp: work_inv_def list_all_iff executing_grows)

lemma begin_cases:
  assumes inv: "runs_inv uid s" and b: "begin_queued_run uid t s = (s', r)"
  shows "runs_inv uid s' \<and> keeps_ended s s' \<and> (case r of None \<Rightarrow> s' = s
    | Some run \<Rightarrow> (\<exists>q. read_agent_run (ar_run_id run) s = Some q \<and> ar_status q = Queued) \<and> ar_status run = Running \<and>
        (\<forall>j. read_agent_run j s' = (if j = ar_run_id run then Some run else read_agent_run j s)))"
proof -
  obtain s1 where c: "claim_next_queued_agent_run t s = (s1, r)"
    using b by (auto simp: begin_queued_run_def split: prod.splits option.splits)
  have i1: "runs_inv uid s1" using claim_inv [OF inv, of t] c by simp
  show ?thesis
  proof (cases r)
    case None
    with c b have "s' = s1" "s1 = s" using claim_None [of t s s1] by (simp_all add: begin_queued_run_def)
    with None i1 show ?thesis by (simp add: keeps_ended_def)
  next
    case (Some run)
    have c': "claim_next_queued_agent_run t s = (s1, Some run)" using c Some by simp
    obtain q where q: "q \<in> set (agent_runs s)" "is_queued q" "run = started t (rr_run q)" "s1 = set_run run t s"
      by (rule claim_Some [OF runs_inv_unique [OF inv] c'])
    have s': "agent_runs s' = agent_runs s1" "runs_inv uid s'"
      using b c Some i1 by (auto simp: begin_queued_run_def intro!: log_inv)
    have old: "read_agent_run (ar_run_id run) s = Some (rr_run q)" "ar_status (rr_run q) = Queued"
      using q read_row [OF runs_inv_unique [OF inv]] by (auto simp: row_id_def is_queued_def)
    have new: "read_agent_run j s' = (if j = ar_run_id run then Some run else read_agent_run j s)" for j
      using read_cong [OF s'(1)] by (simp add: q(4) read_set_run)
    have "keeps_ended s s'" unfolding keeps_ended_def using old new by (auto simp: is_active_def)
    with old new s'(2) q(3) Some show ?thesis by auto
  qed
qed

lemma finished_simps [simp]: "ar_run_id (finished out t r) = ar_run_id r" "ar_agent_id (finished out t r) = ar_agent_id r"
  by (cases out; simp)+

lemma write_finished_reads:
  "read_agent_run j (fst (write_finished uid run out t s)) = (if j = ar_run_id run then Some (finished out t run) else read_agent_run j s)"
  by (simp add: write_finished_def Let_def read_upsert read_cong [of "log_event _ _ _ _ _ _ _ _"]
      read_cong [of "post_message _ _ _ _ _ _"])

lemma write_finished_inv: "runs_inv uid s \<Longrightarrow> writable uid run s \<Longrightarrow> runs_inv uid (fst (write_finished uid run out t s))"
  using upsert_inv [of uid s "finished out t run" t]
  by (simp add: write_finished_def Let_def writable_def log_inv post_inv)

text \<open>The end of a run touches no other run, and its own only when it is still running.\<close>

lemma finish_cases:
  assumes inv: "runs_inv uid s" and e: "executing s run"
  shows "runs_inv uid (fst (finish_queued_run uid run out t s)) \<and> keeps_ended s (fst (finish_queued_run uid run out t s)) \<and>
    (\<forall>j. j \<noteq> ar_run_id run \<longrightarrow> read_agent_run j (fst (finish_queued_run uid run out t s)) = read_agent_run j s)"
proof -
  obtain r where r: "read_agent_run (ar_run_id run) s = Some r" "ar_agent_id r = ar_agent_id run"
    "ar_status r \<in> {Running, Cancelled}" using e by (auto simp: executing_def)
  show ?thesis
  proof (cases "ar_status r = Cancelled")
    case True
    with r inv show ?thesis by (simp add: finish_queued_run_def Let_def keeps_ended_def)
  next
    case False
    obtain y where "y \<in> set (agent_runs s)" "row_id y = ar_run_id run" using r(1) read_row [OF runs_inv_unique [OF inv]] by blast
    then have w: "writable uid run s" using inv r(1,2) by (auto simp: writable_def runs_inv_def)
    from False obtain o' where f: "finish_queued_run uid run out t s = write_finished uid run o' t s"
      using r(1) by (simp add: finish_queued_run_def Let_def)
    have "is_active (ar_status r)" using False r(3) by (auto simp: is_active_def)
    with r(1) w inv show ?thesis by (auto simp: f write_finished_reads write_finished_inv keeps_ended_def)
  qed
qed

lemma work_ok:
  assumes "inj uid" "work_step uid x y" "work_inv uid x"
  shows "work_inv uid y \<and> keeps_ended (fst x) (fst y)"
  using assms(2)
proof (cases rule: work_step.cases)
  case (spawn_work s w se us iv a pr pa l t)
  have "runs_inv uid s" using assms(3) spawn_work by (simp add: work_inv_def)
  from spawn_ok [OF assms(1) this, of se us iv a pr pa l t] spawn_work assms(3)
  show ?thesis by (auto intro: work_inv_grows run_grows_keeps)
next
  case (begin_work t s s' r w)
  have inv: "runs_inv uid s" using assms(3) begin_work by (simp add: work_inv_def)
  note b = begin_cases [OF inv begin_work(3)]
  show ?thesis
  proof (cases r)
    case None
    with b have "s' = s" by simp
    with None begin_work assms(3) show ?thesis by (simp add: keeps_ended_def)
  next
    case (Some run)
    with b have run: "\<exists>q. read_agent_run (ar_run_id run) s = Some q \<and> ar_status q = Queued" "ar_status run = Running"
      "\<And>j. read_agent_run j s' = (if j = ar_run_id run then Some run else read_agent_run j s)" by simp_all
    have other: "ar_run_id x \<noteq> ar_run_id run" if "x \<in> set w" for x
      using that assms(3) begin_work run(1) by (auto simp: work_inv_def list_all_iff executing_def)
    then have "executing s' x" if "x \<in> set w" for x
      using that assms(3) begin_work by (auto simp: work_inv_def list_all_iff executing_def run(3))
    moreover have "executing s' run" using run(2,3) by (simp add: executing_def)
    moreover have "ar_run_id run \<notin> ar_run_id ` set w" using other by (metis imageE)
    ultimately have "work_inv uid (s', run # w)" using b assms(3) begin_work by (simp add: work_inv_def list_all_iff)
    with b Some begin_work show ?thesis by simp
  qed
next
  case (finish_work run w s out t)
  have i: "runs_inv uid s" "executing s run" "distinct (map ar_run_id w)" "\<forall>x\<in>set w. executing s x"
    using assms(3) finish_work by (auto simp: work_inv_def list_all_iff)
  note f = finish_cases [OF i(1,2), of out t]
  have "distinct (map ar_run_id (remove1 run w))" using i(3) distinct_remove1 [of w run]
    by (auto simp: distinct_map inj_on_def dest: notin_set_remove1)
  moreover have "executing (fst (finish_queued_run uid run out t s)) x" if "x \<in> set (remove1 run w)" for x
  proof -
    have "x \<in> set w" using that set_remove1_subset by fast
    moreover have "x \<noteq> run" using that i(3) by (auto simp: distinct_map)
    ultimately have "ar_run_id x \<noteq> ar_run_id run" using i(3) finish_work by (auto simp: distinct_map inj_on_def)
    with f i(4) \<open>x \<in> set w\<close> show ?thesis by (auto simp: executing_def)
  qed
  ultimately show ?thesis using f finish_work by (simp add: work_inv_def list_all_iff)
next
  case (cancel_work s w k sm t)
  have "runs_inv uid s" using assms(3) cancel_work by (simp add: work_inv_def)
  then have "run_grows s (fst (cancel_agent_run uid k sm t s))" "runs_inv uid (fst (cancel_agent_run uid k sm t s))"
    using cancel_only only_cancels_grows cancel_inv by blast+
  with cancel_work assms(3) show ?thesis by (auto intro: work_inv_grows run_grows_keeps)
next
  case (tree_work k sm t s s' rs w)
  have "runs_inv uid s" using assms(3) tree_work by (simp add: work_inv_def)
  from tree_returned [OF this tree_work(3)] have "run_grows s s'" "runs_inv uid s'" using only_cancels_grows by blast+
  with tree_work assms(3) show ?thesis by (auto intro: work_inv_grows run_grows_keeps)
next
  case (retry_work s w k rq t)
  have "runs_inv uid s" using assms(3) retry_work by (simp add: work_inv_def)
  from retry_ok [OF assms(1) this, of k rq t] retry_work assms(3)
  show ?thesis by (auto intro: work_inv_grows run_grows_keeps)
next
  case (takeover_work k a rq t s s' r w)
  have "runs_inv uid s" using assms(3) takeover_work by (simp add: work_inv_def)
  from takeover_ok [OF assms(1) this takeover_work(3)] takeover_work assms(3)
  show ?thesis by (auto intro: work_inv_grows run_grows_keeps)
next
  case (event_work s w e)
  have i: "runs_inv uid s" using assms(3) event_work(1) by (simp add: work_inv_def)
  have "run_grows s (append_agent_run_event e s)" by (rule run_grows_cong) (simp add: append_agent_run_event_def)
  moreover have "runs_inv uid (append_agent_run_event e s)" by (rule runs_inv_grow [OF i]) (simp_all add: append_agent_run_event_def)
  moreover have "work_inv uid (s, w)" using assms(3) event_work(1) by simp
  ultimately have "work_inv uid (append_agent_run_event e s, w) \<and> keeps_ended s (append_agent_run_event e s)"
    using work_inv_grows run_grows_keeps by blast
  then show ?thesis unfolding event_work(1,2) fst_conv .
next
  case (message_work s w m)
  have i: "runs_inv uid s" using assms(3) message_work(1) by (simp add: work_inv_def)
  have "run_grows s (append_agent_mailbox_message m s)" by (rule run_grows_cong) (simp add: append_agent_mailbox_message_def)
  moreover have "runs_inv uid (append_agent_mailbox_message m s)" by (rule runs_inv_grow [OF i]) (simp_all add: append_agent_mailbox_message_def)
  moreover have "work_inv uid (s, w)" using assms(3) message_work(1) by simp
  ultimately have "work_inv uid (append_agent_mailbox_message m s, w) \<and> keeps_ended s (append_agent_mailbox_message m s)"
    using work_inv_grows run_grows_keeps by blast
  then show ?thesis unfolding message_work(1,2) fst_conv .
qed

lemma works_ok:
  assumes "inj uid" "(work_step uid)\<^sup>*\<^sup>* x y" "work_inv uid x"
  shows "work_inv uid y \<and> keeps_ended (fst x) (fst y)"
  using assms(2,3)
proof (induction rule: rtranclp_induct)
  case base
  then show ?case by (simp add: keeps_ended_def)
next
  case (step y z)
  then show ?case using work_ok [OF assms(1) step.hyps(2)] keeps_ended_trans by blast
qed

lemma work_inv_empty: "work_inv uid (empty_runs, [])"
  by (simp add: work_inv_def)

section \<open>The queue of runs\<close>

definition queued_ids :: "run_store \<Rightarrow> string set" where
  "queued_ids s = row_id ` set (filter is_queued (agent_runs s))"

definition run_age :: "run_store \<Rightarrow> string \<Rightarrow> int" where
  "run_age s k = (case find_by row_id k (agent_runs s) of None \<Rightarrow> 0 | Some r \<Rightarrow> sint (rr_updated_at_us r))"

definition claim_run :: "u64 \<Rightarrow> run_store \<Rightarrow> run_store \<times> string option" where
  "claim_run t s = (case claim_next_queued_agent_run t s of (s', r) \<Rightarrow> (s', map_option ar_run_id r))"

lemma queued_iff:
  "unique_keys row_id (agent_runs s) \<Longrightarrow> k \<in> queued_ids s \<longleftrightarrow>
    (\<exists>r. find_by row_id k (agent_runs s) = Some r \<and> is_queued r)"
  by (auto simp: queued_ids_def dest: find_by_SomeD find_by_unique)

interpretation run_queue: claim_service "\<lambda>s. unique_keys row_id (agent_runs s)" queued_ids run_age "claim_run t"
  for t
proof unfold_locales
  fix s s' :: run_store and k j
  show "finite (queued_ids s)" by (simp add: queued_ids_def)
  assume u: "unique_keys row_id (agent_runs s)"
  have claimed: "\<exists>q. q \<in> set (agent_runs s) \<and> is_queued q \<and> row_id q = k \<and> s' = set_run (started t (rr_run q)) t s \<and>
      (\<forall>r\<in>set (agent_runs s). is_queued r \<longrightarrow> sint (rr_updated_at_us q) \<le> sint (rr_updated_at_us r))"
    if "claim_run t s = (s', Some k)" for s' k
  proof -
    from that obtain run where c: "claim_next_queued_agent_run t s = (s', Some run)" "k = ar_run_id run"
      by (auto simp: claim_run_def split: prod.splits)
    show ?thesis by (rule claim_Some [OF u c(1)]) (auto simp: c(2) row_id_def)
  qed
  show "unique_keys row_id (agent_runs (fst (claim_run t s)))"
  proof (cases "claim_run t s")
    case (Pair s1 r)
    show ?thesis
    proof (cases r)
      case None
      with Pair claim_None [of t s s1] u show ?thesis by (auto simp: claim_run_def split: prod.splits)
    next
      case (Some k')
      with claimed [of s1 k'] Pair u show ?thesis by (auto simp: set_run_def intro: unique_upsert_by)
    qed
  qed
  show "queued_ids s = {}" if "claim_run t s = (s', None)"
    using that claim_None [of t s s'] by (auto simp: claim_run_def queued_ids_def filter_empty_conv split: prod.splits)
  assume c: "claim_run t s = (s', Some k)"
  then obtain q where q: "q \<in> set (agent_runs s)" "is_queued q" "row_id q = k"
    "s' = set_run (started t (rr_run q)) t s"
    "\<forall>r\<in>set (agent_runs s). is_queued r \<longrightarrow> sint (rr_updated_at_us q) \<le> sint (rr_updated_at_us r)"
    using claimed by blast
  let ?x = "\<lparr>rr_run = started t (rr_run q), rr_updated_at_us = t\<rparr>"
  have x: "row_id ?x = k" "\<not> is_queued ?x" using q(3) by (simp_all add: row_id_def is_queued_def)
  have u': "unique_keys row_id (agent_runs s')" using u by (auto simp: q(4) set_run_def intro: unique_upsert_by)
  have look: "find_by row_id i (agent_runs s') = (if i = k then Some ?x else find_by row_id i (agent_runs s))" for i
    using x(1) by (simp add: q(4) set_run_def find_by_upsert_by)
  have fq: "find_by row_id k (agent_runs s) = Some q" using find_by_unique [OF u q(1)] q(3) by simp
  have "i \<in> queued_ids s' \<longleftrightarrow> i \<in> queued_ids s - {k}" for i
    using look x(2) by (simp add: queued_iff [OF u] queued_iff [OF u'])
  moreover have "run_age s k \<le> run_age s i" if i: "i \<in> queued_ids s" for i
  proof -
    obtain r where r: "find_by row_id i (agent_runs s) = Some r" "is_queued r"
      using i queued_iff [OF u, of i] by auto
    with find_by_SomeD [OF r(1)] q(5) fq show ?thesis by (simp add: run_age_def)
  qed
  moreover have "k \<in> queued_ids s" using fq q(2) queued_iff [OF u] by blast
  ultimately show "k \<in> queued_ids s \<and> queued_ids s' = queued_ids s - {k} \<and> (\<forall>j\<in>queued_ids s. run_age s k \<le> run_age s j)"
    by blast
  show "run_age s' j = run_age s j" if "j \<in> queued_ids s'"
    using that look [of j] x(2) by (auto simp: run_age_def queued_iff [OF u'] split: if_splits)
qed

section \<open>Properties\<close>

definition ex_uid :: "nat \<Rightarrow> string" where
  "ex_uid n = show_nat n"

lemma inj_ex_uid: "inj ex_uid"
  by (auto simp: inj_def ex_uid_def dest: show_nat_inject)

definition ex_run :: "string \<Rightarrow> string option \<Rightarrow> AgentRunStatus \<Rightarrow> AgentRunRecord" where
  "ex_run k p st = \<lparr>ar_run_id = k, ar_parent_run_id = p, ar_origin_kind = None, ar_lineage_run_id = None,
     ar_session_id = ''s'', ar_user_id = ''u'', ar_requested_by_agent = None, ar_agent_id = ''a'', ar_status = st,
     ar_request_text = [], ar_inbox_on_completion = False, ar_max_runtime_seconds = None, ar_created_at_us = 1,
     ar_started_at_us = None, ar_finished_at_us = None, ar_result = None\<rparr>"

lemma ex_run_simps [simp]: "ar_run_id (ex_run k p st) = k" "ar_status (ex_run k p st) = st"
  "ar_agent_id (ex_run k p st) = ''a''" "ar_session_id (ex_run k p st) = ''s''" "ar_parent_run_id (ex_run k p st) = p"
  by (simp_all add: ex_run_def)

text \<open>A store with a parent and its child.\<close>

definition ex_runs :: run_store where
  "ex_runs = upsert_agent_run (ex_run ''c'' (Some ''p'') Queued) 2
     (upsert_agent_run (ex_run ''p'' None Running) 1 empty_runs)"

lemma ex_runs_reachable: "(run_step ex_uid)\<^sup>*\<^sup>* empty_runs ex_runs"
proof -
  have w1: "writable ex_uid (ex_run ''p'' None Running) empty_runs"
    by (simp add: writable_def read_agent_run_def empty_runs_def)
  have r: "read_agent_run ''c'' (upsert_agent_run (ex_run ''p'' None Running) 1 empty_runs) = None"
    by (simp add: read_upsert) (simp add: read_agent_run_def empty_runs_def)
  then have w2: "writable ex_uid (ex_run ''c'' (Some ''p'') Queued)
      (upsert_agent_run (ex_run ''p'' None Running) 1 empty_runs)"
    by (simp add: writable_def)
  have "run_step ex_uid empty_runs (upsert_agent_run (ex_run ''p'' None Running) 1 empty_runs)"
    by (rule write_step [OF w1])
  moreover have "run_step ex_uid (upsert_agent_run (ex_run ''p'' None Running) 1 empty_runs) ex_runs"
    unfolding ex_runs_def by (rule write_step [OF w2])
  ultimately show ?thesis by simp
qed

lemma ex_runs_inv: "runs_inv ex_uid ex_runs"
  using steps_ok [OF inj_ex_uid ex_runs_reachable] by simp

lemma ex_runs_rows: "agent_runs ex_runs = [\<lparr>rr_run = ex_run ''p'' None Running, rr_updated_at_us = 1\<rparr>,
    \<lparr>rr_run = ex_run ''c'' (Some ''p'') Queued, rr_updated_at_us = 2\<rparr>]"
  by (simp add: ex_runs_def upsert_agent_run_set set_run_def empty_runs_def upsert_by_def has_key_def)

text \<open>C23: a run that has ended stays as it is: whatever is spawned, claimed, finished by the workers with whatever
  outcome, cancelled, retried or taken over afterwards, in any order, the record of a completed, failed, cancelled or
  timed-out run is never changed, as long as the check of a finished run and its write, like every operation of the
  store, are not interrupted by another.\<close>

theorem ended_runs_final:
  assumes "inj uid" "(work_step uid)\<^sup>*\<^sup>* (empty_runs, []) (s, w)" "(work_step uid)\<^sup>*\<^sup>* (s, w) (s', w')"
    and "read_agent_run k s = Some r" "ar_status r \<in> {Completed, Failed, Cancelled, TimedOut}"
  shows "read_agent_run k s' = Some r"
proof -
  have "work_inv uid (s, w)" using works_ok [OF assms(1,2) work_inv_empty] by simp
  from works_ok [OF assms(1,3) this] have "keeps_ended s s'" by simp
  moreover have "\<not> is_active (ar_status r)" using assms(5) by (simp only: is_active_iff not_not)
  ultimately show ?thesis using assms(4) unfolding keeps_ended_def by blast
qed

text \<open>A worker claims a run, the run is cancelled, and the late answer of the worker changes nothing.\<close>

definition ex_spawned :: run_store where
  "ex_spawned = fst (spawn_agent_run ex_uid ''s'' ''u'' None ''a'' ''do it'' None None 1 empty_runs)"

definition ex_claimed :: AgentRunRecord where
  "ex_claimed = started 2 (snd (spawn_agent_run ex_uid ''s'' ''u'' None ''a'' ''do it'' None None 1 empty_runs))"

theorem ended_runs_final_witness:
  "\<exists>s1 r. begin_queued_run ex_uid 2 ex_spawned = (s1, Some ex_claimed) \<and> ar_status r = Cancelled \<and>
     read_agent_run ''run-0'' (fst (cancel_agent_run ex_uid ''run-0'' ''stop'' 5 s1)) = Some r \<and>
     read_agent_run ''run-0'' (fst (finish_queued_run ex_uid ex_claimed (Answered ''late'') 7
       (fst (cancel_agent_run ex_uid ''run-0'' ''stop'' 5 s1)))) = Some r"
proof -
  obtain s1 where s1: "begin_queued_run ex_uid 2 ex_spawned = (s1, Some ex_claimed)"
    by (simp add: begin_queued_run_def claim_next_queued_agent_run_def ex_spawned_def spawn_agent_run_def Let_def
        upsert_agent_run_set set_run_def empty_runs_def upsert_by_def has_key_def is_queued_def row_id_def
        ex_claimed_def)
  let ?s2 = "fst (cancel_agent_run ex_uid ''run-0'' ''stop'' 5 s1)"
  have 1: "(work_step ex_uid)\<^sup>*\<^sup>* (empty_runs, []) (ex_spawned, [])"
    unfolding ex_spawned_def by (rule r_into_rtranclp, rule spawn_work)
  have b: "work_step ex_uid (ex_spawned, []) (s1, [ex_claimed])" using begin_work [OF s1, of "[]"] by simp
  have 2: "(work_step ex_uid)\<^sup>*\<^sup>* (empty_runs, []) (s1, [ex_claimed])" by (rule rtranclp.rtrancl_into_rtrancl [OF 1 b])
  have 3: "(work_step ex_uid)\<^sup>*\<^sup>* (empty_runs, []) (?s2, [ex_claimed])"
    by (rule rtranclp.rtrancl_into_rtrancl [OF 2 cancel_work])
  have 4: "(work_step ex_uid)\<^sup>*\<^sup>* (?s2, [ex_claimed]) (fst (finish_queued_run ex_uid ex_claimed (Answered ''late'') 7 ?s2), [])"
    using finish_work [of ex_claimed "[ex_claimed]" ex_uid ?s2 "Answered ''late''" 7] by (intro r_into_rtranclp) simp
  have inv: "runs_inv ex_uid ex_spawned" "runs_inv ex_uid s1"
    using works_ok [OF inj_ex_uid 1 work_inv_empty] works_ok [OF inj_ex_uid 2 work_inv_empty] by (simp_all add: work_inv_def)
  have "show_nat 0 = ''0''" by code_simp
  then have "ar_run_id ex_claimed = ''run-0''" "ar_status ex_claimed = Running"
    by (simp_all add: ex_claimed_def spawn_agent_run_def Let_def ex_uid_def empty_runs_def)
  with begin_cases [OF inv(1) s1] have "read_agent_run ''run-0'' s1 = Some ex_claimed" by simp
  then have r: "read_agent_run ''run-0'' ?s2 = Some (cancelled ''stop'' 5 ex_claimed)"
    using cancel_effect [OF runs_inv_unique [OF inv(2)], of "''run-0''" ex_uid "''run-0''" "''stop''" 5] \<open>ar_status ex_claimed = Running\<close>
    by (simp add: cancel_if_active_def is_active_def)
  from ended_runs_final [OF inj_ex_uid 3 4 r] s1 r show ?thesis by auto
qed

text \<open>The check and the write of a worker are two accesses to the store: a cancellation between them is lost.\<close>

lemma cancellation_lost:
  "read_agent_run (ar_run_id run) (fst (write_finished uid run out t (fst (cancel_agent_run uid (ar_run_id run) sm u s)))) =
     Some (finished out t run)"
  by (simp add: write_finished_reads)

text \<open>The presence of the agents is accurate: in every reachable state each agent that has
  a run has a presence record, it counts exactly the agent's queued and running runs, and it
  shows the agent as available exactly when there are none.\<close>

lemma presence_accurate:
  assumes "inj uid" "(run_step uid)\<^sup>*\<^sup>* empty_runs s" "read_agent_run k s = Some r"
    and "n = count_active_agent_runs_for_agent (ar_agent_id r) s" "n < 2 ^ 32"
  shows "\<exists>p. find_by ap_agent_id (ar_agent_id r) (agent_presence s) = Some p \<and>
    unat (ap_active_run_count p) = n \<and> ap_availability p = (if n = 0 then AgentAvailable else AgentBusy)"
proof -
  have inv: "runs_inv uid s" using steps_ok [OF assms(1,2)] by simp
  obtain x where "x \<in> set (agent_runs s)" "rr_run x = r"
    using assms(3) read_row [OF runs_inv_unique [OF inv]] by blast
  then have "ar_agent_id r \<in> keys_of ap_agent_id (agent_presence s)"
    using inv by (auto simp: runs_inv_def presence_ok_def)
  then obtain p where p: "p \<in> set (agent_presence s)" "ap_agent_id p = ar_agent_id r" by auto
  then have f: "find_by ap_agent_id (ar_agent_id r) (agent_presence s) = Some p"
    using inv find_by_unique [of ap_agent_id "agent_presence s" p] by (simp add: runs_inv_def)
  from p inv obtain t where pr: "p = presence_record (ar_agent_id r) (of_nat n) t"
    unfolding runs_inv_def presence_ok_def assms(4) by metis
  have "unat (of_nat n :: u32) = n" using assms(5) by (simp add: unat_of_nat)
  then have "(of_nat n :: u32) = 0 \<longleftrightarrow> n = 0" by (metis unat_0 word_unat_eq_iff)
  with f pr \<open>unat (of_nat n :: u32) = n\<close> show ?thesis by (simp add: presence_record_def)
qed

lemma presence_accurate_example:
  "\<exists>p. find_by ap_agent_id ''a'' (agent_presence ex_runs) = Some p \<and> unat (ap_active_run_count p) = 2"
proof -
  have r: "read_agent_run ''p'' ex_runs = Some (ex_run ''p'' None Running)"
    by (simp add: read_agent_run_def ex_runs_rows row_id_def)
  have "2 = count_active_agent_runs_for_agent (ar_agent_id (ex_run ''p'' None Running)) ex_runs"
    by (simp add: count_active_agent_runs_for_agent_def ex_runs_rows is_active_def)
  from presence_accurate [OF inj_ex_uid ex_runs_reachable r this] show ?thesis by auto
qed

text \<open>C14: cancelling a tree reaches every descendant: unless the parent links of the session have
  a cycle, the traversal ends, and then the run and all runs below it that were active are
  cancelled (with the given reason and the ancestor as reason), while runs that had
  ended and runs elsewhere are as before.\<close>

theorem cancel_tree_complete:
  assumes "runs_inv uid s" "read_agent_run k s = Some root"
    and "acyclic (links (session_children root s))"
  shows "\<exists>s' rs. cancel_agent_run_tree uid k sm t s = Some (s', rs) \<and>
    (\<forall>j. read_agent_run j s' =
      (if j = k then map_option (cancel_if_active sm t) (read_agent_run j s)
       else if (j, k) \<in> (links (session_children root s))\<^sup>+ then map_option (cancel_if_active
          (''cancelled because ancestor '' @ quoted k @ '' was cancelled'') t) (read_agent_run j s)
       else read_agent_run j s))"
proof -
  have "wf (links (session_children root s))"
    using assms(3) links_wf by (simp add: session_children_def)
  then obtain ids where ids: "collect (session_children root s) [k] [] = Some ids"
    "set ids = {d. (d, k) \<in> (links (session_children root s))\<^sup>+}" by (rule collect_total)
  have "k \<notin> set ids" using assms(3) ids(2) by (simp add: acyclic_def)
  then show ?thesis using tree_Some [OF assms(1,2) ids(1), of sm t] ids(2) by (auto split: if_splits)
qed

theorem cancel_tree_complete_witness:
  "\<exists>s' rs. cancel_agent_run_tree ex_uid ''p'' ''stop'' 9 ex_runs = Some (s', rs) \<and>
    map_option ar_status (read_agent_run ''c'' s') = Some Cancelled"
proof -
  let ?root = "ex_run ''p'' None Running"
  have r: "read_agent_run ''p'' ex_runs = Some ?root"
    by (simp add: read_agent_run_def ex_runs_rows row_id_def)
  have c: "read_agent_run ''c'' ex_runs = Some (ex_run ''c'' (Some ''p'') Queued)"
    by (simp add: read_agent_run_def ex_runs_rows row_id_def)
  have l: "list_agent_runs_for_session ''s'' ex_runs = [?root, ex_run ''c'' (Some ''p'') Queued]"
    by (simp add: list_agent_runs_for_session_def ex_runs_rows)
  have ln: "links (session_children ?root ex_runs) = {(''c'', ''p'')}"
    by (auto simp: session_children_def l children_of_def)
  have ac: "acyclic (links (session_children ?root ex_runs))" by (simp add: ln acyclic_insert wf_acyclic)
  have "(''c'', ''p'') \<in> (links (session_children ?root ex_runs))\<^sup>+" by (rule r_into_trancl) (simp add: ln)
  with cancel_tree_complete [OF ex_runs_inv r ac, of "''stop''" 9] c show ?thesis
    by (fastforce simp: cancel_if_active_def is_active_def)
qed

text \<open>If a run is its own ancestor through the parent links of its session, cancelling its
  tree never returns: the loop keeps no record of the runs it has visited.\<close>

lemma cancel_tree_cycle_hangs:
  assumes "read_agent_run k s = Some root" "(k, k) \<in> (links (session_children root s))\<^sup>+"
  shows "cancel_agent_run_tree uid k sm t s = None"
proof -
  let ?L = "links (session_children root s)"
  let ?C = "{x. (k, x) \<in> ?L\<^sup>+}"
  have "\<forall>x\<in>?C. \<exists>c\<in>set (session_children root s x). c \<in> ?C"
  proof
    fix x assume "x \<in> ?C"
    then have "(k, x) \<in> ?L\<^sup>+" by simp
    then show "\<exists>c\<in>set (session_children root s x). c \<in> ?C"
    proof (cases rule: trancl.cases)
      case r_into_trancl
      with assms(2) show ?thesis by auto
    next
      case (trancl_into_trancl c)
      then show ?thesis by auto
    qed
  qed
  then have "collect (session_children root s) [k] [] = None"
    using collect_closed_diverges [of "session_children root s" "[k]" "[]" _ ?C] assms(2)
    by (cases "collect (session_children root s) [k] []") auto
  with assms(1) show ?thesis by (simp add: cancel_agent_run_tree_def session_children_def)
qed

lemma cancel_tree_cycle_hangs_example:
  "cancel_agent_run_tree ex_uid ''x'' ''stop'' 9 (upsert_agent_run (ex_run ''x'' (Some ''x'') Queued) 1 empty_runs) = None"
proof -
  let ?s = "upsert_agent_run (ex_run ''x'' (Some ''x'') Queued) 1 empty_runs"
  have rows: "agent_runs ?s = [\<lparr>rr_run = ex_run ''x'' (Some ''x'') Queued, rr_updated_at_us = 1\<rparr>]"
    by (simp add: upsert_agent_run_set set_run_def empty_runs_def upsert_by_def has_key_def)
  have r: "read_agent_run ''x'' ?s = Some (ex_run ''x'' (Some ''x'') Queued)" by (simp add: read_upsert)
  have "(''x'', ''x'') \<in> links (session_children (ex_run ''x'' (Some ''x'') Queued) ?s)"
    by (simp add: session_children_def children_of_def list_agent_runs_for_session_def rows)
  then show ?thesis by (intro cancel_tree_cycle_hangs [OF r] r_into_trancl)
qed

text \<open>Repeated claims hand out every queued run exactly once, the least recently updated
  first, and nothing else.\<close>

lemma claims_drain_runs:
  assumes "unique_keys row_id (agent_runs s)" "card (queued_ids s) \<le> n"
    and "claim_times (claim_run t) n s = (s', ids)"
  shows "set ids = queued_ids s \<and> distinct ids \<and> sorted (map (run_age s) ids)"
  using run_queue.claims_drain [OF assms] .

lemma claims_drain_runs_example:
  "set (snd (claim_times (claim_run 5) 1 ex_runs)) = {''c''}"
proof -
  have q: "queued_ids ex_runs = {''c''}"
    by (simp add: queued_ids_def ex_runs_rows is_queued_def row_id_def)
  then have "card (queued_ids ex_runs) \<le> 1" by simp
  from claims_drain_runs [OF runs_inv_unique [OF ex_runs_inv] this] show ?thesis
    using q by (metis surjective_pairing)
qed

end
