(* ===== verification/BackendPool.thy ===== *)
theory BackendPool
  imports ToolSchema
begin

text \<open>The pool of language-model backends (\<open>aria-intelligence/src/runtime.rs\<close>): queries in
  fallback order, the cooldown of a backend after three failures in a row, the circuit
  breaker of a provider shared by several backends, and the tool mode of a model.  What a
  backend answers, and the time it takes, is a parameter: the methods of the \<open>LLMBackend\<close>
  trait are functions of the time of the call that return the answer and the time after it.
  The code between two queries takes no time in the model; a \<open>Duration\<close> and an \<open>Instant\<close>
  are natural numbers of one unit.\<close>

section \<open>Answers, errors and tool modes\<close>

record ToolCall =
  tl_invocation_id :: "string option"
  tl_name :: string
  tl_arguments :: string

datatype LLMResponse = TextAnswer string | ToolCalls "ToolCall list"

datatype OrchestratorError = LLMError string | ToolError string | MaxRoundsExceeded nat
  | BackendOverloaded string | ResourceBusy string | SecurityViolation string | UserAborted

fun error_text :: "OrchestratorError \<Rightarrow> string" where
  "error_text (LLMError msg) = ''LLM error: '' @ msg"
| "error_text (ToolError msg) = ''tool error: '' @ msg"
| "error_text (MaxRoundsExceeded lmt) = ''max rounds ('' @ show_nat lmt @ '') exceeded''"
| "error_text (BackendOverloaded msg) = ''backend overloaded: '' @ msg"
| "error_text (ResourceBusy msg) = ''resource busy: '' @ msg"
| "error_text (SecurityViolation msg) = ''security violation: '' @ msg"
| "error_text UserAborted = ''aborted by user steering''"

definition approval_required_prefix :: string where
  "approval_required_prefix = ''APPROVAL_REQUIRED::''"

definition approval_required_error :: "string \<Rightarrow> OrchestratorError" where
  "approval_required_error tool = ToolError (approval_required_prefix @ tool)"

definition approval_required_tool_name :: "string \<Rightarrow> string option" where
  "approval_required_tool_name message = strip_prefix approval_required_prefix message"

datatype ToolCallingMode = NativeTools | CompatTools | TextFallbackNoTools | TextFallbackWithRepair

datatype ToolChoicePolicy = AutoChoice | NoTool | RequiredTool | SpecificTool string

record ToolRuntimePolicy =
  tool_choice :: ToolChoicePolicy
  allow_parallel_tool_calls :: bool

definition tool_calling_mode_for_model_with_repair ::
  "ModelCapabilityProfile option \<Rightarrow> bool \<Rightarrow> ToolCallingMode" where
  "tool_calling_mode_for_model_with_repair profile repair = (case map_option mc_tool_calling profile of
      Some Supported \<Rightarrow> NativeTools
    | Some DegradedSupport \<Rightarrow> CompatTools
    | Some UnknownSupport \<Rightarrow> if repair then TextFallbackWithRepair else TextFallbackNoTools
    | Some Unsupported \<Rightarrow> if repair then TextFallbackWithRepair else TextFallbackNoTools
    | None \<Rightarrow> CompatTools)"

definition tool_calling_mode_for_model :: "ModelCapabilityProfile option \<Rightarrow> ToolCallingMode" where
  "tool_calling_mode_for_model profile = tool_calling_mode_for_model_with_repair profile False"

definition tool_is_text_repair_compatible :: "CachedTool \<Rightarrow> ModelCapabilityProfile option \<Rightarrow> bool" where
  "tool_is_text_repair_compatible t profile = (case profile of
      None \<Rightarrow> True
    | Some p \<Rightarrow>
       if ImageModality \<in> set (ct_modalities t) \<and> mc_supports_images p \<noteq> Supported then False
       else if AudioModality \<in> set (ct_modalities t) \<and> mc_supports_audio p \<noteq> Supported then False
       else True)"

definition filter_tools_for_model_capability_with_repair ::
  "(string \<Rightarrow> (string, string) result) \<Rightarrow> CachedTool list \<Rightarrow> ModelCapabilityProfile option \<Rightarrow> bool
    \<Rightarrow> CachedTool list" where
  "filter_tools_for_model_capability_with_repair nrm tools profile repair =
    (case tool_calling_mode_for_model_with_repair profile repair of
       NativeTools \<Rightarrow> filter (\<lambda>t. tool_is_compatible_with_model nrm t profile) tools
     | CompatTools \<Rightarrow> filter (\<lambda>t. tool_is_compatible_with_model nrm t profile) tools
     | TextFallbackWithRepair \<Rightarrow> filter (\<lambda>t. tool_is_text_repair_compatible t profile) tools
     | TextFallbackNoTools \<Rightarrow> [])"

definition filter_tools_for_model_capability ::
  "(string \<Rightarrow> (string, string) result) \<Rightarrow> CachedTool list \<Rightarrow> ModelCapabilityProfile option \<Rightarrow> CachedTool list" where
  "filter_tools_for_model_capability nrm tools profile =
     filter_tools_for_model_capability_with_repair nrm tools profile False"

definition tool_mode_limitation_message :: "ModelCapabilityProfile option \<Rightarrow> string option" where
  "tool_mode_limitation_message profile = (case profile of
      None \<Rightarrow> None
    | Some p \<Rightarrow>
       (let start = ''The active model '' @ [CHR 0x27] @ mr_model_id (mc_model_ref p) @ [CHR 0x27] @
              '' on provider '' @ [CHR 0x27] @ mr_provider_id (mc_model_ref p) @ [CHR 0x27] in
        case tool_calling_mode_for_model (Some p) of
          TextFallbackNoTools \<Rightarrow> Some (start @
            '' is currently operating in text-only mode and cannot reliably use tools.'')
        | TextFallbackWithRepair \<Rightarrow> Some (start @
            '' is in transitional repair mode; tool use is restricted.'')
        | NativeTools \<Rightarrow> None
        | CompatTools \<Rightarrow> None))"

section \<open>The pool\<close>

record ProviderHealthIdentity =
  ph_provider_family :: string
  ph_upstream_identity :: string

text \<open>\<open>'x\<close> is the type of executed tool calls.\<close>

type_synonym answer = "(OrchestratorError, LLMResponse) result \<times> nat"

record 'x Backend =
  bk_identity :: ProviderHealthIdentity
  bk_profile :: "ModelCapabilityProfile option"
  bk_query :: "string \<Rightarrow> CachedTool list \<Rightarrow> nat \<Rightarrow> answer"
  bk_query_with_policy :: "string \<Rightarrow> CachedTool list \<Rightarrow> ToolRuntimePolicy \<Rightarrow> nat \<Rightarrow> answer"
  bk_query_stream_with_policy :: "string \<Rightarrow> CachedTool list \<Rightarrow> ToolRuntimePolicy \<Rightarrow> nat \<Rightarrow> answer"
  bk_query_with_tool_results_and_policy ::
    "string \<Rightarrow> CachedTool list \<Rightarrow> 'x list \<Rightarrow> ToolRuntimePolicy \<Rightarrow> nat \<Rightarrow> answer"
  bk_query_stream_with_tool_results_and_policy ::
    "string \<Rightarrow> CachedTool list \<Rightarrow> 'x list \<Rightarrow> ToolRuntimePolicy \<Rightarrow> nat \<Rightarrow> answer"

record 'x LlmBackendPool =
  pl_backends :: "string \<rightharpoonup> 'x Backend"
  pl_fallback_order :: "string list"
  pl_cooldown_for :: nat
  pl_cooldown_until :: "string \<rightharpoonup> nat"
  pl_consecutive_failures :: "string \<rightharpoonup> nat"
  pl_provider_circuit_cooldown_for :: nat
  pl_provider_circuit_failure_threshold :: nat
  pl_provider_cooldown_until :: "string \<rightharpoonup> nat"
  pl_provider_failures :: "string \<rightharpoonup> nat"
  pl_provider_last_error :: "string \<rightharpoonup> string"

definition new_pool :: "string list \<Rightarrow> nat \<Rightarrow> 'x LlmBackendPool" where
  "new_pool order cooldown = \<lparr>pl_backends = Map.empty, pl_fallback_order = order, pl_cooldown_for = cooldown,
     pl_cooldown_until = Map.empty, pl_consecutive_failures = Map.empty,
     pl_provider_circuit_cooldown_for = cooldown, pl_provider_circuit_failure_threshold = 3,
     pl_provider_cooldown_until = Map.empty, pl_provider_failures = Map.empty,
     pl_provider_last_error = Map.empty\<rparr>"

definition with_provider_circuit_breaker :: "nat \<Rightarrow> nat \<Rightarrow> 'x LlmBackendPool \<Rightarrow> 'x LlmBackendPool" where
  "with_provider_circuit_breaker cooldown threshold p = p\<lparr>pl_provider_circuit_cooldown_for := cooldown,
     pl_provider_circuit_failure_threshold := max threshold 1\<rparr>"

definition register_backend :: "string \<Rightarrow> 'x Backend \<Rightarrow> 'x LlmBackendPool \<Rightarrow> 'x LlmBackendPool" where
  "register_backend k b p = p\<lparr>pl_backends := (pl_backends p)(k \<mapsto> b)\<rparr>"

fun first_profile :: "string list \<Rightarrow> 'x LlmBackendPool \<Rightarrow> ModelCapabilityProfile option" where
  "first_profile [] p = None"
| "first_profile (k # ks) p = (case pl_backends p k of
      None \<Rightarrow> first_profile ks p
    | Some b \<Rightarrow> (case bk_profile b of Some pr \<Rightarrow> Some pr | None \<Rightarrow> first_profile ks p))"

definition primary_capability_profile :: "'x LlmBackendPool \<Rightarrow> ModelCapabilityProfile option" where
  "primary_capability_profile p = first_profile (pl_fallback_order p) p"

definition runs_until :: "nat option \<Rightarrow> nat \<Rightarrow> bool" where
  "runs_until until now = (case until of None \<Rightarrow> False | Some u \<Rightarrow> now < u)"

definition is_cooling_down :: "string \<Rightarrow> nat \<Rightarrow> 'x LlmBackendPool \<Rightarrow> bool" where
  "is_cooling_down k now p = runs_until (pl_cooldown_until p k) now"

definition mark_cooldown :: "string \<Rightarrow> nat \<Rightarrow> 'x LlmBackendPool \<Rightarrow> 'x LlmBackendPool" where
  "mark_cooldown k now p = p\<lparr>pl_cooldown_until := (pl_cooldown_until p)(k \<mapsto> now + pl_cooldown_for p)\<rparr>"

definition provider_key_for_backend :: "'x Backend \<Rightarrow> string" where
  "provider_key_for_backend b = ph_provider_family (bk_identity b) @ ''::'' @ ph_upstream_identity (bk_identity b)"

definition is_provider_circuit_open :: "string \<Rightarrow> nat \<Rightarrow> 'x LlmBackendPool \<Rightarrow> bool" where
  "is_provider_circuit_open key now p = runs_until (pl_provider_cooldown_until p key) now"

text \<open>\<open>entry(key).and_modify(+1).or_insert(1)\<close>.\<close>

definition next_count :: "nat option \<Rightarrow> nat" where
  "next_count c = (case c of None \<Rightarrow> 1 | Some n \<Rightarrow> n + 1)"

definition record_provider_failure ::
  "string \<Rightarrow> OrchestratorError \<Rightarrow> nat \<Rightarrow> 'x LlmBackendPool \<Rightarrow> 'x LlmBackendPool" where
  "record_provider_failure key e now p =
    (let failures = next_count (pl_provider_failures p key);
         p1 = p\<lparr>pl_provider_failures := (pl_provider_failures p)(key \<mapsto> failures),
                pl_provider_last_error := (pl_provider_last_error p)(key \<mapsto> error_text e)\<rparr> in
     if pl_provider_circuit_failure_threshold p \<le> failures
     then p1\<lparr>pl_provider_cooldown_until := (pl_provider_cooldown_until p1)(key \<mapsto> now + pl_provider_circuit_cooldown_for p)\<rparr>
     else p1)"

definition reset_provider_failures :: "string \<Rightarrow> 'x LlmBackendPool \<Rightarrow> 'x LlmBackendPool" where
  "reset_provider_failures key p = p\<lparr>pl_provider_failures := (pl_provider_failures p)(key \<mapsto> 0),
     pl_provider_last_error := (pl_provider_last_error p)(key := None),
     pl_provider_cooldown_until := (pl_provider_cooldown_until p)(key := None)\<rparr>"

definition transport_needles :: "string list" where
  "transport_needles = [''timeout'', ''timed out'', ''connection reset'', ''connection refused'', ''dns'',
     ''temporarily unavailable'', ''transport'', ''connect error'', ''network'', ''first token'', ''overloaded'']"

fun should_trip_provider_circuit :: "OrchestratorError \<Rightarrow> bool" where
  "should_trip_provider_circuit (BackendOverloaded _) = True"
| "should_trip_provider_circuit (LLMError msg) =
     list_ex (\<lambda>needle. contains_str needle (to_lower msg)) transport_needles"
| "should_trip_provider_circuit _ = False"

definition increment_failure :: "string \<Rightarrow> 'x LlmBackendPool \<Rightarrow> 'x LlmBackendPool \<times> nat" where
  "increment_failure k p = (let n = next_count (pl_consecutive_failures p k) in
     (p\<lparr>pl_consecutive_failures := (pl_consecutive_failures p)(k \<mapsto> n)\<rparr>, n))"

definition reset_failures :: "string \<Rightarrow> 'x LlmBackendPool \<Rightarrow> 'x LlmBackendPool" where
  "reset_failures k p = p\<lparr>pl_consecutive_failures := (pl_consecutive_failures p)(k \<mapsto> 0)\<rparr>"

section \<open>Fallback\<close>

definition after_success :: "string \<Rightarrow> string \<Rightarrow> 'x LlmBackendPool \<Rightarrow> 'x LlmBackendPool" where
  "after_success k key p = reset_provider_failures key (reset_failures k p)"

definition after_failure ::
  "string \<Rightarrow> string \<Rightarrow> OrchestratorError \<Rightarrow> nat \<Rightarrow> 'x LlmBackendPool \<Rightarrow> 'x LlmBackendPool" where
  "after_failure k key e now p =
    (let (p1, n) = increment_failure k p;
         p2 = (if 3 \<le> n then mark_cooldown k now p1 else p1) in
     if should_trip_provider_circuit e then record_provider_failure key e now p2 else p2)"

text \<open>A backend that is asked now: registered, not cooling down, its provider's circuit closed.\<close>

definition eligible :: "string \<Rightarrow> nat \<Rightarrow> 'x LlmBackendPool \<Rightarrow> 'x Backend option" where
  "eligible k now p = (if is_cooling_down k now p then None
     else case pl_backends p k of
       None \<Rightarrow> None
     | Some b \<Rightarrow> if is_provider_circuit_open (provider_key_for_backend b) now p then None else Some b)"

fun fallback_loop :: "('x Backend \<Rightarrow> nat \<Rightarrow> answer) \<Rightarrow> string list \<Rightarrow> OrchestratorError option \<Rightarrow> nat
    \<Rightarrow> 'x LlmBackendPool \<Rightarrow> 'x LlmBackendPool \<times> nat \<times> (OrchestratorError, LLMResponse) result" where
  "fallback_loop ask [] last_err now p = (p, now, Err (case last_err of
      Some e \<Rightarrow> e | None \<Rightarrow> LLMError ''no available llm backends in pool''))"
| "fallback_loop ask (k # ks) last_err now p = (case eligible k now p of
      None \<Rightarrow> fallback_loop ask ks last_err now p
    | Some b \<Rightarrow> (case ask b now of
        (Inr resp, now') \<Rightarrow> (after_success k (provider_key_for_backend b) p, now', Ok resp)
      | (Inl e, now') \<Rightarrow>
          fallback_loop ask ks (Some e) now' (after_failure k (provider_key_for_backend b) e now' p)))"

definition query_with_fallback where
  "query_with_fallback prompt tools now p =
     fallback_loop (\<lambda>b. bk_query b prompt tools) (pl_fallback_order p) None now p"

definition query_with_fallback_and_policy where
  "query_with_fallback_and_policy prompt tools policy now p =
     fallback_loop (\<lambda>b. bk_query_with_policy b prompt tools policy) (pl_fallback_order p) None now p"

definition query_stream_with_fallback_and_policy where
  "query_stream_with_fallback_and_policy prompt tools policy now p =
     fallback_loop (\<lambda>b. bk_query_stream_with_policy b prompt tools policy) (pl_fallback_order p) None now p"

definition query_with_tool_results_with_fallback_and_policy where
  "query_with_tool_results_with_fallback_and_policy prompt tools executed policy now p =
     fallback_loop (\<lambda>b. bk_query_with_tool_results_and_policy b prompt tools executed policy)
       (pl_fallback_order p) None now p"

definition query_stream_with_tool_results_with_fallback_and_policy where
  "query_stream_with_tool_results_with_fallback_and_policy prompt tools executed policy now p =
     fallback_loop (\<lambda>b. bk_query_stream_with_tool_results_and_policy b prompt tools executed policy)
       (pl_fallback_order p) None now p"

text \<open>The report of the circuits, one entry per provider of the fallback order.\<close>

record ProviderCircuitState =
  pc_provider_family :: string
  pc_upstream_identity :: string
  pc_circuit_open :: bool
  pc_consecutive_failures :: nat
  pc_impacted_backends :: "string list"
  pc_last_error :: "string option"

definition circuit_entry :: "nat \<Rightarrow> 'x LlmBackendPool \<Rightarrow> 'x Backend \<Rightarrow> ProviderCircuitState" where
  "circuit_entry now p b = (let key = provider_key_for_backend b in
     \<lparr>pc_provider_family = ph_provider_family (bk_identity b),
      pc_upstream_identity = ph_upstream_identity (bk_identity b),
      pc_circuit_open = is_provider_circuit_open key now p,
      pc_consecutive_failures = (case pl_provider_failures p key of Some n \<Rightarrow> n | None \<Rightarrow> 0),
      pc_impacted_backends = [], pc_last_error = pl_provider_last_error p key\<rparr>)"

fun add_circuit :: "nat \<Rightarrow> 'x LlmBackendPool \<Rightarrow> (string \<times> ProviderCircuitState) list \<Rightarrow> string
    \<Rightarrow> (string \<times> ProviderCircuitState) list" where
  "add_circuit now p acc k = (case pl_backends p k of
      None \<Rightarrow> acc
    | Some b \<Rightarrow>
       (let key = provider_key_for_backend b;
            acc1 = (if map_of acc key = None then acc @ [(key, circuit_entry now p b)] else acc) in
        map (\<lambda>(i, st). (i, if i = key then st\<lparr>pc_impacted_backends := pc_impacted_backends st @ [k]\<rparr> else st)) acc1))"

definition provider_circuit_state :: "nat \<Rightarrow> 'x LlmBackendPool \<Rightarrow> ProviderCircuitState list" where
  "provider_circuit_state now p = sort_key pc_provider_family (sort_key pc_upstream_identity
     (filter (\<lambda>st. 0 < pc_consecutive_failures st \<or> pc_circuit_open st)
       (map snd (foldl (add_circuit now p) [] (pl_fallback_order p)))))"

section \<open>What an answer changes\<close>

lemmas pool_updates = after_success_def after_failure_def reset_failures_def reset_provider_failures_def
  increment_failure_def mark_cooldown_def record_provider_failure_def Let_def

text \<open>An answer of one backend changes neither the configuration nor what is recorded for
  other backends and other providers.\<close>

lemma answer_frame:
  assumes "q = after_success k key p \<or> q = after_failure k key e now p"
  shows "pl_backends q = pl_backends p" "pl_fallback_order q = pl_fallback_order p"
    "pl_provider_circuit_failure_threshold q = pl_provider_circuit_failure_threshold p"
    "j \<noteq> k \<Longrightarrow> pl_cooldown_until q j = pl_cooldown_until p j"
    "j \<noteq> k \<Longrightarrow> pl_consecutive_failures q j = pl_consecutive_failures p j"
    "x \<noteq> key \<Longrightarrow> pl_provider_cooldown_until q x = pl_provider_cooldown_until p x"
    "x \<noteq> key \<Longrightarrow> pl_provider_failures q x = pl_provider_failures p x"
    "x \<noteq> key \<Longrightarrow> pl_provider_last_error q x = pl_provider_last_error p x"
  using assms by (elim disjE; simp add: pool_updates)+

lemma eligible_Some:
  "eligible k now p = Some b \<longleftrightarrow> \<not> is_cooling_down k now p \<and> pl_backends p k = Some b \<and>
    \<not> is_provider_circuit_open (provider_key_for_backend b) now p"
  by (auto simp: eligible_def split: option.splits)

lemma runs_until_mono: "runs_until u t' \<Longrightarrow> t \<le> t' \<Longrightarrow> runs_until u t"
  by (auto simp: runs_until_def split: option.splits)

text \<open>Time does not run backwards while a backend is asked.\<close>

definition keeps_time :: "('x Backend \<Rightarrow> nat \<Rightarrow> answer) \<Rightarrow> bool" where
  "keeps_time ask = (\<forall>b t. t \<le> snd (ask b t))"

section \<open>The invariant of the breakers\<close>

text \<open>A backend that cools down has failed at least three times in a row, a provider whose
  circuit is open at least as often as the threshold says, and its last error is kept.\<close>

definition breakers_ok :: "nat \<Rightarrow> 'x LlmBackendPool \<Rightarrow> bool" where
  "breakers_ok now p = ((\<forall>k. is_cooling_down k now p \<longrightarrow> (\<exists>n\<ge>3. pl_consecutive_failures p k = Some n)) \<and>
     (\<forall>key. is_provider_circuit_open key now p \<longrightarrow>
        (\<exists>n\<ge>pl_provider_circuit_failure_threshold p. pl_provider_failures p key = Some n) \<and>
        pl_provider_last_error p key \<noteq> None))"

lemma breakers_later: "breakers_ok t p \<Longrightarrow> t \<le> t' \<Longrightarrow> breakers_ok t' p"
  unfolding breakers_ok_def is_cooling_down_def is_provider_circuit_open_def by (meson runs_until_mono)

lemma breakers_success:
  assumes ok: "breakers_ok now p" and idle: "\<not> is_cooling_down k now p"
  shows "breakers_ok now (after_success k key p)"
  unfolding breakers_ok_def
proof (intro conjI allI impI)
  let ?q = "after_success k key p"
  note frame = answer_frame [of ?q k key p, OF disjI1, OF refl]
  fix j assume j: "is_cooling_down j now ?q"
  have "pl_cooldown_until ?q = pl_cooldown_until p" by (simp add: pool_updates)
  with j have "is_cooling_down j now p" by (simp add: is_cooling_down_def)
  moreover from this idle have "j \<noteq> k" by auto
  ultimately show "\<exists>n\<ge>3. pl_consecutive_failures ?q j = Some n"
    using ok frame(5) by (simp add: breakers_ok_def)
next
  let ?q = "after_success k key p"
  note frame = answer_frame [of ?q k key p, OF disjI1, OF refl]
  fix x assume x: "is_provider_circuit_open x now ?q"
  then have "x \<noteq> key" by (auto simp: is_provider_circuit_open_def pool_updates runs_until_def)
  with x ok frame show "\<exists>n\<ge>pl_provider_circuit_failure_threshold ?q. pl_provider_failures ?q x = Some n"
    "pl_provider_last_error ?q x \<noteq> None"
    by (simp_all add: breakers_ok_def is_provider_circuit_open_def)
qed

lemma breakers_failure:
  assumes ok: "breakers_ok now p" and idle: "\<not> is_cooling_down k now p" "\<not> is_provider_circuit_open key now p"
  shows "breakers_ok now (after_failure k key e now p)"
  unfolding breakers_ok_def
proof (intro conjI allI impI)
  let ?q = "after_failure k key e now p"
  note frame = answer_frame [of ?q k key p e now, OF disjI2, OF refl]
  fix j assume j: "is_cooling_down j now ?q"
  show "\<exists>n\<ge>3. pl_consecutive_failures ?q j = Some n"
  proof (cases "j = k")
    case True
    with j idle(1) show ?thesis
      by (auto simp: is_cooling_down_def pool_updates split: if_splits)
  next
    case False
    with j ok frame(4,5) [OF False] show ?thesis by (simp add: breakers_ok_def is_cooling_down_def)
  qed
next
  let ?q = "after_failure k key e now p"
  note frame = answer_frame [of ?q k key p e now, OF disjI2, OF refl]
  fix x assume x: "is_provider_circuit_open x now ?q"
  have "(\<exists>n\<ge>pl_provider_circuit_failure_threshold ?q. pl_provider_failures ?q x = Some n) \<and>
    pl_provider_last_error ?q x \<noteq> None"
  proof (cases "x = key")
    case True
    with x idle(2) show ?thesis
      by (auto simp: is_provider_circuit_open_def pool_updates split: if_splits)
  next
    case False
    with x ok frame(6-8) [OF False] show ?thesis
      by (simp add: breakers_ok_def is_provider_circuit_open_def frame(3))
  qed
  then show "\<exists>n\<ge>pl_provider_circuit_failure_threshold ?q. pl_provider_failures ?q x = Some n"
    "pl_provider_last_error ?q x \<noteq> None" by blast+
qed

lemma breakers_loop:
  assumes "keeps_time ask" "breakers_ok now p" "fallback_loop ask ks le0 now p = (p', now', r)"
  shows "breakers_ok now' p' \<and> now \<le> now'"
  using assms(2,3)
proof (induction ks arbitrary: le0 now p)
  case (Cons k ks)
  show ?case
  proof (cases "eligible k now p")
    case None
    with Cons show ?thesis by simp
  next
    case (Some b)
    obtain a t where ask: "ask b now = (a, t)" by fastforce
    have t: "now \<le> t" using assms(1) ask by (metis keeps_time_def snd_conv)
    let ?key = "provider_key_for_backend b"
    have idle: "\<not> is_cooling_down k t p" "\<not> is_provider_circuit_open ?key t p"
      using Some t by (auto simp: eligible_Some is_cooling_down_def is_provider_circuit_open_def dest: runs_until_mono)
    have ok: "breakers_ok t p" by (rule breakers_later [OF Cons.prems(1) t])
    show ?thesis
    proof (cases a)
      case (Inr resp)
      with Cons.prems(2) Some ask breakers_success [OF ok idle(1)] t show ?thesis by auto
    next
      case (Inl e)
      with Cons.prems(2) Some ask
      have "fallback_loop ask ks (Some e) t (after_failure k ?key e t p) = (p', now', r)" by simp
      from Cons.IH [OF breakers_failure [OF ok idle] this] t show ?thesis by simp
    qed
  qed
qed simp

text \<open>The pools a program builds and queries, with the time.\<close>

inductive pool_state :: "nat \<Rightarrow> 'x LlmBackendPool \<Rightarrow> bool" where
  fresh_pool: "pool_state now (new_pool order cooldown)"
| fresh_breaker: "pool_state now (with_provider_circuit_breaker c threshold (new_pool order cooldown))"
| registered: "pool_state now p \<Longrightarrow> pool_state now (register_backend k b p)"
| queried: "pool_state now p \<Longrightarrow> keeps_time ask \<Longrightarrow>
    fallback_loop ask (pl_fallback_order p) None now p = (p', now', r) \<Longrightarrow> pool_state now' p'"
| waited: "pool_state now p \<Longrightarrow> now \<le> now' \<Longrightarrow> pool_state now' p"

lemma pool_state_ok: "pool_state now p \<Longrightarrow> breakers_ok now p"
proof (induction rule: pool_state.induct)
  case (registered now p k b)
  then show ?case
    by (simp add: breakers_ok_def is_cooling_down_def is_provider_circuit_open_def register_backend_def)
next
  case (queried now p ask p' now' r)
  then show ?case using breakers_loop by blast
next
  case (waited now p now')
  then show ?case using breakers_later by blast
qed (simp_all add: breakers_ok_def is_cooling_down_def is_provider_circuit_open_def new_pool_def
    with_provider_circuit_breaker_def runs_until_def)

section \<open>Properties\<close>

text \<open>The failures recorded for a provider, and the backends of a provider that are asked before a given one.\<close>

definition provider_failures :: "string \<Rightarrow> 'x LlmBackendPool \<Rightarrow> nat" where
  "provider_failures key p = (case pl_provider_failures p key of Some n \<Rightarrow> n | None \<Rightarrow> 0)"

definition serves_provider :: "string \<Rightarrow> 'x LlmBackendPool \<Rightarrow> string \<Rightarrow> bool" where
  "serves_provider key p j \<longleftrightarrow> (case pl_backends p j of Some c \<Rightarrow> provider_key_for_backend c = key | None \<Rightarrow> False)"

definition siblings_before :: "string \<Rightarrow> string \<Rightarrow> string list \<Rightarrow> 'x LlmBackendPool \<Rightarrow> nat" where
  "siblings_before key k ks p = length (filter (serves_provider key p) (takeWhile (\<lambda>j. j \<noteq> k) ks))"

lemma siblings_Cons: "j \<noteq> k \<Longrightarrow> siblings_before key k (j # ks) p =
    (if serves_provider key p j then Suc (siblings_before key k ks p) else siblings_before key k ks p)"
  by (simp add: siblings_before_def)

text \<open>A failure below the threshold adds at most one to the count of its provider and leaves its circuit as it is.\<close>

lemma failure_below_threshold:
  assumes "Suc (provider_failures key p) < pl_provider_circuit_failure_threshold p"
  shows "provider_failures key (after_failure j key e t p) \<le> Suc (provider_failures key p)"
    "pl_provider_cooldown_until (after_failure j key e t p) key = pl_provider_cooldown_until p key"
  using assms by (auto simp: pool_updates provider_failures_def next_count_def split: option.splits)

text \<open>C33: fallback reaches a healthy backend: if a registered backend of the fallback order is not
  cooling down, its provider's circuit is closed, and it answers whenever it is asked, then the pool answers, however
  the others fail and however long they take, unless backends of the same provider come before it and are
  enough to bring the provider's failures to the threshold that opens its circuit.\<close>

theorem healthy_backend_answers:
  assumes "k \<in> set (pl_fallback_order p)" "pl_backends p k = Some b"
    and "\<not> is_cooling_down k now p" "\<not> is_provider_circuit_open (provider_key_for_backend b) now p"
    and "siblings_before (provider_key_for_backend b) k (pl_fallback_order p) p = 0 \<or>
      provider_failures (provider_key_for_backend b) p + siblings_before (provider_key_for_backend b) k (pl_fallback_order p) p
        < pl_provider_circuit_failure_threshold p"
    and "keeps_time ask" "\<And>t. \<exists>resp. fst (ask b t) = Inr resp"
  shows "\<exists>resp. snd (snd (fallback_loop ask (pl_fallback_order p) le0 now p)) = Inr resp"
proof -
  let ?key = "provider_key_for_backend b"
  have "\<exists>resp. snd (snd (fallback_loop ask ks le0 t q)) = Inr resp"
    if "k \<in> set ks" "pl_backends q = pl_backends p"
      "pl_cooldown_until q k = pl_cooldown_until p k"
      "pl_provider_cooldown_until q ?key = pl_provider_cooldown_until p ?key"
      "now \<le> t" "siblings_before ?key k ks q = 0 \<or> provider_failures ?key q + siblings_before ?key k ks q
        < pl_provider_circuit_failure_threshold q" for ks le0 t q
    using that
  proof (induction ks arbitrary: le0 t q)
    case (Cons j ks)
    have idle: "\<not> is_cooling_down k t q" "\<not> is_provider_circuit_open ?key t q"
      using assms(3,4) Cons.prems(3-5)
      by (auto simp: is_cooling_down_def is_provider_circuit_open_def dest: runs_until_mono)
    show ?case
    proof (cases "j = k")
      case True
      then have "eligible j t q = Some b" using idle assms(2) Cons.prems(2) by (simp add: eligible_Some)
      moreover obtain resp where "fst (ask b t) = Inr resp" using assms(7) by blast
      ultimately show ?thesis by (cases "ask b t") simp
    next
      case False
      then have k: "k \<in> set ks" using Cons.prems(1) by simp
      note before = siblings_Cons [OF False, of ?key ks q]
      show ?thesis
      proof (cases "eligible j t q")
        case None
        have "siblings_before ?key k ks q = 0 \<or> provider_failures ?key q + siblings_before ?key k ks q
            < pl_provider_circuit_failure_threshold q"
          using Cons.prems(6) before by (auto split: if_splits)
        with Cons.IH [OF k Cons.prems(2-5)] None show ?thesis by simp
      next
        case (Some c)
        obtain a t' where ask: "ask c t = (a, t')" by fastforce
        have t': "now \<le> t'" using assms(6) ask Cons.prems(5) by (metis keeps_time_def order_trans snd_conv)
        show ?thesis
        proof (cases a)
          case (Inl e)
          let ?ck = "provider_key_for_backend c"
          let ?q = "after_failure j ?ck e t' q"
          note frame = answer_frame [of ?q j ?ck q e t', OF disjI2, OF refl]
          have sib: "serves_provider ?key q j \<longleftrightarrow> ?ck = ?key" using Some by (simp add: serves_provider_def eligible_Some)
          have same: "siblings_before ?key k ks ?q = siblings_before ?key k ks q"
          proof -
            have "serves_provider ?key ?q = serves_provider ?key q" by (rule ext) (simp add: serves_provider_def frame(1))
            then show ?thesis by (simp add: siblings_before_def)
          qed
          have "pl_provider_cooldown_until ?q ?key = pl_provider_cooldown_until p ?key \<and>
            (siblings_before ?key k ks q = 0 \<or> provider_failures ?key ?q + siblings_before ?key k ks q
              < pl_provider_circuit_failure_threshold q)"
          proof (cases "?ck = ?key")
            case True
            then have less: "provider_failures ?key q + Suc (siblings_before ?key k ks q) < pl_provider_circuit_failure_threshold q"
              using Cons.prems(6) before sib by simp
            then have "Suc (provider_failures ?key q) < pl_provider_circuit_failure_threshold q" by simp
            from failure_below_threshold [OF this, of j e t'] less True Cons.prems(4) show ?thesis by simp
          next
            case False
            then have "provider_failures ?key ?q = provider_failures ?key q" "pl_provider_cooldown_until ?q ?key = pl_provider_cooldown_until q ?key"
              using frame(6,7) [of ?key] by (simp_all add: provider_failures_def)
            then show ?thesis using Cons.prems(4,6) before sib False by simp
          qed
          then have "\<exists>resp. snd (snd (fallback_loop ask ks (Some e) t' ?q)) = Inr resp"
            using Cons.IH [OF k, of ?q t' "Some e"] Cons.prems(2,3) t' frame(1,3) frame(4) [of k] False same by auto
          then show ?thesis using Some ask Inl by simp
        qed (use Some ask in simp)
      qed
    qed
  qed simp
  from this [OF assms(1)] assms(5) show ?thesis by simp
qed

definition ex_backend :: "string \<Rightarrow> (nat \<Rightarrow> answer) \<Rightarrow> unit Backend" where
  "ex_backend family f = \<lparr>bk_identity = \<lparr>ph_provider_family = family, ph_upstream_identity = family\<rparr>,
     bk_profile = None, bk_query = (\<lambda>_ _. f), bk_query_with_policy = (\<lambda>_ _ _. f),
     bk_query_stream_with_policy = (\<lambda>_ _ _. f), bk_query_with_tool_results_and_policy = (\<lambda>_ _ _ _. f),
     bk_query_stream_with_tool_results_and_policy = (\<lambda>_ _ _ _. f)\<rparr>"

text \<open>Two backends of one provider: the first is overloaded, the second answers.\<close>

definition ex_pool :: "unit LlmBackendPool" where
  "ex_pool = register_backend ''b'' (ex_backend ''beta'' (\<lambda>t. (Ok (TextAnswer ''hi''), t + 1)))
     (register_backend ''a'' (ex_backend ''beta'' (\<lambda>t. (Err (BackendOverloaded ''busy''), t + 2)))
       (new_pool [''a'', ''b''] 60))"

definition ex_ask :: "unit Backend \<Rightarrow> nat \<Rightarrow> answer" where
  "ex_ask b t = (fst (bk_query b [] [] t), t + 2)"

theorem healthy_backend_answers_witness:
  "siblings_before ''beta::beta'' ''b'' (pl_fallback_order ex_pool) ex_pool = 1 \<and>
   (\<exists>resp. snd (snd (fallback_loop ex_ask (pl_fallback_order ex_pool) None 5 ex_pool)) = Inr resp)"
proof
  show one: "siblings_before ''beta::beta'' ''b'' (pl_fallback_order ex_pool) ex_pool = 1"
    by (simp add: siblings_before_def serves_provider_def ex_pool_def ex_backend_def register_backend_def new_pool_def
        provider_key_for_backend_def)
  show "\<exists>resp. snd (snd (fallback_loop ex_ask (pl_fallback_order ex_pool) None 5 ex_pool)) = Inr resp"
    by (rule healthy_backend_answers [where k = "''b''" and
          b = "ex_backend ''beta'' (\<lambda>t. (Ok (TextAnswer ''hi''), t + 1))"])
      (use one in \<open>auto simp: ex_pool_def register_backend_def new_pool_def is_cooling_down_def is_provider_circuit_open_def
        runs_until_def keeps_time_def ex_ask_def ex_backend_def provider_key_for_backend_def provider_failures_def\<close>)
qed

text \<open>With a threshold of one the failure of the first opens the circuit of the provider, and the second, which
  would answer, is skipped.\<close>

lemma sibling_failure_skips_healthy:
  "snd (snd (fallback_loop ex_ask [''a'', ''b''] None 5 (with_provider_circuit_breaker 60 1 ex_pool)))
    = Inl (BackendOverloaded ''busy'')"
  by code_simp

text \<open>No breaker trips early: in every pool that is built, registered and queried in any way, a
  backend cools down only after three failures in a row, and the circuit of a provider is
  open only after as many failures in a row as its threshold, with the last error on record.\<close>

lemma breakers_need_failures:
  assumes "pool_state now p"
  shows "(is_cooling_down k now p \<longrightarrow> (\<exists>n\<ge>3. pl_consecutive_failures p k = Some n)) \<and>
    (is_provider_circuit_open key now p \<longrightarrow>
      (\<exists>n\<ge>pl_provider_circuit_failure_threshold p. pl_provider_failures p key = Some n) \<and>
      pl_provider_last_error p key \<noteq> None)"
  using pool_state_ok [OF assms] by (simp add: breakers_ok_def)

lemma breakers_need_failures_example:
  "\<not> is_cooling_down ''a'' 9 (register_backend ''a'' (ex_backend ''alpha'' (\<lambda>t. (Ok (TextAnswer ''hi''), t))) (new_pool [''a''] 60))"
proof -
  let ?b = "ex_backend ''alpha'' (\<lambda>t. (Ok (TextAnswer ''hi''), t))"
  have "pool_state 9 (register_backend ''a'' ?b (new_pool [''a''] 60))"
    by (intro registered fresh_pool)
  from breakers_need_failures [OF this, of "''a''" "''a''"] show ?thesis
    by (auto simp: register_backend_def new_pool_def)
qed

end
