(* ===== verification/Policy.thy ===== *)
theory Policy
  imports Prelude
begin

text \<open>The authorisation layer of \<open>aria-policy/src/lib.rs\<close>: the parser of tool-call expressions
  that name the action and its resource, and the evaluator, which puts a textual path gate
  and a confirmation step around the Cedar engine.  Cedar is third-party code: its parsers,
  constructors and its authoriser are the fields of \<open>cedar\<close>.  Text is ASCII.\<close>

section \<open>Tool-call expressions\<close>

datatype PolicyError = PolicyParseError string | EvaluationError string | EntityError string
  | AstParseError string

record ParsedAstAction =
  pa_action :: string
  pa_resource :: string
  pa_arguments :: "string \<rightharpoonup> string"

fun find_char :: "char \<Rightarrow> string \<Rightarrow> nat option" where
  "find_char c [] = None"
| "find_char c (d # s) = (if c = d then Some 0 else map_option Suc (find_char c s))"

fun rfind_char :: "char \<Rightarrow> string \<Rightarrow> nat option" where
  "rfind_char c [] = None"
| "rfind_char c (d # s) = (case rfind_char c s of
      Some i \<Rightarrow> Some (Suc i) | None \<Rightarrow> if c = d then Some 0 else None)"

abbreviation single_quote :: char where "single_quote \<equiv> CHR 0x27"
abbreviation double_quote :: char where "double_quote \<equiv> CHR 0x22"
abbreviation backslash :: char where "backslash \<equiv> CHR 0x5C"

text \<open>The loop over the characters: the rest, the buffer, inside single quotes, inside double
  quotes, after a backslash, and the arguments found so far.\<close>

fun split_loop :: "string \<Rightarrow> string \<Rightarrow> bool \<Rightarrow> bool \<Rightarrow> bool \<Rightarrow> string list \<Rightarrow> string list" where
  "split_loop [] buf sq dq esc out = (if trim_ws buf \<noteq> [] then out @ [trim_ws buf] else out)"
| "split_loop (c # cs) buf sq dq esc out =
    (if esc then split_loop cs (buf @ [c]) sq dq False out
     else if c = backslash then split_loop cs (buf @ [c]) sq dq True out
     else if c = single_quote \<and> \<not> dq then split_loop cs (buf @ [c]) (\<not> sq) dq False out
     else if c = double_quote \<and> \<not> sq then split_loop cs (buf @ [c]) sq (\<not> dq) False out
     else if c = CHR '','' \<and> \<not> sq \<and> \<not> dq then split_loop cs [] sq dq False (out @ [trim_ws buf])
     else split_loop cs (buf @ [c]) sq dq False out)"

definition split_ast_args :: "string \<Rightarrow> string list" where
  "split_ast_args input = split_loop input [] False False False []"

fun parse_pairs :: "string list \<Rightarrow> (string \<rightharpoonup> string) \<Rightarrow> (PolicyError, string \<rightharpoonup> string) result" where
  "parse_pairs [] args = Ok args"
| "parse_pairs (pair # pairs) args =
    (let part = trim_ws pair in
     if part = [] then parse_pairs pairs args
     else (case find_char (CHR ''='') part of
         None \<Rightarrow> Err (AstParseError (''missing '' @ [single_quote] @ ''='' @ [single_quote] @
           '' in argument '' @ [single_quote] @ part @ [single_quote]))
       | Some eq_idx \<Rightarrow>
          (let key = trim_ws (take eq_idx part); raw_val = trim_ws (drop (eq_idx + 1) part) in
           if key = [] \<or> raw_val = []
           then Err (AstParseError (''invalid argument '' @ [single_quote] @ part @ [single_quote]))
           else parse_pairs pairs (args(key \<mapsto> trim_both single_quote (trim_both double_quote raw_val))))))"

definition resource_keys :: "string list" where
  "resource_keys = [''resource'', ''path'', ''node'', ''target'', ''file'', ''topic'', ''sensor'', ''motor'', ''endpoint'']"

fun first_value :: "string list \<Rightarrow> (string \<rightharpoonup> string) \<Rightarrow> string option" where
  "first_value [] args = None"
| "first_value (k # ks) args = (case args k of Some v \<Rightarrow> Some v | None \<Rightarrow> first_value ks args)"

definition resource_of :: "(string \<rightharpoonup> string) \<Rightarrow> string" where
  "resource_of args = (case first_value resource_keys args of Some v \<Rightarrow> v | None \<Rightarrow> ''global'')"

definition parse_ast_action :: "string \<Rightarrow> (PolicyError, ParsedAstAction) result" where
  "parse_ast_action input =
    (let trimmed = trim_ws input in
     case find_char (CHR ''('') trimmed of
       None \<Rightarrow> Err (AstParseError (''missing '' @ [single_quote] @ ''('' @ [single_quote] @ '' in AST call expression''))
     | Some open_idx \<Rightarrow>
        (case rfind_char (CHR '')'') trimmed of
           None \<Rightarrow> Err (AstParseError (''missing '' @ [single_quote] @ '')'' @ [single_quote] @ '' in AST call expression''))
         | Some close_idx \<Rightarrow>
            if close_idx \<le> open_idx then Err (AstParseError ''malformed AST call expression'')
            else let action = trim_ws (take open_idx trimmed) in
            if action = [] then Err (AstParseError ''action name cannot be empty'')
            else let args_raw = take (close_idx - (open_idx + 1)) (drop (open_idx + 1) trimmed) in
              and_then (if trim_ws args_raw = [] then Ok Map.empty
                  else parse_pairs (split_ast_args args_raw) Map.empty) (\<lambda>args.
              Ok \<lparr>pa_action = action, pa_resource = resource_of args, pa_arguments = args\<rparr>)))"

section \<open>The evaluator\<close>

datatype attr = AttrString string | AttrLong int

record EvalContext =
  ec_channel :: string
  ec_blast_radius :: u32
  ec_prompt_origin :: string
  ec_whitelist :: "string list"
  ec_forbid :: "string list"

definition default_context :: EvalContext where
  "default_context = \<lparr>ec_channel = ''unknown'', ec_blast_radius = 1, ec_prompt_origin = ''agent'',
     ec_whitelist = [''/workspace/''], ec_forbid = [''/etc/'', ''/usr/'', ''/var/'']\<rparr>"

datatype Decision = Allow | Deny | AskUser

text \<open>The Cedar library: uids, contexts, entities, requests and policy sets are its own types.\<close>

record ('u, 'c, 'e, 's, 'r, 'p) cedar =
  cd_parse_policies :: "string \<Rightarrow> (string, 'p) result"
  cd_parse_uid :: "string \<Rightarrow> (string, 'u) result"
  cd_context :: "(string \<times> attr) list \<Rightarrow> (string, 'c) result"
  cd_entity :: "'u \<Rightarrow> (string \<times> attr) list \<Rightarrow> (string, 'e) result"
  cd_entities :: "'e list \<Rightarrow> (string, 's) result"
  cd_request :: "'u \<Rightarrow> 'u \<Rightarrow> 'u \<Rightarrow> 'c \<Rightarrow> (string, 'r) result"
  cd_is_authorized :: "'r \<Rightarrow> 'p \<Rightarrow> 's \<Rightarrow> bool"

definition from_policy_str where
  "from_policy_str cd src = map_err PolicyParseError (cd_parse_policies cd src)"

text \<open>The new policy set, or the error and the old set.\<close>

definition reload_from_str where
  "reload_from_str cd src policies = (case cd_parse_policies cd src of
      Inl e \<Rightarrow> (policies, Err (PolicyParseError e))
    | Inr new_set \<Rightarrow> (new_set, Ok ()))"

definition entity_uid where
  "entity_uid cd kind name what = map_err (\<lambda>e. EvaluationError (what @ '' parse: '' @ e))
     (cd_parse_uid cd (kind @ ''::'' @ [double_quote] @ name @ [double_quote]))"

text \<open>The request to Cedar for given context attributes; \<open>path\<close> is the attribute of the
  resource.\<close>

definition cedar_decision where
  "cedar_decision cd policies who action resource path ctx =
    and_then (entity_uid cd ''Agent'' who ''principal'') (\<lambda>pu.
    and_then (entity_uid cd ''Action'' action ''action'') (\<lambda>au.
    and_then (entity_uid cd ''Resource'' resource ''resource'') (\<lambda>ru.
    and_then (map_err (\<lambda>e. EvaluationError (''context: '' @ e)) (cd_context cd ctx)) (\<lambda>c.
    and_then (map_err (\<lambda>e. EntityError (''resource entity: '' @ e))
       (cd_entity cd ru [(''path'', AttrString path)])) (\<lambda>ent.
    and_then (map_err (\<lambda>e. EntityError (''entities: '' @ e)) (cd_entities cd [ent])) (\<lambda>ents.
    and_then (map_err (\<lambda>e. EvaluationError (''request: '' @ e)) (cd_request cd pu au ru c)) (\<lambda>req.
    Ok (if cd_is_authorized cd req policies ents then Allow else Deny))))))))"

definition evaluate where
  "evaluate cd policies who action resource =
     cedar_decision cd policies who action resource resource [(''path'', AttrString resource)]"

text \<open>Sensitive actions that Cedar allows are put to the user.\<close>

fun confirm :: "string \<Rightarrow> string list \<Rightarrow> Decision \<Rightarrow> Decision" where
  "confirm action sensitive base = (if base = Allow \<and> action \<in> set sensitive then AskUser else base)"

definition evaluate_tristate where
  "evaluate_tristate cd policies who action resource sensitive =
     map_ok (confirm action sensitive) (evaluate cd policies who action resource)"

definition is_name_char :: "char \<Rightarrow> bool" where
  "is_name_char c = (is_alphanumeric c \<or> c = CHR ''_'')"

definition path_denied :: "string \<Rightarrow> EvalContext \<Rightarrow> bool" where
  "path_denied path ctx =
    (if path \<noteq> ''global'' \<and> path \<noteq> ''agent'' then
       if list_ex (\<lambda>f. starts_with f path) (ec_forbid ctx) then True
       else \<not> list_ex (\<lambda>w. starts_with w path) (ec_whitelist ctx) \<and>
         (CHR ''/'' \<in> set path \<or> starts_with ''.'' path \<or> \<not> list_all is_name_char path)
     else False)"

definition context_attrs :: "string \<Rightarrow> EvalContext \<Rightarrow> (string \<times> attr) list" where
  "context_attrs path ctx = [(''path'', AttrString path), (''channel'', AttrString (ec_channel ctx)),
     (''blast_radius'', AttrLong (uint (ec_blast_radius ctx))), (''prompt_origin'', AttrString (ec_prompt_origin ctx))]"

definition evaluate_with_context_and_path where
  "evaluate_with_context_and_path cd policies who action resource path ctx =
    (if path_denied path ctx then Ok Deny
     else cedar_decision cd policies who action resource path (context_attrs path ctx))"

definition evaluate_with_context where
  "evaluate_with_context cd policies who action resource ctx =
     evaluate_with_context_and_path cd policies who action resource resource ctx"

definition evaluate_with_context_tristate where
  "evaluate_with_context_tristate cd policies who action resource ctx sensitive =
     map_ok (confirm action sensitive)
       (evaluate_with_context_and_path cd policies who action resource resource ctx)"

definition evaluate_with_context_and_path_tristate where
  "evaluate_with_context_and_path_tristate cd policies who action resource path ctx sensitive =
     map_ok (confirm action sensitive)
       (evaluate_with_context_and_path cd policies who action resource path ctx)"

section \<open>Facts\<close>

lemma find_char_append: "c \<notin> set a \<Longrightarrow> find_char c (a @ c # b) = Some (length a)"
  by (induction a) auto

lemma find_char_None: "find_char c s = None \<longleftrightarrow> c \<notin> set s"
  by (induction s) auto

lemma rfind_char_None: "rfind_char c s = None \<longleftrightarrow> c \<notin> set s"
  by (induction s) (auto split: option.splits)

lemma rfind_char_append: "c \<notin> set b \<Longrightarrow> rfind_char c (a @ c # b) = Some (length a)"
  by (induction a) (auto simp: rfind_char_None split: option.splits)

text \<open>Text without white space at its ends.\<close>

definition trimmed :: "string \<Rightarrow> bool" where
  "trimmed s = (s \<noteq> [] \<and> \<not> is_whitespace (hd s) \<and> \<not> is_whitespace (last s))"

lemma dropWhile_id: "s = [] \<or> \<not> P (hd s) \<Longrightarrow> dropWhile P s = s"
  by (cases s) auto

lemma trim_ws_trimmed: "trimmed s \<Longrightarrow> trim_ws s = s"
  by (simp add: trimmed_def trim_ws_def dropWhile_id hd_rev)

lemma trim_ws_space: "trim_ws (CHR '' '' # s) = trim_ws s"
  by (simp add: trim_ws_def is_whitespace_def char_code_def)

text \<open>A value without quotes, between double quotes.\<close>

lemma trim_start_id: "c \<notin> set v \<Longrightarrow> trim_start c v = v"
  by (cases v) (auto simp: trim_start_def)

lemma trim_both_id: "c \<notin> set v \<Longrightarrow> trim_both c v = v"
  by (simp add: trim_both_def trim_start_id)

lemma trim_both_quoted:
  assumes "c \<notin> set v"
  shows "trim_both c (c # v @ [c]) = v"
proof (cases v)
  case Nil
  then show ?thesis by (simp add: trim_both_def trim_start_def)
next
  case (Cons a w)
  then have "trim_start c (c # v @ [c]) = v @ [c]" using assms by (auto simp: trim_start_def)
  moreover have "trim_start c (c # rev v) = rev v"
    using trim_start_id [of c "rev v"] assms by (simp add: trim_start_def)
  ultimately show ?thesis by (simp add: trim_both_def)
qed

section \<open>Printing and parsing\<close>

definition render_arg :: "string \<times> string \<Rightarrow> string" where
  "render_arg kv = fst kv @ ''='' @ [double_quote] @ snd kv @ [double_quote]"

definition render_call :: "string \<Rightarrow> (string \<times> string) list \<Rightarrow> string" where
  "render_call action args = action @ ''('' @ join_with '', '' (map render_arg args) @ '')''"

text \<open>Names are trimmed and without the characters of the syntax; values are any text without
  quotes and backslashes.\<close>

definition plain_name :: "string \<Rightarrow> bool" where
  "plain_name s = (trimmed s \<and>
     set s \<inter> {CHR ''('', CHR '')'', CHR ''='', CHR '','', single_quote, double_quote, backslash} = {})"

definition plain_value :: "string \<Rightarrow> bool" where
  "plain_value s = (set s \<inter> {single_quote, double_quote, backslash} = {})"

definition plain_args :: "(string \<times> string) list \<Rightarrow> bool" where
  "plain_args args = list_all (\<lambda>(k, v). plain_name k \<and> plain_value v) args"

lemma split_plain:
  "set w \<inter> {CHR '','', single_quote, double_quote, backslash} = {} \<Longrightarrow>
    split_loop (w @ cs) buf False False False out = split_loop cs (buf @ w) False False False out"
  by (induction w arbitrary: buf) auto

lemma split_in_double:
  "set w \<inter> {double_quote, backslash} = {} \<Longrightarrow>
    split_loop (w @ cs) buf False True False out = split_loop cs (buf @ w) False True False out"
  by (induction w arbitrary: buf) auto

lemma split_render_arg:
  assumes "plain_name k" "plain_value v"
  shows "split_loop (render_arg (k, v) @ cs) buf False False False out =
    split_loop cs (buf @ render_arg (k, v)) False False False out"
proof -
  have "set (k @ ''='') \<inter> {CHR '','', single_quote, double_quote, backslash} = {}"
    using assms(1) by (auto simp: plain_name_def)
  from split_plain [OF this, of "double_quote # v @ double_quote # cs" buf out]
  have "split_loop (render_arg (k, v) @ cs) buf False False False out =
      split_loop (v @ double_quote # cs) (buf @ k @ ''='' @ [double_quote]) False True False out"
    by (simp add: render_arg_def)
  also have "\<dots> = split_loop cs (buf @ render_arg (k, v)) False False False out"
    using split_in_double [of v "double_quote # cs"] assms(2) by (simp add: plain_value_def render_arg_def)
  finally show ?thesis .
qed

lemma render_arg_trimmed: "plain_name (fst kv) \<Longrightarrow> trimmed (render_arg kv)"
  by (cases "fst kv") (auto simp: plain_name_def trimmed_def render_arg_def is_whitespace_def char_code_def)

lemma split_rendered:
  assumes "plain_args (kv # args)" "buf = [] \<or> buf = '' ''"
  shows "split_loop (join_with '', '' (map render_arg (kv # args))) buf False False False out =
    out @ map render_arg (kv # args)"
  using assms
proof (induction args arbitrary: kv buf out)
  case Nil
  obtain k v where kv: "kv = (k, v)" by (cases kv)
  have t: "trim_ws (buf @ render_arg kv) = render_arg kv"
    using Nil render_arg_trimmed [of kv] kv by (auto simp: plain_args_def trim_ws_space trim_ws_trimmed)
  have "render_arg kv \<noteq> []" by (simp add: render_arg_def)
  with Nil split_render_arg [of k v "[]" buf out] kv t show ?case by (simp add: plain_args_def)
next
  case (Cons kv' args)
  obtain k v where kv: "kv = (k, v)" by (cases kv)
  have t: "trim_ws (buf @ render_arg kv) = render_arg kv"
    using Cons.prems render_arg_trimmed [of kv] kv by (auto simp: plain_args_def trim_ws_space trim_ws_trimmed)
  let ?rest = "join_with '', '' (map render_arg (kv' # args))"
  have "split_loop (join_with '', '' (map render_arg (kv # kv' # args))) buf False False False out =
      split_loop ('', '' @ ?rest) (buf @ render_arg kv) False False False out"
    using split_render_arg [of k v "'', '' @ ?rest" buf out] Cons.prems kv by (simp add: plain_args_def)
  also have "\<dots> = split_loop ?rest '' '' False False False (out @ [render_arg kv])"
    by (simp add: t)
  also have "\<dots> = out @ map render_arg (kv # kv' # args)"
    using Cons.IH [of kv' "'' ''" "out @ [render_arg kv]"] Cons.prems(1) by (simp add: plain_args_def)
  finally show ?case .
qed

lemma parse_rendered_arg:
  assumes "plain_name k" "plain_value v"
  shows "parse_pairs (render_arg (k, v) # pairs) args = parse_pairs pairs (args(k \<mapsto> v))"
proof -
  let ?p = "render_arg (k, v)"
  have t: "trim_ws ?p = ?p" using render_arg_trimmed [of "(k, v)"] assms(1) by (simp add: trim_ws_trimmed)
  have p: "?p = k @ CHR ''='' # double_quote # v @ [double_quote]" by (simp add: render_arg_def)
  have f: "find_char (CHR ''='') ?p = Some (length k)"
    using assms(1) by (simp add: p find_char_append plain_name_def)
  have k: "trim_ws k = k" "k \<noteq> []" using assms(1) by (auto simp: plain_name_def trimmed_def trim_ws_trimmed)
  have r: "trim_ws (double_quote # v @ [double_quote]) = double_quote # v @ [double_quote]"
    by (intro trim_ws_trimmed) (simp add: trimmed_def is_whitespace_def char_code_def)
  have q: "trim_both single_quote (trim_both double_quote (double_quote # v @ [double_quote])) = v"
    using assms(2) by (simp add: plain_value_def trim_both_quoted trim_both_id)
  have "?p \<noteq> []" by (simp add: p)
  with t f k r q show ?thesis by (simp add: Let_def) (simp add: p)
qed

lemma parse_rendered:
  "plain_args kvs \<Longrightarrow> parse_pairs (map render_arg kvs) args = Ok (foldl (\<lambda>m (k, v). m(k \<mapsto> v)) args kvs)"
proof (induction kvs arbitrary: args)
  case (Cons kv kvs)
  obtain k v where "kv = (k, v)" by (cases kv)
  with Cons parse_rendered_arg [of k v "map render_arg kvs" args] show ?case by (simp add: plain_args_def)
qed simp

lemma foldl_update: "foldl (\<lambda>m (k, v). m(k \<mapsto> v)) m kvs = m ++ map_of (rev kvs)"
  by (induction kvs arbitrary: m) (auto simp: map_add_def fun_eq_iff split: option.splits)

lemma split_ast_args_rendered:
  assumes "plain_args args"
  shows "split_ast_args (join_with '', '' (map render_arg args)) = map render_arg args"
proof (cases args)
  case Nil
  then show ?thesis by (simp add: split_ast_args_def trim_ws_def)
next
  case (Cons kv kvs)
  with split_rendered [of kv kvs "[]" "[]"] assms show ?thesis by (simp add: split_ast_args_def)
qed

lemma rendered_args_blank:
  assumes "plain_args args" "trim_ws (join_with '', '' (map render_arg args)) = []"
  shows "args = []"
proof (rule ccontr)
  assume "args \<noteq> []"
  then obtain kv kvs where args: "args = kv # kvs" by (cases args) auto
  have t: "trimmed (render_arg kv)"
    using assms(1) args by (intro render_arg_trimmed) (auto simp: plain_args_def split: prod.splits)
  have "\<exists>r. join_with '', '' (map render_arg args) = render_arg kv @ r"
    using args by (cases kvs) auto
  then obtain r where r: "join_with '', '' (map render_arg args) = render_arg kv @ r" ..
  have "hd (render_arg kv @ r) \<in> set (render_arg kv @ r)" "\<not> is_whitespace (hd (render_arg kv @ r))"
    using t by (auto simp: trimmed_def)
  moreover have "\<forall>c\<in>set s. is_whitespace c" if "trim_ws s = []" for s
  proof -
    have all: "\<forall>c\<in>set (dropWhile is_whitespace s). is_whitespace c"
      using that by (simp add: trim_ws_def)
    then have "dropWhile is_whitespace s = []" using hd_dropWhile hd_in_set by metis
    then show ?thesis by simp
  qed
  ultimately show False using assms(2) r by metis
qed

lemma parse_rendered_call:
  assumes "plain_name action" "plain_args args"
  shows "parse_ast_action (render_call action args) = Ok \<lparr>pa_action = action,
    pa_resource = resource_of (map_of (rev args)), pa_arguments = map_of (rev args)\<rparr>"
proof -
  let ?mid = "join_with '', '' (map render_arg args)"
  let ?s = "render_call action args"
  have s: "?s = action @ CHR ''('' # ?mid @ [CHR '')'']" by (simp add: render_call_def)
  have s': "?s = (action @ CHR ''('' # ?mid) @ CHR '')'' # []" by (simp add: s)
  have a: "action \<noteq> []" "trim_ws action = action" "CHR ''('' \<notin> set action"
    using assms(1) by (auto simp: plain_name_def trim_ws_trimmed) (simp add: trimmed_def)
  have "trimmed ?s"
    using assms(1) a(1) by (simp add: s trimmed_def plain_name_def is_whitespace_def char_code_def)
  then have t: "trim_ws ?s = ?s" by (rule trim_ws_trimmed)
  have o: "find_char (CHR ''('') ?s = Some (length action)" unfolding s using a(3) by (rule find_char_append)
  have c: "rfind_char (CHR '')'') ?s = Some (Suc (length action + length ?mid))"
    unfolding s' using rfind_char_append [of "CHR '')''" "[]" "action @ CHR ''('' # ?mid"] by simp
  have m: "take (Suc (length action + length ?mid) - (length action + 1)) (drop (length action + 1) ?s) = ?mid"
    by (simp add: s)
  have k: "take (length action) ?s = action" by (simp add: s)
  have args: "(if trim_ws ?mid = [] then Ok Map.empty else parse_pairs (split_ast_args ?mid) Map.empty) =
      Ok (map_of (rev args))"
  proof (cases "trim_ws ?mid = []")
    case True
    with rendered_args_blank [OF assms(2)] show ?thesis by simp
  next
    case False
    with split_ast_args_rendered [OF assms(2)] parse_rendered [OF assms(2), of Map.empty]
    show ?thesis by (simp add: foldl_update)
  qed
  show ?thesis
    unfolding parse_ast_action_def Let_def t o c option.case k m args a(2) using a(1) by simp
qed

section \<open>Properties\<close>

text \<open>A printed tool call parses back: for a plain action name and plain argument names, and
  values that may hold commas, parentheses, equal signs and spaces but no quotes or backslashes,
  the parser returns the action and exactly the arguments (of a repeated name the last), and as
  resource the value of the first resource key present, else "global".\<close>

lemma ast_call_roundtrip:
  assumes "plain_name action" "plain_args args"
  shows "parse_ast_action (render_call action args) = Ok \<lparr>pa_action = action,
    pa_resource = resource_of (map_of (rev args)), pa_arguments = map_of (rev args)\<rparr>"
  using parse_rendered_call [OF assms] .

lemma ast_call_roundtrip_example:
  "map_ok pa_resource (parse_ast_action (render_call ''read_sensor'' [(''node'', ''relay (1), left'')])) =
    Ok ''relay (1), left''"
proof -
  have "plain_name ''read_sensor''" "plain_args [(''node'', ''relay (1), left'')]" by code_simp+
  from ast_call_roundtrip [OF this] show ?thesis
    by (simp add: resource_of_def resource_keys_def)
qed

text \<open>C28: nothing passes the path gate that it should stop: if the context-aware evaluation does
  not deny, then Cedar allowed the request, and the path is "global", "agent", or it has none
  of the forbidden prefixes and is either under a whitelisted prefix or a bare name; and a
  sensitive action is never allowed without asking.\<close>

theorem path_gate_safe:
  assumes "evaluate_with_context_and_path_tristate cd policies who action resource path ctx sensitive = Ok d"
    and "d \<noteq> Deny"
  shows "cedar_decision cd policies who action resource path (context_attrs path ctx) = Ok Allow \<and>
    (path = ''global'' \<or> path = ''agent'' \<or> (\<forall>f\<in>set (ec_forbid ctx). \<not> starts_with f path) \<and>
      ((\<exists>w\<in>set (ec_whitelist ctx). starts_with w path) \<or> list_all is_name_char path)) \<and>
    d = (if action \<in> set sensitive then AskUser else Allow)"
proof -
  let ?base = "evaluate_with_context_and_path cd policies who action resource path ctx"
  from assms(1) obtain b where b: "?base = Ok b" "d = confirm action sensitive b"
    by (auto simp: evaluate_with_context_and_path_tristate_def result_simps)
  then have "b \<noteq> Deny" using assms(2) by auto
  with b(1) have open': "\<not> path_denied path ctx" by (auto simp: evaluate_with_context_and_path_def)
  with b(1) have c: "cedar_decision cd policies who action resource path (context_attrs path ctx) = Ok b"
    by (simp add: evaluate_with_context_and_path_def)
  then have "b = Allow" using \<open>b \<noteq> Deny\<close> by (auto simp: cedar_decision_def result_simps split: if_splits)
  moreover have "path = ''global'' \<or> path = ''agent'' \<or> (\<forall>f\<in>set (ec_forbid ctx). \<not> starts_with f path) \<and>
      ((\<exists>w\<in>set (ec_whitelist ctx). starts_with w path) \<or> list_all is_name_char path)"
    using open' unfolding path_denied_def list_ex_iff by (auto split: if_splits)
  ultimately show ?thesis using b(2) c by simp
qed

text \<open>A Cedar that allows every request.\<close>

definition ex_cedar :: "(unit, unit, unit, unit, unit, unit) cedar" where
  "ex_cedar = \<lparr>cd_parse_policies = (\<lambda>_. Ok ()), cd_parse_uid = (\<lambda>_. Ok ()), cd_context = (\<lambda>_. Ok ()),
     cd_entity = (\<lambda>_ _. Ok ()), cd_entities = (\<lambda>_. Ok ()), cd_request = (\<lambda>_ _ _ _. Ok ()),
     cd_is_authorized = (\<lambda>_ _ _. True)\<rparr>"

theorem path_gate_safe_witness:
  "cedar_decision ex_cedar () ''dev'' ''run_shell'' ''/workspace/x'' ''/workspace/x''
    (context_attrs ''/workspace/x'' default_context) = Ok Allow"
proof -
  have "path_denied ''/workspace/x'' default_context = False" by code_simp
  then have "evaluate_with_context_and_path_tristate ex_cedar () ''dev'' ''run_shell'' ''/workspace/x'' ''/workspace/x''
      default_context [''run_shell''] = Ok AskUser"
    by (simp add: evaluate_with_context_and_path_tristate_def evaluate_with_context_and_path_def
        cedar_decision_def entity_uid_def ex_cedar_def)
  from path_gate_safe [OF this] show ?thesis by simp
qed

text \<open>The path gate is textual: whatever follows the whitelisted prefix, ".." components
  included, is passed to Cedar with the text as it is, so "/workspace/../etc/shadow" is not
  stopped by the forbidden prefix "/etc/".\<close>

lemma path_gate_textual:
  "evaluate_with_context_and_path cd policies who action resource (''/workspace/'' @ rest) default_context =
    cedar_decision cd policies who action resource (''/workspace/'' @ rest)
      (context_attrs (''/workspace/'' @ rest) default_context) \<and>
   path_denied ''/etc/shadow'' default_context \<and> \<not> path_denied ''/workspace/../etc/shadow'' default_context"
proof -
  have "\<not> path_denied (''/workspace/'' @ rest) default_context"
    by (simp add: path_denied_def default_context_def)
  moreover have "path_denied ''/etc/shadow'' default_context" "\<not> path_denied ''/workspace/../etc/shadow'' default_context"
    by code_simp+
  ultimately show ?thesis by (simp only: evaluate_with_context_and_path_def if_False simp_thms)
qed

end
