(* ===== verification/Vault.thy ===== *)
theory Vault
  imports Prelude
begin

text \<open>The credential vault of \<open>aria-vault/src/lib.rs\<close>: secrets stored encrypted per agent and
  key name with the domains they may be sent to, and their release for a target domain.
  AES-GCM is third-party code: \<open>seal\<close> and \<open>unseal\<close> are its encryption and decryption under the
  vault's master key, \<open>nonce\<close> the nonce drawn.  The vault file is the value it parses to;
  errors of the file system and of serde are outside the model.  UTF-8 text is a string and its
  bytes, \<open>utf8\<close> decodes.\<close>

datatype VaultError = VaultError string

type_synonym bytes = "u8 list"

record EncryptedSecret =
  es_nonce :: bytes
  es_ciphertext :: bytes
  es_allowed_domains :: "string list"

type_synonym VaultFile = "string \<rightharpoonup> (string \<rightharpoonup> EncryptedSecret)"

record aead =
  seal :: "bytes \<Rightarrow> string \<Rightarrow> (string, bytes) result"
  unseal :: "bytes \<Rightarrow> bytes \<Rightarrow> (string, bytes) result"
  utf8 :: "bytes \<Rightarrow> (string, string) result"

definition empty_vault :: VaultFile where
  "empty_vault = Map.empty"

definition agent_secrets :: "string \<Rightarrow> VaultFile \<Rightarrow> (string \<rightharpoonup> EncryptedSecret)" where
  "agent_secrets agent v = (case v agent of Some m \<Rightarrow> m | None \<Rightarrow> Map.empty)"

definition store_secret ::
  "aead \<Rightarrow> bytes \<Rightarrow> string \<Rightarrow> string \<Rightarrow> string \<Rightarrow> string list \<Rightarrow> VaultFile \<Rightarrow> (VaultError, VaultFile) result" where
  "store_secret c nonce agent k plaintext domains v =
    map_ok (\<lambda>ciphertext. v(agent \<mapsto> (agent_secrets agent v)(k \<mapsto>
        \<lparr>es_nonce = nonce, es_ciphertext = ciphertext, es_allowed_domains = domains\<rparr>)))
      (map_err (\<lambda>e. VaultError (''Encryption failed: '' @ e)) (seal c nonce plaintext))"

definition decrypt :: "aead \<Rightarrow> EncryptedSecret \<Rightarrow> (VaultError, string) result" where
  "decrypt c s = and_then (map_err (\<lambda>e. VaultError (''Decryption failed: '' @ e)) (unseal c (es_nonce s) (es_ciphertext s)))
     (\<lambda>bs. map_err (\<lambda>e. VaultError (''UTF-8 decode fail: '' @ e)) (utf8 c bs))"

definition domain_allowed :: "string \<Rightarrow> EncryptedSecret \<Rightarrow> bool" where
  "domain_allowed target s = list_ex (\<lambda>d. ends_with d target) (es_allowed_domains s)"

definition quote :: "string \<Rightarrow> string" where
  "quote x = [CHR 0x27] @ x @ [CHR 0x27]"

definition retrieve_for_egress ::
  "aead \<Rightarrow> string \<Rightarrow> string \<Rightarrow> string \<Rightarrow> VaultFile \<Rightarrow> (VaultError, string) result" where
  "retrieve_for_egress c agent k target v =
    and_then (ok_or (VaultError ''Agent not found in vault'') (v agent)) (\<lambda>m.
    and_then (ok_or (VaultError ''Key not found in vault'') (m k)) (\<lambda>s.
    if \<not> domain_allowed target s
    then Err (VaultError (''Domain '' @ quote target @ '' not authorized for key '' @ quote k))
    else decrypt c s))"

definition retrieve_global_secret :: "aead \<Rightarrow> string \<Rightarrow> string \<Rightarrow> VaultFile \<Rightarrow> (VaultError, string) result" where
  "retrieve_global_secret c k target v = retrieve_for_egress c ''system'' k target v"

text \<open>\<open>decrypt_all\<close>, for the order \<open>secrets\<close> in which the two maps yield their values.\<close>

fun ok_values :: "('e, 'a) result list \<Rightarrow> 'a list" where
  "ok_values [] = []"
| "ok_values (Inl _ # rs) = ok_values rs"
| "ok_values (Inr a # rs) = a # ok_values rs"

definition decrypt_all :: "aead \<Rightarrow> EncryptedSecret list \<Rightarrow> string list" where
  "decrypt_all c secrets = ok_values (map (decrypt c) secrets)"

section \<open>Sequences of stores\<close>

text \<open>A store names nonce, agent, key name, plaintext and domains.\<close>

type_synonym store_op = "bytes \<times> string \<times> string \<times> string \<times> string list"

fun run_stores :: "aead \<Rightarrow> store_op list \<Rightarrow> VaultFile \<Rightarrow> VaultFile" where
  "run_stores c [] v = v"
| "run_stores c ((n, a, k, p, ds) # ops) v =
     run_stores c ops (case store_secret c n a k p ds v of Inl _ \<Rightarrow> v | Inr v' \<Rightarrow> v')"

definition lookup :: "string \<Rightarrow> string \<Rightarrow> VaultFile \<Rightarrow> EncryptedSecret option" where
  "lookup a k v = agent_secrets a v k"

lemma store_Ok:
  "store_secret c n a k p ds v = Ok v' \<Longrightarrow> \<exists>ct. seal c n p = Ok ct \<and>
    (\<forall>a' k'. lookup a' k' v' = (if a' = a \<and> k' = k
       then Some \<lparr>es_nonce = n, es_ciphertext = ct, es_allowed_domains = ds\<rparr> else lookup a' k' v))"
  by (auto simp: store_secret_def result_simps lookup_def agent_secrets_def)

lemma run_stores_other:
  "\<forall>(n, a', k', p, ds)\<in>set ops. a' \<noteq> a \<or> k' \<noteq> k \<Longrightarrow> lookup a k (run_stores c ops v) = lookup a k v"
proof (induction c ops v rule: run_stores.induct)
  case (2 c n a' k' p ds ops v)
  show ?case
  proof (cases "store_secret c n a' k' p ds v")
    case (Inr v')
    with 2 store_Ok [OF Inr] show ?thesis by auto
  qed (use 2 in auto)
qed simp

lemma retrieve_lookup:
  "lookup a k v = Some s \<Longrightarrow> retrieve_for_egress c a k target v =
    (if domain_allowed target s then decrypt c s
     else Err (VaultError (''Domain '' @ quote target @ '' not authorized for key '' @ quote k)))"
  by (auto simp: lookup_def agent_secrets_def retrieve_for_egress_def split: option.splits)

text \<open>What AES-GCM and the UTF-8 decoder promise: a sealed text opens to the same text.\<close>

definition opens :: "aead \<Rightarrow> bool" where
  "opens c = (\<forall>n p ct. seal c n p = Ok ct \<longrightarrow> (\<exists>bs. unseal c n ct = Ok bs \<and> utf8 c bs = Ok p))"

section \<open>Properties\<close>

text \<open>C29: a stored secret comes back unchanged for every target that ends in one of its allowed
  domains, and is refused for every other target, also after any stores of other secrets.\<close>

theorem stored_secret_released:
  assumes "opens c" "store_secret c n a k p ds v = Ok v'"
    and "\<forall>(n', a', k', p', ds')\<in>set ops. a' \<noteq> a \<or> k' \<noteq> k"
  shows "retrieve_for_egress c a k target (run_stores c ops v') =
    (if \<exists>d\<in>set ds. ends_with d target then Ok p
     else Err (VaultError (''Domain '' @ quote target @ '' not authorized for key '' @ quote k)))"
proof -
  from store_Ok [OF assms(2)] obtain ct where ct: "seal c n p = Ok ct"
    "lookup a k v' = Some \<lparr>es_nonce = n, es_ciphertext = ct, es_allowed_domains = ds\<rparr>" by auto
  have "lookup a k (run_stores c ops v') = Some \<lparr>es_nonce = n, es_ciphertext = ct, es_allowed_domains = ds\<rparr>"
    using run_stores_other [OF assms(3)] ct(2) by simp
  moreover have "decrypt c \<lparr>es_nonce = n, es_ciphertext = ct, es_allowed_domains = ds\<rparr> = Ok p"
    using assms(1) ct(1) by (fastforce simp: opens_def decrypt_def)
  ultimately show ?thesis by (simp add: retrieve_lookup domain_allowed_def list_ex_iff)
qed

definition ex_aead :: aead where
  "ex_aead = \<lparr>seal = (\<lambda>n p. Ok (map (\<lambda>ch. of_nat (char_code ch)) p)),
     unseal = (\<lambda>n ct. Ok ct), utf8 = (\<lambda>bs. Ok (map (\<lambda>b. char_of (unat b)) bs))\<rparr>"

lemma ex_aead_opens: "opens ex_aead"
proof -
  have "char_of (unat (of_nat (char_code ch) :: u8)) = ch" for ch
  proof -
    have "char_code ch < 256" by (simp add: char_code_def)
    then have "unat (of_nat (char_code ch) :: u8) = char_code ch" by (simp add: unat_of_nat)
    then show ?thesis by (simp add: char_code_def)
  qed
  then show ?thesis by (simp add: opens_def ex_aead_def map_idI)
qed

theorem stored_secret_released_witness:
  "retrieve_for_egress ex_aead ''bot'' ''api'' ''api.example.com''
     (run_stores ex_aead [([], ''bot'', ''other'', ''zz'', [])]
       (projr (store_secret ex_aead [1] ''bot'' ''api'' ''s3cret'' [''example.com''] empty_vault))) = Ok ''s3cret'' \<and>
   retrieve_for_egress ex_aead ''bot'' ''api'' ''evil.org''
     (run_stores ex_aead [([], ''bot'', ''other'', ''zz'', [])]
       (projr (store_secret ex_aead [1] ''bot'' ''api'' ''s3cret'' [''example.com''] empty_vault))) =
     Err (VaultError (''Domain '' @ quote ''evil.org'' @ '' not authorized for key '' @ quote ''api''))"
proof -
  have s: "store_secret ex_aead [1] ''bot'' ''api'' ''s3cret'' [''example.com''] empty_vault =
      Ok (projr (store_secret ex_aead [1] ''bot'' ''api'' ''s3cret'' [''example.com''] empty_vault))"
    by (simp add: store_secret_def ex_aead_def)
  have o: "\<forall>(n', a', k', p', ds')\<in>set [([] :: bytes, ''bot'', ''other'', ''zz'', [] :: string list)].
      a' \<noteq> ''bot'' \<or> k' \<noteq> ''api''" by simp
  have e: "ends_with ''example.com'' ''api.example.com''" "\<not> ends_with ''example.com'' ''evil.org''" by code_simp+
  show ?thesis unfolding stored_secret_released [OF ex_aead_opens s o] using e by simp
qed

text \<open>The domain check is a check of the last characters: a secret that is allowed for a
  domain is also released to every host whose name merely ends in the same characters, such as
  "evilexample.com" for "example.com".\<close>

lemma lookalike_domain_gets_secret:
  assumes "opens c" "store_secret c n a k p ds v = Ok v'" "d \<in> set ds"
  shows "retrieve_for_egress c a k (prefix @ d) v' = Ok p"
proof -
  from store_Ok [OF assms(2)] obtain ct where ct: "seal c n p = Ok ct"
    "lookup a k v' = Some \<lparr>es_nonce = n, es_ciphertext = ct, es_allowed_domains = ds\<rparr>" by auto
  moreover have "decrypt c \<lparr>es_nonce = n, es_ciphertext = ct, es_allowed_domains = ds\<rparr> = Ok p"
    using assms(1) ct(1) by (fastforce simp: opens_def decrypt_def)
  ultimately show ?thesis using assms(3)
    by (auto simp: retrieve_lookup domain_allowed_def list_ex_iff ends_with_iff)
qed

lemma lookalike_domain_gets_secret_example:
  "retrieve_for_egress ex_aead ''bot'' ''api'' ''evilexample.com''
     (projr (store_secret ex_aead [1] ''bot'' ''api'' ''s3cret'' [''example.com''] empty_vault)) = Ok ''s3cret''"
proof -
  have s: "store_secret ex_aead [1] ''bot'' ''api'' ''s3cret'' [''example.com''] empty_vault =
      Ok (projr (store_secret ex_aead [1] ''bot'' ''api'' ''s3cret'' [''example.com''] empty_vault))"
    by (simp add: store_secret_def ex_aead_def)
  show ?thesis using lookalike_domain_gets_secret [OF ex_aead_opens s, of "''example.com''" "''evil''"] by simp
qed

end
