(* ===== verification/TextOps.thy ===== *)
theory TextOps
  imports Prelude
begin

text \<open>The operations of \<open>str\<close> the text-handling components share: \<open>replace\<close>, \<open>lines\<close>,
  \<open>find\<close> and \<open>rfind\<close>, \<open>split_whitespace\<close>, on ASCII text, with the laws of lines (what a
  text built from clean lines contains).\<close>

named_theorems text_simps

section \<open>Definitions\<close>

abbreviation newline :: char where "newline \<equiv> CHR 10"

text \<open>\<open>str::replace\<close>: from left to right, the occurrences do not overlap; the patterns of the code are not
  empty.\<close>

fun replace_all :: "string \<Rightarrow> string \<Rightarrow> string \<Rightarrow> string" where
  "replace_all pat rep [] = []"
| "replace_all pat rep (c # s) = (if starts_with pat (c # s)
     then rep @ replace_all pat rep (drop (length pat - 1) s) else c # replace_all pat rep s)"

text \<open>\<open>str::lines\<close>: a final newline ends the last line, a carriage return before a newline is
  not part of the line.\<close>

definition strip_cr :: "string \<Rightarrow> string" where
  "strip_cr l = (if l \<noteq> [] \<and> last l = CHR 13 then butlast l else l)"

definition text_lines :: "string \<Rightarrow> string list" where
  "text_lines s = (let ls = split_on (\<lambda>c. c = newline) s in
     map strip_cr (butlast ls) @ (if last ls = [] then [] else [last ls]))"

text \<open>\<open>find\<close> and \<open>rfind\<close>: the index of the first and of the last occurrence.\<close>

fun find_str :: "string \<Rightarrow> string \<Rightarrow> nat option" where
  "find_str pat [] = (if pat = [] then Some 0 else None)"
| "find_str pat (c # s) = (if starts_with pat (c # s) then Some 0 else map_option Suc (find_str pat s))"

fun rfind_str :: "string \<Rightarrow> string \<Rightarrow> nat option" where
  "rfind_str pat [] = (if pat = [] then Some 0 else None)"
| "rfind_str pat (c # s) = (case rfind_str pat s of
      Some i \<Rightarrow> Some (Suc i)
    | None \<Rightarrow> if starts_with pat (c # s) then Some 0 else None)"

definition split_whitespace :: "string \<Rightarrow> string list" where
  "split_whitespace s = filter (\<lambda>w. w \<noteq> []) (split_on is_whitespace s)"

definition unlines :: "string list \<Rightarrow> string" where
  "unlines = join_with [newline]"

text \<open>\<open>trim_start\<close>, \<open>trim_end\<close> and \<open>trim_matches\<close> with a predicate.\<close>

definition trim_left :: "(char \<Rightarrow> bool) \<Rightarrow> string \<Rightarrow> string" where
  "trim_left p s = dropWhile p s"

definition trim_right :: "(char \<Rightarrow> bool) \<Rightarrow> string \<Rightarrow> string" where
  "trim_right p s = rev (dropWhile p (rev s))"

definition trim_pred :: "(char \<Rightarrow> bool) \<Rightarrow> string \<Rightarrow> string" where
  "trim_pred p s = trim_right p (trim_left p s)"

text \<open>\<open>split_once\<close>, \<open>rsplit_once\<close>, and \<open>parse\<close> of an unsigned integer of at most \<open>bound\<close>: an optional
  plus sign and at least one digit.\<close>

definition split_once :: "string \<Rightarrow> string \<Rightarrow> (string \<times> string) option" where
  "split_once sep s = map_option (\<lambda>i. (take i s, drop (i + length sep) s)) (find_str sep s)"

definition rsplit_once :: "string \<Rightarrow> string \<Rightarrow> (string \<times> string) option" where
  "rsplit_once sep s = map_option (\<lambda>i. (take i s, drop (i + length sep) s)) (rfind_str sep s)"

definition digits_value :: "string \<Rightarrow> nat" where
  "digits_value s = foldl (\<lambda>n c. 10 * n + (char_code c - 48)) 0 s"

definition parse_unsigned :: "nat \<Rightarrow> string \<Rightarrow> nat option" where
  "parse_unsigned bound s = (let ds = (case strip_prefix ''+'' s of Some r \<Rightarrow> r | None \<Rightarrow> s) in
     if ds = [] \<or> \<not> list_all is_digit ds \<or> bound < digits_value ds then None else Some (digits_value ds))"

definition show02 :: "nat \<Rightarrow> string" where
  "show02 n = (if n < 10 then ''0'' @ show_nat n else show_nat n)"

section \<open>Laws\<close>

lemma trim_ws_pred: "trim_ws s = trim_pred is_whitespace s"
  by (simp add: trim_ws_def trim_pred_def trim_left_def trim_right_def)

lemma set_trim_right: "set (trim_right p s) \<subseteq> set s"
  unfolding trim_right_def set_rev by (metis set_dropWhileD set_rev subsetI)

lemma set_trim_pred: "set (trim_pred p s) \<subseteq> set s"
  unfolding trim_pred_def trim_left_def
  by (meson order_trans set_dropWhileD set_trim_right subsetI)

lemma split_on_nonempty [simp]: "split_on p s \<noteq> []"
  by (induction s) (auto split: list.splits)

lemma split_on_no_sep: "l \<in> set (split_on p s) \<Longrightarrow> \<forall>c\<in>set l. \<not> p c"
proof (induction s arbitrary: l)
  case (Cons c s)
  obtain w ws where w: "split_on p s = w # ws" by (metis split_on_nonempty list.exhaust)
  with Cons.IH have "\<forall>l\<in>set (w # ws). \<forall>c\<in>set l. \<not> p c" by simp
  with Cons.prems w show ?case by (cases "p c") auto
qed simp

lemma split_on_id: "(\<forall>c\<in>set s. \<not> p c) \<Longrightarrow> split_on p s = [s]"
  by (induction s) auto

lemma split_on_append:
  "split_on p (a @ b) = butlast (split_on p a) @ ((last (split_on p a) @ hd (split_on p b)) # tl (split_on p b))"
proof (induction a)
  case (Cons c a)
  obtain w ws where w: "split_on p a = w # ws" by (metis split_on_nonempty list.exhaust)
  with Cons show ?case by (cases "p c"; cases ws) auto
qed simp

lemma split_on_sep: "p c \<Longrightarrow> split_on p (a @ c # b) = split_on p a @ split_on p b"
  by (subst append_butlast_last_id [OF split_on_nonempty [of p a], symmetric]) (simp add: split_on_append)

lemma split_on_join:
  assumes "p d"
  shows "ls \<noteq> [] \<Longrightarrow> \<forall>l\<in>set ls. \<forall>c\<in>set l. \<not> p c \<Longrightarrow> split_on p (join_with [d] ls) = ls"
proof (induction "[d]" ls rule: join_with.induct)
  case (3 s t ss)
  then have "split_on p (s @ d # join_with [d] (t # ss)) = split_on p s @ (t # ss)"
    using assms by (simp add: split_on_sep)
  with 3 show ?case by (simp add: split_on_id)
qed (auto simp: split_on_id)

text \<open>A piece of a prefix of a text is a prefix of a piece of the text.\<close>

lemma split_on_take: "l \<in> set (split_on p (take n s)) \<Longrightarrow> \<exists>r. l @ r \<in> set (split_on p s)"
proof -
  assume l: "l \<in> set (split_on p (take n s))"
  have s: "split_on p s = butlast (split_on p (take n s)) @ (last (split_on p (take n s)) @ hd (split_on p (drop n s)))
      # tl (split_on p (drop n s))"
    using split_on_append [of p "take n s" "drop n s"] by simp
  have "x \<in> set (butlast xs) \<or> x = last xs" if "x \<in> set xs" for x :: string and xs
    using that by (induction xs) auto
  with l consider "l \<in> set (butlast (split_on p (take n s)))" | "l = last (split_on p (take n s))" by blast
  then show ?thesis
  proof cases
    case 1
    then have "l @ [] \<in> set (split_on p s)" by (subst s) simp
    then show ?thesis ..
  next
    case 2
    then have "l @ hd (split_on p (drop n s)) \<in> set (split_on p s)" by (subst s) simp
    then show ?thesis ..
  qed
qed

lemma contains_str_append: "contains_str n a \<Longrightarrow> contains_str n (a @ b)"
  by (metis append.assoc contains_str_iff)

lemma to_lower_append: "to_lower (a @ b) = to_lower a @ to_lower b"
  by (simp add: to_lower_def)

lemma set_text_lines: "l \<in> set (text_lines s) \<Longrightarrow> newline \<notin> set l"
proof -
  have *: "set (strip_cr x) \<subseteq> set x" for x by (auto simp: strip_cr_def dest: in_set_butlastD)
  have **: "newline \<notin> set x" if "x \<in> set (split_on (\<lambda>c. c = newline) s)" for x
    using split_on_no_sep [OF that] by blast
  assume "l \<in> set (text_lines s)"
  then consider x where "x \<in> set (butlast (split_on (\<lambda>c. c = newline) s))" "l = strip_cr x"
    | "l = last (split_on (\<lambda>c. c = newline) s)"
    by (auto simp: text_lines_def Let_def split: if_splits)
  then show ?thesis
  proof cases
    case 1
    with * ** in_set_butlastD show ?thesis by fast
  next
    case 2
    with ** last_in_set split_on_nonempty show ?thesis by metis
  qed
qed

lemma starts_with_length: "starts_with p s \<Longrightarrow> length p \<le> length s"
  by (auto simp: starts_with_iff)

lemma find_str_Some: "find_str pat s = Some i \<Longrightarrow> i + length pat \<le> length s \<and> starts_with pat (drop i s)"
  by (induction s arbitrary: i) (auto split: if_splits dest: starts_with_length)

lemma rfind_str_Some: "rfind_str pat s = Some i \<Longrightarrow> i + length pat \<le> length s \<and> starts_with pat (drop i s)"
  by (induction s arbitrary: i) (auto split: if_splits option.splits dest: starts_with_length)

lemma rfind_str_None: "rfind_str pat s = None \<longleftrightarrow> \<not> contains_str pat s"
  by (induction s) (auto split: option.splits)

lemma find_str_None: "find_str pat s = None \<longleftrightarrow> \<not> contains_str pat s"
  by (induction s) auto

text \<open>A phrase has no occurrence that begins in letters it does not use.\<close>

lemma contains_str_skip:
  "n \<noteq> [] \<Longrightarrow> set a \<inter> set n = {} \<Longrightarrow> contains_str n (a @ b) = contains_str n b"
proof (induction a)
  case (Cons c a)
  then have "\<not> starts_with n (c # a @ b)" by (cases n) auto
  with Cons show ?case by simp
qed simp

lemma show_nat_digits: "c \<in> set (show_nat n) \<Longrightarrow> is_digit c"
proof (induction n rule: show_nat.induct)
  case (1 n)
  have d: "is_digit (digit_char d)" if "d < 10" for d
    using that by (simp add: is_digit_def char_code_def digit_char_def)
  show ?case
  proof (cases "n < 10")
    case True
    with 1(2) d show ?thesis by (auto simp: show_nat.simps [of n])
  next
    case False
    with 1(2) have "c \<in> set (show_nat (n div 10)) \<or> c = digit_char (n mod 10)" by (auto simp: show_nat.simps [of n])
    with 1(1) [OF False] d show ?thesis by auto
  qed
qed

lemma to_lower_digits: "\<forall>c\<in>set s. is_digit c \<Longrightarrow> to_lower s = s"
  by (induction s) (auto simp: to_lower_def lower_char_def is_upper_def is_digit_def)

text \<open>Trimming around a middle part that begins and ends with other characters.\<close>

lemma trim_left_mid: "m \<noteq> [] \<Longrightarrow> \<not> p (hd m) \<Longrightarrow> trim_left p (a @ m @ b) = trim_left p a @ m @ b"
  unfolding trim_left_def by (induction a) (auto simp: neq_Nil_conv)

lemma trim_right_mid: "m \<noteq> [] \<Longrightarrow> \<not> p (last m) \<Longrightarrow> trim_right p (a @ m @ b) = a @ m @ trim_right p b"
  using trim_left_mid [of "rev m" p "rev b" "rev a"]
  by (simp add: trim_right_def trim_left_def hd_rev)

lemma trim_pred_mid:
  "m \<noteq> [] \<Longrightarrow> \<not> p (hd m) \<Longrightarrow> \<not> p (last m) \<Longrightarrow> trim_pred p (a @ m @ b) = trim_left p a @ m @ trim_right p b"
  by (simp add: trim_pred_def trim_left_mid trim_right_mid)

lemma find_char_first: "c \<notin> set a \<Longrightarrow> find_str [c] (a @ c # b) = Some (length a)"
  by (induction a) auto

lemma rfind_char_last: "c \<notin> set b \<Longrightarrow> rfind_str [c] (a @ c # b) = Some (length a)"
proof (induction a)
  case Nil
  then have "rfind_str [c] b = None" by (auto simp: rfind_str_None contains_str_iff)
  then show ?case by simp
qed simp

lemma set_trim_left: "set (trim_left p s) \<subseteq> set s"
  unfolding trim_left_def by (auto dest: set_dropWhileD)

lemma digits_value_append: "digits_value (s @ [c]) = 10 * digits_value s + (char_code c - 48)"
  by (simp add: digits_value_def)

lemma digits_value_show: "digits_value (show_nat n) = n"
proof (induction n rule: show_nat.induct)
  case (1 n)
  have d: "char_code (digit_char d) - 48 = d" if "d < 10" for d
    using that by (simp add: char_code_def digit_char_def)
  show ?case
  proof (cases "n < 10")
    case True
    then show ?thesis using d [OF True] by (simp add: show_nat.simps [of n] digits_value_def)
  next
    case False
    then have "show_nat n = show_nat (n div 10) @ [digit_char (n mod 10)]" by (simp add: show_nat.simps [of n])
    with 1 [OF False] d [of "n mod 10"] show ?thesis by (simp add: digits_value_append)
  qed
qed

lemma parse_show: "n \<le> bound \<Longrightarrow> parse_unsigned bound (show_nat n) = Some n"
proof -
  have plus: "\<not> is_digit (CHR ''+'')" by (simp add: is_digit_def char_code_def)
  assume n: "n \<le> bound"
  have "strip_prefix ''+'' (show_nat n) = None"
    using show_nat_digits [of "CHR ''+''" n] plus by (auto simp: strip_prefix_def starts_with_iff)
  with n show_nat_nonempty [of n] show_nat_digits [of _ n] show ?thesis
    by (auto simp: parse_unsigned_def Let_def digits_value_show list_all_iff)
qed

lemma parse_show02: "n \<le> bound \<Longrightarrow> parse_unsigned bound (show02 n) = Some n"
proof -
  assume n: "n \<le> bound"
  have z: "is_digit (CHR ''0'')" "char_code (CHR ''0'') = 48" by (simp_all add: is_digit_def char_code_def)
  have "digits_value (''0'' @ s) = digits_value s" for s by (simp add: digits_value_def char_code_def)
  with n z show_nat_digits [of _ n] have "parse_unsigned bound (''0'' @ show_nat n) = Some n"
    by (auto simp: parse_unsigned_def Let_def strip_prefix_def digits_value_show list_all_iff)
  with n show ?thesis by (simp add: show02_def parse_show)
qed

lemma rsplit_once_last: "c \<notin> set b \<Longrightarrow> rsplit_once [c] (a @ c # b) = Some (a, b)"
  by (simp add: rsplit_once_def rfind_char_last)

lemma split_once_first: "c \<notin> set a \<Longrightarrow> split_once [c] (a @ c # b) = Some (a, b)"
  by (simp add: split_once_def find_char_first)

lemma rsplit_once_None: "c \<notin> set s \<Longrightarrow> rsplit_once [c] s = None"
  by (auto simp: rsplit_once_def rfind_str_None contains_str_iff)

lemma dropWhile_none: "\<forall>c\<in>set s. \<not> p c \<Longrightarrow> dropWhile p s = s"
  by (cases s) auto

lemma trim_pred_id: "\<forall>c\<in>set s. \<not> p c \<Longrightarrow> trim_pred p s = s"
  by (simp add: trim_pred_def trim_left_def trim_right_def dropWhile_none)

lemma trim_ws_id: "\<forall>c\<in>set s. \<not> is_whitespace c \<Longrightarrow> trim_ws s = s"
  by (simp add: trim_ws_pred trim_pred_id)

lemma digit_not_whitespace: "is_digit c \<Longrightarrow> \<not> is_whitespace c"
  by (auto simp: is_digit_def is_whitespace_def)

lemma show02_digits: "c \<in> set (show02 n) \<Longrightarrow> is_digit c"
  by (auto simp: show02_def show_nat_digits is_digit_def char_code_def split: if_splits dest: show_nat_digits)

lemma trim_ws_idem: "trim_ws (trim_ws s) = trim_ws s"
proof (cases "trim_ws s = []")
  case False
  have l: "\<not> is_whitespace (last (trim_ws s))" and h: "\<not> is_whitespace (hd (trim_ws s))"
  proof -
    show "\<not> is_whitespace (last (trim_ws s))"
      using False hd_dropWhile [of is_whitespace "rev (dropWhile is_whitespace s)"]
      by (auto simp: trim_ws_def last_rev)
    obtain x where x: "dropWhile is_whitespace s = trim_ws s @ x"
      by (metis rev_append rev_rev_ident takeWhile_dropWhile_id trim_ws_def)
    with False show "\<not> is_whitespace (hd (trim_ws s))"
      using hd_dropWhile [of is_whitespace s] by (cases "trim_ws s") auto
  qed
  show ?thesis
    using trim_pred_mid [of "trim_ws s" is_whitespace "[]" "[]"] False l h
    by (simp add: trim_ws_pred [symmetric] trim_left_def trim_right_def)
qed (metis trim_ws_id empty_iff list.set(1))

end
