(* ===== verification/ContextTypes.thy ===== *)
theory ContextTypes
  imports ToolText
begin

text \<open>The data a request is answered with (\<open>aria-core/src/app.rs\<close>): context blocks, the working
  set of earlier results, the execution contract, the context pack; and the middleware that checks the
  contract and tracks results (\<open>aria-intelligence/src/middleware.rs\<close>).\<close>

section \<open>Context\<close>

datatype GatewayChannel = Telegram | WhatsApp | Discord | Slack | IMessage | Cli | WebSocket | Ros2 | UnknownChannel

datatype ContextBlockKind = Retrieval | ControlDocument | RuleContext | DurableConstraint | SubAgentResult
  | ToolInstructions | ToolResult | WorkingSetBlock | Ambiguity | PromptAsset | ResourceContext | CapabilityIndex
  | DocumentIndex | ContractRequirements

record ContextBlock =
  cb_kind :: ContextBlockKind
  cb_label :: string
  cb_content :: string
  cb_token_estimate :: u32

record PromptContextMessage =
  pm_role :: string
  pm_content :: string
  pm_timestamp_us :: u64

datatype ExecutionContractKind = AnswerOnly | ToolAssisted | ScheduleCreate | BrowserRead | BrowserAct | McpInvoke
  | SubAgentSpawn | ArtifactCreate

datatype ExecutionArtifactKind = ScheduleArtifact | BrowserArtifact | ComputerArtifact | FileArtifact | McpArtifact
  | SubAgentArtifact | ToolSearchArtifact | PlainAnswer

record ExecutionContract =
  xc_kind :: ExecutionContractKind
  xc_allowed_tool_classes :: "string list"
  xc_required_artifact_kinds :: "ExecutionArtifactKind list"
  xc_forbidden_completion_modes :: "string list"
  xc_fallback_mode :: "string option"
  xc_approval_required :: bool

datatype WorkingSetEntryKind = ArtifactEntry | ResourceEntry | PendingApproval | ToolOutput | WorkspaceTarget
  | ExternalReference

datatype WorkingSetStatus = PendingEntry | ActiveEntry | CompletedEntry | FailedEntry | Superseded | ResolvedEntry

record WorkingSetEntry =
  ws_entry_id :: string
  ws_kind :: WorkingSetEntryKind
  ws_artifact_kind :: "ExecutionArtifactKind option"
  ws_locator :: "string option"
  ws_operation :: "string option"
  ws_origin_tool :: "string option"
  ws_channel :: "GatewayChannel option"
  ws_session_id :: "string option"
  ws_status :: WorkingSetStatus
  ws_created_at_us :: u64
  ws_updated_at_us :: "u64 option"
  ws_summary :: string
  ws_payload :: "json option"
  ws_approval_id :: "string option"

datatype ReferenceResolutionOutcome = Resolved | Ambiguous | Unresolved

record ReferenceResolution =
  rr_query_text :: string
  rr_outcome :: ReferenceResolutionOutcome
  rr_matched_entry_ids :: "string list"
  rr_active_target_entry_id :: "string option"
  rr_reason :: "string option"

record WorkingSet =
  ws_entries :: "WorkingSetEntry list"
  ws_active_target_entry_id :: "string option"
  ws_reference_resolution :: "ReferenceResolution option"

definition empty_working_set :: WorkingSet where
  "empty_working_set = \<lparr>ws_entries = [], ws_active_target_entry_id = None, ws_reference_resolution = None\<rparr>"

datatype ContextPlanDecision = Included | DroppedEmpty | DroppedDuplicate | DroppedBudget | DroppedPolicy
  | DroppedAmbiguous

record InspectionBlockRecord =
  ib_kind :: ContextBlockKind
  ib_label :: string
  ib_decision :: ContextPlanDecision
  ib_token_estimate :: u32
  ib_reason :: "string option"

record ContextPlan =
  cp_summary :: "string option"
  cp_block_records :: "InspectionBlockRecord list"
  cp_ambiguity :: "ReferenceResolution option"

datatype RetrievalSourceKind = SessionHistorySource | SessionMemorySource | WorkspaceSource | PolicyRuntimeSource
  | ExternalSource | SocialSource | ControlDocumentSource | SubAgentResultSource | PromptAssetSource
  | McpResourceSource | CapabilityIndexSource | DocumentIndexSource

record RetrievedContextBlock =
  rb_source_kind :: RetrievalSourceKind
  rb_source_id :: string
  rb_label :: string
  rb_content :: string
  rb_trust_class :: "string option"
  rb_score :: "f32 option"
  rb_rank :: "u32 option"
  rb_dedupe_key :: "string option"
  rb_recency_us :: "u64 option"
  rb_token_estimate :: u32

record RetrievedContextBundle =
  bu_plan_summary :: "string option"
  bu_blocks :: "RetrievedContextBlock list"
  bu_dropped_blocks :: "RetrievedContextBlock list"

record ExecutionContextPack =
  ep_system_prompt :: string
  ep_history_messages :: "PromptContextMessage list"
  ep_context_blocks :: "ContextBlock list"
  ep_user_request :: string
  ep_channel :: GatewayChannel
  ep_execution_contract :: "ExecutionContract option"
  ep_retrieved_context :: "RetrievedContextBundle option"
  ep_working_set :: "WorkingSet option"
  ep_context_plan :: "ContextPlan option"

section \<open>Results in the working set\<close>

record ExecutedToolCall =
  et_call :: ToolCall
  et_result :: ToolExecutionResult

definition tool_class_for_name :: "string \<Rightarrow> string" where
  "tool_class_for_name name =
    (if name \<in> {''set_reminder'', ''schedule_message'', ''manage_cron''} then ''schedule''
     else if starts_with ''browser_'' name \<or> starts_with ''crawl_'' name \<or> starts_with ''watch_'' name then ''browser''
     else if name \<in> {''invoke_mcp_tool'', ''render_mcp_prompt'', ''read_mcp_resource''} then ''mcp''
     else if name = ''spawn_agent'' then ''subagent'' else ''native'')"

definition artifact_kind_for_tool :: "string \<Rightarrow> ExecutionArtifactKind option" where
  "artifact_kind_for_tool name =
    (if name \<in> {''set_reminder'', ''schedule_message'', ''manage_cron''} then Some ScheduleArtifact
     else if name \<in> {''computer_profile_list'', ''computer_session_start'', ''computer_session_list'',
       ''computer_capture'', ''computer_act''} then Some ComputerArtifact
     else if name \<in> {''invoke_mcp_tool'', ''render_mcp_prompt'', ''read_mcp_resource''} then Some McpArtifact
     else if name = ''spawn_agent'' then Some SubAgentArtifact
     else if name = ''search_tool_registry'' then Some ToolSearchArtifact
     else if name \<in> {''read_file'', ''write_file'', ''edit_file'', ''execute_file''} then Some FileArtifact
     else if starts_with ''browser_'' name \<or> starts_with ''crawl_'' name \<or> starts_with ''watch_'' name
     then Some BrowserArtifact else None)"

definition locator_keys :: "string list" where
  "locator_keys = [''path'', ''file_path'', ''locator'', ''url'', ''resource_id'', ''job_id'', ''artifact_id'',
     ''browser_session_id'', ''profile_id'', ''id'']"

definition extract_locator_from_payload :: "json \<Rightarrow> string option" where
  "extract_locator_from_payload payload = (case as_object payload of
      None \<Rightarrow> None
    | Some m \<Rightarrow> find_map (\<lambda>k. case Option.bind (map_of m k) as_str of
          None \<Rightarrow> None
        | Some v \<Rightarrow> if trim_ws v \<noteq> [] then Some (trim_ws v) else None) locator_keys)"

definition locator_punctuation :: string where
  "locator_punctuation = [CHR 0x22, CHR 0x27, CHR 0x60, CHR ''('', CHR '')'', CHR ''['', CHR '']'', CHR 0x7B, CHR 0x7D,
     CHR ''<'', CHR ''>'', CHR '','', CHR ''.'', CHR '';'']"

definition extract_locator_from_summary :: "string \<Rightarrow> string option" where
  "extract_locator_from_summary summary =
    (case find (\<lambda>t. starts_with ''/'' t \<or> starts_with ''./'' t \<or> CHR ''.'' \<in> set t) (split_whitespace summary) of
       None \<Rightarrow> None
     | Some t \<Rightarrow> (let l = trim_pred (\<lambda>c. c \<in> set locator_punctuation) t in if l \<noteq> [] then Some l else None))"

text \<open>The two clock readings: the first in the identifier of a call that has none, the second in
  \<open>created_at_us\<close>.\<close>

definition working_set_entry_from_executed_tool ::
  "nat \<Rightarrow> u64 \<Rightarrow> ExecutedToolCall \<Rightarrow> WorkingSetEntry" where
  "working_set_entry_from_executed_tool id_us created_us executed =
    (let call = et_call executed; payload = as_provider_payload (et_result executed);
         summary = render_for_prompt (et_result executed) in
     \<lparr>ws_entry_id = (case tl_invocation_id call of Some i \<Rightarrow> i | None \<Rightarrow> tl_name call @ ''-'' @ show_nat id_us),
      ws_kind = (if artifact_kind_for_tool (tl_name call) \<noteq> None then ArtifactEntry else ToolOutput),
      ws_artifact_kind = artifact_kind_for_tool (tl_name call),
      ws_locator = (case extract_locator_from_payload payload of Some l \<Rightarrow> Some l
        | None \<Rightarrow> extract_locator_from_summary summary),
      ws_operation = Some (tl_name call), ws_origin_tool = Some (tl_name call), ws_channel = None,
      ws_session_id = None, ws_status = CompletedEntry, ws_created_at_us = created_us, ws_updated_at_us = None,
      ws_summary = trim_ws summary, ws_payload = Some payload, ws_approval_id = None\<rparr>)"

section \<open>The state-tracking middleware\<close>

text \<open>\<open>{:?}\<close> of the contract kind.\<close>

fun show_contract_kind :: "ExecutionContractKind \<Rightarrow> string" where
  "show_contract_kind AnswerOnly = ''AnswerOnly''"
| "show_contract_kind ToolAssisted = ''ToolAssisted''"
| "show_contract_kind ScheduleCreate = ''ScheduleCreate''"
| "show_contract_kind BrowserRead = ''BrowserRead''"
| "show_contract_kind BrowserAct = ''BrowserAct''"
| "show_contract_kind McpInvoke = ''McpInvoke''"
| "show_contract_kind SubAgentSpawn = ''SubAgentSpawn''"
| "show_contract_kind ArtifactCreate = ''ArtifactCreate''"

definition quoted :: "string \<Rightarrow> string" where "quoted s = [CHR 0x27] @ s @ [CHR 0x27]"

definition state_before_tool_call ::
  "ExecutionContextPack \<Rightarrow> ToolCall \<Rightarrow> (OrchestratorError, unit) result" where
  "state_before_tool_call pack call = (case ep_execution_contract pack of
      None \<Rightarrow> Ok ()
    | Some c \<Rightarrow>
       if xc_allowed_tool_classes c = [] then Ok ()
       else if tool_class_for_name (tl_name call) \<in> set (xc_allowed_tool_classes c) then Ok ()
       else Err (ToolError (''tool '' @ quoted (tl_name call) @ '' is not permitted by execution contract '' @
         show_contract_kind (xc_kind c))))"

definition working_set_of :: "ExecutionContextPack \<Rightarrow> WorkingSet" where
  "working_set_of pack = (case ep_working_set pack of Some w \<Rightarrow> w | None \<Rightarrow> empty_working_set)"

definition state_after_tool_call ::
  "nat \<Rightarrow> u64 \<Rightarrow> ExecutionContextPack \<Rightarrow> ExecutedToolCall \<Rightarrow> ExecutionContextPack" where
  "state_after_tool_call id_us created_us pack executed = (let w = working_set_of pack in
     pack\<lparr>ep_working_set := Some (w\<lparr>ws_entries := ws_entries w @
       [working_set_entry_from_executed_tool id_us created_us executed]\<rparr>)\<rparr>)"

section \<open>Tool results appended to the context\<close>

definition tool_result_line :: "ExecutedToolCall \<Rightarrow> string" where
  "tool_result_line e = ''[Tool: '' @ tl_name (et_call e) @ ''] Result: '' @
     render_tool_result_for_model (tl_name (et_call e)) (et_result e)"

definition append_tool_results_to_prompt :: "string \<Rightarrow> ExecutedToolCall list \<Rightarrow> string" where
  "append_tool_results_to_prompt prompt executed =
     prompt @ [newline, newline] @ ''--- Tool Results ---'' @ [newline] @ unlines (map tool_result_line executed)"

definition add_entry :: "WorkingSet \<Rightarrow> WorkingSetEntry \<Rightarrow> WorkingSet" where
  "add_entry w e = (if \<exists>x\<in>set (ws_entries w). ws_entry_id x = ws_entry_id e then w
     else w\<lparr>ws_entries := ws_entries w @ [e]\<rparr>)"

text \<open>The clock readings of the entries come as a list, one pair for each executed call.\<close>

definition append_tool_results_to_context_pack ::
  "(nat \<times> u64) list \<Rightarrow> ExecutionContextPack \<Rightarrow> ExecutedToolCall list \<Rightarrow> ExecutionContextPack" where
  "append_tool_results_to_context_pack clock pack executed =
    (if executed = [] then pack else
     let content = unlines (map tool_result_line executed);
         label = (if length executed = 1 then ''tool_result_'' @ tl_name (et_call (hd executed)) else ''tool_results'');
         blocks = (if \<exists>b\<in>set (ep_context_blocks pack). cb_label b = label \<and> cb_kind b = ToolResult
           then ep_context_blocks pack
           else ep_context_blocks pack @ [\<lparr>cb_kind = ToolResult, cb_label = label, cb_content = content,
             cb_token_estimate = of_nat (length (split_whitespace content))\<rparr>]);
         entries = map (\<lambda>((i, c), e). working_set_entry_from_executed_tool i c e) (zip clock executed) in
     pack\<lparr>ep_context_blocks := blocks, ep_working_set := Some (foldl add_entry (working_set_of pack) entries)\<rparr>)"

end
