(* ===== verification/Orchestrator.thy ===== *)
theory Orchestrator
  imports ContextTypes
begin

text \<open>The reasoning loop of an agent (\<open>aria-intelligence/src/orchestrator.rs\<close>): query the model, run
  the tools it calls, feed the results back, for a bounded number of rounds.  The world around the
  loop has the type \<open>'w\<close>: the model, the tool executor, registered middlewares, the steering
  channel, the emergency stop and the clock are functions on it, the fields of \<open>env\<close>.  The two loops of
  the code are the definitions \<open>run_with_tool_runtime_policy\<close> (a fixed set of tools, arguments
  checked against their schemas) and \<open>run_dynamic\<close>.\<close>

section \<open>The world of the loop\<close>

datatype OrchestratorResult = Completed string | AgentElevationRequired string string
  | ToolApprovalRequired ToolCall string

datatype SteeringCommand = Pivot string | Abort

datatype OrchestratorEvent = RepairFallbackUsed string "string option"
  | StreamingDecision string string "string option"

text \<open>What the model is asked: the methods of the \<open>LLMBackend\<close> trait.\<close>

datatype query = Query string "CachedTool list" ToolRuntimePolicy
  | QueryStream string "CachedTool list" ToolRuntimePolicy
  | QueryContext ExecutionContextPack "CachedTool list" ToolRuntimePolicy
  | QueryResults string "CachedTool list" "ExecutedToolCall list" ToolRuntimePolicy
  | QueryResultsStream string "CachedTool list" "ExecutedToolCall list" ToolRuntimePolicy
  | QueryContextResults ExecutionContextPack "CachedTool list" "ExecutedToolCall list" ToolRuntimePolicy

type_synonym tool_outcome = "(OrchestratorError, ToolExecutionResult) result"

text \<open>\<open>run_all\<close> is \<open>join_all\<close> over the executor, \<open>race_all\<close> its \<open>select!\<close> against the steering
  channel: either all results, or the received command (\<open>None\<close>: the channel is closed) with the calls
  in whatever state they were.  \<open>instant\<close> is the monotonic
  clock in nanoseconds, \<open>clock\<close> reads the time of day in microseconds.\<close>

record 'w env =
  capability :: "ModelCapabilityProfile option"
  model_label :: "string option"
  allow_repair :: bool
  has_steering :: bool
  has_estop :: bool
  ask :: "query \<Rightarrow> 'w \<Rightarrow> (OrchestratorError, LLMResponse) result \<times> 'w"
  exec :: "ToolCall \<Rightarrow> 'w \<Rightarrow> tool_outcome \<times> 'w"
  run_all :: "ToolCall list \<Rightarrow> 'w \<Rightarrow> tool_outcome list \<times> 'w"
  race_all :: "ToolCall list \<Rightarrow> 'w \<Rightarrow> (SteeringCommand option, tool_outcome list) result \<times> 'w"
  poll :: "'w \<Rightarrow> SteeringCommand option \<times> 'w"
  estop :: "'w \<Rightarrow> bool"
  instant :: "'w \<Rightarrow> nat"
  clock :: "'w \<Rightarrow> nat \<times> 'w"
  before_hooks :: "(ExecutionContextPack \<Rightarrow> CachedTool list \<Rightarrow> ToolRuntimePolicy \<Rightarrow> ToolCall
    \<Rightarrow> (OrchestratorError, ExecutionContextPack) result) list"
  after_hooks :: "(ExecutionContextPack \<Rightarrow> CachedTool list \<Rightarrow> ToolRuntimePolicy \<Rightarrow> ExecutedToolCall
    \<Rightarrow> (OrchestratorError, ExecutionContextPack) result) list"
  parse_json :: "string \<Rightarrow> (string, json) result"
  show_json :: "json \<Rightarrow> string"
  normalize_schema :: "string \<Rightarrow> (string, string) result"
  schema_errors :: "json \<Rightarrow> (json \<Rightarrow> string list) option"

text \<open>The variables of the loop.\<close>

record 'w loop =
  lp_rounds :: nat
  lp_prompt :: string
  lp_pack :: ExecutionContextPack
  lp_override :: bool
  lp_last_progress :: nat
  lp_events :: "OrchestratorEvent list"
  lp_world :: 'w

definition continue_loop :: string where
  "continue_loop = ''CONTINUE_LOOP''"

definition tool_failure_result :: "ToolCall \<Rightarrow> string \<Rightarrow> ToolExecutionResult" where
  "tool_failure_result call e = Structured (''Tool '' @ quoted (tl_name call) @ '' failed: '' @ e) ''tool_error''
     (JObject [(''ok'', JBool False), (''tool'', JString (tl_name call)), (''error'', JString e)])"

definition repair_fallback_mode :: "'w env \<Rightarrow> ToolCallingMode" where
  "repair_fallback_mode env = tool_calling_mode_for_model_with_repair (capability env) (allow_repair env)"

definition repair_fallback_permitted :: "'w env \<Rightarrow> bool" where
  "repair_fallback_permitted env = (case capability env of
      Some _ \<Rightarrow> repair_fallback_mode env = TextFallbackWithRepair
    | None \<Rightarrow> True)"

definition should_use_streaming :: "'w env \<Rightarrow> CachedTool list \<Rightarrow> bool" where
  "should_use_streaming env tools = (case capability env of
      None \<Rightarrow> False
    | Some p \<Rightarrow> if mc_streaming p \<noteq> Supported then False
        else tools = [] \<or> list_all ct_streaming_safe tools)"

definition emit :: "OrchestratorEvent \<Rightarrow> 'w loop \<Rightarrow> 'w loop" where
  "emit e st = st\<lparr>lp_events := lp_events st @ [e]\<rparr>"

definition repaired_tool_call_from_text ::
  "'w env \<Rightarrow> string \<Rightarrow> CachedTool list \<Rightarrow> 'w loop \<Rightarrow> ToolCall option \<times> 'w loop" where
  "repaired_tool_call_from_text env answer tools st =
    (case repair_tool_call_json (parse_json env) (show_json env) answer tools of
       None \<Rightarrow> (None, st)
     | Some c \<Rightarrow> (Some c, emit (RepairFallbackUsed (tl_name c) (model_label env)) st))"

definition ask_model :: "'w env \<Rightarrow> query \<Rightarrow> 'w loop \<Rightarrow> (OrchestratorError, LLMResponse) result \<times> 'w loop" where
  "ask_model env q st = (case ask env q (lp_world st) of (r, w) \<Rightarrow> (r, st\<lparr>lp_world := w\<rparr>))"

text \<open>A query by stream with its fallback; the two arguments of type \<open>query\<close> are the streaming query
  and the plain one.\<close>

definition streamed_query ::
  "'w env \<Rightarrow> string \<Rightarrow> bool \<Rightarrow> query \<Rightarrow> query \<Rightarrow> query \<Rightarrow> 'w loop \<Rightarrow> (OrchestratorError, LLMResponse) result \<times> 'w loop" where
  "streamed_query env phase streaming stream fallback plain st =
    (if streaming
     then (case ask_model env stream (emit (StreamingDecision phase ''stream_attempt'' (model_label env)) st) of
         (Inr r, st1) \<Rightarrow> (Ok r, emit (StreamingDecision phase ''stream_used'' (model_label env)) st1)
       | (Inl _, st1) \<Rightarrow> ask_model env fallback (emit (StreamingDecision phase ''fallback_used'' (model_label env)) st1))
     else ask_model env plain (emit (StreamingDecision phase ''stream_disabled'' (model_label env)) st))"

section \<open>Running tools\<close>

definition all_parallel_safe :: "ToolCall list \<Rightarrow> CachedTool list \<Rightarrow> bool" where
  "all_parallel_safe calls available = list_all (\<lambda>call.
     classify_tool_execution (tl_name call) = ParallelSafe \<and>
     (case find (\<lambda>t. ct_name t = tl_name call) available of Some t \<Rightarrow> ct_parallel_safe t | None \<Rightarrow> True)) calls"

definition interrupt_note :: "string \<Rightarrow> string \<Rightarrow> string \<Rightarrow> string" where
  "interrupt_note phase prompt instructions = prompt @ [newline, newline] @ ''<<SYSTEM INTERRUPT during '' @ phase @
     '': User steered with: '' @ quoted instructions @ ''>>'' @ [newline] @ ''Ignore the pending tools.''"

type_synonym outcomes = "(ToolCall \<times> tool_outcome) list"

fun run_serially ::
  "'w env \<Rightarrow> ToolCall list \<Rightarrow> outcomes \<Rightarrow> 'w loop \<Rightarrow> (OrchestratorError, outcomes) result \<times> 'w loop" where
  "run_serially env [] outputs st = (Ok outputs, st)"
| "run_serially env (call # calls) outputs st =
    (let (cmd, w) = (if has_steering env then poll env (lp_world st) else (None, lp_world st));
         st1 = st\<lparr>lp_world := w\<rparr> in
     case cmd of
       Some Abort \<Rightarrow> (Err UserAborted, st1)
     | Some (Pivot instructions) \<Rightarrow>
         (Ok [], st1\<lparr>lp_prompt := interrupt_note ''serial tool execution'' (lp_prompt st) instructions\<rparr>)
     | None \<Rightarrow> (case exec env call w of
         (r, w') \<Rightarrow> run_serially env calls (outputs @ [(call, r)]) (st1\<lparr>lp_world := w'\<rparr>)))"

definition execute_tool_calls ::
  "'w env \<Rightarrow> ToolCall list \<Rightarrow> CachedTool list \<Rightarrow> ToolRuntimePolicy \<Rightarrow> 'w loop
    \<Rightarrow> (OrchestratorError, outcomes) result \<times> 'w loop" where
  "execute_tool_calls env calls available policy st =
    (if allow_parallel_tool_calls policy \<and> all_parallel_safe calls available
     then if has_steering env
       then (case race_all env calls (lp_world st) of
           (Inr rs, w) \<Rightarrow> (Ok (zip calls rs), st\<lparr>lp_world := w\<rparr>)
         | (Inl (Some Abort), w) \<Rightarrow> (Err UserAborted, st\<lparr>lp_world := w\<rparr>)
         | (Inl (Some (Pivot instructions)), w) \<Rightarrow>
             (Ok [], st\<lparr>lp_world := w, lp_prompt := interrupt_note ''tool execution'' (lp_prompt st) instructions\<rparr>)
         | (Inl None, w) \<Rightarrow> (Err UserAborted, st\<lparr>lp_world := w\<rparr>))
       else (case run_all env calls (lp_world st) of (rs, w) \<Rightarrow> (Ok (zip calls rs), st\<lparr>lp_world := w\<rparr>))
     else run_serially env calls [] st)"

text \<open>The middlewares: the state tracking comes first.\<close>

fun run_hooks where
  "run_hooks [] pack tools policy x = Ok pack"
| "run_hooks (h # hs) pack tools policy x = and_then (h pack tools policy x) (\<lambda>pack'. run_hooks hs pack' tools policy x)"

definition run_before_tool_middlewares where
  "run_before_tool_middlewares env pack tools policy call =
     and_then (state_before_tool_call pack call) (\<lambda>_. run_hooks (before_hooks env) pack tools policy call)"

definition read_clock :: "'w env \<Rightarrow> 'w loop \<Rightarrow> (nat \<times> u64) \<times> 'w loop" where
  "read_clock env st = (let (i, w1) = clock env (lp_world st); (c, w2) = clock env w1 in
     ((i, of_nat c), st\<lparr>lp_world := w2\<rparr>))"

fun read_clocks :: "'w env \<Rightarrow> 'a list \<Rightarrow> 'w loop \<Rightarrow> (nat \<times> u64) list \<times> 'w loop" where
  "read_clocks env [] st = ([], st)"
| "read_clocks env (x # xs) st = (let (t, st1) = read_clock env st; (ts, st2) = read_clocks env xs st1 in (t # ts, st2))"

definition run_after_tool_middlewares where
  "run_after_tool_middlewares env tools policy executed st =
    (let ((i, c), st1) = read_clock env st in
     case run_hooks (after_hooks env) (state_after_tool_call i c (lp_pack st1) executed) tools policy executed of
       Inl e \<Rightarrow> (Err e, st1)
     | Inr pack \<Rightarrow> (Ok (), st1\<lparr>lp_pack := pack\<rparr>))"

text \<open>The results of the executed calls, until one of them asks for approval or fails the run.\<close>

datatype collected = Results "ExecutedToolCall list" | AskApproval ToolCall

fun collect_results where
  "collect_results env tools policy [] acc st = (Ok (Results acc), st)"
| "collect_results env tools policy ((call, r) # rest) acc st =
    (let continue = (\<lambda>output.
       (case run_after_tool_middlewares env tools policy \<lparr>et_call = call, et_result = output\<rparr> st of
          (Inl e, st1) \<Rightarrow> (Err e, st1)
        | (Inr _, st1) \<Rightarrow> collect_results env tools policy rest (acc @ [\<lparr>et_call = call, et_result = output\<rparr>]) st1)) in
     case r of
       Inr output \<Rightarrow> continue output
     | Inl (ToolError msg) \<Rightarrow> if approval_required_tool_name msg \<noteq> None then (Ok (AskApproval call), st)
         else continue (tool_failure_result call msg)
     | Inl e \<Rightarrow> (Err e, st))"

definition maybe_finalize_after_scheduler_tools :: "ExecutedToolCall list \<Rightarrow> string option" where
  "maybe_finalize_after_scheduler_tools executed =
    (if executed = [] then None
     else if \<not> list_all (\<lambda>e. tl_name (et_call e) \<in> {''schedule_message'', ''set_reminder'', ''manage_cron''}) executed
     then None
     else (let merged = unlines (filter (\<lambda>s. s \<noteq> [])
             (map (\<lambda>e. trim_ws (render_for_prompt (et_result e))) executed)) in
       if merged = [] then Some ''Scheduling updated.'' else Some merged))"

section \<open>One round\<close>

text \<open>What a round leaves to do: return a result, or run further calls (none: query again).\<close>

datatype round_outcome = Finish OrchestratorResult | Again "ToolCall list"

definition follow_up ::
  "'w env \<Rightarrow> CachedTool list \<Rightarrow> ToolRuntimePolicy \<Rightarrow> ExecutedToolCall list \<Rightarrow> 'w loop
    \<Rightarrow> (OrchestratorError, LLMResponse) result \<times> 'w loop" where
  "follow_up env tools policy turns st =
    (let plain = (if lp_override st then QueryResults (lp_prompt st) tools turns policy
       else QueryContextResults (lp_pack st) tools turns policy) in
     streamed_query env ''follow_up'' (should_use_streaming env tools)
       (QueryResultsStream (lp_prompt st) tools turns policy) plain plain st)"

definition feed_results :: "'w env \<Rightarrow> ExecutedToolCall list \<Rightarrow> 'w loop \<Rightarrow> 'w loop" where
  "feed_results env turns st = (let (clocks, st1) = read_clocks env turns st in
     st1\<lparr>lp_pack := append_tool_results_to_context_pack clocks (lp_pack st1) turns,
         lp_prompt := (if lp_override st1 then append_tool_results_to_prompt (lp_prompt st1) turns else lp_prompt st1)\<rparr>)"

definition after_tools ::
  "'w env \<Rightarrow> CachedTool list \<Rightarrow> ToolRuntimePolicy \<Rightarrow> ExecutedToolCall list \<Rightarrow> string list \<Rightarrow> 'w loop
    \<Rightarrow> (OrchestratorError, round_outcome) result \<times> 'w loop" where
  "after_tools env tools policy turns results st =
    (if turns = []
     then (Ok (Again []), st\<lparr>lp_prompt := lp_prompt st @ [newline, newline] @ ''--- Tool Results ---'' @ [newline] @
         unlines results, lp_override := True\<rparr>)
     else case follow_up env tools policy turns st of
       (Inl e, st1) \<Rightarrow> (Err e, st1)
     | (Inr (TextAnswer answer), st1) \<Rightarrow>
         if repair_fallback_permitted env
         then (case repaired_tool_call_from_text env answer tools st1 of
             (Some c, st2) \<Rightarrow> (Ok (Again [c]), feed_results env turns st2)
           | (None, st2) \<Rightarrow> (Ok (Finish (Completed answer)), st2))
         else (Ok (Finish (Completed answer)), st1)
     | (Inr (ToolCalls calls), st1) \<Rightarrow> (Ok (Again calls), feed_results env turns st1))"

text \<open>The results of a batch of calls.  An interrupted batch has none: the run ends with an empty answer.\<close>

definition run_batch ::
  "'w env \<Rightarrow> CachedTool list \<Rightarrow> CachedTool list \<Rightarrow> ToolRuntimePolicy \<Rightarrow> ToolCall list \<Rightarrow> string list \<Rightarrow> bool \<Rightarrow> 'w loop
    \<Rightarrow> (OrchestratorError, round_outcome) result \<times> 'w loop" where
  "run_batch env available tools policy calls found heartbeat st =
    (case execute_tool_calls env calls available policy st of
       (Inl e, st1) \<Rightarrow> (Err e, st1)
     | (Inr [], st1) \<Rightarrow> (Ok (Finish (Completed [])), st1)
     | (Inr (r # rs), st1) \<Rightarrow>
        (case collect_results env available policy (r # rs) [] st1 of
           (Inl e, st2) \<Rightarrow> (Err e, st2)
         | (Inr (AskApproval call), st2) \<Rightarrow> (Ok (Finish (ToolApprovalRequired call (lp_prompt st2))), st2)
         | (Inr (Results turns), st2) \<Rightarrow>
            (case maybe_finalize_after_scheduler_tools turns of
               Some final \<Rightarrow> (Ok (Finish (Completed final)), st2)
             | None \<Rightarrow> after_tools env tools policy turns (found @ map tool_result_line turns)
                 (if heartbeat then st2\<lparr>lp_last_progress := instant env (lp_world st2)\<rparr> else st2))))"

definition destructive :: "ToolCall \<Rightarrow> bool" where
  "destructive call \<longleftrightarrow> tl_name call \<in> {''run_shell'', ''write_file''}"

definition rejection :: "ToolCall \<Rightarrow> string \<Rightarrow> string" where
  "rejection call why = ''[Tool '' @ quoted (tl_name call) @ '' Rejected]: '' @ why"

text \<open>The check of a call against the schema of its tool; \<open>None\<close> is a valid call.\<close>

definition validation_error :: "'w env \<Rightarrow> CachedTool list \<Rightarrow> ToolCall \<Rightarrow> string option" where
  "validation_error env tools call = (case find (\<lambda>t. ct_name t = tl_name call) tools of
      None \<Rightarrow> Some (rejection call (''tool is not available. Please use '' @ quoted ''search_tool_registry'' @
        '' to find and load it, or pick from the available tools listed above.''))
    | Some t \<Rightarrow> (case normalize_schema env (ct_parameters_schema t) of
        Inl _ \<Rightarrow> Some (rejection call ''tool schema is invalid for active runtime'')
      | Inr s \<Rightarrow> (case parse_json env s of
          Inl _ \<Rightarrow> None
        | Inr v \<Rightarrow> (case schema_errors env v of
            None \<Rightarrow> None
          | Some errs \<Rightarrow> (case parse_json env (tl_arguments call) of
              Inl _ \<Rightarrow> Some (rejection call ''arguments must be valid JSON object'')
            | Inr a \<Rightarrow> if errs a \<noteq> []
                then Some (rejection call (''schema validation failed on arguments '' @ [CHR 0x60] @ tl_arguments call @
                  [CHR 0x60] @ '' - '' @ join_with ''; '' (errs a)))
                else None)))))"

datatype admission = Admitted "ToolCall list" "string list" | NeedsApproval ToolCall

fun admit_calls ::
  "'w env \<Rightarrow> CachedTool list \<Rightarrow> ToolRuntimePolicy \<Rightarrow> ToolCall list \<Rightarrow> ToolCall list \<Rightarrow> string list \<Rightarrow> 'w loop
    \<Rightarrow> (OrchestratorError, admission) result \<times> 'w loop" where
  "admit_calls env tools policy [] admitted errs st = (Ok (Admitted admitted errs), st)"
| "admit_calls env tools policy (call # calls) admitted errs st =
    (if destructive call then (Ok (NeedsApproval call), st)
     else if tl_name call = ''search_tool_registry'' then admit_calls env tools policy calls (admitted @ [call]) errs st
     else case validation_error env tools call of
       Some e \<Rightarrow> admit_calls env tools policy calls admitted (errs @ [e]) st
     | None \<Rightarrow> (case run_before_tool_middlewares env (lp_pack st) tools policy call of
         Inl e \<Rightarrow> (Err e, st)
       | Inr pack \<Rightarrow> admit_calls env tools policy calls (admitted @ [call]) errs (st\<lparr>lp_pack := pack\<rparr>)))"

definition generic_round ::
  "'w env \<Rightarrow> CachedTool list \<Rightarrow> ToolRuntimePolicy \<Rightarrow> ToolCall list \<Rightarrow> 'w loop
    \<Rightarrow> (OrchestratorError, round_outcome) result \<times> 'w loop" where
  "generic_round env tools policy calls st =
    (case admit_calls env tools policy calls [] [] st of
       (Inl e, st1) \<Rightarrow> (Err e, st1)
     | (Inr (NeedsApproval call), st1) \<Rightarrow> (Ok (Finish (ToolApprovalRequired call (lp_prompt st1))), st1)
     | (Inr (Admitted admitted errs), st1) \<Rightarrow>
        if errs \<noteq> []
        then (Ok (Again []), st1\<lparr>lp_prompt := lp_prompt st1 @ [newline, newline] @
            ''<<SYSTEM INTERRUPT: Tool execution failed schema validation: '' @ [newline] @ unlines errs @ [newline] @
            ''Please correct the tool call parameters and try again.>>'', lp_override := True\<rparr>)
        else if admitted = [] then after_tools env tools policy [] [] st1
        else run_batch env tools tools policy admitted [] True st1)"

section \<open>The rounds of one answer\<close>

text \<open>Both loops count a round before they process the calls of an answer, and recurse on the calls of
  the follow-up.\<close>

definition advance_round :: "nat \<Rightarrow> 'w loop \<Rightarrow> (OrchestratorError, unit) result \<times> 'w loop" where
  "advance_round max_rounds st = (let st1 = st\<lparr>lp_rounds := lp_rounds st + 1\<rparr> in
     if max_rounds < lp_rounds st1 then (Err (MaxRoundsExceeded max_rounds), st1) else (Ok (), st1))"

text \<open>What the outside may rely on: a set \<open>I\<close> of states of the world that everything keeps except the
  execution of destructive tools.\<close>

definition quiet_world :: "'w env \<Rightarrow> ('w \<Rightarrow> bool) \<Rightarrow> bool" where
  "quiet_world env I \<longleftrightarrow>
     (\<forall>q w. I w \<longrightarrow> I (snd (ask env q w))) \<and>
     (\<forall>c w. \<not> destructive c \<longrightarrow> I w \<longrightarrow> I (snd (exec env c w))) \<and>
     (\<forall>cs w. (\<forall>c\<in>set cs. \<not> destructive c) \<longrightarrow> I w \<longrightarrow> I (snd (run_all env cs w)) \<and> I (snd (race_all env cs w))) \<and>
     (\<forall>w. I w \<longrightarrow> I (snd (poll env w)) \<and> I (snd (clock env w)))"

text \<open>A step that counts no round and keeps the set.\<close>

definition steady :: "('w \<Rightarrow> bool) \<Rightarrow> 'w loop \<Rightarrow> 'w loop \<Rightarrow> bool" where
  "steady I st st' \<longleftrightarrow> lp_rounds st' = lp_rounds st \<and> (I (lp_world st) \<longrightarrow> I (lp_world st'))"

named_theorems steady_simps

lemma steady_refl [simp]: "steady I st st" by (simp add: steady_def)

lemma steady_trans [trans]: "steady I st st' \<Longrightarrow> steady I st' st'' \<Longrightarrow> steady I st st''"
  by (simp add: steady_def)

lemma steady_update [steady_simps]:
  "steady I st (st'\<lparr>lp_prompt := p\<rparr>) = steady I st st'" "steady I st (st'\<lparr>lp_pack := k\<rparr>) = steady I st st'"
  "steady I st (st'\<lparr>lp_override := b\<rparr>) = steady I st st'" "steady I st (st'\<lparr>lp_last_progress := n\<rparr>) = steady I st st'"
  "steady I st (emit e st') = steady I st st'"
  by (simp_all add: steady_def emit_def)

lemma steady_world: "(I (lp_world st) \<Longrightarrow> I w) \<Longrightarrow> steady I st (st\<lparr>lp_world := w\<rparr>)"
  by (simp add: steady_def)

lemma steady_emit: "steady I st st' \<Longrightarrow> steady I st (emit e st')"
  by (simp add: steady_simps)

lemma ask_steady:
  assumes "quiet_world env I"
  shows "steady I st (snd (ask_model env q st))"
  using assms by (auto simp: ask_model_def quiet_world_def steady_def case_prod_beta)

lemma streamed_steady:
  assumes "quiet_world env I"
  shows "steady I st (snd (streamed_query env ph b q1 q2 q3 st))"
proof -
  have ask: "steady I st (snd (ask_model env q (emit e st')))" if "steady I st st'" for q e st'
    using ask_steady [OF assms] steady_emit [OF that] steady_trans by blast
  show ?thesis
  proof (cases b)
    case True
    obtain r st1 where r: "ask_model env q1 (emit (StreamingDecision ph ''stream_attempt'' (model_label env)) st) = (r, st1)"
      by fastforce
    then have "steady I st st1" using ask [OF steady_refl] by (metis snd_conv)
    with r True ask show ?thesis by (cases r) (simp_all add: streamed_query_def steady_simps)
  qed (use ask in \<open>simp add: streamed_query_def\<close>)
qed

lemma repaired_steady: "steady I st (snd (repaired_tool_call_from_text env a tools st))"
  by (simp add: repaired_tool_call_from_text_def steady_simps split: option.splits)

lemma read_clock_steady:
  assumes "quiet_world env I"
  shows "steady I st (snd (read_clock env st))"
  using assms by (auto simp: read_clock_def quiet_world_def steady_def Let_def case_prod_beta)

lemma read_clocks_steady:
  assumes "quiet_world env I"
  shows "steady I st (snd (read_clocks env xs st))"
proof (induction xs arbitrary: st)
  case (Cons x xs)
  show ?case
    using steady_trans [OF read_clock_steady [OF assms, of st] Cons.IH [of "snd (read_clock env st)"]]
    by (simp add: Let_def case_prod_beta)
qed simp

lemma feed_results_steady:
  assumes "quiet_world env I"
  shows "steady I st (feed_results env turns st)"
  using read_clocks_steady [OF assms] by (simp add: feed_results_def Let_def case_prod_beta steady_simps)

lemma run_serially_steady:
  assumes "quiet_world env I"
  shows "\<forall>c\<in>set calls. \<not> destructive c \<Longrightarrow> steady I st (snd (run_serially env calls out st))"
proof (induction calls arbitrary: out st)
  case (Cons call calls)
  obtain cmd w where p: "(if has_steering env then poll env (lp_world st) else (None, lp_world st)) = (cmd, w)"
    by fastforce
  have w: "I w" if "I (lp_world st)"
    using p that assms by (auto simp: quiet_world_def split: if_splits dest: spec [of _ "lp_world st"])
  obtain r w' where e: "exec env call w = (r, w')" by fastforce
  have w': "I w'" if "I (lp_world st)"
    using w [OF that] e Cons.prems assms unfolding quiet_world_def by (metis list.set_intros(1) snd_conv)
  have "steady I st (st\<lparr>lp_world := w'\<rparr>)" "steady I st (st\<lparr>lp_world := w\<rparr>)"
    using w w' by (simp_all add: steady_def)
  moreover have "steady I (st\<lparr>lp_world := w'\<rparr>) (snd (run_serially env calls (out @ [(call, r)]) (st\<lparr>lp_world := w'\<rparr>)))"
    using Cons by simp
  ultimately show ?case
    using p e steady_trans by (auto simp: Let_def steady_simps split: option.splits SteeringCommand.splits)
qed simp

lemma execute_steady:
  assumes "quiet_world env I" "\<forall>c\<in>set calls. \<not> destructive c"
  shows "steady I st (snd (execute_tool_calls env calls av policy st))"
proof -
  have "steady I st (st\<lparr>lp_world := snd (run_all env calls (lp_world st))\<rparr>)"
    "steady I st (st\<lparr>lp_world := snd (race_all env calls (lp_world st))\<rparr>)"
    using assms by (auto simp: quiet_world_def steady_def)
  with run_serially_steady [OF assms] show ?thesis
    by (auto simp: execute_tool_calls_def steady_simps split: prod.splits sum.splits option.splits
        SteeringCommand.splits)
qed

lemma after_middleware_steady:
  assumes "quiet_world env I"
  shows "steady I st (snd (run_after_tool_middlewares env tools policy e st))"
  using read_clock_steady [OF assms, of st]
  by (simp add: run_after_tool_middlewares_def Let_def case_prod_beta steady_simps split: sum.splits)

lemma collect_steady:
  assumes "quiet_world env I"
  shows "steady I st (snd (collect_results env tools policy rs acc st))"
proof (induction rs arbitrary: acc st)
  case (Cons r rs)
  have "steady I st (snd (case run_after_tool_middlewares env tools policy e st of
          (Inl e, st1) \<Rightarrow> (Err e, st1)
        | (Inr _, st1) \<Rightarrow> collect_results env tools policy rs d st1))" for e d
    using steady_trans [OF after_middleware_steady [OF assms, of st tools policy e] Cons.IH]
      after_middleware_steady [OF assms, of st tools policy e]
    by (cases "run_after_tool_middlewares env tools policy e st"; cases "fst (run_after_tool_middlewares env tools policy e st)") auto
  then show ?case by (cases r) (auto simp: Let_def split: sum.splits OrchestratorError.splits)
qed simp

lemma after_tools_steady:
  assumes "quiet_world env I"
  shows "steady I st (snd (after_tools env tools policy turns results st))"
proof -
  obtain r st1 where r: "follow_up env tools policy turns st = (r, st1)" by fastforce
  then have 1: "steady I st st1" using streamed_steady [OF assms] by (metis follow_up_def snd_conv)
  note feed = steady_trans [OF _ feed_results_steady [OF assms]]
  obtain c st2 where c: "repaired_tool_call_from_text env (case r of Inr (TextAnswer a) \<Rightarrow> a | _ \<Rightarrow> []) tools st1 = (c, st2)"
    by fastforce
  then have 2: "steady I st st2" using repaired_steady steady_trans [OF 1] by (metis snd_conv)
  show ?thesis
    using r c 1 2 feed by (auto simp: after_tools_def steady_simps split: sum.splits LLMResponse.splits option.splits)
qed

lemma run_batch_steady:
  assumes "quiet_world env I" "\<forall>c\<in>set calls. \<not> destructive c"
  shows "steady I st (snd (run_batch env av tools policy calls found b st))"
proof -
  obtain r st1 where r: "execute_tool_calls env calls av policy st = (r, st1)" by fastforce
  then have 1: "steady I st st1" using execute_steady [OF assms] by (metis snd_conv)
  show ?thesis
  proof (cases r)
    case (Inr rs)
    obtain o2 st2 where o2: "collect_results env av policy rs [] st1 = (o2, st2)" by fastforce
    then have 2: "steady I st st2" using collect_steady [OF assms(1)] steady_trans [OF 1] by (metis snd_conv)
    have 3: "steady I st (snd (after_tools env tools policy turns res st'))" if "steady I st st'" for turns res st'
      using after_tools_steady [OF assms(1)] steady_trans [OF that] by blast
    show ?thesis using r Inr o2 1 2 3
      by (auto simp: run_batch_def steady_simps split: list.splits sum.splits collected.splits option.splits)
  qed (use r 1 in \<open>simp add: run_batch_def\<close>)
qed

text \<open>Only calls that are not destructive are admitted.\<close>

lemma admit_calls_spec:
  assumes "quiet_world env I" "\<forall>c\<in>set admitted. \<not> destructive c"
  shows "steady I st (snd (admit_calls env tools policy calls admitted errs st))"
    "fst (admit_calls env tools policy calls admitted errs st) = Inr (Admitted admitted' errs') \<Longrightarrow>
      \<forall>c\<in>set admitted'. \<not> destructive c"
  using assms(2)
proof (induction calls arbitrary: admitted errs st)
  case (Cons call calls)
  { case 1
    then show ?case using Cons.IH(1) [of "admitted @ [call]"] Cons.IH(1) [of admitted]
      by (auto simp: steady_def split: option.splits sum.splits)
  next
    case 2
    then show ?case using Cons.IH(2) [of "admitted @ [call]"] Cons.IH(2) [of admitted]
      by (auto split: if_splits option.splits sum.splits) }
qed auto

lemma generic_round_steady:
  assumes "quiet_world env I"
  shows "steady I st (snd (generic_round env tools policy calls st))"
proof -
  obtain r st1 where r: "admit_calls env tools policy calls [] [] st = (r, st1)" by fastforce
  then have 1: "steady I st st1" using admit_calls_spec(1) [OF assms, of "[]"] by (metis empty_iff list.set(1) snd_conv)
  have 2: "steady I st (snd (run_batch env tools tools policy cs [] True st1))" if "r = Inr (Admitted cs es)" for cs es
    using admit_calls_spec(2) [OF assms, of "[]" tools policy calls "[]" st cs es] r that
      steady_trans [OF 1 run_batch_steady [OF assms]] by simp
  have 3: "steady I st (snd (after_tools env tools policy [] [] st1))"
    using steady_trans [OF 1 after_tools_steady [OF assms]] .
  show ?thesis using r 1 2 3
    by (auto simp: generic_round_def steady_simps split: sum.splits admission.splits)
qed

lemma quiet_True: "quiet_world env (\<lambda>_. True)"
  by (simp add: quiet_world_def)

lemma steady_rounds: "steady I st st' \<Longrightarrow> lp_rounds st' = lp_rounds st"
  by (simp add: steady_def)

lemma generic_round_rounds:
  "generic_round env tools policy calls st = (r, st') \<Longrightarrow> lp_rounds st' = lp_rounds st"
  using steady_rounds [OF generic_round_steady [OF quiet_True]] by (metis snd_conv)

section \<open>The rounds of an answer\<close>

function process_generic_tool_calls ::
  "'w env \<Rightarrow> nat \<Rightarrow> CachedTool list \<Rightarrow> ToolRuntimePolicy \<Rightarrow> ToolCall list \<Rightarrow> 'w loop
    \<Rightarrow> (OrchestratorError, OrchestratorResult) result \<times> 'w loop" where
  "process_generic_tool_calls env max_rounds tools policy calls st =
    (if calls = [] then (Ok (Completed []), st)
     else case advance_round max_rounds st of
       (Inl e, st1) \<Rightarrow> (Err e, st1)
     | (Inr _, st1) \<Rightarrow>
        (case generic_round env tools policy calls st1 of
           (Inl e, st2) \<Rightarrow> (Err e, st2)
         | (Inr (Finish r), st2) \<Rightarrow> (Ok r, st2)
         | (Inr (Again calls2), st2) \<Rightarrow>
            if calls2 = [] then (Ok (Completed continue_loop), st2)
            else process_generic_tool_calls env max_rounds tools policy calls2 st2))"
  by pat_completeness auto
termination
  by (relation "measure (\<lambda>(env, max_rounds, tools, policy, calls, st). Suc max_rounds - lp_rounds st)")
    (auto simp: advance_round_def Let_def dest!: sym [of "(_, _)"] generic_round_rounds split: if_splits)

declare process_generic_tool_calls.simps [simp del]

lemma advance_round_Ok:
  "advance_round max_rounds st = (Inr u, st') \<longleftrightarrow> lp_rounds st < max_rounds \<and> st' = st\<lparr>lp_rounds := lp_rounds st + 1\<rparr>"
  by (auto simp: advance_round_def Let_def)

lemma advance_round_world [simp]: "lp_world (snd (advance_round max_rounds st)) = lp_world st"
  by (simp add: advance_round_def Let_def)

lemma advance_round_bound: "lp_rounds (snd (advance_round max_rounds st)) = lp_rounds st + 1"
  by (simp add: advance_round_def Let_def)

text \<open>What processing an answer does to the number of rounds and to the world.\<close>

definition progressed :: "nat \<Rightarrow> ('w \<Rightarrow> bool) \<Rightarrow> 'w loop \<Rightarrow> bool \<Rightarrow> 'w loop \<Rightarrow> bool" where
  "progressed max_rounds I st ok st' \<longleftrightarrow>
     lp_rounds st \<le> lp_rounds st' \<and> (I (lp_world st) \<longrightarrow> I (lp_world st')) \<and>
     (lp_rounds st \<le> max_rounds \<longrightarrow> lp_rounds st' \<le> Suc max_rounds \<and> (ok \<longrightarrow> lp_rounds st' \<le> max_rounds))"

lemma progressed_stop:
  assumes "steady I st st'"
  shows "progressed max_rounds I st ok st'"
  using assms by (auto simp: progressed_def steady_def)

lemma progressed_round:
  assumes adv: "advance_round max_rounds st = (a, st1)" and I: "steady I st1 st2"
    and Err: "is_ok a \<or> (\<not> is_ok r \<and> st' = st1)"
    and Ok: "is_ok a \<Longrightarrow> progressed max_rounds I st2 (is_ok r) st'"
  shows "progressed max_rounds I st (is_ok r) st' \<and> lp_rounds st < lp_rounds st'"
proof (cases "is_ok a")
  case True
  with adv have st1: "lp_rounds st < max_rounds" "st1 = st\<lparr>lp_rounds := lp_rounds st + 1\<rparr>"
    by (auto simp: is_ok_iff advance_round_Ok)
  with I Ok [OF True] show ?thesis by (auto simp: progressed_def steady_def)
next
  case False
  with Err adv show ?thesis by (auto simp: progressed_def advance_round_def Let_def split: if_splits)
qed

lemma generic_progress:
  assumes "quiet_world env I"
  shows "progressed max_rounds I st (is_ok (fst (process_generic_tool_calls env max_rounds tools policy calls st)))
      (snd (process_generic_tool_calls env max_rounds tools policy calls st)) \<and>
    (calls \<noteq> [] \<longrightarrow> lp_rounds st < lp_rounds (snd (process_generic_tool_calls env max_rounds tools policy calls st)))"
  using assms
proof (induction env max_rounds tools policy calls st rule: process_generic_tool_calls.induct)
  case (1 env max_rounds tools policy calls st)
  let ?p = "process_generic_tool_calls env max_rounds tools policy"
  show ?case
  proof (cases "calls = []")
    case True
    then show ?thesis by (simp add: process_generic_tool_calls.simps [of env max_rounds tools policy "[]"] progressed_stop)
  next
    case False
    obtain a st1 where adv: "advance_round max_rounds st = (a, st1)" by fastforce
    obtain r st2 where r: "generic_round env tools policy calls st1 = (r, st2)" by fastforce
    have I: "steady I st1 st2" using generic_round_steady [OF 1(2)] r by (metis snd_conv)
    obtain q st' where q: "?p calls st = (q, st')" by fastforce
    have "progressed max_rounds I st2 (is_ok q) st'" if ok: "is_ok a"
    proof (cases "\<exists>calls2. r = Inr (Again calls2) \<and> calls2 \<noteq> []")
      case True
      then obtain calls2 where more: "r = Inr (Again calls2)" "calls2 \<noteq> []" by blast
      obtain u where a: "a = Inr u" using ok by (auto simp: is_ok_iff)
      have "?p calls st = ?p calls2 st2"
        using False adv a r more by (simp add: process_generic_tool_calls.simps [of env max_rounds tools policy calls])
      moreover have "progressed max_rounds I st2 (is_ok (fst (?p calls2 st2))) (snd (?p calls2 st2))"
        using 1(1) [OF False adv [symmetric] a r [symmetric] more(1) refl] more(2) 1(2) by simp
      ultimately show ?thesis using q by (metis fst_conv snd_conv)
    next
      case no_more: False
      obtain u where a: "a = Inr u" using ok by (auto simp: is_ok_iff)
      have "st' = st2" using False adv a r q no_more
        by (auto simp: process_generic_tool_calls.simps [of env max_rounds tools policy calls]
            split: sum.splits round_outcome.splits if_splits)
      then show ?thesis by (simp add: progressed_stop)
    qed
    moreover have "is_ok a \<or> (\<not> is_ok q \<and> st' = st1)"
      using False adv q by (auto simp: process_generic_tool_calls.simps [of env max_rounds tools policy calls]
          is_ok_iff split: sum.splits)
    ultimately show ?thesis using progressed_round [OF adv I, of q st'] q by simp
  qed
qed

section \<open>The loop over a fixed set of tools\<close>

text \<open>The checks before a query: the emergency stop, the stall of more than 60 seconds, the steering
  channel.  The loop over dynamic tools marks the prompt as overridden when it changes it.\<close>

definition stall_note :: string where
  "stall_note = [newline, newline] @ ''[SYSTEM CORRECTIVE: Your previous approach has stalled for over 60 seconds without resolving the query. Please pivot and try a different strategy or tool immediately.]''"

definition pivot_note :: "string \<Rightarrow> string \<Rightarrow> string" where
  "pivot_note prompt instructions = prompt @ [newline, newline] @
     ''<<SYSTEM INTERRUPT: User provided new steerings: '' @ quoted instructions @ ''>>'' @ [newline] @
     ''Abort your previous tool plan and restart reasoning.''"

definition check_stall :: "'w env \<Rightarrow> bool \<Rightarrow> 'w loop \<Rightarrow> 'w loop" where
  "check_stall env dynamic st =
    (if 0 < lp_rounds st \<and> 60 < (instant env (lp_world st) - lp_last_progress st) div 1000000000
     then st\<lparr>lp_prompt := lp_prompt st @ stall_note, lp_override := dynamic \<or> lp_override st,
       lp_last_progress := instant env (lp_world st)\<rparr>
     else st)"

definition before_query :: "'w env \<Rightarrow> bool \<Rightarrow> 'w loop \<Rightarrow> (OrchestratorError, unit) result \<times> 'w loop" where
  "before_query env dynamic st =
    (if has_estop env \<and> estop env (lp_world st) then (Err UserAborted, st)
     else (let st1 = check_stall env dynamic st in
       if has_steering env
       then (case poll env (lp_world st1) of
           (Some Abort, w) \<Rightarrow> (Err UserAborted, st1\<lparr>lp_world := w\<rparr>)
         | (Some (Pivot instructions), w) \<Rightarrow> (Ok (), st1\<lparr>lp_world := w,
             lp_prompt := pivot_note (lp_prompt st1) instructions, lp_override := dynamic \<or> lp_override st1\<rparr>)
         | (None, w) \<Rightarrow> (Ok (), st1\<lparr>lp_world := w\<rparr>))
       else (Ok (), st1)))"

datatype step = Done "(OrchestratorError, OrchestratorResult) result" | Loop

definition resume :: "(OrchestratorError, OrchestratorResult) result \<times> 'w loop \<Rightarrow> step \<times> 'w loop" where
  "resume p = (case p of
      (Inl e, st) \<Rightarrow> (Done (Err e), st)
    | (Inr (ToolApprovalRequired c pending), st) \<Rightarrow> (Done (Ok (ToolApprovalRequired c pending)), st)
    | (Inr (Completed s), st) \<Rightarrow> if s \<noteq> continue_loop then (Done (Ok (Completed s)), st) else (Loop, st)
    | (Inr (AgentElevationRequired _ _), st) \<Rightarrow> (Loop, st))"

definition generic_pack :: "string \<Rightarrow> ExecutionContextPack" where
  "generic_pack prompt = \<lparr>ep_system_prompt = [], ep_history_messages = [], ep_context_blocks = [],
     ep_user_request = prompt, ep_channel = Cli, ep_execution_contract = None, ep_retrieved_context = None,
     ep_working_set = None, ep_context_plan = None\<rparr>"

definition unavailable_note :: "string \<Rightarrow> string \<Rightarrow> string option \<Rightarrow> CachedTool list \<Rightarrow> string" where
  "unavailable_note prompt name limitation tools = prompt @ [newline, newline] @ ''<<SYSTEM INTERRUPT: Tool '' @
     quoted name @ '' is not available in this session. '' @ (case limitation of Some l \<Rightarrow> l | None \<Rightarrow> []) @
     '' Use one of ['' @ join_with '', '' (map ct_name tools) @
     ''], or answer in plain text. If using a tool, return only valid JSON.>>''"

definition no_repair_note :: "string \<Rightarrow> string \<Rightarrow> string option \<Rightarrow> string" where
  "no_repair_note prompt name limitation = prompt @ [newline, newline] @ ''<<SYSTEM INTERRUPT: Tool '' @ quoted name @
     '' was requested in text, but repair fallback is disabled. '' @ (case limitation of Some l \<Rightarrow> l | None \<Rightarrow> []) @
     '' Continue without tools or request a supported model.>>''"

text \<open>A round spent on telling the model something.\<close>

definition note_round :: "'w env \<Rightarrow> nat \<Rightarrow> string \<Rightarrow> bool \<Rightarrow> 'w loop \<Rightarrow> step \<times> 'w loop" where
  "note_round env max_rounds note override st = (case advance_round max_rounds st of
      (Inl e, st1) \<Rightarrow> (Done (Err e), st1)
    | (Inr _, st1) \<Rightarrow> (Loop, st1\<lparr>lp_prompt := note, lp_override := override \<or> lp_override st1,
        lp_last_progress := instant env (lp_world st1)\<rparr>))"

definition process_generic where
  "process_generic env max_rounds tools policy calls st =
     resume (process_generic_tool_calls env max_rounds tools policy calls
       (st\<lparr>lp_pack := generic_pack (lp_prompt st), lp_override := True\<rparr>))"

definition generic_answer ::
  "'w env \<Rightarrow> nat \<Rightarrow> CachedTool list \<Rightarrow> ToolRuntimePolicy \<Rightarrow> string \<Rightarrow> 'w loop \<Rightarrow> step \<times> 'w loop" where
  "generic_answer env max_rounds tools policy answer st =
    (if repair_fallback_permitted env
     then (case repaired_tool_call_from_text env answer tools st of
         (Some c, st1) \<Rightarrow> process_generic env max_rounds tools policy [c] st1
       | (None, st1) \<Rightarrow> (case extract_tool_name_candidate (parse_json env) answer of
           Some name \<Rightarrow> note_round env max_rounds
             (unavailable_note (lp_prompt st1) name (tool_mode_limitation_message (capability env)) tools) False st1
         | None \<Rightarrow> (Done (Ok (Completed answer)), st1)))
     else (case extract_tool_name_candidate (parse_json env) answer of
         Some name \<Rightarrow> note_round env max_rounds
           (no_repair_note (lp_prompt st) name (tool_mode_limitation_message (capability env))) False st
       | None \<Rightarrow> (Done (Ok (Completed answer)), st)))"

definition generic_step ::
  "'w env \<Rightarrow> nat \<Rightarrow> CachedTool list \<Rightarrow> ToolRuntimePolicy \<Rightarrow> 'w loop \<Rightarrow> step \<times> 'w loop" where
  "generic_step env max_rounds tools policy st =
    (case before_query env False st of
       (Inl e, st1) \<Rightarrow> (Done (Err e), st1)
     | (Inr _, st1) \<Rightarrow>
        (let plain = Query (lp_prompt st1) tools policy in
         case streamed_query env ''initial'' (should_use_streaming env tools) (QueryStream (lp_prompt st1) tools policy)
             plain plain st1 of
           (Inl e, st2) \<Rightarrow> (Done (Err e), st2)
         | (Inr (TextAnswer answer), st2) \<Rightarrow> generic_answer env max_rounds tools policy answer st2
         | (Inr (ToolCalls calls), st2) \<Rightarrow> process_generic env max_rounds tools policy calls
             (st2\<lparr>lp_last_progress := instant env (lp_world st2)\<rparr>)))"

text \<open>A step of a loop that goes on has used a round.\<close>

definition stepped :: "nat \<Rightarrow> ('w \<Rightarrow> bool) \<Rightarrow> 'w loop \<Rightarrow> step \<times> 'w loop \<Rightarrow> bool" where
  "stepped max_rounds I st p \<longleftrightarrow>
     progressed max_rounds I st (case fst p of Done r \<Rightarrow> is_ok r | Loop \<Rightarrow> True) (snd p) \<and>
     (fst p = Loop \<longrightarrow> lp_rounds st < lp_rounds (snd p) \<and> lp_rounds st < max_rounds)"

lemma progressed_steady:
  "steady I st st1 \<Longrightarrow> progressed max_rounds I st1 ok st' \<Longrightarrow> progressed max_rounds I st ok st'"
  by (simp add: steady_def progressed_def)

lemma stepped_steady: "steady I st st1 \<Longrightarrow> stepped max_rounds I st1 p \<Longrightarrow> stepped max_rounds I st p"
  by (auto simp: stepped_def progressed_def steady_def)

lemma stepped_Done: "steady I st st' \<Longrightarrow> stepped max_rounds I st (Done r, st')"
  by (simp add: stepped_def progressed_stop)

lemma before_query_steady:
  assumes "quiet_world env I"
  shows "steady I st (snd (before_query env dyn st))"
proof -
  have 1: "steady I st (check_stall env dyn st)" by (simp add: check_stall_def steady_def)
  have 2: "steady I st ((check_stall env dyn st)\<lparr>lp_world := snd (poll env (lp_world (check_stall env dyn st)))\<rparr>)"
    using 1 assms by (auto simp: steady_def quiet_world_def)
  show ?thesis
    using 1 2 by (auto simp: before_query_def Let_def steady_simps split: prod.splits option.splits SteeringCommand.splits)
qed

lemma note_round_stepped: "stepped max_rounds I st (note_round env max_rounds note b st)"
  by (auto simp: note_round_def stepped_def progressed_def advance_round_def Let_def is_ok_iff)

lemma resume_stepped:
  assumes "progressed max_rounds I st (is_ok (fst p)) (snd p)"
    and "calls \<noteq> [] \<Longrightarrow> lp_rounds st < lp_rounds (snd p)" "calls = [] \<Longrightarrow> \<exists>e. fst p = Inl e \<or> fst p = Inr (Completed [])"
    and "\<And>c. lp_rounds st < lp_rounds (snd p) \<Longrightarrow> is_ok (fst p) \<Longrightarrow> lp_rounds st < max_rounds"
  shows "stepped max_rounds I st (resume p)"
  using assms by (cases p; cases "calls = []")
    (auto simp: resume_def stepped_def continue_loop_def is_ok_iff split: sum.splits OrchestratorResult.splits)

lemma generic_rounds_left:
  assumes "is_ok (fst (process_generic_tool_calls env max_rounds tools policy calls st))" "calls \<noteq> []"
  shows "lp_rounds st < max_rounds"
proof (rule ccontr)
  assume "\<not> lp_rounds st < max_rounds"
  then have "\<exists>e st1. advance_round max_rounds st = (Inl e, st1)" by (auto simp: advance_round_def Let_def)
  with assms show False by (auto simp: process_generic_tool_calls.simps [of env max_rounds tools policy calls] is_ok_iff)
qed

lemma process_generic_stepped:
  assumes "quiet_world env I"
  shows "stepped max_rounds I st (process_generic env max_rounds tools policy calls st)"
proof -
  let ?st = "st\<lparr>lp_pack := generic_pack (lp_prompt st), lp_override := True\<rparr>"
  let ?p = "process_generic_tool_calls env max_rounds tools policy calls ?st"
  have "stepped max_rounds I ?st (resume ?p)"
  proof (rule resume_stepped [where calls = calls])
    show "progressed max_rounds I ?st (is_ok (fst ?p)) (snd ?p)" using generic_progress [OF assms] by blast
    show "calls \<noteq> [] \<Longrightarrow> lp_rounds ?st < lp_rounds (snd ?p)" using generic_progress [OF assms] by blast
    show "calls = [] \<Longrightarrow> \<exists>e. fst ?p = Inl e \<or> fst ?p = Inr (Completed [])"
      by (simp add: process_generic_tool_calls.simps)
    show "lp_rounds ?st < lp_rounds (snd ?p) \<Longrightarrow> is_ok (fst ?p) \<Longrightarrow> lp_rounds ?st < max_rounds" for c
      using generic_rounds_left [of env max_rounds tools policy calls ?st]
      by (cases "calls = []") (auto simp: process_generic_tool_calls.simps [of env max_rounds tools policy "[]"])
  qed
  then show ?thesis
    unfolding process_generic_def by (rule stepped_steady [rotated]) (simp add: steady_simps)
qed

lemma generic_answer_stepped:
  assumes "quiet_world env I"
  shows "stepped max_rounds I st (generic_answer env max_rounds tools policy answer st)"
proof -
  obtain c st1 where c: "repaired_tool_call_from_text env answer tools st = (c, st1)" by fastforce
  then have "steady I st st1" using repaired_steady by (metis snd_conv)
  note to = stepped_steady [OF this]
  show ?thesis
    using c \<open>steady I st st1\<close> to [OF process_generic_stepped [OF assms]] to [OF note_round_stepped]
    by (auto simp: generic_answer_def stepped_Done note_round_stepped split: option.splits)
qed

lemma generic_step_stepped:
  assumes "quiet_world env I"
  shows "stepped max_rounds I st (generic_step env max_rounds tools policy st)"
proof -
  obtain a st1 where a: "before_query env False st = (a, st1)" by fastforce
  then have 1: "steady I st st1" using before_query_steady [OF assms] by (metis snd_conv)
  let ?s = "streamed_query env ''initial'' (should_use_streaming env tools) (QueryStream (lp_prompt st1) tools policy)
    (Query (lp_prompt st1) tools policy) (Query (lp_prompt st1) tools policy) st1"
  obtain r st2 where r: "?s = (r, st2)" by fastforce
  have 2: "steady I st st2" using steady_trans [OF 1 streamed_steady [OF assms]] r by (metis snd_conv)
  then have 3: "steady I st (st2\<lparr>lp_last_progress := n\<rparr>)" for n by (simp add: steady_simps)
  show ?thesis
    using a r 1 2 stepped_steady [OF 2 generic_answer_stepped [OF assms]]
      stepped_steady [OF 3 process_generic_stepped [OF assms]]
    by (auto simp: generic_step_def stepped_Done Let_def split: sum.splits LLMResponse.splits)
qed

function run_with_tool_runtime_policy ::
  "'w env \<Rightarrow> nat \<Rightarrow> CachedTool list \<Rightarrow> ToolRuntimePolicy \<Rightarrow> 'w loop
    \<Rightarrow> (OrchestratorError, OrchestratorResult) result \<times> 'w loop" where
  "run_with_tool_runtime_policy env max_rounds tools policy st =
    (case generic_step env max_rounds tools policy st of
       (Done r, st') \<Rightarrow> (r, st')
     | (Loop, st') \<Rightarrow> run_with_tool_runtime_policy env max_rounds tools policy st')"
  by pat_completeness auto
termination
proof (relation "measure (\<lambda>(env, max_rounds, tools, policy, st). Suc max_rounds - lp_rounds st)", goal_cases)
  case (2 env max_rounds tools policy st s st')
  then have "stepped max_rounds (\<lambda>_. True) st (Loop, st')"
    using generic_step_stepped [OF quiet_True] by metis
  then show ?case by (auto simp: stepped_def progressed_def)
qed simp

declare run_with_tool_runtime_policy.simps [simp del]

definition start_loop :: "'w env \<Rightarrow> string \<Rightarrow> ExecutionContextPack \<Rightarrow> 'w \<Rightarrow> 'w loop" where
  "start_loop env prompt pack w = \<lparr>lp_rounds = 0, lp_prompt = prompt, lp_pack = pack, lp_override = False,
     lp_last_progress = instant env w, lp_events = [], lp_world = w\<rparr>"

definition run_agent where
  "run_agent env initial_prompt tools max_rounds policy w =
     run_with_tool_runtime_policy env max_rounds tools policy
       (start_loop env initial_prompt (generic_pack initial_prompt) w)"

section \<open>The loop over dynamic tools\<close>

record ToolSelectionDecision =
  ts_tool_choice :: ToolChoicePolicy
  ts_tool_calling_mode :: ToolCallingMode
  ts_text_fallback_mode :: bool
  ts_available_tool_names :: "string list"
  ts_selected_tool_names :: "string list"

text \<open>The arguments of a dynamic run: the tools of the session cache, the search of the registry
  (three results, each with its visibility), the capability of the model and the tool selection.\<close>

record dynamic_run =
  dy_active_tools :: "CachedTool list"
  dy_search :: "string \<Rightarrow> (string, (CachedTool \<times> ToolVisibilityDecision) list) result"
  dy_capability :: "ModelCapabilityProfile option"
  dy_selection :: "ToolSelectionDecision option"

definition tool_selection_requires_tool_round :: "ToolSelectionDecision option \<Rightarrow> bool" where
  "tool_selection_requires_tool_round decision = (case decision of
      None \<Rightarrow> False
    | Some d \<Rightarrow> ts_tool_calling_mode d = TextFallbackWithRepair \<and> ts_selected_tool_names d \<noteq> [])"

definition selected_tool_names_for_obligation :: "ToolSelectionDecision option \<Rightarrow> CachedTool list \<Rightarrow> string list" where
  "selected_tool_names_for_obligation decision active = (case decision of
      Some d \<Rightarrow> if ts_selected_tool_names d \<noteq> [] then ts_selected_tool_names d
        else if ts_available_tool_names d \<noteq> [] then ts_available_tool_names d else map ct_name active
    | None \<Rightarrow> map ct_name active)"

definition extract_registry_query :: "(string \<Rightarrow> (string, json) result) \<Rightarrow> string \<Rightarrow> string option" where
  "extract_registry_query parse args = (case parse args of
      Inl _ \<Rightarrow> None | Inr v \<Rightarrow> Option.bind (jget v ''query'') as_str)"

definition visible_tools :: "'w env \<Rightarrow> dynamic_run \<Rightarrow> CachedTool list" where
  "visible_tools env dy = filter_tools_for_model_capability_with_repair (normalize_schema env)
     (dy_active_tools dy) (dy_capability dy) (allow_repair env)"

definition search_note :: "(CachedTool \<times> ToolVisibilityDecision) list \<Rightarrow> string" where
  "search_note results =
    (let available = map (ct_name \<circ> fst) (filter (vd_available \<circ> snd) results);
         hid = map (\<lambda>(t, v). as_message (vd_reason v) (ct_name t)) (filter (\<lambda>(t, v). \<not> vd_available v) results) in
     ''[Tool: search_tool_registry] Result: '' @
     (if available = []
      then (if hid = [] then ''no matching tools found'' else ''no compatible tools found. '' @ join_with ''; '' hid)
      else ''discovered ['' @ join_with '', '' available @ ''. Use one of these already-bound tools if available, '' @
        ''or bind/import the desired tool explicitly before retrying.''))"

fun admit_dynamic ::
  "'w env \<Rightarrow> dynamic_run \<Rightarrow> ToolRuntimePolicy \<Rightarrow> ToolCall list \<Rightarrow> ToolCall list \<Rightarrow> string list \<Rightarrow> 'w loop
    \<Rightarrow> (OrchestratorError, admission) result \<times> 'w loop" where
  "admit_dynamic env dy policy [] admitted found st = (Ok (Admitted admitted found), st)"
| "admit_dynamic env dy policy (call # calls) admitted found st =
    (if tl_name call = ''search_tool_registry''
     then (case dy_search dy (case extract_registry_query (parse_json env) (tl_arguments call) of Some q \<Rightarrow> q | None \<Rightarrow> []) of
         Inl e \<Rightarrow> (Err (ToolError e), st)
       | Inr results \<Rightarrow> admit_dynamic env dy policy calls admitted (found @ [search_note results]) st)
     else if destructive call then (Ok (NeedsApproval call), st)
     else case run_before_tool_middlewares env (lp_pack st) (dy_active_tools dy) policy call of
       Inl e \<Rightarrow> (Err e, st)
     | Inr pack \<Rightarrow> admit_dynamic env dy policy calls (admitted @ [call]) found (st\<lparr>lp_pack := pack\<rparr>))"

definition dynamic_round ::
  "'w env \<Rightarrow> dynamic_run \<Rightarrow> ToolRuntimePolicy \<Rightarrow> ToolCall list \<Rightarrow> 'w loop
    \<Rightarrow> (OrchestratorError, round_outcome) result \<times> 'w loop" where
  "dynamic_round env dy policy calls st =
    (case admit_dynamic env dy policy calls [] [] st of
       (Inl e, st1) \<Rightarrow> (Err e, st1)
     | (Inr (NeedsApproval call), st1) \<Rightarrow> (Ok (Finish (ToolApprovalRequired call (lp_prompt st1))), st1)
     | (Inr (Admitted admitted found), st1) \<Rightarrow>
        if admitted = [] then after_tools env (visible_tools env dy) policy [] found st1
        else run_batch env (dy_active_tools dy) (visible_tools env dy) policy admitted found False st1)"

lemma admit_dynamic_spec:
  assumes "quiet_world env I" "\<forall>c\<in>set admitted. \<not> destructive c"
  shows "steady I st (snd (admit_dynamic env dy policy calls admitted found st))"
    "fst (admit_dynamic env dy policy calls admitted found st) = Inr (Admitted admitted' found') \<Longrightarrow>
      \<forall>c\<in>set admitted'. \<not> destructive c"
  using assms(2)
proof (induction calls arbitrary: admitted found st)
  case (Cons call calls)
  { case 1
    then show ?case using Cons.IH(1) [of "admitted @ [call]"] Cons.IH(1) [of admitted]
      by (auto simp: steady_def split: option.splits sum.splits)
  next
    case 2
    then show ?case using Cons.IH(2) [of "admitted @ [call]"] Cons.IH(2) [of admitted]
      by (auto split: if_splits option.splits sum.splits) }
qed auto

lemma dynamic_round_steady:
  assumes "quiet_world env I"
  shows "steady I st (snd (dynamic_round env dy policy calls st))"
proof -
  obtain r st1 where r: "admit_dynamic env dy policy calls [] [] st = (r, st1)" by fastforce
  then have 1: "steady I st st1" using admit_dynamic_spec(1) [OF assms, of "[]"] by (metis empty_iff list.set(1) snd_conv)
  have 2: "steady I st (snd (run_batch env av tools policy cs ns b st1))" if "r = Inr (Admitted cs es)" for cs es av tools ns b
    using admit_dynamic_spec(2) [OF assms, of "[]" dy policy calls "[]" st cs es] r that
      steady_trans [OF 1 run_batch_steady [OF assms]] by simp
  have 3: "steady I st (snd (after_tools env tools policy [] ns st1))" for tools ns
    using steady_trans [OF 1 after_tools_steady [OF assms]] .
  show ?thesis using r 1 2 3
    by (auto simp: dynamic_round_def steady_simps split: sum.splits admission.splits)
qed

lemma dynamic_round_rounds:
  "dynamic_round env dy policy calls st = (r, st') \<Longrightarrow> lp_rounds st' = lp_rounds st"
  using steady_rounds [OF dynamic_round_steady [OF quiet_True]] by (metis snd_conv)

function process_dynamic_tool_calls ::
  "'w env \<Rightarrow> nat \<Rightarrow> dynamic_run \<Rightarrow> ToolRuntimePolicy \<Rightarrow> ToolCall list \<Rightarrow> 'w loop
    \<Rightarrow> (OrchestratorError, OrchestratorResult) result \<times> 'w loop" where
  "process_dynamic_tool_calls env max_rounds dy policy calls st =
    (if has_estop env \<and> estop env (lp_world st) then (Err UserAborted, st)
     else if calls = [] then (Ok (Completed []), st)
     else case advance_round max_rounds st of
       (Inl e, st1) \<Rightarrow> (Err e, st1)
     | (Inr _, st1) \<Rightarrow>
        (case dynamic_round env dy policy calls st1 of
           (Inl e, st2) \<Rightarrow> (Err e, st2)
         | (Inr (Finish r), st2) \<Rightarrow> (Ok r, st2)
         | (Inr (Again calls2), st2) \<Rightarrow>
            if calls2 = [] then (Ok (Completed continue_loop), st2\<lparr>lp_last_progress := instant env (lp_world st2)\<rparr>)
            else process_dynamic_tool_calls env max_rounds dy policy calls2 st2))"
  by pat_completeness auto
termination
  by (relation "measure (\<lambda>(env, max_rounds, dy, policy, calls, st). Suc max_rounds - lp_rounds st)")
    (auto simp: advance_round_def Let_def dest!: sym [of "(_, _)"] dynamic_round_rounds split: if_splits)

declare process_dynamic_tool_calls.simps [simp del]

definition process_dynamic where
  "process_dynamic env max_rounds dy policy calls st =
     resume (process_dynamic_tool_calls env max_rounds dy policy calls st)"

definition obligation_note :: "string \<Rightarrow> string list \<Rightarrow> string" where
  "obligation_note prompt names = prompt @ [newline, newline] @
     ''<<SYSTEM INTERRUPT: A relevant tool path is available for this request. Do not answer with a plan or promise. '' @
     ''Either return a valid JSON tool call using one of ['' @ join_with '', '' names @
     ''], or explain concretely why none of the available tools can satisfy the request.>>''"

text \<open>The flag is \<open>enforced_tool_obligation\<close>: the model is reminded of its tools once.\<close>

definition dynamic_answer ::
  "'w env \<Rightarrow> nat \<Rightarrow> dynamic_run \<Rightarrow> ToolRuntimePolicy \<Rightarrow> bool \<Rightarrow> string \<Rightarrow> 'w loop \<Rightarrow> step \<times> bool \<times> 'w loop" where
  "dynamic_answer env max_rounds dy policy enforced answer st =
    (let tools = visible_tools env dy; limitation = tool_mode_limitation_message (dy_capability dy);
         profile = (case dy_capability dy of Some p \<Rightarrow> Some p | None \<Rightarrow> capability env) in
     if repair_fallback_permitted env
     then (case repaired_tool_call_from_text env answer tools st of
         (Some c, st1) \<Rightarrow> (case process_dynamic env max_rounds dy policy [c] st1 of (s, st2) \<Rightarrow> (s, enforced, st2))
       | (None, st1) \<Rightarrow> (case extract_tool_name_candidate (parse_json env) answer of
           Some name \<Rightarrow> (case note_round env max_rounds (unavailable_note (lp_prompt st1) name limitation tools) True st1
             of (s, st2) \<Rightarrow> (s, enforced, st2))
         | None \<Rightarrow>
            if tool_calling_mode_for_model_with_repair profile (allow_repair env) = TextFallbackWithRepair \<and> \<not> enforced
                \<and> tool_selection_requires_tool_round (dy_selection dy) \<and> tools \<noteq> []
            then (case note_round env max_rounds (obligation_note (lp_prompt st1)
                (selected_tool_names_for_obligation (dy_selection dy) tools)) True st1 of (s, st2) \<Rightarrow> (s, True, st2))
            else (Done (Ok (Completed answer)), enforced, st1)))
     else (case extract_tool_name_candidate (parse_json env) answer of
         Some name \<Rightarrow> (case note_round env max_rounds (no_repair_note (lp_prompt st) name limitation) False st
           of (s, st2) \<Rightarrow> (s, enforced, st2))
       | None \<Rightarrow> (Done (Ok (Completed answer)), enforced, st)))"

definition dynamic_step ::
  "'w env \<Rightarrow> nat \<Rightarrow> dynamic_run \<Rightarrow> ToolRuntimePolicy \<Rightarrow> bool \<Rightarrow> 'w loop \<Rightarrow> step \<times> bool \<times> 'w loop" where
  "dynamic_step env max_rounds dy policy enforced st =
    (case before_query env True st of
       (Inl e, st1) \<Rightarrow> (Done (Err e), enforced, st1)
     | (Inr _, st1) \<Rightarrow>
        (let tools = visible_tools env dy in
         case streamed_query env ''initial'' (should_use_streaming env tools) (QueryStream (lp_prompt st1) tools policy)
             (QueryContext (lp_pack st1) tools policy)
             (if lp_override st1 then Query (lp_prompt st1) tools policy else QueryContext (lp_pack st1) tools policy) st1 of
           (Inl e, st2) \<Rightarrow> (Done (Err e), enforced, st2)
         | (Inr (TextAnswer answer), st2) \<Rightarrow> dynamic_answer env max_rounds dy policy enforced answer st2
         | (Inr (ToolCalls calls), st2) \<Rightarrow>
            (case process_dynamic env max_rounds dy policy calls (st2\<lparr>lp_last_progress := instant env (lp_world st2)\<rparr>)
              of (s, st3) \<Rightarrow> (s, enforced, st3))))"

lemma dynamic_progress:
  assumes "quiet_world env I"
  shows "progressed max_rounds I st (is_ok (fst (process_dynamic_tool_calls env max_rounds dy policy calls st)))
      (snd (process_dynamic_tool_calls env max_rounds dy policy calls st)) \<and>
    (calls \<noteq> [] \<longrightarrow> is_ok (fst (process_dynamic_tool_calls env max_rounds dy policy calls st)) \<longrightarrow>
      lp_rounds st < lp_rounds (snd (process_dynamic_tool_calls env max_rounds dy policy calls st)))"
  using assms
proof (induction env max_rounds dy policy calls st rule: process_dynamic_tool_calls.induct)
  case (1 env max_rounds dy policy calls st)
  let ?p = "process_dynamic_tool_calls env max_rounds dy policy"
  show ?case
  proof (cases "(has_estop env \<and> estop env (lp_world st)) \<or> calls = []")
    case True
    then show ?thesis
      by (auto simp: process_dynamic_tool_calls.simps [of env max_rounds dy policy calls] progressed_stop is_ok_iff)
  next
    case False
    then have go: "\<not> (has_estop env \<and> estop env (lp_world st))" "calls \<noteq> []" by auto
    obtain a st1 where adv: "advance_round max_rounds st = (a, st1)" by fastforce
    obtain r st2 where r: "dynamic_round env dy policy calls st1 = (r, st2)" by fastforce
    have I: "steady I st1 st2" using dynamic_round_steady [OF 1(2)] r by (metis snd_conv)
    obtain q st' where q: "?p calls st = (q, st')" by fastforce
    have "progressed max_rounds I st2 (is_ok q) st'" if ok: "is_ok a"
    proof (cases "\<exists>calls2. r = Inr (Again calls2) \<and> calls2 \<noteq> []")
      case True
      then obtain calls2 where more: "r = Inr (Again calls2)" "calls2 \<noteq> []" by blast
      obtain u where a: "a = Inr u" using ok by (auto simp: is_ok_iff)
      have "?p calls st = ?p calls2 st2"
        using go adv a r more by (subst process_dynamic_tool_calls.simps) auto
      moreover have "progressed max_rounds I st2 (is_ok (fst (?p calls2 st2))) (snd (?p calls2 st2))"
        using 1(1) [OF go adv [symmetric] a r [symmetric] more(1) refl] more(2) 1(2) by simp
      ultimately show ?thesis using q by (metis fst_conv snd_conv)
    next
      case no_more: False
      obtain u where a: "a = Inr u" using ok by (auto simp: is_ok_iff)
      have "steady I st2 st'" using go adv a r q no_more
        by (auto simp: process_dynamic_tool_calls.simps [of env max_rounds dy policy calls] steady_simps
            split: sum.splits round_outcome.splits if_splits)
      then show ?thesis by (rule progressed_stop)
    qed
    moreover have "is_ok a \<or> (\<not> is_ok q \<and> st' = st1)"
      using go adv q by (auto simp: process_dynamic_tool_calls.simps [of env max_rounds dy policy calls]
          is_ok_iff split: sum.splits)
    ultimately show ?thesis using progressed_round [OF adv I, of q st'] q by simp
  qed
qed

lemma dynamic_rounds_left:
  assumes "is_ok (fst (process_dynamic_tool_calls env max_rounds dy policy calls st))" "calls \<noteq> []"
  shows "lp_rounds st < max_rounds"
proof (rule ccontr)
  assume "\<not> lp_rounds st < max_rounds"
  then have "\<exists>e st1. advance_round max_rounds st = (Inl e, st1)" by (auto simp: advance_round_def Let_def)
  with assms show False
    by (auto simp: process_dynamic_tool_calls.simps [of env max_rounds dy policy calls] is_ok_iff split: if_splits)
qed

lemma process_dynamic_stepped:
  assumes "quiet_world env I"
  shows "stepped max_rounds I st (process_dynamic env max_rounds dy policy calls st)"
proof -
  let ?p = "process_dynamic_tool_calls env max_rounds dy policy calls st"
  have P: "progressed max_rounds I st (is_ok (fst ?p)) (snd ?p)"
    "calls \<noteq> [] \<Longrightarrow> is_ok (fst ?p) \<Longrightarrow> lp_rounds st < lp_rounds (snd ?p) \<and> lp_rounds st < max_rounds"
    using dynamic_progress [OF assms, of max_rounds st dy policy calls] dynamic_rounds_left [of env max_rounds dy policy calls st]
    by blast+
  have nil: "calls = [] \<Longrightarrow> \<exists>e. fst ?p = Inl e \<or> fst ?p = Inr (Completed [])"
    by (simp add: process_dynamic_tool_calls.simps)
  show ?thesis
    unfolding process_dynamic_def using P nil
    by (cases ?p; cases "calls = []")
      (auto simp: resume_def stepped_def continue_loop_def is_ok_iff split: sum.splits OrchestratorResult.splits)
qed

lemma dynamic_answer_stepped:
  assumes "quiet_world env I" "dynamic_answer env max_rounds dy policy enforced answer st = (s, b, st')"
  shows "stepped max_rounds I st (s, st')"
proof -
  obtain c st1 where c: "repaired_tool_call_from_text env answer (visible_tools env dy) st = (c, st1)" by fastforce
  then have "steady I st st1" using repaired_steady by (metis snd_conv)
  note to = stepped_steady [OF this]
  have pd: "stepped max_rounds I st (s', st2)" if "process_dynamic env max_rounds dy policy cs st1 = (s', st2)" for cs s' st2
    using to [OF process_dynamic_stepped [OF assms(1)]] that by metis
  have nr: "stepped max_rounds I st1 (s', st2)" "stepped max_rounds I st (s', st2)"
    if "note_round env max_rounds nt o2 st1 = (s', st2)" for nt o2 s' st2
    using to [OF note_round_stepped] note_round_stepped that by metis+
  have nr0: "stepped max_rounds I st (s', st2)" if "note_round env max_rounds nt o2 st = (s', st2)" for nt o2 s' st2
    using note_round_stepped that by metis
  show ?thesis
    using c assms(2) \<open>steady I st st1\<close>
    by (auto simp: dynamic_answer_def Let_def stepped_Done dest: pd nr nr0 split: option.splits if_splits prod.splits)
qed

lemma dynamic_step_stepped:
  assumes "quiet_world env I" "dynamic_step env max_rounds dy policy enforced st = (s, b, st')"
  shows "stepped max_rounds I st (s, st')"
proof -
  obtain a st1 where a: "before_query env True st = (a, st1)" by fastforce
  then have 1: "steady I st st1" using before_query_steady [OF assms(1)] by (metis snd_conv)
  let ?tools = "visible_tools env dy"
  obtain r st2 where r: "streamed_query env ''initial'' (should_use_streaming env ?tools) (QueryStream (lp_prompt st1) ?tools policy)
    (QueryContext (lp_pack st1) ?tools policy)
    (if lp_override st1 then Query (lp_prompt st1) ?tools policy else QueryContext (lp_pack st1) ?tools policy) st1 = (r, st2)"
    by fastforce
  have 2: "steady I st st2" using steady_trans [OF 1 streamed_steady [OF assms(1)]] r by (metis snd_conv)
  let ?st2 = "st2\<lparr>lp_last_progress := instant env (lp_world st2)\<rparr>"
  have 3: "steady I st ?st2" using 2 by (simp add: steady_simps)
  have pd: "stepped max_rounds I st (s', st3)" if "process_dynamic env max_rounds dy policy cs ?st2 = (s', st3)" for cs s' st3
    using stepped_steady [OF 3 process_dynamic_stepped [OF assms(1)]] that by metis
  have da: "stepped max_rounds I st (s', st3)"
    if "dynamic_answer env max_rounds dy policy enforced answer st2 = (s', b', st3)" for answer s' b' st3
    using stepped_steady [OF 2 dynamic_answer_stepped [OF assms(1) that]] .
  show ?thesis
    using a r 1 2 assms(2)
    by (auto simp: dynamic_step_def stepped_Done Let_def dest: pd da split: sum.splits LLMResponse.splits prod.splits)
qed

function run_dynamic ::
  "'w env \<Rightarrow> nat \<Rightarrow> dynamic_run \<Rightarrow> ToolRuntimePolicy \<Rightarrow> bool \<Rightarrow> 'w loop
    \<Rightarrow> (OrchestratorError, OrchestratorResult) result \<times> 'w loop" where
  "run_dynamic env max_rounds dy policy enforced st =
    (case dynamic_step env max_rounds dy policy enforced st of
       (Done r, _, st') \<Rightarrow> (r, st')
     | (Loop, enforced', st') \<Rightarrow> run_dynamic env max_rounds dy policy enforced' st')"
  by pat_completeness auto
termination
proof (relation "measure (\<lambda>(env, max_rounds, dy, policy, enforced, st). Suc max_rounds - lp_rounds st)", goal_cases)
  case (2 env max_rounds dy policy enforced st s p b st')
  then have "stepped max_rounds (\<lambda>_. True) st (Loop, st')"
    using dynamic_step_stepped [OF quiet_True] by metis
  then show ?case by (auto simp: stepped_def progressed_def)
qed simp

declare run_dynamic.simps [simp del]

text \<open>\<open>run_for_request_with_dynamic_tools\<close>: the context pack is built or given, the prompt is its
  rendering (\<open>render\<close>).\<close>

definition run_for_request_with_dynamic_tools where
  "run_for_request_with_dynamic_tools env render dy max_rounds policy pack w =
     run_dynamic env max_rounds dy policy False (start_loop env (render pack) pack w)"

section \<open>Properties\<close>

lemma generic_run_progress:
  assumes "quiet_world env I"
  shows "progressed max_rounds I st (is_ok (fst (run_with_tool_runtime_policy env max_rounds tools policy st)))
    (snd (run_with_tool_runtime_policy env max_rounds tools policy st))"
  using assms
proof (induction env max_rounds tools policy st rule: run_with_tool_runtime_policy.induct)
  case (1 env max_rounds tools policy st)
  obtain s st' where s: "generic_step env max_rounds tools policy st = (s, st')" by fastforce
  have st: "stepped max_rounds I st (s, st')" using generic_step_stepped [OF 1(2)] s by metis
  show ?case
  proof (cases s)
    case (Done r)
    with s st show ?thesis by (simp add: run_with_tool_runtime_policy.simps [of env max_rounds tools policy st] stepped_def)
  next
    case Loop
    with s st 1(1) [OF s [symmetric] Loop 1(2)] show ?thesis
      by (auto simp: run_with_tool_runtime_policy.simps [of env max_rounds tools policy st] stepped_def progressed_def)
  qed
qed

lemma dynamic_run_progress:
  assumes "quiet_world env I"
  shows "progressed max_rounds I st (is_ok (fst (run_dynamic env max_rounds dy policy enforced st)))
    (snd (run_dynamic env max_rounds dy policy enforced st))"
  using assms
proof (induction env max_rounds dy policy enforced st rule: run_dynamic.induct)
  case (1 env max_rounds dy policy enforced st)
  obtain s b st' where s: "dynamic_step env max_rounds dy policy enforced st = (s, b, st')" by (metis prod_cases3)
  have st: "stepped max_rounds I st (s, st')" using dynamic_step_stepped [OF 1(2) s] .
  show ?case
  proof (cases s)
    case (Done r)
    with s st show ?thesis by (simp add: run_dynamic.simps [of env max_rounds dy policy enforced st] stepped_def)
  next
    case Loop
    with s st 1(1) [OF s [symmetric] Loop refl 1(2)] show ?thesis
      by (auto simp: run_dynamic.simps [of env max_rounds dy policy enforced st] stepped_def progressed_def)
  qed
qed

text \<open>C2: whatever the model answers, a run never executes a shell command or a file write on its own:
  any set of states of the world that the model, the clock, the steering channel and the other tools
  keep is kept by the whole run, over fixed and over dynamic tools.  Both runs end, count at most one
  round above their bound, and within the bound when they succeed.\<close>

theorem run_never_executes_destructive:
  assumes "quiet_world env I" "I w"
  shows "I (lp_world (snd (run_agent env prompt tools max_rounds policy w))) \<and>
     I (lp_world (snd (run_for_request_with_dynamic_tools env render dy max_rounds policy pack w))) \<and>
     lp_rounds (snd (run_agent env prompt tools max_rounds policy w)) \<le>
       (if is_ok (fst (run_agent env prompt tools max_rounds policy w)) then max_rounds else Suc max_rounds) \<and>
     lp_rounds (snd (run_for_request_with_dynamic_tools env render dy max_rounds policy pack w)) \<le>
       (if is_ok (fst (run_for_request_with_dynamic_tools env render dy max_rounds policy pack w))
        then max_rounds else Suc max_rounds)"
proof -
  have start: "lp_rounds (start_loop env p k w) = 0" "lp_world (start_loop env p k w) = w" for p k
    by (simp_all add: start_loop_def)
  show ?thesis
    using generic_run_progress [OF assms(1), of max_rounds "start_loop env prompt (generic_pack prompt) w" tools policy]
      dynamic_run_progress [OF assms(1), of max_rounds "start_loop env (render pack) pack w" dy policy False] assms(2)
    by (simp add: run_agent_def run_for_request_with_dynamic_tools_def progressed_def start)
qed

text \<open>A world that logs the executed calls and counts the queries; the model first reads a file, then
  tries to write one.\<close>

definition ex_log_call :: "string \<Rightarrow> ToolCall" where
  "ex_log_call name = \<lparr>tl_invocation_id = None, tl_name = name, tl_arguments = ''{}''\<rparr>"

definition ex_log_env :: "(ToolCall list \<times> nat) env" where
  "ex_log_env = \<lparr>capability = None, model_label = None, allow_repair = False, has_steering = False, has_estop = False,
     ask = (\<lambda>q (l, n). (Ok (ToolCalls [ex_log_call (if n = 0 then ''read_file'' else ''write_file'')]), (l, n + 1))),
     exec = (\<lambda>c (l, n). (Ok (Text ''done''), (l @ [c], n))),
     run_all = (\<lambda>cs (l, n). (map (\<lambda>c. Ok (Text ''done'')) cs, (l @ cs, n))),
     race_all = (\<lambda>cs (l, n). (Ok (map (\<lambda>c. Ok (Text ''done'')) cs), (l @ cs, n))),
     poll = (\<lambda>w. (None, w)), estop = (\<lambda>w. False), instant = (\<lambda>w. 0), clock = (\<lambda>w. (0, w)),
     before_hooks = [], after_hooks = [], parse_json = (\<lambda>s. Ok (JObject [])), show_json = (\<lambda>v. ''{}''),
     normalize_schema = (\<lambda>s. Ok s), schema_errors = (\<lambda>v. Some (\<lambda>a. []))\<rparr>"

definition ex_log_policy :: ToolRuntimePolicy where
  "ex_log_policy = \<lparr>tool_choice = AutoChoice, allow_parallel_tool_calls = False\<rparr>"

definition ex_log_run :: dynamic_run where
  "ex_log_run = \<lparr>dy_active_tools = [ex_call_tool], dy_search = (\<lambda>q. Ok []), dy_capability = None, dy_selection = None\<rparr>"

theorem run_never_executes_destructive_witness:
  "list_all (\<lambda>c. \<not> destructive c)
     (fst (lp_world (snd (run_agent ex_log_env ''hi'' [ex_call_tool] 5 ex_log_policy ([], 0)))))"
proof -
  have "quiet_world ex_log_env (\<lambda>(l, n). list_all (\<lambda>c. \<not> destructive c) l)"
    by (auto simp: quiet_world_def ex_log_env_def list_all_iff)
  from run_never_executes_destructive [OF this, of "([], 0)" "''hi''" "[ex_call_tool]" 5 ex_log_policy
      "\<lambda>p. ''hi''" ex_log_run "generic_pack ''hi''"]
  show ?thesis by (simp add: case_prod_beta)
qed

text \<open>A batch with a destructive or an invalid call runs no tool at all: the world is what it was,
  and the run asks for approval, tells the model what to correct, or fails; calls of the batch that
  were in order have not been executed either.\<close>

lemma invalid_batch_runs_nothing:
  assumes "call \<in> set calls"
    and "destructive call \<or> (tl_name call \<noteq> ''search_tool_registry'' \<and> validation_error env tools call \<noteq> None)"
  shows "lp_world (snd (generic_round env tools policy calls st)) = lp_world st"
proof -
  define P where "P cs adm errs s0 \<longleftrightarrow> lp_world (snd (admit_calls env tools policy cs adm errs s0)) = lp_world s0 \<and>
      (\<forall>a e. fst (admit_calls env tools policy cs adm errs s0) = Inr (Admitted a e) \<longrightarrow> e \<noteq> [])" for cs adm errs s0
  have "P calls adm errs s0" if "errs \<noteq> [] \<or> call \<in> set calls" for adm errs s0
    using that
  proof (induction calls arbitrary: adm errs s0)
    case (Cons c calls adm errs s0)
    have same: "P (c # calls) adm errs s0 = P calls adm' errs' s1"
      if "admit_calls env tools policy (c # calls) adm errs s0 = admit_calls env tools policy calls adm' errs' s1"
        "lp_world s1 = lp_world s0" for adm' errs' s1
      using that by (simp only: P_def)
    show ?case
    proof (cases "destructive c")
      case True
      then show ?thesis by (simp add: P_def)
    next
      case False
      note nd = this
      show ?thesis
      proof (cases "tl_name c = ''search_tool_registry''")
        case True
        with nd assms(2) Cons.prems have "P calls (adm @ [c]) errs s0" by (intro Cons.IH) auto
        with nd True show ?thesis by (subst same [of "adm @ [c]" errs s0]) simp_all
      next
        case ns: False
        show ?thesis
        proof (cases "validation_error env tools c")
          case None
          show ?thesis
          proof (cases "run_before_tool_middlewares env (lp_pack s0) tools policy c")
            case (Inl e)
            with nd ns None show ?thesis by (simp add: P_def)
          next
            case (Inr k)
            have "P calls (adm @ [c]) errs (s0\<lparr>lp_pack := k\<rparr>)" using None nd ns assms(2) Cons.prems by (intro Cons.IH) auto
            with nd ns None Inr show ?thesis by (subst same [of "adm @ [c]" errs "s0\<lparr>lp_pack := k\<rparr>"]) simp_all
          qed
        next
          case (Some e)
          have "P calls adm (errs @ [e]) s0" by (intro Cons.IH) simp
          with nd ns Some show ?thesis by (subst same [of adm "errs @ [e]" s0]) simp_all
        qed
      qed
    qed
  qed (simp add: P_def)
  then have "P calls [] [] st" using assms(1) by simp
  then show ?thesis
    by (cases "admit_calls env tools policy calls [] [] st")
      (auto simp: P_def generic_round_def split: sum.splits admission.splits)
qed

lemma invalid_batch_runs_nothing_example:
  "lp_world (snd (generic_round ex_log_env [ex_call_tool] ex_log_policy
     [ex_log_call ''read_file'', ex_log_call ''run_shell''] (start_loop ex_log_env ''hi'' (generic_pack ''hi'') ([], 0)))) = ([], 0)"
proof -
  have "lp_world (start_loop ex_log_env ''hi'' (generic_pack ''hi'') ([], 0)) = ([], 0)"
    by (simp add: start_loop_def)
  moreover have "destructive (ex_log_call ''run_shell'')" by code_simp
  ultimately show ?thesis
    using invalid_batch_runs_nothing [of "ex_log_call ''run_shell''" "[ex_log_call ''read_file'', ex_log_call ''run_shell'']"
        ex_log_env "[ex_call_tool]" ex_log_policy "start_loop ex_log_env ''hi'' (generic_pack ''hi'') ([], 0)"]
    by simp
qed

text \<open>An execution contract bounds the classes of the tools that run, when no further middleware is
  registered.\<close>

lemma contract_respected:
  assumes "before_hooks env = []" "ep_execution_contract (lp_pack st) = Some c" "xc_allowed_tool_classes c \<noteq> []"
  shows "fst (admit_dynamic env dy policy calls adm found st) = Inr (Admitted adm' found') \<Longrightarrow>
     \<forall>x\<in>set adm. tool_class_for_name (tl_name x) \<in> set (xc_allowed_tool_classes c) \<Longrightarrow>
     \<forall>x\<in>set adm'. tool_class_for_name (tl_name x) \<in> set (xc_allowed_tool_classes c)"
  using assms(2)
proof (induction calls arbitrary: adm found st)
  case (Cons call calls)
  have ok: "tool_class_for_name (tl_name call) \<in> set (xc_allowed_tool_classes c) \<and> pack = lp_pack st"
    if "run_before_tool_middlewares env (lp_pack st) tools policy call = Inr pack" for tools pack
    using that assms(1,3) Cons.prems(3)
    by (auto simp: run_before_tool_middlewares_def state_before_tool_call_def result_simps split: if_splits)
  show ?case
    using Cons.prems(1) Cons.IH [OF _ Cons.prems(2,3)] Cons.IH [of "adm @ [call]" found st] Cons.prems(2,3)
    by (auto split: if_splits sum.splits dest: ok)
qed auto

text \<open>The context pack keeps only the first result of each tool: once a block labelled with the tool exists, a
  later result of the same tool adds no block, so queries from the context pack never show it to the
  model (only the working set gets an entry).\<close>

lemma repeated_result_dropped:
  assumes "b \<in> set (ep_context_blocks pack)" "cb_kind b = ToolResult"
    and "cb_label b = ''tool_result_'' @ tl_name (et_call e)"
  shows "ep_context_blocks (append_tool_results_to_context_pack clocks pack [e]) = ep_context_blocks pack"
  using assms by (auto simp: append_tool_results_to_context_pack_def Let_def)

lemma repeated_result_dropped_example:
  "ep_context_blocks (append_tool_results_to_context_pack [(3, 4)]
     (append_tool_results_to_context_pack [(1, 2)] (generic_pack ''hi'')
       [\<lparr>et_call = ex_log_call ''read_file'', et_result = Text ''old''\<rparr>])
     [\<lparr>et_call = ex_log_call ''read_file'', et_result = Text ''new''\<rparr>]) =
   [\<lparr>cb_kind = ToolResult, cb_label = ''tool_result_read_file'', cb_content = ''[Tool: read_file] Result: old'',
     cb_token_estimate = 4\<rparr>]"
proof -
  let ?b = "\<lparr>cb_kind = ToolResult, cb_label = ''tool_result_read_file'',
    cb_content = ''[Tool: read_file] Result: old'', cb_token_estimate = 4\<rparr>"
  have "ep_context_blocks (append_tool_results_to_context_pack [(1, 2)] (generic_pack ''hi'')
       [\<lparr>et_call = ex_log_call ''read_file'', et_result = Text ''old''\<rparr>]) = [?b]" by code_simp
  then show ?thesis
    by (subst repeated_result_dropped [where b = ?b]) (simp_all add: ex_log_call_def)
qed

text \<open>With a model that cannot call tools and no repair, the note that a tool was requested in text
  never reaches the model when it is queried from the context pack: it is asked the same question in
  every round until the bound on rounds ends the run with an error.\<close>

lemma lost_note_exhausts_rounds:
  assumes model: "ask env (QueryContext pack (visible_tools env dy) policy) w = (Ok (TextAnswer answer), w)"
    and plain: "\<not> should_use_streaming env (visible_tools env dy)" "\<not> repair_fallback_permitted env"
      "\<not> has_steering env" "\<not> has_estop env"
    and named: "extract_tool_name_candidate (parse_json env) answer = Some name"
  shows "fst (run_for_request_with_dynamic_tools env render dy max_rounds policy pack w) = Err (MaxRoundsExceeded max_rounds)"
proof -
  have "fst (run_dynamic env max_rounds dy policy enforced st) = Err (MaxRoundsExceeded max_rounds)"
    if "lp_world st = w" "lp_pack st = pack" "\<not> lp_override st" "lp_rounds st = 0 \<or> lp_last_progress st = instant env w"
      "lp_rounds st \<le> max_rounds" for enforced st
    using that
  proof (induction "max_rounds - lp_rounds st" arbitrary: st enforced rule: less_induct)
    case less
    have "before_query env True st = (Ok (), st)"
      using less.prems plain by (auto simp: before_query_def check_stall_def Let_def)
    moreover have "streamed_query env ''initial'' False q1 q2 (QueryContext pack (visible_tools env dy) policy) st =
        (Ok (TextAnswer answer), emit (StreamingDecision ''initial'' ''stream_disabled'' (model_label env)) st)" for q1 q2
      using model less.prems by (simp add: streamed_query_def ask_model_def emit_def)
    ultimately obtain st1 nt where st1: "st1 = emit (StreamingDecision ''initial'' ''stream_disabled'' (model_label env)) st"
      "dynamic_step env max_rounds dy policy enforced st =
        (case note_round env max_rounds nt False st1 of (s, st2) \<Rightarrow> (s, enforced, st2))"
      using less.prems plain named
      by (auto simp: dynamic_step_def dynamic_answer_def Let_def)
    have emitted: "lp_rounds st1 = lp_rounds st" "lp_world st1 = w" "lp_pack st1 = pack" "\<not> lp_override st1"
      using st1(1) less.prems by (simp_all add: emit_def)
    show ?case
    proof (cases "lp_rounds st < max_rounds")
      case True
      obtain st2 where st2: "note_round env max_rounds nt False st1 = (Loop, st2)" "lp_rounds st2 = Suc (lp_rounds st)"
        "lp_world st2 = w" "lp_pack st2 = pack" "\<not> lp_override st2" "lp_last_progress st2 = instant env w"
        using True emitted by (auto simp: note_round_def advance_round_def Let_def)
      have "fst (run_dynamic env max_rounds dy policy enforced st2) = Err (MaxRoundsExceeded max_rounds)"
        using less.hyps [of st2 enforced] st2 True by simp
      then show ?thesis
        by (subst run_dynamic.simps) (simp add: st1(2) st2(1))
    next
      case False
      then have "note_round env max_rounds nt False st1 = (Done (Err (MaxRoundsExceeded max_rounds)),
          st1\<lparr>lp_rounds := lp_rounds st1 + 1\<rparr>)"
        using emitted less.prems by (simp add: note_round_def advance_round_def Let_def)
      then show ?thesis by (subst run_dynamic.simps) (simp add: st1(2))
    qed
  qed
  then show ?thesis by (simp add: run_for_request_with_dynamic_tools_def start_loop_def)
qed

definition ex_text_model :: ModelCapabilityProfile where
  "ex_text_model = \<lparr>mc_model_ref = \<lparr>mr_provider_id = ''local'', mr_model_id = ''m''\<rparr>, mc_adapter_family = TextOnlyCli,
     mc_tool_calling = Unsupported, mc_parallel_tool_calling = Unsupported, mc_streaming = Unsupported,
     mc_vision = Unsupported, mc_json_mode = Unsupported, mc_max_context_tokens = None,
     mc_tool_schema_mode = SchemaUnsupported, mc_tool_result_mode = TextBlock, mc_supports_images = Unsupported,
     mc_supports_audio = Unsupported, mc_source = LocalOverride, mc_source_detail = None, mc_observed_at_us = 0,
     mc_expires_at_us = None\<rparr>"

definition ex_text_env :: "(ToolCall list \<times> nat) env" where
  "ex_text_env = ex_log_env\<lparr>capability := Some ex_text_model, ask := (\<lambda>q w. (Ok (TextAnswer ''{}''), w)),
     parse_json := (\<lambda>s. Ok (JObject [(''tool'', JString ''read_file'')]))\<rparr>"

lemma lost_note_exhausts_rounds_example:
  "fst (run_for_request_with_dynamic_tools ex_text_env (\<lambda>p. ''hi'') (ex_log_run\<lparr>dy_capability := Some ex_text_model\<rparr>) 8
     ex_log_policy (generic_pack ''hi'') ([], 0)) = Err (MaxRoundsExceeded 8)"
proof -
  have "\<not> should_use_streaming ex_text_env ts" for ts
    by (simp add: should_use_streaming_def ex_text_env_def ex_log_env_def ex_text_model_def)
  moreover have "\<not> repair_fallback_permitted ex_text_env" by code_simp
  moreover have "extract_tool_name_candidate (parse_json ex_text_env) ''{}'' = Some ''read_file''" by code_simp
  ultimately show ?thesis
    by (intro lost_note_exhausts_rounds) (simp_all add: ex_text_env_def ex_log_env_def)
qed

text \<open>An interrupted batch: the new instructions are appended to the prompt, and the run ends with an
  empty answer, without asking the model again.\<close>

lemma pivot_ends_run:
  assumes "execute_tool_calls env calls available policy st = (Ok [], st1)"
  shows "run_batch env available tools policy calls found b st = (Ok (Finish (Completed [])), st1)"
    "resume (Ok (Completed []), st1) = (Done (Ok (Completed [])), st1)"
  using assms by (simp_all add: run_batch_def resume_def continue_loop_def)

text \<open>When a registry search and another tool are called together, what the search found is lost.\<close>

lemma search_result_lost:
  "turns \<noteq> [] \<Longrightarrow> after_tools env tools policy turns found st = after_tools env tools policy turns [] st"
  by (simp add: after_tools_def)

text \<open>An answer of the model that is the text of the sentinel is not returned but queried again.\<close>

lemma sentinel_answer_swallowed:
  "resume (Ok (Completed ''CONTINUE_LOOP''), st) = (Loop, st)"
  by (simp add: resume_def continue_loop_def)

end
