(* ===== verification/Schedules.thy ===== *)
theory Schedules
  imports TextOps
begin

text \<open>Schedules of prompts (\<open>aria-intelligence/src/scheduler.rs\<close>): the textual forms and their
  parser, the time of the next firing, and the structured schedules of the scheduling tools with the text
  they are stored as (\<open>ToolSchedule\<close> of \<open>aria-x/src/tools.rs\<close>).  Instants are integers, in
  microseconds; a local time is the number of microseconds since the local midnight of 1970-01-01.  Time zones,
  date parsers and cron expressions are those of \<open>chrono\<close>, \<open>chrono_tz\<close> and \<open>cron\<close>: the fields of
  \<open>calendar\<close>.\<close>

section \<open>Calendars\<close>

datatype local_result = Single int | AmbiguousTime int int | NoTime

datatype Weekday = Mon | Tue | Wed | Thu | Fri | Sat | Sun

record ('tz, 'c) calendar =
  tz_utc :: 'tz
  tz_parse :: "string \<Rightarrow> 'tz option"
  tz_show :: "'tz \<Rightarrow> string"
  to_local :: "'tz \<Rightarrow> int \<Rightarrow> int"
  from_local :: "'tz \<Rightarrow> int \<Rightarrow> local_result"
  parse_rfc3339 :: "string \<Rightarrow> int option"
  show_rfc3339 :: "int \<Rightarrow> string"
  parse_naive :: "string \<Rightarrow> string \<Rightarrow> int option"
  cron_parse :: "string \<Rightarrow> 'c option"
  cron_after :: "'c \<Rightarrow> 'tz \<Rightarrow> int \<Rightarrow> int option"
  min_instant :: int
  max_instant :: int

definition microseconds_per_day :: int where "microseconds_per_day = 86400000000"

definition day_of :: "int \<Rightarrow> int" where
  "day_of t = t div microseconds_per_day"

text \<open>The first of January 1970 was a Thursday.\<close>

definition weekday_index :: "int \<Rightarrow> int" where
  "weekday_index day = (day + 3) mod 7"

fun num_days_from_monday :: "Weekday \<Rightarrow> int" where
  "num_days_from_monday Mon = 0"
| "num_days_from_monday Tue = 1"
| "num_days_from_monday Wed = 2"
| "num_days_from_monday Thu = 3"
| "num_days_from_monday Fri = 4"
| "num_days_from_monday Sat = 5"
| "num_days_from_monday Sun = 6"

text \<open>\<open>NaiveTime::from_hms_opt(hour, minute, 0).unwrap_or(MIN)\<close>.\<close>

definition time_of_day :: "nat \<Rightarrow> nat \<Rightarrow> int" where
  "time_of_day hour minute = (if hour \<le> 23 \<and> minute \<le> 59 then (int hour * 60 + int minute) * 60000000 else 0)"

section \<open>The schedule and its parser\<close>

datatype ('tz, 'c) ScheduleSpec = EverySeconds u64 | Cron 'c string 'tz | Once int | DailyAt nat nat 'tz
  | WeeklyAt nat Weekday nat nat 'tz

fun is_once :: "('tz, 'c) ScheduleSpec \<Rightarrow> bool" where
  "is_once (Once _) = True"
| "is_once _ = False"

text \<open>\<open>PartialEq\<close>: two cron schedules are equal when their texts and zones are.\<close>

fun schedule_eq :: "('tz, 'c) ScheduleSpec \<Rightarrow> ('tz, 'c) ScheduleSpec \<Rightarrow> bool" where
  "schedule_eq (EverySeconds a) (EverySeconds b) = (a = b)"
| "schedule_eq (Cron _ a atz) (Cron _ b btz) = (a = b \<and> atz = btz)"
| "schedule_eq (Once a) (Once b) = (a = b)"
| "schedule_eq (DailyAt ah am atz) (DailyAt bh bm btz) = (ah = bh \<and> am = bm \<and> atz = btz)"
| "schedule_eq (WeeklyAt ai aw ah am atz) (WeeklyAt bi bw bh bm btz) =
     (ai = bi \<and> aw = bw \<and> ah = bh \<and> am = bm \<and> atz = btz)"
| "schedule_eq _ _ = False"

definition normalize_cron_expr :: "string \<Rightarrow> string" where
  "normalize_cron_expr s = (if length (split_whitespace s) = 5 then ''0 '' @ s else s)"

definition split_schedule_timezone :: "('tz, 'c) calendar \<Rightarrow> string \<Rightarrow> string \<times> 'tz" where
  "split_schedule_timezone cal spec = (case rsplit_once ''#'' spec of
      None \<Rightarrow> (spec, tz_utc cal)
    | Some (base, tz_text) \<Rightarrow> (case tz_parse cal (trim_ws tz_text) of
        Some tz \<Rightarrow> (trim_ws base, tz)
      | None \<Rightarrow> (spec, tz_utc cal)))"

definition parse_cron_with_timezone :: "('tz, 'c) calendar \<Rightarrow> string \<Rightarrow> ('tz \<times> string) option" where
  "parse_cron_with_timezone cal spec = Option.bind (strip_prefix ''cron['' spec) (\<lambda>rest.
     Option.bind (split_once '']:'' rest) (\<lambda>(tz_text, expr).
     map_option (\<lambda>tz. (tz, trim_ws expr)) (tz_parse cal (trim_ws tz_text))))"

definition u32_max :: nat where "u32_max = 2 ^ 32 - 1"
definition u64_max :: nat where "u64_max = 2 ^ 64 - 1"

definition parse_hh_mm :: "string \<Rightarrow> (nat \<times> nat) option" where
  "parse_hh_mm s = (case split_on (\<lambda>c. c = CHR '':'') s of
      [h, m] \<Rightarrow> (case (parse_unsigned u32_max (trim_ws h), parse_unsigned u32_max (trim_ws m)) of
        (Some hour, Some minute) \<Rightarrow> if 23 < hour \<or> 59 < minute then None else Some (hour, minute)
      | _ \<Rightarrow> None)
    | _ \<Rightarrow> None)"

definition weekday_names :: "(string \<times> Weekday) list" where
  "weekday_names = [(''mon'', Mon), (''monday'', Mon), (''tue'', Tue), (''tues'', Tue), (''tuesday'', Tue),
     (''wed'', Wed), (''wednesday'', Wed), (''thu'', Thu), (''thurs'', Thu), (''thursday'', Thu),
     (''fri'', Fri), (''friday'', Fri), (''sat'', Sat), (''saturday'', Sat), (''sun'', Sun), (''sunday'', Sun)]"

definition parse_weekday :: "string \<Rightarrow> Weekday option" where
  "parse_weekday s = map_of weekday_names (trim_ws s)"

definition parse_weekday_at :: "string \<Rightarrow> (Weekday \<times> nat \<times> nat) option" where
  "parse_weekday_at s = Option.bind (split_once ''@'' s) (\<lambda>(day, hm).
     Option.bind (parse_weekday day) (\<lambda>w. map_option (\<lambda>(h, m). (w, h, m)) (parse_hh_mm hm)))"

definition parse_once_datetime :: "('tz, 'c) calendar \<Rightarrow> string \<Rightarrow> int option" where
  "parse_once_datetime cal s = (case parse_rfc3339 cal s of
      Some t \<Rightarrow> Some t
    | None \<Rightarrow> (case parse_naive cal ''%Y-%m-%d %H:%M:%S'' s of
        Some t \<Rightarrow> Some t
      | None \<Rightarrow> parse_naive cal ''%Y-%m-%d %H:%M'' s))"

text \<open>The digits and the rest of a duration may be mixed (\<open>partition\<close>); the multiplication wraps.\<close>

definition parse_duration_to_secs :: "string \<Rightarrow> u64 option" where
  "parse_duration_to_secs raw = (let s = to_lower (trim_ws raw) in
     if s = [] then None
     else case parse_unsigned u64_max (filter is_digit s) of
       None \<Rightarrow> None
     | Some n \<Rightarrow> (let v = of_nat n :: u64; unit_name = trim_ws (filter (\<lambda>c. \<not> is_digit c) s) in
         if unit_name \<in> {''s'', []} then Some v
         else if unit_name \<in> {''m'', ''min'', ''mins''} then Some (v * 60)
         else if unit_name \<in> {''h'', ''hr'', ''hrs'', ''hour'', ''hours''} then Some (v * 3600)
         else if unit_name \<in> {''d'', ''day'', ''days''} then Some (v * 86400)
         else None))"

text \<open>\<open>Duration::try_seconds\<close> of an \<open>i64\<close>, in microseconds.\<close>

definition try_seconds :: "u64 \<Rightarrow> int option" where
  "try_seconds secs = (if \<bar>sint secs\<bar> \<le> 9223372036854775 then Some (sint secs * 1000000) else None)"

text \<open>\<open>DateTime + Duration\<close>, which panics (\<open>Err\<close>) beyond the last date.\<close>

definition plus_time :: "('tz, 'c) calendar \<Rightarrow> int \<Rightarrow> int \<Rightarrow> (string, int) result" where
  "plus_time cal t d = (if max_instant cal < t + d then Err ''`DateTime + TimeDelta` overflowed'' else Ok (t + d))"

text \<open>Parsing reads the clock (\<open>now\<close>).  A delay that no duration can hold panics, too.\<close>

definition parse_delay :: "('tz, 'c) calendar \<Rightarrow> int \<Rightarrow> u64 \<Rightarrow> (string, ('tz, 'c) ScheduleSpec) result" where
  "parse_delay cal now secs = (case try_seconds secs of
      None \<Rightarrow> Err ''called `Option::unwrap()` on a `None` value''
    | Some d \<Rightarrow> map_ok Once (plus_time cal now d))"

definition parse_cron_text ::
  "('tz, 'c) calendar \<Rightarrow> string \<Rightarrow> string \<Rightarrow> 'tz \<Rightarrow> ('tz, 'c) ScheduleSpec option" where
  "parse_cron_text cal expr stored tz = map_option (\<lambda>c. Cron c stored tz) (cron_parse cal (normalize_cron_expr expr))"

definition parse_weekly :: "nat \<Rightarrow> string \<Rightarrow> 'tz \<Rightarrow> ('tz, 'c) ScheduleSpec option" where
  "parse_weekly weeks rest tz = map_option (\<lambda>(w, h, m). WeeklyAt weeks w h m tz) (parse_weekday_at rest)"

definition parse_last_resort ::
  "('tz, 'c) calendar \<Rightarrow> int \<Rightarrow> string \<Rightarrow> (string, ('tz, 'c) ScheduleSpec option) result" where
  "parse_last_resort cal now s =
    (let once_text = (case strip_prefix ''delay:'' s of Some r \<Rightarrow> r
           | None \<Rightarrow> (case strip_prefix ''in:'' s of Some r \<Rightarrow> r | None \<Rightarrow> s)) in
     case parse_duration_to_secs once_text of
       Some secs \<Rightarrow> if CHR ''*'' \<notin> set s \<and> CHR ''/'' \<notin> set s then map_ok Some (parse_delay cal now secs)
         else Ok (parse_cron_text cal s s (tz_utc cal))
     | None \<Rightarrow> Ok (parse_cron_text cal s s (tz_utc cal)))"

definition parse_absolute ::
  "('tz, 'c) calendar \<Rightarrow> int \<Rightarrow> string \<Rightarrow> (string, ('tz, 'c) ScheduleSpec option) result" where
  "parse_absolute cal now s =
    (case Option.bind (strip_prefix ''at:'' s) (\<lambda>at. parse_once_datetime cal (trim_ws at)) of
       Some t \<Rightarrow> Ok (Some (Once t))
     | None \<Rightarrow> (case parse_once_datetime cal s of
         Some t \<Rightarrow> Ok (Some (Once t))
       | None \<Rightarrow> parse_last_resort cal now s))"

definition parse_schedule ::
  "('tz, 'c) calendar \<Rightarrow> int \<Rightarrow> string \<Rightarrow> (string, ('tz, 'c) ScheduleSpec option) result" where
  "parse_schedule cal now spec = (let s = trim_ws spec in
     case strip_prefix ''every:'' s of
       Some v \<Rightarrow> Ok (case parse_unsigned u64_max (trim_right (\<lambda>c. c = CHR ''s'') v) of
           None \<Rightarrow> None | Some n \<Rightarrow> if 0 < n then Some (EverySeconds (of_nat n)) else None)
     | None \<Rightarrow>
        (let (base, tz) = split_schedule_timezone cal s; lower_base = to_lower base in
         case strip_prefix ''daily@'' lower_base of
           Some hm \<Rightarrow> Ok (map_option (\<lambda>(h, m). DailyAt h m tz) (parse_hh_mm hm))
         | None \<Rightarrow>
            (case strip_prefix ''weekly:'' lower_base of
               Some rest \<Rightarrow> Ok (parse_weekly 1 rest tz)
             | None \<Rightarrow>
                (case strip_prefix ''biweekly:'' lower_base of
                   Some rest \<Rightarrow> Ok (parse_weekly 2 rest tz)
                 | None \<Rightarrow>
                    (case parse_cron_with_timezone cal s of
                       Some (cron_tz, expr) \<Rightarrow> Ok (parse_cron_text cal expr expr cron_tz)
                     | None \<Rightarrow> parse_absolute cal now s)))))"

section \<open>The next firing\<close>

text \<open>\<open>single().or_else(earliest).or_else(latest)\<close>.\<close>

definition resolve_local :: "('tz, 'c) calendar \<Rightarrow> 'tz \<Rightarrow> int \<Rightarrow> int \<Rightarrow> int" where
  "resolve_local cal tz target fallback = (case from_local cal tz target of
      Single t \<Rightarrow> t | AmbiguousTime earliest latest \<Rightarrow> earliest | NoTime \<Rightarrow> fallback)"

definition daily_target :: "int \<Rightarrow> nat \<Rightarrow> nat \<Rightarrow> int" where
  "daily_target now_local hour minute =
    (let target = day_of now_local * microseconds_per_day + time_of_day hour minute in
     if target \<le> now_local then target + microseconds_per_day else target)"

definition next_daily_fire :: "('tz, 'c) calendar \<Rightarrow> int \<Rightarrow> 'tz \<Rightarrow> nat \<Rightarrow> nat \<Rightarrow> int" where
  "next_daily_fire cal now tz hour minute =
     resolve_local cal tz (daily_target (to_local cal tz now) hour minute) (now + microseconds_per_day)"

text \<open>The index of the week of a day, from Monday, the fifth of January 1970.\<close>

definition week_index :: "int \<Rightarrow> int" where
  "week_index day = (day - 4) div 7"

lemma week_index_next: "week_index (day_of (candidate + 7 * microseconds_per_day)) = week_index (day_of candidate) + 1"
proof -
  have "day_of (candidate + 7 * microseconds_per_day) = day_of candidate + 7"
    by (simp add: day_of_def microseconds_per_day_def)
  then show ?thesis by (simp add: week_index_def)
qed

function align_week :: "int \<Rightarrow> int \<Rightarrow> int" where
  "align_week every candidate =
    (if every \<le> 0 \<or> week_index (day_of candidate) mod every = 0 then candidate
     else align_week every (candidate + 7 * microseconds_per_day))"
  by pat_completeness auto

termination align_week
proof (relation "measure (\<lambda>(every, candidate). nat ((- week_index (day_of candidate)) mod every))", goal_cases)
  case (2 every candidate)
  let ?w = "week_index (day_of candidate)"
  have pos: "0 < every" and nz: "?w mod every \<noteq> 0" using 2 by auto
  have m: "(- ?w) mod every = every - ?w mod every" using pos nz by (simp add: zmod_zminus1_eq_if)
  have "0 < ?w mod every" "?w mod every < every" using pos nz
    by (simp_all add: order_le_neq_trans pos_mod_bound pos_mod_sign)
  moreover have "(- (?w + 1)) mod every = every - ?w mod every - 1"
  proof -
    have "(- (?w + 1)) mod every = ((- ?w) mod every - 1) mod every" by (simp add: mod_diff_left_eq)
    also have "\<dots> = every - ?w mod every - 1" using m \<open>0 < ?w mod every\<close> \<open>?w mod every < every\<close>
      by (simp add: mod_pos_pos_trivial)
    finally show ?thesis .
  qed
  ultimately show ?case using m by (simp add: week_index_next)
qed simp

declare align_week.simps [simp del]

definition weekly_target :: "int \<Rightarrow> nat \<Rightarrow> Weekday \<Rightarrow> nat \<Rightarrow> nat \<Rightarrow> int" where
  "weekly_target now_local interval_weeks weekday hour minute =
    (let today = day_of now_local;
         days_until = (num_days_from_monday weekday - weekday_index today + 7) mod 7;
         candidate = (today + days_until) * microseconds_per_day + time_of_day hour minute;
         candidate = (if candidate \<le> now_local
           then (today + (days_until + 7)) * microseconds_per_day + time_of_day hour minute else candidate);
         every = max (int interval_weeks) 1 in
     if 1 < every then align_week every candidate else candidate)"

definition next_weekly_fire :: "('tz, 'c) calendar \<Rightarrow> int \<Rightarrow> 'tz \<Rightarrow> nat \<Rightarrow> Weekday \<Rightarrow> nat \<Rightarrow> nat \<Rightarrow> int" where
  "next_weekly_fire cal now tz interval_weeks weekday hour minute =
     resolve_local cal tz (weekly_target (to_local cal tz now) interval_weeks weekday hour minute)
       (now + 7 * microseconds_per_day)"

fun next_fire :: "('tz, 'c) calendar \<Rightarrow> ('tz, 'c) ScheduleSpec \<Rightarrow> int \<Rightarrow> (string, int) result" where
  "next_fire cal (EverySeconds s) now = plus_time cal now (case try_seconds s of Some d \<Rightarrow> d | None \<Rightarrow> microseconds_per_day)"
| "next_fire cal (Cron c _ tz) now = (case cron_after cal c tz now of
     Some t \<Rightarrow> Ok t | None \<Rightarrow> plus_time cal now (365 * microseconds_per_day))"
| "next_fire cal (Once t) now = Ok t"
| "next_fire cal (DailyAt hour minute tz) now = Ok (next_daily_fire cal now tz hour minute)"
| "next_fire cal (WeeklyAt weeks weekday hour minute tz) now = Ok (next_weekly_fire cal now tz weeks weekday hour minute)"

section \<open>The targets are the least ones\<close>

text \<open>The local times a schedule names: at its time of the day, on its weekday, in every n-th week.\<close>

definition daily_slot :: "nat \<Rightarrow> nat \<Rightarrow> int \<Rightarrow> bool" where
  "daily_slot hour minute t \<longleftrightarrow> t mod microseconds_per_day = time_of_day hour minute"

definition weekly_slot :: "nat \<Rightarrow> Weekday \<Rightarrow> nat \<Rightarrow> nat \<Rightarrow> int \<Rightarrow> bool" where
  "weekly_slot every weekday hour minute t \<longleftrightarrow> daily_slot hour minute t \<and>
     weekday_index (day_of t) = num_days_from_monday weekday \<and> week_index (day_of t) mod int every = 0"

lemma time_of_day_range: "0 \<le> time_of_day hour minute" "time_of_day hour minute < microseconds_per_day"
  by (auto simp: time_of_day_def microseconds_per_day_def)

lemma slot_parts:
  "day_of (d * microseconds_per_day + time_of_day h m) = d"
  "daily_slot h m (d * microseconds_per_day + time_of_day h m)"
  using time_of_day_range [of h m]
  by (simp_all add: day_of_def daily_slot_def div_add1_eq mod_pos_pos_trivial div_pos_pos_trivial)

lemma daily_slot_eq: "daily_slot h m t \<longleftrightarrow> t = day_of t * microseconds_per_day + time_of_day h m"
  unfolding daily_slot_def day_of_def by (metis add.commute add_diff_cancel_left' div_mult_mod_eq)

lemma weekday_range: "0 \<le> num_days_from_monday w" "num_days_from_monday w < 7"
  by (cases w; simp)+

lemma day_le: "a * microseconds_per_day + time_of_day h m \<le> b * microseconds_per_day + time_of_day h m \<longleftrightarrow> a \<le> b"
  by (simp add: microseconds_per_day_def)

lemma now_day: "t < (day_of t + 1) * microseconds_per_day" "day_of t * microseconds_per_day \<le> t"
  unfolding day_of_def microseconds_per_day_def
  by (simp_all add: minus_mod_eq_div_mult [symmetric] distrib_right)

text \<open>The daily target is the first slot after now.\<close>

lemma daily_target_least:
  "now < daily_target now h m \<and> daily_slot h m (daily_target now h m) \<and>
   (\<forall>t. now < t \<and> daily_slot h m t \<longrightarrow> daily_target now h m \<le> t)"
proof -
  define slot where "slot d = d * microseconds_per_day + time_of_day h m" for d
  have slot_le: "slot a \<le> slot b \<longleftrightarrow> a \<le> b" for a b unfolding slot_def by (rule day_le)
  have before: "slot d \<le> now" if "d < day_of now" for d
  proof -
    have "slot d < (d + 1) * microseconds_per_day"
      using time_of_day_range(2) [of h m] by (simp add: slot_def algebra_simps)
    also have "\<dots> \<le> day_of now * microseconds_per_day" using that by (simp add: microseconds_per_day_def)
    finally show ?thesis using now_day(2) [of now] by linarith
  qed
  have after: "now < slot (day_of now + 1)"
    using now_day(1) [of now] time_of_day_range(1) [of h m] unfolding slot_def by linarith
  obtain d where d: "daily_target now h m = slot d" "now < slot d" "\<And>e. e < d \<Longrightarrow> slot e \<le> now"
  proof (cases "slot (day_of now) \<le> now")
    case True
    then have "daily_target now h m = slot (day_of now + 1)" by (simp add: daily_target_def slot_def Let_def algebra_simps)
    moreover have "slot e \<le> now" if "e < day_of now + 1" for e
      using before [of e] True that by (cases "e = day_of now") auto
    ultimately show ?thesis using after that by blast
  next
    case False
    then show ?thesis using before that [of "day_of now"] by (simp add: daily_target_def slot_def Let_def)
  qed
  have "slot d \<le> t" if "now < t" "daily_slot h m t" for t
  proof -
    have "t = slot (day_of t)" using that(2) daily_slot_eq by (simp add: slot_def)
    with that(1) d(3) [of "day_of t"] slot_le show ?thesis by (metis not_le)
  qed
  with d slot_parts show ?thesis by (simp add: slot_def)
qed

lemma below_by_week: "(d - base) mod 7 = 0 \<Longrightarrow> \<not> base \<le> d \<Longrightarrow> d \<le> base - 7" for d base :: int
proof -
  assume "(d - base) mod 7 = 0" "\<not> base \<le> d"
  moreover from this(1) obtain q where "d - base = 7 * q" by (metis mod_0_imp_dvd dvdE)
  ultimately show ?thesis by presburger
qed

lemma above_by_weeks:
  assumes "(d - base) mod 7 = 0" "base \<le> d"
  obtains j where "j \<ge> 0" "d = base + 7 * (j :: int)"
proof -
  obtain q where "d - base = 7 * q" using assms(1) by (metis mod_0_imp_dvd dvdE)
  with assms(2) show ?thesis by (intro that [of q]) simp_all
qed

lemma weekday_of_offset:
  "weekday_index d = w \<longleftrightarrow> (d - (day + (w - weekday_index day + 7) mod 7)) mod 7 = 0" if "0 \<le> w" "w < 7" for w :: int
proof -
  define x where "x = (w - (day + 3) mod 7 + 7) mod 7"
  have "x mod 7 = (w - (day + 3)) mod 7" unfolding x_def by (simp only: mod_mod_trivial mod_add_self2 mod_diff_right_eq)
  have "(d - (day + x)) mod 7 = (d - day - x) mod 7" by (simp add: algebra_simps)
  also have "\<dots> = (d - day - (w - (day + 3))) mod 7"
    using \<open>x mod 7 = (w - (day + 3)) mod 7\<close> by (rule mod_diff_cong [OF refl])
  also have "\<dots> = (d + 3 - w) mod 7" by (simp add: algebra_simps)
  finally have "(d - (day + x)) mod 7 = 0 \<longleftrightarrow> (d + 3) mod 7 = w"
    using that by (metis mod_eq_dvd_iff dvd_eq_mod_eq_0 mod_pos_pos_trivial)
  then show ?thesis by (simp add: weekday_index_def x_def)
qed


text \<open>Without alignment: the first slot after now on the weekday; the loop then moves on by whole weeks.\<close>

lemma align_week_least:
  assumes "0 < every"
  shows "align_week every c \<ge> c \<and> week_index (day_of (align_week every c)) mod every = 0 \<and>
    (\<exists>k\<ge>0. align_week every c = c + k * (7 * microseconds_per_day) \<and>
      (\<forall>j. 0 \<le> j \<and> j < k \<longrightarrow> week_index (day_of c + 7 * j) mod every \<noteq> 0))"
  using assms
proof (induction every c rule: align_week.induct)
  case (1 every c)
  show ?case
  proof (cases "week_index (day_of c) mod every = 0")
    case True
    then show ?thesis by (auto simp: align_week.simps [of every c] intro: exI [of _ "0::int"])
  next
    case False
    have step: "align_week every c = align_week every (c + 7 * microseconds_per_day)"
      using False 1(2) by (simp add: align_week.simps [of every c])
    have day: "day_of (c + 7 * microseconds_per_day) = day_of c + 7" by (simp add: day_of_def microseconds_per_day_def)
    from 1 False obtain k where k: "k \<ge> 0"
      "align_week every (c + 7 * microseconds_per_day) = c + 7 * microseconds_per_day + k * (7 * microseconds_per_day)"
      "\<forall>j. 0 \<le> j \<and> j < k \<longrightarrow> week_index (day_of c + 7 + 7 * j) mod every \<noteq> 0"
      "week_index (day_of (align_week every (c + 7 * microseconds_per_day))) mod every = 0"
      by (auto simp: day)
    have "\<forall>j. 0 \<le> j \<and> j < k + 1 \<longrightarrow> week_index (day_of c + 7 * j) mod every \<noteq> 0"
    proof (intro allI impI)
      fix j :: int assume j: "0 \<le> j \<and> j < k + 1"
      show "week_index (day_of c + 7 * j) mod every \<noteq> 0"
      proof (cases "j = 0")
        case jn: False
        then have "week_index (day_of c + 7 + 7 * (j - 1)) mod every \<noteq> 0"
          using j by (intro k(3) [rule_format]) auto
        moreover have "day_of c + 7 + 7 * (j - 1) = day_of c + 7 * j" by simp
        ultimately show ?thesis by simp
      qed (use False in simp)
    qed
    then have "\<exists>k'\<ge>0. align_week every c = c + k' * (7 * microseconds_per_day) \<and>
        (\<forall>j. 0 \<le> j \<and> j < k' \<longrightarrow> week_index (day_of c + 7 * j) mod every \<noteq> 0)"
      using k step by (intro exI [of _ "k + 1"]) (simp add: algebra_simps)
    with k step show ?thesis by (auto simp: microseconds_per_day_def)
  qed
qed

text \<open>The day of the first slot of a week day after a moment, ignoring the weeks to skip.\<close>

definition slot_on :: "int \<Rightarrow> nat \<Rightarrow> nat \<Rightarrow> int" where
  "slot_on d h m = d * microseconds_per_day + time_of_day h m"

definition weekday_offset :: "int \<Rightarrow> Weekday \<Rightarrow> int" where
  "weekday_offset now weekday = (num_days_from_monday weekday - weekday_index (day_of now) + 7) mod 7"

definition first_day :: "int \<Rightarrow> Weekday \<Rightarrow> nat \<Rightarrow> nat \<Rightarrow> int" where
  "first_day now weekday h m = (let d = day_of now + weekday_offset now weekday in
     if slot_on d h m \<le> now then d + 7 else d)"

lemma slot_on_le: "slot_on a h m \<le> slot_on b h m \<longleftrightarrow> a \<le> b"
  unfolding slot_on_def by (rule day_le)

lemma weekday_offset_range: "0 \<le> weekday_offset now weekday" "weekday_offset now weekday < 7"
  by (simp_all add: weekday_offset_def)

lemma first_day_weekday: "weekday_index d = num_days_from_monday weekday \<longleftrightarrow> (d - first_day now weekday h m) mod 7 = 0"
proof -
  have "weekday_index d = num_days_from_monday weekday \<longleftrightarrow> (d - (day_of now + weekday_offset now weekday)) mod 7 = 0"
    unfolding weekday_offset_def by (rule weekday_of_offset [OF weekday_range])
  moreover have "(d - (x + 7)) mod 7 = (d - x) mod 7" for x :: int
    by (metis add_diff_eq diff_add_cancel mod_add_self2 diff_diff_eq)
  ultimately show ?thesis by (simp add: first_day_def Let_def)
qed

lemma first_day_after: "now < slot_on (first_day now weekday h m) h m"
proof (cases "slot_on (day_of now + weekday_offset now weekday) h m \<le> now")
  case True
  have "now < slot_on (day_of now + 1) h m"
    using now_day(1) [of now] time_of_day_range(1) [of h m] by (simp add: slot_on_def)
  also have "\<dots> \<le> slot_on (first_day now weekday h m) h m"
    using True weekday_offset_range(1) [of now weekday] by (simp add: first_day_def slot_on_le)
  finally show ?thesis .
qed (simp add: first_day_def)

lemma week_before_first_day: "slot_on (first_day now weekday h m - 7) h m \<le> now"
proof (cases "slot_on (day_of now + weekday_offset now weekday) h m \<le> now")
  case False
  have "slot_on (day_of now + weekday_offset now weekday - 7) h m \<le> slot_on (day_of now - 1) h m"
    using weekday_offset_range(2) [of now weekday] by (simp add: slot_on_le)
  also have "\<dots> < day_of now * microseconds_per_day"
    using time_of_day_range(2) [of h m] by (simp add: slot_on_def algebra_simps)
  finally show ?thesis using False now_day(2) [of now] by (simp add: first_day_def)
qed (simp add: first_day_def)

lemma first_day_least:
  assumes "now < slot_on d h m" "weekday_index d = num_days_from_monday weekday"
  shows "first_day now weekday h m \<le> d"
proof (rule ccontr)
  assume "\<not> first_day now weekday h m \<le> d"
  moreover have "(d - first_day now weekday h m) mod 7 = 0" using assms(2) first_day_weekday by simp
  ultimately have "d \<le> first_day now weekday h m - 7" by (intro below_by_week)
  then show False
    using week_before_first_day [of now weekday h m] slot_on_le [of d h m "first_day now weekday h m - 7"] assms(1) by linarith
qed

text \<open>The target is the first slot from there on in a week that is not skipped.\<close>

lemma weekly_target_aligned:
  obtains k where "k \<ge> 0" "weekly_target now n weekday h m = slot_on (first_day now weekday h m + 7 * k) h m"
    "week_index (first_day now weekday h m + 7 * k) mod max (int n) 1 = 0"
    "\<And>j. 0 \<le> j \<Longrightarrow> j < k \<Longrightarrow> week_index (first_day now weekday h m + 7 * j) mod max (int n) 1 \<noteq> 0"
proof -
  let ?every = "max (int n) 1" and ?day = "first_day now weekday h m" and ?slot = "\<lambda>d. slot_on d h m"
  have target: "weekly_target now n weekday h m = (if 1 < ?every then align_week ?every (?slot ?day) else ?slot ?day)"
    by (simp add: weekly_target_def Let_def slot_on_def first_day_def weekday_offset_def algebra_simps)
  show ?thesis
  proof (cases "1 < ?every")
    case False
    then have "?every = 1" by simp
    with False target show ?thesis by (intro that [of 0]) simp_all
  next
    case True
    have d: "day_of (?slot d) = d" for d by (simp add: slot_on_def slot_parts)
    note aligned = align_week_least [of ?every "?slot ?day", unfolded d, OF less_trans [OF zero_less_one True]]
    from aligned obtain k where "k \<ge> 0" "align_week ?every (?slot ?day) = ?slot ?day + k * (7 * microseconds_per_day)"
      "\<forall>j. 0 \<le> j \<and> j < k \<longrightarrow> week_index (?day + 7 * j) mod ?every \<noteq> 0"
      by (elim conjE exE) (erule (2) that)
    moreover have "week_index (day_of (align_week ?every (?slot ?day))) mod ?every = 0"
      using aligned by (elim conjE)
    moreover from calculation(2) have "align_week ?every (?slot ?day) = ?slot (?day + 7 * k)"
      by (simp add: slot_on_def algebra_simps)
    moreover have "weekly_target now n weekday h m = align_week ?every (?slot ?day)"
      unfolding target using True by (simp only: if_True)
    ultimately show ?thesis using True d by (intro that [of k]) simp_all
  qed
qed

text \<open>The local time computed for a weekly schedule is the first one after now that lies on the
  weekday, at the time of the day, in a week whose number is a multiple of the interval (weeks are
  counted from Monday, the fifth of January 1970); the loop that looks for the week ends.\<close>

lemma weekly_target_least:
  "(let every = max n 1; t = weekly_target now n weekday h m in
    now < t \<and> weekly_slot every weekday h m t \<and>
    (\<forall>t'. now < t' \<and> weekly_slot every weekday h m t' \<longrightarrow> t \<le> t'))"
proof -
  let ?day = "first_day now weekday h m"
  have every: "int (max n 1) = max (int n) 1" by simp
  have week: "week_index (?day + 7 * j) = week_index ?day + j" for j by (simp add: week_index_def)
  obtain k where k: "k \<ge> 0" "weekly_target now n weekday h m = slot_on (?day + 7 * k) h m"
    "week_index (?day + 7 * k) mod max (int n) 1 = 0"
    "\<And>j. 0 \<le> j \<Longrightarrow> j < k \<Longrightarrow> week_index (?day + 7 * j) mod max (int n) 1 \<noteq> 0"
    using weekly_target_aligned [of now n weekday h m] by metis
  have on: "weekday_index (?day + 7 * k) = num_days_from_monday weekday"
    using first_day_weekday [of "?day + 7 * k" weekday now h m] by simp
  have after: "now < slot_on (?day + 7 * k) h m"
    using first_day_after [of now weekday h m] k(1) slot_on_le [of ?day h m "?day + 7 * k"] by linarith
  have least: "slot_on (?day + 7 * k) h m \<le> t" if "now < t" "weekly_slot (max n 1) weekday h m t" for t
  proof -
    have t: "t = slot_on (day_of t) h m" "weekday_index (day_of t) = num_days_from_monday weekday"
      "week_index (day_of t) mod max (int n) 1 = 0"
      using that(2) daily_slot_eq every by (auto simp: weekly_slot_def slot_on_def)
    have "?day \<le> day_of t" using first_day_least t that(1) by metis
    moreover have "(day_of t - ?day) mod 7 = 0" using t(2) first_day_weekday by simp
    ultimately obtain j where j: "j \<ge> 0" "day_of t = ?day + 7 * j" using above_by_weeks by metis
    with k(4) [of j] t(3) have "k \<le> j" by force
    with j t(1) slot_on_le show ?thesis by (metis add_left_mono mult_le_cancel_left_pos zero_less_numeral)
  qed
  show ?thesis
    unfolding Let_def k(2) using after on k(3) least slot_parts every
    by (auto simp: weekly_slot_def slot_on_def)
qed

section \<open>Schedules of the tools\<close>

datatype ToolSchedule = EveryTool u64 | AtTool string | DailyTool nat nat "string option"
  | WeeklyTool string nat nat nat "string option" | CronTool string "string option"

definition timezone_from_option :: "('tz, 'c) calendar \<Rightarrow> string option \<Rightarrow> 'tz \<Rightarrow> (string, 'tz) result" where
  "timezone_from_option cal timezone default_tz = (case timezone of
      None \<Rightarrow> Ok default_tz
    | Some name \<Rightarrow> ok_or (''Invalid schedule timezone '' @ [CHR 0x27] @ name @ [CHR 0x27]) (tz_parse cal (trim_ws name)))"

fun weekday_to_short_name :: "Weekday \<Rightarrow> string" where
  "weekday_to_short_name Mon = ''mon''"
| "weekday_to_short_name Tue = ''tue''"
| "weekday_to_short_name Wed = ''wed''"
| "weekday_to_short_name Thu = ''thu''"
| "weekday_to_short_name Fri = ''fri''"
| "weekday_to_short_name Sat = ''sat''"
| "weekday_to_short_name Sun = ''sun''"

definition parse_weekday_token :: "string \<Rightarrow> Weekday option" where
  "parse_weekday_token token = map_of weekday_names (to_lower (trim_ws token))"

fun to_schedule_parts ::
  "('tz, 'c) calendar \<Rightarrow> int \<Rightarrow> 'tz \<Rightarrow> ToolSchedule \<Rightarrow> (string, string \<times> ('tz, 'c) ScheduleSpec) result" where
  "to_schedule_parts cal now default_tz (EveryTool seconds) =
    (if seconds = 0 then Err ''schedule.every.seconds must be greater than 0''
     else Ok (''every:'' @ show_nat (unat seconds) @ ''s'', EverySeconds seconds))"
| "to_schedule_parts cal now default_tz (AtTool at) =
    map_ok (\<lambda>t. (''at:'' @ show_rfc3339 cal t, Once t))
      (ok_or ''schedule.at.at must be RFC3339 with timezone offset'' (parse_rfc3339 cal at))"
| "to_schedule_parts cal now default_tz (DailyTool hour minute timezone) =
    (if 23 < hour \<or> 59 < minute then Err ''schedule.daily requires hour 0-23 and minute 0-59''
     else map_ok (\<lambda>tz. (''daily@'' @ show02 hour @ '':'' @ show02 minute @ ''#'' @ tz_show cal tz, DailyAt hour minute tz))
       (timezone_from_option cal timezone default_tz))"
| "to_schedule_parts cal now default_tz (WeeklyTool weekday hour minute interval_weeks timezone) =
    (if 23 < hour \<or> 59 < minute then Err ''schedule.weekly requires hour 0-23 and minute 0-59''
     else if interval_weeks = 0 \<or> 2 < interval_weeks then Err ''schedule.weekly.interval_weeks must be 1 or 2''
     else and_then (ok_or ''schedule.weekly.weekday must be mon..sun'' (parse_weekday_token weekday)) (\<lambda>w.
       map_ok (\<lambda>tz. ((if interval_weeks = 2 then ''biweekly'' else ''weekly'') @ '':'' @ weekday_to_short_name w @ ''@'' @
           show02 hour @ '':'' @ show02 minute @ ''#'' @ tz_show cal tz, WeeklyAt interval_weeks w hour minute tz))
         (timezone_from_option cal timezone default_tz)))"
| "to_schedule_parts cal now default_tz (CronTool expr timezone) =
    and_then (timezone_from_option cal timezone default_tz) (\<lambda>tz.
      let text = ''cron['' @ tz_show cal tz @ '']:'' @ trim_ws expr in
      and_then (parse_schedule cal now text) (\<lambda>spec.
        map_ok (\<lambda>s. (text, s)) (ok_or ''schedule.cron.expr is invalid'' spec)))"

text \<open>The names of time zones and the RFC 3339 form, as \<open>chrono_tz\<close> and \<open>chrono\<close> document them.\<close>

definition plain_text :: "string \<Rightarrow> bool" where
  "plain_text s \<longleftrightarrow> s \<noteq> [] \<and> (\<forall>c\<in>set s. \<not> is_whitespace c \<and> c \<noteq> CHR ''#'' \<and> c \<noteq> CHR '']'')"

definition calendar_ok :: "('tz, 'c) calendar \<Rightarrow> bool" where
  "calendar_ok cal \<longleftrightarrow> (\<forall>tz. tz_parse cal (tz_show cal tz) = Some tz \<and> plain_text (tz_show cal tz)) \<and>
     (\<forall>t. parse_rfc3339 cal (show_rfc3339 cal t) = Some t \<and> plain_text (show_rfc3339 cal t))"

lemma show02_plain: "c \<in> set (show02 n) \<Longrightarrow> \<not> is_whitespace c \<and> c \<noteq> CHR ''#'' \<and> c \<noteq> CHR '':''"
  using show02_digits [of c n] digit_not_whitespace [of c] by (auto simp: is_digit_def char_code_def)

lemma hh_mm_roundtrip:
  assumes "h \<le> 23" "m \<le> 59"
  shows "parse_hh_mm (show02 h @ '':'' @ show02 m) = Some (h, m)"
proof -
  have split: "split_on (\<lambda>c. c = CHR '':'') (show02 h @ '':'' @ show02 m) = [show02 h, show02 m]"
    using show02_plain by (simp add: split_on_sep) (subst (1 2) split_on_id; auto)
  have trim: "trim_ws (show02 n) = show02 n" for n using show02_plain by (intro trim_ws_id) blast
  show ?thesis using assms unfolding parse_hh_mm_def split by (simp add: trim parse_show02 u32_max_def)
qed

text \<open>The split of a text with a zone at its end.\<close>

lemma split_zone:
  assumes "calendar_ok cal" "\<forall>c\<in>set base. \<not> is_whitespace c"
  shows "split_schedule_timezone cal (base @ ''#'' @ tz_show cal tz) = (base, tz)"
    "trim_ws (base @ ''#'' @ tz_show cal tz) = base @ ''#'' @ tz_show cal tz"
proof -
  have tz: "tz_parse cal (tz_show cal tz) = Some tz" "\<forall>c\<in>set (tz_show cal tz). \<not> is_whitespace c" "CHR ''#'' \<notin> set (tz_show cal tz)"
    using assms(1) by (auto simp: calendar_ok_def plain_text_def)
  show "split_schedule_timezone cal (base @ ''#'' @ tz_show cal tz) = (base, tz)"
    using tz assms(2) by (simp add: split_schedule_timezone_def rsplit_once_last trim_ws_id)
  have "\<not> is_whitespace (CHR ''#'')" by (simp add: is_whitespace_def char_code_def)
  then show "trim_ws (base @ ''#'' @ tz_show cal tz) = base @ ''#'' @ tz_show cal tz"
    using tz assms(2) by (intro trim_ws_id) auto
qed

lemma lower_time: "to_lower (show02 h @ '':'' @ show02 m) = show02 h @ '':'' @ show02 m"
proof -
  have "to_lower (show02 n) = show02 n" for n by (intro to_lower_digits ballI) (rule show02_digits)
  moreover have "to_lower '':'' = '':''" by code_simp
  ultimately show ?thesis by (simp only: to_lower_append)
qed

lemma weekday_at_roundtrip:
  assumes "h \<le> 23" "m \<le> 59"
  shows "parse_weekday_at (weekday_to_short_name w @ ''@'' @ show02 h @ '':'' @ show02 m) = Some (w, h, m)"
proof -
  have "CHR ''@'' \<notin> set (weekday_to_short_name w)" by (cases w) simp_all
  moreover have "parse_weekday (weekday_to_short_name w) = Some w" by (cases w; simp only: weekday_to_short_name.simps; code_simp)
  ultimately show ?thesis
    using hh_mm_roundtrip [OF assms] by (simp add: parse_weekday_at_def split_once_first)
qed

lemma parse_tagged:
  assumes cal: "calendar_ok cal" and base: "\<forall>c\<in>set base. \<not> is_whitespace c" "to_lower base = base"
    and other: "base \<noteq> []" "hd base \<noteq> CHR ''e''"
  shows "parse_schedule cal now (base @ ''#'' @ tz_show cal tz) =
    (case strip_prefix ''daily@'' base of
       Some hm \<Rightarrow> Ok (map_option (\<lambda>(h, m). DailyAt h m tz) (parse_hh_mm hm))
     | None \<Rightarrow> (case strip_prefix ''weekly:'' base of
         Some rest \<Rightarrow> Ok (parse_weekly 1 rest tz)
       | None \<Rightarrow> (case strip_prefix ''biweekly:'' base of
           Some rest \<Rightarrow> Ok (parse_weekly 2 rest tz)
         | None \<Rightarrow> (case parse_cron_with_timezone cal (base @ ''#'' @ tz_show cal tz) of
             Some (cron_tz, expr) \<Rightarrow> Ok (parse_cron_text cal expr expr cron_tz)
           | None \<Rightarrow> parse_absolute cal now (base @ ''#'' @ tz_show cal tz)))))"
proof -
  have "strip_prefix ''every:'' (base @ ''#'' @ tz_show cal tz) = None"
    using other by (cases base) (auto simp: strip_prefix_def)
  with split_zone [OF cal base(1), of tz] base(2) show ?thesis
    by (simp add: parse_schedule_def Let_def cong: option.case_cong)
qed

lemma zone_base: "fst (split_schedule_timezone cal s) = s \<or> (\<exists>i. fst (split_schedule_timezone cal s) = trim_ws (take i s))"
  by (auto simp: split_schedule_timezone_def rsplit_once_def split: option.splits)

text \<open>A text that begins in \<open>c\<close> carries none of the tags.\<close>

lemma no_tag:
  assumes "s = CHR ''c'' # r"
  shows "strip_prefix ''daily@'' (to_lower (fst (split_schedule_timezone cal s))) = None"
    "strip_prefix ''weekly:'' (to_lower (fst (split_schedule_timezone cal s))) = None"
    "strip_prefix ''biweekly:'' (to_lower (fst (split_schedule_timezone cal s))) = None"
proof -
  have c: "\<not> is_whitespace (CHR ''c'')" by (simp add: is_whitespace_def char_code_def)
  have "\<exists>z. trim_ws (CHR ''c'' # y) = CHR ''c'' # z" for y
    using trim_pred_mid [of "''c''" is_whitespace "[]" y] c by (simp add: trim_ws_pred trim_left_def)
  then have "trim_ws (take i s) = [] \<or> (\<exists>z. trim_ws (take i s) = CHR ''c'' # z)" for i
    unfolding assms by (cases i) (simp_all add: trim_ws_def)
  then have "fst (split_schedule_timezone cal s) = [] \<or> (\<exists>z. fst (split_schedule_timezone cal s) = CHR ''c'' # z)"
    using zone_base [of cal s] assms by metis
  moreover have "lower_char (CHR ''c'') = CHR ''c''" by (simp add: lower_char_def is_upper_def char_code_def)
  ultimately show "strip_prefix ''daily@'' (to_lower (fst (split_schedule_timezone cal s))) = None"
    "strip_prefix ''weekly:'' (to_lower (fst (split_schedule_timezone cal s))) = None"
    "strip_prefix ''biweekly:'' (to_lower (fst (split_schedule_timezone cal s))) = None"
    by (auto simp: to_lower_def strip_prefix_def)
qed

lemma parse_every:
  assumes "seconds \<noteq> 0"
  shows "parse_schedule cal now (''every:'' @ show_nat (unat seconds) @ ''s'') = Ok (Some (EverySeconds seconds))"
proof -
  let ?text = "''every:'' @ show_nat (unat seconds) @ ''s''"
  have digits: "\<forall>c\<in>set (show_nat k). \<not> is_whitespace c \<and> c \<noteq> CHR ''s''" for k
    using show_nat_digits [of _ k] digit_not_whitespace by (force simp: is_digit_def char_code_def)
  then have "trim_ws ?text = ?text"
    by (intro trim_ws_id) (auto simp: is_whitespace_def char_code_def)
  moreover have "trim_right (\<lambda>c. c = CHR ''s'') (show_nat (unat seconds) @ ''s'') = show_nat (unat seconds)"
    using digits [of "unat seconds"] by (simp add: trim_right_def dropWhile_none)
  moreover have "unat seconds \<le> u64_max" "0 < unat seconds"
    using unat_bound [of seconds] assms by (simp_all add: u64_max_def unat_gt_0)
  ultimately show ?thesis by (simp add: parse_schedule_def strip_prefix_def parse_show)
qed

lemma parse_at:
  assumes "calendar_ok cal"
  shows "parse_schedule cal now (''at:'' @ show_rfc3339 cal t) = Ok (Some (Once t))"
proof -
  let ?text = "''at:'' @ show_rfc3339 cal t"
  have rfc: "parse_rfc3339 cal (show_rfc3339 cal t) = Some t" "\<forall>c\<in>set (show_rfc3339 cal t). \<not> is_whitespace c"
    "CHR ''#'' \<notin> set (show_rfc3339 cal t)"
    using assms by (auto simp: calendar_ok_def plain_text_def)
  have trim: "trim_ws ?text = ?text" "trim_ws (show_rfc3339 cal t) = show_rfc3339 cal t"
    using rfc(2) by (auto intro!: trim_ws_id simp: is_whitespace_def char_code_def)
  have zone: "split_schedule_timezone cal ?text = (?text, tz_utc cal)"
    unfolding split_schedule_timezone_def using rfc(3) by (subst rsplit_once_None) auto
  have "to_lower ?text = ''at:'' @ to_lower (show_rfc3339 cal t)"
    unfolding to_lower_append by (simp add: to_lower_def lower_char_def is_upper_def char_code_def)
  with trim zone rfc(1) show ?thesis
    by (simp add: parse_schedule_def strip_prefix_def parse_cron_with_timezone_def parse_absolute_def parse_once_datetime_def)
qed

text \<open>The text under which a tool's schedule is stored parses back to exactly the schedule the tool was
  given, whenever it is read; so the scheduler, which parses the stored text again at every
  poll, works with the same schedule.\<close>

lemma schedule_text_roundtrip:
  assumes cal: "calendar_ok cal" and parts: "to_schedule_parts cal now default_tz s = Ok (stored, spec)"
  shows "parse_schedule cal now' stored = Ok (Some spec)"
proof (cases s)
  case (EveryTool seconds)
  then show ?thesis using parts parse_every [of seconds] by (auto split: if_splits)
next
  case (AtTool at)
  then show ?thesis using parts parse_at [OF cal] by (auto simp: result_simps)
next
  case (DailyTool hour minute timezone)
  then obtain tz where tz: "hour \<le> 23" "minute \<le> 59" "spec = DailyAt hour minute tz"
    "stored = (''daily@'' @ show02 hour @ '':'' @ show02 minute) @ ''#'' @ tz_show cal tz"
    using parts by (auto simp: result_simps split: if_splits)
  have base: "\<forall>c\<in>set (''daily@'' @ show02 hour @ '':'' @ show02 minute). \<not> is_whitespace c"
    using show02_plain by (auto simp: is_whitespace_def char_code_def)
  have "to_lower ''daily@'' = ''daily@''" by code_simp
  then have lower: "to_lower (''daily@'' @ show02 hour @ '':'' @ show02 minute) = ''daily@'' @ show02 hour @ '':'' @ show02 minute"
    by (simp only: to_lower_append [of "''daily@''"] lower_time)
  have "strip_prefix ''daily@'' (''daily@'' @ x) = Some x" for x by (simp add: strip_prefix_Some)
  then show ?thesis
    unfolding tz(4) using hh_mm_roundtrip [OF tz(1,2)] tz(3)
    by (subst parse_tagged [OF cal base lower]) auto
next
  case (WeeklyTool weekday hour minute weeks timezone)
  then obtain tz w where tz: "hour \<le> 23" "minute \<le> 59" "spec = WeeklyAt weeks w hour minute tz" "weeks = 1 \<or> weeks = 2"
    "stored = ((if weeks = 2 then ''biweekly:'' else ''weekly:'') @ weekday_to_short_name w @ ''@'' @ show02 hour @ '':'' @
       show02 minute) @ ''#'' @ tz_show cal tz"
    using parts by (auto simp: result_simps split: if_splits)
  let ?rest = "weekday_to_short_name w @ ''@'' @ show02 hour @ '':'' @ show02 minute"
  let ?tag = "if weeks = 2 then ''biweekly:'' else ''weekly:''"
  have day: "\<forall>c\<in>set (weekday_to_short_name w). \<not> is_whitespace c" "to_lower (weekday_to_short_name w) = weekday_to_short_name w"
    by (cases w; simp add: is_whitespace_def to_lower_def lower_char_def is_upper_def char_code_def)+
  have base: "\<forall>c\<in>set (?tag @ ?rest). \<not> is_whitespace c"
    using show02_plain day(1) by (auto simp: is_whitespace_def char_code_def)
  have "to_lower ''@'' = ''@''" "to_lower ?tag = ?tag"
    by (simp_all add: to_lower_def lower_char_def is_upper_def char_code_def)
  then have lower: "to_lower (?tag @ ?rest) = ?tag @ ?rest"
    using day(2) lower_time by (simp only: to_lower_append)
  have rest: "parse_weekly n ?rest tz = Some (WeeklyAt n w hour minute tz)" for n
    using weekday_at_roundtrip [OF tz(1,2), of w] by (simp add: parse_weekly_def)
  show ?thesis
    unfolding tz(5) using tz(3,4) rest
    by (subst parse_tagged [OF cal base lower]) (auto simp: strip_prefix_def)
next
  case (CronTool expr timezone)
  then obtain tz where tz: "stored = ''cron['' @ tz_show cal tz @ '']:'' @ trim_ws expr"
    "parse_schedule cal now stored = Ok (Some spec)"
    using parts by (auto simp: result_simps Let_def)
  have name: "tz_parse cal (tz_show cal tz) = Some tz" "plain_text (tz_show cal tz)"
    using cal by (simp_all add: calendar_ok_def)
  then have "trim_ws (tz_show cal tz) = tz_show cal tz" by (intro trim_ws_id) (auto simp: plain_text_def)
  with name have zone: "tz_parse cal (trim_ws (tz_show cal tz)) = Some tz" "CHR '']'' \<notin> set (tz_show cal tz)"
    by (auto simp: plain_text_def)
  have first: "find_str '']:'' (a @ '']:'' @ b) = Some (length a)" if "CHR '']'' \<notin> set a" for a b
    using that by (induction a) auto
  let ?text = "''cron['' @ tz_show cal tz @ '']:'' @ trim_ws expr"
  have trimmed: "trim_ws ?text = ?text"
  proof (cases "trim_ws expr = []")
    case True
    have "trim_pred is_whitespace ([] @ ?text @ []) = trim_left is_whitespace [] @ ?text @ trim_right is_whitespace []"
      using True by (intro trim_pred_mid) (auto simp: is_whitespace_def char_code_def)
    then show ?thesis by (simp add: trim_ws_pred trim_left_def trim_right_def)
  next
    case False
    have "\<not> is_whitespace (last (trim_ws expr))"
      using False hd_dropWhile [of is_whitespace "rev (dropWhile is_whitespace expr)"] by (auto simp: trim_ws_def last_rev)
    then have "trim_pred is_whitespace ([] @ ?text @ []) = trim_left is_whitespace [] @ ?text @ trim_right is_whitespace []"
      using False by (intro trim_pred_mid) (auto simp: is_whitespace_def char_code_def)
    then show ?thesis by (simp add: trim_ws_pred trim_left_def trim_right_def)
  qed
  have cron: "parse_cron_with_timezone cal ?text = Some (tz, trim_ws expr)"
    using zone first [OF zone(2)] by (simp add: parse_cron_with_timezone_def strip_prefix_def split_once_def trim_ws_idem)
  have "?text = CHR ''c'' # tl ?text" by simp
  note tags = no_tag [OF this, of cal]
  have "strip_prefix ''every:'' ?text = None" by (simp add: strip_prefix_def)
  with tags cron have "parse_schedule cal n ?text = Ok (parse_cron_text cal (trim_ws expr) (trim_ws expr) tz)" for n
    unfolding parse_schedule_def trimmed Let_def by (simp only: case_prod_beta option.case prod.case fst_conv snd_conv)
  with tz show ?thesis by simp
qed

section \<open>A calendar, and a zone whose clocks go back\<close>

text \<open>A calendar of one zone with a given local time, where instants are written in unary.\<close>

definition unary :: "int \<Rightarrow> string" where
  "unary t = (if t < 0 then CHR ''-'' # replicate (nat (- t)) CHR ''1'' else CHR ''+'' # replicate (nat t) CHR ''1'')"

definition parse_unary :: "string \<Rightarrow> int option" where
  "parse_unary s = (case s of CHR ''-'' # r \<Rightarrow> Some (- int (length r)) | CHR ''+'' # r \<Rightarrow> Some (int (length r)) | _ \<Rightarrow> None)"

definition sample_calendar :: "(int \<Rightarrow> int) \<Rightarrow> (int \<Rightarrow> local_result) \<Rightarrow> (unit, unit) calendar" where
  "sample_calendar local_time instant = \<lparr>tz_utc = (), tz_parse = (\<lambda>s. if s = ''UTC'' then Some () else None),
     tz_show = (\<lambda>_. ''UTC''), to_local = (\<lambda>_. local_time), from_local = (\<lambda>_. instant), parse_rfc3339 = parse_unary,
     show_rfc3339 = unary, parse_naive = (\<lambda>_ _. None), cron_parse = (\<lambda>_. None), cron_after = (\<lambda>_ _ _. None),
     min_instant = -8334601228800000000, max_instant = 8210266876799999999\<rparr>"

lemma sample_calendar_ok: "calendar_ok (sample_calendar l i)"
proof -
  have "parse_unary (unary t) = Some t" "plain_text (unary t)" for t
    by (auto simp: parse_unary_def unary_def plain_text_def is_whitespace_def char_code_def)
  moreover have "plain_text ''UTC''" by (simp add: plain_text_def is_whitespace_def char_code_def)
  ultimately show ?thesis by (simp add: calendar_ok_def sample_calendar_def)
qed

lemma schedule_text_roundtrip_example:
  "parse_schedule (sample_calendar id Single) 7 ''biweekly:tue@09:05#UTC'' = Ok (Some (WeeklyAt 2 Tue 9 5 ()))"
proof (rule schedule_text_roundtrip [OF sample_calendar_ok])
  have "parse_weekday_token ''Tuesday'' = Some Tue" by code_simp
  moreover have "''biweekly'' @ '':'' @ ''tue'' @ ''@'' @ show02 9 @ '':'' @ show02 5 @ ''#'' @ ''UTC'' = ''biweekly:tue@09:05#UTC''"
    by code_simp
  ultimately show "to_schedule_parts (sample_calendar id Single) 0 () (WeeklyTool ''Tuesday'' 9 5 2 None) =
      Ok (''biweekly:tue@09:05#UTC'', WeeklyAt 2 Tue 9 5 ())"
    by (simp add: timezone_from_option_def sample_calendar_def)
qed

text \<open>The local target is after the local now, but where the clocks go back the target is read as its earlier
  instant, which may be over: the next firing of a daily job is then before now.\<close>

lemma ambiguous_target_in_past:
  assumes "from_local cal tz (daily_target (to_local cal tz now) h m) = AmbiguousTime earlier later" "earlier \<le> now"
  shows "next_daily_fire cal now tz h m \<le> now"
  using assms by (simp add: next_daily_fire_def resolve_local_def)

text \<open>Half an hour after the clocks went back from three to two: a job for a quarter to three is due at once, again,
  although it ran an hour before.\<close>

definition autumn_night :: "(unit, unit) calendar" where
  "autumn_night = sample_calendar (\<lambda>t. if t < 3 * 3600000000 then t else t - 3600000000)
     (\<lambda>l. if l < 2 * 3600000000 then Single l else if l < 3 * 3600000000 then AmbiguousTime l (l + 3600000000)
        else Single (l + 3600000000))"

lemma autumn_night_example:
  "next_daily_fire autumn_night (3 * 3600000000 + 1800000000) () 2 45 \<le> 3 * 3600000000 + 1800000000"
  unfolding autumn_night_def
  by (rule ambiguous_target_in_past [of _ _ _ _ _ 9900000000 13500000000]) (simp_all add: sample_calendar_def daily_target_def day_of_def
      microseconds_per_day_def time_of_day_def)

text \<open>A delay that no duration holds makes the parser panic.\<close>

lemma long_delay_panics: "try_seconds s = None \<Longrightarrow> (\<exists>m. parse_delay cal now s = Err m)"
  by (simp add: parse_delay_def)

lemma negative_interval:
  "now \<le> max_instant cal \<Longrightarrow> next_fire cal (EverySeconds (- 1)) now = Ok (now - 1000000)"
  by (simp add: try_seconds_def plus_time_def)

lemma weekly_target_least_example:
  "weekly_target 0 1 Mon 9 0 \<le> 4 * microseconds_per_day + time_of_day 9 0"
proof -
  have "weekly_slot 1 Mon 9 0 (4 * microseconds_per_day + time_of_day 9 0)"
    by (simp add: weekly_slot_def daily_slot_def day_of_def microseconds_per_day_def time_of_day_def weekday_index_def)
  moreover have "0 < 4 * microseconds_per_day + time_of_day 9 0" by (simp add: microseconds_per_day_def time_of_day_def)
  ultimately show ?thesis
    using weekly_target_least [of 1 0 Mon 9 0] by (simp add: Let_def)
qed

end
