(* ===== verification/Scheduler.thy ===== *)
theory Scheduler
  imports Schedules Leases ContextTypes
begin

text \<open>Scheduled prompts: the jobs (\<open>aria-intelligence/src/scheduler.rs\<close>), the scheduler in memory
  (\<open>CronScheduler\<close> of \<open>aria-intelligence/src/hardware.rs\<close>), and the scheduler over the runtime store
  (\<open>aria-x/src/scheduler.rs\<close> with the job snapshots of \<open>runtime_store/outbound.rs\<close>), whose polls claim a
  job by its lease.  An operation reads the clock once (\<open>now\<close>).\<close>

section \<open>Jobs\<close>

datatype ScheduledJobKind = NotifyJob | OrchestrateJob

datatype ScheduledJobStatus = ScheduledStatus | DispatchedStatus | CompletedStatus | FailedStatus | ApprovalRequiredStatus

record ScheduledJobAuditEntry =
  au_timestamp_us :: u64
  au_event :: string
  au_detail :: "string option"

record ('tz, 'c) ScheduledPromptJob =
  sj_id :: string
  sj_agent_id :: string
  sj_creator_agent :: "string option"
  sj_executor_agent :: "string option"
  sj_notifier_agent :: "string option"
  sj_prompt :: string
  sj_schedule_str :: string
  sj_kind :: ScheduledJobKind
  sj_session_id :: "u8 list option"
  sj_user_id :: "string option"
  sj_channel :: "GatewayChannel option"
  sj_status :: ScheduledJobStatus
  sj_last_run_at_us :: "u64 option"
  sj_last_error :: "string option"
  sj_audit_log :: "ScheduledJobAuditEntry list"
  sj_schedule :: "('tz, 'c) ScheduleSpec"

record ScheduledPromptEvent =
  ev_job_id :: string
  ev_agent_id :: string
  ev_creator_agent :: "string option"
  ev_executor_agent :: "string option"
  ev_notifier_agent :: "string option"
  ev_prompt :: string
  ev_kind :: ScheduledJobKind
  ev_session_id :: "u8 list option"
  ev_user_id :: "string option"
  ev_channel :: "GatewayChannel option"

definition effective_agent_id :: "('tz, 'c) ScheduledPromptJob \<Rightarrow> string" where
  "effective_agent_id job = (case sj_kind job of
      NotifyJob \<Rightarrow> (case sj_notifier_agent job of Some a \<Rightarrow> a | None \<Rightarrow> sj_agent_id job)
    | OrchestrateJob \<Rightarrow> (case sj_executor_agent job of Some a \<Rightarrow> a | None \<Rightarrow> sj_agent_id job))"

definition append_audit ::
  "string \<Rightarrow> string option \<Rightarrow> u64 \<Rightarrow> ('tz, 'c) ScheduledPromptJob \<Rightarrow> ('tz, 'c) ScheduledPromptJob" where
  "append_audit event detail t job = job\<lparr>sj_audit_log := sj_audit_log job @
     [\<lparr>au_timestamp_us = t, au_event = event, au_detail = detail\<rparr>]\<rparr>"

definition event_of :: "('tz, 'c) ScheduledPromptJob \<Rightarrow> ScheduledPromptEvent" where
  "event_of job = \<lparr>ev_job_id = sj_id job, ev_agent_id = effective_agent_id job, ev_creator_agent = sj_creator_agent job,
     ev_executor_agent = sj_executor_agent job, ev_notifier_agent = sj_notifier_agent job, ev_prompt = sj_prompt job,
     ev_kind = sj_kind job, ev_session_id = sj_session_id job, ev_user_id = sj_user_id job, ev_channel = sj_channel job\<rparr>"

fun status_event :: "ScheduledJobStatus \<Rightarrow> string" where
  "status_event ScheduledStatus = ''scheduled''"
| "status_event DispatchedStatus = ''dispatched''"
| "status_event CompletedStatus = ''completed''"
| "status_event FailedStatus = ''failed''"
| "status_event ApprovalRequiredStatus = ''approval_required''"

fun show_kind :: "ScheduledJobKind \<Rightarrow> string" where
  "show_kind NotifyJob = ''Notify''"
| "show_kind OrchestrateJob = ''Orchestrate''"

definition normalize_job_for_store :: "u64 \<Rightarrow> ('tz, 'c) ScheduledPromptJob \<Rightarrow> ('tz, 'c) ScheduledPromptJob" where
  "normalize_job_for_store now_us job =
     (if sj_audit_log job = []
      then append_audit ''scheduled'' (Some (''kind='' @ show_kind (sj_kind job) @ '' agent='' @ effective_agent_id job))
        now_us job
      else job)\<lparr>sj_status := ScheduledStatus\<rparr>"

definition update_job_snapshot_status :: "('tz, 'c) ScheduledPromptJob \<Rightarrow> ScheduledJobStatus \<Rightarrow> string option \<Rightarrow> u64 \<Rightarrow>
    ('tz, 'c) ScheduledPromptJob" where
  "update_job_snapshot_status job status detail t = append_audit (status_event status) detail t
     (job\<lparr>sj_status := status,
          sj_last_error := if status \<in> {FailedStatus, ApprovalRequiredStatus} then detail else None\<rparr>)"

section \<open>The scheduler in memory\<close>

record ('tz, 'c) CronScheduler =
  cs_jobs :: "string \<rightharpoonup> ('tz, 'c) ScheduledPromptJob"
  cs_next_fires :: "string \<rightharpoonup> int"

definition add_job :: "u64 \<Rightarrow> ('tz, 'c) ScheduledPromptJob \<Rightarrow> ('tz, 'c) CronScheduler \<Rightarrow> ('tz, 'c) CronScheduler" where
  "add_job now_us job s = s\<lparr>cs_jobs := (cs_jobs s)(sj_id job \<mapsto> normalize_job_for_store now_us job),
     cs_next_fires := (cs_next_fires s)(sj_id job := None)\<rparr>"

definition waits :: "('tz, 'c) ScheduledPromptJob \<Rightarrow> bool" where
  "waits job \<longleftrightarrow> sj_status job \<in> {DispatchedStatus, ApprovalRequiredStatus} \<or>
     is_once (sj_schedule job) \<and> sj_status job \<in> {CompletedStatus, FailedStatus}"

definition fire_job :: "u64 \<Rightarrow> ('tz, 'c) ScheduledPromptJob \<Rightarrow> ('tz, 'c) ScheduledPromptJob" where
  "fire_job now_us job = append_audit ''dispatched'' None now_us
     (job\<lparr>sj_status := DispatchedStatus, sj_last_error := None, sj_last_run_at_us := Some now_us\<rparr>)"

text \<open>One job of the loop; an error is a panic of the date arithmetic.\<close>

definition due_job :: "('tz, 'c) calendar \<Rightarrow> int \<Rightarrow> string \<Rightarrow> ('tz, 'c) CronScheduler \<Rightarrow>
    (string, ('tz, 'c) CronScheduler \<times> ScheduledPromptEvent list) result" where
  "due_job cal now k s = (case cs_jobs s k of
      None \<Rightarrow> Ok (s, [])
    | Some job \<Rightarrow>
        if waits job then Ok (s, [])
        else and_then (case cs_next_fires s k of Some t \<Rightarrow> Ok t | None \<Rightarrow> next_fire cal (sj_schedule job) now) (\<lambda>target.
          let s1 = s\<lparr>cs_next_fires := (cs_next_fires s)(k \<mapsto> target)\<rparr> in
          if now < target then Ok (s1, [])
          else let s2 = s1\<lparr>cs_jobs := (cs_jobs s1)(k \<mapsto> fire_job (word_of_int now) job)\<rparr> in
            if is_once (sj_schedule job) then Ok (s2\<lparr>cs_next_fires := (cs_next_fires s2)(k := None)\<rparr>, [event_of job])
            else map_ok (\<lambda>t. (s2\<lparr>cs_next_fires := (cs_next_fires s2)(k \<mapsto> t)\<rparr>, [event_of job]))
              (next_fire cal (sj_schedule job) now)))"

text \<open>The order of the keys is that of the hash map.\<close>

fun due_events_now :: "('tz, 'c) calendar \<Rightarrow> int \<Rightarrow> string list \<Rightarrow> ('tz, 'c) CronScheduler \<Rightarrow>
    (string, ('tz, 'c) CronScheduler \<times> ScheduledPromptEvent list) result" where
  "due_events_now cal now [] s = Ok (s, [])"
| "due_events_now cal now (k # ks) s = and_then (due_job cal now k s) (\<lambda>(s1, es).
     map_ok (\<lambda>(s2, fs). (s2, es @ fs)) (due_events_now cal now ks s1))"

definition update_job_status :: "string \<Rightarrow> ScheduledJobStatus \<Rightarrow> string option \<Rightarrow> u64 \<Rightarrow> ('tz, 'c) CronScheduler \<Rightarrow>
    ('tz, 'c) CronScheduler" where
  "update_job_status k status detail t s = (case cs_jobs s k of
      None \<Rightarrow> s
    | Some job \<Rightarrow> s\<lparr>cs_jobs := (cs_jobs s)(k \<mapsto> update_job_snapshot_status job status detail t)\<rparr>)"

datatype ('tz, 'c) CronCommand = AddJob "('tz, 'c) ScheduledPromptJob" | RemoveJob string
  | UpdateJobStatus string ScheduledJobStatus "string option" u64 | ListJobs

definition cron_command :: "u64 \<Rightarrow> ('tz, 'c) CronCommand \<Rightarrow> ('tz, 'c) CronScheduler \<Rightarrow> ('tz, 'c) CronScheduler" where
  "cron_command now_us cmd s = (case cmd of
      AddJob job \<Rightarrow> add_job now_us job s
    | RemoveJob k \<Rightarrow> s\<lparr>cs_jobs := (cs_jobs s)(k := None), cs_next_fires := (cs_next_fires s)(k := None)\<rparr>
    | UpdateJobStatus k status detail t \<Rightarrow> update_job_status k status detail t s
    | ListJobs \<Rightarrow> s)"

section \<open>The scheduler over the store\<close>

record ('tz, 'c) job_snapshot =
  js_job :: "('tz, 'c) ScheduledPromptJob"
  js_updated_at_us :: int

record ('tz, 'c) job_store =
  job_snapshots :: "('tz, 'c) job_snapshot list"
  lease_rows :: lease_store

abbreviation js_id :: "('tz, 'c) job_snapshot \<Rightarrow> string" where
  "js_id r \<equiv> sj_id (js_job r)"

definition upsert_job_snapshot :: "('tz, 'c) ScheduledPromptJob \<Rightarrow> u64 \<Rightarrow> ('tz, 'c) job_store \<Rightarrow> ('tz, 'c) job_store" where
  "upsert_job_snapshot job t st = st\<lparr>job_snapshots :=
     upsert_by js_id \<lparr>js_job = job, js_updated_at_us = sint t\<rparr> (job_snapshots st)\<rparr>"

definition delete_job_snapshot :: "string \<Rightarrow> ('tz, 'c) job_store \<Rightarrow> ('tz, 'c) job_store" where
  "delete_job_snapshot k st = st\<lparr>job_snapshots := delete_by js_id k (job_snapshots st)\<rparr>"

text \<open>The parsed schedule is not stored: a job that is read has the default one, a minute.\<close>

definition list_job_snapshot_records :: "('tz, 'c) job_store \<Rightarrow> ('tz, 'c) job_snapshot list" where
  "list_job_snapshot_records st = map (\<lambda>r. r\<lparr>js_job := (js_job r)\<lparr>sj_schedule := EverySeconds 60\<rparr>\<rparr>)
     (sort_key js_updated_at_us (job_snapshots st))"

definition list_job_snapshots :: "('tz, 'c) job_store \<Rightarrow> ('tz, 'c) ScheduledPromptJob list" where
  "list_job_snapshots st = map js_job (list_job_snapshot_records st)"

record ScheduledPromptConfig =
  pc_id :: string
  pc_agent_id :: string
  pc_prompt :: string
  pc_schedule :: string

definition config_job :: "ScheduledPromptConfig \<Rightarrow> ('tz, 'c) ScheduleSpec \<Rightarrow> ('tz, 'c) ScheduledPromptJob" where
  "config_job c spec = \<lparr>sj_id = pc_id c, sj_agent_id = pc_agent_id c, sj_creator_agent = None,
     sj_executor_agent = Some (pc_agent_id c), sj_notifier_agent = None, sj_prompt = pc_prompt c,
     sj_schedule_str = pc_schedule c, sj_kind = OrchestrateJob, sj_session_id = None, sj_user_id = None,
     sj_channel = None, sj_status = ScheduledStatus, sj_last_run_at_us = None, sj_last_error = None,
     sj_audit_log = [], sj_schedule = spec\<rparr>"

fun config_jobs :: "('tz, 'c) calendar \<Rightarrow> int \<Rightarrow> ScheduledPromptConfig list \<Rightarrow>
    (string, ('tz, 'c) ScheduledPromptJob list) result" where
  "config_jobs cal now [] = Ok []"
| "config_jobs cal now (c # cs) = and_then (parse_schedule cal now (pc_schedule c)) (\<lambda>spec.
     map_ok (\<lambda>js. (case spec of Some sp \<Rightarrow> [config_job c sp] | None \<Rightarrow> []) @ js) (config_jobs cal now cs))"

definition scheduler_boot_jobs :: "('tz, 'c) calendar \<Rightarrow> int \<Rightarrow> ScheduledPromptConfig list \<Rightarrow> ('tz, 'c) job_store \<Rightarrow>
    (string, ('tz, 'c) ScheduledPromptJob list) result" where
  "scheduler_boot_jobs cal now configs st =
     (if list_job_snapshots st \<noteq> [] then Ok (list_job_snapshots st) else config_jobs cal now configs)"

definition seed_scheduler_runtime_store :: "('tz, 'c) calendar \<Rightarrow> int \<Rightarrow> ScheduledPromptConfig list \<Rightarrow>
    ('tz, 'c) job_store \<Rightarrow> (string, ('tz, 'c) job_store \<times> nat) result" where
  "seed_scheduler_runtime_store cal now configs st = map_ok (\<lambda>jobs.
     (fold (\<lambda>job. upsert_job_snapshot job (word_of_int now)) jobs st, length jobs)) (scheduler_boot_jobs cal now configs st)"

definition process_command :: "u64 \<Rightarrow> ('tz, 'c) CronCommand \<Rightarrow> ('tz, 'c) job_store \<Rightarrow>
    ('tz, 'c) job_store \<times> ('tz, 'c) ScheduledPromptJob list" where
  "process_command now_us cmd st = (case cmd of
      AddJob job \<Rightarrow> (upsert_job_snapshot (normalize_job_for_store now_us job) now_us st, [])
    | RemoveJob k \<Rightarrow> ((delete_job_snapshot k st)\<lparr>lease_rows := clear_job_lease k (lease_rows st)\<rparr>, [])
    | UpdateJobStatus k status detail t \<Rightarrow> (case find (\<lambda>job. sj_id job = k) (list_job_snapshots st) of
        Some job \<Rightarrow> (upsert_job_snapshot (update_job_snapshot_status job status detail t) t st, [])
      | None \<Rightarrow> (st, []))
    | ListJobs \<Rightarrow> (st, list_job_snapshots st))"

text \<open>Hashing a string with \<open>DefaultHasher\<close> is a parameter.\<close>

definition scheduler_shard_for_node :: "(string \<Rightarrow> u64) \<Rightarrow> string \<Rightarrow> 16 word \<Rightarrow> 16 word" where
  "scheduler_shard_for_node hash node shards = ucast (hash node mod ucast (max shards 1))"

definition scheduler_job_matches_shard :: "(string \<Rightarrow> u64) \<Rightarrow> string \<Rightarrow> 16 word \<Rightarrow> 16 word \<Rightarrow> bool" where
  "scheduler_job_matches_shard hash job shard shards \<longleftrightarrow> ucast (hash job mod ucast (max shards 1)) = shard"

definition job_reference_time :: "('tz, 'c) calendar \<Rightarrow> int \<Rightarrow> ('tz, 'c) ScheduledPromptJob \<Rightarrow> int \<Rightarrow> int" where
  "job_reference_time cal now job updated = (let t = (case sj_last_run_at_us job of Some u \<Rightarrow> sint u | None \<Rightarrow> updated) in
     if min_instant cal \<le> t \<and> t \<le> max_instant cal then t else now)"

definition is_job_due :: "('tz, 'c) calendar \<Rightarrow> ('tz, 'c) ScheduledPromptJob \<Rightarrow> int \<Rightarrow> int \<Rightarrow> (string, bool) result" where
  "is_job_due cal job updated now =
     (if is_once (sj_schedule job) \<and>
         sj_status job \<in> {DispatchedStatus, CompletedStatus, FailedStatus, ApprovalRequiredStatus} then Ok False
      else map_ok (\<lambda>t. t \<le> now) (next_fire cal (sj_schedule job) (job_reference_time cal now job updated)))"

definition dispatch_job :: "string \<Rightarrow> u64 \<Rightarrow> ('tz, 'c) ScheduledPromptJob \<Rightarrow> ('tz, 'c) ScheduledPromptJob" where
  "dispatch_job worker now_us job = append_audit ''dispatched'' (Some (''worker='' @ worker)) now_us
     (job\<lparr>sj_status := DispatchedStatus, sj_last_run_at_us := Some now_us\<rparr>)"

type_synonym shard_of_node = "(16 word \<times> 16 word) option"

text \<open>One record of a poll.\<close>

definition poll_record :: "('tz, 'c) calendar \<Rightarrow> (string \<Rightarrow> u64) \<Rightarrow> string \<Rightarrow> u64 \<Rightarrow> shard_of_node \<Rightarrow> int \<Rightarrow>
    ('tz, 'c) job_snapshot \<Rightarrow> ('tz, 'c) job_store \<Rightarrow> ('tz, 'c) job_store \<times> (string, ScheduledPromptEvent list) result" where
  "poll_record cal hash worker ttl shard now rec st = (case parse_schedule cal now (sj_schedule_str (js_job rec)) of
      Err e \<Rightarrow> (st, Err e)
    | Ok None \<Rightarrow> (st, Ok [])
    | Ok (Some spec) \<Rightarrow>
        let job = (js_job rec)\<lparr>sj_schedule := spec\<rparr> in
        if (case shard of Some (s, shards) \<Rightarrow> \<not> scheduler_job_matches_shard hash (sj_id job) s shards | None \<Rightarrow> False)
        then (st, Ok [])
        else (case is_job_due cal job (js_updated_at_us rec) now of
            Err e \<Rightarrow> (st, Err e)
          | Ok False \<Rightarrow> (st, Ok [])
          | Ok True \<Rightarrow>
             (let (leases, claimed) = try_claim_scheduler_job_execution worker (sj_id job) ttl (word_of_int now) (lease_rows st);
                  st1 = st\<lparr>lease_rows := leases\<rparr> in
              if \<not> claimed then (st1, Ok [])
              else (upsert_job_snapshot (dispatch_job worker (word_of_int now) job) (word_of_int now) st1, Ok [event_of job]))))"

text \<open>The events of the records before a panic are lost.\<close>

fun poll_records :: "('tz, 'c) calendar \<Rightarrow> (string \<Rightarrow> u64) \<Rightarrow> string \<Rightarrow> u64 \<Rightarrow> shard_of_node \<Rightarrow> int \<Rightarrow>
    ('tz, 'c) job_snapshot list \<Rightarrow> ('tz, 'c) job_store \<Rightarrow> ('tz, 'c) job_store \<times> (string, ScheduledPromptEvent list) result" where
  "poll_records cal hash worker ttl shard now [] st = (st, Ok [])"
| "poll_records cal hash worker ttl shard now (r # rs) st = (case poll_record cal hash worker ttl shard now r st of
      (st1, Err e) \<Rightarrow> (st1, Err e)
    | (st1, Ok es) \<Rightarrow> (case poll_records cal hash worker ttl shard now rs st1 of (st2, rest) \<Rightarrow> (st2, map_ok ((@) es) rest)))"

definition poll_due_job_events_from_store :: "('tz, 'c) calendar \<Rightarrow> (string \<Rightarrow> u64) \<Rightarrow> string \<Rightarrow> u64 \<Rightarrow> shard_of_node \<Rightarrow>
    int \<Rightarrow> ('tz, 'c) job_store \<Rightarrow> ('tz, 'c) job_store \<times> (string, ScheduledPromptEvent list) result" where
  "poll_due_job_events_from_store cal hash worker ttl shard now st =
     poll_records cal hash worker ttl shard now (list_job_snapshot_records st) st"

section \<open>Sessions of scheduled runs\<close>

unbundle bit_operations_syntax

text \<open>FNV-1a.\<close>

definition fnv1a :: "string \<Rightarrow> u64" where
  "fnv1a s = fold (\<lambda>b hash. (hash XOR of_nat (char_code b)) * 1099511628211) s 14695981039346656037"

definition le_bytes :: "u64 \<Rightarrow> u8 list" where
  "le_bytes w = map (\<lambda>i. ucast (drop_bit (8 * i) w)) [0..<8]"

definition scheduled_session_id :: "string \<Rightarrow> u8 list" where
  "scheduled_session_id job = le_bytes (fnv1a job) @ le_bytes (NOT (fnv1a job))"

definition execution_session_id_for_scheduled_event :: "ScheduledPromptEvent \<Rightarrow> u8 list" where
  "execution_session_id_for_scheduled_event ev = (case ev_kind ev of
      OrchestrateJob \<Rightarrow> scheduled_session_id (ev_job_id ev)
    | NotifyJob \<Rightarrow> (case ev_session_id ev of Some s \<Rightarrow> s | None \<Rightarrow> scheduled_session_id (ev_job_id ev)))"

section \<open>What a poll dispatches\<close>

lemma effective_agent_schedule [simp]: "effective_agent_id (job\<lparr>sj_schedule := sp\<rparr>) = effective_agent_id job"
  by (simp add: effective_agent_id_def split: option.split ScheduledJobKind.split)

lemma event_of_schedule [simp]: "event_of (job\<lparr>sj_schedule := sp\<rparr>) = event_of job"
  by (simp add: event_of_def)

lemma event_of_id [simp]: "ev_job_id (event_of job) = sj_id job"
  by (simp add: event_of_def)

lemma dispatch_job_fields [simp]:
  "sj_id (dispatch_job w t job) = sj_id job" "sj_status (dispatch_job w t job) = DispatchedStatus"
  "sj_schedule_str (dispatch_job w t job) = sj_schedule_str job"
  by (simp_all add: dispatch_job_def append_audit_def)

lemma update_status_fields [simp]:
  "sj_id (update_job_snapshot_status job s d t) = sj_id job" "sj_status (update_job_snapshot_status job s d t) = s"
  "sj_schedule_str (update_job_snapshot_status job s d t) = sj_schedule_str job"
  by (simp_all add: update_job_snapshot_status_def append_audit_def)

lemma normalize_fields [simp]:
  "sj_id (normalize_job_for_store t job) = sj_id job" "sj_status (normalize_job_for_store t job) = ScheduledStatus"
  "sj_schedule_str (normalize_job_for_store t job) = sj_schedule_str job"
  by (simp_all add: normalize_job_for_store_def append_audit_def)

definition claimable :: "string \<Rightarrow> string \<Rightarrow> int \<Rightarrow> ('tz, 'c) job_store \<Rightarrow> bool" where
  "claimable worker k now st \<longleftrightarrow> (case find_by jl_job_id k (job_leases (lease_rows st)) of
      None \<Rightarrow> True | Some l \<Rightarrow> jl_worker_id l = worker \<or> jl_lease_until_us l \<le> sint (word_of_int now :: u64))"

text \<open>A record is ready for a worker: its text parses, it is of the worker's shard, and it is due.\<close>

definition ready :: "('tz, 'c) calendar \<Rightarrow> (string \<Rightarrow> u64) \<Rightarrow> shard_of_node \<Rightarrow> int \<Rightarrow> ('tz, 'c) job_snapshot \<Rightarrow> bool" where
  "ready cal hash shard now rec \<longleftrightarrow> (\<exists>spec. parse_schedule cal now (sj_schedule_str (js_job rec)) = Ok (Some spec) \<and>
     (\<forall>s n. shard = Some (s, n) \<longrightarrow> scheduler_job_matches_shard hash (js_id rec) s n) \<and>
     is_job_due cal ((js_job rec)\<lparr>sj_schedule := spec\<rparr>) (js_updated_at_us rec) now = Ok True)"

definition fires :: "('tz, 'c) calendar \<Rightarrow> (string \<Rightarrow> u64) \<Rightarrow> string \<Rightarrow> shard_of_node \<Rightarrow> int \<Rightarrow> ('tz, 'c) job_store \<Rightarrow>
    ('tz, 'c) job_snapshot \<Rightarrow> bool" where
  "fires cal hash worker shard now st rec \<longleftrightarrow> ready cal hash shard now rec \<and> claimable worker (js_id rec) now st"

lemma try_claim_iff:
  "snd (try_claim_scheduler_job_execution worker k ttl (word_of_int now) (lease_rows st)) \<longleftrightarrow> claimable worker k now st"
  by (auto simp: try_claim_scheduler_job_execution_def try_acquire_job_lease_def claimable_def Let_def split: option.splits)

lemma try_claim_leases:
  "find_by jl_job_id j (job_leases (fst (try_claim_scheduler_job_execution worker k ttl now ls))) =
    (if j = k \<and> snd (try_claim_scheduler_job_execution worker k ttl now ls)
     then Some \<lparr>jl_job_id = k, jl_worker_id = worker, jl_lease_until_us = sint (lease_end now ttl), jl_updated_at_us = sint now\<rparr>
     else find_by jl_job_id j (job_leases ls))"
  by (auto simp: try_claim_scheduler_job_execution_def try_acquire_job_lease_def Let_def table_simps split: option.splits)

text \<open>A record that does not fire leaves the store unchanged; one that fires is stored as dispatched, under
  the lease of the worker.\<close>

lemma poll_record_silent:
  assumes "poll_record cal hash worker ttl shard now rec st = (st', Ok es)" "\<not> fires cal hash worker shard now st rec"
  shows "es = []" "job_snapshots st' = job_snapshots st" "\<forall>k. claimable w k t st' = claimable w k t st"
proof -
  let ?claim = "\<lambda>k. try_claim_scheduler_job_execution worker k ttl (word_of_int now) (lease_rows st)"
  have same: "fst (?claim k) = lease_rows st" if "\<not> snd (?claim k)" for k
    using that by (auto simp: try_claim_scheduler_job_execution_def try_acquire_job_lease_def Let_def split: if_splits)
  show "es = []" "job_snapshots st' = job_snapshots st" "\<forall>k. claimable w k t st' = claimable w k t st"
    using assms same try_claim_iff [of worker _ ttl now st]
    by (auto simp: poll_record_def fires_def ready_def Let_def case_prod_beta claimable_def
        split: sum.splits option.splits bool.splits if_splits)
qed

lemma poll_record_fires:
  assumes "fires cal hash worker shard now st rec"
  shows "\<exists>st' job. poll_record cal hash worker ttl shard now rec st = (st', Ok [event_of (js_job rec)]) \<and>
    job_snapshots st' = upsert_by js_id \<lparr>js_job = job, js_updated_at_us = sint (word_of_int now :: u64)\<rparr> (job_snapshots st) \<and>
    sj_id job = js_id rec \<and> sj_status job = DispatchedStatus \<and> sj_schedule_str job = sj_schedule_str (js_job rec) \<and>
    find_by jl_job_id (js_id rec) (job_leases (lease_rows st')) = Some \<lparr>jl_job_id = js_id rec, jl_worker_id = worker,
      jl_lease_until_us = sint (lease_end (word_of_int now) ttl), jl_updated_at_us = sint (word_of_int now :: u64)\<rparr> \<and>
    (\<forall>k w t. k \<noteq> js_id rec \<longrightarrow> claimable w k t st' = claimable w k t st)"
proof -
  let ?claim = "try_claim_scheduler_job_execution worker (js_id rec) ttl (word_of_int now) (lease_rows st)"
  obtain spec where spec: "parse_schedule cal now (sj_schedule_str (js_job rec)) = Ok (Some spec)"
    "\<forall>s n. shard = Some (s, n) \<longrightarrow> scheduler_job_matches_shard hash (js_id rec) s n"
    "is_job_due cal ((js_job rec)\<lparr>sj_schedule := spec\<rparr>) (js_updated_at_us rec) now = Ok True" "claimable worker (js_id rec) now st"
    using assms by (auto simp: fires_def ready_def)
  have ok: "snd ?claim" using spec(4) by (simp add: try_claim_iff)
  define job where "job = dispatch_job worker (word_of_int now) ((js_job rec)\<lparr>sj_schedule := spec\<rparr>)"
  define st' where "st' = upsert_job_snapshot job (word_of_int now) (st\<lparr>lease_rows := fst ?claim\<rparr>)"
  have leases: "lease_rows st' = fst ?claim" by (simp add: st'_def upsert_job_snapshot_def)
  have "poll_record cal hash worker ttl shard now rec st = (st', Ok [event_of (js_job rec)])"
    using spec ok unfolding poll_record_def st'_def job_def
    by (cases shard) (auto simp: Let_def case_prod_beta)
  moreover have "job_snapshots st' = upsert_by js_id \<lparr>js_job = job, js_updated_at_us = sint (word_of_int now :: u64)\<rparr> (job_snapshots st)"
    by (simp add: st'_def upsert_job_snapshot_def)
  moreover have "sj_id job = js_id rec" "sj_status job = DispatchedStatus" "sj_schedule_str job = sj_schedule_str (js_job rec)"
    by (simp_all add: job_def)
  moreover have "\<forall>k w t. k \<noteq> js_id rec \<longrightarrow> claimable w k t st' = claimable w k t st"
    unfolding claimable_def leases by (simp add: try_claim_leases)
  moreover have "find_by jl_job_id (js_id rec) (job_leases (lease_rows st')) = Some \<lparr>jl_job_id = js_id rec, jl_worker_id = worker,
      jl_lease_until_us = sint (lease_end (word_of_int now) ttl), jl_updated_at_us = sint (word_of_int now :: u64)\<rparr>"
    unfolding leases using ok by (simp add: try_claim_leases)
  ultimately show ?thesis by blast
qed

text \<open>A poll works on each record by itself: what one record does leaves the others' claims as they were.\<close>

lemma claimable_other:
  assumes "poll_record cal hash worker ttl shard now rec st = (st', Ok es)" "k \<noteq> js_id rec"
  shows "claimable w k t st' = claimable w k t st" "find_by js_id k (job_snapshots st') = find_by js_id k (job_snapshots st)"
proof -
  have "claimable w k t st' = claimable w k t st \<and> find_by js_id k (job_snapshots st') = find_by js_id k (job_snapshots st)"
  proof (cases "fires cal hash worker shard now st rec")
    case True
    from poll_record_fires [OF True, of ttl] assms show ?thesis by (auto simp: table_simps)
  next
    case False
    have "claimable w k t st' = claimable w k t st"
    proof -
      let ?claim = "\<lambda>k. try_claim_scheduler_job_execution worker k ttl (word_of_int now) (lease_rows st)"
      have same: "fst (?claim k) = lease_rows st" if "\<not> snd (?claim k)" for k
        using that by (auto simp: try_claim_scheduler_job_execution_def try_acquire_job_lease_def Let_def split: if_splits)
      show ?thesis
        using assms False same try_claim_iff [of worker _ ttl now st]
        by (auto simp: poll_record_def fires_def ready_def Let_def case_prod_beta claimable_def
            split: sum.splits option.splits bool.splits if_splits)
    qed
    with poll_record_silent [OF assms(1) False] show ?thesis by simp
  qed
  then show "claimable w k t st' = claimable w k t st" "find_by js_id k (job_snapshots st') = find_by js_id k (job_snapshots st)"
    by simp_all
qed

lemma fires_other:
  assumes "poll_record cal hash worker ttl shard now rec st = (st', Ok es)" "js_id r \<noteq> js_id rec"
  shows "fires cal hash worker shard now st' r = fires cal hash worker shard now st r"
  using claimable_other(1) [OF assms] by (simp add: fires_def)

lemma poll_records_frame:
  assumes "poll_records cal hash worker ttl shard now rs st = (st', Ok es)" "k \<notin> js_id ` set rs"
  shows "find_by js_id k (job_snapshots st') = find_by js_id k (job_snapshots st)"
  using assms
proof (induction rs arbitrary: st es)
  case (Cons r rs)
  then obtain st1 fs es1 where r: "poll_record cal hash worker ttl shard now r st = (st1, Ok fs)"
    "poll_records cal hash worker ttl shard now rs st1 = (st', Ok es1)"
    by (auto simp: result_simps split: prod.splits sum.splits)
  have "find_by js_id k (job_snapshots st') = find_by js_id k (job_snapshots st1)"
    using Cons.IH [OF r(2)] Cons.prems(2) by simp
  also have "\<dots> = find_by js_id k (job_snapshots st)"
    using claimable_other(2) [OF r(1)] Cons.prems(2) by simp
  finally show ?case .
qed simp

lemma poll_records_events:
  assumes "poll_records cal hash worker ttl shard now rs st = (st', Ok es)" "unique_keys js_id rs"
  shows "es = map (event_of \<circ> js_job) (filter (fires cal hash worker shard now st) rs) \<and>
    (\<forall>r\<in>set rs. fires cal hash worker shard now st r \<longrightarrow>
       map_option (sj_status \<circ> js_job) (find_by js_id (js_id r) (job_snapshots st')) = Some DispatchedStatus) \<and>
    (\<forall>r\<in>set rs. \<not> fires cal hash worker shard now st r \<longrightarrow>
       find_by js_id (js_id r) (job_snapshots st') = find_by js_id (js_id r) (job_snapshots st))"
  using assms
proof (induction rs arbitrary: st es)
  case (Cons r rs)
  then obtain st1 fs es1 where r: "poll_record cal hash worker ttl shard now r st = (st1, Ok fs)"
    "poll_records cal hash worker ttl shard now rs st1 = (st', Ok es1)" "es = fs @ es1"
    by (auto simp: result_simps split: prod.splits sum.splits)
  have un: "js_id r \<notin> js_id ` set rs" "unique_keys js_id rs" using Cons.prems(2) by auto
  have same: "fires cal hash worker shard now st1 r' = fires cal hash worker shard now st r'"
    "find_by js_id (js_id r') (job_snapshots st1) = find_by js_id (js_id r') (job_snapshots st)" if "r' \<in> set rs" for r'
    using fires_other [OF r(1), of r'] claimable_other(2) [OF r(1), of "js_id r'"] un(1) that by (metis imageI)+
  have rest: "es1 = map (event_of \<circ> js_job) (filter (fires cal hash worker shard now st) rs)"
    using Cons.IH [OF r(2) un(2)] same(1) by (simp cong: filter_cong)
  note end_r = poll_records_frame [OF r(2) un(1)]
  have "(fires cal hash worker shard now st r \<longrightarrow> fs = [event_of (js_job r)] \<and>
      map_option (sj_status \<circ> js_job) (find_by js_id (js_id r) (job_snapshots st')) = Some DispatchedStatus) \<and>
    (\<not> fires cal hash worker shard now st r \<longrightarrow> fs = [] \<and>
      find_by js_id (js_id r) (job_snapshots st') = find_by js_id (js_id r) (job_snapshots st))"
    using poll_record_fires [of cal hash worker shard now st r ttl] poll_record_silent(1,2) [OF r(1)] r(1) end_r
    by (auto simp: table_simps)
  then show ?case
    using rest r(3) Cons.IH [OF r(2) un(2)] same by simp
qed simp

lemma record_id [simp]: "js_id (r\<lparr>js_job := (js_job r)\<lparr>sj_schedule := sp\<rparr>\<rparr>) = js_id r"
  by simp

lemma listed_ids:
  "js_id ` set (list_job_snapshot_records st) = js_id ` set (job_snapshots st)"
  "unique_keys js_id (job_snapshots st) \<Longrightarrow> unique_keys js_id (list_job_snapshot_records st)"
  by (auto simp: list_job_snapshot_records_def comp_def distinct_map image_image inj_on_def)

text \<open>C24: a poll that does not panic dispatches exactly the stored jobs that are due, of the node's shard, and
  not leased to another worker, each once, in the order of their last update; they are then stored as
  dispatched, and every other job is stored as before.\<close>

theorem poll_dispatches_due:
  assumes "unique_keys js_id (job_snapshots st)"
    "poll_due_job_events_from_store cal hash worker ttl shard now st = (st', Ok events)"
  shows "events = map (event_of \<circ> js_job) (filter (fires cal hash worker shard now st) (list_job_snapshot_records st)) \<and>
    (\<forall>r\<in>set (list_job_snapshot_records st). if fires cal hash worker shard now st r
       then map_option (sj_status \<circ> js_job) (find_by js_id (js_id r) (job_snapshots st')) = Some DispatchedStatus
       else find_by js_id (js_id r) (job_snapshots st') = find_by js_id (js_id r) (job_snapshots st))"
  using poll_records_events [of cal hash worker ttl shard now "list_job_snapshot_records st" st st' events] assms listed_ids(2) [of st]
  by (simp add: poll_due_job_events_from_store_def)

section \<open>One-shot jobs\<close>

text \<open>Reading a text at another time changes only the instant of a one-shot schedule (or panics).\<close>

lemma parse_once_stable:
  assumes "parse_schedule cal n1 text = Ok (Some (Once t))" "parse_schedule cal n2 text = Ok (Some spec)"
  shows "is_once spec"
proof -
  have delay: "is_once sp" if "parse_delay cal n s = Ok sp" for n s sp
    using that by (auto simp: parse_delay_def result_simps split: option.splits)
  have last: "is_once spec" if "parse_last_resort cal n1 s = Ok (Some (Once t))" "parse_last_resort cal n2 s = Ok (Some spec)" for s
    using that delay by (auto simp: parse_last_resort_def Let_def parse_cron_text_def result_simps split: option.splits if_splits)
  have abs: "is_once spec" if "parse_absolute cal n1 s = Ok (Some (Once t))" "parse_absolute cal n2 s = Ok (Some spec)" for s
    using that last [of s] by (auto simp: parse_absolute_def split: option.splits)
  show ?thesis
    using assms abs [of "trim_ws text"]
    by (auto simp: parse_schedule_def Let_def parse_cron_text_def parse_weekly_def split: option.splits prod.splits if_splits)
qed

datatype ('tz, 'c) scheduler_op = Poll string u64 shard_of_node int | Command u64 "('tz, 'c) CronCommand"

definition run_op :: "('tz, 'c) calendar \<Rightarrow> (string \<Rightarrow> u64) \<Rightarrow> ('tz, 'c) scheduler_op \<Rightarrow>
    ('tz, 'c) job_store \<Rightarrow> ('tz, 'c) job_store \<times> ScheduledPromptEvent list" where
  "run_op cal hash op st = (case op of
      Poll worker ttl shard now \<Rightarrow> (case poll_due_job_events_from_store cal hash worker ttl shard now st of
        (st', Ok es) \<Rightarrow> (st', es) | (st', Err _) \<Rightarrow> (st', []))
    | Command now_us cmd \<Rightarrow> (fst (process_command now_us cmd st), []))"

fun run_ops :: "('tz, 'c) calendar \<Rightarrow> (string \<Rightarrow> u64) \<Rightarrow> ('tz, 'c) scheduler_op list \<Rightarrow>
    ('tz, 'c) job_store \<Rightarrow> ScheduledPromptEvent list" where
  "run_ops cal hash [] st = []"
| "run_ops cal hash (op # ops) st = (case run_op cal hash op st of (st', es) \<Rightarrow> es @ run_ops cal hash ops st')"

text \<open>Nobody schedules the job again: neither under its id, nor by setting its status back.\<close>

fun keeps_job :: "string \<Rightarrow> ('tz, 'c) scheduler_op \<Rightarrow> bool" where
  "keeps_job k (Command _ (AddJob job)) = (sj_id job \<noteq> k)"
| "keeps_job k (Command _ (UpdateJobStatus j status _ _)) = (j \<noteq> k \<or> status \<noteq> ScheduledStatus)"
| "keeps_job k _ = True"

definition once_text :: "('tz, 'c) calendar \<Rightarrow> string \<Rightarrow> bool" where
  "once_text cal text \<longleftrightarrow> (\<forall>n spec. parse_schedule cal n text = Ok (Some spec) \<longrightarrow> is_once spec)"

definition once_stored :: "('tz, 'c) calendar \<Rightarrow> string \<Rightarrow> ('tz, 'c) job_store \<Rightarrow> bool" where
  "once_stored cal k st \<longleftrightarrow> unique_keys js_id (job_snapshots st) \<and>
     (\<forall>r. find_by js_id k (job_snapshots st) = Some r \<longrightarrow> once_text cal (sj_schedule_str (js_job r)))"

definition spent :: "string \<Rightarrow> ('tz, 'c) job_store \<Rightarrow> bool" where
  "spent k st \<longleftrightarrow> (\<forall>r. find_by js_id k (job_snapshots st) = Some r \<longrightarrow> sj_status (js_job r) \<noteq> ScheduledStatus)"

lemma upsert_unique: "unique_keys js_id (job_snapshots st) \<Longrightarrow> unique_keys js_id (job_snapshots (upsert_job_snapshot job t st))"
  unfolding upsert_job_snapshot_def by (simp add: unique_upsert_by)

lemma upsert_find: "find_by js_id k (job_snapshots (upsert_job_snapshot job t st)) =
    (if k = sj_id job then Some \<lparr>js_job = job, js_updated_at_us = sint t\<rparr> else find_by js_id k (job_snapshots st))"
  by (simp add: upsert_job_snapshot_def table_simps)

lemma poll_record_keeps:
  assumes "poll_record cal hash worker ttl shard now rec st = (st', res)"
  shows "once_stored cal k st \<Longrightarrow> js_id rec = k \<longrightarrow> once_text cal (sj_schedule_str (js_job rec)) \<Longrightarrow> once_stored cal k st'"
    "spent k st \<Longrightarrow> spent k st'"
  using assms
  by (auto simp: poll_record_def once_stored_def spent_def Let_def case_prod_beta upsert_find
      split: sum.splits option.splits bool.splits if_splits intro!: upsert_unique)

lemma poll_records_inv:
  assumes "poll_records cal hash worker ttl shard now rs st = (st', res)" "I st"
    "\<And>r s s' x. r \<in> set rs \<Longrightarrow> I s \<Longrightarrow> poll_record cal hash worker ttl shard now r s = (s', x) \<Longrightarrow> I s'"
  shows "I st'"
  using assms
proof (induction rs arbitrary: st st' res)
  case (Cons r rs)
  obtain st1 res1 where r: "poll_record cal hash worker ttl shard now r st = (st1, res1)" by fastforce
  have one: "I st1" by (rule Cons.prems(3) [OF _ Cons.prems(2) r]) simp
  obtain st2 rest where rs: "poll_records cal hash worker ttl shard now rs st1 = (st2, rest)" by fastforce
  have "I st2" by (rule Cons.IH [OF rs one]) (use Cons.prems(3) in auto)
  with one r rs Cons.prems(1) show ?case by (auto split: sum.splits)
qed simp

lemma poll_records_keep:
  assumes "poll_records cal hash worker ttl shard now rs st = (st', res)"
    "once_stored cal k st" "\<forall>r\<in>set rs. js_id r = k \<longrightarrow> once_text cal (sj_schedule_str (js_job r))"
  shows "once_stored cal k st' \<and> (spent k st \<longrightarrow> spent k st')"
proof (rule poll_records_inv [OF assms(1)])
  fix r s s' x
  assume "r \<in> set rs" "once_stored cal k s \<and> (spent k st \<longrightarrow> spent k s)"
    "poll_record cal hash worker ttl shard now r s = (s', x)"
  then show "once_stored cal k s' \<and> (spent k st \<longrightarrow> spent k s')"
    using assms(3) poll_record_keeps [of cal hash worker ttl shard now r s s' x k] by simp
qed (use assms(2) in simp)

lemma listed_stored:
  assumes "unique_keys js_id (job_snapshots st)" "r \<in> set (list_job_snapshot_records st)" "js_id r = k"
  obtains r' where "find_by js_id k (job_snapshots st) = Some r'"
    "sj_schedule_str (js_job r) = sj_schedule_str (js_job r')" "sj_status (js_job r) = sj_status (js_job r')"
proof -
  from assms(2) obtain r' where r': "r' \<in> set (job_snapshots st)"
    "r = r'\<lparr>js_job := (js_job r')\<lparr>sj_schedule := EverySeconds 60\<rparr>\<rparr>"
    by (auto simp: list_job_snapshot_records_def)
  then have "find_by js_id k (job_snapshots st) = Some r'"
    using find_by_unique [OF assms(1) r'(1)] assms(3) by simp
  with r'(2) show ?thesis by (intro that) simp_all
qed

lemma filter_key_length: "distinct (map f xs) \<Longrightarrow> length (filter (\<lambda>x. f x = k) xs) \<le> 1"
proof (induction xs)
  case (Cons x xs)
  then show ?case by (auto simp: filter_empty_conv image_iff)
qed simp

lemma run_op_once:
  assumes "once_stored cal k st" "keeps_job k op" "run_op cal hash op st = (st', es)"
  shows "once_stored cal k st' \<and> (spent k st \<longrightarrow> spent k st' \<and> filter (\<lambda>e. ev_job_id e = k) es = []) \<and>
    length (filter (\<lambda>e. ev_job_id e = k) es) \<le> 1 \<and> (filter (\<lambda>e. ev_job_id e = k) es \<noteq> [] \<longrightarrow> spent k st')"
proof (cases op)
  case (Command now_us cmd)
  have known: "find (\<lambda>job. sj_id job = k) (list_job_snapshots st) = Some job \<Longrightarrow>
      once_text cal (sj_schedule_str job) \<and> sj_id job = k" for job
  proof -
    assume "find (\<lambda>job. sj_id job = k) (list_job_snapshots st) = Some job"
    then have "sj_id job = k" "job \<in> set (list_job_snapshots st)"
      using find_by_SomeD [where key = sj_id, unfolded find_by_def] by metis+
    then obtain r where "r \<in> set (list_job_snapshot_records st)" "js_job r = job" "js_id r = k"
      by (auto simp: list_job_snapshots_def)
    moreover obtain r' where "find_by js_id k (job_snapshots st) = Some r'" "sj_schedule_str (js_job r) = sj_schedule_str (js_job r')"
      using listed_stored [of st r k] assms(1) calculation by (metis once_stored_def)
    ultimately show ?thesis using assms(1) by (simp add: once_stored_def)
  qed
  note ids = find_by_SomeD [where key = sj_id, unfolded find_by_def]
  have un: "unique_keys js_id (job_snapshots st)" using assms(1) by (simp add: once_stored_def)
  have es: "es = []" and st': "st' = fst (process_command now_us cmd st)"
    using assms(3) Command by (simp_all add: run_op_def)
  have "once_stored cal k st' \<and> (spent k st \<longrightarrow> spent k st')"
  proof (cases cmd)
    case (AddJob job)
    then have "st' = upsert_job_snapshot (normalize_job_for_store now_us job) now_us st" "sj_id job \<noteq> k"
      using st' assms(2) Command by (simp_all add: process_command_def)
    with assms(1) un show ?thesis by (simp add: once_stored_def spent_def upsert_find upsert_unique)
  next
    case (RemoveJob j)
    then have "job_snapshots st' = delete_by js_id j (job_snapshots st)"
      using st' by (simp add: process_command_def delete_job_snapshot_def)
    with assms(1) un show ?thesis by (simp add: once_stored_def spent_def find_by_delete_by unique_delete_by)
  next
    case (UpdateJobStatus j status d t)
    show ?thesis
    proof (cases "find (\<lambda>job. sj_id job = j) (list_job_snapshots st)")
      case None
      then have "st' = st" using st' UpdateJobStatus by (simp add: process_command_def)
      with assms(1) show ?thesis by simp
    next
      case (Some job)
      then have "st' = upsert_job_snapshot (update_job_snapshot_status job status d t) t st" "sj_id job = j"
        using st' UpdateJobStatus ids [OF Some] Some by (simp_all add: process_command_def)
      moreover have "j = k \<Longrightarrow> once_text cal (sj_schedule_str job) \<and> status \<noteq> ScheduledStatus"
        using known Some assms(2) Command UpdateJobStatus by simp
      ultimately show ?thesis using assms(1) un by (auto simp: once_stored_def spent_def upsert_find upsert_unique)
    qed
  next
    case ListJobs
    then have "st' = st" using st' by (simp add: process_command_def)
    with assms(1) show ?thesis by simp
  qed
  with es show ?thesis by simp
next
  case (Poll worker ttl shard now)
  let ?rs = "list_job_snapshot_records st"
  obtain res where poll: "poll_records cal hash worker ttl shard now ?rs st = (st', res)"
    "es = (case res of Ok e \<Rightarrow> e | Err _ \<Rightarrow> [])"
    using assms(3) Poll by (auto simp: run_op_def poll_due_job_events_from_store_def split: prod.splits sum.splits)
  have un: "unique_keys js_id (job_snapshots st)" using assms(1) by (simp add: once_stored_def)
  have texts: "\<forall>r\<in>set ?rs. js_id r = k \<longrightarrow> once_text cal (sj_schedule_str (js_job r))"
    using assms(1) listed_stored [OF un] by (metis once_stored_def)
  note keep = poll_records_keep [OF poll(1) assms(1) texts]
  show ?thesis
  proof (cases res)
    case (Inl e)
    then show ?thesis using keep poll(2) by simp
  next
    case (Inr events)
    then have ok: "poll_records cal hash worker ttl shard now ?rs st = (st', Ok es)" using poll by simp
    note ev = poll_records_events [OF ok listed_ids(2) [OF un]]
    have sel: "filter (\<lambda>e. ev_job_id e = k) es =
        map (event_of \<circ> js_job) (filter (\<lambda>r. js_id r = k) (filter (fires cal hash worker shard now st) ?rs))"
      using ev by (simp add: filter_map comp_def)
    have "length (filter (\<lambda>r. js_id r = k) (filter (fires cal hash worker shard now st) ?rs)) \<le> 1"
      by (intro filter_key_length) (use listed_ids(2) [OF un] distinct_map_filter in blast)
    then have one: "length (filter (\<lambda>e. ev_job_id e = k) es) \<le> 1" using sel by simp
    have spend: "spent k st'" if "filter (\<lambda>e. ev_job_id e = k) es \<noteq> []"
    proof -
      from that sel obtain r where "r \<in> set ?rs" "fires cal hash worker shard now st r" "js_id r = k"
        by (auto simp: filter_empty_conv)
      with ev show ?thesis by (auto simp: spent_def)
    qed
    have silent: "filter (\<lambda>e. ev_job_id e = k) es = []" if "spent k st"
    proof -
      have "\<not> fires cal hash worker shard now st r" if "r \<in> set ?rs" "js_id r = k" for r
      proof -
        from listed_stored [OF un that] obtain r' where r': "find_by js_id k (job_snapshots st) = Some r'"
          "sj_schedule_str (js_job r) = sj_schedule_str (js_job r')" "sj_status (js_job r) = sj_status (js_job r')" .
        then have "sj_status (js_job r) \<noteq> ScheduledStatus" using \<open>spent k st\<close> by (simp add: spent_def)
        then have "sj_status (js_job r) \<in> {DispatchedStatus, CompletedStatus, FailedStatus, ApprovalRequiredStatus}"
          by (cases "sj_status (js_job r)") simp_all
        moreover have "once_text cal (sj_schedule_str (js_job r))" using texts that by simp
        ultimately show ?thesis by (auto simp: fires_def ready_def is_job_due_def once_text_def)
      qed
      then show ?thesis using sel by (auto simp: filter_empty_conv)
    qed
    show ?thesis using keep one spend silent by blast
  qed
qed

lemma run_ops_once:
  assumes "once_stored cal k st" "list_all (keeps_job k) ops"
  shows "length (filter (\<lambda>e. ev_job_id e = k) (run_ops cal hash ops st)) \<le> (if spent k st then 0 else 1)"
  using assms
proof (induction ops arbitrary: st)
  case (Cons op ops)
  obtain st' es where op: "run_op cal hash op st = (st', es)" by fastforce
  note step = run_op_once [OF Cons.prems(1) _ op]
  have "length (filter (\<lambda>e. ev_job_id e = k) (run_ops cal hash ops st')) \<le> (if spent k st' then 0 else 1)"
    using Cons step by simp
  with step Cons.prems(2) op show ?case
    by (cases "filter (\<lambda>e. ev_job_id e = k) es = []") (auto split: if_splits)
qed simp

section \<open>Overlapping polls\<close>

text \<open>Workers poll at the same time: one lists the jobs, and while it works through its list others list, dispatch and
  give commands.  A poll is the records it has still to look at and the events it will return; an action is one
  listing, one record of one poll (or its return), or one command.\<close>

record ('tz, 'c) running_poll =
  po_worker :: string
  po_ttl :: u64
  po_shard :: shard_of_node
  po_now :: int
  po_left :: "('tz, 'c) job_snapshot list"
  po_events :: "ScheduledPromptEvent list"

datatype ('tz, 'c) poll_action = BeginPoll string u64 shard_of_node int | ContinuePoll nat | GiveCommand u64 "('tz, 'c) CronCommand"

definition drop_nth :: "nat \<Rightarrow> 'a list \<Rightarrow> 'a list" where
  "drop_nth i xs = take i xs @ drop (Suc i) xs"

type_synonym ('tz, 'c) poll_state = "('tz, 'c) job_store \<times> ('tz, 'c) running_poll list"

definition continue_poll :: "('tz, 'c) calendar \<Rightarrow> (string \<Rightarrow> u64) \<Rightarrow> nat \<Rightarrow> ('tz, 'c) poll_state \<Rightarrow>
    ('tz, 'c) poll_state \<times> ScheduledPromptEvent list" where
  "continue_poll cal hash i x = (let p = snd x ! i in case po_left p of
      [] \<Rightarrow> ((fst x, drop_nth i (snd x)), po_events p)
    | r # rs \<Rightarrow> (case poll_record cal hash (po_worker p) (po_ttl p) (po_shard p) (po_now p) r (fst x) of
        (st, Ok es) \<Rightarrow> ((st, (snd x)[i := p\<lparr>po_left := rs, po_events := po_events p @ es\<rparr>]), [])
      | (st, Err _) \<Rightarrow> ((st, drop_nth i (snd x)), [])))"

fun poll_act :: "('tz, 'c) calendar \<Rightarrow> (string \<Rightarrow> u64) \<Rightarrow> ('tz, 'c) poll_action \<Rightarrow> ('tz, 'c) poll_state \<Rightarrow>
    ('tz, 'c) poll_state \<times> ScheduledPromptEvent list" where
  "poll_act cal hash (BeginPoll worker ttl shard now) x = ((fst x, snd x @ [\<lparr>po_worker = worker, po_ttl = ttl, po_shard = shard,
     po_now = now, po_left = list_job_snapshot_records (fst x), po_events = []\<rparr>]), [])"
| "poll_act cal hash (ContinuePoll i) x = (if i < length (snd x) then continue_poll cal hash i x else (x, []))"
| "poll_act cal hash (GiveCommand now_us cmd) x = ((fst (process_command now_us cmd (fst x)), snd x), [])"

fun poll_acts :: "('tz, 'c) calendar \<Rightarrow> (string \<Rightarrow> u64) \<Rightarrow> ('tz, 'c) poll_action list \<Rightarrow> ('tz, 'c) poll_state \<Rightarrow>
    ('tz, 'c) poll_state \<times> ScheduledPromptEvent list" where
  "poll_acts cal hash [] x = (x, [])"
| "poll_acts cal hash (a # acts) x = (let (y, es) = poll_act cal hash a x; (z, rest) = poll_acts cal hash acts y in (z, es @ rest))"

text \<open>No more than \<open>m\<close> polls are under way at a time.\<close>

fun overlap_at_most :: "('tz, 'c) calendar \<Rightarrow> (string \<Rightarrow> u64) \<Rightarrow> nat \<Rightarrow> ('tz, 'c) poll_action list \<Rightarrow> ('tz, 'c) poll_state \<Rightarrow> bool" where
  "overlap_at_most cal hash m [] x \<longleftrightarrow> True"
| "overlap_at_most cal hash m (a # acts) x \<longleftrightarrow> (let y = fst (poll_act cal hash a x) in length (snd y) \<le> m \<and> overlap_at_most cal hash m acts y)"

fun keeps_action :: "string \<Rightarrow> ('tz, 'c) poll_action \<Rightarrow> bool" where
  "keeps_action k (GiveCommand now_us cmd) = keeps_job k (Command now_us cmd)"
| "keeps_action k _ = True"

text \<open>A poll that nothing interrupts is the poll of the code.\<close>

lemma poll_alone:
  assumes "p = \<lparr>po_worker = w, po_ttl = ttl, po_shard = sh, po_now = now, po_left = rs, po_events = es0\<rparr>"
    "poll_records cal hash w ttl sh now rs st = (st', Ok es)"
  shows "poll_acts cal hash (replicate (Suc (length rs)) (ContinuePoll 0)) (st, [p]) = ((st', []), es0 @ es)"
  using assms
proof (induction rs arbitrary: st es0 es p)
  case Nil
  then show ?case by (simp add: continue_poll_def drop_nth_def)
next
  case (Cons r rs)
  from Cons.prems(2) obtain st1 es1 es2 where r: "poll_record cal hash w ttl sh now r st = (st1, Ok es1)"
    "poll_records cal hash w ttl sh now rs st1 = (st', Ok es2)" "es = es1 @ es2"
    by (auto simp: result_simps split: prod.splits sum.splits)
  let ?q = "\<lparr>po_worker = w, po_ttl = ttl, po_shard = sh, po_now = now, po_left = rs, po_events = es0 @ es1\<rparr>"
  have "poll_act cal hash (ContinuePoll 0) (st, [p]) = ((st1, [?q]), [])"
    using Cons.prems(1) r(1) by (simp add: continue_poll_def)
  moreover have "poll_acts cal hash (replicate (Suc (length rs)) (ContinuePoll 0)) (st1, [?q]) = ((st', []), (es0 @ es1) @ es2)"
    by (rule Cons.IH [OF refl r(2)])
  ultimately show ?case using r(3) by simp
qed

lemma poll_acts_append:
  "poll_acts cal hash (xs @ ys) x = (let (y, es) = poll_acts cal hash xs x; (z, rest) = poll_acts cal hash ys y in (z, es @ rest))"
  by (induction xs arbitrary: x) (auto simp: Let_def split: prod.splits)

lemma overlap_append: "overlap_at_most cal hash m (xs @ ys) x \<longleftrightarrow>
    overlap_at_most cal hash m xs x \<and> overlap_at_most cal hash m ys (fst (poll_acts cal hash xs x))"
  by (induction xs arbitrary: x) (auto simp: Let_def case_prod_beta)

lemma continue_length: "i < length (snd x) \<Longrightarrow> length (snd (fst (continue_poll cal hash i x))) \<le> length (snd x)"
  by (auto simp: continue_poll_def drop_nth_def Let_def split: list.split prod.split sum.split)

lemma overlap_continues: "length (snd x) \<le> m \<Longrightarrow> overlap_at_most cal hash m (replicate n (ContinuePoll i)) x"
proof (induction n arbitrary: x)
  case (Suc n)
  have "length (snd (fst (poll_act cal hash (ContinuePoll i) x))) \<le> m"
    using continue_length [of i x cal hash] Suc.prems by auto
  with Suc.IH show ?case by (simp add: Let_def del: poll_act.simps)
qed simp

text \<open>How many dispatches of a job a poll may still return: those it has made, and its record of the job if that was
  scheduled when it was listed.\<close>

definition of_job :: "string \<Rightarrow> ScheduledPromptEvent list \<Rightarrow> nat" where
  "of_job k es = length (filter (\<lambda>e. ev_job_id e = k) es)"

definition hot :: "string \<Rightarrow> ('tz, 'c) job_snapshot list \<Rightarrow> nat" where
  "hot k rs = length (filter (\<lambda>r. js_id r = k \<and> sj_status (js_job r) = ScheduledStatus) rs)"

definition may_fire :: "string \<Rightarrow> ('tz, 'c) running_poll \<Rightarrow> nat" where
  "may_fire k p = of_job k (po_events p) + hot k (po_left p)"

definition poll_ok :: "('tz, 'c) calendar \<Rightarrow> string \<Rightarrow> ('tz, 'c) running_poll \<Rightarrow> bool" where
  "poll_ok cal k p \<longleftrightarrow> unique_keys js_id (po_left p) \<and>
     (\<forall>r\<in>set (po_left p). js_id r = k \<longrightarrow> once_text cal (sj_schedule_str (js_job r)))"

definition overlap_inv :: "('tz, 'c) calendar \<Rightarrow> string \<Rightarrow> nat \<Rightarrow> nat \<Rightarrow> ('tz, 'c) poll_state \<Rightarrow> bool" where
  "overlap_inv cal k m fired x \<longleftrightarrow> once_stored cal k (fst x) \<and> list_all (poll_ok cal k) (snd x) \<and> length (snd x) \<le> m \<and>
     fired + sum_list (map (may_fire k) (snd x)) \<le> m \<and>
     (\<not> spent k (fst x) \<longrightarrow> fired = 0 \<and> list_all (\<lambda>p. of_job k (po_events p) = 0) (snd x))"

lemma of_job_simps [simp]: "of_job k [] = 0" "of_job k (es @ es') = of_job k es + of_job k es'"
  by (simp_all add: of_job_def)

lemma hot_Cons [simp]: "hot k (r # rs) = (if js_id r = k \<and> sj_status (js_job r) = ScheduledStatus then Suc (hot k rs) else hot k rs)"
  by (simp add: hot_def)

lemma hot_le: "unique_keys js_id rs \<Longrightarrow> hot k rs \<le> 1"
proof -
  assume "unique_keys js_id rs"
  then have "length (filter (\<lambda>r. js_id r = k) rs) \<le> 1" by (intro filter_key_length)
  moreover have "hot k rs \<le> length (filter (\<lambda>r. js_id r = k) rs)" unfolding hot_def by (induction rs) auto
  ultimately show ?thesis by simp
qed

lemma split_nth: "i < length xs \<Longrightarrow> sum_list (map f xs) = f (xs ! i) + sum_list (map f (drop_nth i xs))" for f :: "'a \<Rightarrow> nat"
  by (subst id_take_nth_drop [of i xs]) (simp_all add: drop_nth_def)

lemma split_update: "i < length xs \<Longrightarrow> sum_list (map f (xs[i := y])) = f y + sum_list (map f (drop_nth i xs))" for f :: "'a \<Rightarrow> nat"
  by (simp add: upd_conv_take_nth_drop drop_nth_def)

lemma drop_nth_set: "set (drop_nth i xs) \<subseteq> set xs"
  unfolding drop_nth_def using set_take_subset set_drop_subset by fastforce

lemma drop_nth_length: "length (drop_nth i xs) \<le> length xs"
  by (simp add: drop_nth_def)

lemma spent_not_ready:
  assumes "once_text cal (sj_schedule_str (js_job r))" "sj_status (js_job r) \<noteq> ScheduledStatus"
  shows "\<not> ready cal hash sh now r"
proof -
  have "sj_status (js_job r) \<in> {DispatchedStatus, CompletedStatus, FailedStatus, ApprovalRequiredStatus}"
    using assms(2) by (cases "sj_status (js_job r)") simp_all
  with assms(1) show ?thesis by (auto simp: ready_def is_job_due_def once_text_def)
qed

text \<open>One record of one poll fires the job at most once, only if its listing showed it as scheduled, and then it is spent.\<close>

lemma record_fires_once:
  assumes "poll_record cal hash w ttl sh now r st = (st', Ok es)" "js_id r = k \<longrightarrow> once_text cal (sj_schedule_str (js_job r))"
  shows "of_job k es + hot k rs \<le> hot k (r # rs) \<and> (of_job k es \<noteq> 0 \<longrightarrow> spent k st')"
proof (cases "fires cal hash w sh now st r")
  case True
  from poll_record_fires [OF True, of ttl] assms(1) have es: "es = [event_of (js_job r)]"
    "map_option (sj_status \<circ> js_job) (find_by js_id (js_id r) (job_snapshots st')) = Some DispatchedStatus"
    by (auto simp: table_simps)
  show ?thesis
  proof (cases "js_id r = k")
    case True
    have "ready cal hash sh now r" using \<open>fires cal hash w sh now st r\<close> by (simp add: fires_def)
    then have "sj_status (js_job r) = ScheduledStatus" using spent_not_ready [of cal r hash sh now] assms(2) True by blast
    moreover have "of_job k es = 1" using es(1) True by (simp add: of_job_def)
    moreover have "spent k st'" using es(2) True by (auto simp: spent_def)
    ultimately show ?thesis using True by simp
  next
    case False
    then show ?thesis using es(1) by (simp add: of_job_def)
  qed
next
  case False
  from poll_record_silent(1) [OF assms(1) False] show ?thesis by simp
qed

lemma overlap_begin:
  assumes inv: "overlap_inv cal k m n x" and y: "y = (fst x, snd x @ [\<lparr>po_worker = w, po_ttl = ttl, po_shard = sh, po_now = now,
      po_left = list_job_snapshot_records (fst x), po_events = []\<rparr>])" and len: "length (snd y) \<le> m"
  shows "overlap_inv cal k m n y"
proof -
  let ?rs = "list_job_snapshot_records (fst x)"
  have st: "once_stored cal k (fst x)" and un: "unique_keys js_id (job_snapshots (fst x))"
    using inv by (simp_all add: overlap_inv_def once_stored_def)
  have "once_text cal (sj_schedule_str (js_job r))" if "r \<in> set ?rs" "js_id r = k" for r
    by (rule listed_stored [OF un that]) (use st in \<open>simp add: once_stored_def\<close>)
  then have texts: "\<forall>r\<in>set ?rs. js_id r = k \<longrightarrow> once_text cal (sj_schedule_str (js_job r))" by blast
  have uq: "unique_keys js_id ?rs" by (rule listed_ids(2) [OF un])
  have sum: "n + sum_list (map (may_fire k) (snd y)) \<le> m"
  proof (cases "spent k (fst x)")
    case True
    have "sj_status (js_job r) \<noteq> ScheduledStatus" if "r \<in> set ?rs" "js_id r = k" for r
      by (rule listed_stored [OF un that]) (use True in \<open>simp add: spent_def\<close>)
    then have "hot k ?rs = 0" by (auto simp: hot_def filter_empty_conv)
    then show ?thesis using inv by (simp add: y overlap_inv_def may_fire_def)
  next
    case False
    have "may_fire k p \<le> 1" if "p \<in> set (snd y)" for p
    proof -
      have "of_job k (po_events p) = 0 \<and> unique_keys js_id (po_left p)"
        using that inv False uq by (auto simp: y overlap_inv_def list_all_iff poll_ok_def)
      then show ?thesis using hot_le [of "po_left p" k] by (simp add: may_fire_def)
    qed
    then have "sum_list (map (may_fire k) (snd y)) \<le> sum_list (map (\<lambda>_. 1) (snd y))" by (intro sum_list_mono) simp
    also have "\<dots> = length (snd y)" by (induction "snd y") (simp_all add: sum_list_triv)
    finally show ?thesis using len inv False by (simp add: overlap_inv_def)
  qed
  then show ?thesis using inv len uq texts by (simp add: y overlap_inv_def poll_ok_def)
qed

lemma overlap_continue:
  assumes inv: "overlap_inv cal k m n x" and i: "i < length (snd x)" and c: "continue_poll cal hash i x = (y, es)"
  shows "overlap_inv cal k m (n + of_job k es) y"
proof -
  let ?p = "snd x ! i" and ?others = "drop_nth i (snd x)"
  have p: "poll_ok cal k ?p" "?p \<in> set (snd x)" using inv i by (simp_all add: overlap_inv_def list_all_length)
  have others: "list_all P ?others" if "list_all P (snd x)" for P
    using that drop_nth_set [of i "snd x"] by (auto simp: list_all_iff)
  have len: "length ?others \<le> m" using inv drop_nth_length [of i "snd x"] by (simp add: overlap_inv_def)
  have sum: "n + (may_fire k ?p + sum_list (map (may_fire k) ?others)) \<le> m"
    using inv split_nth [OF i, of "may_fire k"] by (simp add: overlap_inv_def)
  have quiet: "of_job k (po_events ?p) = 0" if "\<not> spent k (fst x)" using inv that p(2) by (simp add: overlap_inv_def list_all_iff)
  show ?thesis
  proof (cases "po_left ?p")
    case Nil
    then have y: "y = (fst x, ?others)" "es = po_events ?p" using c by (simp_all add: continue_poll_def Let_def)
    have "may_fire k ?p = of_job k es" using Nil y(2) by (simp add: may_fire_def hot_def)
    then show ?thesis using inv others len sum quiet y by (simp add: overlap_inv_def)
  next
    case (Cons r rs)
    obtain st res where r: "poll_record cal hash (po_worker ?p) (po_ttl ?p) (po_shard ?p) (po_now ?p) r (fst x) = (st, res)" by fastforce
    have once_r: "js_id r = k \<longrightarrow> once_text cal (sj_schedule_str (js_job r))" using p(1) Cons by (simp add: poll_ok_def)
    have keep: "once_stored cal k st" "spent k (fst x) \<Longrightarrow> spent k st"
      using poll_record_keeps [OF r] once_r inv by (simp_all add: overlap_inv_def)
    show ?thesis
    proof (cases res)
      case (Inl e)
      then have y: "y = (st, ?others)" "es = []" using c Cons r by (simp_all add: continue_poll_def Let_def)
      show ?thesis using inv others len sum keep y by (auto simp: overlap_inv_def)
    next
      case (Inr new)
      let ?q = "?p\<lparr>po_left := rs, po_events := po_events ?p @ new\<rparr>"
      have y: "y = (st, (snd x)[i := ?q])" "es = []" using c Cons r Inr by (simp_all add: continue_poll_def Let_def)
      note once = record_fires_once [OF r [unfolded Inr] once_r, of rs]
      have "may_fire k ?q \<le> may_fire k ?p" using once Cons by (simp add: may_fire_def)
      then have sum': "n + sum_list (map (may_fire k) (snd y)) \<le> m" using sum y split_update [OF i, of "may_fire k" ?q] by simp
      have every: "list_all P (snd y)" if "list_all P (snd x)" "P ?q" for P
        using that set_update_subset_insert [of "snd x" i ?q] y by (auto simp: list_all_iff)
      have q: "poll_ok cal k ?q" using p(1) Cons by (simp add: poll_ok_def)
      have "list_all (\<lambda>p. of_job k (po_events p) = 0) (snd y)" "n = 0" if "\<not> spent k st"
      proof -
        have un: "\<not> spent k (fst x)" using that keep(2) by blast
        moreover have "of_job k new = 0" using once that by blast
        ultimately show "list_all (\<lambda>p. of_job k (po_events p) = 0) (snd y)" "n = 0"
          using inv quiet by (auto simp: overlap_inv_def intro!: every)
      qed
      then show ?thesis using inv keep(1) sum' every [where P = "poll_ok cal k", OF _ q] y by (simp add: overlap_inv_def)
    qed
  qed
qed

lemma overlap_act:
  assumes inv: "overlap_inv cal k m n x" and keep: "keeps_action k a" and act: "poll_act cal hash a x = (y, es)" and len: "length (snd y) \<le> m"
  shows "overlap_inv cal k m (n + of_job k es) y"
proof (cases a)
  case (BeginPoll w ttl sh now)
  then have "y = (fst x, snd x @ [\<lparr>po_worker = w, po_ttl = ttl, po_shard = sh, po_now = now,
      po_left = list_job_snapshot_records (fst x), po_events = []\<rparr>])" "es = []" using act by auto
  with overlap_begin [OF inv this(1) len] show ?thesis by simp
next
  case (ContinuePoll i)
  with overlap_continue [OF inv, of i hash y es] act inv show ?thesis by (auto split: if_splits)
next
  case (GiveCommand t cmd)
  have st: "once_stored cal k (fst x)" using inv by (simp add: overlap_inv_def)
  have "run_op cal hash (Command t cmd) (fst x) = (fst (process_command t cmd (fst x)), [])" by (simp add: run_op_def)
  note op = run_op_once [OF st _ this]
  from GiveCommand act have "y = (fst (process_command t cmd (fst x)), snd x)" "es = []" by simp_all
  with op inv keep GiveCommand show ?thesis by (auto simp: overlap_inv_def)
qed

lemma overlap_acts:
  assumes "overlap_inv cal k m n x" "list_all (keeps_action k) acts" "overlap_at_most cal hash m acts x"
  shows "n + of_job k (snd (poll_acts cal hash acts x)) \<le> m"
  using assms
proof (induction acts arbitrary: n x)
  case Nil
  then show ?case by (simp add: overlap_inv_def)
next
  case (Cons a acts)
  obtain y es where y: "poll_act cal hash a x = (y, es)" by fastforce
  have "overlap_inv cal k m (n + of_job k es) y"
    using overlap_act [OF Cons.prems(1) _ y] Cons.prems(2,3) y by (simp add: Let_def)
  from Cons.IH [OF this] Cons.prems(2,3) y show ?case by (simp add: Let_def case_prod_beta)
qed

text \<open>C12: a job whose text denotes one instant is dispatched at most as many times as polls overlap: once when no two
  polls are under way at the same time, while the program runs (a start of the program stores its jobs anew), whatever polls of whatever workers and whatever commands come after another,
  as long as no command adds the job again or sets its status back to scheduled.  (Two polls that list the job before
  either dispatches it may both fire it: \<open>stale_record_fires\<close>.)\<close>

theorem once_job_fires_once:
  assumes "unique_keys js_id (job_snapshots st)" "find_by js_id k (job_snapshots st) = Some r"
    "parse_schedule cal n (sj_schedule_str (js_job r)) = Ok (Some (Once t))" "list_all (keeps_action k) acts"
    and "overlap_at_most cal hash m acts (st, [])"
  shows "length (filter (\<lambda>e. ev_job_id e = k) (snd (poll_acts cal hash acts (st, [])))) \<le> m"
proof -
  have "once_stored cal k st"
    using assms(1,2) parse_once_stable [OF assms(3)] by (auto simp: once_stored_def once_text_def)
  then have "overlap_inv cal k m 0 (st, [])" by (simp add: overlap_inv_def)
  from overlap_acts [OF this assms(4,5)] show ?thesis by (simp add: of_job_def)
qed

section \<open>What goes wrong\<close>

text \<open>A poll acts on the snapshots it has listed: one that has gone stale in the meantime (the job was dispatched and
  finished by another worker, or removed) still fires as soon as the lease is free, and the job is back in the store.\<close>

lemma stale_record_fires:
  assumes "ready cal hash shard now rec" "find_by jl_job_id (js_id rec) (job_leases (lease_rows st)) = None"
  shows "\<exists>st'. poll_record cal hash worker ttl shard now rec st = (st', Ok [event_of (js_job rec)]) \<and>
    find_by js_id (js_id rec) (job_snapshots st') \<noteq> None"
proof -
  have "fires cal hash worker shard now st rec" using assms by (simp add: fires_def claimable_def)
  from poll_record_fires [OF this, of ttl] show ?thesis by (auto simp: table_simps)
qed

text \<open>A delay counts from the moment its text is parsed, and a poll parses it anew.\<close>

definition delay_text :: "('tz, 'c) calendar \<Rightarrow> string \<Rightarrow> int \<Rightarrow> bool" where
  "delay_text cal text d \<longleftrightarrow> (\<forall>n. parse_schedule cal n text = map_ok (\<lambda>t. Some (Once t)) (plus_time cal n d))"

text \<open>A job whose text is a relative delay, as the configuration allows, is never dispatched: whenever a poll
  looks, the job is due that delay later.\<close>

lemma delayed_job_never_fires:
  assumes "unique_keys js_id (job_snapshots st)" "find_by js_id k (job_snapshots st) = Some r"
    "delay_text cal (sj_schedule_str (js_job r)) d" "0 < d" "list_all (\<lambda>op. \<exists>w ttl sh n. op = Poll w ttl sh n) ops"
  shows "\<forall>e\<in>set (run_ops cal hash ops st). ev_job_id e \<noteq> k"
proof -
  define inv where "inv st \<longleftrightarrow> unique_keys js_id (job_snapshots st) \<and>
    (\<forall>r. find_by js_id k (job_snapshots st) = Some r \<longrightarrow> delay_text cal (sj_schedule_str (js_job r)) d)" for st :: "('a, 'b) job_store"
  have never: "\<not> ready cal hash sh n x" if "delay_text cal (sj_schedule_str (js_job x)) d" for sh n and x :: "('a, 'b) job_snapshot"
    using that assms(4) by (auto simp: ready_def delay_text_def is_job_due_def plus_time_def split: if_splits)
  have rec_ok: "inv st'" if "poll_record cal hash w ttl sh n x st = (st', res)" "inv st"
    "js_id x = k \<longrightarrow> delay_text cal (sj_schedule_str (js_job x)) d" for w ttl sh n x st st' res
    using that unfolding inv_def
    by (auto simp: poll_record_def Let_def case_prod_beta upsert_find
        split: sum.splits option.splits bool.splits if_splits intro!: upsert_unique)
  have recs_ok: "inv st'" if "poll_records cal hash w ttl sh n xs st = (st', res)" "inv st"
    "\<forall>x\<in>set xs. js_id x = k \<longrightarrow> delay_text cal (sj_schedule_str (js_job x)) d" for w ttl sh n xs st st' res
    by (rule poll_records_inv [where I = inv, OF that(1,2)]) (use that(3) rec_ok in blast)
  have main: "\<forall>e\<in>set (run_ops cal hash ops st). ev_job_id e \<noteq> k" if "inv st" for st
    using that assms(5)
  proof (induction ops arbitrary: st)
    case (Cons op ops)
    then obtain w ttl sh n where op: "op = Poll w ttl sh n" by auto
    let ?rs = "list_job_snapshot_records st"
    obtain st' res where poll: "poll_records cal hash w ttl sh n ?rs st = (st', res)" by fastforce
    have un: "unique_keys js_id (job_snapshots st)" using Cons.prems(1) by (simp add: inv_def)
    have texts: "\<forall>x\<in>set ?rs. js_id x = k \<longrightarrow> delay_text cal (sj_schedule_str (js_job x)) d"
      using Cons.prems(1) listed_stored [OF un] by (metis inv_def)
    have "\<forall>e\<in>set es. ev_job_id e \<noteq> k" if "res = Ok es" for es
      using poll_records_events [OF poll [unfolded that] listed_ids(2) [OF un]] texts never by (auto simp: fires_def)
    with Cons recs_ok [OF poll Cons.prems(1) texts] poll op show ?case
      by (auto simp: run_op_def poll_due_job_events_from_store_def split: sum.splits)
  qed simp
  have "inv st" using assms(1-3) unfolding inv_def by simp
  then show ?thesis by (rule main)
qed

text \<open>A stored job whose date arithmetic panics, such as one to be run every three hundred million years, ends every poll:
  no other job is dispatched either.\<close>

lemma panicking_job_stops_polls:
  assumes "r \<in> set (job_snapshots st)" "parse_schedule cal now (sj_schedule_str (js_job r)) = Ok (Some (EverySeconds s))"
    "try_seconds s = Some d" "max_instant cal < job_reference_time cal now (js_job r) (js_updated_at_us r) + d"
  shows "\<exists>e. snd (poll_due_job_events_from_store cal hash worker ttl None now st) = Err e"
proof -
  let ?rec = "r\<lparr>js_job := (js_job r)\<lparr>sj_schedule := EverySeconds 60\<rparr>\<rparr>"
  have "job_reference_time cal now ((js_job r)\<lparr>sj_schedule := x\<rparr>) (js_updated_at_us r) =
      job_reference_time cal now (js_job r) (js_updated_at_us r)" for x by (simp add: job_reference_time_def)
  then have bad: "\<exists>st' e. poll_record cal hash worker ttl None now ?rec st = (st', Err e)" for st
    using assms(2-4) by (simp add: poll_record_def is_job_due_def plus_time_def)
  have "?rec \<in> set (list_job_snapshot_records st)"
    using assms(1) by (simp add: list_job_snapshot_records_def)
  moreover have "\<exists>e. snd (poll_records cal hash worker ttl None now rs st) = Err e" if "?rec \<in> set rs" for rs and st :: "('a, 'b) job_store"
    using that
  proof (induction rs arbitrary: st)
    case (Cons x rs)
    show ?case
    proof (cases "x = ?rec")
      case True
      with bad [of st] show ?thesis by auto
    next
      case False
      then have rs: "?rec \<in> set rs" using Cons.prems by simp
      obtain st1 res where x: "poll_record cal hash worker ttl None now x st = (st1, res)" by fastforce
      obtain e where "snd (poll_records cal hash worker ttl None now rs st1) = Err e" using Cons.IH [OF rs, of st1] by blast
      with x show ?thesis by (cases res) (auto simp: case_prod_beta)
    qed
  qed simp
  ultimately show ?thesis by (simp add: poll_due_job_events_from_store_def)
qed

text \<open>Starting the program stores every job again, so that the interval of a job that has not run yet starts over.\<close>

lemma seeding_restarts_interval:
  assumes "seed_scheduler_runtime_store cal now configs st = Ok (st', n)" "find_by js_id k (job_snapshots st) = Some r"
    "unique_keys js_id (job_snapshots st)"
  shows "\<exists>r'. find_by js_id k (job_snapshots st') = Some r' \<and> js_updated_at_us r' = sint (word_of_int now :: u64)"
proof -
  have keep: "find_by js_id k (job_snapshots (fold (\<lambda>job. upsert_job_snapshot job (word_of_int now)) jobs st0)) = Some r' \<Longrightarrow>
      js_updated_at_us r' = sint (word_of_int now :: u64) \<or> find_by js_id k (job_snapshots st0) = Some r' \<and> k \<notin> sj_id ` set jobs"
    for jobs r' and st0 :: "('a, 'b) job_store"
    by (induction jobs arbitrary: st0) (force simp: upsert_find split: if_splits)+
  have found: "k \<in> sj_id ` set jobs \<Longrightarrow>
      find_by js_id k (job_snapshots (fold (\<lambda>job. upsert_job_snapshot job (word_of_int now)) jobs st0)) \<noteq> None"
    for jobs and st0 :: "('a, 'b) job_store"
  proof (induction jobs arbitrary: st0)
    case (Cons job jobs)
    have stays: "find_by js_id k (job_snapshots st1) \<noteq> None \<Longrightarrow>
        find_by js_id k (job_snapshots (fold (\<lambda>job. upsert_job_snapshot job (word_of_int now)) js st1)) \<noteq> None"
      for js and st1 :: "('a, 'b) job_store"
      by (induction js arbitrary: st1) (auto simp: upsert_find)
    show ?case
    proof (cases "sj_id job = k")
      case True
      then show ?thesis using stays [of "upsert_job_snapshot job (word_of_int now) st0" jobs] by (simp add: upsert_find)
    qed (use Cons in auto)
  qed simp
  have r: "r \<in> set (job_snapshots st)" "js_id r = k" using find_by_SomeD [OF assms(2)] by auto
  then have k: "k \<in> sj_id ` set (list_job_snapshots st)"
    using listed_ids(1) [of st] by (force simp: list_job_snapshots_def image_image)
  then have jobs: "scheduler_boot_jobs cal now configs st = Ok (list_job_snapshots st)"
    by (auto simp: scheduler_boot_jobs_def)
  have "st' = fold (\<lambda>job. upsert_job_snapshot job (word_of_int now)) (list_job_snapshots st) st"
    using assms(1) jobs by (auto simp: seed_scheduler_runtime_store_def)
  with found [OF k, of st] keep [of "list_job_snapshots st" st] k show ?thesis by blast
qed

section \<open>Examples\<close>

definition example_job :: "string \<Rightarrow> (unit, unit) ScheduledPromptJob" where
  "example_job text = config_job \<lparr>pc_id = ''j'', pc_agent_id = ''agent'', pc_prompt = ''report'', pc_schedule = text\<rparr> (EverySeconds 60)"

definition example_store :: "string \<Rightarrow> (unit, unit) job_store" where
  "example_store text = \<lparr>job_snapshots = [\<lparr>js_job = example_job text, js_updated_at_us = 3\<rparr>],
     lease_rows = \<lparr>job_leases = [], resource_leases = []\<rparr>\<rparr>"

abbreviation example_calendar :: "(unit, unit) calendar" where
  "example_calendar \<equiv> sample_calendar id Single"

lemma example_at: "parse_schedule example_calendar n ''at:+1'' = Ok (Some (Once 1))"
  using parse_at [OF sample_calendar_ok, of id Single n 1] by (simp add: sample_calendar_def unary_def)

lemma example_listed: "list_job_snapshot_records (example_store text) = [\<lparr>js_job = example_job text, js_updated_at_us = 3\<rparr>]"
  by (simp add: list_job_snapshot_records_def example_store_def example_job_def config_job_def)

lemma example_fields: "sj_schedule_str (example_job text) = text" "sj_id (example_job text) = ''j''"
  "sj_status (example_job text) = ScheduledStatus" "sj_last_run_at_us (example_job text) = None"
  by (simp_all add: example_job_def config_job_def)

lemma example_unique: "unique_keys js_id (job_snapshots (example_store text))"
  "find_by js_id ''j'' (job_snapshots (example_store text)) = Some \<lparr>js_job = example_job text, js_updated_at_us = 3\<rparr>"
  by (simp_all add: example_store_def example_fields)

lemma example_ready: "ready example_calendar hash None 5 \<lparr>js_job = example_job ''at:+1'', js_updated_at_us = 3\<rparr>"
  by (simp add: ready_def example_fields example_at is_job_due_def)

lemma poll_dispatches_due_witness:
  "snd (poll_due_job_events_from_store example_calendar (\<lambda>_. 0) ''w'' 30 None 5 (example_store ''at:+1'')) =
    Ok [event_of (example_job ''at:+1'')]"
proof -
  let ?poll = "poll_due_job_events_from_store example_calendar (\<lambda>_. 0) ''w'' 30 None 5 (example_store ''at:+1'')"
  have fires: "fires example_calendar (\<lambda>_. 0) ''w'' None 5 (example_store ''at:+1'') \<lparr>js_job = example_job ''at:+1'', js_updated_at_us = 3\<rparr>"
    using example_ready by (simp add: fires_def claimable_def example_store_def)
  from poll_record_fires [OF fires, of 30] obtain st' events where "?poll = (st', Ok events)"
    by (auto simp: poll_due_job_events_from_store_def example_listed)
  moreover from poll_dispatches_due [OF example_unique(1) this] fires have "events = [event_of (example_job ''at:+1'')]"
    by (simp add: example_listed)
  ultimately show ?thesis by simp
qed

lemma once_job_fires_once_witness:
  "length (filter (\<lambda>e. ev_job_id e = ''j'') (snd (poll_acts example_calendar (\<lambda>_. 0)
     ((BeginPoll ''a'' 30 None 5 # replicate 2 (ContinuePoll 0)) @ BeginPoll ''b'' 30 None 70000000 # replicate 2 (ContinuePoll 0))
     (example_store ''at:+1'', [])))) = 1"
proof -
  let ?hash = "\<lambda>_. 0 :: u64" and ?st = "example_store ''at:+1''"
  let ?r = "\<lparr>js_job = example_job ''at:+1'', js_updated_at_us = 3\<rparr>"
  let ?first = "BeginPoll ''a'' 30 None 5 # replicate 2 (ContinuePoll 0)"
  let ?second = "BeginPoll ''b'' 30 None 70000000 # replicate 2 (ContinuePoll 0)"
  have "fires example_calendar ?hash ''a'' None 5 ?st ?r"
    using example_ready by (simp add: fires_def claimable_def example_store_def)
  from poll_record_fires [OF this, of 30] obtain st1 where
    "poll_records example_calendar ?hash ''a'' 30 None 5 [?r] ?st = (st1, Ok [event_of (example_job ''at:+1'')])" by auto
  from poll_alone [OF refl this, of "[]"]
  have first: "poll_acts example_calendar ?hash ?first (?st, []) = ((st1, []), [event_of (example_job ''at:+1'')])"
    by (simp add: example_listed numeral_2_eq_2)
  have "length (filter (\<lambda>e. ev_job_id e = ''j'') (snd (poll_acts example_calendar ?hash (?first @ ?second) (?st, [])))) \<le> 1"
  proof (rule once_job_fires_once [OF example_unique, where n = 0 and t = 1])
    show "overlap_at_most example_calendar ?hash 1 (?first @ ?second) (?st, [])"
      unfolding overlap_append first by (simp add: overlap_continues del: replicate.simps replicate_Suc)
  qed (simp_all add: example_fields example_at numeral_2_eq_2)
  moreover have "1 \<le> length (filter (\<lambda>e. ev_job_id e = ''j'') (snd (poll_acts example_calendar ?hash (?first @ ?second) (?st, []))))"
    unfolding poll_acts_append first by (simp add: case_prod_beta example_fields)
  ultimately show ?thesis by linarith
qed

lemma stale_record_fires_example:
  "\<exists>st'. poll_record example_calendar (\<lambda>_. 0) ''w'' 30 None 5 \<lparr>js_job = example_job ''at:+1'', js_updated_at_us = 3\<rparr>
      \<lparr>job_snapshots = [], lease_rows = \<lparr>job_leases = [], resource_leases = []\<rparr>\<rparr> = (st', Ok [event_of (example_job ''at:+1'')]) \<and>
    find_by js_id ''j'' (job_snapshots st') \<noteq> None"
  using stale_record_fires [OF example_ready, of "\<lparr>job_snapshots = [], lease_rows = \<lparr>job_leases = [], resource_leases = []\<rparr>\<rparr>"
      "\<lambda>_. 0" "''w''" 30] by (simp add: example_fields)

lemma example_delay: "delay_text example_calendar ''delay:2m'' 120000000"
proof -
  have literals: "trim_ws ''delay:2m'' = ''delay:2m''" "to_lower ''delay:2m'' = ''delay:2m''"
    "rsplit_once ''#'' ''delay:2m'' = None" by code_simp+
  have "to_lower (trim_ws ''2m'') = ''2m''" "filter is_digit ''2m'' = ''2''" "trim_ws (filter (\<lambda>c. \<not> is_digit c) ''2m'') = ''m''" by code_simp+
  moreover have "parse_unsigned u64_max ''2'' = Some 2"
  proof -
    have "show_nat 2 = ''2''" by code_simp
    with parse_show [of 2 u64_max] show ?thesis by (simp add: u64_max_def)
  qed
  ultimately have secs: "parse_duration_to_secs ''2m'' = Some 120" by (simp add: parse_duration_to_secs_def Let_def)
  show ?thesis
    unfolding delay_text_def parse_schedule_def split_schedule_timezone_def literals
    by (simp add: strip_prefix_def literals parse_cron_with_timezone_def parse_absolute_def parse_once_datetime_def
        parse_last_resort_def secs parse_delay_def try_seconds_def sample_calendar_def parse_unary_def plus_time_def Let_def)
qed

lemma not_in_image: "\<forall>e\<in>A. f e \<noteq> k \<Longrightarrow> k \<notin> f ` A"
  by auto

lemma delayed_job_never_fires_example:
  "''j'' \<notin> ev_job_id ` set (run_ops example_calendar (\<lambda>_. 0)
     [Poll ''a'' 30 None 5, Poll ''a'' 30 None 900000000] (example_store ''delay:2m''))"
  by (rule not_in_image, rule delayed_job_never_fires [OF example_unique])
    (auto simp: example_fields intro: example_delay)

lemma panicking_job_stops_polls_example:
  "\<exists>e. snd (poll_due_job_events_from_store example_calendar (\<lambda>_. 0) ''w'' 30 None 5
     (example_store (''every:'' @ show_nat 9000000000000000 @ ''s''))) = Err e"
proof (rule panicking_job_stops_polls)
  let ?text = "''every:'' @ show_nat 9000000000000000 @ ''s''"
  show "\<lparr>js_job = example_job ?text, js_updated_at_us = 3\<rparr> \<in> set (job_snapshots (example_store ?text))"
    by (simp add: example_store_def)
  show "parse_schedule example_calendar 5 (sj_schedule_str (js_job \<lparr>js_job = example_job ?text, js_updated_at_us = 3\<rparr>))
    = Ok (Some (EverySeconds 9000000000000000))"
    using parse_every [of 9000000000000000 example_calendar 5] by (simp add: example_fields del: show_nat.simps)
  show "try_seconds 9000000000000000 = Some 9000000000000000000000" by (simp add: try_seconds_def)
qed (simp add: job_reference_time_def example_fields sample_calendar_def)

end
