(* ===== verification/ExecRouting.thy ===== *)
theory ExecRouting
  imports Robotics ContextTypes "HOL-Library.List_Lexorder" "HOL-Library.Char_ord" "HOL-Library.Product_Lexorder" "HOL-Library.Multiset"
begin

text \<open>Execution backends and workers (\<open>aria-core/src/execution_backend.rs\<close>): their selection and the
  command lines of the container and remote backends (\<open>aria-intelligence/src/remote_execution.rs\<close>), the
  default profiles (\<open>aria-x/src/execution_backends.rs\<close>) and their tables
  (\<open>runtime_store/execution_backends.rs\<close>).  Environment variables are a parameter.\<close>

section \<open>Data\<close>

datatype ExecutionBackendKind = LocalBackend | DockerBackend | SshBackend | ManagedVmBackend

datatype ExecutionBackendTrustLevel = LocalTrusted | IsolatedSandbox | RemoteBounded | RemotePrivileged

datatype ExecutionBackendKnownHostsPolicy = StrictHosts | AcceptNewHosts | InsecureIgnoreHosts

record ExecutionBackendSshConfig =
  sh_host :: string
  sh_port :: "16 word"
  sh_user :: "string option"
  sh_identity_file :: "string option"
  sh_remote_workspace_root :: "string option"
  sh_known_hosts_policy :: ExecutionBackendKnownHostsPolicy

record ExecutionBackendVmConfig =
  vm_provider :: string
  vm_profile_name :: "string option"
  vm_supports_desktop_stream :: bool

datatype ExecutionBackendConfig = DockerConfig "string option" | SshConfig ExecutionBackendSshConfig
  | ManagedVmConfig ExecutionBackendVmConfig

record ExecutionBackendProfile =
  bp_backend_id :: string
  bp_display_name :: string
  bp_kind :: ExecutionBackendKind
  bp_config :: "ExecutionBackendConfig option"
  bp_is_default :: bool
  bp_requires_approval :: bool
  bp_supports_workspace_mount :: bool
  bp_supports_browser :: bool
  bp_supports_desktop :: bool
  bp_supports_artifact_return :: bool
  bp_supports_network_egress :: bool
  bp_trust_level :: ExecutionBackendTrustLevel

datatype ExecutionWorkerStatus = OnlineWorker | DegradedWorker | OfflineWorker

datatype RobotWorkerHealth = HealthyRobot | DegradedRobot | FaultedRobot

record RobotWorkerBinding =
  wb_robot_id :: string
  wb_ros2_profile_id :: "string option"
  wb_allowed_intents :: "RoboticsIntentKind list"
  wb_policy_group :: string
  wb_max_abs_velocity :: f32
  wb_health :: RobotWorkerHealth
  wb_health_notes :: "string list"

record ExecutionWorkerRecord =
  wk_worker_id :: string
  wk_display_name :: string
  wk_node_id :: string
  wk_backend_id :: string
  wk_backend_kind :: ExecutionBackendKind
  wk_supports_browser :: bool
  wk_supports_desktop :: bool
  wk_supports_gpu :: bool
  wk_supports_robotics :: bool
  wk_max_concurrency :: u32
  wk_trust_level :: ExecutionBackendTrustLevel
  wk_status :: ExecutionWorkerStatus
  wk_last_heartbeat_us :: u64
  wk_robot_binding :: "RobotWorkerBinding option"

record ExecutionBackendRequest =
  br_requested_backend_id :: "string option"
  br_contract_kind :: "ExecutionContractKind option"
  br_required_artifact_kinds :: "ExecutionArtifactKind list"
  br_needs_workspace_mount :: bool
  br_needs_browser :: bool
  br_needs_desktop :: bool
  br_requires_network_egress :: bool

record WorkerRoutingRequest =
  wr_backend_request :: ExecutionBackendRequest
  wr_requires_gpu :: bool
  wr_requires_robotics :: bool
  wr_target_robot_id :: "string option"
  wr_required_robot_intent :: "RoboticsIntentKind option"
  wr_required_ros2_profile_id :: "string option"
  wr_minimum_trust_level :: ExecutionBackendTrustLevel

definition default_backend_request :: ExecutionBackendRequest where
  "default_backend_request = \<lparr>br_requested_backend_id = None, br_contract_kind = None, br_required_artifact_kinds = [],
     br_needs_workspace_mount = False, br_needs_browser = False, br_needs_desktop = False, br_requires_network_egress = False\<rparr>"

definition default_routing_request :: WorkerRoutingRequest where
  "default_routing_request = \<lparr>wr_backend_request = default_backend_request, wr_requires_gpu = False,
     wr_requires_robotics = False, wr_target_robot_id = None, wr_required_robot_intent = None,
     wr_required_ros2_profile_id = None, wr_minimum_trust_level = RemotePrivileged\<rparr>"

section \<open>Selection\<close>

definition backend_profile_matches_request :: "ExecutionBackendProfile \<Rightarrow> ExecutionBackendRequest \<Rightarrow> bool" where
  "backend_profile_matches_request p r =
    (if br_needs_workspace_mount r \<and> \<not> bp_supports_workspace_mount p then False
     else if br_needs_browser r \<and> \<not> bp_supports_browser p then False
     else if br_needs_desktop r \<and> \<not> bp_supports_desktop p then False
     else if br_requires_network_egress r \<and> \<not> bp_supports_network_egress p then False
     else if br_required_artifact_kinds r = [] then True
     else bp_supports_artifact_return p)"

definition backend_key :: "ExecutionBackendProfile \<Rightarrow> bool \<times> bool \<times> string" where
  "backend_key p = (\<not> bp_is_default p, bp_kind p \<noteq> LocalBackend, bp_backend_id p)"

definition quoted :: "string \<Rightarrow> string" where
  "quoted s = CHR 0x27 # s @ [CHR 0x27]"

definition select_execution_backend ::
  "ExecutionBackendRequest \<Rightarrow> ExecutionBackendProfile list \<Rightarrow> (string, ExecutionBackendProfile) result" where
  "select_execution_backend r profiles =
    (let eligible = filter (\<lambda>p. backend_profile_matches_request p r) profiles in
     case br_requested_backend_id r of
       Some k \<Rightarrow> (case find (\<lambda>p. bp_backend_id p = k) profiles of
           None \<Rightarrow> Err (''requested backend '' @ quoted k @ '' is not registered'')
         | Some p \<Rightarrow> if \<not> backend_profile_matches_request p r
             then Err (''requested backend '' @ quoted k @ '' does not satisfy execution requirements'') else Ok p)
     | None \<Rightarrow> if eligible = [] then Err ''no execution backend satisfies the requested capabilities''
         else Ok (hd (sort_key backend_key eligible)))"

fun trust_level_rank :: "ExecutionBackendTrustLevel \<Rightarrow> u8" where
  "trust_level_rank LocalTrusted = 0"
| "trust_level_rank IsolatedSandbox = 1"
| "trust_level_rank RemoteBounded = 2"
| "trust_level_rank RemotePrivileged = 3"

definition worker_status_is_routable :: "ExecutionWorkerStatus \<Rightarrow> bool" where
  "worker_status_is_routable s \<longleftrightarrow> s \<in> {OnlineWorker, DegradedWorker}"

definition robot_matches :: "RobotWorkerBinding \<Rightarrow> WorkerRoutingRequest \<Rightarrow> bool" where
  "robot_matches b r =
    (if (case wr_target_robot_id r of Some k \<Rightarrow> wb_robot_id b \<noteq> k | None \<Rightarrow> False) then False
     else if (case wr_required_ros2_profile_id r of Some k \<Rightarrow> wb_ros2_profile_id b \<noteq> Some k | None \<Rightarrow> False) then False
     else case wr_required_robot_intent r of
       Some intent \<Rightarrow>
         if wb_allowed_intents b \<noteq> [] \<and> intent \<notin> set (wb_allowed_intents b) then False
         else (case wb_health b of
             FaultedRobot \<Rightarrow> False
           | DegradedRobot \<Rightarrow> \<not> (intent = MoveActuator \<or> intent = Halt)
           | HealthyRobot \<Rightarrow> True)
     | None \<Rightarrow> wb_health b \<noteq> FaultedRobot)"

definition worker_matches_request :: "ExecutionWorkerRecord \<Rightarrow> WorkerRoutingRequest \<Rightarrow> bool" where
  "worker_matches_request w r =
    (if br_needs_browser (wr_backend_request r) \<and> \<not> wk_supports_browser w then False
     else if br_needs_desktop (wr_backend_request r) \<and> \<not> wk_supports_desktop w then False
     else if wr_requires_gpu r \<and> \<not> wk_supports_gpu w then False
     else if wr_requires_robotics r \<and> \<not> wk_supports_robotics w then False
     else if wr_requires_robotics r \<and> (case wk_robot_binding w of None \<Rightarrow> True | Some b \<Rightarrow> \<not> robot_matches b r) then False
     else trust_level_rank (wk_trust_level w) \<le> trust_level_rank (wr_minimum_trust_level r))"

definition worker_key :: "ExecutionWorkerRecord \<Rightarrow> bool \<times> u64 \<times> string" where
  "worker_key w = (wk_status w \<noteq> OnlineWorker, - 1 - ucast (wk_max_concurrency w), wk_worker_id w)"

definition select_execution_worker :: "WorkerRoutingRequest \<Rightarrow> ExecutionWorkerRecord list \<Rightarrow> ExecutionBackendProfile list \<Rightarrow>
    (string, ExecutionWorkerRecord) result" where
  "select_execution_worker r workers profiles = and_then (select_execution_backend (wr_backend_request r) profiles) (\<lambda>backend.
     let eligible = filter (\<lambda>w. wk_backend_id w = bp_backend_id backend \<and> worker_status_is_routable (wk_status w) \<and>
           worker_matches_request w r) workers in
     if eligible = []
     then Err (''no execution worker satisfies backend '' @ quoted (bp_backend_id backend) @ '' and capability requirements'')
     else Ok (hd (sort_key worker_key eligible)))"

section \<open>Command lines\<close>

record DockerExecutionBackendConfig =
  dk_image :: string
  dk_workspace_host_path :: "string option"
  dk_workspace_container_path :: string
  dk_network_mode :: "string option"
  dk_env_allowlist :: "string list"
  dk_entrypoint_args :: "string list"

definition docker_command_args :: "(string \<Rightarrow> string option) \<Rightarrow> DockerExecutionBackendConfig \<Rightarrow> string list" where
  "docker_command_args env c = [''run'', ''--rm'', ''-i''] @
     (case dk_network_mode c of Some m \<Rightarrow> [''--network'', m] | None \<Rightarrow> []) @
     (case dk_workspace_host_path c of
        Some h \<Rightarrow> [''-v'', h @ '':'' @ dk_workspace_container_path c @ '':rw'', ''-w'', dk_workspace_container_path c]
      | None \<Rightarrow> []) @
     concat (map (\<lambda>k. case env k of Some v \<Rightarrow> [''-e'', k @ ''='' @ v] | None \<Rightarrow> []) (dk_env_allowlist c)) @
     [dk_image c] @ dk_entrypoint_args c"

definition ssh_config_from_profile :: "ExecutionBackendProfile \<Rightarrow> (OrchestratorError, ExecutionBackendSshConfig) result" where
  "ssh_config_from_profile p = (case bp_config p of
      Some (SshConfig c) \<Rightarrow> Ok c
    | _ \<Rightarrow> Err (ToolError (''execution backend '' @ quoted (bp_backend_id p) @ '' is missing ssh configuration'')))"

definition ssh_command_args :: "ExecutionBackendSshConfig \<Rightarrow> string \<Rightarrow> string list" where
  "ssh_command_args c remote_command = [''-p'', show_nat (unat (sh_port c))] @
     (case sh_known_hosts_policy c of
        StrictHosts \<Rightarrow> []
      | AcceptNewHosts \<Rightarrow> [''-o'', ''StrictHostKeyChecking=accept-new'']
      | InsecureIgnoreHosts \<Rightarrow> [''-o'', ''StrictHostKeyChecking=no'', ''-o'', ''UserKnownHostsFile=/dev/null'']) @
     (case sh_identity_file c of Some f \<Rightarrow> [''-i'', f] | None \<Rightarrow> []) @
     [case sh_user c of Some u \<Rightarrow> u @ ''@'' @ sh_host c | None \<Rightarrow> sh_host c, remote_command]"

text \<open>\<open>payload.replace('\'', "'\\''")\<close> between quotes.\<close>

definition remote_command :: "string \<Rightarrow> string" where
  "remote_command payload = ''hiveclaw-exec '' @ quoted (concat (map (\<lambda>c.
     if c = CHR 0x27 then [CHR 0x27, CHR 0x5C, CHR 0x27, CHR 0x27] else [c]) payload))"

section \<open>Profiles and workers of the store\<close>

definition local_default :: ExecutionBackendProfile where
  "local_default = \<lparr>bp_backend_id = ''local-default'', bp_display_name = ''Local Default'', bp_kind = LocalBackend,
     bp_config = None, bp_is_default = True, bp_requires_approval = False, bp_supports_workspace_mount = True,
     bp_supports_browser = True, bp_supports_desktop = True, bp_supports_artifact_return = True,
     bp_supports_network_egress = True, bp_trust_level = LocalTrusted\<rparr>"

definition docker_sandbox :: ExecutionBackendProfile where
  "docker_sandbox = \<lparr>bp_backend_id = ''docker-sandbox'', bp_display_name = ''Docker Sandbox (alpine:3.20)'',
     bp_kind = DockerBackend, bp_config = Some (DockerConfig (Some ''alpine:3.20'')), bp_is_default = False,
     bp_requires_approval = True, bp_supports_workspace_mount = True, bp_supports_browser = False,
     bp_supports_desktop = False, bp_supports_artifact_return = True, bp_supports_network_egress = False,
     bp_trust_level = IsolatedSandbox\<rparr>"

definition vm_guarded :: ExecutionBackendProfile where
  "vm_guarded = \<lparr>bp_backend_id = ''vm-guarded'', bp_display_name = ''Managed VM Guarded'', bp_kind = ManagedVmBackend,
     bp_config = Some (ManagedVmConfig \<lparr>vm_provider = ''unconfigured'', vm_profile_name = Some ''guarded-default'',
       vm_supports_desktop_stream = True\<rparr>), bp_is_default = False, bp_requires_approval = True,
     bp_supports_workspace_mount = True, bp_supports_browser = True, bp_supports_desktop = True,
     bp_supports_artifact_return = True, bp_supports_network_egress = False, bp_trust_level = IsolatedSandbox\<rparr>"

definition env_alias :: "(string \<Rightarrow> string option) \<Rightarrow> string \<Rightarrow> string \<Rightarrow> string option" where
  "env_alias env primary legacy = (case (case env primary of Some v \<Rightarrow> Some v | None \<Rightarrow> env legacy) of
      Some v \<Rightarrow> if trim_ws v = [] then None else Some (trim_ws v)
    | None \<Rightarrow> None)"

definition known_hosts_policy_from :: "string option \<Rightarrow> ExecutionBackendKnownHostsPolicy" where
  "known_hosts_policy_from v = (case map_option (\<lambda>s. to_lower (trim_ws s)) v of
      Some s \<Rightarrow> if s \<in> {''accept_new'', ''accept-new''} then AcceptNewHosts
        else if s \<in> {''insecure_ignore'', ''insecure-ignore'', ''no''} then InsecureIgnoreHosts else StrictHosts
    | None \<Rightarrow> StrictHosts)"

definition env_ssh_backend_profile :: "(string \<Rightarrow> string option) \<Rightarrow> ExecutionBackendProfile option" where
  "env_ssh_backend_profile env = map_option (\<lambda>host.
     \<lparr>bp_backend_id = ''ssh-remote'', bp_display_name = ''SSH Remote ('' @ host @ '')'', bp_kind = SshBackend,
      bp_config = Some (SshConfig \<lparr>sh_host = host,
        sh_port = (case Option.bind (env_alias env ''HIVECLAW_SSH_PORT'' ''ARIA_SSH_PORT'') (parse_unsigned 65535) of
          Some n \<Rightarrow> of_nat n | None \<Rightarrow> 22),
        sh_user = env_alias env ''HIVECLAW_SSH_USER'' ''ARIA_SSH_USER'',
        sh_identity_file = env_alias env ''HIVECLAW_SSH_IDENTITY_FILE'' ''ARIA_SSH_IDENTITY_FILE'',
        sh_remote_workspace_root = env_alias env ''HIVECLAW_SSH_WORKSPACE_ROOT'' ''ARIA_SSH_WORKSPACE_ROOT'',
        sh_known_hosts_policy = known_hosts_policy_from
          (env_alias env ''HIVECLAW_SSH_KNOWN_HOSTS_POLICY'' ''ARIA_SSH_KNOWN_HOSTS_POLICY'')\<rparr>),
      bp_is_default = False, bp_requires_approval = True, bp_supports_workspace_mount = True, bp_supports_browser = False,
      bp_supports_desktop = False, bp_supports_artifact_return = True, bp_supports_network_egress = True,
      bp_trust_level = RemoteBounded\<rparr>)
    (env_alias env ''HIVECLAW_SSH_HOST'' ''ARIA_SSH_HOST'')"

definition default_execution_backend_profiles :: "(string \<Rightarrow> string option) \<Rightarrow> ExecutionBackendProfile list" where
  "default_execution_backend_profiles env = [local_default, docker_sandbox, vm_guarded] @
     (case env_ssh_backend_profile env of Some p \<Rightarrow> [p] | None \<Rightarrow> [])"

record backend_row =
  bx_profile :: ExecutionBackendProfile
  bx_updated_at_us :: int

record worker_row =
  wx_worker :: ExecutionWorkerRecord
  wx_updated_at_us :: int

record execution_store =
  backend_rows :: "backend_row list"
  worker_rows :: "worker_row list"

abbreviation bx_id :: "backend_row \<Rightarrow> string" where
  "bx_id x \<equiv> bp_backend_id (bx_profile x)"

abbreviation wx_id :: "worker_row \<Rightarrow> string" where
  "wx_id x \<equiv> wk_worker_id (wx_worker x)"

definition upsert_execution_backend_profile :: "ExecutionBackendProfile \<Rightarrow> u64 \<Rightarrow> execution_store \<Rightarrow> execution_store" where
  "upsert_execution_backend_profile p t st =
     st\<lparr>backend_rows := upsert_by bx_id \<lparr>bx_profile = p, bx_updated_at_us = sint t\<rparr> (backend_rows st)\<rparr>"

definition list_execution_backend_profiles :: "execution_store \<Rightarrow> ExecutionBackendProfile list" where
  "list_execution_backend_profiles st = map bx_profile (sort_key (\<lambda>x. - bx_updated_at_us x) (backend_rows st))"

definition upsert_execution_worker :: "ExecutionWorkerRecord \<Rightarrow> u64 \<Rightarrow> execution_store \<Rightarrow> execution_store" where
  "upsert_execution_worker w t st =
     st\<lparr>worker_rows := upsert_by wx_id \<lparr>wx_worker = w, wx_updated_at_us = sint t\<rparr> (worker_rows st)\<rparr>"

definition list_execution_workers :: "string option \<Rightarrow> execution_store \<Rightarrow> ExecutionWorkerRecord list" where
  "list_execution_workers backend st = map wx_worker (sort_key (\<lambda>x. - wx_updated_at_us x)
     (filter (\<lambda>x. case backend of Some k \<Rightarrow> wk_backend_id (wx_worker x) = k | None \<Rightarrow> True) (worker_rows st)))"

definition mark_worker :: "u64 \<Rightarrow> u64 \<Rightarrow> ExecutionWorkerRecord \<Rightarrow> execution_store \<times> nat \<Rightarrow> execution_store \<times> nat" where
  "mark_worker stale_before now w = (\<lambda>(st, changed).
     if wk_last_heartbeat_us w < stale_before \<and> wk_status w \<noteq> OfflineWorker
     then (upsert_execution_worker (w\<lparr>wk_status := OfflineWorker\<rparr>) now st, changed + 1) else (st, changed))"

definition mark_stale_execution_workers_offline :: "u64 \<Rightarrow> u64 \<Rightarrow> execution_store \<Rightarrow> execution_store \<times> nat" where
  "mark_stale_execution_workers_offline timeout now st =
     fold (mark_worker (saturating_sub now timeout) now) (list_execution_workers None st) (st, 0)"

definition ensure_default_execution_backend_profiles ::
  "(string \<Rightarrow> string option) \<Rightarrow> u64 \<Rightarrow> execution_store \<Rightarrow> execution_store \<times> ExecutionBackendProfile list" where
  "ensure_default_execution_backend_profiles env now st =
    (let existing = map bp_backend_id (list_execution_backend_profiles st);
         st' = fold (\<lambda>p s. if bp_backend_id p \<notin> set existing then upsert_execution_backend_profile p now s else s)
           (default_execution_backend_profiles env) st in
     (st', sort_key bp_backend_id (list_execution_backend_profiles st')))"

section \<open>Selection is sound, complete and minimal\<close>

text \<open>What the routing of a worker promises.\<close>

definition may_serve :: "WorkerRoutingRequest \<Rightarrow> ExecutionWorkerRecord \<Rightarrow> bool" where
  "may_serve r w \<longleftrightarrow> wk_status w \<noteq> OfflineWorker \<and>
     (br_needs_browser (wr_backend_request r) \<longrightarrow> wk_supports_browser w) \<and>
     (br_needs_desktop (wr_backend_request r) \<longrightarrow> wk_supports_desktop w) \<and> (wr_requires_gpu r \<longrightarrow> wk_supports_gpu w) \<and>
     trust_level_rank (wk_trust_level w) \<le> trust_level_rank (wr_minimum_trust_level r) \<and>
     (wr_requires_robotics r \<longrightarrow> wk_supports_robotics w \<and> (\<exists>b. wk_robot_binding w = Some b \<and> wb_health b \<noteq> FaultedRobot \<and>
        (\<forall>k. wr_target_robot_id r = Some k \<longrightarrow> wb_robot_id b = k) \<and>
        (\<forall>k. wr_required_ros2_profile_id r = Some k \<longrightarrow> wb_ros2_profile_id b = Some k) \<and>
        (\<forall>i. wr_required_robot_intent r = Some i \<longrightarrow> (wb_allowed_intents b = [] \<or> i \<in> set (wb_allowed_intents b)) \<and>
           (wb_health b = DegradedRobot \<longrightarrow> i \<noteq> MoveActuator \<and> i \<noteq> Halt))))"

lemma may_serve_iff: "worker_status_is_routable (wk_status w) \<and> worker_matches_request w r \<longleftrightarrow> may_serve r w"
proof -
  have status: "worker_status_is_routable s \<longleftrightarrow> s \<noteq> OfflineWorker" for s
    by (cases s) (simp_all add: worker_status_is_routable_def)
  have robot: "robot_matches b r \<longleftrightarrow> wb_health b \<noteq> FaultedRobot \<and>
      (\<forall>k. wr_target_robot_id r = Some k \<longrightarrow> wb_robot_id b = k) \<and>
      (\<forall>k. wr_required_ros2_profile_id r = Some k \<longrightarrow> wb_ros2_profile_id b = Some k) \<and>
      (\<forall>i. wr_required_robot_intent r = Some i \<longrightarrow> (wb_allowed_intents b = [] \<or> i \<in> set (wb_allowed_intents b)) \<and>
         (wb_health b = DegradedRobot \<longrightarrow> i \<noteq> MoveActuator \<and> i \<noteq> Halt))" for b
    unfolding robot_matches_def by (cases "wb_health b") (auto split: option.splits)
  show ?thesis
    unfolding may_serve_def worker_matches_request_def status
    by (cases "wk_robot_binding w") (auto simp: robot)
qed

lemma hd_sort_key: "xs \<noteq> [] \<Longrightarrow> hd (sort_key f xs) \<in> set xs \<and> (\<forall>x\<in>set xs. f (hd (sort_key f xs)) \<le> f x)"
proof -
  assume xs: "xs \<noteq> []"
  then have ne: "sort_key f xs \<noteq> []" by (metis length_0_conv length_sort)
  then obtain y ys where y: "sort_key f xs = y # ys" by (cases "sort_key f xs") auto
  have "sorted (map f (y # ys))" using y by (metis sorted_sort_key)
  then have "\<forall>x\<in>set (y # ys). f y \<le> f x" by auto
  moreover have "set (y # ys) = set xs" using y by (metis set_sort)
  ultimately show ?thesis using y by auto
qed

text \<open>C13: routing returns a worker of the selected backend that is not offline and has every capability, robot, profile,
  health and trust the request asks for, the first in the order by status, concurrency and name; it fails exactly when
  no backend is selected or the selected backend has no such worker.\<close>

theorem routing_correct:
  "(case select_execution_worker r workers profiles of
     Ok w \<Rightarrow> \<exists>b. select_execution_backend (wr_backend_request r) profiles = Ok b \<and> w \<in> set workers \<and>
       wk_backend_id w = bp_backend_id b \<and> may_serve r w \<and>
       (\<forall>v\<in>set workers. wk_backend_id v = bp_backend_id b \<and> may_serve r v \<longrightarrow> worker_key w \<le> worker_key v)
   | Err _ \<Rightarrow> \<forall>b. select_execution_backend (wr_backend_request r) profiles = Ok b \<longrightarrow>
       \<not> (\<exists>v\<in>set workers. wk_backend_id v = bp_backend_id b \<and> may_serve r v))"
proof (cases "select_execution_backend (wr_backend_request r) profiles")
  case (Inr b)
  let ?el = "filter (\<lambda>w. wk_backend_id w = bp_backend_id b \<and> may_serve r w) workers"
  have sel: "select_execution_worker r workers profiles = (if ?el = []
      then Err (''no execution worker satisfies backend '' @ quoted (bp_backend_id b) @ '' and capability requirements'')
      else Ok (hd (sort_key worker_key ?el)))"
    unfolding select_execution_worker_def Inr and_then.simps may_serve_iff Let_def ..
  show ?thesis
  proof (cases "?el = []")
    case True
    then show ?thesis using sel Inr by (auto simp: filter_empty_conv)
  next
    case False
    then show ?thesis using sel Inr hd_sort_key [OF False, of worker_key] by auto
  qed
qed (simp add: select_execution_worker_def)

lemma backend_selected:
  assumes "select_execution_backend r profiles = Ok p"
  shows "p \<in> set profiles \<and> backend_profile_matches_request p r \<and>
    (br_requested_backend_id r = None \<longrightarrow>
      (\<forall>q\<in>set profiles. backend_profile_matches_request q r \<longrightarrow> backend_key p \<le> backend_key q)) \<and>
    (\<forall>k. br_requested_backend_id r = Some k \<longrightarrow> bp_backend_id p = k)"
proof (cases "br_requested_backend_id r")
  case None
  let ?el = "filter (\<lambda>p. backend_profile_matches_request p r) profiles"
  have "?el \<noteq> []" "p = hd (sort_key backend_key ?el)"
    using assms None by (auto simp: select_execution_backend_def Let_def split: if_splits)
  with hd_sort_key [of ?el backend_key] None show ?thesis by auto
next
  case (Some k)
  with assms show ?thesis
    using find_by_SomeD [where key = bp_backend_id and k = k and t = profiles, unfolded find_by_def]
    by (auto simp: select_execution_backend_def Let_def split: option.splits if_splits)
qed

text \<open>The backend is chosen before the workers are looked at, so a request fails although a worker that may serve it is
  online, on a backend that satisfies the request as well.\<close>

lemma unserved_although_possible:
  assumes "select_execution_backend (wr_backend_request r) profiles = Ok b"
    "\<forall>v\<in>set workers. wk_backend_id v \<noteq> bp_backend_id b" "w \<in> set workers" "may_serve r w"
  shows "\<exists>e. select_execution_worker r workers profiles = Err e"
  using assms by (simp add: select_execution_worker_def filter_False)

text \<open>No worker is ever selected to halt a robot that is degraded or at fault, although its bridge accepts a halt at
  any time.\<close>

lemma degraded_robot_not_halted:
  assumes "wr_requires_robotics r" "wr_target_robot_id r = Some k" "wr_required_robot_intent r = Some Halt"
    "\<forall>v\<in>set workers. \<forall>b. wk_robot_binding v = Some b \<and> wb_robot_id b = k \<longrightarrow> wb_health b \<noteq> HealthyRobot"
  shows "\<exists>e. select_execution_worker r workers profiles = Err e"
proof -
  have "\<not> (worker_status_is_routable (wk_status v) \<and> worker_matches_request v r)" if "v \<in> set workers" for v
  proof
    assume "worker_status_is_routable (wk_status v) \<and> worker_matches_request v r"
    then have "may_serve r v" by (simp add: may_serve_iff)
    with assms(1-3) obtain b where b: "wk_robot_binding v = Some b" "wb_robot_id b = k" "wb_health b \<noteq> FaultedRobot"
      "wb_health b \<noteq> DegradedRobot" by (auto simp: may_serve_def)
    with assms(4) that have "wb_health b \<noteq> HealthyRobot" by blast
    with b show False by (cases "wb_health b") simp_all
  qed
  then show ?thesis
    by (cases "select_execution_backend (wr_backend_request r) profiles")
      (auto simp: select_execution_worker_def filter_empty_conv Let_def)
qed

section \<open>The remote command line\<close>

text \<open>How a POSIX shell splits a line into words, as far as quotes, backslashes and blanks go; a line in which
  another character has a meaning of its own outside the quotes is no list of words (\<open>None\<close>).\<close>

definition plain_in_shell :: "char \<Rightarrow> bool" where
  "plain_in_shell c \<longleftrightarrow> is_alphanumeric c \<or> c \<in> {CHR ''-'', CHR ''_'', CHR ''.'', CHR ''/'', CHR '':'', CHR ''=''}"

fun shell_scan :: "bool \<Rightarrow> string option \<Rightarrow> string \<Rightarrow> string list option" where
  "shell_scan True w [] = None"
| "shell_scan False None [] = Some []"
| "shell_scan False (Some w) [] = Some [w]"
| "shell_scan True w (c # s) = (let v = (case w of Some v \<Rightarrow> v | None \<Rightarrow> []) in
     if c = CHR 0x27 then shell_scan False (Some v) s else shell_scan True (Some (v @ [c])) s)"
| "shell_scan False w (c # s) = (let v = (case w of Some v \<Rightarrow> v | None \<Rightarrow> []) in
     if c = CHR 0x27 then shell_scan True (Some v) s
     else if c = CHR 0x5C then (case s of [] \<Rightarrow> None | d # s' \<Rightarrow> shell_scan False (Some (v @ [d])) s')
     else if c = CHR '' '' then (case w of None \<Rightarrow> shell_scan False None s | Some v \<Rightarrow> map_option ((#) v) (shell_scan False None s))
     else if plain_in_shell c then shell_scan False (Some (v @ [c])) s
     else None)"

definition shell_words :: "string \<Rightarrow> string list option" where
  "shell_words = shell_scan False None"

lemma scan_quoted:
  "shell_scan True (Some v) (concat (map (\<lambda>c. if c = CHR 0x27 then [CHR 0x27, CHR 0x5C, CHR 0x27, CHR 0x27] else [c]) p) @ [CHR 0x27]) =
    Some [v @ p]"
  by (induction p arbitrary: v) (simp_all add: plain_in_shell_def)

text \<open>Whatever a call contains, the remote shell reads the command line as the name of the program and one
  argument, which is the call: nothing in the call is run as a command.\<close>

lemma remote_command_is_one_argument:
  "shell_words (remote_command payload) = Some [''hiveclaw-exec'', payload]"
proof -
  have "list_all plain_in_shell ''hiveclaw-exec''" by code_simp
  then show ?thesis
    using scan_quoted [of "[]" payload] by (simp add: shell_words_def remote_command_def quoted_def)
qed

section \<open>Stale workers\<close>

lemma sweep_step:
  "find_by wx_id k (worker_rows (fst (mark_worker stale now w (st, n)))) =
    (if k = wk_worker_id w \<and> wk_last_heartbeat_us w < stale \<and> wk_status w \<noteq> OfflineWorker
     then Some \<lparr>wx_worker = w\<lparr>wk_status := OfflineWorker\<rparr>, wx_updated_at_us = sint now\<rparr> else find_by wx_id k (worker_rows st))"
  by (auto simp: mark_worker_def upsert_execution_worker_def table_simps)

definition goes_offline :: "u64 \<Rightarrow> ExecutionWorkerRecord \<Rightarrow> bool" where
  "goes_offline stale w \<longleftrightarrow> wk_last_heartbeat_us w < stale \<and> wk_status w \<noteq> OfflineWorker"

lemma sweep_fold:
  assumes "distinct (map wk_worker_id ws)"
  shows "find_by wx_id k (worker_rows (fst (fold (mark_worker stale now) ws (st, n)))) =
     (case find (\<lambda>w. wk_worker_id w = k \<and> goes_offline stale w) ws of
        Some w \<Rightarrow> Some \<lparr>wx_worker = w\<lparr>wk_status := OfflineWorker\<rparr>, wx_updated_at_us = sint now\<rparr>
      | None \<Rightarrow> find_by wx_id k (worker_rows st)) \<and>
    snd (fold (mark_worker stale now) ws (st, n)) = n + length (filter (goes_offline stale) ws)"
  using assms
proof (induction ws arbitrary: st n)
  case (Cons w ws)
  obtain st1 n1 where one: "mark_worker stale now w (st, n) = (st1, n1)" by fastforce
  have n1: "n1 = n + (if goes_offline stale w then 1 else 0)"
    using one by (auto simp: mark_worker_def goes_offline_def split: if_splits)
  have row: "find_by wx_id k (worker_rows st1) = (if k = wk_worker_id w \<and> goes_offline stale w
     then Some \<lparr>wx_worker = w\<lparr>wk_status := OfflineWorker\<rparr>, wx_updated_at_us = sint now\<rparr> else find_by wx_id k (worker_rows st))"
    using sweep_step [of k stale now w st n] one by (simp add: goes_offline_def)
  have gone: "find (\<lambda>v. wk_worker_id v = wk_worker_id w \<and> goes_offline stale v) ws = None"
    using Cons.prems by (simp add: find_None_iff) (metis imageI)
  show ?case
    using Cons.IH [of st1 n1] Cons.prems one n1 row gone
    by (cases "wk_worker_id w = k"; cases "goes_offline stale w") (auto split: option.splits)
qed simp

lemma listed_workers:
  assumes "unique_keys wx_id (worker_rows st)"
  shows "distinct (map wk_worker_id (list_execution_workers None st))"
    "find (\<lambda>w. wk_worker_id w = k \<and> P w) (list_execution_workers None st) =
      (case find_by wx_id k (worker_rows st) of Some x \<Rightarrow> if P (wx_worker x) then Some (wx_worker x) else None | None \<Rightarrow> None)"
proof -
  let ?l = "list_execution_workers None st"
  have mem: "w \<in> set ?l \<longleftrightarrow> (\<exists>x\<in>set (worker_rows st). wx_worker x = w)" for w
    by (auto simp: list_execution_workers_def)
  show d: "distinct (map wk_worker_id ?l)"
    using assms by (auto simp: list_execution_workers_def distinct_map inj_on_def)
  show "find (\<lambda>w. wk_worker_id w = k \<and> P w) ?l =
      (case find_by wx_id k (worker_rows st) of Some x \<Rightarrow> if P (wx_worker x) then Some (wx_worker x) else None | None \<Rightarrow> None)"
  proof (cases "find (\<lambda>w. wk_worker_id w = k \<and> P w) ?l")
    case None
    then have no: "\<And>w. w \<in> set ?l \<Longrightarrow> wk_worker_id w = k \<Longrightarrow> \<not> P w" by (auto simp: find_None_iff)
    have "\<not> P (wx_worker x)" if "find_by wx_id k (worker_rows st) = Some x" for x
      using find_by_SomeD [OF that] no [of "wx_worker x"] mem by auto
    with None show ?thesis by (auto split: option.splits)
  next
    case (Some w)
    then have w: "w \<in> set ?l" "wk_worker_id w = k" "P w" by (auto simp: find_Some_iff)
    then obtain x where x: "x \<in> set (worker_rows st)" "wx_worker x = w" using mem by auto
    from find_by_unique [OF assms x(1)] x(2) w Some show ?thesis by auto
  qed
qed

text \<open>After the sweep every worker whose last heartbeat is older than the timeout is offline, every other
  worker is as before, and the count is the number of workers that went offline.\<close>

lemma sweep_marks_stale:
  assumes "unique_keys wx_id (worker_rows st)"
  shows "let (st', n) = mark_stale_execution_workers_offline timeout now st; old = saturating_sub now timeout in
    (\<forall>k. map_option wx_worker (find_by wx_id k (worker_rows st')) =
       map_option (\<lambda>x. if wk_last_heartbeat_us (wx_worker x) < old then (wx_worker x)\<lparr>wk_status := OfflineWorker\<rparr> else wx_worker x)
         (find_by wx_id k (worker_rows st))) \<and>
    n = length (filter (goes_offline old) (map wx_worker (worker_rows st)))"
proof -
  let ?old = "saturating_sub now timeout"
  let ?l = "list_execution_workers None st"
  let ?res = "mark_stale_execution_workers_offline timeout now st"
  note fold = sweep_fold [OF listed_workers(1) [OF assms], where stale = ?old and now = now and st = st and n = 0]
  have rows: "map_option wx_worker (find_by wx_id k (worker_rows (fst ?res))) =
       map_option (\<lambda>x. if wk_last_heartbeat_us (wx_worker x) < ?old then (wx_worker x)\<lparr>wk_status := OfflineWorker\<rparr> else wx_worker x)
         (find_by wx_id k (worker_rows st))" for k
    using fold [of k] unfolding mark_stale_execution_workers_offline_def listed_workers(2) [OF assms]
    by (auto simp: goes_offline_def split: option.splits)
  have "snd ?res = length (filter (goes_offline ?old) ?l)"
    using fold by (simp add: mark_stale_execution_workers_offline_def)
  also have "\<dots> = length (filter (goes_offline ?old) (map wx_worker (worker_rows st)))"
  proof -
    have "mset ?l = mset (map wx_worker (worker_rows st))"
      by (simp add: list_execution_workers_def)
    then show ?thesis by (metis mset_filter size_mset)
  qed
  finally show ?thesis using rows by (simp add: case_prod_beta Let_def)
qed

text \<open>Registering the defaults keeps every profile that is already there.\<close>

lemma defaults_keep_profiles:
  assumes "find_by bx_id k (backend_rows st) = Some x"
  shows "find_by bx_id k (backend_rows (fst (ensure_default_execution_backend_profiles env now st))) = Some x"
proof -
  have k: "k \<in> set (map bp_backend_id (list_execution_backend_profiles st))"
    using find_by_SomeD [OF assms] by (auto simp: list_execution_backend_profiles_def)
  have "find_by bx_id k (backend_rows (fold (\<lambda>p s. if bp_backend_id p \<notin> ids
      then upsert_execution_backend_profile p now s else s) ps s0)) = find_by bx_id k (backend_rows s0)" if "k \<in> ids" for ids ps s0
    using that by (induction ps arbitrary: s0) (auto simp: upsert_execution_backend_profile_def table_simps)
  from this [OF k] assms show ?thesis by (simp add: ensure_default_execution_backend_profiles_def Let_def)
qed

section \<open>Examples\<close>

definition example_worker :: "string \<Rightarrow> string \<Rightarrow> RobotWorkerHealth option \<Rightarrow> ExecutionWorkerRecord" where
  "example_worker k backend health = \<lparr>wk_worker_id = k, wk_display_name = k, wk_node_id = ''n'', wk_backend_id = backend,
     wk_backend_kind = LocalBackend, wk_supports_browser = False, wk_supports_desktop = False, wk_supports_gpu = True,
     wk_supports_robotics = True, wk_max_concurrency = 4, wk_trust_level = LocalTrusted, wk_status = OnlineWorker,
     wk_last_heartbeat_us = 10, wk_robot_binding = map_option (\<lambda>h. \<lparr>wb_robot_id = ''rover'', wb_ros2_profile_id = None,
       wb_allowed_intents = [], wb_policy_group = ''lab'', wb_max_abs_velocity = 0, wb_health = h, wb_health_notes = []\<rparr>) health\<rparr>"

lemma unserved_although_possible_example:
  "\<exists>e. select_execution_worker (default_routing_request\<lparr>wr_requires_gpu := True\<rparr>)
     [example_worker ''w'' ''docker-sandbox'' None] [local_default, docker_sandbox] = Err e"
proof (rule unserved_although_possible [where w = "example_worker ''w'' ''docker-sandbox'' None"])
  show "select_execution_backend (wr_backend_request (default_routing_request\<lparr>wr_requires_gpu := True\<rparr>))
      [local_default, docker_sandbox] = Ok local_default"
    by (simp add: select_execution_backend_def default_routing_request_def default_backend_request_def
        backend_profile_matches_request_def local_default_def docker_sandbox_def backend_key_def)
qed (simp_all add: example_worker_def local_default_def may_serve_def default_routing_request_def default_backend_request_def)

lemma degraded_robot_not_halted_example:
  "\<exists>e. select_execution_worker (default_routing_request\<lparr>wr_requires_robotics := True, wr_target_robot_id := Some ''rover'',
      wr_required_robot_intent := Some Halt\<rparr>)
     [example_worker ''w'' ''local-default'' (Some DegradedRobot)] [local_default] = Err e"
  by (rule degraded_robot_not_halted [where k = "''rover''"]) (simp_all add: example_worker_def)

lemma sweep_marks_stale_example:
  "snd (mark_stale_execution_workers_offline 50 200
     \<lparr>backend_rows = [], worker_rows = [\<lparr>wx_worker = example_worker ''w'' ''b'' None, wx_updated_at_us = 10\<rparr>]\<rparr>) = 1"
proof -
  let ?st = "\<lparr>backend_rows = [], worker_rows = [\<lparr>wx_worker = example_worker ''w'' ''b'' None, wx_updated_at_us = 10\<rparr>]\<rparr>"
  have "unique_keys wx_id (worker_rows ?st)" by simp
  from sweep_marks_stale [OF this, of 50 200]
  have "snd (mark_stale_execution_workers_offline 50 200 ?st) =
      length (filter (goes_offline (saturating_sub 200 50)) (map wx_worker (worker_rows ?st)))"
    by (simp add: case_prod_beta Let_def)
  also have "\<dots> = 1" by (simp add: goes_offline_def example_worker_def saturating_sub_def)
  finally show ?thesis .
qed

lemma routing_correct_witness:
  "select_execution_worker default_routing_request [example_worker ''w'' ''local-default'' None] [local_default]
     = Ok (example_worker ''w'' ''local-default'' None)"
proof -
  let ?w = "example_worker ''w'' ''local-default'' None"
  have b: "select_execution_backend (wr_backend_request default_routing_request) [local_default] = Ok local_default"
    by (simp add: select_execution_backend_def default_routing_request_def default_backend_request_def
        backend_profile_matches_request_def local_default_def)
  have w: "wk_backend_id ?w = bp_backend_id local_default \<and> may_serve default_routing_request ?w"
    by (simp add: example_worker_def local_default_def may_serve_def default_routing_request_def default_backend_request_def)
  show ?thesis
    using routing_correct [where r = default_routing_request and workers = "[?w]" and profiles = "[local_default]"] b w
    by (auto split: sum.splits)
qed

end
