(* ===== verification/AgentTypes.thy ===== *)
theory AgentTypes
  imports ContextTypes
begin

text \<open>Requests and the capability profile of an agent, with the types they are made of
  (\<open>aria-core/src/agent.rs\<close>, \<open>app.rs\<close>, \<open>browser.rs\<close>, \<open>computer.rs\<close>).  An \<open>f64\<close> is its bit pattern.\<close>

datatype AgentClass = Generalist | Specialist | RestrictedAgent | NotifierAgent | RoboticsPlanner

datatype SideEffectLevel = ReadOnlyEffect | ExternalFetch | StatefulWrite | PrivilegedEffect

datatype TrustProfile = TrustedLocal | TrustedWorkspace | UntrustedWeb | UntrustedSocial | RoboticsControl

record FilesystemScope =
  fs_root_path :: string
  fs_allow_read :: bool
  fs_allow_write :: bool
  fs_allow_execute :: bool

datatype RetrievalScope = SessionMemoryScope | WorkspaceScope | PolicyRuntimeScope | ExternalScope | SocialScope
  | McpResourceScope | ControlDocumentScope

record DelegationScope =
  ds_can_spawn_children :: bool
  ds_allowed_agents :: "string list"
  ds_max_fanout :: "16 word"
  ds_max_runtime_seconds :: u32

datatype BrowserActionScope = DiscoverOnly | ReadOnlyBrowsing | InteractiveNonAuth | InteractiveAuth | DownloadScope
  | SubmitWrite

datatype BrowserSessionScope = NoSessionAccess | EphemeralOnly | ManagedProfileOnly | AttachedProfileAllowed
  | ExtensionBoundAllowed

datatype CrawlScope = SinglePage | SameOrigin | AllowlistedDomains | ScheduledWatchAllowed

datatype WebApprovalPolicy = PromptOnUnknownDomain | RequireApprovalAlways | AllowAllowlistedOnly

datatype BrowserTransportKind = ManagedBrowser | AttachedBrowser | ExtensionBrowser | RemoteBrowser

datatype ComputerActionScope = ObserveOnly | PointerOnly | PointerAndKeyboard | ClipboardReadScope
  | ClipboardReadWrite | FullDesktopControl

datatype WebActionFamily = FetchFamily | CrawlFamily | ScreenshotFamily | InteractiveReadFamily | InteractiveWriteFamily
  | LoginFamily | DownloadFamily

datatype DomainDecisionKind = AllowOnce | AllowForSession | AllowAlways | DenyOnce | DenyAlways

record AgentCapabilityProfile =
  cp_agent_id :: string
  cp_class :: AgentClass
  cp_tool_allowlist :: "string list"
  cp_skill_allowlist :: "string list"
  cp_mcp_server_allowlist :: "string list"
  cp_mcp_tool_allowlist :: "string list"
  cp_mcp_prompt_allowlist :: "string list"
  cp_mcp_resource_allowlist :: "string list"
  cp_filesystem_scopes :: "FilesystemScope list"
  cp_retrieval_scopes :: "RetrievalScope list"
  cp_delegation_scope :: "DelegationScope option"
  cp_web_domain_allowlist :: "string list"
  cp_web_domain_blocklist :: "string list"
  cp_browser_profile_allowlist :: "string list"
  cp_browser_action_scope :: "BrowserActionScope option"
  cp_computer_profile_allowlist :: "string list"
  cp_computer_action_scope :: "ComputerActionScope option"
  cp_browser_session_scope :: "BrowserSessionScope option"
  cp_crawl_scope :: "CrawlScope option"
  cp_web_approval_policy :: "WebApprovalPolicy option"
  cp_web_transport_allowlist :: "BrowserTransportKind list"
  cp_requires_elevation :: bool
  cp_side_effect_level :: SideEffectLevel
  cp_trust_profile :: "TrustProfile option"

datatype MessageContent = TextContent string | ImageContent string "string option" | AudioContent string "string option"
  | VideoContent string "string option" "string option" | DocumentContent string "string option" "string option"
  | LocationContent u64 u64

fun as_text :: "MessageContent \<Rightarrow> string option" where
  "as_text (TextContent text) = Some text"
| "as_text _ = None"

record AgentRequest =
  rq_request_id :: "u8 list"
  rq_session_id :: "u8 list"
  rq_channel :: GatewayChannel
  rq_user_id :: string
  rq_content :: MessageContent
  rq_tool_runtime_policy :: "ToolRuntimePolicy option"
  rq_timestamp_us :: u64

end
