(* ===== verification/Learning.thy ===== *)
theory Learning
  imports AgentTypes Orchestrator "HOL-Library.Multiset" "HOL-Library.Signed_Division" "HOL-Library.Product_Lexorder"
begin

text \<open>Learning from execution traces (\<open>aria-learning/src/lib.rs\<close>) and its tables
  (\<open>aria-x/src/runtime_store/learning.rs\<close>): task fingerprints, replay samples, candidates compiled from
  them, their evaluation and promotion, and what recording a trace does
  (\<open>persist_learning_trace\<close> of \<open>aria-x/src/tools.rs\<close>).  An \<open>i32\<close> is a 32-bit word and wraps, as in a
  release build; \<open>json_text\<close> is the JSON printer.\<close>

section \<open>Fingerprints\<close>

datatype TraceOutcome = TraceSucceeded | TraceFailed | ClarificationRequired | TraceApprovalRequired

record TaskFingerprint =
  tf_version :: "16 word"
  tf_key :: string

record TaskFingerprintParts =
  fp_agent_id :: string
  fp_prompt_mode :: string
  fp_text :: string
  fp_tools :: "string list"

fun normalize_loop :: "bool \<Rightarrow> string \<Rightarrow> string" where
  "normalize_loop sep [] = []"
| "normalize_loop sep (c # s) = (let d = lower_char c in
     if is_alphanumeric d then d # normalize_loop False s
     else if \<not> sep then CHR '' '' # normalize_loop True s
     else normalize_loop sep s)"

definition normalize_text :: "string \<Rightarrow> string" where
  "normalize_text s = trim_ws (normalize_loop False s)"

definition normalize_token :: "string \<Rightarrow> string" where
  "normalize_token s = map (\<lambda>c. if c = CHR '' '' then CHR ''_'' else c) (normalize_text s)"

text \<open>The elements of a \<open>BTreeSet\<close>, in order.\<close>

definition btree_set :: "string list \<Rightarrow> string list" where
  "btree_set xs = sort (remdups xs)"

definition fingerprint_tools :: "string list \<Rightarrow> string list" where
  "fingerprint_tools tools = btree_set (filter (\<lambda>t. t \<noteq> []) (map normalize_token tools))"

definition from_parts :: "string \<Rightarrow> string \<Rightarrow> string \<Rightarrow> string list \<Rightarrow> TaskFingerprint" where
  "from_parts agent mode text tools = \<lparr>tf_version = 1, tf_key = ''v1|agent='' @ normalize_token agent @ ''|mode='' @
     normalize_token mode @ ''|text='' @ normalize_text text @ ''|tools='' @ join_with '','' (fingerprint_tools tools)\<rparr>"

record fingerprint_fields =
  ff_agent :: "string option"
  ff_mode :: "string option"
  ff_text :: "string option"
  ff_tools :: "string list"

definition fingerprint_field :: "string \<Rightarrow> string \<Rightarrow> fingerprint_fields \<Rightarrow> fingerprint_fields" where
  "fingerprint_field name v f =
    (if name = ''agent'' then f\<lparr>ff_agent := Some v\<rparr>
     else if name = ''mode'' then f\<lparr>ff_mode := Some v\<rparr>
     else if name = ''text'' then f\<lparr>ff_text := Some v\<rparr>
     else if name = ''tools'' then f\<lparr>ff_tools := filter (\<lambda>t. t \<noteq> []) (split_on (\<lambda>c. c = CHR '','') v)\<rparr>
     else f)"

fun fingerprint_fields_of :: "string list \<Rightarrow> fingerprint_fields \<Rightarrow> fingerprint_fields option" where
  "fingerprint_fields_of [] f = Some f"
| "fingerprint_fields_of (p # ps) f = (case split_once ''='' p of
      None \<Rightarrow> None | Some (name, v) \<Rightarrow> fingerprint_fields_of ps (fingerprint_field name v f))"

definition parse_task_fingerprint :: "string \<Rightarrow> TaskFingerprintParts option" where
  "parse_task_fingerprint key = Option.bind (strip_prefix ''v1|'' key) (\<lambda>rest.
     Option.bind (fingerprint_fields_of (split_on (\<lambda>c. c = CHR ''|'') rest)
       \<lparr>ff_agent = None, ff_mode = None, ff_text = None, ff_tools = []\<rparr>) (\<lambda>f.
     Option.bind (ff_agent f) (\<lambda>a. Option.bind (ff_mode f) (\<lambda>m. map_option (\<lambda>t.
       \<lparr>fp_agent_id = a, fp_prompt_mode = m, fp_text = t, fp_tools = ff_tools f\<rparr>) (ff_text f)))))"

definition task_fingerprint_matches_request :: "string \<Rightarrow> string \<Rightarrow> string \<Rightarrow> string \<Rightarrow> bool" where
  "task_fingerprint_matches_request key agent mode request = (case parse_task_fingerprint key of
      None \<Rightarrow> False
    | Some parts \<Rightarrow> fp_agent_id parts = normalize_token agent \<and> fp_prompt_mode parts = normalize_token mode \<and>
        fp_text parts = normalize_text request)"

section \<open>Traces, rewards and samples\<close>

record ExecutionTrace =
  et_request_id :: string
  et_session_id :: string
  et_user_id :: string
  et_agent_id :: string
  et_channel :: GatewayChannel
  et_prompt_mode :: string
  et_task_fingerprint :: TaskFingerprint
  et_user_input_summary :: string
  et_tool_names :: "string list"
  et_retrieved_corpora :: "string list"
  et_outcome :: TraceOutcome
  et_latency_ms :: u32
  et_response_summary :: string
  et_tool_runtime_policy :: "ToolRuntimePolicy option"
  et_recorded_at_us :: u64

datatype RewardKind = RewardAccepted | RewardRejected | RewardEdited | RewardRetried | OverrideApplied

type_synonym i32 = "32 word"

record RewardEvent =
  re_event_id :: string
  re_request_id :: string
  re_session_id :: string
  re_kind :: RewardKind
  re_value :: i32
  re_notes :: "string option"
  re_recorded_at_us :: u64

record ReplaySample =
  rp_trace :: ExecutionTrace
  rp_rewards :: "RewardEvent list"
  rp_reward_score :: i32

record FingerprintEvaluationSummary =
  fe_task_fingerprint :: string
  fe_trace_count :: u32
  fe_success_count :: u32
  fe_approval_required_count :: u32
  fe_clarification_count :: u32
  fe_failure_count :: u32
  fe_cumulative_reward :: i32
  fe_latest_recorded_at_us :: u64

record FingerprintCluster =
  fc_summary :: FingerprintEvaluationSummary
  fc_top_agents :: "string list"
  fc_top_prompt_modes :: "string list"

datatype CandidateArtifactKind = PromptCandidate | MacroCandidate | WasmCandidate

datatype CandidateArtifactStatus = ProposedCandidate | EvaluatingCandidate | PromotedCandidate | RejectedCandidate

record CandidateArtifactRecord =
  ca_candidate_id :: string
  ca_task_fingerprint :: string
  ca_kind :: CandidateArtifactKind
  ca_status :: CandidateArtifactStatus
  ca_title :: string
  ca_summary :: string
  ca_payload_json :: string
  ca_created_at_us :: u64
  ca_updated_at_us :: u64

record CandidateEvaluationRun =
  ce_run_id :: string
  ce_candidate_id :: string
  ce_task_fingerprint :: string
  ce_sample_count :: u32
  ce_score :: i32
  ce_passed :: bool
  ce_notes :: string
  ce_created_at_us :: u64

datatype CandidatePromotionAction = Promote | Rollback

datatype CandidatePromotionStatus = AppliedPromotion | BlockedPromotion

record CandidatePromotionRecord =
  pr_promotion_id :: string
  pr_candidate_id :: string
  pr_task_fingerprint :: string
  pr_action :: CandidatePromotionAction
  pr_status :: CandidatePromotionStatus
  pr_requires_human_approval :: bool
  pr_approved_by :: "string option"
  pr_notes :: string
  pr_created_at_us :: u64

datatype SelectorModelKind = RouterHint | ToolRanker

record SelectorModelRecord =
  sm_model_id :: string
  sm_task_fingerprint :: string
  sm_kind :: SelectorModelKind
  sm_payload_json :: string
  sm_created_at_us :: u64
  sm_updated_at_us :: u64

datatype LearningDerivativeKind = CandidateSynthesis | PromptCompile | MacroCompile | WasmCompile | SelectorSynthesis
  | PromotionEvent | RollbackEvent

record LearningDerivativeEvent =
  ld_event_id :: string
  ld_task_fingerprint :: string
  ld_kind :: LearningDerivativeKind
  ld_artifact_id :: string
  ld_notes :: string
  ld_created_at_us :: u64

section \<open>Candidates\<close>

definition fingerprint_is_stable_workflow :: "FingerprintEvaluationSummary \<Rightarrow> bool" where
  "fingerprint_is_stable_workflow s =
    (if fe_trace_count s < 3 then False else if 0 < fe_failure_count s then False
     else if 0 < fe_clarification_count s then False
     else 2 \<le> fe_success_count s \<and> 0 \<le> sint (fe_cumulative_reward s))"

definition show_int :: "int \<Rightarrow> string" where
  "show_int n = (if n < 0 then CHR ''-'' # show_nat (nat (- n)) else show_nat (nat n))"

abbreviation json_u32 :: "u32 \<Rightarrow> json" where
  "json_u32 n \<equiv> JNumber (show_nat (unat n))"

abbreviation json_i32 :: "i32 \<Rightarrow> json" where
  "json_i32 n \<equiv> JNumber (show_int (sint n))"

abbreviation json_strings :: "string list \<Rightarrow> json" where
  "json_strings xs \<equiv> JArray (map JString xs)"

definition nonempty_tokens :: "string list \<Rightarrow> string list" where
  "nonempty_tokens xs = btree_set (filter (\<lambda>t. t \<noteq> []) (map normalize_token xs))"

definition synthesize_candidate_for_cluster ::
  "(json \<Rightarrow> string) \<Rightarrow> FingerprintCluster \<Rightarrow> ReplaySample list \<Rightarrow> u64 \<Rightarrow> CandidateArtifactRecord option" where
  "synthesize_candidate_for_cluster json_text cluster samples now =
    (let s = fc_summary cluster in
     if \<not> fingerprint_is_stable_workflow s then None
     else
       let tools = nonempty_tokens (concat (map (\<lambda>x. et_tool_names (rp_trace x)) samples));
           corpora = nonempty_tokens (concat (map (\<lambda>x. et_retrieved_corpora (rp_trace x)) samples));
           inputs = map (\<lambda>x. et_user_input_summary (rp_trace x)) (take 3 samples);
           kind = (if tools = [] then PromptCandidate else MacroCandidate) in
       Some \<lparr>ca_candidate_id = (if tools = [] then ''prompt:'' else ''macro:'') @ fe_task_fingerprint s,
         ca_task_fingerprint = fe_task_fingerprint s, ca_kind = kind, ca_status = ProposedCandidate,
         ca_title = (if tools = [] then ''Prompt optimization candidate'' else ''Workflow macro candidate''),
         ca_summary = (if tools = []
           then ''Stable repeated task with '' @ show_nat (unat (fe_success_count s)) @
             '' successful traces and no tool usage; optimize prompt selection and examples.''
           else ''Stable repeated workflow with tools ['' @ join_with '','' tools @
             '']; compile into a reusable deterministic macro.''),
         ca_payload_json = json_text (JObject [(''top_agents'', json_strings (fc_top_agents cluster)),
           (''top_prompt_modes'', json_strings (fc_top_prompt_modes cluster)), (''tools'', json_strings tools),
           (''retrieved_corpora'', json_strings corpora), (''example_inputs'', json_strings inputs),
           (''trace_count'', json_u32 (fe_trace_count s)), (''success_count'', json_u32 (fe_success_count s)),
           (''cumulative_reward'', json_i32 (fe_cumulative_reward s))]),
         ca_created_at_us = now, ca_updated_at_us = now\<rparr>)"

definition trace_succeeded :: "ReplaySample \<Rightarrow> bool" where
  "trace_succeeded x \<longleftrightarrow> et_outcome (rp_trace x) = TraceSucceeded"

definition rewarded :: "ReplaySample \<Rightarrow> bool" where
  "rewarded x \<longleftrightarrow> trace_succeeded x \<and> 0 < sint (rp_reward_score x)"

definition uses_tools :: "ReplaySample \<Rightarrow> bool" where
  "uses_tools x \<longleftrightarrow> et_tool_names (rp_trace x) \<noteq> []"

definition sequence_is_deterministic :: "ReplaySample list \<Rightarrow> bool" where
  "sequence_is_deterministic samples =
    (case map (\<lambda>x. et_tool_names (rp_trace x)) (filter (\<lambda>x. rewarded x \<and> uses_tools x) samples) of
       [] \<Rightarrow> False
     | s # ss \<Rightarrow> foldl (\<lambda>left right. if left = right then left else []) s ss \<noteq> [])"

definition evaluate_candidate_against_replay :: "CandidateArtifactRecord \<Rightarrow> ReplaySample list \<Rightarrow> u64 \<Rightarrow> CandidateEvaluationRun" where
  "evaluate_candidate_against_replay c samples now =
    (let sample_count = of_nat (length samples) :: u32;
         success_count = of_nat (length (filter trace_succeeded samples)) :: i32;
         reward_total = sum_list (map rp_reward_score samples);
         tool_heavy = of_nat (length (filter uses_tools samples)) :: i32;
         deterministic = sequence_is_deterministic samples;
         success_component = (if sample_count = 0 then 0
           else word_of_int (sint (success_count * 100) sdiv sint sample_count) :: i32);
         reward_component = reward_total * 10;
         fit_component = (case ca_kind c of
             PromptCandidate \<Rightarrow> if tool_heavy = 0 then 20 else - 20
           | MacroCandidate \<Rightarrow> if 0 < sint tool_heavy then 20 else - 20
           | WasmCandidate \<Rightarrow> if 0 < sint tool_heavy \<and> 5 \<le> sample_count \<and> deterministic then 20 else - 40);
         score = success_component + reward_component + fit_component;
         passed = (case ca_kind c of
             WasmCandidate \<Rightarrow> 5 \<le> sample_count \<and> deterministic \<and> success_count = sample_count \<and> 90 \<le> sint score
           | _ \<Rightarrow> 3 \<le> sample_count \<and> 70 \<le> sint score) in
     \<lparr>ce_run_id = ''eval:'' @ ca_candidate_id c @ '':'' @ show_nat (unat now), ce_candidate_id = ca_candidate_id c,
      ce_task_fingerprint = ca_task_fingerprint c, ce_sample_count = sample_count, ce_score = score, ce_passed = passed,
      ce_notes = ''success_component='' @ show_int (sint success_component) @ '' reward_component='' @
        show_int (sint reward_component) @ '' fit_component='' @ show_int (sint fit_component) @ '' tool_heavy_count='' @
        show_int (sint tool_heavy) @ '' deterministic_sequence='' @ (if deterministic then ''true'' else ''false''),
      ce_created_at_us = now\<rparr>)"

definition candidate_requires_human_approval :: "CandidateArtifactRecord \<Rightarrow> AgentCapabilityProfile list \<Rightarrow> bool" where
  "candidate_requires_human_approval c profiles \<longleftrightarrow> ca_kind c = WasmCandidate \<or>
     list_ex (\<lambda>p. cp_requires_elevation p \<or> cp_side_effect_level p = PrivilegedEffect) profiles"

definition build_candidate_promotion_record :: "CandidateArtifactRecord \<Rightarrow> CandidateEvaluationRun option \<Rightarrow>
    AgentCapabilityProfile list \<Rightarrow> CandidatePromotionAction \<Rightarrow> string option \<Rightarrow> u64 \<Rightarrow> CandidatePromotionRecord" where
  "build_candidate_promotion_record c latest profiles action approved_by now =
    (let approval = candidate_requires_human_approval c profiles;
         (status, notes) = (case action of
             Rollback \<Rightarrow> (AppliedPromotion, ''rollback recorded'')
           | Promote \<Rightarrow>
               if \<not> (case latest of Some run \<Rightarrow> ce_passed run | None \<Rightarrow> False)
               then (BlockedPromotion, ''latest evaluation did not pass'')
               else if approval \<and> approved_by = None
               then (BlockedPromotion, ''human approval required for privileged promotion'')
               else (AppliedPromotion, ''promotion applied'')) in
     \<lparr>pr_promotion_id = (case action of Promote \<Rightarrow> ''promote'' | Rollback \<Rightarrow> ''rollback'') @ '':'' @ ca_candidate_id c @
        '':'' @ show_nat (unat now),
      pr_candidate_id = ca_candidate_id c, pr_task_fingerprint = ca_task_fingerprint c, pr_action = action,
      pr_status = status, pr_requires_human_approval = approval, pr_approved_by = approved_by, pr_notes = notes,
      pr_created_at_us = now\<rparr>)"

section \<open>Selector models and compilation data\<close>

text \<open>\<open>max_by\<close> takes the last of the greatest elements; the entries of a \<open>BTreeMap\<close> of counts come in
  the order of their keys.\<close>

fun last_max :: "('a \<Rightarrow> 'o::linorder) \<Rightarrow> 'a list \<Rightarrow> 'a option" where
  "last_max f [] = None"
| "last_max f (x # xs) = Some (foldl (\<lambda>best y. if f best \<le> f y then y else best) x xs)"

definition counts :: "string list \<Rightarrow> (string \<times> nat) list" where
  "counts xs = map (\<lambda>k. (k, count_list xs k)) (btree_set xs)"

definition train_selector_models_for_samples ::
  "(json \<Rightarrow> string) \<Rightarrow> string \<Rightarrow> ReplaySample list \<Rightarrow> u64 \<Rightarrow> SelectorModelRecord list" where
  "train_selector_models_for_samples json_text fingerprint samples now =
    (let accepted = filter rewarded samples;
         tool_counts = counts (concat (map (\<lambda>x. map normalize_token (et_tool_names (rp_trace x))) accepted));
         ranked = sort_key (\<lambda>(k, n). (- int n, k)) tool_counts;
         model = (\<lambda>prefix kind payload. \<lparr>sm_model_id = prefix @ fingerprint, sm_task_fingerprint = fingerprint, sm_kind = kind,
           sm_payload_json = json_text payload, sm_created_at_us = now, sm_updated_at_us = now\<rparr>) in
     if accepted = [] then []
     else
       (case last_max snd (counts (map (\<lambda>x. et_agent_id (rp_trace x)) accepted)) of
          Some (agent, n) \<Rightarrow> [model ''router_hint:'' RouterHint
            (JObject [(''agent_id'', JString agent), (''support'', JNumber (show_nat n))])]
        | None \<Rightarrow> []) @
       (if tool_counts = [] then [] else [model ''tool_ranker:'' ToolRanker
          (JObject [(''tools'', JArray (map (\<lambda>(k, n). JObject [(''name'', JString k), (''count'', JNumber (show_nat n))]) ranked))])]))"

record PromptOptimizationExample =
  pe_user_input_summary :: string
  pe_response_summary :: string
  pe_retrieved_corpora :: "string list"
  pe_reward_score :: i32

record PromptOptimizationDataset =
  pd_task_fingerprint :: string
  pd_agent_id :: string
  pd_prompt_mode :: string
  pd_examples :: "PromptOptimizationExample list"
  pd_success_count :: u32
  pd_cumulative_reward :: i32

record MacroWorkflowExample =
  me_user_input_summary :: string
  me_response_summary :: string
  me_tool_names :: "string list"
  me_reward_score :: i32

record MacroCompilationDataset =
  md_task_fingerprint :: string
  md_agent_id :: string
  md_prompt_mode :: string
  md_dominant_tool_sequence :: "string list"
  md_examples :: "MacroWorkflowExample list"
  md_success_count :: u32
  md_cumulative_reward :: i32

record WasmCompilationDataset =
  wd_task_fingerprint :: string
  wd_agent_id :: string
  wd_prompt_mode :: string
  wd_deterministic_tool_sequence :: "string list"
  wd_example_inputs :: "string list"
  wd_success_count :: u32
  wd_cumulative_reward :: i32

definition build_prompt_optimization_dataset :: "string \<Rightarrow> ReplaySample list \<Rightarrow> PromptOptimizationDataset option" where
  "build_prompt_optimization_dataset fingerprint samples =
    (let accepted = filter (\<lambda>x. rewarded x \<and> \<not> uses_tools x) samples in
     if length accepted < 2 then None
     else Some \<lparr>pd_task_fingerprint = fingerprint, pd_agent_id = et_agent_id (rp_trace (hd accepted)),
       pd_prompt_mode = et_prompt_mode (rp_trace (hd accepted)),
       pd_examples = map (\<lambda>x. \<lparr>pe_user_input_summary = et_user_input_summary (rp_trace x),
         pe_response_summary = et_response_summary (rp_trace x), pe_retrieved_corpora = et_retrieved_corpora (rp_trace x),
         pe_reward_score = rp_reward_score x\<rparr>) (take 5 accepted),
       pd_success_count = of_nat (length accepted), pd_cumulative_reward = sum_list (map rp_reward_score accepted)\<rparr>)"

definition candidate_from_dataset :: "string \<Rightarrow> CandidateArtifactKind \<Rightarrow> string \<Rightarrow> string \<Rightarrow> string \<Rightarrow> string \<Rightarrow> u64 \<Rightarrow>
    CandidateArtifactRecord" where
  "candidate_from_dataset prefix kind fingerprint title summary payload now =
     \<lparr>ca_candidate_id = prefix @ fingerprint, ca_task_fingerprint = fingerprint, ca_kind = kind, ca_status = ProposedCandidate,
      ca_title = title, ca_summary = summary, ca_payload_json = payload, ca_created_at_us = now, ca_updated_at_us = now\<rparr>"

definition compile_prompt_candidate_from_dataset ::
  "(json \<Rightarrow> string) \<Rightarrow> PromptOptimizationDataset \<Rightarrow> u64 \<Rightarrow> CandidateArtifactRecord" where
  "compile_prompt_candidate_from_dataset json_text d now = candidate_from_dataset ''prompt:'' PromptCandidate
     (pd_task_fingerprint d) ''Prompt optimization candidate''
     (''Compiled prompt dataset with '' @ show_nat (unat (pd_success_count d)) @
       '' accepted prompt-only traces for agent '' @ CHR 0x27 # pd_agent_id d @ CHR 0x27 # '' in mode '' @
       CHR 0x27 # pd_prompt_mode d @ CHR 0x27 # ''.'')
     (json_text (JObject [(''agent_id'', JString (pd_agent_id d)), (''prompt_mode'', JString (pd_prompt_mode d)),
       (''example_inputs'', json_strings (map pe_user_input_summary (pd_examples d))),
       (''response_patterns'', json_strings (map pe_response_summary (pd_examples d))),
       (''retrieved_corpora'', json_strings (btree_set (concat (map pe_retrieved_corpora (pd_examples d))))),
       (''success_count'', json_u32 (pd_success_count d)), (''cumulative_reward'', json_i32 (pd_cumulative_reward d)),
       (''compiled_from'', JString ''prompt_optimization_dataset'')])) now"

text \<open>The most frequent sequence of tools, counted and split again as a text.\<close>

definition dominant_tool_sequence :: "ReplaySample list \<Rightarrow> string list" where
  "dominant_tool_sequence accepted =
    (case last_max (\<lambda>(k, n). (n, k)) (counts (map (\<lambda>x. join_with ''>'' (et_tool_names (rp_trace x))) accepted)) of
       Some (sequence, n) \<Rightarrow> filter (\<lambda>t. t \<noteq> []) (split_on (\<lambda>c. c = CHR ''>'') sequence)
     | None \<Rightarrow> [])"

definition build_macro_compilation_dataset :: "string \<Rightarrow> ReplaySample list \<Rightarrow> MacroCompilationDataset option" where
  "build_macro_compilation_dataset fingerprint samples =
    (let accepted = filter (\<lambda>x. rewarded x \<and> uses_tools x) samples in
     if length accepted < 2 then None
     else Some \<lparr>md_task_fingerprint = fingerprint, md_agent_id = et_agent_id (rp_trace (hd accepted)),
       md_prompt_mode = et_prompt_mode (rp_trace (hd accepted)), md_dominant_tool_sequence = dominant_tool_sequence accepted,
       md_examples = map (\<lambda>x. \<lparr>me_user_input_summary = et_user_input_summary (rp_trace x),
         me_response_summary = et_response_summary (rp_trace x), me_tool_names = et_tool_names (rp_trace x),
         me_reward_score = rp_reward_score x\<rparr>) (take 5 accepted),
       md_success_count = of_nat (length accepted), md_cumulative_reward = sum_list (map rp_reward_score accepted)\<rparr>)"

definition compile_macro_candidate_from_dataset ::
  "(json \<Rightarrow> string) \<Rightarrow> MacroCompilationDataset \<Rightarrow> u64 \<Rightarrow> CandidateArtifactRecord" where
  "compile_macro_candidate_from_dataset json_text d now = candidate_from_dataset ''macro:'' MacroCandidate
     (md_task_fingerprint d) ''Workflow macro candidate''
     (''Compiled workflow macro with '' @ show_nat (unat (md_success_count d)) @
       '' accepted traces and dominant tool sequence ['' @ join_with '','' (md_dominant_tool_sequence d) @ ''].'')
     (json_text (JObject [(''agent_id'', JString (md_agent_id d)), (''prompt_mode'', JString (md_prompt_mode d)),
       (''tools'', json_strings (md_dominant_tool_sequence d)),
       (''example_inputs'', json_strings (map me_user_input_summary (md_examples d))),
       (''response_patterns'', json_strings (map me_response_summary (md_examples d))),
       (''success_count'', json_u32 (md_success_count d)), (''cumulative_reward'', json_i32 (md_cumulative_reward d)),
       (''compiled_from'', JString ''macro_compilation_dataset'')])) now"

definition build_wasm_compilation_dataset :: "string \<Rightarrow> ReplaySample list \<Rightarrow> WasmCompilationDataset option" where
  "build_wasm_compilation_dataset fingerprint samples =
    (let accepted = filter (\<lambda>x. rewarded x \<and> uses_tools x) samples in
     if length accepted < 5 then None
     else let first = et_tool_names (rp_trace (hd accepted)) in
       if first = [] \<or> list_ex (\<lambda>x. et_tool_names (rp_trace x) \<noteq> first) accepted then None
       else Some \<lparr>wd_task_fingerprint = fingerprint, wd_agent_id = et_agent_id (rp_trace (hd accepted)),
         wd_prompt_mode = et_prompt_mode (rp_trace (hd accepted)), wd_deterministic_tool_sequence = first,
         wd_example_inputs = map (\<lambda>x. et_user_input_summary (rp_trace x)) (take 5 accepted),
         wd_success_count = of_nat (length accepted), wd_cumulative_reward = sum_list (map rp_reward_score accepted)\<rparr>)"

definition compile_wasm_candidate_from_dataset ::
  "(json \<Rightarrow> string) \<Rightarrow> WasmCompilationDataset \<Rightarrow> u64 \<Rightarrow> CandidateArtifactRecord" where
  "compile_wasm_candidate_from_dataset json_text d now = candidate_from_dataset ''wasm:'' WasmCandidate
     (wd_task_fingerprint d) ''Deterministic Wasm candidate''
     (''Deterministic workflow with '' @ show_nat (unat (wd_success_count d)) @ '' accepted traces and fixed tool sequence ['' @
       join_with '','' (wd_deterministic_tool_sequence d) @ '']. Requires strict eval and approval before activation.'')
     (json_text (JObject [(''agent_id'', JString (wd_agent_id d)), (''prompt_mode'', JString (wd_prompt_mode d)),
       (''tools'', json_strings (wd_deterministic_tool_sequence d)), (''example_inputs'', json_strings (wd_example_inputs d)),
       (''success_count'', json_u32 (wd_success_count d)), (''cumulative_reward'', json_i32 (wd_cumulative_reward d)),
       (''compiled_from'', JString ''wasm_compilation_dataset''),
       (''activation'', JString ''blocked_until_manual_runtime_support'')])) now"

section \<open>The tables\<close>

text \<open>\<open>deferred\<close> is the queue of the writer thread; \<open>learning_enabled\<close> is the runtime budget's.\<close>

datatype deferred_write = WriteTrace ExecutionTrace | WriteDerivative LearningDerivativeEvent

record learning_store =
  traces :: "ExecutionTrace list"
  rewards :: "RewardEvent list"
  candidates :: "CandidateArtifactRecord list"
  eval_runs :: "CandidateEvaluationRun list"
  promotions :: "CandidatePromotionRecord list"
  selector_models :: "SelectorModelRecord list"
  derivatives :: "LearningDerivativeEvent list"
  deferred :: "deferred_write list"
  learning_enabled :: bool

definition record_trace_immediate :: "ExecutionTrace \<Rightarrow> learning_store \<Rightarrow> learning_store" where
  "record_trace_immediate t st = st\<lparr>traces := upsert_by et_request_id t (traces st)\<rparr>"

text \<open>The writer ignores an event whose id is taken.\<close>

definition append_derivative_immediate :: "LearningDerivativeEvent \<Rightarrow> learning_store \<Rightarrow> learning_store" where
  "append_derivative_immediate e st =
     (if has_key ld_event_id (ld_event_id e) (derivatives st) then st else st\<lparr>derivatives := derivatives st @ [e]\<rparr>)"

definition record_execution_trace :: "ExecutionTrace \<Rightarrow> learning_store \<Rightarrow> learning_store" where
  "record_execution_trace t st = (if \<not> learning_enabled st then st else st\<lparr>deferred := deferred st @ [WriteTrace t]\<rparr>)"

definition append_learning_derivative_event :: "LearningDerivativeEvent \<Rightarrow> learning_store \<Rightarrow> learning_store" where
  "append_learning_derivative_event e st =
     (if \<not> learning_enabled st then st else st\<lparr>deferred := deferred st @ [WriteDerivative e]\<rparr>)"

definition run_deferred_writer :: "learning_store \<Rightarrow> learning_store" where
  "run_deferred_writer st = (case deferred st of
      [] \<Rightarrow> st
    | WriteTrace t # ws \<Rightarrow> record_trace_immediate t (st\<lparr>deferred := ws\<rparr>)
    | WriteDerivative e # ws \<Rightarrow> append_derivative_immediate e (st\<lparr>deferred := ws\<rparr>))"

definition list_traces :: "(ExecutionTrace \<Rightarrow> bool) \<Rightarrow> learning_store \<Rightarrow> ExecutionTrace list" where
  "list_traces P st = sort_key (\<lambda>t. sint (et_recorded_at_us t)) (filter P (traces st))"

definition list_execution_traces_by_fingerprint :: "string \<Rightarrow> learning_store \<Rightarrow> ExecutionTrace list" where
  "list_execution_traces_by_fingerprint f = list_traces (\<lambda>t. tf_key (et_task_fingerprint t) = f)"

definition list_execution_traces_by_session :: "string \<Rightarrow> learning_store \<Rightarrow> ExecutionTrace list" where
  "list_execution_traces_by_session s = list_traces (\<lambda>t. et_session_id t = s)"

definition list_execution_traces_by_session_and_fingerprint :: "string \<Rightarrow> string \<Rightarrow> learning_store \<Rightarrow> ExecutionTrace list" where
  "list_execution_traces_by_session_and_fingerprint s f =
     list_traces (\<lambda>t. et_session_id t = s \<and> tf_key (et_task_fingerprint t) = f)"

definition record_reward_event :: "RewardEvent \<Rightarrow> learning_store \<Rightarrow> learning_store" where
  "record_reward_event r st = st\<lparr>rewards := upsert_by re_event_id r (rewards st)\<rparr>"

definition list_reward_events_for_request :: "string \<Rightarrow> learning_store \<Rightarrow> RewardEvent list" where
  "list_reward_events_for_request k st =
     sort_key (\<lambda>r. sint (re_recorded_at_us r)) (filter (\<lambda>r. re_request_id r = k) (rewards st))"

text \<open>\<open>DELETE ... IN (SELECT ... ORDER BY t DESC LIMIT -1 OFFSET n)\<close>.\<close>

definition keep_latest :: "('r \<Rightarrow> int) \<Rightarrow> ('r \<Rightarrow> 'k) \<Rightarrow> nat \<Rightarrow> 'r list \<Rightarrow> 'r list" where
  "keep_latest time key n rows = (let gone = key ` set (drop n (sort_key (\<lambda>r. - time r) rows)) in
     filter (\<lambda>r. key r \<notin> gone) rows)"

definition prune_learning_records :: "u32 \<Rightarrow> u32 \<Rightarrow> u32 \<Rightarrow> learning_store \<Rightarrow> learning_store" where
  "prune_learning_records max_traces max_rewards max_derivatives st =
     st\<lparr>traces := keep_latest (\<lambda>t. sint (et_recorded_at_us t)) et_request_id (unat max_traces) (traces st),
        rewards := keep_latest (\<lambda>r. sint (re_recorded_at_us r)) re_event_id (unat max_rewards) (rewards st),
        derivatives := (if 0 < max_derivatives
          then keep_latest (\<lambda>e. sint (ld_created_at_us e)) ld_event_id (unat max_derivatives) (derivatives st)
          else derivatives st)\<rparr>"

definition build_replay_samples_for_fingerprint :: "string \<Rightarrow> learning_store \<Rightarrow> ReplaySample list" where
  "build_replay_samples_for_fingerprint f st = map (\<lambda>t.
     let rs = list_reward_events_for_request (et_request_id t) st in
     \<lparr>rp_trace = t, rp_rewards = rs, rp_reward_score = sum_list (map re_value rs)\<rparr>) (list_execution_traces_by_fingerprint f st)"

definition add_sample :: "ReplaySample \<Rightarrow> FingerprintEvaluationSummary \<Rightarrow> FingerprintEvaluationSummary" where
  "add_sample x s =
    (case et_outcome (rp_trace x) of
       TraceSucceeded \<Rightarrow> s\<lparr>fe_success_count := fe_success_count s + 1\<rparr>
     | TraceApprovalRequired \<Rightarrow> s\<lparr>fe_approval_required_count := fe_approval_required_count s + 1\<rparr>
     | ClarificationRequired \<Rightarrow> s\<lparr>fe_clarification_count := fe_clarification_count s + 1\<rparr>
     | TraceFailed \<Rightarrow> s\<lparr>fe_failure_count := fe_failure_count s + 1\<rparr>)
    \<lparr>fe_cumulative_reward := fe_cumulative_reward s + rp_reward_score x,
     fe_latest_recorded_at_us := max (fe_latest_recorded_at_us s) (et_recorded_at_us (rp_trace x))\<rparr>"

definition summarize_fingerprint_for_evaluation :: "string \<Rightarrow> learning_store \<Rightarrow> FingerprintEvaluationSummary option" where
  "summarize_fingerprint_for_evaluation f st = (let samples = build_replay_samples_for_fingerprint f st in
     if samples = [] then None
     else Some (fold add_sample samples \<lparr>fe_task_fingerprint = f, fe_trace_count = of_nat (length samples),
       fe_success_count = 0, fe_approval_required_count = 0, fe_clarification_count = 0, fe_failure_count = 0,
       fe_cumulative_reward = 0, fe_latest_recorded_at_us = 0\<rparr>))"

text \<open>\<open>SELECT DISTINCT task_fingerprint ... ORDER BY recorded_at_us\<close>: SQL leaves open by which of its rows a
  fingerprint is placed; the model takes the earliest.\<close>

definition list_fingerprint_clusters :: "learning_store \<Rightarrow> FingerprintCluster list" where
  "list_fingerprint_clusters st = concat (map (\<lambda>f. case summarize_fingerprint_for_evaluation f st of
      None \<Rightarrow> []
    | Some s \<Rightarrow> [\<lparr>fc_summary = s,
        fc_top_agents = btree_set (map et_agent_id (list_execution_traces_by_fingerprint f st)),
        fc_top_prompt_modes = btree_set (map et_prompt_mode (list_execution_traces_by_fingerprint f st))\<rparr>])
    (rev (remdups (map (\<lambda>t. tf_key (et_task_fingerprint t)) (rev (list_traces (\<lambda>_. True) st))))))"

definition upsert_candidate_artifact :: "CandidateArtifactRecord \<Rightarrow> learning_store \<Rightarrow> learning_store" where
  "upsert_candidate_artifact c st = st\<lparr>candidates := upsert_by ca_candidate_id c (candidates st)\<rparr>"

definition list_candidate_artifacts_for_fingerprint :: "string \<Rightarrow> learning_store \<Rightarrow> CandidateArtifactRecord list" where
  "list_candidate_artifacts_for_fingerprint f st =
     sort_key (\<lambda>c. sint (ca_updated_at_us c)) (filter (\<lambda>c. ca_task_fingerprint c = f) (candidates st))"

definition list_promoted_candidates_for_request :: "string \<Rightarrow> string \<Rightarrow> string \<Rightarrow> learning_store \<Rightarrow> CandidateArtifactRecord list" where
  "list_promoted_candidates_for_request agent mode request st =
     filter (\<lambda>c. task_fingerprint_matches_request (ca_task_fingerprint c) agent mode request)
       (sort_key (\<lambda>c. sint (ca_updated_at_us c)) (filter (\<lambda>c. ca_status c = PromotedCandidate) (candidates st)))"

definition upsert_selector_model :: "SelectorModelRecord \<Rightarrow> learning_store \<Rightarrow> learning_store" where
  "upsert_selector_model m st = st\<lparr>selector_models := upsert_by sm_model_id m (selector_models st)\<rparr>"

definition list_selector_models_for_request :: "string \<Rightarrow> string \<Rightarrow> string \<Rightarrow> learning_store \<Rightarrow> SelectorModelRecord list" where
  "list_selector_models_for_request agent mode request st =
     filter (\<lambda>m. task_fingerprint_matches_request (sm_task_fingerprint m) agent mode request)
       (sort_key (\<lambda>m. sint (sm_updated_at_us m)) (selector_models st))"

definition read_candidate_artifact :: "string \<Rightarrow> learning_store \<Rightarrow> (string, CandidateArtifactRecord) result" where
  "read_candidate_artifact k st = ok_or ''read candidate artifact failed: Query returned no rows''
     (find_by ca_candidate_id k (candidates st))"

definition append_candidate_evaluation_run :: "CandidateEvaluationRun \<Rightarrow> learning_store \<Rightarrow> (string, learning_store) result" where
  "append_candidate_evaluation_run r st =
     (if has_key ce_run_id (ce_run_id r) (eval_runs st)
      then Err ''write candidate evaluation run failed: UNIQUE constraint failed''
      else Ok (st\<lparr>eval_runs := eval_runs st @ [r]\<rparr>))"

definition list_candidate_evaluation_runs :: "string \<Rightarrow> learning_store \<Rightarrow> CandidateEvaluationRun list" where
  "list_candidate_evaluation_runs k st =
     sort_key (\<lambda>r. sint (ce_created_at_us r)) (filter (\<lambda>r. ce_candidate_id r = k) (eval_runs st))"

definition append_candidate_promotion_record :: "CandidatePromotionRecord \<Rightarrow> learning_store \<Rightarrow> (string, learning_store) result" where
  "append_candidate_promotion_record r st =
     (if has_key pr_promotion_id (pr_promotion_id r) (promotions st)
      then Err ''write candidate promotion record failed: UNIQUE constraint failed''
      else Ok (st\<lparr>promotions := promotions st @ [r]\<rparr>))"

definition list_candidate_promotion_records :: "string \<Rightarrow> learning_store \<Rightarrow> CandidatePromotionRecord list" where
  "list_candidate_promotion_records k st =
     sort_key (\<lambda>r. sint (pr_created_at_us r)) (filter (\<lambda>r. pr_candidate_id r = k) (promotions st))"

definition store_candidate :: "string \<Rightarrow> LearningDerivativeKind \<Rightarrow> u64 \<Rightarrow> CandidateArtifactRecord \<Rightarrow> learning_store \<Rightarrow> learning_store" where
  "store_candidate prefix kind now c st = append_learning_derivative_event
     \<lparr>ld_event_id = prefix @ ca_candidate_id c @ '':'' @ show_nat (unat now), ld_task_fingerprint = ca_task_fingerprint c,
      ld_kind = kind, ld_artifact_id = ca_candidate_id c, ld_notes = ca_summary c, ld_created_at_us = now\<rparr>
     (upsert_candidate_artifact c st)"

definition cluster_samples :: "learning_store \<Rightarrow> (FingerprintCluster \<times> ReplaySample list) list" where
  "cluster_samples st = map (\<lambda>c. (c, build_replay_samples_for_fingerprint (fe_task_fingerprint (fc_summary c)) st))
     (list_fingerprint_clusters st)"

text \<open>Storing a candidate changes neither the traces nor the rewards that the next ones are made of.\<close>

definition synthesized_candidates :: "(json \<Rightarrow> string) \<Rightarrow> u64 \<Rightarrow> learning_store \<Rightarrow> CandidateArtifactRecord list" where
  "synthesized_candidates json_text now st =
     concat (map (\<lambda>(c, xs). case synthesize_candidate_for_cluster json_text c xs now of Some a \<Rightarrow> [a] | None \<Rightarrow> []) (cluster_samples st))"

definition synthesize_candidate_artifacts :: "(json \<Rightarrow> string) \<Rightarrow> u64 \<Rightarrow> learning_store \<Rightarrow> learning_store \<times> CandidateArtifactRecord list" where
  "synthesize_candidate_artifacts json_text now st = (let created = synthesized_candidates json_text now st in
     (fold (store_candidate ''derivative:candidate:'' CandidateSynthesis now) created st, created))"

definition build_prompt_optimization_datasets :: "u32 \<Rightarrow> learning_store \<Rightarrow> PromptOptimizationDataset list" where
  "build_prompt_optimization_datasets min_examples st = filter (\<lambda>d. min_examples \<le> pd_success_count d)
     (concat (map (\<lambda>(c, xs). case build_prompt_optimization_dataset (fe_task_fingerprint (fc_summary c)) xs of
        Some d \<Rightarrow> [d] | None \<Rightarrow> []) (cluster_samples st)))"

definition compile_prompt_optimization_candidates ::
  "(json \<Rightarrow> string) \<Rightarrow> u64 \<Rightarrow> u32 \<Rightarrow> learning_store \<Rightarrow> learning_store \<times> CandidateArtifactRecord list" where
  "compile_prompt_optimization_candidates json_text now min_examples st =
    (let created = map (\<lambda>d. compile_prompt_candidate_from_dataset json_text d now) (build_prompt_optimization_datasets min_examples st) in
     (fold (store_candidate ''derivative:prompt:'' PromptCompile now) created st, created))"

definition build_macro_compilation_datasets :: "u32 \<Rightarrow> learning_store \<Rightarrow> MacroCompilationDataset list" where
  "build_macro_compilation_datasets min_examples st = filter (\<lambda>d. min_examples \<le> md_success_count d)
     (concat (map (\<lambda>(c, xs). case build_macro_compilation_dataset (fe_task_fingerprint (fc_summary c)) xs of
        Some d \<Rightarrow> [d] | None \<Rightarrow> []) (cluster_samples st)))"

definition compile_macro_candidates ::
  "(json \<Rightarrow> string) \<Rightarrow> u64 \<Rightarrow> u32 \<Rightarrow> learning_store \<Rightarrow> learning_store \<times> CandidateArtifactRecord list" where
  "compile_macro_candidates json_text now min_examples st =
    (let created = map (\<lambda>d. compile_macro_candidate_from_dataset json_text d now) (build_macro_compilation_datasets min_examples st) in
     (fold (store_candidate ''derivative:macro:'' MacroCompile now) created st, created))"

definition build_wasm_compilation_datasets :: "u32 \<Rightarrow> learning_store \<Rightarrow> WasmCompilationDataset list" where
  "build_wasm_compilation_datasets min_examples st = filter (\<lambda>d. min_examples \<le> wd_success_count d)
     (concat (map (\<lambda>(c, xs). case build_wasm_compilation_dataset (fe_task_fingerprint (fc_summary c)) xs of
        Some d \<Rightarrow> [d] | None \<Rightarrow> []) (cluster_samples st)))"

definition compile_wasm_candidates ::
  "(json \<Rightarrow> string) \<Rightarrow> u64 \<Rightarrow> u32 \<Rightarrow> learning_store \<Rightarrow> learning_store \<times> CandidateArtifactRecord list" where
  "compile_wasm_candidates json_text now min_examples st =
    (let created = map (\<lambda>d. compile_wasm_candidate_from_dataset json_text d now) (build_wasm_compilation_datasets min_examples st) in
     (fold (store_candidate ''derivative:wasm:'' WasmCompile now) created st, created))"

fun selector_model_kind_name :: "SelectorModelKind \<Rightarrow> string" where
  "selector_model_kind_name RouterHint = ''router_hint''"
| "selector_model_kind_name ToolRanker = ''tool_ranker''"

definition store_selector_model :: "u64 \<Rightarrow> SelectorModelRecord \<Rightarrow> learning_store \<Rightarrow> learning_store" where
  "store_selector_model now m st = append_learning_derivative_event
     \<lparr>ld_event_id = ''derivative:selector:'' @ sm_model_id m @ '':'' @ show_nat (unat now),
      ld_task_fingerprint = sm_task_fingerprint m, ld_kind = SelectorSynthesis, ld_artifact_id = sm_model_id m,
      ld_notes = ''selector_kind='' @ selector_model_kind_name (sm_kind m), ld_created_at_us = now\<rparr> (upsert_selector_model m st)"

definition synthesize_selector_models ::
  "(json \<Rightarrow> string) \<Rightarrow> u64 \<Rightarrow> learning_store \<Rightarrow> learning_store \<times> SelectorModelRecord list" where
  "synthesize_selector_models json_text now st =
    (let models = concat (map (\<lambda>(c, xs). train_selector_models_for_samples json_text (fe_task_fingerprint (fc_summary c)) xs now)
       (cluster_samples st)) in
     (fold (store_selector_model now) models st, models))"

definition evaluate_candidate_artifact :: "string \<Rightarrow> u64 \<Rightarrow> learning_store \<Rightarrow> (string, learning_store \<times> CandidateEvaluationRun) result" where
  "evaluate_candidate_artifact k now st = and_then (read_candidate_artifact k st) (\<lambda>c.
     let run = evaluate_candidate_against_replay c (build_replay_samples_for_fingerprint (ca_task_fingerprint c) st) now in
     map_ok (\<lambda>st'. (st', run)) (append_candidate_evaluation_run run st))"

definition latest_evaluation :: "string \<Rightarrow> learning_store \<Rightarrow> CandidateEvaluationRun option" where
  "latest_evaluation k st = (let runs = list_candidate_evaluation_runs k st in if runs = [] then None else Some (last runs))"

definition apply_candidate_promotion :: "string \<Rightarrow> AgentCapabilityProfile list \<Rightarrow> string option \<Rightarrow> CandidatePromotionAction \<Rightarrow>
    u64 \<Rightarrow> learning_store \<Rightarrow> (string, learning_store \<times> CandidatePromotionRecord) result" where
  "apply_candidate_promotion k profiles approved_by action now st = and_then (read_candidate_artifact k st) (\<lambda>c.
     let r = build_candidate_promotion_record c (latest_evaluation k st) profiles action approved_by now in
     map_ok (\<lambda>st1.
       let st2 = (if pr_status r = AppliedPromotion
             then upsert_candidate_artifact (c\<lparr>ca_status := (case action of Promote \<Rightarrow> PromotedCandidate | Rollback \<Rightarrow> RejectedCandidate),
               ca_updated_at_us := now\<rparr>) st1
             else st1) in
       (append_learning_derivative_event \<lparr>ld_event_id = ''derivative:promotion:'' @ pr_promotion_id r @ '':'' @ show_nat (unat now),
          ld_task_fingerprint = pr_task_fingerprint r, ld_kind = (case action of Promote \<Rightarrow> PromotionEvent | Rollback \<Rightarrow> RollbackEvent),
          ld_artifact_id = pr_candidate_id r, ld_notes = pr_notes r, ld_created_at_us = now\<rparr> st2, r))
     (append_candidate_promotion_record r st))"

section \<open>What a request records\<close>

record LearningConfig =
  lc_enabled :: bool
  lc_sampling_percent :: u8
  lc_max_trace_rows :: u32
  lc_max_reward_rows :: u32
  lc_max_derivative_rows :: u32
  lc_redact_sensitive :: bool

definition should_sample_learning_record :: "u8 list \<Rightarrow> u8 \<Rightarrow> bool" where
  "should_sample_learning_record request_id percent =
    (if 100 \<le> percent then True else if percent = 0 then False
     else unat (hd request_id) mod 100 < unat percent)"

definition redact_learning_token :: "string \<Rightarrow> string" where
  "redact_learning_token token = (let t = trim_ws token in
     if contains_str ''@'' t \<and> contains_str ''.'' t then ''[redacted-email]''
     else if starts_with ''sk-'' t \<or> starts_with ''ghp_'' t \<or> starts_with ''xoxb-'' t \<or>
       24 \<le> length t \<and> list_all (\<lambda>c. is_alphanumeric c \<or> c = CHR ''_'' \<or> c = CHR ''-'') t then ''[redacted-secret]''
     else t)"

definition sanitize_learning_text :: "LearningConfig \<Rightarrow> string \<Rightarrow> string" where
  "sanitize_learning_text cfg text = (if \<not> lc_redact_sensitive cfg then text
     else join_with '' '' (map redact_learning_token (split_whitespace text)))"

definition truncate_trace_text :: "string \<Rightarrow> nat \<Rightarrow> string" where
  "truncate_trace_text text limit = take limit (trim_ws text)"

definition rag_labels :: "(string \<times> string) list" where
  "rag_labels = [(''Session Context:'', ''session''), (''Workspace Context:'', ''workspace''),
     (''Policy/Runtime Context:'', ''policy_runtime''), (''External Context:'', ''external''),
     (''Social Context:'', ''social''), (''Capability Index Context:'', ''capability_index''),
     (''Document Index Context:'', ''document_index'')]"

definition infer_rag_corpora_labels :: "string \<Rightarrow> string list" where
  "infer_rag_corpora_labels rag = map snd (filter (\<lambda>(needle, label). contains_str needle rag) rag_labels)"

fun trace_outcome_for_result :: "OrchestratorResult \<Rightarrow> TraceOutcome" where
  "trace_outcome_for_result (Completed _) = TraceSucceeded"
| "trace_outcome_for_result (AgentElevationRequired _ _) = TraceApprovalRequired"
| "trace_outcome_for_result (ToolApprovalRequired _ _) = TraceApprovalRequired"

fun trace_response_summary :: "OrchestratorResult \<Rightarrow> string" where
  "trace_response_summary (Completed text) = truncate_trace_text text 240"
| "trace_response_summary (AgentElevationRequired agent message) = truncate_trace_text message 240"
| "trace_response_summary (ToolApprovalRequired call pending) = ''approval required for tool '' @ tl_name call"

definition learn :: "(json \<Rightarrow> string) \<Rightarrow> LearningConfig \<Rightarrow> u64 \<Rightarrow> learning_store \<Rightarrow> learning_store" where
  "learn json_text cfg now st =
    (let st1 = prune_learning_records (lc_max_trace_rows cfg) (lc_max_reward_rows cfg) (lc_max_derivative_rows cfg) st;
         st2 = fst (synthesize_candidate_artifacts json_text now st1);
         st3 = fst (compile_prompt_optimization_candidates json_text now 2 st2);
         st4 = fst (compile_macro_candidates json_text now 2 st3);
         st5 = fst (compile_wasm_candidates json_text now 5 st4) in
     fst (synthesize_selector_models json_text now st5))"

text \<open>\<open>uuid_text\<close> is the textual form of a UUID.\<close>

definition learning_trace :: "(u8 list \<Rightarrow> string) \<Rightarrow> LearningConfig \<Rightarrow> AgentRequest \<Rightarrow> string \<Rightarrow> string \<Rightarrow> string \<Rightarrow> string list \<Rightarrow>
    OrchestratorResult \<Rightarrow> string \<Rightarrow> u64 \<Rightarrow> ExecutionTrace" where
  "learning_trace uuid_text cfg req agent mode text tools res rag now =
     \<lparr>et_request_id = uuid_text (rq_request_id req), et_session_id = uuid_text (rq_session_id req), et_user_id = rq_user_id req,
      et_agent_id = agent, et_channel = rq_channel req, et_prompt_mode = mode,
      et_task_fingerprint = from_parts agent mode text tools,
      et_user_input_summary = sanitize_learning_text cfg (truncate_trace_text text 240), et_tool_names = tools,
      et_retrieved_corpora = infer_rag_corpora_labels rag, et_outcome = trace_outcome_for_result res, et_latency_ms = 0,
      et_response_summary = sanitize_learning_text cfg (trace_response_summary res),
      et_tool_runtime_policy = rq_tool_runtime_policy req, et_recorded_at_us = now\<rparr>"

definition persist_learning_trace :: "(json \<Rightarrow> string) \<Rightarrow> (u8 list \<Rightarrow> string) \<Rightarrow> LearningConfig \<Rightarrow> AgentRequest \<Rightarrow> string \<Rightarrow> string \<Rightarrow>
    string \<Rightarrow> string list \<Rightarrow> OrchestratorResult \<Rightarrow> string \<Rightarrow> u64 \<Rightarrow> learning_store \<Rightarrow> learning_store" where
  "persist_learning_trace json_text uuid_text cfg req agent mode text tools res rag now st =
    (if \<not> lc_enabled cfg \<or> \<not> should_sample_learning_record (rq_request_id req) (lc_sampling_percent cfg) then st
     else learn json_text cfg now
       (record_execution_trace (learning_trace uuid_text cfg req agent mode text tools res rag now) st))"

fun reward_value :: "RewardKind \<Rightarrow> i32" where
  "reward_value RewardAccepted = 1"
| "reward_value RewardRejected = - 1"
| "reward_value RewardEdited = - 1"
| "reward_value RewardRetried = - 1"
| "reward_value OverrideApplied = 1"

definition record_learning_reward :: "(json \<Rightarrow> string) \<Rightarrow> (u8 list \<Rightarrow> string) \<Rightarrow> string \<Rightarrow> LearningConfig \<Rightarrow> u8 list \<Rightarrow> u8 list \<Rightarrow>
    RewardKind \<Rightarrow> string option \<Rightarrow> u64 \<Rightarrow> learning_store \<Rightarrow> learning_store" where
  "record_learning_reward json_text uuid_text event cfg request session kind notes now st =
    (if \<not> lc_enabled cfg \<or> \<not> should_sample_learning_record request (lc_sampling_percent cfg) then st
     else learn json_text cfg now (record_reward_event
       \<lparr>re_event_id = event, re_request_id = uuid_text request, re_session_id = uuid_text session, re_kind = kind,
        re_value = reward_value kind, re_notes = map_option (sanitize_learning_text cfg) notes, re_recorded_at_us = now\<rparr> st))"

definition maybe_record_retry_reward :: "(json \<Rightarrow> string) \<Rightarrow> (u8 list \<Rightarrow> string) \<Rightarrow> string \<Rightarrow> LearningConfig \<Rightarrow> AgentRequest \<Rightarrow> string \<Rightarrow>
    string \<Rightarrow> string \<Rightarrow> u64 \<Rightarrow> learning_store \<Rightarrow> learning_store" where
  "maybe_record_retry_reward json_text uuid_text event cfg req agent mode text now st =
    (let fingerprint = tf_key (from_parts agent mode text []);
         prior = list_execution_traces_by_session_and_fingerprint (uuid_text (rq_session_id req)) fingerprint st in
     if list_ex (\<lambda>t. et_request_id t \<noteq> uuid_text (rq_request_id req)) prior
     then record_learning_reward json_text uuid_text event cfg (rq_request_id req) (rq_session_id req) RewardRetried
       (Some (''repeated task fingerprint '' @ fingerprint)) now st
     else st)"

end
