(* ===== verification/LearningLaws.thy ===== *)
theory LearningLaws
  imports Learning
begin

text \<open>What the learning pipeline guarantees, and where it works against itself.\<close>

section \<open>Fingerprints\<close>

lemma lower_alphanumeric: "is_alphanumeric (lower_char c) \<longleftrightarrow> is_alphanumeric c"
proof -
  have "of_char (char_of n :: char) = (n :: nat)" if "n < 256" for n
    using that by (simp add: of_char_of)
  then show ?thesis by (auto simp: lower_char_def is_alphanumeric_def is_upper_def is_digit_def is_lower_def char_code_def)
qed

lemma normalize_loop_chars: "c \<in> set (normalize_loop sep s) \<Longrightarrow> is_alphanumeric c \<or> c = CHR '' ''"
  by (induction sep s rule: normalize_loop.induct) (auto simp: Let_def split: if_splits)

lemma normalize_text_chars: "c \<in> set (normalize_text s) \<Longrightarrow> is_alphanumeric c \<or> c = CHR '' ''"
proof -
  assume "c \<in> set (normalize_text s)"
  then have "c \<in> set (normalize_loop False s)"
    using set_trim_pred [of is_whitespace "normalize_loop False s"] by (auto simp: normalize_text_def trim_ws_pred)
  then show ?thesis by (rule normalize_loop_chars)
qed

lemma normalize_token_chars: "c \<in> set (normalize_token s) \<Longrightarrow> is_alphanumeric c \<or> c = CHR ''_''"
  using normalize_text_chars by (fastforce simp: normalize_token_def)

text \<open>The separators of a fingerprint do not occur in its parts.\<close>

lemma separators_not_alphanumeric:
  "\<not> is_alphanumeric (CHR ''|'')" "\<not> is_alphanumeric (CHR ''='')" "\<not> is_alphanumeric (CHR '','')"
  by (simp_all add: is_alphanumeric_def is_digit_def is_upper_def is_lower_def char_code_def)

lemma parts_plain:
  "c \<in> set (normalize_token s) \<Longrightarrow> c \<noteq> CHR ''|'' \<and> c \<noteq> CHR ''='' \<and> c \<noteq> CHR '',''"
  "c \<in> set (normalize_text s) \<Longrightarrow> c \<noteq> CHR ''|'' \<and> c \<noteq> CHR ''='' \<and> c \<noteq> CHR '',''"
  using normalize_token_chars [of c s] normalize_text_chars [of c s] separators_not_alphanumeric by auto

lemma set_fingerprint_tools: "t \<in> set (fingerprint_tools tools) \<Longrightarrow> t \<noteq> [] \<and> (\<exists>s. t = normalize_token s)"
  by (auto simp: fingerprint_tools_def btree_set_def)

lemma set_join: "c \<in> set (join_with [d] ls) \<Longrightarrow> c = d \<or> (\<exists>l\<in>set ls. c \<in> set l)"
  by (induction "[d]" ls rule: join_with.induct) auto

lemma tools_roundtrip: "filter (\<lambda>t. t \<noteq> []) (split_on (\<lambda>c. c = CHR '','') (join_with '','' (fingerprint_tools tools))) = fingerprint_tools tools"
proof (cases "fingerprint_tools tools = []")
  case False
  have "\<forall>t\<in>set (fingerprint_tools tools). \<forall>c\<in>set t. c \<noteq> CHR '',''"
    using set_fingerprint_tools parts_plain(1) by blast
  with False have "split_on (\<lambda>c. c = CHR '','') (join_with '','' (fingerprint_tools tools)) = fingerprint_tools tools"
    by (intro split_on_join) auto
  then show ?thesis using set_fingerprint_tools by (auto simp: filter_id_conv)
qed simp

lemma split_on_four:
  assumes "\<forall>c\<in>set a. \<not> p c" "\<forall>c\<in>set b. \<not> p c" "\<forall>c\<in>set d. \<not> p c" "\<forall>c\<in>set e. \<not> p c" "p x"
  shows "split_on p (a @ x # b @ x # d @ x # e) = [a, b, d, e]"
  using assms by (simp add: split_on_sep split_on_id)

lemma fingerprint_parses:
  "parse_task_fingerprint (tf_key (from_parts agent mode text tools)) =
     Some \<lparr>fp_agent_id = normalize_token agent, fp_prompt_mode = normalize_token mode, fp_text = normalize_text text,
       fp_tools = fingerprint_tools tools\<rparr>"
proof -
  let ?a = "normalize_token agent" and ?m = "normalize_token mode" and ?t = "normalize_text text"
  let ?u = "join_with '','' (fingerprint_tools tools)"
  let ?bar = "\<lambda>c. c = CHR ''|''"
  have u: "\<forall>c\<in>set ?u. c \<noteq> CHR ''|''"
  proof
    fix c assume "c \<in> set ?u"
    then consider "c = CHR '',''" | l where "l \<in> set (fingerprint_tools tools)" "c \<in> set l" using set_join by blast
    then show "c \<noteq> CHR ''|''"
    proof cases
      case 2
      then show ?thesis using set_fingerprint_tools parts_plain(1) by blast
    qed simp
  qed
  have plain: "\<forall>c\<in>set (''agent='' @ ?a). \<not> ?bar c" "\<forall>c\<in>set (''mode='' @ ?m). \<not> ?bar c"
    "\<forall>c\<in>set (''text='' @ ?t). \<not> ?bar c" "\<forall>c\<in>set (''tools='' @ ?u). \<not> ?bar c"
    using parts_plain u by auto
  let ?rest = "(''agent='' @ ?a) @ CHR ''|'' # (''mode='' @ ?m) @ CHR ''|'' # (''text='' @ ?t) @ CHR ''|'' # (''tools='' @ ?u)"
  have key: "tf_key (from_parts agent mode text tools) = ''v1|'' @ ?rest"
    by (simp add: from_parts_def)
  have "split_on ?bar ?rest = [''agent='' @ ?a, ''mode='' @ ?m, ''text='' @ ?t, ''tools='' @ ?u]"
    by (rule split_on_four [OF plain]) simp
  moreover have "split_once ''='' (''agent='' @ ?a) = Some (''agent'', ?a)" "split_once ''='' (''mode='' @ ?m) = Some (''mode'', ?m)"
    "split_once ''='' (''text='' @ ?t) = Some (''text'', ?t)" "split_once ''='' (''tools='' @ ?u) = Some (''tools'', ?u)"
    using split_once_first [of "CHR ''=''" "''agent''" ?a] split_once_first [of "CHR ''=''" "''mode''" ?m]
      split_once_first [of "CHR ''=''" "''text''" ?t] split_once_first [of "CHR ''=''" "''tools''" ?u] by simp_all
  ultimately show ?thesis
    unfolding parse_task_fingerprint_def key
    by (simp only: strip_prefix_Some [THEN iffD2, OF refl] bind.simps) (simp add: fingerprint_field_def tools_roundtrip)
qed

text \<open>A fingerprint parses back to the normalised parts it was made of, and it matches a request exactly when the
  normalised agent, mode and text agree.\<close>

lemma fingerprint_roundtrip:
  "parse_task_fingerprint (tf_key (from_parts agent mode text tools)) =
     Some \<lparr>fp_agent_id = normalize_token agent, fp_prompt_mode = normalize_token mode, fp_text = normalize_text text,
       fp_tools = fingerprint_tools tools\<rparr> \<and>
   (task_fingerprint_matches_request (tf_key (from_parts agent mode text tools)) agent' mode' text' \<longleftrightarrow>
     normalize_token agent = normalize_token agent' \<and> normalize_token mode = normalize_token mode' \<and>
     normalize_text text = normalize_text text')"
  using fingerprint_parses by (simp add: task_fingerprint_matches_request_def)

section \<open>Storing candidates\<close>

lemma candidates_append_event [simp]:
  "candidates (append_learning_derivative_event e st) = candidates st" "traces (append_learning_derivative_event e st) = traces st"
  "rewards (append_learning_derivative_event e st) = rewards st" "eval_runs (append_learning_derivative_event e st) = eval_runs st"
  "promotions (append_learning_derivative_event e st) = promotions st"
  by (simp_all add: append_learning_derivative_event_def)

lemma store_candidate_frame [simp]:
  "traces (store_candidate p k now c st) = traces st" "rewards (store_candidate p k now c st) = rewards st"
  "eval_runs (store_candidate p k now c st) = eval_runs st" "promotions (store_candidate p k now c st) = promotions st"
  "candidates (store_candidate p k now c st) = upsert_by ca_candidate_id c (candidates st)"
  by (simp_all add: store_candidate_def upsert_candidate_artifact_def)

lemma store_candidates_frame [simp]:
  "traces (fold (store_candidate p k now) cs st) = traces st" "rewards (fold (store_candidate p k now) cs st) = rewards st"
  "eval_runs (fold (store_candidate p k now) cs st) = eval_runs st"
  "promotions (fold (store_candidate p k now) cs st) = promotions st"
  by (induction cs arbitrary: st) simp_all

lemma samples_cong:
  assumes "traces st' = traces st" "rewards st' = rewards st"
  shows "build_replay_samples_for_fingerprint f st' = build_replay_samples_for_fingerprint f st" "cluster_samples st' = cluster_samples st"
proof -
  have list: "list_traces P st' = list_traces P st" for P by (simp add: list_traces_def assms)
  have rew: "list_reward_events_for_request k st' = list_reward_events_for_request k st" for k
    by (simp add: list_reward_events_for_request_def assms)
  have s: "build_replay_samples_for_fingerprint f st' = build_replay_samples_for_fingerprint f st" for f
    by (simp add: build_replay_samples_for_fingerprint_def list_execution_traces_by_fingerprint_def list rew)
  then show "build_replay_samples_for_fingerprint f st' = build_replay_samples_for_fingerprint f st" .
  have "list_fingerprint_clusters st' = list_fingerprint_clusters st"
    by (simp add: list_fingerprint_clusters_def summarize_fingerprint_for_evaluation_def s list
        list_execution_traces_by_fingerprint_def cong: option.case_cong)
  then show "cluster_samples st' = cluster_samples st" by (simp add: cluster_samples_def s)
qed

text \<open>Every candidate that is compiled is stored as proposed; the others stay.\<close>

lemma stored_candidates:
  assumes "\<forall>c\<in>set cs. ca_status c = ProposedCandidate"
  shows "(k \<in> ca_candidate_id ` set cs \<longrightarrow>
      map_option ca_status (find_by ca_candidate_id k (candidates (fold (store_candidate p kd now) cs st))) = Some ProposedCandidate) \<and>
    (k \<notin> ca_candidate_id ` set cs \<longrightarrow>
      find_by ca_candidate_id k (candidates (fold (store_candidate p kd now) cs st)) = find_by ca_candidate_id k (candidates st))"
  using assms
proof (induction cs arbitrary: st)
  case (Cons c cs)
  let ?st = "store_candidate p kd now c st"
  have "find_by ca_candidate_id k (candidates ?st) = (if k = ca_candidate_id c then Some c else find_by ca_candidate_id k (candidates st))"
    by (simp add: table_simps)
  with Cons.IH [of ?st] Cons.prems show ?case by (cases "k \<in> ca_candidate_id ` set cs") auto
qed simp

lemma compiled_status:
  "ca_status (candidate_from_dataset p k f t s pl now) = ProposedCandidate"
  "ca_candidate_id (candidate_from_dataset p k f t s pl now) = p @ f"
  by (simp_all add: candidate_from_dataset_def)

lemma synthesized_status: "c \<in> set (synthesized_candidates jt now st) \<Longrightarrow> ca_status c = ProposedCandidate"
  by (auto simp: synthesized_candidates_def synthesize_candidate_for_cluster_def Let_def split: if_splits option.splits)

text \<open>The fingerprints that have a trace are the clusters.\<close>

lemma cluster_of_trace:
  assumes "t \<in> set (traces st)" "tf_key (et_task_fingerprint t) = f"
  shows "\<exists>c. (c, build_replay_samples_for_fingerprint f st) \<in> set (cluster_samples st) \<and> fe_task_fingerprint (fc_summary c) = f"
proof -
  have t: "t \<in> set (list_execution_traces_by_fingerprint f st)"
    using assms by (simp add: list_execution_traces_by_fingerprint_def list_traces_def)
  then have ne: "build_replay_samples_for_fingerprint f st \<noteq> []"
    by (auto simp: build_replay_samples_for_fingerprint_def)
  have key: "fe_task_fingerprint (fold add_sample xs s) = fe_task_fingerprint s" for xs s
  proof (induction xs arbitrary: s)
    case (Cons x xs)
    have "fe_task_fingerprint (add_sample x s) = fe_task_fingerprint s"
      by (cases "et_outcome (rp_trace x)") (simp_all add: add_sample_def)
    with Cons show ?case by simp
  qed simp
  obtain s where s: "summarize_fingerprint_for_evaluation f st = Some s" "fe_task_fingerprint s = f"
    using ne by (simp add: summarize_fingerprint_for_evaluation_def Let_def key)
  have "f \<in> set (rev (remdups (map (\<lambda>t. tf_key (et_task_fingerprint t)) (rev (list_traces (\<lambda>_. True) st)))))"
    using assms by (auto simp: list_traces_def)
  then have "\<exists>c. c \<in> set (list_fingerprint_clusters st) \<and> fc_summary c = s"
    using s(1) unfolding list_fingerprint_clusters_def set_concat set_map by fastforce
  then show ?thesis using s(2) by (auto simp: cluster_samples_def)
qed

section \<open>Promotions do not last\<close>

definition pruned :: "LearningConfig \<Rightarrow> learning_store \<Rightarrow> learning_store" where
  "pruned cfg st = prune_learning_records (lc_max_trace_rows cfg) (lc_max_reward_rows cfg) (lc_max_derivative_rows cfg) st"

lemma selector_frame [simp]:
  "candidates (fst (synthesize_selector_models jt now st)) = candidates st"
  "eval_runs (fst (synthesize_selector_models jt now st)) = eval_runs st"
  "promotions (fst (synthesize_selector_models jt now st)) = promotions st"
proof -
  have "candidates (fold (store_selector_model now) ms st) = candidates st \<and> eval_runs (fold (store_selector_model now) ms st) = eval_runs st \<and>
      promotions (fold (store_selector_model now) ms st) = promotions st" for ms
    by (induction ms arbitrary: st) (simp_all add: store_selector_model_def upsert_selector_model_def)
  then show "candidates (fst (synthesize_selector_models jt now st)) = candidates st"
    "eval_runs (fst (synthesize_selector_models jt now st)) = eval_runs st"
    "promotions (fst (synthesize_selector_models jt now st)) = promotions st"
    by (simp_all add: synthesize_selector_models_def Let_def)
qed

text \<open>The four steps that store candidates see the same traces and rewards.\<close>

lemma learn_candidates:
  obtains cs where "candidates (learn jt cfg now st) = candidates (fold (store_candidate p kd now) cs (pruned cfg st))"
    "\<forall>c\<in>set cs. ca_status c = ProposedCandidate"
    "set (map (\<lambda>d. compile_macro_candidate_from_dataset jt d now) (build_macro_compilation_datasets 2 (pruned cfg st))) \<subseteq> set cs"
    "eval_runs (learn jt cfg now st) = eval_runs st" "promotions (learn jt cfg now st) = promotions st"
proof -
  let ?s1 = "pruned cfg st"
  define c1 where "c1 = synthesized_candidates jt now ?s1"
  define c2 where "c2 = map (\<lambda>d. compile_prompt_candidate_from_dataset jt d now) (build_prompt_optimization_datasets 2 ?s1)"
  define c3 where "c3 = map (\<lambda>d. compile_macro_candidate_from_dataset jt d now) (build_macro_compilation_datasets 2 ?s1)"
  define c4 where "c4 = map (\<lambda>d. compile_wasm_candidate_from_dataset jt d now) (build_wasm_compilation_datasets 5 ?s1)"
  define s2 where "s2 = fst (synthesize_candidate_artifacts jt now ?s1)"
  define s3 where "s3 = fst (compile_prompt_optimization_candidates jt now 2 s2)"
  define s4 where "s4 = fst (compile_macro_candidates jt now 2 s3)"
  define s5 where "s5 = fst (compile_wasm_candidates jt now 5 s4)"
  have s2: "s2 = fold (store_candidate ''derivative:candidate:'' CandidateSynthesis now) c1 ?s1"
    by (simp add: s2_def c1_def synthesize_candidate_artifacts_def Let_def)
  then have "cluster_samples s2 = cluster_samples ?s1" by (intro samples_cong) simp_all
  then have s3: "s3 = fold (store_candidate ''derivative:prompt:'' PromptCompile now) c2 s2"
    by (simp add: s3_def c2_def compile_prompt_optimization_candidates_def build_prompt_optimization_datasets_def Let_def)
  then have "cluster_samples s3 = cluster_samples ?s1" using s2 by (intro samples_cong) simp_all
  then have s4: "s4 = fold (store_candidate ''derivative:macro:'' MacroCompile now) c3 s3"
    by (simp add: s4_def c3_def compile_macro_candidates_def build_macro_compilation_datasets_def Let_def)
  then have "cluster_samples s4 = cluster_samples ?s1" using s2 s3 by (intro samples_cong) simp_all
  then have s5: "s5 = fold (store_candidate ''derivative:wasm:'' WasmCompile now) c4 s4"
    by (simp add: s5_def c4_def compile_wasm_candidates_def build_wasm_compilation_datasets_def Let_def)
  have learn: "learn jt cfg now st = fst (synthesize_selector_models jt now s5)"
    by (simp add: learn_def s5_def s4_def s3_def s2_def pruned_def Let_def)
  have cands: "candidates (fold (store_candidate q k now) xs s) = fold (upsert_by ca_candidate_id) xs (candidates s)" for q k xs s
    by (induction xs arbitrary: s) simp_all
  have all: "candidates (learn jt cfg now st) = candidates (fold (store_candidate p kd now) (c1 @ c2 @ c3 @ c4) ?s1)"
    by (simp add: learn s5 s4 s3 s2 cands)
  have proposed: "\<forall>c\<in>set (c1 @ c2 @ c3 @ c4). ca_status c = ProposedCandidate"
    by (auto simp: c1_def c2_def c3_def c4_def compile_prompt_candidate_from_dataset_def compile_macro_candidate_from_dataset_def
        compile_wasm_candidate_from_dataset_def compiled_status dest: synthesized_status)
  have runs: "eval_runs (learn jt cfg now st) = eval_runs st" "promotions (learn jt cfg now st) = promotions st"
    by (simp_all add: learn s5 s4 s3 s2 pruned_def prune_learning_records_def)
  show ?thesis by (rule that [OF all proposed _ runs]) (auto simp: c3_def)
qed

text \<open>Whenever a trace is recorded for a request, the candidates are compiled again, and a macro that was promoted goes back to
  a proposal: a promotion lasts until the next recorded request, of any user.\<close>

lemma promotion_undone_by_next_trace:
  assumes "lc_enabled cfg" "should_sample_learning_record (rq_request_id req) (lc_sampling_percent cfg)"
    "2 \<le> length (filter (\<lambda>x. rewarded x \<and> uses_tools x) (build_replay_samples_for_fingerprint f (pruned cfg st)))"
    "length (build_replay_samples_for_fingerprint f (pruned cfg st)) < 2 ^ 32"
  shows "map_option ca_status (find_by ca_candidate_id (''macro:'' @ f)
     (candidates (persist_learning_trace jt ut cfg req agent mode text tools res rag now st))) = Some ProposedCandidate"
proof -
  let ?st = "record_execution_trace (learning_trace ut cfg req agent mode text tools res rag now) st"
  let ?xs = "build_replay_samples_for_fingerprint f (pruned cfg ?st)"
  have same: "?xs = build_replay_samples_for_fingerprint f (pruned cfg st)"
    by (intro samples_cong) (simp_all add: pruned_def prune_learning_records_def record_execution_trace_def)
  have "?xs \<noteq> []" using assms(3) same by auto
  then obtain t where t: "t \<in> set (traces (pruned cfg ?st))" "tf_key (et_task_fingerprint t) = f"
    by (auto simp: build_replay_samples_for_fingerprint_def list_execution_traces_by_fingerprint_def list_traces_def
        filter_empty_conv simp flip: set_empty)
  from cluster_of_trace [OF this] obtain c where c: "(c, ?xs) \<in> set (cluster_samples (pruned cfg ?st))"
    "fe_task_fingerprint (fc_summary c) = f" by blast
  let ?n = "length (filter (\<lambda>x. rewarded x \<and> uses_tools x) ?xs)"
  have n: "2 \<le> ?n" "?n < 2 ^ 32"
    using assms(3) same le_less_trans [OF length_filter_le assms(4)] by simp_all
  then obtain d where d: "build_macro_compilation_dataset f ?xs = Some d" "md_task_fingerprint d = f" "md_success_count d = of_nat ?n"
    by (auto simp: build_macro_compilation_dataset_def Let_def)
  have "(2 :: u32) \<le> of_nat ?n" using n by (simp add: word_le_nat_alt unat_of_nat take_bit_nat_eq_self)
  with d c have "d \<in> set (build_macro_compilation_datasets 2 (pruned cfg ?st))"
    by (force simp: build_macro_compilation_datasets_def)
  moreover obtain cs where cs: "candidates (learn jt cfg now ?st) = candidates (fold (store_candidate [] CandidateSynthesis now) cs (pruned cfg ?st))"
    "\<forall>c\<in>set cs. ca_status c = ProposedCandidate"
    "set (map (\<lambda>d. compile_macro_candidate_from_dataset jt d now) (build_macro_compilation_datasets 2 (pruned cfg ?st))) \<subseteq> set cs"
    by (rule learn_candidates [where st = ?st and p = "[]" and kd = CandidateSynthesis and jt = jt and cfg = cfg and now = now], rule that)
  ultimately have "compile_macro_candidate_from_dataset jt d now \<in> set cs" by auto
  then have mem: "''macro:'' @ f \<in> ca_candidate_id ` set cs"
    using d(2) by (intro image_eqI [where x = "compile_macro_candidate_from_dataset jt d now"])
      (simp_all add: compile_macro_candidate_from_dataset_def compiled_status)
  have "map_option ca_status (find_by ca_candidate_id (''macro:'' @ f) (candidates (learn jt cfg now ?st))) = Some ProposedCandidate"
    unfolding cs(1) using stored_candidates [OF cs(2)] mem by blast
  moreover have "persist_learning_trace jt ut cfg req agent mode text tools res rag now st = learn jt cfg now ?st"
    using assms(1,2) by (simp add: persist_learning_trace_def)
  ultimately show ?thesis by simp
qed

section \<open>Retries\<close>

text \<open>A repeated request is noticed only among requests that used no tool, because the fingerprint looked for has no
  tools in it: when every request of the session used one, no retry is ever recorded.\<close>

lemma retries_with_tools_unnoticed:
  assumes "\<forall>t\<in>set (traces st). et_session_id t = ut (rq_session_id req) \<longrightarrow>
    (\<exists>a m x ts. et_task_fingerprint t = from_parts a m x ts \<and> fingerprint_tools ts \<noteq> [])"
  shows "maybe_record_retry_reward jt ut event cfg req agent mode text now st = st"
proof -
  have "tf_key (from_parts a m x ts) \<noteq> tf_key (from_parts agent mode text [])" if "fingerprint_tools ts \<noteq> []" for a m x ts
  proof
    assume "tf_key (from_parts a m x ts) = tf_key (from_parts agent mode text [])"
    then have "parse_task_fingerprint (tf_key (from_parts a m x ts)) = parse_task_fingerprint (tf_key (from_parts agent mode text []))" by simp
    then have "fingerprint_tools ts = fingerprint_tools []" unfolding fingerprint_parses by simp
    then show False using that by (simp add: fingerprint_tools_def btree_set_def)
  qed
  with assms have none: "\<forall>t\<in>set (traces st). \<not> (et_session_id t = ut (rq_session_id req) \<and>
      tf_key (et_task_fingerprint t) = tf_key (from_parts agent mode text []))" by metis
  have "list_execution_traces_by_session_and_fingerprint (ut (rq_session_id req)) (tf_key (from_parts agent mode text [])) st = []"
    by (simp add: list_execution_traces_by_session_and_fingerprint_def list_traces_def filter_False [OF none])
  then show ?thesis by (simp add: maybe_record_retry_reward_def)
qed

section \<open>The dominant sequence\<close>

lemma last_max_Some:
  assumes "last_max f xs = Some m"
  shows "m \<in> set xs \<and> (\<forall>x\<in>set xs. f x \<le> f m)"
proof -
  have gen: "foldl (\<lambda>best y. if f best \<le> f y then y else best) x ys \<in> insert x (set ys) \<and>
      (\<forall>z\<in>insert x (set ys). f z \<le> f (foldl (\<lambda>best y. if f best \<le> f y then y else best) x ys))" for x ys
  proof (induction ys arbitrary: x)
    case (Cons y ys)
    show ?case
    proof (cases "f x \<le> f y")
      case True
      with Cons [of y] show ?thesis by (auto intro: order_trans)
    next
      case False
      then have "f y \<le> f x" by simp
      with Cons [of x] False show ?thesis by (auto intro: order_trans)
    qed
  qed simp
  from assms obtain x ys where "xs = x # ys" "m = foldl (\<lambda>best y. if f best \<le> f y then y else best) x ys"
    by (cases xs) auto
  with gen [of x ys] show ?thesis by simp
qed

lemma set_counts: "set (counts xs) = (\<lambda>k. (k, count_list xs k)) ` set xs"
  by (simp add: counts_def btree_set_def)

lemma count_list_map_inj: "inj_on g (set (x # xs)) \<Longrightarrow> count_list (map g xs) (g x) = count_list xs x"
  by (induction xs) (auto simp: inj_on_def)

text \<open>The sequence of tools a macro is compiled into is that of one of the accepted samples, and no sequence
  occurs more often among them, provided that no tool name is empty or has the separator in it.\<close>

lemma dominant_sequence_most_frequent:
  assumes "accepted \<noteq> []" "\<forall>x\<in>set accepted. uses_tools x \<and> (\<forall>t\<in>set (et_tool_names (rp_trace x)). t \<noteq> [] \<and> CHR ''>'' \<notin> set t)"
  defines "sequences \<equiv> map (\<lambda>x. et_tool_names (rp_trace x)) accepted"
  shows "dominant_tool_sequence accepted \<in> set sequences \<and>
    (\<forall>s\<in>set sequences. count_list sequences s \<le> count_list sequences (dominant_tool_sequence accepted))"
proof -
  let ?join = "join_with ''>''"
  have sp: "split_on (\<lambda>c. c = CHR ''>'') (?join s) = s" if "s \<in> set sequences" for s
    using that assms(2) by (intro split_on_join) (auto simp: sequences_def uses_tools_def)
  then have inj: "inj_on ?join (set sequences)" by (rule inj_on_inverseI)
  have joined: "map (\<lambda>x. ?join (et_tool_names (rp_trace x))) accepted = map ?join sequences"
    by (simp add: sequences_def)
  have cnt: "count_list (map ?join sequences) (?join s) = count_list sequences s" if "s \<in> set sequences" for s
    using that inj by (intro count_list_map_inj) (simp add: insert_absorb)
  have "counts (map ?join sequences) \<noteq> []"
    using assms(1) set_counts [of "map ?join sequences"] by (auto simp: sequences_def)
  then obtain k n where m: "last_max (\<lambda>(k, n). (n, k)) (counts (map ?join sequences)) = Some (k, n)"
    by (cases "counts (map ?join sequences)") (auto simp: prod_eq_iff)
  from last_max_Some [OF m] obtain s where s: "s \<in> set sequences" "k = ?join s" "n = count_list (map ?join sequences) (?join s)"
    by (auto simp: set_counts)
  have dom: "dominant_tool_sequence accepted = s"
  proof -
    have "filter (\<lambda>t. t \<noteq> []) s = s" using s(1) assms(2) by (auto simp: sequences_def filter_id_conv)
    then show ?thesis using m s sp [OF s(1)] by (simp add: dominant_tool_sequence_def joined)
  qed
  have "count_list sequences s' \<le> count_list sequences s" if "s' \<in> set sequences" for s'
  proof -
    have "(?join s', count_list (map ?join sequences) (?join s')) \<in> set (counts (map ?join sequences))"
      using that by (auto simp: set_counts)
    with last_max_Some [OF m] have "(count_list (map ?join sequences) (?join s'), ?join s') \<le> (n, k)" by fastforce
    then have "count_list (map ?join sequences) (?join s') \<le> n" by (auto simp: less_eq_prod_def)
    then show ?thesis using cnt s that by simp
  qed
  with dom s show ?thesis by simp
qed

section \<open>The promotion gate\<close>

datatype learning_op = TraceOp AgentRequest string string string "string list" OrchestratorResult string u64
  | RewardOp string "u8 list" "u8 list" RewardKind "string option" u64
  | EvaluateOp string u64
  | PromotionOp string "AgentCapabilityProfile list" "string option" CandidatePromotionAction u64
  | WriterOp

definition learning_step :: "(json \<Rightarrow> string) \<Rightarrow> (u8 list \<Rightarrow> string) \<Rightarrow> LearningConfig \<Rightarrow> learning_op \<Rightarrow> learning_store \<Rightarrow> learning_store" where
  "learning_step jt ut cfg op st = (case op of
      TraceOp req agent mode text tools res rag now \<Rightarrow> persist_learning_trace jt ut cfg req agent mode text tools res rag now st
    | RewardOp event request session kind notes now \<Rightarrow> record_learning_reward jt ut event cfg request session kind notes now st
    | EvaluateOp k now \<Rightarrow> (case evaluate_candidate_artifact k now st of Ok (st', _) \<Rightarrow> st' | Err _ \<Rightarrow> st)
    | PromotionOp k profiles approved_by action now \<Rightarrow>
        (case apply_candidate_promotion k profiles approved_by action now st of Ok (st', _) \<Rightarrow> st' | Err _ \<Rightarrow> st)
    | WriterOp \<Rightarrow> run_deferred_writer st)"

definition promotions_justified :: "learning_store \<Rightarrow> bool" where
  "promotions_justified st \<longleftrightarrow> (\<forall>c\<in>set (candidates st). ca_status c = PromotedCandidate \<longrightarrow>
     (\<exists>e\<in>set (eval_runs st). ce_candidate_id e = ca_candidate_id c \<and> ce_passed e) \<and>
     (\<exists>r\<in>set (promotions st). pr_candidate_id r = ca_candidate_id c \<and> pr_action r = Promote \<and> pr_status r = AppliedPromotion \<and>
        (ca_kind c = WasmCandidate \<longrightarrow> pr_approved_by r \<noteq> None)))"

lemma in_upsert: "c \<in> set (upsert_by key r t) \<Longrightarrow> c = r \<or> c \<in> set t"
  by (auto simp: upsert_by_def update_by_def split: if_splits)

lemma justified_proposed:
  assumes "\<forall>c\<in>set cs. ca_status c = ProposedCandidate" "promotions_justified st"
  shows "promotions_justified (fold (store_candidate p kd now) cs st)"
  using assms
proof (induction cs arbitrary: st)
  case (Cons c cs)
  have "promotions_justified (store_candidate p kd now c st)"
    using Cons.prems by (auto simp: promotions_justified_def dest!: in_upsert)
  with Cons show ?case by simp
qed simp

lemma justified_cong:
  "candidates st' = candidates st \<Longrightarrow> set (eval_runs st) \<subseteq> set (eval_runs st') \<Longrightarrow> set (promotions st) \<subseteq> set (promotions st') \<Longrightarrow>
    promotions_justified st \<Longrightarrow> promotions_justified st'"
  by (simp add: promotions_justified_def) (meson subsetD)

lemma justified_learn:
  assumes "promotions_justified st"
  shows "promotions_justified (learn jt cfg now st)"
proof -
  obtain cs where cs: "candidates (learn jt cfg now st) = candidates (fold (store_candidate [] CandidateSynthesis now) cs (pruned cfg st))"
    "\<forall>c\<in>set cs. ca_status c = ProposedCandidate"
    "eval_runs (learn jt cfg now st) = eval_runs st" "promotions (learn jt cfg now st) = promotions st"
    by (rule learn_candidates [where st = st and p = "[]" and kd = CandidateSynthesis and jt = jt and cfg = cfg and now = now], rule that)
  have "promotions_justified (pruned cfg st)"
    by (rule justified_cong [OF _ _ _ assms]) (simp_all add: pruned_def prune_learning_records_def)
  from justified_proposed [OF cs(2) this, of "[]" CandidateSynthesis now] show ?thesis
    by (rule justified_cong [rotated 3]) (simp_all add: cs(1,3,4) pruned_def prune_learning_records_def)
qed

lemma latest_evaluation_stored:
  assumes "latest_evaluation k st = Some e"
  shows "e \<in> set (eval_runs st) \<and> ce_candidate_id e = k"
proof -
  have "e \<in> set (list_candidate_evaluation_runs k st)"
    using assms last_in_set by (fastforce simp: latest_evaluation_def Let_def split: if_splits)
  then show ?thesis by (simp add: list_candidate_evaluation_runs_def)
qed

lemma justified_promotion:
  assumes "apply_candidate_promotion k profiles approved_by action now st = Ok (st', r)" "promotions_justified st"
  shows "promotions_justified st'"
proof -
  obtain c where c: "find_by ca_candidate_id k (candidates st) = Some c"
    "r = build_candidate_promotion_record c (latest_evaluation k st) profiles action approved_by now"
    "candidates st' = (if pr_status r = AppliedPromotion
       then upsert_by ca_candidate_id (c\<lparr>ca_status := (case action of Promote \<Rightarrow> PromotedCandidate | Rollback \<Rightarrow> RejectedCandidate),
         ca_updated_at_us := now\<rparr>) (candidates st) else candidates st)"
    "eval_runs st' = eval_runs st" "promotions st' = promotions st @ [r]"
    using assms(1) by (auto simp: apply_candidate_promotion_def read_candidate_artifact_def append_candidate_promotion_record_def
        upsert_candidate_artifact_def result_simps Let_def split: if_splits)
  have id: "ca_candidate_id c = k" using find_by_SomeD [OF c(1)] by simp
  have gate: "(\<exists>e\<in>set (eval_runs st). ce_candidate_id e = k \<and> ce_passed e) \<and> pr_candidate_id r = k \<and> pr_action r = Promote \<and>
      (ca_kind c = WasmCandidate \<longrightarrow> pr_approved_by r \<noteq> None)" if "pr_status r = AppliedPromotion" "action = Promote"
    using that latest_evaluation_stored [of k st] id unfolding c(2)
    by (auto simp: build_candidate_promotion_record_def candidate_requires_human_approval_def Let_def split: if_splits option.splits)
  have old: "promotions_justified (st\<lparr>promotions := promotions st @ [r]\<rparr>)"
    by (rule justified_cong [OF _ _ _ assms(2)]) auto
  show ?thesis
  proof (cases "pr_status r = AppliedPromotion \<and> action = Promote")
    case True
    then show ?thesis
      using old gate c(3-5) id unfolding promotions_justified_def by (fastforce dest!: in_upsert)
  next
    case False
    then have "c' \<in> set (candidates st') \<Longrightarrow> ca_status c' = PromotedCandidate \<Longrightarrow> c' \<in> set (candidates st)" for c'
      using c(3) by (cases action) (auto dest!: in_upsert split: if_splits)
    with old c(4,5) show ?thesis unfolding promotions_justified_def by fastforce
  qed
qed

text \<open>C10: whatever requests, rewards, evaluations and promotions come after another, every promoted candidate has an evaluation that
  passed and an applied promotion, which a human approved if the candidate is a WebAssembly component, when that holds
  of the store they start from (it does of an empty one).\<close>

theorem promoted_candidates_justified:
  assumes "promotions_justified st"
  shows "promotions_justified (fold (learning_step jt ut cfg) ops st)"
  using assms
proof (induction ops arbitrary: st)
  case (Cons op ops)
  have "promotions_justified (learning_step jt ut cfg op st)"
  proof (cases op)
    case (TraceOp req agent mode words tools res rag now)
    have "promotions_justified (record_execution_trace t st)" for t
      by (rule justified_cong [OF _ _ _ Cons.prems]) (simp_all add: record_execution_trace_def)
    then show ?thesis using TraceOp justified_learn Cons.prems by (simp add: learning_step_def persist_learning_trace_def)
  next
    case (RewardOp event request session kind remark now)
    have "promotions_justified (record_reward_event x st)" for x
      by (rule justified_cong [OF _ _ _ Cons.prems]) (simp_all add: record_reward_event_def)
    then show ?thesis using RewardOp justified_learn Cons.prems by (simp add: learning_step_def record_learning_reward_def)
  next
    case (EvaluateOp k now)
    have "promotions_justified st'" if "evaluate_candidate_artifact k now st = Ok (st', r)" for st' r
      using that by (intro justified_cong [OF _ _ _ Cons.prems])
        (auto simp: evaluate_candidate_artifact_def append_candidate_evaluation_run_def result_simps Let_def split: if_splits)
    then show ?thesis using EvaluateOp Cons.prems by (simp add: learning_step_def split: sum.split prod.split)
  next
    case (PromotionOp k profiles approved_by action now)
    then show ?thesis using justified_promotion Cons.prems by (simp add: learning_step_def split: sum.split prod.split)
  next
    case WriterOp
    have "promotions_justified (run_deferred_writer st)"
      by (rule justified_cong [OF _ _ _ Cons.prems])
        (simp_all add: run_deferred_writer_def record_trace_immediate_def append_derivative_immediate_def
          split: list.splits deferred_write.splits)
    with WriterOp show ?thesis by (simp add: learning_step_def)
  qed
  then show ?case using Cons.IH by simp
qed simp

text \<open>The evaluation that counts need not be of the payload that is promoted: a candidate that has been compiled anew is promoted on the
  evaluation of its predecessor.\<close>

lemma stale_evaluation_promotes:
  assumes "latest_evaluation k st = Some e" "ce_passed e" "ca_candidate_id c = k" "ca_kind c \<noteq> WasmCandidate"
    "\<not> has_key pr_promotion_id (''promote:'' @ k @ '':'' @ show_nat (unat now)) (promotions st)"
  shows "\<exists>st' r. apply_candidate_promotion k [] None Promote now (upsert_candidate_artifact c st) = Ok (st', r) \<and>
    find_by ca_candidate_id k (candidates st') = Some (c\<lparr>ca_status := PromotedCandidate, ca_updated_at_us := now\<rparr>)"
proof -
  have "latest_evaluation k (upsert_candidate_artifact c st) = Some e"
    using assms(1) by (simp add: latest_evaluation_def list_candidate_evaluation_runs_def upsert_candidate_artifact_def)
  then show ?thesis
    using assms(2-5)
    by (auto simp: apply_candidate_promotion_def read_candidate_artifact_def append_candidate_promotion_record_def
        build_candidate_promotion_record_def candidate_requires_human_approval_def upsert_candidate_artifact_def table_simps Let_def)
qed

text \<open>Redaction covers the summary, but not the fingerprint, which holds the words of the request.\<close>

lemma fingerprint_not_redacted:
  "Option.bind (parse_task_fingerprint (tf_key (et_task_fingerprint
     (learning_trace ut cfg req agent mode words tools res rag now)))) (\<lambda>p. Some (fp_text p)) = Some (normalize_text words)"
  by (simp add: learning_trace_def fingerprint_parses)

section \<open>Examples\<close>

definition example_trace :: "string \<Rightarrow> ExecutionTrace" where
  "example_trace k = \<lparr>et_request_id = k, et_session_id = ''s'', et_user_id = ''u'', et_agent_id = ''omni'', et_channel = Cli,
     et_prompt_mode = ''execution'', et_task_fingerprint = from_parts ''omni'' ''execution'' ''list files'' [''ls''],
     et_user_input_summary = ''list files'', et_tool_names = [''ls''], et_retrieved_corpora = [], et_outcome = TraceSucceeded,
     et_latency_ms = 0, et_response_summary = [], et_tool_runtime_policy = None, et_recorded_at_us = 1\<rparr>"

definition example_reward :: "string \<Rightarrow> RewardEvent" where
  "example_reward k = \<lparr>re_event_id = k, re_request_id = k, re_session_id = ''s'', re_kind = RewardAccepted, re_value = 1,
     re_notes = None, re_recorded_at_us = 2\<rparr>"

definition example_learning :: learning_store where
  "example_learning = \<lparr>traces = [example_trace ''a'', example_trace ''b''], rewards = [example_reward ''a'', example_reward ''b''],
     candidates = [], eval_runs = [], promotions = [], selector_models = [], derivatives = [], deferred = [], learning_enabled = True\<rparr>"

definition example_config :: LearningConfig where
  "example_config = \<lparr>lc_enabled = True, lc_sampling_percent = 100, lc_max_trace_rows = 10, lc_max_reward_rows = 10,
     lc_max_derivative_rows = 10, lc_redact_sensitive = True\<rparr>"

definition example_request :: AgentRequest where
  "example_request = \<lparr>rq_request_id = [7], rq_session_id = [1], rq_channel = Cli, rq_user_id = ''u'', rq_content = TextContent ''hello'',
     rq_tool_runtime_policy = None, rq_timestamp_us = 5\<rparr>"

abbreviation example_fingerprint :: string where
  "example_fingerprint \<equiv> tf_key (from_parts ''omni'' ''execution'' ''list files'' [''ls''])"

lemma example_samples: "build_replay_samples_for_fingerprint example_fingerprint (pruned example_config example_learning) =
    map (\<lambda>k. \<lparr>rp_trace = example_trace k, rp_rewards = [example_reward k], rp_reward_score = 1\<rparr>) [''a'', ''b'']"
  by (simp add: build_replay_samples_for_fingerprint_def list_execution_traces_by_fingerprint_def list_traces_def pruned_def
      prune_learning_records_def keep_latest_def example_learning_def example_config_def list_reward_events_for_request_def
      example_trace_def example_reward_def)

lemma promotion_undone_by_next_trace_example:
  "map_option ca_status (find_by ca_candidate_id (''macro:'' @ example_fingerprint)
     (candidates (persist_learning_trace (\<lambda>_. []) (\<lambda>_. ''r'') example_config example_request ''omni'' ''chat'' ''hello'' []
       (Completed ''hi'') [] 9 example_learning))) = Some ProposedCandidate"
proof (rule promotion_undone_by_next_trace)
  have acc: "filter (\<lambda>x. rewarded x \<and> uses_tools x) (build_replay_samples_for_fingerprint example_fingerprint (pruned example_config example_learning)) =
      build_replay_samples_for_fingerprint example_fingerprint (pruned example_config example_learning)"
    unfolding example_samples by (simp add: rewarded_def trace_succeeded_def uses_tools_def example_trace_def)
  show "2 \<le> length (filter (\<lambda>x. rewarded x \<and> uses_tools x)
      (build_replay_samples_for_fingerprint example_fingerprint (pruned example_config example_learning)))"
    unfolding acc unfolding example_samples by simp
  show "length (build_replay_samples_for_fingerprint example_fingerprint (pruned example_config example_learning)) < 2 ^ 32"
    unfolding example_samples by simp
qed (simp_all add: example_config_def should_sample_learning_record_def)

lemma example_tools: "fingerprint_tools [''ls''] \<noteq> []"
proof -
  have "normalize_token ''ls'' = ''ls''" by code_simp
  then show ?thesis by (simp add: fingerprint_tools_def btree_set_def)
qed

lemma retries_with_tools_unnoticed_example:
  "maybe_record_retry_reward (\<lambda>_. []) (\<lambda>_. ''s'') ''e'' example_config example_request ''omni'' ''execution'' ''list files'' 9 example_learning
     = example_learning"
proof (rule retries_with_tools_unnoticed)
  show "\<forall>t\<in>set (traces example_learning). et_session_id t = ''s'' \<longrightarrow>
      (\<exists>a m x ts. et_task_fingerprint t = from_parts a m x ts \<and> fingerprint_tools ts \<noteq> [])"
    using example_tools by (auto simp: example_learning_def example_trace_def)
qed

lemma dominant_sequence_most_frequent_example:
  "dominant_tool_sequence (map (\<lambda>k. \<lparr>rp_trace = example_trace k, rp_rewards = [], rp_reward_score = 1\<rparr>) [''a'', ''b'']) = [''ls'']"
  using dominant_sequence_most_frequent [of "map (\<lambda>k. \<lparr>rp_trace = example_trace k, rp_rewards = [], rp_reward_score = 1\<rparr>) [''a'', ''b'']"]
  by (simp add: uses_tools_def example_trace_def)

text \<open>A store with three rewarded traces of a task and a macro proposed for it: its evaluation passes and it is promoted.\<close>

definition example_macro :: CandidateArtifactRecord where
  "example_macro = \<lparr>ca_candidate_id = ''m'', ca_task_fingerprint = ''f'', ca_kind = MacroCandidate, ca_status = ProposedCandidate,
     ca_title = ''ls'', ca_summary = [], ca_payload_json = ''{}'', ca_created_at_us = 1, ca_updated_at_us = 1\<rparr>"

definition example_promotable :: learning_store where
  "example_promotable = example_learning\<lparr>traces := map (\<lambda>k. (example_trace k)\<lparr>et_task_fingerprint := \<lparr>tf_version = 1, tf_key = ''f''\<rparr>\<rparr>) [''a'', ''b'', ''c''],
     candidates := [example_macro]\<rparr>"

abbreviation example_promotion :: learning_store where
  "example_promotion \<equiv> fold (learning_step (\<lambda>_. []) (\<lambda>_. ''r'') example_config)
     [EvaluateOp ''m'' 3, PromotionOp ''m'' [] None Promote 4] example_promotable"

lemma example_promoted: "map ca_status (candidates example_promotion) = [PromotedCandidate]"
  by code_simp

lemma promoted_candidates_justified_witness:
  "map ca_status (candidates example_promotion) = [PromotedCandidate] \<and>
   (\<exists>c\<in>set (candidates example_promotion). (\<exists>e\<in>set (eval_runs example_promotion). ce_candidate_id e = ca_candidate_id c \<and> ce_passed e) \<and>
     (\<exists>r\<in>set (promotions example_promotion). pr_candidate_id r = ca_candidate_id c \<and> pr_status r = AppliedPromotion))"
proof -
  have "promotions_justified example_promotable"
    by (simp add: promotions_justified_def example_promotable_def example_macro_def)
  from promoted_candidates_justified [OF this] have just: "promotions_justified example_promotion" .
  obtain c where "candidates example_promotion = [c]" "ca_status c = PromotedCandidate"
    using example_promoted by (cases "candidates example_promotion") auto
  with just example_promoted show ?thesis unfolding promotions_justified_def by auto
qed

end
