(* ===== verification/Mcp.thy ===== *)
theory Mcp
  imports ToolCatalog AgentTypes "HOL-Library.Monad_Syntax"
begin

text \<open>The MCP registry and client (\<open>aria-mcp/src/lib.rs\<close>): the boundary policy, the registry of servers and
  imports, the stub and subprocess transports and the client that keeps a session per server.  A subprocess is
  outside the program: its pipes are the parameters of \<open>stdio\<close>, over a state \<open>'w\<close> of the world.  A read loop
  may wait for ever, so the operations over a pipe are of type \<open>option\<close>, and \<open>None\<close> is not returning.\<close>

section \<open>Data\<close>

record McpServerProfile =
  ms_server_id :: string
  ms_display_name :: string
  ms_transport :: string
  ms_endpoint :: string
  ms_auth_ref :: "string option"
  ms_enabled :: bool

datatype McpPrimitiveKind = ToolPrimitive | PromptPrimitive | ResourcePrimitive

record McpImportedTool =
  mt_import_id :: string
  mt_server_id :: string
  mt_tool_name :: string
  mt_description :: string
  mt_parameters_schema :: string

record McpImportedPrompt =
  mp_import_id :: string
  mp_server_id :: string
  mp_prompt_name :: string
  mp_description :: string
  mp_arguments_schema :: "string option"

record McpImportedResource =
  mr_import_id :: string
  mr_server_id :: string
  mr_resource_uri :: string
  mr_description :: string
  mr_mime_type :: "string option"

datatype McpRegistryError = UnknownServer string | DisabledServer string | DuplicateImport string | SessionError string

fun show_mcp_error :: "McpRegistryError \<Rightarrow> string" where
  "show_mcp_error (UnknownServer s) = ''unknown MCP server '' @ quoted s"
| "show_mcp_error (DisabledServer s) = ''disabled MCP server '' @ quoted s"
| "show_mcp_error (DuplicateImport s) = ''duplicate MCP import '' @ quoted s"
| "show_mcp_error (SessionError m) = ''mcp session error: '' @ m"

record McpSession =
  se_server_id :: string
  se_transport :: string
  se_endpoint :: string
  se_protocol_version :: "string option"
  se_capabilities_json :: "string option"
  se_last_activity_us :: u64
  se_initialized :: bool
  se_connected :: bool

record McpDiscoveredTool =
  dt_tool_name :: string
  dt_description :: string
  dt_parameters_schema :: string

record McpDiscoveredPrompt =
  dp_prompt_name :: string
  dp_description :: string
  dp_arguments_schema :: "string option"

record McpDiscoveredResource =
  dr_resource_uri :: string
  dr_description :: string
  dr_mime_type :: "string option"

record McpServerCatalog =
  mc_server_id :: string
  mc_protocol_version :: "string option"
  mc_capabilities_json :: "string option"
  mc_tools :: "McpDiscoveredTool list"
  mc_prompts :: "McpDiscoveredPrompt list"
  mc_resources :: "McpDiscoveredResource list"

section \<open>The boundary policy\<close>

datatype McpBoundaryKind = LeafExternal | NativeInternal | ReviewRequired

record McpBoundaryRule =
  bd_target :: string
  bd_classification :: McpBoundaryKind
  bd_rationale :: string

definition normalized_mcp_boundary_target :: "string \<Rightarrow> string" where
  "normalized_mcp_boundary_target target =
     map (\<lambda>c. if c = CHR ''-'' \<or> c = CHR '' '' then CHR ''_'' else c) (to_lower (trim_ws target))"

definition native_internal_targets :: "(string \<times> string) list" where
  "native_internal_targets =
   [(''browser_runtime'',
     ''Browser runtime owns local profile/session control, challenge handling, and transport security boundaries.''),
    (''crawl_runtime'', ''Crawl runtime owns local traversal, watch scheduling, and content-scoping enforcement.''),
    (''approval_engine'',
     ''Approvals are a local human-in-the-loop trust boundary and must remain native to the app.''),
    (''vault'', ''Credential storage and secret material must remain inside the native vault boundary, not an external MCP plugin.''),
    (''policy_engine'',
     ''Capability, filesystem, retrieval, and execution policy checks are core local authorization concerns.''),
    (''scheduler_core'', ''Scheduling is core runtime orchestration and job ownership, not a leaf integration.''),
    (''runtime_store'',
     ''Runtime persistence is the app'' @ [CHR 0x27] @ ''s durable systems boundary and should not be delegated to MCP.'')]"

definition leaf_external_targets :: "(string \<times> string) list" where
  "leaf_external_targets =
   [(''github'', ''External developer platforms are strong MCP candidates because they are leaf integrations behind a stable remote API.''),
    (''jira'', ''Issue trackers are external service integrations and fit the MCP leaf-integration model.''),
    (''linear'', ''Project-management SaaS integrations are leaf capabilities and can be imported cleanly over MCP.''),
    (''notion'', ''Knowledge-base SaaS integrations are external content providers, not local trust-boundary systems.''),
    (''slack'', ''Messaging SaaS is a leaf external integration and should not be implemented as core runtime logic.''),
    (''google_drive'', ''Remote document/storage APIs are good MCP leaf integrations with clear remote ownership.''),
    (''s3'', ''Object-store API access is a leaf remote integration rather than a native subsystem boundary.''),
    (''docs_saas'', ''Third-party documentation/search SaaS endpoints are leaf external integrations.''),
    (''chrome_devtools'',
     ''Chrome DevTools MCP is a leaf external browser-session integration and should remain separate from the app''
       @ [CHR 0x27] @ ''s native browser runtime boundary.'')]"

definition boundary_rule :: "McpBoundaryKind \<Rightarrow> string \<times> string \<Rightarrow> McpBoundaryRule" where
  "boundary_rule kind p = \<lparr>bd_target = fst p, bd_classification = kind, bd_rationale = snd p\<rparr>"

record McpBoundaryPolicySnapshot =
  bs_rule :: string
  bs_leaf_external :: "McpBoundaryRule list"
  bs_native_internal :: "McpBoundaryRule list"

definition mcp_boundary_policy_snapshot :: McpBoundaryPolicySnapshot where
  "mcp_boundary_policy_snapshot =
    \<lparr>bs_rule = ''Use MCP for leaf external integrations. Keep trust-boundary subsystems native/internal.'',
     bs_leaf_external = map (boundary_rule LeafExternal) leaf_external_targets,
     bs_native_internal = map (boundary_rule NativeInternal) native_internal_targets\<rparr>"

definition classify_mcp_boundary_target :: "string \<Rightarrow> McpBoundaryRule" where
  "classify_mcp_boundary_target target = (let n = normalized_mcp_boundary_target target in
     case find (\<lambda>p. fst p = n) native_internal_targets of
       Some p \<Rightarrow> boundary_rule NativeInternal p
     | None \<Rightarrow> (case find (\<lambda>p. fst p = n) leaf_external_targets of
         Some p \<Rightarrow> boundary_rule LeafExternal p
       | None \<Rightarrow> \<lparr>bd_target = n, bd_classification = ReviewRequired,
           bd_rationale = ''Unclassified target. Use MCP only if this is a leaf external integration and keep local trust-boundary systems native.''\<rparr>))"

definition reserved_native_mcp_target :: "string \<Rightarrow> bool" where
  "reserved_native_mcp_target target \<longleftrightarrow> bd_classification (classify_mcp_boundary_target target) = NativeInternal"

section \<open>The registry\<close>

text \<open>A \<open>BTreeMap\<close> is an association list; the operations that list one put it in the order of its keys.\<close>

record McpRegistry =
  rg_servers :: "(string \<times> McpServerProfile) list"
  rg_tools :: "(string \<times> McpImportedTool list) list"
  rg_prompts :: "(string \<times> McpImportedPrompt list) list"
  rg_resources :: "(string \<times> McpImportedResource list) list"

definition new_registry :: McpRegistry where
  "new_registry = \<lparr>rg_servers = [], rg_tools = [], rg_prompts = [], rg_resources = []\<rparr>"

definition register_server :: "McpServerProfile \<Rightarrow> McpRegistry \<Rightarrow> McpRegistry" where
  "register_server p r = r\<lparr>rg_servers := upsert_by fst (ms_server_id p, p) (rg_servers r)\<rparr>"

definition list_servers :: "McpRegistry \<Rightarrow> McpServerProfile list" where
  "list_servers r = map snd (sort_key fst (rg_servers r))"

definition server_enabled :: "McpRegistry \<Rightarrow> string \<Rightarrow> bool" where
  "server_enabled r s = (case map_of (rg_servers r) s of Some p \<Rightarrow> ms_enabled p | None \<Rightarrow> False)"

definition ensure_server_enabled :: "McpRegistry \<Rightarrow> string \<Rightarrow> (McpRegistryError, unit) result" where
  "ensure_server_enabled r s = (case map_of (rg_servers r) s of
     Some p \<Rightarrow> if ms_enabled p then Ok () else Err (DisabledServer s)
   | None \<Rightarrow> Err (UnknownServer s))"

text \<open>The entry of a server, an empty list where there is none (\<open>entry().or_default()\<close>).\<close>

definition entry_or_default :: "string \<Rightarrow> (string \<times> 'a list) list \<Rightarrow> 'a list" where
  "entry_or_default k t = (case map_of t k of Some xs \<Rightarrow> xs | None \<Rightarrow> [])"

definition import_tool :: "McpImportedTool \<Rightarrow> McpRegistry \<Rightarrow> (McpRegistryError, McpRegistry) result" where
  "import_tool t r = and_then (ensure_server_enabled r (mt_server_id t)) (\<lambda>_.
     let entries = entry_or_default (mt_server_id t) (rg_tools r) in
     if list_ex (\<lambda>e. mt_import_id e = mt_import_id t) entries then Err (DuplicateImport (mt_import_id t))
     else Ok (r\<lparr>rg_tools := upsert_by fst (mt_server_id t, entries @ [t]) (rg_tools r)\<rparr>))"

definition import_prompt :: "McpImportedPrompt \<Rightarrow> McpRegistry \<Rightarrow> (McpRegistryError, McpRegistry) result" where
  "import_prompt p r = and_then (ensure_server_enabled r (mp_server_id p)) (\<lambda>_.
     let entries = entry_or_default (mp_server_id p) (rg_prompts r) in
     if list_ex (\<lambda>e. mp_import_id e = mp_import_id p) entries then Err (DuplicateImport (mp_import_id p))
     else Ok (r\<lparr>rg_prompts := upsert_by fst (mp_server_id p, entries @ [p]) (rg_prompts r)\<rparr>))"

definition import_resource :: "McpImportedResource \<Rightarrow> McpRegistry \<Rightarrow> (McpRegistryError, McpRegistry) result" where
  "import_resource x r = and_then (ensure_server_enabled r (mr_server_id x)) (\<lambda>_.
     let entries = entry_or_default (mr_server_id x) (rg_resources r) in
     if list_ex (\<lambda>e. mr_import_id e = mr_import_id x) entries then Err (DuplicateImport (mr_import_id x))
     else Ok (r\<lparr>rg_resources := upsert_by fst (mr_server_id x, entries @ [x]) (rg_resources r)\<rparr>))"

definition list_imported_tools :: "McpRegistry \<Rightarrow> string \<Rightarrow> McpImportedTool list" where
  "list_imported_tools r s = entry_or_default s (rg_tools r)"

definition list_imported_prompts :: "McpRegistry \<Rightarrow> string \<Rightarrow> McpImportedPrompt list" where
  "list_imported_prompts r s = entry_or_default s (rg_prompts r)"

definition list_imported_resources :: "McpRegistry \<Rightarrow> string \<Rightarrow> McpImportedResource list" where
  "list_imported_resources r s = entry_or_default s (rg_resources r)"

definition mcp_origin :: "McpRegistry \<Rightarrow> string \<Rightarrow> string \<Rightarrow> ToolOrigin" where
  "mcp_origin r s import_id = \<lparr>og_provider_kind = McpKind, og_provider_id = s, og_origin_id = Some import_id,
     og_display_name = map_option ms_display_name (map_of (rg_servers r) s)\<rparr>"

definition list_tool_catalog_entries :: "McpRegistry \<Rightarrow> string \<Rightarrow> ToolCatalogEntry list" where
  "list_tool_catalog_entries r s = map (\<lambda>t. \<lparr>
     tc_tool_id = ''mcp.'' @ mt_server_id t @ ''.'' @ mt_tool_name t, tc_public_name = mt_tool_name t,
     tc_description = mt_description t, tc_parameters_json_schema = mt_parameters_schema t,
     tc_execution_kind = McpImportedExec, tc_provider_kind = McpKind, tc_runner_class = McpRunner,
     tc_origin = mcp_origin r (mt_server_id t) (mt_import_id t), tc_artifact_kind = Some ''mcp'',
     tc_requires_approval = NoApproval, tc_side_effect_level = ReadOnly, tc_streaming_safe = False,
     tc_parallel_safe = True, tc_modalities = [TextModality],
     tc_capability_requirements = [''mcp_server_allowlist:'' @ mt_server_id t, ''mcp_tool_allowlist:'' @ mt_tool_name t]\<rparr>)
     (list_imported_tools r s)"

definition list_prompt_assets :: "McpRegistry \<Rightarrow> string \<Rightarrow> PromptAssetEntry list" where
  "list_prompt_assets r s = map (\<lambda>p. \<lparr>
     pa_asset_id = ''mcp.'' @ mp_server_id p @ ''.'' @ mp_prompt_name p, pa_public_name = mp_prompt_name p,
     pa_description = mp_description p, pa_origin = mcp_origin r (mp_server_id p) (mp_import_id p),
     pa_arguments_json_schema = mp_arguments_schema p\<rparr>) (list_imported_prompts r s)"

definition list_resource_context_entries :: "McpRegistry \<Rightarrow> string \<Rightarrow> ResourceContextEntry list" where
  "list_resource_context_entries r s = map (\<lambda>x. \<lparr>
     rc_resource_id = ''mcp.'' @ mr_server_id x @ ''.'' @ mr_resource_uri x, rc_public_name = mr_resource_uri x,
     rc_description = mr_description x, rc_origin = mcp_origin r (mr_server_id x) (mr_import_id x),
     rc_mime_type = mr_mime_type x\<rparr>) (list_imported_resources r s)"

definition tool_allowed_for_agent :: "McpRegistry \<Rightarrow> AgentCapabilityProfile \<Rightarrow> string \<Rightarrow> string \<Rightarrow> bool" where
  "tool_allowed_for_agent r p s name =
    (if \<not> server_enabled r s then False
     else if s \<notin> set (cp_mcp_server_allowlist p) then False
     else if name \<notin> set (cp_mcp_tool_allowlist p) then False
     else list_ex (\<lambda>t. mt_tool_name t = name) (entry_or_default s (rg_tools r)))"

definition prompt_allowed_for_agent :: "McpRegistry \<Rightarrow> AgentCapabilityProfile \<Rightarrow> string \<Rightarrow> string \<Rightarrow> bool" where
  "prompt_allowed_for_agent r p s name =
    (if \<not> server_enabled r s then False
     else if s \<notin> set (cp_mcp_server_allowlist p) then False
     else if name \<notin> set (cp_mcp_prompt_allowlist p) then False
     else list_ex (\<lambda>t. mp_prompt_name t = name) (entry_or_default s (rg_prompts r)))"

definition resource_allowed_for_agent :: "McpRegistry \<Rightarrow> AgentCapabilityProfile \<Rightarrow> string \<Rightarrow> string \<Rightarrow> bool" where
  "resource_allowed_for_agent r p s uri =
    (if \<not> server_enabled r s then False
     else if s \<notin> set (cp_mcp_server_allowlist p) then False
     else if uri \<notin> set (cp_mcp_resource_allowlist p) then False
     else list_ex (\<lambda>t. mr_resource_uri t = uri) (entry_or_default s (rg_resources r)))"

section \<open>Subprocess transports\<close>

record ('w, 'c) stdio =
  sp_spawn :: "string \<Rightarrow> string list \<Rightarrow> 'w \<Rightarrow> (string, 'c) result \<times> 'w"
  sp_write :: "'c \<Rightarrow> string \<Rightarrow> 'w \<Rightarrow> (string, unit) result \<times> 'w"
  sp_flush :: "'c \<Rightarrow> 'w \<Rightarrow> (string, unit) result \<times> 'w"
  sp_read_line :: "'c \<Rightarrow> 'w \<Rightarrow> (string, string) result \<times> 'w"
  sp_wait_output :: "'c \<Rightarrow> 'w \<Rightarrow> (string, bool \<times> string \<times> string \<times> string) result \<times> 'w"
  sp_now :: "'w \<Rightarrow> u64"
  sp_parse :: "string \<Rightarrow> (string, json) result"
  sp_print :: "json \<Rightarrow> (string, string) result"
  sp_version :: string

record ('w, 'c) persistent =
  px_world :: 'w
  px_processes :: "string \<rightharpoonup> 'c"
  px_next_request_id :: u64

definition spawn_process ::
  "('w, 'c) stdio \<Rightarrow> string \<Rightarrow> string \<Rightarrow> 'w \<Rightarrow> (McpRegistryError, 'c) result \<times> 'w" where
  "spawn_process io sid endpoint w = (case split_whitespace endpoint of
     [] \<Rightarrow> (Err (SessionError (''empty stdio endpoint for server '' @ quoted sid)), w)
   | program # args \<Rightarrow> (case sp_spawn io program args w of
       (Inl e, w) \<Rightarrow> (Err (SessionError (''spawn stdio transport '' @ quoted endpoint @ '' failed: '' @ e)), w)
     | (Inr c, w) \<Rightarrow> (Ok c, w)))"

definition ensure_process ::
  "('w, 'c) stdio \<Rightarrow> McpSession \<Rightarrow> ('w, 'c) persistent \<Rightarrow> (McpRegistryError, unit) result \<times> ('w, 'c) persistent" where
  "ensure_process io se st =
    (if px_processes st (se_server_id se) \<noteq> None then (Ok (), st)
     else case spawn_process io (se_server_id se) (se_endpoint se) (px_world st) of
       (Inl e, w) \<Rightarrow> (Err e, st\<lparr>px_world := w\<rparr>)
     | (Inr c, w) \<Rightarrow> (Ok (), st\<lparr>px_world := w, px_processes := (px_processes st)(se_server_id se \<mapsto> c)\<rparr>))"

text \<open>\<open>px_processes\<close> is the map of the pipes the transport holds, not the processes that run: removing an entry
  drops the handle of the child, which neither kills it nor waits for it, so \<open>px_world\<close> stays as it is.\<close>

definition remove_process :: "string \<Rightarrow> ('w, 'c) persistent \<Rightarrow> ('w, 'c) persistent" where
  "remove_process sid st = st\<lparr>px_processes := (px_processes st)(sid := None)\<rparr>"

fun as_u64 :: "json \<Rightarrow> nat option" where
  "as_u64 (JNumber s) = parse_unsigned (2 ^ 64 - 1) s"
| "as_u64 _ = None"

definition has_answer :: "json \<Rightarrow> bool" where
  "has_answer v \<longleftrightarrow> jget v ''result'' \<noteq> None \<or> jget v ''error'' \<noteq> None"

text \<open>What the read loop does with its \<open>n\<close>-th line: \<open>None\<close> is to read on.\<close>

definition frame_verdict ::
  "(string \<Rightarrow> (string, json) result) \<Rightarrow> string \<Rightarrow> nat \<Rightarrow> nat \<Rightarrow> string \<Rightarrow> (McpRegistryError, json) result option" where
  "frame_verdict parse sid expected n trimmed =
    (if trimmed = [] then None
     else case parse trimmed of
       Inl _ \<Rightarrow> if 64 \<le> n then Some (Err (SessionError (''parse stdio response failed after '' @ show_nat n @
           '' lines (last stdout='' @ trimmed @ '')''))) else None
     | Inr v \<Rightarrow> (case jget v ''id'' of
         Some k \<Rightarrow>
           let matches = as_u64 k = Some expected \<or> as_str k = Some (show_nat expected) in
           if matches \<and> has_answer v then Some (Ok v)
           else if \<not> matches \<and> has_answer v then Some (Ok v)
           else if 64 \<le> n then Some (Err (SessionError (''MCP response id mismatch after '' @ show_nat n @
             '' lines for server '' @ quoted sid)))
           else None
       | None \<Rightarrow>
           if jget v ''method'' \<noteq> None
           then (if 64 \<le> n then Some (Err (SessionError (''MCP response missing id after '' @ show_nat n @
             '' lines for server '' @ quoted sid))) else None)
           else if has_answer v then Some (Ok v)
           else if 64 \<le> n then Some (Err (SessionError (''MCP response missing result/error after '' @ show_nat n @
             '' lines for server '' @ quoted sid)))
           else None))"

text \<open>The loop also says whether the pipe was closed.\<close>

partial_function (option) read_response ::
  "('w, 'c) stdio \<Rightarrow> 'c \<Rightarrow> McpSession \<Rightarrow> nat \<Rightarrow> nat \<Rightarrow> 'w \<Rightarrow> ((McpRegistryError, json) result \<times> bool \<times> 'w) option" where
  "read_response io c se expected n w = (case sp_read_line io c w of
     (Inl e, w) \<Rightarrow> Some (Err (SessionError (''read stdio response failed: '' @ e)), False, w)
   | (Inr line, w) \<Rightarrow>
       if line = [] then
         Some (Err (SessionError (''stdio transport '' @ quoted (se_endpoint se) @ '' closed the session'')), True, w)
       else (case frame_verdict (sp_parse io) (se_server_id se) expected (Suc n) (trim_ws line) of
           Some r \<Rightarrow> Some (r, False, w)
         | None \<Rightarrow> read_response io c se expected (Suc n) w))"

text \<open>The request line written, and the failures up to it.\<close>

definition send_line ::
  "('w, 'c) stdio \<Rightarrow> McpSession \<Rightarrow> json \<Rightarrow> ('w, 'c) persistent \<Rightarrow> (McpRegistryError, 'c) result \<times> ('w, 'c) persistent" where
  "send_line io se request st = (case ensure_process io se st of
     (Inl e, st) \<Rightarrow> (Err e, st)
   | (Inr _, st) \<Rightarrow> (case sp_print io request of
       Inl e \<Rightarrow> (Err (SessionError (''serialize stdio request failed: '' @ e)), st)
     | Inr text \<Rightarrow> (case px_processes st (se_server_id se) of
         None \<Rightarrow> (Err (SessionError (''missing persistent stdio process for '' @ quoted (se_server_id se))), st)
       | Some c \<Rightarrow> (case sp_write io c (text @ [CHR 0x0A]) (px_world st) of
           (Inl e, w) \<Rightarrow> (Err (SessionError (''write stdio request failed: '' @ e)), st\<lparr>px_world := w\<rparr>)
         | (Inr _, w) \<Rightarrow> (case sp_flush io c w of
             (Inl e, w) \<Rightarrow> (Err (SessionError (''flush stdio request failed: '' @ e)), st\<lparr>px_world := w\<rparr>)
           | (Inr _, w) \<Rightarrow> (Ok c, st\<lparr>px_world := w\<rparr>))))))"

definition invoke_raw ::
  "('w, 'c) stdio \<Rightarrow> McpSession \<Rightarrow> json \<Rightarrow> nat \<Rightarrow> ('w, 'c) persistent
    \<Rightarrow> ((McpRegistryError, json) result \<times> ('w, 'c) persistent) option" where
  "invoke_raw io se request expected st = (case send_line io se request st of
     (Inl e, st) \<Rightarrow> Some (Err e, st)
   | (Inr c, st) \<Rightarrow> map_option (\<lambda>(r, closed, w).
       (r, let st = st\<lparr>px_world := w\<rparr> in if closed then remove_process (se_server_id se) st else st))
       (read_response io c se expected 0 (px_world st)))"

definition notify_raw ::
  "('w, 'c) stdio \<Rightarrow> McpSession \<Rightarrow> json \<Rightarrow> ('w, 'c) persistent \<Rightarrow> (McpRegistryError, unit) result \<times> ('w, 'c) persistent" where
  "notify_raw io se request st = (case send_line io se request st of
     (Inl e, st) \<Rightarrow> (Err e, st) | (Inr _, st) \<Rightarrow> (Ok (), st))"

definition take_request_id :: "('w, 'c) persistent \<Rightarrow> u64 \<times> ('w, 'c) persistent" where
  "take_request_id st = (px_next_request_id st, st\<lparr>px_next_request_id := px_next_request_id st + 1\<rparr>)"

definition initialize_request :: "string \<Rightarrow> u64 \<Rightarrow> json" where
  "initialize_request version k = JObject [(''jsonrpc'', JString ''2.0''), (''id'', JNumber (show_nat (unat k))),
     (''method'', JString ''initialize''), (''params'', JObject [(''protocolVersion'', JString ''2025-11-05''),
       (''capabilities'', JObject [(''roots'', JObject [(''listChanged'', JBool False)]), (''sampling'', JObject [])]),
       (''clientInfo'', JObject [(''name'', JString ''aria-x''), (''version'', JString version)])])]"

definition initialize_session ::
  "('w, 'c) stdio \<Rightarrow> McpSession \<Rightarrow> ('w, 'c) persistent
    \<Rightarrow> ((McpRegistryError, McpSession) result \<times> ('w, 'c) persistent) option" where
  "initialize_session io se st = (let (k, st) = take_request_id st in
     case invoke_raw io se (initialize_request (sp_version io) k) (unat k) st of
       None \<Rightarrow> None
     | Some (Inl e, st) \<Rightarrow> Some (Err e, st)
     | Some (Inr response, st) \<Rightarrow> (case jget response ''result'' of
         None \<Rightarrow> Some (Err (SessionError ''missing initialize result''), st)
       | Some result \<Rightarrow>
           (let st = snd (notify_raw io se (JObject [(''jsonrpc'', JString ''2.0''),
                  (''method'', JString ''notifications/initialized''), (''params'', JObject [])]) st) in
            Some (Ok (se\<lparr>se_initialized := True,
              se_protocol_version := Option.bind (jget result ''protocolVersion'') as_str,
              se_capabilities_json := Option.bind (jget result ''capabilities'')
                (\<lambda>cap. case sp_print io cap of Inr t \<Rightarrow> Some t | Inl _ \<Rightarrow> None),
              se_last_activity_us := sp_now io (px_world st)\<rparr>), st))))"

definition rpc_request :: "u64 \<Rightarrow> string \<Rightarrow> json \<Rightarrow> json" where
  "rpc_request k method params = JObject [(''jsonrpc'', JString ''2.0''), (''id'', JNumber (show_nat (unat k))),
     (''method'', JString method), (''params'', params)]"

definition rpc_outcome :: "string \<Rightarrow> (json \<Rightarrow> string) \<Rightarrow> json \<Rightarrow> (McpRegistryError, json) result" where
  "rpc_outcome method show response = (case jget response ''error'' of
     Some e \<Rightarrow> Err (SessionError (''MCP '' @ method @ '' failed: '' @ show e))
   | None \<Rightarrow> ok_or (SessionError (''MCP '' @ method @ '' response missing result'')) (jget response ''result''))"

text \<open>\<open>to_string\<close> of a value, which does not fail.\<close>

definition show_json :: "('w, 'c) stdio \<Rightarrow> json \<Rightarrow> string" where
  "show_json io v = (case sp_print io v of Inr t \<Rightarrow> t | Inl _ \<Rightarrow> [])"

text \<open>Two attempts: after the first failure the process is thrown away and a new one initialised.\<close>

definition invoke_jsonrpc ::
  "('w, 'c) stdio \<Rightarrow> McpSession \<Rightarrow> string \<Rightarrow> json \<Rightarrow> ('w, 'c) persistent
    \<Rightarrow> ((McpRegistryError, json) result \<times> ('w, 'c) persistent) option" where
  "invoke_jsonrpc io se method params st = (let (k, st) = take_request_id st; request = rpc_request k method params in
     case invoke_raw io se request (unat k) st of
       None \<Rightarrow> None
     | Some (Inr response, st) \<Rightarrow> Some (rpc_outcome method (show_json io) response, st)
     | Some (Inl _, st) \<Rightarrow> (case initialize_session io se (remove_process (se_server_id se) st) of
         None \<Rightarrow> None
       | Some (_, st) \<Rightarrow> (case invoke_raw io se request (unat k) st of
           None \<Rightarrow> None
         | Some (Inr response, st) \<Rightarrow> Some (rpc_outcome method (show_json io) response, st)
         | Some (Inl e, st) \<Rightarrow> Some (Err e, st))))"

definition cursor_params :: "string option \<Rightarrow> json" where
  "cursor_params cursor = JObject (case cursor of Some c \<Rightarrow> [(''cursor'', JString c)] | None \<Rightarrow> [])"

text \<open>\<open>SubprocessStdioTransport\<close>: a process per request.\<close>

definition invoke_once ::
  "('w, 'c) stdio \<Rightarrow> McpSession \<Rightarrow> json \<Rightarrow> 'w \<Rightarrow> (McpRegistryError, json) result \<times> 'w" where
  "invoke_once io se request w = (case split_whitespace (se_endpoint se) of
     [] \<Rightarrow> (Err (SessionError (''empty stdio endpoint for server '' @ quoted (se_server_id se))), w)
   | program # args \<Rightarrow> (case sp_print io request of
       Inl e \<Rightarrow> (Err (SessionError (''serialize stdio request failed: '' @ e)), w)
     | Inr text \<Rightarrow> (case sp_spawn io program args w of
         (Inl e, w) \<Rightarrow> (Err (SessionError (''spawn stdio transport '' @ quoted (se_endpoint se) @ '' failed: '' @ e)), w)
       | (Inr c, w) \<Rightarrow> (case sp_write io c text w of
           (Inl e, w) \<Rightarrow> (Err (SessionError (''write stdio request failed: '' @ e)), w)
         | (Inr _, w) \<Rightarrow> (case sp_wait_output io c w of
             (Inl e, w) \<Rightarrow> (Err (SessionError (''wait stdio transport failed: '' @ e)), w)
           | (Inr (success, code, out, err), w) \<Rightarrow>
               if \<not> success then
                 (Err (SessionError (''stdio transport exited with status '' @ code @ '': '' @ err)), w)
               else (map_err (\<lambda>e. SessionError (''parse stdio response failed: '' @ e @ '' (stdout='' @ out @ '')''))
                 (sp_parse io out), w))))))"

section \<open>The transport of a session\<close>

definition fresh_session :: "('w, 'c) stdio \<Rightarrow> McpServerProfile \<Rightarrow> 'w \<Rightarrow> McpSession" where
  "fresh_session io p w = \<lparr>se_server_id = ms_server_id p, se_transport = ms_transport p, se_endpoint = ms_endpoint p,
     se_protocol_version = None, se_capabilities_json = None, se_last_activity_us = sp_now io w,
     se_initialized = False, se_connected = True\<rparr>"

definition empty_endpoint :: "McpServerProfile \<Rightarrow> McpRegistryError" where
  "empty_endpoint p = SessionError (''empty stdio endpoint for server '' @ quoted (ms_server_id p))"

definition persistent_open_session ::
  "('w, 'c) stdio \<Rightarrow> McpServerProfile \<Rightarrow> ('w, 'c) persistent
    \<Rightarrow> ((McpRegistryError, McpSession) result \<times> ('w, 'c) persistent) option" where
  "persistent_open_session io p st =
    (if trim_ws (ms_endpoint p) = [] then Some (Err (empty_endpoint p), st)
     else let se = fresh_session io p (px_world st) in
       case ensure_process io se st of
         (Inl e, st) \<Rightarrow> Some (Err e, st)
       | (Inr _, st) \<Rightarrow> initialize_session io se st)"

definition once_open_session :: "('w, 'c) stdio \<Rightarrow> McpServerProfile \<Rightarrow> 'w \<Rightarrow> (McpRegistryError, McpSession) result" where
  "once_open_session io p w =
    (if trim_ws (ms_endpoint p) = [] then Err (empty_endpoint p) else Ok (fresh_session io p w))"

definition open_session ::
  "('w, 'c) stdio \<Rightarrow> McpServerProfile \<Rightarrow> ('w, 'c) persistent
    \<Rightarrow> ((McpRegistryError, McpSession) result \<times> ('w, 'c) persistent) option" where
  "open_session io p st =
    (if ms_transport p = ''stdio'' then persistent_open_session io p st
     else if ms_transport p = ''stdio_once'' then Some (once_open_session io p (px_world st), st)
     else Some (Ok (fresh_session io p (px_world st)), st))"

text \<open>A request over the transport of the session: by JSON-RPC, by a process of its own, or by the stub.\<close>

definition over_transport ::
  "('w, 'c) stdio \<Rightarrow> McpSession \<Rightarrow> string \<Rightarrow> json \<Rightarrow> json \<Rightarrow> json \<Rightarrow> ('w, 'c) persistent
    \<Rightarrow> ((McpRegistryError, json) result \<times> ('w, 'c) persistent) option" where
  "over_transport io se method params once stub st =
    (if se_transport se = ''stdio'' then invoke_jsonrpc io se method params st
     else if se_transport se = ''stdio_once'' then
       (let (r, w) = invoke_once io se once (px_world st) in Some (r, st\<lparr>px_world := w\<rparr>))
     else Some (Ok stub, st))"

fun opt_json :: "string option \<Rightarrow> json" where
  "opt_json (Some s) = JString s"
| "opt_json None = JNull"

text \<open>The payload of the stub, the parameters of the JSON-RPC request and the request of the one-shot process.\<close>

definition stub_call_tool :: "McpSession \<Rightarrow> McpImportedTool \<Rightarrow> json \<Rightarrow> json" where
  "stub_call_tool se t input =
     JObject [(''server_id'', JString (se_server_id se)), (''tool_name'', JString (mt_tool_name t)), (''input'', input),
       (''transport'', JString (se_transport se)), (''endpoint'', JString (se_endpoint se)),
       (''mode'', JString ''client_stub_v1'')]"

definition rpc_call_tool :: "McpImportedTool \<Rightarrow> json \<Rightarrow> json" where
  "rpc_call_tool t input = JObject [(''name'', JString (mt_tool_name t)), (''arguments'', input)]"

definition once_call_tool :: "McpSession \<Rightarrow> McpImportedTool \<Rightarrow> json \<Rightarrow> json" where
  "once_call_tool se t input = JObject [(''kind'', JString ''tool''), (''server_id'', JString (se_server_id se)),
     (''tool_name'', JString (mt_tool_name t)), (''input'', input)]"

definition transport_call_tool ::
  "('w, 'c) stdio \<Rightarrow> McpSession \<Rightarrow> McpImportedTool \<Rightarrow> json \<Rightarrow> ('w, 'c) persistent
    \<Rightarrow> ((McpRegistryError, json) result \<times> ('w, 'c) persistent) option" where
  "transport_call_tool io se t input = over_transport io se ''tools/call''
     (rpc_call_tool t input) (once_call_tool se t input) (stub_call_tool se t input)"

definition stub_render_prompt :: "McpSession \<Rightarrow> McpImportedPrompt \<Rightarrow> json \<Rightarrow> json" where
  "stub_render_prompt se p arguments =
     JObject [(''server_id'', JString (se_server_id se)), (''prompt_name'', JString (mp_prompt_name p)),
       (''arguments'', arguments), (''transport'', JString (se_transport se)), (''endpoint'', JString (se_endpoint se)),
       (''rendered_prompt'', JString (''MCP prompt '' @ se_server_id se @ ''::'' @ mp_prompt_name p @
         '' ('' @ mp_description p @ '')'')),
       (''mode'', JString ''client_stub_v1'')]"

definition rpc_render_prompt :: "McpImportedPrompt \<Rightarrow> json \<Rightarrow> json" where
  "rpc_render_prompt p arguments = JObject [(''name'', JString (mp_prompt_name p)), (''arguments'', arguments)]"

definition once_render_prompt :: "McpSession \<Rightarrow> McpImportedPrompt \<Rightarrow> json \<Rightarrow> json" where
  "once_render_prompt se p arguments = JObject [(''kind'', JString ''prompt''), (''server_id'', JString (se_server_id se)),
     (''prompt_name'', JString (mp_prompt_name p)), (''arguments'', arguments)]"

definition transport_render_prompt ::
  "('w, 'c) stdio \<Rightarrow> McpSession \<Rightarrow> McpImportedPrompt \<Rightarrow> json \<Rightarrow> ('w, 'c) persistent
    \<Rightarrow> ((McpRegistryError, json) result \<times> ('w, 'c) persistent) option" where
  "transport_render_prompt io se p arguments = over_transport io se ''prompts/get''
     (rpc_render_prompt p arguments) (once_render_prompt se p arguments) (stub_render_prompt se p arguments)"

definition stub_read_resource :: "McpSession \<Rightarrow> McpImportedResource \<Rightarrow> json" where
  "stub_read_resource se x =
     JObject [(''server_id'', JString (se_server_id se)), (''resource_uri'', JString (mr_resource_uri x)),
       (''transport'', JString (se_transport se)), (''endpoint'', JString (se_endpoint se)),
       (''mime_type'', opt_json (mr_mime_type x)),
       (''content'', JString (''MCP resource '' @ se_server_id se @ ''::'' @ mr_resource_uri x @
         '' ('' @ mr_description x @ '')'')),
       (''mode'', JString ''client_stub_v1'')]"

definition rpc_read_resource :: "McpImportedResource \<Rightarrow> json" where
  "rpc_read_resource x = JObject [(''uri'', JString (mr_resource_uri x))]"

definition once_read_resource :: "McpSession \<Rightarrow> McpImportedResource \<Rightarrow> json" where
  "once_read_resource se x = JObject [(''kind'', JString ''resource''), (''server_id'', JString (se_server_id se)),
     (''resource_uri'', JString (mr_resource_uri x))]"

definition transport_read_resource ::
  "('w, 'c) stdio \<Rightarrow> McpSession \<Rightarrow> McpImportedResource \<Rightarrow> ('w, 'c) persistent
    \<Rightarrow> ((McpRegistryError, json) result \<times> ('w, 'c) persistent) option" where
  "transport_read_resource io se x = over_transport io se ''resources/read''
     (rpc_read_resource x) (once_read_resource se x) (stub_read_resource se x)"

section \<open>The client\<close>

record ('w, 'c) McpClient =
  cl_registry :: McpRegistry
  cl_transport :: "('w, 'c) persistent"
  cl_sessions :: "(string \<times> McpSession) list"

definition new_client :: "McpRegistry \<Rightarrow> 'w \<Rightarrow> ('w, 'c) McpClient" where
  "new_client r w = \<lparr>cl_registry = r,
     cl_transport = \<lparr>px_world = w, px_processes = Map.empty, px_next_request_id = 1\<rparr>, cl_sessions = []\<rparr>"

definition touched :: "('w, 'c) stdio \<Rightarrow> ('w, 'c) McpClient \<Rightarrow> McpSession \<Rightarrow> McpSession" where
  "touched io cl se = se\<lparr>se_last_activity_us := sp_now io (px_world (cl_transport cl))\<rparr>"

definition ensure_session ::
  "('w, 'c) stdio \<Rightarrow> string \<Rightarrow> ('w, 'c) McpClient \<Rightarrow> ((McpRegistryError, McpSession) result \<times> ('w, 'c) McpClient) option" where
  "ensure_session io sid cl = (case map_of (cl_sessions cl) sid of
     Some se \<Rightarrow> (let se = touched io cl se in
       Some (Ok se, cl\<lparr>cl_sessions := upsert_by fst (sid, se) (cl_sessions cl)\<rparr>))
   | None \<Rightarrow> (case map_of (rg_servers (cl_registry cl)) sid of
       None \<Rightarrow> Some (Err (UnknownServer sid), cl)
     | Some server \<Rightarrow>
         if \<not> ms_enabled server then Some (Err (DisabledServer sid), cl)
         else (case open_session io server (cl_transport cl) of
             None \<Rightarrow> None
           | Some (Inl e, st) \<Rightarrow> Some (Err e, cl\<lparr>cl_transport := st\<rparr>)
           | Some (Inr se, st) \<Rightarrow> (let cl = cl\<lparr>cl_transport := st\<rparr>; se = touched io cl se in
               Some (Ok se, cl\<lparr>cl_sessions := upsert_by fst (sid, se) (cl_sessions cl)\<rparr>)))))"

definition session_supports_primitive :: "(string \<Rightarrow> (string, json) result) \<Rightarrow> McpSession \<Rightarrow> string \<Rightarrow> bool" where
  "session_supports_primitive parse se primitive =
    (if \<not> se_initialized se then True
     else case se_capabilities_json se of
       None \<Rightarrow> True
     | Some text \<Rightarrow> (case parse text of Inr v \<Rightarrow> jget v primitive \<noteq> None | Inl _ \<Rightarrow> False))"

text \<open>The steps the three operations for an agent share once the target is known: the session, the
  advertised capability, the request.\<close>

definition with_session ::
  "('w, 'c) stdio \<Rightarrow> string \<Rightarrow> string \<Rightarrow> string
    \<Rightarrow> (McpSession \<Rightarrow> ('w, 'c) persistent \<Rightarrow> ((McpRegistryError, json) result \<times> ('w, 'c) persistent) option)
    \<Rightarrow> ('w, 'c) McpClient \<Rightarrow> ((McpRegistryError, json) result \<times> ('w, 'c) McpClient) option" where
  "with_session io sid primitive label request cl = (case ensure_session io sid cl of
     None \<Rightarrow> None
   | Some (Inl e, cl) \<Rightarrow> Some (Err e, cl)
   | Some (Inr se, cl) \<Rightarrow>
       if \<not> session_supports_primitive (sp_parse io) se primitive
       then Some (Err (SessionError (''MCP server '' @ quoted sid @ '' does not advertise '' @ label @ '' capability'')), cl)
       else map_option (\<lambda>(r, st). (r, cl\<lparr>cl_transport := st\<rparr>)) (request se (cl_transport cl)))"

definition not_allowed :: "string \<Rightarrow> string \<Rightarrow> string \<Rightarrow> McpRegistryError" where
  "not_allowed kind sid target = SessionError (kind @ '' '' @ quoted (sid @ ''::'' @ target) @ '' is not allowed'')"

definition call_tool_for_agent ::
  "('w, 'c) stdio \<Rightarrow> AgentCapabilityProfile \<Rightarrow> string \<Rightarrow> string \<Rightarrow> json \<Rightarrow> ('w, 'c) McpClient
    \<Rightarrow> ((McpRegistryError, json) result \<times> ('w, 'c) McpClient) option" where
  "call_tool_for_agent io p sid name input cl =
    (if \<not> tool_allowed_for_agent (cl_registry cl) p sid name then Some (Err (not_allowed ''tool'' sid name), cl)
     else case find (\<lambda>t. mt_tool_name t = name) (list_imported_tools (cl_registry cl) sid) of
       None \<Rightarrow> Some (Err (UnknownServer sid), cl)
     | Some t \<Rightarrow> with_session io sid ''tools'' ''tool'' (\<lambda>se. transport_call_tool io se t input) cl)"

definition render_prompt_for_agent ::
  "('w, 'c) stdio \<Rightarrow> AgentCapabilityProfile \<Rightarrow> string \<Rightarrow> string \<Rightarrow> json \<Rightarrow> ('w, 'c) McpClient
    \<Rightarrow> ((McpRegistryError, json) result \<times> ('w, 'c) McpClient) option" where
  "render_prompt_for_agent io p sid name arguments cl =
    (if \<not> prompt_allowed_for_agent (cl_registry cl) p sid name then Some (Err (not_allowed ''prompt'' sid name), cl)
     else case find (\<lambda>t. mp_prompt_name t = name) (list_imported_prompts (cl_registry cl) sid) of
       None \<Rightarrow> Some (Err (UnknownServer sid), cl)
     | Some t \<Rightarrow> with_session io sid ''prompts'' ''prompt'' (\<lambda>se. transport_render_prompt io se t arguments) cl)"

definition read_resource_for_agent ::
  "('w, 'c) stdio \<Rightarrow> AgentCapabilityProfile \<Rightarrow> string \<Rightarrow> string \<Rightarrow> ('w, 'c) McpClient
    \<Rightarrow> ((McpRegistryError, json) result \<times> ('w, 'c) McpClient) option" where
  "read_resource_for_agent io p sid uri cl =
    (if \<not> resource_allowed_for_agent (cl_registry cl) p sid uri then Some (Err (not_allowed ''resource'' sid uri), cl)
     else case find (\<lambda>t. mr_resource_uri t = uri) (list_imported_resources (cl_registry cl) sid) of
       None \<Rightarrow> Some (Err (UnknownServer sid), cl)
     | Some t \<Rightarrow> with_session io sid ''resources'' ''resource'' (\<lambda>se. transport_read_resource io se t) cl)"

definition session_count :: "('w, 'c) McpClient \<Rightarrow> nat" where
  "session_count cl = length (cl_sessions cl)"

definition session_health :: "('w, 'c) McpClient \<Rightarrow> json list" where
  "session_health cl = map (\<lambda>(_, se). JObject [(''server_id'', JString (se_server_id se)),
     (''transport'', JString (se_transport se)), (''endpoint'', JString (se_endpoint se)),
     (''connected'', JBool (se_connected se)), (''initialized'', JBool (se_initialized se)),
     (''protocol_version'', opt_json (se_protocol_version se)), (''capabilities_json'', opt_json (se_capabilities_json se)),
     (''last_activity_us'', JNumber (show_nat (unat (se_last_activity_us se))))]) (sort_key fst (cl_sessions cl))"

definition probe_sessions :: "u64 \<Rightarrow> ('w, 'c) McpClient \<Rightarrow> json list" where
  "probe_sessions now cl = map (\<lambda>(sid, se). JObject [(''server_id'', JString sid), (''connected'', JBool (se_connected se)),
     (''initialized'', JBool (se_initialized se)),
     (''idle_seconds'', JNumber (show_nat (unat (saturating_sub now (se_last_activity_us se)) div 1000000)))])
     (sort_key fst (cl_sessions cl))"

definition saturating_mul :: "'a::len word \<Rightarrow> 'a word \<Rightarrow> 'a word" where
  "saturating_mul x y = (if unat x * unat y < 2 ^ LENGTH('a) then x * y else - 1)"

definition evict_stale_sessions :: "u64 \<Rightarrow> u64 \<Rightarrow> ('w, 'c) McpClient \<Rightarrow> nat \<times> ('w, 'c) McpClient" where
  "evict_stale_sessions max_idle_seconds now cl =
    (let limit = saturating_mul max_idle_seconds 1000000;
         kept = filter (\<lambda>(_, se). saturating_sub now (se_last_activity_us se) \<le> limit) (cl_sessions cl) in
     (length (cl_sessions cl) - length kept, cl\<lparr>cl_sessions := kept\<rparr>))"

section \<open>Discovery of a catalogue\<close>

definition list_page ::
  "('w, 'c) stdio \<Rightarrow> string \<Rightarrow> string \<Rightarrow> string \<Rightarrow> string option \<Rightarrow> ('w, 'c) McpClient
    \<Rightarrow> ((McpRegistryError, json) result \<times> ('w, 'c) McpClient) option" where
  "list_page io primitive method sid cursor cl = (case ensure_session io sid cl of
     None \<Rightarrow> None
   | Some (Inl e, cl) \<Rightarrow> Some (Err e, cl)
   | Some (Inr se, cl) \<Rightarrow>
       if \<not> session_supports_primitive (sp_parse io) se primitive then Some (Ok (JObject [(primitive, JArray [])]), cl)
       else if se_transport se = ''stdio'' then
         map_option (\<lambda>(r, st). (r, cl\<lparr>cl_transport := st\<rparr>))
           (invoke_jsonrpc io se method (cursor_params cursor) (cl_transport cl))
       else Some (Err (SessionError (''MCP transport '' @ quoted (se_transport se) @
         '' does not support catalog discovery'')), cl))"

definition list_tools_page ::
  "('w, 'c) stdio \<Rightarrow> string \<Rightarrow> string option \<Rightarrow> ('w, 'c) McpClient
    \<Rightarrow> ((McpRegistryError, json) result \<times> ('w, 'c) McpClient) option" where
  "list_tools_page io = list_page io ''tools'' ''tools/list''"

definition list_prompts_page ::
  "('w, 'c) stdio \<Rightarrow> string \<Rightarrow> string option \<Rightarrow> ('w, 'c) McpClient
    \<Rightarrow> ((McpRegistryError, json) result \<times> ('w, 'c) McpClient) option" where
  "list_prompts_page io = list_page io ''prompts'' ''prompts/list''"

definition list_resources_page ::
  "('w, 'c) stdio \<Rightarrow> string \<Rightarrow> string option \<Rightarrow> ('w, 'c) McpClient
    \<Rightarrow> ((McpRegistryError, json) result \<times> ('w, 'c) McpClient) option" where
  "list_resources_page io = list_page io ''resources'' ''resources/list''"

fun as_array :: "json \<Rightarrow> json list option" where
  "as_array (JArray xs) = Some xs"
| "as_array _ = None"

definition page_entries :: "string \<Rightarrow> json \<Rightarrow> json list" where
  "page_entries key page = (case Option.bind (jget page key) as_array of Some xs \<Rightarrow> xs | None \<Rightarrow> [])"

definition next_cursor :: "json \<Rightarrow> string option" where
  "next_cursor page =
    (let c = (case Option.bind (jget page ''nextCursor'') as_str of
          Some s \<Rightarrow> Some s | None \<Rightarrow> Option.bind (jget page ''cursor'') as_str) in
     case c of Some s \<Rightarrow> if trim_ws s = [] then None else Some s | None \<Rightarrow> None)"

fun parse_all :: "(json \<Rightarrow> ('e, 'a) result) \<Rightarrow> json list \<Rightarrow> ('e, 'a list) result" where
  "parse_all f [] = Ok []"
| "parse_all f (x # xs) = and_then (f x) (\<lambda>y. map_ok (Cons y) (parse_all f xs))"

text \<open>\<open>pages\<close> counts the pages asked for before this one.\<close>

function collect_pages ::
  "(string option \<Rightarrow> 's \<Rightarrow> ((McpRegistryError, json) result \<times> 's) option) \<Rightarrow> string
    \<Rightarrow> (json \<Rightarrow> (McpRegistryError, 'a) result) \<Rightarrow> nat \<Rightarrow> string option \<Rightarrow> 'a list \<Rightarrow> 's
    \<Rightarrow> ((McpRegistryError, 'a list) result \<times> 's) option" where
  "collect_pages page key parse pages cursor acc st =
    (if 32 < Suc pages then Some (Err (SessionError (''MCP '' @ key @ '' pagination exceeded 32 pages'')), st)
     else case page cursor st of
       None \<Rightarrow> None
     | Some (Inl e, st) \<Rightarrow> Some (Err e, st)
     | Some (Inr v, st) \<Rightarrow> (case parse_all parse (page_entries key v) of
         Inl e \<Rightarrow> Some (Err e, st)
       | Inr xs \<Rightarrow>
           if next_cursor v = None \<or> next_cursor v = cursor then Some (Ok (acc @ xs), st)
           else collect_pages page key parse (Suc pages) (next_cursor v) (acc @ xs) st))"
  by pat_completeness auto
termination collect_pages
  by (relation "measure (\<lambda>(_, _, _, pages, _, _, _). 32 - pages)") auto

declare collect_pages.simps [simp del]

definition collect_paginated ::
  "(string option \<Rightarrow> 's \<Rightarrow> ((McpRegistryError, json) result \<times> 's) option) \<Rightarrow> string
    \<Rightarrow> (json \<Rightarrow> (McpRegistryError, 'a) result) \<Rightarrow> 's \<Rightarrow> ((McpRegistryError, 'a list) result \<times> 's) option" where
  "collect_paginated page key parse = collect_pages page key parse 0 None []"

definition str_field :: "string \<Rightarrow> json \<Rightarrow> string option" where
  "str_field k v = Option.bind (jget v k) as_str"

definition default_schema :: json where
  "default_schema = JObject [(''type'', JString ''object''), (''additionalProperties'', JBool True)]"

definition parse_discovered_tool ::
  "(json \<Rightarrow> (string, string) result) \<Rightarrow> json \<Rightarrow> (McpRegistryError, McpDiscoveredTool) result" where
  "parse_discovered_tool print v =
     and_then (ok_or (SessionError ''MCP tools/list entry missing name'') (str_field ''name'' v)) (\<lambda>name.
     let schema = (case jget v ''inputSchema'' of Some s \<Rightarrow> s
           | None \<Rightarrow> (case jget v ''parameters'' of Some s \<Rightarrow> s | None \<Rightarrow> default_schema)) in
     and_then (map_err (\<lambda>e. SessionError (''serialize MCP discovered tool schema failed: '' @ e)) (print schema)) (\<lambda>text.
     Ok \<lparr>dt_tool_name = name, dt_description = (case str_field ''description'' v of Some d \<Rightarrow> d | None \<Rightarrow> []),
         dt_parameters_schema = text\<rparr>))"

definition argument_property :: "json \<Rightarrow> (string \<times> json) option" where
  "argument_property a = map_option (\<lambda>name. (name, JObject ((''type'', JString ''string'') #
     (case str_field ''description'' a of Some d \<Rightarrow> [(''description'', JString d)] | None \<Rightarrow> [])))) (str_field ''name'' a)"

definition arguments_schema :: "json list \<Rightarrow> json" where
  "arguments_schema arguments = JObject [(''type'', JString ''object''),
     (''properties'', JObject (fold (\<lambda>(k, v). jput k v) (List.map_filter argument_property arguments) [])),
     (''additionalProperties'', JBool True)]"

definition parse_discovered_prompt ::
  "(json \<Rightarrow> (string, string) result) \<Rightarrow> json \<Rightarrow> (McpRegistryError, McpDiscoveredPrompt) result" where
  "parse_discovered_prompt print v =
     and_then (ok_or (SessionError ''MCP prompts/list entry missing name'') (str_field ''name'' v)) (\<lambda>name.
     Ok \<lparr>dp_prompt_name = name, dp_description = (case str_field ''description'' v of Some d \<Rightarrow> d | None \<Rightarrow> []),
         dp_arguments_schema = map_option (\<lambda>arguments.
           case print (arguments_schema arguments) of Inr t \<Rightarrow> t | Inl _ \<Rightarrow> ''{}'')
             (Option.bind (jget v ''arguments'') as_array)\<rparr>)"

definition parse_discovered_resource :: "json \<Rightarrow> (McpRegistryError, McpDiscoveredResource) result" where
  "parse_discovered_resource v =
     and_then (ok_or (SessionError ''MCP resources/list entry missing uri'') (str_field ''uri'' v)) (\<lambda>uri.
     Ok \<lparr>dr_resource_uri = uri,
         dr_description = (case str_field ''description'' v of Some d \<Rightarrow> d
           | None \<Rightarrow> (case str_field ''name'' v of Some d \<Rightarrow> d | None \<Rightarrow> [])),
         dr_mime_type = str_field ''mimeType'' v\<rparr>)"

definition discover_server_catalog ::
  "('w, 'c) stdio \<Rightarrow> string \<Rightarrow> ('w, 'c) McpClient \<Rightarrow> ((McpRegistryError, McpServerCatalog) result \<times> ('w, 'c) McpClient) option" where
  "discover_server_catalog io sid cl = (case ensure_session io sid cl of
     None \<Rightarrow> None
   | Some (Inl e, cl) \<Rightarrow> Some (Err e, cl)
   | Some (Inr se, cl) \<Rightarrow>
     (case collect_paginated (list_tools_page io sid) ''tools'' (parse_discovered_tool (sp_print io)) cl of
        None \<Rightarrow> None
      | Some (Inl e, cl) \<Rightarrow> Some (Err e, cl)
      | Some (Inr tools, cl) \<Rightarrow>
     (case collect_paginated (list_prompts_page io sid) ''prompts'' (parse_discovered_prompt (sp_print io)) cl of
        None \<Rightarrow> None
      | Some (Inl e, cl) \<Rightarrow> Some (Err e, cl)
      | Some (Inr prompts, cl) \<Rightarrow>
     (case collect_paginated (list_resources_page io sid) ''resources'' parse_discovered_resource cl of
        None \<Rightarrow> None
      | Some (Inl e, cl) \<Rightarrow> Some (Err e, cl)
      | Some (Inr resources, cl) \<Rightarrow>
          Some (Ok \<lparr>mc_server_id = sid, mc_protocol_version = se_protocol_version se,
            mc_capabilities_json = se_capabilities_json se, mc_tools = tools, mc_prompts = prompts,
            mc_resources = resources\<rparr>, cl)))))"

end
