(* ===== verification/McpLaws.thy ===== *)
theory McpLaws
  imports Mcp
begin

text \<open>What the MCP client guarantees: processes run and sessions exist only for enabled servers of the registry,
  a request for an agent reaches the transport only when the registry allows it, the discovery of a catalogue
  ends within 32 pages and collects all of them, and when the read of a response returns.\<close>

section \<open>Reading a response\<close>

lemma verdict_at_limit:
  assumes "64 \<le> n" "line \<noteq> []" "frame_verdict parse sid k n line = None"
  shows False
  using assms by (auto simp: frame_verdict_def Let_def split: sum.splits option.splits if_splits)

lemma verdict_blank: "frame_verdict parse sid k n [] = None"
  by (simp add: frame_verdict_def)

text \<open>A pipe every line of which has text ends the read within 64 lines.\<close>

lemma read_response_ends:
  assumes "\<And>w line w'. sp_read_line io c w = (Ok line, w') \<Longrightarrow> line = [] \<or> trim_ws line \<noteq> []"
  shows "n \<le> 64 \<Longrightarrow> read_response io c se k n w \<noteq> None"
proof (induction "64 - n" arbitrary: n w)
  case 0
  then have n: "n = 64" by simp
  show ?case
  proof (cases "sp_read_line io c w")
    case (Pair r w')
    show ?thesis
    proof (cases r)
      case (Inr line)
      have "line = [] \<or> frame_verdict (sp_parse io) (se_server_id se) k (Suc n) (trim_ws line) \<noteq> None"
        using assms [of w line w'] Pair Inr verdict_at_limit [of "Suc n"] n by auto
      then show ?thesis using Pair Inr by (subst read_response.simps) (auto split: option.split)
    qed (use Pair in \<open>subst read_response.simps, simp\<close>)
  qed
next
  case (Suc d)
  have ih: "read_response io c se k (Suc n) w' \<noteq> None" for w'
    using Suc.hyps(1) [of "Suc n" w'] Suc.hyps(2) by simp
  show ?case
    by (subst read_response.simps) (use ih in \<open>auto split: prod.split sum.split option.split\<close>)
qed

lemma read_response_blank:
  assumes "\<And>w. \<exists>line w'. sp_read_line io c w = (Ok line, w') \<and> line \<noteq> [] \<and> trim_ws line = []"
  shows "read_response io c se k n w = None"
proof -
  have "io' = io \<longrightarrow> c' = c \<longrightarrow> False" if "read_response io' c' se' k' n' w' = Some y" for io' c' se' k' n' w' y
  proof (rule read_response.raw_induct [where P = "\<lambda>io' c' se' k' n' w' y. io' = io \<longrightarrow> c' = c \<longrightarrow> False", OF _ that])
    fix rec :: "('a, 'b) stdio \<Rightarrow> 'b \<Rightarrow> McpSession \<Rightarrow> nat \<Rightarrow> nat \<Rightarrow> 'a \<Rightarrow> ((McpRegistryError, json) result \<times> bool \<times> 'a) option"
    fix io' c' se' k' n' w' y
    assume ih: "\<And>io' c' se' k' n' w' y. rec io' c' se' k' n' w' = Some y \<Longrightarrow> io' = io \<longrightarrow> c' = c \<longrightarrow> False"
      and body: "(case sp_read_line io' c' w' of
         (Inl e, w) \<Rightarrow> Some (Err (SessionError (''read stdio response failed: '' @ e)), False, w)
       | (Inr line, w) \<Rightarrow> if line = [] then
           Some (Err (SessionError (''stdio transport '' @ quoted (se_endpoint se') @ '' closed the session'')), True, w)
         else (case frame_verdict (sp_parse io') (se_server_id se') k' (Suc n') (trim_ws line) of
             None \<Rightarrow> rec io' c' se' k' (Suc n') w
           | Some r \<Rightarrow> Some (r, False, w))) = Some y"
    show "io' = io \<longrightarrow> c' = c \<longrightarrow> False"
    proof (intro impI)
      assume eq: "io' = io" "c' = c"
      obtain line v where "sp_read_line io c w' = (Ok line, v)" "line \<noteq> []" "trim_ws line = []" using assms by blast
      then have "rec io c se' k' (Suc n') v = Some y" using body eq by (simp add: verdict_blank)
      then show False using ih by blast
    qed
  qed
  from this [of io c se k n w] show ?thesis by (cases "read_response io c se k n w") blast+
qed

text \<open>A subprocess that writes blank lines for ever: the call of an agent never returns.\<close>

definition talks :: "('w, 'c) stdio \<Rightarrow> 'c \<Rightarrow> bool" where
  "talks io c \<longleftrightarrow> (\<forall>line w. \<exists>w'. sp_write io c line w = (Ok (), w')) \<and> (\<forall>w. \<exists>w'. sp_flush io c w = (Ok (), w'))"

lemma send_line_running:
  assumes "px_processes st (se_server_id se) = Some c" "talks io c" "sp_print io request = Ok text"
  shows "\<exists>w. send_line io se request st = (Ok c, st\<lparr>px_world := w\<rparr>)"
proof -
  obtain w1 where "sp_write io c (text @ [CHR 0x0A]) (px_world st) = (Ok (), w1)" using assms(2) unfolding talks_def by blast
  moreover obtain w2 where "sp_flush io c w1 = (Ok (), w2)" using assms(2) unfolding talks_def by blast
  ultimately show ?thesis using assms(1,3) by (auto simp: send_line_def ensure_process_def)
qed

lemma invoke_jsonrpc_hangs:
  assumes "px_processes st (se_server_id se) = Some c" "talks io c" "\<And>v. \<exists>text. sp_print io v = Ok text"
    "\<And>w. \<exists>line w'. sp_read_line io c w = (Ok line, w') \<and> line \<noteq> [] \<and> trim_ws line = []"
  shows "invoke_jsonrpc io se method params st = None"
proof -
  let ?st = "st\<lparr>px_next_request_id := px_next_request_id st + 1\<rparr>"
  have "invoke_raw io se r k ?st = None" for r k
  proof -
    obtain t where "sp_print io r = Ok t" using assms(3) by blast
    from send_line_running [OF _ assms(2) this, of ?st se] assms(1)
    obtain w where "send_line io se r ?st = (Ok c, ?st\<lparr>px_world := w\<rparr>)" by auto
    then show ?thesis using read_response_blank [OF assms(4)] by (simp add: invoke_raw_def)
  qed
  then show ?thesis by (simp add: invoke_jsonrpc_def take_request_id_def Let_def)
qed

section \<open>Which processes run\<close>

text \<open>An operation over the pipe of a session starts at most the process of that server.\<close>

definition starts_only :: "string \<Rightarrow> ('w, 'c) persistent \<Rightarrow> ('w, 'c) persistent \<Rightarrow> bool" where
  "starts_only sid st st' \<longleftrightarrow> dom (px_processes st') \<subseteq> insert sid (dom (px_processes st))"

lemma starts_only_trans: "starts_only sid a b \<Longrightarrow> starts_only sid b c \<Longrightarrow> starts_only sid a c"
  unfolding starts_only_def by blast

lemma starts_only_refl [simp]: "starts_only sid a a"
  by (auto simp: starts_only_def)

lemma starts_only_fields [simp]:
  "starts_only sid a (b\<lparr>px_world := w\<rparr>) = starts_only sid a b"
  "starts_only sid a (b\<lparr>px_next_request_id := k\<rparr>) = starts_only sid a b"
  "starts_only sid (a\<lparr>px_next_request_id := k\<rparr>) b = starts_only sid a b"
  by (simp_all add: starts_only_def)

lemma starts_only_remove: "starts_only sid a b \<Longrightarrow> starts_only sid a (remove_process k b)"
  by (auto simp: starts_only_def remove_process_def)

lemma ensure_process_starts: "ensure_process io se st = (r, st') \<Longrightarrow> starts_only (se_server_id se) st st'"
  by (auto simp: ensure_process_def starts_only_def split: if_splits prod.splits sum.splits)

lemma send_line_starts: "send_line io se request st = (r, st') \<Longrightarrow> starts_only (se_server_id se) st st'"
  using ensure_process_starts [of io se st]
  by (auto simp: send_line_def split: prod.splits sum.splits option.splits)

lemma invoke_raw_starts:
  assumes "invoke_raw io se request k st = Some (r, st')" shows "starts_only (se_server_id se) st st'"
proof -
  obtain r' st1 where sent: "send_line io se request st = (r', st1)" by fastforce
  show ?thesis
    using assms send_line_starts [OF sent] sent
    by (auto simp: invoke_raw_def Let_def intro!: starts_only_remove split: sum.splits if_splits)
qed

lemma initialize_session_starts:
  assumes "initialize_session io se st = Some (r, st')" shows "starts_only (se_server_id se) st st'"
proof -
  let ?st = "snd (take_request_id st)"
  have 0: "starts_only (se_server_id se) st ?st" by (simp add: take_request_id_def)
  have notified: "starts_only (se_server_id se) a (snd (notify_raw io se v b))" if "starts_only (se_server_id se) a b" for a b v
    using that send_line_starts [of io se v b]
    by (auto simp: notify_raw_def split: prod.splits sum.splits intro: starts_only_trans)
  show ?thesis
    using assms invoke_raw_starts [of io se _ _ ?st] starts_only_trans [OF 0]
    by (auto simp: initialize_session_def Let_def case_prod_beta split: option.splits sum.splits intro!: notified)
qed

lemma invoke_jsonrpc_starts:
  assumes "invoke_jsonrpc io se method params st = Some (r, st')" shows "starts_only (se_server_id se) st st'"
proof -
  let ?s = "se_server_id se" and ?st = "snd (take_request_id st)"
  have 0: "starts_only ?s st ?st" by (simp add: take_request_id_def)
  have retry: "starts_only ?s st st3" if "invoke_raw io se v k ?st = Some (x, st1)"
    "initialize_session io se (remove_process ?s st1) = Some (y, st2)" "invoke_raw io se v k st2 = Some (z, st3)"
    for v k x y z st1 st2 st3
    using starts_only_trans [OF 0 invoke_raw_starts [OF that(1)]] initialize_session_starts [OF that(2)]
      invoke_raw_starts [OF that(3)] by (auto simp: starts_only_def remove_process_def split: if_splits) blast
  have once: "starts_only ?s st st1" if "invoke_raw io se v k ?st = Some (x, st1)" for v k x st1
    using starts_only_trans [OF 0 invoke_raw_starts [OF that]] .
  show ?thesis
    using assms by (auto simp: invoke_jsonrpc_def Let_def case_prod_beta split: option.splits sum.splits
        intro: once retry)
qed

lemma over_transport_starts:
  assumes "over_transport io se rpc ps once stub st = Some (r, st')"
  shows "dom (px_processes st') \<subseteq> (if se_transport se = ''stdio'' then insert (se_server_id se) else id) (dom (px_processes st))"
  using assms invoke_jsonrpc_starts [of io se rpc ps st r st']
  by (auto simp: over_transport_def starts_only_def case_prod_beta Let_def split: if_splits)

section \<open>Invariants of the client\<close>

definition serves :: "McpRegistry \<Rightarrow> string \<Rightarrow> McpServerProfile \<Rightarrow> bool" where
  "serves r k p \<longleftrightarrow> map_of (rg_servers r) k = Some p \<and> ms_server_id p = k \<and> ms_enabled p"

definition registry_ok :: "McpRegistry \<Rightarrow> bool" where
  "registry_ok r \<longleftrightarrow> (\<forall>k p. map_of (rg_servers r) k = Some p \<longrightarrow>
     ms_server_id p = k \<and> \<not> reserved_native_mcp_target k)"

definition session_ok :: "McpRegistry \<Rightarrow> string \<Rightarrow> McpSession \<Rightarrow> bool" where
  "session_ok r k se \<longleftrightarrow> se_server_id se = k \<and>
     (\<exists>p. serves r k p \<and> se_transport se = ms_transport p \<and> se_endpoint se = ms_endpoint p)"

definition processes_ok :: "McpRegistry \<Rightarrow> ('w, 'c) persistent \<Rightarrow> bool" where
  "processes_ok r st \<longleftrightarrow> (\<forall>k\<in>dom (px_processes st). \<exists>p. serves r k p \<and> ms_transport p = ''stdio'')"

definition client_ok :: "('w, 'c) McpClient \<Rightarrow> bool" where
  "client_ok cl \<longleftrightarrow> registry_ok (cl_registry cl) \<and> processes_ok (cl_registry cl) (cl_transport cl) \<and>
     (\<forall>(k, se)\<in>set (cl_sessions cl). session_ok (cl_registry cl) k se)"

lemma processes_okI:
  assumes "processes_ok r st" "dom (px_processes st') \<subseteq> insert k (dom (px_processes st))"
    "serves r k p" "ms_transport p = ''stdio''"
  shows "processes_ok r st'"
  using assms unfolding processes_ok_def by blast

lemma initialized_session:
  assumes "initialize_session io se st = Some (Ok se', st')"
  shows "se_server_id se' = se_server_id se \<and> se_transport se' = se_transport se \<and> se_endpoint se' = se_endpoint se"
  using assms by (auto simp: initialize_session_def Let_def case_prod_beta split: option.splits sum.splits)

lemma open_session_ok:
  assumes "open_session io p st = Some (r, st')" "processes_ok reg st" "serves reg k p"
  shows "processes_ok reg st' \<and> (\<forall>se. r = Ok se \<longrightarrow> session_ok reg k se)"
proof (cases "ms_transport p = ''stdio''")
  case True
  let ?se = "fresh_session io p (px_world st)"
  have id: "se_server_id ?se = k" using assms(3) by (simp add: fresh_session_def serves_def)
  have ens: "processes_ok reg st1" if "ensure_process io ?se st = (x, st1)" for x st1
    by (rule processes_okI [OF assms(2) _ assms(3) True])
      (use ensure_process_starts [OF that] id in \<open>simp add: starts_only_def\<close>)
  have init: "processes_ok reg st2" if "processes_ok reg st1" "initialize_session io ?se st1 = Some (x, st2)" for x st1 st2
    by (rule processes_okI [OF that(1) _ assms(3) True])
      (use initialize_session_starts [OF that(2)] id in \<open>simp add: starts_only_def\<close>)
  have "session_ok reg k se" if "initialize_session io ?se st1 = Some (Ok se, st2)" for se st1 st2
    using initialized_session [OF that] assms(3) unfolding session_ok_def by (auto simp: fresh_session_def serves_def)
  then show ?thesis
    using assms(1,2) True ens init
    by (auto simp: open_session_def persistent_open_session_def once_open_session_def Let_def split: if_splits prod.splits sum.splits)
next
  case False
  then show ?thesis
    using assms by (auto simp: open_session_def persistent_open_session_def once_open_session_def Let_def session_ok_def fresh_session_def serves_def split: if_splits)
qed

lemma session_ok_touched [simp]: "session_ok r k (touched io cl se) = session_ok r k se"
  by (simp add: session_ok_def touched_def)

lemma set_upsert_fst: "set (upsert_by fst (k, v) t) \<subseteq> insert (k, v) (set t)"
  by (auto simp: upsert_by_def update_by_def split: if_splits)

lemma ensure_session_ok:
  assumes "ensure_session io sid cl = Some (r, cl')" "client_ok cl"
  shows "client_ok cl' \<and> cl_registry cl' = cl_registry cl \<and> (\<forall>se. r = Ok se \<longrightarrow> session_ok (cl_registry cl) sid se)"
proof (cases "map_of (cl_sessions cl) sid")
  case (Some se)
  then have "session_ok (cl_registry cl) sid se" using assms(2) map_of_SomeD [OF Some] by (auto simp: client_ok_def)
  then show ?thesis
    using assms Some by (auto simp: ensure_session_def client_ok_def Let_def dest!: set_upsert_fst [THEN subsetD])
next
  case None
  show ?thesis
  proof (cases "map_of (rg_servers (cl_registry cl)) sid")
    case (Some p)
    show ?thesis
    proof (cases "ms_enabled p")
      case True
      then have srv: "serves (cl_registry cl) sid p"
        using Some assms(2) by (auto simp: serves_def client_ok_def registry_ok_def)
      have opened: "processes_ok (cl_registry cl) st' \<and> (\<forall>se. x = Ok se \<longrightarrow> session_ok (cl_registry cl) sid se)"
        if "open_session io p (cl_transport cl) = Some (x, st')" for x st'
        using open_session_ok [OF that _ srv] assms(2) by (simp add: client_ok_def)
      show ?thesis
      proof (cases "open_session io p (cl_transport cl)")
        case (Some y)
        obtain x st' where y: "y = (x, st')" by (cases y)
        show ?thesis
          using assms None True Some y \<open>map_of (rg_servers (cl_registry cl)) sid = Some p\<close> opened [of x st']
          by (cases x) (auto simp: ensure_session_def client_ok_def Let_def dest!: set_upsert_fst [THEN subsetD])
      qed (use assms None True \<open>map_of (rg_servers (cl_registry cl)) sid = Some p\<close> in \<open>simp add: ensure_session_def\<close>)
    qed (use assms None Some in \<open>auto simp: ensure_session_def\<close>)
  qed (use assms None in \<open>auto simp: ensure_session_def\<close>)
qed

lemma map_of_find_by: "map_of t k = map_option snd (find_by fst k t)"
  by (induction t) auto

lemma map_of_upsert: "map_of (upsert_by fst (k, v) t) j = (if j = k then Some v else map_of t j)"
  by (simp add: map_of_find_by find_by_upsert_by)

text \<open>A request over the transport keeps the invariant, whatever it does to the process of its own session.\<close>

lemma transport_ok:
  assumes "client_ok cl" "session_ok (cl_registry cl) sid se"
    "dom (px_processes st') \<subseteq> (if se_transport se = ''stdio'' then insert (se_server_id se) else id) (dom (px_processes (cl_transport cl)))"
  shows "client_ok (cl\<lparr>cl_transport := st'\<rparr>)"
proof -
  have "processes_ok (cl_registry cl) st'"
  proof (cases "se_transport se = ''stdio''")
    case True
    obtain p where "serves (cl_registry cl) sid p" "ms_transport p = ''stdio''" "se_server_id se = sid"
      using assms(2) True by (auto simp: session_ok_def)
    then show ?thesis using processes_okI [of "cl_registry cl" "cl_transport cl" st' sid p] assms(1,3) True
      by (simp add: client_ok_def)
  qed (use assms in \<open>auto simp: client_ok_def processes_ok_def\<close>)
  then show ?thesis using assms(1) by (simp add: client_ok_def)
qed

lemma with_session_ok:
  assumes "with_session io sid prim label request cl = Some (r, cl')" "client_ok cl"
    and "\<And>se st r st'. request se st = Some (r, st') \<Longrightarrow>
      dom (px_processes st') \<subseteq> (if se_transport se = ''stdio'' then insert (se_server_id se) else id) (dom (px_processes st))"
  shows "client_ok cl' \<and> cl_registry cl' = cl_registry cl"
proof -
  obtain x cl1 where ens: "ensure_session io sid cl = Some (x, cl1)"
    using assms(1) by (auto simp: with_session_def split: option.splits prod.splits)
  note ok = ensure_session_ok [OF ens assms(2)]
  show ?thesis
  proof (cases x)
    case (Inr se)
    show ?thesis
    proof (cases "session_supports_primitive (sp_parse io) se prim")
      case True
      then obtain st' where "request se (cl_transport cl1) = Some (r, st')" "cl' = cl1\<lparr>cl_transport := st'\<rparr>"
        using assms(1) ens Inr by (auto simp: with_session_def)
      then show ?thesis using transport_ok [of cl1 sid se st'] ok Inr assms(3) by simp
    qed (use assms(1) ens ok Inr in \<open>auto simp: with_session_def\<close>)
  qed (use assms(1) ens ok in \<open>auto simp: with_session_def\<close>)
qed

lemma list_page_ok:
  assumes "list_page io prim rpc sid cursor cl = Some (r, cl')" "client_ok cl"
  shows "client_ok cl' \<and> cl_registry cl' = cl_registry cl"
proof -
  obtain x cl1 where ens: "ensure_session io sid cl = Some (x, cl1)"
    using assms(1) by (auto simp: list_page_def split: option.splits prod.splits)
  note ok = ensure_session_ok [OF ens assms(2)]
  show ?thesis
  proof (cases x)
    case (Inr se)
    show ?thesis
    proof (cases "session_supports_primitive (sp_parse io) se prim \<and> se_transport se = ''stdio''")
      case True
      then obtain st' where st': "invoke_jsonrpc io se rpc (cursor_params cursor) (cl_transport cl1) = Some (r, st')"
          "cl' = cl1\<lparr>cl_transport := st'\<rparr>"
        using assms(1) ens Inr by (auto simp: list_page_def)
      then show ?thesis using transport_ok [of cl1 sid se st'] ok Inr invoke_jsonrpc_starts [OF st'(1)] True
        by (simp add: starts_only_def)
    qed (use assms(1) ens ok Inr in \<open>auto simp: list_page_def split: if_splits\<close>)
  qed (use assms(1) ens ok in \<open>auto simp: list_page_def\<close>)
qed

lemma collect_pages_inv:
  assumes page: "\<And>cursor st r st'. I st \<Longrightarrow> page cursor st = Some (r, st') \<Longrightarrow> I st'"
  shows "I st \<Longrightarrow> collect_pages page key parse n cursor acc st = Some (r, st') \<Longrightarrow> I st'"
proof (induction "32 - n" arbitrary: n cursor acc st)
  case 0
  then show ?case by (simp add: collect_pages.simps [of page])
next
  case (Suc d)
  have n: "\<not> 32 < Suc n" using Suc.hyps(2) by simp
  show ?case
  proof (cases "page cursor st")
    case (Some y)
    obtain x st1 where y: "y = (x, st1)" by (cases y)
    have I1: "I st1" using page [OF Suc.prems(1)] Some y by blast
    show ?thesis
    proof (cases x)
      case (Inr v)
      then show ?thesis
        using Suc.prems(2) Some y n I1 Suc.hyps(1) [of "Suc n" st1] Suc.hyps(2)
        by (auto simp: collect_pages.simps [of page key parse n] split: sum.splits if_splits)
    qed (use Suc.prems(2) Some y n I1 in \<open>simp add: collect_pages.simps [of page key parse n]\<close>)
  qed (use Suc.prems(2) n in \<open>simp add: collect_pages.simps [of page key parse n]\<close>)
qed

lemma discover_ok:
  assumes "discover_server_catalog io sid cl = Some (r, cl')" "client_ok cl"
  shows "client_ok cl' \<and> cl_registry cl' = cl_registry cl"
proof -
  define I where "I c \<longleftrightarrow> client_ok c \<and> cl_registry c = cl_registry cl" for c :: "('a, 'b) McpClient"
  have page: "I c'" if "I c" "list_page io prim rpc sid cursor c = Some (x, c')" for prim rpc cursor x c c'
    using list_page_ok [OF that(2)] that(1) by (simp add: I_def)
  have t: "I c'" if "collect_paginated (list_tools_page io sid) key parse c = Some (x, c')" "I c"
    for key x c c' and parse :: "json \<Rightarrow> (McpRegistryError, McpDiscoveredTool) result"
    by (rule collect_pages_inv [where I = I, OF _ that(2) that(1) [unfolded collect_paginated_def list_tools_page_def]])
      (rule page)
  have p: "I c'" if "collect_paginated (list_prompts_page io sid) key parse c = Some (x, c')" "I c"
    for key x c c' and parse :: "json \<Rightarrow> (McpRegistryError, McpDiscoveredPrompt) result"
    by (rule collect_pages_inv [where I = I, OF _ that(2) that(1) [unfolded collect_paginated_def list_prompts_page_def]])
      (rule page)
  have r: "I c'" if "collect_paginated (list_resources_page io sid) key parse c = Some (x, c')" "I c"
    for key x c c' and parse :: "json \<Rightarrow> (McpRegistryError, McpDiscoveredResource) result"
    by (rule collect_pages_inv [where I = I, OF _ that(2) that(1) [unfolded collect_paginated_def list_resources_page_def]])
      (rule page)
  obtain x cl1 where ens: "ensure_session io sid cl = Some (x, cl1)"
    using assms(1) by (auto simp: discover_server_catalog_def split: option.splits prod.splits)
  have "I cl1" using ensure_session_ok [OF ens assms(2)] by (simp add: I_def)
  then have "I cl'"
    using assms(1) ens by (auto simp: discover_server_catalog_def split: option.splits prod.splits sum.splits
        dest: t p r)
  then show ?thesis by (simp add: I_def)
qed

text \<open>The operations on a client.\<close>

inductive client_step :: "('w, 'c) stdio \<Rightarrow> ('w, 'c) McpClient \<Rightarrow> ('w, 'c) McpClient \<Rightarrow> bool" for io where
  Call: "call_tool_for_agent io p sid name input cl = Some (r, cl') \<Longrightarrow> client_step io cl cl'"
| Render: "render_prompt_for_agent io p sid name input cl = Some (r, cl') \<Longrightarrow> client_step io cl cl'"
| Read: "read_resource_for_agent io p sid name cl = Some (r, cl') \<Longrightarrow> client_step io cl cl'"
| Discover: "discover_server_catalog io sid cl = Some (c, cl') \<Longrightarrow> client_step io cl cl'"
| Evict: "evict_stale_sessions idle now cl = (n, cl') \<Longrightarrow> client_step io cl cl'"

lemma request_ok:
  "transport_call_tool io se t input st = Some (r, st') \<Longrightarrow>
    dom (px_processes st') \<subseteq> (if se_transport se = ''stdio'' then insert (se_server_id se) else id) (dom (px_processes st))"
  "transport_render_prompt io se p input st = Some (r, st') \<Longrightarrow>
    dom (px_processes st') \<subseteq> (if se_transport se = ''stdio'' then insert (se_server_id se) else id) (dom (px_processes st))"
  "transport_read_resource io se x st = Some (r, st') \<Longrightarrow>
    dom (px_processes st') \<subseteq> (if se_transport se = ''stdio'' then insert (se_server_id se) else id) (dom (px_processes st))"
  unfolding transport_call_tool_def transport_render_prompt_def transport_read_resource_def
  by (rule over_transport_starts, assumption)+

lemma client_step_ok: "client_step io cl cl' \<Longrightarrow> client_ok cl \<Longrightarrow> client_ok cl' \<and> cl_registry cl' = cl_registry cl"
proof (induction rule: client_step.induct)
  case (Call p sid name input cl r cl')
  then show ?case using with_session_ok [OF _ Call.prems request_ok(1)]
    by (auto simp: call_tool_for_agent_def split: if_splits option.splits)
next
  case (Render p sid name input cl r cl')
  then show ?case using with_session_ok [OF _ Render.prems request_ok(2)]
    by (auto simp: render_prompt_for_agent_def split: if_splits option.splits)
next
  case (Read p sid name cl r cl')
  then show ?case using with_session_ok [OF _ Read.prems request_ok(3)]
    by (auto simp: read_resource_for_agent_def split: if_splits option.splits)
next
  case (Discover sid cl c cl')
  then show ?case using discover_ok by blast
next
  case (Evict idle now cl n cl')
  then show ?case by (auto simp: evict_stale_sessions_def client_ok_def Let_def)
qed

section \<open>Discovery collects every page\<close>

text \<open>The pages a server gives, each under the cursor of the one before, and whether the last of the first
  \<open>k + 1\<close> pages is the end: it names no cursor, or its own.\<close>

fun cursor_at :: "(string option \<Rightarrow> json) \<Rightarrow> nat \<Rightarrow> string option" where
  "cursor_at page 0 = None"
| "cursor_at page (Suc k) = next_cursor (page (cursor_at page k))"

definition is_last_page :: "(string option \<Rightarrow> json) \<Rightarrow> nat \<Rightarrow> bool" where
  "is_last_page page k \<longleftrightarrow> cursor_at page (Suc k) = None \<or> cursor_at page (Suc k) = cursor_at page k"

lemma collect_pages_chain:
  assumes "k < 32" "n \<le> k" "is_last_page page k" "\<forall>i<k. \<not> is_last_page page i"
    "\<And>i. i \<le> k \<Longrightarrow> parse_all parse (page_entries key (page (cursor_at page i))) = Ok (f i)"
  shows "collect_pages (\<lambda>c st. Some (Ok (page c), Suc st)) key parse n (cursor_at page n) acc st =
     Some (Ok (acc @ concat (map f [n..<Suc k])), st + (Suc k - n))"
  using assms(2)
proof (induction "k - n" arbitrary: n acc st)
  case 0
  then have "n = k" by simp
  then show ?case using assms(1,3) assms(5) [of k]
    by (subst collect_pages.simps) (auto simp: is_last_page_def)
next
  case (Suc d)
  then have lt: "n < k" and more: "\<not> is_last_page page n" using assms(4) by auto
  have "[n..<Suc k] = n # [Suc n..<Suc k]" using lt by (simp add: upt_rec)
  then show ?case
    using Suc.hyps(1) [of "Suc n" "acc @ f n" "Suc st"] Suc.hyps(2) lt more assms(1) assms(5) [of n]
    by (subst collect_pages.simps) (auto simp: is_last_page_def)
qed

lemma collect_pages_bounded:
  "collect_pages (\<lambda>c st. map_option (\<lambda>(r, s). (r, s, Suc (snd st))) (page c (fst st))) key parse n cursor acc st = Some (r, st')
     \<Longrightarrow> snd st' \<le> snd st + (32 - n)"
proof (induction "32 - n" arbitrary: n cursor acc st)
  case 0
  then show ?case by (subst (asm) collect_pages.simps) auto
next
  case (Suc d)
  have n: "\<not> 32 < Suc n" "32 - n = Suc (32 - Suc n)" using Suc.hyps(2) by simp_all
  show ?case
  proof (cases "page cursor (fst st)")
    case (Some y)
    obtain x s1 where y: "y = (x, s1)" by (cases y)
    show ?thesis
      using Suc.prems Some y n Suc.hyps(1) [of "Suc n" _ _ "(s1, Suc (snd st))"] Suc.hyps(2)
      by (subst (asm) collect_pages.simps) (auto split: sum.splits if_splits)
  qed (use Suc.prems n in \<open>subst (asm) collect_pages.simps, simp\<close>)
qed

text \<open>Discovery asks a server for at most 32 pages and, when the pages end within them, collects the
  entries of all pages in order.\<close>

lemma discovery_collects_pages:
  assumes "k < 32" "is_last_page page k" "list_all (\<lambda>i. \<not> is_last_page page i) [0..<k]"
    "list_all (\<lambda>i. parse_all parse (page_entries key (page (cursor_at page i))) = Ok (f i)) [0..<Suc k]"
  shows "collect_paginated (\<lambda>c asked. Some (Ok (page c), Suc asked)) key parse 0 = Some (Ok (concat (map f [0..<Suc k])), Suc k)"
proof -
  have p: "parse_all parse (page_entries key (page (cursor_at page i))) = Ok (f i)" if "i \<le> k" for i
    using assms(4) that unfolding list_all_iff by (auto simp: le_less)
  show ?thesis
    using collect_pages_chain [of k 0 page parse key f "[]" 0] assms(1-3) p
    by (simp add: collect_paginated_def list_all_iff)
qed

text \<open>C32: when a running MCP process writes nothing but blank lines, the call of an agent never returns, for the
  limit of 64 lines does not apply to them.\<close>

theorem blank_lines_hang_call:
  assumes "tool_allowed_for_agent (cl_registry cl) prof sid name"
    and "map_of (cl_sessions cl) sid = Some se" "se_server_id se = sid" "se_transport se = ''stdio''"
    and "session_supports_primitive (sp_parse io) se ''tools''"
    and "px_processes (cl_transport cl) sid = Some c" "talks io c" "\<And>v. \<exists>t. sp_print io v = Ok t"
    and blank: "\<And>w. \<exists>line w'. sp_read_line io c w = (Ok line, w') \<and> line \<noteq> [] \<and> trim_ws line = []"
  shows "call_tool_for_agent io prof sid name input cl = None"
proof -
  have "list_ex (\<lambda>t. mt_tool_name t = name) (list_imported_tools (cl_registry cl) sid)"
    using assms(1) by (auto simp: tool_allowed_for_agent_def list_imported_tools_def split: if_splits)
  then obtain t where t: "find (\<lambda>t. mt_tool_name t = name) (list_imported_tools (cl_registry cl) sid) = Some t"
    by (cases "find (\<lambda>t. mt_tool_name t = name) (list_imported_tools (cl_registry cl) sid)")
      (auto simp: find_None_iff list_ex_iff)
  have supported: "session_supports_primitive (sp_parse io) (touched io cl se) ''tools''"
    using assms(5) by (simp add: session_supports_primitive_def touched_def)
  have "invoke_jsonrpc io (touched io cl se) rpc params (cl_transport cl) = None" for rpc params
    by (rule invoke_jsonrpc_hangs [OF _ assms(7,8) blank]) (simp add: touched_def assms(3,6))
  then have "transport_call_tool io (touched io cl se) t input (cl_transport cl) = None"
    using assms(4) by (simp add: transport_call_tool_def over_transport_def touched_def)
  then show ?thesis
    using assms(1,2) t supported by (simp add: call_tool_for_agent_def with_session_def ensure_session_def Let_def)
qed

section \<open>Examples\<close>

definition example_pages :: "string option \<Rightarrow> json" where
  "example_pages c = (if c = None then JObject [(''tools'', JArray [JString ''a'']), (''nextCursor'', JString ''2'')]
     else JObject [(''tools'', JArray [JString ''b''])])"

lemma discovery_collects_pages_example:
  "collect_paginated (\<lambda>c asked. Some (Ok (example_pages c), Suc asked)) ''tools'' (\<lambda>v. Ok (as_str v)) 0 =
     Some (Ok [Some ''a'', Some ''b''], 2)"
proof -
  have c: "cursor_at example_pages 0 = None" "cursor_at example_pages (Suc 0) = Some ''2''"
    "cursor_at example_pages (Suc (Suc 0)) = None"
    by (simp_all add: example_pages_def next_cursor_def trim_ws_def is_whitespace_def char_code_def)
  have u: "[0..<Suc (Suc 0)] = [0, Suc 0]" "[0..<Suc 0] = [0]" by (simp_all add: upt_rec)
  show ?thesis
    using discovery_collects_pages [of "Suc 0" example_pages "\<lambda>v. Ok (as_str v)" "''tools''"
        "\<lambda>i. if i = 0 then [Some ''a''] else [Some ''b'']"] c u
    by (simp add: is_last_page_def page_entries_def example_pages_def del: cursor_at.simps upt_Suc)
qed

definition example_profile :: AgentCapabilityProfile where
  "example_profile = \<lparr>cp_agent_id = ''a'', cp_class = Generalist, cp_tool_allowlist = [], cp_skill_allowlist = [],
      cp_mcp_server_allowlist = [''s''], cp_mcp_tool_allowlist = [''t''], cp_mcp_prompt_allowlist = [],
      cp_mcp_resource_allowlist = [], cp_filesystem_scopes = [], cp_retrieval_scopes = [],
      cp_delegation_scope = None, cp_web_domain_allowlist = [], cp_web_domain_blocklist = [],
      cp_browser_profile_allowlist = [], cp_browser_action_scope = None, cp_computer_profile_allowlist = [],
      cp_computer_action_scope = None, cp_browser_session_scope = None, cp_crawl_scope = None,
      cp_web_approval_policy = None, cp_web_transport_allowlist = [], cp_requires_elevation = False,
      cp_side_effect_level = ReadOnlyEffect, cp_trust_profile = None\<rparr>"

definition example_server :: McpServerProfile where
  "example_server = \<lparr>ms_server_id = ''s'', ms_display_name = ''S'', ms_transport = ''stdio'', ms_endpoint = ''run'',
     ms_auth_ref = None, ms_enabled = True\<rparr>"

definition example_tool :: McpImportedTool where
  "example_tool = \<lparr>mt_import_id = ''i'', mt_server_id = ''s'', mt_tool_name = ''t'', mt_description = [],
     mt_parameters_schema = ''{}''\<rparr>"

definition example_session :: McpSession where
  "example_session = \<lparr>se_server_id = ''s'', se_transport = ''stdio'', se_endpoint = ''run'', se_protocol_version = None,
     se_capabilities_json = None, se_last_activity_us = 0, se_initialized = True, se_connected = True\<rparr>"

text \<open>A process that takes every line and answers each with the text \<open>answer\<close>.\<close>

definition example_io :: "string \<Rightarrow> (unit, unit) stdio" where
  "example_io answer = \<lparr>sp_spawn = (\<lambda>_ _ w. (Ok (), w)), sp_write = (\<lambda>_ _ w. (Ok (), w)), sp_flush = (\<lambda>_ w. (Ok (), w)),
     sp_read_line = (\<lambda>_ w. (Ok answer, w)), sp_wait_output = (\<lambda>_ w. (Err ''no'', w)), sp_now = (\<lambda>_. 0),
     sp_parse = (\<lambda>_. Err ''no''), sp_print = (\<lambda>_. Ok ''{}''), sp_version = ''0''\<rparr>"

lemma blank_lines_hang_call_witness:
  "call_tool_for_agent (example_io [CHR 0x0A]) example_profile ''s'' ''t'' JNull
     \<lparr>cl_registry = \<lparr>rg_servers = [(''s'', example_server)], rg_tools = [(''s'', [example_tool])], rg_prompts = [],
        rg_resources = []\<rparr>,
      cl_transport = \<lparr>px_world = (), px_processes = [''s'' \<mapsto> ()], px_next_request_id = 1\<rparr>,
      cl_sessions = [(''s'', example_session)]\<rparr> = None"
  by (rule blank_lines_hang_call [where se = example_session and c = "()"])
    (simp_all add: tool_allowed_for_agent_def server_enabled_def entry_or_default_def example_profile_def
      example_server_def example_tool_def example_session_def session_supports_primitive_def talks_def example_io_def
      trim_ws_def is_whitespace_def char_code_def)

end
