(* ===== verification/McpStore.thy ===== *)
theory McpStore
  imports McpLaws
begin

text \<open>The MCP tables of the runtime store (\<open>aria-x/src/runtime_store/mcp.rs\<close>) and the MCP tools over them and
  over the pooled client (\<open>aria-x/src/tools.rs\<close>): registering and synchronising servers, importing, binding,
  invoking.  A row keeps its payload as a value; the \<open>kind\<close> column is the constructor of the payload.\<close>

section \<open>Tables\<close>

datatype mcp_payload = ToolPayload McpImportedTool | PromptPayload McpImportedPrompt | ResourcePayload McpImportedResource

fun payload_kind :: "mcp_payload \<Rightarrow> McpPrimitiveKind" where
  "payload_kind (ToolPayload _) = ToolPrimitive"
| "payload_kind (PromptPayload _) = PromptPrimitive"
| "payload_kind (ResourcePayload _) = ResourcePrimitive"

fun payload_import_id :: "mcp_payload \<Rightarrow> string" where
  "payload_import_id (ToolPayload t) = mt_import_id t"
| "payload_import_id (PromptPayload p) = mp_import_id p"
| "payload_import_id (ResourcePayload x) = mr_import_id x"

fun payload_server_id :: "mcp_payload \<Rightarrow> string" where
  "payload_server_id (ToolPayload t) = mt_server_id t"
| "payload_server_id (PromptPayload p) = mp_server_id p"
| "payload_server_id (ResourcePayload x) = mr_server_id x"

record server_row =
  sr_profile :: McpServerProfile
  sr_updated_at_us :: u64

record import_row =
  ir_import_id :: string
  ir_server_id :: string
  ir_payload :: mcp_payload
  ir_updated_at_us :: u64

record McpBindingRecord =
  mb_binding_id :: string
  mb_agent_id :: string
  mb_server_id :: string
  mb_primitive_kind :: McpPrimitiveKind
  mb_target_name :: string
  mb_created_at_us :: u64

record McpImportCacheRecord =
  ic_server_id :: string
  ic_transport :: string
  ic_tool_count :: u32
  ic_prompt_count :: u32
  ic_resource_count :: u32
  ic_refreshed_at_us :: u64

record mcp_store =
  mcp_servers :: "server_row list"
  mcp_imports :: "import_row list"
  mcp_bindings :: "McpBindingRecord list"
  mcp_import_cache :: "McpImportCacheRecord list"

definition sr_id :: "server_row \<Rightarrow> string" where
  "sr_id r = ms_server_id (sr_profile r)"

definition upsert_mcp_server :: "McpServerProfile \<Rightarrow> u64 \<Rightarrow> mcp_store \<Rightarrow> mcp_store" where
  "upsert_mcp_server p now st = st\<lparr>mcp_servers := upsert_by sr_id \<lparr>sr_profile = p, sr_updated_at_us = now\<rparr> (mcp_servers st)\<rparr>"

definition list_mcp_servers :: "mcp_store \<Rightarrow> McpServerProfile list" where
  "list_mcp_servers st = map sr_profile (sort_key (\<lambda>r. sint (sr_updated_at_us r)) (mcp_servers st))"

definition import_row_of :: "mcp_payload \<Rightarrow> string \<Rightarrow> u64 \<Rightarrow> import_row" where
  "import_row_of p sid now = \<lparr>ir_import_id = payload_import_id p, ir_server_id = sid, ir_payload = p, ir_updated_at_us = now\<rparr>"

definition upsert_mcp_import_payload :: "mcp_payload \<Rightarrow> u64 \<Rightarrow> mcp_store \<Rightarrow> mcp_store" where
  "upsert_mcp_import_payload p now st =
     st\<lparr>mcp_imports := upsert_by ir_import_id (import_row_of p (payload_server_id p) now) (mcp_imports st)\<rparr>"

definition import_conflict :: string where
  "import_conflict = ''write mcp import failed: UNIQUE constraint failed: mcp_imports.import_id''"

fun insert_imports :: "mcp_payload list \<Rightarrow> string \<Rightarrow> u64 \<Rightarrow> import_row list \<Rightarrow> (string, import_row list) result" where
  "insert_imports [] sid now rows = Ok rows"
| "insert_imports (p # ps) sid now rows =
    (if has_key ir_import_id (payload_import_id p) rows then Err import_conflict
     else insert_imports ps sid now (rows @ [import_row_of p sid now]))"

text \<open>One transaction: on a failure the store is as before.\<close>

definition replace_mcp_import_payloads ::
  "string \<Rightarrow> McpPrimitiveKind \<Rightarrow> mcp_payload list \<Rightarrow> u64 \<Rightarrow> mcp_store \<Rightarrow> (string, mcp_store) result" where
  "replace_mcp_import_payloads sid kind ps now st = map_ok (\<lambda>rows. st\<lparr>mcp_imports := rows\<rparr>)
     (insert_imports ps sid now
       (filter (\<lambda>r. \<not> (ir_server_id r = sid \<and> payload_kind (ir_payload r) = kind)) (mcp_imports st)))"

definition list_mcp_import_payloads :: "mcp_store \<Rightarrow> string \<Rightarrow> McpPrimitiveKind \<Rightarrow> mcp_payload list" where
  "list_mcp_import_payloads st sid kind = map ir_payload (sort_key (\<lambda>r. sint (ir_updated_at_us r))
     (filter (\<lambda>r. ir_server_id r = sid \<and> payload_kind (ir_payload r) = kind) (mcp_imports st)))"

fun tool_payload :: "mcp_payload \<Rightarrow> McpImportedTool option" where
  "tool_payload (ToolPayload t) = Some t" | "tool_payload _ = None"

fun prompt_payload :: "mcp_payload \<Rightarrow> McpImportedPrompt option" where
  "prompt_payload (PromptPayload t) = Some t" | "prompt_payload _ = None"

fun resource_payload :: "mcp_payload \<Rightarrow> McpImportedResource option" where
  "resource_payload (ResourcePayload t) = Some t" | "resource_payload _ = None"

definition list_mcp_imported_tools :: "mcp_store \<Rightarrow> string \<Rightarrow> McpImportedTool list" where
  "list_mcp_imported_tools st sid = List.map_filter tool_payload (list_mcp_import_payloads st sid ToolPrimitive)"

definition list_mcp_imported_prompts :: "mcp_store \<Rightarrow> string \<Rightarrow> McpImportedPrompt list" where
  "list_mcp_imported_prompts st sid = List.map_filter prompt_payload (list_mcp_import_payloads st sid PromptPrimitive)"

definition list_mcp_imported_resources :: "mcp_store \<Rightarrow> string \<Rightarrow> McpImportedResource list" where
  "list_mcp_imported_resources st sid = List.map_filter resource_payload (list_mcp_import_payloads st sid ResourcePrimitive)"

definition binding_target :: "McpBindingRecord \<Rightarrow> string \<times> string \<times> McpPrimitiveKind \<times> string" where
  "binding_target b = (mb_agent_id b, mb_server_id b, mb_primitive_kind b, mb_target_name b)"

definition upsert_mcp_binding :: "McpBindingRecord \<Rightarrow> mcp_store \<Rightarrow> (string, mcp_store) result" where
  "upsert_mcp_binding b st =
    (if list_ex (\<lambda>x. mb_binding_id x = mb_binding_id b \<and> binding_target x \<noteq> binding_target b) (mcp_bindings st)
     then Err ''write mcp binding failed: UNIQUE constraint failed: mcp_bindings.binding_id''
     else Ok (st\<lparr>mcp_bindings := upsert_by binding_target b (mcp_bindings st)\<rparr>))"

definition list_mcp_bindings_for_agent :: "mcp_store \<Rightarrow> string \<Rightarrow> McpBindingRecord list" where
  "list_mcp_bindings_for_agent st agent =
     sort_key (\<lambda>b. sint (mb_created_at_us b)) (filter (\<lambda>b. mb_agent_id b = agent) (mcp_bindings st))"

definition upsert_mcp_import_cache_record :: "McpImportCacheRecord \<Rightarrow> mcp_store \<Rightarrow> mcp_store" where
  "upsert_mcp_import_cache_record c st = st\<lparr>mcp_import_cache := upsert_by ic_server_id c (mcp_import_cache st)\<rparr>"

definition read_mcp_import_cache_record :: "mcp_store \<Rightarrow> string \<Rightarrow> (string, McpImportCacheRecord) result" where
  "read_mcp_import_cache_record st sid =
     ok_or ''read mcp import cache failed: Query returned no rows'' (find_by ic_server_id sid (mcp_import_cache st))"

section \<open>From the tables to a registry\<close>

definition ensure_mcp_server_exists :: "mcp_store \<Rightarrow> string \<Rightarrow> (OrchestratorError, unit) result" where
  "ensure_mcp_server_exists st sid = (case find (\<lambda>p. ms_server_id p = sid) (list_mcp_servers st) of
     None \<Rightarrow> Err (ToolError (''unknown MCP server '' @ quoted sid))
   | Some p \<Rightarrow> if \<not> ms_enabled p then Err (ToolError (''disabled MCP server '' @ quoted sid)) else Ok ())"

fun import_all :: "('a \<Rightarrow> McpRegistry \<Rightarrow> (McpRegistryError, McpRegistry) result) \<Rightarrow> string \<Rightarrow> 'a list \<Rightarrow> McpRegistry
    \<Rightarrow> (string, McpRegistry) result" where
  "import_all f what [] r = Ok r"
| "import_all f what (x # xs) r =
     and_then (map_err (\<lambda>e. ''load MCP '' @ what @ '' import failed: '' @ show_mcp_error e) (f x r)) (import_all f what xs)"

definition load_server :: "mcp_store \<Rightarrow> McpServerProfile \<Rightarrow> McpRegistry \<Rightarrow> (string, McpRegistry) result" where
  "load_server st p r = (let sid = ms_server_id p in
     and_then (import_all import_tool ''tool'' (list_mcp_imported_tools st sid) (register_server p r)) (\<lambda>r.
     and_then (import_all import_prompt ''prompt'' (list_mcp_imported_prompts st sid) r) (\<lambda>r.
     import_all import_resource ''resource'' (list_mcp_imported_resources st sid) r)))"

fun load_servers :: "mcp_store \<Rightarrow> McpServerProfile list \<Rightarrow> McpRegistry \<Rightarrow> (string, McpRegistry) result" where
  "load_servers st [] r = Ok r"
| "load_servers st (p # ps) r = and_then (load_server st p r) (load_servers st ps)"

definition load_mcp_registry_from_store :: "mcp_store \<Rightarrow> (string, McpRegistry) result" where
  "load_mcp_registry_from_store st = load_servers st (list_mcp_servers st) new_registry"

section \<open>The pooled client\<close>

record ('w, 'c) mcp_runtime =
  mx_store :: mcp_store
  mx_pool :: "('w, 'c) McpClient option"
  mx_world :: 'w

definition current_world :: "('w, 'c) mcp_runtime \<Rightarrow> 'w" where
  "current_world rt = (case mx_pool rt of Some cl \<Rightarrow> px_world (cl_transport cl) | None \<Rightarrow> mx_world rt)"

definition pooled_mcp_client :: "('w, 'c) mcp_runtime \<Rightarrow> (string, ('w, 'c) McpClient) result" where
  "pooled_mcp_client rt = (case mx_pool rt of
     Some cl \<Rightarrow> Ok cl
   | None \<Rightarrow> map_ok (\<lambda>r. new_client r (mx_world rt)) (load_mcp_registry_from_store (mx_store rt)))"

definition invalidate_pooled_mcp_client :: "('w, 'c) mcp_runtime \<Rightarrow> ('w, 'c) mcp_runtime" where
  "invalidate_pooled_mcp_client rt = rt\<lparr>mx_pool := None, mx_world := current_world rt\<rparr>"

text \<open>An operation on the pooled client.\<close>

definition on_client ::
  "(('w, 'c) McpClient \<Rightarrow> ((McpRegistryError, 'a) result \<times> ('w, 'c) McpClient) option) \<Rightarrow> ('w, 'c) mcp_runtime
    \<Rightarrow> ((OrchestratorError, 'a) result \<times> ('w, 'c) mcp_runtime) option" where
  "on_client f rt = (case pooled_mcp_client rt of
     Inl e \<Rightarrow> Some (Err (ToolError e), rt)
   | Inr cl \<Rightarrow> map_option (\<lambda>(r, cl). (map_err (\<lambda>e. ToolError (show_mcp_error e)) r, rt\<lparr>mx_pool := Some cl\<rparr>)) (f cl))"

definition parse_mcp_primitive_kind :: "string \<Rightarrow> (OrchestratorError, McpPrimitiveKind) result" where
  "parse_mcp_primitive_kind value = (let k = to_lower (trim_ws value) in
     if k = ''tool'' then Ok ToolPrimitive
     else if k = ''prompt'' then Ok PromptPrimitive
     else if k = ''resource'' then Ok ResourcePrimitive
     else Err (ToolError (''unknown primitive_kind '' @ quoted k)))"

fun debug_primitive :: "McpPrimitiveKind \<Rightarrow> string" where
  "debug_primitive ToolPrimitive = ''Tool''"
| "debug_primitive PromptPrimitive = ''Prompt''"
| "debug_primitive ResourcePrimitive = ''Resource''"

definition ensure_mcp_binding_target_exists ::
  "mcp_store \<Rightarrow> string \<Rightarrow> McpPrimitiveKind \<Rightarrow> string \<Rightarrow> (OrchestratorError, unit) result" where
  "ensure_mcp_binding_target_exists st sid kind target =
    (let present = (case kind of
         ToolPrimitive \<Rightarrow> list_ex (\<lambda>t. mt_tool_name t = target) (list_mcp_imported_tools st sid)
       | PromptPrimitive \<Rightarrow> list_ex (\<lambda>t. mp_prompt_name t = target) (list_mcp_imported_prompts st sid)
       | ResourcePrimitive \<Rightarrow> list_ex (\<lambda>t. mr_resource_uri t = target) (list_mcp_imported_resources st sid)) in
     if \<not> present then Err (ToolError (''unknown MCP '' @ debug_primitive kind @ '' target '' @ quoted (sid @ ''::'' @ target)))
     else Ok ())"

definition mcp_binding_exists :: "mcp_store \<Rightarrow> string \<Rightarrow> string \<Rightarrow> McpPrimitiveKind \<Rightarrow> string \<Rightarrow> bool" where
  "mcp_binding_exists st agent sid kind target = list_ex (\<lambda>b. mb_server_id b = sid \<and> mb_primitive_kind b = kind \<and>
     mb_target_name b = target) (list_mcp_bindings_for_agent st agent)"

definition refresh_mcp_import_cache :: "mcp_store \<Rightarrow> string \<Rightarrow> u64 \<Rightarrow> (string, mcp_store) result" where
  "refresh_mcp_import_cache st sid now =
     and_then (ok_or (''unknown MCP server '' @ quoted sid) (find (\<lambda>p. ms_server_id p = sid) (list_mcp_servers st))) (\<lambda>p.
     Ok (upsert_mcp_import_cache_record \<lparr>ic_server_id = ms_server_id p, ic_transport = ms_transport p,
       ic_tool_count = of_nat (length (list_mcp_imported_tools st sid)),
       ic_prompt_count = of_nat (length (list_mcp_imported_prompts st sid)),
       ic_resource_count = of_nat (length (list_mcp_imported_resources st sid)),
       ic_refreshed_at_us = now\<rparr> st))"

definition imported_tool_from_discovery :: "string \<Rightarrow> McpDiscoveredTool \<Rightarrow> McpImportedTool" where
  "imported_tool_from_discovery sid t = \<lparr>mt_import_id = ''mcp-tool:'' @ sid @ '':'' @ dt_tool_name t,
     mt_server_id = sid, mt_tool_name = dt_tool_name t, mt_description = dt_description t,
     mt_parameters_schema = dt_parameters_schema t\<rparr>"

definition imported_prompt_from_discovery :: "string \<Rightarrow> McpDiscoveredPrompt \<Rightarrow> McpImportedPrompt" where
  "imported_prompt_from_discovery sid p = \<lparr>mp_import_id = ''mcp-prompt:'' @ sid @ '':'' @ dp_prompt_name p,
     mp_server_id = sid, mp_prompt_name = dp_prompt_name p, mp_description = dp_description p,
     mp_arguments_schema = dp_arguments_schema p\<rparr>"

definition imported_resource_from_discovery :: "string \<Rightarrow> McpDiscoveredResource \<Rightarrow> McpImportedResource" where
  "imported_resource_from_discovery sid x = \<lparr>mr_import_id = ''mcp-resource:'' @ sid @ '':'' @ dr_resource_uri x,
     mr_server_id = sid, mr_resource_uri = dr_resource_uri x, mr_description = dr_description x,
     mr_mime_type = dr_mime_type x\<rparr>"

text \<open>The bindings of one kind, their ids drawn from \<open>uuids\<close>; those written before a failure stay.\<close>

fun bind_targets ::
  "string \<Rightarrow> string \<Rightarrow> McpPrimitiveKind \<Rightarrow> u64 \<Rightarrow> (nat \<Rightarrow> string) \<Rightarrow> nat \<Rightarrow> string list \<Rightarrow> mcp_store
    \<Rightarrow> (string, unit) result \<times> mcp_store" where
  "bind_targets agent sid kind now uuids n [] st = (Ok (), st)"
| "bind_targets agent sid kind now uuids n (t # ts) st =
     (case upsert_mcp_binding \<lparr>mb_binding_id = ''mcp-binding-'' @ uuids n, mb_agent_id = agent, mb_server_id = sid,
         mb_primitive_kind = kind, mb_target_name = t, mb_created_at_us = now\<rparr> st of
       Inl e \<Rightarrow> (Err e, st)
     | Inr st \<Rightarrow> bind_targets agent sid kind now uuids (Suc n) ts st)"

definition bind_discovered_mcp_entries ::
  "string \<Rightarrow> string \<Rightarrow> McpImportedTool list \<Rightarrow> McpImportedPrompt list \<Rightarrow> McpImportedResource list \<Rightarrow> bool \<Rightarrow> bool \<Rightarrow> bool
    \<Rightarrow> u64 \<Rightarrow> (nat \<Rightarrow> string) \<Rightarrow> mcp_store \<Rightarrow> (string, nat \<times> nat \<times> nat) result \<times> mcp_store" where
  "bind_discovered_mcp_entries agent sid tools prompts resources bt bp br now uuids st =
    (let ts = (if bt then map mt_tool_name tools else []);
         ps = (if bp then map mp_prompt_name prompts else []);
         rs = (if br then map mr_resource_uri resources else []) in
     case bind_targets agent sid ToolPrimitive now uuids 0 ts st of (Inl e, st) \<Rightarrow> (Err e, st) | (Inr _, st) \<Rightarrow>
     (case bind_targets agent sid PromptPrimitive now uuids (length ts) ps st of (Inl e, st) \<Rightarrow> (Err e, st) | (Inr _, st) \<Rightarrow>
     (case bind_targets agent sid ResourcePrimitive now uuids (length ts + length ps) rs st of
        (Inl e, st) \<Rightarrow> (Err e, st)
      | (Inr _, st) \<Rightarrow> (Ok (length ts, length ps, length rs), st))))"

section \<open>The MCP tools\<close>

text \<open>The arguments are decoded, \<open>agent\<close> is the invoking agent, and \<open>persistent\<close> says that the sessions directory
  is set.\<close>

definition needs_persistence :: "string \<Rightarrow> OrchestratorError" where
  "needs_persistence tool = ToolError (tool @ '' requires runtime persistence (sessions_dir)'')"

definition reserved_error :: "McpServerProfile \<Rightarrow> OrchestratorError" where
  "reserved_error p = ToolError (''MCP server '' @ quoted (ms_server_id p) @
     '' is reserved for a native/internal subsystem boundary'')"

definition reserved_profile :: "McpServerProfile \<Rightarrow> bool" where
  "reserved_profile p \<longleftrightarrow> reserved_native_mcp_target (ms_server_id p) \<or> reserved_native_mcp_target (ms_display_name p)"

definition store_server :: "McpServerProfile \<Rightarrow> u64 \<Rightarrow> ('w, 'c) mcp_runtime \<Rightarrow> ('w, 'c) mcp_runtime" where
  "store_server p now rt = invalidate_pooled_mcp_client (rt\<lparr>mx_store := upsert_mcp_server p now (mx_store rt)\<rparr>)"

definition register_mcp_server ::
  "bool \<Rightarrow> McpServerProfile \<Rightarrow> u64 \<Rightarrow> ('w, 'c) mcp_runtime \<Rightarrow> (OrchestratorError, ToolExecutionResult) result \<times> ('w, 'c) mcp_runtime" where
  "register_mcp_server persistent p now rt =
    (if \<not> persistent then (Err (needs_persistence ''register_mcp_server''), rt)
     else if reserved_profile p then (Err (reserved_error p), rt)
     else (Ok (Structured (''Registered MCP server '' @ quoted (ms_server_id p) @ ''.'') ''mcp_server''
            (JObject [(''server_id'', JString (ms_server_id p)), (''transport'', JString (ms_transport p)),
              (''enabled'', JBool (ms_enabled p))])),
          store_server p now rt))"

text \<open>The imports of a discovered catalogue replace those of the server, kind after kind, then the cached counts.\<close>

definition replace_catalog ::
  "string \<Rightarrow> McpImportedTool list \<Rightarrow> McpImportedPrompt list \<Rightarrow> McpImportedResource list \<Rightarrow> u64 \<Rightarrow> mcp_store
    \<Rightarrow> (string, unit) result \<times> mcp_store" where
  "replace_catalog sid tools prompts resources now st =
    (case replace_mcp_import_payloads sid ToolPrimitive (map ToolPayload tools) now st of
       Inl e \<Rightarrow> (Err e, st)
     | Inr st \<Rightarrow> (case replace_mcp_import_payloads sid PromptPrimitive (map PromptPayload prompts) now st of
         Inl e \<Rightarrow> (Err e, st)
       | Inr st \<Rightarrow> (case replace_mcp_import_payloads sid ResourcePrimitive (map ResourcePayload resources) now st of
           Inl e \<Rightarrow> (Err e, st)
         | Inr st \<Rightarrow> (case refresh_mcp_import_cache st sid now of Inl e \<Rightarrow> (Err e, st) | Inr st \<Rightarrow> (Ok (), st)))))"

record SyncMcpServerCatalogRequest =
  sy_server_id :: string
  sy_agent_id :: "string option"
  sy_bind_tools :: "bool option"
  sy_bind_prompts :: "bool option"
  sy_bind_resources :: "bool option"

definition or_default :: "'a \<Rightarrow> 'a option \<Rightarrow> 'a" where
  "or_default d x = (case x of Some v \<Rightarrow> v | None \<Rightarrow> d)"

definition count_json :: "nat \<Rightarrow> json" where
  "count_json n = JNumber (show_nat n)"

text \<open>Discovery, replacement and binding, as both \<open>sync_mcp_server_catalog\<close> and \<open>setup_chrome_devtools_mcp\<close> do
  them; the result carries the sizes of the catalogue and the numbers of bindings.\<close>

definition sync_catalog ::
  "('w, 'c) stdio \<Rightarrow> string \<Rightarrow> string option \<Rightarrow> bool \<times> bool \<times> bool \<Rightarrow> u64 \<Rightarrow> (nat \<Rightarrow> string) \<Rightarrow> ('w, 'c) mcp_runtime
    \<Rightarrow> ((OrchestratorError, (nat \<times> nat \<times> nat) \<times> (nat \<times> nat \<times> nat)) result \<times> ('w, 'c) mcp_runtime) option" where
  "sync_catalog io sid agent flags now uuids rt = (case on_client (discover_server_catalog io sid) rt of
     None \<Rightarrow> None
   | Some (Inl e, rt) \<Rightarrow> Some (Err e, rt)
   | Some (Inr catalog, rt) \<Rightarrow>
      (let tools = map (imported_tool_from_discovery sid) (mc_tools catalog);
           prompts = map (imported_prompt_from_discovery sid) (mc_prompts catalog);
           resources = map (imported_resource_from_discovery sid) (mc_resources catalog);
           (r, st) = replace_catalog sid tools prompts resources now (mx_store rt);
           rt = rt\<lparr>mx_store := st\<rparr> in
       case r of
         Inl e \<Rightarrow> Some (Err (ToolError e), rt)
       | Inr _ \<Rightarrow>
          (let rt = invalidate_pooled_mcp_client rt; sizes = (length tools, length prompts, length resources) in
           case agent of
             None \<Rightarrow> Some (Ok (sizes, (0, 0, 0)), rt)
           | Some a \<Rightarrow> (let (b, st) = bind_discovered_mcp_entries a sid tools prompts resources
                  (fst flags) (fst (snd flags)) (snd (snd flags)) now uuids (mx_store rt) in
                Some (map_ok (Pair sizes) (map_err ToolError b), rt\<lparr>mx_store := st\<rparr>)))))"

definition count_fields :: "(nat \<times> nat \<times> nat) \<times> (nat \<times> nat \<times> nat) \<Rightarrow> (string \<times> json) list" where
  "count_fields = (\<lambda>((t, p, r), (bt, bp, br)).
     [(''tool_count'', count_json t), (''prompt_count'', count_json p), (''resource_count'', count_json r),
      (''bound_tool_count'', count_json bt), (''bound_prompt_count'', count_json bp), (''bound_resource_count'', count_json br)])"

definition sync_mcp_server_catalog ::
  "('w, 'c) stdio \<Rightarrow> bool \<Rightarrow> string option \<Rightarrow> SyncMcpServerCatalogRequest \<Rightarrow> u64 \<Rightarrow> (nat \<Rightarrow> string) \<Rightarrow> ('w, 'c) mcp_runtime
    \<Rightarrow> ((OrchestratorError, ToolExecutionResult) result \<times> ('w, 'c) mcp_runtime) option" where
  "sync_mcp_server_catalog io persistent agent q now uuids rt = (let sid = sy_server_id q in
     if \<not> persistent then Some (Err (needs_persistence ''sync_mcp_server_catalog''), rt)
     else case ensure_mcp_server_exists (mx_store rt) sid of
       Inl e \<Rightarrow> Some (Err e, rt)
     | Inr _ \<Rightarrow> map_option (\<lambda>(r, rt). (map_ok (\<lambda>counts.
          Structured (''Synced MCP catalog for '' @ quoted sid @ '' ('' @ show_nat (fst (fst counts)) @ '' tools, '' @
             show_nat (fst (snd (fst counts))) @ '' prompts, '' @ show_nat (snd (snd (fst counts))) @ '' resources).'')
            ''mcp_catalog_sync'' (JObject ((''server_id'', JString sid) # count_fields counts))) r, rt))
        (sync_catalog io sid (case sy_agent_id q of Some a \<Rightarrow> Some a | None \<Rightarrow> agent)
          (or_default False (sy_bind_tools q), or_default False (sy_bind_prompts q), or_default False (sy_bind_resources q))
          now uuids rt))"

record SetupChromeDevtoolsMcpRequest =
  sc_server_id :: "string option"
  sc_display_name :: "string option"
  sc_endpoint_override :: "string option"
  sc_executable :: "string option"
  sc_mode :: "string option"
  sc_channel :: "string option"
  sc_headless :: "bool option"
  sc_isolated :: "bool option"
  sc_slim :: "bool option"
  sc_extra_args :: "string list option"
  sc_enabled :: "bool option"
  sc_agent_id :: "string option"
  sc_bind_tools :: "bool option"
  sc_bind_prompts :: "bool option"
  sc_bind_resources :: "bool option"

text \<open>\<open>map(str::trim).filter(non-empty)\<close>.\<close>

definition trimmed_nonempty :: "string option \<Rightarrow> string option" where
  "trimmed_nonempty x = (case x of None \<Rightarrow> None | Some s \<Rightarrow> let t = trim_ws s in if t = [] then None else Some t)"

definition build_chrome_devtools_mcp_endpoint ::
  "string option \<Rightarrow> string option \<Rightarrow> string option \<Rightarrow> bool option \<Rightarrow> bool option \<Rightarrow> bool option \<Rightarrow> string list \<Rightarrow> string" where
  "build_chrome_devtools_mcp_endpoint executable mode channel headless isolated slim extra_args =
    (let m = to_lower (or_default ''launch_managed'' (trimmed_nonempty mode)) in
     join_with '' '' ([trim_ws (or_default ''npx'' executable), ''-y'', ''chrome-devtools-mcp@latest''] @
       (if m = ''auto_connect'' \<or> m = ''attach_existing'' then [''--autoConnect'']
        else (if or_default True headless then [''--headless''] else []) @
             (if or_default True isolated then [''--isolated''] else []) @
             (if or_default True slim then [''--slim''] else [])) @
       (case trimmed_nonempty channel of Some c \<Rightarrow> if c \<noteq> ''stable'' then [''--channel='' @ c] else [] | None \<Rightarrow> []) @
       filter (\<lambda>a. a \<noteq> []) (map trim_ws extra_args)))"

definition chrome_devtools_profile :: "SetupChromeDevtoolsMcpRequest \<Rightarrow> McpServerProfile" where
  "chrome_devtools_profile q = \<lparr>ms_server_id = or_default ''chrome_devtools'' (trimmed_nonempty (sc_server_id q)),
     ms_display_name = or_default ''Chrome DevTools MCP'' (sc_display_name q), ms_transport = ''stdio'',
     ms_endpoint = (let built = build_chrome_devtools_mcp_endpoint (sc_executable q) (sc_mode q) (sc_channel q)
           (sc_headless q) (sc_isolated q) (sc_slim q) (or_default [] (sc_extra_args q)) in
         case sc_endpoint_override q of Some e \<Rightarrow> if trim_ws e = [] then built else e | None \<Rightarrow> built),
     ms_auth_ref = None, ms_enabled = or_default True (sc_enabled q)\<rparr>"

definition setup_chrome_devtools_mcp ::
  "('w, 'c) stdio \<Rightarrow> bool \<Rightarrow> string option \<Rightarrow> SetupChromeDevtoolsMcpRequest \<Rightarrow> u64 \<Rightarrow> (nat \<Rightarrow> string) \<Rightarrow> ('w, 'c) mcp_runtime
    \<Rightarrow> ((OrchestratorError, ToolExecutionResult) result \<times> ('w, 'c) mcp_runtime) option" where
  "setup_chrome_devtools_mcp io persistent agent q now uuids rt = (let p = chrome_devtools_profile q; sid = ms_server_id p in
     if \<not> persistent then Some (Err (needs_persistence ''setup_chrome_devtools_mcp''), rt)
     else if reserved_profile p then Some (Err (reserved_error p), rt)
     else map_option (\<lambda>(r, rt). (map_ok (\<lambda>counts.
          Structured (''Configured Chrome DevTools MCP '' @ quoted sid @ '' and synced '' @ show_nat (fst (fst counts)) @ '' tools.'')
            ''mcp_server'' (JObject ([(''server_id'', JString sid), (''transport'', JString ''stdio''),
               (''endpoint'', JString (ms_endpoint p))] @ count_fields counts))) r, rt))
        (sync_catalog io sid (case sc_agent_id q of Some a \<Rightarrow> Some a | None \<Rightarrow> agent)
          (or_default True (sc_bind_tools q), or_default False (sc_bind_prompts q), or_default False (sc_bind_resources q))
          now uuids (store_server p now rt)))"

definition import_payload ::
  "string \<Rightarrow> mcp_payload \<Rightarrow> u64 \<Rightarrow> ToolExecutionResult \<Rightarrow> bool \<Rightarrow> ('w, 'c) mcp_runtime
    \<Rightarrow> (OrchestratorError, ToolExecutionResult) result \<times> ('w, 'c) mcp_runtime" where
  "import_payload tool p now res persistent rt =
    (if \<not> persistent then (Err (needs_persistence tool), rt)
     else case ensure_mcp_server_exists (mx_store rt) (payload_server_id p) of
       Inl e \<Rightarrow> (Err e, rt)
     | Inr _ \<Rightarrow> (let st = upsert_mcp_import_payload p now (mx_store rt) in
         case refresh_mcp_import_cache st (payload_server_id p) now of
           Inl e \<Rightarrow> (Err (ToolError e), rt\<lparr>mx_store := st\<rparr>)
         | Inr st \<Rightarrow> (Ok res, invalidate_pooled_mcp_client (rt\<lparr>mx_store := st\<rparr>))))"

definition import_mcp_tool ::
  "bool \<Rightarrow> McpImportedTool \<Rightarrow> u64 \<Rightarrow> ('w, 'c) mcp_runtime \<Rightarrow> (OrchestratorError, ToolExecutionResult) result \<times> ('w, 'c) mcp_runtime" where
  "import_mcp_tool persistent t now = import_payload ''import_mcp_tool'' (ToolPayload t) now
     (Structured (''Imported MCP tool '' @ quoted (mt_tool_name t) @ '' from server '' @ quoted (mt_server_id t) @ ''.'')
       ''mcp_import'' (JObject [(''server_id'', JString (mt_server_id t)), (''tool_name'', JString (mt_tool_name t))])) persistent"

definition import_mcp_prompt ::
  "bool \<Rightarrow> McpImportedPrompt \<Rightarrow> u64 \<Rightarrow> ('w, 'c) mcp_runtime \<Rightarrow> (OrchestratorError, ToolExecutionResult) result \<times> ('w, 'c) mcp_runtime" where
  "import_mcp_prompt persistent p now = import_payload ''import_mcp_prompt'' (PromptPayload p) now
     (Structured (''Imported MCP prompt '' @ quoted (mp_prompt_name p) @ '' from server '' @ quoted (mp_server_id p) @ ''.'')
       ''mcp_import'' (JObject [(''server_id'', JString (mp_server_id p)), (''prompt_name'', JString (mp_prompt_name p))])) persistent"

definition import_mcp_resource ::
  "bool \<Rightarrow> McpImportedResource \<Rightarrow> u64 \<Rightarrow> ('w, 'c) mcp_runtime \<Rightarrow> (OrchestratorError, ToolExecutionResult) result \<times> ('w, 'c) mcp_runtime" where
  "import_mcp_resource persistent x now = import_payload ''import_mcp_resource'' (ResourcePayload x) now
     (Structured (''Imported MCP resource '' @ quoted (mr_resource_uri x) @ '' from server '' @ quoted (mr_server_id x) @ ''.'')
       ''mcp_import'' (JObject [(''server_id'', JString (mr_server_id x)), (''resource_uri'', JString (mr_resource_uri x))])) persistent"

record BindMcpImportRequest =
  bq_server_id :: string
  bq_primitive_kind :: string
  bq_target_name :: string
  bq_agent_id :: "string option"

definition missing_field :: "string \<Rightarrow> OrchestratorError" where
  "missing_field f = ToolError (''Missing '' @ quoted f)"

definition bind_mcp_import ::
  "bool \<Rightarrow> string option \<Rightarrow> BindMcpImportRequest \<Rightarrow> u64 \<Rightarrow> string \<Rightarrow> ('w, 'c) mcp_runtime
    \<Rightarrow> (OrchestratorError, ToolExecutionResult) result \<times> ('w, 'c) mcp_runtime" where
  "bind_mcp_import persistent agent q now uuid rt =
    (let sid = trim_ws (bq_server_id q); target = trim_ws (bq_target_name q);
         owner = (case trimmed_nonempty (bq_agent_id q) of Some a \<Rightarrow> Some a | None \<Rightarrow> agent) in
     if \<not> persistent then (Err (needs_persistence ''bind_mcp_import''), rt)
     else if sid = [] then (Err (missing_field ''server_id''), rt)
     else if target = [] then (Err (missing_field ''target_name''), rt)
     else case owner of
       None \<Rightarrow> (Err (ToolError (''bind_mcp_import requires '' @ quoted ''agent_id'' @ '' or invoking agent context'')), rt)
     | Some a \<Rightarrow> (case parse_mcp_primitive_kind (bq_primitive_kind q) of
         Inl e \<Rightarrow> (Err e, rt)
       | Inr kind \<Rightarrow> (case ensure_mcp_binding_target_exists (mx_store rt) sid kind target of
           Inl e \<Rightarrow> (Err e, rt)
         | Inr _ \<Rightarrow> (case upsert_mcp_binding \<lparr>mb_binding_id = ''mcp-binding-'' @ uuid, mb_agent_id = a, mb_server_id = sid,
               mb_primitive_kind = kind, mb_target_name = target, mb_created_at_us = now\<rparr> (mx_store rt) of
             Inl e \<Rightarrow> (Err (ToolError e), rt)
           | Inr st \<Rightarrow> (Ok (Structured (''Bound MCP '' @ debug_primitive kind @ '' '' @ quoted target @ '' on server '' @
                 quoted sid @ '' to agent '' @ quoted a @ ''.'') ''mcp_binding''
                 (JObject [(''agent_id'', JString a), (''server_id'', JString sid),
                   (''primitive_kind'', JString (to_lower (debug_primitive kind))), (''target_name'', JString target)])),
               rt\<lparr>mx_store := st\<rparr>)))))"

text \<open>The profile a native call brings to the client: it allows exactly the named target.\<close>

definition native_mcp_profile :: "string \<Rightarrow> string \<Rightarrow> string option \<Rightarrow> string option \<Rightarrow> string option \<Rightarrow> AgentCapabilityProfile" where
  "native_mcp_profile agent sid tool prompt resource =
    (let of_opt = \<lambda>x. case x of Some v \<Rightarrow> [v] | None \<Rightarrow> [] in
     \<lparr>cp_agent_id = agent, cp_class = Generalist, cp_tool_allowlist = [], cp_skill_allowlist = [],
      cp_mcp_server_allowlist = [sid], cp_mcp_tool_allowlist = of_opt tool, cp_mcp_prompt_allowlist = of_opt prompt,
      cp_mcp_resource_allowlist = of_opt resource, cp_filesystem_scopes = [], cp_retrieval_scopes = [],
      cp_delegation_scope = None, cp_web_domain_allowlist = [], cp_web_domain_blocklist = [],
      cp_browser_profile_allowlist = [], cp_browser_action_scope = None, cp_computer_profile_allowlist = [],
      cp_computer_action_scope = None, cp_browser_session_scope = None, cp_crawl_scope = None,
      cp_web_approval_policy = None, cp_web_transport_allowlist = [], cp_requires_elevation = False,
      cp_side_effect_level = ReadOnlyEffect, cp_trust_profile = None\<rparr>)"

text \<open>The checks of the invoking tools before the client is asked.\<close>

definition invocation_checks ::
  "string \<Rightarrow> string \<Rightarrow> string \<Rightarrow> string \<Rightarrow> string option \<Rightarrow> bool \<Rightarrow> (OrchestratorError, string) result" where
  "invocation_checks tool field sid target agent persistent =
    (if sid = [] then Err (missing_field ''server_id'')
     else if target = [] then Err (missing_field field)
     else case agent of
       None \<Rightarrow> Err (ToolError (tool @ '' requires agent context''))
     | Some a \<Rightarrow> if \<not> persistent then Err (needs_persistence tool) else Ok a)"

definition invoke_mcp_tool ::
  "('w, 'c) stdio \<Rightarrow> bool \<Rightarrow> string option \<Rightarrow> string \<Rightarrow> string \<Rightarrow> json \<Rightarrow> ('w, 'c) mcp_runtime
    \<Rightarrow> ((OrchestratorError, ToolExecutionResult) result \<times> ('w, 'c) mcp_runtime) option" where
  "invoke_mcp_tool io persistent agent server tool input rt =
    (let sid = trim_ws server; name = trim_ws tool in
     case invocation_checks ''invoke_mcp_tool'' ''tool_name'' sid name agent persistent of
       Inl e \<Rightarrow> Some (Err e, rt)
     | Inr a \<Rightarrow> map_option (\<lambda>(r, rt). (map_ok (\<lambda>payload.
          Structured (''Invoked MCP tool '' @ quoted (sid @ ''::'' @ name) @ '' for agent '' @ quoted a @ ''.'')
            ''mcp_tool_invocation''
            (case as_object payload of Some m \<Rightarrow> JObject m
             | None \<Rightarrow> JObject [(''server_id'', JString sid), (''tool_name'', JString name), (''agent_id'', JString a),
                 (''input'', input)])) r, rt))
         (on_client (call_tool_for_agent io (native_mcp_profile a sid (Some name) None None) sid name input) rt))"

definition render_mcp_prompt ::
  "('w, 'c) stdio \<Rightarrow> bool \<Rightarrow> string option \<Rightarrow> string \<Rightarrow> string \<Rightarrow> json \<Rightarrow> ('w, 'c) mcp_runtime
    \<Rightarrow> ((OrchestratorError, ToolExecutionResult) result \<times> ('w, 'c) mcp_runtime) option" where
  "render_mcp_prompt io persistent agent server prompt arguments rt =
    (let sid = trim_ws server; name = trim_ws prompt in
     case invocation_checks ''render_mcp_prompt'' ''prompt_name'' sid name agent persistent of
       Inl e \<Rightarrow> Some (Err e, rt)
     | Inr a \<Rightarrow> map_option (\<lambda>(r, rt). (map_ok (Structured (''Rendered MCP prompt '' @ quoted (sid @ ''::'' @ name) @
          '' for agent '' @ quoted a @ ''.'') ''mcp_prompt'') r, rt))
         (on_client (render_prompt_for_agent io (native_mcp_profile a sid None (Some name) None) sid name arguments) rt))"

definition read_mcp_resource ::
  "('w, 'c) stdio \<Rightarrow> bool \<Rightarrow> string option \<Rightarrow> string \<Rightarrow> string \<Rightarrow> ('w, 'c) mcp_runtime
    \<Rightarrow> ((OrchestratorError, ToolExecutionResult) result \<times> ('w, 'c) mcp_runtime) option" where
  "read_mcp_resource io persistent agent server uri rt =
    (let sid = trim_ws server; name = trim_ws uri in
     case invocation_checks ''read_mcp_resource'' ''resource_uri'' sid name agent persistent of
       Inl e \<Rightarrow> Some (Err e, rt)
     | Inr a \<Rightarrow> map_option (\<lambda>(r, rt). (map_ok (Structured (''Read MCP resource '' @ quoted (sid @ ''::'' @ name) @
          '' for agent '' @ quoted a @ ''.'') ''mcp_resource'') r, rt))
         (on_client (read_resource_for_agent io (native_mcp_profile a sid None None (Some name)) sid name) rt))"

end
