(* ===== verification/McpStoreLaws.thy ===== *)
theory McpStoreLaws
  imports McpStore "HOL-Library.Multiset"
begin

text \<open>When the stored MCP tables load into a registry, what the registry then allows, and what a disabled server
  does to all the others.\<close>

section \<open>The contract of an import\<close>

text \<open>\<open>import_tool\<close>, \<open>import_prompt\<close> and \<open>import_resource\<close> share one contract: an import of a server that is not
  enabled is refused, a new one of an enabled server is appended to its list and touches nothing else.\<close>

locale importer =
  fixes imp :: "'a \<Rightarrow> McpRegistry \<Rightarrow> (McpRegistryError, McpRegistry) result"
    and server_of :: "'a \<Rightarrow> string" and id_of :: "'a \<Rightarrow> string"
    and listed :: "McpRegistry \<Rightarrow> string \<Rightarrow> 'a list"
    and others :: "McpRegistry \<Rightarrow> 'b"
  assumes refused: "\<not> server_enabled r (server_of x) \<Longrightarrow> \<exists>e. imp x r = Err e"
    and accepted: "server_enabled r (server_of x) \<Longrightarrow> id_of x \<notin> id_of ` set (listed r (server_of x)) \<Longrightarrow>
      \<exists>r'. imp x r = Ok r' \<and> rg_servers r' = rg_servers r \<and> others r' = others r \<and>
        listed r' = (listed r)(server_of x := listed r (server_of x) @ [x])"
begin

lemma all_refused:
  assumes "\<not> server_enabled r sid" "\<forall>x\<in>set xs. server_of x = sid" "xs \<noteq> []"
  shows "\<exists>e. import_all imp what xs r = Err e"
proof (cases xs)
  case (Cons x ys)
  then obtain e where "imp x r = Err e" using refused [of r x] assms by auto
  then show ?thesis using Cons by simp
qed (use assms in simp)

lemma all_accepted:
  assumes "server_enabled r sid" "\<forall>x\<in>set xs. server_of x = sid" "distinct (map id_of (listed r sid @ xs))"
  shows "\<exists>r'. import_all imp what xs r = Ok r' \<and> rg_servers r' = rg_servers r \<and> others r' = others r \<and>
    listed r' = (listed r)(sid := listed r sid @ xs)"
  using assms
proof (induction xs arbitrary: r)
  case (Cons x xs)
  then obtain r1 where r1: "imp x r = Ok r1" "rg_servers r1 = rg_servers r" "others r1 = others r"
    "listed r1 = (listed r)(sid := listed r sid @ [x])" using accepted [of r x] by auto
  have "server_enabled r1 sid" "\<forall>x\<in>set xs. server_of x = sid" "distinct (map id_of (listed r1 sid @ xs))"
    using Cons.prems r1(2,4) by (auto simp: server_enabled_def)
  from Cons.IH [OF this] obtain r2 where "import_all imp what xs r1 = Ok r2" "rg_servers r2 = rg_servers r1"
    "others r2 = others r1" "listed r2 = (listed r1)(sid := listed r1 sid @ xs)" by blast
  moreover have "server_of x = sid" using Cons.prems(2) by simp
  ultimately show ?case using r1 by (simp add: fun_eq_iff)
qed simp

end

lemma entry_upsert: "entry_or_default k (upsert_by fst (j, v) t) = (if k = j then v else entry_or_default k t)"
  by (simp add: entry_or_default_def map_of_upsert)

lemma ensure_enabled_iff:
  "ensure_server_enabled r s = Ok () \<longleftrightarrow> server_enabled r s"
  "(\<exists>e. ensure_server_enabled r s = Err e) \<longleftrightarrow> \<not> server_enabled r s"
  by (auto simp: ensure_server_enabled_def server_enabled_def split: option.splits)

lemma not_enabled_refuses: "\<not> server_enabled r s \<Longrightarrow> \<exists>e. and_then (ensure_server_enabled r s) f = Err e"
  using ensure_enabled_iff(2) [of r s] by auto

interpretation tools: importer import_tool mt_server_id mt_import_id list_imported_tools
  "\<lambda>r. (list_imported_prompts r, list_imported_resources r)"
proof
  fix r and x :: McpImportedTool
  assume "server_enabled r (mt_server_id x)" "mt_import_id x \<notin> mt_import_id ` set (list_imported_tools r (mt_server_id x))"
  moreover have "ensure_server_enabled r (mt_server_id x) = Ok ()" using calculation(1) ensure_enabled_iff(1) by blast
  moreover have "\<not> list_ex (\<lambda>e. mt_import_id e = mt_import_id x) (entry_or_default (mt_server_id x) (rg_tools r))"
    using calculation(2) unfolding list_imported_tools_def by (metis (mono_tags, lifting) list_ex_iff imageI)
  ultimately show "\<exists>r'. import_tool x r = Ok r' \<and> rg_servers r' = rg_servers r \<and>
      (list_imported_prompts r', list_imported_resources r') = (list_imported_prompts r, list_imported_resources r) \<and>
      list_imported_tools r' = (list_imported_tools r)(mt_server_id x := list_imported_tools r (mt_server_id x) @ [x])"
    by (simp add: import_tool_def Let_def list_imported_tools_def list_imported_prompts_def list_imported_resources_def
        entry_upsert fun_eq_iff)
qed (simp add: import_tool_def not_enabled_refuses)

interpretation prompts: importer import_prompt mp_server_id mp_import_id list_imported_prompts
  "\<lambda>r. (list_imported_tools r, list_imported_resources r)"
proof
  fix r and x :: McpImportedPrompt
  assume "server_enabled r (mp_server_id x)" "mp_import_id x \<notin> mp_import_id ` set (list_imported_prompts r (mp_server_id x))"
  moreover have "ensure_server_enabled r (mp_server_id x) = Ok ()" using calculation(1) ensure_enabled_iff(1) by blast
  moreover have "\<not> list_ex (\<lambda>e. mp_import_id e = mp_import_id x) (entry_or_default (mp_server_id x) (rg_prompts r))"
    using calculation(2) unfolding list_imported_prompts_def by (metis (mono_tags, lifting) list_ex_iff imageI)
  ultimately show "\<exists>r'. import_prompt x r = Ok r' \<and> rg_servers r' = rg_servers r \<and>
      (list_imported_tools r', list_imported_resources r') = (list_imported_tools r, list_imported_resources r) \<and>
      list_imported_prompts r' = (list_imported_prompts r)(mp_server_id x := list_imported_prompts r (mp_server_id x) @ [x])"
    by (simp add: import_prompt_def Let_def list_imported_tools_def list_imported_prompts_def list_imported_resources_def
        entry_upsert fun_eq_iff)
qed (simp add: import_prompt_def not_enabled_refuses)

interpretation resources: importer import_resource mr_server_id mr_import_id list_imported_resources
  "\<lambda>r. (list_imported_tools r, list_imported_prompts r)"
proof
  fix r and x :: McpImportedResource
  assume "server_enabled r (mr_server_id x)" "mr_import_id x \<notin> mr_import_id ` set (list_imported_resources r (mr_server_id x))"
  moreover have "ensure_server_enabled r (mr_server_id x) = Ok ()" using calculation(1) ensure_enabled_iff(1) by blast
  moreover have "\<not> list_ex (\<lambda>e. mr_import_id e = mr_import_id x) (entry_or_default (mr_server_id x) (rg_resources r))"
    using calculation(2) unfolding list_imported_resources_def by (metis (mono_tags, lifting) list_ex_iff imageI)
  ultimately show "\<exists>r'. import_resource x r = Ok r' \<and> rg_servers r' = rg_servers r \<and>
      (list_imported_tools r', list_imported_prompts r') = (list_imported_tools r, list_imported_prompts r) \<and>
      list_imported_resources r' = (list_imported_resources r)(mr_server_id x := list_imported_resources r (mr_server_id x) @ [x])"
    by (simp add: import_resource_def Let_def list_imported_tools_def list_imported_prompts_def list_imported_resources_def
        entry_upsert fun_eq_iff)
qed (simp add: import_resource_def not_enabled_refuses)

section \<open>Well-formed tables\<close>

definition row_ok :: "import_row \<Rightarrow> bool" where
  "row_ok r \<longleftrightarrow> ir_server_id r = payload_server_id (ir_payload r) \<and> ir_import_id r = payload_import_id (ir_payload r)"

definition store_ok :: "mcp_store \<Rightarrow> bool" where
  "store_ok st \<longleftrightarrow> unique_keys sr_id (mcp_servers st) \<and> list_all (\<lambda>r. \<not> reserved_profile (sr_profile r)) (mcp_servers st) \<and> unique_keys ir_import_id (mcp_imports st) \<and>
     list_all row_ok (mcp_imports st) \<and> unique_keys binding_target (mcp_bindings st) \<and>
     unique_keys ic_server_id (mcp_import_cache st)"

lemma distinct_map_sort_key: "distinct (map f (sort_key g xs)) = distinct (map f xs)"
  by (metis mset_eq_imp_distinct_iff mset_map mset_sort)

lemma map_filter_payload:
  "list_mcp_imported_tools st sid = map (\<lambda>p. the (tool_payload p)) (list_mcp_import_payloads st sid ToolPrimitive)"
  "list_mcp_imported_prompts st sid = map (\<lambda>p. the (prompt_payload p)) (list_mcp_import_payloads st sid PromptPrimitive)"
  "list_mcp_imported_resources st sid = map (\<lambda>p. the (resource_payload p)) (list_mcp_import_payloads st sid ResourcePrimitive)"
proof -
  have gen: "List.map_filter f xs = map (\<lambda>p. the (f p)) xs" if "\<forall>x\<in>set xs. f x \<noteq> None" for f :: "mcp_payload \<Rightarrow> 'x option" and xs
    using that by (auto simp: map_filter_def filter_id_conv)
  have kind: "payload_kind p = k" if "p \<in> set (list_mcp_import_payloads st sid k)" for p k
    using that by (auto simp: list_mcp_import_payloads_def)
  have "tool_payload p \<noteq> None" if "payload_kind p = ToolPrimitive" for p using that by (cases p) auto
  then show "list_mcp_imported_tools st sid = map (\<lambda>p. the (tool_payload p)) (list_mcp_import_payloads st sid ToolPrimitive)"
    unfolding list_mcp_imported_tools_def by (intro gen) (use kind in blast)
  have "prompt_payload p \<noteq> None" if "payload_kind p = PromptPrimitive" for p using that by (cases p) auto
  then show "list_mcp_imported_prompts st sid = map (\<lambda>p. the (prompt_payload p)) (list_mcp_import_payloads st sid PromptPrimitive)"
    unfolding list_mcp_imported_prompts_def by (intro gen) (use kind in blast)
  have "resource_payload p \<noteq> None" if "payload_kind p = ResourcePrimitive" for p using that by (cases p) auto
  then show "list_mcp_imported_resources st sid = map (\<lambda>p. the (resource_payload p)) (list_mcp_import_payloads st sid ResourcePrimitive)"
    unfolding list_mcp_imported_resources_def by (intro gen) (use kind in blast)
qed

lemma payloads_of_store:
  assumes "store_ok st"
  shows "distinct (map payload_import_id (list_mcp_import_payloads st sid k))"
    "\<forall>p\<in>set (list_mcp_import_payloads st sid k). payload_server_id p = sid \<and> payload_kind p = k"
proof -
  let ?rows = "filter (\<lambda>r. ir_server_id r = sid \<and> payload_kind (ir_payload r) = k) (mcp_imports st)"
  have id: "map (payload_import_id \<circ> ir_payload) ?rows = map ir_import_id ?rows"
    using assms by (auto simp: store_ok_def list_all_iff row_ok_def)
  have "distinct (map ir_import_id ?rows)" using assms by (simp add: store_ok_def distinct_map_filter)
  then have "distinct (map (payload_import_id \<circ> ir_payload) ?rows)" unfolding id .
  then show "distinct (map payload_import_id (list_mcp_import_payloads st sid k))"
    by (simp add: list_mcp_import_payloads_def distinct_map_sort_key)
  show "\<forall>p\<in>set (list_mcp_import_payloads st sid k). payload_server_id p = sid \<and> payload_kind p = k"
    using assms by (auto simp: list_mcp_import_payloads_def store_ok_def list_all_iff row_ok_def)
qed

lemma stored_tools:
  assumes "store_ok st"
  shows "distinct (map mt_import_id (list_mcp_imported_tools st sid))" "\<forall>t\<in>set (list_mcp_imported_tools st sid). mt_server_id t = sid"
proof -
  have t: "mt_import_id (the (tool_payload p)) = payload_import_id p \<and> mt_server_id (the (tool_payload p)) = payload_server_id p"
    if "payload_kind p = ToolPrimitive" for p using that by (cases p) auto
  have "map mt_import_id (list_mcp_imported_tools st sid) = map payload_import_id (list_mcp_import_payloads st sid ToolPrimitive)"
    using t payloads_of_store(2) [OF assms, of sid ToolPrimitive] by (simp add: map_filter_payload)
  then show "distinct (map mt_import_id (list_mcp_imported_tools st sid))" using payloads_of_store(1) [OF assms] by simp
  show "\<forall>t\<in>set (list_mcp_imported_tools st sid). mt_server_id t = sid"
    using t payloads_of_store(2) [OF assms, of sid ToolPrimitive] by (auto simp: map_filter_payload)
qed

lemma stored_prompts:
  assumes "store_ok st"
  shows "distinct (map mp_import_id (list_mcp_imported_prompts st sid))" "\<forall>t\<in>set (list_mcp_imported_prompts st sid). mp_server_id t = sid"
proof -
  have t: "mp_import_id (the (prompt_payload p)) = payload_import_id p \<and> mp_server_id (the (prompt_payload p)) = payload_server_id p"
    if "payload_kind p = PromptPrimitive" for p using that by (cases p) auto
  have "map mp_import_id (list_mcp_imported_prompts st sid) = map payload_import_id (list_mcp_import_payloads st sid PromptPrimitive)"
    using t payloads_of_store(2) [OF assms, of sid PromptPrimitive] by (simp add: map_filter_payload)
  then show "distinct (map mp_import_id (list_mcp_imported_prompts st sid))" using payloads_of_store(1) [OF assms] by simp
  show "\<forall>t\<in>set (list_mcp_imported_prompts st sid). mp_server_id t = sid"
    using t payloads_of_store(2) [OF assms, of sid PromptPrimitive] by (auto simp: map_filter_payload)
qed

lemma stored_resources:
  assumes "store_ok st"
  shows "distinct (map mr_import_id (list_mcp_imported_resources st sid))" "\<forall>t\<in>set (list_mcp_imported_resources st sid). mr_server_id t = sid"
proof -
  have t: "mr_import_id (the (resource_payload p)) = payload_import_id p \<and> mr_server_id (the (resource_payload p)) = payload_server_id p"
    if "payload_kind p = ResourcePrimitive" for p using that by (cases p) auto
  have "map mr_import_id (list_mcp_imported_resources st sid) = map payload_import_id (list_mcp_import_payloads st sid ResourcePrimitive)"
    using t payloads_of_store(2) [OF assms, of sid ResourcePrimitive] by (simp add: map_filter_payload)
  then show "distinct (map mr_import_id (list_mcp_imported_resources st sid))" using payloads_of_store(1) [OF assms] by simp
  show "\<forall>t\<in>set (list_mcp_imported_resources st sid). mr_server_id t = sid"
    using t payloads_of_store(2) [OF assms, of sid ResourcePrimitive] by (auto simp: map_filter_payload)
qed

section \<open>Loading\<close>

definition has_imports :: "mcp_store \<Rightarrow> string \<Rightarrow> bool" where
  "has_imports st sid \<longleftrightarrow> list_mcp_imported_tools st sid \<noteq> [] \<or> list_mcp_imported_prompts st sid \<noteq> [] \<or>
     list_mcp_imported_resources st sid \<noteq> []"

lemma listed_register [simp]:
  "list_imported_tools (register_server p r) = list_imported_tools r"
  "list_imported_prompts (register_server p r) = list_imported_prompts r"
  "list_imported_resources (register_server p r) = list_imported_resources r"
  by (simp_all add: register_server_def list_imported_tools_def list_imported_prompts_def list_imported_resources_def fun_eq_iff)

lemma servers_register: "map_of (rg_servers (register_server p r)) k = (if k = ms_server_id p then Some p else map_of (rg_servers r) k)"
  by (simp add: register_server_def map_of_upsert)

definition nothing_imported :: "McpRegistry \<Rightarrow> string \<Rightarrow> bool" where
  "nothing_imported r sid \<longleftrightarrow> list_imported_tools r sid = [] \<and> list_imported_prompts r sid = [] \<and> list_imported_resources r sid = []"

text \<open>What loading one server makes of a registry.\<close>

definition loaded :: "mcp_store \<Rightarrow> McpServerProfile \<Rightarrow> McpRegistry \<Rightarrow> McpRegistry \<Rightarrow> bool" where
  "loaded st p r r' \<longleftrightarrow> (let sid = ms_server_id p in
     map_of (rg_servers r') = (map_of (rg_servers r))(sid \<mapsto> p) \<and>
     list_imported_tools r' = (list_imported_tools r)(sid := list_mcp_imported_tools st sid) \<and>
     list_imported_prompts r' = (list_imported_prompts r)(sid := list_mcp_imported_prompts st sid) \<and>
     list_imported_resources r' = (list_imported_resources r)(sid := list_mcp_imported_resources st sid))"

lemma load_server_Ok:
  assumes "store_ok st" "nothing_imported r (ms_server_id p)" "ms_enabled p \<or> \<not> has_imports st (ms_server_id p)"
  shows "\<exists>r'. load_server st p r = Ok r' \<and> loaded st p r r'"
proof (cases "ms_enabled p")
  case True
  let ?s = "ms_server_id p" and ?r = "register_server p r"
  have en: "server_enabled x ?s" if "rg_servers x = rg_servers ?r" for x
    using that True servers_register [of p r ?s] by (simp add: server_enabled_def)
  have empty: "list_imported_tools ?r ?s = []" "list_imported_prompts ?r ?s = []" "list_imported_resources ?r ?s = []"
    using assms(2) by (simp_all add: nothing_imported_def)
  obtain r1 where r1: "import_all import_tool ''tool'' (list_mcp_imported_tools st ?s) ?r = Ok r1"
    "rg_servers r1 = rg_servers ?r" "list_imported_prompts r1 = list_imported_prompts ?r"
    "list_imported_resources r1 = list_imported_resources ?r"
    "list_imported_tools r1 = (list_imported_tools ?r)(?s := list_mcp_imported_tools st ?s)"
    using tools.all_accepted [where what = "''tool''", OF en [of ?r] stored_tools(2) [OF assms(1)]] stored_tools(1) [OF assms(1)] empty(1)
    by auto
  obtain r2 where r2: "import_all import_prompt ''prompt'' (list_mcp_imported_prompts st ?s) r1 = Ok r2"
    "rg_servers r2 = rg_servers r1" "list_imported_tools r2 = list_imported_tools r1"
    "list_imported_resources r2 = list_imported_resources r1"
    "list_imported_prompts r2 = (list_imported_prompts r1)(?s := list_mcp_imported_prompts st ?s)"
    using prompts.all_accepted [where what = "''prompt''", OF en [of r1] stored_prompts(2) [OF assms(1)]] stored_prompts(1) [OF assms(1)]
      empty(2) r1(2,3) by auto
  obtain r3 where r3: "import_all import_resource ''resource'' (list_mcp_imported_resources st ?s) r2 = Ok r3"
    "rg_servers r3 = rg_servers r2" "list_imported_tools r3 = list_imported_tools r2"
    "list_imported_prompts r3 = list_imported_prompts r2"
    "list_imported_resources r3 = (list_imported_resources r2)(?s := list_mcp_imported_resources st ?s)"
    using resources.all_accepted [where what = "''resource''", OF en [of r2] stored_resources(2) [OF assms(1)]]
      stored_resources(1) [OF assms(1)] empty(3) r1(2,4) r2(2,4) by auto
  have "load_server st p r = Ok r3" using r1(1) r2(1) r3(1) by (simp add: load_server_def)
  moreover have "loaded st p r r3"
    using r1(2-) r2(2-) r3(2-) by (simp add: loaded_def fun_eq_iff servers_register)
  ultimately show ?thesis by blast
next
  case False
  then have "\<not> has_imports st (ms_server_id p)" using assms(3) by simp
  then show ?thesis
    using assms(2) by (simp add: load_server_def has_imports_def loaded_def fun_eq_iff servers_register nothing_imported_def)
qed

lemma load_server_Err:
  assumes "store_ok st" "\<not> ms_enabled p" "has_imports st (ms_server_id p)"
  shows "\<exists>e. load_server st p r = Err e"
proof -
  let ?s = "ms_server_id p"
  have off: "\<not> server_enabled (register_server p r) ?s"
    using assms(2) servers_register [of p r ?s] by (simp add: server_enabled_def)
  show ?thesis
  proof (cases "list_mcp_imported_tools st ?s = []")
    case False
    then show ?thesis using tools.all_refused [where what = "''tool''", OF off stored_tools(2) [OF assms(1)]] by (auto simp: load_server_def)
  next
    case t: True
    show ?thesis
    proof (cases "list_mcp_imported_prompts st ?s = []")
      case False
      then show ?thesis using t prompts.all_refused [where what = "''prompt''", OF off stored_prompts(2) [OF assms(1)]]
        by (auto simp: load_server_def)
    next
      case True
      then show ?thesis using t assms(3) resources.all_refused [where what = "''resource''", OF off stored_resources(2) [OF assms(1)]]
        by (auto simp: load_server_def has_imports_def)
    qed
  qed
qed

lemma load_servers_Err:
  assumes "store_ok st" "p \<in> set ps" "\<not> ms_enabled p" "has_imports st (ms_server_id p)"
  shows "\<exists>e. load_servers st ps r = Err e"
  using assms(2)
proof (induction ps arbitrary: r)
  case (Cons q ps)
  show ?case
  proof (cases "q = p")
    case True
    then show ?thesis using load_server_Err [OF assms(1,3,4), of r] by auto
  next
    case False
    then show ?thesis using Cons by (cases "load_server st q r") auto
  qed
qed simp

lemma load_servers_Ok:
  assumes "store_ok st"
  shows "distinct (map ms_server_id ps) \<Longrightarrow> \<forall>p\<in>set ps. ms_enabled p \<or> \<not> has_imports st (ms_server_id p) \<Longrightarrow>
    \<forall>p\<in>set ps. nothing_imported r (ms_server_id p) \<Longrightarrow>
    \<exists>r'. load_servers st ps r = Ok r' \<and>
      (\<forall>k. map_of (rg_servers r') k = (case find (\<lambda>p. ms_server_id p = k) ps of Some p \<Rightarrow> Some p | None \<Rightarrow> map_of (rg_servers r) k)) \<and>
      (\<forall>k\<in>ms_server_id ` set ps. list_imported_tools r' k = list_mcp_imported_tools st k \<and>
         list_imported_prompts r' k = list_mcp_imported_prompts st k \<and>
         list_imported_resources r' k = list_mcp_imported_resources st k) \<and>
      (\<forall>k. k \<notin> ms_server_id ` set ps \<longrightarrow> list_imported_tools r' k = list_imported_tools r k \<and>
         list_imported_prompts r' k = list_imported_prompts r k \<and> list_imported_resources r' k = list_imported_resources r k)"
proof (induction ps arbitrary: r)
  case (Cons q ps)
  obtain r1 where r1: "load_server st q r = Ok r1" "loaded st q r r1"
    using load_server_Ok [OF assms, of r q] Cons.prems by auto
  have ne: "\<forall>p\<in>set ps. ms_server_id p \<noteq> ms_server_id q" using Cons.prems(1) by (simp add: image_iff) metis
  then have "\<forall>p\<in>set ps. nothing_imported r1 (ms_server_id p)"
    using Cons.prems(3) r1(2) by (auto simp: nothing_imported_def loaded_def Let_def)
  then obtain r2 where r2: "load_servers st ps r1 = Ok r2"
    "\<forall>k. map_of (rg_servers r2) k = (case find (\<lambda>p. ms_server_id p = k) ps of Some p \<Rightarrow> Some p | None \<Rightarrow> map_of (rg_servers r1) k)"
    "\<forall>k\<in>ms_server_id ` set ps. list_imported_tools r2 k = list_mcp_imported_tools st k \<and>
         list_imported_prompts r2 k = list_mcp_imported_prompts st k \<and>
         list_imported_resources r2 k = list_mcp_imported_resources st k"
    "\<forall>k. k \<notin> ms_server_id ` set ps \<longrightarrow> list_imported_tools r2 k = list_imported_tools r1 k \<and>
         list_imported_prompts r2 k = list_imported_prompts r1 k \<and> list_imported_resources r2 k = list_imported_resources r1 k"
    using Cons.IH [of r1] Cons.prems(1,2) by auto
  have "find (\<lambda>p. ms_server_id p = ms_server_id q) ps = None"
    using ne by (simp add: find_None_iff)
  then have "\<forall>k. map_of (rg_servers r2) k = (case find (\<lambda>p. ms_server_id p = k) (q # ps) of Some p \<Rightarrow> Some p
      | None \<Rightarrow> map_of (rg_servers r) k)"
    using r2(2) r1(2) by (auto simp: loaded_def Let_def split: option.splits)
  then show ?case
    using r1 r2 Cons.prems(1) by (auto simp: loaded_def Let_def)
qed simp

lemma servers_listed: "set (list_mcp_servers st) = sr_profile ` set (mcp_servers st)"
  by (simp add: list_mcp_servers_def)

lemma servers_distinct:
  assumes "store_ok st" shows "distinct (map ms_server_id (list_mcp_servers st))"
proof -
  have "distinct (map (ms_server_id \<circ> sr_profile) (sort_key (\<lambda>r. sint (sr_updated_at_us r)) (mcp_servers st)))"
    unfolding distinct_map_sort_key using assms by (simp add: store_ok_def sr_id_def [abs_def] comp_def)
  then show ?thesis by (simp add: list_mcp_servers_def)
qed

lemma nothing_in_new_registry: "nothing_imported new_registry k" "map_of (rg_servers new_registry) k = None"
  by (simp_all add: nothing_imported_def new_registry_def list_imported_tools_def list_imported_prompts_def
      list_imported_resources_def entry_or_default_def)

text \<open>The tables load exactly when no disabled server has an import, and the registry then allows an agent exactly
  the stored imports of enabled servers that its profile lists.\<close>

definition loadable :: "mcp_store \<Rightarrow> bool" where
  "loadable st \<longleftrightarrow> list_all (\<lambda>p. ms_enabled p \<or> \<not> has_imports st (ms_server_id p)) (list_mcp_servers st)"

lemma load_registry_iff:
  assumes "store_ok st"
  shows "(\<exists>r. load_mcp_registry_from_store st = Ok r) \<longleftrightarrow> loadable st"
proof
  assume "\<exists>r. load_mcp_registry_from_store st = Ok r"
  then show "loadable st"
    using load_servers_Err [OF assms, of _ "list_mcp_servers st" new_registry]
    by (fastforce simp: loadable_def load_mcp_registry_from_store_def list_all_iff)
next
  assume "loadable st"
  then show "\<exists>r. load_mcp_registry_from_store st = Ok r"
    using load_servers_Ok [OF assms servers_distinct [OF assms], of new_registry]
    by (auto simp: loadable_def list_all_iff load_mcp_registry_from_store_def nothing_in_new_registry)
qed

lemma loaded_registry:
  assumes "store_ok st" "load_mcp_registry_from_store st = Ok r"
  shows "map_of (rg_servers r) k = find (\<lambda>p. ms_server_id p = k) (list_mcp_servers st)"
    "k \<in> ms_server_id ` set (list_mcp_servers st) \<Longrightarrow> list_imported_tools r k = list_mcp_imported_tools st k"
proof -
  have "\<forall>p\<in>set (list_mcp_servers st). ms_enabled p \<or> \<not> has_imports st (ms_server_id p)"
    using assms load_registry_iff [OF assms(1)] by (auto simp: loadable_def list_all_iff)
  from load_servers_Ok [OF assms(1) servers_distinct [OF assms(1)] this, of new_registry]
  show "map_of (rg_servers r) k = find (\<lambda>p. ms_server_id p = k) (list_mcp_servers st)"
    "k \<in> ms_server_id ` set (list_mcp_servers st) \<Longrightarrow> list_imported_tools r k = list_mcp_imported_tools st k"
    using assms(2) by (auto simp: load_mcp_registry_from_store_def nothing_in_new_registry split: option.splits)
qed

definition stored_server :: "mcp_store \<Rightarrow> string \<Rightarrow> bool" where
  "stored_server st sid \<longleftrightarrow> list_ex (\<lambda>p. ms_server_id p = sid \<and> ms_enabled p) (list_mcp_servers st)"

definition stored_tool :: "mcp_store \<Rightarrow> string \<Rightarrow> string \<Rightarrow> bool" where
  "stored_tool st sid name \<longleftrightarrow> list_ex (\<lambda>t. mt_tool_name t = name) (list_mcp_imported_tools st sid)"

text \<open>C31: a registry loaded from well-formed tables allows an agent a tool exactly when the tables hold the enabled
  server and an import of the tool under it and the profile lists both.\<close>

theorem registry_allows_stored_imports:
  assumes "store_ok st" "load_mcp_registry_from_store st = Ok r"
  shows "tool_allowed_for_agent r prof sid name \<longleftrightarrow>
    stored_server st sid \<and> stored_tool st sid name \<and> sid \<in> set (cp_mcp_server_allowlist prof) \<and>
    name \<in> set (cp_mcp_tool_allowlist prof)"
proof -
  have enabled: "server_enabled r sid \<longleftrightarrow> stored_server st sid"
  proof
    assume "server_enabled r sid"
    then obtain p where "find (\<lambda>p. ms_server_id p = sid) (list_mcp_servers st) = Some p" "ms_enabled p"
      using loaded_registry(1) [OF assms] by (auto simp: server_enabled_def split: option.splits)
    then show "stored_server st sid" by (auto simp: stored_server_def list_ex_iff find_Some_iff)
  next
    assume "stored_server st sid"
    then obtain p where p: "p \<in> set (list_mcp_servers st)" "ms_server_id p = sid" "ms_enabled p"
      by (auto simp: stored_server_def list_ex_iff)
    then obtain q where q: "find (\<lambda>p. ms_server_id p = sid) (list_mcp_servers st) = Some q"
      using find_None_iff [of "\<lambda>p. ms_server_id p = sid" "list_mcp_servers st"] by (metis option.exhaust)
    then have "q \<in> set (list_mcp_servers st)" "ms_server_id q = sid" by (auto simp: find_Some_iff)
    then have "q = p" using p servers_distinct [OF assms(1)] by (metis unique_keys_eq)
    then show "server_enabled r sid" using q p loaded_registry(1) [OF assms] by (simp add: server_enabled_def)
  qed
  have "list_imported_tools r sid = list_mcp_imported_tools st sid" if "stored_server st sid"
    using loaded_registry(2) [OF assms, of sid] that by (auto simp: stored_server_def list_ex_iff)
  then show ?thesis
    using enabled by (auto simp: tool_allowed_for_agent_def stored_tool_def list_imported_tools_def)
qed

section \<open>Invariants of the tools\<close>

lemma upsert_by_subset: "set (upsert_by key r t) \<subseteq> insert r (set t)"
  by (auto simp: upsert_by_def update_by_def split: if_splits)

lemma store_ok_server: "store_ok st \<Longrightarrow> \<not> reserved_profile p \<Longrightarrow> store_ok (upsert_mcp_server p now st)"
  using upsert_by_subset [of sr_id "\<lparr>sr_profile = p, sr_updated_at_us = now\<rparr>" "mcp_servers st"]
  by (auto simp: store_ok_def upsert_mcp_server_def list_all_iff)

lemma row_ok_of: "row_ok (import_row_of p (payload_server_id p) now)"
  by (simp add: row_ok_def import_row_of_def)

lemma store_ok_import: "store_ok st \<Longrightarrow> store_ok (upsert_mcp_import_payload p now st)"
  using upsert_by_subset [of ir_import_id "import_row_of p (payload_server_id p) now" "mcp_imports st"] row_ok_of [of p now]
  by (auto simp: store_ok_def upsert_mcp_import_payload_def list_all_iff)

lemma store_ok_cache: "store_ok st \<Longrightarrow> store_ok (upsert_mcp_import_cache_record c st)"
  by (auto simp: store_ok_def upsert_mcp_import_cache_record_def)

lemma store_ok_binding: "store_ok st \<Longrightarrow> upsert_mcp_binding b st = Ok st' \<Longrightarrow> store_ok st'"
  by (auto simp: store_ok_def upsert_mcp_binding_def split: if_splits)

lemma insert_imports_ok:
  "insert_imports ps sid now rows = Ok rows' \<Longrightarrow> unique_keys ir_import_id rows \<and> list_all row_ok rows \<Longrightarrow>
    \<forall>p\<in>set ps. payload_server_id p = sid \<Longrightarrow> unique_keys ir_import_id rows' \<and> list_all row_ok rows'"
proof (induction ps arbitrary: rows)
  case (Cons p ps)
  have "row_ok (import_row_of p sid now)" using Cons.prems(3) row_ok_of [of p now] by simp
  moreover have "ir_import_id (import_row_of p sid now) = payload_import_id p" by (simp add: import_row_of_def)
  ultimately show ?case
    using Cons.prems Cons.IH [of "rows @ [import_row_of p sid now]"] by (auto simp: has_key_iff split: if_splits)
qed simp

lemma store_ok_replace:
  assumes "store_ok st" "replace_mcp_import_payloads sid k ps now st = Ok st'" "\<forall>p\<in>set ps. payload_server_id p = sid"
  shows "store_ok st'"
proof -
  obtain rows where rows: "insert_imports ps sid now
      (filter (\<lambda>r. \<not> (ir_server_id r = sid \<and> payload_kind (ir_payload r) = k)) (mcp_imports st)) = Ok rows"
    "st' = st\<lparr>mcp_imports := rows\<rparr>"
    using assms(2) by (auto simp: replace_mcp_import_payloads_def map_ok_Ok_iff)
  show ?thesis
    using insert_imports_ok [OF rows(1) _ assms(3)] assms(1) rows(2)
    by (auto simp: store_ok_def distinct_map_filter list_all_iff)
qed

lemma store_ok_refresh: "store_ok st \<Longrightarrow> refresh_mcp_import_cache st sid now = Ok st' \<Longrightarrow> store_ok st'"
  by (auto simp: refresh_mcp_import_cache_def result_simps intro: store_ok_cache)

lemma store_ok_catalog:
  assumes "store_ok st" "replace_catalog sid tools prompts resources now st = (r, st')"
    "\<forall>t\<in>set tools. mt_server_id t = sid" "\<forall>t\<in>set prompts. mp_server_id t = sid" "\<forall>t\<in>set resources. mr_server_id t = sid"
  shows "store_ok st'"
proof -
  have t: "store_ok b" if "replace_mcp_import_payloads sid ToolPrimitive (map ToolPayload tools) now a = Ok b" "store_ok a" for a b
    using store_ok_replace [OF that(2,1)] assms(3) by simp
  have p: "store_ok b" if "replace_mcp_import_payloads sid PromptPrimitive (map PromptPayload prompts) now a = Ok b" "store_ok a" for a b
    using store_ok_replace [OF that(2,1)] assms(4) by simp
  have x: "store_ok b"
    if "replace_mcp_import_payloads sid ResourcePrimitive (map ResourcePayload resources) now a = Ok b" "store_ok a" for a b
    using store_ok_replace [OF that(2,1)] assms(5) by simp
  show ?thesis
    using assms(1,2) unfolding replace_catalog_def
    by (auto split: sum.splits dest: t p x store_ok_refresh [rotated])
qed

lemma store_ok_bind: "bind_targets agent sid k now uuids n ts st = (r, st') \<Longrightarrow> store_ok st \<Longrightarrow> store_ok st'"
  by (induction ts arbitrary: n st) (auto split: sum.splits dest: store_ok_binding)

lemma store_ok_bind_discovered:
  "bind_discovered_mcp_entries a sid tools prompts resources bt bp br now uuids st = (r, st') \<Longrightarrow> store_ok st \<Longrightarrow> store_ok st'"
  by (auto simp: bind_discovered_mcp_entries_def Let_def split: prod.splits sum.splits dest!: store_ok_bind)

definition runtime_ok :: "('w, 'c) mcp_runtime \<Rightarrow> bool" where
  "runtime_ok rt \<longleftrightarrow> store_ok (mx_store rt) \<and> (\<forall>cl. mx_pool rt = Some cl \<longrightarrow> client_ok cl)"

lemma find_SomeD: "find P xs = Some x \<Longrightarrow> x \<in> set xs \<and> P x"
  by (auto simp: find_Some_iff)

lemma loaded_registry_ok: "store_ok st \<Longrightarrow> load_mcp_registry_from_store st = Ok r \<Longrightarrow> registry_ok r"
  by (auto simp: registry_ok_def loaded_registry(1) store_ok_def list_all_iff reserved_profile_def servers_listed
      dest!: find_SomeD)

lemma pooled_client_ok:
  assumes "runtime_ok rt" "pooled_mcp_client rt = Ok cl" shows "client_ok cl"
  using assms loaded_registry_ok
  by (auto simp: pooled_mcp_client_def runtime_ok_def new_client_def client_ok_def processes_ok_def map_ok_Ok_iff
      split: option.splits)

lemma on_client_ok:
  assumes "on_client f rt = Some (r, rt')" "runtime_ok rt" "\<And>cl r cl'. f cl = Some (r, cl') \<Longrightarrow> client_ok cl \<Longrightarrow> client_ok cl'"
  shows "runtime_ok rt' \<and> mx_store rt' = mx_store rt"
  using assms pooled_client_ok [OF assms(2)]
  by (auto simp: on_client_def runtime_ok_def split: sum.splits)

lemma invalidate_ok: "store_ok (mx_store rt) \<Longrightarrow> runtime_ok (invalidate_pooled_mcp_client rt)"
  by (simp add: runtime_ok_def invalidate_pooled_mcp_client_def)

lemma sync_catalog_ok:
  assumes "sync_catalog io sid agent flags now uuids rt = Some (r, rt')" "runtime_ok rt"
  shows "runtime_ok rt'"
proof -
  obtain x rt1 where found: "on_client (discover_server_catalog io sid) rt = Some (x, rt1)"
    using assms(1) by (auto simp: sync_catalog_def split: option.splits prod.splits)
  have ok1: "runtime_ok rt1" using on_client_ok [OF found assms(2)] discover_ok by blast
  show ?thesis
  proof (cases x)
    case (Inr catalog)
    let ?t = "map (imported_tool_from_discovery sid) (mc_tools catalog)"
    let ?p = "map (imported_prompt_from_discovery sid) (mc_prompts catalog)"
    let ?x = "map (imported_resource_from_discovery sid) (mc_resources catalog)"
    obtain y st where rep: "replace_catalog sid ?t ?p ?x now (mx_store rt1) = (y, st)" by fastforce
    have st: "store_ok st"
      by (rule store_ok_catalog [OF _ rep])
        (use ok1 in \<open>simp_all add: runtime_ok_def imported_tool_from_discovery_def imported_prompt_from_discovery_def
          imported_resource_from_discovery_def\<close>)
    have pool: "runtime_ok (rt1\<lparr>mx_store := st\<rparr>)" using ok1 st by (simp add: runtime_ok_def)
    have inval: "runtime_ok (invalidate_pooled_mcp_client (rt1\<lparr>mx_store := st\<rparr>))" using st by (simp add: invalidate_ok)
    have bound: "runtime_ok ((invalidate_pooled_mcp_client (rt1\<lparr>mx_store := st\<rparr>))\<lparr>mx_store := st2\<rparr>)"
      if "bind_discovered_mcp_entries a sid ?t ?p ?x bt bp br now uuids st = (b, st2)" for a bt bp br b st2
      using store_ok_bind_discovered [OF that st] by (simp add: runtime_ok_def invalidate_pooled_mcp_client_def)
    show ?thesis
      using assms(1) found Inr rep pool inval bound
      by (auto simp: sync_catalog_def Let_def invalidate_pooled_mcp_client_def split: sum.splits option.splits prod.splits)
  qed (use assms(1) found ok1 in \<open>auto simp: sync_catalog_def\<close>)
qed

text \<open>The MCP tools as steps of the runtime.\<close>

inductive mcp_step :: "('w, 'c) stdio \<Rightarrow> ('w, 'c) mcp_runtime \<Rightarrow> ('w, 'c) mcp_runtime \<Rightarrow> bool" for io where
  Register: "register_mcp_server pe p now rt = (r, rt') \<Longrightarrow> mcp_step io rt rt'"
| Sync: "sync_mcp_server_catalog io pe agent q now uuids rt = Some (r, rt') \<Longrightarrow> mcp_step io rt rt'"
| Setup: "setup_chrome_devtools_mcp io pe agent q2 now uuids rt = Some (r, rt') \<Longrightarrow> mcp_step io rt rt'"
| ImportTool: "import_mcp_tool pe t now rt = (r, rt') \<Longrightarrow> mcp_step io rt rt'"
| ImportPrompt: "import_mcp_prompt pe pr now rt = (r, rt') \<Longrightarrow> mcp_step io rt rt'"
| ImportResource: "import_mcp_resource pe x now rt = (r, rt') \<Longrightarrow> mcp_step io rt rt'"
| Bind: "bind_mcp_import pe agent q3 now uuid rt = (r, rt') \<Longrightarrow> mcp_step io rt rt'"
| Invoke: "invoke_mcp_tool io pe agent sid name input rt = Some (r, rt') \<Longrightarrow> mcp_step io rt rt'"
| RenderPrompt: "render_mcp_prompt io pe agent sid name input rt = Some (r, rt') \<Longrightarrow> mcp_step io rt rt'"
| ReadResource: "read_mcp_resource io pe agent sid name rt = Some (r, rt') \<Longrightarrow> mcp_step io rt rt'"

lemma store_server_ok: "runtime_ok rt \<Longrightarrow> \<not> reserved_profile p \<Longrightarrow> runtime_ok (store_server p now rt)"
  by (simp add: store_server_def runtime_ok_def invalidate_pooled_mcp_client_def store_ok_server)

lemma import_payload_ok: "import_payload tool p now res pe rt = (r, rt') \<Longrightarrow> runtime_ok rt \<Longrightarrow> runtime_ok rt'"
  by (auto simp: import_payload_def runtime_ok_def Let_def invalidate_pooled_mcp_client_def store_ok_import
      split: if_splits sum.splits dest!: store_ok_refresh [rotated])

lemma client_ops_ok:
  "call_tool_for_agent io prof sid name input cl = Some (r, cl') \<Longrightarrow> client_ok cl \<Longrightarrow> client_ok cl'"
  "render_prompt_for_agent io prof sid name input cl = Some (r, cl') \<Longrightarrow> client_ok cl \<Longrightarrow> client_ok cl'"
  "read_resource_for_agent io prof sid name cl = Some (r, cl') \<Longrightarrow> client_ok cl \<Longrightarrow> client_ok cl'"
  using client_step_ok client_step.intros by metis+

lemma on_client_ops_ok:
  "on_client (call_tool_for_agent io prof sid name input) rt = Some (r, rt') \<Longrightarrow> runtime_ok rt \<Longrightarrow> runtime_ok rt'"
  "on_client (render_prompt_for_agent io prof sid name input) rt = Some (r, rt') \<Longrightarrow> runtime_ok rt \<Longrightarrow> runtime_ok rt'"
  "on_client (read_resource_for_agent io prof sid name) rt = Some (r, rt') \<Longrightarrow> runtime_ok rt \<Longrightarrow> runtime_ok rt'"
  by (rule on_client_ok [THEN conjunct1], assumption, assumption, erule client_ops_ok, assumption)+

lemma mcp_step_ok: "mcp_step io rt rt' \<Longrightarrow> runtime_ok rt \<Longrightarrow> runtime_ok rt'"
proof (induction rule: mcp_step.induct)
  case (Register pe p now rt r rt')
  then show ?case by (auto simp: register_mcp_server_def store_server_ok split: if_splits)
next
  case (Sync pe agent q now uuids rt r rt')
  then show ?case using sync_catalog_ok
    by (auto simp: sync_mcp_server_catalog_def Let_def split: if_splits sum.splits) blast
next
  case (Setup pe agent q2 now uuids rt r rt')
  then show ?case using sync_catalog_ok [OF _ store_server_ok]
    by (auto simp: setup_chrome_devtools_mcp_def Let_def split: if_splits)
next
  case (ImportTool pe t now rt r rt')
  then show ?case using import_payload_ok by (auto simp: import_mcp_tool_def)
next
  case (ImportPrompt pe pr now rt r rt')
  then show ?case using import_payload_ok by (auto simp: import_mcp_prompt_def)
next
  case (ImportResource pe x now rt r rt')
  then show ?case using import_payload_ok by (auto simp: import_mcp_resource_def)
next
  case (Bind pe agent q3 now uuid rt r rt')
  then show ?case using store_ok_binding
    by (auto simp: bind_mcp_import_def Let_def runtime_ok_def split: if_splits sum.splits option.splits)
next
  case (Invoke pe agent sid name input rt r rt')
  then show ?case unfolding invoke_mcp_tool_def Let_def
    by (auto split: sum.splits dest: on_client_ops_ok)
next
  case (RenderPrompt pe agent sid name input rt r rt')
  then show ?case unfolding render_mcp_prompt_def Let_def
    by (auto split: sum.splits dest: on_client_ops_ok)
next
  case (ReadResource pe agent sid name rt r rt')
  then show ?case unfolding read_mcp_resource_def Let_def
    by (auto split: sum.splits dest: on_client_ops_ok)
qed

text \<open>A runtime at its start: empty tables, no client.\<close>

definition empty_mcp_store :: mcp_store where
  "empty_mcp_store = \<lparr>mcp_servers = [], mcp_imports = [], mcp_bindings = [], mcp_import_cache = []\<rparr>"

definition new_runtime :: "'w \<Rightarrow> ('w, 'c) mcp_runtime" where
  "new_runtime w = \<lparr>mx_store = empty_mcp_store, mx_pool = None, mx_world = w\<rparr>"

lemma new_runtime_ok: "runtime_ok (new_runtime w)"
  by (simp add: runtime_ok_def new_runtime_def empty_mcp_store_def store_ok_def)

lemma reachable_runtime_ok: "(mcp_step io)\<^sup>*\<^sup>* (new_runtime w) rt \<Longrightarrow> runtime_ok rt"
  by (induction rule: rtranclp_induct) (auto intro: new_runtime_ok mcp_step_ok)

text \<open>C11: after any sequence of MCP tools the pooled client keeps the pipes of a subprocess, and so can be asked
  to write to it, only for a server of its registry that is enabled and has the stdio transport, and never under a name
  reserved for a native subsystem.  This is about the subprocesses the client can still reach: one whose entry is
  dropped is not killed, and the subprocess of a single call (transport stdio_once) has no entry.\<close>

theorem mcp_pipes_served:
  assumes "(mcp_step io)\<^sup>*\<^sup>* (new_runtime w) rt" "mx_pool rt = Some cl" "px_processes (cl_transport cl) k = Some c"
  shows "\<exists>p. map_of (rg_servers (cl_registry cl)) k = Some p \<and> ms_server_id p = k \<and> ms_enabled p \<and>
     ms_transport p = ''stdio'' \<and> \<not> reserved_native_mcp_target k"
proof -
  have ok: "client_ok cl" using reachable_runtime_ok [OF assms(1)] assms(2) by (simp add: runtime_ok_def)
  then obtain p where "serves (cl_registry cl) k p" "ms_transport p = ''stdio''"
    using assms(3) unfolding client_ok_def processes_ok_def by blast
  then show ?thesis using ok by (auto simp: serves_def client_ok_def registry_ok_def)
qed

lemma store_server_fields:
  "mx_store (store_server p now rt) = upsert_mcp_server p now (mx_store rt)" "mx_pool (store_server p now rt) = None"
  by (simp_all add: store_server_def invalidate_pooled_mcp_client_def)

lemma in_upsert_by: "r \<in> set (upsert_by key r t)"
  by (force simp: upsert_by_def update_by_def has_key_iff image_iff)

lemma server_after_upsert: "p \<in> set (list_mcp_servers (upsert_mcp_server p now st))"
  using in_upsert_by [of "\<lparr>sr_profile = p, sr_updated_at_us = now\<rparr>" sr_id "mcp_servers st"]
  by (force simp: servers_listed upsert_mcp_server_def)

lemma imports_after_upsert: "has_imports (upsert_mcp_server p now st) = has_imports st"
  by (simp add: fun_eq_iff has_imports_def upsert_mcp_server_def list_mcp_imported_tools_def list_mcp_imported_prompts_def
      list_mcp_imported_resources_def list_mcp_import_payloads_def)

text \<open>Disabling one MCP server that has an import makes every call of every tool of every MCP server fail until the
  server is enabled again.\<close>

lemma disabled_server_blocks_mcp:
  assumes "runtime_ok rt" "register_mcp_server True p now rt = (Ok res, rt')" "\<not> ms_enabled p"
    "has_imports (mx_store rt) (ms_server_id p)"
  shows "\<exists>e. invoke_mcp_tool io pe agent server tool input rt' = Some (Err e, rt')"
proof -
  have rt': "rt' = store_server p now rt" and open_name: "\<not> reserved_profile p"
    using assms(2) by (auto simp: register_mcp_server_def split: if_splits)
  let ?st = "upsert_mcp_server p now (mx_store rt)"
  have "store_ok ?st" using store_ok_server [OF _ open_name] assms(1) by (simp add: runtime_ok_def)
  moreover have "\<not> loadable ?st"
    using server_after_upsert [of p now "mx_store rt"] assms(3,4) by (auto simp: loadable_def list_all_iff imports_after_upsert)
  ultimately obtain e where "load_mcp_registry_from_store ?st = Err e"
    using load_registry_iff [of ?st] by (cases "load_mcp_registry_from_store ?st") auto
  then have "pooled_mcp_client rt' = Err e"
    unfolding rt' pooled_mcp_client_def by (simp add: store_server_fields)
  then have failing: "on_client f rt' = Some (Err (ToolError e), rt')"
    for f :: "('a, 'b) McpClient \<Rightarrow> ((McpRegistryError, 'x) result \<times> ('a, 'b) McpClient) option"
    by (simp add: on_client_def)
  show ?thesis
    unfolding invoke_mcp_tool_def Let_def failing
    by (cases "invocation_checks ''invoke_mcp_tool'' ''tool_name'' (trim_ws server) (trim_ws tool) agent pe") auto
qed

section \<open>Examples\<close>

definition example_store_mcp :: mcp_store where
  "example_store_mcp = \<lparr>mcp_servers = [\<lparr>sr_profile = example_server, sr_updated_at_us = 1\<rparr>],
     mcp_imports = [import_row_of (ToolPayload example_tool) ''s'' 1], mcp_bindings = [], mcp_import_cache = []\<rparr>"

definition example_registry :: McpRegistry where
  "example_registry = \<lparr>rg_servers = [(''s'', example_server)], rg_tools = [(''s'', [example_tool])], rg_prompts = [],
     rg_resources = []\<rparr>"

lemmas example_tables = example_store_mcp_def list_mcp_servers_def list_mcp_imported_tools_def
  list_mcp_imported_prompts_def list_mcp_imported_resources_def list_mcp_import_payloads_def import_row_of_def
  map_filter_simps

lemma reserved_example: "\<not> reserved_profile example_server"
  by code_simp

lemma example_store_ok: "store_ok example_store_mcp"
  using reserved_example by (simp add: store_ok_def example_store_mcp_def row_ok_def import_row_of_def example_tool_def)

lemma example_load: "load_mcp_registry_from_store example_store_mcp = Ok example_registry"
  "load_mcp_registry_from_store (example_store_mcp\<lparr>mcp_import_cache := c\<rparr>) = Ok example_registry"
  by (simp_all add: load_mcp_registry_from_store_def load_server_def example_tables register_server_def new_registry_def
      import_tool_def ensure_server_enabled_def upsert_by_def update_by_def entry_or_default_def example_server_def
      example_tool_def example_registry_def has_key_iff Let_def)

lemma registry_allows_stored_imports_witness:
  "tool_allowed_for_agent example_registry example_profile ''s'' ''t''"
  using registry_allows_stored_imports [OF example_store_ok example_load(1), of example_profile "''s''" "''t''"]
  by (simp add: stored_server_def stored_tool_def example_tables example_profile_def example_server_def example_tool_def)

definition example_runtime :: "(unit, unit) mcp_runtime" where
  "example_runtime = \<lparr>mx_store = example_store_mcp, mx_pool = None, mx_world = ()\<rparr>"

lemma disabled_server_blocks_mcp_example:
  "\<exists>e. invoke_mcp_tool (example_io ''x'') True (Some ''a'') ''other'' ''t'' JNull
     (store_server (example_server\<lparr>ms_enabled := False\<rparr>) 2 example_runtime) =
     Some (Err e, store_server (example_server\<lparr>ms_enabled := False\<rparr>) 2 example_runtime)"
proof -
  let ?p = "example_server\<lparr>ms_enabled := False\<rparr>"
  have "reserved_profile ?p = reserved_profile example_server" by (simp add: reserved_profile_def)
  then obtain res where reg: "register_mcp_server True ?p 2 example_runtime = (Ok res, store_server ?p 2 example_runtime)"
    using reserved_example by (simp add: register_mcp_server_def)
  have rt: "runtime_ok example_runtime" by (simp add: runtime_ok_def example_runtime_def example_store_ok)
  have imp: "has_imports (mx_store example_runtime) (ms_server_id ?p)"
    by (simp add: has_imports_def example_runtime_def example_tables example_server_def)
  show ?thesis by (rule disabled_server_blocks_mcp [OF rt reg _ imp]) simp
qed

text \<open>A pipe that opens but takes no line: the session fails, the process stays.\<close>

definition broken_pipe :: "(unit, unit) stdio" where
  "broken_pipe = (example_io ''x'')\<lparr>sp_write := (\<lambda>_ _ w. (Err ''closed'', w))\<rparr>"

definition example_client :: "(unit, unit) McpClient" where
  "example_client = \<lparr>cl_registry = example_registry,
     cl_transport = \<lparr>px_world = (), px_processes = [''s'' \<mapsto> ()], px_next_request_id = 2\<rparr>, cl_sessions = []\<rparr>"

lemma example_invocation:
  assumes "rt = example_runtime\<lparr>mx_store := example_store_mcp\<lparr>mcp_import_cache := c\<rparr>\<rparr>"
  shows "\<exists>r. invoke_mcp_tool broken_pipe True (Some ''a'') ''s'' ''t'' JNull rt = Some (r, rt\<lparr>mx_pool := Some example_client\<rparr>)"
proof -
  have trims: "trim_ws ''s'' = ''s''" "trim_ws ''t'' = ''t''" "trim_ws ''run'' = ''run''" "split_whitespace ''run'' = [''run'']"
    by code_simp+
  let ?prof = "native_mcp_profile ''a'' ''s'' (Some ''t'') None None"
  let ?cl = "new_client example_registry () :: (unit, unit) McpClient"
  have allowed: "tool_allowed_for_agent (cl_registry ?cl) ?prof ''s'' ''t''"
    by (simp add: tool_allowed_for_agent_def new_client_def example_registry_def native_mcp_profile_def server_enabled_def
        entry_or_default_def example_server_def example_tool_def)
  have found: "find (\<lambda>t. mt_tool_name t = ''t'') (list_imported_tools (cl_registry ?cl) ''s'') = Some example_tool"
    by (simp add: new_client_def example_registry_def list_imported_tools_def entry_or_default_def example_tool_def)
  have "\<exists>e. ensure_session broken_pipe ''s'' ?cl = Some (Err e, example_client)"
    by (simp add: ensure_session_def new_client_def example_registry_def example_server_def open_session_def persistent_open_session_def once_open_session_def trims
        ensure_process_def fresh_session_def spawn_process_def broken_pipe_def example_io_def initialize_session_def
        take_request_id_def invoke_raw_def send_line_def example_client_def)
  then have "\<exists>e. call_tool_for_agent broken_pipe ?prof ''s'' ''t'' JNull ?cl = Some (Err e, example_client)"
    using allowed found by (auto simp: call_tool_for_agent_def with_session_def)
  then show ?thesis
    by (auto simp: assms invoke_mcp_tool_def trims invocation_checks_def on_client_def pooled_mcp_client_def
        example_runtime_def example_load)
qed

lemma mcp_pipes_served_witness:
  "\<exists>p. map_of (rg_servers (cl_registry example_client)) ''s'' = Some p \<and> ms_server_id p = ''s'' \<and> ms_enabled p \<and>
     ms_transport p = ''stdio'' \<and> \<not> reserved_native_mcp_target ''s''"
proof (rule mcp_pipes_served [where io = broken_pipe and w = "()" and c = "()"])
  let ?cache = "\<lparr>ic_server_id = ''s'', ic_transport = ''stdio'', ic_tool_count = 1, ic_prompt_count = 0,
    ic_resource_count = 0, ic_refreshed_at_us = 1\<rparr>"
  let ?rt = "example_runtime\<lparr>mx_store := example_store_mcp\<lparr>mcp_import_cache := [?cache]\<rparr>\<rparr>"
  let ?rt1 = "store_server example_server 1 (new_runtime ())"
  have "mcp_step broken_pipe (new_runtime ()) ?rt1"
    using reserved_example by (intro mcp_step.Register [where pe = True and p = example_server and now = 1])
      (simp add: register_mcp_server_def)
  moreover have "mcp_step broken_pipe ?rt1 ?rt"
  proof (rule mcp_step.ImportTool [where pe = True and t = example_tool and now = 1])
    show "import_mcp_tool True example_tool 1 ?rt1 = (Ok (Structured (''Imported MCP tool '' @ quoted (mt_tool_name example_tool) @
        '' from server '' @ quoted (mt_server_id example_tool) @ ''.'') ''mcp_import''
        (JObject [(''server_id'', JString (mt_server_id example_tool)), (''tool_name'', JString (mt_tool_name example_tool))])), ?rt)"
      by (simp add: import_mcp_tool_def import_payload_def store_server_def new_runtime_def empty_mcp_store_def
          invalidate_pooled_mcp_client_def current_world_def upsert_mcp_server_def upsert_by_def has_key_iff
          ensure_mcp_server_exists_def list_mcp_servers_def example_server_def upsert_mcp_import_payload_def
          refresh_mcp_import_cache_def upsert_mcp_import_cache_record_def list_mcp_imported_tools_def
          list_mcp_imported_prompts_def list_mcp_imported_resources_def list_mcp_import_payloads_def import_row_of_def
          map_filter_simps example_runtime_def example_store_mcp_def example_tool_def Let_def)
  qed
  moreover obtain r where "invoke_mcp_tool broken_pipe True (Some ''a'') ''s'' ''t'' JNull ?rt = Some (r, ?rt\<lparr>mx_pool := Some example_client\<rparr>)"
    using example_invocation [OF refl, of "[?cache]"] by blast
  then have "mcp_step broken_pipe ?rt (?rt\<lparr>mx_pool := Some example_client\<rparr>)" by (rule mcp_step.Invoke)
  ultimately show "(mcp_step broken_pipe)\<^sup>*\<^sup>* (new_runtime ()) (?rt\<lparr>mx_pool := Some example_client\<rparr>)"
    by (meson r_into_rtranclp rtranclp_trans)
qed (simp_all add: example_client_def)

end
