(* ===== verification/WorkspaceLock.thy ===== *)
theory WorkspaceLock
  imports BackendPool
begin

text \<open>The lock that serialises the tools that write to a workspace (\<open>aria-x/src/workspace_lock.rs\<close>).  Runs are
  concurrent: every atomic operation of \<open>acquire\<close> and of the guard's \<open>drop\<close> is a step of its own, and the steps of
  the runs interleave freely.  The semaphore is tokio's, documented to be fair: one permit, given to the waiting runs
  in the order in which they asked.  A waiting run may time out, or be cancelled, that is, its future dropped.\<close>

section \<open>State\<close>

record 't WorkspaceLockEntry =
  le_permit :: "'t option"
  le_queue :: "'t list"
  le_active_holders :: u64
  le_waiting_runs :: u64
  le_current_holder :: "string option"
  le_updated_at_us :: u64

definition new_entry :: "u64 \<Rightarrow> 't WorkspaceLockEntry" where
  "new_entry now = \<lparr>le_permit = None, le_queue = [], le_active_holders = 0, le_waiting_runs = 0,
     le_current_holder = None, le_updated_at_us = now\<rparr>"

text \<open>Where a run is in \<open>acquire\<close> and \<open>drop\<close>: before it, with the entry looked up, counted as waiting, with the time stored, in the
  semaphore's queue, with the permit, no longer counted as waiting, counted as holder, named as holder, holding the
  guard; in \<open>drop\<close> with the holder count taken back, the name cleared, the time stored, and through; after a time-out
  with the waiting count still to take back, the time still to store, the holder still to read, and refused; cancelled.\<close>

datatype phase = Idle | Entered | Counting | Counted | Queued | Permitted | Uncounted | HolderCounted | Named | Holding
  | Unholding | Unnamed | Stamped | Released | TimedOut | TimedOutUncounted | TimedOutStamped | Refused OrchestratorError | CancelledWait

record run_state =
  rs_workspace_key :: string
  rs_holder_id :: string
  rs_current_us :: u64
  rs_phase :: phase

record 't lock_config =
  lc_entries :: "string \<rightharpoonup> 't WorkspaceLockEntry"
  lc_runs :: "'t \<Rightarrow> run_state"

definition busy_error :: "string \<Rightarrow> string option \<Rightarrow> OrchestratorError" where
  "busy_error key holder = ResourceBusy (''workspace '' @ [CHR 0x27] @ key @ [CHR 0x27] @ '' is busy (held by '' @ [CHR 0x27] @
     (case holder of Some h \<Rightarrow> h | None \<Rightarrow> ''unknown'') @ [CHR 0x27] @ '')'')"

section \<open>Steps\<close>

text \<open>One atomic operation of run \<open>t\<close> on the entry of its workspace at the time \<open>now\<close>: the phase and the entry
  before and after.\<close>

inductive entry_step :: "string \<Rightarrow> 't \<Rightarrow> run_state \<Rightarrow> u64 \<Rightarrow> phase \<Rightarrow> 't WorkspaceLockEntry \<Rightarrow> phase \<Rightarrow> 't WorkspaceLockEntry \<Rightarrow> bool"
  for key t r now where
  CountWaiting: "entry_step key t r now Entered e Counting (e\<lparr>le_waiting_runs := le_waiting_runs e + 1\<rparr>)"
| StampWaiting: "entry_step key t r now Counting e Counted (e\<lparr>le_updated_at_us := rs_current_us r\<rparr>)"
| Enqueue: "entry_step key t r now Counted e Queued (e\<lparr>le_queue := le_queue e @ [t]\<rparr>)"
| Grant: "le_permit e = None \<Longrightarrow> le_queue e = t # q \<Longrightarrow>
     entry_step key t r now Queued e Permitted (e\<lparr>le_permit := Some t, le_queue := q\<rparr>)"
| UncountWaiting: "entry_step key t r now Permitted e Uncounted (e\<lparr>le_waiting_runs := le_waiting_runs e - 1\<rparr>)"
| CountHolder: "entry_step key t r now Uncounted e HolderCounted (e\<lparr>le_active_holders := le_active_holders e + 1\<rparr>)"
| NameHolder: "entry_step key t r now HolderCounted e Named (e\<lparr>le_current_holder := Some (rs_holder_id r)\<rparr>)"
| StampAcquired: "entry_step key t r now Named e Holding (e\<lparr>le_updated_at_us := now\<rparr>)"
| DropCount: "entry_step key t r now Holding e Unholding (e\<lparr>le_active_holders := le_active_holders e - 1\<rparr>)"
| DropName: "entry_step key t r now Unholding e Unnamed (e\<lparr>le_current_holder := None\<rparr>)"
| DropStamp: "entry_step key t r now Unnamed e Stamped (e\<lparr>le_updated_at_us := now\<rparr>)"
| DropPermit: "entry_step key t r now Stamped e Released (e\<lparr>le_permit := None\<rparr>)"
| TimeOut: "entry_step key t r now Queued e TimedOut (e\<lparr>le_queue := remove1 t (le_queue e)\<rparr>)"
| TimeOutUncount: "entry_step key t r now TimedOut e TimedOutUncounted (e\<lparr>le_waiting_runs := le_waiting_runs e - 1\<rparr>)"
| TimeOutStamp: "entry_step key t r now TimedOutUncounted e TimedOutStamped (e\<lparr>le_updated_at_us := now\<rparr>)"
| Refuse: "entry_step key t r now TimedOutStamped e (Refused (busy_error key (le_current_holder e))) e"
| Cancel: "entry_step key t r now Queued e CancelledWait (e\<lparr>le_queue := remove1 t (le_queue e)\<rparr>)"

text \<open>The look-up of the entry, which makes one where there is none, and the operations on it.\<close>

inductive lock_step :: "'t lock_config \<Rightarrow> 't lock_config \<Rightarrow> bool" where
  Look: "lc_runs cf t = r \<Longrightarrow> rs_phase r = Idle \<Longrightarrow>
     lock_step cf \<lparr>lc_entries = (case lc_entries cf (rs_workspace_key r) of
         None \<Rightarrow> (lc_entries cf)(rs_workspace_key r \<mapsto> new_entry (rs_current_us r)) | Some _ \<Rightarrow> lc_entries cf),
       lc_runs = (lc_runs cf)(t := r\<lparr>rs_phase := Entered\<rparr>)\<rparr>"
| Operate: "lc_runs cf t = r \<Longrightarrow> lc_entries cf (rs_workspace_key r) = Some e \<Longrightarrow>
     entry_step (rs_workspace_key r) t r now (rs_phase r) e ph e' \<Longrightarrow>
     lock_step cf \<lparr>lc_entries = (lc_entries cf)(rs_workspace_key r \<mapsto> e'),
       lc_runs = (lc_runs cf)(t := r\<lparr>rs_phase := ph\<rparr>)\<rparr>"

definition initial_config :: "('t \<Rightarrow> run_state) \<Rightarrow> 't lock_config" where
  "initial_config runs = \<lparr>lc_entries = Map.empty, lc_runs = (\<lambda>t. (runs t)\<lparr>rs_phase := Idle\<rparr>)\<rparr>"

section \<open>The snapshot\<close>

record WorkspaceLockSnapshot =
  wl_workspace_key :: string
  wl_active_holders :: u64
  wl_waiting_runs :: u64
  wl_current_holder :: "string option"
  wl_updated_at_us :: u64

definition snapshot_entry :: "string \<times> 't WorkspaceLockEntry \<Rightarrow> WorkspaceLockSnapshot" where
  "snapshot_entry = (\<lambda>(k, e). \<lparr>wl_workspace_key = k, wl_active_holders = le_active_holders e,
     wl_waiting_runs = le_waiting_runs e, wl_current_holder = le_current_holder e, wl_updated_at_us = le_updated_at_us e\<rparr>)"

definition snapshot :: "(string \<times> 't WorkspaceLockEntry) list \<Rightarrow> WorkspaceLockSnapshot list" where
  "snapshot entries = sort_key wl_workspace_key
     (filter (\<lambda>s. 0 < wl_active_holders s \<or> 0 < wl_waiting_runs s) (map snapshot_entry entries))"

section \<open>The invariant\<close>

definition has_permit :: "phase \<Rightarrow> bool" where
  "has_permit ph \<longleftrightarrow> ph \<in> {Permitted, Uncounted, HolderCounted, Named, Holding, Unholding, Unnamed, Stamped}"

definition counted_waiting :: "phase \<Rightarrow> bool" where
  "counted_waiting ph \<longleftrightarrow> ph \<in> {Counting, Counted, Queued, Permitted, TimedOut, CancelledWait}"

definition counted_holder :: "phase \<Rightarrow> bool" where
  "counted_holder ph \<longleftrightarrow> ph \<in> {HolderCounted, Named, Holding}"

definition named_holder :: "phase \<Rightarrow> bool" where
  "named_holder ph \<longleftrightarrow> ph \<in> {Named, Holding, Unholding}"

lemmas phase_sets = has_permit_def counted_waiting_def counted_holder_def named_holder_def

definition runs_of :: "('t \<Rightarrow> run_state) \<Rightarrow> string \<Rightarrow> (phase \<Rightarrow> bool) \<Rightarrow> 't set" where
  "runs_of runs k P = {t. rs_workspace_key (runs t) = k \<and> P (rs_phase (runs t))}"

text \<open>What an entry says of the runs of its workspace.\<close>

definition entry_ok :: "('t \<Rightarrow> run_state) \<Rightarrow> string \<Rightarrow> 't WorkspaceLockEntry \<Rightarrow> bool" where
  "entry_ok runs k e \<longleftrightarrow>
     runs_of runs k has_permit = set_option (le_permit e) \<and>
     le_waiting_runs e = of_nat (card (runs_of runs k counted_waiting)) \<and>
     le_active_holders e = of_nat (card (runs_of runs k counted_holder)) \<and>
     le_current_holder e = (case le_permit e of
       Some t \<Rightarrow> if named_holder (rs_phase (runs t)) then Some (rs_holder_id (runs t)) else None
     | None \<Rightarrow> None)"

definition key_ok :: "('t \<Rightarrow> run_state) \<Rightarrow> string \<Rightarrow> 't WorkspaceLockEntry option \<Rightarrow> bool" where
  "key_ok runs k entry \<longleftrightarrow> (case entry of
     Some e \<Rightarrow> entry_ok runs k e
   | None \<Rightarrow> (\<forall>t. rs_workspace_key (runs t) = k \<longrightarrow> rs_phase (runs t) = Idle))"

definition config_ok :: "'t lock_config \<Rightarrow> bool" where
  "config_ok cf \<longleftrightarrow> finite {t. rs_phase (lc_runs cf t) \<noteq> Idle} \<and> (\<forall>k. key_ok (lc_runs cf) k (lc_entries cf k))"

lemma config_okD:
  assumes "config_ok cf"
  shows "finite {t. rs_phase (lc_runs cf t) \<noteq> Idle}" "key_ok (lc_runs cf) k (lc_entries cf k)"
  using assms by (simp_all add: config_ok_def)

lemma key_ok_simps [simp]:
  "key_ok runs k (Some e) \<longleftrightarrow> entry_ok runs k e"
  "key_ok runs k None \<longleftrightarrow> (\<forall>t. rs_workspace_key (runs t) = k \<longrightarrow> rs_phase (runs t) = Idle)"
  by (simp_all add: key_ok_def)

lemma runs_of_update:
  "runs_of (runs(t := r\<lparr>rs_phase := ph\<rparr>)) k P =
     (if rs_workspace_key r = k then (if P ph then insert t (runs_of runs k P - {t}) else runs_of runs k P - {t})
      else runs_of runs k P - {t})"
  by (auto simp: runs_of_def)

lemma finite_runs_of:
  assumes "finite {t. rs_phase (runs t) \<noteq> Idle}" "\<not> P Idle"
  shows "finite (runs_of runs k P)"
  by (rule finite_subset [OF _ assms(1)]) (use assms(2) in \<open>auto simp: runs_of_def\<close>)

lemma phase_sets_Idle [simp]: "\<not> has_permit Idle" "\<not> counted_waiting Idle" "\<not> counted_holder Idle"
  by (simp_all add: phase_sets)

text \<open>The cardinal after a run changes its phase.\<close>

lemma card_runs_of:
  assumes "finite {t. rs_phase (runs t) \<noteq> Idle}" "\<not> P Idle" "runs t = r" "rs_workspace_key r = k"
  shows "(of_nat (card (runs_of (runs(t := r\<lparr>rs_phase := ph\<rparr>)) k P)) :: u64) =
     of_nat (card (runs_of runs k P)) + (if P ph then 1 else 0) - (if P (rs_phase r) then 1 else 0)"
proof -
  let ?S = "runs_of runs k P"
  have fin: "finite ?S" by (rule finite_runs_of [where runs = runs and P = P, OF assms(1) assms(2)])
  have mem: "t \<in> ?S \<longleftrightarrow> P (rs_phase r)" using assms(3,4) by (simp add: runs_of_def)
  have "card ?S = Suc (card (?S - {t}))" if "t \<in> ?S" using card.remove [OF fin that] by simp
  then show ?thesis using fin mem assms(4) by (auto simp: runs_of_update insert_absorb)
qed

lemma entry_ok_other:
  assumes "entry_ok runs k e" "runs t = r" "rs_workspace_key r \<noteq> k"
  shows "entry_ok (runs(t := r\<lparr>rs_phase := ph\<rparr>)) k e"
proof -
  have same: "runs_of (runs(t := r\<lparr>rs_phase := ph\<rparr>)) k P = runs_of runs k P" for P
    using assms(2,3) by (auto simp: runs_of_def)
  have "le_permit e \<noteq> Some t" using assms by (auto simp: entry_ok_def runs_of_def)
  then show ?thesis using assms(1) by (auto simp: entry_ok_def same split: option.splits)
qed

lemma entry_step_ok:
  assumes "entry_step k t r now (rs_phase r) e ph e'" "entry_ok runs k e" "finite {t. rs_phase (runs t) \<noteq> Idle}"
    "runs t = r" "rs_workspace_key r = k"
  shows "entry_ok (runs(t := r\<lparr>rs_phase := ph\<rparr>)) k e'"
proof -
  let ?runs = "runs(t := r\<lparr>rs_phase := ph\<rparr>)"
  have old: "runs_of runs k has_permit = set_option (le_permit e)"
    "le_waiting_runs e = of_nat (card (runs_of runs k counted_waiting))"
    "le_active_holders e = of_nat (card (runs_of runs k counted_holder))"
    using assms(2) by (simp_all add: entry_ok_def)
  have t: "has_permit (rs_phase r) \<longleftrightarrow> le_permit e = Some t"
    using old(1) assms(4,5) by (auto simp: runs_of_def set_eq_iff)
  have w: "(of_nat (card (runs_of ?runs k counted_waiting)) :: u64) =
      le_waiting_runs e + (if counted_waiting ph then 1 else 0) - (if counted_waiting (rs_phase r) then 1 else 0)"
    using card_runs_of [where runs = runs and P = counted_waiting, OF assms(3) phase_sets_Idle(2) assms(4,5)] old(2) by simp
  have a: "(of_nat (card (runs_of ?runs k counted_holder)) :: u64) =
      le_active_holders e + (if counted_holder ph then 1 else 0) - (if counted_holder (rs_phase r) then 1 else 0)"
    using card_runs_of [where runs = runs and P = counted_holder, OF assms(3) phase_sets_Idle(3) assms(4,5)] old(3) by simp
  have p: "runs_of ?runs k has_permit = (if has_permit ph then insert t (set_option (le_permit e) - {t})
      else set_option (le_permit e) - {t})"
    using old(1) assms(5) by (simp add: runs_of_update)
  have h: "le_current_holder e = (case le_permit e of
       Some s \<Rightarrow> if named_holder (rs_phase (runs s)) then Some (rs_holder_id (runs s)) else None | None \<Rightarrow> None)"
    using assms(2) by (simp add: entry_ok_def)
  show ?thesis
    using assms(1)
    by (cases rule: entry_step.cases; insert t w a p h assms(4); auto simp: entry_ok_def phase_sets split: option.splits)
qed

lemma key_ok_other:
  assumes "key_ok runs k entry" "runs t = r" "rs_workspace_key r \<noteq> k"
  shows "key_ok (runs(t := r\<lparr>rs_phase := ph\<rparr>)) k entry"
  using assms entry_ok_other [of runs k _ t r ph] by (cases entry) auto

lemma finite_not_Idle:
  assumes "finite {t. rs_phase (runs t) \<noteq> Idle}"
  shows "finite {s. rs_phase ((runs(t := r)) s) \<noteq> Idle}"
proof -
  have "{s. rs_phase ((runs(t := r)) s) \<noteq> Idle} \<subseteq> insert t {t. rs_phase (runs t) \<noteq> Idle}" by auto
  then show ?thesis by (rule finite_subset) (use assms in simp)
qed

text \<open>The step of one run keeps the invariant when it keeps it at the run's own workspace.\<close>

lemma config_ok_update:
  assumes "config_ok cf" "lc_runs cf t = r"
    and "entry_ok ((lc_runs cf)(t := r\<lparr>rs_phase := ph\<rparr>)) (rs_workspace_key r) e'"
    and "entries = (lc_entries cf)(rs_workspace_key r \<mapsto> e')"
  shows "config_ok \<lparr>lc_entries = entries, lc_runs = (lc_runs cf)(t := r\<lparr>rs_phase := ph\<rparr>)\<rparr>"
proof -
  have "key_ok ((lc_runs cf)(t := r\<lparr>rs_phase := ph\<rparr>)) k (entries k)" for k
    using assms(3,4) key_ok_other [OF config_okD(2) [OF assms(1)] assms(2)] by (cases "k = rs_workspace_key r") auto
  then show ?thesis using finite_not_Idle [OF config_okD(1) [OF assms(1)]] by (simp add: config_ok_def)
qed

lemma entered_ok:
  assumes "entry_ok runs (rs_workspace_key r) e" "runs t = r" "rs_phase r = Idle"
  shows "entry_ok (runs(t := r\<lparr>rs_phase := Entered\<rparr>)) (rs_workspace_key r) e"
proof -
  have same: "runs_of (runs(t := r\<lparr>rs_phase := Entered\<rparr>)) (rs_workspace_key r) P = runs_of runs (rs_workspace_key r) P"
    if "\<not> P Idle" "\<not> P Entered" for P
    using that assms(2,3) by (auto simp: runs_of_def)
  have "t \<notin> runs_of runs (rs_workspace_key r) has_permit" using assms(2,3) by (simp add: runs_of_def)
  moreover have "runs_of runs (rs_workspace_key r) has_permit = set_option (le_permit e)"
    using assms(1) by (simp add: entry_ok_def)
  ultimately have "le_permit e \<noteq> Some t" by auto
  then show ?thesis using assms(1) by (auto simp: entry_ok_def same phase_sets split: option.splits)
qed

lemma fresh_entry_ok:
  assumes "key_ok runs k None"
  shows "entry_ok runs k (new_entry now)"
proof -
  have "runs_of runs k P = {}" if "\<not> P Idle" for P using assms that by (auto simp: runs_of_def)
  then show ?thesis by (simp add: entry_ok_def new_entry_def)
qed

lemma lock_step_ok: "lock_step cf cf' \<Longrightarrow> config_ok cf \<Longrightarrow> config_ok cf'"
proof (induction rule: lock_step.induct)
  case (Look cf t r)
  let ?k = "rs_workspace_key r"
  define e where "e = (case lc_entries cf ?k of None \<Rightarrow> new_entry (rs_current_us r) | Some e \<Rightarrow> e)"
  have "entry_ok (lc_runs cf) ?k e"
    using config_okD(2) [OF Look.prems, of ?k] fresh_entry_ok by (cases "lc_entries cf ?k") (simp_all add: e_def)
  then have "entry_ok ((lc_runs cf)(t := r\<lparr>rs_phase := Entered\<rparr>)) ?k e"
    by (rule entered_ok [where runs = "lc_runs cf", OF _ Look.hyps])
  then show ?case
    by (rule config_ok_update [OF Look.prems Look.hyps(1)]) (auto simp: e_def split: option.splits)
next
  case (Operate cf t r e now ph e')
  have "entry_ok (lc_runs cf) (rs_workspace_key r) e"
    using config_okD(2) [OF Operate.prems, of "rs_workspace_key r"] Operate.hyps(2) by simp
  then have "entry_ok ((lc_runs cf)(t := r\<lparr>rs_phase := ph\<rparr>)) (rs_workspace_key r) e'"
    by (rule entry_step_ok [OF Operate.hyps(3) _ config_okD(1) [OF Operate.prems] Operate.hyps(1) refl])
  then show ?case
    by (rule config_ok_update [OF Operate.prems Operate.hyps(1)]) simp
qed

lemma initial_config_ok: "config_ok (initial_config runs)"
  by (simp add: config_ok_def initial_config_def)

lemma reachable_config_ok: "lock_step\<^sup>*\<^sup>* (initial_config runs) cf \<Longrightarrow> config_ok cf"
  by (induction rule: rtranclp_induct) (auto intro: initial_config_ok lock_step_ok)

lemma entry_of_run:
  assumes "config_ok cf" "rs_phase (lc_runs cf t) \<noteq> Idle"
  shows "\<exists>e. lc_entries cf (rs_workspace_key (lc_runs cf t)) = Some e \<and> entry_ok (lc_runs cf) (rs_workspace_key (lc_runs cf t)) e"
  using config_okD(2) [OF assms(1), of "rs_workspace_key (lc_runs cf t)"] assms(2)
  by (cases "lc_entries cf (rs_workspace_key (lc_runs cf t))") auto

lemma permit_holder:
  assumes "entry_ok runs k e" "rs_workspace_key (runs t) = k" "has_permit (rs_phase (runs t))"
  shows "le_permit e = Some t"
proof -
  have "t \<in> runs_of runs k has_permit" using assms(2,3) by (simp add: runs_of_def)
  then show ?thesis using assms(1) by (simp add: entry_ok_def)
qed

lemma holder_counted_has_permit: "counted_holder ph \<Longrightarrow> has_permit ph"
  by (auto simp: phase_sets)

text \<open>At most one run of a workspace is counted as its holder.\<close>

lemma holders_at_most_one:
  assumes "entry_ok runs k e"
  shows "runs_of runs k counted_holder \<subseteq> set_option (le_permit e)"
proof
  fix t assume "t \<in> runs_of runs k counted_holder"
  then show "t \<in> set_option (le_permit e)"
    using permit_holder [OF assms] holder_counted_has_permit by (auto simp: runs_of_def)
qed

text \<open>C19: two runs never hold the lock of one workspace at the same time, and while a run holds it the entry counts
  exactly one holder and names that run, however the steps of the runs interleave, time out or are cancelled.\<close>

theorem workspace_lock_exclusive:
  assumes "lock_step\<^sup>*\<^sup>* (initial_config runs) cf"
    and "rs_phase (lc_runs cf t) = Holding"
  shows "(\<forall>s. rs_phase (lc_runs cf s) = Holding \<and> rs_workspace_key (lc_runs cf s) = rs_workspace_key (lc_runs cf t) \<longrightarrow> s = t) \<and>
    (\<exists>e. lc_entries cf (rs_workspace_key (lc_runs cf t)) = Some e \<and> le_active_holders e = 1 \<and>
       le_current_holder e = Some (rs_holder_id (lc_runs cf t)))"
proof -
  let ?k = "rs_workspace_key (lc_runs cf t)"
  obtain e where e: "lc_entries cf ?k = Some e" "entry_ok (lc_runs cf) ?k e"
    using entry_of_run [OF reachable_config_ok [OF assms(1)], of t] assms(2) by auto
  have permit: "le_permit e = Some s" if "rs_phase (lc_runs cf s) = Holding" "rs_workspace_key (lc_runs cf s) = ?k" for s
    using permit_holder [OF e(2) that(2)] that(1) by (simp add: has_permit_def)
  have t: "le_permit e = Some t" by (rule permit [OF assms(2) refl])
  have "t \<in> runs_of (lc_runs cf) ?k counted_holder" using assms(2) by (simp add: runs_of_def counted_holder_def)
  then have "runs_of (lc_runs cf) ?k counted_holder = {t}" using holders_at_most_one [OF e(2)] t by auto
  then have "le_active_holders e = 1" using e(2) by (simp add: entry_ok_def)
  moreover have "le_current_holder e = Some (rs_holder_id (lc_runs cf t))"
    using e(2) t assms(2) by (simp add: entry_ok_def named_holder_def)
  ultimately show ?thesis using e(1) permit t by fastforce
qed

section \<open>What is left when no run is active\<close>

lemma u64_count_pos: "n < 2 ^ 64 \<Longrightarrow> 0 < (of_nat n :: u64) \<longleftrightarrow> 0 < n"
  by (cases "n = 0") (auto simp: word_gt_0 word_of_nat_eq_0_iff dest: nat_dvd_not_less)

definition at_rest :: "phase \<Rightarrow> bool" where
  "at_rest ph \<longleftrightarrow> ph \<in> {Idle, Released, CancelledWait} \<union> range Refused"

lemma quiet_entry:
  assumes "config_ok cf" "\<And>t. at_rest (rs_phase (lc_runs cf t))" "lc_entries cf k = Some e"
  shows "le_permit e = None" "le_active_holders e = 0"
    "le_waiting_runs e = of_nat (card (runs_of (lc_runs cf) k (\<lambda>ph. ph = CancelledWait)))"
proof -
  have ok: "entry_ok (lc_runs cf) k e"
    using config_okD(2) [OF assms(1), of k] assms(3) by simp
  have rest: "\<not> has_permit ph" "\<not> counted_holder ph" "counted_waiting ph \<longleftrightarrow> ph = CancelledWait" if "at_rest ph" for ph
    using that by (auto simp: at_rest_def phase_sets)
  have "runs_of (lc_runs cf) k has_permit = {}" "runs_of (lc_runs cf) k counted_holder = {}"
    "runs_of (lc_runs cf) k counted_waiting = runs_of (lc_runs cf) k (\<lambda>ph. ph = CancelledWait)"
    using rest [OF assms(2)] by (simp_all add: runs_of_def)
  then show "le_permit e = None" "le_active_holders e = 0"
    "le_waiting_runs e = of_nat (card (runs_of (lc_runs cf) k (\<lambda>ph. ph = CancelledWait)))"
    using ok by (cases "le_permit e"; simp add: entry_ok_def)+
qed

lemma snapshot_keys:
  "k \<in> wl_workspace_key ` set (snapshot entries) \<longleftrightarrow>
     (\<exists>e. (k, e) \<in> set entries \<and> (0 < le_active_holders e \<or> 0 < le_waiting_runs e))"
  by (force simp: snapshot_def snapshot_entry_def)

definition lists_map :: "(string \<times> 't WorkspaceLockEntry) list \<Rightarrow> (string \<rightharpoonup> 't WorkspaceLockEntry) \<Rightarrow> bool" where
  "lists_map entries m \<longleftrightarrow> distinct (List.map fst entries) \<and> map_of entries = m"

text \<open>C39: a run whose task is dropped while it waits for the lock is counted as waiting for ever: once every run is
  through, the snapshot still lists the workspace of every cancelled wait (unless the count wrapped), and no other.\<close>

theorem cancelled_wait_stays_listed:
  assumes "lock_step\<^sup>*\<^sup>* (initial_config runs) cf"
    and "\<And>t. at_rest (rs_phase (lc_runs cf t))"
    and "lists_map entries (lc_entries cf)"
    and "card (runs_of (lc_runs cf) k (\<lambda>ph. ph = CancelledWait)) < 2 ^ 64"
  shows "k \<in> wl_workspace_key ` set (snapshot entries) \<longleftrightarrow>
    (\<exists>t. rs_phase (lc_runs cf t) = CancelledWait \<and> rs_workspace_key (lc_runs cf t) = k)"
proof -
  let ?C = "runs_of (lc_runs cf) k (\<lambda>ph. ph = CancelledWait)"
  have ok: "config_ok cf" by (rule reachable_config_ok [OF assms(1)])
  have fin: "finite ?C"
    by (rule finite_runs_of [where runs = "lc_runs cf" and P = "\<lambda>ph. ph = CancelledWait"])
       (use ok in \<open>simp_all add: config_ok_def\<close>)
  have entries: "(k, e) \<in> set entries \<longleftrightarrow> lc_entries cf k = Some e" for k e
    using assms(3) map_of_eq_Some_iff [of entries k e] by (simp add: lists_map_def)
  have waits: "0 < le_waiting_runs e \<longleftrightarrow> ?C \<noteq> {}" if "lc_entries cf k = Some e" for e
    using quiet_entry(3) [OF ok assms(2) that] fin assms(4) by (simp add: u64_count_pos card_gt_0_iff)
  have "k \<in> wl_workspace_key ` set (snapshot entries) \<longleftrightarrow> (\<exists>e. lc_entries cf k = Some e \<and> 0 < le_waiting_runs e)"
    unfolding snapshot_keys entries using quiet_entry(2) [OF ok assms(2)] by auto
  also have "\<dots> \<longleftrightarrow> ?C \<noteq> {}"
  proof
    assume "?C \<noteq> {}"
    then obtain t where t: "rs_workspace_key (lc_runs cf t) = k" "rs_phase (lc_runs cf t) = CancelledWait"
      by (auto simp: runs_of_def)
    then obtain e where "lc_entries cf k = Some e" using entry_of_run [OF ok, of t] by auto
    then show "\<exists>e. lc_entries cf k = Some e \<and> 0 < le_waiting_runs e" using waits \<open>?C \<noteq> {}\<close> by blast
  qed (use waits in blast)
  finally show ?thesis by (auto simp: runs_of_def)
qed

section \<open>Examples\<close>

text \<open>One run alone, up to the queue; then with the lock, or cancelled.\<close>

definition example_run :: run_state where
  "example_run = \<lparr>rs_workspace_key = ''w'', rs_holder_id = ''r'', rs_current_us = 1, rs_phase = Idle\<rparr>"

definition solo :: "phase \<Rightarrow> nat WorkspaceLockEntry \<Rightarrow> nat lock_config" where
  "solo ph e = \<lparr>lc_entries = [''w'' \<mapsto> e], lc_runs = (\<lambda>t. example_run)(0 := example_run\<lparr>rs_phase := ph\<rparr>)\<rparr>"

definition example_entry :: "nat option \<Rightarrow> nat list \<Rightarrow> u64 \<Rightarrow> u64 \<Rightarrow> string option \<Rightarrow> nat WorkspaceLockEntry" where
  "example_entry permit queue active waiting holder = \<lparr>le_permit = permit, le_queue = queue, le_active_holders = active,
     le_waiting_runs = waiting, le_current_holder = holder, le_updated_at_us = 1\<rparr>"

lemma solo_look: "lock_step (initial_config (\<lambda>t. example_run)) (solo Entered (example_entry None [] 0 0 None))"
  using lock_step.Look [of "initial_config (\<lambda>t. example_run)" 0 example_run]
  by (simp add: initial_config_def solo_def example_run_def example_entry_def new_entry_def)

lemma solo_step:
  assumes "entry_step ''w'' 0 (example_run\<lparr>rs_phase := ph\<rparr>) 1 ph e ph' e'"
  shows "lock_step (solo ph e) (solo ph' e')"
  using lock_step.Operate [of "solo ph e" 0 "example_run\<lparr>rs_phase := ph\<rparr>" e 1 ph' e'] assms
  by (simp add: solo_def example_run_def)

lemma solo_queued: "lock_step\<^sup>*\<^sup>* (initial_config (\<lambda>t. example_run)) (solo Queued (example_entry None [0] 0 1 None))"
proof -
  have "lock_step (solo Entered (example_entry None [] 0 0 None)) (solo Counting (example_entry None [] 0 1 None))"
    using solo_step [OF entry_step.CountWaiting, of "example_entry None [] 0 0 None"] by (simp add: example_entry_def)
  moreover have "lock_step (solo Counting (example_entry None [] 0 1 None)) (solo Counted (example_entry None [] 0 1 None))"
    using solo_step [OF entry_step.StampWaiting, of "example_entry None [] 0 1 None"]
    by (simp add: example_entry_def example_run_def)
  moreover have "lock_step (solo Counted (example_entry None [] 0 1 None)) (solo Queued (example_entry None [0] 0 1 None))"
    using solo_step [OF entry_step.Enqueue, of "example_entry None [] 0 1 None"] by (simp add: example_entry_def)
  ultimately show ?thesis using solo_look by (meson converse_rtranclp_into_rtranclp rtranclp.rtrancl_refl)
qed

lemma solo_holding: "lock_step\<^sup>*\<^sup>* (initial_config (\<lambda>t. example_run)) (solo Holding (example_entry (Some 0) [] 1 0 (Some ''r'')))"
proof -
  have "lock_step (solo Queued (example_entry None [0] 0 1 None)) (solo Permitted (example_entry (Some 0) [] 0 1 None))"
    using solo_step [OF entry_step.Grant, of "example_entry None [0] 0 1 None"] by (simp add: example_entry_def)
  moreover have "lock_step (solo Permitted (example_entry (Some 0) [] 0 1 None)) (solo Uncounted (example_entry (Some 0) [] 0 0 None))"
    using solo_step [OF entry_step.UncountWaiting, of "example_entry (Some 0) [] 0 1 None"] by (simp add: example_entry_def)
  moreover have "lock_step (solo Uncounted (example_entry (Some 0) [] 0 0 None)) (solo HolderCounted (example_entry (Some 0) [] 1 0 None))"
    using solo_step [OF entry_step.CountHolder, of "example_entry (Some 0) [] 0 0 None"] by (simp add: example_entry_def)
  moreover have "lock_step (solo HolderCounted (example_entry (Some 0) [] 1 0 None))
      (solo Named (example_entry (Some 0) [] 1 0 (Some ''r'')))"
    using solo_step [OF entry_step.NameHolder, of "example_entry (Some 0) [] 1 0 None"]
    by (simp add: example_entry_def example_run_def)
  moreover have "lock_step (solo Named (example_entry (Some 0) [] 1 0 (Some ''r'')))
      (solo Holding (example_entry (Some 0) [] 1 0 (Some ''r'')))"
    using solo_step [OF entry_step.StampAcquired, of "example_entry (Some 0) [] 1 0 (Some ''r'')"] by (simp add: example_entry_def)
  ultimately show ?thesis using solo_queued by (meson rtranclp.rtrancl_into_rtrancl)
qed

theorem workspace_lock_exclusive_witness:
  "rs_holder_id (lc_runs (solo Holding (example_entry (Some 0) [] 1 0 (Some ''r''))) 0) = ''r'' \<and>
   (\<exists>e. lc_entries (solo Holding (example_entry (Some 0) [] 1 0 (Some ''r''))) ''w'' = Some e \<and> le_active_holders e = 1 \<and>
      le_current_holder e = Some ''r'')"
  using workspace_lock_exclusive [OF solo_holding, of 0] by (simp add: solo_def example_run_def)

lemma solo_cancelled: "lock_step\<^sup>*\<^sup>* (initial_config (\<lambda>t. example_run)) (solo CancelledWait (example_entry None [] 0 1 None))"
proof -
  have "lock_step (solo Queued (example_entry None [0] 0 1 None)) (solo CancelledWait (example_entry None [] 0 1 None))"
    using solo_step [OF entry_step.Cancel, of "example_entry None [0] 0 1 None"] by (simp add: example_entry_def)
  then show ?thesis using solo_queued by (rule rtranclp.rtrancl_into_rtrancl [rotated])
qed

theorem cancelled_wait_stays_listed_witness:
  "''w'' \<in> wl_workspace_key ` set (snapshot [(''w'', example_entry None [] 0 1 None)])"
proof -
  let ?cf = "solo CancelledWait (example_entry None [] 0 1 None)"
  have rest: "at_rest (rs_phase (lc_runs ?cf t))" for t by (simp add: solo_def example_run_def at_rest_def)
  have "runs_of (lc_runs ?cf) ''w'' (\<lambda>ph. ph = CancelledWait) = {0}"
    by (auto simp: runs_of_def solo_def example_run_def split: if_splits)
  then show ?thesis
    using cancelled_wait_stays_listed [OF solo_cancelled rest, of "[(''w'', example_entry None [] 0 1 None)]" "''w''"]
    by (auto simp: lists_map_def solo_def example_run_def)
qed

end
