(* ===== verification/PathScope.thy ===== *)
theory PathScope
  imports AgentTypes TextOps ExecRouting "HOL-Library.Sublist"
begin

text \<open>Paths and the file-system scopes of an agent, and the command lines of the shell tool
  (\<open>aria-x/src/tools.rs\<close>).  \<open>Path::components\<close> and the operations of \<open>PathBuf\<close> are those of the standard
  library on Unix; a path buffer is the list of its components.  The working directory of the process is a
  parameter.\<close>

section \<open>Paths\<close>

datatype component = RootDir | CurDir | ParentDir | NormalName string

type_synonym path_buf = "component list"

definition is_absolute :: "string \<Rightarrow> bool" where
  "is_absolute path = starts_with ''/'' path"

definition path_segments :: "string \<Rightarrow> string list" where
  "path_segments path = split_on (\<lambda>c. c = CHR ''/'') path"

definition segment_component :: "string \<Rightarrow> component option" where
  "segment_component s = (if s = [] \<or> s = ''.'' then None else if s = ''..'' then Some ParentDir else Some (NormalName s))"

definition components :: "string \<Rightarrow> component list" where
  "components path =
    (if is_absolute path then [RootDir] else if hd (path_segments path) = ''.'' then [CurDir] else []) @
    List.map_filter segment_component (path_segments path)"

text \<open>\<open>PathBuf::pop\<close> leaves the root and the empty path as they are.\<close>

definition pop_component :: "path_buf \<Rightarrow> path_buf" where
  "pop_component p = (if p = [] \<or> last p = RootDir then p else butlast p)"

fun normalize_step :: "path_buf \<Rightarrow> component \<Rightarrow> path_buf" where
  "normalize_step p CurDir = p"
| "normalize_step p ParentDir = pop_component p"
| "normalize_step p RootDir = [RootDir]"
| "normalize_step p (NormalName s) = p @ [NormalName s]"

definition normalize_filesystem_path :: "string \<Rightarrow> path_buf" where
  "normalize_filesystem_path path = foldl normalize_step [] (components path)"

text \<open>\<open>Path::join\<close>.\<close>

definition join_path :: "string \<Rightarrow> string \<Rightarrow> string" where
  "join_path dir path = (if is_absolute path then path
     else if dir = [] \<or> last dir = CHR ''/'' then dir @ path else dir @ ''/'' @ path)"

definition resolve_scoped_path :: "(string, string) result \<Rightarrow> string \<Rightarrow> (OrchestratorError, path_buf) result" where
  "resolve_scoped_path cwd path = map_ok normalize_filesystem_path
     (if is_absolute path then Ok path
      else map_ok (\<lambda>dir. join_path dir path) (map_err (\<lambda>e. ToolError (''resolve path failed: '' @ e)) cwd))"

fun component_name :: "component \<Rightarrow> string" where
  "component_name RootDir = ''/''"
| "component_name CurDir = ''.''"
| "component_name ParentDir = ''..''"
| "component_name (NormalName s) = s"

definition display_path :: "path_buf \<Rightarrow> string" where
  "display_path p = (case p of RootDir # rest \<Rightarrow> ''/'' @ join_with ''/'' (map component_name rest)
     | _ \<Rightarrow> join_with ''/'' (map component_name p))"

definition dedupe_normalized_paths :: "string list \<Rightarrow> path_buf list" where
  "dedupe_normalized_paths paths = rev (remdups (rev (map normalize_filesystem_path paths)))"

section \<open>Scopes\<close>

datatype FilesystemAction = ReadAction | WriteAction | ExecuteAction

fun filesystem_action_allowed :: "FilesystemScope \<Rightarrow> FilesystemAction \<Rightarrow> bool" where
  "filesystem_action_allowed scope ReadAction = fs_allow_read scope"
| "filesystem_action_allowed scope WriteAction = fs_allow_write scope"
| "filesystem_action_allowed scope ExecuteAction = fs_allow_execute scope"

definition filesystem_path_allowed :: "AgentCapabilityProfile \<Rightarrow> path_buf \<Rightarrow> FilesystemAction \<Rightarrow> bool" where
  "filesystem_path_allowed profile path action = list_ex (\<lambda>scope.
     if \<not> filesystem_action_allowed scope action then False
     else prefix (normalize_filesystem_path (fs_root_path scope)) path) (cp_filesystem_scopes profile)"

definition shell_control :: "string \<Rightarrow> bool" where
  "shell_control command \<longleftrightarrow> contains_str ''&&'' command \<or> contains_str ''||'' command \<or> CHR '';'' \<in> set command
     \<or> CHR ''|'' \<in> set command \<or> CHR ''>'' \<in> set command \<or> CHR ''<'' \<in> set command
     \<or> contains_str ''$('' command \<or> CHR 0x60 \<in> set command"

fun check_shell_tokens :: "AgentCapabilityProfile \<Rightarrow> string list \<Rightarrow> (OrchestratorError, unit) result" where
  "check_shell_tokens profile [] = Ok ()"
| "check_shell_tokens profile (token # tokens) =
    (if contains_str ''..'' token then Err (ToolError ''run_shell not permitted with parent-directory traversal'')
     else if is_absolute token \<and> \<not> filesystem_path_allowed profile (normalize_filesystem_path token) ExecuteAction
     then Err (ToolError (''run_shell absolute path '' @ quoted token @ '' is outside execute scope''))
     else check_shell_tokens profile tokens)"

definition validate_run_shell_command_paths :: "AgentCapabilityProfile \<Rightarrow> string \<Rightarrow> (OrchestratorError, unit) result" where
  "validate_run_shell_command_paths profile command =
    (if shell_control command then Err (ToolError ''run_shell command contains disallowed shell control operators'')
     else check_shell_tokens profile (split_whitespace command))"

section \<open>Command lines\<close>

text \<open>A command is the program and its arguments; which programs are installed is a parameter.  The build is the
  one for Linux.\<close>

type_synonym command_line = "string \<times> string list"

definition build_os_contained_shell_command ::
  "(string \<Rightarrow> bool) \<Rightarrow> string \<Rightarrow> string option \<Rightarrow> (OrchestratorError, command_line) result" where
  "build_os_contained_shell_command installed command cwd =
    and_then (ok_or (ToolError (''run_shell os_containment requires a scoped '' @ quoted ''cwd'')) cwd) (\<lambda>cwd.
     if \<not> installed ''bwrap''
     then Err (ToolError (''run_shell os_containment requested but '' @ quoted ''bwrap'' @ '' is not installed''))
     else Ok (''bwrap'', [''--die-with-parent'', ''--new-session'', ''--unshare-all'', ''--share-net'',
       ''--ro-bind'', ''/'', ''/'', ''--bind'', cwd, cwd, ''--chdir'', cwd, ''sh'', ''-c'', command]))"

definition docker_shell_command_parts ::
  "string \<Rightarrow> string \<Rightarrow> string option \<Rightarrow> string option \<Rightarrow> bool \<Rightarrow> (OrchestratorError, command_line) result" where
  "docker_shell_command_parts default_image command cwd img allow_network_egress =
    and_then (ok_or (ToolError (''run_shell docker backend requires a scoped '' @ quoted ''cwd'')) cwd) (\<lambda>cwd.
     Ok (''docker'', [''run'', ''--rm'', ''--init'', ''--network'',
       (if allow_network_egress then ''bridge'' else ''none''), ''-v'', cwd @ '':/workspace'', ''-w'', ''/workspace'',
       (case img of Some i \<Rightarrow> i | None \<Rightarrow> default_image), ''sh'', ''-lc'', command]))"

definition build_docker_shell_command ::
  "(string \<Rightarrow> bool) \<Rightarrow> string \<Rightarrow> string \<Rightarrow> string option \<Rightarrow> string option \<Rightarrow> bool \<Rightarrow> (OrchestratorError, command_line) result" where
  "build_docker_shell_command installed default_image command cwd img allow_network_egress =
    (if \<not> installed ''docker''
     then Err (ToolError (''run_shell docker backend requested but '' @ quoted ''docker'' @ '' is not installed''))
     else docker_shell_command_parts default_image command cwd img allow_network_egress)"

definition shell_single_quote :: "string \<Rightarrow> string" where
  "shell_single_quote value = quoted (replace_all [CHR 0x27] [CHR 0x27, CHR 0x5C, CHR 0x27, CHR 0x27] value)"

text \<open>\<open>Path::strip_prefix\<close> on the components, printed.\<close>

definition strip_path_prefix :: "string \<Rightarrow> string \<Rightarrow> string option" where
  "strip_path_prefix dir path = (let d = components dir; p = components path in
     if prefix d p then Some (display_path (drop (length d) p)) else None)"

definition resolve_remote_ssh_cwd ::
  "(string, string) result \<Rightarrow> string option \<Rightarrow> string option \<Rightarrow> string option" where
  "resolve_remote_ssh_cwd current_dir local_cwd remote_workspace_root = (case local_cwd of
      None \<Rightarrow> None
    | Some cwd \<Rightarrow> Some (case remote_workspace_root of
        None \<Rightarrow> cwd
      | Some remote_root \<Rightarrow>
         let slash = (\<lambda>c. c = CHR ''/''); remote_root = trim_right slash remote_root in
         if is_absolute cwd then (case current_dir of
            Inl _ \<Rightarrow> cwd
          | Inr dir \<Rightarrow> (case strip_path_prefix dir cwd of
              None \<Rightarrow> cwd
            | Some relative \<Rightarrow> let relative = trim_pred slash relative in
                if relative = [] then remote_root else remote_root @ ''/'' @ relative))
         else remote_root @ ''/'' @ trim_pred slash cwd))"

definition ssh_shell_command_parts ::
  "(string \<Rightarrow> bool) \<Rightarrow> (string, string) result \<Rightarrow> string \<Rightarrow> string option \<Rightarrow> ExecutionBackendProfile
    \<Rightarrow> (OrchestratorError, command_line) result" where
  "ssh_shell_command_parts installed current_dir command cwd profile =
    (if \<not> installed ''ssh''
     then Err (ToolError (''run_shell ssh backend requested but '' @ quoted ''ssh'' @ '' is not installed''))
     else case bp_config profile of
       Some (SshConfig config) \<Rightarrow>
         Ok (''ssh'', ssh_command_args config (case resolve_remote_ssh_cwd current_dir cwd (sh_remote_workspace_root config) of
           Some remote_cwd \<Rightarrow> ''cd '' @ shell_single_quote remote_cwd @ '' && '' @ command
         | None \<Rightarrow> command))
     | _ \<Rightarrow> Err (ToolError (''run_shell ssh backend '' @ quoted (bp_backend_id profile) @ '' is missing ssh configuration'')))"

definition build_os_contained_process_command ::
  "(string \<Rightarrow> bool) \<Rightarrow> string \<Rightarrow> string list \<Rightarrow> string list \<Rightarrow> (OrchestratorError, command_line) result" where
  "build_os_contained_process_command installed prog args writable_dirs =
    (if \<not> installed ''bwrap''
     then Err (ToolError (''browser bridge os_containment requested but '' @ quoted ''bwrap'' @ '' is not installed''))
     else Ok (''bwrap'', [''--die-with-parent'', ''--new-session'', ''--unshare-all'', ''--share-net'', ''--ro-bind'', ''/'', ''/''] @
       concat (map (\<lambda>dir. [''--bind'', dir, dir]) writable_dirs) @ prog # args))"

section \<open>The directory a path leads to\<close>

text \<open>Where a path leads when no directory on the way is a symbolic link: the names from the root, starting at the
  directory \<open>dir\<close> for a relative path.\<close>

fun walk_segment :: "string list \<Rightarrow> string \<Rightarrow> string list" where
  "walk_segment dir s = (if s = [] \<or> s = ''.'' then dir else if s = ''..'' then butlast dir else dir @ [s])"

definition walk :: "string list \<Rightarrow> string \<Rightarrow> string list" where
  "walk dir path = foldl walk_segment (if is_absolute path then [] else dir) (path_segments path)"

lemma pop_rooted: "pop_component (RootDir # map NormalName d) = RootDir # map NormalName (butlast d)"
  by (cases d rule: rev_cases) (auto simp: pop_component_def)

lemma normalize_rooted:
  "foldl normalize_step (RootDir # map NormalName d) (List.map_filter segment_component segs) =
    RootDir # map NormalName (foldl walk_segment d segs)"
proof (induction segs arbitrary: d)
  case (Cons s segs)
  then show ?case
    using Cons.IH [of "d @ [s]"]
    by (auto simp: map_filter_simps segment_component_def pop_rooted)
qed (simp add: map_filter_simps)

lemma pop_relative: "pop_component (map NormalName d) = map NormalName (butlast d)"
  by (cases d rule: rev_cases) (auto simp: pop_component_def)

lemma normalize_relative:
  "foldl normalize_step (map NormalName d) (List.map_filter segment_component segs) =
    map NormalName (foldl walk_segment d segs)"
proof (induction segs arbitrary: d)
  case (Cons s segs)
  then show ?case
    using Cons.IH [of "d @ [s]"]
    by (auto simp: map_filter_simps segment_component_def pop_relative)
qed (simp add: map_filter_simps)

lemma normalize_path:
  "normalize_filesystem_path path = (if is_absolute path then RootDir # map NormalName (walk [] path)
     else map NormalName (walk [] path))"
proof -
  have root: "normalize_step [] RootDir = RootDir # map NormalName []" by simp
  show ?thesis
    using normalize_rooted [of "[]"] normalize_relative [of "[]"]
    by (simp add: normalize_filesystem_path_def components_def walk_def)
qed

lemma join_absolute: "is_absolute dir \<Longrightarrow> is_absolute (join_path dir path)"
  by (auto simp: join_path_def is_absolute_def starts_with_iff)

lemma walk_trailing: "foldl walk_segment d (xs @ [[]]) = foldl walk_segment d xs"
  by simp

lemma segments_sep: "path_segments (dir @ ''/'' @ path) = path_segments dir @ path_segments path"
  unfolding path_segments_def using split_on_sep [of "\<lambda>c. c = CHR ''/''" "CHR ''/''" dir path] by simp

lemma walk_join:
  assumes "is_absolute dir"
  shows "walk [] (join_path dir path) = walk (walk [] dir) path"
proof (cases "is_absolute path")
  case False
  show ?thesis
  proof (cases "last dir = CHR ''/''")
    case True
    have "dir \<noteq> []" using assms by (auto simp: is_absolute_def)
    then obtain d where d: "dir = d @ ''/''" using True by (metis append_butlast_last_id)
    have "path_segments dir = path_segments d @ [[]]" using segments_sep [of d "[]"] d by (simp add: path_segments_def)
    moreover have "path_segments (dir @ path) = path_segments d @ path_segments path" using segments_sep [of d path] d by simp
    ultimately show ?thesis
      using assms False True \<open>dir \<noteq> []\<close> join_absolute [OF assms, of path] by (simp add: walk_def join_path_def)
  next
    case False
    then show ?thesis
      using assms \<open>\<not> is_absolute path\<close> join_absolute [OF assms, of path] segments_sep [of dir path]
      by (auto simp: walk_def join_path_def is_absolute_def)
  qed
qed (simp add: walk_def join_path_def)

lemma resolved_path:
  assumes "is_absolute dir"
  shows "resolve_scoped_path (Ok dir) path = Ok (RootDir # map NormalName (walk (walk [] dir) path))"
  using assms walk_join [OF assms, of path] join_absolute [OF assms, of path]
  by (auto simp: resolve_scoped_path_def normalize_path walk_def join_path_def)

lemma prefix_map_NormalName: "prefix (map NormalName a) (map NormalName b) \<longleftrightarrow> prefix a b"
proof (induction a arbitrary: b)
  case (Cons x a)
  then show ?case by (cases b) auto
qed simp

text \<open>Which scopes cover the place a path leads to: an absolute root covers what lies at or below it; a relative
  root covers everything when it leads nowhere (as the dot does), and nothing otherwise.\<close>

definition scope_covers :: "FilesystemScope \<Rightarrow> string list \<Rightarrow> bool" where
  "scope_covers scope place = (if is_absolute (fs_root_path scope) then prefix (walk [] (fs_root_path scope)) place
     else walk [] (fs_root_path scope) = [])"

lemma path_allowed_iff:
  "filesystem_path_allowed profile (RootDir # map NormalName place) action \<longleftrightarrow>
    (\<exists>scope\<in>set (cp_filesystem_scopes profile). filesystem_action_allowed scope action \<and> scope_covers scope place)"
proof -
  have "prefix (map NormalName root) (RootDir # map NormalName place) \<longleftrightarrow> root = []" for root
    by (cases root) auto
  then show ?thesis
    by (auto simp: filesystem_path_allowed_def list_ex_iff normalize_path scope_covers_def prefix_map_NormalName)
qed

end
