(* ===== verification/WebTargets.thy ===== *)
theory WebTargets
  imports PathScope
begin

text \<open>The targets of web tools (\<open>aria-x/src/browser.rs\<close>, \<open>tools.rs\<close>): which addresses are not public, the check
  of a URL, and domain names and the rules they match.  The parser of \<open>std::net::IpAddr\<close> is the one of the
  standard library; the URL library is a parameter, which gives the parts of a URL.\<close>

section \<open>Addresses\<close>

type_synonym u16 = "16 word"

datatype IpAddr = V4 u8 u8 u8 u8 | V6 "u16 list"

text \<open>A reader takes a value off the front of the text, or leaves the text as it is.\<close>

type_synonym 'a reader = "string \<Rightarrow> ('a \<times> string) option"

definition hex_digit :: "char \<Rightarrow> nat option" where
  "hex_digit c = (let n = char_code c in
     if is_digit c then Some (n - 48)
     else if 65 \<le> n \<and> n \<le> 70 then Some (n - 55)
     else if 97 \<le> n \<and> n \<le> 102 then Some (n - 87) else None)"

definition decimal_digit :: "char \<Rightarrow> nat option" where
  "decimal_digit c = (if is_digit c then Some (char_code c - 48) else None)"

fun digits_of :: "(char \<Rightarrow> nat option) \<Rightarrow> string \<Rightarrow> nat list \<times> string" where
  "digits_of digit [] = ([], [])"
| "digits_of digit (c # s) = (case digit c of
      None \<Rightarrow> ([], c # s)
    | Some d \<Rightarrow> let (ds, rest) = digits_of digit s in (d # ds, rest))"

definition read_number :: "nat \<Rightarrow> (char \<Rightarrow> nat option) \<Rightarrow> nat \<Rightarrow> bool \<Rightarrow> nat \<Rightarrow> nat reader" where
  "read_number radix digit max_digits allow_zero_prefix bound s = (let (ds, rest) = digits_of digit s;
       n = foldl (\<lambda>n d. n * radix + d) 0 ds in
     if max_digits < length ds \<or> ds = [] then None
     else if \<not> allow_zero_prefix \<and> hd s = CHR ''0'' \<and> 1 < length ds then None
     else if bound < n then None else Some (n, rest))"

definition read_given_char :: "char \<Rightarrow> unit reader" where
  "read_given_char c s = (case s of d # rest \<Rightarrow> if c = d then Some ((), rest) else None | [] \<Rightarrow> None)"

definition read_separator :: "char \<Rightarrow> nat \<Rightarrow> 'a reader \<Rightarrow> 'a reader" where
  "read_separator sep index inner s = (if 0 < index
     then Option.bind (read_given_char sep s) (\<lambda>(_, rest). inner rest) else inner s)"

definition read_octet :: "nat reader" where
  "read_octet = read_number 10 decimal_digit 3 False 255"

definition read_ipv4_addr :: "(nat \<times> nat \<times> nat \<times> nat) reader" where
  "read_ipv4_addr s =
    Option.bind (read_octet s) (\<lambda>(a, s).
    Option.bind (read_separator (CHR ''.'') 1 read_octet s) (\<lambda>(b, s).
    Option.bind (read_separator (CHR ''.'') 2 read_octet s) (\<lambda>(c, s).
    Option.bind (read_separator (CHR ''.'') 3 read_octet s) (\<lambda>(d, s). Some ((a, b, c, d), s)))))"

text \<open>The groups of an IPv6 address from group \<open>i\<close> on, of which \<open>room\<close> have a place: the groups read, and whether
  they end in an embedded IPv4 address.\<close>

fun read_groups :: "nat \<Rightarrow> nat \<Rightarrow> string \<Rightarrow> u16 list \<times> bool \<times> string" where
  "read_groups 0 i s = ([], False, s)"
| "read_groups (Suc room) i s = (case (if 0 < room then read_separator (CHR '':'') i read_ipv4_addr s else None) of
      Some ((a, b, c, d), s) \<Rightarrow> ([of_nat (256 * a + b), of_nat (256 * c + d)], True, s)
    | None \<Rightarrow> (case read_separator (CHR '':'') i (read_number 16 hex_digit 4 True 65535) s of
         None \<Rightarrow> ([], False, s)
       | Some (g, s) \<Rightarrow> let (gs, v4, s) = read_groups room (Suc i) s in (of_nat g # gs, v4, s)))"

definition read_ipv6_addr :: "u16 list reader" where
  "read_ipv6_addr s = (let (head, head_v4, s) = read_groups 8 0 s in
     if length head = 8 then Some (head, s)
     else if head_v4 then None
     else Option.bind (read_given_char (CHR '':'') s) (\<lambda>(_, s).
          Option.bind (read_given_char (CHR '':'') s) (\<lambda>(_, s).
          let (tail, _, s) = read_groups (8 - (length head + 1)) 0 s in
          Some (head @ replicate (8 - length head - length tail) 0 @ tail, s))))"

definition parse_ip :: "string \<Rightarrow> IpAddr option" where
  "parse_ip s = (case read_ipv4_addr s of
      Some ((a, b, c, d), rest) \<Rightarrow> if rest = [] then Some (V4 (of_nat a) (of_nat b) (of_nat c) (of_nat d)) else None
    | None \<Rightarrow> (case read_ipv6_addr s of
         Some (groups, rest) \<Rightarrow> if rest = [] then Some (V6 groups) else None
       | None \<Rightarrow> None))"

definition ipv4_is_non_public :: "u8 \<Rightarrow> u8 \<Rightarrow> u8 \<Rightarrow> u8 \<Rightarrow> bool" where
  "ipv4_is_non_public a b c d \<longleftrightarrow>
     (a = 10 \<or> a = 172 \<and> 16 \<le> b \<and> b \<le> 31 \<or> a = 192 \<and> b = 168)
   \<or> a = 127
   \<or> a = 169 \<and> b = 254
   \<or> a = 255 \<and> b = 255 \<and> c = 255 \<and> d = 255
   \<or> (a = 192 \<and> b = 0 \<and> c = 2 \<or> a = 198 \<and> b = 51 \<and> c = 100 \<or> a = 203 \<and> b = 0 \<and> c = 113)
   \<or> a = 0 \<and> b = 0 \<and> c = 0 \<and> d = 0
   \<or> 224 \<le> a \<and> a \<le> 239
   \<or> a = 0
   \<or> a = 100 \<and> 64 \<le> b \<and> b \<le> 127
   \<or> a = 198 \<and> b = 18
   \<or> a = 198 \<and> b = 19"

unbundle bit_operations_syntax

definition ipv6_is_non_public :: "u16 list \<Rightarrow> bool" where
  "ipv6_is_non_public segments \<longleftrightarrow>
     segments = [0, 0, 0, 0, 0, 0, 0, 1]
   \<or> segments = [0, 0, 0, 0, 0, 0, 0, 0]
   \<or> hd segments AND 0xfe00 = 0xfc00
   \<or> hd segments AND 0xffc0 = 0xfe80
   \<or> hd segments AND 0xff00 = 0xff00
   \<or> hd segments = 0x2001 \<and> hd (tl segments) = 0x0db8"

fun ip_is_non_public :: "IpAddr \<Rightarrow> bool" where
  "ip_is_non_public (V4 a b c d) = ipv4_is_non_public a b c d"
| "ip_is_non_public (V6 segments) = ipv6_is_non_public segments"

section \<open>URLs\<close>

text \<open>The parts of a parsed URL the code reads, and its text.\<close>

record url =
  ur_scheme :: string
  ur_domain :: "string option"
  ur_host_str :: "string option"
  ur_port_or_default :: "nat option"
  ur_text :: string

type_synonym url_parser = "string \<Rightarrow> (string, url) result"

definition parse_url :: "url_parser \<Rightarrow> string \<Rightarrow> (OrchestratorError, url) result" where
  "parse_url parse u = map_err (\<lambda>e. ToolError (''Invalid URL '' @ quoted u @ '': '' @ e)) (parse u)"

definition profile_allows_private_network_targets :: "bool \<Rightarrow> AgentCapabilityProfile option \<Rightarrow> bool" where
  "profile_allows_private_network_targets override profile \<longleftrightarrow> override \<or> (case profile of
      Some p \<Rightarrow> cp_side_effect_level p = PrivilegedEffect \<or> cp_trust_profile p \<in> {Some TrustedLocal, Some TrustedWorkspace}
    | None \<Rightarrow> False)"

definition local_hostname :: "string \<Rightarrow> bool" where
  "local_hostname host \<longleftrightarrow> host \<in> {''localhost'', ''localhost.localdomain''} \<or> ends_with ''.local'' host \<or> ends_with ''.internal'' host"

definition validate_web_url_target_syntactic ::
  "url_parser \<Rightarrow> string \<Rightarrow> bool \<Rightarrow> (OrchestratorError, url) result" where
  "validate_web_url_target_syntactic parse u allow_private =
    and_then (parse_url parse u) (\<lambda>parsed.
     if ur_scheme parsed \<notin> {''http'', ''https''}
     then Err (ToolError (''URL scheme '' @ quoted (ur_scheme parsed) @ '' is not allowed for web access''))
     else and_then (ok_or (ToolError (''URL '' @ quoted u @ '' is missing a host'')) (ur_host_str parsed)) (\<lambda>host.
       let host = to_lower host in
       if \<not> allow_private \<and> local_hostname host
       then Err (ToolError (''URL '' @ quoted u @ '' targets a local or internal hostname, which is blocked by default''))
       else if \<not> allow_private \<and> (case parse_ip host of Some ip \<Rightarrow> ip_is_non_public ip | None \<Rightarrow> False)
       then Err (ToolError (''URL '' @ quoted u @ '' targets a private or non-public IP address, which is blocked by default''))
       else Ok parsed))"

text \<open>\<open>lookup\<close> is the resolver of the system.\<close>

definition validate_web_url_target_runtime ::
  "url_parser \<Rightarrow> (string \<Rightarrow> nat \<Rightarrow> (string, IpAddr list) result) \<Rightarrow> string \<Rightarrow> bool \<Rightarrow> (OrchestratorError, url) result" where
  "validate_web_url_target_runtime parse lookup u allow_private =
    and_then (validate_web_url_target_syntactic parse u allow_private) (\<lambda>parsed.
     if allow_private then Ok parsed
     else and_then (ok_or (ToolError (''URL '' @ quoted u @ '' is missing a runtime host'')) (ur_host_str parsed)) (\<lambda>host.
       if parse_ip host \<noteq> None then Ok parsed
       else and_then (map_err (\<lambda>e. ToolError (''Failed to resolve host '' @ quoted host @ '': '' @ e))
           (lookup host (case ur_port_or_default parsed of Some p \<Rightarrow> p | None \<Rightarrow> 80))) (\<lambda>addrs.
         if list_ex ip_is_non_public addrs
         then Err (ToolError (''URL '' @ quoted u @ '' resolved to a private or non-public IP address, which is blocked by default''))
         else Ok parsed)))"

definition url_host_key :: "url \<Rightarrow> (OrchestratorError, string) result" where
  "url_host_key u = (case ur_domain u of
      Some d \<Rightarrow> Ok (to_lower d)
    | None \<Rightarrow> ok_or (ToolError (''URL '' @ quoted (ur_text u) @ '' does not contain a valid host''))
        (map_option to_lower (ur_host_str u)))"

text \<open>\<open>with_query base key value\<close> is the URL \<open>base\<close> with a query pair appended, printed.\<close>

definition build_search_web_url ::
  "(string \<Rightarrow> string \<times> string \<Rightarrow> (string, string) result) \<Rightarrow> string \<Rightarrow> string option \<Rightarrow> (OrchestratorError, string) result" where
  "build_search_web_url with_query query site = (let effective_query = trim_ws query in
     if effective_query = [] then Err (ToolError (''Missing '' @ quoted ''query''))
     else let effective_query = (case site of
         Some s \<Rightarrow> if trim_ws s \<noteq> [] then effective_query @ '' site:'' @ trim_ws s else effective_query
       | None \<Rightarrow> effective_query) in
     map_err (\<lambda>e. ToolError (''Failed to build search URL: '' @ e))
       (with_query ''https://duckduckgo.com/html/'' (''q'', effective_query)))"

section \<open>Domains\<close>

definition domain_matches_rule :: "string \<Rightarrow> string \<Rightarrow> bool" where
  "domain_matches_rule domain rule \<longleftrightarrow> domain = rule \<or> ends_with (''.'' @ rule) domain"

definition domain_char :: "char \<Rightarrow> bool" where
  "domain_char c \<longleftrightarrow> is_alphanumeric c \<or> c \<in> {CHR ''.'', CHR ''-''}"

definition normalize_domain_value :: "url_parser \<Rightarrow> string \<Rightarrow> (OrchestratorError, string) result" where
  "normalize_domain_value parse input = (let trimmed = to_lower (trim_right (\<lambda>c. c = CHR ''.'') (trim_ws input)) in
     if trimmed = [] then Err (ToolError ''domain must not be empty'')
     else if contains_str ''://'' trimmed
     then and_then (map_err (\<lambda>e. ToolError (''Invalid domain or URL '' @ quoted input @ '': '' @ e)) (parse trimmed)) (\<lambda>parsed.
       case ur_domain parsed of
         None \<Rightarrow> Err (ToolError (''URL '' @ quoted input @ '' does not contain a valid domain''))
       | Some domain \<Rightarrow> Ok (to_lower domain))
     else if list_all domain_char trimmed then Ok trimmed
     else Err (ToolError (''Invalid domain '' @ quoted input)))"

definition resolve_browser_login_domain :: "url_parser \<Rightarrow> string \<Rightarrow> (OrchestratorError, string) result" where
  "resolve_browser_login_domain parse input = (let trimmed = trim_ws input in
     if contains_str ''://'' trimmed
     then and_then (map_err (\<lambda>e. ToolError (''Invalid domain or URL '' @ quoted input @ '': '' @ e)) (parse trimmed)) url_host_key
     else normalize_domain_value parse trimmed)"

section \<open>Laws of addresses\<close>

text \<open>The blocks of IPv4 addresses that the code takes for non-public, as address and length of the prefix.\<close>

definition ipv4_number :: "u8 \<Rightarrow> u8 \<Rightarrow> u8 \<Rightarrow> u8 \<Rightarrow> nat" where
  "ipv4_number a b c d = ((unat a * 256 + unat b) * 256 + unat c) * 256 + unat d"

definition in_block :: "nat \<Rightarrow> (u8 \<times> u8 \<times> u8 \<times> u8) \<times> nat \<Rightarrow> bool" where
  "in_block n = (\<lambda>((a, b, c, d), len). n div 2 ^ (32 - len) = ipv4_number a b c d div 2 ^ (32 - len))"

definition non_public_blocks :: "((u8 \<times> u8 \<times> u8 \<times> u8) \<times> nat) list" where
  "non_public_blocks = [((0, 0, 0, 0), 8), ((10, 0, 0, 0), 8), ((100, 64, 0, 0), 10), ((127, 0, 0, 0), 8),
     ((169, 254, 0, 0), 16), ((172, 16, 0, 0), 12), ((192, 0, 2, 0), 24), ((192, 168, 0, 0), 16),
     ((198, 18, 0, 0), 15), ((198, 51, 100, 0), 24), ((203, 0, 113, 0), 24), ((224, 0, 0, 0), 4),
     ((255, 255, 255, 255), 32)]"

lemma u8_bound: "unat (x :: u8) < 256"
  using unsigned_less [of x] by simp

lemma u8_eq: "x = (y :: u8) \<longleftrightarrow> unat x = unat y"
  by (rule word_unat_eq_iff)

lemma high_bits:
  assumes "(b :: nat) < 256" "c < 256" "d < 256"
  shows "(((a * 256 + b) * 256 + c) * 256 + d) div 256 = (a * 256 + b) * 256 + c"
    "(((a * 256 + b) * 256 + c) * 256 + d) div 65536 = a * 256 + b"
    "(((a * 256 + b) * 256 + c) * 256 + d) div 16777216 = a"
    "(((a * 256 + b) * 256 + c) * 256 + d) div 131072 = a * 128 + b div 2"
    "(((a * 256 + b) * 256 + c) * 256 + d) div 1048576 = a * 16 + b div 16"
    "(((a * 256 + b) * 256 + c) * 256 + d) div 4194304 = a * 4 + b div 64"
    "(((a * 256 + b) * 256 + c) * 256 + d) div 268435456 = a div 16"
  using assms by simp_all

lemma ipv4_number_div:
  "ipv4_number a b c d div 256 = (unat a * 256 + unat b) * 256 + unat c"
  "ipv4_number a b c d div 65536 = unat a * 256 + unat b"
  "ipv4_number a b c d div 16777216 = unat a"
  "ipv4_number a b c d div 131072 = unat a * 128 + unat b div 2"
  "ipv4_number a b c d div 1048576 = unat a * 16 + unat b div 16"
  "ipv4_number a b c d div 4194304 = unat a * 4 + unat b div 64"
  "ipv4_number a b c d div 268435456 = unat a div 16"
  unfolding ipv4_number_def by (rule high_bits [OF u8_bound u8_bound u8_bound])+

lemma radix_eq:
  assumes "(b :: nat) < r" "y < r"
  shows "a * r + b = x * r + y \<longleftrightarrow> a = x \<and> b = y"
proof
  assume "a * r + b = x * r + y"
  then have "(a * r + b) div r = (x * r + y) div r" "(a * r + b) mod r = (x * r + y) mod r" by simp_all
  then show "a = x \<and> b = y" using assms by simp
qed simp

lemma octet_blocks:
  assumes "(b :: nat) < 256" "c < 256" "d < 256"
  shows "a * 256 + b = 43518 \<longleftrightarrow> a = 169 \<and> b = 254"
    "a * 256 + b = 49320 \<longleftrightarrow> a = 192 \<and> b = 168"
    "(a * 256 + b) * 256 + c = 12582914 \<longleftrightarrow> a = 192 \<and> b = 0 \<and> c = 2"
    "(a * 256 + b) * 256 + c = 12989284 \<longleftrightarrow> a = 198 \<and> b = 51 \<and> c = 100"
    "(a * 256 + b) * 256 + c = 13303921 \<longleftrightarrow> a = 203 \<and> b = 0 \<and> c = 113"
    "((a * 256 + b) * 256 + c) * 256 + d = 4294967295 \<longleftrightarrow> a = 255 \<and> b = 255 \<and> c = 255 \<and> d = 255"
    "a * 4 + b div 64 = 401 \<longleftrightarrow> a = 100 \<and> 64 \<le> b \<and> b \<le> 127"
    "a * 16 + b div 16 = 2753 \<longleftrightarrow> a = 172 \<and> 16 \<le> b \<and> b \<le> 31"
    "a * 128 + b div 2 = 25353 \<longleftrightarrow> a = 198 \<and> (b = 18 \<or> b = 19)"
    "a div 16 = 14 \<longleftrightarrow> 224 \<le> a \<and> a \<le> 239"
proof -
  show "a * 256 + b = 43518 \<longleftrightarrow> a = 169 \<and> b = 254" using radix_eq [OF assms(1), of 254 a 169] by simp
  show "a * 256 + b = 49320 \<longleftrightarrow> a = 192 \<and> b = 168" using radix_eq [OF assms(1), of 168 a 192] by simp
  show "(a * 256 + b) * 256 + c = 12582914 \<longleftrightarrow> a = 192 \<and> b = 0 \<and> c = 2"
    using radix_eq [OF assms(2), of 2 "a * 256 + b" 49152] radix_eq [OF assms(1), of 0 a 192] by simp
  show "(a * 256 + b) * 256 + c = 12989284 \<longleftrightarrow> a = 198 \<and> b = 51 \<and> c = 100"
    using radix_eq [OF assms(2), of 100 "a * 256 + b" 50739] radix_eq [OF assms(1), of 51 a 198] by simp
  show "(a * 256 + b) * 256 + c = 13303921 \<longleftrightarrow> a = 203 \<and> b = 0 \<and> c = 113"
    using radix_eq [OF assms(2), of 113 "a * 256 + b" 51968] radix_eq [OF assms(1), of 0 a 203] by simp
  show "((a * 256 + b) * 256 + c) * 256 + d = 4294967295 \<longleftrightarrow> a = 255 \<and> b = 255 \<and> c = 255 \<and> d = 255"
    using radix_eq [OF assms(3), of 255 "(a * 256 + b) * 256 + c" 16777215]
      radix_eq [OF assms(2), of 255 "a * 256 + b" 65535] radix_eq [OF assms(1), of 255 a 255] by simp
  have "b div 64 < 4" "b div 64 = 1 \<longleftrightarrow> 64 \<le> b \<and> b \<le> 127" using assms(1) by linarith+
  then show "a * 4 + b div 64 = 401 \<longleftrightarrow> a = 100 \<and> 64 \<le> b \<and> b \<le> 127" using radix_eq [of "b div 64" 4 1 a 100] by simp
  have "b div 16 < 16" "b div 16 = 1 \<longleftrightarrow> 16 \<le> b \<and> b \<le> 31" using assms(1) by linarith+
  then show "a * 16 + b div 16 = 2753 \<longleftrightarrow> a = 172 \<and> 16 \<le> b \<and> b \<le> 31" using radix_eq [of "b div 16" 16 1 a 172] by simp
  have "b div 2 < 128" "b div 2 = 9 \<longleftrightarrow> b = 18 \<or> b = 19" using assms(1) by linarith+
  then show "a * 128 + b div 2 = 25353 \<longleftrightarrow> a = 198 \<and> (b = 18 \<or> b = 19)" using radix_eq [of "b div 2" 128 9 a 198] by simp
  show "a div 16 = 14 \<longleftrightarrow> 224 \<le> a \<and> a \<le> 239" by linarith
qed

lemma in_block_iff:
  "in_block n ((x, y, z, w), len) \<longleftrightarrow> n div 2 ^ (32 - len) = ipv4_number x y z w div 2 ^ (32 - len)"
  by (simp add: in_block_def)

lemma block_starts:
  "ipv4_number 0 0 0 0 = 0" "ipv4_number 10 0 0 0 = 167772160" "ipv4_number 100 64 0 0 = 1681915904"
  "ipv4_number 127 0 0 0 = 2130706432" "ipv4_number 169 254 0 0 = 2851995648" "ipv4_number 172 16 0 0 = 2886729728"
  "ipv4_number 192 0 2 0 = 3221225984" "ipv4_number 192 168 0 0 = 3232235520" "ipv4_number 198 18 0 0 = 3323068416"
  "ipv4_number 198 51 100 0 = 3325256704" "ipv4_number 203 0 113 0 = 3405803776" "ipv4_number 224 0 0 0 = 3758096384"
  "ipv4_number 255 255 255 255 = 4294967295"
  by (simp_all add: ipv4_number_def)

lemma last_address: "ipv4_number a b c d = 4294967295 \<longleftrightarrow> unat a = 255 \<and> unat b = 255 \<and> unat c = 255 \<and> unat d = 255"
  unfolding ipv4_number_def by (rule octet_blocks [OF u8_bound u8_bound u8_bound])

text \<open>An IPv4 address is taken for non-public exactly when it lies in one of the thirteen blocks.\<close>

lemma non_public_ipv4_blocks:
  "ipv4_is_non_public a b c d \<longleftrightarrow> list_ex (in_block (ipv4_number a b c d)) non_public_blocks"
proof -
  note bound = u8_bound [of b] u8_bound [of c] u8_bound [of d]
  define n where "n = ipv4_number a b c d"
  have n: "n div 256 = (unat a * 256 + unat b) * 256 + unat c" "n div 65536 = unat a * 256 + unat b"
    "n div 16777216 = unat a" "n div 131072 = unat a * 128 + unat b div 2" "n div 1048576 = unat a * 16 + unat b div 16"
    "n div 4194304 = unat a * 4 + unat b div 64" "n div 268435456 = unat a div 16"
    by (simp_all only: n_def ipv4_number_div)
  have last: "n = 4294967295 \<longleftrightarrow> unat a = 255 \<and> unat b = 255 \<and> unat c = 255 \<and> unat d = 255"
    unfolding n_def by (rule last_address)
  note blocks = octet_blocks(1-5,7-) [OF bound, of "unat a", folded n]
  have "list_ex (in_block n) non_public_blocks \<longleftrightarrow>
      n div 16777216 = 0 \<or> n div 16777216 = 10 \<or> n div 4194304 = 401 \<or> n div 16777216 = 127 \<or> n div 65536 = 43518 \<or>
      n div 1048576 = 2753 \<or> n div 256 = 12582914 \<or> n div 65536 = 49320 \<or> n div 131072 = 25353 \<or>
      n div 256 = 12989284 \<or> n div 256 = 13303921 \<or> n div 268435456 = 14 \<or> n = 4294967295"
    unfolding non_public_blocks_def by (simp add: in_block_iff block_starts)
  moreover have "ipv4_is_non_public a b c d \<longleftrightarrow> \<dots>"
    unfolding blocks last n(3) ipv4_is_non_public_def u8_eq word_le_nat_alt by (simp, satx)
  ultimately show ?thesis unfolding n_def by simp
qed

lemma digit_char_0: "d < 10 \<Longrightarrow> digit_char d = CHR ''0'' \<longleftrightarrow> d = 0"
proof -
  assume d: "d < 10"
  have "digit_char 0 = CHR ''0''" by code_simp
  then show ?thesis using digit_char_inject [OF d, of 0] by auto
qed

lemma octet_text_bounds:
  assumes "n < 256"
  shows "length (show_nat n) \<le> 3" "hd (show_nat n) = CHR ''0'' \<Longrightarrow> length (show_nat n) = 1"
proof -
  consider "n < 10" | "10 \<le> n" "n < 100" | "100 \<le> n" by linarith
  then have "length (show_nat n) \<le> 3 \<and> (hd (show_nat n) = CHR ''0'' \<longrightarrow> length (show_nat n) = 1)"
  proof cases
    case 1
    then show ?thesis by (simp add: show_nat.simps [of n])
  next
    case 2
    then have "show_nat n = [digit_char (n div 10), digit_char (n mod 10)]"
      by (simp add: show_nat.simps [of n] show_nat.simps [of "n div 10"])
    moreover have "n div 10 \<noteq> 0" "n div 10 < 10" using 2 by linarith+
    ultimately show ?thesis using digit_char_0 [of "n div 10"] by simp
  next
    case 3
    then have n: "n div 100 \<noteq> 0" "n div 100 < 10" "\<not> n div 10 < 10" "\<not> n < 10" "n div 10 div 10 = n div 100" using assms by linarith+
    then have "show_nat n = [digit_char (n div 100), digit_char (n div 10 mod 10), digit_char (n mod 10)]"
      by (simp only: show_nat.simps [of n] show_nat.simps [of "n div 10"] show_nat.simps [of "n div 100"] if_False if_True
          append.simps)
    moreover note n
    ultimately show ?thesis using digit_char_0 [of "n div 100"] by simp
  qed
  then show "length (show_nat n) \<le> 3" "hd (show_nat n) = CHR ''0'' \<Longrightarrow> length (show_nat n) = 1" by simp_all
qed

lemma digits_of_text:
  "list_all is_digit ds \<Longrightarrow> (rest = [] \<or> \<not> is_digit (hd rest)) \<Longrightarrow>
     digits_of decimal_digit (ds @ rest) = (map (\<lambda>c. char_code c - 48) ds, rest)"
  by (induction ds) (cases rest; auto simp: decimal_digit_def)+

lemma foldl_digits: "foldl (\<lambda>n d. n * 10 + d) k (map (\<lambda>c. char_code c - 48) ds) =
    foldl (\<lambda>n c. 10 * n + (char_code c - 48)) k ds"
  by (simp add: foldl_map mult.commute)

lemma read_octet_text:
  assumes "n < 256" "rest = [] \<or> \<not> is_digit (hd rest)"
  shows "read_octet (show_nat n @ rest) = Some (n, rest)"
proof -
  have d: "digits_of decimal_digit (show_nat n @ rest) = (map (\<lambda>c. char_code c - 48) (show_nat n), rest)"
    by (rule digits_of_text [OF _ assms(2)]) (simp add: list_all_iff show_nat_digits)
  have v: "foldl (\<lambda>n d. n * 10 + d) 0 (map (\<lambda>c. char_code c - 48) (show_nat n)) = n"
    using digits_value_show [of n] by (simp add: foldl_digits digits_value_def)
  show ?thesis
    using octet_text_bounds [OF assms(1)] assms(1) show_nat_nonempty [of n]
    by (auto simp: read_octet_def read_number_def d v)
qed

definition show_ipv4 :: "u8 \<Rightarrow> u8 \<Rightarrow> u8 \<Rightarrow> u8 \<Rightarrow> string" where
  "show_ipv4 a b c d = show_nat (unat a) @ ''.'' @ show_nat (unat b) @ ''.'' @ show_nat (unat c) @ ''.'' @ show_nat (unat d)"

lemma dot_no_digit: "\<not> is_digit (hd (CHR ''.'' # s))"
  by (simp add: is_digit_def char_code_def)

lemma read_dotted:
  assumes "n < 256" "rest = [] \<or> \<not> is_digit (hd rest)" "0 < i"
  shows "read_separator (CHR ''.'') i read_octet (CHR ''.'' # show_nat n @ rest) = Some (n, rest)"
  using read_octet_text [OF assms(1,2)] assms(3) by (simp add: read_separator_def read_given_char_def)

text \<open>The text of an IPv4 address is parsed as that address.\<close>

lemma ipv4_text_parses: "parse_ip (show_ipv4 a b c d) = Some (V4 a b c d)"
proof -
  have "read_ipv4_addr (show_ipv4 a b c d) = Some ((unat a, unat b, unat c, unat d), [])"
    using read_octet_text [OF u8_bound [of a], of "CHR ''.'' # show_nat (unat b) @ CHR ''.'' # show_nat (unat c) @ CHR ''.'' # show_nat (unat d)"]
      read_dotted [OF u8_bound [of b], of "CHR ''.'' # show_nat (unat c) @ CHR ''.'' # show_nat (unat d)" 1]
      read_dotted [OF u8_bound [of c], of "CHR ''.'' # show_nat (unat d)" 2] read_dotted [OF u8_bound [of d], of "[]" 3] dot_no_digit
    by (simp add: show_ipv4_def read_ipv4_addr_def)
  then show ?thesis by (simp add: parse_ip_def)
qed

text \<open>The IPv6 form of an IPv4 address, which the system's sockets treat as the IPv4 address.\<close>

definition mapped_ipv6 :: "u8 \<Rightarrow> u8 \<Rightarrow> u8 \<Rightarrow> u8 \<Rightarrow> IpAddr" where
  "mapped_ipv6 a b c d = V6 [0, 0, 0, 0, 0, 0xffff, ucast a * 256 + ucast b, ucast c * 256 + ucast d]"

lemma mapped_ipv6_public: "\<not> ip_is_non_public (mapped_ipv6 a b c d)"
  by (simp add: mapped_ipv6_def ipv6_is_non_public_def)

section \<open>Laws of the URL check\<close>

text \<open>What the check lets through without an override: an HTTP URL whose host is no local name, and is a literal
  address that is not in one of the blocks, or a name.\<close>

definition target_ok :: "url \<Rightarrow> bool" where
  "target_ok p \<longleftrightarrow> ur_scheme p \<in> {''http'', ''https''} \<and> (case ur_host_str p of
      None \<Rightarrow> False
    | Some h \<Rightarrow> \<not> local_hostname (to_lower h) \<and> (\<forall>ip. parse_ip (to_lower h) = Some ip \<longrightarrow> \<not> ip_is_non_public ip))"

lemma syntactic_Ok_iff:
  "validate_web_url_target_syntactic parse u False = Ok p \<longleftrightarrow> parse u = Ok p \<and> target_ok p"
proof (cases "parse u")
  case (Inr q)
  show ?thesis
  proof (cases "ur_scheme q \<in> {''http'', ''https''}")
    case True
    define local where "local h = local_hostname (to_lower h)" for h
    show ?thesis
      unfolding validate_web_url_target_syntactic_def parse_url_def target_ok_def Let_def local_def [symmetric]
      using Inr True
      by (cases "ur_host_str q"; cases "parse_ip (to_lower (the (ur_host_str q)))"; cases "local (the (ur_host_str q))") auto
  qed (use Inr in \<open>auto simp: validate_web_url_target_syntactic_def parse_url_def target_ok_def\<close>)
qed (simp add: validate_web_url_target_syntactic_def parse_url_def)

text \<open>An answer of the resolver that is the IPv4-mapped form of a private or loopback address passes the check
  at run time, although the check refuses the same address in its IPv4 form.\<close>

lemma mapped_address_passes:
  assumes "parse u = Ok p" "target_ok p" "ur_host_str p = Some h" "parse_ip h = None"
  shows "(lookup h (case ur_port_or_default p of Some n \<Rightarrow> n | None \<Rightarrow> 80) = Ok [mapped_ipv6 a b c d] \<longrightarrow>
      validate_web_url_target_runtime parse lookup u False = Ok p) \<and>
    (lookup h (case ur_port_or_default p of Some n \<Rightarrow> n | None \<Rightarrow> 80) = Ok [V4 a b c d] \<longrightarrow>
      (validate_web_url_target_runtime parse lookup u False = Ok p \<longleftrightarrow>
         \<not> list_ex (in_block (ipv4_number a b c d)) non_public_blocks))"
proof -
  let ?port = "case ur_port_or_default p of Some n \<Rightarrow> n | None \<Rightarrow> 80"
  have "validate_web_url_target_syntactic parse u False = Ok p" using assms(1,2) syntactic_Ok_iff by blast
  then have "validate_web_url_target_runtime parse lookup u False = Ok p \<longleftrightarrow> \<not> list_ex ip_is_non_public addrs"
    if "lookup h ?port = Ok addrs" for addrs
    using that assms(3,4) by (simp add: validate_web_url_target_runtime_def)
  then show ?thesis using mapped_ipv6_public [of a b c d] non_public_ipv4_blocks [of a b c d] by simp
qed

section \<open>Laws of domain rules\<close>

definition labels :: "string \<Rightarrow> string list" where
  "labels domain = split_on (\<lambda>c. c = CHR ''.'') domain"

lemma labels_dot: "labels (a @ ''.'' @ b) = labels a @ labels b"
  unfolding labels_def using split_on_sep [of "\<lambda>c. c = CHR ''.''" "CHR ''.''" a b] by simp

lemma join_split: "join_with [sep] (split_on (\<lambda>c. c = sep) d) = d"
proof (induction d)
  case (Cons c d)
  obtain w ws where "split_on (\<lambda>c. c = sep) d = w # ws" by (metis split_on_nonempty list.exhaust)
  with Cons show ?case by (cases ws) auto
qed simp

lemma join_append: "a \<noteq> [] \<Longrightarrow> b \<noteq> [] \<Longrightarrow> join_with sep (a @ b) = join_with sep a @ sep @ join_with sep b"
  by (induction sep a rule: join_with.induct) (auto simp: neq_Nil_conv)

text \<open>C34: a domain matches a rule exactly when its last labels are the labels of the rule: a rule covers its
  subdomains, and no lookalike.\<close>

theorem domain_rule_labels: "domain_matches_rule domain rule \<longleftrightarrow> suffix (labels rule) (labels domain)"
proof
  assume "domain_matches_rule domain rule"
  then consider "domain = rule" | r where "domain = r @ ''.'' @ rule" by (auto simp: domain_matches_rule_def ends_with_iff)
  then show "suffix (labels rule) (labels domain)" by cases (simp_all only: labels_dot suffix_order.refl suffix_appendI)
next
  assume "suffix (labels rule) (labels domain)"
  then obtain front where front: "labels domain = front @ labels rule" by (auto simp: suffix_def)
  have join: "join_with ''.'' (labels d) = d" for d unfolding labels_def by (rule join_split)
  show "domain_matches_rule domain rule"
  proof (cases "front = []")
    case True
    then have "domain = rule" using front join by (metis append_Nil)
    then show ?thesis by (simp add: domain_matches_rule_def)
  next
    case False
    moreover have "labels rule \<noteq> []" by (simp add: labels_def)
    ultimately have "domain = join_with ''.'' front @ ''.'' @ rule"
      using front join_append [of front "labels rule" "''.''"] join [of domain] join [of rule] by simp
    then show ?thesis by (auto simp: domain_matches_rule_def ends_with_iff)
  qed
qed

end
