(* ===== verification/ToolRequests.thy ===== *)
theory ToolRequests
  imports WebTargets ToolText McpStore
begin

text \<open>The requests of the tools and what the guards read from them (\<open>aria-x/src/tools.rs\<close>, \<open>browser.rs\<close>): the types,
  the decoding of the arguments of a call, and the target of a web, browser or computer tool.  The decoders that
  \<open>serde\<close> derives, and the JSON and URL libraries, are parameters.\<close>

section \<open>Requests\<close>

record AgentSpawnRequest =
  as_agent_id :: string
  as_prompt :: string
  as_parent_run_id :: "string option"
  as_correlation_id :: "string option"
  as_max_runtime_seconds :: "u32 option"
  as_approved_attachment_urls :: "string list"

record WriteFileRequest =
  wf_path :: string
  wf_content :: string
  wf_idempotency_key :: "string option"

record RunShellRequest =
  sh_command :: string
  sh_backend_id :: "string option"
  sh_docker_image :: "string option"
  sh_timeout_seconds :: "u64 option"
  sh_max_output_bytes :: "u64 option"
  sh_cpu_seconds :: "u64 option"
  sh_memory_kb :: "u64 option"
  sh_os_containment :: "bool option"
  sh_allow_network_egress :: "bool option"
  sh_cwd :: "string option"
  sh_idempotency_key :: "string option"

record ActivateSkillRequest =
  av_skill_id :: string
  av_run_id :: "string option"

record ExecuteSkillRequest =
  xs_skill_id :: string
  xs_function_name :: "string option"
  xs_input :: "string option"

record InvokeMcpToolRequest =
  iv_server_id :: string
  iv_tool_name :: string
  iv_input :: json

record RenderMcpPromptRequest =
  rn_server_id :: string
  rn_prompt_name :: string
  rn_arguments :: json

record ReadMcpResourceRequest =
  rd_server_id :: string
  rd_resource_uri :: string

record SearchWebRequest =
  sw_query :: string
  sw_site :: "string option"
  sw_max_results :: "u64 option"

record BrowserOpenRequest =
  bo_url :: string
  bo_profile_id :: "string option"

record BrowserArtifactRequest =
  ba_url :: string
  ba_browser_session_id :: "string option"

record BrowserDownloadRequest =
  bd_url :: string
  bd_browser_session_id :: "string option"
  bd_filename :: "string option"

record BrowserSessionStartRequest =
  bs_profile_id :: "string option"
  bs_url :: "string option"

record BrowserLoginStatusRequest =
  bl_browser_session_id :: "string option"
  bl_domain :: "string option"
  bl_notes :: "string option"

datatype BrowserLoginStateKind = LoggedOut | ManualPending | Authenticated | ChallengeRequired | ExpiredLogin

record BrowserLoginCompleteRequest =
  bc_browser_session_id :: "string option"
  bc_domain :: string
  bc_credential_key_names :: "string list"
  bc_state :: "BrowserLoginStateKind option"
  bc_notes :: "string option"

record BrowserLoginCredentialEntry =
  ce_key_name :: string
  ce_selector :: "json option"
  ce_field :: "json option"

record BrowserLoginFillCredentialsRequest =
  bf_browser_session_id :: "string option"
  bf_domain :: string
  bf_credentials :: "BrowserLoginCredentialEntry list"

record CrawlRequest =
  cr_url :: string
  cr_scope :: "CrawlScope option"
  cr_max_depth :: "u64 option"
  cr_max_pages :: "u64 option"
  cr_allowed_domains :: "string list"
  cr_render_js :: "bool option"
  cr_capture_screenshots :: "bool option"
  cr_change_detection :: "bool option"

datatype BrowserInteractionKind = Navigate | WaitFor | Click | TypeText | SelectOption | Scroll

record BrowserActionRequest =
  br_browser_session_id :: string
  br_action :: BrowserInteractionKind
  br_url :: "string option"
  br_selector :: "string option"
  br_text :: "string option"
  br_value :: "string option"
  br_millis :: "u64 option"

datatype ComputerActionKind = CaptureScreenshot | PointerMove | PointerClick | KeyboardType | KeyPress
  | ClipboardRead | ClipboardWrite | WindowFocus

datatype ComputerPointerButton = LeftButton | RightButton | MiddleButton

record ComputerActionRequest =
  cq_computer_session_id :: "string option"
  cq_profile_id :: "string option"
  cq_target_window_id :: "string option"
  cq_action :: ComputerActionKind
  cq_x :: "32 word option"
  cq_y :: "32 word option"
  cq_button :: "ComputerPointerButton option"
  cq_text :: "string option"
  cq_key :: "string option"

record ComputerSessionStartRequest =
  cs_profile_id :: "string option"
  cs_target_window_id :: "string option"

section \<open>Decoding\<close>

type_synonym 'a decoder = "string \<Rightarrow> (string, 'a) result"

record tool_decoders =
  td_json :: "json decoder"
  td_path :: "string decoder"
  td_write_file :: "WriteFileRequest decoder"
  td_run_shell :: "RunShellRequest decoder"
  td_spawn_agent :: "AgentSpawnRequest decoder"
  td_activate_skill :: "ActivateSkillRequest decoder"
  td_execute_skill :: "ExecuteSkillRequest decoder"
  td_invoke_mcp_tool :: "InvokeMcpToolRequest decoder"
  td_render_mcp_prompt :: "RenderMcpPromptRequest decoder"
  td_read_mcp_resource :: "ReadMcpResourceRequest decoder"
  td_search_web :: "SearchWebRequest decoder"
  td_url :: "string decoder"
  td_browser_open :: "BrowserOpenRequest decoder"
  td_browser_artifact :: "BrowserArtifactRequest decoder"
  td_browser_download :: "BrowserDownloadRequest decoder"
  td_browser_session_start :: "BrowserSessionStartRequest decoder"
  td_browser_profile_use :: "string decoder"
  td_browser_login_status :: "BrowserLoginStatusRequest decoder"
  td_browser_login_complete :: "BrowserLoginCompleteRequest decoder"
  td_browser_login_fill :: "BrowserLoginFillCredentialsRequest decoder"
  td_crawl :: "CrawlRequest decoder"
  td_computer_action :: "ComputerActionRequest decoder"
  td_computer_session_start :: "ComputerSessionStartRequest decoder"
  td_browser_action :: "json \<Rightarrow> (string, BrowserActionRequest) result"

text \<open>The libraries and settings of the process.\<close>

record tool_env =
  te_decoders :: tool_decoders
  te_print :: "json \<Rightarrow> string"
  te_parse_url :: url_parser
  te_with_query :: "string \<Rightarrow> string \<times> string \<Rightarrow> (string, string) result"
  te_current_dir :: "(string, string) result"
  te_show_uuid :: "u8 list \<Rightarrow> string"
  te_uid :: "nat \<Rightarrow> string"
  te_private_override :: bool
  te_browser_automation :: bool
  te_denial_retention :: u32

definition decode_tool_args :: "'a decoder \<Rightarrow> ToolCall \<Rightarrow> (OrchestratorError, 'a) result" where
  "decode_tool_args decode call = map_err (\<lambda>e. ToolError (''Invalid args for '' @ quoted (tl_name call) @ '': '' @ e))
     (decode (tl_arguments call))"

definition required_trimmed :: "string \<Rightarrow> string \<Rightarrow> (OrchestratorError, string) result" where
  "required_trimmed value field =
    (if trim_ws value = [] then Err (ToolError (''Missing '' @ quoted field)) else Ok (trim_ws value))"

fun transpose_option :: "('e, 'a) result option \<Rightarrow> ('e, 'a option) result" where
  "transpose_option None = Ok None"
| "transpose_option (Some r) = map_ok Some r"

section \<open>Web targets\<close>

text \<open>The arguments of a browser action may hold its fields in an object under \<open>action\<close>.\<close>

definition lift_action_field :: "json \<Rightarrow> string \<Rightarrow> (string \<times> json) list \<Rightarrow> (string \<times> json) list" where
  "lift_action_field action k members = (case (map_of members k, jget action k) of
      (None, Some v) \<Rightarrow> jput k v members
    | _ \<Rightarrow> members)"

definition flatten_browser_action :: "json \<Rightarrow> json" where
  "flatten_browser_action payload = (case payload of
      JObject members \<Rightarrow> (case map_of members ''action'' of
          Some (JObject action) \<Rightarrow>
            let kind = (case Option.bind (jget (JObject action) ''kind'') as_str of
                  Some k \<Rightarrow> Some k | None \<Rightarrow> Option.bind (jget (JObject action) ''action'') as_str);
                members = (case kind of Some k \<Rightarrow> jput ''action'' (JString k) members | None \<Rightarrow> members) in
            JObject (foldl (\<lambda>fs k. lift_action_field (JObject action) k fs) members
              [''selector'', ''text'', ''value'', ''url'', ''millis''])
        | _ \<Rightarrow> payload)
    | _ \<Rightarrow> payload)"

definition extract_browser_action_request :: "tool_env \<Rightarrow> ToolCall \<Rightarrow> (OrchestratorError, BrowserActionRequest option) result" where
  "extract_browser_action_request env call =
    (if tl_name call \<noteq> ''browser_act'' then Ok None
     else and_then (decode_tool_args (td_json (te_decoders env)) call) (\<lambda>payload.
       map_err (\<lambda>e. ToolError (''Invalid args for '' @ quoted (tl_name call) @ '': '' @ e))
         (map_ok Some (td_browser_action (te_decoders env) (flatten_browser_action payload)))))"

fun interaction_family :: "BrowserInteractionKind \<Rightarrow> WebActionFamily" where
  "interaction_family Navigate = InteractiveReadFamily"
| "interaction_family WaitFor = InteractiveReadFamily"
| "interaction_family Scroll = InteractiveReadFamily"
| "interaction_family Click = InteractiveWriteFamily"
| "interaction_family TypeText = InteractiveWriteFamily"
| "interaction_family SelectOption = InteractiveWriteFamily"

definition url_tools :: "string list" where
  "url_tools = [''search_web'', ''fetch_url'', ''web_fetch'', ''web_extract'', ''browser_open'', ''browser_snapshot'',
     ''browser_screenshot'', ''browser_extract'', ''browser_download'', ''crawl_page'', ''crawl_site'']"

definition login_tools :: "string list" where
  "login_tools = [''browser_login_status'', ''browser_login_begin_manual'', ''browser_login_complete_manual'',
     ''browser_login_fill_credentials'']"

text \<open>The URL in the arguments of a tool of \<open>url_tools\<close>.\<close>

definition call_url :: "tool_env \<Rightarrow> ToolCall \<Rightarrow> (OrchestratorError, string) result" where
  "call_url env call = (let name = tl_name call; dec = te_decoders env in
     if name = ''search_web'' then and_then (decode_tool_args (td_search_web dec) call) (\<lambda>r.
       build_search_web_url (te_with_query env) (sw_query r) (sw_site r))
     else if name \<in> {''fetch_url'', ''web_fetch'', ''web_extract''} then decode_tool_args (td_url dec) call
     else if name = ''browser_open'' then map_ok bo_url (decode_tool_args (td_browser_open dec) call)
     else if name \<in> {''browser_snapshot'', ''browser_screenshot'', ''browser_extract''}
       then map_ok ba_url (decode_tool_args (td_browser_artifact dec) call)
     else if name = ''browser_download'' then map_ok bd_url (decode_tool_args (td_browser_download dec) call)
     else map_ok cr_url (decode_tool_args (td_crawl dec) call))"

definition url_family :: "string \<Rightarrow> WebActionFamily" where
  "url_family name = (if name = ''browser_open'' then InteractiveReadFamily
     else if name = ''browser_screenshot'' then ScreenshotFamily
     else if name = ''browser_download'' then DownloadFamily
     else if name \<in> {''crawl_page'', ''crawl_site''} then CrawlFamily
     else FetchFamily)"

definition login_domain :: "tool_env \<Rightarrow> ToolCall \<Rightarrow> (OrchestratorError, string) result" where
  "login_domain env call = (let name = tl_name call; dec = te_decoders env in
     if name \<in> {''browser_login_begin_manual'', ''browser_login_status''}
     then map_ok (\<lambda>r. case bl_domain r of Some d \<Rightarrow> d | None \<Rightarrow> []) (decode_tool_args (td_browser_login_status dec) call)
     else if name = ''browser_login_complete_manual''
     then map_ok bc_domain (decode_tool_args (td_browser_login_complete dec) call)
     else map_ok bf_domain (decode_tool_args (td_browser_login_fill dec) call))"

definition host_of_url :: "tool_env \<Rightarrow> string \<Rightarrow> (OrchestratorError, string) result" where
  "host_of_url env u = and_then (parse_url (te_parse_url env) u) url_host_key"

definition extract_web_target :: "tool_env \<Rightarrow> ToolCall \<Rightarrow> (OrchestratorError, (string \<times> WebActionFamily) option) result" where
  "extract_web_target env call = (let name = tl_name call in
     if name \<in> set url_tools then
       and_then (call_url env call) (\<lambda>u. map_ok (\<lambda>host. Some (host, url_family name)) (host_of_url env u))
     else if name = ''browser_act'' then
       and_then (extract_browser_action_request env call) (\<lambda>request. case request of
         None \<Rightarrow> Ok None
       | Some r \<Rightarrow> (case br_url r of
           None \<Rightarrow> Ok None
         | Some u \<Rightarrow> map_ok (\<lambda>host. Some (host, interaction_family (br_action r))) (host_of_url env u)))
     else if name \<in> set login_tools then
       and_then (login_domain env call) (\<lambda>domain.
         if trim_ws domain = [] then Ok None
         else map_ok (\<lambda>d. Some (d, LoginFamily)) (resolve_browser_login_domain (te_parse_url env) domain))
     else Ok None)"

section \<open>Browser and computer targets\<close>

definition trimmed_id :: "string option \<Rightarrow> (OrchestratorError, string option) result" where
  "trimmed_id pid = transpose_option (map_option (\<lambda>v. required_trimmed v ''profile_id'') pid)"

definition extract_browser_profile_target :: "tool_env \<Rightarrow> ToolCall \<Rightarrow> (OrchestratorError, string option) result" where
  "extract_browser_profile_target env call = (let name = tl_name call; dec = te_decoders env in
     if name = ''browser_profile_use'' then
       and_then (decode_tool_args (td_browser_profile_use dec) call) (\<lambda>pid. map_ok Some (required_trimmed pid ''profile_id''))
     else if name = ''browser_open'' then and_then (decode_tool_args (td_browser_open dec) call) (\<lambda>r. trimmed_id (bo_profile_id r))
     else if name = ''browser_session_start''
     then and_then (decode_tool_args (td_browser_session_start dec) call) (\<lambda>r. trimmed_id (bs_profile_id r))
     else Ok None)"

definition extract_computer_action_request :: "tool_env \<Rightarrow> ToolCall \<Rightarrow> (OrchestratorError, ComputerActionRequest option) result" where
  "extract_computer_action_request env call =
    (if tl_name call \<notin> {''computer_act'', ''computer_capture'', ''computer_screenshot''} then Ok None
     else map_ok (\<lambda>r. Some (if tl_name call \<in> {''computer_capture'', ''computer_screenshot''}
         then r\<lparr>cq_action := CaptureScreenshot\<rparr> else r))
       (decode_tool_args (td_computer_action (te_decoders env)) call))"

definition extract_computer_profile_target :: "tool_env \<Rightarrow> ToolCall \<Rightarrow> (OrchestratorError, string option) result" where
  "extract_computer_profile_target env call = (let name = tl_name call in
     if name = ''computer_session_start''
     then and_then (decode_tool_args (td_computer_session_start (te_decoders env)) call) (\<lambda>r. trimmed_id (cs_profile_id r))
     else if name \<in> {''computer_act'', ''computer_capture'', ''computer_screenshot''}
     then map_ok (\<lambda>request. Option.bind (Option.bind request cq_profile_id)
         (\<lambda>pid. if trim_ws pid \<noteq> [] then Some (trim_ws pid) else None))
       (extract_computer_action_request env call)
     else Ok None)"

section \<open>Names as \<open>Debug\<close> prints them\<close>

fun debug_channel :: "GatewayChannel \<Rightarrow> string" where
  "debug_channel Telegram = ''Telegram''" | "debug_channel WhatsApp = ''WhatsApp''" | "debug_channel Discord = ''Discord''"
| "debug_channel Slack = ''Slack''" | "debug_channel IMessage = ''IMessage''" | "debug_channel Cli = ''Cli''"
| "debug_channel WebSocket = ''WebSocket''" | "debug_channel Ros2 = ''Ros2''" | "debug_channel UnknownChannel = ''Unknown''"

fun debug_interaction :: "BrowserInteractionKind \<Rightarrow> string" where
  "debug_interaction Navigate = ''Navigate''" | "debug_interaction WaitFor = ''Wait''" | "debug_interaction Click = ''Click''"
| "debug_interaction TypeText = ''Type''" | "debug_interaction SelectOption = ''Select''" | "debug_interaction Scroll = ''Scroll''"

fun debug_computer_action :: "ComputerActionKind \<Rightarrow> string" where
  "debug_computer_action CaptureScreenshot = ''CaptureScreenshot''" | "debug_computer_action PointerMove = ''PointerMove''"
| "debug_computer_action PointerClick = ''PointerClick''" | "debug_computer_action KeyboardType = ''KeyboardType''"
| "debug_computer_action KeyPress = ''KeyPress''" | "debug_computer_action ClipboardRead = ''ClipboardRead''"
| "debug_computer_action ClipboardWrite = ''ClipboardWrite''" | "debug_computer_action WindowFocus = ''WindowFocus''"

fun debug_crawl_scope :: "CrawlScope \<Rightarrow> string" where
  "debug_crawl_scope SinglePage = ''SinglePage''" | "debug_crawl_scope SameOrigin = ''SameOrigin''"
| "debug_crawl_scope AllowlistedDomains = ''AllowlistedDomains''"
| "debug_crawl_scope ScheduledWatchAllowed = ''ScheduledWatchAllowed''"

fun debug_transport :: "BrowserTransportKind \<Rightarrow> string" where
  "debug_transport ManagedBrowser = ''ManagedBrowser''" | "debug_transport AttachedBrowser = ''AttachedBrowser''"
| "debug_transport ExtensionBrowser = ''ExtensionBrowser''" | "debug_transport RemoteBrowser = ''RemoteBrowser''"

fun debug_family :: "WebActionFamily \<Rightarrow> string" where
  "debug_family FetchFamily = ''Fetch''" | "debug_family CrawlFamily = ''Crawl''" | "debug_family ScreenshotFamily = ''Screenshot''"
| "debug_family InteractiveReadFamily = ''InteractiveRead''" | "debug_family InteractiveWriteFamily = ''InteractiveWrite''"
| "debug_family LoginFamily = ''Login''" | "debug_family DownloadFamily = ''Download''"

section \<open>Aliases of MCP tools\<close>

definition alias_part :: "string \<Rightarrow> string" where
  "alias_part s = map (\<lambda>c. if c \<in> {CHR ''/'', CHR '':'', CHR ''-'', CHR ''.''} then CHR ''_'' else c) s"

definition mcp_tool_alias_name :: "string \<Rightarrow> string \<Rightarrow> string" where
  "mcp_tool_alias_name server_id tool_name = ''mcp__'' @ alias_part (trim_ws server_id) @ ''__'' @ alias_part (trim_ws tool_name)"

definition decode_mcp_tool_alias :: "string \<Rightarrow> (string \<times> string) option" where
  "decode_mcp_tool_alias name = Option.bind (strip_prefix ''mcp__'' name) (split_once ''__'')"

definition normalize_tool_alias_call :: "tool_env \<Rightarrow> ToolCall \<Rightarrow> ToolCall" where
  "normalize_tool_alias_call env call = (case decode_mcp_tool_alias (tl_name call) of
      Some (server_id, tool_name) \<Rightarrow>
        let input = (case td_json (te_decoders env) (tl_arguments call) of Inr v \<Rightarrow> v | Inl _ \<Rightarrow> JObject []) in
        \<lparr>tl_invocation_id = tl_invocation_id call, tl_name = ''invoke_mcp_tool'',
         tl_arguments = te_print env (JObject [(''server_id'', JString server_id), (''tool_name'', JString tool_name),
           (''input'', input)])\<rparr>
    | None \<Rightarrow> call)"

end
