(* ===== verification/ToolGuards.thy ===== *)
theory ToolGuards
  imports ToolRequests AgentRuns
begin

text \<open>The guards in front of every tool call (\<open>PolicyCheckedExecutor\<close> in \<open>aria-x/src/tools.rs\<close>, with the browser and
  computer checks of \<open>browser.rs\<close> and \<open>computer.rs\<close>): one check per scope of the agent's capability profile.  A check
  reads the tables of the runtime store, may change them (a refusal is recorded, a decision for one time is used up),
  and passes or fails.\<close>

section \<open>The tables\<close>

datatype ScopeDenialKind = ToolAllowlistDenial | DelegationScopeDenial | FilesystemScopeDenial | ExecutionProfileDenial
  | SkillScopeDenial | DomainPolicyDenial | NetworkEgressDenial | SecretEgressDenial | ContentFirewallDenial
  | BrowserProfileScopeDenial | BrowserSessionScopeDenial | BrowserActionScopeDenial | ComputerProfileScopeDenial
  | ComputerActionScopeDenial | CrawlScopeDenial | McpToolScopeDenial | McpPromptScopeDenial | McpResourceScopeDenial
  | RetrievalScopeDenial | ElevationRequiredDenial

record ScopeDenialRecord =
  sd_denial_id :: string
  sd_kind :: ScopeDenialKind
  sd_agent_id :: string
  sd_session_id :: "u8 list option"
  sd_target :: string
  sd_reason :: string
  sd_created_at_us :: u64

datatype DomainDecisionScope = DomainScope | SessionScope | RequestScope

record DomainAccessDecision =
  dd_decision_id :: string
  dd_domain :: string
  dd_agent_id :: "string option"
  dd_session_id :: "u8 list option"
  dd_action_family :: WebActionFamily
  dd_decision :: DomainDecisionKind
  dd_scope :: DomainDecisionScope
  dd_created_by_user_id :: string
  dd_created_at_us :: u64
  dd_expires_at_us :: "u64 option"
  dd_reason :: "string option"

datatype BrowserProfileMode = EphemeralMode | ManagedPersistentMode | AttachedExternalMode | ExtensionBoundMode

datatype BrowserEngine = ChromiumEngine | ChromeEngine | EdgeEngine | SafariBridgeEngine

record BrowserProfile =
  bp_profile_id :: string
  bp_display_name :: string
  bp_mode :: BrowserProfileMode
  bp_engine :: BrowserEngine
  bp_is_default :: bool
  bp_persistent :: bool
  bp_managed_by_aria :: bool
  bp_attached_source :: "string option"
  bp_extension_binding_id :: "string option"
  bp_allowed_domains :: "string list"
  bp_auth_enabled :: bool
  bp_write_enabled :: bool
  bp_created_at_us :: u64

datatype ComputerRuntimeKind = LocalDesktop | ManagedVmDesktop | RemoteDesktop

record ComputerExecutionProfile =
  cx_profile_id :: string
  cx_display_name :: string
  cx_runtime_kind :: ComputerRuntimeKind
  cx_isolated :: bool
  cx_headless :: bool
  cx_allow_clipboard :: bool
  cx_allow_keyboard :: bool
  cx_allow_pointer :: bool
  cx_allowed_windows :: "string list"
  cx_created_at_us :: u64

datatype SkillActivationPolicy = ManualActivation | AutoSuggestActivation | AutoLoadLowRiskActivation | ApprovalRequiredActivation

datatype SkillProvenanceKind = LocalSkill | ImportedSkill | GeneratedSkill | CompatibilityImportSkill

record SkillProvenance =
  pv_kind :: SkillProvenanceKind
  pv_source_ref :: "string option"
  pv_imported_at_us :: "u64 option"

record SkillPackageManifest =
  sk_skill_id :: string
  sk_name :: string
  sk_description :: string
  sk_version :: string
  sk_entry_document :: string
  sk_tool_names :: "string list"
  sk_mcp_server_dependencies :: "string list"
  sk_retrieval_hints :: "string list"
  sk_wasm_module_ref :: "string option"
  sk_config_schema :: "string option"
  sk_enabled :: bool
  sk_provenance :: "SkillProvenance option"

record SkillBinding =
  sb_binding_id :: string
  sb_agent_id :: string
  sb_skill_id :: string
  sb_activation_policy :: SkillActivationPolicy
  sb_created_at_us :: u64

record SkillActivationRecord =
  sa_activation_id :: string
  sa_skill_id :: string
  sa_agent_id :: string
  sa_run_id :: "string option"
  sa_session_id :: "u8 list option"
  sa_active :: bool
  sa_activated_at_us :: u64
  sa_deactivated_at_us :: "u64 option"

text \<open>A row is the payload and the time of its last write.\<close>

record guard_store =
  gd_denials :: "ScopeDenialRecord list"
  gd_decisions :: "(DomainAccessDecision \<times> u64) list"
  gd_browser_profiles :: "(BrowserProfile \<times> u64) list"
  gd_computer_profiles :: "(ComputerExecutionProfile \<times> u64) list"
  gd_skill_packages :: "(SkillPackageManifest \<times> u64) list"
  gd_skill_bindings :: "SkillBinding list"
  gd_skill_activations :: "SkillActivationRecord list"
  gd_runs :: run_store
  gd_mcp :: mcp_store
  gd_drawn :: nat

definition oldest_first :: "('a \<times> u64) list \<Rightarrow> 'a list" where
  "oldest_first rows = map fst (sort_key (\<lambda>r. sint (snd r)) rows)"

definition newest_first :: "('a \<times> u64) list \<Rightarrow> 'a list" where
  "newest_first rows = map fst (sort_key (\<lambda>r. - sint (snd r)) rows)"

definition list_browser_profiles :: "guard_store \<Rightarrow> BrowserProfile list" where
  "list_browser_profiles st = newest_first (gd_browser_profiles st)"

definition list_computer_profiles :: "guard_store \<Rightarrow> ComputerExecutionProfile list" where
  "list_computer_profiles st = newest_first (gd_computer_profiles st)"

definition upsert_computer_profile :: "ComputerExecutionProfile \<Rightarrow> u64 \<Rightarrow> guard_store \<Rightarrow> guard_store" where
  "upsert_computer_profile p now st =
     st\<lparr>gd_computer_profiles := upsert_by (\<lambda>r. cx_profile_id (fst r)) (p, now) (gd_computer_profiles st)\<rparr>"

definition list_skill_packages :: "guard_store \<Rightarrow> SkillPackageManifest list" where
  "list_skill_packages st = oldest_first (gd_skill_packages st)"

definition list_skill_bindings_for_agent :: "guard_store \<Rightarrow> string \<Rightarrow> SkillBinding list" where
  "list_skill_bindings_for_agent st agent =
     sort_key (\<lambda>b. sint (sb_created_at_us b)) (filter (\<lambda>b. sb_agent_id b = agent) (gd_skill_bindings st))"

definition list_skill_activations_for_agent :: "guard_store \<Rightarrow> string \<Rightarrow> SkillActivationRecord list" where
  "list_skill_activations_for_agent st agent =
     sort_key (\<lambda>a. sint (sa_activated_at_us a)) (filter (\<lambda>a. sa_agent_id a = agent) (gd_skill_activations st))"

text \<open>The decisions for a domain and an agent; one that names no agent is not found.\<close>

definition list_domain_access_decisions :: "guard_store \<Rightarrow> string \<Rightarrow> string \<Rightarrow> DomainAccessDecision list" where
  "list_domain_access_decisions st domain agent = newest_first
     (filter (\<lambda>r. dd_domain (fst r) = domain \<and> dd_agent_id (fst r) = Some agent) (gd_decisions st))"

definition delete_domain_access_decision :: "string \<Rightarrow> guard_store \<Rightarrow> guard_store" where
  "delete_domain_access_decision k st =
     st\<lparr>gd_decisions := delete_by (\<lambda>r. dd_decision_id (fst r)) k (gd_decisions st)\<rparr>"

text \<open>The log of denials keeps the newest rows, those written first among rows of one time.\<close>

definition prune_denials :: "u32 \<Rightarrow> ScopeDenialRecord list \<Rightarrow> ScopeDenialRecord list" where
  "prune_denials limit rows = (if limit = 0 then rows
     else let old = map sd_denial_id (drop (unat limit) (sort_key (\<lambda>r. - sint (sd_created_at_us r)) rows)) in
       filter (\<lambda>r. sd_denial_id r \<notin> set old) rows)"

definition append_scope_denial :: "u32 \<Rightarrow> ScopeDenialRecord \<Rightarrow> guard_store \<Rightarrow> guard_store" where
  "append_scope_denial limit r st = (if has_key sd_denial_id (sd_denial_id r) (gd_denials st) then st
     else st\<lparr>gd_denials := prune_denials limit (gd_denials st @ [r])\<rparr>)"

section \<open>Checks\<close>

text \<open>Who calls: the profile, whether the runtime persists, the session, the principal and its paths.\<close>

record caller =
  ca_profile :: "AgentCapabilityProfile option"
  ca_persists :: bool
  ca_session_id :: "u8 list option"
  ca_principal :: string
  ca_channel :: GatewayChannel
  ca_whitelist :: "string list"
  ca_forbid :: "string list"

type_synonym check = "guard_store \<Rightarrow> (OrchestratorError, unit) result \<times> guard_store"

definition pass :: check where
  "pass st = (Ok (), st)"

definition refuse :: "OrchestratorError \<Rightarrow> check" where
  "refuse e st = (Err e, st)"

definition then_check :: "check \<Rightarrow> check \<Rightarrow> check" where
  "then_check first second st = (case first st of (Inl e, st) \<Rightarrow> (Err e, st) | (Inr _, st) \<Rightarrow> second st)"

definition with_value :: "(OrchestratorError, 'a) result \<Rightarrow> ('a \<Rightarrow> check) \<Rightarrow> check" where
  "with_value r f = (case r of Inl e \<Rightarrow> refuse e | Inr v \<Rightarrow> f v)"

text \<open>\<open>append_scope_denial_record\<close>.\<close>

definition record_denial ::
  "tool_env \<Rightarrow> u64 \<Rightarrow> bool \<Rightarrow> string \<Rightarrow> u8 list option \<Rightarrow> ScopeDenialKind \<Rightarrow> string \<Rightarrow> string \<Rightarrow> guard_store \<Rightarrow> guard_store" where
  "record_denial env now persists agent session kind target reason st = (if \<not> persists then st
     else append_scope_denial (te_denial_retention env) \<lparr>sd_denial_id = te_uid env (gd_drawn st), sd_kind = kind, sd_agent_id = agent,
       sd_session_id = session, sd_target = target, sd_reason = reason, sd_created_at_us = now\<rparr> (st\<lparr>gd_drawn := gd_drawn st + 1\<rparr>))"

text \<open>A refusal that is recorded, with the same text as reason and as error.\<close>

definition deny ::
  "tool_env \<Rightarrow> u64 \<Rightarrow> bool \<Rightarrow> string \<Rightarrow> u8 list option \<Rightarrow> ScopeDenialKind \<Rightarrow> string \<Rightarrow> string \<Rightarrow> check" where
  "deny env now persists agent session kind target reason st =
     (Err (ToolError reason), record_denial env now persists agent session kind target reason st)"

definition validate_tool_scope :: "tool_env \<Rightarrow> u64 \<Rightarrow> caller \<Rightarrow> ToolCall \<Rightarrow> check" where
  "validate_tool_scope env now ca call = (case ca_profile ca of
      None \<Rightarrow> pass
    | Some profile \<Rightarrow> (let agent = cp_agent_id profile; deny = deny env now (ca_persists ca) agent (ca_session_id ca) in
        if cp_requires_elevation profile
        then deny ElevationRequiredDenial (tl_name call)
          (''tool '' @ quoted (tl_name call) @ '' not permitted for agent '' @ quoted agent @ '' without elevation'')
        else if cp_tool_allowlist profile \<noteq> [] \<and> tl_name call \<notin> set (cp_tool_allowlist profile)
        then deny ToolAllowlistDenial (tl_name call) (''tool '' @ quoted (tl_name call) @ '' not permitted for agent '' @ quoted agent)
        else pass))"

section \<open>Delegation\<close>

definition show_u32 :: "u32 \<Rightarrow> string" where
  "show_u32 n = show_nat (unat n)"

definition parent_run :: "tool_env \<Rightarrow> caller \<Rightarrow> AgentSpawnRequest \<Rightarrow> string option" where
  "parent_run env ca request = (case as_parent_run_id request of
      Some p \<Rightarrow> Some p
    | None \<Rightarrow> map_option (\<lambda>sid. ''session:'' @ te_show_uuid env sid) (ca_session_id ca))"

definition check_fanout ::
  "tool_env \<Rightarrow> u64 \<Rightarrow> caller \<Rightarrow> AgentCapabilityProfile \<Rightarrow> DelegationScope \<Rightarrow> AgentSpawnRequest \<Rightarrow> check" where
  "check_fanout env now ca profile scope request st =
    (case (ca_persists ca, parent_run env ca request) of
       (True, Some parent) \<Rightarrow>
         if 0 < ds_max_fanout scope \<and> unat (ds_max_fanout scope) \<le> count_active_agent_runs_for_parent parent (gd_runs st)
         then deny env now (ca_persists ca) (cp_agent_id profile) (ca_session_id ca) DelegationScopeDenial parent
           (''spawn_agent exceeds max fanout '' @ show_nat (unat (ds_max_fanout scope)) @ '' for parent '' @ quoted parent) st
         else pass st
     | _ \<Rightarrow> pass st)"

definition check_delegation ::
  "tool_env \<Rightarrow> u64 \<Rightarrow> caller \<Rightarrow> AgentCapabilityProfile \<Rightarrow> DelegationScope \<Rightarrow> AgentSpawnRequest \<Rightarrow> check" where
  "check_delegation env now ca profile scope request =
    (let agent = cp_agent_id profile; child = as_agent_id request;
         deny = deny env now (ca_persists ca) agent (ca_session_id ca) DelegationScopeDenial child in
     if \<not> ds_can_spawn_children scope
     then deny (''spawn_agent not permitted for agent '' @ quoted agent @ '' because child delegation is disabled'')
     else if ds_allowed_agents scope \<noteq> [] \<and> child \<notin> set (ds_allowed_agents scope)
     then deny (''spawn_agent not permitted for child agent '' @ quoted child)
     else case as_max_runtime_seconds request of
       Some seconds \<Rightarrow>
         if 0 < ds_max_runtime_seconds scope \<and> ds_max_runtime_seconds scope < seconds
         then deny (''spawn_agent requested runtime '' @ show_u32 seconds @ ''s exceeds allowed '' @
           show_u32 (ds_max_runtime_seconds scope) @ ''s'')
         else check_fanout env now ca profile scope request
     | None \<Rightarrow> check_fanout env now ca profile scope request)"

definition validate_spawn_agent_request :: "tool_env \<Rightarrow> u64 \<Rightarrow> caller \<Rightarrow> ToolCall \<Rightarrow> check" where
  "validate_spawn_agent_request env now ca call =
    (if tl_name call \<noteq> ''spawn_agent'' then pass
     else with_value (map_err (\<lambda>e. ToolError (''Invalid args: '' @ error_text e))
         (decode_tool_args (td_spawn_agent (te_decoders env)) call)) (\<lambda>request.
       with_value (ok_or (ToolError ''spawn_agent not permitted without an active delegation scope'') (ca_profile ca)) (\<lambda>profile.
       case cp_delegation_scope profile of
         None \<Rightarrow> deny env now (ca_persists ca) (cp_agent_id profile) (ca_session_id ca) DelegationScopeDenial ''spawn_agent''
           (''spawn_agent not permitted for agent '' @ quoted (cp_agent_id profile) @ '' without delegation scope'')
       | Some scope \<Rightarrow> check_delegation env now ca profile scope request)))"

section \<open>Files and shell\<close>

definition validate_filesystem_request :: "tool_env \<Rightarrow> u64 \<Rightarrow> caller \<Rightarrow> ToolCall \<Rightarrow> check" where
  "validate_filesystem_request env now ca call = (case ca_profile ca of
      None \<Rightarrow> pass
    | Some profile \<Rightarrow> (let name = tl_name call; dec = te_decoders env;
          deny = deny env now (ca_persists ca) (cp_agent_id profile) (ca_session_id ca) FilesystemScopeDenial in
        if cp_filesystem_scopes profile = [] then pass
        else if name = ''read_file'' \<or> name = ''write_file'' then
          with_value (if name = ''read_file'' then decode_tool_args (td_path dec) call
              else map_ok wf_path (decode_tool_args (td_write_file dec) call)) (\<lambda>path.
          with_value (resolve_scoped_path (te_current_dir env) path) (\<lambda>resolved.
            if \<not> filesystem_path_allowed profile resolved (if name = ''read_file'' then ReadAction else WriteAction)
            then deny path (name @ '' not permitted for path '' @ quoted path)
            else pass))
        else if name = ''run_shell'' then
          with_value (decode_tool_args (td_run_shell dec) call) (\<lambda>request.
          with_value (ok_or (ToolError (''run_shell requires a scoped '' @ quoted ''cwd'' @ '' when filesystem scopes are active''))
              (sh_cwd request)) (\<lambda>cwd.
          with_value (resolve_scoped_path (te_current_dir env) cwd) (\<lambda>resolved_cwd.
            if \<not> filesystem_path_allowed profile resolved_cwd ExecuteAction
            then deny cwd (''run_shell not permitted for cwd '' @ quoted cwd)
            else case validate_run_shell_command_paths profile (sh_command request) of
                Inr _ \<Rightarrow> pass
              | Inl e \<Rightarrow> (\<lambda>st. (Err e, record_denial env now (ca_persists ca) (cp_agent_id profile) (ca_session_id ca)
                   FilesystemScopeDenial (sh_command request) (error_text e) st)))))
        else pass))"

section \<open>Execution profile and network\<close>

definition budget_tools :: "string list" where
  "budget_tools = [''browser_download'', ''browser_login_begin_manual'', ''browser_login_complete_manual'',
     ''browser_login_fill_credentials'', ''browser_open'', ''browser_click'', ''browser_fill'', ''browser_screenshot'',
     ''web_search'', ''web_fetch'', ''crawl_website'', ''watch_website'']"

definition trust_profile_is_untrusted :: "AgentCapabilityProfile option \<Rightarrow> bool" where
  "trust_profile_is_untrusted profile \<longleftrightarrow> Option.bind profile cp_trust_profile \<in> {Some UntrustedWeb, Some UntrustedSocial}"

definition interactive_channel :: "GatewayChannel \<Rightarrow> bool" where
  "interactive_channel c \<longleftrightarrow> c \<in> {Cli, WebSocket}"

definition validate_execution_profile :: "tool_env \<Rightarrow> u64 \<Rightarrow> caller \<Rightarrow> ToolCall \<Rightarrow> check" where
  "validate_execution_profile env now ca call = (let name = tl_name call in
     if \<not> te_browser_automation env \<and> name \<in> set budget_tools
     then refuse (ToolError (''tool '' @ quoted name @ '' is disabled by the active resource budget''))
     else case ca_profile ca of
       None \<Rightarrow> pass
     | Some profile \<Rightarrow> (let deny = deny env now (ca_persists ca) (cp_agent_id profile) (ca_session_id ca) ExecutionProfileDenial name in
         if name = ''run_shell'' \<and> trust_profile_is_untrusted (ca_profile ca) then
           with_value (decode_tool_args (td_run_shell (te_decoders env)) call) (\<lambda>request.
             if sh_os_containment request \<noteq> Some True
             then deny ''run_shell requires os_containment for untrusted agents'' else pass)
         else if name \<in> {''browser_download'', ''browser_login_begin_manual'', ''browser_login_complete_manual'',
             ''browser_login_fill_credentials''} \<and> cp_trust_profile profile = Some UntrustedSocial \<and> \<not> interactive_channel (ca_channel ca)
         then deny (''tool '' @ quoted name @ '' is blocked for untrusted social agents on channel '' @ debug_channel (ca_channel ca))
         else pass))"

definition capability_allows_external_network :: "AgentCapabilityProfile option \<Rightarrow> bool" where
  "capability_allows_external_network profile = (case profile of
      Some p \<Rightarrow> if cp_trust_profile p \<in> {Some TrustedLocal, Some TrustedWorkspace, Some RoboticsControl} then False
        else cp_side_effect_level p \<noteq> ReadOnlyEffect
    | None \<Rightarrow> True)"

definition high_risk :: "WebActionFamily \<Rightarrow> bool" where
  "high_risk family \<longleftrightarrow> family \<in> {InteractiveWriteFamily, LoginFamily, DownloadFamily}"

definition validate_network_egress_request :: "tool_env \<Rightarrow> u64 \<Rightarrow> caller \<Rightarrow> ToolCall \<Rightarrow> check" where
  "validate_network_egress_request env now ca call = (case ca_profile ca of
      None \<Rightarrow> pass
    | Some profile \<Rightarrow> with_value (extract_web_target env call) (\<lambda>target. case target of
        None \<Rightarrow> pass
      | Some (domain, family) \<Rightarrow>
         (let deny = deny env now (ca_persists ca) (cp_agent_id profile) (ca_session_id ca) NetworkEgressDenial domain in
          if high_risk family \<and> \<not> capability_allows_external_network (ca_profile ca)
          then deny (''external network egress is not permitted for agent '' @ quoted (cp_agent_id profile) @
            '' targeting '' @ quoted domain)
          else if cp_trust_profile profile = Some UntrustedSocial \<and> high_risk family \<and> \<not> interactive_channel (ca_channel ca)
          then deny (''channel '' @ debug_channel (ca_channel ca) @ '' is not allowed for high-risk web action '' @
            quoted (debug_family family) @ '' on '' @ quoted domain)
          else pass)))"

section \<open>Skills\<close>

definition validate_skill_activation_request :: "tool_env \<Rightarrow> u64 \<Rightarrow> caller \<Rightarrow> ToolCall \<Rightarrow> check" where
  "validate_skill_activation_request env now ca call st = (let name = tl_name call; dec = te_decoders env in
     if name \<notin> {''activate_skill'', ''execute_skill''} then pass st
     else with_value (if name = ''activate_skill'' then map_ok av_skill_id (decode_tool_args (td_activate_skill dec) call)
         else map_ok xs_skill_id (decode_tool_args (td_execute_skill dec) call)) (\<lambda>skill_id.
       with_value (ok_or (ToolError (name @ '' not permitted without an active capability profile'')) (ca_profile ca)) (\<lambda>profile.
       let deny = deny env now (ca_persists ca) (cp_agent_id profile) None SkillScopeDenial skill_id in
       if cp_skill_allowlist profile \<noteq> [] \<and> skill_id \<notin> set (cp_skill_allowlist profile)
       then deny (name @ '' not permitted for skill '' @ quoted skill_id)
       else if \<not> ca_persists ca then refuse (ToolError (name @ '' requires runtime persistence''))
       else case List.find (\<lambda>m. sk_skill_id m = skill_id) (list_skill_packages st) of
         None \<Rightarrow> refuse (ToolError (name @ '' unknown skill '' @ quoted skill_id))
       | Some manifest \<Rightarrow>
         if \<not> sk_enabled manifest
         then refuse (ToolError (name @ '' denied because skill '' @ quoted skill_id @ '' is disabled''))
         else if \<not> list_ex (\<lambda>b. sb_skill_id b = skill_id) (list_skill_bindings_for_agent st (cp_agent_id profile))
         then deny (name @ '' not permitted because skill '' @ quoted skill_id @ '' is not bound to agent '' @ quoted (cp_agent_id profile))
         else if name = ''execute_skill'' \<and> sk_wasm_module_ref manifest = None
         then refuse (ToolError (''execute_skill skill '' @ quoted skill_id @ '' has no wasm_module_ref''))
         else if name = ''execute_skill'' \<and> \<not> list_ex (\<lambda>a. sa_skill_id a = skill_id \<and> sa_active a)
             (list_skill_activations_for_agent st (cp_agent_id profile))
         then deny (''execute_skill not permitted because skill '' @ quoted skill_id @ '' is not active for agent '' @ quoted (cp_agent_id profile))
         else pass)) st)"

section \<open>MCP\<close>

definition check_mcp_import ::
  "tool_env \<Rightarrow> u64 \<Rightarrow> caller \<Rightarrow> string \<Rightarrow> string \<Rightarrow> ScopeDenialKind \<Rightarrow> McpPrimitiveKind
    \<Rightarrow> (McpRegistry \<Rightarrow> AgentCapabilityProfile \<Rightarrow> string \<Rightarrow> string \<Rightarrow> bool) \<Rightarrow> string \<Rightarrow> string \<Rightarrow> check" where
  "check_mcp_import env now ca name what kind primitive allowed server target st =
    (let key = server @ ''::'' @ target;
         bound = (if mcp_binding_exists (gd_mcp st) (ca_principal ca) server primitive target then pass
           else deny env now True (ca_principal ca) None kind key
             (name @ '' not permitted because binding is missing for '' @ quoted key)) in
     if \<not> ca_persists ca then refuse (ToolError (name @ '' requires runtime persistence'')) st
     else case ca_profile ca of
       None \<Rightarrow> bound st
     | Some profile \<Rightarrow> with_value (map_err ToolError (load_mcp_registry_from_store (gd_mcp st))) (\<lambda>registry.
         if \<not> allowed registry profile server target
         then deny env now True (cp_agent_id profile) None kind key (name @ '' not permitted for imported '' @ what @ '' '' @ quoted key)
         else bound) st)"

definition validate_mcp_tool_request :: "tool_env \<Rightarrow> u64 \<Rightarrow> caller \<Rightarrow> ToolCall \<Rightarrow> check" where
  "validate_mcp_tool_request env now ca call =
    (if tl_name call \<noteq> ''invoke_mcp_tool'' then pass
     else with_value (decode_tool_args (td_invoke_mcp_tool (te_decoders env)) call) (\<lambda>r.
       check_mcp_import env now ca ''invoke_mcp_tool'' ''tool'' McpToolScopeDenial ToolPrimitive tool_allowed_for_agent
         (iv_server_id r) (iv_tool_name r)))"

definition validate_mcp_prompt_request :: "tool_env \<Rightarrow> u64 \<Rightarrow> caller \<Rightarrow> ToolCall \<Rightarrow> check" where
  "validate_mcp_prompt_request env now ca call =
    (if tl_name call \<noteq> ''render_mcp_prompt'' then pass
     else with_value (decode_tool_args (td_render_mcp_prompt (te_decoders env)) call) (\<lambda>r.
       check_mcp_import env now ca ''render_mcp_prompt'' ''prompt'' McpPromptScopeDenial PromptPrimitive prompt_allowed_for_agent
         (rn_server_id r) (rn_prompt_name r)))"

definition validate_mcp_resource_request :: "tool_env \<Rightarrow> u64 \<Rightarrow> caller \<Rightarrow> ToolCall \<Rightarrow> check" where
  "validate_mcp_resource_request env now ca call =
    (if tl_name call \<noteq> ''read_mcp_resource'' then pass
     else with_value (decode_tool_args (td_read_mcp_resource (te_decoders env)) call) (\<lambda>r.
       case ca_profile ca of
         Some profile \<Rightarrow>
           if cp_retrieval_scopes profile \<noteq> [] \<and> McpResourceScope \<notin> set (cp_retrieval_scopes profile)
           then deny env now (ca_persists ca) (cp_agent_id profile) None RetrievalScopeDenial (rd_server_id r @ ''::'' @ rd_resource_uri r)
             ''read_mcp_resource not permitted without MCP resource retrieval scope''
           else check_mcp_import env now ca ''read_mcp_resource'' ''resource'' McpResourceScopeDenial ResourcePrimitive
             resource_allowed_for_agent (rd_server_id r) (rd_resource_uri r)
       | None \<Rightarrow> check_mcp_import env now ca ''read_mcp_resource'' ''resource'' McpResourceScopeDenial ResourcePrimitive
             resource_allowed_for_agent (rd_server_id r) (rd_resource_uri r)))"

end
