(* ===== verification/ToolPolicy.thy ===== *)
theory ToolPolicy
  imports ToolGuards Policy WorkspaceLock
begin

text \<open>The guards of browser, computer and web tools, the two passes through the Cedar policy, the content firewall,
  and the executor that runs a call behind all of them (\<open>aria-x/src/tools.rs\<close>, \<open>browser.rs\<close>, \<open>computer.rs\<close>,
  \<open>aria-safety/src/lib.rs\<close>).\<close>

section \<open>Browser\<close>

definition browser_profile_by_id :: "guard_store \<Rightarrow> string \<Rightarrow> (OrchestratorError, BrowserProfile) result" where
  "browser_profile_by_id st k = ok_or (ToolError (''browser profile '' @ quoted k @ '' does not exist''))
     (List.find (\<lambda>p. bp_profile_id p = k) (list_browser_profiles st))"

fun transport_of_mode :: "BrowserProfileMode \<Rightarrow> BrowserTransportKind" where
  "transport_of_mode EphemeralMode = ManagedBrowser"
| "transport_of_mode ManagedPersistentMode = ManagedBrowser"
| "transport_of_mode AttachedExternalMode = AttachedBrowser"
| "transport_of_mode ExtensionBoundMode = ExtensionBrowser"

definition browser_transport_kind_for_profile :: "BrowserProfile \<Rightarrow> BrowserTransportKind" where
  "browser_transport_kind_for_profile p = transport_of_mode (bp_mode p)"

definition validate_browser_profile_request :: "tool_env \<Rightarrow> u64 \<Rightarrow> caller \<Rightarrow> ToolCall \<Rightarrow> check" where
  "validate_browser_profile_request env now ca call st =
    with_value (extract_browser_profile_target env call) (\<lambda>target. case (target, ca_profile ca) of
       (Some pid, Some profile) \<Rightarrow>
         (let deny = deny env now (ca_persists ca) (cp_agent_id profile) (ca_session_id ca) BrowserProfileScopeDenial pid in
          if cp_browser_profile_allowlist profile \<noteq> [] \<and> pid \<notin> set (cp_browser_profile_allowlist profile)
          then deny (''browser profile '' @ quoted pid @ '' not permitted for agent '' @ quoted (cp_agent_id profile))
          else if \<not> ca_persists ca then pass
          else with_value (browser_profile_by_id st pid) (\<lambda>bp. let transport = browser_transport_kind_for_profile bp in
            if cp_web_transport_allowlist profile \<noteq> [] \<and> transport \<notin> set (cp_web_transport_allowlist profile)
            then deny (''browser transport '' @ quoted (debug_transport transport) @ '' for profile '' @ quoted pid @
              '' not permitted for agent '' @ quoted (cp_agent_id profile))
            else pass))
     | _ \<Rightarrow> pass) st"

fun browser_action_allowed :: "BrowserActionScope option \<Rightarrow> BrowserInteractionKind \<Rightarrow> bool" where
  "browser_action_allowed (Some DiscoverOnly) _ = False"
| "browser_action_allowed (Some ReadOnlyBrowsing) a = (a \<in> {WaitFor, Navigate})"
| "browser_action_allowed (Some InteractiveNonAuth) a = (a \<in> {WaitFor, Navigate, Scroll, Click})"
| "browser_action_allowed (Some InteractiveAuth) _ = True"
| "browser_action_allowed (Some DownloadScope) a = (a \<in> {WaitFor, Navigate})"
| "browser_action_allowed (Some SubmitWrite) _ = True"
| "browser_action_allowed None _ = True"

definition validate_browser_action_request :: "tool_env \<Rightarrow> u64 \<Rightarrow> caller \<Rightarrow> ToolCall \<Rightarrow> check" where
  "validate_browser_action_request env now ca call =
    with_value (extract_browser_action_request env call) (\<lambda>request. case (request, ca_profile ca) of
       (Some r, Some profile) \<Rightarrow>
         if \<not> browser_action_allowed (cp_browser_action_scope profile) (br_action r)
         then deny env now (ca_persists ca) (cp_agent_id profile) (ca_session_id ca) BrowserActionScopeDenial
           (debug_interaction (br_action r))
           (''browser action '' @ quoted (debug_interaction (br_action r)) @ '' not permitted for agent '' @ quoted (cp_agent_id profile))
         else if br_action r \<in> {Click, TypeText, SelectOption} then refuse (approval_required_error (tl_name call))
         else pass
     | _ \<Rightarrow> pass)"

section \<open>Computer\<close>

definition local_computer_profile :: "string \<Rightarrow> string \<Rightarrow> bool \<Rightarrow> u64 \<Rightarrow> ComputerExecutionProfile" where
  "local_computer_profile k name allowed now = \<lparr>cx_profile_id = k, cx_display_name = name, cx_runtime_kind = LocalDesktop,
     cx_isolated = False, cx_headless = False, cx_allow_clipboard = allowed, cx_allow_keyboard = allowed,
     cx_allow_pointer = allowed, cx_allowed_windows = [], cx_created_at_us = now\<rparr>"

definition default_local_computer_profiles :: "u64 \<Rightarrow> ComputerExecutionProfile list" where
  "default_local_computer_profiles now = [local_computer_profile ''desktop-safe'' ''Desktop Safe'' True now,
     local_computer_profile ''desktop-observe'' ''Desktop Observe'' False now]"

definition ensure_default_computer_profiles :: "u64 \<Rightarrow> guard_store \<Rightarrow> ComputerExecutionProfile list \<times> guard_store" where
  "ensure_default_computer_profiles now st = (case list_computer_profiles st of
      [] \<Rightarrow> (let defaults = default_local_computer_profiles now in
        (defaults, foldl (\<lambda>st p. upsert_computer_profile p now st) st defaults))
    | existing \<Rightarrow> (existing, st))"

definition resolve_computer_profile ::
  "u64 \<Rightarrow> string option \<Rightarrow> guard_store \<Rightarrow> (string, ComputerExecutionProfile) result \<times> guard_store" where
  "resolve_computer_profile now pid st = (let (profiles, st) = ensure_default_computer_profiles now st in
     ((case Option.bind pid (\<lambda>p. if trim_ws p \<noteq> [] then Some (trim_ws p) else None) of
         Some pid \<Rightarrow> ok_or (''computer profile '' @ quoted pid @ '' not found'') (List.find (\<lambda>p. cx_profile_id p = pid) profiles)
       | None \<Rightarrow> ok_or ''no computer profiles are configured''
           (case List.find (\<lambda>p. cx_profile_id p = ''desktop-safe'') profiles of
              Some p \<Rightarrow> Some p | None \<Rightarrow> (case profiles of p # _ \<Rightarrow> Some p | [] \<Rightarrow> None))), st))"

definition validate_computer_profile_request ::
  "tool_env \<Rightarrow> u64 \<Rightarrow> AgentCapabilityProfile option \<Rightarrow> ComputerExecutionProfile \<Rightarrow> bool \<Rightarrow> u8 list option \<Rightarrow> check" where
  "validate_computer_profile_request env now profile cx persists session = (case profile of
      None \<Rightarrow> pass
    | Some agent \<Rightarrow>
        if cp_computer_profile_allowlist agent \<noteq> [] \<and> cx_profile_id cx \<notin> set (cp_computer_profile_allowlist agent)
        then deny env now persists (cp_agent_id agent) session ComputerProfileScopeDenial (cx_profile_id cx)
          (''computer profile '' @ quoted (cx_profile_id cx) @ '' not permitted for agent '' @ quoted (cp_agent_id agent))
        else pass)"

fun computer_action_allowed :: "ComputerActionScope option \<Rightarrow> ComputerActionKind \<Rightarrow> bool" where
  "computer_action_allowed (Some ObserveOnly) a = (a \<in> {CaptureScreenshot, ClipboardRead})"
| "computer_action_allowed (Some PointerOnly) a = (a \<in> {PointerMove, PointerClick, CaptureScreenshot})"
| "computer_action_allowed (Some PointerAndKeyboard) a =
     (a \<in> {PointerMove, PointerClick, KeyboardType, KeyPress, CaptureScreenshot})"
| "computer_action_allowed (Some ClipboardReadScope) a = (a \<in> {ClipboardRead, CaptureScreenshot})"
| "computer_action_allowed (Some ClipboardReadWrite) a = (a \<in> {ClipboardRead, ClipboardWrite, CaptureScreenshot})"
| "computer_action_allowed (Some FullDesktopControl) _ = True"
| "computer_action_allowed None _ = True"

definition validate_computer_action_request ::
  "tool_env \<Rightarrow> u64 \<Rightarrow> AgentCapabilityProfile option \<Rightarrow> ComputerActionRequest \<Rightarrow> ComputerExecutionProfile \<Rightarrow> bool
    \<Rightarrow> u8 list option \<Rightarrow> check" where
  "validate_computer_action_request env now profile request cx persists session = (case profile of
      None \<Rightarrow> pass
    | Some agent \<Rightarrow> (let a = cq_action request; lacks = (\<lambda>what. refuse (ToolError (''computer profile '' @
          quoted (cx_profile_id cx) @ '' does not allow '' @ what))) in
        if \<not> computer_action_allowed (cp_computer_action_scope agent) a
        then deny env now persists (cp_agent_id agent) session ComputerActionScopeDenial (debug_computer_action a)
          (''computer action '' @ quoted (debug_computer_action a) @ '' not permitted for agent '' @ quoted (cp_agent_id agent))
        else if a \<in> {PointerMove, PointerClick} \<and> \<not> cx_allow_pointer cx then lacks ''pointer control''
        else if a \<in> {KeyboardType, KeyPress} \<and> \<not> cx_allow_keyboard cx then lacks ''keyboard input''
        else if a \<in> {ClipboardRead, ClipboardWrite} \<and> \<not> cx_allow_clipboard cx then lacks ''clipboard access''
        else pass))"

definition computer_action_requires_approval :: "ComputerActionKind \<Rightarrow> bool" where
  "computer_action_requires_approval a \<longleftrightarrow> a \<in> {PointerClick, KeyboardType, KeyPress, ClipboardWrite, WindowFocus}"

text \<open>A check after a computation that reads and writes the tables and may fail.\<close>

definition with_stored ::
  "(guard_store \<Rightarrow> (string, 'a) result \<times> guard_store) \<Rightarrow> ('a \<Rightarrow> check) \<Rightarrow> check" where
  "with_stored compute f st = (case compute st of (Inl e, st) \<Rightarrow> (Err (ToolError e), st) | (Inr v, st) \<Rightarrow> f v st)"

definition validate_computer_platform_request :: "tool_env \<Rightarrow> u64 \<Rightarrow> caller \<Rightarrow> ToolCall \<Rightarrow> check" where
  "validate_computer_platform_request env now ca call =
    with_value (extract_computer_action_request env call) (\<lambda>request. case request of
       None \<Rightarrow> with_value (extract_computer_profile_target env call) (\<lambda>target. case target of
           None \<Rightarrow> pass
         | Some pid \<Rightarrow>
             if ca_profile ca \<noteq> None \<and> ca_persists ca
             then with_stored (resolve_computer_profile now (Some pid)) (\<lambda>cx.
               validate_computer_profile_request env now (ca_profile ca) cx True (ca_session_id ca))
             else pass)
     | Some r \<Rightarrow>
         if \<not> ca_persists ca then pass
         else with_stored (resolve_computer_profile now (cq_profile_id r)) (\<lambda>cx.
           then_check (validate_computer_profile_request env now (ca_profile ca) cx True (ca_session_id ca))
             (then_check (validate_computer_action_request env now (ca_profile ca) r cx True (ca_session_id ca))
               (if computer_action_requires_approval (cq_action r) then refuse (approval_required_error (tl_name call)) else pass))))"

section \<open>Web access\<close>

definition decision_applies :: "WebActionFamily \<Rightarrow> u64 \<Rightarrow> u8 list option \<Rightarrow> DomainAccessDecision \<Rightarrow> bool" where
  "decision_applies family now session d \<longleftrightarrow> dd_action_family d = family
     \<and> (case dd_expires_at_us d of Some t \<Rightarrow> \<not> t \<le> now | None \<Rightarrow> True)
     \<and> (case dd_session_id d of Some sid \<Rightarrow> Some sid = session | None \<Rightarrow> True)
     \<and> (dd_decision d = AllowForSession \<longrightarrow> dd_session_id d \<noteq> None \<and> dd_session_id d = session)"

definition resolve_domain_access_decision ::
  "u64 \<Rightarrow> bool \<Rightarrow> AgentCapabilityProfile \<Rightarrow> string \<Rightarrow> WebActionFamily \<Rightarrow> u8 list option \<Rightarrow> guard_store
    \<Rightarrow> DomainDecisionKind option \<times> guard_store" where
  "resolve_domain_access_decision now persists profile domain family session st = (if \<not> persists then (None, st)
     else case List.find (decision_applies family now session) (sort_key (\<lambda>d. - uint (dd_created_at_us d))
         (list_domain_access_decisions st domain (cp_agent_id profile))) of
       None \<Rightarrow> (None, st)
     | Some d \<Rightarrow> (Some (dd_decision d),
         if dd_decision d \<in> {AllowOnce, DenyOnce} then delete_domain_access_decision (dd_decision_id d) st else st))"

definition check_domain :: "tool_env \<Rightarrow> u64 \<Rightarrow> caller \<Rightarrow> ToolCall \<Rightarrow> AgentCapabilityProfile \<Rightarrow> string \<Rightarrow> WebActionFamily \<Rightarrow> check" where
  "check_domain env now ca call profile domain family st =
    (let agent = cp_agent_id profile; deny = deny env now (ca_persists ca) agent (ca_session_id ca) DomainPolicyDenial domain in
     if list_ex (domain_matches_rule domain) (cp_web_domain_blocklist profile)
     then deny (''web access to domain '' @ quoted domain @ '' is blocked for agent '' @ quoted agent) st
     else if list_ex (domain_matches_rule domain) (cp_web_domain_allowlist profile) then pass st
     else case resolve_domain_access_decision now (ca_persists ca) profile domain family (ca_session_id ca) st of
       (Some decision, st) \<Rightarrow>
         if decision \<in> {AllowOnce, AllowForSession, AllowAlways} then pass st
         else deny (''web access to domain '' @ quoted domain @ '' is denied by stored policy for agent '' @ quoted agent) st
     | (None, st) \<Rightarrow>
         if cp_web_approval_policy profile \<in> {Some PromptOnUnknownDomain, Some RequireApprovalAlways}
         then refuse (approval_required_error (tl_name call)) st
         else pass st)"

definition validate_web_request :: "tool_env \<Rightarrow> u64 \<Rightarrow> caller \<Rightarrow> ToolCall \<Rightarrow> check" where
  "validate_web_request env now ca call =
    with_value (extract_web_target env call) (\<lambda>target. case target of
       None \<Rightarrow> pass
     | Some (domain, family) \<Rightarrow>
         with_value (if tl_name call \<in> set url_tools
             then and_then (call_url env call) (\<lambda>u. map_ok (\<lambda>_. ()) (validate_web_url_target_syntactic (te_parse_url env) u
               (profile_allows_private_network_targets (te_private_override env) (ca_profile ca))))
             else Ok ()) (\<lambda>_.
           case ca_profile ca of None \<Rightarrow> pass | Some profile \<Rightarrow> check_domain env now ca call profile domain family))"

section \<open>Cedar\<close>

definition blast_radius :: "AgentCapabilityProfile option \<Rightarrow> u32" where
  "blast_radius profile = (case map_option cp_side_effect_level profile of
      Some ReadOnlyEffect \<Rightarrow> 0 | Some ExternalFetch \<Rightarrow> 1 | Some StatefulWrite \<Rightarrow> 2 | Some PrivilegedEffect \<Rightarrow> 3 | None \<Rightarrow> 1)"

definition platform_prefixes :: "string list" where
  "platform_prefixes = [''domain/'', ''browser_profile/'', ''browser_action/'', ''computer_profile/'', ''computer_action/'', ''crawl_scope/'']"

definition build_policy_eval_context :: "caller \<Rightarrow> EvalContext" where
  "build_policy_eval_context ca = \<lparr>ec_channel = debug_channel (ca_channel ca), ec_blast_radius = blast_radius (ca_profile ca),
     ec_prompt_origin = ca_principal ca,
     ec_whitelist = foldl (\<lambda>ws p. if p \<in> set ws then ws else ws @ [p]) (ca_whitelist ca) platform_prefixes,
     ec_forbid = ca_forbid ca\<rparr>"

definition sensitive_tool_actions :: "string list" where
  "sensitive_tool_actions = [''run_shell'', ''write_file'', ''set_domain_access_decision'', ''grant_access'', ''manage_prompts'',
     ''manage_cron'', ''browser_download'', ''browser_session_persist_state'', ''browser_session_restore_state'',
     ''browser_login_begin_manual'', ''browser_login_complete_manual'', ''browser_login_fill_credentials'']"

fun policy_error_text :: "PolicyError \<Rightarrow> string" where
  "policy_error_text (PolicyParseError e) = ''policy parse error: '' @ e"
| "policy_error_text (EvaluationError e) = ''evaluation error: '' @ e"
| "policy_error_text (EntityError e) = ''entity error: '' @ e"
| "policy_error_text (AstParseError e) = ''ast parse error: '' @ e"

definition evaluate_cedar_decision where
  "evaluate_cedar_decision cd policies who action resource path ctx tool =
    and_then (map_err (\<lambda>e. ToolError (''policy evaluation failed: '' @ policy_error_text e))
      (evaluate_with_context_and_path_tristate cd policies who action resource path ctx sensitive_tool_actions)) (\<lambda>decision.
     case decision of
       Allow \<Rightarrow> Ok ()
     | Deny \<Rightarrow> Err (ToolError (''policy denied action '' @ quoted action @ '' on resource '' @ quoted resource))
     | AskUser \<Rightarrow> Err (approval_required_error tool))"

fun domain_action :: "WebActionFamily \<Rightarrow> string" where
  "domain_action FetchFamily = ''web_domain_fetch''" | "domain_action CrawlFamily = ''web_domain_crawl''"
| "domain_action ScreenshotFamily = ''web_domain_screenshot''" | "domain_action InteractiveReadFamily = ''web_domain_interactive_read''"
| "domain_action InteractiveWriteFamily = ''web_domain_interactive_write''" | "domain_action LoginFamily = ''web_domain_login''"
| "domain_action DownloadFamily = ''web_domain_download''"

definition underscored :: "char set \<Rightarrow> string \<Rightarrow> string" where
  "underscored cs s = map (\<lambda>c. if c \<in> cs then CHR ''_'' else c) s"

definition if_some :: "'a option \<Rightarrow> ('a \<Rightarrow> (OrchestratorError, unit) result) \<Rightarrow> (OrchestratorError, unit) result" where
  "if_some target f = (case target of None \<Rightarrow> Ok () | Some v \<Rightarrow> f v)"

definition validate_cedar_web_platform_request where
  "validate_cedar_web_platform_request cd policies env ca call =
    (let ctx = build_policy_eval_context ca;
         ask = (\<lambda>action resource path. evaluate_cedar_decision cd policies (ca_principal ca) action resource path ctx (tl_name call));
         dots = {CHR ''.'', CHR ''-''} in
     and_then (and_then (extract_web_target env call) (\<lambda>target. if_some target (\<lambda>(domain, family).
       ask (domain_action family) (''web_domain_'' @ underscored dots domain) (''domain/'' @ domain)))) (\<lambda>_.
     and_then (and_then (extract_browser_profile_target env call) (\<lambda>target. if_some target (\<lambda>pid.
       ask ''browser_profile_access'' (''browser_profile_'' @ underscored dots pid) (''browser_profile/'' @ pid)))) (\<lambda>_.
     and_then (and_then (extract_browser_action_request env call) (\<lambda>request. if_some request (\<lambda>r.
       ask ''browser_action_access'' (to_lower (''browser_action_'' @ debug_interaction (br_action r)))
         (to_lower (''browser_action/'' @ debug_interaction (br_action r)))))) (\<lambda>_.
     if tl_name call \<in> {''crawl_page'', ''crawl_site''} then
       and_then (decode_tool_args (td_crawl (te_decoders env)) call) (\<lambda>r.
         let scope = (if tl_name call = ''crawl_page'' then SinglePage
               else case cr_scope r of Some s \<Rightarrow> s | None \<Rightarrow> SameOrigin) in
         ask ''crawl_scope_access'' (to_lower (''crawl_scope_'' @ debug_crawl_scope scope))
           (to_lower (''crawl_scope/'' @ debug_crawl_scope scope)))
     else Ok ()))))"

definition validate_cedar_computer_request where
  "validate_cedar_computer_request cd policies env ca call =
    (let ctx = build_policy_eval_context ca;
         ask = (\<lambda>action resource path. evaluate_cedar_decision cd policies (ca_principal ca) action resource path ctx (tl_name call)) in
     and_then (and_then (extract_computer_profile_target env call) (\<lambda>target. if_some target (\<lambda>pid.
       ask ''computer_profile_access'' (''computer_profile_'' @ underscored {CHR ''.'', CHR ''-'', CHR ''/'', CHR '':''} pid)
         (''computer_profile/'' @ pid)))) (\<lambda>_.
     and_then (extract_computer_action_request env call) (\<lambda>request. if_some request (\<lambda>r.
       ask ''computer_action_access'' (to_lower (''computer_action_'' @ debug_computer_action (cq_action r)))
         (to_lower (''computer_action/'' @ debug_computer_action (cq_action r)))))))"

section \<open>The call as the policy sees it\<close>

definition normalize_mcp_endpoint_for_policy :: "string \<Rightarrow> string" where
  "normalize_mcp_endpoint_for_policy endpoint = (let trimmed = trim_ws endpoint; parts = split_whitespace trimmed in
     if trimmed = [] then endpoint
     else if 2 \<le> length parts then
       (let candidate = trim_pred (\<lambda>c. c = CHR 0x22 \<or> c = CHR 0x27) (last parts) in
        if starts_with ''/'' candidate \<or> starts_with ''./'' candidate \<or> starts_with ''../'' candidate \<or> ends_with ''.sh'' candidate
        then candidate else trimmed)
     else trimmed)"

definition policy_value :: "tool_env \<Rightarrow> string \<Rightarrow> string \<times> json \<Rightarrow> string" where
  "policy_value env name = (\<lambda>(k, v). case as_str v of
      None \<Rightarrow> te_print env v
    | Some s \<Rightarrow>
        if name \<in> {''read_file'', ''write_file''} \<and> k = ''path'' \<or> name = ''run_shell'' \<and> k = ''cwd''
        then (case resolve_scoped_path (te_current_dir env) s of Inr p \<Rightarrow> display_path p | Inl _ \<Rightarrow> s)
        else if name = ''register_mcp_server'' \<and> k = ''endpoint'' then normalize_mcp_endpoint_for_policy s
        else s)"

definition policy_argument :: "tool_env \<Rightarrow> string \<Rightarrow> string \<times> json \<Rightarrow> string" where
  "policy_argument env name kv =
     fst kv @ ''='' @ [CHR 0x22] @ replace_all [CHR 0x22] [CHR 0x5C, CHR 0x22] (policy_value env name kv) @ [CHR 0x22]"

definition to_ast_call :: "tool_env \<Rightarrow> ToolCall \<Rightarrow> string" where
  "to_ast_call env call = tl_name call @ ''('' @ join_with '', ''
     (case decode_tool_args (td_json (te_decoders env)) call of
        Inr (JObject members) \<Rightarrow> map (policy_argument env (tl_name call)) members
      | _ \<Rightarrow> []) @ '')''"

definition policy_gate where
  "policy_gate cd policies env ca call =
    and_then (map_err (\<lambda>e. ToolError (''policy AST parse failed: '' @ policy_error_text e)) (parse_ast_action (to_ast_call env call))) (\<lambda>parsed.
    and_then (map_err (\<lambda>e. ToolError (''policy evaluation failed: '' @ policy_error_text e))
      (evaluate_with_context_tristate cd policies (ca_principal ca) (pa_action parsed) (pa_resource parsed)
        (build_policy_eval_context ca) sensitive_tool_actions)) (\<lambda>decision.
     case decision of
       Deny \<Rightarrow> Err (ToolError (''tool '' @ quoted (pa_action parsed) @ '' denied by policy for resource '' @ quoted (pa_resource parsed)))
     | AskUser \<Rightarrow> Err (approval_required_error (tl_name call))
     | Allow \<Rightarrow> Ok ()))"

section \<open>Content firewall\<close>

datatype ScanResult = Clean | Alert "string list"

text \<open>\<open>find_iter\<close> is the Aho-Corasick matcher: the indices of the patterns it finds in a text.\<close>

record DfaFirewall =
  fw_find_iter :: "string \<Rightarrow> nat list"
  fw_patterns :: "string list"

definition scan_text :: "DfaFirewall \<Rightarrow> string \<Rightarrow> ScanResult" where
  "scan_text fw text = (let alerts = foldl (\<lambda>alerts i. let p = fw_patterns fw ! i in
       if p \<in> set alerts then alerts else alerts @ [p]) [] (fw_find_iter fw text) in
     if alerts = [] then Clean else Alert alerts)"

definition tool_returns_web_content :: "ToolCall \<Rightarrow> bool" where
  "tool_returns_web_content call \<longleftrightarrow>
     tl_name call \<in> {''search_web'', ''fetch_url'', ''web_fetch'', ''web_extract'', ''browser_extract''}
   \<or> starts_with ''browser_'' (tl_name call) \<or> starts_with ''crawl_'' (tl_name call) \<or> starts_with ''watch_'' (tl_name call)"

fun alerts_of :: "ScanResult \<Rightarrow> string list" where
  "alerts_of Clean = []"
| "alerts_of (Alert found) = found"

definition scan_web_tool_result ::
  "tool_env \<Rightarrow> u64 \<Rightarrow> caller \<Rightarrow> DfaFirewall \<Rightarrow> ToolCall \<Rightarrow> ToolExecutionResult \<Rightarrow> check" where
  "scan_web_tool_result env now ca fw call r st =
    (if \<not> tool_returns_web_content call then pass st
     else let summary = alerts_of (scan_text fw (render_for_prompt r));
              payload = alerts_of (scan_text fw (te_print env (as_provider_payload r)));
              alerts = foldl (\<lambda>alerts item. if item \<in> set alerts then alerts else alerts @ [item]) summary payload in
       if alerts = [] then pass st
       else (Err (ToolError (''web tool output blocked by firewall for '' @ quoted (tl_name call))),
         case ca_profile ca of
           None \<Rightarrow> st
         | Some profile \<Rightarrow> record_denial env now (ca_persists ca) (cp_agent_id profile) (ca_session_id ca) ContentFirewallDenial (tl_name call)
             (''web tool output blocked by firewall for '' @ quoted (tl_name call) @ ''; matched patterns: '' @ join_with '', '' alerts) st))"

section \<open>The executor\<close>

definition resolve_workspace_lock_key :: "(string \<Rightarrow> string option) \<Rightarrow> string \<Rightarrow> string list \<Rightarrow> string" where
  "resolve_workspace_lock_key canonicalize agent whitelist =
    (let roots = remdups_adj (sort (map (\<lambda>root. case canonicalize root of Some r \<Rightarrow> r | None \<Rightarrow> root) whitelist)) in
     if roots = [] then ''agent:'' @ agent @ '':workspace:default'' else ''workspace:'' @ join_with ''|'' roots)"

definition tool_requires_workspace_lock :: "string \<Rightarrow> bool" where
  "tool_requires_workspace_lock name \<longleftrightarrow> name \<in> {''write_file'', ''edit_file'', ''execute_file'', ''run_shell'', ''spawn_agent'',
     ''browser_fill'', ''browser_click'', ''browser_login_begin_manual'', ''browser_login_complete_manual'',
     ''browser_login_fill_credentials'', ''install_skill_package'', ''activate_skill_binding'', ''register_mcp_server'',
     ''manage_browser_profile''}"

text \<open>All checks before the tool runs, in their order.\<close>

definition scope_checks :: "tool_env \<Rightarrow> u64 \<Rightarrow> caller \<Rightarrow> ToolCall \<Rightarrow> check list" where
  "scope_checks env now ca call = map (\<lambda>validate. validate env now ca call)
     [validate_tool_scope, validate_spawn_agent_request, validate_filesystem_request, validate_execution_profile,
      validate_network_egress_request, validate_skill_activation_request, validate_mcp_tool_request,
      validate_mcp_prompt_request, validate_mcp_resource_request, validate_browser_profile_request,
      validate_browser_action_request, validate_computer_platform_request, validate_web_request]"

definition all_checks where
  "all_checks cd policies env now ca call = foldr then_check (scope_checks env now ca call)
     (with_value (validate_cedar_web_platform_request cd policies env ca call) (\<lambda>_.
      with_value (validate_cedar_computer_request cd policies env ca call) (\<lambda>_.
      with_value (policy_gate cd policies env ca call) (\<lambda>_. pass))))"

text \<open>The tool itself is a function of its call, the outside world and the tables; \<open>lock\<close> is the answer of the workspace
  lock.\<close>

definition execute where
  "execute cd policies env now ca fw lock tool call w st =
    (let call = normalize_tool_alias_call env call in
     case all_checks cd policies env now ca call st of
       (Inl e, st) \<Rightarrow> (Err e, w, st)
     | (Inr _, st) \<Rightarrow> (case (if tool_requires_workspace_lock (tl_name call) then lock else Ok ()) of
         Inl e \<Rightarrow> (Err e, w, st)
       | Inr _ \<Rightarrow> (case tool call w st of
           (Inl e, w, st) \<Rightarrow> (Err e, w, st)
         | (Inr r, w, st) \<Rightarrow> (case fw of
             None \<Rightarrow> (Ok r, w, st)
           | Some fw \<Rightarrow> (case scan_web_tool_result env now ca fw call r st of
               (Inl e, st) \<Rightarrow> (Err e, w, st)
             | (Inr _, st) \<Rightarrow> (Ok r, w, st))))))"

end
