(* ===== verification/ToolGuardLaws.thy ===== *)
theory ToolGuardLaws
  imports ToolPolicy McpStoreLaws
begin

text \<open>What the guards guarantee: a call that reaches its tool satisfies every scope of the profile and the policy, the
  sensitive tools never run behind the executor, and where the guards let through more than they mean to.\<close>

section \<open>Checks in sequence\<close>

named_theorems check_simps

lemma check_basic [check_simps, simp]:
  "pass st = (Ok (), st)" "refuse e st = (Err e, st)"
  "with_value (Ok v) f = f v" "with_value (Err e) f = refuse e"
  by (simp_all add: pass_def refuse_def with_value_def)

lemma with_value_Ok_iff: "with_value r f st = (Ok u, st') \<longleftrightarrow> (\<exists>v. r = Ok v \<and> f v st = (Ok u, st'))"
  by (cases r) auto

lemma then_check_Ok_iff: "then_check c d st = (Ok u, st') \<longleftrightarrow> (\<exists>v s. c st = (Ok v, s) \<and> d s = (Ok u, st'))"
  by (auto simp: then_check_def split: prod.splits sum.splits)

lemma deny_not_Ok [simp]: "deny env now persists agent session kind target reason st \<noteq> (Ok u, st')"
  by (simp add: deny_def)

text \<open>The tables that no check writes.\<close>

definition read_only :: "guard_store \<Rightarrow> guard_store \<Rightarrow> bool" where
  "read_only st st' \<longleftrightarrow> gd_runs st' = gd_runs st \<and> gd_mcp st' = gd_mcp st \<and> gd_browser_profiles st' = gd_browser_profiles st
     \<and> gd_skill_packages st' = gd_skill_packages st \<and> gd_skill_bindings st' = gd_skill_bindings st
     \<and> gd_skill_activations st' = gd_skill_activations st"

definition safe_check :: "check \<Rightarrow> bool" where
  "safe_check c \<longleftrightarrow> (\<forall>st r st'. c st = (r, st') \<longrightarrow> read_only st st')"

lemma read_only_refl [simp]: "read_only st st"
  by (simp add: read_only_def)

lemma read_only_trans: "read_only a b \<Longrightarrow> read_only b c \<Longrightarrow> read_only a c"
  by (simp add: read_only_def)

lemma record_denial_read_only [simp]: "read_only st (record_denial env now persists agent session kind target reason st)"
  by (simp add: record_denial_def append_scope_denial_def read_only_def)

lemma safe_checkI: "(\<And>st. read_only st (snd (c st))) \<Longrightarrow> safe_check c"
  unfolding safe_check_def by (metis snd_conv)

lemma safe_snd: "safe_check c \<Longrightarrow> read_only st (snd (c st))"
  unfolding safe_check_def by (metis prod.collapse)

lemma safe_pass [simp]: "safe_check pass" "safe_check (refuse e)"
  by (simp_all add: safe_check_def)

lemma safe_deny [simp]: "safe_check (deny env now persists agent session kind target reason)"
  by (rule safe_checkI) (simp add: deny_def)

lemma safe_with_value [intro]: "(\<And>v. r = Ok v \<Longrightarrow> safe_check (f v)) \<Longrightarrow> safe_check (with_value r f)"
  by (cases r) auto

lemma safe_then_check [intro]:
  assumes "safe_check c" "safe_check d"
  shows "safe_check (then_check c d)"
  unfolding safe_check_def then_check_def
proof (intro allI impI)
  fix st r st'
  assume run: "(case c st of (Inl e, st) \<Rightarrow> (Err e, st) | (Inr x, st) \<Rightarrow> d st) = (r, st')"
  obtain a s where c: "c st = (a, s)" by (cases "c st")
  then have "read_only st s" using assms(1) by (simp add: safe_check_def)
  moreover have "read_only s st'" using run c assms(2) by (cases a) (auto simp: safe_check_def)
  ultimately show "read_only st st'" by (rule read_only_trans)
qed

lemma safe_if: "safe_check a \<Longrightarrow> safe_check b \<Longrightarrow> safe_check (if p then a else b)"
  by simp

lemma safe_option: "safe_check a \<Longrightarrow> (\<And>v. safe_check (f v)) \<Longrightarrow> safe_check (case x of None \<Rightarrow> a | Some v \<Rightarrow> f v)"
  by (cases x) auto

lemma safe_pair: "(\<And>v w. safe_check (f v w)) \<Longrightarrow> safe_check (case x of (v, w) \<Rightarrow> f v w)"
  by (cases x) auto

lemma safe_sum: "(\<And>v. safe_check (f v)) \<Longrightarrow> (\<And>v. safe_check (g v)) \<Longrightarrow> safe_check (case x of Inl v \<Rightarrow> f v | Inr v \<Rightarrow> g v)"
  by (cases x) auto

lemma safe_recorded: "safe_check (\<lambda>st. (r, record_denial env now persists agent session kind target reason st))"
  by (simp add: safe_check_def)

lemma read_only_value: "(\<And>v. safe_check (f v)) \<Longrightarrow> read_only st (snd (with_value r f st))"
  by (rule safe_snd) (rule safe_with_value)

lemmas safe_rules = safe_if safe_option safe_pair safe_sum safe_with_value safe_pass safe_deny safe_recorded

lemma chain_passes:
  assumes "foldr then_check cs final st = (Ok u, st')" "\<And>c. c \<in> set cs \<Longrightarrow> safe_check c"
  shows "(\<forall>c\<in>set cs. \<exists>s s'. read_only st s \<and> c s = (Ok (), s')) \<and> (\<exists>s. read_only st s \<and> final s = (Ok u, st'))"
  using assms
proof (induction cs arbitrary: st)
  case (Cons c cs)
  then obtain v s where c: "c st = (Ok v, s)" and rest: "foldr then_check cs final s = (Ok u, st')"
    by (auto simp: then_check_Ok_iff)
  have st: "read_only st s" using Cons.prems(2) [of c] c by (auto simp: safe_check_def)
  have keep: "read_only st s'" if "read_only s s'" for s' using st that by (rule read_only_trans)
  have c': "\<exists>a b. read_only st a \<and> c a = (Ok (), b)" using c by (intro exI [of _ st] exI [of _ s]) simp
  have IH: "(\<forall>c\<in>set cs. \<exists>a b. read_only s a \<and> c a = (Ok (), b)) \<and> (\<exists>a. read_only s a \<and> final a = (Ok u, st'))"
    using Cons.prems(2) by (intro Cons.IH [OF rest]) simp
  show ?case
  proof
    show "\<forall>c\<in>set (c # cs). \<exists>a b. read_only st a \<and> c a = (Ok (), b)"
      using IH c' keep by (metis set_ConsD)
    show "\<exists>a. read_only st a \<and> final a = (Ok u, st')" using IH keep by blast
  qed
qed (auto intro: read_only_refl)

lemma chain_refuses:
  assumes "foldr then_check cs final st = (r, st')" "\<And>c. c \<in> set cs \<Longrightarrow> safe_check c" "safe_check final"
  shows "read_only st st'"
proof -
  have "safe_check (foldr then_check cs final)" using assms(2,3) by (induction cs) auto
  with assms(1) show ?thesis by (simp add: safe_check_def)
qed

section \<open>No check writes the tables it reads\<close>

lemma safe_tool_scope: "safe_check (validate_tool_scope env now ca call)"
  unfolding validate_tool_scope_def Let_def by (intro safe_rules)

lemma safe_fanout: "safe_check (check_fanout env now ca profile scope request)"
  by (rule safe_checkI) (auto simp: check_fanout_def deny_def split: option.splits bool.splits)

lemma safe_spawn: "safe_check (validate_spawn_agent_request env now ca call)"
  unfolding validate_spawn_agent_request_def check_delegation_def Let_def by (intro safe_rules safe_fanout)

lemma safe_filesystem: "safe_check (validate_filesystem_request env now ca call)"
  unfolding validate_filesystem_request_def Let_def by (intro safe_rules)

lemma safe_execution_profile: "safe_check (validate_execution_profile env now ca call)"
  unfolding validate_execution_profile_def Let_def by (intro safe_rules)

lemma safe_network: "safe_check (validate_network_egress_request env now ca call)"
  unfolding validate_network_egress_request_def Let_def by (intro safe_rules)

lemma safe_skill: "safe_check (validate_skill_activation_request env now ca call)"
proof (rule safe_checkI)
  fix st
  show "read_only st (snd (validate_skill_activation_request env now ca call st))"
    unfolding validate_skill_activation_request_def Let_def
    by (cases "tl_name call \<notin> {''activate_skill'', ''execute_skill''}") (simp, simp only: if_False, intro read_only_value safe_rules)
qed

lemma safe_mcp_import: "safe_check (check_mcp_import env now ca name what kind primitive allowed server target)"
proof (rule safe_checkI)
  fix st
  show "read_only st (snd (check_mcp_import env now ca name what kind primitive allowed server target st))"
    unfolding check_mcp_import_def Let_def
    by (cases "\<not> ca_persists ca"; cases "ca_profile ca"; simp only: if_True if_False option.case)
       (auto intro!: read_only_value safe_if safe_snd [of pass] safe_snd [of "refuse e" for e] safe_snd [OF safe_deny])
qed

lemma safe_mcp: "safe_check (validate_mcp_tool_request env now ca call)" "safe_check (validate_mcp_prompt_request env now ca call)"
  "safe_check (validate_mcp_resource_request env now ca call)"
  unfolding validate_mcp_tool_request_def validate_mcp_prompt_request_def validate_mcp_resource_request_def
  by (intro safe_rules safe_mcp_import)+

lemma safe_browser_profile: "safe_check (validate_browser_profile_request env now ca call)"
proof (rule safe_checkI)
  fix st
  show "read_only st (snd (validate_browser_profile_request env now ca call st))"
    unfolding validate_browser_profile_request_def Let_def by (intro read_only_value safe_rules)
qed

lemma safe_browser_action: "safe_check (validate_browser_action_request env now ca call)"
  unfolding validate_browser_action_request_def by (intro safe_rules)

lemma resolve_profile_read_only:
  "resolve_computer_profile now pid st = (r, st') \<Longrightarrow> read_only st st'"
  by (auto simp: resolve_computer_profile_def ensure_default_computer_profiles_def default_local_computer_profiles_def
      upsert_computer_profile_def read_only_def Let_def split: list.splits prod.splits)

lemma safe_with_stored:
  assumes "\<And>st r st'. compute st = (r, st') \<Longrightarrow> read_only st st'" "\<And>v. safe_check (f v)"
  shows "safe_check (with_stored compute f)"
  unfolding safe_check_def with_stored_def
proof (intro allI impI)
  fix st r st'
  assume run: "(case compute st of (Inl e, st) \<Rightarrow> (Err (ToolError e), st) | (Inr v, st) \<Rightarrow> f v st) = (r, st')"
  obtain a s where c: "compute st = (a, s)" by (cases "compute st")
  then have "read_only st s" by (rule assms(1))
  moreover have "read_only s st'" using run c assms(2) by (cases a) (auto simp: safe_check_def)
  ultimately show "read_only st st'" by (rule read_only_trans)
qed

lemma safe_computer_profile: "safe_check (validate_computer_profile_request env now profile cx persists session)"
  unfolding validate_computer_profile_request_def by (intro safe_rules)

lemma safe_computer_action: "safe_check (validate_computer_action_request env now profile request cx persists session)"
  unfolding validate_computer_action_request_def Let_def by (intro safe_rules)

lemma safe_computer: "safe_check (validate_computer_platform_request env now ca call)"
  unfolding validate_computer_platform_request_def
  by (intro safe_rules safe_with_stored resolve_profile_read_only safe_computer_profile safe_computer_action safe_then_check)

lemma decision_read_only:
  "resolve_domain_access_decision now persists profile domain family session st = (r, st') \<Longrightarrow> read_only st st'"
  by (auto simp: resolve_domain_access_decision_def delete_domain_access_decision_def read_only_def
      split: option.splits if_splits)

lemma safe_domain: "safe_check (check_domain env now ca call profile domain family)"
proof (rule safe_checkI)
  fix st
  obtain d st' where d: "resolve_domain_access_decision now (ca_persists ca) profile domain family (ca_session_id ca) st = (d, st')"
    by (metis prod.collapse)
  then have "read_only st st'" by (rule decision_read_only)
  then show "read_only st (snd (check_domain env now ca call profile domain family st))"
    using read_only_trans [OF _ record_denial_read_only]
    by (auto simp: check_domain_def Let_def d deny_def split: option.splits)
qed

lemma safe_web: "safe_check (validate_web_request env now ca call)"
  unfolding validate_web_request_def by (intro safe_rules safe_domain)

lemmas safe_validators = safe_tool_scope safe_spawn safe_filesystem safe_execution_profile safe_network safe_skill safe_mcp
  safe_browser_profile safe_browser_action safe_computer safe_web

lemma scope_checks_safe: "c \<in> set (scope_checks env now ca call) \<Longrightarrow> safe_check c"
  by (auto simp: scope_checks_def safe_validators)

section \<open>What a passed check shows\<close>

lemma tool_scope_passed:
  assumes "validate_tool_scope env now ca call st = (Ok u, st')" "ca_profile ca = Some profile"
  shows "\<not> cp_requires_elevation profile \<and> (cp_tool_allowlist profile = [] \<or> tl_name call \<in> set (cp_tool_allowlist profile))"
  using assms by (auto simp: validate_tool_scope_def Let_def split: if_splits)

text \<open>A child may be started: the scope of delegation allows the child, its run time and one more child.\<close>

definition delegation_allows :: "tool_env \<Rightarrow> caller \<Rightarrow> guard_store \<Rightarrow> AgentSpawnRequest \<Rightarrow> bool" where
  "delegation_allows env ca st request \<longleftrightarrow> (\<exists>profile scope. ca_profile ca = Some profile \<and> cp_delegation_scope profile = Some scope
     \<and> ds_can_spawn_children scope
     \<and> (ds_allowed_agents scope = [] \<or> as_agent_id request \<in> set (ds_allowed_agents scope))
     \<and> (\<forall>seconds. as_max_runtime_seconds request = Some seconds \<longrightarrow>
          ds_max_runtime_seconds scope = 0 \<or> seconds \<le> ds_max_runtime_seconds scope)
     \<and> (\<forall>parent. ca_persists ca \<and> parent_run env ca request = Some parent \<longrightarrow>
          ds_max_fanout scope = 0 \<or> count_active_agent_runs_for_parent parent (gd_runs st) < unat (ds_max_fanout scope)))"

lemma fanout_passed:
  assumes "check_fanout env now ca profile scope request s = (Ok u, st')" "read_only st s"
    "ca_persists ca" "parent_run env ca request = Some parent"
  shows "ds_max_fanout scope = 0 \<or> count_active_agent_runs_for_parent parent (gd_runs st) < unat (ds_max_fanout scope)"
  using assms by (auto simp: check_fanout_def read_only_def word_gt_0 split: if_splits)

lemma delegation_passed:
  assumes "check_delegation env now ca profile scope request s = (Ok u, st')" "read_only st s"
    "ca_profile ca = Some profile" "cp_delegation_scope profile = Some scope"
  shows "delegation_allows env ca st request"
proof -
  have spawn: "ds_can_spawn_children scope" "ds_allowed_agents scope = [] \<or> as_agent_id request \<in> set (ds_allowed_agents scope)"
    using assms(1) by (auto simp: check_delegation_def Let_def split: if_splits)
  have "check_fanout env now ca profile scope request s = (Ok u, st')"
    using assms(1) spawn by (auto simp: check_delegation_def Let_def split: option.splits if_splits)
  moreover have "\<forall>seconds. as_max_runtime_seconds request = Some seconds \<longrightarrow>
      ds_max_runtime_seconds scope = 0 \<or> seconds \<le> ds_max_runtime_seconds scope"
    using assms(1) spawn by (auto simp: check_delegation_def Let_def word_gt_0 not_less split: if_splits)
  ultimately show ?thesis
    using assms(2-4) spawn fanout_passed unfolding delegation_allows_def by blast
qed

lemma spawn_passed:
  assumes "validate_spawn_agent_request env now ca call s = (Ok u, st')" "read_only st s" "tl_name call = ''spawn_agent''"
  shows "\<exists>request. decode_tool_args (td_spawn_agent (te_decoders env)) call = Ok request \<and> delegation_allows env ca st request"
proof -
  from assms(1,3) obtain request profile where r: "decode_tool_args (td_spawn_agent (te_decoders env)) call = Ok request"
      "ca_profile ca = Some profile"
    and rest: "(case cp_delegation_scope profile of
        None \<Rightarrow> deny env now (ca_persists ca) (cp_agent_id profile) (ca_session_id ca) DelegationScopeDenial ''spawn_agent''
          (''spawn_agent not permitted for agent '' @ quoted (cp_agent_id profile) @ '' without delegation scope'')
      | Some scope \<Rightarrow> check_delegation env now ca profile scope request) s = (Ok u, st')"
    by (auto simp: validate_spawn_agent_request_def with_value_Ok_iff result_simps split: option.splits if_splits)
  then obtain scope where "cp_delegation_scope profile = Some scope"
    "check_delegation env now ca profile scope request s = (Ok u, st')"
    by (auto split: option.splits)
  then show ?thesis using delegation_passed [OF _ assms(2) r(2)] r(1) by blast
qed

text \<open>The path a file tool names, and the action it stands for.\<close>

definition requested_path :: "tool_env \<Rightarrow> ToolCall \<Rightarrow> (OrchestratorError, string) result" where
  "requested_path env call = (if tl_name call = ''read_file'' then decode_tool_args (td_path (te_decoders env)) call
     else map_ok wf_path (decode_tool_args (td_write_file (te_decoders env)) call))"

definition file_action :: "ToolCall \<Rightarrow> FilesystemAction" where
  "file_action call = (if tl_name call = ''read_file'' then ReadAction else WriteAction)"

lemma file_check_passed_iff:
  assumes "ca_profile ca = Some profile" "cp_filesystem_scopes profile \<noteq> []" "tl_name call \<in> {''read_file'', ''write_file''}"
    "te_current_dir env = Ok dir" "is_absolute dir"
  shows "(\<exists>u st'. validate_filesystem_request env now ca call st = (Ok u, st')) \<longleftrightarrow>
    (\<exists>path scope. requested_path env call = Ok path \<and> scope \<in> set (cp_filesystem_scopes profile)
      \<and> filesystem_action_allowed scope (file_action call) \<and> scope_covers scope (walk (walk [] dir) path))"
  using assms
  by (auto simp: validate_filesystem_request_def Let_def with_value_Ok_iff requested_path_def [symmetric] file_action_def [symmetric]
      resolved_path path_allowed_iff split: if_splits)

lemma mcp_import_passed:
  assumes "check_mcp_import env now ca name what kind primitive allowed server target s = (Ok u, st')" "read_only st s"
  shows "ca_persists ca \<and> mcp_binding_exists (gd_mcp st) (ca_principal ca) server primitive target
    \<and> (\<forall>profile. ca_profile ca = Some profile \<longrightarrow>
        (\<exists>registry. load_mcp_registry_from_store (gd_mcp st) = Ok registry \<and> allowed registry profile server target))"
proof -
  have mcp: "gd_mcp s = gd_mcp st" using assms(2) by (simp add: read_only_def)
  show ?thesis
  proof (cases "ca_profile ca")
    case None
    then show ?thesis using assms(1) mcp by (auto simp: check_mcp_import_def Let_def split: if_splits)
  next
    case (Some profile)
    then show ?thesis
      using assms(1) mcp by (auto simp: check_mcp_import_def Let_def with_value_Ok_iff result_simps split: if_splits)
  qed
qed

section \<open>The executor\<close>

lemma ran_after_checks:
  assumes "execute cd policies env now ca fw lock tool call w st = (r, w', st')" "w' \<noteq> w"
  shows "\<exists>s. all_checks cd policies env now ca (normalize_tool_alias_call env call) st = (Ok (), s)"
  using assms by (auto simp: execute_def Let_def split: prod.splits sum.splits)

lemma ran_with_lock:
  assumes "execute cd policies env now ca fw lock tool call w st = (r, w', st')" "w' \<noteq> w"
    "tool_requires_workspace_lock (tl_name (normalize_tool_alias_call env call))"
  shows "lock = Ok ()"
  using assms by (auto simp: execute_def Let_def split: prod.splits sum.splits)

lemma all_checks_passed:
  assumes "all_checks cd policies env now ca call st = (Ok u, st')"
  shows "(\<forall>c\<in>set (scope_checks env now ca call). \<exists>s s'. read_only st s \<and> c s = (Ok (), s'))
    \<and> policy_gate cd policies env ca call = Ok ()"
proof -
  have "policy_gate cd policies env ca call = Ok ()"
    if "with_value (validate_cedar_web_platform_request cd policies env ca call) (\<lambda>_.
      with_value (validate_cedar_computer_request cd policies env ca call) (\<lambda>_.
      with_value (policy_gate cd policies env ca call) (\<lambda>_. pass))) s = (Ok u, st')" for s
    using that by (auto simp: with_value_Ok_iff)
  moreover have "(\<forall>c\<in>set (scope_checks env now ca call). \<exists>s s'. read_only st s \<and> c s = (Ok (), s')) \<and>
    (\<exists>s. read_only st s \<and> with_value (validate_cedar_web_platform_request cd policies env ca call) (\<lambda>_.
      with_value (validate_cedar_computer_request cd policies env ca call) (\<lambda>_.
      with_value (policy_gate cd policies env ca call) (\<lambda>_. pass))) s = (Ok u, st'))"
    by (rule chain_passes [OF assms [unfolded all_checks_def]]) (rule scope_checks_safe)
  ultimately show ?thesis by blast
qed

text \<open>What the profile of the caller permits: a tool of its allowlist without elevation, a file in the part of the
  file system its scopes cover, a child its scope of delegation allows, an MCP tool that is bound and imported.\<close>

definition permitted :: "tool_env \<Rightarrow> caller \<Rightarrow> string \<Rightarrow> guard_store \<Rightarrow> ToolCall \<Rightarrow> bool" where
  "permitted env ca dir st call \<longleftrightarrow>
     (\<forall>profile. ca_profile ca = Some profile \<longrightarrow> \<not> cp_requires_elevation profile
        \<and> (cp_tool_allowlist profile = [] \<or> tl_name call \<in> set (cp_tool_allowlist profile))
        \<and> (cp_filesystem_scopes profile \<noteq> [] \<and> tl_name call \<in> {''read_file'', ''write_file''} \<longrightarrow>
           (\<exists>path scope. requested_path env call = Ok path \<and> scope \<in> set (cp_filesystem_scopes profile)
             \<and> filesystem_action_allowed scope (file_action call) \<and> scope_covers scope (walk (walk [] dir) path))))
   \<and> (tl_name call = ''spawn_agent'' \<longrightarrow>
        (\<exists>request. decode_tool_args (td_spawn_agent (te_decoders env)) call = Ok request \<and> delegation_allows env ca st request))
   \<and> (tl_name call = ''invoke_mcp_tool'' \<longrightarrow>
        (\<exists>r. decode_tool_args (td_invoke_mcp_tool (te_decoders env)) call = Ok r
           \<and> mcp_binding_exists (gd_mcp st) (ca_principal ca) (iv_server_id r) ToolPrimitive (iv_tool_name r)
           \<and> (\<forall>profile. ca_profile ca = Some profile \<longrightarrow> (\<exists>registry. load_mcp_registry_from_store (gd_mcp st) = Ok registry
                \<and> tool_allowed_for_agent registry profile (iv_server_id r) (iv_tool_name r)))))"

lemma checks_permit:
  assumes "\<forall>c\<in>set (scope_checks env now ca call). \<exists>s s'. read_only st s \<and> c s = (Ok (), s')"
    "te_current_dir env = Ok dir" "is_absolute dir"
  shows "permitted env ca dir st call"
proof -
  have passed: "\<exists>s s'. read_only st s \<and> c s = (Ok (), s')" if "c \<in> set (scope_checks env now ca call)" for c
    using assms(1) that by blast
  from passed obtain s s' where tool: "validate_tool_scope env now ca call s = (Ok (), s')"
    by (force simp: scope_checks_def)
  from passed obtain f f' where fil: "validate_filesystem_request env now ca call f = (Ok (), f')"
    by (force simp: scope_checks_def)
  from passed obtain p p' where spawn: "read_only st p" "validate_spawn_agent_request env now ca call p = (Ok (), p')"
    by (force simp: scope_checks_def)
  from passed obtain m m' where mcp: "read_only st m" "validate_mcp_tool_request env now ca call m = (Ok (), m')"
    by (force simp: scope_checks_def)
  have "\<exists>r. decode_tool_args (td_invoke_mcp_tool (te_decoders env)) call = Ok r
      \<and> check_mcp_import env now ca ''invoke_mcp_tool'' ''tool'' McpToolScopeDenial ToolPrimitive tool_allowed_for_agent
         (iv_server_id r) (iv_tool_name r) m = (Ok (), m')" if "tl_name call = ''invoke_mcp_tool''"
    using mcp(2) that by (auto simp: validate_mcp_tool_request_def with_value_Ok_iff)
  with mcp_import_passed [OF _ mcp(1)] have import: "\<exists>r. decode_tool_args (td_invoke_mcp_tool (te_decoders env)) call = Ok r
      \<and> mcp_binding_exists (gd_mcp st) (ca_principal ca) (iv_server_id r) ToolPrimitive (iv_tool_name r)
      \<and> (\<forall>profile. ca_profile ca = Some profile \<longrightarrow> (\<exists>registry. load_mcp_registry_from_store (gd_mcp st) = Ok registry
           \<and> tool_allowed_for_agent registry profile (iv_server_id r) (iv_tool_name r)))" if "tl_name call = ''invoke_mcp_tool''"
    using that by metis
  have path: "\<exists>path scope. requested_path env call = Ok path \<and> scope \<in> set (cp_filesystem_scopes profile)
      \<and> filesystem_action_allowed scope (file_action call) \<and> scope_covers scope (walk (walk [] dir) path)"
    if "ca_profile ca = Some profile" "cp_filesystem_scopes profile \<noteq> [] \<and> tl_name call \<in> {''read_file'', ''write_file''}" for profile
    using file_check_passed_iff [OF that(1) _ _ assms(2,3), of call now f] that(2) fil by blast
  show ?thesis
    unfolding permitted_def using tool_scope_passed [OF tool] spawn_passed [OF spawn(2,1)] import path by simp
qed

text \<open>C3: a tool acts on the world only when every guard let it: the profile of the caller permits the call, the
  policy allows it, and a tool that needs the workspace lock holds it.\<close>

theorem guarded_execution:
  assumes "execute cd policies env now ca fw lock tool call w st = (r, w', st')" "w' \<noteq> w"
    "te_current_dir env = Ok dir" "is_absolute dir"
  shows "permitted env ca dir st (normalize_tool_alias_call env call)
    \<and> policy_gate cd policies env ca (normalize_tool_alias_call env call) = Ok ()
    \<and> (tool_requires_workspace_lock (tl_name (normalize_tool_alias_call env call)) \<longrightarrow> lock = Ok ())"
proof -
  from ran_after_checks [OF assms(1,2)] obtain s where
    "all_checks cd policies env now ca (normalize_tool_alias_call env call) st = (Ok (), s)" ..
  from all_checks_passed [OF this] checks_permit [OF _ assms(3,4)] ran_with_lock [OF assms(1,2)] show ?thesis by blast
qed

section \<open>Sensitive tools\<close>

lemma ast_action_name:
  assumes "trimmed name" "CHR ''('' \<notin> set name" "tl_name call = name" "parse_ast_action (to_ast_call env call) = Ok parsed"
  shows "pa_action parsed = name"
proof -
  obtain mid where mid: "to_ast_call env call = name @ CHR ''('' # mid @ [CHR '')'']"
    using assms(3) by (auto simp: to_ast_call_def)
  have "trimmed (to_ast_call env call)"
    using assms(1) by (simp add: mid trimmed_def is_whitespace_def char_code_def)
  then have t: "trim_ws (to_ast_call env call) = to_ast_call env call" by (rule trim_ws_trimmed)
  have f: "find_char (CHR ''('') (to_ast_call env call) = Some (length name)"
    unfolding mid using assms(2) by (rule find_char_append)
  have "take (length name) (to_ast_call env call) = name" by (simp add: mid)
  then show ?thesis
    using assms(4) trim_ws_trimmed [OF assms(1)]
    by (auto simp: parse_ast_action_def Let_def t f result_simps split: option.splits if_splits)
qed

lemma sensitive_names: "name \<in> set sensitive_tool_actions \<Longrightarrow> trimmed name \<and> CHR ''('' \<notin> set name"
  by (auto simp: sensitive_tool_actions_def trimmed_def is_whitespace_def char_code_def)

lemma sensitive_gate:
  assumes "tl_name call \<in> set sensitive_tool_actions"
  shows "policy_gate cd policies env ca call \<noteq> Ok u"
proof
  assume "policy_gate cd policies env ca call = Ok u"
  then obtain parsed where parsed: "parse_ast_action (to_ast_call env call) = Ok parsed"
    and "evaluate_with_context_tristate cd policies (ca_principal ca) (pa_action parsed) (pa_resource parsed)
        (build_policy_eval_context ca) sensitive_tool_actions = Ok Allow"
    unfolding policy_gate_def by (simp only: result_simps) (metis (full_types) Decision.exhaust Decision.simps(7,8,9) sum.distinct(1))
  then obtain base where "Allow = confirm (pa_action parsed) sensitive_tool_actions base"
    by (auto simp: evaluate_with_context_tristate_def result_simps)
  moreover have "pa_action parsed = tl_name call"
    using sensitive_names [OF assms] ast_action_name [OF _ _ refl parsed] by blast
  ultimately show False using assms by (auto split: if_splits)
qed

lemma all_checks_refuse_sensitive:
  assumes "tl_name call \<in> set sensitive_tool_actions" "all_checks cd policies env now ca call st = (r, st')"
  shows "\<exists>e. r = Err e"
proof (cases r)
  case (Inr u)
  from all_checks_passed [OF assms(2) [unfolded Inr]] have "policy_gate cd policies env ca call = Ok ()" by (rule conjunct2)
  with sensitive_gate [OF assms(1), of cd policies env ca "()"] show ?thesis by (rule notE)
qed simp

text \<open>C9: a sensitive tool never runs behind the executor, whatever the policy says: the call ends in an error, and the
  outside world is untouched.\<close>

theorem sensitive_never_executes:
  assumes "execute cd policies env now ca fw lock tool call w st = (r, w', st')"
    "tl_name (normalize_tool_alias_call env call) \<in> set sensitive_tool_actions"
  shows "w' = w \<and> (\<exists>e. r = Err e)"
proof -
  obtain a s where a: "all_checks cd policies env now ca (normalize_tool_alias_call env call) st = (a, s)" by force
  then obtain e where "a = Err e" using all_checks_refuse_sensitive [OF assms(2) a] by (elim exE)
  with a assms(1) show ?thesis by (auto simp: execute_def)
qed

section \<open>The policy sees the resource the call names\<close>

lemma plain_keys: "plain_name ''resource''" "plain_name ''path''" "plain_name ''read_file''" "plain_value ''global''"
  by (auto simp: plain_name_def plain_value_def trimmed_def is_whitespace_def char_code_def)

lemma replace_absent: "c \<notin> set s \<Longrightarrow> replace_all [c] r s = s"
  by (induction "[c]" r s rule: replace_all.induct) auto

lemma plain_argument: "plain_value (policy_value env name kv) \<Longrightarrow> policy_argument env name kv = render_arg (fst kv, policy_value env name kv)"
  by (simp add: policy_argument_def render_arg_def plain_value_def replace_absent)

lemma rendered_ast_call:
  assumes "decode_tool_args (td_json (te_decoders env)) call = Ok (JObject members)"
    "\<forall>kv\<in>set members. plain_value (policy_value env (tl_name call) kv)"
  shows "to_ast_call env call = render_call (tl_name call) (map (\<lambda>kv. (fst kv, policy_value env (tl_name call) kv)) members)"
proof -
  have "map (policy_argument env (tl_name call)) members =
      map render_arg (map (\<lambda>kv. (fst kv, policy_value env (tl_name call) kv)) members)"
    using assms(2) plain_argument by auto
  with assms(1) show ?thesis by (simp only: to_ast_call_def render_call_def sum.case json.case)
qed

text \<open>C30: the policy decides on the argument called "resource" when there is one, although the tool acts on its path: a
  call of read_file with the extra argument resource = "global" is put to Cedar as a request for "global", whatever its
  path, and no forbidden prefix is applied.\<close>

theorem resource_argument_hides_path:
  assumes "tl_name call = ''read_file''"
    "decode_tool_args (td_json (te_decoders env)) call = Ok (JObject [(''path'', JString p), (''resource'', JString ''global'')])"
    "plain_value (policy_value env ''read_file'' (''path'', JString p))"
    "cedar_decision cd policies (ca_principal ca) ''read_file'' ''global'' ''global''
       (context_attrs ''global'' (build_policy_eval_context ca)) = Ok Allow"
  shows "policy_gate cd policies env ca call = Ok ()"
proof -
  let ?args = "[(''path'', policy_value env ''read_file'' (''path'', JString p)), (''resource'', ''global'')]"
  have "policy_value env ''read_file'' (''resource'', JString ''global'') = ''global''" by (simp add: policy_value_def)
  then have ast: "to_ast_call env call = render_call ''read_file'' ?args"
    using rendered_ast_call [OF assms(2)] assms(1,3) plain_keys(4) by simp
  have "plain_args ?args" using assms(3) plain_keys by (simp add: plain_args_def)
  from parse_rendered_call [OF plain_keys(3) this]
  have parsed: "parse_ast_action (to_ast_call env call) = Ok \<lparr>pa_action = ''read_file'', pa_resource = ''global'',
      pa_arguments = map_of (rev ?args)\<rparr>"
    by (simp add: ast resource_of_def resource_keys_def)
  have "confirm ''read_file'' sensitive_tool_actions Allow = Allow" by (simp add: sensitive_tool_actions_def)
  then show ?thesis
    using assms(4) by (simp add: policy_gate_def parsed evaluate_with_context_tristate_def evaluate_with_context_and_path_def path_denied_def)
qed
section \<open>Aliases of MCP tools\<close>

lemma find_str_first: "\<not> contains_str sep (a @ butlast sep) \<Longrightarrow> sep \<noteq> [] \<Longrightarrow> find_str sep (a @ sep @ b) = Some (length a)"
proof (induction a)
  case Nil
  then show ?case by (cases sep) (simp_all add: starts_with_iff)
next
  case (Cons c a)
  have "\<not> contains_str sep (a @ butlast sep)"
    using Cons.prems(1) unfolding contains_str_iff by (metis append_Cons)
  moreover have "\<not> starts_with sep (c # a @ sep @ b)"
  proof
    assume "starts_with sep (c # a @ sep @ b)"
    then obtain r where r: "c # a @ sep @ b = sep @ r" by (auto simp: starts_with_iff)
    have sep: "sep = butlast sep @ [last sep]" using Cons.prems(2) by simp
    have "take (length sep) (c # a @ sep @ b) = sep" using r by simp
    moreover have "take (length sep) (c # a @ sep @ b) = take (length sep) ((c # a) @ butlast sep)"
      by (subst sep) (cases "length sep"; simp add: take_append)
    ultimately have "(c # a) @ butlast sep = [] @ sep @ drop (length sep) ((c # a) @ butlast sep)"
      by (metis append_Nil append_take_drop_id)
    then show False using Cons.prems(1) unfolding contains_str_iff by blast
  qed
  ultimately show ?case using Cons.IH Cons.prems(2) by simp
qed

lemma find_str_least: "find_str sep s = Some i \<Longrightarrow> sep \<noteq> [] \<Longrightarrow> \<not> contains_str sep (take i s @ butlast sep)"
proof (induction sep s arbitrary: i rule: find_str.induct)
  case (1 sep)
  then show ?case by simp
next
  case (2 sep c s)
  have short: "\<not> contains_str sep (butlast sep)"
  proof
    assume "contains_str sep (butlast sep)"
    then obtain a b where "butlast sep = a @ sep @ b" by (auto simp: contains_str_iff)
    then have "length sep - 1 = length a + length sep + length b" by (metis length_append length_butlast add.assoc)
    moreover have "0 < length sep" using 2(3) by simp
    ultimately show False by arith
  qed
  show ?case
  proof (cases "starts_with sep (c # s)")
    case True
    with 2(2) short show ?thesis by simp
  next
    case False
    then obtain j where j: "find_str sep s = Some j" "i = Suc j" using 2(2) by auto
    have later: "\<not> contains_str sep (take j s @ butlast sep)" using 2(1) [OF False j(1) 2(3)] .
    have "\<not> starts_with sep (c # take j s @ butlast sep)"
    proof
      assume "starts_with sep (c # take j s @ butlast sep)"
      then obtain r where r: "c # take j s @ butlast sep = sep @ r" by (auto simp: starts_with_iff)
      from find_str_Some [OF j(1)] obtain q where q: "s = take j s @ sep @ q"
        by (metis append_take_drop_id starts_with_iff)
      have "butlast sep @ last sep # q = sep @ q" using 2(3) by (metis append_butlast_last_id append_Cons append_Nil append.assoc)
      then have "s = take j s @ butlast sep @ last sep # q" using q by argo
      then have "c # s = (c # take j s @ butlast sep) @ last sep # q" by simp
      then have "c # s = sep @ r @ last sep # q" unfolding r by simp
      then show False using False by (auto simp: starts_with_iff)
    qed
    with later j(2) show ?thesis by simp
  qed
qed

definition clean_id :: "string \<Rightarrow> bool" where
  "clean_id s \<longleftrightarrow> trim_ws s = s \<and> set s \<inter> {CHR ''/'', CHR '':'', CHR ''-'', CHR ''.''} = {}"

lemma alias_part_id: "alias_part s = s \<longleftrightarrow> set s \<inter> {CHR ''/'', CHR '':'', CHR ''-'', CHR ''.''} = {}"
  unfolding alias_part_def by (induction s) auto

lemma dropWhile_length_eq: "length (dropWhile p s) = length s \<Longrightarrow> dropWhile p s = s"
  by (metis append_self_conv2 length_0_conv length_append add_cancel_left_left takeWhile_dropWhile_id)

lemma trim_ws_length: "length (trim_ws s) \<le> length s \<and> (length (trim_ws s) = length s \<longrightarrow> trim_ws s = s)"
proof -
  let ?d = "dropWhile is_whitespace"
  have le: "length (?d (rev (?d s))) \<le> length (?d s)" "length (?d s) \<le> length s"
    using length_dropWhile_le [of is_whitespace "rev (?d s)"] length_dropWhile_le [of is_whitespace s] by simp_all
  moreover have "trim_ws s = s" if "length (?d (rev (?d s))) = length s"
  proof -
    have "length (?d s) = length s" using le that by simp
    then have s: "?d s = s" by (rule dropWhile_length_eq)
    with that have "?d (rev s) = rev s" by (intro dropWhile_length_eq) simp
    with s show ?thesis by (simp add: trim_ws_def)
  qed
  ultimately show ?thesis by (auto simp: trim_ws_def)
qed

text \<open>C38: the alias of an MCP tool decodes to the server and the tool exactly when both names are trimmed and free of the
  characters the alias replaces, and the name of the server neither holds two underscores in a row nor ends in one.\<close>

theorem mcp_alias_roundtrip:
  "decode_mcp_tool_alias (mcp_tool_alias_name s t) = Some (s, t) \<longleftrightarrow>
    clean_id s \<and> clean_id t \<and> \<not> contains_str ''__'' (s @ ''_'')"
proof -
  let ?s = "alias_part (trim_ws s)" and ?t = "alias_part (trim_ws t)"
  have "strip_prefix ''mcp__'' (mcp_tool_alias_name s t) = Some (?s @ ''__'' @ ?t)"
    by (simp add: strip_prefix_Some mcp_tool_alias_name_def)
  then have decode: "decode_mcp_tool_alias (mcp_tool_alias_name s t) = split_once ''__'' (?s @ ''__'' @ ?t)"
    by (simp add: decode_mcp_tool_alias_def)
  have len: "length ?s \<le> length s" "length ?t \<le> length t" using trim_ws_length by (auto simp: alias_part_def)
  show ?thesis
  proof
    assume "clean_id s \<and> clean_id t \<and> \<not> contains_str ''__'' (s @ ''_'')"
    then have names: "?s = s" "?t = t" "\<not> contains_str ''__'' (s @ ''_'')" by (simp_all add: clean_id_def alias_part_id)
    then show "decode_mcp_tool_alias (mcp_tool_alias_name s t) = Some (s, t)"
      using find_str_first [of "''__''" s t] names(3) by (simp add: decode names(1,2) split_once_def)
  next
    assume "decode_mcp_tool_alias (mcp_tool_alias_name s t) = Some (s, t)"
    then obtain i where i: "find_str ''__'' (?s @ ''__'' @ ?t) = Some i" "s = take i (?s @ ''__'' @ ?t)"
        "t = drop (i + 2) (?s @ ''__'' @ ?t)"
      by (auto simp: decode split_once_def)
    have bound: "i + 2 \<le> length ?s + 2 + length ?t" using find_str_Some [OF i(1)] by simp
    have ls: "length s = i" using arg_cong [OF i(2), of length] bound by simp
    have lt: "length t = length ?s + length ?t - i" using arg_cong [OF i(3), of length] by simp
    have eq: "length ?s = length s" "length ?t = length t" using len ls lt bound by linarith+
    then have trim: "trim_ws s = s" "trim_ws t = t" using trim_ws_length [of s] trim_ws_length [of t] by (simp_all add: alias_part_def)
    have whole: "take i (?s @ ''__'' @ ?t) = ?s" "drop (i + 2) (?s @ ''__'' @ ?t) = ?t" using eq ls by simp_all
    have "s = ?s" using i(2) unfolding whole .
    moreover have "t = ?t" using i(3) unfolding whole .
    ultimately have names: "alias_part s = s" "alias_part t = t" using trim by simp_all
    have "\<not> contains_str ''__'' (take i (?s @ ''__'' @ ?t) @ butlast ''__'')" using find_str_least [OF i(1)] by simp
    then have "\<not> contains_str ''__'' (s @ ''_'')" unfolding whole using names trim by simp
    with trim names show "clean_id s \<and> clean_id t \<and> \<not> contains_str ''__'' (s @ ''_'')"
      by (simp add: clean_id_def alias_part_id)
  qed
qed

section \<open>Domains\<close>

text \<open>The policy that allows allowlisted domains only is not enforced: a domain that is on no list passes, and when there
  is an allowlist a domain that is not on it.\<close>

lemma allowlisted_only_open:
  assumes "cp_web_approval_policy profile = Some AllowAllowlistedOnly" "\<not> list_ex (domain_matches_rule domain) (cp_web_domain_blocklist profile)"
    "resolve_domain_access_decision now (ca_persists ca) profile domain family (ca_session_id ca) st = (None, st')"
  shows "fst (check_domain env now ca call profile domain family st) = Ok ()"
  using assms by (simp add: check_domain_def Let_def)

text \<open>A decision for one time is used up by the check itself, before the policy and the tool are asked.\<close>

lemma one_time_decision_spent:
  assumes "resolve_domain_access_decision now persists profile domain family session st = (Some d, st')" "d \<in> {AllowOnce, DenyOnce}"
  shows "\<exists>k. k \<in> dd_decision_id ` fst ` set (gd_decisions st) \<and> k \<notin> dd_decision_id ` fst ` set (gd_decisions st')"
proof -
  let ?rows = "sort_key (\<lambda>d. - uint (dd_created_at_us d)) (list_domain_access_decisions st domain (cp_agent_id profile))"
  from assms obtain x where x: "List.find (decision_applies family now session) ?rows = Some x" "dd_decision x = d"
    "st' = delete_domain_access_decision (dd_decision_id x) st"
    by (auto simp: resolve_domain_access_decision_def split: option.splits if_splits)
  then have "x \<in> set ?rows" unfolding find_Some_iff by (metis nth_mem)
  then have "x \<in> fst ` set (gd_decisions st)" by (auto simp: list_domain_access_decisions_def newest_first_def)
  with x(3) show ?thesis
    by (intro exI [of _ "dd_decision_id x"]) (auto simp: delete_domain_access_decision_def delete_by_def)
qed

section \<open>Examples\<close>

text \<open>A process in /srv whose decoders know one call: read_file with the path given as it is.\<close>

definition undecodable :: "'x \<Rightarrow> (string, 'a) result" where
  "undecodable x = Err ''no''"

definition no_decoders :: tool_decoders where
  "no_decoders = \<lparr>td_json = undecodable, td_path = Ok, td_write_file = undecodable, td_run_shell = undecodable,
     td_spawn_agent = undecodable, td_activate_skill = undecodable, td_execute_skill = undecodable,
     td_invoke_mcp_tool = undecodable, td_render_mcp_prompt = undecodable, td_read_mcp_resource = undecodable,
     td_search_web = undecodable, td_url = undecodable, td_browser_open = undecodable, td_browser_artifact = undecodable,
     td_browser_download = undecodable, td_browser_session_start = undecodable, td_browser_profile_use = undecodable,
     td_browser_login_status = undecodable, td_browser_login_complete = undecodable, td_browser_login_fill = undecodable,
     td_crawl = undecodable, td_computer_action = undecodable, td_computer_session_start = undecodable,
     td_browser_action = undecodable\<rparr>"

definition hiding_json :: "string \<Rightarrow> (string, json) result" where
  "hiding_json s = Ok (JObject [(''path'', JString s), (''resource'', JString ''global'')])"

definition example_process :: tool_env where
  "example_process = \<lparr>te_decoders = no_decoders, te_print = (\<lambda>_. []), te_parse_url = (\<lambda>_. Err ''no''), te_with_query = (\<lambda>_ _. Err ''no''),
     te_current_dir = Ok ''/srv'', te_show_uuid = (\<lambda>_. []), te_uid = (\<lambda>_. []), te_private_override = False,
     te_browser_automation = True, te_denial_retention = 0\<rparr>"

definition example_caller :: caller where
  "example_caller = \<lparr>ca_profile = Some (example_profile\<lparr>cp_tool_allowlist := [''read_file'', ''write_file''], cp_filesystem_scopes :=
       [\<lparr>fs_root_path = ''/srv'', fs_allow_read = True, fs_allow_write = False, fs_allow_execute = False\<rparr>]\<rparr>),
     ca_persists = True, ca_session_id = None, ca_principal = ''a'', ca_channel = Cli, ca_whitelist = [], ca_forbid = [''/'']\<rparr>"

definition example_read :: "string \<Rightarrow> ToolCall" where
  "example_read path = \<lparr>tl_invocation_id = None, tl_name = ''read_file'', tl_arguments = path\<rparr>"

definition empty_tables :: guard_store where
  "empty_tables = \<lparr>gd_denials = [], gd_decisions = [], gd_browser_profiles = [], gd_computer_profiles = [], gd_skill_packages = [],
     gd_skill_bindings = [], gd_skill_activations = [], gd_runs = empty_runs, gd_mcp = empty_mcp_store, gd_drawn = 0\<rparr>"

lemmas example_defs = example_process_def example_caller_def example_read_def no_decoders_def Let_def

definition hiding_process :: tool_env where
  "hiding_process = example_process\<lparr>te_decoders := no_decoders\<lparr>td_json := hiding_json\<rparr>\<rparr>"

theorem resource_argument_hides_path_witness:
  "policy_gate ex_cedar () hiding_process example_caller (example_read ''/srv/x'') = Ok ()"
proof (rule resource_argument_hides_path)
  show "tl_name (example_read ''/srv/x'') = ''read_file''" by (simp add: example_defs)
  show "decode_tool_args (td_json (te_decoders hiding_process)) (example_read ''/srv/x'')
      = Ok (JObject [(''path'', JString ''/srv/x''), (''resource'', JString ''global'')])"
    by (simp add: example_defs hiding_process_def hiding_json_def decode_tool_args_def)
  show "plain_value (policy_value hiding_process ''read_file'' (''path'', JString ''/srv/x''))" by code_simp
  show "cedar_decision ex_cedar () (ca_principal example_caller) ''read_file'' ''global'' ''global''
       (context_attrs ''global'' (build_policy_eval_context example_caller)) = Ok Allow"
    by (simp add: cedar_decision_def entity_uid_def ex_cedar_def)
qed

text \<open>A tool that counts its calls.\<close>

definition counting_tool :: "ToolCall \<Rightarrow> nat \<Rightarrow> guard_store \<Rightarrow> (OrchestratorError, ToolExecutionResult) result \<times> nat \<times> guard_store" where
  "counting_tool call w st = (Err (ToolError ''done''), w + 1, st)"

lemma example_names:
  "normalize_tool_alias_call env (example_read path) = example_read path"
  "normalize_tool_alias_call env \<lparr>tl_invocation_id = None, tl_name = ''write_file'', tl_arguments = a\<rparr> =
    \<lparr>tl_invocation_id = None, tl_name = ''write_file'', tl_arguments = a\<rparr>"
  by (simp_all add: normalize_tool_alias_call_def decode_mcp_tool_alias_def strip_prefix_def example_read_def)

theorem sensitive_never_executes_witness:
  "fst (snd (execute ex_cedar () example_process 0 example_caller None (Ok ()) counting_tool
     \<lparr>tl_invocation_id = None, tl_name = ''write_file'', tl_arguments = []\<rparr> 0 empty_tables)) = 0"
proof -
  let ?call = "\<lparr>tl_invocation_id = None, tl_name = ''write_file'', tl_arguments = []\<rparr> :: ToolCall"
  obtain r w' st' where run: "execute ex_cedar () example_process 0 example_caller None (Ok ()) counting_tool ?call 0 empty_tables
      = (r, w', st')" by (metis prod.collapse)
  have "tl_name (normalize_tool_alias_call example_process ?call) \<in> set sensitive_tool_actions"
    by (simp add: example_names sensitive_tool_actions_def)
  from sensitive_never_executes [OF run this] run show ?thesis by simp
qed

lemma example_gate: "policy_gate ex_cedar () example_process example_caller (example_read path) = Ok ()"
proof -
  have "to_ast_call example_process (example_read path) = render_call ''read_file'' []"
    by (simp add: to_ast_call_def render_call_def decode_tool_args_def example_defs undecodable_def)
  then have parsed: "parse_ast_action (to_ast_call example_process (example_read path)) = Ok \<lparr>pa_action = ''read_file'',
      pa_resource = ''global'', pa_arguments = Map.empty\<rparr>"
    using parse_rendered_call [OF plain_keys(3), of "[]"] by (simp add: plain_args_def resource_of_def resource_keys_def)
  have "confirm ''read_file'' sensitive_tool_actions Allow = Allow" by (simp add: sensitive_tool_actions_def)
  then show ?thesis
    by (simp add: policy_gate_def parsed evaluate_with_context_tristate_def evaluate_with_context_and_path_def path_denied_def
        cedar_decision_def entity_uid_def ex_cedar_def)
qed

lemma example_file_check:
  "validate_filesystem_request example_process 0 example_caller (example_read ''/srv/x'') st = (Ok (), st)"
proof -
  have "resolve_scoped_path (te_current_dir example_process) ''/srv/x'' = Ok (RootDir # map NormalName [''srv'', ''x''])"
    using resolved_path [of "''/srv''" "''/srv/x''"] by (simp add: example_defs is_absolute_def walk_def path_segments_def)
  moreover have "filesystem_path_allowed (the (ca_profile example_caller)) (RootDir # map NormalName [''srv'', ''x'']) ReadAction"
    unfolding path_allowed_iff by (simp add: example_caller_def scope_covers_def is_absolute_def walk_def path_segments_def)
  ultimately show ?thesis
    by (simp add: validate_filesystem_request_def Let_def example_caller_def example_read_def decode_tool_args_def)
       (simp add: example_defs)
qed

theorem guarded_execution_witness:
  "permitted example_process example_caller ''/srv'' empty_tables (example_read ''/srv/x'')"
proof -
  let ?call = "example_read ''/srv/x''"
  have name: "tl_name ?call = ''read_file''" by (simp add: example_read_def)
  have targets: "extract_web_target example_process ?call = Ok None" "extract_browser_profile_target example_process ?call = Ok None"
    "extract_browser_action_request example_process ?call = Ok None" "extract_computer_action_request example_process ?call = Ok None"
    "extract_computer_profile_target example_process ?call = Ok None"
    by (simp_all add: name extract_web_target_def extract_browser_profile_target_def extract_browser_action_request_def
        extract_computer_action_request_def extract_computer_profile_target_def Let_def url_tools_def login_tools_def)
  obtain profile where profile: "ca_profile example_caller = Some profile" by (simp add: example_caller_def)
  have tool: "validate_tool_scope example_process 0 example_caller ?call st = (Ok (), st)" for st
    by (simp add: validate_tool_scope_def Let_def name) (simp add: example_caller_def example_profile_def name Let_def)
  have checks: "all_checks ex_cedar () example_process 0 example_caller ?call empty_tables = (Ok (), empty_tables)"
    by (simp add: all_checks_def scope_checks_def then_check_def tool example_file_check validate_spawn_agent_request_def
        validate_execution_profile_def validate_network_egress_request_def validate_skill_activation_request_def
        validate_mcp_tool_request_def validate_mcp_prompt_request_def validate_mcp_resource_request_def
        validate_browser_profile_request_def validate_browser_action_request_def validate_computer_platform_request_def
        validate_web_request_def validate_cedar_web_platform_request_def validate_cedar_computer_request_def
        if_some_def targets name example_gate budget_tools_def profile Let_def)
  have "execute ex_cedar () example_process 0 example_caller None (Ok ()) counting_tool ?call 0 empty_tables
      = (Err (ToolError ''done''), 1, empty_tables)"
    by (simp add: execute_def example_names checks counting_tool_def tool_requires_workspace_lock_def name)
  from guarded_execution [OF this] example_names(1) show ?thesis by (simp add: example_defs is_absolute_def)
qed

end
