(* ===== verification/ControlIntents.thy ===== *)
theory ControlIntents
  imports AgentTypes TextOps
begin

text \<open>The channels of \<open>aria-core/src/app.rs\<close>: what each channel supports and the manifest of its plug-in, the session a
  request belongs to under a scope policy, and the commands users write.  SHA-256 is a parameter.\<close>

section \<open>Channels\<close>

record ChannelCapabilityProfile =
  ch_supports_callbacks :: bool
  ch_supports_inline_buttons :: bool
  ch_supports_rich_media :: bool
  ch_supports_typing_indicator :: bool
  ch_supports_thread_context :: bool
  ch_supports_command_aliases :: bool

datatype ChannelFallbackMode = NativeOnly | TextFallback | UnsupportedFallback

record ChannelPluginManifest =
  pm_channel :: GatewayChannel
  pm_plugin_id :: string
  pm_transport :: string
  pm_control_capabilities :: ChannelCapabilityProfile
  pm_approval_capable :: bool
  pm_fallback_mode :: ChannelFallbackMode

definition full_capabilities :: ChannelCapabilityProfile where
  "full_capabilities = \<lparr>ch_supports_callbacks = True, ch_supports_inline_buttons = True, ch_supports_rich_media = True,
     ch_supports_typing_indicator = True, ch_supports_thread_context = True, ch_supports_command_aliases = True\<rparr>"

definition no_capabilities :: ChannelCapabilityProfile where
  "no_capabilities = \<lparr>ch_supports_callbacks = False, ch_supports_inline_buttons = False, ch_supports_rich_media = False,
     ch_supports_typing_indicator = False, ch_supports_thread_context = False, ch_supports_command_aliases = False\<rparr>"

fun channel_capability_profile :: "GatewayChannel \<Rightarrow> ChannelCapabilityProfile" where
  "channel_capability_profile Telegram = full_capabilities"
| "channel_capability_profile WhatsApp = full_capabilities\<lparr>ch_supports_inline_buttons := False\<rparr>"
| "channel_capability_profile Discord = full_capabilities"
| "channel_capability_profile Slack = full_capabilities"
| "channel_capability_profile IMessage = full_capabilities"
| "channel_capability_profile WebSocket = full_capabilities"
| "channel_capability_profile Cli = no_capabilities\<lparr>ch_supports_command_aliases := True\<rparr>"
| "channel_capability_profile Ros2 = no_capabilities\<lparr>ch_supports_command_aliases := True\<rparr>"
| "channel_capability_profile UnknownChannel = no_capabilities"

fun gateway_channel_name :: "GatewayChannel \<Rightarrow> string" where
  "gateway_channel_name Telegram = ''telegram''" | "gateway_channel_name WhatsApp = ''whatsapp''"
| "gateway_channel_name Discord = ''discord''" | "gateway_channel_name Slack = ''slack''"
| "gateway_channel_name IMessage = ''imessage''" | "gateway_channel_name Cli = ''cli''"
| "gateway_channel_name WebSocket = ''websocket''" | "gateway_channel_name Ros2 = ''ros2''"
| "gateway_channel_name UnknownChannel = ''unknown''"

definition builtin_channel_plugin_manifest :: "GatewayChannel \<Rightarrow> ChannelPluginManifest" where
  "builtin_channel_plugin_manifest channel = \<lparr>pm_channel = channel,
     pm_plugin_id = ''builtin.'' @ gateway_channel_name channel, pm_transport = gateway_channel_name channel,
     pm_control_capabilities = channel_capability_profile channel,
     pm_approval_capable = (channel \<in> {Telegram, WhatsApp, Cli, WebSocket}),
     pm_fallback_mode = (if channel = Cli then NativeOnly else if channel \<in> {Telegram, WhatsApp, WebSocket} then TextFallback
       else UnsupportedFallback)\<rparr>"

definition validate_channel_plugin_manifest :: "ChannelPluginManifest \<Rightarrow> (string, unit) result" where
  "validate_channel_plugin_manifest m =
    (if trim_ws (pm_plugin_id m) = [] then Err ''channel plugin manifest requires plugin_id''
     else if trim_ws (pm_transport m) = [] then Err ''channel plugin manifest requires transport''
     else if pm_approval_capable m \<and> pm_fallback_mode m = UnsupportedFallback
     then Err ''approval-capable channel cannot declare unsupported fallback''
     else if ch_supports_inline_buttons (pm_control_capabilities m) \<and> \<not> ch_supports_callbacks (pm_control_capabilities m)
     then Err ''inline buttons require callback support''
     else Ok ())"

section \<open>Sessions\<close>

datatype SessionScopePolicy = MainScope | PeerScope | ChannelPeerScope | AccountChannelPeerScope

definition default_scope_policy :: SessionScopePolicy where
  "default_scope_policy = MainScope"

definition hex_char :: "nat \<Rightarrow> char" where
  "hex_char n = ''0123456789abcdef'' ! n"

definition hex_session_id :: "u8 list \<Rightarrow> string" where
  "hex_session_id sid = concat (map (\<lambda>b. [hex_char (unat b div 16), hex_char (unat b mod 16)]) sid)"

text \<open>What is hashed: every part with a zero byte after it.  \<open>sha\<close> gives the 32 bytes of the digest of a text.\<close>

definition scope_preimage :: "string list \<Rightarrow> string" where
  "scope_preimage parts = concat (map (\<lambda>p. p @ [CHR 0x00]) parts)"

definition scoped_session_hash :: "(string \<Rightarrow> u8 list) \<Rightarrow> string list \<Rightarrow> u8 list" where
  "scoped_session_hash sha parts = take 16 (sha (scope_preimage parts))"

fun scope_parts :: "u8 list \<Rightarrow> GatewayChannel \<Rightarrow> string \<Rightarrow> SessionScopePolicy \<Rightarrow> string list" where
  "scope_parts sid channel user MainScope = []"
| "scope_parts sid channel user PeerScope = [''peer'', user]"
| "scope_parts sid channel user ChannelPeerScope = [''channel_peer'', gateway_channel_name channel, user]"
| "scope_parts sid channel user AccountChannelPeerScope =
     [''account_channel_peer'', gateway_channel_name channel, user, hex_session_id sid]"

definition derive_scoped_session_id ::
  "(string \<Rightarrow> u8 list) \<Rightarrow> u8 list \<Rightarrow> GatewayChannel \<Rightarrow> string \<Rightarrow> SessionScopePolicy \<Rightarrow> u8 list" where
  "derive_scoped_session_id sha sid channel user scope =
     (if scope = MainScope then sid else scoped_session_hash sha (scope_parts sid channel user scope))"

section \<open>Commands\<close>

datatype ApprovalResolutionDecision = Approve | Decline

datatype ControlIntent = ListAgents | SwitchAgent "string option" | ListRuns | InspectRunTree "string option"
  | InspectRun "string option" | InspectRunEvents "string option" | CancelRun "string option" | RetryRun "string option"
  | TakeoverRun "string option" "string option" | InspectMailbox "string option" | ListModels | SwitchModel "string option"
  | SetTimezone "string option" | InstallSkill "string option" | StopCurrent | Pivot "string option" | InspectSession
  | ClearSession | ListProviderHealth | ListWorkspaceLocks | ListApprovals
  | ResolveApproval ApprovalResolutionDecision "string option" "string option"

fun control_aliases_for_channel :: "GatewayChannel \<Rightarrow> (string \<times> string) list" where
  "control_aliases_for_channel channel =
    (if channel \<in> {Telegram, WhatsApp}
     then [(''/a'', ''/approve''), (''/d'', ''/deny''), (''/ag'', ''/agent''), (''/tz'', ''/timezone'')]
     else if channel \<in> {Cli, WebSocket} then [('':approve'', ''/approve''), ('':deny'', ''/deny'')]
     else [])"

definition normalize_control_alias :: "GatewayChannel \<Rightarrow> string \<Rightarrow> string" where
  "normalize_control_alias channel command =
     (case map_of (control_aliases_for_channel channel) command of Some c \<Rightarrow> c | None \<Rightarrow> command)"

definition nth_part :: "string list \<Rightarrow> nat \<Rightarrow> string option" where
  "nth_part parts i = (if i < length parts then Some (parts ! i) else None)"

text \<open>The text after the command, when there is any.\<close>

definition after_command :: "string \<Rightarrow> string \<Rightarrow> string option" where
  "after_command command trimmed = (case map_option trim_ws (strip_prefix command trimmed) of
      Some rest \<Rightarrow> if rest = [] then None else Some rest
    | None \<Rightarrow> None)"

definition intent_of :: "string \<Rightarrow> string list \<Rightarrow> string \<Rightarrow> ControlIntent option" where
  "intent_of command parts trimmed = (let arg = nth_part parts in
    map_of [(''/agents'', ListAgents), (''/agent'', SwitchAgent (arg 0)), (''/runs'', ListRuns),
      (''/run_tree'', InspectRunTree (arg 0)), (''/run'', InspectRun (arg 0)), (''/run_events'', InspectRunEvents (arg 0)),
      (''/run_cancel'', CancelRun (arg 0)), (''/run_retry'', RetryRun (arg 0)), (''/run_takeover'', TakeoverRun (arg 0) (arg 1)),
      (''/mailbox'', InspectMailbox (arg 0)), (''/models'', ListModels), (''/model'', SwitchModel (arg 0)),
      (''/timezone'', SetTimezone (arg 0)), (''/install_skill'', InstallSkill (after_command command trimmed)),
      (''/stop'', StopCurrent), (''/pivot'', Pivot (after_command command trimmed)),
      (''/session'', if arg 0 \<in> {Some ''clear'', Some ''reset''} then ClearSession else InspectSession),
      (''/provider_health'', ListProviderHealth), (''/providers'', ListProviderHealth),
      (''/workspace_locks'', ListWorkspaceLocks), (''/locks'', ListWorkspaceLocks), (''/approvals'', ListApprovals),
      (''/approve'', ResolveApproval Approve (arg 0) (arg 1)), (''/deny'', ResolveApproval Decline (arg 0) (arg 1))] command)"

definition parse_control_intent :: "string \<Rightarrow> GatewayChannel \<Rightarrow> ControlIntent option" where
  "parse_control_intent text' channel = (let trimmed = trim_ws text' in
     if trimmed = [] then None
     else case split_whitespace trimmed of
       [] \<Rightarrow> None
     | command # parts \<Rightarrow> intent_of (normalize_control_alias channel command) parts trimmed)"

section \<open>Laws\<close>

lemma builtin_manifests_valid: "validate_channel_plugin_manifest (builtin_channel_plugin_manifest channel) = Ok ()"
  by (cases channel) (simp_all add: validate_channel_plugin_manifest_def builtin_channel_plugin_manifest_def trim_ws_def
      is_whitespace_def char_code_def full_capabilities_def no_capabilities_def)

lemma hex_char_inj: "m < 16 \<Longrightarrow> n < 16 \<Longrightarrow> hex_char m = hex_char n \<longleftrightarrow> m = n"
proof -
  have "distinct ''0123456789abcdef''" "length ''0123456789abcdef'' = 16" by simp_all
  then show "m < 16 \<Longrightarrow> n < 16 \<Longrightarrow> hex_char m = hex_char n \<longleftrightarrow> m = n"
    unfolding hex_char_def by (metis nth_eq_iff_index_eq)
qed

lemma hex_char_not_zero: "n < 16 \<Longrightarrow> hex_char n \<noteq> CHR 0x00"
proof -
  have "\<forall>c\<in>set ''0123456789abcdef''. c \<noteq> CHR 0x00" "length ''0123456789abcdef'' = 16" by simp_all
  then show "n < 16 \<Longrightarrow> hex_char n \<noteq> CHR 0x00" unfolding hex_char_def by (metis nth_mem)
qed

lemma unat_byte: "unat (b :: u8) < 256"
  using unsigned_less [of b] by simp

lemma hex_session_id_inj: "hex_session_id a = hex_session_id b \<longleftrightarrow> a = b"
proof
  show "hex_session_id a = hex_session_id b \<Longrightarrow> a = b"
  proof (induction a arbitrary: b)
    case Nil
    then show ?case by (cases b) (simp_all add: hex_session_id_def)
  next
    case (Cons x a)
    then obtain y c where b: "b = y # c" by (cases b) (simp_all add: hex_session_id_def)
    have "unat x div 16 < 16" "unat y div 16 < 16" using unat_byte [of x] unat_byte [of y] by simp_all
    then have "unat x div 16 = unat y div 16" "unat x mod 16 = unat y mod 16"
      using Cons.prems by (simp_all add: b hex_session_id_def hex_char_inj)
    then have "unat x = unat y" by (metis div_mult_mod_eq)
    then have "x = y" by (simp add: word_unat_eq_iff)
    with Cons show ?case by (simp add: b hex_session_id_def)
  qed
qed simp

lemma zero_free_split: "z \<notin> set p \<Longrightarrow> z \<notin> set q \<Longrightarrow> p @ z # r = q @ z # s \<Longrightarrow> p = q \<and> r = s"
proof (induction p arbitrary: q)
  case Nil
  then show ?case by (cases q) simp_all
next
  case (Cons c p)
  then obtain d q' where q: "q = d # q'" by (cases q) simp_all
  with Cons.prems have "c = d" "p @ z # r = q' @ z # s" "z \<notin> set p" "z \<notin> set q'" by simp_all
  with Cons.IH [of q'] q show ?case by simp
qed

lemma scope_preimage_inj:
  assumes "\<forall>p\<in>set ps. CHR 0x00 \<notin> set p" "\<forall>p\<in>set qs. CHR 0x00 \<notin> set p" "scope_preimage ps = scope_preimage qs"
  shows "ps = qs"
  using assms
proof (induction ps arbitrary: qs)
  case Nil
  then show ?case by (cases qs) (simp_all add: scope_preimage_def)
next
  case (Cons p ps)
  then obtain q qs' where qs: "qs = q # qs'" by (cases qs) (simp_all add: scope_preimage_def)
  with Cons.prems have "p @ CHR 0x00 # scope_preimage ps = q @ CHR 0x00 # scope_preimage qs'" by (simp add: scope_preimage_def)
  moreover have "CHR 0x00 \<notin> set p" "CHR 0x00 \<notin> set q" using Cons.prems(1,2) qs by simp_all
  ultimately have "p = q \<and> scope_preimage ps = scope_preimage qs'" by (intro zero_free_split)
  then have eq: "p = q" "scope_preimage ps = scope_preimage qs'" by blast+
  have "ps = qs'" using Cons.prems(1,2) qs eq(2) by (intro Cons.IH) simp_all
  with qs eq(1) show ?case by simp
qed

lemma hex_zero_free: "CHR 0x00 \<notin> set (hex_session_id sid)"
proof
  assume "CHR 0x00 \<in> set (hex_session_id sid)"
  then have "\<exists>b\<in>set sid. CHR 0x00 = hex_char (unat b div 16) \<or> CHR 0x00 = hex_char (unat b mod 16)" by (auto simp: hex_session_id_def)
  then obtain b where b: "CHR 0x00 = hex_char (unat b div 16) \<or> CHR 0x00 = hex_char (unat (b :: u8) mod 16)" by (elim bexE)
  have "unat b div 16 < 16" "unat b mod 16 < 16" using unat_byte [of b] by simp_all
  with b hex_char_not_zero show False by metis
qed

lemma channel_name_inj: "gateway_channel_name a = gateway_channel_name b \<longleftrightarrow> a = b"
  by (cases a; cases b) simp_all

lemma channel_name_zero_free: "CHR 0x00 \<notin> set (gateway_channel_name channel)"
  by (cases channel) simp_all

text \<open>The peers a scope policy tells apart.\<close>

fun same_peer :: "SessionScopePolicy \<Rightarrow> (u8 list \<times> GatewayChannel \<times> string) \<Rightarrow> (u8 list \<times> GatewayChannel \<times> string) \<Rightarrow> bool" where
  "same_peer MainScope (s, c, u) (s', c', u') = (s = s')"
| "same_peer PeerScope (s, c, u) (s', c', u') = (u = u')"
| "same_peer ChannelPeerScope (s, c, u) (s', c', u') = (c = c' \<and> u = u')"
| "same_peer AccountChannelPeerScope (s, c, u) (s', c', u') = (c = c' \<and> u = u' \<and> s = s')"

text \<open>Under one scope policy two requests share a session exactly when they come from the same peer, for users without a
  zero byte in their names and a hash that tells the two texts apart.\<close>

lemma scoped_sessions_separate_peers:
  assumes "inj_on (\<lambda>s. take 16 (sha s)) {scope_preimage (scope_parts sid channel user scope), scope_preimage (scope_parts sid' channel' user' scope)}"
    "CHR 0x00 \<notin> set user" "CHR 0x00 \<notin> set user'"
  shows "derive_scoped_session_id sha sid channel user scope = derive_scoped_session_id sha sid' channel' user' scope \<longleftrightarrow>
    same_peer scope (sid, channel, user) (sid', channel', user')"
proof -
  let ?p = "scope_parts sid channel user scope" and ?q = "scope_parts sid' channel' user' scope"
  have "\<forall>p\<in>set ?p. CHR 0x00 \<notin> set p" "\<forall>p\<in>set ?q. CHR 0x00 \<notin> set p"
    using assms(2,3) hex_zero_free channel_name_zero_free by (cases scope; simp)+
  from scope_preimage_inj [OF this] have "scoped_session_hash sha ?p = scoped_session_hash sha ?q \<longleftrightarrow> ?p = ?q"
    using inj_onD [OF assms(1)] unfolding scoped_session_hash_def by (metis insertI1 insertI2)
  then show ?thesis
    by (cases scope) (auto simp: derive_scoped_session_id_def channel_name_inj hex_session_id_inj)
qed

end
