(* ===== verification/Approvals.thy ===== *)
theory Approvals
  imports ControlIntents Orchestrator ToolPolicy
begin

text \<open>Approvals (\<open>aria-x/src/approvals.rs\<close>, \<open>runtime_store/approvals.rs\<close>, the approval commands of \<open>bootstrap.rs\<close>):
  the record a refused call leaves, the handle a user answers it with, the decision, and what the decision runs.
  JSON and URL libraries, the hash and the executor are parameters.\<close>

section \<open>Records and tables\<close>

datatype ApprovalStatus = PendingApprovalStatus | Approved | Denied

record ApprovalRecord =
  apr_approval_id :: string
  apr_session_id :: "u8 list"
  apr_user_id :: string
  apr_channel :: GatewayChannel
  apr_agent_id :: string
  apr_tool_name :: string
  apr_arguments_json :: string
  apr_pending_prompt :: string
  apr_original_request :: string
  apr_status :: ApprovalStatus
  apr_created_at_us :: u64
  apr_resolved_at_us :: "u64 option"

record ElevationGrant =
  eg_session_id :: "u8 list"
  eg_user_id :: string
  eg_agent_id :: string
  eg_granted_at_us :: u64
  eg_expires_at_us :: "u64 option"

record approval_handle =
  hd_handle_id :: string
  hd_approval_id :: string
  hd_session_id :: string
  hd_user_id :: string
  hd_created_at_us :: u64
  hd_expires_at_us :: u64

record approval_store =
  st_approvals :: "ApprovalRecord list"
  st_handles :: "approval_handle list"
  st_elevations :: "ElevationGrant list"
  st_working_set :: "WorkingSetEntry list"

record approval_env =
  ae_show_uuid :: "u8 list \<Rightarrow> string"
  ae_show_f64 :: "u64 \<Rightarrow> string"
  ae_parse_json :: "string \<Rightarrow> (string, json) result"
  ae_print :: "json \<Rightarrow> string"
  ae_print_pretty :: "json \<Rightarrow> string"
  ae_parse_url :: url_parser
  ae_seed :: "string \<Rightarrow> string"

definition upsert_approval :: "ApprovalRecord \<Rightarrow> approval_store \<Rightarrow> approval_store" where
  "upsert_approval r st = st\<lparr>st_approvals := upsert_by apr_approval_id r (st_approvals st)\<rparr>"

definition read_approval :: "string \<Rightarrow> approval_store \<Rightarrow> (string, ApprovalRecord) result" where
  "read_approval k st = ok_or ''read approval failed: Query returned no rows'' (find_by apr_approval_id k (st_approvals st))"

definition list_approvals ::
  "u8 list option \<Rightarrow> string option \<Rightarrow> ApprovalStatus option \<Rightarrow> approval_store \<Rightarrow> ApprovalRecord list" where
  "list_approvals session user status st = sort_key (\<lambda>r. - uint (apr_created_at_us r))
     (filter (\<lambda>r. session \<in> {None, Some (apr_session_id r)} \<and> user \<in> {None, Some (apr_user_id r)}
        \<and> status \<in> {None, Some (apr_status r)}) (st_approvals st))"

definition upsert_elevation :: "ElevationGrant \<Rightarrow> approval_store \<Rightarrow> approval_store" where
  "upsert_elevation g st = st\<lparr>st_elevations := upsert_by (\<lambda>g. (eg_session_id g, eg_agent_id g)) g (st_elevations st)\<rparr>"

definition has_active_elevation :: "u8 list \<Rightarrow> string \<Rightarrow> string \<Rightarrow> u64 \<Rightarrow> approval_store \<Rightarrow> bool" where
  "has_active_elevation session user agent now st =
    (case find_by (\<lambda>g. (eg_session_id g, eg_agent_id g)) (session, agent) (st_elevations st) of
       None \<Rightarrow> False
     | Some g \<Rightarrow> eg_user_id g = user \<and> (case eg_expires_at_us g of Some t \<Rightarrow> sint now < sint t | None \<Rightarrow> True))"

definition append_working_set_entry :: "WorkingSetEntry \<Rightarrow> approval_store \<Rightarrow> approval_store" where
  "append_working_set_entry e st = st\<lparr>st_working_set := upsert_by ws_entry_id e (st_working_set st)\<rparr>"

text \<open>\<open>LIMIT\<close> with a negative number is no limit.\<close>

definition list_working_set_entries :: "string \<Rightarrow> u64 \<Rightarrow> approval_store \<Rightarrow> WorkingSetEntry list" where
  "list_working_set_entries session lmt st = (let rows = sort_key (\<lambda>e. - sint (ws_created_at_us e))
       (filter (\<lambda>e. (case ws_session_id e of Some s \<Rightarrow> s | None \<Rightarrow> []) = session) (st_working_set st)) in
     if sint lmt < 0 then rows else take (nat (sint lmt)) rows)"

section \<open>Handles\<close>

definition resolve_approval_handle ::
  "approval_env \<Rightarrow> string \<Rightarrow> u8 list \<Rightarrow> string \<Rightarrow> u64 \<Rightarrow> approval_store \<Rightarrow> string option" where
  "resolve_approval_handle env h session user now st = map_option hd_approval_id (List.find (\<lambda>r. hd_handle_id r = h
     \<and> hd_session_id r = ae_show_uuid env session \<and> hd_user_id r = user \<and> sint now \<le> sint (hd_expires_at_us r)) (st_handles st))"

definition handle_name :: "string \<Rightarrow> nat \<Rightarrow> string" where
  "handle_name seed attempt = (if attempt = 0 then ''apv-'' @ seed else ''apv-'' @ seed @ ''-'' @ show_nat attempt)"

text \<open>The attempts, from number \<open>i\<close> on; an insert is ignored when the handle or the approval has a row.\<close>

fun allocate_handle :: "nat \<Rightarrow> nat \<Rightarrow> string \<Rightarrow> approval_handle \<Rightarrow> approval_handle list \<Rightarrow> string option \<times> approval_handle list" where
  "allocate_handle 0 i seed row rows = (None, rows)"
| "allocate_handle (Suc n) i seed row rows =
    (let h = handle_name seed i in
     if \<not> has_key hd_handle_id h rows \<and> \<not> has_key hd_approval_id (hd_approval_id row) rows
     then (Some h, rows @ [row\<lparr>hd_handle_id := h\<rparr>])
     else if map_option hd_approval_id (find_by hd_handle_id h rows) = Some (hd_approval_id row) then (Some h, rows)
     else allocate_handle n (i + 1) seed row rows)"

definition resolve_or_create_approval_handle ::
  "approval_env \<Rightarrow> string \<Rightarrow> u8 list \<Rightarrow> string \<Rightarrow> u64 \<Rightarrow> u64 \<Rightarrow> approval_store \<Rightarrow> (string, string) result \<times> approval_store" where
  "resolve_or_create_approval_handle env k session user created expires st =
    (case find_by hd_approval_id k (st_handles st) of
       Some r \<Rightarrow> (Ok (hd_handle_id r), st)
     | None \<Rightarrow> (let (h, rows) = allocate_handle 32 0 (ae_seed env k) \<lparr>hd_handle_id = [], hd_approval_id = k,
           hd_session_id = ae_show_uuid env session, hd_user_id = user, hd_created_at_us = created, hd_expires_at_us = expires\<rparr>
           (st_handles st) in
         (ok_or (''failed to allocate approval handle for '' @ quoted k @ '' after 32 attempts'') h, st\<lparr>st_handles := rows\<rparr>)))"

definition prune_expired_approval_handles :: "u64 \<Rightarrow> approval_store \<Rightarrow> approval_store" where
  "prune_expired_approval_handles now st =
     st\<lparr>st_handles := filter (\<lambda>r. \<not> sint (hd_expires_at_us r) < sint now) (st_handles st)\<rparr>"

definition approval_handle_ttl_us :: u64 where
  "approval_handle_ttl_us = 86400000000"

definition ensure_approval_handle :: "approval_env \<Rightarrow> ApprovalRecord \<Rightarrow> approval_store \<Rightarrow> (string, string) result \<times> approval_store" where
  "ensure_approval_handle env r st = resolve_or_create_approval_handle env (apr_approval_id r) (apr_session_id r) (apr_user_id r)
     (apr_created_at_us r) (saturating_add (apr_created_at_us r) approval_handle_ttl_us)
     (prune_expired_approval_handles (apr_created_at_us r) st)"

definition resolve_approval_selector ::
  "approval_env \<Rightarrow> u8 list \<Rightarrow> string \<Rightarrow> string \<Rightarrow> u64 \<Rightarrow> approval_store \<Rightarrow> (string, string) result" where
  "resolve_approval_selector env session user selector now st = (let token = trim_ws selector in
     if token = [] then Err ''Approval selector cannot be empty.''
     else case resolve_approval_handle env token session user now st of Some k \<Rightarrow> Ok k | None \<Rightarrow> Ok token)"

fun debug_status :: "ApprovalStatus \<Rightarrow> string" where
  "debug_status PendingApprovalStatus = ''Pending''"
| "debug_status Approved = ''Approved''"
| "debug_status Denied = ''Denied''"

definition resolve_approval_record ::
  "string \<Rightarrow> ApprovalResolutionDecision \<Rightarrow> u64 \<Rightarrow> approval_store \<Rightarrow> (string, ApprovalRecord) result \<times> approval_store" where
  "resolve_approval_record k decision now st = (case read_approval k st of
      Inl e \<Rightarrow> (Err (''Approval '' @ quoted k @ '' not found: '' @ e), st)
    | Inr r \<Rightarrow>
        if apr_status r \<noteq> PendingApprovalStatus
        then (Err (''Approval '' @ quoted k @ '' is already '' @ debug_status (apr_status r) @ ''.''), st)
        else let r = r\<lparr>apr_status := (case decision of Approve \<Rightarrow> Approved | Decline \<Rightarrow> Denied), apr_resolved_at_us := Some now\<rparr> in
          (Ok r, upsert_approval r st))"

section \<open>The record of a refused call\<close>

definition approval_id_for :: "approval_env \<Rightarrow> u8 list \<Rightarrow> string \<Rightarrow> string" where
  "approval_id_for env session tool = ae_show_uuid env session @ ''__'' @ tool"

definition request_trace_id :: "approval_env \<Rightarrow> AgentRequest \<Rightarrow> string" where
  "request_trace_id env req = ae_show_uuid env (rq_request_id req)"

definition agent_elevation_tool_name :: string where
  "agent_elevation_tool_name = ''__agent_elevation__''"

fun request_text_from_content :: "(u64 \<Rightarrow> string) \<Rightarrow> MessageContent \<Rightarrow> string" where
  "request_text_from_content show_f64 (TextContent t) = t"
| "request_text_from_content show_f64 (ImageContent url' caption) =
     (case caption of Some c \<Rightarrow> c | None \<Rightarrow> ''User sent an image: '' @ url')"
| "request_text_from_content show_f64 (AudioContent url' transcript) =
     (case transcript of Some t \<Rightarrow> t | None \<Rightarrow> ''User sent an audio message: '' @ url')"
| "request_text_from_content show_f64 (VideoContent url' caption transcript) =
     (case transcript of Some t \<Rightarrow> t | None \<Rightarrow> (case caption of Some c \<Rightarrow> c | None \<Rightarrow> ''User sent a video: '' @ url'))"
| "request_text_from_content show_f64 (DocumentContent url' caption mime_type) = (case caption of Some c \<Rightarrow> c
     | None \<Rightarrow> ''User sent a document ('' @ (case mime_type of Some m \<Rightarrow> m | None \<Rightarrow> ''unknown'') @ '') : '' @ url')"
| "request_text_from_content show_f64 (LocationContent lat lng) =
     ''User shared location lat='' @ show_f64 lat @ '', lng='' @ show_f64 lng"

definition build_agent_elevation_message :: "string \<Rightarrow> string" where
  "build_agent_elevation_message agent = ''Privilege elevation required for agent '' @ quoted agent @
     ''. Please approve this session before continuing.''"

definition pending_record :: "approval_env \<Rightarrow> u64 \<Rightarrow> AgentRequest \<Rightarrow> string \<Rightarrow> string \<Rightarrow> string \<Rightarrow> string \<Rightarrow> string \<Rightarrow> ApprovalRecord" where
  "pending_record env now req k agent tool arguments prompt = \<lparr>apr_approval_id = k, apr_session_id = rq_session_id req,
     apr_user_id = rq_user_id req, apr_channel = rq_channel req, apr_agent_id = agent, apr_tool_name = tool,
     apr_arguments_json = arguments, apr_pending_prompt = prompt,
     apr_original_request = request_text_from_content (ae_show_f64 env) (rq_content req), apr_status = PendingApprovalStatus,
     apr_created_at_us = now, apr_resolved_at_us = None\<rparr>"

definition build_agent_elevation_approval_record :: "approval_env \<Rightarrow> u64 \<Rightarrow> AgentRequest \<Rightarrow> string \<Rightarrow> ApprovalRecord" where
  "build_agent_elevation_approval_record env now req agent =
     pending_record env now req (approval_id_for env (rq_session_id req) agent_elevation_tool_name) agent
       agent_elevation_tool_name
       (ae_print env (JObject [(''agent_id'', JString agent), (''_trace_id'', JString (request_trace_id env req))])) []"

definition build_tool_approval_record :: "approval_env \<Rightarrow> u64 \<Rightarrow> AgentRequest \<Rightarrow> ToolCall \<Rightarrow> string \<Rightarrow> ApprovalRecord" where
  "build_tool_approval_record env now req call prompt =
    (let arguments = (case ae_parse_json env (tl_arguments call) of Inr v \<Rightarrow> v | Inl _ \<Rightarrow> JObject []);
         arguments = (case arguments of
             JObject members \<Rightarrow> JObject (jput ''_trace_id'' (JString (request_trace_id env req)) members)
           | v \<Rightarrow> v) in
     pending_record env now req (approval_id_for env (rq_session_id req) (tl_name call)) ''pending'' (tl_name call)
       (ae_print env arguments) prompt)"

fun family_name :: "WebActionFamily \<Rightarrow> string" where
  "family_name FetchFamily = ''fetch''" | "family_name CrawlFamily = ''crawl''" | "family_name ScreenshotFamily = ''screenshot''"
| "family_name InteractiveReadFamily = ''interactive_read''" | "family_name InteractiveWriteFamily = ''interactive_write''"
| "family_name LoginFamily = ''login''" | "family_name DownloadFamily = ''download''"

definition all_families :: "WebActionFamily list" where
  "all_families = [FetchFamily, CrawlFamily, ScreenshotFamily, InteractiveReadFamily, InteractiveWriteFamily, LoginFamily, DownloadFamily]"

definition denied_family :: "string \<Rightarrow> WebActionFamily option" where
  "denied_family message = List.find (\<lambda>f. contains_str (''policy denied action '' @ quoted (''web_domain_'' @ family_name f)) message) all_families"

text \<open>\<open>split(sep).nth(1)\<close> of a text.\<close>

definition second_piece :: "string \<Rightarrow> string \<Rightarrow> string option" where
  "second_piece sep s = map_option (\<lambda>(_, rest). case split_once sep rest of Some (piece, _) \<Rightarrow> piece | None \<Rightarrow> rest) (split_once sep s)"

definition strip_suffix :: "string \<Rightarrow> string \<Rightarrow> string option" where
  "strip_suffix p s = (if ends_with p s then Some (take (length s - length p) s) else None)"

definition url_host_in :: "approval_env \<Rightarrow> string \<Rightarrow> string option" where
  "url_host_in env token = (case ae_parse_url env (trim_pred (\<lambda>c. c \<in> {CHR 0x22, CHR 0x27, CHR '','', CHR ''.'', CHR '')'', CHR ''(''}) token) of
      Inr u \<Rightarrow> map_option to_lower (ur_host_str u) | Inl _ \<Rightarrow> None)"

definition denied_domain :: "string \<Rightarrow> string option" where
  "denied_domain message = map_option (\<lambda>resource. replace_all ''_'' ''.''
       (case strip_prefix ''web_domain_'' resource of Some r \<Rightarrow> r | None \<Rightarrow> resource))
     (Option.bind (second_piece (''resource '' @ [CHR 0x27]) message) (strip_suffix [CHR 0x27]))"

definition extract_domain_approval_request ::
  "approval_env \<Rightarrow> AgentRequest \<Rightarrow> string \<Rightarrow> (string \<times> WebActionFamily) option" where
  "extract_domain_approval_request env req message = (case denied_family message of
      None \<Rightarrow> None
    | Some family \<Rightarrow> (case find_map (url_host_in env) (split_whitespace (request_text_from_content (ae_show_f64 env) (rq_content req))) of
         Some domain \<Rightarrow> Some (domain, family)
       | None \<Rightarrow> map_option (\<lambda>domain. (domain, family)) (denied_domain message)))"

definition build_domain_access_approval_record ::
  "approval_env \<Rightarrow> u64 \<Rightarrow> AgentRequest \<Rightarrow> string \<Rightarrow> WebActionFamily \<Rightarrow> ApprovalRecord" where
  "build_domain_access_approval_record env now req domain family =
     pending_record env now req (ae_show_uuid env (rq_session_id req) @ ''__set_domain_access_decision__'' @ domain) ''pending''
       ''set_domain_access_decision''
       (ae_print env (JObject [(''domain'', JString domain), (''decision'', JString ''allow_once''),
          (''action_family'', JString (family_name family)), (''scope'', JString ''domain''),
          (''_trace_id'', JString (request_trace_id env req))])) []"

section \<open>How an approval is shown\<close>

record ApprovalDisplayDescriptor =
  ds_approval_id :: string
  ds_tool_name :: string
  ds_agent_id :: string
  ds_action_summary :: string
  ds_target_summary :: "string option"
  ds_risk_summary :: string
  ds_arguments_preview :: string
  ds_options :: "string list"

definition approval_options_for_tool :: "string \<Rightarrow> string list" where
  "approval_options_for_tool name = (if name = ''set_domain_access_decision''
     then [''allow once'', ''allow for session'', ''allow always'', ''deny once'', ''deny always'']
     else if name = agent_elevation_tool_name then [''elevate this session'', ''deny'']
     else [''approve once'', ''deny''])"

text \<open>\<open>as_i64\<close> of a number as it is written.\<close>

definition parse_i64 :: "string \<Rightarrow> int option" where
  "parse_i64 s = (case strip_prefix ''-'' s of
      Some ds \<Rightarrow> if ds = [] \<or> \<not> list_all is_digit ds \<or> 2 ^ 63 < digits_value ds \<or> digits_value ds = 0 then None
        else Some (- int (digits_value ds))
    | None \<Rightarrow> if s = [] \<or> \<not> list_all is_digit s \<or> 2 ^ 63 - 1 < digits_value s then None else Some (int (digits_value s)))"

fun as_i64 :: "json \<Rightarrow> int option" where
  "as_i64 (JNumber s) = parse_i64 s"
| "as_i64 _ = None"

definition show_i64 :: "int \<Rightarrow> string" where
  "show_i64 n = (if n < 0 then CHR ''-'' # show_nat (nat (- n)) else show_nat (nat n))"

definition string_member :: "json \<Rightarrow> string \<Rightarrow> string option" where
  "string_member v k = Option.bind (jget v k) as_str"

definition target_summary :: "json \<Rightarrow> string option" where
  "target_summary args = (case find_map (\<lambda>(k, label). map_option (\<lambda>v. label @ ''='' @ v) (string_member args k))
       [(''url'', ''url''), (''domain'', ''domain''), (''profile_id'', ''profile''), (''agent_id'', ''agent'')] of
      Some s \<Rightarrow> Some s
    | None \<Rightarrow> (case (Option.bind (jget args ''x'') as_i64, Option.bind (jget args ''y'') as_i64) of
         (Some x, Some y) \<Rightarrow> Some (''point='' @ show_i64 x @ '','' @ show_i64 y)
       | _ \<Rightarrow> None))"

definition action_summary :: "string \<Rightarrow> json \<Rightarrow> string" where
  "action_summary name args = (let action = (\<lambda>what. case string_member args ''action'' of Some a \<Rightarrow> what @ '': '' @ a | None \<Rightarrow> what) in
     if name = agent_elevation_tool_name then ''elevate agent privileges''
     else if name = ''browser_download'' then ''download remote content''
     else if name = ''browser_act'' then action ''browser action''
     else if name = ''computer_act'' then action ''computer action''
     else if name \<in> {''computer_capture'', ''computer_screenshot''} then ''capture desktop screenshot''
     else if name = ''set_domain_access_decision'' then ''change stored domain access policy''
     else ''execute tool '' @ quoted name)"

definition risk_summary :: "string \<Rightarrow> string" where
  "risk_summary name = (if name = agent_elevation_tool_name then ''high: privileged agent access''
     else if name \<in> {''run_shell'', ''write_file'', ''browser_act'', ''computer_act''} then ''high: side-effecting action''
     else if name \<in> {''computer_capture'', ''computer_screenshot''} then ''medium: desktop observation and artifact persistence''
     else if name = ''browser_download'' then ''medium: artifact persistence and content ingestion''
     else if name = ''set_domain_access_decision'' then ''medium: changes future trust decisions''
     else ''medium: explicit human approval required'')"

definition kept_arguments :: "string \<Rightarrow> string list" where
  "kept_arguments name = (if name = ''write_file'' then [''path'', ''content'']
     else if name = ''run_shell'' then [''command'']
     else if name = ''manage_cron'' then [''action'', ''id'', ''prompt'', ''schedule'', ''agent_id'']
     else if name \<in> {''set_reminder'', ''schedule_message''} then [''task'', ''schedule'', ''mode'', ''deferred_prompt'', ''agent_id'']
     else if name = ''browser_act'' then [''action'', ''url'', ''selector'', ''text'', ''value'', ''millis'']
     else if name = ''computer_act'' then [''action'', ''profile_id'', ''target_window_id'', ''x'', ''y'', ''button'', ''text'', ''key'']
     else if name \<in> {''computer_capture'', ''computer_screenshot''} then [''computer_session_id'', ''profile_id'']
     else if name \<in> {''browser_download'', ''browser_open'', ''browser_snapshot'', ''browser_extract'', ''browser_screenshot''}
     then [''url'', ''filename'', ''browser_session_id'', ''profile_id'']
     else [])"

definition content_preview :: "string \<Rightarrow> string" where
  "content_preview content = (if 240 < length content
     then take 240 content @ ''... ('' @ show_nat (length content) @ '' chars)'' else content)"

definition keep_argument :: "(string \<times> json) list \<Rightarrow> (string \<times> json) list \<Rightarrow> string \<Rightarrow> (string \<times> json) list" where
  "keep_argument obj acc k = (case map_of obj k of
      None \<Rightarrow> acc
    | Some v \<Rightarrow> if k = ''content'' then jput ''content_preview'' (JString (content_preview (case as_str v of Some s \<Rightarrow> s | None \<Rightarrow> []))) acc
        else jput k v acc)"

definition approval_arguments_preview :: "approval_env \<Rightarrow> string \<Rightarrow> json \<Rightarrow> string" where
  "approval_arguments_preview env name args = ae_print_pretty env (JObject (case args of
      JObject obj \<Rightarrow> if kept_arguments name = [] then obj else foldl (keep_argument obj) [] (kept_arguments name)
    | _ \<Rightarrow> []))"

definition arguments_value :: "approval_env \<Rightarrow> ApprovalRecord \<Rightarrow> json" where
  "arguments_value env r = (case ae_parse_json env (apr_arguments_json r) of Inr v \<Rightarrow> v | Inl _ \<Rightarrow> JObject [])"

definition build_approval_descriptor :: "approval_env \<Rightarrow> ApprovalRecord \<Rightarrow> ApprovalDisplayDescriptor" where
  "build_approval_descriptor env r = (let args = arguments_value env r; name = apr_tool_name r in
     \<lparr>ds_approval_id = apr_approval_id r, ds_tool_name = name, ds_agent_id = apr_agent_id r,
      ds_action_summary = action_summary name args, ds_target_summary = target_summary args,
      ds_risk_summary = risk_summary name, ds_arguments_preview = approval_arguments_preview env name args,
      ds_options = approval_options_for_tool name\<rparr>)"

abbreviation nl :: string where "nl \<equiv> [CHR 0x0A]"

definition format_approval_message :: "approval_env \<Rightarrow> ApprovalRecord \<Rightarrow> string" where
  "format_approval_message env r = (let d = build_approval_descriptor env r in
     ''Approval required'' @ nl @ nl @ ''Action: '' @ ds_action_summary d @ nl @ ''Agent: '' @ ds_agent_id d @
     (case ds_target_summary d of Some t \<Rightarrow> nl @ ''Target: '' @ t | None \<Rightarrow> []) @ nl @ ''Risk: '' @ ds_risk_summary d @ nl @ nl @
     ''Arguments:'' @ nl @ ds_arguments_preview d @ nl @ nl @ ''Options: '' @ join_with '', '' (ds_options d))"

record ApprovalRenderOutput =
  ro_text :: string
  ro_parse_mode :: "string option"
  ro_reply_markup :: "json option"

text \<open>The labels of the buttons begin with a check mark and a cross, written here as their UTF-8 bytes.\<close>

definition check_mark :: string where "check_mark = [CHR 0xE2, CHR 0x9C, CHR 0x85]"

definition cross_mark :: string where "cross_mark = [CHR 0xE2, CHR 0x9D, CHR 0x8C]"

definition callback_button :: "string \<Rightarrow> string \<Rightarrow> json" where
  "callback_button label callback = JObject [(''text'', JString label), (''callback_data'', JString (take 64 callback))]"

definition render_approval_prompt_for_channel :: "approval_env \<Rightarrow> ApprovalRecord \<Rightarrow> string option \<Rightarrow> ApprovalRenderOutput" where
  "render_approval_prompt_for_channel env r handle = (let target = (case handle of Some h \<Rightarrow> h | None \<Rightarrow> apr_approval_id r) in
     \<lparr>ro_text = format_approval_message env r, ro_parse_mode = None,
      ro_reply_markup = (if apr_channel r = Telegram then Some (JObject [(''inline_keyboard'', JArray [JArray
         [callback_button (check_mark @ (if apr_tool_name r = agent_elevation_tool_name then '' Elevate'' else '' Approve''))
            (''/approve '' @ target),
          callback_button (cross_mark @ '' Deny'') (''/deny '' @ target)]])]) else None)\<rparr>)"

section \<open>Storing a pending approval\<close>

definition execution_artifact_kind_for_tool :: "string \<Rightarrow> ExecutionArtifactKind option" where
  "execution_artifact_kind_for_tool name =
    (if name \<in> {''set_reminder'', ''schedule_message'', ''manage_cron''} then Some ScheduleArtifact
     else if starts_with ''browser_'' name \<or> starts_with ''crawl_'' name \<or> starts_with ''watch_'' name then Some BrowserArtifact
     else if starts_with ''computer_'' name then Some ComputerArtifact
     else if name \<in> {''invoke_mcp_tool'', ''render_mcp_prompt'', ''read_mcp_resource'', ''sync_mcp_server_catalog'',
       ''setup_chrome_devtools_mcp''} then Some McpArtifact
     else if name = ''spawn_agent'' then Some SubAgentArtifact
     else if name = ''search_tool_registry'' then Some ToolSearchArtifact
     else if name \<in> {''read_file'', ''write_file'', ''edit_file'', ''execute_file''} then Some FileArtifact
     else None)"

definition extract_locator_from_tool_payload :: "json \<Rightarrow> string option" where
  "extract_locator_from_tool_payload payload = (case payload of
      JObject obj \<Rightarrow> find_map (\<lambda>k. case Option.bind (map_of obj k) as_str of
          Some v \<Rightarrow> if trim_ws v \<noteq> [] then Some (trim_ws v) else None
        | None \<Rightarrow> None) [''path'', ''file_path'', ''locator'', ''url'', ''resource_id'', ''job_id'', ''artifact_id'',
          ''browser_session_id'', ''profile_id'', ''id'']
    | _ \<Rightarrow> None)"

definition result_ok :: "('e, 'a) result \<Rightarrow> 'a option" where
  "result_ok r = (case r of Inr v \<Rightarrow> Some v | Inl _ \<Rightarrow> None)"

definition persist_pending_approval_working_set_entry :: "approval_env \<Rightarrow> ApprovalRecord \<Rightarrow> approval_store \<Rightarrow> approval_store" where
  "persist_pending_approval_working_set_entry env r = append_working_set_entry \<lparr>ws_entry_id = ''approval-'' @ apr_approval_id r,
     ws_kind = PendingApproval, ws_artifact_kind = execution_artifact_kind_for_tool (apr_tool_name r),
     ws_locator = Option.bind (result_ok (ae_parse_json env (apr_arguments_json r))) extract_locator_from_tool_payload,
     ws_operation = Some (apr_tool_name r), ws_origin_tool = Some (apr_tool_name r), ws_channel = Some (apr_channel r),
     ws_session_id = Some (ae_show_uuid env (apr_session_id r)), ws_status = PendingEntry, ws_created_at_us = apr_created_at_us r,
     ws_updated_at_us = None, ws_summary = ds_action_summary (build_approval_descriptor env r),
     ws_payload = result_ok (ae_parse_json env (apr_arguments_json r)), ws_approval_id = Some (apr_approval_id r)\<rparr>"

text \<open>The record is written, then its entry, then its handle; \<open>between\<close> is the text between the message and the note.\<close>

definition persist_pending ::
  "approval_env \<Rightarrow> string \<Rightarrow> ApprovalRecord \<Rightarrow> approval_store \<Rightarrow> (string, ApprovalRecord \<times> string) result \<times> approval_store" where
  "persist_pending env between r st =
    (let st = persist_pending_approval_working_set_entry env r (upsert_approval r st);
         (handle, st) = ensure_approval_handle env r st in
     (map_ok (\<lambda>h. (r, format_approval_message env r @ between @ nl @ nl @ ''Stored pending approval '' @ quoted (apr_approval_id r) @
         '' (handle: `'' @ h @ ''`). Inspect with `--inspect-approvals '' @ ae_show_uuid env (apr_session_id r) @ '' '' @ apr_user_id r @ ''`.''))
       (map_err (\<lambda>e. ''approval handle allocation failed: '' @ e) handle), st))"

fun persist_pending_approval_for_result ::
  "approval_env \<Rightarrow> u64 \<Rightarrow> AgentRequest \<Rightarrow> OrchestratorResult \<Rightarrow> approval_store
    \<Rightarrow> (string, ApprovalRecord \<times> string) result \<times> approval_store" where
  "persist_pending_approval_for_result env now req (AgentElevationRequired agent message) st =
     persist_pending env (nl @ nl @ message) (build_agent_elevation_approval_record env now req agent) st"
| "persist_pending_approval_for_result env now req (ToolApprovalRequired call prompt) st =
     persist_pending env [] (build_tool_approval_record env now req call prompt) st"
| "persist_pending_approval_for_result env now req _ st = (Err ''result does not require approval'', st)"

definition persist_pending_approval_for_error ::
  "approval_env \<Rightarrow> u64 \<Rightarrow> AgentRequest \<Rightarrow> string \<Rightarrow> approval_store \<Rightarrow> (string, ApprovalRecord \<times> string) result \<times> approval_store" where
  "persist_pending_approval_for_error env now req message st = (case extract_domain_approval_request env req message of
      None \<Rightarrow> (Err ''error does not map to a pending approval'', st)
    | Some (domain, family) \<Rightarrow> persist_pending env [] (build_domain_access_approval_record env now req domain family) st)"

definition between :: "string \<Rightarrow> string \<Rightarrow> string option" where
  "between prefix' message = Option.bind (strip_prefix prefix' message) (strip_suffix [CHR 0x27])"

definition denial_prefix :: "string \<Rightarrow> string" where
  "denial_prefix what = ''tool error: '' @ what @ '' on resource '' @ [CHR 0x27]"

definition tool_denial_prefix :: "string \<Rightarrow> string" where
  "tool_denial_prefix name = ''tool error: tool '' @ quoted name @ '' denied by policy for resource '' @ [CHR 0x27]"

definition user_messages :: "(string \<times> (string \<Rightarrow> string)) list" where
  "user_messages =
    [(tool_denial_prefix ''read_file'', \<lambda>p. ''Access denied: read_file is not permitted for '' @ quoted p @ ''.''),
     (tool_denial_prefix ''write_file'', \<lambda>p. ''Access denied: write_file is not permitted for '' @ quoted p @ ''.''),
     (denial_prefix (''policy denied action '' @ quoted ''web_domain_fetch''),
        \<lambda>r. ''Domain access is not approved for '' @ quoted r @ ''. Approve the domain first, then retry.''),
     (denial_prefix (''policy denied action '' @ quoted ''web_domain_crawl''),
        \<lambda>r. ''Crawl access is not approved for '' @ quoted r @ ''. Approve the domain first, then retry.''),
     (denial_prefix (''policy denied action '' @ quoted ''browser_profile_use''),
        \<lambda>r. ''Browser profile access denied for '' @ quoted r @ ''.'')]"

definition format_orchestrator_error_for_user :: "string \<Rightarrow> string" where
  "format_orchestrator_error_for_user message =
    (case find_map (\<lambda>(p, say). map_option say (between p message)) user_messages of
       Some s \<Rightarrow> s
     | None \<Rightarrow> (case strip_prefix (''tool error: '' @ approval_required_prefix) message of
         Some tool \<Rightarrow> ''Approval required before '' @ quoted tool @
           '' can run. Inspect pending approvals and approve the request, then retry.''
       | None \<Rightarrow> message))"

definition persist_pending_approval_for_tool_error ::
  "approval_env \<Rightarrow> u64 \<Rightarrow> AgentRequest \<Rightarrow> ToolCall \<Rightarrow> string \<Rightarrow> approval_store
    \<Rightarrow> (string, ApprovalRecord \<times> string) result \<times> approval_store" where
  "persist_pending_approval_for_tool_error env now req call message st =
    (if starts_with ''APPROVAL_REQUIRED::'' message
     then persist_pending_approval_for_result env now req
       (ToolApprovalRequired call (format_orchestrator_error_for_user (''tool error: '' @ message))) st
     else persist_pending_approval_for_error env now req message st)"

section \<open>Answering an approval\<close>

fun number_handles :: "approval_env \<Rightarrow> nat \<Rightarrow> ApprovalRecord list \<Rightarrow> approval_store
    \<Rightarrow> (nat \<times> ApprovalRecord \<times> ApprovalDisplayDescriptor \<times> string) list \<times> approval_store" where
  "number_handles env i [] st = ([], st)"
| "number_handles env i (r # rs) st = (let (handle, st) = ensure_approval_handle env r st;
       (rest, st) = number_handles env (i + 1) rs st in
     ((i, r, build_approval_descriptor env r, case handle of Inr h \<Rightarrow> h | Inl _ \<Rightarrow> apr_approval_id r) # rest, st))"

definition list_cli_pending_approvals :: "approval_env \<Rightarrow> u8 list \<Rightarrow> string \<Rightarrow> approval_store
    \<Rightarrow> (nat \<times> ApprovalRecord \<times> ApprovalDisplayDescriptor \<times> string) list \<times> approval_store" where
  "list_cli_pending_approvals env session user st =
     number_handles env 1 (list_approvals (Some session) (Some user) (Some PendingApprovalStatus) st) st"

definition resolve_cli_approval_id ::
  "approval_env \<Rightarrow> u8 list \<Rightarrow> string \<Rightarrow> string \<Rightarrow> u64 \<Rightarrow> approval_store \<Rightarrow> (string, string) result \<times> approval_store" where
  "resolve_cli_approval_id env session user token now st =
    (if list_all is_digit token then
       (case parse_unsigned (2 ^ 64 - 1) token of
          None \<Rightarrow> (Err (''Invalid approval selection '' @ quoted token @ ''.''), st)
        | Some index \<Rightarrow> (let (pending, st) = list_cli_pending_approvals env session user st in
            (case List.find (\<lambda>p. fst p = index) pending of
               None \<Rightarrow> Err (''No pending approval at index '' @ show_nat index @ ''.'')
             | Some (_, r, _, _) \<Rightarrow> Ok (apr_approval_id r), st)))
     else (resolve_approval_selector env session user token now st, st))"

text \<open>What the answer runs: the executor without policy checks, the agent of the session, and the change of that agent.\<close>

record 'w approval_runtime =
  rt_execute :: "string \<Rightarrow> u8 list \<Rightarrow> string \<Rightarrow> ToolCall \<Rightarrow> 'w \<Rightarrow> (OrchestratorError, ToolExecutionResult) result \<times> 'w"
  rt_session_agent :: "u8 list \<Rightarrow> GatewayChannel \<Rightarrow> string \<Rightarrow> 'w \<Rightarrow> string option"
  rt_set_session_agent :: "u8 list \<Rightarrow> GatewayChannel \<Rightarrow> string \<Rightarrow> string \<Rightarrow> 'w \<Rightarrow> 'w"

definition normalize_override_value :: "string option \<Rightarrow> string option" where
  "normalize_override_value v = (case map_option trim_ws v of Some t \<Rightarrow> if t = [] then None else Some t | None \<Rightarrow> None)"

definition elevation_agent :: "approval_env \<Rightarrow> ApprovalRecord \<Rightarrow> string" where
  "elevation_agent env r = (case Option.bind (result_ok (ae_parse_json env (apr_arguments_json r))) (\<lambda>v. string_member v ''agent_id'') of
      Some a \<Rightarrow> a | None \<Rightarrow> apr_agent_id r)"

definition grant_elevation :: "approval_env \<Rightarrow> u64 \<Rightarrow> AgentRequest \<Rightarrow> ApprovalRecord \<Rightarrow> approval_store \<Rightarrow> approval_store" where
  "grant_elevation env now req r = upsert_elevation \<lparr>eg_session_id = rq_session_id req, eg_user_id = rq_user_id req,
     eg_agent_id = elevation_agent env r, eg_granted_at_us = now, eg_expires_at_us = Some (now + 3600000000)\<rparr>"

definition run_approved ::
  "approval_env \<Rightarrow> 'w approval_runtime \<Rightarrow> u64 \<Rightarrow> AgentRequest \<Rightarrow> ApprovalRecord \<Rightarrow> 'w \<Rightarrow> approval_store \<Rightarrow> string \<times> 'w \<times> approval_store" where
  "run_approved env rt now req r w st =
    (if apr_tool_name r = agent_elevation_tool_name
     then (''Approved elevation for agent '' @ quoted (elevation_agent env r) @ ''.'',
       rt_set_session_agent rt (rq_session_id req) (rq_channel req) (rq_user_id req) (elevation_agent env r) w,
       grant_elevation env now req r st)
     else let agent = (case normalize_override_value (rt_session_agent rt (rq_session_id req) (rq_channel req) (rq_user_id req) w) of
               Some a \<Rightarrow> a | None \<Rightarrow> ''omni'');
              (result, w) = rt_execute rt agent (rq_session_id req) (rq_user_id req)
               \<lparr>tl_invocation_id = None, tl_name = apr_tool_name r, tl_arguments = apr_arguments_json r\<rparr> w in
       ((case result of
           Inr v \<Rightarrow> ''Approved '' @ quoted (apr_tool_name r) @ ''.'' @ nl @ render_for_prompt v
         | Inl e \<Rightarrow> ''Approved '' @ quoted (apr_tool_name r) @ '', but execution failed: '' @ error_text e), w, st))"

definition handle_cli_approval_command ::
  "approval_env \<Rightarrow> 'w approval_runtime \<Rightarrow> u64 \<Rightarrow> AgentRequest \<Rightarrow> 'w \<Rightarrow> approval_store \<Rightarrow> string option \<times> 'w \<times> approval_store" where
  "handle_cli_approval_command env rt now req w st =
    (case Option.bind (as_text (rq_content req)) (\<lambda>t. if trim_ws t = [] then None
        else parse_control_intent (trim_ws t) (rq_channel req)) of
       Some (ResolveApproval decision (Some target) _) \<Rightarrow>
         (case resolve_cli_approval_id env (rq_session_id req) (rq_user_id req) target now st of
            (Inl e, st) \<Rightarrow> (Some e, w, st)
          | (Inr k, st) \<Rightarrow> (case resolve_approval_record k decision now st of
              (Inl e, st) \<Rightarrow> (Some e, w, st)
            | (Inr r, st) \<Rightarrow>
                if decision = Decline then (Some (''Denied approval '' @ quoted k @ ''.''), w, st)
                else (let (reply, w, st) = run_approved env rt now req r w st in (Some reply, w, st))))
     | Some (ResolveApproval decision None _) \<Rightarrow>
         (Some ''Usage: /approve <approval_id|number> or /deny <approval_id|number>'', w, st)
     | _ \<Rightarrow> (None, w, st))"

end
