(* ===== verification/ApprovalLaws.thy ===== *)
theory ApprovalLaws
  imports Approvals ToolGuardLaws
begin

text \<open>What an approval guarantees: handles belong to their session and expire, a decision is made once as long as nobody
  asks again, and where the answer runs something else than what was shown.\<close>

section \<open>Handles\<close>

definition handles_ok :: "approval_store \<Rightarrow> bool" where
  "handles_ok st \<longleftrightarrow> unique_keys hd_handle_id (st_handles st) \<and> unique_keys hd_approval_id (st_handles st)"

lemma allocate_Some:
  assumes "allocate_handle n i seed row rows = (Some h, rows')" "hd_approval_id row \<notin> keys_of hd_approval_id rows"
  shows "h \<notin> keys_of hd_handle_id rows \<and> rows' = rows @ [row\<lparr>hd_handle_id := h\<rparr>]"
  using assms
proof (induction n arbitrary: i)
  case (Suc n)
  have "map_option hd_approval_id (find_by hd_handle_id h rows) \<noteq> Some (hd_approval_id row)" for h
  proof
    assume "map_option hd_approval_id (find_by hd_handle_id h rows) = Some (hd_approval_id row)"
    then obtain z where z: "find_by hd_handle_id h rows = Some z" "hd_approval_id row = hd_approval_id z" by auto
    from find_by_SomeD [OF z(1)] have "z \<in> set rows" by simp
    with z(2) Suc.prems(2) show False by simp
  qed
  with Suc show ?case by (auto simp: Let_def has_key_iff split: if_splits)
qed simp

lemma allocate_None: "allocate_handle n i seed row rows = (None, rows') \<Longrightarrow> rows' = rows"
  by (induction n arbitrary: i) (auto simp: Let_def split: if_splits)

lemma allocate_existing: "allocate_handle n i seed row rows = (r, rows') \<Longrightarrow> set rows \<subseteq> set rows'"
  by (induction n arbitrary: i) (auto simp: Let_def split: if_splits)

lemma handles_ok_prune: "handles_ok st \<Longrightarrow> handles_ok (prune_expired_approval_handles now st)"
  by (simp add: handles_ok_def prune_expired_approval_handles_def distinct_map_filter)

lemma resolve_or_create_ok:
  assumes "resolve_or_create_approval_handle env k session user created expires st = (r, st')" "handles_ok st"
  shows "handles_ok st'"
proof (cases "find_by hd_approval_id k (st_handles st)")
  case None
  let ?row = "\<lparr>hd_handle_id = [], hd_approval_id = k, hd_session_id = ae_show_uuid env session, hd_user_id = user,
    hd_created_at_us = created, hd_expires_at_us = expires\<rparr>"
  obtain h rows where a: "allocate_handle 32 0 (ae_seed env k) ?row (st_handles st) = (h, rows)" by force
  have new: "hd_approval_id ?row \<notin> keys_of hd_approval_id (st_handles st)" using None by (simp add: find_by_None_iff)
  show ?thesis
  proof (cases h)
    case None
    with a have "rows = st_handles st" by (simp only: allocate_None)
    with assms \<open>find_by _ _ _ = None\<close> a show ?thesis by (auto simp: resolve_or_create_approval_handle_def handles_ok_def)
  next
    case (Some x)
    from allocate_Some [OF a [unfolded Some] new] assms \<open>find_by _ _ _ = None\<close> a new show ?thesis
      by (auto simp: resolve_or_create_approval_handle_def handles_ok_def)
  qed
qed (use assms in \<open>simp add: resolve_or_create_approval_handle_def\<close>)

lemma ensure_handle_ok: "ensure_approval_handle env r st = (h, st') \<Longrightarrow> handles_ok st \<Longrightarrow> handles_ok st'"
  unfolding ensure_approval_handle_def using resolve_or_create_ok [OF _ handles_ok_prune] .

lemma ensure_handle_frame:
  "ensure_approval_handle env r st = (h, st') \<Longrightarrow> st_approvals st' = st_approvals st \<and> st_elevations st' = st_elevations st"
  by (auto simp: ensure_approval_handle_def resolve_or_create_approval_handle_def prune_expired_approval_handles_def
      split: option.splits prod.splits)

lemma find_handle_iff:
  assumes "unique_keys hd_handle_id rows"
  shows "map_option hd_approval_id (List.find (\<lambda>r. hd_handle_id r = h \<and> P r) rows) = Some k \<longleftrightarrow>
    (\<exists>r\<in>set rows. hd_handle_id r = h \<and> P r \<and> hd_approval_id r = k)"
  using assms
proof (induction rows)
  case (Cons x rows)
  show ?case
  proof (cases "hd_handle_id x = h")
    case True
    with Cons.prems have "\<forall>r\<in>set rows. hd_handle_id r \<noteq> h" by (auto simp: image_iff)
    with True Cons show ?thesis by auto
  next
    case False
    with Cons show ?thesis by simp
  qed
qed simp

lemma resolve_handle_iff:
  assumes "handles_ok st"
  shows "resolve_approval_handle env h session user now st = Some k \<longleftrightarrow> (\<exists>r\<in>set (st_handles st). hd_handle_id r = h
    \<and> (hd_session_id r = ae_show_uuid env session \<and> hd_user_id r = user \<and> sint now \<le> sint (hd_expires_at_us r)) \<and> hd_approval_id r = k)"
  unfolding resolve_approval_handle_def
  by (rule find_handle_iff) (use assms in \<open>simp add: handles_ok_def\<close>)

text \<open>C36: the handle given to a new approval leads to that approval exactly for its user in its session, and up to 24
  hours after the request.\<close>

theorem fresh_handle_leads_to_owner:
  assumes "handles_ok st" "apr_approval_id r \<notin> keys_of hd_approval_id (st_handles st)"
    "ensure_approval_handle env r st = (Ok h, st')"
  shows "resolve_approval_handle env h session user now st' = Some k \<longleftrightarrow> k = apr_approval_id r
    \<and> ae_show_uuid env session = ae_show_uuid env (apr_session_id r) \<and> user = apr_user_id r
    \<and> sint now \<le> sint (saturating_add (apr_created_at_us r) approval_handle_ttl_us)"
proof -
  let ?s = "prune_expired_approval_handles (apr_created_at_us r) st"
  let ?expires = "saturating_add (apr_created_at_us r) approval_handle_ttl_us"
  let ?row = "\<lparr>hd_handle_id = [], hd_approval_id = apr_approval_id r, hd_session_id = ae_show_uuid env (apr_session_id r),
    hd_user_id = apr_user_id r, hd_created_at_us = apr_created_at_us r, hd_expires_at_us = ?expires\<rparr>"
  have new: "hd_approval_id ?row \<notin> keys_of hd_approval_id (st_handles ?s)"
    using assms(2) by (auto simp: prune_expired_approval_handles_def)
  then have none: "find_by hd_approval_id (apr_approval_id r) (st_handles ?s) = None" by (simp add: find_by_None_iff)
  obtain g rows where a: "allocate_handle 32 0 (ae_seed env (apr_approval_id r)) ?row (st_handles ?s) = (g, rows)" by force
  with assms(3) none have g: "g = Some h" "st' = ?s\<lparr>st_handles := rows\<rparr>"
    by (auto simp: ensure_approval_handle_def resolve_or_create_approval_handle_def result_simps)
  from allocate_Some [OF a [unfolded g(1)] new] have h: "h \<notin> keys_of hd_handle_id (st_handles ?s)"
    "rows = st_handles ?s @ [?row\<lparr>hd_handle_id := h\<rparr>]" by simp_all
  have rows: "st_handles st' = st_handles ?s @ [?row\<lparr>hd_handle_id := h\<rparr>]" using g(2) h(2) by simp
  have "handles_ok st'" using ensure_handle_ok [OF assms(3,1)] .
  from resolve_handle_iff [OF this, of env h session user now k] h(1) show ?thesis by (auto simp: rows image_iff)
qed

text \<open>A handle that is still there is given out again as it is, however soon it expires and whoever asks.\<close>

lemma stale_handle_given_again:
  assumes "find_by hd_approval_id (apr_approval_id r) (st_handles st) = Some row" "sint (apr_created_at_us r) \<le> sint (hd_expires_at_us row)"
  shows "\<exists>st'. ensure_approval_handle env r st = (Ok (hd_handle_id (the (find_by hd_approval_id (apr_approval_id r)
    (filter (\<lambda>x. \<not> sint (hd_expires_at_us x) < sint (apr_created_at_us r)) (st_handles st))))), st')"
proof -
  have "row \<in> set (st_handles st)" "hd_approval_id row = apr_approval_id r" using find_by_SomeD [OF assms(1)] by simp_all
  then obtain x where "find_by hd_approval_id (apr_approval_id r)
      (filter (\<lambda>x. \<not> sint (hd_expires_at_us x) < sint (apr_created_at_us r)) (st_handles st)) = Some x"
    using assms(2) find_by_None_iff [of hd_approval_id "apr_approval_id r"
        "filter (\<lambda>x. \<not> sint (hd_expires_at_us x) < sint (apr_created_at_us r)) (st_handles st)"] by force
  then show ?thesis
    by (simp add: ensure_approval_handle_def resolve_or_create_approval_handle_def prune_expired_approval_handles_def)
qed

section \<open>Decisions\<close>

definition decided :: "ApprovalRecord \<Rightarrow> bool" where
  "decided r \<longleftrightarrow> apr_status r \<noteq> PendingApprovalStatus"

definition record_of :: "string \<Rightarrow> approval_store \<Rightarrow> ApprovalRecord option" where
  "record_of k st = find_by apr_approval_id k (st_approvals st)"

lemma read_approval_iff: "read_approval k st = Ok r \<longleftrightarrow> record_of k st = Some r"
  by (simp add: read_approval_def record_of_def result_simps)

lemma read_approval_Err: "read_approval k st = Err e \<Longrightarrow> record_of k st = None"
  by (simp add: read_approval_def record_of_def result_simps)

lemma record_of_upsert: "record_of k (upsert_approval r st) = (if k = apr_approval_id r then Some r else record_of k st)"
  by (simp add: record_of_def upsert_approval_def find_by_upsert_by)

lemma record_of_id: "record_of k st = Some r \<Longrightarrow> apr_approval_id r = k"
  unfolding record_of_def by (auto dest: find_by_SomeD)

lemma resolve_record_Ok_iff:
  "resolve_approval_record k decision now st = (Ok r', st') \<longleftrightarrow> (\<exists>r. record_of k st = Some r \<and> \<not> decided r
     \<and> r' = r\<lparr>apr_status := (case decision of Approve \<Rightarrow> Approved | Decline \<Rightarrow> Denied), apr_resolved_at_us := Some now\<rparr>
     \<and> st' = upsert_approval r' st)"
  by (auto simp: resolve_approval_record_def read_approval_iff decided_def Let_def dest: read_approval_Err split: sum.splits)

lemma resolve_record_keeps_decided:
  assumes "record_of k st = Some r" "decided r" "resolve_approval_record k' decision now st = (res, st')"
  shows "record_of k st' = Some r"
proof (cases res)
  case (Inl e)
  with assms(3) have "st' = st" by (auto simp: resolve_approval_record_def Let_def split: sum.splits if_splits)
  with assms(1) show ?thesis by simp
next
  case (Inr r')
  then obtain q where q: "record_of k' st = Some q" "\<not> decided q" "apr_approval_id r' = k'" "st' = upsert_approval r' st"
    using assms(3) record_of_id by (fastforce simp: resolve_record_Ok_iff)
  with assms(1,2) show ?thesis by (auto simp: record_of_upsert)
qed

lemma resolve_record_decides:
  assumes "resolve_approval_record k decision now st = (Ok r, st')"
  shows "record_of k st' = Some r \<and> decided r"
proof -
  from assms obtain q where "record_of k st = Some q" "st' = upsert_approval r st" "decided r" "apr_approval_id r = apr_approval_id q"
    by (auto simp: resolve_record_Ok_iff decided_def split: ApprovalResolutionDecision.splits)
  then show ?thesis using record_of_id by (auto simp: record_of_upsert)
qed

lemma record_of_handle: "ensure_approval_handle env r st = (h, st') \<Longrightarrow> record_of k st' = record_of k st"
  using ensure_handle_frame by (fastforce simp: record_of_def)

lemma number_handles_frame: "number_handles env i rs st = (out, st') \<Longrightarrow> record_of k st' = record_of k st"
proof (induction env i rs st arbitrary: out st' rule: number_handles.induct)
  case (2 env i r rs st)
  obtain h s where h: "ensure_approval_handle env r st = (h, s)" by force
  obtain rest s' where rest: "number_handles env (i + 1) rs s = (rest, s')" by force
  from 2(1) [OF h [symmetric] refl rest] 2(2) record_of_handle [OF h] h rest show ?case by (auto simp: Let_def)
qed simp

lemma cli_id_frame: "resolve_cli_approval_id env session user token now st = (res, st') \<Longrightarrow> record_of k st' = record_of k st"
  using number_handles_frame [of env 1 "list_approvals (Some session) (Some user) (Some PendingApprovalStatus) st" st]
  by (auto simp: resolve_cli_approval_id_def list_cli_pending_approvals_def Let_def split: if_splits option.splits prod.splits)

lemma run_approved_frame: "run_approved env rt now req r w st = (reply, w', st') \<Longrightarrow> record_of k st' = record_of k st"
  by (auto simp: run_approved_def grant_elevation_def upsert_elevation_def record_of_def Let_def split: if_splits prod.splits)

lemma answer_keeps_decided:
  assumes "record_of k st = Some r" "decided r" "handle_cli_approval_command env rt now req w st = (reply, w', st')"
  shows "record_of k st' = Some r"
proof -
  have keep: "record_of k s = Some r \<Longrightarrow> resolve_approval_record k' decision now s = (res, s') \<Longrightarrow> record_of k s' = Some r"
    for k' decision s res s' using resolve_record_keeps_decided [OF _ assms(2)] .
  have "record_of k s = Some r" if "resolve_cli_approval_id env session user token now st = (res, s)" for session user token res s
    using cli_id_frame [OF that] assms(1) by simp
  note this [dest] keep [dest]
  have "run_approved env rt now req q w s = (reply, w', s') \<Longrightarrow> record_of k s = Some r \<Longrightarrow> record_of k s' = Some r"
    for q s reply s' using run_approved_frame by metis
  note this [dest]
  show ?thesis
    using assms(1,3) unfolding handle_cli_approval_command_def Let_def
    by (auto split: option.splits ControlIntent.splits prod.splits sum.splits if_splits)
qed

text \<open>What happens to approvals as long as nobody asks for the approval \<open>k\<close> again.\<close>

inductive approval_step :: "approval_env \<Rightarrow> 'w approval_runtime \<Rightarrow> string \<Rightarrow> 'w \<times> approval_store \<Rightarrow> 'w \<times> approval_store \<Rightarrow> bool"
  for env rt k where
  OtherAsked: "apr_approval_id r \<noteq> k \<Longrightarrow> persist_pending env note' r st = (res, st') \<Longrightarrow> approval_step env rt k (w, st) (w, st')"
| Answered: "handle_cli_approval_command env rt now req w st = (reply, w', st') \<Longrightarrow> approval_step env rt k (w, st) (w', st')"

lemma record_of_persist:
  assumes "persist_pending env note' r st = (res, st')"
  shows "record_of k st' = (if k = apr_approval_id r then Some r else record_of k st)"
proof -
  let ?s = "persist_pending_approval_working_set_entry env r (upsert_approval r st)"
  obtain h where "ensure_approval_handle env r ?s = (h, st')"
    using assms by (auto simp: persist_pending_def Let_def split: prod.splits)
  from record_of_handle [OF this] have "record_of k st' = record_of k ?s" .
  also have "\<dots> = record_of k (upsert_approval r st)"
    by (simp add: persist_pending_approval_working_set_entry_def append_working_set_entry_def record_of_def)
  finally show ?thesis by (simp add: record_of_upsert)
qed

text \<open>C20: a decision on an approval is final as long as nobody asks for the same approval again: no answer of any user and
  no other request changes its record, so what it approves runs at most once.\<close>

theorem decision_final:
  assumes "(approval_step env rt k)\<^sup>*\<^sup>* (w, st) (w', st')" "record_of k st = Some r" "decided r"
  shows "record_of k st' = Some r"
  using assms
proof (induction rule: rtranclp_induct2)
  case (step w1 s1 w2 s2)
  from step(2) step.IH [OF step.prems] step.prems(2) show ?case
    by cases (auto simp: record_of_persist dest: answer_keeps_decided)
qed

text \<open>C16: an approval stands for the latest call of its tool in its session, whatever was shown to the user before: once a
  second call of the tool asks for approval, the answer to the first prompt approves the arguments of the second, also
  when the first had been denied.\<close>

theorem approval_follows_latest_call:
  assumes "persist_pending_approval_for_result env t1 req1 (ToolApprovalRequired call1 p1) st1 = (Ok (r1, prompt1), st1')"
    "persist_pending_approval_for_result env t2 req2 (ToolApprovalRequired call2 p2) st2 = (res2, st2')"
    "rq_session_id req2 = rq_session_id req1" "tl_name call2 = tl_name call1"
  shows "fst (resolve_approval_record (apr_approval_id r1) Approve now st2') =
    Ok ((build_tool_approval_record env t2 req2 call2 p2)\<lparr>apr_status := Approved, apr_resolved_at_us := Some now\<rparr>)"
proof -
  let ?r = "build_tool_approval_record env t2 req2 call2 p2"
  have "r1 = build_tool_approval_record env t1 req1 call1 p1"
    using assms(1) by (auto simp: persist_pending_def Let_def result_simps split: prod.splits)
  then have k: "apr_approval_id r1 = apr_approval_id ?r"
    using assms(3,4) by (simp add: build_tool_approval_record_def Let_def pending_record_def)
  have "record_of (apr_approval_id ?r) st2' = Some ?r"
    using assms(2) by (simp add: record_of_persist)
  moreover have "\<not> decided ?r" by (simp add: decided_def build_tool_approval_record_def Let_def pending_record_def)
  ultimately show ?thesis
    unfolding k by (simp add: resolve_approval_record_def read_approval_def record_of_def [symmetric] decided_def Let_def)
qed

section \<open>Who may answer\<close>

lemma split_whitespace_two:
  assumes "\<forall>c\<in>set a. \<not> is_whitespace c" "\<forall>c\<in>set b. \<not> is_whitespace c" "a \<noteq> []" "b \<noteq> []"
  shows "split_whitespace (a @ CHR '' '' # b) = [a, b]"
proof -
  have "is_whitespace (CHR '' '')" by (simp add: is_whitespace_def char_code_def)
  from split_on_sep [of is_whitespace, OF this, of a b] assms show ?thesis by (simp add: split_whitespace_def split_on_id)
qed

lemma trim_ws_ends:
  assumes "\<not> is_whitespace (hd s)" "\<not> is_whitespace (last s)"
  shows "trim_ws s = s"
  by (cases "s = []") (use assms in \<open>auto simp: trim_ws_def dropWhile_id hd_rev\<close>)

lemma parse_approve:
  assumes "\<forall>c\<in>set k. \<not> is_whitespace c" "k \<noteq> []"
  shows "trim_ws (''/approve '' @ k) = ''/approve '' @ k"
    "parse_control_intent (''/approve '' @ k) channel = Some (ResolveApproval Approve (Some k) None)"
proof -
  have "last (''/approve '' @ k) = last k" using assms(2) by simp
  then have "\<not> is_whitespace (last (''/approve '' @ k))" using assms by simp
  then show t: "trim_ws (''/approve '' @ k) = ''/approve '' @ k"
    by (intro trim_ws_ends) (simp_all add: is_whitespace_def char_code_def)
  have "split_whitespace (''/approve'' @ CHR '' '' # k) = [''/approve'', k]"
    using assms by (intro split_whitespace_two) (simp_all add: is_whitespace_def char_code_def)
  moreover have "normalize_control_alias channel ''/approve'' = ''/approve''"
    by (cases channel) (simp_all add: normalize_control_alias_def)
  ultimately show "parse_control_intent (''/approve '' @ k) channel = Some (ResolveApproval Approve (Some k) None)"
    using t by (simp add: parse_control_intent_def Let_def intent_of_def nth_part_def)
qed

text \<open>C5: whoever names the id of a pending approval may answer it: the session and the user of the request play no part,
  and the approved call is executed, without policy checks, in the session of the one who answers.\<close>

theorem approval_ignores_owner:
  assumes "record_of k st = Some r" "\<not> decided r" "apr_tool_name r \<noteq> agent_elevation_tool_name"
    "\<forall>c\<in>set k. \<not> is_whitespace c" "k \<noteq> []" "\<not> list_all is_digit k" "k \<notin> keys_of hd_handle_id (st_handles st)"
    "rq_content req = TextContent (''/approve '' @ k)"
  shows "\<exists>reply agent. handle_cli_approval_command env rt now req w st = (Some reply,
    snd (rt_execute rt agent (rq_session_id req) (rq_user_id req)
      \<lparr>tl_invocation_id = None, tl_name = apr_tool_name r, tl_arguments = apr_arguments_json r\<rparr> w),
    upsert_approval (r\<lparr>apr_status := Approved, apr_resolved_at_us := Some now\<rparr>) st)"
proof -
  have "resolve_approval_handle env k session user now st = None" for session user
    using assms(7) by (auto simp: resolve_approval_handle_def find_None_iff)
  then have "resolve_cli_approval_id env session user k now st = (Ok k, st)" for session user
    using assms(4-6) by (simp add: resolve_cli_approval_id_def resolve_approval_selector_def trim_ws_id Let_def)
  moreover have "resolve_approval_record k Approve now st = (Ok (r\<lparr>apr_status := Approved, apr_resolved_at_us := Some now\<rparr>),
      upsert_approval (r\<lparr>apr_status := Approved, apr_resolved_at_us := Some now\<rparr>) st)"
    using assms(1,2) by (simp add: resolve_approval_record_def read_approval_def record_of_def [symmetric] decided_def Let_def)
  ultimately show ?thesis
    using assms(3,8) parse_approve [OF assms(4,5)]
    by (auto simp: handle_cli_approval_command_def run_approved_def Let_def split: prod.splits) (metis snd_conv)
qed

section \<open>The domain that is asked for\<close>

abbreviation is_quote :: "char \<Rightarrow> bool" where "is_quote c \<equiv> c = CHR 0x27"

lemma last_split_append: "\<forall>c\<in>set b. \<not> p c \<Longrightarrow> last (split_on p (a @ b)) = last (split_on p a) @ b"
  by (simp add: split_on_append split_on_id)

lemma quoted_pieces:
  assumes "\<forall>c\<in>set a. \<not> is_quote c" "\<forall>c\<in>set b. \<not> is_quote c"
  shows "split_on is_quote (a @ quoted b @ rest) = a # b # split_on is_quote rest"
proof -
  have "a @ quoted b @ rest = a @ CHR 0x27 # (b @ CHR 0x27 # rest)" by (simp add: quoted_def)
  then show ?thesis using assms by (simp add: split_on_sep split_on_id)
qed

text \<open>A quoted word after a given text in a text: its pieces follow each other among the pieces between quotes.\<close>

lemma contains_quoted_pieces:
  assumes "contains_str (a @ quoted b) s" "\<forall>c\<in>set a. \<not> is_quote c" "\<forall>c\<in>set b. \<not> is_quote c"
  shows "\<exists>xs x ys. split_on is_quote s = xs @ (x @ a) # b # ys"
proof -
  from assms(1) obtain l r where "s = l @ (a @ quoted b) @ r" by (auto simp: contains_str_iff)
  then have s: "s = (l @ a) @ CHR 0x27 # (b @ CHR 0x27 # r)" by (simp add: quoted_def)
  have "split_on is_quote s = split_on is_quote (l @ a) @ b # split_on is_quote r"
    unfolding s using split_on_sep [of is_quote "CHR 0x27" "l @ a" "b @ CHR 0x27 # r"] split_on_sep [of is_quote "CHR 0x27" b r]
      split_on_id [of b is_quote] assms(3) by simp
  moreover have "split_on is_quote (l @ a) = butlast (split_on is_quote (l @ a)) @ [last (split_on is_quote l) @ a]"
    using append_butlast_last_id [OF split_on_nonempty [of is_quote "l @ a"]] last_split_append [OF assms(2), of l] by simp
  ultimately show ?thesis
    by (intro exI [of _ "butlast (split_on is_quote (l @ a))"] exI [of _ "last (split_on is_quote l)"] exI [of _ "split_on is_quote r"]) simp
qed

text \<open>The error of the executor when the policy denies the access to a domain.\<close>

definition domain_denial :: "WebActionFamily \<Rightarrow> string \<Rightarrow> string" where
  "domain_denial family domain = error_text (ToolError (''policy denied action '' @ quoted (domain_action family) @
     '' on resource '' @ quoted (''web_domain_'' @ underscored {CHR ''.'', CHR ''-''} domain)))"

lemma domain_action_name: "domain_action f = ''web_domain_'' @ family_name f"
  by (cases f) simp_all

lemma family_name_inj: "family_name f = family_name g \<longleftrightarrow> f = g"
  by (cases f; cases g) simp_all

lemma action_quote_free: "\<forall>c\<in>set (domain_action f). \<not> is_quote c"
  by (cases f) simp_all

lemma domain_denial_pieces:
  assumes "\<forall>c\<in>set domain. \<not> is_quote c"
  shows "split_on is_quote (domain_denial f domain) = [''tool error: policy denied action '', domain_action f,
    '' on resource '', ''web_domain_'' @ underscored {CHR ''.'', CHR ''-''} domain, []]"
proof -
  let ?d = "''web_domain_'' @ underscored {CHR ''.'', CHR ''-''} domain"
  have d: "\<forall>c\<in>set ?d. \<not> is_quote c" using assms by (auto simp: underscored_def)
  have a: "\<forall>c\<in>set ''tool error: policy denied action ''. \<not> is_quote c" "\<forall>c\<in>set '' on resource ''. \<not> is_quote c" by simp_all
  have "split_on is_quote ('' on resource '' @ quoted ?d @ []) = ['' on resource '', ?d, []]"
    by (subst quoted_pieces [OF a(2) d]) simp
  moreover have "split_on is_quote (''tool error: policy denied action '' @ quoted (domain_action f) @ ('' on resource '' @ quoted ?d)) =
      ''tool error: policy denied action '' # domain_action f # split_on is_quote ('' on resource '' @ quoted ?d)"
    by (rule quoted_pieces [OF a(1) action_quote_free])
  moreover have "domain_denial f domain = ''tool error: policy denied action '' @ quoted (domain_action f) @ ('' on resource '' @ quoted ?d)"
    by (simp add: domain_denial_def)
  ultimately show ?thesis by simp
qed

lemma denied_family_of_denial:
  assumes "\<forall>c\<in>set domain. \<not> is_quote c"
  shows "denied_family (domain_denial f domain) = Some f"
proof -
  have "contains_str (''policy denied action '' @ quoted (''web_domain_'' @ family_name g)) (domain_denial f domain) \<longleftrightarrow> g = f" for g
  proof
    assume "contains_str (''policy denied action '' @ quoted (''web_domain_'' @ family_name g)) (domain_denial f domain)"
    then have "contains_str (''policy denied action '' @ quoted (domain_action g)) (domain_denial f domain)" by (simp only: domain_action_name)
    from contains_quoted_pieces [OF this _ action_quote_free] obtain xs x ys where
      "split_on is_quote (domain_denial f domain) = xs @ (x @ ''policy denied action '') # domain_action g # ys" by auto
    then have "xs @ (x @ ''policy denied action '') # domain_action g # ys = [''tool error: policy denied action '', domain_action f,
        '' on resource '', ''web_domain_'' @ underscored {CHR ''.'', CHR ''-''} domain, []]"
      using domain_denial_pieces [OF assms] by simp
    then consider "domain_action g = domain_action f" | "x @ ''policy denied action '' = domain_action f"
      | "x @ ''policy denied action '' = '' on resource ''" | "domain_action g = []"
      by (auto simp: append_eq_Cons_conv Cons_eq_append_conv)
    then show "g = f"
    proof cases
      case 1
      then show ?thesis by (simp add: domain_action_name family_name_inj)
    next
      case 2
      then have "last (domain_action f) = CHR '' ''" by (metis last_appendR last_ConsR list.distinct(1) last.simps)
      then show ?thesis by (cases f) simp_all
    next
      case 3
      from arg_cong [OF 3, of length] show ?thesis by simp
    next
      case 4
      then show ?thesis by (cases g) simp_all
    qed
  next
    assume "g = f"
    then show "contains_str (''policy denied action '' @ quoted (''web_domain_'' @ family_name g)) (domain_denial f domain)"
      unfolding contains_str_iff domain_denial_def domain_action_name
      by (intro exI [of _ "''tool error: ''"] exI [of _ "'' on resource '' @ quoted (''web_domain_'' @ underscored {CHR ''.'', CHR ''-''} domain)"]) simp
  qed
  then show ?thesis by (cases f) (simp_all add: denied_family_def all_families_def)
qed

lemma strip_suffix_Some: "strip_suffix p (s @ p) = Some s"
  by (auto simp: strip_suffix_def ends_with_iff)

lemma replace_char: "replace_all [c] [d] s = map (\<lambda>x. if x = c then d else x) s"
  by (induction "[c]" "[d]" s rule: replace_all.induct) auto

lemma denied_domain_of_denial:
  assumes "\<forall>c\<in>set domain. \<not> is_quote c" "CHR '' '' \<notin> set domain"
  shows "denied_domain (domain_denial f domain) = Some (map (\<lambda>c. if c \<in> {CHR ''_'', CHR ''-''} then CHR ''.'' else c) domain)"
proof -
  let ?d = "''web_domain_'' @ underscored {CHR ''.'', CHR ''-''} domain" and ?sep = "''resource '' @ [CHR 0x27]"
  let ?front = "''tool error: policy denied action '' @ quoted (domain_action f) @ '' on ''"
  have message: "domain_denial f domain = ?front @ ?sep @ (?d @ [CHR 0x27])" by (simp add: domain_denial_def quoted_def)
  have "\<not> contains_str ?sep (?front @ butlast ?sep)" by (cases f) (simp_all add: quoted_def)
  from find_str_first [OF this, of "?d @ [CHR 0x27]"] have first: "split_once ?sep (domain_denial f domain) = Some (?front, ?d @ [CHR 0x27])"
    unfolding message by (simp add: split_once_def)
  have "CHR '' '' \<notin> set (?d @ [CHR 0x27])" using assms(2) by (auto simp: underscored_def)
  moreover have "CHR '' '' \<in> set s" if "contains_str ?sep s" for s using that by (auto simp: contains_str_iff)
  ultimately have "\<not> contains_str ?sep (?d @ [CHR 0x27])" by blast
  then have "split_once ?sep (?d @ [CHR 0x27]) = None" by (simp add: split_once_def find_str_None)
  with first have "second_piece ?sep (domain_denial f domain) = Some (?d @ [CHR 0x27])" by (simp only: second_piece_def option.map prod.case option.case)
  then have "denied_domain (domain_denial f domain) = Some (replace_all ''_'' ''.'' (underscored {CHR ''.'', CHR ''-''} domain))"
    using strip_suffix_Some [of "[CHR 0x27]" ?d] by (simp add: denied_domain_def strip_prefix_def)
  then show ?thesis by (auto simp: replace_char underscored_def)
qed

text \<open>C37: when the policy denies a domain, and the user's text names no URL, the approval that is asked for is for the
  domain with every dash and underscore replaced by a dot: it is the denied domain exactly when that has none.\<close>

theorem domain_approval_matches_denial:
  assumes "find_map (url_host_in env) (split_whitespace (request_text_from_content (ae_show_f64 env) (rq_content req))) = None"
    "\<forall>c\<in>set domain. \<not> is_quote c" "CHR '' '' \<notin> set domain"
  shows "extract_domain_approval_request env req (domain_denial f domain) = Some (domain, f) \<longleftrightarrow>
    set domain \<inter> {CHR ''_'', CHR ''-''} = {}"
proof -
  have "map (\<lambda>c. if c \<in> {CHR ''_'', CHR ''-''} then CHR ''.'' else c) domain = domain \<longleftrightarrow> set domain \<inter> {CHR ''_'', CHR ''-''} = {}"
    by (induction domain) auto
  then show ?thesis
    using assms denied_family_of_denial [OF assms(2)] denied_domain_of_denial [OF assms(2,3)]
    by (simp add: extract_domain_approval_request_def)
qed

section \<open>Examples\<close>

definition example_env :: approval_env where
  "example_env = \<lparr>ae_show_uuid = (\<lambda>_. ''s''), ae_show_f64 = (\<lambda>_. []), ae_parse_json = (\<lambda>_. Err ''no''), ae_print = (\<lambda>_. []),
     ae_print_pretty = (\<lambda>_. []), ae_parse_url = (\<lambda>_. Err ''no''), ae_seed = (\<lambda>_. ''0'')\<rparr>"

definition no_approvals :: approval_store where
  "no_approvals = \<lparr>st_approvals = [], st_handles = [], st_elevations = [], st_working_set = []\<rparr>"

definition example_request :: "string \<Rightarrow> AgentRequest" where
  "example_request t = \<lparr>rq_request_id = [], rq_session_id = [], rq_channel = Telegram, rq_user_id = ''u'',
     rq_content = TextContent t, rq_tool_runtime_policy = None, rq_timestamp_us = 0\<rparr>"

definition example_call :: "string \<Rightarrow> ToolCall" where
  "example_call arguments = \<lparr>tl_invocation_id = None, tl_name = ''run_shell'', tl_arguments = arguments\<rparr>"

definition example_approval :: ApprovalRecord where
  "example_approval = pending_record example_env 0 (example_request ''hi'') ''s__run_shell'' ''pending'' ''run_shell'' ''{}'' []"

definition example_answerer :: "nat approval_runtime" where
  "example_answerer = \<lparr>rt_execute = (\<lambda>_ _ _ _ w. (Err (ToolError ''no''), w + 1)), rt_session_agent = (\<lambda>_ _ _ _. None),
     rt_set_session_agent = (\<lambda>_ _ _ _ w. w)\<rparr>"

lemma ensure_fresh:
  assumes "st_handles st = []"
  shows "\<exists>st'. ensure_approval_handle example_env r st = (Ok ''apv-0'', st')"
  using assms allocate_handle.simps(2) [of 31 0]
  by (auto simp: ensure_approval_handle_def prune_expired_approval_handles_def resolve_or_create_approval_handle_def example_env_def
      handle_name_def has_key_def numeral_eq_Suc Let_def)

theorem fresh_handle_leads_to_owner_witness:
  "\<exists>st'. ensure_approval_handle example_env example_approval no_approvals = (Ok ''apv-0'', st') \<and>
    resolve_approval_handle example_env ''apv-0'' [] ''u'' 0 st' = Some ''s__run_shell''"
proof -
  obtain st' where st': "ensure_approval_handle example_env example_approval no_approvals = (Ok ''apv-0'', st')"
    using ensure_fresh [of no_approvals] by (auto simp: no_approvals_def)
  have "handles_ok no_approvals" "apr_approval_id example_approval \<notin> keys_of hd_approval_id (st_handles no_approvals)"
    by (simp_all add: handles_ok_def no_approvals_def)
  from fresh_handle_leads_to_owner [OF this st', of "[]" "''u''" 0 "''s__run_shell''"] st' show ?thesis
    by (auto simp: example_approval_def pending_record_def example_request_def approval_handle_ttl_us_def saturating_add_def)
qed

theorem approval_follows_latest_call_witness:
  "\<exists>st2. fst (resolve_approval_record ''s__run_shell'' Approve 3 st2) =
    Ok ((build_tool_approval_record example_env 2 (example_request ''b'') (example_call ''rm'') [])
      \<lparr>apr_status := Approved, apr_resolved_at_us := Some 3\<rparr>)"
proof -
  let ?first = "persist_pending_approval_for_result example_env 1 (example_request ''a'') (ToolApprovalRequired (example_call ''ls'') []) no_approvals"
  let ?r = "build_tool_approval_record example_env 1 (example_request ''a'') (example_call ''ls'') []"
  obtain s where "ensure_approval_handle example_env ?r
      (persist_pending_approval_working_set_entry example_env ?r (upsert_approval ?r no_approvals)) = (Ok ''apv-0'', s)"
    using ensure_fresh [of "persist_pending_approval_working_set_entry example_env ?r (upsert_approval ?r no_approvals)"]
    by (auto simp: persist_pending_approval_working_set_entry_def append_working_set_entry_def upsert_approval_def no_approvals_def)
  then obtain m where first: "?first = (Ok (?r, m), s)" by (auto simp: persist_pending_def Let_def)
  obtain res2 st2 where second: "persist_pending_approval_for_result example_env 2 (example_request ''b'')
      (ToolApprovalRequired (example_call ''rm'') []) s = (res2, st2)" by force
  have same: "rq_session_id (example_request ''b'') = rq_session_id (example_request ''a'')" "tl_name (example_call ''rm'') = tl_name (example_call ''ls'')"
    "apr_approval_id ?r = ''s__run_shell''"
    by (simp_all add: example_request_def example_call_def build_tool_approval_record_def pending_record_def approval_id_for_def example_env_def Let_def)
  from approval_follows_latest_call [OF first second same(1,2), of 3] show ?thesis unfolding same(3) by (rule exI [of _ st2])
qed

lemma example_record: "record_of ''s__run_shell'' (upsert_approval example_approval no_approvals) = Some example_approval"
  "\<not> decided example_approval" "apr_tool_name example_approval = ''run_shell''"
  by (simp_all add: record_of_upsert example_approval_def pending_record_def decided_def)

theorem approval_ignores_owner_witness:
  "\<exists>reply st'. handle_cli_approval_command example_env example_answerer 5
      ((example_request ''/approve s__run_shell'')\<lparr>rq_session_id := [7], rq_user_id := ''eve''\<rparr>) 0
      (upsert_approval example_approval no_approvals) = (Some reply, 1, st')"
proof -
  have "\<forall>c\<in>set ''s__run_shell''. \<not> is_whitespace c" "\<not> list_all is_digit ''s__run_shell''"
    by (simp_all add: is_whitespace_def is_digit_def char_code_def)
  from approval_ignores_owner [OF example_record(1,2) _ this(1) _ this(2),
      of "(example_request ''/approve s__run_shell'')\<lparr>rq_session_id := [7], rq_user_id := ''eve''\<rparr>" example_env example_answerer 5 0]
  show ?thesis
    by (auto simp: example_record(3) agent_elevation_tool_name_def example_request_def example_answerer_def upsert_approval_def no_approvals_def)
qed

theorem decision_final_witness:
  "\<exists>w' st' reply. handle_cli_approval_command example_env example_answerer 5 (example_request ''/deny s__run_shell'') 0
      (upsert_approval (example_approval\<lparr>apr_status := Approved\<rparr>) no_approvals) = (reply, w', st')
    \<and> record_of ''s__run_shell'' st' = Some (example_approval\<lparr>apr_status := Approved\<rparr>)"
proof -
  let ?st = "upsert_approval (example_approval\<lparr>apr_status := Approved\<rparr>) no_approvals"
  obtain reply w' st' where run: "handle_cli_approval_command example_env example_answerer 5 (example_request ''/deny s__run_shell'') 0 ?st
      = (reply, w', st')" by (metis prod.collapse)
  then have "(approval_step example_env example_answerer ''s__run_shell'')\<^sup>*\<^sup>* (0, ?st) (w', st')"
    by (intro r_into_rtranclp Answered)
  moreover have "record_of ''s__run_shell'' ?st = Some (example_approval\<lparr>apr_status := Approved\<rparr>)"
    "decided (example_approval\<lparr>apr_status := Approved\<rparr>)"
    by (simp_all add: record_of_upsert example_approval_def pending_record_def decided_def)
  ultimately have "record_of ''s__run_shell'' st' = Some (example_approval\<lparr>apr_status := Approved\<rparr>)" by (rule decision_final)
  with run show ?thesis by (intro exI conjI)
qed

theorem domain_approval_matches_denial_witness:
  "extract_domain_approval_request example_env (example_request ''look it up'') (domain_denial FetchFamily ''my-site.org'')
    \<noteq> Some (''my-site.org'', FetchFamily)"
proof -
  have none: "url_host_in example_env t = None" for t by (simp add: url_host_in_def example_env_def)
  have "find_map (url_host_in example_env) ts = None" for ts by (induction ts) (simp_all add: none)
  from domain_approval_matches_denial [OF this, where domain = "''my-site.org''" and f = FetchFamily] show ?thesis by simp
qed

end
