(* ===== verification/ConnectionPool.thy ===== *)
theory ConnectionPool
  imports Prelude
begin

text \<open>The pool of SQLite connections behind every operation of the runtime store (\<open>RuntimeStorePool\<close> and
  \<open>StoreConnection\<close> in \<open>aria-x/src/runtime_store.rs\<close>, \<open>connect\<close> in \<open>runtime_store/connection.rs\<close>).  Threads run
  concurrently; an action is what one thread does between two points where others can interfere: a section under the
  lock of the idle connections, or one access to the atomic counter.  Connections are interchangeable, so the idle
  ones are counted.\<close>

section \<open>State\<close>

definition SQLITE_POOL_MAX_SIZE :: nat where
  "SQLITE_POOL_MAX_SIZE = 8"

text \<open>Where a thread is: outside the store, at the head of the loop of \<open>connect\<close>, past an empty pop, past the load
  of the counter, opening a connection, about to wait, waiting, woken, or holding every connection it needs.\<close>

datatype pc = Outside | Trying | Empty | Loaded nat | Opening | AtWait | Waiting | Woken | Working

text \<open>\<open>th_goal\<close> is how many connections the operation of the thread holds at once: one for most, two for those that
  prune the audit tables while the connection of their insert is still in scope.\<close>

record store_thread =
  th_pc :: pc
  th_held :: nat
  th_goal :: nat

record RuntimeStorePool =
  pl_available :: nat
  pl_total :: nat
  pl_threads :: "store_thread list"

definition fresh_pool :: "nat \<Rightarrow> RuntimeStorePool" where
  "fresh_pool n = \<lparr>pl_available = 0, pl_total = 0, pl_threads = replicate n \<lparr>th_pc = Outside, th_held = 0, th_goal = 0\<rparr>\<rparr>"

section \<open>Actions\<close>

definition set_thread :: "nat \<Rightarrow> store_thread \<Rightarrow> RuntimeStorePool \<Rightarrow> RuntimeStorePool" where
  "set_thread t th p = p\<lparr>pl_threads := (pl_threads p)[t := th]\<rparr>"

definition at_pc :: "nat \<Rightarrow> pc \<Rightarrow> RuntimeStorePool \<Rightarrow> bool" where
  "at_pc t c p = (t < length (pl_threads p) \<and> th_pc (pl_threads p ! t) = c)"

definition move_to :: "nat \<Rightarrow> pc \<Rightarrow> RuntimeStorePool \<Rightarrow> RuntimeStorePool" where
  "move_to t c p = set_thread t ((pl_threads p ! t)\<lparr>th_pc := c\<rparr>) p"

text \<open>A thread gets a connection: it works once it has all it needs, and asks for the next one otherwise.\<close>

definition obtain_conn :: "store_thread \<Rightarrow> store_thread" where
  "obtain_conn th = th\<lparr>th_held := th_held th + 1, th_pc := (if th_held th + 1 < th_goal th then Trying else Working)\<rparr>"

text \<open>The next step inside \<open>connect\<close> of a thread that is not waiting.  \<open>opens\<close> says whether SQLite opens a new
  connection when the step does that.\<close>

definition connect_step :: "nat \<Rightarrow> bool \<Rightarrow> RuntimeStorePool \<Rightarrow> RuntimeStorePool option" where
  "connect_step t opens p = (let th = pl_threads p ! t; take_idle = set_thread t (obtain_conn th) (p\<lparr>pl_available := pl_available p - 1\<rparr>) in
     if length (pl_threads p) \<le> t then None
     else case th_pc th of
       Trying \<Rightarrow> Some (if 0 < pl_available p then take_idle else move_to t Empty p)
     | Empty \<Rightarrow> Some (move_to t (Loaded (pl_total p)) p)
     | Loaded c \<Rightarrow> Some (if c < SQLITE_POOL_MAX_SIZE
         then if pl_total p = c then move_to t Opening (p\<lparr>pl_total := c + 1\<rparr>) else move_to t Trying p
         else move_to t AtWait p)
     | Opening \<Rightarrow> Some (if opens then set_thread t (obtain_conn th) p
         else move_to t (if 0 < th_held th then Working else Outside) (p\<lparr>pl_total := pl_total p - 1\<rparr>))
     | AtWait \<Rightarrow> Some (move_to t Waiting p)
     | Woken \<Rightarrow> Some (if 0 < pl_available p then take_idle else move_to t Trying p)
     | _ \<Rightarrow> None)"

text \<open>\<open>Drop for StoreConnection\<close>: the connection is idle again and one waiting thread, if there is any, is woken.\<close>

definition drop_conn :: "nat \<Rightarrow> nat \<Rightarrow> RuntimeStorePool \<Rightarrow> RuntimeStorePool option" where
  "drop_conn t w p = (if \<not> at_pc t Working p then None
     else let th = pl_threads p ! t;
              p' = set_thread t (th\<lparr>th_held := th_held th - 1, th_pc := (if th_held th \<le> 1 then Outside else Working)\<rparr>)
                     (p\<lparr>pl_available := pl_available p + 1\<rparr>) in
          if \<not> list_ex (\<lambda>x. th_pc x = Waiting) (pl_threads p) then Some p'
          else if at_pc w Waiting p then Some (move_to w Woken p') else None)"

text \<open>What can happen: a thread starts an operation, takes a step inside \<open>connect\<close>, drops a connection (waking a
  given thread), or wakes up without a notification, which condition variables are allowed to do.\<close>

datatype pool_action = Begin nat bool | Step nat bool | DropConn nat nat | Spurious nat

fun act :: "pool_action \<Rightarrow> RuntimeStorePool \<Rightarrow> RuntimeStorePool option" where
  "act (Begin t prunes) p = (if at_pc t Outside p
     then Some (set_thread t \<lparr>th_pc = Trying, th_held = 0, th_goal = (if prunes then 2 else 1)\<rparr> p) else None)"
| "act (Step t opens) p = connect_step t opens p"
| "act (DropConn t w) p = drop_conn t w p"
| "act (Spurious t) p = (if at_pc t Waiting p then Some (move_to t Woken p) else None)"

fun run :: "pool_action list \<Rightarrow> RuntimeStorePool \<Rightarrow> RuntimeStorePool option" where
  "run [] p = Some p"
| "run (a # as) p = (case act a p of None \<Rightarrow> None | Some p' \<Rightarrow> run as p')"

inductive reaches :: "RuntimeStorePool \<Rightarrow> RuntimeStorePool \<Rightarrow> bool" for p where
  here: "reaches p p"
| there: "reaches p q \<Longrightarrow> act a q = Some r \<Longrightarrow> reaches p r"

lemma reaches_run: "run as q = Some r \<Longrightarrow> reaches p q \<Longrightarrow> reaches p r"
  by (induction as arbitrary: q) (auto split: option.splits intro: reaches.there)

section \<open>No connection is lost and no ninth one is opened\<close>

definition weight :: "store_thread \<Rightarrow> int" where
  "weight th = int (th_held th) + (if th_pc th = Opening then 1 else 0)"

definition pool_weight :: "RuntimeStorePool \<Rightarrow> int" where
  "pool_weight p = sum_list (map weight (pl_threads p))"

definition thread_ok :: "store_thread \<Rightarrow> bool" where
  "thread_ok th = (th_held th \<le> 2 \<and> (th_pc th = Working \<longrightarrow> 0 < th_held th) \<and> (th_pc th = Outside \<longrightarrow> th_held th = 0) \<and>
     (th_pc th \<noteq> Outside \<and> th_pc th \<noteq> Working \<longrightarrow> th_held th < th_goal th \<and> th_goal th \<le> 2))"

definition pool_ok :: "RuntimeStorePool \<Rightarrow> bool" where
  "pool_ok p = (pl_total p \<le> SQLITE_POOL_MAX_SIZE \<and> int (pl_total p) = int (pl_available p) + pool_weight p \<and>
     list_all thread_ok (pl_threads p))"

lemma sum_list_update_int:
  "t < length xs \<Longrightarrow> sum_list ((xs :: int list)[t := x]) = sum_list xs + x - xs ! t"
  by (induction xs arbitrary: t) (auto split: nat.splits)

lemma pool_weight_set:
  "t < length (pl_threads p) \<Longrightarrow> pool_weight (set_thread t th p) = pool_weight p + weight th - weight (pl_threads p ! t)"
  by (simp add: pool_weight_def set_thread_def map_update sum_list_update_int)

lemma set_thread_simps [simp]:
  "pl_available (set_thread t th p) = pl_available p" "pl_total (set_thread t th p) = pl_total p"
  "length (pl_threads (set_thread t th p)) = length (pl_threads p)"
  by (simp_all add: set_thread_def)

lemma pool_weight_counters [simp]:
  "pool_weight (p\<lparr>pl_available := a\<rparr>) = pool_weight p" "pool_weight (p\<lparr>pl_total := n\<rparr>) = pool_weight p"
  by (simp_all add: pool_weight_def)

lemma all_ok_set:
  "list_all thread_ok (pl_threads p) \<Longrightarrow> thread_ok th \<Longrightarrow> list_all thread_ok (pl_threads (set_thread t th p))"
  by (auto simp: set_thread_def list_all_iff dest!: set_update_subset_insert [THEN subsetD])

lemma thread_ok_at: "pool_ok p \<Longrightarrow> t < length (pl_threads p) \<Longrightarrow> thread_ok (pl_threads p ! t)"
  by (simp add: pool_ok_def list_all_length)

lemma weight_nonneg: "0 \<le> weight th"
  by (simp add: weight_def)

lemma weight_le_pool:
  assumes "t < length (pl_threads p)"
  shows "weight (pl_threads p ! t) \<le> pool_weight p"
proof -
  have "weight (pl_threads p ! t) \<in> set (map weight (pl_threads p))" using assms by simp
  moreover have "0 \<le> x" if "x \<in> set (map weight (pl_threads p))" for x using that weight_nonneg by auto
  ultimately show ?thesis unfolding pool_weight_def
    by (intro member_le_sum_list) auto
qed

text \<open>The general step: a thread is replaced and the two counters change, with the sum kept.\<close>

lemma pool_ok_change:
  assumes ok: "pool_ok p" and t: "t < length (pl_threads p)" and th: "thread_ok th"
    and n: "n \<le> SQLITE_POOL_MAX_SIZE"
    and sum: "int n - int (pl_total p) = int a - int (pl_available p) + weight th - weight (pl_threads p ! t)"
  shows "pool_ok (set_thread t th (p\<lparr>pl_available := a, pl_total := n\<rparr>))"
proof -
  let ?p = "p\<lparr>pl_available := a, pl_total := n\<rparr>"
  have same: "pl_threads ?p = pl_threads p" by simp
  have "list_all thread_ok (pl_threads (set_thread t th ?p))" using ok th by (intro all_ok_set) (simp_all add: pool_ok_def)
  moreover have "pool_weight (set_thread t th ?p) = pool_weight p + weight th - weight (pl_threads p ! t)"
    using pool_weight_set [of t ?p th] t by (simp add: pool_weight_def)
  moreover have "int (pl_total p) = int (pl_available p) + pool_weight p" using ok by (simp add: pool_ok_def)
  ultimately show ?thesis using n sum unfolding pool_ok_def by simp
qed

lemma counters_id: "p\<lparr>pl_available := pl_available p, pl_total := pl_total p\<rparr> = (p :: RuntimeStorePool)"
  by simp

lemma pool_ok_set:
  assumes "pool_ok p" "t < length (pl_threads p)" "thread_ok th" "weight th = weight (pl_threads p ! t)"
  shows "pool_ok (set_thread t th p)"
  using pool_ok_change [of p t th "pl_total p" "pl_available p"] assms by (simp add: counters_id pool_ok_def)

lemma connect_step_ok:
  assumes ok: "pool_ok p" and st: "connect_step t opens p = Some q"
  shows "pool_ok q"
proof -
  define th where "th = pl_threads p ! t"
  have t: "t < length (pl_threads p)" using st by (auto simp: connect_step_def Let_def split: if_splits)
  have tok: "thread_ok th" using thread_ok_at [OF ok t] by (simp add: th_def)
  have total: "pl_total p \<le> SQLITE_POOL_MAX_SIZE" using ok by (simp add: pool_ok_def)
  have w: "weight th \<le> pool_weight p" using weight_le_pool [OF t] by (simp add: th_def)
  have move: "pool_ok (move_to t c p)" if "th_pc th \<notin> {Outside, Working, Opening}" "c \<notin> {Outside, Working, Opening}" for c
    unfolding move_to_def using that tok by (intro pool_ok_set ok t) (auto simp: thread_ok_def weight_def th_def)
  have take_idle: "pool_ok (set_thread t (obtain_conn th) (p\<lparr>pl_available := pl_available p - 1\<rparr>))"
    if "th_pc th = Trying \<or> th_pc th = Woken" "0 < pl_available p"
  proof -
    have "thread_ok (obtain_conn th)" "weight (obtain_conn th) = weight th + 1"
      using that tok by (auto simp: obtain_conn_def thread_ok_def weight_def)
    then show ?thesis using pool_ok_change [OF ok t, of "obtain_conn th" "pl_total p" "pl_available p - 1"] that total
      by (simp add: th_def)
  qed
  show ?thesis
  proof (cases "th_pc th")
    case (Loaded c)
    have "pool_ok (move_to t Opening (p\<lparr>pl_total := c + 1\<rparr>))" if "c < SQLITE_POOL_MAX_SIZE" "pl_total p = c"
      using pool_ok_change [OF ok t, of "th\<lparr>th_pc := Opening\<rparr>" "c + 1" "pl_available p"] that tok Loaded
      by (auto simp: thread_ok_def weight_def th_def move_to_def)
    then show ?thesis using st Loaded t move by (auto simp: connect_step_def Let_def th_def [symmetric] split: if_splits)
  next
    case Opening
    have one: "pool_ok (set_thread t (obtain_conn th) p)"
      using Opening tok by (intro pool_ok_set ok t) (auto simp: thread_ok_def weight_def th_def obtain_conn_def)
    have pos: "1 \<le> pl_total p" using ok w Opening by (auto simp: pool_ok_def weight_def)
    have "pool_ok (move_to t (if 0 < th_held th then Working else Outside) (p\<lparr>pl_total := pl_total p - 1\<rparr>))"
      using pool_ok_change [OF ok t, of "th\<lparr>th_pc := (if 0 < th_held th then Working else Outside)\<rparr>" "pl_total p - 1" "pl_available p"]
        tok Opening total pos by (auto simp: thread_ok_def weight_def th_def move_to_def)
    with one show ?thesis using st Opening t by (auto simp: connect_step_def Let_def th_def [symmetric] split: if_splits)
  qed (use st t move take_idle in \<open>auto simp: connect_step_def Let_def th_def [symmetric] split: if_splits\<close>)
qed

lemma move_to_other: "t \<noteq> w \<Longrightarrow> w < length (pl_threads p) \<Longrightarrow> pl_threads (move_to w c p) ! t = pl_threads p ! t"
  by (simp add: move_to_def set_thread_def)

lemma wake_ok: "pool_ok p \<Longrightarrow> at_pc w Waiting p \<Longrightarrow> pool_ok (move_to w Woken p)"
  unfolding move_to_def using thread_ok_at [of p w] by (intro pool_ok_set) (auto simp: at_pc_def thread_ok_def weight_def)

lemma drop_conn_ok:
  assumes ok: "pool_ok p" and st: "drop_conn t w p = Some q"
  shows "pool_ok q"
proof -
  define th where "th = pl_threads p ! t"
  have t: "t < length (pl_threads p)" "th_pc th = Working"
    using st by (auto simp: drop_conn_def at_pc_def th_def split: if_splits)
  have tok: "thread_ok th" using thread_ok_at [OF ok t(1)] by (simp add: th_def)
  define p' where "p' = set_thread t (th\<lparr>th_held := th_held th - 1, th_pc := (if th_held th \<le> 1 then Outside else Working)\<rparr>)
    (p\<lparr>pl_available := pl_available p + 1\<rparr>)"
  have "pool_ok p'"
    using pool_ok_change [OF ok t(1), of "th\<lparr>th_held := th_held th - 1, th_pc := (if th_held th \<le> 1 then Outside else Working)\<rparr>"
      "pl_total p" "pl_available p + 1"] ok tok t by (auto simp: p'_def pool_ok_def thread_ok_def weight_def th_def)
  moreover have "at_pc w Waiting p'" if "at_pc w Waiting p"
    using that t by (cases "w = t") (auto simp: at_pc_def p'_def th_def set_thread_def)
  moreover have "q = p' \<or> at_pc w Waiting p \<and> q = move_to w Woken p'"
    using st by (auto simp: drop_conn_def p'_def th_def Let_def split: if_splits)
  ultimately show ?thesis using wake_ok by blast
qed

lemma act_ok: "pool_ok p \<Longrightarrow> act a p = Some q \<Longrightarrow> pool_ok q"
proof (cases a)
  case (Begin t prunes)
  assume ok: "pool_ok p" and st: "act a p = Some q"
  then have t: "t < length (pl_threads p)" "th_pc (pl_threads p ! t) = Outside" using Begin by (auto simp: at_pc_def split: if_splits)
  then show ?thesis using st Begin thread_ok_at [OF ok t(1)]
    by (auto simp: at_pc_def thread_ok_def weight_def intro!: pool_ok_set ok)
next
  case (Spurious t)
  assume "pool_ok p" "act a p = Some q"
  then show ?thesis using Spurious wake_ok by (auto split: if_splits)
qed (auto intro: connect_step_ok drop_conn_ok)

lemma fresh_pool_ok: "pool_ok (fresh_pool n)"
  by (simp add: pool_ok_def fresh_pool_def pool_weight_def weight_def thread_ok_def list_all_iff map_replicate_const sum_list_replicate)

text \<open>The actions of a thread that opens a connection of its own.\<close>

definition open_own :: "nat \<Rightarrow> bool \<Rightarrow> pool_action list" where
  "open_own t prunes = Begin t prunes # replicate 4 (Step t True)"

lemma tiny_run:
  "(case run (open_own 0 True @ open_own 1 False @ [DropConn 1 0]) (fresh_pool 2) of None \<Rightarrow> False
    | Some p \<Rightarrow> sum_list (map th_held (pl_threads p)) + length (filter (\<lambda>th. th_pc th = Opening) (pl_threads p)) = 1)"
  by code_simp

text \<open>C6: the pool never has more than eight connections, and every one it counts is idle, held by a thread or being
  opened by one: whatever the threads do, in whatever order, and whichever openings fail, none is lost.\<close>

theorem pool_conserves_connections:
  assumes "reaches (fresh_pool n) p"
  shows "pl_total p \<le> 8 \<and>
    pl_total p = pl_available p + sum_list (map th_held (pl_threads p)) + length (filter (\<lambda>th. th_pc th = Opening) (pl_threads p))"
proof -
  have "pool_ok p" using assms by (induction) (auto intro: fresh_pool_ok act_ok)
  then have ok: "pl_total p \<le> 8" "int (pl_total p) = int (pl_available p) + pool_weight p"
    by (auto simp: pool_ok_def SQLITE_POOL_MAX_SIZE_def)
  have "sum_list (map weight ths) = int (sum_list (map th_held ths) + length (filter (\<lambda>th. th_pc th = Opening) ths))" for ths
    by (induction ths) (auto simp: weight_def)
  from ok(2) [unfolded pool_weight_def this] ok(1) show ?thesis by linarith
qed

theorem pool_conserves_connections_witness:
  "(case run (open_own 0 True @ open_own 1 False @ [DropConn 1 0]) (fresh_pool 2) of None \<Rightarrow> False
    | Some p \<Rightarrow> pl_total p \<le> 8 \<and> pl_total p = pl_available p + 1)"
proof -
  obtain p where p: "run (open_own 0 True @ open_own 1 False @ [DropConn 1 0]) (fresh_pool 2) = Some p"
    "sum_list (map th_held (pl_threads p)) + length (filter (\<lambda>th. th_pc th = Opening) (pl_threads p)) = 1"
    using tiny_run by (auto split: option.splits)
  then show ?thesis using pool_conserves_connections [OF reaches_run [OF p(1) reaches.here]] by simp
qed

section \<open>Operations that need a second connection\<close>

text \<open>Every connection is held by a thread that waits for another one.\<close>

definition stalled :: "RuntimeStorePool \<Rightarrow> bool" where
  "stalled p = (pl_total p = SQLITE_POOL_MAX_SIZE \<and> pl_available p = 0 \<and>
     list_all (\<lambda>th. th_pc th \<noteq> Opening \<and> th_pc th \<noteq> Working) (pl_threads p))"

lemma stalled_set:
  "stalled p \<Longrightarrow> th_pc th \<noteq> Opening \<Longrightarrow> th_pc th \<noteq> Working \<Longrightarrow> stalled (set_thread t th p)"
  by (auto simp: stalled_def set_thread_def list_all_iff dest!: set_update_subset_insert [THEN subsetD])

lemma stalled_at: "stalled p \<Longrightarrow> t < length (pl_threads p) \<Longrightarrow> th_pc (pl_threads p ! t) \<noteq> Opening \<and> th_pc (pl_threads p ! t) \<noteq> Working"
  by (simp add: stalled_def list_all_length)

lemma stalled_act: "stalled p \<Longrightarrow> act a p = Some q \<Longrightarrow> stalled q"
proof (cases a)
  case (Step t opens)
  assume st: "stalled p" "act a p = Some q"
  then have t: "t < length (pl_threads p)" using Step by (auto simp: connect_step_def Let_def split: if_splits)
  have full: "pl_available p = 0" "pl_total p = SQLITE_POOL_MAX_SIZE" using st by (simp_all add: stalled_def)
  show ?thesis using st Step t stalled_at [OF st(1) t] full
    by (auto simp: connect_step_def Let_def move_to_def split: pc.splits if_splits intro!: stalled_set)
next
  case (DropConn t w)
  assume st: "stalled p" "act a p = Some q"
  then show ?thesis using DropConn stalled_at [OF st(1), of t] by (auto simp: drop_conn_def at_pc_def split: if_splits)
qed (auto simp: move_to_def split: if_splits intro!: stalled_set)

definition stall_run :: "pool_action list" where
  "stall_run = concat (map (\<lambda>t. open_own t True) [0..<8])"

lemma stall_run_stalls: "(case run stall_run (fresh_pool 8) of None \<Rightarrow> False | Some p \<Rightarrow> stalled p)"
  by code_simp

text \<open>C7: eight operations that prune while they hold the connection of their insert can take the whole pool, and
  from then on no operation of the store ever gets the connections it needs, whatever happens afterwards: an audit
  write under load stops the runtime.\<close>

theorem pruning_writes_deadlock:
  "\<exists>p. reaches (fresh_pool 8) p \<and>
     (\<forall>q. reaches p q \<longrightarrow> pl_available q = 0 \<and> list_all (\<lambda>th. th_pc th \<noteq> Working) (pl_threads q))"
proof -
  obtain p where p: "run stall_run (fresh_pool 8) = Some p" "stalled p"
    using stall_run_stalls by (auto split: option.splits)
  have "stalled q" if "reaches p q" for q using that by (induction) (auto intro: p(2) stalled_act)
  moreover have "reaches (fresh_pool 8) p" using p(1) by (rule reaches_run) (rule reaches.here)
  ultimately show ?thesis by (auto simp: stalled_def list_all_iff intro!: exI [of _ p])
qed

theorem pruning_writes_deadlock_witness:
  "\<exists>p. reaches (fresh_pool 8) p \<and> list_all (\<lambda>th. th_pc th \<noteq> Working) (pl_threads p)"
  using pruning_writes_deadlock reaches.here by blast

text \<open>With operations that need one connection each, a full pool without an idle connection has a thread that can go on.\<close>

lemma single_connections_progress:
  assumes "reaches (fresh_pool n) p" "\<forall>th\<in>set (pl_threads p). th_held th = 0 \<or> th_pc th = Working"
    and "pl_available p = 0" "pl_total p = 8"
  shows "\<exists>th\<in>set (pl_threads p). th_pc th = Working \<or> th_pc th = Opening"
proof (rule ccontr)
  assume none: "\<not> ?thesis"
  then have "sum_list (map th_held (pl_threads p)) = 0" using assms(2) by (auto simp: sum_list_eq_0_iff)
  moreover have "filter (\<lambda>th. th_pc th = Opening) (pl_threads p) = []" using none by (auto simp: filter_empty_conv)
  moreover have "pool_ok p" using assms(1) by (induction) (auto intro: fresh_pool_ok act_ok)
  moreover have "\<forall>th\<in>set (pl_threads p). weight th = 0" using none assms(2) by (auto simp: weight_def)
  then have "sum_list (map weight (pl_threads p)) = sum_list (map (\<lambda>_. 0) (pl_threads p))"
    by (intro arg_cong [of _ _ sum_list] map_cong refl) auto
  then have "pool_weight p = 0" unfolding pool_weight_def by (simp only: sum_list_0)
  ultimately show False using assms(3,4) by (simp add: pool_ok_def)
qed

section \<open>A connection that comes back too early\<close>

definition lost_run :: "pool_action list" where
  "lost_run = concat (map (\<lambda>t. open_own t False) [0..<8]) @ Begin 8 False # replicate 3 (Step 8 True) @
     map (\<lambda>t. DropConn t 0) [0..<8] @ [Step 8 True]"

lemma lost_run_waits:
  "(case run lost_run (fresh_pool 9) of None \<Rightarrow> False
    | Some p \<Rightarrow> at_pc 8 Waiting p \<and> pl_available p = 8 \<and> list_all (\<lambda>th. th_pc th = Outside) (take 8 (pl_threads p)))"
  by code_simp

text \<open>C25: a thread that read the counter before the connections came back goes to sleep beside an idle pool: all eight
  connections are free, no other thread is in the store, and nobody is left to wake it.\<close>

theorem waits_beside_idle_pool:
  "\<exists>p. reaches (fresh_pool 9) p \<and> at_pc 8 Waiting p \<and> pl_available p = 8 \<and>
     list_all (\<lambda>th. th_pc th = Outside) (take 8 (pl_threads p))"
proof -
  obtain p where p: "run lost_run (fresh_pool 9) = Some p" "at_pc 8 Waiting p \<and> pl_available p = 8 \<and>
      list_all (\<lambda>th. th_pc th = Outside) (take 8 (pl_threads p))"
    using lost_run_waits by (auto split: option.splits)
  then show ?thesis using reaches_run [OF p(1) reaches.here] by blast
qed

end
