(* ===== verification/AuditTables.thy ===== *)
theory AuditTables
  imports ToolGuards Orchestrator Learning
begin

text \<open>The logs of the runtime store (\<open>aria-x/src/runtime_store/audits.rs\<close>, the logs of \<open>browser.rs\<close> and \<open>skills.rs\<close>
  beside it): retrieval traces, context inspections, secret uses, and the eight operator logs that every write prunes
  to the configured number of rows.  A row is its payload, in insertion order; rows of one time are listed in that
  order.  Identifiers of a session are text in some tables and bytes in others, as the parameters of the operations
  show.  Failures of SQLite other than a second row under one key are not modelled.\<close>

section \<open>Records\<close>

datatype SecretUsageOutcome = SecretAllowed | SecretDenied

record SecretUsageAuditRecord =
  sua_audit_id :: string
  sua_agent_id :: string
  sua_session_id :: "u8 list option"
  sua_tool_name :: string
  sua_key_name :: string
  sua_target_domain :: string
  sua_outcome :: SecretUsageOutcome
  sua_detail :: string
  sua_created_at_us :: u64

record RetrievalTraceRecord =
  rtr_trace_id :: string
  rtr_request_id :: "u8 list"
  rtr_session_id :: "u8 list"
  rtr_agent_id :: string
  rtr_query_text :: string
  rtr_latency_ms :: u64
  rtr_session_hits :: u32
  rtr_workspace_hits :: u32
  rtr_policy_hits :: u32
  rtr_external_hits :: u32
  rtr_social_hits :: u32
  rtr_document_context_hits :: u32
  rtr_history_tokens :: u32
  rtr_rag_tokens :: u32
  rtr_control_tokens :: u32
  rtr_tool_count :: u32
  rtr_control_document_conflicts :: u32
  rtr_created_at_us :: u64

record ExecutionArtifact =
  xa_kind :: ExecutionArtifactKind
  xa_label :: string
  xa_payload :: "json option"
  xa_locator :: "string option"
  xa_origin_tool :: "string option"
  xa_summary :: "string option"

record ContextInspectionRecord =
  cin_context_id :: string
  cin_request_id :: "u8 list"
  cin_session_id :: "u8 list"
  cin_agent_id :: string
  cin_channel :: GatewayChannel
  cin_provider_model :: "string option"
  cin_prompt_mode :: string
  cin_history_tokens :: u32
  cin_context_tokens :: u32
  cin_system_tokens :: u32
  cin_user_tokens :: u32
  cin_tool_count :: u32
  cin_active_tool_names :: "string list"
  cin_tool_runtime_policy :: "ToolRuntimePolicy option"
  cin_tool_selection :: "ToolSelectionDecision option"
  cin_provider_request_payload :: "json option"
  cin_selected_tool_catalog :: "ToolCatalogEntry list"
  cin_hidden_tool_messages :: "string list"
  cin_emitted_artifacts :: "ExecutionArtifact list"
  cin_tool_provider_readiness :: "ToolProviderReadiness list"
  cin_pack :: ExecutionContextPack
  cin_rendered_prompt :: string
  cin_created_at_us :: u64

record SkillSignatureRecord =
  ssr_record_id :: string
  ssr_skill_id :: string
  ssr_version :: string
  ssr_algorithm :: string
  ssr_payload_sha256_hex :: string
  ssr_public_key_hex :: string
  ssr_signature_hex :: string
  ssr_source :: string
  ssr_verified :: bool
  ssr_created_at_us :: u64

record ShellExecutionAuditRecord =
  sea_audit_id :: string
  sea_session_id :: "string option"
  sea_agent_id :: "string option"
  sea_execution_backend_id :: "string option"
  sea_command :: string
  sea_cwd :: "string option"
  sea_os_containment_requested :: bool
  sea_containment_backend :: "string option"
  sea_timeout_seconds :: u64
  sea_cpu_seconds :: u64
  sea_memory_kb :: u64
  sea_exit_code :: "32 word option"
  sea_timed_out :: bool
  sea_output_truncated :: bool
  sea_error :: "string option"
  sea_duration_ms :: u64
  sea_created_at_us :: u64

record RequestPolicyAuditRecord =
  rpa_audit_id :: string
  rpa_request_id :: string
  rpa_session_id :: string
  rpa_user_id :: string
  rpa_agent_id :: "string option"
  rpa_channel :: string
  rpa_tool_runtime_policy :: ToolRuntimePolicy
  rpa_created_at_us :: u64

record RepairFallbackAuditRecord =
  rfa_audit_id :: string
  rfa_request_id :: string
  rfa_session_id :: string
  rfa_user_id :: string
  rfa_agent_id :: string
  rfa_provider_id :: "string option"
  rfa_model_id :: "string option"
  rfa_tool_name :: string
  rfa_created_at_us :: u64

record StreamingDecisionAuditRecord =
  sda_audit_id :: string
  sda_request_id :: string
  sda_session_id :: string
  sda_user_id :: string
  sda_agent_id :: string
  sda_phase :: string
  sda_mode :: string
  sda_model_ref :: "string option"
  sda_created_at_us :: u64

datatype BrowserActionKind = ProfileCreateAction | ProfileBindAction | SessionStartAction | SessionCleanupAction
  | SessionPauseAction | SessionResumeAction | SessionInspectAction | SessionStatePersistAction
  | SessionStateRestoreAction | WaitAction | ClickAction | TypeAction | SelectAction | ScrollAction
  | ScreenshotAction | DownloadAction | ExtractAction | NavigateAction | ChallengeDetectedAction

record BrowserActionAuditRecord =
  bau_audit_id :: string
  bau_browser_session_id :: "string option"
  bau_session_id :: "u8 list"
  bau_agent_id :: string
  bau_profile_id :: "string option"
  bau_action :: BrowserActionKind
  bau_target :: "string option"
  bau_metadata :: json
  bau_created_at_us :: u64

datatype BrowserChallengeKind = CaptchaChallenge | MfaChallenge | BotDefenseChallenge | LoginRequiredChallenge | UnknownChallenge

record BrowserChallengeEvent =
  bch_event_id :: string
  bch_browser_session_id :: string
  bch_session_id :: "u8 list"
  bch_agent_id :: string
  bch_profile_id :: string
  bch_challenge :: BrowserChallengeKind
  bch_url :: "string option"
  bch_message :: "string option"
  bch_created_at_us :: u64

section \<open>Rows\<close>

text \<open>\<open>INSERT\<close> without a conflict clause fails when the key is in the table.\<close>

definition insert_row :: "string \<Rightarrow> string \<Rightarrow> ('r \<Rightarrow> string) \<Rightarrow> 'r \<Rightarrow> 'r list \<Rightarrow> (string, 'r list) result" where
  "insert_row what column key r rows = (if has_key key (key r) rows
     then Err (what @ '' failed: UNIQUE constraint failed: '' @ column) else Ok (rows @ [r]))"

text \<open>\<open>WHERE column = ?\<close> when the caller gives a value, for columns that hold one and for those that may be null.\<close>

definition asked :: "'k option \<Rightarrow> 'k \<Rightarrow> bool" where
  "asked wanted v = (case wanted of None \<Rightarrow> True | Some k \<Rightarrow> v = k)"

definition asked_opt :: "'k option \<Rightarrow> 'k option \<Rightarrow> bool" where
  "asked_opt wanted v = (case wanted of None \<Rightarrow> True | Some k \<Rightarrow> v = Some k)"

definition by_age :: "('r \<Rightarrow> u64) \<Rightarrow> 'r list \<Rightarrow> 'r list" where
  "by_age time rows = sort_key (\<lambda>r. - sint (time r)) rows"

text \<open>\<open>DELETE ... WHERE key IN (SELECT key ... ORDER BY time DESC LIMIT -1 OFFSET n)\<close>, skipped when \<open>n\<close> is zero.\<close>

definition retain_rows :: "u32 \<Rightarrow> ('r \<Rightarrow> u64) \<Rightarrow> ('r \<Rightarrow> string) \<Rightarrow> 'r list \<Rightarrow> 'r list" where
  "retain_rows n time key rows = (if 0 < n then keep_latest (\<lambda>r. sint (time r)) key (unat n) rows else rows)"

section \<open>The logs\<close>

record operator_retention =
  or_skill_signature :: u32
  or_shell_exec_audit :: u32
  or_scope_denial :: u32
  or_request_policy_audit :: u32
  or_repair_fallback_audit :: u32
  or_streaming_decision_audit :: u32
  or_browser_action_audit :: u32
  or_browser_challenge_event :: u32

definition default_retention :: operator_retention where
  "default_retention = \<lparr>or_skill_signature = 5000, or_shell_exec_audit = 20000, or_scope_denial = 20000,
     or_request_policy_audit = 10000, or_repair_fallback_audit = 5000, or_streaming_decision_audit = 10000,
     or_browser_action_audit = 20000, or_browser_challenge_event = 5000\<rparr>"

record audit_store =
  retrieval_traces :: "RetrievalTraceRecord list"
  context_inspections :: "ContextInspectionRecord list"
  secret_usage_audits :: "SecretUsageAuditRecord list"
  skill_signatures :: "SkillSignatureRecord list"
  shell_exec_audits :: "ShellExecutionAuditRecord list"
  scope_denials :: "ScopeDenialRecord list"
  request_policy_audits :: "RequestPolicyAuditRecord list"
  repair_fallback_audits :: "RepairFallbackAuditRecord list"
  streaming_decision_audits :: "StreamingDecisionAuditRecord list"
  browser_action_audits :: "BrowserActionAuditRecord list"
  browser_challenge_events :: "BrowserChallengeEvent list"

definition prune_operator_records :: "operator_retention \<Rightarrow> audit_store \<Rightarrow> audit_store" where
  "prune_operator_records c st = st\<lparr>
     skill_signatures := retain_rows (or_skill_signature c) ssr_created_at_us ssr_record_id (skill_signatures st),
     shell_exec_audits := retain_rows (or_shell_exec_audit c) sea_created_at_us sea_audit_id (shell_exec_audits st),
     scope_denials := retain_rows (or_scope_denial c) sd_created_at_us sd_denial_id (scope_denials st),
     request_policy_audits := retain_rows (or_request_policy_audit c) rpa_created_at_us rpa_audit_id (request_policy_audits st),
     repair_fallback_audits := retain_rows (or_repair_fallback_audit c) rfa_created_at_us rfa_audit_id (repair_fallback_audits st),
     streaming_decision_audits :=
       retain_rows (or_streaming_decision_audit c) sda_created_at_us sda_audit_id (streaming_decision_audits st),
     browser_action_audits := retain_rows (or_browser_action_audit c) bau_created_at_us bau_audit_id (browser_action_audits st),
     browser_challenge_events :=
       retain_rows (or_browser_challenge_event c) bch_created_at_us bch_event_id (browser_challenge_events st)\<rparr>"

type_synonym audit_write = "audit_store \<Rightarrow> (string, audit_store) result"

subsection \<open>Writes\<close>

definition append_retrieval_trace :: "RetrievalTraceRecord \<Rightarrow> audit_write" where
  "append_retrieval_trace r st = map_ok (\<lambda>rows. st\<lparr>retrieval_traces := rows\<rparr>)
     (insert_row ''append retrieval trace'' ''retrieval_traces.trace_id'' rtr_trace_id r (retrieval_traces st))"

definition append_context_inspection :: "ContextInspectionRecord \<Rightarrow> audit_write" where
  "append_context_inspection r st = map_ok (\<lambda>rows. st\<lparr>context_inspections := rows\<rparr>)
     (insert_row ''append context inspection'' ''context_inspections.context_id'' cin_context_id r (context_inspections st))"

definition append_secret_usage_audit :: "SecretUsageAuditRecord \<Rightarrow> audit_write" where
  "append_secret_usage_audit r st = map_ok (\<lambda>rows. st\<lparr>secret_usage_audits := rows\<rparr>)
     (insert_row ''append secret usage audit'' ''secret_usage_audits.audit_id'' sua_audit_id r (secret_usage_audits st))"

definition append_scope_denial_row :: "operator_retention \<Rightarrow> ScopeDenialRecord \<Rightarrow> audit_write" where
  "append_scope_denial_row c r st = map_ok (\<lambda>rows. prune_operator_records c (st\<lparr>scope_denials := rows\<rparr>))
     (insert_row ''append scope denial'' ''scope_denials.denial_id'' sd_denial_id r (scope_denials st))"

definition append_shell_exec_audit :: "operator_retention \<Rightarrow> ShellExecutionAuditRecord \<Rightarrow> audit_write" where
  "append_shell_exec_audit c r st = map_ok (\<lambda>rows. prune_operator_records c (st\<lparr>shell_exec_audits := rows\<rparr>))
     (insert_row ''append shell exec audit'' ''shell_exec_audits.audit_id'' sea_audit_id r (shell_exec_audits st))"

definition append_request_policy_audit :: "operator_retention \<Rightarrow> RequestPolicyAuditRecord \<Rightarrow> audit_write" where
  "append_request_policy_audit c r st = map_ok (\<lambda>rows. prune_operator_records c (st\<lparr>request_policy_audits := rows\<rparr>))
     (insert_row ''append request policy audit'' ''request_policy_audits.audit_id'' rpa_audit_id r (request_policy_audits st))"

definition append_repair_fallback_audit :: "operator_retention \<Rightarrow> RepairFallbackAuditRecord \<Rightarrow> audit_write" where
  "append_repair_fallback_audit c r st = map_ok (\<lambda>rows. prune_operator_records c (st\<lparr>repair_fallback_audits := rows\<rparr>))
     (insert_row ''append repair fallback audit'' ''repair_fallback_audits.audit_id'' rfa_audit_id r (repair_fallback_audits st))"

definition append_streaming_decision_audit :: "operator_retention \<Rightarrow> StreamingDecisionAuditRecord \<Rightarrow> audit_write" where
  "append_streaming_decision_audit c r st = map_ok (\<lambda>rows. prune_operator_records c (st\<lparr>streaming_decision_audits := rows\<rparr>))
     (insert_row ''append streaming decision audit'' ''streaming_decision_audits.audit_id'' sda_audit_id r
       (streaming_decision_audits st))"

definition append_browser_action_audit :: "operator_retention \<Rightarrow> BrowserActionAuditRecord \<Rightarrow> audit_write" where
  "append_browser_action_audit c r st = map_ok (\<lambda>rows. prune_operator_records c (st\<lparr>browser_action_audits := rows\<rparr>))
     (insert_row ''append browser action audit'' ''browser_action_audits.audit_id'' bau_audit_id r (browser_action_audits st))"

definition append_browser_challenge_event :: "operator_retention \<Rightarrow> BrowserChallengeEvent \<Rightarrow> audit_write" where
  "append_browser_challenge_event c r st = map_ok (\<lambda>rows. prune_operator_records c (st\<lparr>browser_challenge_events := rows\<rparr>))
     (insert_row ''append browser challenge event'' ''browser_challenge_events.event_id'' bch_event_id r
       (browser_challenge_events st))"

definition append_skill_signature :: "operator_retention \<Rightarrow> SkillSignatureRecord \<Rightarrow> audit_write" where
  "append_skill_signature c r st = map_ok (\<lambda>rows. prune_operator_records c (st\<lparr>skill_signatures := rows\<rparr>))
     (insert_row ''write skill signature'' ''skill_signatures.record_id'' ssr_record_id r (skill_signatures st))"

subsection \<open>Lists\<close>

definition list_retrieval_traces ::
  "(u8 list \<Rightarrow> string) \<Rightarrow> string option \<Rightarrow> string option \<Rightarrow> audit_store \<Rightarrow> RetrievalTraceRecord list" where
  "list_retrieval_traces show_uuid session agent st = by_age rtr_created_at_us
     (filter (\<lambda>r. asked session (show_uuid (rtr_session_id r)) \<and> asked agent (rtr_agent_id r)) (retrieval_traces st))"

definition list_context_inspections ::
  "(u8 list \<Rightarrow> string) \<Rightarrow> string option \<Rightarrow> string option \<Rightarrow> audit_store \<Rightarrow> ContextInspectionRecord list" where
  "list_context_inspections show_uuid session agent st = by_age cin_created_at_us
     (filter (\<lambda>r. asked session (show_uuid (cin_session_id r)) \<and> asked agent (cin_agent_id r)) (context_inspections st))"

definition list_secret_usage_audits ::
  "(u8 list \<Rightarrow> string) \<Rightarrow> string option \<Rightarrow> string option \<Rightarrow> audit_store \<Rightarrow> SecretUsageAuditRecord list" where
  "list_secret_usage_audits show_uuid session agent st = by_age sua_created_at_us
     (filter (\<lambda>r. asked_opt session (map_option show_uuid (sua_session_id r)) \<and> asked agent (sua_agent_id r))
       (secret_usage_audits st))"

definition list_scope_denials ::
  "(u8 list \<Rightarrow> string) \<Rightarrow> string option \<Rightarrow> string option \<Rightarrow> audit_store \<Rightarrow> ScopeDenialRecord list" where
  "list_scope_denials show_uuid agent session st = by_age sd_created_at_us
     (filter (\<lambda>r. asked agent (sd_agent_id r) \<and> asked_opt session (map_option show_uuid (sd_session_id r))) (scope_denials st))"

definition list_shell_exec_audits :: "string option \<Rightarrow> string option \<Rightarrow> audit_store \<Rightarrow> ShellExecutionAuditRecord list" where
  "list_shell_exec_audits session agent st = by_age sea_created_at_us
     (filter (\<lambda>r. asked_opt session (sea_session_id r) \<and> asked_opt agent (sea_agent_id r)) (shell_exec_audits st))"

definition list_request_policy_audits :: "string option \<Rightarrow> string option \<Rightarrow> audit_store \<Rightarrow> RequestPolicyAuditRecord list" where
  "list_request_policy_audits session agent st = by_age rpa_created_at_us
     (filter (\<lambda>r. asked session (rpa_session_id r) \<and> asked_opt agent (rpa_agent_id r)) (request_policy_audits st))"

definition list_repair_fallback_audits :: "string option \<Rightarrow> string option \<Rightarrow> audit_store \<Rightarrow> RepairFallbackAuditRecord list" where
  "list_repair_fallback_audits session agent st = by_age rfa_created_at_us
     (filter (\<lambda>r. asked session (rfa_session_id r) \<and> asked agent (rfa_agent_id r)) (repair_fallback_audits st))"

definition list_streaming_decision_audits ::
  "string option \<Rightarrow> string option \<Rightarrow> audit_store \<Rightarrow> StreamingDecisionAuditRecord list" where
  "list_streaming_decision_audits session agent st = by_age sda_created_at_us
     (filter (\<lambda>r. asked session (sda_session_id r) \<and> asked agent (sda_agent_id r)) (streaming_decision_audits st))"

definition list_browser_action_audits :: "u8 list option \<Rightarrow> string option \<Rightarrow> audit_store \<Rightarrow> BrowserActionAuditRecord list" where
  "list_browser_action_audits session agent st = by_age bau_created_at_us
     (filter (\<lambda>r. asked session (bau_session_id r) \<and> asked agent (bau_agent_id r)) (browser_action_audits st))"

definition list_browser_challenge_events :: "u8 list option \<Rightarrow> string option \<Rightarrow> audit_store \<Rightarrow> BrowserChallengeEvent list" where
  "list_browser_challenge_events session agent st = by_age bch_created_at_us
     (filter (\<lambda>r. asked session (bch_session_id r) \<and> asked agent (bch_agent_id r)) (browser_challenge_events st))"

text \<open>Signatures are the one log listed from the oldest row on.\<close>

definition list_skill_signatures :: "string option \<Rightarrow> audit_store \<Rightarrow> SkillSignatureRecord list" where
  "list_skill_signatures skill st = sort_key (\<lambda>r. sint (ssr_created_at_us r))
     (filter (\<lambda>r. asked skill (ssr_skill_id r)) (skill_signatures st))"

end
