(* ===== verification/WebTables.thy ===== *)
theory WebTables
  imports AuditTables
begin

text \<open>The tables of browser, computer and crawling tools (\<open>aria-x/src/runtime_store/browser.rs\<close>, \<open>computer.rs\<close>,
  \<open>crawl.rs\<close>) with the records of \<open>aria-core/src/browser.rs\<close> and \<open>computer.rs\<close>.  A row that is written twice under its
  key keeps the second payload and time; a row of an append-only table is refused the second time.\<close>

section \<open>Records\<close>

record BrowserProfileBindingRecord =
  bb_binding_id :: string
  bb_session_id :: "u8 list"
  bb_agent_id :: string
  bb_profile_id :: string
  bb_created_at_us :: u64
  bb_updated_at_us :: u64

datatype BrowserSessionStatus = LaunchedSession | PausedSession | ExitedSession | FailedSession

record BrowserSessionRecord =
  bse_browser_session_id :: string
  bse_session_id :: "u8 list"
  bse_agent_id :: string
  bse_profile_id :: string
  bse_engine :: BrowserEngine
  bse_transport :: BrowserTransportKind
  bse_status :: BrowserSessionStatus
  bse_pid :: "u32 option"
  bse_profile_dir :: string
  bse_start_url :: "string option"
  bse_launch_command :: "string list"
  bse_error :: "string option"
  bse_created_at_us :: u64
  bse_updated_at_us :: u64

record BrowserSessionStateRecord =
  bst_state_id :: string
  bst_browser_session_id :: string
  bst_session_id :: "u8 list"
  bst_agent_id :: string
  bst_profile_id :: string
  bst_storage_path :: string
  bst_content_sha256_hex :: string
  bst_last_restored_at_us :: "u64 option"
  bst_created_at_us :: u64
  bst_updated_at_us :: u64

datatype BrowserArtifactKind = LaunchMetadata | BrowserScreenshot | DomSnapshot | ExtractedText | DownloadedFile

record BrowserArtifactRecord =
  bar_artifact_id :: string
  bar_browser_session_id :: string
  bar_session_id :: "u8 list"
  bar_agent_id :: string
  bar_profile_id :: string
  bar_kind :: BrowserArtifactKind
  bar_mime_type :: string
  bar_storage_path :: string
  bar_metadata :: json
  bar_created_at_us :: u64

record BrowserLoginStateRecord =
  bls_login_state_id :: string
  bls_browser_session_id :: string
  bls_session_id :: "u8 list"
  bls_agent_id :: string
  bls_profile_id :: string
  bls_domain :: string
  bls_state :: BrowserLoginStateKind
  bls_credential_key_names :: "string list"
  bls_notes :: "string option"
  bls_last_validated_at_us :: "u64 option"
  bls_created_at_us :: u64
  bls_updated_at_us :: u64

record ComputerSessionRecord =
  cse_computer_session_id :: string
  cse_session_id :: "u8 list"
  cse_agent_id :: string
  cse_profile_id :: string
  cse_runtime_kind :: ComputerRuntimeKind
  cse_selected_window_id :: "string option"
  cse_created_at_us :: u64
  cse_updated_at_us :: u64

record ComputerActionAuditRecord =
  caa_audit_id :: string
  caa_session_id :: "u8 list"
  caa_agent_id :: string
  caa_computer_session_id :: "string option"
  caa_profile_id :: "string option"
  caa_action :: ComputerActionKind
  caa_target :: "string option"
  caa_metadata :: json
  caa_created_at_us :: u64

datatype ComputerArtifactKind = ComputerScreenshot | WindowSnapshot | ClipboardSnapshot

record ComputerArtifactRecord =
  car_artifact_id :: string
  car_session_id :: "u8 list"
  car_agent_id :: string
  car_computer_session_id :: "string option"
  car_profile_id :: "string option"
  car_kind :: ComputerArtifactKind
  car_mime_type :: string
  car_storage_path :: string
  car_metadata :: json
  car_created_at_us :: u64

datatype CrawlJobStatus = QueuedCrawl | RunningCrawl | CompletedCrawl | FailedCrawl | CancelledCrawl

record CrawlJob =
  cj_crawl_id :: string
  cj_seed_url :: string
  cj_scope :: CrawlScope
  cj_allowed_domains :: "string list"
  cj_max_depth :: "16 word"
  cj_max_pages :: u32
  cj_render_js :: bool
  cj_capture_screenshots :: bool
  cj_change_detection :: bool
  cj_initiated_by_agent :: string
  cj_status :: CrawlJobStatus
  cj_created_at_us :: u64
  cj_updated_at_us :: u64

datatype WatchTargetKind = PageTarget | SiteTarget

datatype WatchJobStatus = ScheduledWatch | RunningWatch | PausedWatch | FailedWatch | CancelledWatch

record WatchJobRecord =
  wj_watch_id :: string
  wj_target_url :: string
  wj_target_kind :: WatchTargetKind
  wj_schedule_str :: string
  wj_agent_id :: string
  wj_session_id :: "u8 list option"
  wj_user_id :: "string option"
  wj_allowed_domains :: "string list"
  wj_capture_screenshots :: bool
  wj_change_detection :: bool
  wj_status :: WatchJobStatus
  wj_last_checked_at_us :: "u64 option"
  wj_next_check_at_us :: "u64 option"
  wj_created_at_us :: u64
  wj_updated_at_us :: u64

datatype BrowserChallengeFrequency = UnknownFrequency | RareChallenges | OccasionalChallenges | FrequentChallenges

text \<open>The map of page hashes is the list of its entries in the order of their keys.\<close>

record WebsiteMemoryRecord =
  wm_record_id :: string
  wm_domain :: string
  wm_canonical_home_url :: string
  wm_known_paths :: "string list"
  wm_known_selectors :: "string list"
  wm_known_login_entrypoints :: "string list"
  wm_known_search_patterns :: "string list"
  wm_last_successful_actions :: "string list"
  wm_page_hashes :: "(string \<times> string) list"
  wm_render_required :: bool
  wm_challenge_frequency :: BrowserChallengeFrequency
  wm_last_seen_at_us :: u64
  wm_updated_at_us :: u64

section \<open>The tables\<close>

record web_store =
  browser_profiles :: "(BrowserProfile \<times> u64) list"
  browser_profile_bindings :: "(BrowserProfileBindingRecord \<times> u64) list"
  browser_sessions :: "(BrowserSessionRecord \<times> u64) list"
  browser_session_states :: "(BrowserSessionStateRecord \<times> u64) list"
  browser_artifacts :: "BrowserArtifactRecord list"
  browser_login_states :: "(BrowserLoginStateRecord \<times> u64) list"
  computer_sessions :: "(ComputerSessionRecord \<times> u64) list"
  computer_action_audits :: "ComputerActionAuditRecord list"
  computer_artifacts :: "ComputerArtifactRecord list"
  domain_access_decisions :: "(DomainAccessDecision \<times> u64) list"
  crawl_jobs :: "(CrawlJob \<times> u64) list"
  watch_jobs :: "(WatchJobRecord \<times> u64) list"
  website_memory :: "(WebsiteMemoryRecord \<times> u64) list"

type_synonym web_change = "web_store \<Rightarrow> web_store"

definition by_payload :: "('r \<Rightarrow> 'k) \<Rightarrow> 'r \<times> u64 \<Rightarrow> 'k" where
  "by_payload key row = key (fst row)"

definition list_rows :: "('r \<Rightarrow> bool) \<Rightarrow> ('r \<times> u64) list \<Rightarrow> 'r list" where
  "list_rows P rows = newest_first (filter (\<lambda>row. P (fst row)) rows)"

subsection \<open>Browser\<close>

definition upsert_browser_profile :: "BrowserProfile \<Rightarrow> u64 \<Rightarrow> web_change" where
  "upsert_browser_profile r now st =
     st\<lparr>browser_profiles := upsert_by (by_payload bp_profile_id) (r, now) (browser_profiles st)\<rparr>"

definition upsert_browser_profile_binding :: "BrowserProfileBindingRecord \<Rightarrow> u64 \<Rightarrow> web_change" where
  "upsert_browser_profile_binding r now st =
     st\<lparr>browser_profile_bindings := upsert_by (by_payload bb_binding_id) (r, now) (browser_profile_bindings st)\<rparr>"

definition list_browser_profile_bindings ::
  "u8 list option \<Rightarrow> string option \<Rightarrow> web_store \<Rightarrow> BrowserProfileBindingRecord list" where
  "list_browser_profile_bindings session agent st =
     list_rows (\<lambda>r. asked session (bb_session_id r) \<and> asked agent (bb_agent_id r)) (browser_profile_bindings st)"

definition upsert_browser_session :: "BrowserSessionRecord \<Rightarrow> u64 \<Rightarrow> web_change" where
  "upsert_browser_session r now st =
     st\<lparr>browser_sessions := upsert_by (by_payload bse_browser_session_id) (r, now) (browser_sessions st)\<rparr>"

definition list_browser_sessions :: "u8 list option \<Rightarrow> string option \<Rightarrow> web_store \<Rightarrow> BrowserSessionRecord list" where
  "list_browser_sessions session agent st =
     list_rows (\<lambda>r. asked session (bse_session_id r) \<and> asked agent (bse_agent_id r)) (browser_sessions st)"

definition upsert_browser_session_state :: "BrowserSessionStateRecord \<Rightarrow> u64 \<Rightarrow> web_change" where
  "upsert_browser_session_state r now st =
     st\<lparr>browser_session_states := upsert_by (by_payload bst_state_id) (r, now) (browser_session_states st)\<rparr>"

definition list_browser_session_states ::
  "u8 list option \<Rightarrow> string option \<Rightarrow> web_store \<Rightarrow> BrowserSessionStateRecord list" where
  "list_browser_session_states session browser_session st =
     list_rows (\<lambda>r. asked session (bst_session_id r) \<and> asked browser_session (bst_browser_session_id r))
       (browser_session_states st)"

definition delete_browser_session_state :: "string \<Rightarrow> web_change" where
  "delete_browser_session_state k st =
     st\<lparr>browser_session_states := delete_by (by_payload bst_state_id) k (browser_session_states st)\<rparr>"

definition append_browser_artifact :: "BrowserArtifactRecord \<Rightarrow> web_store \<Rightarrow> (string, web_store) result" where
  "append_browser_artifact r st = map_ok (\<lambda>rows. st\<lparr>browser_artifacts := rows\<rparr>)
     (insert_row ''append browser artifact'' ''browser_artifacts.artifact_id'' bar_artifact_id r (browser_artifacts st))"

definition list_browser_artifacts :: "u8 list option \<Rightarrow> string option \<Rightarrow> web_store \<Rightarrow> BrowserArtifactRecord list" where
  "list_browser_artifacts session browser_session st = by_age bar_created_at_us
     (filter (\<lambda>r. asked session (bar_session_id r) \<and> asked browser_session (bar_browser_session_id r)) (browser_artifacts st))"

definition delete_browser_artifact :: "string \<Rightarrow> web_change" where
  "delete_browser_artifact k st = st\<lparr>browser_artifacts := delete_by bar_artifact_id k (browser_artifacts st)\<rparr>"

definition upsert_browser_login_state :: "BrowserLoginStateRecord \<Rightarrow> u64 \<Rightarrow> web_change" where
  "upsert_browser_login_state r now st =
     st\<lparr>browser_login_states := upsert_by (by_payload bls_login_state_id) (r, now) (browser_login_states st)\<rparr>"

definition list_browser_login_states ::
  "u8 list option \<Rightarrow> string option \<Rightarrow> string option \<Rightarrow> web_store \<Rightarrow> BrowserLoginStateRecord list" where
  "list_browser_login_states session agent domain st =
     list_rows (\<lambda>r. asked session (bls_session_id r) \<and> asked agent (bls_agent_id r) \<and> asked domain (bls_domain r))
       (browser_login_states st)"

subsection \<open>Computer\<close>

definition upsert_computer_session :: "ComputerSessionRecord \<Rightarrow> u64 \<Rightarrow> web_change" where
  "upsert_computer_session r now st =
     st\<lparr>computer_sessions := upsert_by (by_payload cse_computer_session_id) (r, now) (computer_sessions st)\<rparr>"

definition list_computer_sessions :: "u8 list option \<Rightarrow> string option \<Rightarrow> web_store \<Rightarrow> ComputerSessionRecord list" where
  "list_computer_sessions session agent st =
     list_rows (\<lambda>r. asked session (cse_session_id r) \<and> asked agent (cse_agent_id r)) (computer_sessions st)"

definition append_computer_action_audit ::
  "ComputerActionAuditRecord \<Rightarrow> web_store \<Rightarrow> (string, web_store) result" where
  "append_computer_action_audit r st = map_ok (\<lambda>rows. st\<lparr>computer_action_audits := rows\<rparr>)
     (insert_row ''append computer action audit'' ''computer_action_audits.audit_id'' caa_audit_id r (computer_action_audits st))"

definition list_computer_action_audits ::
  "u8 list option \<Rightarrow> string option \<Rightarrow> web_store \<Rightarrow> ComputerActionAuditRecord list" where
  "list_computer_action_audits session agent st = by_age caa_created_at_us
     (filter (\<lambda>r. asked session (caa_session_id r) \<and> asked agent (caa_agent_id r)) (computer_action_audits st))"

definition append_computer_artifact :: "ComputerArtifactRecord \<Rightarrow> web_store \<Rightarrow> (string, web_store) result" where
  "append_computer_artifact r st = map_ok (\<lambda>rows. st\<lparr>computer_artifacts := rows\<rparr>)
     (insert_row ''append computer artifact'' ''computer_artifacts.artifact_id'' car_artifact_id r (computer_artifacts st))"

definition list_computer_artifacts :: "u8 list option \<Rightarrow> string option \<Rightarrow> web_store \<Rightarrow> ComputerArtifactRecord list" where
  "list_computer_artifacts session agent st = by_age car_created_at_us
     (filter (\<lambda>r. asked session (car_session_id r) \<and> asked agent (car_agent_id r)) (computer_artifacts st))"

subsection \<open>Crawling\<close>

definition upsert_domain_access_decision :: "DomainAccessDecision \<Rightarrow> u64 \<Rightarrow> web_change" where
  "upsert_domain_access_decision r now st =
     st\<lparr>domain_access_decisions := upsert_by (by_payload dd_decision_id) (r, now) (domain_access_decisions st)\<rparr>"

definition upsert_crawl_job :: "CrawlJob \<Rightarrow> u64 \<Rightarrow> web_change" where
  "upsert_crawl_job r now st = st\<lparr>crawl_jobs := upsert_by (by_payload cj_crawl_id) (r, now) (crawl_jobs st)\<rparr>"

definition list_crawl_jobs :: "web_store \<Rightarrow> CrawlJob list" where
  "list_crawl_jobs st = newest_first (crawl_jobs st)"

definition delete_crawl_job :: "string \<Rightarrow> web_change" where
  "delete_crawl_job k st = st\<lparr>crawl_jobs := delete_by (by_payload cj_crawl_id) k (crawl_jobs st)\<rparr>"

definition upsert_watch_job :: "WatchJobRecord \<Rightarrow> u64 \<Rightarrow> web_change" where
  "upsert_watch_job r now st = st\<lparr>watch_jobs := upsert_by (by_payload wj_watch_id) (r, now) (watch_jobs st)\<rparr>"

definition list_watch_jobs :: "web_store \<Rightarrow> WatchJobRecord list" where
  "list_watch_jobs st = newest_first (watch_jobs st)"

definition delete_watch_job :: "string \<Rightarrow> web_change" where
  "delete_watch_job k st = st\<lparr>watch_jobs := delete_by (by_payload wj_watch_id) k (watch_jobs st)\<rparr>"

definition upsert_website_memory :: "WebsiteMemoryRecord \<Rightarrow> u64 \<Rightarrow> web_change" where
  "upsert_website_memory r now st = st\<lparr>website_memory := upsert_by (by_payload wm_record_id) (r, now) (website_memory st)\<rparr>"

definition delete_website_memory :: "string \<Rightarrow> web_change" where
  "delete_website_memory k st = st\<lparr>website_memory := delete_by (by_payload wm_record_id) k (website_memory st)\<rparr>"

definition list_website_memory :: "string option \<Rightarrow> web_store \<Rightarrow> WebsiteMemoryRecord list" where
  "list_website_memory domain st = list_rows (\<lambda>r. asked domain (wm_domain r)) (website_memory st)"

section \<open>A table that is written, listed and deleted from by key\<close>

locale keyed_table =
  fixes rows :: "'s \<Rightarrow> ('r \<times> u64) list"
    and key :: "'r \<Rightarrow> string"
    and put :: "'r \<Rightarrow> u64 \<Rightarrow> 's \<Rightarrow> 's"
  assumes rows_put: "rows (put r now st) = upsert_by (by_payload key) (r, now) (rows st)"
begin

lemma put_found: "find_by (by_payload key) (key r) (rows (put r now st)) = Some (r, now)"
  using find_by_upsert_by [of "by_payload key" "key r" "(r, now)" "rows st"] by (simp add: rows_put by_payload_def)

lemma put_other: "k \<noteq> key r \<Longrightarrow> find_by (by_payload key) k (rows (put r now st)) = find_by (by_payload key) k (rows st)"
  using find_by_upsert_by [of "by_payload key" k "(r, now)" "rows st"] by (simp add: rows_put by_payload_def)

text \<open>After a run of writes a key holds what was written to it last.\<close>

lemma last_put_wins:
  "find_by (by_payload key) k (rows (fold (\<lambda>(r, now). put r now) ws st)) =
     (case find (\<lambda>w. key (fst w) = k) (rev ws) of Some w \<Rightarrow> Some w | None \<Rightarrow> find_by (by_payload key) k (rows st))"
proof (induction ws rule: rev_induct)
  case (snoc w ws)
  then show ?case by (cases w) (auto simp: put_found put_other)
qed simp

end

interpretation profile_table: keyed_table browser_profiles bp_profile_id upsert_browser_profile
  by unfold_locales (simp add: upsert_browser_profile_def)

interpretation binding_table: keyed_table browser_profile_bindings bb_binding_id upsert_browser_profile_binding
  by unfold_locales (simp add: upsert_browser_profile_binding_def)

interpretation session_table: keyed_table browser_sessions bse_browser_session_id upsert_browser_session
  by unfold_locales (simp add: upsert_browser_session_def)

interpretation state_table: keyed_table browser_session_states bst_state_id upsert_browser_session_state
  by unfold_locales (simp add: upsert_browser_session_state_def)

interpretation login_table: keyed_table browser_login_states bls_login_state_id upsert_browser_login_state
  by unfold_locales (simp add: upsert_browser_login_state_def)

interpretation computer_table: keyed_table computer_sessions cse_computer_session_id upsert_computer_session
  by unfold_locales (simp add: upsert_computer_session_def)

interpretation decision_table: keyed_table domain_access_decisions dd_decision_id upsert_domain_access_decision
  by unfold_locales (simp add: upsert_domain_access_decision_def)

interpretation crawl_table: keyed_table crawl_jobs cj_crawl_id upsert_crawl_job
  by unfold_locales (simp add: upsert_crawl_job_def)

interpretation watch_table: keyed_table watch_jobs wj_watch_id upsert_watch_job
  by unfold_locales (simp add: upsert_watch_job_def)

interpretation site_table: keyed_table website_memory wm_record_id upsert_website_memory
  by unfold_locales (simp add: upsert_website_memory_def)

lemma list_rows_set: "set (list_rows P rows) = {r. \<exists>t. (r, t) \<in> set rows \<and> P r}"
  by (force simp: list_rows_def newest_first_def)

text \<open>What a session is after some writes: the last of them under its key, listed for its own session and agent.\<close>

lemma browser_session_after_writes:
  assumes "find (\<lambda>w. bse_browser_session_id (fst w) = k) (rev ws) = Some (r, now)"
    and "st' = fold (\<lambda>(r, now). upsert_browser_session r now) ws st"
  shows "r \<in> set (list_browser_sessions (Some (bse_session_id r)) (Some (bse_agent_id r)) st')"
proof -
  have "find_by (by_payload bse_browser_session_id) k (browser_sessions st') = Some (r, now)"
    using session_table.last_put_wins [of k ws st] assms by simp
  then have "(r, now) \<in> set (browser_sessions st')" by (rule find_by_SomeD [THEN conjunct1])
  then show ?thesis by (auto simp: list_browser_sessions_def list_rows_set asked_def)
qed

end
