(* ===== verification/BrowserRuntime.thy ===== *)
theory BrowserRuntime
  imports WebTables ToolPolicy
begin

text \<open>What \<open>aria-x/src/browser.rs\<close> decides around the browsers it drives: which profile, session and state an agent
  uses, which program is started with which arguments, whether the automation bridge is trusted, what is taken out of
  its answers, and which artifacts may be kept.  Processes, files and the environment are parameters.\<close>

section \<open>Profiles, sessions and states\<close>

definition browser_profiles_root :: "string \<Rightarrow> string" where
  "browser_profiles_root sessions_dir = join_path sessions_dir ''browser_profiles''"

definition browser_profile_dir :: "string \<Rightarrow> string \<Rightarrow> string" where
  "browser_profile_dir sessions_dir profile_id = join_path (browser_profiles_root sessions_dir) profile_id"

definition list_profiles :: "web_store \<Rightarrow> BrowserProfile list" where
  "list_profiles st = newest_first (browser_profiles st)"

definition current_browser_binding_for_agent :: "u8 list \<Rightarrow> string \<Rightarrow> web_store \<Rightarrow> BrowserProfileBindingRecord option" where
  "current_browser_binding_for_agent session agent st =
     (case list_browser_profile_bindings (Some session) (Some agent) st of [] \<Rightarrow> None | b # _ \<Rightarrow> Some b)"

text \<open>\<open>sort_by_key(Reverse(t))\<close> on unsigned times.\<close>

definition latest_first :: "('r \<Rightarrow> u64) \<Rightarrow> 'r list \<Rightarrow> 'r list" where
  "latest_first time rows = sort_key (\<lambda>r. - int (unat (time r))) rows"

definition default_browser_profile :: "web_store \<Rightarrow> BrowserProfile option" where
  "default_browser_profile st = (let profiles = latest_first bp_created_at_us (list_profiles st) in
     case List.find bp_is_default profiles of
       Some p \<Rightarrow> Some p
     | None \<Rightarrow> (case profiles of [p] \<Rightarrow> Some p | _ \<Rightarrow> None))"

definition current_browser_profile_for_agent :: "u8 list \<Rightarrow> string \<Rightarrow> web_store \<Rightarrow> BrowserProfile option" where
  "current_browser_profile_for_agent session agent st = (case current_browser_binding_for_agent session agent st of
      None \<Rightarrow> default_browser_profile st
    | Some b \<Rightarrow> (case List.find (\<lambda>p. bp_profile_id p = bb_profile_id b) (list_profiles st) of
        Some p \<Rightarrow> Some p
      | None \<Rightarrow> default_browser_profile st))"

definition current_browser_session_for_agent ::
  "u8 list \<Rightarrow> string \<Rightarrow> string \<Rightarrow> web_store \<Rightarrow> (OrchestratorError, BrowserSessionRecord) result" where
  "current_browser_session_for_agent session agent k st =
     ok_or (ToolError (''browser session '' @ quoted k @ '' not found''))
       (List.find (\<lambda>r. bse_browser_session_id r = k) (list_browser_sessions (Some session) (Some agent) st))"

definition latest_browser_session_state_for_profile :: "string \<Rightarrow> string \<Rightarrow> web_store \<Rightarrow> BrowserSessionStateRecord option" where
  "latest_browser_session_state_for_profile agent profile st =
     (case latest_first bst_updated_at_us (filter (\<lambda>r. bst_agent_id r = agent \<and> bst_profile_id r = profile)
         (list_browser_session_states None None st)) of [] \<Rightarrow> None | r # _ \<Rightarrow> Some r)"

definition latest_browser_login_state_for_profile ::
  "string \<Rightarrow> string \<Rightarrow> string \<Rightarrow> web_store \<Rightarrow> BrowserLoginStateRecord option" where
  "latest_browser_login_state_for_profile agent profile domain st =
     (case latest_first bls_updated_at_us (filter (\<lambda>r. bls_profile_id r = profile)
         (list_browser_login_states None (Some agent) (Some domain) st)) of [] \<Rightarrow> None | r # _ \<Rightarrow> Some r)"

definition browser_session_artifacts_root :: "string \<Rightarrow> string \<Rightarrow> string" where
  "browser_session_artifacts_root sessions_dir k = join_path (join_path sessions_dir ''browser_artifacts'') k"

definition browser_session_state_root :: "string \<Rightarrow> string \<Rightarrow> string" where
  "browser_session_state_root sessions_dir profile = join_path (join_path sessions_dir ''browser_session_state'') profile"

section \<open>Programs\<close>

datatype target_os = MacOs | LinuxOs | OtherOs

text \<open>The configured binaries, whether a default candidate is there, and the platform the code is built for.\<close>

record browser_host =
  ho_os :: target_os
  ho_configured :: "BrowserEngine \<Rightarrow> string option"
  ho_available :: "string \<Rightarrow> bool"

fun browser_binary_env_var :: "BrowserEngine \<Rightarrow> string" where
  "browser_binary_env_var ChromiumEngine = ''ARIA_BROWSER_CHROMIUM_BIN''"
| "browser_binary_env_var ChromeEngine = ''ARIA_BROWSER_CHROME_BIN''"
| "browser_binary_env_var EdgeEngine = ''ARIA_BROWSER_EDGE_BIN''"
| "browser_binary_env_var SafariBridgeEngine = ''ARIA_BROWSER_SAFARI_BIN''"

fun browser_default_app_name :: "BrowserEngine \<Rightarrow> string" where
  "browser_default_app_name ChromiumEngine = ''Chromium''"
| "browser_default_app_name ChromeEngine = ''Google Chrome''"
| "browser_default_app_name EdgeEngine = ''Microsoft Edge''"
| "browser_default_app_name SafariBridgeEngine = ''Safari''"

fun browser_default_binary_candidates :: "target_os \<Rightarrow> BrowserEngine \<Rightarrow> string list" where
  "browser_default_binary_candidates MacOs ChromiumEngine = [''/Applications/Chromium.app/Contents/MacOS/Chromium'',
     ''/Applications/Chromium Dev.app/Contents/MacOS/Chromium Dev'']"
| "browser_default_binary_candidates MacOs ChromeEngine = [''/Applications/Google Chrome.app/Contents/MacOS/Google Chrome'',
     ''/Applications/Google Chrome Beta.app/Contents/MacOS/Google Chrome Beta'']"
| "browser_default_binary_candidates MacOs EdgeEngine =
     [''/Applications/Microsoft Edge.app/Contents/MacOS/Microsoft Edge'']"
| "browser_default_binary_candidates LinuxOs ChromiumEngine = [''chromium'', ''chromium-browser'']"
| "browser_default_binary_candidates LinuxOs ChromeEngine = [''google-chrome'', ''google-chrome-stable'']"
| "browser_default_binary_candidates LinuxOs EdgeEngine = [''microsoft-edge'', ''microsoft-edge-stable'']"
| "browser_default_binary_candidates _ _ = []"

definition configured_browser_binary :: "browser_host \<Rightarrow> BrowserEngine \<Rightarrow> string option" where
  "configured_browser_binary h e = (case ho_configured h e of
      Some b \<Rightarrow> if trim_ws b \<noteq> [] then Some b else None | None \<Rightarrow> None)"

definition browser_binary_available_exact :: "browser_host \<Rightarrow> BrowserEngine \<Rightarrow> bool" where
  "browser_binary_available_exact h e = (configured_browser_binary h e \<noteq> None \<or>
     list_ex (ho_available h) (browser_default_binary_candidates (ho_os h) e))"

fun fallback_browser_engine :: "BrowserEngine \<Rightarrow> BrowserEngine option" where
  "fallback_browser_engine ChromiumEngine = Some ChromeEngine"
| "fallback_browser_engine _ = None"

fun debug_engine :: "BrowserEngine \<Rightarrow> string" where
  "debug_engine ChromiumEngine = ''Chromium''"
| "debug_engine ChromeEngine = ''Chrome''"
| "debug_engine EdgeEngine = ''Edge''"
| "debug_engine SafariBridgeEngine = ''SafariBridge''"

definition own_browser_binary :: "browser_host \<Rightarrow> BrowserEngine \<Rightarrow> string option" where
  "own_browser_binary h e = (case configured_browser_binary h e of
      Some b \<Rightarrow> Some b
    | None \<Rightarrow> List.find (ho_available h) (browser_default_binary_candidates (ho_os h) e))"

text \<open>The fallback of an engine has none of its own, so the recursion of the code is one step deep.\<close>

definition resolve_browser_binary :: "browser_host \<Rightarrow> BrowserEngine \<Rightarrow> (OrchestratorError, string) result" where
  "resolve_browser_binary h e = (case own_browser_binary h e of
      Some b \<Rightarrow> Ok b
    | None \<Rightarrow> ok_or (ToolError (''No browser binary available for '' @ debug_engine e @ ''; set '' @ browser_binary_env_var e))
        (Option.bind (fallback_browser_engine e) (own_browser_binary h)))"

fun linux_program :: "BrowserEngine \<Rightarrow> string" where
  "linux_program ChromiumEngine = ''chromium''"
| "linux_program ChromeEngine = ''google-chrome''"
| "linux_program EdgeEngine = ''microsoft-edge''"
| "linux_program SafariBridgeEngine = ''safari''"

definition effective_engine :: "browser_host \<Rightarrow> BrowserEngine \<Rightarrow> BrowserEngine" where
  "effective_engine h e = (case fallback_browser_engine e of
      Some f \<Rightarrow> if \<not> browser_binary_available_exact h e \<and> browser_binary_available_exact h f then f else e
    | None \<Rightarrow> e)"

definition build_browser_launch_command :: "browser_host \<Rightarrow> BrowserEngine \<Rightarrow> string \<Rightarrow> string option \<Rightarrow> string list" where
  "build_browser_launch_command h e profile_dir start_url =
    (let profile_arg = ''--user-data-dir='' @ profile_dir;
         url = (case start_url of Some u \<Rightarrow> u | None \<Rightarrow> ''about:blank'') in
     case configured_browser_binary h e of
       Some b \<Rightarrow> [b, profile_arg, url]
     | None \<Rightarrow> (case ho_os h of
         MacOs \<Rightarrow> [''open'', ''-na'', browser_default_app_name (effective_engine h e), ''--args'', profile_arg, url]
       | LinuxOs \<Rightarrow> [linux_program (effective_engine h e), profile_arg, url]
       | OtherOs \<Rightarrow> [browser_default_app_name e, profile_arg, url]))"

definition build_browser_screenshot_command ::
  "browser_host \<Rightarrow> BrowserEngine \<Rightarrow> string \<Rightarrow> string \<Rightarrow> string \<Rightarrow> (OrchestratorError, string list) result" where
  "build_browser_screenshot_command h e profile_dir target_url output_path = (if e = SafariBridgeEngine
     then Err (ToolError ''browser_screenshot is not supported for safari_bridge yet'')
     else map_ok (\<lambda>binary. [binary, ''--user-data-dir='' @ profile_dir, ''--headless=new'', ''--disable-gpu'',
       ''--hide-scrollbars'', ''--run-all-compositor-stages-before-draw'', ''--screenshot='' @ output_path,
       ''--window-size=1440,1024'', target_url]) (resolve_browser_binary h e))"

section \<open>The automation bridge\<close>

record BrowserAutomationBridgeManifest =
  bm_protocol_version :: u32
  bm_bridge_version :: "string option"
  bm_supported_modes :: "string list"
  bm_supported_commands :: "string list"

record BrowserAutomationBridgeInfo =
  bi_binary :: string
  bi_sha256_hex :: string
  bi_manifest :: BrowserAutomationBridgeManifest
  bi_os_containment_requested :: bool
  bi_os_containment_available :: bool
  bi_containment_backend :: "string option"

text \<open>The bridge as the host shows it: what the file at a path is, the hash of its bytes, and the answer to
  \<open>--bridge-meta\<close> as the manifest it parses to.\<close>

record bridge_host =
  bh_binary :: "string option"
  bh_is_file :: "string \<Rightarrow> (string, bool) result"
  bh_executable :: "string \<Rightarrow> bool"
  bh_allowlist :: "string list"
  bh_sha256_hex :: "string \<Rightarrow> (OrchestratorError, string) result"
  bh_manifest :: "string \<Rightarrow> (OrchestratorError, BrowserAutomationBridgeManifest) result"
  bh_containment_requested :: bool
  bh_os :: target_os
  bh_on_path :: "string \<Rightarrow> bool"
  bh_env :: "string \<Rightarrow> string option"
  bh_temp_dir :: string
  bh_is_dir :: "path_buf \<Rightarrow> bool"

fun shell_containment_backend_name :: "target_os \<Rightarrow> string" where
  "shell_containment_backend_name LinuxOs = ''bwrap''"
| "shell_containment_backend_name MacOs = ''sandbox-exec''"
| "shell_containment_backend_name OtherOs = ''unsupported''"

definition browser_bridge_containment_available :: "bridge_host \<Rightarrow> bool" where
  "browser_bridge_containment_available h = (bh_os h \<noteq> OtherOs \<and> bh_on_path h (shell_containment_backend_name (bh_os h)))"

definition REQUIRED_BROWSER_AUTOMATION_PROTOCOL_VERSION :: u32 where
  "REQUIRED_BROWSER_AUTOMATION_PROTOCOL_VERSION = 1"

definition validate_browser_automation_bridge_mode ::
  "BrowserAutomationBridgeManifest \<Rightarrow> string \<Rightarrow> (OrchestratorError, unit) result" where
  "validate_browser_automation_bridge_mode m mode =
    (if bm_protocol_version m \<noteq> REQUIRED_BROWSER_AUTOMATION_PROTOCOL_VERSION
     then Err (ToolError (''browser automation bridge protocol_version='' @ show_u32 (bm_protocol_version m) @
       '' is incompatible; required='' @ show_u32 REQUIRED_BROWSER_AUTOMATION_PROTOCOL_VERSION))
     else if mode \<notin> set (bm_supported_modes m)
     then Err (ToolError (''browser automation bridge does not support required mode '' @ quoted mode))
     else Ok ())"

definition validate_browser_automation_bridge_command ::
  "BrowserAutomationBridgeManifest \<Rightarrow> string \<Rightarrow> (OrchestratorError, unit) result" where
  "validate_browser_automation_bridge_command m command = (if command \<notin> set (bm_supported_commands m)
     then Err (ToolError (''browser automation bridge does not support required command '' @ quoted command)) else Ok ())"

definition bridge_env_name :: "string \<Rightarrow> string" where
  "bridge_env_name n = ''HIVECLAW_'' @ n @ '' (or legacy ARIA_'' @ n @ '')''"

definition resolve_trusted_browser_automation_bridge_for_mode ::
  "bridge_host \<Rightarrow> string \<Rightarrow> (OrchestratorError, BrowserAutomationBridgeInfo) result" where
  "resolve_trusted_browser_automation_bridge_for_mode h mode =
    and_then (ok_or (ToolError (''browser automation bridge is not configured; set '' @ bridge_env_name ''BROWSER_AUTOMATION_BIN''))
      (bh_binary h)) (\<lambda>binary.
    if \<not> starts_with ''/'' binary
    then Err (ToolError (bridge_env_name ''BROWSER_AUTOMATION_BIN'' @ '' must be an absolute path''))
    else and_then (map_err (\<lambda>e. ToolError (''browser automation bridge '' @ quoted binary @ '' is unavailable: '' @ e))
      (bh_is_file h binary)) (\<lambda>is_file.
    if \<not> is_file then Err (ToolError (''browser automation bridge '' @ quoted binary @ '' must point to a regular file''))
    else if \<not> bh_executable h binary
    then Err (ToolError (''browser automation bridge '' @ quoted binary @ '' is not executable''))
    else if bh_allowlist h = []
    then Err (ToolError (bridge_env_name ''BROWSER_AUTOMATION_SHA256_ALLOWLIST'' @ '' must not be empty''))
    else and_then (bh_sha256_hex h binary) (\<lambda>actual.
    if actual \<notin> set (bh_allowlist h)
    then Err (ToolError (''browser automation bridge '' @ quoted binary @ '' is not in the trusted checksum allowlist''))
    else and_then (bh_manifest h binary) (\<lambda>manifest.
      and_then (validate_browser_automation_bridge_mode manifest mode) (\<lambda>_.
      Ok \<lparr>bi_binary = binary, bi_sha256_hex = actual, bi_manifest = manifest,
        bi_os_containment_requested = bh_containment_requested h, 
        bi_os_containment_available = browser_bridge_containment_available h,
        bi_containment_backend = (if browser_bridge_containment_available h
          then Some (shell_containment_backend_name (bh_os h)) else None)\<rparr>)))))"

fun engine_json :: "BrowserEngine \<Rightarrow> json" where
  "engine_json ChromiumEngine = JString ''chromium''"
| "engine_json ChromeEngine = JString ''chrome''"
| "engine_json EdgeEngine = JString ''edge''"
| "engine_json SafariBridgeEngine = JString ''safari_bridge''"

fun interaction_json :: "BrowserInteractionKind \<Rightarrow> json" where
  "interaction_json Navigate = JString ''navigate''"
| "interaction_json WaitFor = JString ''wait''"
| "interaction_json Click = JString ''click''"
| "interaction_json TypeText = JString ''type''"
| "interaction_json SelectOption = JString ''select''"
| "interaction_json Scroll = JString ''scroll''"

definition string_or_null :: "string option \<Rightarrow> json" where
  "string_or_null v = (case v of Some s \<Rightarrow> JString s | None \<Rightarrow> JNull)"

text \<open>The fields of a session that every payload for the bridge starts with; the printer orders the members.\<close>

definition session_fields :: "BrowserSessionRecord \<Rightarrow> (string \<times> json) list" where
  "session_fields s = [(''browser_session_id'', JString (bse_browser_session_id s)), (''profile_id'', JString (bse_profile_id s)),
     (''profile_dir'', JString (bse_profile_dir s)), (''engine'', engine_json (bse_engine s)),
     (''start_url'', string_or_null (bse_start_url s))]"

definition build_browser_automation_command ::
  "bridge_host \<Rightarrow> (json \<Rightarrow> string) \<Rightarrow> BrowserSessionRecord \<Rightarrow> BrowserActionRequest \<Rightarrow>
    (OrchestratorError, string list \<times> path_buf list) result" where
  "build_browser_automation_command h print s request =
    and_then (resolve_trusted_browser_automation_bridge_for_mode h ''argv_json'') (\<lambda>bridge.
    and_then (validate_browser_automation_bridge_command (bi_manifest bridge) ''browser_action'') (\<lambda>_.
      Ok ([bi_binary bridge, print (JObject (session_fields s @ [(''action'', interaction_json (br_action request)),
        (''url'', string_or_null (br_url request)), (''selector'', string_or_null (br_selector request)),
        (''text'', string_or_null (br_text request)), (''value'', string_or_null (br_value request)),
        (''millis'', case br_millis request of Some n \<Rightarrow> JNumber (show_nat (unat n)) | None \<Rightarrow> JNull)]))],
        dedupe_normalized_paths [bse_profile_dir s, bh_temp_dir h])))"

definition build_browser_automation_stdin_command ::
  "bridge_host \<Rightarrow> string list \<Rightarrow> string \<Rightarrow> (OrchestratorError, string list \<times> path_buf list) result" where
  "build_browser_automation_stdin_command h writable_dirs required =
    and_then (resolve_trusted_browser_automation_bridge_for_mode h ''stdin_json'') (\<lambda>bridge.
    and_then (validate_browser_automation_bridge_command (bi_manifest bridge) required) (\<lambda>_.
      Ok ([bi_binary bridge], dedupe_normalized_paths (writable_dirs @ [bh_temp_dir h]))))"

text \<open>The command that is run: inside the containment of the platform when it is asked for, with a short environment, in
  the first writable directory that is there.\<close>

record process_command =
  pr_argv :: "string list"
  pr_env :: "(string \<times> string) list"
  pr_cwd :: path_buf

definition sandbox_rule :: "path_buf \<Rightarrow> string" where
  "sandbox_rule dir = ''(allow file-write* (subpath '' @ [CHR 0x22] @
     replace_all [CHR 0x22] [CHR 0x5C, CHR 0x22] (replace_all [CHR 0x5C] [CHR 0x5C, CHR 0x5C] (display_path dir)) @
     [CHR 0x22] @ ''))'' @ [newline]"

definition build_os_contained_process_command ::
  "bridge_host \<Rightarrow> string \<Rightarrow> string list \<Rightarrow> path_buf list \<Rightarrow> (OrchestratorError, string list) result" where
  "build_os_contained_process_command h program args writable_dirs = (case bh_os h of
      LinuxOs \<Rightarrow> if \<not> bh_on_path h ''bwrap''
        then Err (ToolError (''browser bridge os_containment requested but '' @ quoted ''bwrap'' @ '' is not installed''))
        else Ok ([''bwrap'', ''--die-with-parent'', ''--new-session'', ''--unshare-all'', ''--share-net'', ''--ro-bind'', ''/'', ''/''] @
          concat (map (\<lambda>d. [''--bind'', display_path d, display_path d]) writable_dirs) @ program # args)
    | MacOs \<Rightarrow> if \<not> bh_on_path h ''sandbox-exec''
        then Err (ToolError (''browser bridge os_containment requested but '' @ quoted ''sandbox-exec'' @ '' is not installed''))
        else Ok ([''sandbox-exec'', ''-p'', join_with [newline] [''(version 1)'', ''(deny default)'', ''(allow process*)'',
          ''(allow file-read*)''] @ [newline] @ concat (map sandbox_rule writable_dirs), program] @ args)
    | OtherOs \<Rightarrow> Err (ToolError ''browser bridge os_containment is not supported on this OS''))"

definition non_empty_env :: "bridge_host \<Rightarrow> string \<Rightarrow> string option" where
  "non_empty_env h name = (case map_option trim_ws (bh_env h name) of Some v \<Rightarrow> if v \<noteq> [] then Some v else None | None \<Rightarrow> None)"

definition browser_bridge_minimal_env :: "bridge_host \<Rightarrow> (string \<times> string) list" where
  "browser_bridge_minimal_env h = [(''LANG'', ''C.UTF-8''), (''LC_ALL'', ''C.UTF-8'')] @
     List.map_filter (\<lambda>k. map_option (Pair k) (non_empty_env h k)) [''PATH'', ''HOME'', ''TMPDIR'', ''TMP'', ''TEMP'']"

definition build_browser_bridge_command ::
  "bridge_host \<Rightarrow> string \<Rightarrow> string list \<Rightarrow> path_buf list \<Rightarrow> (OrchestratorError, process_command) result" where
  "build_browser_bridge_command h program args writable_dirs =
    and_then (if bh_containment_requested h then build_os_contained_process_command h program args writable_dirs
      else Ok (program # args)) (\<lambda>argv.
    Ok \<lparr>pr_argv = argv, pr_env = browser_bridge_minimal_env h, pr_cwd = (case List.find (bh_is_dir h) writable_dirs of
      Some d \<Rightarrow> d | None \<Rightarrow> components (bh_temp_dir h))\<rparr>)"

text \<open>The run itself: what the started program answers is a parameter, its exit status and its output.\<close>

definition run_browser_json_command_with_input ::
  "bridge_host \<Rightarrow> (process_command \<Rightarrow> json option \<Rightarrow> (string, bool \<times> string \<times> string) result) \<Rightarrow> (string \<Rightarrow> (string, json) result) \<Rightarrow>
    string list \<Rightarrow> path_buf list \<Rightarrow> json option \<Rightarrow> (OrchestratorError, json) result" where
  "run_browser_json_command_with_input h spawn parse command writable_dirs payload = (case command of
      [] \<Rightarrow> Err (ToolError ''browser automation command is empty'')
    | program # args \<Rightarrow> and_then (build_browser_bridge_command h program args writable_dirs) (\<lambda>cmd.
        and_then (map_err ToolError (spawn cmd payload)) (\<lambda>(success, status, stdout).
        if \<not> success then Err (ToolError (''browser automation command failed with status '' @ status))
        else if stdout = [] then Ok (JObject [])
        else map_err (\<lambda>e. ToolError (''browser automation output was not valid JSON: '' @ e)) (parse stdout))))"

section \<open>Secrets in the answers of the bridge\<close>

definition redact_text :: "string list \<Rightarrow> string \<Rightarrow> string" where
  "redact_text secrets t = foldl (\<lambda>t secret. if secret \<noteq> [] \<and> contains_str secret t
     then replace_all secret ''[REDACTED]'' t else t) t secrets"

text \<open>Names of members are not touched.\<close>

fun redact_known_secrets_from_json :: "string list \<Rightarrow> json \<Rightarrow> json" where
  "redact_known_secrets_from_json secrets (JString t) = JString (redact_text secrets t)"
| "redact_known_secrets_from_json secrets (JArray vs) = JArray (map (redact_known_secrets_from_json secrets) vs)"
| "redact_known_secrets_from_json secrets (JObject ms) =
     JObject (map (\<lambda>m. (fst m, redact_known_secrets_from_json secrets (snd m))) ms)"
| "redact_known_secrets_from_json secrets v = v"

section \<open>Artifacts\<close>

record ArtifactSafetyPolicy =
  as_download_max_bytes :: u64
  as_snapshot_max_bytes :: u64
  as_extract_max_bytes :: u64
  as_screenshot_max_bytes :: u64
  as_allowed_download_mime_prefixes :: "string list"
  as_blocked_download_extensions :: "string list"
  as_scan_bin :: "string option"

definition show_u64 :: "u64 \<Rightarrow> string" where
  "show_u64 n = show_nat (unat n)"

definition over_size :: "string \<Rightarrow> u64 \<Rightarrow> u64 \<Rightarrow> (OrchestratorError, unit) result" where
  "over_size what bytes limit = (if limit < bytes
     then Err (ToolError (what @ '' exceeds max allowed size: '' @ show_u64 bytes @ '' bytes > '' @ show_u64 limit @ '' bytes''))
     else Ok ())"

text \<open>The type is the one sniffed from the bytes or the name (the \<open>infer\<close> crate, a parameter), else the declared one.\<close>

definition infer_download_mime_type ::
  "(string \<Rightarrow> string \<Rightarrow> string option) \<Rightarrow> string \<Rightarrow> string \<Rightarrow> string \<Rightarrow> string" where
  "infer_download_mime_type sniff filename declared bytes = (case sniff filename bytes of Some m \<Rightarrow> m | None \<Rightarrow> declared)"

text \<open>\<open>Path::extension\<close>: what follows the last dot of the last component, when the dot is not its first character.\<close>

definition last_component :: "string \<Rightarrow> string" where
  "last_component p = (case rev (filter (\<lambda>c. c \<noteq> [] \<and> c \<noteq> ''.'') (split_on (\<lambda>c. c = CHR ''/'') p)) of [] \<Rightarrow> [] | c # _ \<Rightarrow> c)"

definition path_extension :: "string \<Rightarrow> string option" where
  "path_extension p = (let name = last_component p in if name = ''..'' then None
     else case rsplit_once ''.'' name of Some (stem, ext) \<Rightarrow> if stem = [] then None else Some ext | None \<Rightarrow> None)"

definition validate_download_artifact_policy ::
  "ArtifactSafetyPolicy \<Rightarrow> (string \<Rightarrow> string \<Rightarrow> string option) \<Rightarrow> string \<Rightarrow> string \<Rightarrow> string \<Rightarrow> u64 \<Rightarrow>
    (OrchestratorError, string) result" where
  "validate_download_artifact_policy policy sniff filename declared bytes len =
    and_then (over_size ''download'' len (as_download_max_bytes policy)) (\<lambda>_.
    let mime = infer_download_mime_type sniff filename declared bytes in
    if \<not> list_ex (\<lambda>p. starts_with p (to_lower mime)) (as_allowed_download_mime_prefixes policy)
    then Err (ToolError (''download MIME type '' @ quoted mime @ '' is not allowed by policy''))
    else case map_option to_lower (path_extension filename) of
        Some ext \<Rightarrow> if ext \<in> set (as_blocked_download_extensions policy)
          then Err (ToolError (''download file extension '' @ quoted (CHR ''.'' # ext) @ '' is blocked by policy'')) else Ok mime
      | None \<Rightarrow> Ok mime)"

fun validate_artifact_size_limit :: "ArtifactSafetyPolicy \<Rightarrow> BrowserArtifactKind \<Rightarrow> u64 \<Rightarrow> (OrchestratorError, unit) result" where
  "validate_artifact_size_limit policy DownloadedFile n = over_size ''download artifact'' n (as_download_max_bytes policy)"
| "validate_artifact_size_limit policy DomSnapshot n = over_size ''snapshot artifact'' n (as_snapshot_max_bytes policy)"
| "validate_artifact_size_limit policy ExtractedText n = over_size ''extract artifact'' n (as_extract_max_bytes policy)"
| "validate_artifact_size_limit policy BrowserScreenshot n = over_size ''screenshot artifact'' n (as_screenshot_max_bytes policy)"
| "validate_artifact_size_limit policy LaunchMetadata n = Ok ()"

fun debug_artifact_kind :: "BrowserArtifactKind \<Rightarrow> string" where
  "debug_artifact_kind LaunchMetadata = ''LaunchMetadata''"
| "debug_artifact_kind BrowserScreenshot = ''Screenshot''"
| "debug_artifact_kind DomSnapshot = ''DomSnapshot''"
| "debug_artifact_kind ExtractedText = ''ExtractedText''"
| "debug_artifact_kind DownloadedFile = ''Download''"

text \<open>The scanner is a program: its answer to the path, the kind and the type is a failure to start it, or whether it
  accepts, with what it prints on its error output.\<close>

definition run_artifact_scan ::
  "ArtifactSafetyPolicy \<Rightarrow> (string \<Rightarrow> string list \<Rightarrow> (string, bool \<times> string) result) \<Rightarrow> string \<Rightarrow> BrowserArtifactKind \<Rightarrow>
    string \<Rightarrow> (OrchestratorError, unit) result" where
  "run_artifact_scan policy scan path kind mime = (case as_scan_bin policy of
      None \<Rightarrow> Ok ()
    | Some b \<Rightarrow> if \<not> is_absolute b then Err (ToolError (bridge_env_name ''ARTIFACT_SCAN_BIN'' @ '' must be an absolute path''))
      else and_then (map_err (\<lambda>e. ToolError (''Failed to run artifact scan command '' @ quoted b @ '': '' @ e))
        (scan b [path, to_lower (debug_artifact_kind kind), mime])) (\<lambda>(accepts, stderr).
        if accepts then Ok () else Err (ToolError (''artifact scan rejected '' @ quoted path @ '': '' @ trim_ws stderr))))"

section \<open>Storage\<close>

record WebStoragePolicy =
  wp_browser_artifact_max_count :: nat
  wp_browser_artifact_max_bytes :: u64
  wp_browser_session_state_max_count :: nat
  wp_browser_session_state_max_bytes :: u64
  wp_crawl_job_max_count :: nat
  wp_watch_job_max_count :: nat
  wp_website_memory_max_count :: nat

record WebStorageUsage =
  wu_browser_artifact_count :: nat
  wu_browser_artifact_total_bytes :: u64
  wu_browser_session_state_count :: nat
  wu_browser_session_state_total_bytes :: u64
  wu_crawl_job_count :: nat
  wu_watch_job_count :: nat
  wu_website_memory_count :: nat

text \<open>The files the code reads and writes, by path, with their contents.\<close>

type_synonym web_files = "string \<Rightarrow> string option"

definition safe_file_size :: "web_files \<Rightarrow> string \<Rightarrow> u64" where
  "safe_file_size fs path = (case fs path of Some content \<Rightarrow> of_nat (length content) | None \<Rightarrow> 0)"

definition total_size :: "web_files \<Rightarrow> ('r \<Rightarrow> string) \<Rightarrow> 'r list \<Rightarrow> u64" where
  "total_size fs path rows = sum_list (map (\<lambda>r. safe_file_size fs (path r)) rows)"

definition compute_web_storage_usage :: "web_files \<Rightarrow> web_store \<Rightarrow> WebStorageUsage" where
  "compute_web_storage_usage fs st =
    (let artifacts = list_browser_artifacts None None st; states = list_browser_session_states None None st in
     \<lparr>wu_browser_artifact_count = length artifacts,
      wu_browser_artifact_total_bytes = total_size fs bar_storage_path artifacts,
      wu_browser_session_state_count = length states,
      wu_browser_session_state_total_bytes = total_size fs bst_storage_path states,
      wu_crawl_job_count = length (list_crawl_jobs st), wu_watch_job_count = length (list_watch_jobs st),
      wu_website_memory_count = length (list_website_memory None st)\<rparr>)"

text \<open>The loops of the enforcement: rows go, oldest first, with their files, while there are too many of them or too many
  bytes.  Taking a row from an empty vector panics: \<open>None\<close>.  A file that cannot be removed stays.\<close>

fun evict_files ::
  "nat \<Rightarrow> u64 \<Rightarrow> ('r \<Rightarrow> string) \<Rightarrow> ('r \<Rightarrow> web_change) \<Rightarrow> (string \<Rightarrow> bool) \<Rightarrow> 'r list \<Rightarrow> u64 \<Rightarrow> web_files \<times> web_store \<Rightarrow>
    (web_files \<times> web_store) option" where
  "evict_files max_n max_b path del removable [] bytes (fs, st) = (if max_b < bytes then None else Some (fs, st))"
| "evict_files max_n max_b path del removable (r # rs) bytes (fs, st) =
    (if max_n < Suc (length rs) \<or> max_b < bytes
     then evict_files max_n max_b path del removable rs (saturating_sub bytes (safe_file_size fs (path r)))
       (if removable (path r) then fs(path r := None) else fs, del r st)
     else Some (fs, st))"

fun evict_rows :: "nat \<Rightarrow> ('r \<Rightarrow> web_change) \<Rightarrow> 'r list \<Rightarrow> web_store \<Rightarrow> web_store" where
  "evict_rows max_n del [] st = st"
| "evict_rows max_n del (r # rs) st = (if max_n < Suc (length rs) then evict_rows max_n del rs (del r st) else st)"

definition oldest :: "('r \<Rightarrow> u64) \<Rightarrow> 'r list \<Rightarrow> 'r list" where
  "oldest time rows = sort_key (\<lambda>r. unat (time r)) rows"

definition evict_artifacts ::
  "WebStoragePolicy \<Rightarrow> (string \<Rightarrow> bool) \<Rightarrow> web_files \<times> web_store \<Rightarrow> (web_files \<times> web_store) option" where
  "evict_artifacts p removable s = (let artifacts = list_browser_artifacts None None (snd s) in
     evict_files (wp_browser_artifact_max_count p) (wp_browser_artifact_max_bytes p) bar_storage_path
       (\<lambda>r. delete_browser_artifact (bar_artifact_id r)) removable (oldest bar_created_at_us artifacts)
       (total_size (fst s) bar_storage_path artifacts) s)"

definition evict_states ::
  "WebStoragePolicy \<Rightarrow> (string \<Rightarrow> bool) \<Rightarrow> web_files \<times> web_store \<Rightarrow> (web_files \<times> web_store) option" where
  "evict_states p removable s = (let states = list_browser_session_states None None (snd s) in
     evict_files (wp_browser_session_state_max_count p) (wp_browser_session_state_max_bytes p) bst_storage_path
       (\<lambda>r. delete_browser_session_state (bst_state_id r)) removable (oldest bst_updated_at_us states)
       (total_size (fst s) bst_storage_path states) s)"

definition evict_crawl_jobs :: "WebStoragePolicy \<Rightarrow> web_change" where
  "evict_crawl_jobs p st = evict_rows (wp_crawl_job_max_count p) (\<lambda>j. delete_crawl_job (cj_crawl_id j))
     (oldest cj_updated_at_us (list_crawl_jobs st)) st"

definition evict_watch_jobs :: "WebStoragePolicy \<Rightarrow> web_change" where
  "evict_watch_jobs p st = evict_rows (wp_watch_job_max_count p) (\<lambda>j. delete_watch_job (wj_watch_id j))
     (oldest wj_updated_at_us (list_watch_jobs st)) st"

definition evict_website_memory :: "WebStoragePolicy \<Rightarrow> web_change" where
  "evict_website_memory p st = evict_rows (wp_website_memory_max_count p) (\<lambda>r. delete_website_memory (wm_record_id r))
     (oldest wm_updated_at_us (list_website_memory None st)) st"

definition enforce_web_storage_policy ::
  "WebStoragePolicy \<Rightarrow> (string \<Rightarrow> bool) \<Rightarrow> web_files \<times> web_store \<Rightarrow> (web_files \<times> web_store) option" where
  "enforce_web_storage_policy p removable s =
     Option.bind (evict_artifacts p removable s) (\<lambda>s.
     Option.bind (evict_states p removable s) (\<lambda>s.
     Some (fst s, evict_website_memory p (evict_watch_jobs p (evict_crawl_jobs p (snd s))))))"

end
