(* ===== verification/AuditLaws.thy ===== *)
theory AuditLaws
  imports AuditTables
begin

text \<open>What the logs of the runtime store promise: keys stay unique, a log that is full keeps its newest rows and
  never grows past its limit, whichever logs are written in between.\<close>

section \<open>Pruned rows\<close>

lemma keep_latest_sorted:
  assumes "distinct (map key rows)"
  shows "sort_key (\<lambda>r. - time r) (keep_latest time key n rows) = take n (sort_key (\<lambda>r. - time r) rows)"
proof -
  let ?s = "sort_key (\<lambda>r. - time r) rows"
  let ?P = "\<lambda>r. key r \<notin> key ` set (drop n ?s)"
  have d: "distinct (map key ?s)" using assms by (simp add: distinct_map)
  then have "distinct (map key (take n ?s @ drop n ?s))" by (simp only: append_take_drop_id)
  then have dis: "key ` set (take n ?s) \<inter> key ` set (drop n ?s) = {}" by (simp only: map_append distinct_append set_map)
  have "filter ?P (take n ?s) = take n ?s" using dis by (subst filter_id_conv) blast
  moreover have "filter ?P (drop n ?s) = []" by (simp add: filter_empty_conv)
  ultimately have "filter ?P (take n ?s @ drop n ?s) = take n ?s" by (simp only: filter_append append_Nil2)
  then have "filter ?P ?s = take n ?s" by (simp only: append_take_drop_id)
  then show ?thesis by (simp add: keep_latest_def Let_def filter_sort)
qed

lemma keep_latest_subset: "set (keep_latest time key n rows) \<subseteq> set rows"
  by (auto simp: keep_latest_def Let_def)

lemma keep_latest_distinct: "distinct (map key rows) \<Longrightarrow> distinct (map key (keep_latest time key' n rows))"
  by (auto simp: keep_latest_def Let_def distinct_map intro: inj_on_subset)

lemma keep_latest_length: "distinct (map key rows) \<Longrightarrow> length (keep_latest time key n rows) = min n (length rows)"
  using keep_latest_sorted [of key rows time n] by (metis length_sort length_take min.commute)

lemma retain_rows_listed:
  "distinct (map key rows) \<Longrightarrow> by_age time (retain_rows n time key rows) =
     (if 0 < n then take (unat n) (by_age time rows) else by_age time rows)"
  by (simp add: by_age_def retain_rows_def keep_latest_sorted)

lemma retain_rows_distinct: "distinct (map key rows) \<Longrightarrow> distinct (map key (retain_rows n time key' rows))"
  by (simp add: retain_rows_def keep_latest_distinct)

lemma retain_rows_length: "distinct (map key rows) \<Longrightarrow> 0 < n \<Longrightarrow> length (retain_rows n time key rows) \<le> unat n"
  by (simp add: retain_rows_def keep_latest_length)

lemma retain_rows_all: "length rows \<le> unat n \<Longrightarrow> distinct (map key rows) \<Longrightarrow> retain_rows n time key rows = rows"
  by (simp add: retain_rows_def keep_latest_def Let_def)

lemma has_key_set: "has_key key k rows \<longleftrightarrow> k \<in> key ` set rows"
  by (auto simp: has_key_def list_ex_iff)

lemma insort_least:
  "\<forall>x\<in>set xs. f r < f x \<Longrightarrow> insort_key f r xs = r # xs"
  by (cases xs) auto

lemma sort_key_const_id: "sort_key f (filter (\<lambda>x. c = f x) xs) = filter (\<lambda>x. c = f x) xs"
proof -
  have "sorted (map f (filter (\<lambda>x. c = f x) xs))" by (induction xs) auto
  then show ?thesis by (rule sort_key_id_if_sorted)
qed

lemma by_age_newest:
  assumes "\<forall>x\<in>set rows. sint (time x) < sint (time r)"
  shows "by_age time (rows @ [r]) = r # by_age time rows"
proof -
  let ?f = "\<lambda>x. - sint (time x)"
  have none: "filter (\<lambda>x. sint (time r) = sint (time x)) rows = []" using assms by (auto simp: filter_empty_conv)
  have "sort_key ?f (rows @ [r]) = r # sort_key ?f rows"
  proof (rule properties_for_sort_key)
    fix k
    have "filter (\<lambda>x. ?f k = ?f x) (sort_key ?f rows) = filter (\<lambda>x. ?f k = ?f x) rows"
      by (rule trans [OF filter_sort sort_key_const_id])
    then show "filter (\<lambda>x. ?f k = ?f x) (r # sort_key ?f rows) = filter (\<lambda>x. ?f k = ?f x) (rows @ [r])"
      using none by (cases "sint (time k) = sint (time r)") simp_all
  qed (use assms in auto)
  then show ?thesis by (simp add: by_age_def)
qed

section \<open>A log\<close>

text \<open>What the writes of one log promise its readers: a row under a new key is added and the log is pruned to its limit
  (zero for none); a row under a known key is refused.\<close>

locale retained_log =
  fixes rows :: "'s \<Rightarrow> 'r list"
    and time :: "'r \<Rightarrow> u64"
    and key :: "'r \<Rightarrow> string"
    and put :: "'r \<Rightarrow> 's \<Rightarrow> (string, 's) result"
    and limit :: u32
  assumes put_new: "key r \<notin> key ` set (rows st) \<Longrightarrow>
      \<exists>st'. put r st = Ok st' \<and> rows st' = retain_rows limit time key (rows st @ [r])"
    and put_known: "key r \<in> key ` set (rows st) \<Longrightarrow> \<exists>e. put r st = Err e"
begin

lemma put_Ok:
  assumes "put r st = Ok st'"
  shows "key r \<notin> key ` set (rows st)" "rows st' = retain_rows limit time key (rows st @ [r])"
proof -
  show new: "key r \<notin> key ` set (rows st)" using put_known [of r st] assms by auto
  show "rows st' = retain_rows limit time key (rows st @ [r])" using put_new [OF new] assms by auto
qed

lemma keys_stay_unique: "distinct (map key (rows st)) \<Longrightarrow> put r st = Ok st' \<Longrightarrow> distinct (map key (rows st'))"
  using put_Ok [of r st st'] by (simp add: retain_rows_distinct)

lemma stays_in_limit: "distinct (map key (rows st)) \<Longrightarrow> put r st = Ok st' \<Longrightarrow> 0 < limit \<Longrightarrow> length (rows st') \<le> unat limit"
  using put_Ok [of r st st'] by (simp add: retain_rows_length)

text \<open>The list of a log after a write of a row that is newer than the others: the row and what was listed before, cut.\<close>

lemma newest_listed_first:
  assumes "distinct (map key (rows st))" "put r st = Ok st'" "\<forall>x\<in>set (rows st). sint (time x) < sint (time r)" "0 < limit"
  shows "by_age time (rows st') = take (unat limit) (r # by_age time (rows st))"
  using put_Ok [OF assms(2)] assms(1,3,4) by (simp add: retain_rows_listed by_age_newest)

lemma put_keeps_room:
  assumes "distinct (map key (rows st))" "put r st = Ok st'" "length (rows st) < unat limit"
  shows "rows st' = rows st @ [r]"
  using put_Ok [OF assms(2)] assms(1,3) by (simp add: retain_rows_all)

end

lemmas audit_store_simps = prune_operator_records_def insert_row_def has_key_set retain_rows_def

interpretation retrieval_log: retained_log retrieval_traces rtr_created_at_us rtr_trace_id append_retrieval_trace 0
  by unfold_locales (auto simp: append_retrieval_trace_def audit_store_simps)

interpretation inspection_log: retained_log context_inspections cin_created_at_us cin_context_id append_context_inspection 0
  by unfold_locales (auto simp: append_context_inspection_def audit_store_simps)

interpretation secret_log: retained_log secret_usage_audits sua_created_at_us sua_audit_id append_secret_usage_audit 0
  by unfold_locales (auto simp: append_secret_usage_audit_def audit_store_simps)

interpretation denial_log: retained_log scope_denials sd_created_at_us sd_denial_id "append_scope_denial_row c" "or_scope_denial c"
  by unfold_locales (auto simp: append_scope_denial_row_def audit_store_simps)

interpretation shell_log: retained_log shell_exec_audits sea_created_at_us sea_audit_id "append_shell_exec_audit c" "or_shell_exec_audit c"
  by unfold_locales (auto simp: append_shell_exec_audit_def audit_store_simps)

interpretation policy_log: retained_log request_policy_audits rpa_created_at_us rpa_audit_id "append_request_policy_audit c"
    "or_request_policy_audit c"
  by unfold_locales (auto simp: append_request_policy_audit_def audit_store_simps)

interpretation repair_log: retained_log repair_fallback_audits rfa_created_at_us rfa_audit_id "append_repair_fallback_audit c"
    "or_repair_fallback_audit c"
  by unfold_locales (auto simp: append_repair_fallback_audit_def audit_store_simps)

interpretation streaming_log: retained_log streaming_decision_audits sda_created_at_us sda_audit_id
    "append_streaming_decision_audit c" "or_streaming_decision_audit c"
  by unfold_locales (auto simp: append_streaming_decision_audit_def audit_store_simps)

interpretation action_log: retained_log browser_action_audits bau_created_at_us bau_audit_id "append_browser_action_audit c"
    "or_browser_action_audit c"
  by unfold_locales (auto simp: append_browser_action_audit_def audit_store_simps)

interpretation challenge_log: retained_log browser_challenge_events bch_created_at_us bch_event_id
    "append_browser_challenge_event c" "or_browser_challenge_event c"
  by unfold_locales (auto simp: append_browser_challenge_event_def audit_store_simps)

interpretation signature_log: retained_log skill_signatures ssr_created_at_us ssr_record_id "append_skill_signature c"
    "or_skill_signature c"
  by unfold_locales (auto simp: append_skill_signature_def audit_store_simps)

section \<open>All the logs together\<close>

text \<open>What the runtime writes, in any order; a write that is refused leaves the store as it was.\<close>

datatype audit_event = RetrievalTraced RetrievalTraceRecord | ContextInspected ContextInspectionRecord
  | SecretUsed SecretUsageAuditRecord | ScopeDenied ScopeDenialRecord | ShellExecuted ShellExecutionAuditRecord
  | PolicyApplied RequestPolicyAuditRecord | RepairFellBack RepairFallbackAuditRecord
  | StreamingDecided StreamingDecisionAuditRecord | BrowserActed BrowserActionAuditRecord
  | ChallengeMet BrowserChallengeEvent | SkillSigned SkillSignatureRecord

fun record_event :: "operator_retention \<Rightarrow> audit_event \<Rightarrow> audit_write" where
  "record_event c (RetrievalTraced r) = append_retrieval_trace r"
| "record_event c (ContextInspected r) = append_context_inspection r"
| "record_event c (SecretUsed r) = append_secret_usage_audit r"
| "record_event c (ScopeDenied r) = append_scope_denial_row c r"
| "record_event c (ShellExecuted r) = append_shell_exec_audit c r"
| "record_event c (PolicyApplied r) = append_request_policy_audit c r"
| "record_event c (RepairFellBack r) = append_repair_fallback_audit c r"
| "record_event c (StreamingDecided r) = append_streaming_decision_audit c r"
| "record_event c (BrowserActed r) = append_browser_action_audit c r"
| "record_event c (ChallengeMet r) = append_browser_challenge_event c r"
| "record_event c (SkillSigned r) = append_skill_signature c r"

definition record_or_skip :: "operator_retention \<Rightarrow> audit_event \<Rightarrow> audit_store \<Rightarrow> audit_store" where
  "record_or_skip c e st = (case record_event c e st of Inl _ \<Rightarrow> st | Inr st' \<Rightarrow> st')"

definition empty_audit_store :: audit_store where
  "empty_audit_store = \<lparr>retrieval_traces = [], context_inspections = [], secret_usage_audits = [], skill_signatures = [],
     shell_exec_audits = [], scope_denials = [], request_policy_audits = [], repair_fallback_audits = [],
     streaming_decision_audits = [], browser_action_audits = [], browser_challenge_events = []\<rparr>"

definition log_ok :: "u32 \<Rightarrow> ('r \<Rightarrow> string) \<Rightarrow> 'r list \<Rightarrow> bool" where
  "log_ok limit key rows = (distinct (map key rows) \<and> (0 < limit \<longrightarrow> length rows \<le> unat limit))"

definition logs_ok :: "operator_retention \<Rightarrow> audit_store \<Rightarrow> bool" where
  "logs_ok c st = (log_ok (or_skill_signature c) ssr_record_id (skill_signatures st) \<and>
     log_ok (or_shell_exec_audit c) sea_audit_id (shell_exec_audits st) \<and>
     log_ok (or_scope_denial c) sd_denial_id (scope_denials st) \<and>
     log_ok (or_request_policy_audit c) rpa_audit_id (request_policy_audits st) \<and>
     log_ok (or_repair_fallback_audit c) rfa_audit_id (repair_fallback_audits st) \<and>
     log_ok (or_streaming_decision_audit c) sda_audit_id (streaming_decision_audits st) \<and>
     log_ok (or_browser_action_audit c) bau_audit_id (browser_action_audits st) \<and>
     log_ok (or_browser_challenge_event c) bch_event_id (browser_challenge_events st))"

lemma log_ok_retain: "distinct (map key rows) \<Longrightarrow> log_ok n key (retain_rows n time key rows)"
  by (simp add: log_ok_def retain_rows_distinct retain_rows_length)

lemma log_ok_distinct: "log_ok n key rows \<Longrightarrow> distinct (map key rows)"
  by (simp add: log_ok_def)

lemma insert_row_distinct:
  "insert_row what column key r rows = Ok rows' \<Longrightarrow> distinct (map key rows) \<Longrightarrow> distinct (map key rows')"
  by (auto simp: insert_row_def has_key_set split: if_splits)

definition keys_ok :: "audit_store \<Rightarrow> bool" where
  "keys_ok st = (distinct (map ssr_record_id (skill_signatures st)) \<and> distinct (map sea_audit_id (shell_exec_audits st)) \<and> distinct (map sd_denial_id (scope_denials st)) \<and> distinct (map rpa_audit_id (request_policy_audits st)) \<and> distinct (map rfa_audit_id (repair_fallback_audits st)) \<and> distinct (map sda_audit_id (streaming_decision_audits st)) \<and> distinct (map bau_audit_id (browser_action_audits st)) \<and> distinct (map bch_event_id (browser_challenge_events st)))"

lemma logs_ok_keys: "logs_ok c st \<Longrightarrow> keys_ok st"
  by (simp add: logs_ok_def keys_ok_def log_ok_def)

lemma prune_logs_ok: "keys_ok st \<Longrightarrow> logs_ok c (prune_operator_records c st)"
  by (simp add: keys_ok_def logs_ok_def prune_operator_records_def log_ok_retain)

lemma record_event_ok:
  assumes ok: "logs_ok c st" and st: "record_event c e st = Ok st'"
  shows "logs_ok c st'"
proof -
  have keys: "keys_ok st" using ok by (rule logs_ok_keys)
  have pruned: "logs_ok c st'" if "keys_ok st2" "st' = prune_operator_records c st2" for st2
    using prune_logs_ok that by simp
  show ?thesis
  proof (cases e)
    case (RetrievalTraced r)
    then show ?thesis using ok st by (auto simp: append_retrieval_trace_def result_simps logs_ok_def)
  next
    case (ContextInspected r)
    then show ?thesis using ok st by (auto simp: append_context_inspection_def result_simps logs_ok_def)
  next
    case (SecretUsed r)
    then show ?thesis using ok st by (auto simp: append_secret_usage_audit_def result_simps logs_ok_def)
  next
    case (ScopeDenied r)
    then show ?thesis using keys st
      by (auto simp: append_scope_denial_row_def result_simps keys_ok_def intro!: prune_logs_ok dest: insert_row_distinct)
  next
    case (ShellExecuted r)
    then show ?thesis using keys st
      by (auto simp: append_shell_exec_audit_def result_simps keys_ok_def intro!: prune_logs_ok dest: insert_row_distinct)
  next
    case (PolicyApplied r)
    then show ?thesis using keys st
      by (auto simp: append_request_policy_audit_def result_simps keys_ok_def intro!: prune_logs_ok dest: insert_row_distinct)
  next
    case (RepairFellBack r)
    then show ?thesis using keys st
      by (auto simp: append_repair_fallback_audit_def result_simps keys_ok_def intro!: prune_logs_ok dest: insert_row_distinct)
  next
    case (StreamingDecided r)
    then show ?thesis using keys st
      by (auto simp: append_streaming_decision_audit_def result_simps keys_ok_def intro!: prune_logs_ok dest: insert_row_distinct)
  next
    case (BrowserActed r)
    then show ?thesis using keys st
      by (auto simp: append_browser_action_audit_def result_simps keys_ok_def intro!: prune_logs_ok dest: insert_row_distinct)
  next
    case (ChallengeMet r)
    then show ?thesis using keys st
      by (auto simp: append_browser_challenge_event_def result_simps keys_ok_def intro!: prune_logs_ok dest: insert_row_distinct)
  next
    case (SkillSigned r)
    then show ?thesis using keys st
      by (auto simp: append_skill_signature_def result_simps keys_ok_def intro!: prune_logs_ok dest: insert_row_distinct)
  qed
qed

lemma record_all_ok: "logs_ok c (fold (record_or_skip c) es empty_audit_store)"
proof -
  have "logs_ok c st \<Longrightarrow> logs_ok c (fold (record_or_skip c) es st)" for st
  proof (induction es arbitrary: st)
    case (Cons e es)
    then show ?case by (auto simp: record_or_skip_def intro: record_event_ok split: sum.splits)
  qed simp
  moreover have "logs_ok c empty_audit_store" by (simp add: logs_ok_def log_ok_def empty_audit_store_def)
  ultimately show ?thesis by blast
qed

text \<open>C35: whatever the runtime logs, in whatever order, each of the eight operator logs stays within the number of rows
  configured for it, when that number is not zero.\<close>

theorem operator_logs_bounded:
  assumes "st = fold (record_or_skip c) es empty_audit_store"
  shows "(0 < or_skill_signature c \<longrightarrow> length (skill_signatures st) \<le> unat (or_skill_signature c)) \<and>
    (0 < or_shell_exec_audit c \<longrightarrow> length (shell_exec_audits st) \<le> unat (or_shell_exec_audit c)) \<and>
    (0 < or_scope_denial c \<longrightarrow> length (scope_denials st) \<le> unat (or_scope_denial c)) \<and>
    (0 < or_request_policy_audit c \<longrightarrow> length (request_policy_audits st) \<le> unat (or_request_policy_audit c)) \<and>
    (0 < or_repair_fallback_audit c \<longrightarrow> length (repair_fallback_audits st) \<le> unat (or_repair_fallback_audit c)) \<and>
    (0 < or_streaming_decision_audit c \<longrightarrow> length (streaming_decision_audits st) \<le> unat (or_streaming_decision_audit c)) \<and>
    (0 < or_browser_action_audit c \<longrightarrow> length (browser_action_audits st) \<le> unat (or_browser_action_audit c)) \<and>
    (0 < or_browser_challenge_event c \<longrightarrow> length (browser_challenge_events st) \<le> unat (or_browser_challenge_event c))"
  using record_all_ok [of c es] by (simp add: assms logs_ok_def log_ok_def)

definition example_shell_audit :: "string \<Rightarrow> u64 \<Rightarrow> ShellExecutionAuditRecord" where
  "example_shell_audit k t = \<lparr>sea_audit_id = k, sea_session_id = None, sea_agent_id = None, sea_execution_backend_id = None,
     sea_command = ''ls'', sea_cwd = None, sea_os_containment_requested = False, sea_containment_backend = None,
     sea_timeout_seconds = 1, sea_cpu_seconds = 1, sea_memory_kb = 1, sea_exit_code = None, sea_timed_out = False,
     sea_output_truncated = False, sea_error = None, sea_duration_ms = 1, sea_created_at_us = t\<rparr>"

theorem operator_logs_bounded_witness:
  "length (shell_exec_audits (fold (record_or_skip (default_retention\<lparr>or_shell_exec_audit := 1\<rparr>))
     [ShellExecuted (example_shell_audit ''a'' 1), ShellExecuted (example_shell_audit ''b'' 2)] empty_audit_store)) \<le> 1"
  using operator_logs_bounded [OF refl, of "default_retention\<lparr>or_shell_exec_audit := 1\<rparr>"
    "[ShellExecuted (example_shell_audit ''a'' 1), ShellExecuted (example_shell_audit ''b'' 2)]"] by simp

text \<open>The audit of a command that is newer than those in the log is the first of the list, and what was listed before
  follows, cut to the configured number of rows.\<close>

lemma newest_command_listed:
  assumes "st = fold (record_or_skip c) es empty_audit_store" and "append_shell_exec_audit c r st = Ok st'"
    and "\<forall>x\<in>set (shell_exec_audits st). sint (sea_created_at_us x) < sint (sea_created_at_us r)"
    and "0 < or_shell_exec_audit c"
  shows "list_shell_exec_audits None None st' =
     take (unat (or_shell_exec_audit c)) (r # list_shell_exec_audits None None st)"
proof -
  have "distinct (map sea_audit_id (shell_exec_audits st))"
    using record_all_ok [of c es] assms(1) by (simp add: logs_ok_def log_ok_def)
  from shell_log.newest_listed_first [OF this assms(2-4)] show ?thesis
    by (simp add: list_shell_exec_audits_def asked_opt_def)
qed

lemma newest_command_listed_example:
  "list_shell_exec_audits None None (record_or_skip (default_retention\<lparr>or_shell_exec_audit := 1\<rparr>)
     (ShellExecuted (example_shell_audit ''b'' 2)) (empty_audit_store\<lparr>shell_exec_audits := [example_shell_audit ''a'' 1]\<rparr>)) =
   [example_shell_audit ''b'' 2]"
proof -
  let ?c = "default_retention\<lparr>or_shell_exec_audit := 1\<rparr>"
  let ?st = "empty_audit_store\<lparr>shell_exec_audits := [example_shell_audit ''a'' 1]\<rparr>"
  have st: "?st = fold (record_or_skip ?c) [ShellExecuted (example_shell_audit ''a'' 1)] empty_audit_store"
    by (simp add: record_or_skip_def append_shell_exec_audit_def audit_store_simps empty_audit_store_def keep_latest_def
      default_retention_def)
  obtain st' where st': "append_shell_exec_audit ?c (example_shell_audit ''b'' 2) ?st = Ok st'"
    by (simp add: append_shell_exec_audit_def audit_store_simps example_shell_audit_def empty_audit_store_def)
  have "list_shell_exec_audits None None st' =
      take 1 (example_shell_audit ''b'' 2 # list_shell_exec_audits None None ?st)"
    using newest_command_listed [OF st st'] by (simp add: example_shell_audit_def)
  then show ?thesis using st' by (simp add: record_or_skip_def)
qed

text \<open>The log of denials the guards write to is the same log.\<close>

lemma denials_agree:
  assumes "scope_denials st = gd_denials g" "0 < or_scope_denial c"
  shows "scope_denials (record_or_skip c (ScopeDenied r) st) = gd_denials (append_scope_denial (or_scope_denial c) r g)"
  using assms by (auto simp: record_or_skip_def append_scope_denial_row_def insert_row_def prune_operator_records_def
    append_scope_denial_def prune_denials_def retain_rows_def keep_latest_def Let_def intro!: filter_cong)

end
