(* ===== verification/BrowserStorage.thy ===== *)
theory BrowserStorage
  imports BrowserRuntime AuditLaws
begin

text \<open>What the storage policy of the browser tools keeps and removes, when its loops end, which program the
  automation bridge starts, and what redaction leaves.\<close>

section \<open>Eviction\<close>

definition bytes_of :: "web_files \<Rightarrow> ('r \<Rightarrow> string) \<Rightarrow> 'r list \<Rightarrow> nat" where
  "bytes_of fs path rows = sum_list (map (\<lambda>r. unat (safe_file_size fs (path r))) rows)"

lemma bytes_of_simps [simp]:
  "bytes_of fs path [] = 0" "bytes_of fs path (r # rs) = unat (safe_file_size fs (path r)) + bytes_of fs path rs"
  by (simp_all add: bytes_of_def)

lemma unat_total_size: "bytes_of fs path rows < 2 ^ 64 \<Longrightarrow> unat (total_size fs path rows) = bytes_of fs path rows"
proof (induction rows)
  case (Cons r rows)
  then have "unat (total_size fs path rows) = bytes_of fs path rows" by simp
  then show ?case using Cons.prems by (simp add: total_size_def unat_add_lem [THEN iffD1])
qed (simp add: total_size_def bytes_of_def)

lemma bytes_of_other: "p \<notin> path ` set rs \<Longrightarrow> bytes_of (fs(p := v)) path rs = bytes_of fs path rs"
  by (induction rs) (auto simp: safe_file_size_def)

lemma bytes_of_sorted: "bytes_of fs path (sort_key f rows) = bytes_of fs path rows"
proof -
  have "mset (map (\<lambda>r. unat (safe_file_size fs (path r))) (sort_key f rows)) =
      mset (map (\<lambda>r. unat (safe_file_size fs (path r))) rows)" by simp
  then show ?thesis unfolding bytes_of_def by (metis sum_mset_sum_list)
qed

text \<open>With one file per row the loop stops before the vector is empty: it drops the shortest run of oldest rows that
  brings both numbers under their limits, and touches no other file.\<close>

lemma evict_files_spec:
  assumes "distinct (map path rs)" "unat bytes = bytes_of fs path rs"
  shows "\<exists>k fs'. k \<le> length rs \<and>
    evict_files max_n max_b path del removable rs bytes (fs, st) = Some (fs', fold del (take k rs) st) \<and>
    length rs - k \<le> max_n \<and> bytes_of fs' path (drop k rs) \<le> unat max_b \<and>
    (\<forall>p. fs' p = fs p \<or> fs' p = None) \<and>
    (\<forall>j<k. max_n < length rs - j \<or> unat max_b < bytes_of fs path (drop j rs))"
  using assms
proof (induction rs arbitrary: bytes fs st)
  case Nil
  then show ?case by (auto simp: word_less_nat_alt)
next
  case (Cons r rs)
  let ?size = "safe_file_size fs (path r)"
  let ?fs = "if removable (path r) then fs(path r := None) else fs"
  show ?case
  proof (cases "max_n < Suc (length rs) \<or> max_b < bytes")
    case True
    have other: "path r \<notin> path ` set rs" using Cons.prems(1) by auto
    have same: "bytes_of ?fs path rs = bytes_of fs path rs" using other by (simp add: bytes_of_other)
    have "unat (saturating_sub bytes ?size) = bytes_of ?fs path rs"
      using Cons.prems(2) by (simp add: unat_saturating_sub same)
    with Cons.IH [of "saturating_sub bytes ?size" ?fs "del r st"] Cons.prems(1) obtain k fs' where k: "k \<le> length rs"
      "evict_files max_n max_b path del removable rs (saturating_sub bytes ?size) (?fs, del r st) = Some (fs', fold del (take k rs) (del r st))"
      "length rs - k \<le> max_n" "bytes_of fs' path (drop k rs) \<le> unat max_b"
      "\<forall>p. fs' p = ?fs p \<or> fs' p = None"
      "\<forall>j<k. max_n < length rs - j \<or> unat max_b < bytes_of ?fs path (drop j rs)" by auto
    have "bytes_of ?fs path (drop j rs) = bytes_of fs path (drop j rs)" for j
    proof -
      have "path r \<notin> path ` set (drop j rs)" using other set_drop_subset [of j rs] by blast
      then show ?thesis by (simp add: bytes_of_other)
    qed
    moreover have "unat max_b < bytes_of fs path (r # rs) \<or> max_n < length (r # rs)"
      using True Cons.prems(2) by (auto simp: word_less_nat_alt)
    ultimately have "\<forall>j<Suc k. max_n < length (r # rs) - j \<or> unat max_b < bytes_of fs path (drop j (r # rs))"
      using k(6) by (auto simp: less_Suc_eq_0_disj)
    moreover have "fs' p = fs p \<or> fs' p = None" for p
      using k(5) [rule_format, of p] by (cases "p = path r") (auto split: if_splits)
    ultimately show ?thesis using True k(1-4) by (intro exI [of _ "Suc k"] exI [of _ fs']) simp
  next
    case False
    then show ?thesis using Cons.prems(2) by (intro exI [of _ 0] exI [of _ fs]) (auto simp: word_less_nat_alt)
  qed
qed

lemma evict_rows_spec:
  "evict_rows max_n del rs st = fold del (take (length rs - max_n) rs) st"
proof (induction rs arbitrary: st)
  case (Cons r rs)
  then show ?case by (cases "max_n < Suc (length rs)") (auto simp: Suc_diff_le less_Suc_eq_le)
qed simp

text \<open>What is left of a table when the first rows of a list of it are deleted by key.\<close>

lemma evicted_mset:
  assumes "distinct (map key rows)" "mset xs = mset rows"
  shows "mset (filter (\<lambda>r. key r \<notin> key ` set (take k xs)) rows) = mset (drop k xs)"
proof -
  let ?P = "\<lambda>r. key r \<notin> key ` set (take k xs)"
  have "distinct (map key xs)" using assms by (metis distinct_map mset_eq_imp_distinct_iff mset_eq_setD)
  then have "distinct (map key (take k xs @ drop k xs))" by (simp only: append_take_drop_id)
  then have dis: "key ` set (take k xs) \<inter> key ` set (drop k xs) = {}" by (simp only: map_append distinct_append set_map)
  have "filter ?P (drop k xs) = drop k xs" using dis by (subst filter_id_conv) blast
  moreover have "filter ?P (take k xs) = []" by (simp add: filter_empty_conv)
  ultimately have "filter ?P (take k xs @ drop k xs) = drop k xs" by (simp only: filter_append append_Nil)
  then have "filter ?P xs = drop k xs" by (simp only: append_take_drop_id)
  then show ?thesis using assms(2) by (metis mset_filter)
qed

lemma fold_delete:
  assumes "\<And>r st. rows (del r st) = delete_by key (k r) (rows st)"
  shows "rows (fold del xs st) = filter (\<lambda>row. key row \<notin> k ` set xs) (rows st)"
proof (induction xs arbitrary: st)
  case (Cons x xs)
  then show ?case by (auto simp: assms delete_by_def intro: filter_cong)
qed (simp add: filter_True)

lemma fold_same: "(\<And>r st. g (del r st) = g st) \<Longrightarrow> g (fold del xs st) = g st"
  by (induction xs arbitrary: st) auto

lemma bytes_of_mset: "mset xs = mset ys \<Longrightarrow> bytes_of fs path xs = bytes_of fs path ys"
  by (simp add: bytes_of_def flip: sum_mset_sum_list)

lemma bytes_of_mono: "(\<forall>p. fs' p = fs p \<or> fs' p = None) \<Longrightarrow> bytes_of fs' path rs \<le> bytes_of fs path rs"
proof (induction rs)
  case (Cons r rs)
  have "unat (safe_file_size fs' (path r)) \<le> unat (safe_file_size fs (path r))"
    using Cons.prems [rule_format, of "path r"] by (auto simp: safe_file_size_def)
  with Cons show ?case by simp
qed simp

lemma mset_oldest [simp]: "mset (oldest time rows) = mset rows"
  by (simp add: oldest_def)

lemma mset_list_rows: "mset (list_rows (\<lambda>_. True) rows) = mset (map fst rows)"
  by (simp add: list_rows_def newest_first_def)

lemma mset_newest: "mset (newest_first rows) = mset (map fst rows)"
  by (simp add: newest_first_def)

text \<open>One file table: what the loop over it does to the table of payloads.\<close>

lemma evict_table:
  assumes keys: "distinct (map key recs)" and files: "distinct (map path recs)" and bytes: "bytes_of fs path recs < 2 ^ 64"
    and xs: "mset xs = mset recs"
    and left: "\<And>k. g (fold del (take k (oldest time xs)) st) = filter (\<lambda>r. key r \<notin> key ` set (take k (oldest time xs))) recs"
  shows "\<exists>k fs'. evict_files max_n max_b path del removable (oldest time xs) (total_size fs path xs) (fs, st) =
      Some (fs', fold del (take k (oldest time xs)) st) \<and>
    length (g (fold del (take k (oldest time xs)) st)) \<le> max_n \<and>
    bytes_of fs' path (g (fold del (take k (oldest time xs)) st)) \<le> unat max_b \<and>
    (\<forall>p. fs' p = fs p \<or> fs' p = None) \<and>
    (\<forall>r\<in>set recs - set (g (fold del (take k (oldest time xs)) st)).
       \<forall>q\<in>set (g (fold del (take k (oldest time xs)) st)). time r \<le> time q)"
proof -
  let ?xs = "oldest time xs"
  have same: "mset ?xs = mset recs" using xs by simp
  have "distinct (map path ?xs)" using files same by (metis distinct_map mset_eq_imp_distinct_iff mset_eq_setD)
  moreover have "unat (total_size fs path xs) = bytes_of fs path ?xs"
    using bytes bytes_of_mset [OF same, of fs path] bytes_of_mset [OF xs, of fs path] by (simp add: unat_total_size)
  ultimately obtain k fs' where k: "k \<le> length ?xs"
    "evict_files max_n max_b path del removable ?xs (total_size fs path xs) (fs, st) = Some (fs', fold del (take k ?xs) st)"
    "length ?xs - k \<le> max_n" "bytes_of fs' path (drop k ?xs) \<le> unat max_b" "\<forall>p. fs' p = fs p \<or> fs' p = None"
    using evict_files_spec [of path ?xs "total_size fs path xs" fs max_n max_b del removable st] by blast
  have kept: "mset (g (fold del (take k ?xs) st)) = mset (drop k ?xs)" using evicted_mset [OF keys same] by (simp add: left)
  then have len: "length (g (fold del (take k ?xs) st)) = length ?xs - k" by (metis length_drop size_mset)
  have "sorted (map (\<lambda>r. unat (time r)) (take k ?xs @ drop k ?xs))" by (simp only: append_take_drop_id) (simp add: oldest_def)
  then have "\<forall>r\<in>set (take k ?xs). \<forall>q\<in>set (drop k ?xs). time r \<le> time q"
    unfolding map_append sorted_append word_le_nat_alt by auto
  moreover have "set recs = set (take k ?xs) \<union> set (drop k ?xs)"
    using same by (metis append_take_drop_id mset_eq_setD set_append)
  moreover have "set (g (fold del (take k ?xs) st)) = set (drop k ?xs)" using kept by (rule mset_eq_setD)
  ultimately have "\<forall>r\<in>set recs - set (g (fold del (take k ?xs) st)). \<forall>q\<in>set (g (fold del (take k ?xs) st)). time r \<le> time q"
    by blast
  with k(2-5) len bytes_of_mset [OF kept, of fs' path] show ?thesis by (intro exI [of _ k] exI [of _ fs']) simp
qed

section \<open>The policy\<close>

lemmas eviction_defs = delete_browser_artifact_def delete_browser_session_state_def delete_crawl_job_def
  delete_watch_job_def delete_website_memory_def

definition payloads :: "('r \<times> u64) list \<Rightarrow> 'r list" where
  "payloads rows = map fst rows"

text \<open>Keys are unique, as the tables keep them, every row has a file of its own, and the sizes add up within 64 bits.\<close>

definition storage_ok :: "web_files \<Rightarrow> web_store \<Rightarrow> bool" where
  "storage_ok fs st = (distinct (map bar_artifact_id (browser_artifacts st)) \<and>
     distinct (map bar_storage_path (browser_artifacts st)) \<and> bytes_of fs bar_storage_path (browser_artifacts st) < 2 ^ 64 \<and>
     distinct (map bst_state_id (payloads (browser_session_states st))) \<and>
     distinct (map bst_storage_path (payloads (browser_session_states st))) \<and>
     bytes_of fs bst_storage_path (payloads (browser_session_states st)) < 2 ^ 64 \<and>
     distinct (map cj_crawl_id (payloads (crawl_jobs st))) \<and> distinct (map wj_watch_id (payloads (watch_jobs st))) \<and>
     distinct (map wm_record_id (payloads (website_memory st))))"

lemma payloads_fold_delete:
  assumes "\<And>r st. rows (del r st) = delete_by (by_payload key) (key r) (rows st)"
  shows "payloads (rows (fold del xs st)) = filter (\<lambda>r. key r \<notin> key ` set xs) (payloads (rows st))"
proof -
  have "rows (fold del xs st) = filter (\<lambda>row. by_payload key row \<notin> key ` set xs) (rows st)"
    using fold_delete [of rows del "by_payload key" key] assms by blast
  then show ?thesis by (simp add: payloads_def filter_map comp_def by_payload_def)
qed

text \<open>A table with a limit on its rows alone.\<close>

lemma evict_count:
  assumes "distinct (map key (payloads (rows st)))" "mset xs = mset (payloads (rows st))"
    and "\<And>r st. rows (del r st) = delete_by (by_payload key) (key r) (rows st)"
  shows "length (rows (evict_rows max_n del (oldest time xs) st)) \<le> max_n"
proof -
  let ?k = "length (oldest time xs) - max_n"
  have "mset (payloads (rows (fold del (take ?k (oldest time xs)) st))) = mset (drop ?k (oldest time xs))"
    using evicted_mset [OF assms(1), of "oldest time xs"] assms(2) by (simp add: payloads_fold_delete [of rows del key] assms(3))
  then have "length (payloads (rows (fold del (take ?k (oldest time xs)) st))) = length (drop ?k (oldest time xs))"
    by (metis size_mset)
  then show ?thesis by (simp add: evict_rows_spec payloads_def)
qed

lemma evict_artifacts_ok:
  assumes ok: "storage_ok fs st"
  shows "\<exists>fs' st'. evict_artifacts p removable (fs, st) = Some (fs', st') \<and> storage_ok fs' st' \<and>
    length (browser_artifacts st') \<le> wp_browser_artifact_max_count p \<and>
    bytes_of fs' bar_storage_path (browser_artifacts st') \<le> unat (wp_browser_artifact_max_bytes p) \<and>
    (\<forall>r\<in>set (browser_artifacts st) - set (browser_artifacts st').
       \<forall>q\<in>set (browser_artifacts st'). bar_created_at_us r \<le> bar_created_at_us q)"
proof -
  let ?del = "\<lambda>r. delete_browser_artifact (bar_artifact_id r)"
  let ?A = "list_browser_artifacts None None st"
  have mA: "mset ?A = mset (browser_artifacts st)" by (simp add: list_browser_artifacts_def by_age_def asked_def)
  have left: "browser_artifacts (fold ?del xs st) =
      filter (\<lambda>r. bar_artifact_id r \<notin> bar_artifact_id ` set xs) (browser_artifacts st)" for xs
    by (rule fold_delete) (simp add: eviction_defs)
  have okA: "distinct (map bar_artifact_id (browser_artifacts st))" "distinct (map bar_storage_path (browser_artifacts st))"
    "bytes_of fs bar_storage_path (browser_artifacts st) < 2 ^ 64" using ok by (simp_all add: storage_ok_def)
  define st' where "st' k = fold ?del (take k (oldest bar_created_at_us ?A)) st" for k
  have others: "browser_session_states (st' k) = browser_session_states st" "crawl_jobs (st' k) = crawl_jobs st"
    "watch_jobs (st' k) = watch_jobs st" "website_memory (st' k) = website_memory st" for k
    unfolding st'_def by (rule fold_same, simp add: eviction_defs)+
  have "\<exists>k fs'. evict_artifacts p removable (fs, st) = Some (fs', st' k) \<and>
    length (browser_artifacts (st' k)) \<le> wp_browser_artifact_max_count p \<and>
    bytes_of fs' bar_storage_path (browser_artifacts (st' k)) \<le> unat (wp_browser_artifact_max_bytes p) \<and>
    (\<forall>p. fs' p = fs p \<or> fs' p = None) \<and>
    (\<forall>r\<in>set (browser_artifacts st) - set (browser_artifacts (st' k)).
       \<forall>q\<in>set (browser_artifacts (st' k)). bar_created_at_us r \<le> bar_created_at_us q)"
    using evict_table [where g = browser_artifacts and del = ?del and st = st and time = bar_created_at_us
      and path = bar_storage_path and fs = fs and max_n = "wp_browser_artifact_max_count p"
      and max_b = "wp_browser_artifact_max_bytes p" and removable = removable, OF okA mA left]
    unfolding evict_artifacts_def Let_def fst_conv snd_conv st'_def .
  then obtain k fs' where "evict_artifacts p removable (fs, st) = Some (fs', st' k) \<and>
    length (browser_artifacts (st' k)) \<le> wp_browser_artifact_max_count p \<and>
    bytes_of fs' bar_storage_path (browser_artifacts (st' k)) \<le> unat (wp_browser_artifact_max_bytes p) \<and>
    (\<forall>p. fs' p = fs p \<or> fs' p = None) \<and>
    (\<forall>r\<in>set (browser_artifacts st) - set (browser_artifacts (st' k)).
       \<forall>q\<in>set (browser_artifacts (st' k)). bar_created_at_us r \<le> bar_created_at_us q)"
    by (elim exE) (rule that)
  note k = this [THEN conjunct1] this [THEN conjunct2]
  have small: "bytes_of fs' bar_storage_path (browser_artifacts (st' k)) < 2 ^ 64"
    using k(2) unat_bound [of "wp_browser_artifact_max_bytes p"] by simp
  have "distinct (map key (browser_artifacts (st' k)))" if "distinct (map key (browser_artifacts st))" for key :: "_ \<Rightarrow> string"
    using that by (simp add: st'_def left distinct_map_filter)
  moreover have "bytes_of fs' bst_storage_path (payloads (browser_session_states st)) < 2 ^ 64"
    using ok bytes_of_mono [of fs' fs bst_storage_path "payloads (browser_session_states st)"] k(2) by (simp add: storage_ok_def)
  ultimately have "storage_ok fs' (st' k)" using ok small unfolding storage_ok_def others by simp
  with k show ?thesis by (intro exI [of _ fs'] exI [of _ "st' k"]) simp
qed

lemma evict_states_ok:
  assumes ok: "storage_ok fs st"
  shows "\<exists>fs' st'. evict_states p removable (fs, st) = Some (fs', st') \<and> storage_ok fs st' \<and>
    browser_artifacts st' = browser_artifacts st \<and> (\<forall>p. fs' p = fs p \<or> fs' p = None) \<and>
    length (browser_session_states st') \<le> wp_browser_session_state_max_count p \<and>
    bytes_of fs' bst_storage_path (payloads (browser_session_states st')) \<le> unat (wp_browser_session_state_max_bytes p)"
proof -
  let ?del = "\<lambda>r. delete_browser_session_state (bst_state_id r)"
  let ?S = "list_browser_session_states None None st"
  let ?recs = "payloads (browser_session_states st)"
  have mS: "mset ?S = mset ?recs"
    by (simp add: list_browser_session_states_def asked_def mset_list_rows payloads_def)
  have left: "payloads (browser_session_states (fold ?del xs st)) =
      filter (\<lambda>r. bst_state_id r \<notin> bst_state_id ` set xs) ?recs" for xs :: "BrowserSessionStateRecord list"
    by (rule payloads_fold_delete) (simp add: eviction_defs)
  have okS: "distinct (map bst_state_id ?recs)" "distinct (map bst_storage_path ?recs)" "bytes_of fs bst_storage_path ?recs < 2 ^ 64"
    using ok by (simp_all add: storage_ok_def)
  define st' where "st' k = fold ?del (take k (oldest bst_updated_at_us ?S)) st" for k
  have others: "browser_artifacts (st' k) = browser_artifacts st" "crawl_jobs (st' k) = crawl_jobs st"
    "watch_jobs (st' k) = watch_jobs st" "website_memory (st' k) = website_memory st" for k
    unfolding st'_def by (rule fold_same, simp add: eviction_defs)+
  have "\<exists>k fs'. evict_states p removable (fs, st) = Some (fs', st' k) \<and>
    length (payloads (browser_session_states (st' k))) \<le> wp_browser_session_state_max_count p \<and>
    bytes_of fs' bst_storage_path (payloads (browser_session_states (st' k))) \<le> unat (wp_browser_session_state_max_bytes p) \<and>
    (\<forall>p. fs' p = fs p \<or> fs' p = None) \<and>
    (\<forall>r\<in>set ?recs - set (payloads (browser_session_states (st' k))).
       \<forall>q\<in>set (payloads (browser_session_states (st' k))). bst_updated_at_us r \<le> bst_updated_at_us q)"
    using evict_table [where g = "\<lambda>st. payloads (browser_session_states st)" and del = ?del and st = st
      and time = bst_updated_at_us and path = bst_storage_path and fs = fs and max_n = "wp_browser_session_state_max_count p"
      and max_b = "wp_browser_session_state_max_bytes p" and removable = removable, OF okS mS left]
    unfolding evict_states_def Let_def fst_conv snd_conv st'_def .
  then obtain k fs' where "evict_states p removable (fs, st) = Some (fs', st' k) \<and>
    length (payloads (browser_session_states (st' k))) \<le> wp_browser_session_state_max_count p \<and>
    bytes_of fs' bst_storage_path (payloads (browser_session_states (st' k))) \<le> unat (wp_browser_session_state_max_bytes p) \<and>
    (\<forall>p. fs' p = fs p \<or> fs' p = None) \<and>
    (\<forall>r\<in>set ?recs - set (payloads (browser_session_states (st' k))).
       \<forall>q\<in>set (payloads (browser_session_states (st' k))). bst_updated_at_us r \<le> bst_updated_at_us q)"
    by (elim exE) (rule that)
  note k = this [THEN conjunct1] this [THEN conjunct2]
  have "distinct (map key (payloads (browser_session_states (st' k))))" if "distinct (map key ?recs)" for key :: "_ \<Rightarrow> string"
    using that by (simp add: st'_def left distinct_map_filter)
  moreover have "bytes_of fs path (filter P rs) \<le> bytes_of fs path rs" for path :: "BrowserSessionStateRecord \<Rightarrow> string" and P rs
    by (induction rs) auto
  then have "bytes_of fs bst_storage_path (payloads (browser_session_states (st' k))) < 2 ^ 64"
    unfolding st'_def left using okS(3) by (rule order.strict_trans1)
  ultimately have "storage_ok fs (st' k)" using ok unfolding storage_ok_def others by simp
  with k show ?thesis by (intro exI [of _ fs'] exI [of _ "st' k"]) (simp add: others payloads_def)
qed

lemma evict_jobs_ok:
  assumes ok: "storage_ok fs st" and st': "st' = evict_website_memory p (evict_watch_jobs p (evict_crawl_jobs p st))"
  shows "length (crawl_jobs st') \<le> wp_crawl_job_max_count p \<and> length (watch_jobs st') \<le> wp_watch_job_max_count p \<and>
    length (website_memory st') \<le> wp_website_memory_max_count p \<and>
    browser_artifacts st' = browser_artifacts st \<and> browser_session_states st' = browser_session_states st"
proof -
  define s1 s2 where "s1 = evict_crawl_jobs p st" and "s2 = evict_watch_jobs p s1"
  have st'2: "st' = evict_website_memory p s2" using st' by (simp add: s1_def s2_def)
  note defs = evict_crawl_jobs_def evict_watch_jobs_def evict_website_memory_def evict_rows_spec
  have keep1: "browser_artifacts s1 = browser_artifacts st" "browser_session_states s1 = browser_session_states st"
    "watch_jobs s1 = watch_jobs st" "website_memory s1 = website_memory st"
    unfolding s1_def defs by (rule fold_same, simp add: eviction_defs)+
  have keep2: "browser_artifacts s2 = browser_artifacts s1" "browser_session_states s2 = browser_session_states s1"
    "crawl_jobs s2 = crawl_jobs s1" "website_memory s2 = website_memory s1"
    unfolding s2_def defs by (rule fold_same, simp add: eviction_defs)+
  have keep3: "browser_artifacts st' = browser_artifacts s2" "browser_session_states st' = browser_session_states s2"
    "crawl_jobs st' = crawl_jobs s2" "watch_jobs st' = watch_jobs s2"
    unfolding st'2 defs by (rule fold_same, simp add: eviction_defs)+
  have "length (crawl_jobs s1) \<le> wp_crawl_job_max_count p" unfolding s1_def evict_crawl_jobs_def
    using ok by (intro evict_count [where key = cj_crawl_id])
      (simp_all add: storage_ok_def list_crawl_jobs_def mset_newest payloads_def eviction_defs)
  moreover have "length (watch_jobs s2) \<le> wp_watch_job_max_count p" unfolding s2_def evict_watch_jobs_def
    using ok by (intro evict_count [where key = wj_watch_id])
      (simp_all add: storage_ok_def keep1 list_watch_jobs_def mset_newest payloads_def eviction_defs)
  moreover have "length (website_memory st') \<le> wp_website_memory_max_count p" unfolding st'2 evict_website_memory_def
    using ok by (intro evict_count [where key = wm_record_id])
      (simp_all add: storage_ok_def keep1 keep2 list_website_memory_def asked_def mset_list_rows payloads_def eviction_defs)
  ultimately show ?thesis by (simp add: keep1 keep2 keep3)
qed

text \<open>C21: when every artifact and every saved state has a file of its own, the storage policy ends without a panic, leaves
  no more rows and no more bytes than its limits say in each of the five tables, and keeps the newest artifacts.\<close>

theorem web_storage_enforced:
  assumes "storage_ok fs st"
  shows "\<exists>fs' st'. enforce_web_storage_policy p removable (fs, st) = Some (fs', st') \<and>
    length (browser_artifacts st') \<le> wp_browser_artifact_max_count p \<and>
    bytes_of fs' bar_storage_path (browser_artifacts st') \<le> unat (wp_browser_artifact_max_bytes p) \<and>
    length (browser_session_states st') \<le> wp_browser_session_state_max_count p \<and>
    bytes_of fs' bst_storage_path (payloads (browser_session_states st')) \<le> unat (wp_browser_session_state_max_bytes p) \<and>
    length (crawl_jobs st') \<le> wp_crawl_job_max_count p \<and> length (watch_jobs st') \<le> wp_watch_job_max_count p \<and>
    length (website_memory st') \<le> wp_website_memory_max_count p \<and>
    (\<forall>r\<in>set (browser_artifacts st) - set (browser_artifacts st').
       \<forall>q\<in>set (browser_artifacts st'). bar_created_at_us r \<le> bar_created_at_us q)"
proof -
  obtain fs1 st1 where 1: "evict_artifacts p removable (fs, st) = Some (fs1, st1)" "storage_ok fs1 st1"
    "length (browser_artifacts st1) \<le> wp_browser_artifact_max_count p"
    "bytes_of fs1 bar_storage_path (browser_artifacts st1) \<le> unat (wp_browser_artifact_max_bytes p)"
    "\<forall>r\<in>set (browser_artifacts st) - set (browser_artifacts st1).
       \<forall>q\<in>set (browser_artifacts st1). bar_created_at_us r \<le> bar_created_at_us q"
    using evict_artifacts_ok [OF assms, of p removable] by blast
  obtain fs2 st2 where 2: "evict_states p removable (fs1, st1) = Some (fs2, st2)" "storage_ok fs1 st2"
    "browser_artifacts st2 = browser_artifacts st1" "\<forall>p. fs2 p = fs1 p \<or> fs2 p = None"
    "length (browser_session_states st2) \<le> wp_browser_session_state_max_count p"
    "bytes_of fs2 bst_storage_path (payloads (browser_session_states st2)) \<le> unat (wp_browser_session_state_max_bytes p)"
    using evict_states_ok [OF 1(2), of p removable] by blast
  define st3 where "st3 = evict_website_memory p (evict_watch_jobs p (evict_crawl_jobs p st2))"
  note 3 = evict_jobs_ok [OF 2(2) st3_def]
  have "bytes_of fs2 bar_storage_path (browser_artifacts st1) \<le> unat (wp_browser_artifact_max_bytes p)"
    using bytes_of_mono [OF 2(4), of bar_storage_path "browser_artifacts st1"] 1(4) by simp
  moreover have "enforce_web_storage_policy p removable (fs, st) = Some (fs2, st3)"
    using 1(1) 2(1) by (simp add: enforce_web_storage_policy_def st3_def)
  ultimately show ?thesis using 1(3,5) 2(3,5,6) 3 by (intro exI [of _ fs2] exI [of _ st3]) simp
qed

text \<open>A small store that meets the hypothesis: one artifact too many, each with a file of its own.\<close>

definition sample_artifact :: "string \<Rightarrow> u64 \<Rightarrow> BrowserArtifactRecord" where
  "sample_artifact k t = \<lparr>bar_artifact_id = k, bar_browser_session_id = ''b'', bar_session_id = [], bar_agent_id = ''a'',
     bar_profile_id = ''p'', bar_kind = DomSnapshot, bar_mime_type = ''text/html'', bar_storage_path = k @ ''.html'',
     bar_metadata = JNull, bar_created_at_us = t\<rparr>"

definition sample_state :: "string \<Rightarrow> u64 \<Rightarrow> BrowserSessionStateRecord" where
  "sample_state k t = \<lparr>bst_state_id = k, bst_browser_session_id = ''b'', bst_session_id = [], bst_agent_id = ''a'',
     bst_profile_id = ''p'', bst_storage_path = ''b.enc.json'', bst_content_sha256_hex = ''00'', bst_last_restored_at_us = None,
     bst_created_at_us = t, bst_updated_at_us = t\<rparr>"

definition sample_web_store :: web_store where
  "sample_web_store = \<lparr>browser_profiles = [], browser_profile_bindings = [], browser_sessions = [],
     browser_session_states = [(sample_state ''s1'' 1, 1)], browser_artifacts = [sample_artifact ''a2'' 2, sample_artifact ''a1'' 1],
     browser_login_states = [], computer_sessions = [], computer_action_audits = [], computer_artifacts = [],
     domain_access_decisions = [], crawl_jobs = [], watch_jobs = [], website_memory = []\<rparr>"

definition sample_limits :: WebStoragePolicy where
  "sample_limits = \<lparr>wp_browser_artifact_max_count = 1, wp_browser_artifact_max_bytes = 100,
     wp_browser_session_state_max_count = 1, wp_browser_session_state_max_bytes = 100, wp_crawl_job_max_count = 5,
     wp_watch_job_max_count = 5, wp_website_memory_max_count = 5\<rparr>"

theorem web_storage_enforced_witness:
  "\<exists>fs' st'. enforce_web_storage_policy sample_limits (\<lambda>_. True) (\<lambda>_. Some ''data'', sample_web_store) = Some (fs', st') \<and>
     length (browser_artifacts st') \<le> 1"
proof -
  have "storage_ok (\<lambda>_. Some ''data'') sample_web_store"
    by (simp add: storage_ok_def sample_web_store_def sample_artifact_def sample_state_def payloads_def safe_file_size_def)
  from web_storage_enforced [OF this, of sample_limits "\<lambda>_. True"] show ?thesis
    by (elim exE conjE) (auto simp: sample_limits_def)
qed

section \<open>Rows that share a file\<close>

text \<open>Two saves of a session write one file under two rows.  Evicting the older row takes the file of the newer one
  with it; when the file alone is over the limit the loop empties the vector and panics.\<close>

lemma shared_states_listed:
  assumes "browser_session_states st = [(old, t1), (new, t2)]" "bst_updated_at_us old < bst_updated_at_us new"
  shows "oldest bst_updated_at_us (list_browser_session_states None None st) = [old, new]"
  using assms by (simp add: list_browser_session_states_def asked_def list_rows_def newest_first_def oldest_def word_less_nat_alt)

lemma total_of_two:
  assumes "mset xs = {#old, new#}" "bst_storage_path old = bst_storage_path new"
  shows "total_size fs bst_storage_path xs = 2 * safe_file_size fs (bst_storage_path new)"
proof -
  have "total_size fs bst_storage_path xs = sum_mset (image_mset (\<lambda>r. safe_file_size fs (bst_storage_path r)) (mset xs))"
    by (simp add: total_size_def sum_mset_sum_list flip: mset_map)
  then show ?thesis using assms by simp
qed

lemma saturating_sub_double:
  fixes x :: u64
  assumes "2 * unat x < 2 ^ 64"
  shows "saturating_sub (2 * x) x = x"
proof -
  have "unat (x + x) = unat x + unat x" by (rule unat_add_lem [THEN iffD1]) (use assms in simp)
  then have "unat (saturating_sub (x + x) x) = unat x" by (simp add: unat_saturating_sub)
  then show ?thesis by (simp only: word_unat_eq_iff mult_2)
qed

lemma evict_two:
  assumes "path old = path new" "removable (path new)" "saturating_sub bytes (safe_file_size fs (path new)) = safe_file_size fs (path new)"
  shows "evict_files (Suc 0) max_b path del removable [old, new] bytes (fs, st) =
    (if max_b < safe_file_size fs (path new) then None else Some (fs(path new := None), del old st))"
proof -
  have gone: "safe_file_size (fs(path new := None)) (path new) = 0" by (simp add: safe_file_size_def)
  have "saturating_sub x 0 = x" for x :: u64 by (simp add: saturating_sub_def)
  then show ?thesis using assms gone by simp
qed

text \<open>C22: two saved states that share their file, with room for one row: the older row is evicted and the file of the
  newer one goes with it, or, when the file alone is over the limit, the loop panics.\<close>

theorem shared_state_file_lost:
  assumes states: "browser_session_states st = [(old, t1), (new, t2)]" and age: "bst_updated_at_us old < bst_updated_at_us new"
    and keys: "bst_state_id old \<noteq> bst_state_id new" and shared: "bst_storage_path old = bst_storage_path new"
    and others: "browser_artifacts st = []" "crawl_jobs st = []" "watch_jobs st = []" "website_memory st = []"
    and limit: "wp_browser_session_state_max_count p = 1" and removable: "removable (bst_storage_path new)"
    and size: "2 * unat (safe_file_size fs (bst_storage_path new)) < 2 ^ 64"
  shows "enforce_web_storage_policy p removable (fs, st) =
    (if wp_browser_session_state_max_bytes p < safe_file_size fs (bst_storage_path new) then None
     else Some (fs(bst_storage_path new := None), st\<lparr>browser_session_states := [(new, t2)]\<rparr>))"
proof -
  let ?size = "safe_file_size fs (bst_storage_path new)"
  let ?xs = "list_browser_session_states None None st"
  have "mset ?xs = {#old, new#}" by (simp add: list_browser_session_states_def asked_def mset_list_rows states)
  then have total: "total_size fs bst_storage_path ?xs = 2 * ?size" using shared by (rule total_of_two)
  have once: "saturating_sub (2 * ?size) ?size = ?size" using size by (rule saturating_sub_double)
  have arts: "evict_artifacts p removable (fs, st) = Some (fs, st)"
    by (simp add: evict_artifacts_def list_browser_artifacts_def by_age_def asked_def others oldest_def total_size_def)
  have "evict_states p removable (fs, st) = (if wp_browser_session_state_max_bytes p < ?size then None
     else Some (fs(bst_storage_path new := None), delete_browser_session_state (bst_state_id old) st))"
    unfolding evict_states_def Let_def fst_conv snd_conv shared_states_listed [OF states age] total limit One_nat_def
    by (rule evict_two [where path = bst_storage_path]) (use shared removable once in simp_all)
  moreover have "delete_browser_session_state (bst_state_id old) st = st\<lparr>browser_session_states := [(new, t2)]\<rparr>"
    using keys by (simp add: delete_browser_session_state_def delete_by_def by_payload_def states)
  moreover have "evict_website_memory p (evict_watch_jobs p (evict_crawl_jobs p s)) = s"
    if "crawl_jobs s = []" "watch_jobs s = []" "website_memory s = []" for s
    using that by (simp add: evict_website_memory_def evict_watch_jobs_def evict_crawl_jobs_def oldest_def list_crawl_jobs_def
        list_watch_jobs_def list_website_memory_def list_rows_def newest_first_def)
  ultimately show ?thesis by (simp add: enforce_web_storage_policy_def arts others)
qed

theorem shared_state_file_lost_witness:
  "\<exists>st'. enforce_web_storage_policy sample_limits (\<lambda>_. True) (\<lambda>_. Some ''data'',
      sample_web_store\<lparr>browser_artifacts := [], browser_session_states := [(sample_state ''s1'' 1, 1), (sample_state ''s2'' 2, 2)]\<rparr>) =
    Some ((\<lambda>_. Some ''data'')(''b.enc.json'' := None), st') \<and> browser_session_states st' = [(sample_state ''s2'' 2, 2)]"
  by (subst shared_state_file_lost [where old = "sample_state ''s1'' 1" and new = "sample_state ''s2'' 2" and ?t1.0 = 1 and ?t2.0 = 2])
    (simp_all add: sample_web_store_def sample_state_def sample_limits_def safe_file_size_def)

section \<open>Redaction\<close>

text \<open>A secret that is a part of another leaves the rest of it in the text when it comes first; names of members stay.\<close>

lemma redaction_order:
  "redact_text [''key'', ''key-1''] ''x key-1'' = ''x [REDACTED]-1''"
  "redact_text [''key-1'', ''key''] ''x key-1'' = ''x [REDACTED]''"
  "redact_known_secrets_from_json [''key''] (JObject [(''key'', JString ''key'')]) = JObject [(''key'', JString ''[REDACTED]'')]"
  by code_simp+

section \<open>The bridge\<close>

text \<open>C15: a command for the automation bridge starts a program that was configured by an absolute path, is an executable
  file whose bytes hash to an entry of the allowlist, and whose manifest speaks protocol 1, the mode and the command.
  On Linux with containment the whole file system is read-only for it but the profile's and the temporary directory.\<close>

theorem automation_runs_trusted_binary:
  assumes built: "build_browser_automation_command h print s request = Ok (argv, dirs)"
    and cmd: "build_browser_bridge_command h (hd argv) (tl argv) dirs = Ok cmd"
  shows "\<exists>b digest m. bh_binary h = Some b \<and> hd argv = b \<and> starts_with ''/'' b \<and> bh_is_file h b = Ok True \<and>
    bh_executable h b \<and> bh_sha256_hex h b = Ok digest \<and> digest \<in> set (bh_allowlist h) \<and> bh_manifest h b = Ok m \<and>
    bm_protocol_version m = 1 \<and> ''argv_json'' \<in> set (bm_supported_modes m) \<and> ''browser_action'' \<in> set (bm_supported_commands m) \<and>
    (bh_containment_requested h \<longrightarrow> bh_os h = LinuxOs \<longrightarrow> pr_argv cmd =
       [''bwrap'', ''--die-with-parent'', ''--new-session'', ''--unshare-all'', ''--share-net'', ''--ro-bind'', ''/'', ''/''] @
       concat (map (\<lambda>d. [''--bind'', display_path d, display_path d])
         (dedupe_normalized_paths [bse_profile_dir s, bh_temp_dir h])) @ argv)"
proof -
  note defs = build_browser_automation_command_def resolve_trusted_browser_automation_bridge_for_mode_def
    validate_browser_automation_bridge_mode_def validate_browser_automation_bridge_command_def
  obtain b where b: "bh_binary h = Some b" using built by (cases "bh_binary h") (simp_all add: defs)
  moreover from this have abs: "starts_with ''/'' b" using built by (simp add: defs split: if_splits)
  moreover from b abs have is_f: "bh_is_file h b = Ok True"
    using built by (cases "bh_is_file h b") (simp_all add: defs split: if_splits)
  moreover from b abs is_f have exec: "bh_executable h b" "bh_allowlist h \<noteq> []"
    using built by (simp_all add: defs split: if_splits)
  moreover from b abs is_f exec obtain digest where digest: "bh_sha256_hex h b = Ok digest"
    using built by (cases "bh_sha256_hex h b") (simp_all add: defs)
  moreover from b abs is_f exec digest have listed: "digest \<in> set (bh_allowlist h)"
    using built by (simp add: defs split: if_splits)
  moreover from b abs is_f exec digest listed obtain m where m: "bh_manifest h b = Ok m"
    using built by (cases "bh_manifest h b") (simp_all add: defs)
  ultimately have "bm_protocol_version m = 1" "''argv_json'' \<in> set (bm_supported_modes m)"
    "''browser_action'' \<in> set (bm_supported_commands m)" "hd argv = b" "argv \<noteq> []"
    "dirs = dedupe_normalized_paths [bse_profile_dir s, bh_temp_dir h]"
    using built by (auto simp: defs REQUIRED_BROWSER_AUTOMATION_PROTOCOL_VERSION_def split: if_splits)
  moreover from this have "pr_argv cmd =
       [''bwrap'', ''--die-with-parent'', ''--new-session'', ''--unshare-all'', ''--share-net'', ''--ro-bind'', ''/'', ''/''] @
       concat (map (\<lambda>d. [''--bind'', display_path d, display_path d]) dirs) @ argv"
    if "bh_containment_requested h" "bh_os h = LinuxOs"
    using cmd that by (auto simp: build_browser_bridge_command_def build_os_contained_process_command_def split: if_splits)
  ultimately show ?thesis using b abs is_f exec digest listed m by simp
qed

definition sample_bridge :: bridge_host where
  "sample_bridge = \<lparr>bh_binary = Some ''/opt/bridge'', bh_is_file = (\<lambda>_. Ok True), bh_executable = (\<lambda>_. True),
     bh_allowlist = [''ab''], bh_sha256_hex = (\<lambda>_. Ok ''ab''), bh_manifest = (\<lambda>_. Ok \<lparr>bm_protocol_version = 1,
       bm_bridge_version = None, bm_supported_modes = [''argv_json''], bm_supported_commands = [''browser_action'']\<rparr>),
     bh_containment_requested = True, bh_os = LinuxOs, bh_on_path = (\<lambda>_. True), bh_env = (\<lambda>_. None), bh_temp_dir = ''/tmp'',
     bh_is_dir = (\<lambda>_. True)\<rparr>"

definition sample_session :: BrowserSessionRecord where
  "sample_session = \<lparr>bse_browser_session_id = ''b'', bse_session_id = [], bse_agent_id = ''a'', bse_profile_id = ''p'',
     bse_engine = ChromiumEngine, bse_transport = ManagedBrowser, bse_status = LaunchedSession, bse_pid = None,
     bse_profile_dir = ''/data/p'', bse_start_url = None, bse_launch_command = [], bse_error = None,
     bse_created_at_us = 1, bse_updated_at_us = 1\<rparr>"

definition sample_click :: BrowserActionRequest where
  "sample_click = \<lparr>br_browser_session_id = ''b'', br_action = Click, br_url = None, br_selector = Some ''x'', br_text = None,
     br_value = None, br_millis = None\<rparr>"

theorem automation_runs_trusted_binary_witness:
  "\<exists>argv dirs cmd. build_browser_automation_command sample_bridge (\<lambda>_. ''{}'') sample_session sample_click = Ok (argv, dirs) \<and>
     build_browser_bridge_command sample_bridge (hd argv) (tl argv) dirs = Ok cmd \<and> hd argv = ''/opt/bridge'' \<and>
     length (pr_argv cmd) = 16"
proof -
  let ?r = "build_browser_automation_command sample_bridge (\<lambda>_. ''{}'') sample_session sample_click"
  have paths: "dedupe_normalized_paths [''/data/p'', ''/tmp''] =
      [[RootDir, NormalName ''data'', NormalName ''p''], [RootDir, NormalName ''tmp'']]" by code_simp
  have built: "?r = Ok ([''/opt/bridge'', ''{}''], dedupe_normalized_paths [''/data/p'', ''/tmp''])"
    by (simp add: build_browser_automation_command_def resolve_trusted_browser_automation_bridge_for_mode_def sample_bridge_def
        validate_browser_automation_bridge_mode_def validate_browser_automation_bridge_command_def sample_session_def
        sample_click_def REQUIRED_BROWSER_AUTOMATION_PROTOCOL_VERSION_def)
  obtain cmd where cmd: "build_browser_bridge_command sample_bridge ''/opt/bridge'' [''{}''] (dedupe_normalized_paths [''/data/p'', ''/tmp'']) = Ok cmd"
    by (simp add: build_browser_bridge_command_def build_os_contained_process_command_def sample_bridge_def)
  have "length (pr_argv cmd) = 16"
    using automation_runs_trusted_binary [OF built, of cmd] cmd by (auto simp: sample_bridge_def sample_session_def paths)
  then show ?thesis using built cmd by simp
qed

end
