(* ===== verification/Spec2Isabelle.thy ===== *)
theory Spec2Isabelle
  imports Robotics DurableQueue Leases SessionMemory IndexTree ToolCatalog ToolCache AgentRuns BackendPool
    Policy Vault Orchestrator Scheduler ExecRouting LearningLaws McpStoreLaws WorkspaceLock ToolGuardLaws ApprovalLaws
    ConnectionPool BrowserStorage
begin

text \<open>A verification library for HiveClaw, a local-first runtime for software agents and robots
  written in Rust (crates \<open>aria-core\<close>, \<open>aria-x\<close>, \<open>aria-intelligence\<close>, \<open>aria-ssmu\<close>,
  \<open>aria-policy\<close>, \<open>aria-vault\<close> and others).

  \<^bold>\<open>The program.\<close>  Channels and schedulers put work into durable queues of a SQLite store.
  Workers claim messages, jobs and sub-agent runs, protected by leases, and drive a
  language model through a pool of backends.  The model sees tools from a catalogue that
  merges native tools with those of skills and MCP servers, through a bounded cache.
  Tool calls pass the guards of the agent's capability profile, the policy layer and, where they are
  sensitive, the approval of a user; credentials come from a vault.  Conversations
  live in session memory over an event log, documents in a bounded index; traces of tasks feed a
  learning pipeline.  Robot intents pass a deterministic bridge with a safety envelope.

  \<^bold>\<open>Theories.\<close>
  \<^item> \<open>Prelude\<close>: machine integers as words, \<open>Result\<close> as a sum (\<open>result_simps\<close>), saturating
    arithmetic, tables of keyed rows (\<open>table_simps\<close>), ASCII text.
  \<^item> \<open>Float32\<close>: \<open>f32\<close> as IEEE bit patterns, with the comparison the safety checks use.
  \<^item> \<open>Contracts\<close>: the interfaces as locales: \<open>claim_service\<close> (claiming the oldest ready item),
    \<open>lease_service\<close> and its extension \<open>releasable_lease_service\<close>, \<open>versioned_log\<close>
    (optimistic appends), \<open>lru_cache\<close>.  Each is interpreted on the components that provide it.
  \<^item> \<open>Robotics\<close>: \<open>robotics.rs\<close>, \<open>robotics_bridge.rs\<close>, \<open>ros2_bridge.rs\<close>, \<open>robotics_runtime.rs\<close>,
    \<open>runtime_store/robotics.rs\<close>; the locale \<open>motion_gate\<close> is interpreted on the bridge and on the
    evaluation.
  \<^item> \<open>DurableQueue\<close>: \<open>runtime_store/queues.rs\<close>; provides \<open>claim_service\<close>.
  \<^item> \<open>Leases\<close>: job and resource leases of \<open>runtime_store/outbound.rs\<close> and their clients; provides the
    lease services; quotas and retries that use them.
  \<^item> \<open>SessionMemory\<close>: \<open>aria-ssmu/src/lib.rs\<close> and \<open>persistence.rs\<close>; provides \<open>versioned_log\<close>; the cache
    refines the log.
  \<^item> \<open>IndexTree\<close>: the document index of \<open>aria-ssmu/src/lib.rs\<close>; provides \<open>lru_cache\<close>.
  \<^item> \<open>ToolSchema\<close>, \<open>ToolCatalog\<close>, \<open>ToolCache\<close>: \<open>aria-intelligence/src/tools.rs\<close>: schemas and
    visibility, the provider catalogue, the session cache (provides \<open>lru_cache\<close>).
  \<^item> \<open>AgentRuns\<close>: \<open>runtime_store/runs.rs\<close>: sub-agent runs (provides \<open>claim_service\<close>), presence, trees
    of runs, and the workers of \<open>aria-x/src/tools.rs\<close> that execute them.
  \<^item> \<open>BackendPool\<close>: \<open>aria-intelligence/src/runtime.rs\<close>: fallback queries, cooldowns, provider circuits.
  \<^item> \<open>Policy\<close>: \<open>aria-policy/src/lib.rs\<close>: the tool-call parser and the path gate around Cedar.
  \<^item> \<open>Vault\<close>: \<open>aria-vault/src/lib.rs\<close>: stored credentials and their release.
  \<^item> \<open>TextOps\<close>, \<open>ToolText\<close>: the operations of \<open>str\<close>; tool results and tool calls as text
    (\<open>aria-intelligence/src/hardware.rs\<close>), untrusted web content.
  \<^item> \<open>ContextTypes\<close>, \<open>Orchestrator\<close>: what a request is answered with, and the reasoning loop
    (\<open>aria-intelligence/src/orchestrator.rs\<close>, \<open>middleware.rs\<close>).
  \<^item> \<open>Schedules\<close>, \<open>Scheduler\<close>: schedules of prompts and the two schedulers, with polls that overlap
    (\<open>aria-intelligence/src/scheduler.rs\<close>, \<open>hardware.rs\<close>, \<open>aria-x/src/tools.rs\<close>).
  \<^item> \<open>ExecRouting\<close>: execution backends and workers (\<open>remote_execution.rs\<close>).
  \<^item> \<open>Learning\<close>, \<open>LearningLaws\<close>: \<open>aria-learning/src/lib.rs\<close> and its tables.
  \<^item> \<open>Mcp\<close>, \<open>McpLaws\<close>, \<open>McpStore\<close>, \<open>McpStoreLaws\<close>: the MCP registry and client
    (\<open>aria-mcp/src/lib.rs\<close>), its tables and tools.
  \<^item> \<open>WorkspaceLock\<close>: the lock of \<open>aria-x/src/workspace_lock.rs\<close>, as a step relation of concurrent runs.
  \<^item> \<open>PathScope\<close>, \<open>WebTargets\<close>, \<open>AgentTypes\<close>, \<open>ToolRequests\<close>: paths and file scopes, addresses and
    domain rules, capability profiles, the arguments of tool calls.
  \<^item> \<open>ToolGuards\<close>, \<open>ToolPolicy\<close>, \<open>ToolGuardLaws\<close>: the guards in front of every tool call and the executor
    behind them (\<open>PolicyCheckedExecutor\<close> of \<open>aria-x/src/tools.rs\<close>).
  \<^item> \<open>ControlIntents\<close>, \<open>Approvals\<close>, \<open>ApprovalLaws\<close>: channels and user commands (\<open>aria-core/src/app.rs\<close>),
    approvals, their handles and decisions (\<open>aria-x/src/approvals.rs\<close>, \<open>runtime_store/approvals.rs\<close>).
  \<^item> \<open>ConnectionPool\<close>: the SQLite connections of the store, as interleaved actions of threads
    (\<open>runtime_store/connection.rs\<close>).
  \<^item> \<open>AuditTables\<close>, \<open>AuditLaws\<close>: the logs of the store and their retention (\<open>runtime_store/audits.rs\<close>);
    the locale \<open>retained_log\<close> is interpreted on each of them.
  \<^item> \<open>WebTables\<close>, \<open>BrowserRuntime\<close>, \<open>BrowserStorage\<close>: the tables of browser, computer and crawling tools
    (locale \<open>keyed_table\<close>), what \<open>aria-x/src/browser.rs\<close> decides around the browsers it drives, and its
    storage policy.

  A theory whose name ends in \<open>Laws\<close>, and \<open>BrowserStorage\<close>, holds the theorems on the definitions of the
  theory it is named after; elsewhere definitions and theorems stand together.

  \<^bold>\<open>Conventions.\<close>  A struct is a record, an enum a datatype, both with the fields and constructors of
  the source; fields carry a prefix of two letters per record.  A SQLite table is the list of its rows in
  insertion order; \<open>u64\<close> times are 64-bit words whose signed reading is what SQL compares.  A
  hash map is a map, or a list with distinct keys where its size or order matters; where the code
  iterates over a hash map the order is a parameter.  An operation is a function from the state to the
  new state and its result; an error is a value.  UUIDs are drawn from a parameter \<open>uid\<close>.  Third-party
  code is a parameter with its documented behaviour as a named hypothesis: the JSON library and the schema
  validator (\<open>ToolSchema\<close>), Cedar (\<open>Policy\<close>), AES-GCM (\<open>Vault\<close>), the model backends (\<open>BackendPool\<close>), the
  pipes of subprocesses (\<open>Mcp\<close>), time zones and cron expressions (\<open>Schedules\<close>), SHA-256 and the URL library
  (\<open>ControlIntents\<close>, \<open>ToolRequests\<close>), the bridge program and the \<open>infer\<close> crate (\<open>BrowserRuntime\<close>).
  SQLite, file and serialisation failures are outside the model unless an operation turns them into a
  result of its own.  Text is ASCII.

  \<^bold>\<open>Loops and bounds.\<close>  Loops are structural recursions over the list they consume, except: the
  mutation of a session retries at most twice, with the remaining attempts as argument; the tree
  traversal \<open>AgentRuns.collect\<close> is a partial function, whose value \<open>None\<close> is non-termination
  (it is proved to return without cycles, and not to return on one); the search for a free alias in
  \<open>ToolCatalog\<close> tries 998 suffixes as the code does, enough for catalogues of up to 999 tools; the orchestrator runs
  as many rounds as its settings say, with the remaining ones as argument; the search for a day of the week in
  \<open>Schedules\<close> ends within seven; the read loop of \<open>Mcp\<close> is a partial function, which gives up after 64 lines
  that have text and is proved not to return on blank lines for ever; the discovery of a catalogue reads 32
  pages at most; a handle of \<open>Approvals\<close> is drawn 32 times at most; the eviction loops of \<open>BrowserRuntime\<close>
  consume the list of rows, and taking a row from an empty list is a panic (\<open>None\<close>).  The numbers 998, 64, 32 are
  those of the code.

  \<^bold>\<open>What the lemmas show.\<close>  Each component has an invariant that its operations keep, characterisations
  of its operations on every branch, and the properties numbered C1, C2, ...: safety of the
  actuator commands, agreement of dead letters and messages, exclusiveness of leases, the log as the truth
  of a session, completeness of a tree cancellation, finality of ended runs, names of native tools that nobody can
  take, exactness of the LRU index, liveness of the fallback, soundness of the path gate; that the
  orchestrator never runs a destructive call by itself, that a call behind the guards satisfies every scope, that an
  approved decision is final, that promotions of learned candidates are justified, that the MCP client holds pipes only to enabled
  servers, that once jobs fire once when polls do not overlap, that workspace locks exclude each other, that the connection pool loses no
  connection, that logs and stored artifacts stay within their limits.  Some properties state what the code does against its intention (lookalike domains, dot-dot paths,
  cycles in run trees, replays that keep their attempt count, fencing tokens that restart, approvals that
  belong to nobody, audit writes that block the pool, session states that share a file).

  \<^bold>\<open>Not modelled.\<close>  The handlers of the built-in tools behind the guards, the semantic router and the retrieval
  of memories (both rank by \<open>f32\<close> embeddings), the skill runtime (WebAssembly engines), the mesh transport, the
  gateways and their adapters, the prompts, configuration, and the operator's interfaces: network, process and
  terminal I/O around the parts above.  \<open>PROJECT.json\<close> lists every component with what is left out of it.\<close>

section \<open>Tools offered to a model\<close>

text \<open>The tools the orchestrator offers (\<open>BackendPool\<close>) and the explanations the operator reads
  (\<open>ToolSchema\<close>).\<close>

lemma offered_mode:
  "tool_calling_mode_for_model (Some p) = NativeTools \<longleftrightarrow> mc_tool_calling p = Supported"
  "tool_calling_mode_for_model (Some p) = CompatTools \<longleftrightarrow> mc_tool_calling p = DegradedSupport"
  by (cases "mc_tool_calling p"; simp add: tool_calling_mode_for_model_def
      tool_calling_mode_for_model_with_repair_def)+

text \<open>A model is offered exactly the tools whose explanation says that they are available to
  it, in catalogue order, if it can call tools at all (natively or in a degraded way), and none
  otherwise; and without a limitation message exactly in the first case.\<close>

lemma offered_tools_are_visible:
  "filter_tools_for_model_capability nrm tools (Some p) =
     (if mc_tool_calling p \<in> {Supported, DegradedSupport}
      then filter (\<lambda>t. vd_available (explain_tool_visibility nrm t (Some p))) tools else []) \<and>
   (tool_mode_limitation_message (Some p) = None \<longleftrightarrow> mc_tool_calling p \<in> {Supported, DegradedSupport})"
proof -
  have vis: "vd_available (explain_tool_visibility nrm t (Some p)) = tool_is_compatible_with_model nrm t (Some p)" for t
    by (auto simp: explain_tool_visibility_def tool_is_compatible_with_model_def schema_decision_def hidden_def
        is_ok_iff split: sum.splits)
  show ?thesis
    by (cases "mc_tool_calling p") (simp_all add: vis filter_tools_for_model_capability_def
        filter_tools_for_model_capability_with_repair_def tool_calling_mode_for_model_with_repair_def
        tool_mode_limitation_message_def tool_calling_mode_for_model_def Let_def)
qed

end
